(* ===== verification/Atlas_Prelude.thy ===== *)
theory Atlas_Prelude
  imports Main "HOL-Library.Word" "HOL-Library.Product_Lexorder" "HOL-Library.List_Lexorder"
    "HOL-Library.Char_ord"
begin

text \<open>
  Shared ground of the development: identifiers and times, the exceptions of the program as
  values of one datatype, sequencing of computations that may raise, the small part of the
  database driver that every repository uses (\<open>one\<close>, \<open>one_or_none\<close>, \<open>scalar\<close>, row-wise
  updates), and the text forms of integers and UUIDs that the program puts into event keys.
\<close>

section \<open>Identifiers and time\<close>

text \<open>
  A \<open>uuid.UUID\<close> is a 128-bit integer (\<open>UUID.int\<close>). A timestamp is a number of microseconds;
  \<open>timedelta\<close> values are integers of the same unit.
\<close>

type_synonym uuid = "128 word"
type_synonym timestamp = int

abbreviation seconds :: "int \<Rightarrow> timestamp" where
  "seconds n \<equiv> n * 1000000"

section \<open>Lemma collections\<close>

named_theorems res_simps "success and failure of sequenced computations"
named_theorems table_simps "reading a table after an update"
named_theorems frame_simps "tables an operation leaves alone"

section \<open>Sequencing computations that may raise\<close>

definition bind_res :: "'e + 'a \<Rightarrow> ('a \<Rightarrow> 'e + 'b) \<Rightarrow> 'e + 'b" where
  "bind_res m f = (case m of Inl e \<Rightarrow> Inl e | Inr x \<Rightarrow> f x)"

lemma bind_res_Inl [simp]: "bind_res (Inl e) f = Inl e"
  by (simp add: bind_res_def)

lemma bind_res_Inr [simp]: "bind_res (Inr x) f = f x"
  by (simp add: bind_res_def)

lemma bind_res_eq_Inr [res_simps]:
  "bind_res m f = Inr y \<longleftrightarrow> (\<exists>x. m = Inr x \<and> f x = Inr y)"
  by (cases m) auto

lemma bind_res_eq_Inl [res_simps]:
  "bind_res m f = Inl e \<longleftrightarrow> m = Inl e \<or> (\<exists>x. m = Inr x \<and> f x = Inl e)"
  by (cases m) auto

lemma bind_res_InrE:
  assumes "bind_res m f = Inr y"
  obtains x where "m = Inr x" "f x = Inr y"
  using assms by (auto simp: res_simps)

lemma bind_res_cong [fundef_cong]:
  "m = m' \<Longrightarrow> (\<And>x. m' = Inr x \<Longrightarrow> f x = f' x) \<Longrightarrow> bind_res m f = bind_res m' f'"
  by (cases m') auto

definition raise_if :: "bool \<Rightarrow> 'e \<Rightarrow> 'e + unit" where
  "raise_if b e = (if b then Inl e else Inr ())"

lemma raise_if_Inr [simp, res_simps]: "raise_if b e = Inr u \<longleftrightarrow> \<not> b"
  by (simp add: raise_if_def)

lemma raise_if_Inl [simp, res_simps]: "raise_if b e = Inl e' \<longleftrightarrow> b \<and> e' = e"
  by (auto simp: raise_if_def)

lemma raise_if_True [simp]: "raise_if True e = Inl e"
  by simp

lemma raise_if_False [simp]: "raise_if False e = Inr ()"
  by simp

text \<open>A \<open>for\<close> loop whose body may raise and threads a state.\<close>

fun fold_res :: "('a \<Rightarrow> 's \<Rightarrow> 'e + 's) \<Rightarrow> 'a list \<Rightarrow> 's \<Rightarrow> 'e + 's" where
  "fold_res f [] s = Inr s"
| "fold_res f (x # xs) s = bind_res (f x s) (fold_res f xs)"

lemma fold_res_invariant:
  assumes "fold_res f xs s = Inr s'" and "P s"
    and "\<And>x t t'. x \<in> set xs \<Longrightarrow> P t \<Longrightarrow> f x t = Inr t' \<Longrightarrow> P t'"
  shows "P s'"
  using assms by (induction xs arbitrary: s) (auto simp: res_simps)

fun map_res :: "('a \<Rightarrow> 'e + 'b) \<Rightarrow> 'a list \<Rightarrow> 'e + 'b list" where
  "map_res f [] = Inr []"
| "map_res f (x # xs) = bind_res (f x) (\<lambda>y. bind_res (map_res f xs) (\<lambda>ys. Inr (y # ys)))"

section \<open>Rows\<close>

text \<open>
  A table is the list of its rows. \<open>update_rows\<close> is \<open>UPDATE \<dots> WHERE\<close>; \<open>scalar\<close> is the first row
  of a query or nothing, as \<open>session.scalar\<close> returns it.
\<close>

definition update_rows :: "('r \<Rightarrow> bool) \<Rightarrow> ('r \<Rightarrow> 'r) \<Rightarrow> 'r list \<Rightarrow> 'r list" where
  "update_rows p f rs = map (\<lambda>r. if p r then f r else r) rs"

lemma update_rows_Nil [simp]: "update_rows p f [] = []"
  by (simp add: update_rows_def)

lemma update_rows_Cons [simp]:
  "update_rows p f (r # rs) = (if p r then f r else r) # update_rows p f rs"
  by (simp add: update_rows_def)

lemma length_update_rows [simp]: "length (update_rows p f rs) = length rs"
  by (simp add: update_rows_def)

lemma set_update_rows [table_simps]:
  "set (update_rows p f rs) = f ` {r \<in> set rs. p r} \<union> {r \<in> set rs. \<not> p r}"
  by (auto simp: update_rows_def)

lemma map_update_rows:
  assumes "\<And>r. p r \<Longrightarrow> g (f r) = g r"
  shows "map g (update_rows p f rs) = map g rs"
  using assms by (induction rs) auto

lemma filter_update_rows_frame:
  assumes "\<And>r. p r \<Longrightarrow> \<not> q r" and "\<And>r. p r \<Longrightarrow> \<not> q (f r)"
  shows "filter q (update_rows p f rs) = filter q rs"
  using assms by (induction rs) auto

lemma update_rows_id:
  assumes "\<And>r. r \<in> set rs \<Longrightarrow> \<not> p r"
  shows "update_rows p f rs = rs"
  using assms by (induction rs) auto

lemma filter_update_rows_same:
  assumes "\<And>r. p r \<Longrightarrow> q (f r) \<longleftrightarrow> q r"
  shows "filter q (update_rows p f rs) = update_rows p f (filter q rs)"
  using assms by (induction rs) auto

definition scalar :: "'a list \<Rightarrow> 'a option" where
  "scalar xs = (case xs of [] \<Rightarrow> None | x # _ \<Rightarrow> Some x)"

lemma scalar_Nil [simp]: "scalar [] = None"
  by (simp add: scalar_def)

lemma scalar_Cons [simp]: "scalar (x # xs) = Some x"
  by (simp add: scalar_def)

lemma scalar_eq_Some [simp]: "scalar xs = Some x \<longleftrightarrow> (\<exists>ys. xs = x # ys)"
  by (cases xs) auto

lemma scalar_eq_None [simp]: "scalar xs = None \<longleftrightarrow> xs = []"
  by (cases xs) auto

text \<open>
  Rows with a unique key: the rows that carry one key value are at most one row.
\<close>

lemma filter_key_unique:
  assumes "distinct (map k rs)" and "r \<in> set rs"
  shows "filter (\<lambda>r'. k r' = k r) rs = [r]"
  using assms
proof (induction rs)
  case Nil
  then show ?case by simp
next
  case (Cons a rs)
  then show ?case
    by (cases "a = r") (auto simp: filter_empty_conv rev_image_eqI)
qed

lemma distinct_map_inj_rows:
  assumes "distinct (map k rs)" and "r \<in> set rs" and "r' \<in> set rs" and "k r = k r'"
  shows "r = r'"
  using assms by (metis distinct_map inj_onD)

lemma length_filter_key_le_1:
  assumes "distinct (map k rs)" and "\<And>r. q r \<Longrightarrow> k r = c"
  shows "length (filter q rs) \<le> 1"
proof -
  have "distinct (map k (filter q rs))"
    using assms(1) distinct_map_filter by blast
  moreover have "set (map k (filter q rs)) \<subseteq> {c}"
    using assms(2) by auto
  ultimately have "length (map k (filter q rs)) \<le> card {c}"
    by (metis card_mono distinct_card finite.emptyI finite.insertI)
  then show ?thesis by simp
qed

section \<open>Text forms\<close>

definition digit_char :: "nat \<Rightarrow> char" where
  "digit_char d = (if d < 10 then char_of (48 + d) else char_of (87 + d))"

fun dec_nat :: "nat \<Rightarrow> string" where
  "dec_nat n = (if n < 10 then [digit_char n] else dec_nat (n div 10) @ [digit_char (n mod 10)])"

declare dec_nat.simps [simp del]

definition str_int :: "int \<Rightarrow> string" where
  "str_int i = (if i < 0 then CHR ''-'' # dec_nat (nat (- i)) else dec_nat (nat i))"

text \<open>The \<open>k\<close> lowest hexadecimal digits of a number, most significant first.\<close>

fun hex_nat :: "nat \<Rightarrow> nat \<Rightarrow> string" where
  "hex_nat 0 n = []"
| "hex_nat (Suc k) n = hex_nat k (n div 16) @ [digit_char (n mod 16)]"

definition str_uuid :: "uuid \<Rightarrow> string" where
  "str_uuid u = (let h = hex_nat 32 (unat u) in
     take 8 h @ ''-'' @ take 4 (drop 8 h) @ ''-'' @ take 4 (drop 12 h) @ ''-'' @
     take 4 (drop 16 h) @ ''-'' @ drop 20 h)"

lemma digit_char_inj: "a < 16 \<Longrightarrow> b < 16 \<Longrightarrow> digit_char a = digit_char b \<Longrightarrow> a = b"
proof -
  assume "a < 16" "b < 16" "digit_char a = digit_char b"
  moreover have "(of_char (digit_char x) :: nat) = (if x < 10 then 48 + x else 87 + x)" if "x < 16" for x
    using that by (auto simp: digit_char_def)
  ultimately have "(if a < 10 then 48 + a else 87 + a) = (if b < 10 then 48 + b else 87 + b)"
    by metis
  then show "a = b"
    by (simp split: if_splits)
qed

lemma length_hex_nat [simp]: "length (hex_nat k n) = k"
  by (induction k arbitrary: n) auto

lemma hex_nat_inj:
  assumes "hex_nat k m = hex_nat k n" and "m < 16 ^ k" and "n < 16 ^ k"
  shows "m = n"
  using assms
proof (induction k arbitrary: m n)
  case 0
  then show ?case by simp
next
  case (Suc k)
  have "m div 16 < 16 ^ k" "n div 16 < 16 ^ k"
    using Suc.prems(2,3) by (auto simp: less_mult_imp_div_less mult.commute)
  moreover have "hex_nat k (m div 16) = hex_nat k (n div 16)"
    and "digit_char (m mod 16) = digit_char (n mod 16)"
    using Suc.prems(1) by auto
  ultimately have "m div 16 = n div 16" "m mod 16 = n mod 16"
    using Suc.IH digit_char_inj by (auto simp del: hex_nat.simps)
  then show ?case
    by (metis div_mult_mod_eq)
qed

lemma regroup_hex:
  assumes "take 8 g @ ''-'' @ take 4 (drop 8 g) @ ''-'' @ take 4 (drop 12 g) @ ''-'' @
     take 4 (drop 16 g) @ ''-'' @ drop 20 g =
     take 8 h @ ''-'' @ take 4 (drop 8 h) @ ''-'' @ take 4 (drop 12 h) @ ''-'' @
     take 4 (drop 16 h) @ ''-'' @ drop 20 h" and "length g = 32" and "length h = 32"
  shows "g = h"
proof -
  have split: "take 8 xs @ take 4 (drop 8 xs) @ take 4 (drop 12 xs) @ take 4 (drop 16 xs) @ drop 20 xs = xs"
    for xs :: string
    using take_add [of 8 4 xs] take_add [of 12 4 xs] take_add [of 16 4 xs]
      append_take_drop_id [of 20 xs]
    by simp
  from assms have "take 8 g = take 8 h" "take 4 (drop 8 g) = take 4 (drop 8 h)"
    "take 4 (drop 12 g) = take 4 (drop 12 h)" "take 4 (drop 16 g) = take 4 (drop 16 h)"
    "drop 20 g = drop 20 h"
    by (auto simp: append_eq_append_conv)
  then show ?thesis
    using split [of g] split [of h] by metis
qed

lemma str_uuid_inj: "str_uuid u = str_uuid v \<Longrightarrow> u = v"
proof -
  assume "str_uuid u = str_uuid v"
  then have "hex_nat 32 (unat u) = hex_nat 32 (unat v)"
    unfolding str_uuid_def Let_def by (rule regroup_hex) simp_all
  moreover have "unat w < 16 ^ 32" for w :: uuid
    using unsigned_less [of w] by simp
  ultimately have "unat u = unat v"
    by (blast dest: hex_nat_inj)
  then show "u = v" by (simp add: word_unat_eq_iff)
qed

lemma str_uuid_eq_iff [simp]: "str_uuid u = str_uuid v \<longleftrightarrow> u = v"
  by (auto dest: str_uuid_inj)

end
