(* ===== verification/Recursive_Query.thy ===== *)
theory Recursive_Query
  imports Atlas_Prelude
begin

text \<open>
  \<open>WITH RECURSIVE \<dots> UNION\<close>: the rows of a table that are reached from the base rows by the join of
  the recursive term. The evaluation is the database's: the rows found in one round are the working
  table of the next, rows found before are dropped, and the query ends when a round finds nothing.
\<close>

lemma length_filter_less:
  assumes "r \<in> set xs" and "Q r" and "\<not> P r" and "\<And>x. P x \<Longrightarrow> Q x"
  shows "length (filter P xs) < length (filter Q xs)"
  using assms(1)
proof (induction xs)
  case (Cons x xs)
  have le: "length (filter P ys) \<le> length (filter Q ys)" for ys
    using assms(4) by (induction ys) auto
  show ?case
  proof (cases "x = r")
    case True
    then show ?thesis using assms(2,3) le [of xs] by simp
  next
    case False
    then have "length (filter P xs) < length (filter Q xs)" using Cons by auto
    then show ?thesis using assms(4) [of x] by auto
  qed
qed simp

function recursive_union :: "('r \<Rightarrow> 'r \<Rightarrow> bool) \<Rightarrow> 'r list \<Rightarrow> 'r list \<Rightarrow> 'r list \<Rightarrow> 'r list" where
  "recursive_union joins table found work =
     (let new = filter (\<lambda>r. r \<notin> set found \<and> list_ex (\<lambda>w. joins w r) work) table
      in if new = [] then found else recursive_union joins table (found @ new) new)"
  by pat_completeness auto

termination
proof (relation "measure (\<lambda>(_, table, found, _). length (filter (\<lambda>r. r \<notin> set found) table))", goal_cases)
  case (2 joins table found work new)
  then have "set new \<noteq> {}" by (simp only: set_empty simp_thms)
  then obtain r where r: "r \<in> set table" "r \<notin> set found" "r \<in> set new"
    unfolding 2(1) by auto
  have "length (filter (\<lambda>r. r \<notin> set (found @ new)) table) < length (filter (\<lambda>r. r \<notin> set found) table)"
    by (rule length_filter_less [OF r(1)]) (use r in simp_all)
  then show ?case by (simp only: in_measure case_prod_conv)
qed simp

declare recursive_union.simps [simp del]

definition with_recursive :: "('r \<Rightarrow> 'r \<Rightarrow> bool) \<Rightarrow> ('r \<Rightarrow> bool) \<Rightarrow> 'r list \<Rightarrow> 'r list" where
  "with_recursive joins base table = recursive_union joins table (filter base table) (filter base table)"

text \<open>The rows the query means: reachable from a base row by joins inside the table.\<close>

inductive reached :: "('r \<Rightarrow> 'r \<Rightarrow> bool) \<Rightarrow> ('r \<Rightarrow> bool) \<Rightarrow> 'r set \<Rightarrow> 'r \<Rightarrow> bool" for joins base table where
  base: "r \<in> table \<Longrightarrow> base r \<Longrightarrow> reached joins base table r"
| step: "reached joins base table w \<Longrightarrow> joins w r \<Longrightarrow> r \<in> table \<Longrightarrow> reached joins base table r"

lemma recursive_union_reached:
  assumes "\<And>r. r \<in> set found \<Longrightarrow> reached joins base (set table) r" and "set work \<subseteq> set found"
    and "\<And>r. r \<in> set table \<Longrightarrow> base r \<Longrightarrow> r \<in> set found"
    and "\<And>w r. w \<in> set found \<Longrightarrow> joins w r \<Longrightarrow> r \<in> set table \<Longrightarrow> w \<in> set work \<or> r \<in> set found"
  shows "set (recursive_union joins table found work) = {r. reached joins base (set table) r}"
  using assms
proof (induction joins table found work rule: recursive_union.induct)
  case (1 joins table found work)
  let ?R = "\<lambda>r. reached joins base (set table) r"
  define new where "new = filter (\<lambda>r. r \<notin> set found \<and> list_ex (\<lambda>w. joins w r) work) table"
  have eq: "recursive_union joins table found work
      = (if new = [] then found else recursive_union joins table (found @ new) new)"
    unfolding recursive_union.simps [of joins table found work] new_def Let_def ..
  have new: "r \<in> set new \<longleftrightarrow> r \<in> set table \<and> r \<notin> set found \<and> (\<exists>w \<in> set work. joins w r)" for r
    by (auto simp: new_def list_ex_iff)
  show ?case
  proof (cases "new = []")
    case True
    have "r \<in> set found" if "?R r" for r
      using that
    proof induction
      case (base r)
      then show ?case by (rule 1(4))
    next
      case (step w r)
      then consider "w \<in> set work" | "r \<in> set found" using 1(5) by blast
      then show ?case using new [of r] step True by cases auto
    qed
    with 1(2) have "set found = {r. ?R r}" by blast
    then show ?thesis by (simp only: eq True simp_thms if_True)
  next
    case False
    have "?R r" if "r \<in> set (found @ new)" for r
    proof (cases "r \<in> set found")
      case True
      then show ?thesis by (rule 1(2))
    next
      case False
      with that new [of r] obtain w where w: "w \<in> set work" "joins w r" "r \<in> set table" by auto
      with 1(3) have "?R w" by (blast intro: 1(2))
      then show ?thesis using w(2,3) by (rule reached.step)
    qed
    moreover have "w \<in> set new \<or> r \<in> set (found @ new)"
      if "w \<in> set (found @ new)" "joins w r" "r \<in> set table" for w r
      using that 1(5) [of w r] new [of r] by auto
    ultimately have "set (recursive_union joins table (found @ new) new) = {r. ?R r}"
      using False 1(4) by (intro 1(1) [OF new_def]) auto
    then show ?thesis by (simp only: eq False if_False)
  qed
qed

theorem set_with_recursive:
  "set (with_recursive joins base table) = {r. reached joins base (set table) r}"
  unfolding with_recursive_def by (rule recursive_union_reached) (auto intro: reached.base)

lemma with_recursive_iff: "r \<in> set (with_recursive joins base table) \<longleftrightarrow> reached joins base (set table) r"
  by (simp add: set_with_recursive)

lemma reached_in_table: "reached joins base table r \<Longrightarrow> r \<in> table"
  by (induction rule: reached.induct)

lemma with_recursive_subset: "set (with_recursive joins base table) \<subseteq> set table"
  using reached_in_table by (auto simp: with_recursive_iff)

text \<open>The query depends on the rows only through what its base and join read.\<close>

lemma reached_map:
  assumes "reached joins base table r"
    and "\<And>r. r \<in> table \<Longrightarrow> f r \<in> table'" and "\<And>r. base r \<Longrightarrow> base (f r)"
    and "\<And>w r. joins w r \<Longrightarrow> joins (f w) (f r)"
  shows "reached joins base table' (f r)"
  using assms(1)
proof induction
  case (base r)
  then show ?case using assms(2,3) by (blast intro: reached.base)
next
  case (step w r)
  show ?case by (rule reached.step [of _ _ _ "f w"]) (use step assms(2,4) in simp_all)
qed

lemma reached_mono:
  assumes "reached joins base table r" and "\<And>r. r \<in> table \<Longrightarrow> base r \<Longrightarrow> base' r" and "table \<subseteq> table'"
  shows "reached joins base' table' r"
  using assms(1)
proof induction
  case (base r)
  then show ?case using assms(2,3) by (auto intro: reached.base)
next
  case (step w r)
  then show ?case using assms(3) by (auto intro: reached.step)
qed

lemma reached_abstract:
  assumes "\<And>r. base r = base' (k r)" and "\<And>w r. joins w r = joins' (k w) (k r)"
  shows "k ` {r. reached joins base table r} = {x. reached joins' base' (k ` table) x}"
proof (intro equalityI subsetI)
  fix x assume "x \<in> k ` {r. reached joins base table r}"
  then obtain r where "reached joins base table r" "x = k r" by blast
  then show "x \<in> {x. reached joins' base' (k ` table) x}"
  proof (induction arbitrary: x)
    case (base r)
    then show ?case using assms(1) by (auto intro: reached.base)
  next
    case (step w r)
    then show ?case using assms(2) by (auto intro: reached.step [of _ _ _ "k w"])
  qed
next
  fix x assume "x \<in> {x. reached joins' base' (k ` table) x}"
  then have "reached joins' base' (k ` table) x" by simp
  then show "x \<in> k ` {r. reached joins base table r}"
  proof induction
    case (base x)
    then obtain r where "r \<in> table" "x = k r" by blast
    with base(2) assms(1) show ?case by (auto intro: reached.base)
  next
    case (step y x)
    then obtain w r where "reached joins base table w" "y = k w" "r \<in> table" "x = k r" by blast
    moreover have "joins w r" using step(2) calculation assms(2) by simp
    ultimately have "reached joins base table r" by (blast intro: reached.step)
    with \<open>x = k r\<close> show ?case by blast
  qed
qed

end
