(* ===== verification/Catalog_Enums.thy ===== *)
theory Catalog_Enums
  imports Atlas_Prelude
begin

text \<open>
  The enumerations of \<open>catalog/enums.py\<close> and \<open>DocumentRoute\<close> of \<open>ingestion/models.py\<close> with their stored text values, and the exceptions of
  the program. A \<open>StrEnum\<close> member is a constructor; \<open>\<dots>_value\<close> is its text, and
  \<open>VersionState_of\<close> is the constructor call \<open>VersionState(text)\<close>, which raises on any other text.
\<close>

section \<open>Enumerations\<close>

datatype CollectionRole = CR_OWNER | CR_EDITOR | CR_VIEWER

datatype VersionState =
    RECEIVED | VALIDATING | QUEUED | PARSING | OCR | NORMALIZING | CHUNKING | EMBEDDING
  | INDEXING | READY | READY_WITH_WARNINGS | DEDUPLICATED | REJECTED | FAILED | QUARANTINED
  | SUPERSEDED | CANCELLED | DELETED

datatype IngestionStage =
    ST_INTAKE | ST_PREFLIGHT | ST_NATIVE_PARSE | ST_OCR | ST_NORMALIZE | ST_CHUNK | ST_EMBED
  | ST_INDEX | ST_DELETE | ST_REPROCESS

datatype JobState =
    JS_PENDING | JS_LEASED | JS_RUNNING | JS_RETRY_SCHEDULED | JS_SUCCEEDED | JS_FAILED
  | JS_CANCELLED | JS_DEAD_LETTERED

datatype ArtifactType =
    AT_ORIGINAL_PDF | AT_INSPECTION_REPORT | AT_EXTRACTED_PAGES | AT_LAYOUT_BLOCKS
  | AT_OCR_RESULT | AT_NORMALIZED_DOCUMENT | AT_CHUNK_MANIFEST | AT_INDEX_MANIFEST

datatype PublicationKind = PK_LEXICAL | PK_VECTOR

datatype DocumentRoute = ROUTE_NATIVE | ROUTE_OCR | ROUTE_MIXED

fun VersionState_value :: "VersionState \<Rightarrow> string" where
  "VersionState_value RECEIVED = ''received''"
| "VersionState_value VALIDATING = ''validating''"
| "VersionState_value QUEUED = ''queued''"
| "VersionState_value PARSING = ''parsing''"
| "VersionState_value OCR = ''ocr''"
| "VersionState_value NORMALIZING = ''normalizing''"
| "VersionState_value CHUNKING = ''chunking''"
| "VersionState_value EMBEDDING = ''embedding''"
| "VersionState_value INDEXING = ''indexing''"
| "VersionState_value READY = ''ready''"
| "VersionState_value READY_WITH_WARNINGS = ''ready_with_warnings''"
| "VersionState_value DEDUPLICATED = ''deduplicated''"
| "VersionState_value REJECTED = ''rejected''"
| "VersionState_value FAILED = ''failed''"
| "VersionState_value QUARANTINED = ''quarantined''"
| "VersionState_value SUPERSEDED = ''superseded''"
| "VersionState_value CANCELLED = ''cancelled''"
| "VersionState_value DELETED = ''deleted''"

definition VersionState_all :: "VersionState list" where
  "VersionState_all =
     [RECEIVED, VALIDATING, QUEUED, PARSING, OCR, NORMALIZING, CHUNKING, EMBEDDING, INDEXING,
      READY, READY_WITH_WARNINGS, DEDUPLICATED, REJECTED, FAILED, QUARANTINED, SUPERSEDED,
      CANCELLED, DELETED]"

fun IngestionStage_value :: "IngestionStage \<Rightarrow> string" where
  "IngestionStage_value ST_INTAKE = ''intake''"
| "IngestionStage_value ST_PREFLIGHT = ''preflight''"
| "IngestionStage_value ST_NATIVE_PARSE = ''native_parse''"
| "IngestionStage_value ST_OCR = ''ocr''"
| "IngestionStage_value ST_NORMALIZE = ''normalize''"
| "IngestionStage_value ST_CHUNK = ''chunk''"
| "IngestionStage_value ST_EMBED = ''embed''"
| "IngestionStage_value ST_INDEX = ''index''"
| "IngestionStage_value ST_DELETE = ''delete''"
| "IngestionStage_value ST_REPROCESS = ''reprocess''"

section \<open>Exceptions\<close>

text \<open>
  Messages are kept where the source spells them out. \<open>IntegrityError\<close> carries the name of the
  violated constraint, \<open>DatabaseError\<close> the text a trigger raises, \<open>StorageError\<close> stands for
  \<open>BotoCoreError\<close> and \<open>ClientError\<close>, and \<open>UnexpectedError\<close> for any other exception of a
  dependency.
\<close>

datatype py_error =
    CatalogNotFoundError string
  | CatalogForbiddenError string
  | CatalogConflictError string
  | CatalogQuotaError string
  | CatalogValidationError string
  | CatalogDependencyError string
  | StaleTransitionError string
  | IllegalTransitionError string
  | JobFenceLostError string
  | TerminalIngestionError VersionState string
  | RetryableIngestionError string int
  | SearchPublicationError string
  | OcrProviderTemporaryError string
  | StorageIntegrityError string
  | StorageError
  | OSError
  | ValueError string
  | KeyError string
  | RuntimeError string
  | IntegrityError string
  | DatabaseError string
  | NoResultFound
  | MultipleResultsFound
  | UnexpectedError string

type_synonym 'a res = "py_error + 'a"

text \<open>The \<open>code\<close> class attribute of \<open>catalog/errors.py\<close>.\<close>

fun catalog_error_code :: "py_error \<Rightarrow> string option" where
  "catalog_error_code (CatalogNotFoundError _) = Some ''NOT_FOUND''"
| "catalog_error_code (CatalogForbiddenError _) = Some ''FORBIDDEN''"
| "catalog_error_code (CatalogConflictError _) = Some ''CONFLICT''"
| "catalog_error_code (CatalogQuotaError _) = Some ''QUOTA_EXCEEDED''"
| "catalog_error_code (CatalogValidationError _) = Some ''INVALID_UPLOAD''"
| "catalog_error_code (CatalogDependencyError _) = Some ''DEPENDENCY_UNAVAILABLE''"
| "catalog_error_code _ = None"

text \<open>The exception hierarchy, as far as an \<open>except\<close> clause of the program tests it.\<close>

fun is_CatalogTransitionError :: "py_error \<Rightarrow> bool" where
  "is_CatalogTransitionError (StaleTransitionError _) = True"
| "is_CatalogTransitionError (IllegalTransitionError _) = True"
| "is_CatalogTransitionError _ = False"

fun is_ValueError :: "py_error \<Rightarrow> bool" where
  "is_ValueError (ValueError _) = True"
| "is_ValueError (StorageIntegrityError _) = True"
| "is_ValueError e = is_CatalogTransitionError e"

fun is_RuntimeError :: "py_error \<Rightarrow> bool" where
  "is_RuntimeError (RuntimeError _) = True"
| "is_RuntimeError (JobFenceLostError _) = True"
| "is_RuntimeError (TerminalIngestionError _ _) = True"
| "is_RuntimeError (RetryableIngestionError _ _) = True"
| "is_RuntimeError (SearchPublicationError _) = True"
| "is_RuntimeError (OcrProviderTemporaryError _) = True"
| "is_RuntimeError _ = False"

fun is_IntegrityError :: "py_error \<Rightarrow> bool" where
  "is_IntegrityError (IntegrityError _) = True"
| "is_IntegrityError _ = False"

fun error_text :: "py_error \<Rightarrow> string" where
  "error_text (StaleTransitionError m) = m"
| "error_text (IllegalTransitionError m) = m"
| "error_text (ValueError m) = m"
| "error_text _ = []"

definition VersionState_of :: "string \<Rightarrow> VersionState res" where
  "VersionState_of s =
     (case filter (\<lambda>v. VersionState_value v = s) VersionState_all of
        [] \<Rightarrow> Inl (ValueError ''not a valid VersionState'')
      | v # _ \<Rightarrow> Inr v)"

lemma VersionState_all_UNIV: "set VersionState_all = UNIV"
proof -
  have "v \<in> set VersionState_all" for v
    by (cases v) (simp_all add: VersionState_all_def)
  then show ?thesis by blast
qed

lemma VersionState_of_value: "VersionState_of (VersionState_value v) = Inr v"
  by (cases v) (simp_all add: VersionState_of_def VersionState_all_def)

lemma VersionState_value_inj [simp]: "VersionState_value v = VersionState_value w \<longleftrightarrow> v = w"
  using VersionState_of_value by (metis sum.inject(2))

section \<open>Query results\<close>

text \<open>\<open>Result.one()\<close> and \<open>Result.one_or_none()\<close> of the database driver.\<close>

fun one_or_none :: "'a list \<Rightarrow> 'a option res" where
  "one_or_none [] = Inr None"
| "one_or_none [x] = Inr (Some x)"
| "one_or_none _ = Inl MultipleResultsFound"

fun one :: "'a list \<Rightarrow> 'a res" where
  "one [] = Inl NoResultFound"
| "one [x] = Inr x"
| "one _ = Inl MultipleResultsFound"

lemma one_or_none_Some [res_simps]: "one_or_none xs = Inr (Some x) \<longleftrightarrow> xs = [x]"
  by (cases xs rule: one_or_none.cases) auto

lemma one_or_none_None [res_simps]: "one_or_none xs = Inr None \<longleftrightarrow> xs = []"
  by (cases xs rule: one_or_none.cases) auto

lemma one_Inr [res_simps]: "one xs = Inr x \<longleftrightarrow> xs = [x]"
  by (cases xs rule: one.cases) auto

end
