(* ===== verification/Python_Values.thy ===== *)
theory Python_Values
  imports Catalog_Enums Complex_Main
begin

text \<open>
  The part of Python's built-in text and JSON values the ingestion code relies on: \<open>str.strip\<close>,
  \<open>str.find\<close>, \<open>str.replace\<close>, slices, \<open>int(text, base)\<close>, \<open>uuid.UUID(text)\<close>, and JSON values with
  the dictionary access of a parsed line. A string is a list of code points up to 255. A line of a
  JSON-lines file is held as the value that \<open>json.loads\<close> returns for it. A float is the rational
  number it stands for; the program only copies floats, compares them and takes a minimum.
\<close>

section \<open>Text\<close>

definition py_space :: "char \<Rightarrow> bool" where
  "py_space c \<longleftrightarrow> (let n = (of_char c :: nat) in
     9 \<le> n \<and> n \<le> 13 \<or> 28 \<le> n \<and> n \<le> 32 \<or> n = 133 \<or> n = 160)"

definition strip_chars :: "(char \<Rightarrow> bool) \<Rightarrow> string \<Rightarrow> string" where
  "strip_chars p s = rev (dropWhile p (rev (dropWhile p s)))"

abbreviation py_strip :: "string \<Rightarrow> string" where
  "py_strip \<equiv> strip_chars py_space"

text \<open>\<open>text[a:b]\<close> for bounds that are not negative.\<close>

definition py_slice :: "'a list \<Rightarrow> nat \<Rightarrow> nat \<Rightarrow> 'a list" where
  "py_slice xs a b = take (b - a) (drop a xs)"

text \<open>\<open>text.find(sub, start)\<close>, with \<open>None\<close> for -1.\<close>

function find_from :: "string \<Rightarrow> string \<Rightarrow> nat \<Rightarrow> nat option" where
  "find_from hay sub i =
     (if i + length sub > length hay then None
      else if take (length sub) (drop i hay) = sub then Some i
      else find_from hay sub (Suc i))"
  by pat_completeness auto
termination
  by (relation "measure (\<lambda>(hay, sub, i). Suc (length hay) - i)") auto

declare find_from.simps [simp del]

lemma find_from_Some:
  "find_from hay sub i = Some k \<Longrightarrow>
     i \<le> k \<and> k + length sub \<le> length hay \<and> take (length sub) (drop k hay) = sub"
proof (induction hay sub i rule: find_from.induct)
  case (1 hay sub i)
  from "1.prems" show ?case
    by (subst (asm) find_from.simps) (auto split: if_splits dest: "1.IH")
qed

text \<open>\<open>text.replace(old, new)\<close> for a non-empty \<open>old\<close>.\<close>

function py_replace :: "string \<Rightarrow> string \<Rightarrow> string \<Rightarrow> string" where
  "py_replace old new s =
     (if old = [] \<or> s = [] then s
      else if take (length old) s = old then new @ py_replace old new (drop (length old) s)
      else hd s # py_replace old new (tl s))"
  by pat_completeness auto
termination
  by (relation "measure (\<lambda>(old, new, s). length s)") auto

declare py_replace.simps [simp del]

lemma py_replace_absent:
  assumes "c \<in> set old" and "c \<notin> set s"
  shows "py_replace old new s = s"
  using assms
proof (induction old new s rule: py_replace.induct)
  case (1 old new s)
  show ?case
  proof (cases "s = []")
    case False
    have "take (length old) s \<noteq> old"
      using "1.prems" by (metis in_set_takeD)
    moreover have "c \<notin> set (tl s)"
      using "1.prems"(2) by (metis list.set_sel(2) False)
    ultimately show ?thesis
      using "1.IH"(2) "1.prems" False by (subst py_replace.simps) auto
  qed (simp add: py_replace.simps)
qed

text \<open>Dropping a character.\<close>

lemma py_replace_char: "py_replace [c] [] s = filter (\<lambda>x. x \<noteq> c) s"
proof (induction "[c]" "[] :: string" s rule: py_replace.induct)
  case (1 s)
  then show ?case by (cases s) (simp_all add: py_replace.simps [of "[c]"])
qed

section \<open>Integers from text\<close>

fun digits_value :: "(char \<Rightarrow> nat option) \<Rightarrow> nat \<Rightarrow> nat \<Rightarrow> bool \<Rightarrow> string \<Rightarrow> nat option" where
  "digits_value dv b acc prev [] = (if prev then Some acc else None)"
| "digits_value dv b acc prev (c # cs) =
     (if c = CHR ''_'' then (if prev then digits_value dv b acc False cs else None)
      else case dv c of None \<Rightarrow> None | Some d \<Rightarrow> digits_value dv b (acc * b + d) True cs)"

definition digit_value :: "nat \<Rightarrow> char \<Rightarrow> nat option" where
  "digit_value b c = (let n = (of_char c :: nat);
       d = (if 48 \<le> n \<and> n \<le> 57 then n - 48 else if 97 \<le> n \<and> n \<le> 122 then n - 87
            else if 65 \<le> n \<and> n \<le> 90 then n - 55 else b)
     in if d < b then Some d else None)"

text \<open>\<open>int(text, base)\<close> for base 10 and 16: white space around, a sign, for base 16 a prefix, and
  single underscores between digits.\<close>

definition py_int :: "nat \<Rightarrow> string \<Rightarrow> int res" where
  "py_int b s =
     (let t = py_strip s;
          neg = (t \<noteq> [] \<and> hd t = CHR ''-'');
          u = (if t \<noteq> [] \<and> hd t \<in> {CHR ''-'', CHR ''+''} then tl t else t);
          w = (if b = 16 \<and> take 2 u \<in> {''0x'', ''0X''}
               then (let r = drop 2 u in if r \<noteq> [] \<and> hd r = CHR ''_'' then tl r else r) else u)
      in case digits_value (digit_value b) b 0 False w of
           None \<Rightarrow> Inl (ValueError ''invalid literal for int()'')
         | Some n \<Rightarrow> Inr (if neg then - int n else int n))"

definition parse_uuid :: "string \<Rightarrow> uuid res" where
  "parse_uuid s =
     (let hex = py_replace ''-'' [] (strip_chars (\<lambda>c. c \<in> set ''{}'')
                  (py_replace ''uuid:'' [] (py_replace ''urn:'' [] s)))
      in if length hex \<noteq> 32 then Inl (ValueError ''badly formed hexadecimal UUID string'')
         else bind_res (py_int 16 hex) (\<lambda>i.
           if 0 \<le> i \<and> i < 2 ^ 128 then Inr (word_of_int i)
           else Inl (ValueError ''int is out of range (need a 128-bit value)'')))"

section \<open>JSON values\<close>

datatype json =
    JNull | JBool bool | JInt int | JFloat rat | JStr string
  | JArr "json list" | JObj "(string \<times> json) list"

text \<open>\<open>record.get(key, default)\<close>: only a dictionary has the method.\<close>

fun json_get :: "string \<Rightarrow> json \<Rightarrow> json \<Rightarrow> json res" where
  "json_get k d (JObj fs) = Inr (case map_of fs k of None \<Rightarrow> d | Some v \<Rightarrow> v)"
| "json_get k d _ = Inl (UnexpectedError ''AttributeError'')"

text \<open>\<open>value in {None, text}\<close>: a list or dictionary is not hashable.\<close>

fun none_or :: "string \<Rightarrow> json \<Rightarrow> bool res" where
  "none_or t (JArr _) = Inl (UnexpectedError ''TypeError'')"
| "none_or t (JObj _) = Inl (UnexpectedError ''TypeError'')"
| "none_or t v = Inr (v = JNull \<or> v = JStr t)"

text \<open>\<open>int(value)\<close>.\<close>

fun json_int :: "json \<Rightarrow> int res" where
  "json_int (JInt n) = Inr n"
| "json_int (JBool b) = Inr (if b then 1 else 0)"
| "json_int (JFloat r) = Inr (if r \<ge> 0 then \<lfloor>r\<rfloor> else \<lceil>r\<rceil>)"
| "json_int (JStr s) = py_int 10 s"
| "json_int _ = Inl (UnexpectedError ''TypeError'')"

text \<open>A generator: the values it yields, and the exception it ends with, if any.\<close>

type_synonym 'a gen = "'a list \<times> py_error option"

definition gen_cons :: "'a \<Rightarrow> 'a gen \<Rightarrow> 'a gen" where
  "gen_cons x g = (x # fst g, snd g)"

text \<open>A consumer that needs all values.\<close>

definition gen_list :: "'a gen \<Rightarrow> 'a list res" where
  "gen_list g = (case snd g of None \<Rightarrow> Inr (fst g) | Some e \<Rightarrow> Inl e)"

section \<open>A UUID survives its text form\<close>

lemma digit_char_value: "d < 16 \<Longrightarrow> digit_value 16 (digit_char d) = Some d"
  by (auto simp: digit_value_def digit_char_def Let_def)

lemma digit_char_plain:
  assumes "d < 16"
  shows "digit_char d \<noteq> CHR ''_''" "digit_char d \<noteq> CHR ''-''" "digit_char d \<noteq> CHR ''+''"
    "digit_char d \<noteq> CHR '':''" "digit_char d \<noteq> CHR ''x''" "digit_char d \<noteq> CHR ''X''"
    "digit_char d \<notin> set ''{}''" "\<not> py_space (digit_char d)"
proof -
  have "list_all (\<lambda>d. digit_char d \<noteq> CHR ''_'' \<and> digit_char d \<noteq> CHR ''-'' \<and> digit_char d \<noteq> CHR ''+''
    \<and> digit_char d \<noteq> CHR '':'' \<and> digit_char d \<noteq> CHR ''x'' \<and> digit_char d \<noteq> CHR ''X''
    \<and> digit_char d \<notin> set ''{}'' \<and> \<not> py_space (digit_char d)) [0..<16]"
    by code_simp
  with assms show "digit_char d \<noteq> CHR ''_''" "digit_char d \<noteq> CHR ''-''" "digit_char d \<noteq> CHR ''+''"
    "digit_char d \<noteq> CHR '':''" "digit_char d \<noteq> CHR ''x''" "digit_char d \<noteq> CHR ''X''"
    "digit_char d \<notin> set ''{}''" "\<not> py_space (digit_char d)"
    unfolding list_all_iff by simp_all
qed

lemma hex_nat_digits: "c \<in> set (hex_nat k n) \<Longrightarrow> \<exists>d < 16. c = digit_char d"
proof (induction k arbitrary: n)
  case (Suc k)
  then consider "c \<in> set (hex_nat k (n div 16))" | "c = digit_char (n mod 16)" by auto
  then show ?case
  proof cases
    case 2
    then show ?thesis by (intro exI [of _ "n mod 16"]) simp
  qed (rule Suc.IH)
qed simp

lemma digits_value_snoc:
  assumes "digits_value dv b acc prev xs = Some n" and "dv c = Some d" and "c \<noteq> CHR ''_''" and "xs \<noteq> [] \<or> prev"
  shows "digits_value dv b acc prev (xs @ [c]) = Some (n * b + d)"
  using assms
proof (induction dv b acc prev xs rule: digits_value.induct)
  case (2 dv b acc prev x xs)
  then show ?case by (cases xs) (auto split: option.splits if_splits)
qed auto

lemma hex_value:
  assumes "0 < k"
  shows "digits_value (digit_value 16) 16 0 False (hex_nat k n) = Some (n mod 16 ^ k)"
  using assms
proof (induction k arbitrary: n)
  case 0
  then show ?case by simp
next
  case (Suc k)
  let ?c = "digit_char (n mod 16)"
  have c: "digit_value 16 ?c = Some (n mod 16)" "?c \<noteq> CHR ''_''"
    by (simp_all add: digit_char_value digit_char_plain)
  show ?case
  proof (cases k)
    case 0
    with c show ?thesis by simp
  next
    case (Suc j)
    then have "digits_value (digit_value 16) 16 0 False (hex_nat k (n div 16)) = Some (n div 16 mod 16 ^ k)"
      using Suc.IH by simp
    moreover have "hex_nat k (n div 16) \<noteq> []"
      using Suc by (metis length_hex_nat list.size(3) nat.distinct(1))
    ultimately have "digits_value (digit_value 16) 16 0 False (hex_nat (Suc k) n)
        = Some ((n div 16 mod 16 ^ k) * 16 + n mod 16)"
      using digits_value_snoc c by simp
    moreover have "(n div 16 mod 16 ^ k) * 16 + n mod 16 = n mod 16 ^ Suc k"
      by (simp add: mod_mult2_eq)
    ultimately show ?thesis by simp
  qed
qed

lemma strip_chars_plain:
  assumes "\<forall>c \<in> set s. \<not> p c"
  shows "strip_chars p s = s"
proof -
  have "dropWhile p t = t" if "\<forall>c \<in> set t. \<not> p c" for t
    using that by (cases t) simp_all
  from this [of s] this [of "rev s"] assms show ?thesis by (simp add: strip_chars_def)
qed

lemma py_int_hex:
  assumes "0 < k"
  shows "py_int 16 (hex_nat k n) = Inr (int (n mod 16 ^ k))"
proof -
  let ?h = "hex_nat k n"
  have pl: "\<not> py_space c \<and> c \<noteq> CHR ''-'' \<and> c \<noteq> CHR ''+'' \<and> c \<noteq> CHR ''x'' \<and> c \<noteq> CHR ''X''" if "c \<in> set ?h" for c
    using hex_nat_digits [OF that] digit_char_plain by auto
  then have st: "py_strip ?h = ?h" by (intro strip_chars_plain) simp
  have ne: "?h \<noteq> []" using assms by (metis length_hex_nat list.size(3) less_irrefl)
  then have "hd ?h \<in> set ?h" by simp
  with pl have hd: "hd ?h \<notin> {CHR ''-'', CHR ''+''}" by auto
  have pre: "take 2 ?h \<notin> {''0x'', ''0X''}"
  proof
    assume "take 2 ?h \<in> {''0x'', ''0X''}"
    then have "CHR ''x'' \<in> set (take 2 ?h) \<or> CHR ''X'' \<in> set (take 2 ?h)" by auto
    then have "CHR ''x'' \<in> set ?h \<or> CHR ''X'' \<in> set ?h" by (blast dest: in_set_takeD)
    with pl show False by blast
  qed
  show ?thesis
    unfolding py_int_def Let_def st using hd pre ne by (simp add: hex_value [OF assms])
qed

lemma parse_uuid_str: "parse_uuid (str_uuid u) = Inr u"
proof -
  define h where "h = hex_nat 32 (unat u)"
  have str: "str_uuid u = take 8 h @ ''-'' @ take 4 (drop 8 h) @ ''-'' @ take 4 (drop 12 h) @ ''-'' @
     take 4 (drop 16 h) @ ''-'' @ drop 20 h"
    by (simp add: str_uuid_def Let_def h_def)
  have sub: "set (str_uuid u) \<subseteq> set h \<union> {CHR ''-''}"
    unfolding str using set_take_subset set_drop_subset by fastforce
  have pl: "c \<noteq> CHR ''-'' \<and> c \<noteq> CHR '':'' \<and> c \<notin> set ''{}''" if "c \<in> set h" for c
    using hex_nat_digits [OF that [unfolded h_def]] digit_char_plain by auto
  have "CHR '':'' \<notin> set (str_uuid u)" using sub pl by auto
  then have r: "py_replace ''uuid:'' [] (py_replace ''urn:'' [] (str_uuid u)) = str_uuid u"
    by (simp add: py_replace_absent [of "CHR '':''"])
  have st: "strip_chars (\<lambda>c. c \<in> set ''{}'') (str_uuid u) = str_uuid u"
    using sub pl by (intro strip_chars_plain) auto
  have keep: "filter (\<lambda>x. x \<noteq> CHR ''-'') xs = xs" if "set xs \<subseteq> set h" for xs
    using that pl by (auto simp: filter_id_conv)
  have sets: "set (take n h) \<subseteq> set h" "set (take m (drop n h)) \<subseteq> set h" "set (drop n h) \<subseteq> set h" for m n
    by (auto dest: in_set_takeD in_set_dropD)
  have "filter (\<lambda>x. x \<noteq> CHR ''-'') (str_uuid u)
      = take 8 h @ take 4 (drop 8 h) @ take 4 (drop 12 h) @ take 4 (drop 16 h) @ drop 20 h"
    unfolding str by (simp add: keep sets)
  also have "\<dots> = h"
    using take_add [of 8 4 h] take_add [of 12 4 h] take_add [of 16 4 h] append_take_drop_id [of 20 h] by simp
  finally have hex: "py_replace ''-'' [] (strip_chars (\<lambda>c. c \<in> set ''{}'')
      (py_replace ''uuid:'' [] (py_replace ''urn:'' [] (str_uuid u)))) = h"
    unfolding r st py_replace_char .
  have len: "length h = 32" by (simp add: h_def)
  have lt: "unat u < 16 ^ 32" using unsigned_less [of u] by simp
  have "py_int 16 h = Inr (int (unat u))"
    using py_int_hex [of 32 "unat u"] lt by (simp add: h_def)
  moreover have "int (unat u) < 2 ^ 128" using lt unfolding of_nat_less_iff [symmetric, where 'a = int] by simp
  ultimately show ?thesis
    unfolding parse_uuid_def Let_def hex by (simp add: len)
qed

end
