(* ===== verification/Page_Artifacts.thy ===== *)
theory Page_Artifacts
  imports Python_Values
begin

text \<open>
  \<open>ingestion/models.py\<close> and \<open>ingestion/artifacts.py\<close>: the page records, the JSON-lines page
  artifact with its writer and its validating reader, and the merge of OCR pages into a parsed
  document. \<open>model_dump\<close> and \<open>model_validate\<close> of the validation library are arguments
  (\<open>dump\<close>, \<open>validate\<close>); what the round trips need of them is that a dumped page validates to
  itself. Output files are fresh, so that the exclusive \<open>open\<close> succeeds.
\<close>

section \<open>Records\<close>

datatype PageOrigin = PO_NATIVE | PO_OCR | PO_MIXED

fun DocumentRoute_value :: "DocumentRoute \<Rightarrow> string" where
  "DocumentRoute_value ROUTE_NATIVE = ''native''"
| "DocumentRoute_value ROUTE_OCR = ''ocr''"
| "DocumentRoute_value ROUTE_MIXED = ''mixed''"

record Bounds =
  bd_left :: rat
  bd_bottom :: rat
  bd_right :: rat
  bd_top :: rat

record TextBlock =
  tb_ordinal :: int
  tb_text :: string
  tb_bounds :: "Bounds option"

record NormalizedPage =
  np_page_number :: int
  np_origin :: PageOrigin
  np_text :: string
  np_blocks :: "TextBlock list"
  np_language_hint :: string
  np_quality_score :: rat
  np_warnings :: "string list"

text \<open>The field constraints of \<open>NormalizedPage\<close>.\<close>

definition new_page :: "NormalizedPage \<Rightarrow> NormalizedPage res" where
  "new_page p =
     (if np_page_number p < 1 then Inl (ValueError ''page_number'')
      else if np_quality_score p < 0 \<or> np_quality_score p > 1 then Inl (ValueError ''quality_score'')
      else Inr p)"

record InspectionReport =
  ir_parser_name :: string
  ir_parser_version :: string
  ir_page_count :: int
  ir_route :: DocumentRoute
  ir_native_page_count :: int
  ir_ocr_page_numbers :: "int list"
  ir_extracted_text_chars :: int
  ir_warnings :: "string list"

definition new_inspection :: "InspectionReport \<Rightarrow> InspectionReport res" where
  "new_inspection r =
     (if ir_page_count r < 1 then Inl (ValueError ''page_count'')
      else if ir_native_page_count r < 0 then Inl (ValueError ''native_page_count'')
      else if ir_extracted_text_chars r < 0 then Inl (ValueError ''extracted_text_chars'')
      else Inr r)"

section \<open>\<open>PageArtifactWriter\<close>\<close>

record PageArtifactWriter =
  pw_document_version_id :: uuid
  pw_output :: "json list"
  pw_page_count :: int

definition page_writer :: "uuid \<Rightarrow> string \<Rightarrow> string \<Rightarrow> PageArtifactWriter" where
  "page_writer document_version_id parser_name parser_version =
     \<lparr>pw_document_version_id = document_version_id,
      pw_output =
        [JObj [(''record_type'', JStr ''header''), (''schema_version'', JStr ''normalized-pages-v1''),
               (''document_version_id'', JStr (str_uuid document_version_id)),
               (''parser_name'', JStr parser_name), (''parser_version'', JStr parser_version)]],
      pw_page_count = 0\<rparr>"

definition page_line :: "(NormalizedPage \<Rightarrow> json) \<Rightarrow> uuid \<Rightarrow> NormalizedPage \<Rightarrow> json" where
  "page_line dump v p =
     JObj [(''record_type'', JStr ''page''), (''document_version_id'', JStr (str_uuid v)), (''page'', dump p)]"

definition write_page ::
  "(NormalizedPage \<Rightarrow> json) \<Rightarrow> NormalizedPage \<Rightarrow> PageArtifactWriter \<Rightarrow> PageArtifactWriter" where
  "write_page dump p w =
     w\<lparr>pw_output := pw_output w @ [page_line dump (pw_document_version_id w) p],
       pw_page_count := pw_page_count w + 1\<rparr>"

definition finish_pages :: "InspectionReport \<Rightarrow> PageArtifactWriter \<Rightarrow> json list res" where
  "finish_pages inspection w =
     (if pw_page_count w \<noteq> ir_page_count inspection
      then Inl (ValueError ''page artifact count does not match inspection'')
      else Inr (pw_output w @
        [JObj [(''record_type'', JStr ''manifest''), (''page_count'', JInt (pw_page_count w)),
               (''route'', JStr (DocumentRoute_value (ir_route inspection))),
               (''ocr_page_numbers'', JArr (map JInt (ir_ocr_page_numbers inspection)))]]))"

section \<open>\<open>iter_page_artifact\<close>\<close>

definition scope_matches :: "string \<Rightarrow> string \<Rightarrow> string \<Rightarrow> json \<Rightarrow> unit res" where
  "scope_matches key expected message record =
     bind_res (json_get key JNull record) (\<lambda>value.
     bind_res (none_or expected value) (\<lambda>ok. raise_if (\<not> ok) (ValueError message)))"

text \<open>The body of the loop: the page to yield, if any, and the declared page count so far.\<close>

definition page_record ::
  "(json \<Rightarrow> NormalizedPage res) \<Rightarrow> uuid \<Rightarrow> nat \<Rightarrow> int \<Rightarrow> int option \<Rightarrow> json
   \<Rightarrow> (NormalizedPage option \<times> int option) res" where
  "page_record validate v line_number expected declared record =
     bind_res (scope_matches ''document_version_id'' (str_uuid v)
         ''page artifact document version does not match'' record) (\<lambda>_.
     bind_res (json_get ''record_type'' JNull record) (\<lambda>record_type.
     if line_number = 1 \<and> record_type \<noteq> JStr ''header''
     then Inl (ValueError ''page artifact header is missing'')
     else if record_type = JStr ''page''
     then bind_res (json_get ''page'' JNull record) (\<lambda>body.
          bind_res (validate body) (\<lambda>page.
          if np_page_number page \<noteq> expected
          then Inl (ValueError ''page artifact ordering is invalid'')
          else Inr (Some page, declared)))
     else if record_type = JStr ''manifest''
     then bind_res (json_get ''page_count'' (JInt (-1)) record) (\<lambda>count.
          bind_res (json_int count) (\<lambda>n. Inr (None, Some n)))
     else Inr (None, declared)))"

fun iter_pages ::
  "(json \<Rightarrow> NormalizedPage res) \<Rightarrow> uuid \<Rightarrow> nat \<Rightarrow> int \<Rightarrow> int option \<Rightarrow> json list \<Rightarrow> NormalizedPage gen" where
  "iter_pages validate v line_number expected declared [] =
     ([], if declared = Some (expected - 1) then None
          else Some (ValueError ''page artifact manifest count does not match records''))"
| "iter_pages validate v line_number expected declared (record # lines) =
     (case page_record validate v line_number expected declared record of
        Inl e \<Rightarrow> ([], Some e)
      | Inr (Some page, declared') \<Rightarrow>
          gen_cons page (iter_pages validate v (Suc line_number) (expected + 1) declared' lines)
      | Inr (None, declared') \<Rightarrow> iter_pages validate v (Suc line_number) expected declared' lines)"

definition iter_page_artifact ::
  "(json \<Rightarrow> NormalizedPage res) \<Rightarrow> json list \<Rightarrow> uuid \<Rightarrow> NormalizedPage gen" where
  "iter_page_artifact validate lines expected_version_id =
     iter_pages validate expected_version_id 1 1 None lines"

section \<open>OCR pages\<close>

definition write_ocr_pages ::
  "(NormalizedPage \<Rightarrow> json) \<Rightarrow> uuid \<Rightarrow> string \<Rightarrow> string \<Rightarrow> int \<Rightarrow> NormalizedPage list \<Rightarrow> json list" where
  "write_ocr_pages dump document_version_id provider_name provider_version source_page_count pages =
     [JObj [(''record_type'', JStr ''header''), (''schema_version'', JStr ''ocr-pages-v1''),
            (''document_version_id'', JStr (str_uuid document_version_id)),
            (''provider_name'', JStr provider_name), (''provider_version'', JStr provider_version),
            (''source_page_count'', JInt source_page_count)]] @
     map (page_line dump document_version_id) pages @
     [JObj [(''record_type'', JStr ''manifest''),
            (''document_version_id'', JStr (str_uuid document_version_id)),
            (''source_page_count'', JInt source_page_count),
            (''selected_page_count'', JInt (int (length pages))),
            (''page_numbers'', JArr (map (\<lambda>p. JInt (np_page_number p)) pages))]]"

fun renumber_blocks :: "TextBlock list \<Rightarrow> TextBlock list \<Rightarrow> TextBlock list" where
  "renumber_blocks combined [] = combined"
| "renumber_blocks combined (b # bs) =
     renumber_blocks (combined @ [b\<lparr>tb_ordinal := int (length combined)\<rparr>]) bs"

definition merge_page :: "NormalizedPage \<Rightarrow> NormalizedPage \<Rightarrow> NormalizedPage res" where
  "merge_page native_page ocr_page =
     (if py_strip (np_text native_page) = [] then Inr ocr_page
      else new_page \<lparr>np_page_number = np_page_number native_page, np_origin = PO_MIXED,
        np_text = np_text native_page @ [CHR 0x0A] @ np_text ocr_page,
        np_blocks = renumber_blocks (np_blocks native_page) (np_blocks ocr_page),
        np_language_hint = np_language_hint ocr_page,
        np_quality_score = min (np_quality_score native_page) (np_quality_score ocr_page),
        np_warnings = sort (remdups (np_warnings native_page @ [''OCR_ENRICHED'']))\<rparr>)"

text \<open>The state of the loop of \<open>merge_ocr_pages\<close>: the writer, the OCR pages not yet used, and the
  two counters besides the page count of the writer.\<close>

record merge_state =
  ms_writer :: PageArtifactWriter
  ms_pending :: "NormalizedPage list"
  ms_native_page_count :: int
  ms_total_characters :: int
  ms_page_count :: int

definition merge_step ::
  "(NormalizedPage \<Rightarrow> json) \<Rightarrow> NormalizedPage \<Rightarrow> merge_state \<Rightarrow> merge_state res" where
  "merge_step dump native_page st =
     bind_res (case scalar (filter (\<lambda>q. np_page_number q = np_page_number native_page) (ms_pending st)) of
         None \<Rightarrow> Inr native_page
       | Some ocr_page \<Rightarrow> merge_page native_page ocr_page) (\<lambda>merged.
     Inr (st\<lparr>ms_writer := write_page dump merged (ms_writer st),
             ms_pending := filter (\<lambda>q. np_page_number q \<noteq> np_page_number native_page) (ms_pending st),
             ms_native_page_count := ms_native_page_count st + (if np_origin merged = PO_NATIVE then 1 else 0),
             ms_total_characters := ms_total_characters st + int (length (np_text merged)),
             ms_page_count := ms_page_count st + 1\<rparr>))"

definition merge_ocr_pages ::
  "(NormalizedPage \<Rightarrow> json) \<Rightarrow> (json \<Rightarrow> NormalizedPage res) \<Rightarrow> json list \<Rightarrow> uuid \<Rightarrow> NormalizedPage list \<Rightarrow> string
   \<Rightarrow> (json list \<times> InspectionReport) res" where
  "merge_ocr_pages dump validate source document_version_id ocr_pages generator_version =
     (if \<not> distinct (map np_page_number ocr_pages)
      then Inl (ValueError ''OCR page output contains duplicate page numbers'')
      else (let g = iter_page_artifact validate source document_version_id in
        bind_res (fold_res (merge_step dump) (fst g)
            \<lparr>ms_writer = page_writer document_version_id ''native+ocr'' generator_version,
             ms_pending = ocr_pages, ms_native_page_count = 0, ms_total_characters = 0,
             ms_page_count = 0\<rparr>) (\<lambda>st.
        case snd g of Some e \<Rightarrow> Inl e
        | None \<Rightarrow>
            if ms_pending st \<noteq> []
            then Inl (ValueError ''OCR output references a page outside the source artifact'')
            else bind_res (new_inspection
                \<lparr>ir_parser_name = ''native+ocr'', ir_parser_version = generator_version,
                 ir_page_count = ms_page_count st,
                 ir_route = (if ms_native_page_count st = 0 then ROUTE_OCR else ROUTE_MIXED),
                 ir_native_page_count = ms_native_page_count st,
                 ir_ocr_page_numbers = map np_page_number ocr_pages,
                 ir_extracted_text_chars = ms_total_characters st,
                 ir_warnings = [''OCR_ENRICHED'']\<rparr>) (\<lambda>inspection.
              bind_res (finish_pages inspection (ms_writer st)) (\<lambda>lines. Inr (lines, inspection))))))"

section \<open>Writing and reading pages\<close>

fun numbered :: "int \<Rightarrow> NormalizedPage list \<Rightarrow> bool" where
  "numbered n [] \<longleftrightarrow> True"
| "numbered n (p # ps) \<longleftrightarrow> np_page_number p = n \<and> numbered (n + 1) ps"

lemma numbered_ge: "numbered n ps \<Longrightarrow> p \<in> set ps \<Longrightarrow> n \<le> np_page_number p"
  by (induction ps arbitrary: n) fastforce+

lemma numbered_distinct: "numbered n ps \<Longrightarrow> distinct (map np_page_number ps)"
  by (induction ps arbitrary: n) (fastforce dest: numbered_ge)+

lemma fold_write_pages:
  "fold (write_page dump) ps w = w\<lparr>pw_output := pw_output w @ map (page_line dump (pw_document_version_id w)) ps,
     pw_page_count := pw_page_count w + int (length ps)\<rparr>"
  by (induction ps arbitrary: w) (simp_all add: write_page_def)

lemma scope_matches_same [simp]:
  "map_of fs key = Some (JStr t) \<Longrightarrow> scope_matches key t msg (JObj fs) = Inr ()"
  "map_of fs key = None \<Longrightarrow> scope_matches key t msg (JObj fs) = Inr ()"
  "map_of fs key = Some (JStr t') \<Longrightarrow> t' \<noteq> t \<Longrightarrow> scope_matches key t msg (JObj fs) = Inl (ValueError msg)"
  by (simp_all add: scope_matches_def)

lemma page_record_page:
  "validate (dump p) = Inr p \<Longrightarrow> np_page_number p = n \<Longrightarrow> k \<noteq> 1
    \<Longrightarrow> page_record validate v k n d (page_line dump v p) = Inr (Some p, d)"
  by (simp add: page_line_def page_record_def)

lemma iter_pages_written:
  assumes "\<forall>p \<in> set ps. validate (dump p) = Inr p" and "numbered n ps" and "1 < k"
  shows "iter_pages validate v k n d (map (page_line dump v) ps @ rest)
    = (ps @ fst (iter_pages validate v (k + length ps) (n + int (length ps)) d rest),
       snd (iter_pages validate v (k + length ps) (n + int (length ps)) d rest))"
  using assms
proof (induction ps arbitrary: n k)
  case (Cons p ps)
  from Cons.prems have "iter_pages validate v (Suc k) (n + 1) d (map (page_line dump v) ps @ rest)
      = (ps @ fst (iter_pages validate v (Suc k + length ps) (n + 1 + int (length ps)) d rest),
         snd (iter_pages validate v (Suc k + length ps) (n + 1 + int (length ps)) d rest))"
    by (intro Cons.IH) simp_all
  with Cons.prems show ?case
    by (simp add: page_record_page gen_cons_def add.assoc add.commute [of 1])
qed simp

lemma page_artifact_reads:
  assumes "\<forall>p \<in> set pages. validate (dump p) = Inr p" and "numbered 1 pages"
    and "ir_page_count inspection = int (length pages)"
  shows "\<exists>lines. finish_pages inspection (fold (write_page dump) pages (page_writer v name version)) = Inr lines
    \<and> iter_page_artifact validate lines v = (pages, None)
    \<and> (\<forall>v'. v' \<noteq> v \<longrightarrow> iter_page_artifact validate lines v'
         = ([], Some (ValueError ''page artifact document version does not match'')))"
proof -
  let ?m = "JObj [(''record_type'', JStr ''manifest''), (''page_count'', JInt (int (length pages))),
               (''route'', JStr (DocumentRoute_value (ir_route inspection))),
               (''ocr_page_numbers'', JArr (map JInt (ir_ocr_page_numbers inspection)))]"
  let ?h = "JObj [(''record_type'', JStr ''header''), (''schema_version'', JStr ''normalized-pages-v1''),
               (''document_version_id'', JStr (str_uuid v)),
               (''parser_name'', JStr name), (''parser_version'', JStr version)]"
  let ?lines = "?h # map (page_line dump v) pages @ [?m]"
  have w: "finish_pages inspection (fold (write_page dump) pages (page_writer v name version)) = Inr ?lines"
    using assms(3) by (simp add: finish_pages_def fold_write_pages page_writer_def)
  have "iter_page_artifact validate ?lines v = (pages, None)"
    using iter_pages_written [OF assms(1,2), of 2 v None "[?m]"]
    by (simp add: iter_page_artifact_def numeral_2_eq_2 page_record_def)
  moreover have "iter_page_artifact validate ?lines v'
         = ([], Some (ValueError ''page artifact document version does not match''))" if "v' \<noteq> v" for v'
    using that by (simp add: iter_page_artifact_def page_record_def)
  ultimately show ?thesis using w by blast
qed

lemma numbered_unique: "numbered n ps \<Longrightarrow> numbered n qs \<Longrightarrow> length ps = length qs
    \<Longrightarrow> map np_page_number ps = map np_page_number qs"
proof (induction ps arbitrary: n qs)
  case (Cons p ps)
  then show ?case by (cases qs) auto
qed simp

text \<open>What the page writer writes, the page reader reads back: for pages numbered from 1 and an
  inspection with their count, the finished file yields exactly these pages and no error under
  its own document version, and under any other version no page and a version error.\<close>

theorem page_artifact_roundtrip:
  assumes "\<forall>p \<in> set pages. validate (dump p) = Inr p" and "numbered 1 pages"
    and "ir_page_count inspection = int (length pages)"
  shows "\<exists>lines. finish_pages inspection (fold (write_page dump) pages (page_writer v name version)) = Inr lines
    \<and> iter_page_artifact validate lines v = (pages, None)
    \<and> (\<forall>v'. v' \<noteq> v \<longrightarrow> iter_page_artifact validate lines v'
         = ([], Some (ValueError ''page artifact document version does not match'')))"
  by (rule page_artifact_reads [OF assms])

lemma page_record_Inr:
  assumes "page_record validate v k n d l = Inr (mp, d')"
  shows "scope_matches ''document_version_id'' (str_uuid v) ''page artifact document version does not match'' l = Inr ()
    \<and> (k = 1 \<longrightarrow> json_get ''record_type'' JNull l = Inr (JStr ''header''))
    \<and> (\<forall>p. mp = Some p \<longrightarrow> np_page_number p = n)"
  using assms unfolding page_record_def by (auto elim!: bind_res_InrE split: if_splits)

lemma iter_pages_sound:
  assumes "iter_pages validate v k n d lines = (ps, None)"
  shows "numbered n ps \<and> (\<forall>l \<in> set lines. scope_matches ''document_version_id'' (str_uuid v)
               ''page artifact document version does not match'' l = Inr ())
    \<and> (k = 1 \<and> lines \<noteq> [] \<longrightarrow> json_get ''record_type'' JNull (hd lines) = Inr (JStr ''header''))"
  using assms
proof (induction lines arbitrary: k n d ps)
  case (Cons l lines)
  show ?case
  proof (cases "page_record validate v k n d l")
    case (Inl e)
    with Cons.prems show ?thesis by simp
  next
    case (Inr x)
    obtain mp d' where x: "x = (mp, d')" by (cases x)
    note r = page_record_Inr [OF Inr [unfolded x]]
    show ?thesis
    proof (cases mp)
      case None
      with Cons.prems Inr x have "iter_pages validate v (Suc k) n d' lines = (ps, None)" by simp
      from Cons.IH [OF this] r show ?thesis by simp
    next
      case (Some page)
      with Cons.prems Inr x obtain qs where qs: "iter_pages validate v (Suc k) (n + 1) d' lines = (qs, None)" "ps = page # qs"
        by (cases "iter_pages validate v (Suc k) (n + 1) d' lines") (simp add: gen_cons_def)
      from Cons.IH [OF qs(1)] r Some qs(2) show ?thesis by simp
    qed
  qed
qed (simp split: if_splits)

section \<open>Merging OCR pages\<close>

definition merge_one :: "NormalizedPage list \<Rightarrow> NormalizedPage \<Rightarrow> NormalizedPage res" where
  "merge_one ocr p =
     (case scalar (filter (\<lambda>q. np_page_number q = np_page_number p) ocr) of
        None \<Rightarrow> Inr p | Some q \<Rightarrow> merge_page p q)"

lemma merge_one_number:
  assumes "merge_one ocr p = Inr m"
  shows "np_page_number m = np_page_number p"
proof (cases "filter (\<lambda>q. np_page_number q = np_page_number p) ocr")
  case Nil
  with assms show ?thesis by (simp add: merge_one_def)
next
  case (Cons q qs)
  then have "q \<in> set (filter (\<lambda>q. np_page_number q = np_page_number p) ocr)" by simp
  then have "np_page_number q = np_page_number p" by simp
  with assms Cons show ?thesis
    by (auto simp: merge_one_def merge_page_def new_page_def split: if_splits)
qed

lemma merge_one_frame:
  "np_page_number p \<noteq> n \<Longrightarrow> merge_one (filter (\<lambda>q. np_page_number q \<noteq> n) ocr) p = merge_one ocr p"
proof -
  assume "np_page_number p \<noteq> n"
  then have eq: "filter (\<lambda>q. np_page_number q \<noteq> n \<and> np_page_number q = np_page_number p) ocr
      = filter (\<lambda>q. np_page_number q = np_page_number p) ocr"
    by (intro filter_cong) auto
  show ?thesis unfolding merge_one_def filter_filter eq ..
qed

lemma map_res_cong:
  assumes "\<And>x. x \<in> set xs \<Longrightarrow> f x = g x"
  shows "map_res f xs = map_res g xs"
  using assms by (induction xs) simp_all

lemma merge_fold:
  assumes "fold_res (merge_step dump) ps st = Inr st'" and "distinct (map np_page_number ps)"
  shows "\<exists>merged. map_res (merge_one (ms_pending st)) ps = Inr merged
    \<and> ms_writer st' = fold (write_page dump) merged (ms_writer st)
    \<and> ms_pending st' = filter (\<lambda>q. np_page_number q \<notin> np_page_number ` set ps) (ms_pending st)
    \<and> ms_native_page_count st' = ms_native_page_count st + int (length (filter (\<lambda>m. np_origin m = PO_NATIVE) merged))
    \<and> ms_total_characters st' = ms_total_characters st + (\<Sum>m\<leftarrow>merged. int (length (np_text m)))
    \<and> ms_page_count st' = ms_page_count st + int (length merged)"
  using assms
proof (induction ps arbitrary: st)
  case (Cons p ps)
  from Cons.prems(1) obtain st1 where st1: "merge_step dump p st = Inr st1"
    and rest: "fold_res (merge_step dump) ps st1 = Inr st'"
    by (auto elim: bind_res_InrE)
  from st1 obtain m where m: "merge_one (ms_pending st) p = Inr m"
    and e: "st1 = st\<lparr>ms_writer := write_page dump m (ms_writer st),
             ms_pending := filter (\<lambda>q. np_page_number q \<noteq> np_page_number p) (ms_pending st),
             ms_native_page_count := ms_native_page_count st + (if np_origin m = PO_NATIVE then 1 else 0),
             ms_total_characters := ms_total_characters st + int (length (np_text m)),
             ms_page_count := ms_page_count st + 1\<rparr>"
    unfolding merge_step_def merge_one_def [symmetric] by (elim bind_res_InrE) simp
  from Cons.IH [OF rest] Cons.prems(2) obtain ms where ms: "map_res (merge_one (ms_pending st1)) ps = Inr ms"
    and w: "ms_writer st' = fold (write_page dump) ms (ms_writer st1)"
      "ms_pending st' = filter (\<lambda>q. np_page_number q \<notin> np_page_number ` set ps) (ms_pending st1)"
      "ms_native_page_count st' = ms_native_page_count st1 + int (length (filter (\<lambda>m. np_origin m = PO_NATIVE) ms))"
      "ms_total_characters st' = ms_total_characters st1 + (\<Sum>m\<leftarrow>ms. int (length (np_text m)))"
      "ms_page_count st' = ms_page_count st1 + int (length ms)"
    by auto
  have "map_res (merge_one (ms_pending st1)) ps = map_res (merge_one (ms_pending st)) ps"
  proof (rule map_res_cong)
    fix x assume "x \<in> set ps"
    with Cons.prems(2) have "np_page_number x \<noteq> np_page_number p" by (metis distinct.simps(2) image_eqI list.simps(9) set_map)
    then show "merge_one (ms_pending st1) x = merge_one (ms_pending st) x" by (simp add: e merge_one_frame)
  qed
  with ms m have "map_res (merge_one (ms_pending st)) (p # ps) = Inr (m # ms)" by simp
  then show ?case
    using w by (intro exI [of _ "m # ms"]) (auto simp: e intro!: filter_cong)
qed simp

lemma map_res_merge_numbered:
  "map_res (merge_one ocr) ps = Inr ms \<Longrightarrow> numbered n ps \<Longrightarrow> numbered n ms \<and> length ms = length ps"
  by (induction ps arbitrary: n ms) (auto elim!: bind_res_InrE dest: merge_one_number)

lemma map_res_set:
  "map_res f xs = Inr ys \<Longrightarrow> y \<in> set ys \<Longrightarrow> \<exists>x \<in> set xs. f x = Inr y"
  by (induction xs arbitrary: ys) (auto elim!: bind_res_InrE)

section \<open>What the validation library guarantees\<close>

text \<open>
  The field constraints of a page and of its blocks. \<open>model_validate\<close> accepts what \<open>model_dump\<close> makes of a page that
  meets them, returns the same page, and returns no other page.
\<close>

definition valid_page :: "NormalizedPage \<Rightarrow> bool" where
  "valid_page p \<longleftrightarrow> 1 \<le> np_page_number p \<and> 0 \<le> np_quality_score p \<and> np_quality_score p \<le> 1
     \<and> (\<forall>b \<in> set (np_blocks p). 0 \<le> tb_ordinal b)"

definition page_codec :: "(NormalizedPage \<Rightarrow> json) \<Rightarrow> (json \<Rightarrow> NormalizedPage res) \<Rightarrow> bool" where
  "page_codec dump validate \<longleftrightarrow> (\<forall>p. valid_page p \<longrightarrow> validate (dump p) = Inr p) \<and> (\<forall>j p. validate j = Inr p \<longrightarrow> valid_page p)"

lemma new_page_valid:
  "new_page p = Inr q \<longleftrightarrow> q = p \<and> 1 \<le> np_page_number p \<and> 0 \<le> np_quality_score p \<and> np_quality_score p \<le> 1"
  by (auto simp: new_page_def)

lemma iter_pages_valid:
  assumes "\<forall>j p. validate j = Inr p \<longrightarrow> valid_page p"
  shows "p \<in> set (fst (iter_pages validate v k n d lines)) \<Longrightarrow> valid_page p"
proof (induction lines arbitrary: k n d)
  case (Cons l ls)
  have page: "valid_page q" if "page_record validate v k n d l = Inr (Some q, d')" for q d'
    using that assms unfolding page_record_def by (auto elim!: bind_res_InrE split: if_splits)
  show ?case
    using Cons.prems Cons.IH page by (auto simp: gen_cons_def split: sum.splits prod.splits option.splits)
qed simp

lemma iter_page_artifact_valid:
  "page_codec dump validate \<Longrightarrow> p \<in> set (fst (iter_page_artifact validate lines v)) \<Longrightarrow> valid_page p"
  unfolding page_codec_def iter_page_artifact_def using iter_pages_valid by blast

lemma renumber_blocks_valid:
  "\<forall>b \<in> set combined. 0 \<le> tb_ordinal b \<Longrightarrow> b \<in> set (renumber_blocks combined bs) \<Longrightarrow> 0 \<le> tb_ordinal b"
  by (induction combined bs rule: renumber_blocks.induct) auto

lemma merge_one_valid:
  assumes "merge_one ocr p = Inr m" and "valid_page p" and "\<forall>q \<in> set ocr. valid_page q"
  shows "valid_page m"
proof (cases "filter (\<lambda>q. np_page_number q = np_page_number p) ocr")
  case Nil
  with assms show ?thesis by (simp add: merge_one_def)
next
  case (Cons q qs)
  then have "q \<in> set (filter (\<lambda>q. np_page_number q = np_page_number p) ocr)" by simp
  then have q: "valid_page q" using assms(3) by simp
  have m: "merge_page p q = Inr m" using assms(1) Cons by (simp add: merge_one_def)
  show ?thesis
  proof (cases "py_strip (np_text p) = []")
    case True
    with m q show ?thesis by (simp add: merge_page_def)
  next
    case False
    have "0 \<le> tb_ordinal b" if "b \<in> set (renumber_blocks (np_blocks p) (np_blocks q))" for b
      using renumber_blocks_valid [OF _ that] assms(2) by (simp add: valid_page_def)
    with m False show ?thesis by (auto simp: merge_page_def new_page_valid valid_page_def)
  qed
qed

text \<open>A successful merge keeps the page order of the parsed artifact, replaces or enriches exactly
  the pages that have an OCR page and leaves every other page as it was, uses every OCR page, and
  its report counts pages, native pages and characters of the merged document. The file it writes
  reads back as the merged pages.\<close>

theorem merge_ocr_pages_effect:
  assumes "merge_ocr_pages dump validate source v ocr gv = Inr (lines, report)"
    and "\<forall>p \<in> set (fst (iter_page_artifact validate source v)). \<forall>m. merge_one ocr p = Inr m \<longrightarrow> validate (dump m) = Inr m"
  shows "\<exists>native merged. iter_page_artifact validate source v = (native, None)
    \<and> map_res (merge_one ocr) native = Inr merged
    \<and> map np_page_number merged = map np_page_number native
    \<and> np_page_number ` set ocr \<subseteq> np_page_number ` set native
    \<and> iter_page_artifact validate lines v = (merged, None)
    \<and> ir_page_count report = int (length native) \<and> 1 \<le> ir_page_count report
    \<and> ir_native_page_count report = int (length (filter (\<lambda>m. np_origin m = PO_NATIVE) merged))
    \<and> ir_extracted_text_chars report = (\<Sum>m\<leftarrow>merged. int (length (np_text m)))"
proof -
  let ?g = "iter_page_artifact validate source v"
  obtain native err where g: "?g = (native, err)" by (cases ?g)
  let ?st = "\<lparr>ms_writer = page_writer v ''native+ocr'' gv, ms_pending = ocr, ms_native_page_count = 0,
      ms_total_characters = 0, ms_page_count = 0\<rparr>"
  note a = assms(1) [unfolded merge_ocr_pages_def Let_def g fst_conv snd_conv]
  from a obtain st where st: "fold_res (merge_step dump) native ?st = Inr st"
    by (auto elim: bind_res_InrE split: if_splits)
  from a st have err: "err = None" and pend: "ms_pending st = []"
    by (auto split: if_splits option.splits)
  from a st err pend have nw: "lines_ok"
    if "\<And>insp. new_inspection insp = Inr report \<Longrightarrow> finish_pages report (ms_writer st) = Inr lines
       \<Longrightarrow> ir_page_count insp = ms_page_count st \<Longrightarrow> ir_native_page_count insp = ms_native_page_count st
       \<Longrightarrow> ir_extracted_text_chars insp = ms_total_characters st \<Longrightarrow> lines_ok" for lines_ok
    using that by (auto elim!: bind_res_InrE split: if_splits)
  have num: "numbered 1 native"
    using iter_pages_sound [of validate v 1 1 None source native] g err by (simp add: iter_page_artifact_def)
  from merge_fold [OF st numbered_distinct [OF num]] obtain merged where
    m: "map_res (merge_one ocr) native = Inr merged"
    and w: "ms_writer st = fold (write_page dump) merged (page_writer v ''native+ocr'' gv)"
      "filter (\<lambda>q. np_page_number q \<notin> np_page_number ` set native) ocr = []"
      "ms_native_page_count st = int (length (filter (\<lambda>m. np_origin m = PO_NATIVE) merged))"
      "ms_total_characters st = (\<Sum>m\<leftarrow>merged. int (length (np_text m)))"
      "ms_page_count st = int (length merged)"
    using pend by auto
  note nm = map_res_merge_numbered [OF m num]
  have val: "\<forall>p \<in> set merged. validate (dump p) = Inr p"
    using map_res_set [OF m] assms(2) g by fastforce
  have nums: "map np_page_number merged = map np_page_number native"
    using nm num by (intro numbered_unique) simp_all
  show ?thesis
  proof (rule nw)
    fix insp assume i: "new_inspection insp = Inr report" "finish_pages report (ms_writer st) = Inr lines"
      "ir_page_count insp = ms_page_count st" "ir_native_page_count insp = ms_native_page_count st"
      "ir_extracted_text_chars insp = ms_total_characters st"
    from i(1) have r: "report = insp" "1 \<le> ir_page_count report" by (auto simp: new_inspection_def split: if_splits)
    have "ir_page_count report = int (length merged)" using r i(3) w(5) by simp
    from page_artifact_reads [OF val conjunct1 [OF nm] this, of v "''native+ocr''" gv] i(2) w(1)
    have "iter_page_artifact validate lines v = (merged, None)" by simp
    moreover have "np_page_number ` set ocr \<subseteq> np_page_number ` set native"
      using w(2) by (auto simp: filter_empty_conv)
    ultimately show ?thesis
      using g err m nums r i w nm by simp
  qed
qed

section \<open>Witnesses\<close>

definition sample_page :: NormalizedPage where
  "sample_page = \<lparr>np_page_number = 1, np_origin = PO_NATIVE, np_text = '' '', np_blocks = [],
     np_language_hint = ''en'', np_quality_score = 1, np_warnings = []\<rparr>"

definition sample_ocr_page :: NormalizedPage where
  "sample_ocr_page = sample_page\<lparr>np_origin := PO_OCR, np_text := ''scan''\<rparr>"

definition sample_inspection :: InspectionReport where
  "sample_inspection = \<lparr>ir_parser_name = ''p'', ir_parser_version = ''v1'', ir_page_count = 1,
     ir_route = ROUTE_NATIVE, ir_native_page_count = 1, ir_ocr_page_numbers = [],
     ir_extracted_text_chars = 1, ir_warnings = []\<rparr>"

text \<open>A dump that keeps the text only, and a validation of the two sample pages.\<close>

definition sample_dump :: "NormalizedPage \<Rightarrow> json" where
  "sample_dump p = JStr (np_text p)"

definition sample_validate :: "json \<Rightarrow> NormalizedPage res" where
  "sample_validate j = (if j = JStr '' '' then Inr sample_page
     else if j = JStr ''scan'' then Inr sample_ocr_page else Inl (ValueError ''page''))"

lemma sample_codec:
  "sample_validate (sample_dump sample_page) = Inr sample_page"
  "sample_validate (sample_dump sample_ocr_page) = Inr sample_ocr_page"
  by (simp_all add: sample_validate_def sample_dump_def sample_page_def sample_ocr_page_def)

theorem page_artifact_roundtrip_witness:
  "\<exists>lines. finish_pages sample_inspection (fold (write_page sample_dump) [sample_page] (page_writer 4 ''p'' ''v1'')) = Inr lines
    \<and> iter_page_artifact sample_validate lines 4 = ([sample_page], None)"
proof -
  have "numbered 1 [sample_page]" "ir_page_count sample_inspection = int (length [sample_page])"
    by (simp_all add: sample_page_def sample_inspection_def)
  from page_artifact_roundtrip [OF _ this, of sample_validate sample_dump 4 "''p''" "''v1''"] show ?thesis
    by (auto simp: sample_codec)
qed

definition sample_pages_file :: "json list" where
  "sample_pages_file = pw_output (write_page sample_dump sample_page (page_writer 4 ''p'' ''v1''))
     @ [JObj [(''record_type'', JStr ''manifest''), (''page_count'', JInt 1)]]"

lemma sample_pages_file_reads: "iter_page_artifact sample_validate sample_pages_file 4 = ([sample_page], None)"
proof -
  have "sample_validate (sample_dump sample_page) = Inr sample_page" by (rule sample_codec)
  then show ?thesis
    by (simp add: iter_page_artifact_def sample_pages_file_def page_writer_def write_page_def page_line_def
        page_record_def gen_cons_def sample_page_def)
qed

lemma sample_merge_one: "merge_one [sample_ocr_page] sample_page = Inr sample_ocr_page"
  by (simp add: merge_one_def merge_page_def strip_chars_def py_space_def sample_page_def sample_ocr_page_def)

lemma sample_merge:
  "\<exists>lines report. merge_ocr_pages sample_dump sample_validate sample_pages_file 4 [sample_ocr_page] ''g'' = Inr (lines, report)"
proof -
  have "merge_step sample_dump sample_page st = Inr (st\<lparr>ms_writer := write_page sample_dump sample_ocr_page (ms_writer st),
       ms_pending := [], ms_native_page_count := ms_native_page_count st, ms_total_characters := ms_total_characters st + 4,
       ms_page_count := ms_page_count st + 1\<rparr>)" if "ms_pending st = [sample_ocr_page]" for st
    using sample_merge_one that
    by (simp add: merge_step_def merge_one_def sample_ocr_page_def sample_page_def)
  then show ?thesis
    by (simp add: merge_ocr_pages_def sample_pages_file_reads new_inspection_def finish_pages_def write_page_def page_writer_def)
qed

theorem merge_ocr_pages_effect_witness:
  "\<exists>lines report. merge_ocr_pages sample_dump sample_validate sample_pages_file 4 [sample_ocr_page] ''g'' = Inr (lines, report)
    \<and> iter_page_artifact sample_validate lines 4 = ([sample_ocr_page], None) \<and> ir_page_count report = 1"
proof -
  from sample_merge obtain lines report where m:
    "merge_ocr_pages sample_dump sample_validate sample_pages_file 4 [sample_ocr_page] ''g'' = Inr (lines, report)" by blast
  from merge_ocr_pages_effect [OF m] have "iter_page_artifact sample_validate lines 4 = ([sample_ocr_page], None) \<and> ir_page_count report = 1"
    by (auto simp: sample_pages_file_reads sample_merge_one sample_codec)
  with m show ?thesis by blast
qed

end
