(* ===== verification/Chunking.thy ===== *)
theory Chunking
  imports Page_Artifacts
begin

text \<open>
  \<open>ingestion/chunking.py\<close> and the ingestion policy of \<open>core/pipeline_config.py\<close>: the token windows
  of a page, the chunk records, and the chunk manifest with its writer and validating reader. The
  reader loop that the chunk, embedding and index manifests repeat is defined once
  (\<open>iter_manifest\<close>). The tokenizer (\<open>spans\<close>), SHA-256 and \<open>uuid5\<close> are arguments.
\<close>

section \<open>Policy\<close>

record IngestionPolicySettings =
  po_upload_max_bytes :: int
  po_pdf_max_pages :: int
  po_pdf_allow_embedded_files :: bool
  po_pdf_max_content_stream_bytes_per_page :: int
  po_normalized_max_bytes :: int
  po_extracted_text_max_chars :: int
  po_native_min_text_chars_per_page :: int
  po_native_max_blocks_per_page :: int
  po_max_chunks :: int
  po_chunk_max_tokens :: int
  po_chunk_overlap_tokens :: int
  po_chunk_page_max_chars :: int
  po_queue_age_alert_seconds :: int
  po_allowed_mime_types :: "string list"
  po_ocr_language_codes :: "string list"
  po_ocr_min_confidence :: rat
  po_ocr_render_dpi :: int
  po_ocr_page_timeout_seconds :: int
  po_ocr_max_rendered_page_bytes :: int

abbreviation mebibyte :: int where
  "mebibyte \<equiv> 1048576"

definition policy_fields_ok :: "IngestionPolicySettings \<Rightarrow> bool" where
  "policy_fields_ok p \<longleftrightarrow>
     1 \<le> po_upload_max_bytes p \<and> po_upload_max_bytes p \<le> 500 * mebibyte
     \<and> 1 \<le> po_pdf_max_pages p \<and> po_pdf_max_pages p \<le> 2500
     \<and> 1 \<le> po_pdf_max_content_stream_bytes_per_page p
     \<and> po_pdf_max_content_stream_bytes_per_page p \<le> 32 * mebibyte
     \<and> 1 \<le> po_normalized_max_bytes p \<and> po_normalized_max_bytes p \<le> 512 * mebibyte
     \<and> 1 \<le> po_extracted_text_max_chars p \<and> po_extracted_text_max_chars p \<le> 50000000
     \<and> 1 \<le> po_native_min_text_chars_per_page p \<and> po_native_min_text_chars_per_page p \<le> 1000
     \<and> 1 \<le> po_native_max_blocks_per_page p \<and> po_native_max_blocks_per_page p \<le> 50000
     \<and> 1 \<le> po_max_chunks p \<and> po_max_chunks p \<le> 25000
     \<and> 16 \<le> po_chunk_max_tokens p \<and> po_chunk_max_tokens p \<le> 126
     \<and> 0 \<le> po_chunk_overlap_tokens p \<and> po_chunk_overlap_tokens p \<le> 64
     \<and> 1000 \<le> po_chunk_page_max_chars p \<and> po_chunk_page_max_chars p \<le> 5000000
     \<and> 1 \<le> po_queue_age_alert_seconds p \<and> po_queue_age_alert_seconds p \<le> 3600
     \<and> 0 \<le> po_ocr_min_confidence p \<and> po_ocr_min_confidence p \<le> 9/10
     \<and> 150 \<le> po_ocr_render_dpi p \<and> po_ocr_render_dpi p \<le> 400
     \<and> 1 \<le> po_ocr_page_timeout_seconds p \<and> po_ocr_page_timeout_seconds p \<le> 300
     \<and> mebibyte \<le> po_ocr_max_rendered_page_bytes p \<and> po_ocr_max_rendered_page_bytes p \<le> 128 * mebibyte"

definition validate_supported_policy :: "IngestionPolicySettings \<Rightarrow> IngestionPolicySettings res" where
  "validate_supported_policy p =
     (if po_allowed_mime_types p \<noteq> [''application/pdf'']
      then Inl (ValueError ''version 1 supports only application/pdf'')
      else if po_pdf_allow_embedded_files p
      then Inl (ValueError ''embedded PDF files are not supported'')
      else if po_chunk_overlap_tokens p \<ge> po_chunk_max_tokens p
      then Inl (ValueError ''chunk overlap must be smaller than chunk size'')
      else Inr p)"

definition new_policy :: "IngestionPolicySettings \<Rightarrow> IngestionPolicySettings res" where
  "new_policy p =
     (if policy_fields_ok p then validate_supported_policy p
      else Inl (ValueError ''ingestion policy field out of range''))"

section \<open>Chunks\<close>

record BlockBound =
  bb_block_ordinal :: int
  bb_char_start :: nat
  bb_char_end :: nat
  bb_bounds :: "Bounds option"

record ChunkRecord =
  cr_chunk_id :: uuid
  cr_ordinal :: int
  cr_page_start :: int
  cr_page_end :: int
  cr_char_start :: nat
  cr_char_end :: nat
  cr_text :: string
  cr_content_sha256 :: string
  cr_token_count :: int
  cr_section_path :: "string list"
  cr_block_bounds :: "BlockBound list"
  cr_chunker_name :: string
  cr_chunker_version :: string

definition CHUNK_NAMESPACE :: uuid where
  "CHUNK_NAMESPACE = 0x7f901dc86e5753ada14be5aeb5ea407d"

definition CHUNKER_NAME :: string where
  "CHUNKER_NAME = ''page-token-window''"

definition CHUNKER_VERSION :: string where
  "CHUNKER_VERSION = ''v1''"

fun block_bounds_from :: "string \<Rightarrow> nat \<Rightarrow> nat \<Rightarrow> nat \<Rightarrow> TextBlock list \<Rightarrow> BlockBound list" where
  "block_bounds_from page_text char_start char_end cursor [] = []"
| "block_bounds_from page_text char_start char_end cursor (b # bs) =
     (case find_from page_text (tb_text b) cursor of
        None \<Rightarrow> block_bounds_from page_text char_start char_end cursor bs
      | Some block_start \<Rightarrow>
          let block_end = block_start + length (tb_text b);
              rest = block_bounds_from page_text char_start char_end block_end bs
          in if block_end \<le> char_start \<or> block_start \<ge> char_end then rest
             else \<lparr>bb_block_ordinal = tb_ordinal b, bb_char_start = max block_start char_start,
                   bb_char_end = min block_end char_end, bb_bounds = tb_bounds b\<rparr> # rest)"

definition block_bounds :: "NormalizedPage \<Rightarrow> nat \<Rightarrow> nat \<Rightarrow> BlockBound list" where
  "block_bounds page char_start char_end =
     block_bounds_from (np_text page) char_start char_end 0 (np_blocks page)"

text \<open>\<open>range(0, n, step)\<close>.\<close>

definition py_range :: "nat \<Rightarrow> int \<Rightarrow> nat list res" where
  "py_range n step =
     (if step = 0 then Inl (ValueError ''range() arg 3 must not be zero'')
      else if step < 0 then Inr []
      else Inr (map (\<lambda>k. k * nat step) [0..<(n + nat step - 1) div nat step]))"

definition new_chunk ::
  "(string \<Rightarrow> string) \<Rightarrow> (uuid \<Rightarrow> string \<Rightarrow> uuid) \<Rightarrow> NormalizedPage \<Rightarrow> uuid \<Rightarrow> uuid \<Rightarrow> int
   \<Rightarrow> (nat \<times> nat) list \<Rightarrow> ChunkRecord" where
  "new_chunk sha256 uuid5 page tenant_id document_version_id ordinal window =
     (let char_start = fst (hd window);
          char_end = snd (last window);
          chunk_text = py_slice (np_text page) char_start char_end;
          content_sha256 = sha256 chunk_text;
          identity = str_uuid tenant_id @ '':'' @ str_uuid document_version_id @ '':'' @ CHUNKER_NAME
            @ '':'' @ CHUNKER_VERSION @ '':'' @ str_int ordinal @ '':'' @ content_sha256
      in \<lparr>cr_chunk_id = uuid5 CHUNK_NAMESPACE identity, cr_ordinal = ordinal,
          cr_page_start = np_page_number page, cr_page_end = np_page_number page,
          cr_char_start = char_start, cr_char_end = char_end, cr_text = chunk_text,
          cr_content_sha256 = content_sha256, cr_token_count = int (length window),
          cr_section_path = [], cr_block_bounds = block_bounds page char_start char_end,
          cr_chunker_name = CHUNKER_NAME, cr_chunker_version = CHUNKER_VERSION\<rparr>)"

text \<open>The loop over the window starts: \<open>mk\<close> builds the chunk of a window, \<open>mx\<close> is the window size.\<close>

fun chunk_windows ::
  "(nat \<Rightarrow> (nat \<times> nat) list \<Rightarrow> ChunkRecord) \<Rightarrow> (nat \<times> nat) list \<Rightarrow> nat \<Rightarrow> nat list \<Rightarrow> ChunkRecord list" where
  "chunk_windows mk sp mx [] = []"
| "chunk_windows mk sp mx (window_start # starts) =
     (let window = py_slice sp window_start (window_start + mx) in
      if window = [] then []
      else let chunk = mk window_start window in
        if cr_text chunk = [] then chunk_windows mk sp mx starts
        else chunk # (if window_start + mx \<ge> length sp then [] else chunk_windows mk sp mx starts))"

definition chunk_page ::
  "(string \<Rightarrow> string) \<Rightarrow> (uuid \<Rightarrow> string \<Rightarrow> uuid) \<Rightarrow> (string \<Rightarrow> (nat \<times> nat) list) \<Rightarrow> NormalizedPage
   \<Rightarrow> uuid \<Rightarrow> uuid \<Rightarrow> int \<Rightarrow> IngestionPolicySettings \<Rightarrow> ChunkRecord gen" where
  "chunk_page sha256 uuid5 spans page tenant_id document_version_id first_ordinal policy =
     (if py_strip (np_text page) = [] then ([], None)
      else if int (length (np_text page)) > po_chunk_page_max_chars policy
      then ([], Some (ValueError ''page text exceeds configured chunking limit''))
      else (let sp = spans (np_text page);
                step = po_chunk_max_tokens policy - po_chunk_overlap_tokens policy
        in case py_range (length sp) step of
             Inl e \<Rightarrow> ([], Some e)
           | Inr starts \<Rightarrow>
               (chunk_windows (\<lambda>window_start window. new_chunk sha256 uuid5 page tenant_id
                    document_version_id (first_ordinal + int window_start div step) window)
                  sp (nat (po_chunk_max_tokens policy)) starts, None)))"

section \<open>The chunk manifest\<close>

definition chunk_line :: "(ChunkRecord \<Rightarrow> json) \<Rightarrow> uuid \<Rightarrow> uuid \<Rightarrow> ChunkRecord \<Rightarrow> json" where
  "chunk_line dump tenant_id document_version_id chunk =
     JObj [(''record_type'', JStr ''chunk''), (''tenant_id'', JStr (str_uuid tenant_id)),
           (''document_version_id'', JStr (str_uuid document_version_id)), (''chunk'', dump chunk)]"

definition write_chunk ::
  "(ChunkRecord \<Rightarrow> json) \<Rightarrow> uuid \<Rightarrow> uuid \<Rightarrow> int \<Rightarrow> ChunkRecord \<Rightarrow> json list \<times> int \<Rightarrow> (json list \<times> int) res" where
  "write_chunk dump tenant_id document_version_id max_chunks chunk st =
     (if snd st + 1 > max_chunks then Inl (ValueError ''document exceeds configured chunk limit'')
      else Inr (fst st @ [chunk_line dump tenant_id document_version_id chunk], snd st + 1))"

definition write_page_chunks ::
  "(ChunkRecord \<Rightarrow> json) \<Rightarrow> (string \<Rightarrow> string) \<Rightarrow> (uuid \<Rightarrow> string \<Rightarrow> uuid) \<Rightarrow> (string \<Rightarrow> (nat \<times> nat) list)
   \<Rightarrow> uuid \<Rightarrow> uuid \<Rightarrow> IngestionPolicySettings \<Rightarrow> NormalizedPage \<Rightarrow> json list \<times> int \<Rightarrow> (json list \<times> int) res" where
  "write_page_chunks dump sha256 uuid5 spans tenant_id document_version_id policy page st =
     (let g = chunk_page sha256 uuid5 spans page tenant_id document_version_id (snd st) policy
      in bind_res (fold_res (write_chunk dump tenant_id document_version_id (po_max_chunks policy)) (fst g) st)
           (\<lambda>st1. case snd g of Some e \<Rightarrow> Inl e | None \<Rightarrow> Inr st1))"

definition write_chunk_manifest ::
  "(ChunkRecord \<Rightarrow> json) \<Rightarrow> (json \<Rightarrow> NormalizedPage res) \<Rightarrow> (string \<Rightarrow> string) \<Rightarrow> (uuid \<Rightarrow> string \<Rightarrow> uuid)
   \<Rightarrow> (string \<Rightarrow> (nat \<times> nat) list) \<Rightarrow> json list \<Rightarrow> uuid \<Rightarrow> uuid \<Rightarrow> IngestionPolicySettings \<Rightarrow> uuid option
   \<Rightarrow> (json list \<times> int) res" where
  "write_chunk_manifest dump validate_page sha256 uuid5 spans normalized tenant_id document_version_id policy
     source_document_version_id =
     (let header = JObj [(''record_type'', JStr ''header''), (''schema_version'', JStr ''chunk-manifest-v1''),
            (''tenant_id'', JStr (str_uuid tenant_id)),
            (''document_version_id'', JStr (str_uuid document_version_id)),
            (''chunker_name'', JStr CHUNKER_NAME), (''chunker_version'', JStr CHUNKER_VERSION),
            (''max_tokens'', JInt (po_chunk_max_tokens policy)),
            (''overlap_tokens'', JInt (po_chunk_overlap_tokens policy))];
          source_version_id = (case source_document_version_id of None \<Rightarrow> document_version_id | Some i \<Rightarrow> i);
          g = iter_page_artifact validate_page normalized source_version_id
      in bind_res (fold_res (write_page_chunks dump sha256 uuid5 spans tenant_id document_version_id policy)
             (fst g) ([header], 0)) (\<lambda>(lines, chunk_count).
         case snd g of Some e \<Rightarrow> Inl e
         | None \<Rightarrow>
             if chunk_count = 0 then Inl (ValueError ''normalized document contains no searchable text'')
             else Inr (lines @ [JObj [(''record_type'', JStr ''manifest''), (''chunk_count'', JInt chunk_count)]],
                       chunk_count)))"

section \<open>Reading a scoped manifest\<close>

definition manifest_record ::
  "string \<Rightarrow> string \<Rightarrow> string \<Rightarrow> (json \<Rightarrow> int \<Rightarrow> 'r res) \<Rightarrow> uuid \<Rightarrow> uuid \<Rightarrow> nat \<Rightarrow> int \<Rightarrow> int option \<Rightarrow> json
   \<Rightarrow> ('r option \<times> int option) res" where
  "manifest_record name kind count_key body tenant_id document_version_id line_number count declared record =
     bind_res (json_get ''record_type'' JNull record) (\<lambda>record_type.
     if line_number = 1 \<and> record_type \<noteq> JStr ''header''
     then Inl (ValueError (name @ '' manifest header is missing''))
     else
       bind_res (scope_matches ''tenant_id'' (str_uuid tenant_id)
         (name @ '' manifest tenant does not match'') record) (\<lambda>_.
       bind_res (scope_matches ''document_version_id'' (str_uuid document_version_id)
         (name @ '' manifest version does not match'') record) (\<lambda>_.
       if record_type = JStr kind
       then bind_res (body record count) (\<lambda>r. Inr (Some r, declared))
       else if record_type = JStr ''manifest''
       then bind_res (json_get count_key (JInt (-1)) record) (\<lambda>c.
            bind_res (json_int c) (\<lambda>n. Inr (None, Some n)))
       else Inr (None, declared))))"

fun iter_manifest_from ::
  "string \<Rightarrow> string \<Rightarrow> string \<Rightarrow> (json \<Rightarrow> int \<Rightarrow> 'r res) \<Rightarrow> uuid \<Rightarrow> uuid \<Rightarrow> nat \<Rightarrow> int \<Rightarrow> int option \<Rightarrow> json list
   \<Rightarrow> 'r gen" where
  "iter_manifest_from name kind count_key body t v line_number count declared [] =
     ([], if declared = Some count then None
          else Some (ValueError (name @ '' manifest count does not match records'')))"
| "iter_manifest_from name kind count_key body t v line_number count declared (record # lines) =
     (case manifest_record name kind count_key body t v line_number count declared record of
        Inl e \<Rightarrow> ([], Some e)
      | Inr (Some r, declared') \<Rightarrow>
          gen_cons r (iter_manifest_from name kind count_key body t v (Suc line_number) (count + 1) declared' lines)
      | Inr (None, declared') \<Rightarrow>
          iter_manifest_from name kind count_key body t v (Suc line_number) count declared' lines)"

definition iter_manifest ::
  "string \<Rightarrow> string \<Rightarrow> string \<Rightarrow> (json \<Rightarrow> int \<Rightarrow> 'r res) \<Rightarrow> json list \<Rightarrow> uuid \<Rightarrow> uuid \<Rightarrow> 'r gen" where
  "iter_manifest name kind count_key body lines tenant_id document_version_id =
     iter_manifest_from name kind count_key body tenant_id document_version_id 1 0 None lines"

definition iter_chunk_manifest ::
  "(json \<Rightarrow> ChunkRecord res) \<Rightarrow> json list \<Rightarrow> uuid \<Rightarrow> uuid \<Rightarrow> ChunkRecord gen" where
  "iter_chunk_manifest validate_chunk = iter_manifest ''chunk'' ''chunk'' ''chunk_count''
     (\<lambda>record count. bind_res (json_get ''chunk'' JNull record) (\<lambda>body.
        bind_res (validate_chunk body) (\<lambda>chunk.
        if cr_ordinal chunk \<noteq> count then Inl (ValueError ''chunk manifest ordinal is invalid'')
        else Inr chunk)))"

section \<open>The windows of a page\<close>

text \<open>Token spans as a tokenizer gives them: non-empty, inside the text, in order.\<close>

definition tokens_ok :: "string \<Rightarrow> (nat \<times> nat) list \<Rightarrow> bool" where
  "tokens_ok t sp \<longleftrightarrow> (\<forall>x \<in> set sp. fst x < snd x \<and> snd x \<le> length t) \<and> sorted (map fst sp)"

text \<open>How many windows of \<open>mx\<close> tokens, one every \<open>step\<close> tokens, it takes to reach the last of \<open>n\<close>.\<close>

definition window_count :: "nat \<Rightarrow> nat \<Rightarrow> nat \<Rightarrow> nat" where
  "window_count n mx step = (if n = 0 then 0 else Suc ((n - mx + step - 1) div step))"

lemma ceiling_less: "0 < step \<Longrightarrow> (j :: nat) < (d + step - Suc 0) div step \<longleftrightarrow> j * step < d"
proof -
  assume step: "0 < step"
  have "j < (d + step - Suc 0) div step \<longleftrightarrow> Suc j * step \<le> d + step - Suc 0"
    using step by (simp add: Suc_le_eq [symmetric] less_eq_div_iff_mult_less_eq)
  also have "\<dots> \<longleftrightarrow> j * step < d" using step by auto
  finally show ?thesis .
qed

lemma window_before_end:
  assumes "0 < step" and "step \<le> mx" and "j < window_count n mx step"
  shows "j * step < n"
proof (cases j)
  case 0
  with assms show ?thesis by (simp add: window_count_def split: if_splits)
next
  case (Suc i)
  with assms have "i < (n - mx + step - 1) div step" by (simp add: window_count_def split: if_splits)
  with assms(1) have "i * step < n - mx" by (simp add: ceiling_less)
  with Suc assms(2) show ?thesis by simp
qed

lemma window_last:
  assumes "0 < step" and "j < window_count n mx step"
  shows "j * step + mx \<ge> n \<longleftrightarrow> Suc j = window_count n mx step"
proof -
  from assms(2) have n: "n \<noteq> 0" and le: "j \<le> (n - mx + step - 1) div step"
    by (auto simp: window_count_def split: if_splits)
  have "j * step + mx \<ge> n \<longleftrightarrow> \<not> j < (n - mx + step - 1) div step"
    using assms(1) by (auto simp: ceiling_less)
  with n le show ?thesis by (auto simp: window_count_def)
qed

lemma window_count_le:
  assumes "0 < step" and "step \<le> mx"
  shows "window_count n mx step \<le> (n + step - Suc 0) div step"
proof (cases "window_count n mx step")
  case (Suc j)
  with window_before_end [OF assms, of j n] assms(1) show ?thesis
    by (simp add: ceiling_less Suc_le_eq)
qed simp

lemma chunk_windows_Nil: "chunk_windows mk [] mx starts = []"
  by (cases starts) (simp_all add: py_slice_def)

lemma chunk_windows_closed:
  assumes "0 < step" and "step \<le> mx" and "\<And>ws w. cr_text (mk ws w) = [] \<Longrightarrow> w \<noteq> py_slice sp ws (ws + mx) \<or> w = []"
    and "j \<le> window_count (length sp) mx step" and "window_count (length sp) mx step \<le> n"
    and "j < window_count (length sp) mx step \<or> j = 0"
  shows "chunk_windows mk sp mx (map (\<lambda>k. k * step) [j..<n])
    = map (\<lambda>k. mk (k * step) (py_slice sp (k * step) (k * step + mx))) [j..<window_count (length sp) mx step]"
  using assms(4-6)
proof (induction "window_count (length sp) mx step - j" arbitrary: j)
  case 0
  then have "sp = []" by (auto simp: window_count_def split: if_splits)
  then show ?case by (simp add: chunk_windows_Nil window_count_def)
next
  case (Suc d)
  let ?m = "window_count (length sp) mx step"
  have j: "j < ?m" using Suc.hyps(2) by simp
  let ?w = "py_slice sp (j * step) (j * step + mx)"
  have "j * step < length sp" by (rule window_before_end [OF assms(1,2) j])
  then have w: "?w \<noteq> []" using assms(1,2) by (simp add: py_slice_def)
  then have t: "cr_text (mk (j * step) ?w) \<noteq> []" using assms(3) by blast
  have up: "[j..<n] = j # [Suc j..<n]" "[j..<?m] = j # [Suc j..<?m]"
    using j Suc.prems(2) by (simp_all add: upt_conv_Cons)
  show ?case
  proof (cases "Suc j = ?m")
    case True
    with window_last [OF assms(1) j] have "length sp \<le> j * step + mx" by simp
    with w t True show ?thesis unfolding up by (simp add: Let_def)
  next
    case False
    with j have "Suc j < ?m" by simp
    moreover from False window_last [OF assms(1) j] have "\<not> length sp \<le> j * step + mx" by simp
    ultimately show ?thesis
      using w t Suc.hyps Suc.prems unfolding up by (simp add: Let_def)
  qed
qed

lemma window_text:
  assumes "tokens_ok t sp" and "w = py_slice sp a b" and "w \<noteq> []"
  shows "py_slice t (fst (hd w)) (snd (last w)) \<noteq> []"
proof -
  have sub: "set w \<subseteq> set sp" unfolding assms(2) py_slice_def by (auto dest: in_set_takeD in_set_dropD)
  have "sorted (map fst w)"
    using assms(1) unfolding assms(2) py_slice_def tokens_ok_def take_map [symmetric] drop_map [symmetric]
    by (simp add: sorted_wrt_take sorted_wrt_drop)
  then have "fst (hd w) \<le> fst (last w)"
    using assms(3) by (cases w) auto
  moreover have "fst (last w) < snd (last w)" "snd (last w) \<le> length t"
    using assms(1,3) sub last_in_set [OF assms(3)] unfolding tokens_ok_def by blast+
  ultimately show ?thesis by (simp add: py_slice_def)
qed

text \<open>What the policy's validation gives the window loop.\<close>

lemma new_policy_steps:
  assumes "new_policy p = Inr q"
  shows "q = p" "0 < nat (po_chunk_max_tokens p - po_chunk_overlap_tokens p)"
    "nat (po_chunk_max_tokens p - po_chunk_overlap_tokens p) \<le> nat (po_chunk_max_tokens p)"
    "1 \<le> po_chunk_max_tokens p" "0 \<le> po_chunk_overlap_tokens p"
    "po_chunk_overlap_tokens p < po_chunk_max_tokens p" "1 \<le> po_max_chunks p"
  using assms by (auto simp: new_policy_def validate_supported_policy_def policy_fields_ok_def split: if_splits)

lemma chunk_page_closed:
  assumes "new_policy policy = Inr q" and "tokens_ok (np_text page) (spans (np_text page))"
    and "py_strip (np_text page) \<noteq> []" and "int (length (np_text page)) \<le> po_chunk_page_max_chars policy"
  shows "chunk_page sha256 uuid5 spans page tenant v first policy =
    (let sp = spans (np_text page); step = nat (po_chunk_max_tokens policy - po_chunk_overlap_tokens policy);
         mx = nat (po_chunk_max_tokens policy)
     in (map (\<lambda>k. new_chunk sha256 uuid5 page tenant v (first + int k) (py_slice sp (k * step) (k * step + mx)))
           [0..<window_count (length sp) mx step], None))"
proof -
  note p = new_policy_steps [OF assms(1)]
  let ?sp = "spans (np_text page)" and ?st = "po_chunk_max_tokens policy - po_chunk_overlap_tokens policy"
  let ?step = "nat ?st" and ?mx = "nat (po_chunk_max_tokens policy)"
  let ?mk = "\<lambda>ws w. new_chunk sha256 uuid5 page tenant v (first + int ws div ?st) w"
  have st: "\<not> ?st = 0" "\<not> ?st < 0" using p by simp_all
  have nonempty: "w \<noteq> py_slice ?sp ws (ws + ?mx) \<or> w = []" if "cr_text (?mk ws w) = []" for ws w
    using that window_text [OF assms(2), of w ws "ws + ?mx"] by (auto simp: new_chunk_def Let_def)
  have "chunk_windows ?mk ?sp ?mx (map (\<lambda>k. k * ?step) [0..<(length ?sp + ?step - 1) div ?step])
      = map (\<lambda>k. ?mk (k * ?step) (py_slice ?sp (k * ?step) (k * ?step + ?mx))) [0..<window_count (length ?sp) ?mx ?step]"
    by (rule chunk_windows_closed [OF p(2,3) nonempty]) (simp_all add: window_count_le [OF p(2,3)])
  moreover have "int (k * ?step) div ?st = int k" for k
    using p by simp
  ultimately show ?thesis
    unfolding chunk_page_def py_range_def using assms(3,4) st by (simp add: Let_def)
qed

text \<open>C21: chunking equals its specification: under a validated policy and a well-behaved tokenizer the
  chunks of a page are the windows \<open>0, step, 2 * step, \<dots>\<close> of the token list, numbered
  consecutively; every token lies in a window, no window has more than the configured number of
  tokens or no text, and the next window starts exactly \<open>overlap\<close> tokens before the end of a full
  one.\<close>

theorem chunk_page_windows:
  assumes "new_policy policy = Inr policy" and "tokens_ok (np_text page) (spans (np_text page))"
    and "py_strip (np_text page) \<noteq> []" and "int (length (np_text page)) \<le> po_chunk_page_max_chars policy"
    and "sp = spans (np_text page)" and "step = nat (po_chunk_max_tokens policy - po_chunk_overlap_tokens policy)"
    and "mx = nat (po_chunk_max_tokens policy)"
  shows "\<exists>cs. chunk_page sha256 uuid5 spans page tenant v first policy = (cs, None)
    \<and> length cs = window_count (length sp) mx step
    \<and> (\<forall>k < length cs. cs ! k = new_chunk sha256 uuid5 page tenant v (first + int k)
           (py_slice sp (k * step) (k * step + mx))
         \<and> cr_text (cs ! k) \<noteq> [] \<and> 1 \<le> cr_token_count (cs ! k) \<and> cr_token_count (cs ! k) \<le> po_chunk_max_tokens policy)
    \<and> (\<forall>i < length sp. \<exists>k < length cs. k * step \<le> i \<and> i < k * step + mx)
    \<and> int (mx - step) = po_chunk_overlap_tokens policy"
proof -
  note p = new_policy_steps [OF assms(1)]
  have step: "0 < step" "step \<le> mx" using p assms(6,7) by simp_all
  let ?m = "window_count (length sp) mx step"
  let ?w = "\<lambda>k. py_slice sp (k * step) (k * step + mx)"
  let ?cs = "map (\<lambda>k. new_chunk sha256 uuid5 page tenant v (first + int k) (?w k)) [0..<?m]"
  have cs: "chunk_page sha256 uuid5 spans page tenant v first policy = (?cs, None)"
    using chunk_page_closed [of policy policy page spans, OF assms(1-4)] assms(5-7) by (simp add: Let_def)
  have w: "?w k \<noteq> []" "length (?w k) \<le> mx" if "k < ?m" for k
    using window_before_end [OF step that] step by (auto simp: py_slice_def)
  have "cr_text (?cs ! k) \<noteq> [] \<and> 1 \<le> cr_token_count (?cs ! k) \<and> cr_token_count (?cs ! k) \<le> po_chunk_max_tokens policy"
    if "k < ?m" for k
  proof -
    have "cr_text (?cs ! k) \<noteq> []"
      using window_text [OF assms(2) [folded assms(5)] refl w(1) [OF that]] that by (simp add: new_chunk_def Let_def)
    moreover have "1 \<le> int (length (?w k))" "int (length (?w k)) \<le> po_chunk_max_tokens policy"
      using w [OF that] p(4) assms(7) by (cases "?w k", simp_all)
    ultimately show ?thesis using that by (simp add: new_chunk_def Let_def)
  qed
  moreover have "\<exists>k < ?m. k * step \<le> i \<and> i < k * step + mx" if i: "i < length sp" for i
  proof (cases "i div step < ?m")
    case True
    have "i < i div step * step + mx"
      using step mod_less_divisor [OF step(1), of i] div_mult_mod_eq [of i step] by linarith
    with True show ?thesis by (intro exI [of _ "i div step"]) simp
  next
    case False
    from i have "?m \<noteq> 0" by (auto simp: window_count_def)
    then obtain j where j: "?m = Suc j" by (cases ?m) simp_all
    then have "length sp \<le> j * step + mx" using window_last [OF step(1), of j "length sp" mx] by simp
    moreover have "j * step \<le> i"
      using False j by (metis div_times_less_eq_dividend le_trans mult_le_mono1 not_less_eq_eq Suc_leD leI)
    ultimately show ?thesis using i j by (intro exI [of _ j]) simp
  qed
  moreover have "int (mx - step) = po_chunk_overlap_tokens policy"
    using p assms(6,7) by simp
  ultimately show ?thesis using cs by (intro exI [of _ ?cs]) simp
qed

section \<open>Writing and reading the manifest\<close>

lemma iter_manifest_indexed:
  assumes "\<And>i. i < length rs \<Longrightarrow> manifest_record name kind key body t v (k + i) (n + int i) d (line i) = Inr (Some (rs ! i), d)"
  shows "iter_manifest_from name kind key body t v k n d (map line [0..<length rs] @ rest)
    = (rs @ fst (iter_manifest_from name kind key body t v (k + length rs) (n + int (length rs)) d rest),
       snd (iter_manifest_from name kind key body t v (k + length rs) (n + int (length rs)) d rest))"
  using assms
proof (induction rs arbitrary: k n line)
  case (Cons r rs)
  have r: "manifest_record name kind key body t v k n d (line 0) = Inr (Some r, d)"
    using Cons.prems [of 0] by simp
  have "manifest_record name kind key body t v (Suc k + i) (n + 1 + int i) d (line (Suc i)) = Inr (Some (rs ! i), d)"
    if "i < length rs" for i
    using Cons.prems [of "Suc i"] that by (simp add: algebra_simps)
  note IH = Cons.IH [of "Suc k" "n + 1" "\<lambda>i. line (Suc i)", OF this]
  have "map line [0..<length (r # rs)] = line 0 # map (\<lambda>i. line (Suc i)) [0..<length rs]"
    by (simp add: upt_conv_Cons map_Suc_upt [symmetric] comp_def del: upt_Suc)
  with IH r show ?case
    by (simp add: gen_cons_def algebra_simps del: upt_Suc)
qed simp

lemma iter_manifest_records:
  assumes "\<forall>i < length rs. manifest_record name kind key body t v (k + i) (n + int i) d (line (rs ! i)) = Inr (Some (rs ! i), d)"
  shows "iter_manifest_from name kind key body t v k n d (map line rs @ rest)
    = (rs @ fst (iter_manifest_from name kind key body t v (k + length rs) (n + int (length rs)) d rest),
       snd (iter_manifest_from name kind key body t v (k + length rs) (n + int (length rs)) d rest))"
proof -
  have "map (\<lambda>i. line (rs ! i)) [0..<length rs] = map line rs"
    by (rule nth_equalityI) simp_all
  with iter_manifest_indexed [of rs name kind key body t v k n d "\<lambda>i. line (rs ! i)" rest] assms show ?thesis by simp
qed

text \<open>The chunks of a document: page after page, with running ordinals.\<close>

fun document_chunks ::
  "(string \<Rightarrow> string) \<Rightarrow> (uuid \<Rightarrow> string \<Rightarrow> uuid) \<Rightarrow> (string \<Rightarrow> (nat \<times> nat) list) \<Rightarrow> uuid \<Rightarrow> uuid
   \<Rightarrow> IngestionPolicySettings \<Rightarrow> int \<Rightarrow> NormalizedPage list \<Rightarrow> ChunkRecord list" where
  "document_chunks sha256 uuid5 spans t v policy n [] = []"
| "document_chunks sha256 uuid5 spans t v policy n (p # ps) =
     (let cs = fst (chunk_page sha256 uuid5 spans p t v n policy)
      in cs @ document_chunks sha256 uuid5 spans t v policy (n + int (length cs)) ps)"

lemma fold_write_chunk:
  "fold_res (write_chunk dump t v mx) cs (ls, n) = Inr st \<Longrightarrow>
     st = (ls @ map (chunk_line dump t v) cs, n + int (length cs)) \<and> (cs \<noteq> [] \<longrightarrow> n + int (length cs) \<le> mx)"
proof (induction cs arbitrary: ls n)
  case (Cons c cs)
  from Cons.prems obtain st1 where c: "write_chunk dump t v mx c (ls, n) = Inr st1"
    and r: "fold_res (write_chunk dump t v mx) cs st1 = Inr st"
    by (auto elim: bind_res_InrE)
  from c have le: "n + 1 \<le> mx" and st1: "st1 = (ls @ [chunk_line dump t v c], n + 1)"
    by (auto simp: write_chunk_def split: if_splits)
  note rest = r [unfolded st1]
  from Cons.IH [OF rest] le show ?case by auto
qed simp

lemma fold_write_page_chunks:
  "fold_res (write_page_chunks dump sha256 uuid5 spans t v policy) ps (ls, n) = Inr (ls', n') \<Longrightarrow> n \<le> mx
     \<Longrightarrow> mx = po_max_chunks policy \<Longrightarrow>
     ls' = ls @ map (chunk_line dump t v) (document_chunks sha256 uuid5 spans t v policy n ps)
     \<and> n' = n + int (length (document_chunks sha256 uuid5 spans t v policy n ps)) \<and> n' \<le> mx
     \<and> (\<forall>p \<in> set ps. \<forall>k. snd (chunk_page sha256 uuid5 spans p t v k policy) = None)"
proof (induction ps arbitrary: ls n)
  case (Cons p ps)
  let ?g = "chunk_page sha256 uuid5 spans p t v n policy"
  from Cons.prems(1) obtain st where pg: "write_page_chunks dump sha256 uuid5 spans t v policy p (ls, n) = Inr st"
    and rest: "fold_res (write_page_chunks dump sha256 uuid5 spans t v policy) ps st = Inr (ls', n')"
    by (auto elim: bind_res_InrE)
  from pg have st: "fold_res (write_chunk dump t v (po_max_chunks policy)) (fst ?g) (ls, n) = Inr st"
    and e: "snd ?g = None"
    by (auto simp: write_page_chunks_def Let_def elim!: bind_res_InrE split: option.splits)
  note w = fold_write_chunk [OF st]
  have le: "n + int (length (fst ?g)) \<le> mx" using w Cons.prems(2,3) by (cases "fst ?g") auto
  have "snd (chunk_page sha256 uuid5 spans p t v k policy) = None" for k
    using e by (auto simp: chunk_page_def Let_def split: sum.splits if_splits)
  with Cons.IH [OF rest [unfolded conjunct1 [OF w]] le Cons.prems(3)] show ?case
    by (simp add: Let_def)
qed simp

lemma chunk_page_ordinals:
  assumes "new_policy policy = Inr policy" and "tokens_ok (np_text p) (spans (np_text p))"
    and "i < length (fst (chunk_page sha256 uuid5 spans p t v n policy))"
  shows "cr_ordinal (fst (chunk_page sha256 uuid5 spans p t v n policy) ! i) = n + int i"
proof (cases "py_strip (np_text p) = [] \<or> int (length (np_text p)) > po_chunk_page_max_chars policy")
  case True
  then have "fst (chunk_page sha256 uuid5 spans p t v n policy) = []" by (auto simp: chunk_page_def)
  with assms(3) show ?thesis by simp
next
  case False
  then have c: "py_strip (np_text p) \<noteq> []" "int (length (np_text p)) \<le> po_chunk_page_max_chars policy" by simp_all
  from chunk_page_closed [of policy policy p spans, OF assms(1,2) c] assms(3) show ?thesis
    by (simp add: Let_def new_chunk_def)
qed

lemma document_chunks_ordinals:
  assumes "new_policy policy = Inr policy" and "\<forall>p \<in> set ps. tokens_ok (np_text p) (spans (np_text p))"
    and "i < length (document_chunks sha256 uuid5 spans t v policy n ps)"
  shows "cr_ordinal (document_chunks sha256 uuid5 spans t v policy n ps ! i) = n + int i"
  using assms(2,3)
proof (induction ps arbitrary: n i)
  case (Cons p ps)
  let ?cs = "fst (chunk_page sha256 uuid5 spans p t v n policy)"
  show ?case
  proof (cases "i < length ?cs")
    case True
    with Cons.prems chunk_page_ordinals [OF assms(1), of p spans i] show ?thesis
      by (simp add: Let_def nth_append)
  next
    case False
    then have "cr_ordinal (document_chunks sha256 uuid5 spans t v policy (n + int (length ?cs)) ps ! (i - length ?cs))
        = n + int (length ?cs) + int (i - length ?cs)"
      using Cons.prems by (intro Cons.IH) (auto simp: Let_def)
    with False show ?thesis by (simp add: Let_def nth_append)
  qed
qed simp

text \<open>The chunk manifest round trip: what \<open>write_chunk_manifest\<close> wrote, \<open>iter_chunk_manifest\<close> accepts
  and yields as the chunks of the document in order, with ordinals 0, 1, 2, \<dots>; the returned count
  is their number, at least one and within the configured limit; another tenant is refused.\<close>

theorem chunk_manifest_roundtrip:
  assumes "write_chunk_manifest dump validate_page sha256 uuid5 spans normalized t v policy source = Inr (lines, n)"
    and "new_policy policy = Inr policy"
    and "iter_page_artifact validate_page normalized (case source of None \<Rightarrow> v | Some i \<Rightarrow> i) = (pages, err)"
    and "\<forall>p \<in> set pages. tokens_ok (np_text p) (spans (np_text p))"
    and "cs = document_chunks sha256 uuid5 spans t v policy 0 pages"
    and "\<forall>c \<in> set cs. validate_chunk (dump c) = Inr c"
  shows "err = None \<and> iter_chunk_manifest validate_chunk lines t v = (cs, None)
    \<and> n = int (length cs) \<and> 1 \<le> n \<and> n \<le> po_max_chunks policy
    \<and> (\<forall>i < length cs. cr_ordinal (cs ! i) = int i)
    \<and> (\<forall>t'. t' \<noteq> t \<longrightarrow> iter_chunk_manifest validate_chunk lines t' v
         = ([], Some (ValueError ''chunk manifest tenant does not match'')))"
proof -
  let ?h = "JObj [(''record_type'', JStr ''header''), (''schema_version'', JStr ''chunk-manifest-v1''),
            (''tenant_id'', JStr (str_uuid t)), (''document_version_id'', JStr (str_uuid v)),
            (''chunker_name'', JStr CHUNKER_NAME), (''chunker_version'', JStr CHUNKER_VERSION),
            (''max_tokens'', JInt (po_chunk_max_tokens policy)),
            (''overlap_tokens'', JInt (po_chunk_overlap_tokens policy))]"
  note a = assms(1) [unfolded write_chunk_manifest_def Let_def assms(3) fst_conv snd_conv]
  from a obtain ls where f: "fold_res (write_page_chunks dump sha256 uuid5 spans t v policy) pages ([?h], 0) = Inr (ls, n)"
    and e: "err = None" and n: "n \<noteq> 0"
    and l: "lines = ls @ [JObj [(''record_type'', JStr ''manifest''), (''chunk_count'', JInt n)]]"
    by (elim bind_res_InrE) (auto split: option.splits if_splits)
  have "0 \<le> po_max_chunks policy" using new_policy_steps [OF assms(2)] by simp
  from fold_write_page_chunks [OF f this refl] have ls: "ls = ?h # map (chunk_line dump t v) cs"
    and nn: "n = int (length cs)" "n \<le> po_max_chunks policy"
    unfolding assms(5) by simp_all
  have ord: "\<forall>i < length cs. cr_ordinal (cs ! i) = int i"
    using document_chunks_ordinals [OF assms(2,4)] unfolding assms(5) by simp
  let ?b = "\<lambda>record count. bind_res (json_get ''chunk'' JNull record) (\<lambda>body.
        bind_res (validate_chunk body) (\<lambda>chunk.
        if cr_ordinal chunk \<noteq> count then Inl (ValueError ''chunk manifest ordinal is invalid'') else Inr chunk))"
  have "\<forall>i < length cs. manifest_record ''chunk'' ''chunk'' ''chunk_count'' ?b t v (2 + i) (0 + int i) None
      (chunk_line dump t v (cs ! i)) = Inr (Some (cs ! i), None)"
    using ord assms(6) by (simp add: manifest_record_def chunk_line_def)
  from iter_manifest_records [OF this, of "[JObj [(''record_type'', JStr ''manifest''), (''chunk_count'', JInt n)]]"]
  have "iter_chunk_manifest validate_chunk lines t v = (cs, None)"
    unfolding l ls by (simp add: iter_chunk_manifest_def iter_manifest_def manifest_record_def numeral_2_eq_2 nn(1))
  moreover have "iter_chunk_manifest validate_chunk lines t' v
         = ([], Some (ValueError ''chunk manifest tenant does not match''))" if "t' \<noteq> t" for t'
    using that unfolding l ls by (simp add: iter_chunk_manifest_def iter_manifest_def manifest_record_def)
  moreover have "1 \<le> n" using n nn(1) by linarith
  ultimately show ?thesis using e nn ord by simp
qed

section \<open>Witnesses\<close>

definition sample_policy :: IngestionPolicySettings where
  "sample_policy = \<lparr>po_upload_max_bytes = 1000, po_pdf_max_pages = 10, po_pdf_allow_embedded_files = False,
     po_pdf_max_content_stream_bytes_per_page = 1000, po_normalized_max_bytes = 1000,
     po_extracted_text_max_chars = 1000, po_native_min_text_chars_per_page = 20,
     po_native_max_blocks_per_page = 100, po_max_chunks = 10, po_chunk_max_tokens = 16,
     po_chunk_overlap_tokens = 4, po_chunk_page_max_chars = 1000, po_queue_age_alert_seconds = 900,
     po_allowed_mime_types = [''application/pdf''], po_ocr_language_codes = [''eng''],
     po_ocr_min_confidence = 7/10, po_ocr_render_dpi = 300, po_ocr_page_timeout_seconds = 120,
     po_ocr_max_rendered_page_bytes = 64 * mebibyte\<rparr>"

definition sample_spans :: "string \<Rightarrow> (nat \<times> nat) list" where
  "sample_spans t = map (\<lambda>i. (i, Suc i)) [0..<length t]"

lemma sample_policy_valid: "new_policy sample_policy = Inr sample_policy"
  by (simp add: new_policy_def policy_fields_ok_def validate_supported_policy_def sample_policy_def)

lemma sample_spans_ok: "tokens_ok t (sample_spans t)"
  by (auto simp: tokens_ok_def sample_spans_def comp_def)

theorem chunk_page_windows_witness:
  "\<exists>cs. chunk_page (\<lambda>_. ''h'') (\<lambda>_ _. 7) sample_spans sample_ocr_page 1 4 0 sample_policy = (cs, None) \<and> length cs = 1"
proof -
  have "py_strip (np_text sample_ocr_page) \<noteq> []" "int (length (np_text sample_ocr_page)) \<le> po_chunk_page_max_chars sample_policy"
    "length (sample_spans (np_text sample_ocr_page)) = 4"
    by (simp_all add: sample_ocr_page_def sample_policy_def strip_chars_def py_space_def sample_spans_def)
  with chunk_page_windows [of sample_policy sample_ocr_page sample_spans, OF sample_policy_valid sample_spans_ok _ _ refl refl refl,
      of "\<lambda>_. ''h''" "\<lambda>_ _. 7" 1 4 0]
  show ?thesis by (auto simp: window_count_def sample_policy_def)
qed

definition sample_chunk_dump :: "ChunkRecord \<Rightarrow> json" where
  "sample_chunk_dump c = JInt (cr_ordinal c)"

definition sample_normalized :: "json list" where
  "sample_normalized = pw_output (write_page sample_dump sample_ocr_page (page_writer 4 ''p'' ''v1''))
     @ [JObj [(''record_type'', JStr ''manifest''), (''page_count'', JInt 1)]]"

lemma sample_normalized_reads: "iter_page_artifact sample_validate sample_normalized 4 = ([sample_ocr_page], None)"
proof -
  have "sample_validate (sample_dump sample_ocr_page) = Inr sample_ocr_page" by (rule sample_codec)
  then show ?thesis
    by (simp add: iter_page_artifact_def sample_normalized_def page_writer_def write_page_def page_line_def
        page_record_def gen_cons_def sample_ocr_page_def sample_page_def)
qed

lemma sample_page_chunks:
  "chunk_page (\<lambda>_. ''h'') (\<lambda>_ _. 7) sample_spans sample_ocr_page 1 4 0 sample_policy
     = ([new_chunk (\<lambda>_. ''h'') (\<lambda>_ _. 7) sample_ocr_page 1 4 0 (sample_spans ''scan'')], None)"
proof -
  have t: "py_strip (np_text sample_ocr_page) \<noteq> []" "int (length (np_text sample_ocr_page)) \<le> po_chunk_page_max_chars sample_policy"
    by (simp_all add: sample_ocr_page_def sample_policy_def strip_chars_def py_space_def)
  have n: "np_text sample_ocr_page = ''scan''" by (simp add: sample_ocr_page_def)
  show ?thesis
    using chunk_page_closed [of sample_policy sample_policy sample_ocr_page sample_spans, OF sample_policy_valid sample_spans_ok t]
    by (simp add: Let_def n window_count_def sample_spans_def sample_policy_def py_slice_def)
qed

lemma sample_chunk_manifest:
  "\<exists>lines. write_chunk_manifest sample_chunk_dump sample_validate (\<lambda>_. ''h'') (\<lambda>_ _. 7) sample_spans sample_normalized
     1 4 sample_policy None = Inr (lines, 1)"
  by (simp add: write_chunk_manifest_def sample_normalized_reads write_page_chunks_def sample_page_chunks
      write_chunk_def Let_def) (simp add: sample_policy_def)

theorem chunk_manifest_roundtrip_witness:
  "\<exists>lines cs. write_chunk_manifest sample_chunk_dump sample_validate (\<lambda>_. ''h'') (\<lambda>_ _. 7) sample_spans sample_normalized
     1 4 sample_policy None = Inr (lines, 1)
    \<and> iter_chunk_manifest (\<lambda>_. Inr (hd cs)) lines 1 4 = (cs, None) \<and> length cs = 1"
proof -
  from sample_chunk_manifest obtain lines where w: "write_chunk_manifest sample_chunk_dump sample_validate (\<lambda>_. ''h'') (\<lambda>_ _. 7)
      sample_spans sample_normalized 1 4 sample_policy None = Inr (lines, 1)" by blast
  let ?cs = "document_chunks (\<lambda>_. ''h'') (\<lambda>_ _. 7) sample_spans 1 4 sample_policy 0 [sample_ocr_page]"
  have "?cs = [new_chunk (\<lambda>_. ''h'') (\<lambda>_ _. 7) sample_ocr_page 1 4 0 (sample_spans ''scan'')]"
    by (simp add: sample_page_chunks)
  then have cs: "length ?cs = 1" "\<forall>c \<in> set ?cs. Inr (hd ?cs) = (Inr c :: ChunkRecord res)" by simp_all
  have "iter_page_artifact sample_validate sample_normalized (case None of None \<Rightarrow> 4 | Some i \<Rightarrow> i) = ([sample_ocr_page], None)"
    by (simp add: sample_normalized_reads)
  from chunk_manifest_roundtrip [OF w sample_policy_valid this _ refl cs(2)] sample_spans_ok
  have "iter_chunk_manifest (\<lambda>_. Inr (hd ?cs)) lines 1 4 = (?cs, None)" by simp
  with w cs(1) show ?thesis by blast
qed

end
