(* ===== verification/State_Machine.thy ===== *)
theory State_Machine
  imports Catalog_Enums
begin

text \<open>
  The document-version state machine of \<open>catalog/state_machine.py\<close>: the snapshot, the
  publication evidence, the transition tables and \<open>transition_version\<close> with its three
  validations in the order of the source, followed by what makes the machine correct: an exact
  characterisation of acceptance, optimistic revisions, monotone progress, a bounded forward
  pipeline, absorbing deletion, and an invariant of every reachable snapshot.
\<close>

section \<open>Data\<close>

record PublicationEvidence =
  chunk_count :: int
  embedded_chunk_count :: int
  lexical_publication_count :: int
  vector_publication_count :: int
  chunk_manifest_published :: bool
  index_manifest_published :: bool

definition is_complete :: "PublicationEvidence \<Rightarrow> bool" where
  "is_complete e \<longleftrightarrow>
     chunk_count e > 0
     \<and> embedded_chunk_count e = chunk_count e
     \<and> lexical_publication_count e = chunk_count e
     \<and> vector_publication_count e = chunk_count e
     \<and> chunk_manifest_published e
     \<and> index_manifest_published e"

record VersionSnapshot =
  vs_state :: VersionState
  vs_revision :: int
  vs_progress_completed :: int
  vs_progress_total :: int
  vs_terminal_reason_code :: "string option"

definition TERMINAL_STATES :: "VersionState set" where
  "TERMINAL_STATES =
     {READY, READY_WITH_WARNINGS, DEDUPLICATED, REJECTED, FAILED, QUARANTINED, SUPERSEDED,
      CANCELLED, DELETED}"

fun forward_transitions :: "VersionState \<Rightarrow> VersionState set" where
  "forward_transitions RECEIVED = {VALIDATING, CANCELLED, DELETED}"
| "forward_transitions VALIDATING = {QUEUED, DEDUPLICATED, REJECTED, FAILED, QUARANTINED, CANCELLED}"
| "forward_transitions QUEUED = {PARSING, CANCELLED, FAILED}"
| "forward_transitions PARSING = {OCR, NORMALIZING, REJECTED, FAILED, QUARANTINED, CANCELLED}"
| "forward_transitions OCR = {NORMALIZING, FAILED, CANCELLED}"
| "forward_transitions NORMALIZING = {CHUNKING, FAILED, CANCELLED}"
| "forward_transitions CHUNKING = {EMBEDDING, FAILED, CANCELLED}"
| "forward_transitions EMBEDDING = {INDEXING, FAILED, CANCELLED}"
| "forward_transitions INDEXING = {READY, READY_WITH_WARNINGS, FAILED, CANCELLED}"
| "forward_transitions _ = {}"

definition DELETABLE_STATES :: "VersionState set" where
  "DELETABLE_STATES = set VersionState_all - {DELETED}"

definition SUPERSEDEABLE_STATES :: "VersionState set" where
  "SUPERSEDEABLE_STATES = {READY, READY_WITH_WARNINGS}"

definition REPROCESSABLE_STATES :: "VersionState set" where
  "REPROCESSABLE_STATES = {READY, READY_WITH_WARNINGS, FAILED, CANCELLED}"

section \<open>Operations\<close>

definition validate_reprocessing_source :: "VersionState \<Rightarrow> unit res" where
  "validate_reprocessing_source s =
     raise_if (s \<notin> REPROCESSABLE_STATES)
       (IllegalTransitionError (''cannot reprocess from '' @ VersionState_value s))"

definition validate_progress :: "VersionSnapshot \<Rightarrow> int \<Rightarrow> int \<Rightarrow> unit res" where
  "validate_progress snapshot progress_completed progress_total =
     (if progress_completed < vs_progress_completed snapshot
      then Inl (IllegalTransitionError ''completed progress cannot decrease'')
      else if progress_total < vs_progress_total snapshot
      then Inl (IllegalTransitionError ''total progress cannot decrease'')
      else if progress_completed < 0 \<or> progress_total < 0
      then Inl (IllegalTransitionError ''progress cannot be negative'')
      else if progress_total > 0 \<and> progress_completed > progress_total
      then Inl (IllegalTransitionError ''completed progress cannot exceed total progress'')
      else Inr ())"

text \<open>Whether an operation may take one state to another; \<open>None\<close> for an unknown operation.\<close>

definition operation_allowed :: "VersionState \<Rightarrow> VersionState \<Rightarrow> string \<Rightarrow> bool option" where
  "operation_allowed current target operation =
     (if operation = ''delete'' then
        Some (current \<in> DELETABLE_STATES \<and> target = DELETED)
      else if operation = ''supersede'' then
        Some (current \<in> SUPERSEDEABLE_STATES \<and> target = SUPERSEDED)
      else if operation = ''reprocess'' then
        Some (current \<in> REPROCESSABLE_STATES \<and> target = QUEUED)
      else if operation = ''cancel'' then
        Some (current \<notin> TERMINAL_STATES \<and> target = CANCELLED)
      else if operation = ''retry'' then
        Some (current = FAILED \<and> target = QUEUED)
      else if operation = ''reconcile'' then
        Some (current \<in> {READY, READY_WITH_WARNINGS} \<and> target = FAILED)
      else if operation = ''advance'' then
        Some (target \<in> forward_transitions current)
      else None)"

definition validate_operation :: "VersionState \<Rightarrow> VersionState \<Rightarrow> string \<Rightarrow> unit res" where
  "validate_operation current target operation =
     (case operation_allowed current target operation of
        None \<Rightarrow> Inl (IllegalTransitionError (''unknown transition operation: '' @ operation))
      | Some allowed \<Rightarrow>
          raise_if (\<not> allowed)
            (IllegalTransitionError (''cannot '' @ operation @ '' from '' @
               VersionState_value current @ '' to '' @ VersionState_value target)))"

definition failure_states :: "VersionState set" where
  "failure_states = {DEDUPLICATED, REJECTED, FAILED, QUARANTINED}"

definition validate_terminal_reason :: "VersionState \<Rightarrow> string option \<Rightarrow> unit res" where
  "validate_terminal_reason target reason =
     (if target \<in> failure_states \<and> reason = None
      then Inl (IllegalTransitionError ''unsuccessful terminal state requires a reason code'')
      else if target \<notin> TERMINAL_STATES \<and> reason \<noteq> None
      then Inl (IllegalTransitionError ''non-terminal state cannot have a terminal reason'')
      else Inr ())"

text \<open>
  The keyword arguments of \<open>transition_version\<close> in the order of the source: expected revision,
  completed and total progress, terminal reason, evidence and operation (whose default in the
  source is \<open>advance\<close>).
\<close>

definition transition_version ::
  "VersionSnapshot \<Rightarrow> VersionState \<Rightarrow> int \<Rightarrow> int option \<Rightarrow> int option \<Rightarrow> string option
   \<Rightarrow> PublicationEvidence option \<Rightarrow> string \<Rightarrow> VersionSnapshot res" where
  "transition_version snapshot target expected progress_completed progress_total reason evidence
     operation =
     (if vs_revision snapshot \<noteq> expected
      then Inl (StaleTransitionError (''expected revision '' @ str_int expected @ '', found '' @
                  str_int (vs_revision snapshot)))
      else let next_completed = (case progress_completed of
                                   None \<Rightarrow> vs_progress_completed snapshot | Some c \<Rightarrow> c);
               next_total = (case progress_total of
                                   None \<Rightarrow> vs_progress_total snapshot | Some t \<Rightarrow> t)
           in bind_res (validate_progress snapshot next_completed next_total) (\<lambda>_.
              bind_res (validate_operation (vs_state snapshot) target operation) (\<lambda>_.
              bind_res (validate_terminal_reason target reason) (\<lambda>_.
                if target \<in> {READY, READY_WITH_WARNINGS}
                   \<and> (evidence = None \<or> \<not> is_complete (the evidence))
                then Inl (IllegalTransitionError
                  ''ready state requires complete chunk, embedding, and publication evidence'')
                else Inr (snapshot\<lparr>vs_state := target,
                                    vs_revision := vs_revision snapshot + 1,
                                    vs_progress_completed := next_completed,
                                    vs_progress_total := next_total,
                                    vs_terminal_reason_code := reason\<rparr>)))))"

section \<open>Properties\<close>

lemmas state_sets =
  TERMINAL_STATES_def DELETABLE_STATES_def SUPERSEDEABLE_STATES_def REPROCESSABLE_STATES_def
  failure_states_def VersionState_all_UNIV

lemma validate_progress_Inr [res_simps]:
  "validate_progress s c t = Inr u \<longleftrightarrow>
     vs_progress_completed s \<le> c \<and> vs_progress_total s \<le> t \<and> 0 \<le> c \<and> 0 \<le> t \<and> (t = 0 \<or> c \<le> t)"
  by (auto simp: validate_progress_def)

lemma validate_operation_Inr [res_simps]:
  "validate_operation c t oper = Inr u \<longleftrightarrow> operation_allowed c t oper = Some True"
  by (auto simp: validate_operation_def split: option.splits)

lemma validate_terminal_reason_Inr [res_simps]:
  "validate_terminal_reason t r = Inr u \<longleftrightarrow>
     (t \<in> failure_states \<longrightarrow> r \<noteq> None) \<and> (t \<notin> TERMINAL_STATES \<longrightarrow> r = None)"
  by (auto simp: validate_terminal_reason_def)

text \<open>
  Acceptance of a transition, as one condition: the relation between a snapshot, the request and
  its outcome that the code implements.
\<close>

definition transition_accepts ::
  "VersionSnapshot \<Rightarrow> VersionState \<Rightarrow> int \<Rightarrow> int \<Rightarrow> int \<Rightarrow> string option
   \<Rightarrow> PublicationEvidence option \<Rightarrow> string \<Rightarrow> bool" where
  "transition_accepts s target expected c t reason evidence operation \<longleftrightarrow>
     vs_revision s = expected
     \<and> vs_progress_completed s \<le> c \<and> vs_progress_total s \<le> t \<and> 0 \<le> c \<and> 0 \<le> t \<and> (t = 0 \<or> c \<le> t)
     \<and> operation_allowed (vs_state s) target operation = Some True
     \<and> (target \<in> failure_states \<longrightarrow> reason \<noteq> None)
     \<and> (target \<notin> TERMINAL_STATES \<longrightarrow> reason = None)
     \<and> (target \<in> {READY, READY_WITH_WARNINGS} \<longrightarrow> (\<exists>e. evidence = Some e \<and> is_complete e))"

abbreviation opt_default :: "'a \<Rightarrow> 'a option \<Rightarrow> 'a" where
  "opt_default d x \<equiv> (case x of None \<Rightarrow> d | Some v \<Rightarrow> v)"

lemma transition_version_Inr:
  "transition_version s target expected pc pt reason evidence operation = Inr s' \<longleftrightarrow>
     transition_accepts s target expected (opt_default (vs_progress_completed s) pc)
       (opt_default (vs_progress_total s) pt) reason evidence operation
     \<and> s' = s\<lparr>vs_state := target, vs_revision := vs_revision s + 1,
              vs_progress_completed := opt_default (vs_progress_completed s) pc,
              vs_progress_total := opt_default (vs_progress_total s) pt,
              vs_terminal_reason_code := reason\<rparr>"
proof (cases "vs_revision s = expected \<and>
    (target \<in> {READY, READY_WITH_WARNINGS} \<longrightarrow> (\<exists>e. evidence = Some e \<and> is_complete e))")
  case True
  then have "\<not> (target \<in> {READY, READY_WITH_WARNINGS} \<and> (evidence = None \<or> \<not> is_complete (the evidence)))"
    by auto
  with True show ?thesis
    by (simp only: transition_version_def transition_accepts_def Let_def if_False refl not_True_eq_False
        res_simps sum.inject) blast
next
  case False
  then consider "vs_revision s \<noteq> expected"
    | "target \<in> {READY, READY_WITH_WARNINGS}" "evidence = None \<or> \<not> is_complete (the evidence)"
    by (cases evidence) auto
  then show ?thesis
    using False
    by cases (simp_all only: transition_version_def transition_accepts_def Let_def if_True
        res_simps simp_thms sum.distinct if_cancel split: if_split, blast+)
qed

lemma validation_error_class:
  "validate_progress s c t = Inl e \<Longrightarrow> is_CatalogTransitionError e"
  "validate_operation v w oper = Inl e \<Longrightarrow> is_CatalogTransitionError e"
  "validate_terminal_reason w r = Inl e \<Longrightarrow> is_CatalogTransitionError e"
  by (auto simp: validate_progress_def validate_operation_def validate_terminal_reason_def
      split: if_splits option.splits)

lemma transition_version_error_class:
  "transition_version s target expected pc pt reason evidence operation = Inl e \<Longrightarrow>
     is_CatalogTransitionError e"
  by (auto simp only: transition_version_def Let_def validation_error_class res_simps
      is_CatalogTransitionError.simps sum.inject split: if_splits)

subsection \<open>The forward pipeline is bounded\<close>

fun pipeline_rank :: "VersionState \<Rightarrow> nat" where
  "pipeline_rank RECEIVED = 0"
| "pipeline_rank VALIDATING = 1"
| "pipeline_rank QUEUED = 2"
| "pipeline_rank PARSING = 3"
| "pipeline_rank OCR = 4"
| "pipeline_rank NORMALIZING = 5"
| "pipeline_rank CHUNKING = 6"
| "pipeline_rank EMBEDDING = 7"
| "pipeline_rank INDEXING = 8"
| "pipeline_rank _ = 9"

lemma forward_rank: "t \<in> forward_transitions s \<Longrightarrow> pipeline_rank s < pipeline_rank t"
  by (cases s) auto

lemma operation_allowed_advance [simp]:
  "operation_allowed s t ''advance'' = Some b \<longleftrightarrow> b = (t \<in> forward_transitions s)"
  by (auto simp: operation_allowed_def)

lemma forward_terminal: "s \<in> TERMINAL_STATES \<Longrightarrow> forward_transitions s = {}"
  by (cases s) (auto simp: state_sets)

lemma rank_le_9: "pipeline_rank s \<le> 9"
  by (cases s) auto

text \<open>A run of accepted \<open>advance\<close> requests, given by the targets it asks for.\<close>

fun advance_run :: "VersionSnapshot \<Rightarrow> (VersionState \<times> string option \<times> PublicationEvidence option) list
    \<Rightarrow> VersionSnapshot res" where
  "advance_run s [] = Inr s"
| "advance_run s ((t, r, e) # reqs) =
     bind_res (transition_version s t (vs_revision s) None None r e ''advance'')
       (\<lambda>s'. advance_run s' reqs)"

lemma advance_run_rank:
  "advance_run s reqs = Inr s' \<Longrightarrow> pipeline_rank (vs_state s) + length reqs \<le> pipeline_rank (vs_state s')"
proof (induction s reqs rule: advance_run.induct)
  case (1 s)
  then show ?case by simp
next
  case (2 s t r e reqs)
  from "2.prems" obtain u where u: "transition_version s t (vs_revision s) None None r e ''advance'' = Inr u"
    and run: "advance_run u reqs = Inr s'"
    by (auto elim: bind_res_InrE)
  from u have "vs_state u = t" "t \<in> forward_transitions (vs_state s)"
    by (auto simp: transition_version_Inr transition_accepts_def)
  with "2.IH" [OF u run] forward_rank show ?case by fastforce
qed

text \<open>An accepted run of \<open>advance\<close> requests never takes more steps than the pipeline has
  stages left, so at most nine in all, and raises the revision once per step.\<close>

theorem advance_run_bounded:
  assumes "advance_run s reqs = Inr s'"
  shows "length reqs \<le> 9 - pipeline_rank (vs_state s)
    \<and> vs_revision s' = vs_revision s + int (length reqs)"
proof
  show "length reqs \<le> 9 - pipeline_rank (vs_state s)"
    using advance_run_rank [OF assms] rank_le_9 [of "vs_state s'"] by linarith
  show "vs_revision s' = vs_revision s + int (length reqs)"
    using assms
    by (induction s reqs rule: advance_run.induct) (auto simp: res_simps transition_version_Inr)
qed

definition received_snapshot :: VersionSnapshot where
  "received_snapshot = \<lparr>vs_state = RECEIVED, vs_revision = 0, vs_progress_completed = 0,
     vs_progress_total = 0, vs_terminal_reason_code = None\<rparr>"

lemma scanned_run_example:
  "advance_run received_snapshot
     [(VALIDATING, None, None), (QUEUED, None, None), (PARSING, None, None), (OCR, None, None),
      (NORMALIZING, None, None), (CHUNKING, None, None), (FAILED, Some ''X'', None)] =
   Inr \<lparr>vs_state = FAILED, vs_revision = 7, vs_progress_completed = 0, vs_progress_total = 0,
        vs_terminal_reason_code = Some ''X''\<rparr>"
  by (simp add: received_snapshot_def transition_version_def validate_progress_def
      validate_operation_def operation_allowed_def validate_terminal_reason_def state_sets)

theorem advance_run_bounded_witness:
  "length [(VALIDATING, None, None), (QUEUED, None, None), (PARSING, None, None), (OCR, None, None),
      (NORMALIZING, None, None), (CHUNKING, None, None),
      (FAILED, Some ''X'', None :: PublicationEvidence option)] \<le> 9 - pipeline_rank (vs_state received_snapshot)"
  using advance_run_bounded [OF scanned_run_example] by (rule conjunct1)

subsection \<open>Reachable snapshots\<close>

text \<open>
  Any caller may ask for any operation with any arguments; a step is an accepted request. The
  state a fresh version row starts in is \<open>received\<close> at revision 0.
\<close>

inductive version_step :: "VersionSnapshot \<Rightarrow> string \<Rightarrow> VersionSnapshot \<Rightarrow> bool" where
  accepted: "transition_version s target expected pc pt reason evidence operation = Inr s' \<Longrightarrow>
     version_step s operation s'"

inductive_cases version_stepE: "version_step s operation s'"

inductive reaches :: "nat \<Rightarrow> VersionSnapshot \<Rightarrow> bool" where
  start: "reaches 0 received_snapshot"
| step: "reaches n s \<Longrightarrow> version_step s operation s' \<Longrightarrow> reaches (Suc n) s'"

text \<open>
  The row checks of the schema that concern a snapshot: \<open>ck_document_versions_progress\<close>,
  \<open>ck_document_versions_reason\<close> and \<open>ck_document_versions_reason_terminal\<close>.
\<close>

definition snapshot_checks :: "VersionState \<Rightarrow> int \<Rightarrow> int \<Rightarrow> string option \<Rightarrow> bool" where
  "snapshot_checks state completed tot reason \<longleftrightarrow>
     completed \<ge> 0 \<and> tot \<ge> 0 \<and> (tot = 0 \<or> completed \<le> tot)
     \<and> (state \<in> failure_states \<longrightarrow> reason \<noteq> None)
     \<and> (reason = None \<or> state \<in> TERMINAL_STATES)"

definition snapshot_ok :: "VersionSnapshot \<Rightarrow> bool" where
  "snapshot_ok s \<longleftrightarrow> snapshot_checks (vs_state s) (vs_progress_completed s) (vs_progress_total s)
     (vs_terminal_reason_code s)"

lemma transition_snapshot_ok:
  "transition_version s t x pc pt r e oper = Inr s' \<Longrightarrow> snapshot_ok s'"
  by (auto simp: transition_version_Inr transition_accepts_def snapshot_ok_def snapshot_checks_def)

subsection \<open>The life cycle of a version\<close>

text \<open>
  The life cycle as the pipeline has it, stated over the order of its stages and not over the tables of the
  code: a version in work goes to the next stage (past OCR when no page needs it), can be abandoned at any time
  and can fail once its upload has arrived; it is refused while it is validated or parsed. What is finished only
  moves by the operation that is meant for it.
\<close>

definition in_work :: "VersionState \<Rightarrow> bool" where
  "in_work s \<longleftrightarrow> pipeline_rank s < 9"

inductive life_cycle_edge :: "VersionState \<Rightarrow> string \<Rightarrow> VersionState \<Rightarrow> bool" where
  next_stage: "in_work s \<Longrightarrow> in_work t \<Longrightarrow> pipeline_rank t = Suc (pipeline_rank s) \<Longrightarrow> life_cycle_edge s ''advance'' t"
| skip_ocr: "life_cycle_edge PARSING ''advance'' NORMALIZING"
| publish: "t \<in> {READY, READY_WITH_WARNINGS} \<Longrightarrow> life_cycle_edge INDEXING ''advance'' t"
| abandon: "in_work s \<Longrightarrow> operation \<in> {''advance'', ''cancel''} \<Longrightarrow> life_cycle_edge s operation CANCELLED"
| break_off: "in_work s \<Longrightarrow> s \<noteq> RECEIVED \<Longrightarrow> life_cycle_edge s ''advance'' FAILED"
| refuse: "s \<in> {VALIDATING, PARSING} \<Longrightarrow> t \<in> {REJECTED, QUARANTINED} \<Longrightarrow> life_cycle_edge s ''advance'' t"
| duplicate: "life_cycle_edge VALIDATING ''advance'' DEDUPLICATED"
| withdraw: "life_cycle_edge RECEIVED ''advance'' DELETED"
| delete: "s \<noteq> DELETED \<Longrightarrow> life_cycle_edge s ''delete'' DELETED"
| supersede: "s \<in> {READY, READY_WITH_WARNINGS} \<Longrightarrow> life_cycle_edge s ''supersede'' SUPERSEDED"
| corrupt: "s \<in> {READY, READY_WITH_WARNINGS} \<Longrightarrow> life_cycle_edge s ''reconcile'' FAILED"
| retry: "life_cycle_edge FAILED ''retry'' QUEUED"
| derive: "s \<in> {READY, READY_WITH_WARNINGS, FAILED, CANCELLED} \<Longrightarrow> life_cycle_edge s ''reprocess'' QUEUED"

lemma in_work_states: "in_work s \<longleftrightarrow>
    s \<in> {RECEIVED, VALIDATING, QUEUED, PARSING, OCR, NORMALIZING, CHUNKING, EMBEDDING, INDEXING}"
  by (cases s) (simp_all add: in_work_def)

lemma in_work_not_terminal: "in_work s \<longleftrightarrow> s \<notin> TERMINAL_STATES"
  by (cases s) (simp_all add: in_work_def state_sets)

inductive_simps advance_edge_simps: "life_cycle_edge s ''advance'' t"

lemma advance_edge: "life_cycle_edge s ''advance'' t \<longleftrightarrow> t \<in> forward_transitions s"
  unfolding advance_edge_simps in_work_def by (cases s; cases t) simp_all

lemma operation_edge:
  assumes "operation \<noteq> ''advance''"
  shows "life_cycle_edge s operation t \<longleftrightarrow>
      operation = ''cancel'' \<and> s \<notin> TERMINAL_STATES \<and> t = CANCELLED
    \<or> operation = ''delete'' \<and> s \<noteq> DELETED \<and> t = DELETED
    \<or> operation = ''supersede'' \<and> s \<in> SUPERSEDEABLE_STATES \<and> t = SUPERSEDED
    \<or> operation = ''reconcile'' \<and> s \<in> {READY, READY_WITH_WARNINGS} \<and> t = FAILED
    \<or> operation = ''retry'' \<and> s = FAILED \<and> t = QUEUED
    \<or> operation = ''reprocess'' \<and> s \<in> REPROCESSABLE_STATES \<and> t = QUEUED"
    (is "?edge \<longleftrightarrow> ?spec")
proof
  assume ?edge
  then show ?spec
    using assms by cases (simp_all add: in_work_not_terminal SUPERSEDEABLE_STATES_def REPROCESSABLE_STATES_def)
next
  note life_cycle_edge.intros [simp]
  assume ?spec
  then show ?edge
    by (elim disjE conjE) (simp_all add: in_work_not_terminal SUPERSEDEABLE_STATES_def REPROCESSABLE_STATES_def)
qed

lemma operation_allowed_edge: "operation_allowed s t operation = Some True \<longleftrightarrow> life_cycle_edge s operation t"
proof (cases "operation = ''advance''")
  case True
  then show ?thesis by (simp add: advance_edge)
next
  case False
  have "s \<in> DELETABLE_STATES \<longleftrightarrow> s \<noteq> DELETED" by (simp add: DELETABLE_STATES_def VersionState_all_UNIV)
  with False show ?thesis
    unfolding operation_edge [OF False] operation_allowed_def by (auto split: if_split_asm)
qed

lemma transition_version_Inl:
  assumes "transition_version s target expected pc pt reason evidence operation = Inl e"
  shows "(\<exists>m. e = StaleTransitionError m) \<longleftrightarrow> vs_revision s \<noteq> expected"
    and "(\<exists>m. e = IllegalTransitionError m) \<longleftrightarrow> vs_revision s = expected"
proof -
  have v: "validate_progress s c t = Inl e \<Longrightarrow> \<exists>m. e = IllegalTransitionError m"
    "validate_operation v w oper = Inl e \<Longrightarrow> \<exists>m. e = IllegalTransitionError m"
    "validate_terminal_reason w r = Inl e \<Longrightarrow> \<exists>m. e = IllegalTransitionError m" for c t v w oper r
    by (auto simp: validate_progress_def validate_operation_def validate_terminal_reason_def
        split: if_splits option.splits)
  have "if vs_revision s \<noteq> expected then \<exists>m. e = StaleTransitionError m else \<exists>m. e = IllegalTransitionError m"
    using assms by (auto simp only: transition_version_def Let_def v res_simps sum.inject sum.distinct split: if_splits)
  then show "(\<exists>m. e = StaleTransitionError m) \<longleftrightarrow> vs_revision s \<noteq> expected"
    and "(\<exists>m. e = IllegalTransitionError m) \<longleftrightarrow> vs_revision s = expected"
    by (auto split: if_splits)
qed

text \<open>C1: \<open>transition_version\<close> does what the life cycle and the table of versions ask for: it succeeds exactly when
  the caller knows the current revision, the edge belongs to the life cycle of a version, neither progress counter goes
  back, the new row passes the row checks of the database, and a ready version comes with complete evidence; the
  snapshot then has the target, the next revision, the progress and the reason asked for. A call refused for its
  revision raises \<open>StaleTransitionError\<close>, every other refused call \<open>IllegalTransitionError\<close>.\<close>

theorem transition_version_iff:
  "let c = opt_default (vs_progress_completed s) pc; t = opt_default (vs_progress_total s) pt
   in if vs_revision s = expected \<and> life_cycle_edge (vs_state s) operation target
        \<and> vs_progress_completed s \<le> c \<and> vs_progress_total s \<le> t \<and> snapshot_checks target c t reason
        \<and> (target \<in> {READY, READY_WITH_WARNINGS} \<longrightarrow> (\<exists>e. evidence = Some e \<and> is_complete e))
      then transition_version s target expected pc pt reason evidence operation =
        Inr \<lparr>vs_state = target, vs_revision = expected + 1, vs_progress_completed = c, vs_progress_total = t,
             vs_terminal_reason_code = reason\<rparr>
      else \<exists>m. transition_version s target expected pc pt reason evidence operation =
        Inl (if vs_revision s = expected then IllegalTransitionError m else StaleTransitionError m)"
proof -
  let ?c = "opt_default (vs_progress_completed s) pc" and ?t = "opt_default (vs_progress_total s) pt"
  let ?r = "transition_version s target expected pc pt reason evidence operation"
  let ?ok = "vs_revision s = expected \<and> life_cycle_edge (vs_state s) operation target
        \<and> vs_progress_completed s \<le> ?c \<and> vs_progress_total s \<le> ?t \<and> snapshot_checks target ?c ?t reason
        \<and> (target \<in> {READY, READY_WITH_WARNINGS} \<longrightarrow> (\<exists>e. evidence = Some e \<and> is_complete e))"
  have ok: "transition_accepts s target expected ?c ?t reason evidence operation \<longleftrightarrow> ?ok"
    unfolding transition_accepts_def operation_allowed_edge snapshot_checks_def by blast
  show ?thesis
  proof (cases ?r)
    case (Inr s')
    then have "?ok" and "s' = s\<lparr>vs_state := target, vs_revision := vs_revision s + 1, vs_progress_completed := ?c,
        vs_progress_total := ?t, vs_terminal_reason_code := reason\<rparr>"
      unfolding ok [symmetric] transition_version_Inr by simp_all
    with Inr show ?thesis by (simp add: Let_def)
  next
    case (Inl e)
    then have "?r \<noteq> Inr s'" for s' by simp
    then have "\<not> ?ok" unfolding ok [symmetric] transition_version_Inr by blast
    with Inl transition_version_Inl [OF Inl] show ?thesis by (auto simp: Let_def)
  qed
qed

theorem transition_version_iff_witness:
  "transition_version \<lparr>vs_state = INDEXING, vs_revision = 7, vs_progress_completed = 1,
       vs_progress_total = 2, vs_terminal_reason_code = None\<rparr> READY 7 (Some 2) None None
       (Some \<lparr>chunk_count = 3, embedded_chunk_count = 3, lexical_publication_count = 3,
              vector_publication_count = 3, chunk_manifest_published = True,
              index_manifest_published = True\<rparr>) ''advance'' =
   Inr \<lparr>vs_state = READY, vs_revision = 8, vs_progress_completed = 2, vs_progress_total = 2,
        vs_terminal_reason_code = None\<rparr>
   \<and> (\<exists>m. transition_version (received_snapshot\<lparr>vs_state := CANCELLED\<rparr>) QUEUED 0 None None None None ''retry''
        = Inl (IllegalTransitionError m))
   \<and> (\<exists>m. transition_version received_snapshot VALIDATING 4 None None None None ''advance''
        = Inl (StaleTransitionError m))"
proof -
  have e: "life_cycle_edge INDEXING ''advance'' READY" by (rule life_cycle_edge.publish) simp
  have n: "\<not> life_cycle_edge CANCELLED ''retry'' QUEUED" by (simp add: operation_edge state_sets)
  let ?e = "\<lparr>chunk_count = 3, embedded_chunk_count = 3, lexical_publication_count = 3,
       vector_publication_count = 3, chunk_manifest_published = True, index_manifest_published = True\<rparr>"
  let ?s = "\<lparr>vs_state = INDEXING, vs_revision = 7, vs_progress_completed = 1,
       vs_progress_total = 2, vs_terminal_reason_code = None\<rparr>"
  have c: "is_complete ?e" "snapshot_checks READY 2 2 None" by (simp_all add: is_complete_def snapshot_checks_def state_sets)
  show ?thesis
  proof (intro conjI)
    show "transition_version ?s READY 7 (Some 2) None None (Some ?e) ''advance'' = Inr \<lparr>vs_state = READY, vs_revision = 8,
        vs_progress_completed = 2, vs_progress_total = 2, vs_terminal_reason_code = None\<rparr>"
      using transition_version_iff [of ?s "Some 2" None 7 "''advance''" READY None "Some ?e"] c e by (simp add: Let_def)
    show "\<exists>m. transition_version (received_snapshot\<lparr>vs_state := CANCELLED\<rparr>) QUEUED 0 None None None None ''retry''
        = Inl (IllegalTransitionError m)"
      using transition_version_iff [of "received_snapshot\<lparr>vs_state := CANCELLED\<rparr>" None None 0 "''retry''" QUEUED None None] n
      by (simp add: received_snapshot_def)
    show "\<exists>m. transition_version received_snapshot VALIDATING 4 None None None None ''advance'' = Inl (StaleTransitionError m)"
      using transition_version_iff [of received_snapshot None None 4 "''advance''" VALIDATING None None]
      by (simp add: received_snapshot_def)
  qed
qed

lemma deleted_no_operation: "operation_allowed DELETED t oper \<noteq> Some True"
  by (auto simp: operation_allowed_def state_sets)

lemma version_step_deleted: "vs_state s = DELETED \<Longrightarrow> \<not> version_step s oper s'"
  by (auto elim!: version_stepE simp: transition_version_Inr transition_accepts_def deleted_no_operation)

text \<open>C2: every reachable snapshot satisfies the row checks of the schema, and its revision is the
  number of accepted transitions since registration.\<close>

theorem reachable_snapshot_ok:
  assumes "reaches n s"
  shows "snapshot_ok s \<and> vs_revision s = int n"
  using assms
proof (induction rule: reaches.induct)
  case start
  show ?case
    by (simp add: received_snapshot_def snapshot_ok_def snapshot_checks_def state_sets)
next
  case (step n s operation s')
  from step.hyps(2) obtain t x pc pt r e
    where "transition_version s t x pc pt r e operation = Inr s'"
    by (auto elim: version_stepE)
  with step.IH show ?case
    by (auto simp: transition_snapshot_ok) (simp add: transition_version_Inr)
qed

lemma reaches_cancelled: "reaches 1 (received_snapshot\<lparr>vs_state := CANCELLED, vs_revision := 1\<rparr>)"
proof -
  have "version_step received_snapshot ''cancel''
      (received_snapshot\<lparr>vs_state := CANCELLED, vs_revision := 1\<rparr>)"
    by (rule version_step.accepted [of _ CANCELLED 0 None None None None])
      (simp add: transition_version_Inr transition_accepts_def operation_allowed_def state_sets
        received_snapshot_def)
  then show ?thesis
    using reaches.step [OF reaches.start] by simp
qed

theorem reachable_snapshot_ok_witness:
  "snapshot_ok (received_snapshot\<lparr>vs_state := CANCELLED, vs_revision := 1\<rparr>)"
  using reachable_snapshot_ok [OF reaches_cancelled] by simp

text \<open>C3: a version enters a ready state only by \<open>advance\<close> from \<open>indexing\<close> with evidence that
  counts at least one chunk and an embedding, a lexical and a vector publication for each.\<close>

theorem ready_only_with_evidence:
  assumes "transition_version s t x pc pt r ev oper = Inr s'" and "t = READY \<or> t = READY_WITH_WARNINGS"
  shows "vs_state s = INDEXING \<and> oper = ''advance'' \<and> (\<exists>e. ev = Some e \<and> is_complete e)"
proof -
  from assms have "operation_allowed (vs_state s) t oper = Some True"
    and "\<exists>e. ev = Some e \<and> is_complete e"
    by (auto simp: transition_version_Inr transition_accepts_def)
  then show ?thesis
    using assms(2) by (cases "vs_state s") (auto simp: operation_allowed_def split: if_splits)
qed

theorem ready_only_with_evidence_witness:
  "\<exists>s s' e. transition_version s READY 7 None None None (Some e) ''advance'' = Inr s' \<and> vs_state s' = READY
     \<and> vs_state s = INDEXING \<and> is_complete e \<and> chunk_count e = 3"
proof -
  let ?s = "\<lparr>vs_state = INDEXING, vs_revision = 7, vs_progress_completed = 1,
       vs_progress_total = 2, vs_terminal_reason_code = None\<rparr>"
  let ?e = "\<lparr>chunk_count = 3, embedded_chunk_count = 3, lexical_publication_count = 3,
       vector_publication_count = 3, chunk_manifest_published = True, index_manifest_published = True\<rparr>"
  have run: "transition_version ?s READY 7 None None None (Some ?e) ''advance'' =
      Inr (?s\<lparr>vs_state := READY, vs_revision := 8\<rparr>)"
    by (simp add: transition_version_Inr transition_accepts_def is_complete_def state_sets)
  have "is_complete ?e" using ready_only_with_evidence [OF run] by blast
  moreover have "vs_state ?s = INDEXING" using ready_only_with_evidence [OF run] by blast
  ultimately show ?thesis using run
    by (intro exI [of _ ?s] exI [of _ "?s\<lparr>vs_state := READY, vs_revision := 8\<rparr>"] exI [of _ ?e] conjI) simp_all
qed

text \<open>Deletion is final and always possible: a deleted version accepts no operation with any
  arguments, and any other version in a state the schema allows accepts \<open>delete\<close>.\<close>

theorem delete_final_and_total:
  assumes "snapshot_ok s"
  shows "if vs_state s = DELETED
    then (\<forall>t x pc pt r ev oper s'. transition_version s t x pc pt r ev oper \<noteq> Inr s')
    else (\<exists>s'. transition_version s DELETED (vs_revision s) None None r ev ''delete'' = Inr s')"
proof (cases "vs_state s = DELETED")
  case True
  then show ?thesis
    by (simp add: transition_version_Inr transition_accepts_def deleted_no_operation)
next
  case False
  then have "operation_allowed (vs_state s) DELETED ''delete'' = Some True"
    by (simp add: operation_allowed_def state_sets)
  moreover have "DELETED \<in> TERMINAL_STATES" "DELETED \<notin> failure_states"
    by (simp_all add: state_sets)
  ultimately show ?thesis
    using False assms
    by (simp add: transition_version_Inr transition_accepts_def snapshot_ok_def snapshot_checks_def)
qed

theorem delete_final_and_total_witness:
  "\<exists>s'. transition_version received_snapshot DELETED 0 None None None None ''delete'' = Inr s'"
proof -
  have "snapshot_ok received_snapshot"
    by (simp add: received_snapshot_def snapshot_ok_def snapshot_checks_def state_sets)
  from delete_final_and_total [OF this] show ?thesis
    by (simp add: received_snapshot_def)
qed

end
