(* ===== verification/Schema_Rows.thy ===== *)
theory Schema_Rows
  imports State_Machine
begin

text \<open>
  The tables of the catalog database (\<open>migrations/\<close>): one record per table, with the columns the
  program reads or writes, and the session, which holds the tables as the current transaction
  sees them together with the transaction's \<open>now()\<close>. Text columns whose \<open>CHECK\<close> limits them to an
  enumeration hold the enumeration. Then the row checks and trigger functions.
\<close>

section \<open>Rows\<close>

record tenant_row =
  tn_id :: uuid
  tn_name :: string

record collection_row =
  co_id :: uuid
  co_tenant_id :: uuid
  co_name :: string
  co_retention_days :: int
  co_upload_max_bytes :: int
  co_document_quota :: int
  co_storage_quota_bytes :: int
  co_legal_hold :: bool
  co_created_at :: timestamp
  co_updated_at :: timestamp

record membership_row =
  cm_id :: uuid
  cm_tenant_id :: uuid
  cm_collection_id :: uuid
  cm_principal_subject :: string
  cm_role :: CollectionRole

record source_document_row =
  sd_id :: uuid
  sd_tenant_id :: uuid
  sd_collection_id :: uuid
  sd_source_key :: string
  sd_display_name :: string

record version_row =
  dv_id :: uuid
  dv_tenant_id :: uuid
  dv_collection_id :: uuid
  dv_document_id :: uuid
  dv_version_number :: int
  dv_idempotency_key :: string
  dv_content_sha256 :: string
  dv_size_bytes :: int
  dv_page_count :: "int option"
  dv_detected_mime :: "string option"
  dv_object_key :: string
  dv_source_uri_policy :: string
  dv_pipeline_profile :: string
  dv_state :: VersionState
  dv_state_revision :: int
  dv_progress_completed :: int
  dv_progress_total :: int
  dv_terminal_reason_code :: "string option"
  dv_canonical_version_id :: "uuid option"
  dv_created_at :: timestamp
  dv_updated_at :: timestamp
  dv_reprocessed_from_version_id :: "uuid option"

record artifact_row =
  af_id :: uuid
  af_tenant_id :: uuid
  af_collection_id :: uuid
  af_document_version_id :: uuid
  af_source_artifact_id :: "uuid option"
  af_artifact_type :: ArtifactType
  af_object_key :: string
  af_generator_name :: string
  af_generator_version :: string
  af_checksum_sha256 :: string
  af_size_bytes :: int
  af_retention_until :: "timestamp option"
  af_created_at :: timestamp
  af_search_target_name :: "string option"
  af_search_target_version :: "string option"

record job_row =
  ij_id :: uuid
  ij_tenant_id :: uuid
  ij_collection_id :: uuid
  ij_document_version_id :: uuid
  ij_stage :: IngestionStage
  ij_state :: JobState
  ij_generation :: int
  ij_attempt_count :: int
  ij_max_attempts :: int
  ij_lease_owner :: "string option"
  ij_lease_expires_at :: "timestamp option"
  ij_heartbeat_at :: "timestamp option"
  ij_retry_at :: "timestamp option"
  ij_terminal_reason_code :: "string option"
  ij_sanitized_context :: "(string \<times> string) list"
  ij_created_at :: timestamp
  ij_updated_at :: timestamp
  ij_lifecycle_request_id :: "uuid option"
  ij_publication_target_name :: "string option"
  ij_publication_target_version :: "string option"
  ij_publication_target_attempt :: "int option"

record attempt_row =
  ja_id :: uuid
  ja_tenant_id :: uuid
  ja_collection_id :: uuid
  ja_job_id :: uuid
  ja_attempt_number :: int
  ja_worker_id :: string
  ja_started_at :: timestamp
  ja_heartbeat_at :: "timestamp option"
  ja_finished_at :: "timestamp option"
  ja_outcome :: "string option"
  ja_error_class :: "string option"
  ja_reason_code :: "string option"

record event_row =
  ev_id :: uuid
  ev_tenant_id :: uuid
  ev_collection_id :: uuid
  ev_document_version_id :: uuid
  ev_idempotency_key :: string
  ev_from_state :: VersionState
  ev_to_state :: VersionState
  ev_from_revision :: int
  ev_to_revision :: int
  ev_operation :: string
  ev_actor_type :: string
  ev_actor_id :: string

record chunk_row =
  ck_id :: uuid
  ck_tenant_id :: uuid
  ck_collection_id :: uuid
  ck_document_version_id :: uuid
  ck_source_artifact_id :: uuid
  ck_ordinal :: int
  ck_page_start :: int
  ck_page_end :: int
  ck_content_sha256 :: string
  ck_content_object_key :: string
  ck_token_count :: int
  ck_chunker_name :: string
  ck_chunker_version :: string

record embedding_row =
  ce_id :: uuid
  ce_tenant_id :: uuid
  ce_collection_id :: uuid
  ce_document_version_id :: uuid
  ce_chunk_id :: uuid
  ce_provider :: string
  ce_model_name :: string
  ce_model_version :: string
  ce_dimensions :: int
  ce_vector_object_key :: string
  ce_vector_checksum_sha256 :: string

record publication_row =
  ip_id :: uuid
  ip_tenant_id :: uuid
  ip_collection_id :: uuid
  ip_document_version_id :: uuid
  ip_chunk_id :: uuid
  ip_publication_kind :: PublicationKind
  ip_target_name :: string
  ip_target_version :: string
  ip_external_record_id :: string
  ip_published_at :: timestamp
  ip_deleted_at :: "timestamp option"
  ip_publication_job_id :: "uuid option"
  ip_publication_attempt :: "int option"
  ip_activated_at :: "timestamp option"

datatype RequestState = RS_PENDING | RS_RUNNING | RS_SUCCEEDED | RS_FAILED

record request_row =
  lr_id :: uuid
  lr_tenant_id :: uuid
  lr_collection_id :: uuid
  lr_document_version_id :: uuid
  lr_source_document_version_id :: uuid
  lr_request_type :: string
  lr_idempotency_key :: string
  lr_requested_by :: string
  lr_state :: RequestState
  lr_requested_at :: timestamp
  lr_completed_at :: "timestamp option"

datatype CleanupState = CL_PENDING | CL_RUNNING | CL_DELETED | CL_FAILED

record object_cleanup_row =
  oc_id :: uuid
  oc_tenant_id :: uuid
  oc_collection_id :: uuid
  oc_document_version_id :: uuid
  oc_lifecycle_request_id :: uuid
  oc_object_key :: string
  oc_state :: CleanupState
  oc_attempt_count :: int
  oc_deleted_at :: "timestamp option"

record search_cleanup_row =
  sc_id :: uuid
  sc_tenant_id :: uuid
  sc_collection_id :: uuid
  sc_document_version_id :: uuid
  sc_activation_version_id :: "uuid option"
  sc_publication_job_id :: "uuid option"
  sc_publication_attempt :: "int option"
  sc_target_name :: string
  sc_target_version :: string
  sc_state :: CleanupState
  sc_attempt_count :: int
  sc_lease_owner :: "string option"
  sc_lease_expires_at :: "timestamp option"
  sc_last_reason_code :: "string option"
  sc_deleted_at :: "timestamp option"
  sc_updated_at :: timestamp

section \<open>The session\<close>

record session =
  now :: timestamp
  db_tenants :: "tenant_row list"
  db_collections :: "collection_row list"
  db_memberships :: "membership_row list"
  db_documents :: "source_document_row list"
  db_versions :: "version_row list"
  db_artifacts :: "artifact_row list"
  db_jobs :: "job_row list"
  db_attempts :: "attempt_row list"
  db_events :: "event_row list"
  db_chunks :: "chunk_row list"
  db_embeddings :: "embedding_row list"
  db_publications :: "publication_row list"
  db_requests :: "request_row list"
  db_object_cleanup :: "object_cleanup_row list"
  db_search_cleanup :: "search_cleanup_row list"

definition empty_session :: session where
  "empty_session = \<lparr>now = 0, db_tenants = [], db_collections = [], db_memberships = [],
     db_documents = [], db_versions = [], db_artifacts = [], db_jobs = [], db_attempts = [],
     db_events = [], db_chunks = [], db_embeddings = [], db_publications = [], db_requests = [],
     db_object_cleanup = [], db_search_cleanup = []\<rparr>"

text \<open>\<open>Database.transaction()\<close>: commit the session's tables on return, roll back on an exception.\<close>

definition transaction :: "(session \<Rightarrow> ('a \<times> session) res) \<Rightarrow> session \<Rightarrow> 'a res \<times> session" where
  "transaction body s =
     (case body s of Inl e \<Rightarrow> (Inl e, s) | Inr (x, s') \<Rightarrow> (Inr x, s'))"

lemma transaction_rollback: "fst (transaction body s) = Inl e \<Longrightarrow> snd (transaction body s) = s"
  by (auto simp: transaction_def split: sum.splits)

section \<open>Row checks\<close>

fun check_all :: "(string \<times> bool) list \<Rightarrow> unit res" where
  "check_all [] = Inr ()"
| "check_all ((name, holds) # cs) = (if holds then check_all cs else Inl (IntegrityError name))"

lemma check_all_Inr [res_simps]: "check_all cs = Inr u \<longleftrightarrow> (\<forall>c \<in> set cs. snd c)"
  by (induction cs rule: check_all.induct) auto

lemma check_all_IntegrityError: "check_all cs = Inl e \<Longrightarrow> is_IntegrityError e"
  by (induction cs rule: check_all.induct) (auto split: if_splits)

declare check_all.simps [simp del]

definition is_sha256 :: "string \<Rightarrow> bool" where
  "is_sha256 h \<longleftrightarrow> length h = 64 \<and> list_all (\<lambda>c. c \<in> set ''0123456789abcdef'') h"

definition active_job_state :: "JobState \<Rightarrow> bool" where
  "active_job_state st \<longleftrightarrow> st \<in> {JS_PENDING, JS_LEASED, JS_RUNNING, JS_RETRY_SCHEDULED}"

definition terminal_job_state :: "JobState \<Rightarrow> bool" where
  "terminal_job_state st \<longleftrightarrow> st \<in> {JS_SUCCEEDED, JS_FAILED, JS_CANCELLED, JS_DEAD_LETTERED}"

lemma active_iff_not_terminal: "active_job_state st \<longleftrightarrow> \<not> terminal_job_state st"
  by (cases st) (simp_all add: active_job_state_def terminal_job_state_def)

definition version_checks :: "version_row \<Rightarrow> (string \<times> bool) list" where
  "version_checks v =
     [(''ck_document_versions_number'', dv_version_number v > 0),
      (''ck_document_versions_sha256'', is_sha256 (dv_content_sha256 v)),
      (''ck_document_versions_size'', dv_size_bytes v > 0),
      (''ck_document_versions_pages'', case dv_page_count v of None \<Rightarrow> True | Some n \<Rightarrow> n > 0),
      (''ck_document_versions_progress'', dv_progress_completed v \<ge> 0 \<and> dv_progress_total v \<ge> 0
         \<and> (dv_progress_total v = 0 \<or> dv_progress_completed v \<le> dv_progress_total v)),
      (''ck_document_versions_reason'',
         dv_state v \<in> failure_states \<longrightarrow> dv_terminal_reason_code v \<noteq> None),
      (''ck_document_versions_canonical'',
         (dv_state v = DEDUPLICATED) = (dv_canonical_version_id v \<noteq> None)),
      (''ck_document_versions_not_self_canonical'', dv_canonical_version_id v \<noteq> Some (dv_id v)),
      (''ck_document_versions_reason_terminal'',
         dv_terminal_reason_code v = None \<or> dv_state v \<in> TERMINAL_STATES),
      (''ck_document_versions_reprocessed_not_self'',
         dv_reprocessed_from_version_id v \<noteq> Some (dv_id v))]"

definition artifact_checks :: "artifact_row \<Rightarrow> (string \<times> bool) list" where
  "artifact_checks a =
     [(''ck_artifacts_checksum'', is_sha256 (af_checksum_sha256 a)),
      (''ck_artifacts_size'', af_size_bytes a \<ge> 0),
      (''ck_artifacts_search_target'',
         (af_search_target_name a = None) = (af_search_target_version a = None)
         \<and> (af_search_target_name a = None
            \<or> (af_artifact_type a = AT_INDEX_MANIFEST \<and> af_generator_name a = ''opensearch'')))]"

definition job_checks :: "job_row \<Rightarrow> (string \<times> bool) list" where
  "job_checks j =
     [(''ck_ingestion_jobs_generation'', ij_generation j \<ge> 0),
      (''ck_ingestion_jobs_attempts'',
         ij_attempt_count j \<ge> 0 \<and> ij_max_attempts j > 0 \<and> ij_attempt_count j \<le> ij_max_attempts j),
      (''ck_ingestion_jobs_lease'', (ij_lease_owner j = None) = (ij_lease_expires_at j = None)),
      (''ck_ingestion_jobs_publication_target'',
         (ij_publication_target_name j = None) = (ij_publication_target_version j = None)
         \<and> (ij_publication_target_name j = None) = (ij_publication_target_attempt j = None)
         \<and> (case ij_publication_target_attempt j of None \<Rightarrow> True | Some n \<Rightarrow> n > 0))]"

definition attempt_checks :: "attempt_row \<Rightarrow> (string \<times> bool) list" where
  "attempt_checks a =
     [(''ck_job_attempts_number'', ja_attempt_number a > 0),
      (''ck_job_attempts_times'',
         case ja_finished_at a of None \<Rightarrow> True | Some t \<Rightarrow> t \<ge> ja_started_at a),
      (''ck_job_attempts_outcome'', case ja_outcome a of None \<Rightarrow> True
         | Some r \<Rightarrow> r \<in> {''succeeded'', ''retryable_failure'', ''permanent_failure'', ''cancelled'',
                         ''lease_expired''}),
      (''ck_job_attempts_error_class'', case ja_error_class a of None \<Rightarrow> True
         | Some c \<Rightarrow> c \<in> {''dependency'', ''invalid_input'', ''resource_limit'', ''security'',
                         ''internal''})]"

definition event_checks :: "event_row \<Rightarrow> (string \<times> bool) list" where
  "event_checks e =
     [(''ck_version_transition_revision'',
         ev_from_revision e \<ge> 0 \<and> ev_to_revision e = ev_from_revision e + 1),
      (''ck_version_transition_operation'',
         ev_operation e \<in> {''advance'', ''retry'', ''reprocess'', ''cancel'', ''supersede'',
                          ''delete'', ''reconcile''})]"

definition request_checks :: "request_row \<Rightarrow> (string \<times> bool) list" where
  "request_checks r =
     [(''ck_lifecycle_requests_type'',
         lr_request_type r \<in> {''retry'', ''reprocess'', ''cancel'', ''delete''}),
      (''ck_lifecycle_requests_completed'',
         case lr_completed_at r of None \<Rightarrow> True | Some t \<Rightarrow> t \<ge> lr_requested_at r)]"

definition collection_checks :: "collection_row \<Rightarrow> (string \<times> bool) list" where
  "collection_checks c =
     [(''ck_collections_retention'', co_retention_days c \<ge> 0),
      (''ck_collections_upload_limit'', co_upload_max_bytes c > 0),
      (''ck_collections_document_quota'', co_document_quota c > 0),
      (''ck_collections_storage_quota'', co_storage_quota_bytes c > 0)]"

section \<open>Trigger functions\<close>

abbreviation artifact_scope :: "artifact_row \<Rightarrow> uuid \<times> uuid \<times> uuid" where
  "artifact_scope a \<equiv> (af_tenant_id a, af_collection_id a, af_document_version_id a)"

abbreviation chunk_scope :: "chunk_row \<Rightarrow> uuid \<times> uuid \<times> uuid" where
  "chunk_scope c \<equiv> (ck_tenant_id c, ck_collection_id c, ck_document_version_id c)"

abbreviation embedding_scope :: "embedding_row \<Rightarrow> uuid \<times> uuid \<times> uuid" where
  "embedding_scope e \<equiv> (ce_tenant_id e, ce_collection_id e, ce_document_version_id e)"

abbreviation publication_scope :: "publication_row \<Rightarrow> uuid \<times> uuid \<times> uuid" where
  "publication_scope p \<equiv> (ip_tenant_id p, ip_collection_id p, ip_document_version_id p)"

abbreviation job_scope :: "job_row \<Rightarrow> uuid \<times> uuid \<times> uuid" where
  "job_scope j \<equiv> (ij_tenant_id j, ij_collection_id j, ij_document_version_id j)"

abbreviation event_scope :: "event_row \<Rightarrow> uuid \<times> uuid \<times> uuid" where
  "event_scope e \<equiv> (ev_tenant_id e, ev_collection_id e, ev_document_version_id e)"

abbreviation version_scope :: "version_row \<Rightarrow> uuid \<times> uuid \<times> uuid" where
  "version_scope v \<equiv> (dv_tenant_id v, dv_collection_id v, dv_id v)"

text \<open>A \<open>GROUP BY\<close> key of publications and \<open>count(DISTINCT chunk_id) FILTER (WHERE kind)\<close>.\<close>

definition publication_group ::
  "publication_row \<Rightarrow> string \<times> string \<times> uuid option \<times> int option" where
  "publication_group p =
     (ip_target_name p, ip_target_version p, ip_publication_job_id p, ip_publication_attempt p)"

definition distinct_chunks :: "PublicationKind \<Rightarrow> publication_row list \<Rightarrow> int" where
  "distinct_chunks k ps =
     int (length (remdups (map ip_chunk_id (filter (\<lambda>p. ip_publication_kind p = k) ps))))"

definition manifest_for :: "session \<Rightarrow> uuid \<times> uuid \<times> uuid \<Rightarrow> string \<Rightarrow> string \<Rightarrow> bool" where
  "manifest_for s k name version \<longleftrightarrow>
     list_ex (\<lambda>a. artifact_scope a = k \<and> af_artifact_type a = AT_INDEX_MANIFEST
       \<and> af_generator_name a = ''opensearch'' \<and> af_search_target_name a = Some name
       \<and> af_search_target_version a = Some version) (db_artifacts s)"

definition chunk_embedded :: "session \<Rightarrow> chunk_row \<Rightarrow> bool" where
  "chunk_embedded s c \<longleftrightarrow>
     list_ex (\<lambda>e. embedding_scope e = chunk_scope c \<and> ce_chunk_id e = ck_id c) (db_embeddings s)"

text \<open>\<open>enforce_ready_publication\<close>, the strict form of the last migration.\<close>

definition ready_publication_ok :: "session \<Rightarrow> version_row \<Rightarrow> bool" where
  "ready_publication_ok s v \<longleftrightarrow>
     (dv_state v \<in> {READY, READY_WITH_WARNINGS} \<longrightarrow>
      (let k = version_scope v;
           cs = filter (\<lambda>c. chunk_scope c = k) (db_chunks s);
           ps = filter (\<lambda>p. publication_scope p = k \<and> ip_deleted_at p = None
                  \<and> manifest_for s k (ip_target_name p) (ip_target_version p)) (db_publications s)
       in list_ex (\<lambda>a. artifact_scope a = k \<and> af_artifact_type a = AT_CHUNK_MANIFEST) (db_artifacts s)
          \<and> cs \<noteq> []
          \<and> list_all (chunk_embedded s) cs
          \<and> list_ex (\<lambda>p. let g = filter (\<lambda>q. publication_group q = publication_group p) ps
                in distinct_chunks PK_LEXICAL g = int (length cs)
                   \<and> distinct_chunks PK_VECTOR g = int (length cs)) ps))"

text \<open>\<open>protect_document_version_identity\<close>.\<close>

definition version_identity ::
  "version_row \<Rightarrow> (uuid \<times> uuid \<times> uuid \<times> int \<times> string \<times> string \<times> int \<times> string \<times> string \<times> uuid option)" where
  "version_identity v = (dv_tenant_id v, dv_collection_id v, dv_document_id v, dv_version_number v,
     dv_idempotency_key v, dv_content_sha256 v, dv_size_bytes v, dv_object_key v,
     dv_pipeline_profile v, dv_reprocessed_from_version_id v)"

definition protect_document_version_identity :: "version_row \<Rightarrow> version_row \<Rightarrow> unit res" where
  "protect_document_version_identity old new =
     (if version_identity new \<noteq> version_identity old
      then Inl (DatabaseError ''document version identity is immutable'')
      else if (dv_state new \<noteq> dv_state old \<and> dv_state_revision new \<noteq> dv_state_revision old + 1)
           \<or> (dv_state new = dv_state old \<and> dv_state_revision new \<noteq> dv_state_revision old)
           \<or> dv_progress_completed new < dv_progress_completed old
           \<or> dv_progress_total new < dv_progress_total old
      then Inl (DatabaseError ''document version progress is monotonic'')
      else Inr ())"

definition enforce_reprocessing_lineage :: "session \<Rightarrow> version_row \<Rightarrow> unit res" where
  "enforce_reprocessing_lineage s new =
     (case dv_reprocessed_from_version_id new of
        None \<Rightarrow> Inr ()
      | Some src \<Rightarrow>
          raise_if (\<not> list_ex (\<lambda>v. version_scope v = (dv_tenant_id new, dv_collection_id new, src)
                        \<and> dv_document_id v = dv_document_id new) (db_versions s))
            (DatabaseError ''reprocessing lineage must stay within one document''))"

definition enforce_ready_publication :: "session \<Rightarrow> version_row \<Rightarrow> unit res" where
  "enforce_ready_publication s new =
     raise_if (\<not> ready_publication_ok s new)
       (DatabaseError ''ready state requires complete publication evidence'')"

lemma enforce_ready_not_ready [simp]:
  "dv_state v \<noteq> READY \<Longrightarrow> dv_state v \<noteq> READY_WITH_WARNINGS \<Longrightarrow> enforce_ready_publication s v = Inr ()"
  by (simp add: enforce_ready_publication_def ready_publication_ok_def)

end
