(* ===== verification/Schema_Ops.thy ===== *)
theory Schema_Ops
  imports Schema_Rows
begin

text \<open>
  The statements the repositories run: \<open>INSERT\<close> with its checks, unique constraints and foreign
  keys, \<open>INSERT \<dots> ON CONFLICT DO NOTHING\<close>, and \<open>UPDATE \<dots> WHERE \<dots> RETURNING\<close> with its triggers
  and checks. A violated constraint is an \<open>IntegrityError\<close> that names it. The second half states
  the interface that the catalog relies on: a table whose rows keep a unique key and a row check.
\<close>

section \<open>Foreign keys\<close>

definition version_exists :: "session \<Rightarrow> uuid \<times> uuid \<times> uuid \<Rightarrow> bool" where
  "version_exists s k \<longleftrightarrow> list_ex (\<lambda>v. version_scope v = k) (db_versions s)"

definition request_exists :: "session \<Rightarrow> uuid \<Rightarrow> uuid \<Rightarrow> uuid option \<Rightarrow> bool" where
  "request_exists s t c r \<longleftrightarrow> (case r of None \<Rightarrow> True
     | Some i \<Rightarrow> list_ex (\<lambda>q. (lr_tenant_id q, lr_collection_id q, lr_id q) = (t, c, i)) (db_requests s))"

definition job_exists :: "session \<Rightarrow> uuid \<Rightarrow> uuid \<Rightarrow> uuid \<Rightarrow> bool" where
  "job_exists s t c i \<longleftrightarrow>
     list_ex (\<lambda>j. (ij_tenant_id j, ij_collection_id j, ij_id j) = (t, c, i)) (db_jobs s)"

section \<open>Inserts\<close>

definition insert_collection :: "collection_row \<Rightarrow> session \<Rightarrow> session res" where
  "insert_collection r s =
     bind_res (check_all (collection_checks r @
       [(''collections_pkey'', co_id r \<notin> co_id ` set (db_collections s)),
        (''uq_collections_tenant_name'',
           (co_tenant_id r, co_name r) \<notin> (\<lambda>c. (co_tenant_id c, co_name c)) ` set (db_collections s)),
        (''fk_collections_tenant'', co_tenant_id r \<in> tn_id ` set (db_tenants s))]))
       (\<lambda>_. Inr (s\<lparr>db_collections := db_collections s @ [r]\<rparr>))"

definition membership_key :: "membership_row \<Rightarrow> uuid \<times> uuid \<times> string" where
  "membership_key m = (cm_tenant_id m, cm_collection_id m, cm_principal_subject m)"

definition insert_membership :: "membership_row \<Rightarrow> session \<Rightarrow> session res" where
  "insert_membership r s =
     bind_res (check_all
       [(''collection_memberships_pkey'', cm_id r \<notin> cm_id ` set (db_memberships s)),
        (''uq_collection_memberships_subject'',
           membership_key r \<notin> membership_key ` set (db_memberships s)),
        (''fk_collection_memberships_collection'',
           list_ex (\<lambda>c. co_tenant_id c = cm_tenant_id r \<and> co_id c = cm_collection_id r)
             (db_collections s))])
       (\<lambda>_. Inr (s\<lparr>db_memberships := db_memberships s @ [r]\<rparr>))"

definition document_key :: "source_document_row \<Rightarrow> uuid \<times> uuid \<times> string" where
  "document_key d = (sd_tenant_id d, sd_collection_id d, sd_source_key d)"

definition insert_document :: "source_document_row \<Rightarrow> session \<Rightarrow> session res" where
  "insert_document r s =
     bind_res (check_all
       [(''source_documents_pkey'', sd_id r \<notin> sd_id ` set (db_documents s)),
        (''uq_source_documents_source_key'', document_key r \<notin> document_key ` set (db_documents s)),
        (''fk_source_documents_collection'',
           list_ex (\<lambda>c. co_tenant_id c = sd_tenant_id r \<and> co_id c = sd_collection_id r)
             (db_collections s))])
       (\<lambda>_. Inr (s\<lparr>db_documents := db_documents s @ [r]\<rparr>))"

definition version_number_key :: "version_row \<Rightarrow> uuid \<times> uuid \<times> uuid \<times> int" where
  "version_number_key v =
     (dv_tenant_id v, dv_collection_id v, dv_document_id v, dv_version_number v)"

definition version_idempotency :: "version_row \<Rightarrow> uuid \<times> uuid \<times> string" where
  "version_idempotency v = (dv_tenant_id v, dv_collection_id v, dv_idempotency_key v)"

definition insert_version :: "version_row \<Rightarrow> session \<Rightarrow> session res" where
  "insert_version r s =
     bind_res (enforce_reprocessing_lineage s r) (\<lambda>_.
     bind_res (enforce_ready_publication s r) (\<lambda>_.
     bind_res (check_all (version_checks r @
       [(''document_versions_pkey'', dv_id r \<notin> dv_id ` set (db_versions s)),
        (''uq_document_versions_number'', version_number_key r \<notin> version_number_key ` set (db_versions s)),
        (''uq_document_versions_idempotency'',
           version_idempotency r \<notin> version_idempotency ` set (db_versions s)),
        (''fk_document_versions_document'',
           list_ex (\<lambda>d. sd_tenant_id d = dv_tenant_id r \<and> sd_collection_id d = dv_collection_id r
             \<and> sd_id d = dv_document_id r) (db_documents s))]))
       (\<lambda>_. Inr (s\<lparr>db_versions := db_versions s @ [r]\<rparr>))))"

definition artifact_output :: "artifact_row \<Rightarrow>
    (uuid \<times> uuid \<times> uuid) \<times> ArtifactType \<times> string \<times> string \<times> string" where
  "artifact_output a = (artifact_scope a, af_artifact_type a, af_generator_name a,
     af_generator_version a, af_checksum_sha256 a)"

text \<open>\<open>ON CONFLICT ON CONSTRAINT uq_artifacts_output DO NOTHING\<close>: the row checks come first, a row
  with the same output is skipped, any other conflict is an error.\<close>

definition insert_artifact :: "artifact_row \<Rightarrow> session \<Rightarrow> session res" where
  "insert_artifact r s =
     bind_res (check_all (artifact_checks r)) (\<lambda>_.
       if artifact_output r \<in> artifact_output ` set (db_artifacts s) then Inr s
       else bind_res (check_all
         [(''artifacts_pkey'', af_id r \<notin> af_id ` set (db_artifacts s)),
          (''uq_artifacts_object_key'', af_object_key r \<notin> af_object_key ` set (db_artifacts s)),
          (''fk_artifacts_version'', version_exists s (artifact_scope r)),
          (''fk_artifacts_source'', case af_source_artifact_id r of None \<Rightarrow> True
             | Some i \<Rightarrow> list_ex (\<lambda>a. artifact_scope a = artifact_scope r \<and> af_id a = i) (db_artifacts s))])
         (\<lambda>_. Inr (s\<lparr>db_artifacts := db_artifacts s @ [r]\<rparr>)))"

definition job_delivery :: "job_row \<Rightarrow> (uuid \<times> uuid \<times> uuid) \<times> IngestionStage \<times> int" where
  "job_delivery j = (job_scope j, ij_stage j, ij_generation j)"

definition active_delete_job :: "job_row \<Rightarrow> bool" where
  "active_delete_job j \<longleftrightarrow> ij_stage j = ST_DELETE \<and> active_job_state (ij_state j)"

definition insert_job :: "job_row \<Rightarrow> session \<Rightarrow> session res" where
  "insert_job r s =
     bind_res (check_all (job_checks r @
       [(''ingestion_jobs_pkey'', ij_id r \<notin> ij_id ` set (db_jobs s)),
        (''uq_ingestion_jobs_delivery'', job_delivery r \<notin> job_delivery ` set (db_jobs s)),
        (''uq_ingestion_jobs_active_delete'', active_delete_job r \<longrightarrow>
           job_scope r \<notin> job_scope ` {j \<in> set (db_jobs s). active_delete_job j}),
        (''fk_ingestion_jobs_version'', version_exists s (job_scope r)),
        (''fk_ingestion_jobs_lifecycle_request'',
           request_exists s (ij_tenant_id r) (ij_collection_id r) (ij_lifecycle_request_id r))]))
       (\<lambda>_. Inr (s\<lparr>db_jobs := db_jobs s @ [r]\<rparr>))"

definition attempt_key :: "attempt_row \<Rightarrow> uuid \<times> uuid \<times> uuid \<times> int" where
  "attempt_key a = (ja_tenant_id a, ja_collection_id a, ja_job_id a, ja_attempt_number a)"

definition insert_attempt :: "attempt_row \<Rightarrow> session \<Rightarrow> session res" where
  "insert_attempt r s =
     bind_res (check_all (attempt_checks r @
       [(''job_attempts_pkey'', ja_id r \<notin> ja_id ` set (db_attempts s)),
        (''uq_job_attempts_number'', attempt_key r \<notin> attempt_key ` set (db_attempts s)),
        (''fk_job_attempts_job'',
           job_exists s (ja_tenant_id r) (ja_collection_id r) (ja_job_id r))]))
       (\<lambda>_. Inr (s\<lparr>db_attempts := db_attempts s @ [r]\<rparr>))"

definition event_idempotency :: "event_row \<Rightarrow> (uuid \<times> uuid \<times> uuid) \<times> string" where
  "event_idempotency e = (event_scope e, ev_idempotency_key e)"

definition event_revision :: "event_row \<Rightarrow> (uuid \<times> uuid \<times> uuid) \<times> int" where
  "event_revision e = (event_scope e, ev_to_revision e)"

definition insert_event :: "event_row \<Rightarrow> session \<Rightarrow> session res" where
  "insert_event r s =
     bind_res (check_all (event_checks r @
       [(''version_transition_events_pkey'', ev_id r \<notin> ev_id ` set (db_events s)),
        (''uq_version_transition_idempotency'', event_idempotency r \<notin> event_idempotency ` set (db_events s)),
        (''uq_version_transition_revision'', event_revision r \<notin> event_revision ` set (db_events s)),
        (''fk_version_transition_version'', version_exists s (event_scope r))]))
       (\<lambda>_. Inr (s\<lparr>db_events := db_events s @ [r]\<rparr>))"

definition request_idempotency :: "request_row \<Rightarrow> uuid \<times> uuid \<times> string" where
  "request_idempotency r = (lr_tenant_id r, lr_collection_id r, lr_idempotency_key r)"

definition insert_request :: "request_row \<Rightarrow> session \<Rightarrow> session res" where
  "insert_request r s =
     bind_res (check_all (request_checks r @
       [(''lifecycle_requests_pkey'', lr_id r \<notin> lr_id ` set (db_requests s)),
        (''uq_lifecycle_requests_idempotency'',
           request_idempotency r \<notin> request_idempotency ` set (db_requests s)),
        (''fk_lifecycle_requests_version'',
           version_exists s (lr_tenant_id r, lr_collection_id r, lr_document_version_id r)),
        (''fk_lifecycle_requests_source_version'',
           version_exists s (lr_tenant_id r, lr_collection_id r, lr_source_document_version_id r))]))
       (\<lambda>_. Inr (s\<lparr>db_requests := db_requests s @ [r]\<rparr>))"

section \<open>Updates\<close>

text \<open>
  \<open>UPDATE document_versions\<close>. The ready trigger is declared \<open>UPDATE OF state\<close>: it runs only for a
  statement whose \<open>SET\<close> list names \<open>state\<close>. The result is what \<open>RETURNING *\<close> returns.
\<close>

definition version_update_ok :: "bool \<Rightarrow> session \<Rightarrow> version_row \<Rightarrow> version_row \<Rightarrow> version_row res" where
  "version_update_ok sets_state s old new =
     bind_res (protect_document_version_identity old new) (\<lambda>_.
     bind_res (if sets_state then enforce_ready_publication s new else Inr ()) (\<lambda>_.
     bind_res (check_all (version_checks new)) (\<lambda>_. Inr new)))"

definition update_versions ::
  "bool \<Rightarrow> (version_row \<Rightarrow> bool) \<Rightarrow> (version_row \<Rightarrow> version_row) \<Rightarrow> session
   \<Rightarrow> (version_row list \<times> session) res" where
  "update_versions sets_state p f s =
     bind_res (map_res (\<lambda>v. version_update_ok sets_state s v (f v)) (filter p (db_versions s)))
       (\<lambda>rows. Inr (rows, s\<lparr>db_versions := update_rows p f (db_versions s)\<rparr>))"

definition active_deletes_unique :: "job_row list \<Rightarrow> bool" where
  "active_deletes_unique js \<longleftrightarrow> distinct (map job_scope (filter active_delete_job js))"

definition update_jobs :: "(job_row \<Rightarrow> bool) \<Rightarrow> (job_row \<Rightarrow> job_row) \<Rightarrow> session \<Rightarrow> session res" where
  "update_jobs p f s =
     bind_res (map_res (\<lambda>j. check_all (job_checks (f j))) (filter p (db_jobs s))) (\<lambda>_.
     bind_res (check_all [(''uq_ingestion_jobs_active_delete'',
                active_deletes_unique (update_rows p f (db_jobs s)))])
       (\<lambda>_. Inr (s\<lparr>db_jobs := update_rows p f (db_jobs s)\<rparr>)))"

definition update_attempts ::
  "(attempt_row \<Rightarrow> bool) \<Rightarrow> (attempt_row \<Rightarrow> attempt_row) \<Rightarrow> session \<Rightarrow> session res" where
  "update_attempts p f s =
     bind_res (map_res (\<lambda>a. check_all (attempt_checks (f a))) (filter p (db_attempts s)))
       (\<lambda>_. Inr (s\<lparr>db_attempts := update_rows p f (db_attempts s)\<rparr>))"

definition update_requests ::
  "(request_row \<Rightarrow> bool) \<Rightarrow> (request_row \<Rightarrow> request_row) \<Rightarrow> session \<Rightarrow> session res" where
  "update_requests p f s =
     bind_res (map_res (\<lambda>r. check_all (request_checks (f r))) (filter p (db_requests s)))
       (\<lambda>_. Inr (s\<lparr>db_requests := update_rows p f (db_requests s)\<rparr>))"

section \<open>What a successful statement did\<close>

lemma map_res_check [res_simps]:
  "map_res (\<lambda>x. check_all (cs x)) xs = Inr u \<longleftrightarrow> (\<forall>x \<in> set xs. check_all (cs x) = Inr ()) \<and> u = map (\<lambda>_. ()) xs"
  by (induction xs arbitrary: u) (auto simp: bind_res_eq_Inr)

lemma map_res_Inr_map:
  assumes "\<And>x y. x \<in> set xs \<Longrightarrow> g x = Inr y \<Longrightarrow> y = h x"
  shows "map_res g xs = Inr ys \<longleftrightarrow> (\<forall>x \<in> set xs. g x = Inr (h x)) \<and> ys = map h xs"
  using assms
proof (induction xs arbitrary: ys)
  case Nil
  then show ?case by auto
next
  case (Cons x xs)
  have IH: "map_res g xs = Inr zs \<longleftrightarrow> (\<forall>x \<in> set xs. g x = Inr (h x)) \<and> zs = map h xs" for zs
    using Cons by simp
  show ?case
    using Cons.prems [of x] by (auto simp: bind_res_eq_Inr IH)
qed

lemma version_update_ok_new: "version_update_ok b s old new = Inr r \<Longrightarrow> r = new"
  by (auto simp: version_update_ok_def bind_res_eq_Inr)

lemma update_versions_Inr [res_simps]:
  "update_versions b p f s = Inr (rows, s') \<longleftrightarrow>
     (\<forall>v \<in> set (db_versions s). p v \<longrightarrow> version_update_ok b s v (f v) = Inr (f v))
     \<and> rows = map f (filter p (db_versions s))
     \<and> s' = s\<lparr>db_versions := update_rows p f (db_versions s)\<rparr>"
proof -
  have "map_res (\<lambda>v. version_update_ok b s v (f v)) xs = Inr rows \<longleftrightarrow>
      (\<forall>v \<in> set xs. version_update_ok b s v (f v) = Inr (f v)) \<and> rows = map f xs" for xs rows
    by (rule map_res_Inr_map) (rule version_update_ok_new)
  then show ?thesis
    by (auto simp: update_versions_def bind_res_eq_Inr)
qed

lemma update_jobs_Inr [res_simps]:
  "update_jobs p f s = Inr s' \<longleftrightarrow>
     (\<forall>j \<in> set (db_jobs s). p j \<longrightarrow> check_all (job_checks (f j)) = Inr ())
     \<and> active_deletes_unique (update_rows p f (db_jobs s))
     \<and> s' = s\<lparr>db_jobs := update_rows p f (db_jobs s)\<rparr>"
  by (auto simp: update_jobs_def bind_res_eq_Inr map_res_check check_all_Inr)

lemma update_attempts_Inr [res_simps]:
  "update_attempts p f s = Inr s' \<longleftrightarrow>
     (\<forall>a \<in> set (db_attempts s). p a \<longrightarrow> check_all (attempt_checks (f a)) = Inr ())
     \<and> s' = s\<lparr>db_attempts := update_rows p f (db_attempts s)\<rparr>"
  by (auto simp: update_attempts_def bind_res_eq_Inr map_res_check)

lemma update_requests_Inr [res_simps]:
  "update_requests p f s = Inr s' \<longleftrightarrow>
     (\<forall>r \<in> set (db_requests s). p r \<longrightarrow> check_all (request_checks (f r)) = Inr ())
     \<and> s' = s\<lparr>db_requests := update_rows p f (db_requests s)\<rparr>"
  by (auto simp: update_requests_def bind_res_eq_Inr map_res_check)

lemma insert_version_Inr:
  "insert_version r s = Inr s' \<Longrightarrow> s' = s\<lparr>db_versions := db_versions s @ [r]\<rparr>
     \<and> dv_id r \<notin> dv_id ` set (db_versions s)
     \<and> version_number_key r \<notin> version_number_key ` set (db_versions s)
     \<and> version_idempotency r \<notin> version_idempotency ` set (db_versions s)
     \<and> (\<forall>c \<in> set (version_checks r). snd c)"
  by (auto simp: insert_version_def bind_res_eq_Inr check_all_Inr)

lemma insert_job_Inr:
  "insert_job r s = Inr s' \<Longrightarrow> s' = s\<lparr>db_jobs := db_jobs s @ [r]\<rparr>
     \<and> ij_id r \<notin> ij_id ` set (db_jobs s)
     \<and> job_delivery r \<notin> job_delivery ` set (db_jobs s)
     \<and> (active_delete_job r \<longrightarrow> job_scope r \<notin> job_scope ` {j \<in> set (db_jobs s). active_delete_job j})
     \<and> (\<forall>c \<in> set (job_checks r). snd c)"
  by (auto simp: insert_job_def bind_res_eq_Inr check_all_Inr)

lemma insert_event_Inr:
  "insert_event r s = Inr s' \<Longrightarrow> s' = s\<lparr>db_events := db_events s @ [r]\<rparr>
     \<and> event_idempotency r \<notin> event_idempotency ` set (db_events s)
     \<and> event_revision r \<notin> event_revision ` set (db_events s)
     \<and> ev_to_revision r = ev_from_revision r + 1"
  by (auto simp: insert_event_def bind_res_eq_Inr check_all_Inr event_checks_def)

lemma insert_attempt_Inr:
  "insert_attempt r s = Inr s' \<Longrightarrow> s' = s\<lparr>db_attempts := db_attempts s @ [r]\<rparr>
     \<and> attempt_key r \<notin> attempt_key ` set (db_attempts s)"
  by (auto simp: insert_attempt_def bind_res_eq_Inr check_all_Inr)

lemma insert_request_Inr:
  "insert_request r s = Inr s' \<Longrightarrow> s' = s\<lparr>db_requests := db_requests s @ [r]\<rparr>
     \<and> lr_id r \<notin> lr_id ` set (db_requests s)
     \<and> request_idempotency r \<notin> request_idempotency ` set (db_requests s)"
  by (auto simp: insert_request_def bind_res_eq_Inr check_all_Inr)

lemma insert_artifact_Inr:
  "insert_artifact r s = Inr s' \<Longrightarrow>
     (artifact_output r \<in> artifact_output ` set (db_artifacts s) \<and> s' = s)
     \<or> (artifact_output r \<notin> artifact_output ` set (db_artifacts s)
         \<and> s' = s\<lparr>db_artifacts := db_artifacts s @ [r]\<rparr>)"
  by (auto simp: insert_artifact_def bind_res_eq_Inr split: if_splits)

lemma insert_document_Inr:
  "insert_document r s = Inr s' \<Longrightarrow> s' = s\<lparr>db_documents := db_documents s @ [r]\<rparr>
     \<and> sd_id r \<notin> sd_id ` set (db_documents s)
     \<and> document_key r \<notin> document_key ` set (db_documents s)"
  by (auto simp: insert_document_def bind_res_eq_Inr check_all_Inr)

lemmas insert_results = insert_version_Inr insert_job_Inr insert_event_Inr insert_attempt_Inr
  insert_request_Inr insert_artifact_Inr insert_document_Inr

end
