(* ===== verification/Audit_Trail.thy ===== *)
theory Audit_Trail
  imports Schema_Ops
begin

text \<open>
  The contract between the version table and its transition log. Every component that moves a
  version (the catalog API, the pipeline workers) must, in one transaction, raise the version's
  revision by one and append the matching event. The locale \<open>audited_operation\<close> states that
  law once; its lemmas lift it to the table-wide invariant \<open>audit_ok\<close>: each version's events are
  a gapless chain from revision 0 to its current revision and state.
\<close>

section \<open>Keys\<close>

definition version_keys_ok :: "session \<Rightarrow> bool" where
  "version_keys_ok s \<longleftrightarrow> distinct (map dv_id (db_versions s))"

definition job_keys_ok :: "session \<Rightarrow> bool" where
  "job_keys_ok s \<longleftrightarrow> distinct (map ij_id (db_jobs s)) \<and> distinct (map job_delivery (db_jobs s))
     \<and> active_deletes_unique (db_jobs s)"

section \<open>Trails\<close>

definition events_of :: "session \<Rightarrow> uuid \<times> uuid \<times> uuid \<Rightarrow> event_row list" where
  "events_of s k = filter (\<lambda>e. event_scope e = k) (db_events s)"

text \<open>A gapless trail that ends in a given revision and state; without events the version is as
  registered.\<close>

definition audit_trail :: "event_row list \<Rightarrow> int \<Rightarrow> VersionState \<Rightarrow> bool" where
  "audit_trail es rn st \<longleftrightarrow>
     rn = int (length es)
     \<and> (\<forall>i < length es. ev_from_revision (es ! i) = int i \<and> ev_to_revision (es ! i) = int i + 1)
     \<and> (\<forall>i. Suc i < length es \<longrightarrow> ev_from_state (es ! Suc i) = ev_to_state (es ! i))
     \<and> st = (if es = [] then RECEIVED else ev_to_state (last es))"

lemma audit_trail_Nil [simp]: "audit_trail [] rn st \<longleftrightarrow> rn = 0 \<and> st = RECEIVED"
  by (auto simp: audit_trail_def)

lemma audit_trail_snoc:
  assumes "audit_trail es rn st" and "ev_from_revision e = rn" and "ev_to_revision e = rn + 1"
    and "ev_from_state e = st"
  shows "audit_trail (es @ [e]) (rn + 1) (ev_to_state e)"
proof -
  have "ev_from_state e = ev_to_state (es ! i)" if "Suc i = length es" for i
    using assms(1,4) that by (cases es rule: rev_cases) (auto simp: audit_trail_def nth_append)
  then show ?thesis
    using assms by (auto simp: audit_trail_def nth_append less_Suc_eq)
qed

text \<open>The same chain as a recursive check, for evaluation on concrete logs.\<close>

fun trail_from :: "int \<Rightarrow> VersionState \<Rightarrow> event_row list \<Rightarrow> int \<Rightarrow> VersionState \<Rightarrow> bool" where
  "trail_from n a [] rn st \<longleftrightarrow> rn = n \<and> st = a"
| "trail_from n a (e # es) rn st \<longleftrightarrow> ev_from_revision e = n \<and> ev_to_revision e = n + 1
     \<and> ev_from_state e = a \<and> trail_from (n + 1) (ev_to_state e) es rn st"

lemma trail_from_snoc:
  "trail_from n a (es @ [e]) rn st \<longleftrightarrow> trail_from n a es (rn - 1) (ev_from_state e)
     \<and> ev_from_revision e = rn - 1 \<and> ev_to_revision e = rn \<and> st = ev_to_state e"
  by (induction es arbitrary: n a) auto

lemma trail_from_audit: "trail_from 0 RECEIVED es rn st \<Longrightarrow> audit_trail es rn st"
proof (induction es arbitrary: rn st rule: rev_induct)
  case Nil
  then show ?case by simp
next
  case (snoc e es)
  from snoc.prems have e: "trail_from 0 RECEIVED es (rn - 1) (ev_from_state e)" "ev_from_revision e = rn - 1"
    "ev_to_revision e = rn - 1 + 1" "st = ev_to_state e"
    by (simp_all add: trail_from_snoc)
  from audit_trail_snoc [OF snoc.IH [OF e(1)] e(2,3) refl] e(4) show ?case by simp
qed

definition audit_ok :: "session \<Rightarrow> bool" where
  "audit_ok s \<longleftrightarrow>
     (\<forall>v \<in> set (db_versions s).
        audit_trail (events_of s (version_scope v)) (dv_state_revision v) (dv_state v))
     \<and> (\<forall>e \<in> set (db_events s). version_exists s (event_scope e))"

section \<open>One recorded transition\<close>

definition transition_recorded ::
  "session \<Rightarrow> session \<Rightarrow> version_row \<Rightarrow> version_row \<Rightarrow> event_row \<Rightarrow> bool" where
  "transition_recorded s s' v w e \<longleftrightarrow>
     s' = s\<lparr>db_versions := update_rows (\<lambda>r. dv_id r = dv_id v) (\<lambda>_. w) (db_versions s),
            db_events := db_events s @ [e]\<rparr>
     \<and> version_scope w = version_scope v \<and> version_identity w = version_identity v
     \<and> dv_state_revision w = dv_state_revision v + 1
     \<and> event_scope e = version_scope v
     \<and> ev_from_state e = dv_state v \<and> ev_to_state e = dv_state w
     \<and> ev_from_revision e = dv_state_revision v \<and> ev_to_revision e = dv_state_revision v + 1"

lemma transition_recorded_keys:
  assumes "transition_recorded s s' v w e" and "version_keys_ok s"
  shows "version_keys_ok s'"
proof -
  have "map dv_id (update_rows (\<lambda>r. dv_id r = dv_id v) (\<lambda>_. w) rs) = map dv_id rs" for rs
    using assms(1) by (intro map_update_rows) (simp add: transition_recorded_def)
  then show ?thesis
    using assms by (simp add: version_keys_ok_def transition_recorded_def)
qed

lemma version_exists_iff: "version_exists s k \<longleftrightarrow> k \<in> set (map version_scope (db_versions s))"
  by (auto simp: version_exists_def list_ex_iff)

lemma transition_recorded_scopes:
  assumes rec: "transition_recorded s s' v w e" and keys: "version_keys_ok s"
    and v: "v \<in> set (db_versions s)"
  shows "map version_scope (db_versions s') = map version_scope (db_versions s)"
proof -
  have "r = v" if "r \<in> set (db_versions s)" "dv_id r = dv_id v" for r
    using keys v that distinct_map_inj_rows [of dv_id] by (simp add: version_keys_ok_def)
  then have "version_scope (if dv_id r = dv_id v then w else r) = version_scope r"
    if "r \<in> set (db_versions s)" for r
    using rec that by (auto simp: transition_recorded_def)
  then show ?thesis
    using rec by (simp add: transition_recorded_def update_rows_def cong: map_cong)
qed

lemma transition_recorded_exists:
  assumes "transition_recorded s s' v w e" and "version_keys_ok s" and "v \<in> set (db_versions s)"
  shows "version_exists s' k \<longleftrightarrow> version_exists s k"
  using transition_recorded_scopes [OF assms] by (simp only: version_exists_iff)

lemma transition_recorded_audit:
  assumes rec: "transition_recorded s s' v w e" and "version_keys_ok s" and "audit_ok s"
    and v: "v \<in> set (db_versions s)"
  shows "audit_ok s'"
  unfolding audit_ok_def
proof (intro conjI ballI)
  fix r assume "r \<in> set (db_versions s')"
  then consider "r = w" | "r \<in> set (db_versions s)" "dv_id r \<noteq> dv_id v"
    using rec by (auto simp: transition_recorded_def table_simps)
  then show "audit_trail (events_of s' (version_scope r)) (dv_state_revision r) (dv_state r)"
  proof cases
    case 1
    have "audit_trail (events_of s (version_scope v)) (dv_state_revision v) (dv_state v)"
      using assms(3) v by (simp add: audit_ok_def)
    from audit_trail_snoc [OF this, of e] rec 1 show ?thesis
      by (simp add: transition_recorded_def events_of_def)
  next
    case 2
    then have "events_of s' (version_scope r) = events_of s (version_scope r)"
      using rec by (auto simp: transition_recorded_def events_of_def)
    with 2 assms(3) show ?thesis by (simp add: audit_ok_def)
  qed
next
  fix d assume "d \<in> set (db_events s')"
  moreover have "version_exists s' k \<longleftrightarrow> version_exists s k" for k
    using rec v by (rule transition_recorded_exists [OF _ assms(2)])
  moreover have "version_exists s (event_scope e)"
    using rec v by (auto simp: transition_recorded_def version_exists_def list_ex_iff)
  ultimately show "version_exists s' (event_scope d)"
    using rec assms(3) by (auto simp: transition_recorded_def audit_ok_def)
qed

text \<open>Registering a version starts an empty trail.\<close>

lemma no_events_without_version:
  assumes "audit_ok s" and "dv_id r \<notin> dv_id ` set (db_versions s)"
  shows "events_of s (version_scope r) = []"
proof -
  have "event_scope e \<noteq> version_scope r" if "e \<in> set (db_events s)" for e
  proof -
    from assms(1) that obtain v where "v \<in> set (db_versions s)" "version_scope v = event_scope e"
      by (auto simp: audit_ok_def version_exists_def list_ex_iff)
    with assms(2) show ?thesis by (metis imageI prod.inject)
  qed
  then show ?thesis
    by (simp add: events_of_def filter_empty_conv)
qed

lemma insert_version_audit:
  assumes "insert_version r s = Inr s'" and "audit_ok s" and "dv_state r = RECEIVED"
    and "dv_state_revision r = 0"
  shows "audit_ok s'"
proof -
  from insert_version_Inr [OF assms(1)] have s': "s' = s\<lparr>db_versions := db_versions s @ [r]\<rparr>"
    and new: "dv_id r \<notin> dv_id ` set (db_versions s)" by auto
  then show ?thesis
    using no_events_without_version [OF assms(2) new] assms(2-4)
    by (auto simp: audit_ok_def events_of_def version_exists_def)
qed

section \<open>The interface\<close>

text \<open>
  An operation that moves the version it is given: a successful run is one recorded transition of
  that version. \<open>allowed\<close> is the edge relation its provider promises.
\<close>

locale audited_operation =
  fixes run :: "'a \<Rightarrow> version_row \<Rightarrow> session \<Rightarrow> (version_row \<times> session) res"
    and allowed :: "'a \<Rightarrow> VersionState \<Rightarrow> VersionState \<Rightarrow> bool"
  assumes recorded: "run a v s = Inr (w, s') \<Longrightarrow> v \<in> set (db_versions s) \<Longrightarrow> version_keys_ok s \<Longrightarrow>
      \<exists>e. transition_recorded s s' v w e"
    and edge: "run a v s = Inr (w, s') \<Longrightarrow> v \<in> set (db_versions s) \<Longrightarrow> version_keys_ok s \<Longrightarrow>
      allowed a (dv_state v) (dv_state w)"
begin

lemma run_audit:
  assumes "run a v s = Inr (w, s')" and "v \<in> set (db_versions s)" and "version_keys_ok s"
    and "audit_ok s"
  shows "audit_ok s'"
  using recorded [OF assms(1-3)] transition_recorded_audit assms(2-4) by blast

lemma run_keys:
  assumes "run a v s = Inr (w, s')" and "v \<in> set (db_versions s)" and "version_keys_ok s"
  shows "version_keys_ok s'"
  using recorded [OF assms] transition_recorded_keys assms(3) by blast

lemma run_returns_row:
  assumes "run a v s = Inr (w, s')" and "v \<in> set (db_versions s)" and "version_keys_ok s"
  shows "w \<in> set (db_versions s')"
  using recorded [OF assms] assms(2) by (auto simp: transition_recorded_def table_simps)

lemma run_other_versions:
  assumes "run a v s = Inr (w, s')" and "v \<in> set (db_versions s)" and "version_keys_ok s"
    and "dv_id u \<noteq> dv_id v"
  shows "u \<in> set (db_versions s') \<longleftrightarrow> u \<in> set (db_versions s)"
  using recorded [OF assms(1-3)] assms(4)
  by (auto simp: transition_recorded_def table_simps)

lemma run_frame:
  assumes "run a v s = Inr (w, s')" and "v \<in> set (db_versions s)" and "version_keys_ok s"
  shows "\<exists>vs es. s' = s\<lparr>db_versions := vs, db_events := es\<rparr>"
  using recorded [OF assms] by (auto simp: transition_recorded_def)

lemma run_scopes:
  assumes "run a v s = Inr (w, s')" and "v \<in> set (db_versions s)" and "version_keys_ok s"
  shows "map version_scope (db_versions s') = map version_scope (db_versions s)"
  using recorded [OF assms] transition_recorded_scopes assms(2,3) by blast

lemma run_same_scope:
  assumes "run a v s = Inr (w, s')" and "v \<in> set (db_versions s)" and "version_keys_ok s"
  shows "version_scope w = version_scope v \<and> version_identity w = version_identity v
    \<and> dv_state_revision w = dv_state_revision v + 1"
  using recorded [OF assms] by (auto simp: transition_recorded_def)

end

text \<open>An update that touches neither identity nor state keeps keys and trails.\<close>

lemma update_versions_quiet:
  assumes "update_versions b p f s = Inr (rows, s')" and "version_keys_ok s" and "audit_ok s"
    and same: "\<And>v. version_scope (f v) = version_scope v \<and> dv_state (f v) = dv_state v
      \<and> dv_state_revision (f v) = dv_state_revision v"
  shows "version_keys_ok s' \<and> audit_ok s'"
proof -
  from assms(1) have s': "s' = s\<lparr>db_versions := update_rows p f (db_versions s)\<rparr>"
    by (simp add: update_versions_Inr)
  have keys: "map dv_id (db_versions s') = map dv_id (db_versions s)"
    using same s' map_update_rows [of p dv_id f] by simp
  have "map version_scope (db_versions s') = map version_scope (db_versions s)"
    using same s' map_update_rows [of p version_scope f] by simp
  then have ex: "version_exists s' k \<longleftrightarrow> version_exists s k" for k
    by (simp only: version_exists_iff)
  have ev: "events_of s' k = events_of s k" for k
    using s' by (simp add: events_of_def)
  have "audit_trail (events_of s (version_scope r)) (dv_state_revision r) (dv_state r)"
    if "r \<in> set (db_versions s')" for r
  proof -
    from that s' obtain v where "v \<in> set (db_versions s)" "r = v \<or> r = f v"
      by (auto simp: table_simps)
    then show ?thesis
      using assms(3) same [of v] by (auto simp: audit_ok_def)
  qed
  then show ?thesis
    using assms(2,3) keys ex ev s' by (simp add: version_keys_ok_def audit_ok_def)
qed

text \<open>The rows one transition statement matches: the version itself.\<close>

lemma filter_version_row:
  assumes "version_keys_ok s" and "v \<in> set (db_versions s)"
  shows "filter (\<lambda>r. dv_tenant_id r = dv_tenant_id v \<and> dv_id r = dv_id v
           \<and> dv_state_revision r = dv_state_revision v) (db_versions s) = [v]"
proof -
  have "filter (\<lambda>r. dv_id r = dv_id v) (db_versions s) = [v]"
    using assms filter_key_unique [of dv_id] by (simp add: version_keys_ok_def)
  then have "filter (\<lambda>r. dv_tenant_id r = dv_tenant_id v \<and> dv_state_revision r = dv_state_revision v)
      (filter (\<lambda>r. dv_id r = dv_id v) (db_versions s)) = [v]"
    by simp
  then show ?thesis by (simp add: conj_ac)
qed

lemma update_rows_version_row:
  assumes "version_keys_ok s" and "v \<in> set (db_versions s)"
  shows "update_rows (\<lambda>r. dv_tenant_id r = dv_tenant_id v \<and> dv_id r = dv_id v
           \<and> dv_state_revision r = dv_state_revision v) f (db_versions s)
         = update_rows (\<lambda>r. dv_id r = dv_id v) (\<lambda>_. f v) (db_versions s)"
proof -
  have "r = v" if "r \<in> set (db_versions s)" "dv_id r = dv_id v" for r
    using assms that distinct_map_inj_rows [of dv_id] by (simp add: version_keys_ok_def)
  then show ?thesis
    by (auto simp: update_rows_def)
qed

text \<open>The two statements every provider runs: the guarded update that returns one row, and the event.\<close>

lemma recorded_update:
  assumes upd: "update_versions True (\<lambda>r. dv_tenant_id r = t \<and> dv_id r = dv_id v
          \<and> dv_state_revision r = dv_state_revision v)
        (\<lambda>r. r\<lparr>dv_state := target, dv_state_revision := dv_state_revision v + 1,
           dv_terminal_reason_code := reason, dv_updated_at := now s\<rparr>) s = Inr ([w], s1)"
    and ins: "insert_event e s1 = Inr s'"
    and e: "event_scope e = (t, dv_collection_id v, dv_id v)" "ev_from_state e = dv_state v"
      "ev_to_state e = target" "ev_from_revision e = dv_state_revision v"
      "ev_to_revision e = dv_state_revision v + 1"
    and v: "v \<in> set (db_versions s)" and keys: "version_keys_ok s"
  shows "transition_recorded s s' v w e \<and> t = dv_tenant_id v
    \<and> w = v\<lparr>dv_state := target, dv_state_revision := dv_state_revision v + 1,
            dv_terminal_reason_code := reason, dv_updated_at := now s\<rparr>"
proof -
  let ?p = "\<lambda>r. dv_tenant_id r = t \<and> dv_id r = dv_id v \<and> dv_state_revision r = dv_state_revision v"
  let ?f = "\<lambda>r. r\<lparr>dv_state := target, dv_state_revision := dv_state_revision v + 1,
      dv_terminal_reason_code := reason, dv_updated_at := now s\<rparr>"
  from upd have rows: "map ?f (filter ?p (db_versions s)) = [w]"
    and s1: "s1 = s\<lparr>db_versions := update_rows ?p ?f (db_versions s)\<rparr>"
    unfolding update_versions_Inr by simp_all
  then have "filter ?p (db_versions s) \<noteq> []" by auto
  then obtain r where r: "r \<in> set (db_versions s)" "?p r"
    unfolding filter_empty_conv by auto
  then have "r = v"
    using v keys distinct_map_inj_rows [of dv_id "db_versions s" r v] by (simp add: version_keys_ok_def)
  with r have ten: "t = dv_tenant_id v" by simp
  have w: "w = ?f v"
    using rows filter_version_row [OF keys v] ten by simp
  have "db_versions s1 = update_rows (\<lambda>r. dv_id r = dv_id v) (\<lambda>_. w) (db_versions s)"
    using s1 update_rows_version_row [OF keys v, of "?f"] ten w by simp
  moreover have "s' = s1\<lparr>db_events := db_events s1 @ [e]\<rparr>"
    using insert_event_Inr [OF ins] by simp
  ultimately have "transition_recorded s s' v w e"
    using s1 w e ten by (simp add: transition_recorded_def version_identity_def)
  with w ten show ?thesis by (intro conjI)
qed

end
