(* ===== verification/Catalog_Transitions.thy ===== *)
theory Catalog_Transitions
  imports Audit_Trail
begin

text \<open>
  \<open>catalog/operation_transitions.py\<close>: the API side of a version transition and the creation of a
  job. The value a call draws from \<open>uuid4()\<close> is an argument.
\<close>

record Principal =
  pr_subject :: string
  pr_tenant_id :: uuid

definition snapshot_of :: "version_row \<Rightarrow> VersionSnapshot" where
  "snapshot_of v = \<lparr>vs_state = dv_state v, vs_revision = dv_state_revision v,
     vs_progress_completed = dv_progress_completed v, vs_progress_total = dv_progress_total v,
     vs_terminal_reason_code = dv_terminal_reason_code v\<rparr>"

definition transition_catalog_version ::
  "Principal \<Rightarrow> VersionState \<Rightarrow> string \<Rightarrow> string option \<Rightarrow> string \<Rightarrow> uuid \<Rightarrow> version_row \<Rightarrow> session
   \<Rightarrow> (version_row \<times> session) res" where
  "transition_catalog_version prin target operation reason_code event_key event_id version s =
     (let snapshot = snapshot_of version in
      case transition_version snapshot target (vs_revision snapshot) None None reason_code None operation of
        Inl e \<Rightarrow> Inl (if is_CatalogTransitionError e then CatalogConflictError (error_text e) else e)
      | Inr transitioned \<Rightarrow>
          bind_res (update_versions True
            (\<lambda>v. dv_tenant_id v = pr_tenant_id prin \<and> dv_id v = dv_id version
               \<and> dv_state_revision v = vs_revision snapshot)
            (\<lambda>v. v\<lparr>dv_state := vs_state transitioned,
                   dv_state_revision := vs_revision transitioned,
                   dv_terminal_reason_code := vs_terminal_reason_code transitioned,
                   dv_updated_at := now s\<rparr>) s) (\<lambda>(rows, s1).
          bind_res (one_or_none rows) (\<lambda>updated.
            case updated of
              None \<Rightarrow> Inl (CatalogConflictError ''document version changed concurrently'')
            | Some u \<Rightarrow>
                bind_res (insert_event
                  \<lparr>ev_id = event_id, ev_tenant_id = pr_tenant_id prin,
                   ev_collection_id = dv_collection_id version,
                   ev_document_version_id = dv_id version, ev_idempotency_key = event_key,
                   ev_from_state = vs_state snapshot, ev_to_state = vs_state transitioned,
                   ev_from_revision = vs_revision snapshot, ev_to_revision = vs_revision transitioned,
                   ev_operation = operation, ev_actor_type = ''api'',
                   ev_actor_id = pr_subject prin\<rparr> s1) (\<lambda>s2. Inr (u, s2)))))"

text \<open>\<open>COALESCE(max(x), d)\<close> over the selected rows.\<close>

definition coalesce_max :: "int \<Rightarrow> int list \<Rightarrow> int" where
  "coalesce_max d xs = (case xs of [] \<Rightarrow> d | x # ys \<Rightarrow> fold max ys x)"

definition new_job :: "uuid \<Rightarrow> uuid \<times> uuid \<times> uuid \<Rightarrow> IngestionStage \<Rightarrow> int \<Rightarrow> int \<Rightarrow> uuid option \<Rightarrow> timestamp
    \<Rightarrow> job_row" where
  "new_job i k stage gen max_attempts request t =
     \<lparr>ij_id = i, ij_tenant_id = fst k, ij_collection_id = fst (snd k),
      ij_document_version_id = snd (snd k), ij_stage = stage, ij_state = JS_PENDING,
      ij_generation = gen, ij_attempt_count = 0, ij_max_attempts = max_attempts,
      ij_lease_owner = None, ij_lease_expires_at = None, ij_heartbeat_at = None,
      ij_retry_at = None, ij_terminal_reason_code = None, ij_sanitized_context = [],
      ij_created_at = t, ij_updated_at = t, ij_lifecycle_request_id = request,
      ij_publication_target_name = None, ij_publication_target_version = None,
      ij_publication_target_attempt = None\<rparr>"

definition create_ingestion_job ::
  "Principal \<Rightarrow> version_row \<Rightarrow> IngestionStage \<Rightarrow> int \<Rightarrow> uuid option \<Rightarrow> uuid \<Rightarrow> session
   \<Rightarrow> (uuid \<times> session) res" where
  "create_ingestion_job prin version stage max_attempts request job_id s =
     (let gen = coalesce_max (-1) (map ij_generation (filter (\<lambda>j.
                  ij_tenant_id j = pr_tenant_id prin
                  \<and> ij_document_version_id j = dv_id version \<and> ij_stage j = stage) (db_jobs s))) + 1
      in bind_res (insert_job (new_job job_id
             (pr_tenant_id prin, dv_collection_id version, dv_id version) stage gen max_attempts
             request (now s)) s)
           (\<lambda>s1. Inr (job_id, s1)))"

section \<open>Properties\<close>

lemma coalesce_max_ge: "x \<in> set xs \<Longrightarrow> x \<le> coalesce_max d xs"
proof -
  have "\<forall>y \<in> insert a (set ys). y \<le> fold max ys a" for a :: int and ys
  proof (induction ys arbitrary: a)
    case (Cons z zs)
    from Cons.IH [of "max z a"] show ?case by auto
  qed simp
  moreover assume "x \<in> set xs"
  ultimately show ?thesis
    by (cases xs) (auto simp: coalesce_max_def)
qed

lemma coalesce_max_mem: "xs \<noteq> [] \<Longrightarrow> coalesce_max d xs \<in> set xs"
proof -
  have "fold max ys a \<in> insert a (set ys)" for ys and a :: int
    by (induction ys arbitrary: a) (auto simp: max_def)
  moreover assume "xs \<noteq> []"
  ultimately show ?thesis
    by (cases xs) (auto simp: coalesce_max_def)
qed

text \<open>What a successful API transition did, given that the row it was passed is the stored one.\<close>

lemma transition_catalog_version_Inr:
  assumes "transition_catalog_version p target oper reason key eid v s = Inr (w, s')"
  shows "\<exists>t s1 e. transition_version (snapshot_of v) target (dv_state_revision v) None None reason None oper = Inr t
    \<and> update_versions True (\<lambda>r. dv_tenant_id r = pr_tenant_id p \<and> dv_id r = dv_id v
          \<and> dv_state_revision r = dv_state_revision v)
        (\<lambda>r. r\<lparr>dv_state := vs_state t, dv_state_revision := vs_revision t,
           dv_terminal_reason_code := vs_terminal_reason_code t, dv_updated_at := now s\<rparr>) s = Inr ([w], s1)
    \<and> insert_event e s1 = Inr s'
    \<and> event_scope e = (pr_tenant_id p, dv_collection_id v, dv_id v)
    \<and> ev_from_state e = dv_state v \<and> ev_to_state e = vs_state t
    \<and> ev_from_revision e = dv_state_revision v \<and> ev_to_revision e = vs_revision t
    \<and> ev_operation e = oper \<and> ev_idempotency_key e = key"
proof -
  have rev: "vs_revision (snapshot_of v) = dv_state_revision v" "vs_state (snapshot_of v) = dv_state v"
    by (simp_all add: snapshot_of_def)
  obtain t where t: "transition_version (snapshot_of v) target (dv_state_revision v) None None reason None oper = Inr t"
    using assms by (cases "transition_version (snapshot_of v) target (dv_state_revision v) None None reason None oper")
      (simp_all add: transition_catalog_version_def Let_def rev)
  show ?thesis
    using assms unfolding transition_catalog_version_def Let_def rev t sum.case
    by (elim bind_res_InrE case_prodE) 
       (auto elim!: bind_res_InrE simp: one_or_none_Some t split: option.splits prod.splits)
qed

lemma transition_catalog_version_recorded:
  assumes ok: "transition_catalog_version p target oper reason key eid v s = Inr (w, s')"
    and v: "v \<in> set (db_versions s)" and keys: "version_keys_ok s"
  shows "\<exists>e. transition_recorded s s' v w e \<and> operation_allowed (dv_state v) target oper = Some True
      \<and> w = v\<lparr>dv_state := target, dv_state_revision := dv_state_revision v + 1,
            dv_terminal_reason_code := reason, dv_updated_at := now s\<rparr>
      \<and> pr_tenant_id p = dv_tenant_id v \<and> ev_operation e = oper \<and> ev_idempotency_key e = key"
proof -
  let ?p = "\<lambda>r. dv_tenant_id r = pr_tenant_id p \<and> dv_id r = dv_id v \<and> dv_state_revision r = dv_state_revision v"
  let ?f = "\<lambda>t r. r\<lparr>dv_state := vs_state t, dv_state_revision := vs_revision t,
      dv_terminal_reason_code := vs_terminal_reason_code t, dv_updated_at := now s\<rparr>"
  from transition_catalog_version_Inr [OF ok] obtain t s1 e
    where t: "transition_version (snapshot_of v) target (dv_state_revision v) None None reason None oper = Inr t"
    and upd: "update_versions True ?p (?f t) s = Inr ([w], s1)"
    and ins: "insert_event e s1 = Inr s'"
    and e: "event_scope e = (pr_tenant_id p, dv_collection_id v, dv_id v)"
      "ev_from_state e = dv_state v" "ev_to_state e = vs_state t"
      "ev_from_revision e = dv_state_revision v" "ev_to_revision e = vs_revision t"
      "ev_operation e = oper" "ev_idempotency_key e = key"
    by (elim exE conjE)
  from t have tt: "vs_state t = target" "vs_revision t = dv_state_revision v + 1"
    "vs_terminal_reason_code t = reason" "operation_allowed (dv_state v) target oper = Some True"
    unfolding transition_version_Inr transition_accepts_def by (simp_all add: snapshot_of_def)
  from recorded_update [OF upd [unfolded tt(1-3)] ins e(1-5) [unfolded tt(1,2)] v keys] tt(4) e(6,7)
  show ?thesis by (intro exI [of _ e]) blast
qed

interpretation api: audited_operation
  "\<lambda>(p, target, oper, reason, key, eid). transition_catalog_version p target oper reason key eid"
  "\<lambda>(p, target, oper, reason, key, eid) a b. operation_allowed a b oper = Some True"
proof (unfold_locales, goal_cases)
  case (1 a v s w s')
  then show ?case
    by (cases a) (use transition_catalog_version_recorded in fastforce)
next
  case (2 a v s w s')
  then show ?case
    by (cases a) (use transition_catalog_version_recorded in fastforce)
qed

text \<open>What a client needs of an API transition: facts of the interface at the model's operation.\<close>

lemma api_transition:
  assumes "transition_catalog_version p target oper reason key eid v s = Inr (w, s')"
    and "v \<in> set (db_versions s)" and "version_keys_ok s" and "audit_ok s"
  shows "audit_ok s' \<and> version_keys_ok s' \<and> w \<in> set (db_versions s')
    \<and> w = v\<lparr>dv_state := target, dv_state_revision := dv_state_revision v + 1,
            dv_terminal_reason_code := reason, dv_updated_at := now s\<rparr>
    \<and> (\<exists>vs es. s' = s\<lparr>db_versions := vs, db_events := es\<rparr>)
    \<and> map version_scope (db_versions s') = map version_scope (db_versions s)
    \<and> operation_allowed (dv_state v) target oper = Some True"
proof -
  from transition_catalog_version_recorded [OF assms(1-3)] obtain e where
    "w = v\<lparr>dv_state := target, dv_state_revision := dv_state_revision v + 1,
            dv_terminal_reason_code := reason, dv_updated_at := now s\<rparr>"
    "operation_allowed (dv_state v) target oper = Some True"
    by (elim exE conjE)
  with assms api.run_audit [of "(p, target, oper, reason, key, eid)" v s w s']
    api.run_keys [of "(p, target, oper, reason, key, eid)" v s w s']
    api.run_returns_row [of "(p, target, oper, reason, key, eid)" v s w s']
    api.run_frame [of "(p, target, oper, reason, key, eid)" v s w s']
    api.run_scopes [of "(p, target, oper, reason, key, eid)" v s w s'] show ?thesis
    by simp
qed

text \<open>The transition reads only identity and snapshot of the row it is given.\<close>

lemma transition_catalog_version_cong:
  assumes "dv_id v' = dv_id v" and "dv_collection_id v' = dv_collection_id v"
    and "snapshot_of v' = snapshot_of v"
  shows "transition_catalog_version p target oper reason key eid v' s
       = transition_catalog_version p target oper reason key eid v s"
  unfolding transition_catalog_version_def assms ..

lemma create_ingestion_job_Inr:
  assumes "create_ingestion_job p v stage ma req i s = Inr (j, s')"
  shows "\<exists>job. s' = s\<lparr>db_jobs := db_jobs s @ [job]\<rparr> \<and> j = i \<and> ij_id job = i \<and> ij_stage job = stage
    \<and> ij_state job = JS_PENDING \<and> ij_attempt_count job = 0 \<and> ij_max_attempts job = ma
    \<and> job_scope job = (pr_tenant_id p, dv_collection_id v, dv_id v)
    \<and> ij_lifecycle_request_id job = req \<and> i \<notin> ij_id ` set (db_jobs s)
    \<and> (\<forall>k \<in> set (db_jobs s). ij_tenant_id k = pr_tenant_id p \<and> ij_document_version_id k = dv_id v
         \<and> ij_stage k = stage \<longrightarrow> ij_generation k < ij_generation job)"
proof -
  let ?g = "coalesce_max (-1) (map ij_generation (filter (\<lambda>j.
                  ij_tenant_id j = pr_tenant_id p
                  \<and> ij_document_version_id j = dv_id v \<and> ij_stage j = stage) (db_jobs s))) + 1"
  let ?job = "new_job i (pr_tenant_id p, dv_collection_id v, dv_id v) stage ?g ma req (now s)"
  from assms have "insert_job ?job s = Inr s'" "j = i"
    by (auto simp: create_ingestion_job_def Let_def res_simps)
  moreover have "ij_generation k < ?g" if "k \<in> set (db_jobs s)" "ij_tenant_id k = pr_tenant_id p"
    "ij_document_version_id k = dv_id v" "ij_stage k = stage" for k
    using that coalesce_max_ge [of "ij_generation k"] by (simp add: zle_add1_eq_le)
  ultimately show ?thesis
    using insert_job_Inr [of ?job s s'] by (intro exI [of _ ?job]) (auto simp: new_job_def)
qed

end
