(* ===== verification/Catalog_Repository.thy ===== *)
theory Catalog_Repository
  imports Catalog_Transitions
begin

text \<open>
  \<open>catalog/repository.py\<close>, \<open>catalog/document_registration.py\<close> and \<open>catalog/status_query.py\<close>:
  collections, access to them, registration of document versions under quotas and idempotency
  keys, and the status query.
\<close>

section \<open>Definitions\<close>

record collection_values =
  cv_name :: string
  cv_retention_days :: int
  cv_document_quota :: int
  cv_storage_quota_bytes :: int

record document_values =
  dvs_source_key :: string
  dvs_display_name :: string
  dvs_content_sha256 :: string
  dvs_size_bytes :: int
  dvs_pipeline_profile :: string
  dvs_object_key :: string

definition create_collection ::
  "Principal \<Rightarrow> collection_values \<Rightarrow> int \<Rightarrow> (nat \<Rightarrow> uuid) \<Rightarrow> session \<Rightarrow> (collection_row \<times> session) res" where
  "create_collection prin values upload_max_bytes u s =
     (if \<not> list_ex (\<lambda>t. tn_id t = pr_tenant_id prin) (db_tenants s)
      then Inl (CatalogForbiddenError ''tenant is not provisioned'')
      else
        (let row = \<lparr>co_id = u 0, co_tenant_id = pr_tenant_id prin, co_name = cv_name values,
               co_retention_days = cv_retention_days values, co_upload_max_bytes = upload_max_bytes,
               co_document_quota = cv_document_quota values,
               co_storage_quota_bytes = cv_storage_quota_bytes values, co_legal_hold = False,
               co_created_at = now s, co_updated_at = now s\<rparr>
         in bind_res (insert_collection row s) (\<lambda>s1.
            bind_res (insert_membership
              \<lparr>cm_id = u 1, cm_tenant_id = pr_tenant_id prin, cm_collection_id = u 0,
               cm_principal_subject = pr_subject prin, cm_role = CR_OWNER\<rparr> s1) (\<lambda>s2.
            Inr (row, s2)))))"

text \<open>The join of collections (or versions) with the caller's memberships.\<close>

definition member_of :: "Principal \<Rightarrow> uuid \<Rightarrow> uuid \<Rightarrow> membership_row \<Rightarrow> bool" where
  "member_of prin t c m \<longleftrightarrow> cm_tenant_id m = t \<and> cm_collection_id m = c
     \<and> cm_principal_subject m = pr_subject prin"

definition editor_role :: "CollectionRole \<Rightarrow> bool" where
  "editor_role r \<longleftrightarrow> r \<in> {CR_OWNER, CR_EDITOR}"

definition collection_order :: "collection_row \<Rightarrow> int \<times> nat" where
  "collection_order c = (co_created_at c, unat (co_id c))"

definition list_collections ::
  "Principal \<Rightarrow> nat \<Rightarrow> (timestamp \<times> uuid) option \<Rightarrow> timestamp \<Rightarrow> session \<Rightarrow> collection_row list" where
  "list_collections prin limit cursor datetime_min s =
     (let (cursor_created_at, cursor_id) = (case cursor of None \<Rightarrow> (datetime_min, 0) | Some c \<Rightarrow> c)
      in take (limit + 1) (sort_key collection_order
           [c. c \<leftarrow> db_collections s, co_tenant_id c = pr_tenant_id prin, m \<leftarrow> db_memberships s,
               member_of prin (co_tenant_id c) (co_id c) m,
               collection_order c > (cursor_created_at, unat cursor_id)]))"

definition get_collection ::
  "Principal \<Rightarrow> uuid \<Rightarrow> bool \<Rightarrow> session \<Rightarrow> (collection_row \<times> CollectionRole) res" where
  "get_collection prin collection_id require_editor s =
     bind_res (one_or_none
       [(c, cm_role m). c \<leftarrow> db_collections s,
          co_tenant_id c = pr_tenant_id prin \<and> co_id c = collection_id, m \<leftarrow> db_memberships s,
          member_of prin (co_tenant_id c) (co_id c) m \<and> (require_editor \<longrightarrow> editor_role (cm_role m))])
       (\<lambda>row. case row of None \<Rightarrow> Inl (CatalogNotFoundError ''collection not found'') | Some r \<Rightarrow> Inr r)"

definition get_version :: "Principal \<Rightarrow> uuid \<Rightarrow> bool \<Rightarrow> session \<Rightarrow> version_row res" where
  "get_version prin version_id require_editor s =
     bind_res (one_or_none
       [v. v \<leftarrow> db_versions s, dv_tenant_id v = pr_tenant_id prin \<and> dv_id v = version_id,
          m \<leftarrow> db_memberships s,
          member_of prin (dv_tenant_id v) (dv_collection_id v) m
          \<and> (require_editor \<longrightarrow> editor_role (cm_role m))])
       (\<lambda>row. case row of None \<Rightarrow> Inl (CatalogNotFoundError ''document version not found'')
                | Some v \<Rightarrow> Inr v)"

definition get_idempotent_version ::
  "Principal \<Rightarrow> uuid \<Rightarrow> string \<Rightarrow> session \<Rightarrow> (version_row \<times> string) option res" where
  "get_idempotent_version prin collection_id idempotency_key s =
     one_or_none
       [(v, sd_source_key d). v \<leftarrow> db_versions s,
          dv_tenant_id v = pr_tenant_id prin \<and> dv_collection_id v = collection_id
            \<and> dv_idempotency_key v = idempotency_key,
          d \<leftarrow> db_documents s,
          sd_tenant_id d = dv_tenant_id v \<and> sd_collection_id d = dv_collection_id v
            \<and> sd_id d = dv_document_id v]"

definition idempotent_match :: "version_row \<times> string \<Rightarrow> document_values \<Rightarrow> bool" where
  "idempotent_match existing values \<longleftrightarrow>
     snd existing = dvs_source_key values
     \<and> dv_content_sha256 (fst existing) = dvs_content_sha256 values
     \<and> dv_size_bytes (fst existing) = dvs_size_bytes values
     \<and> dv_pipeline_profile (fst existing) = dvs_pipeline_profile values"

definition validate_idempotent_match :: "version_row \<times> string \<Rightarrow> document_values \<Rightarrow> unit res" where
  "validate_idempotent_match existing values =
     raise_if (\<not> idempotent_match existing values)
       (CatalogConflictError ''idempotency key was used for another request'')"

definition get_or_create_document ::
  "Principal \<Rightarrow> uuid \<Rightarrow> document_values \<Rightarrow> uuid \<Rightarrow> session \<Rightarrow> (uuid \<times> session) res" where
  "get_or_create_document prin collection_id values document_id s =
     (case scalar [sd_id d. d \<leftarrow> db_documents s,
             sd_tenant_id d = pr_tenant_id prin \<and> sd_collection_id d = collection_id
             \<and> sd_source_key d = dvs_source_key values] of
        Some existing \<Rightarrow> Inr (existing, s)
      | None \<Rightarrow>
          bind_res (insert_document
            \<lparr>sd_id = document_id, sd_tenant_id = pr_tenant_id prin, sd_collection_id = collection_id,
             sd_source_key = dvs_source_key values, sd_display_name = dvs_display_name values\<rparr> s)
            (\<lambda>s1. Inr (document_id, s1)))"

definition collection_documents :: "session \<Rightarrow> uuid \<Rightarrow> uuid \<Rightarrow> source_document_row list" where
  "collection_documents s t c = filter (\<lambda>d. sd_tenant_id d = t \<and> sd_collection_id d = c) (db_documents s)"

definition document_count :: "session \<Rightarrow> uuid \<Rightarrow> uuid \<Rightarrow> int" where
  "document_count s t c = int (length (remdups (map sd_id (collection_documents s t c))))"

definition document_storage :: "version_row list \<Rightarrow> source_document_row \<Rightarrow> int" where
  "document_storage vs d = sum_list (map dv_size_bytes (filter (\<lambda>v.
     dv_tenant_id v = sd_tenant_id d \<and> dv_collection_id v = sd_collection_id d
     \<and> dv_document_id v = sd_id d \<and> dv_state v \<noteq> DELETED) vs))"

definition storage_bytes :: "session \<Rightarrow> uuid \<Rightarrow> uuid \<Rightarrow> int" where
  "storage_bytes s t c =
     sum_list (map (document_storage (db_versions s)) (collection_documents s t c))"

definition document_numbers :: "session \<Rightarrow> uuid \<Rightarrow> uuid \<Rightarrow> uuid \<Rightarrow> int list" where
  "document_numbers s t c d = map dv_version_number (filter (\<lambda>v.
     dv_tenant_id v = t \<and> dv_collection_id v = c \<and> dv_document_id v = d) (db_versions s))"

definition register_document ::
  "Principal \<Rightarrow> uuid \<Rightarrow> string \<Rightarrow> uuid \<Rightarrow> document_values \<Rightarrow> uuid \<Rightarrow> session
   \<Rightarrow> (version_row \<times> session) res" where
  "register_document prin collection_id idempotency_key version_id values new_document s =
     bind_res (get_collection prin collection_id True s) (\<lambda>(collection, _).
     bind_res (get_idempotent_version prin collection_id idempotency_key s) (\<lambda>existing.
       case existing of
         Some e \<Rightarrow> bind_res (validate_idempotent_match e values) (\<lambda>_. Inr (fst e, s))
       | None \<Rightarrow>
          if dvs_size_bytes values > co_upload_max_bytes collection
          then Inl (CatalogQuotaError ''upload exceeds collection size limit'')
          else if \<not> list_ex (\<lambda>d. sd_source_key d = dvs_source_key values)
                      (collection_documents s (pr_tenant_id prin) collection_id)
               \<and> document_count s (pr_tenant_id prin) collection_id \<ge> co_document_quota collection
          then Inl (CatalogQuotaError ''collection document quota exceeded'')
          else if storage_bytes s (pr_tenant_id prin) collection_id + dvs_size_bytes values
                    > co_storage_quota_bytes collection
          then Inl (CatalogQuotaError ''collection storage quota exceeded'')
          else bind_res (get_or_create_document prin collection_id values new_document s)
            (\<lambda>(document_id, s1).
              (let row = \<lparr>dv_id = version_id, dv_tenant_id = pr_tenant_id prin,
                     dv_collection_id = collection_id, dv_document_id = document_id,
                     dv_version_number =
                       coalesce_max 0 (document_numbers s1 (pr_tenant_id prin) collection_id document_id) + 1,
                     dv_idempotency_key = idempotency_key,
                     dv_content_sha256 = dvs_content_sha256 values,
                     dv_size_bytes = dvs_size_bytes values, dv_page_count = None,
                     dv_detected_mime = None, dv_object_key = dvs_object_key values,
                     dv_source_uri_policy = ''direct_upload_only'',
                     dv_pipeline_profile = dvs_pipeline_profile values, dv_state = RECEIVED,
                     dv_state_revision = 0, dv_progress_completed = 0, dv_progress_total = 0,
                     dv_terminal_reason_code = None, dv_canonical_version_id = None,
                     dv_created_at = now s, dv_updated_at = now s,
                     dv_reprocessed_from_version_id = None\<rparr>
               in bind_res (insert_version row s1) (\<lambda>s2. Inr (row, s2))))))"

definition recover_idempotent_registration ::
  "Principal \<Rightarrow> uuid \<Rightarrow> string \<Rightarrow> document_values \<Rightarrow> session \<Rightarrow> version_row option res" where
  "recover_idempotent_registration prin collection_id idempotency_key values s =
     bind_res (get_collection prin collection_id True s) (\<lambda>_.
     bind_res (get_idempotent_version prin collection_id idempotency_key s) (\<lambda>existing.
       case existing of
         None \<Rightarrow> Inr None
       | Some e \<Rightarrow> bind_res (validate_idempotent_match e values) (\<lambda>_. Inr (Some (fst e)))))"

record version_status =
  st_version :: version_row
  st_stage :: "IngestionStage option"
  st_artifacts_available :: bool
  st_citations_ready :: bool
  st_lexical_index_ready :: bool
  st_vector_index_ready :: bool

text \<open>
  \<open>ORDER BY created_at DESC LIMIT 1\<close>. Jobs with the same \<open>created_at\<close> leave the choice to the
  database; the model takes the first of them.
\<close>

definition latest_job_stage :: "session \<Rightarrow> version_row \<Rightarrow> IngestionStage option" where
  "latest_job_stage s v =
     scalar (map ij_stage (sort_key (\<lambda>j. - ij_created_at j)
       (filter (\<lambda>j. job_scope j = version_scope v) (db_jobs s))))"

definition publication_state_ready :: "session \<Rightarrow> version_row \<Rightarrow> bool" where
  "publication_state_ready s v =
     (let k = version_scope v;
          cs = filter (\<lambda>c. chunk_scope c = k) (db_chunks s);
          ps = filter (\<lambda>p. dv_state v \<in> {READY, READY_WITH_WARNINGS} \<and> publication_scope p = k
                 \<and> ip_deleted_at p = None \<and> ip_activated_at p \<noteq> None
                 \<and> ip_publication_job_id p \<noteq> None
                 \<and> manifest_for s k (ip_target_name p) (ip_target_version p)) (db_publications s)
      in list_ex (\<lambda>p. let g = filter (\<lambda>q. publication_group q = publication_group p) ps
           in distinct_chunks PK_LEXICAL g = int (length cs)
              \<and> distinct_chunks PK_VECTOR g = int (length cs)
              \<and> list_all (chunk_embedded s) cs) ps)"

definition status :: "Principal \<Rightarrow> uuid \<Rightarrow> session \<Rightarrow> version_status res" where
  "status prin version_id s =
     bind_res (get_version prin version_id False s) (\<lambda>_.
     one [\<lparr>st_version = v, st_stage = latest_job_stage s v,
           st_artifacts_available = list_ex (\<lambda>a. artifact_scope a = version_scope v) (db_artifacts s),
           st_citations_ready = list_ex (\<lambda>c. chunk_scope c = version_scope v) (db_chunks s),
           st_lexical_index_ready = publication_state_ready s v,
           st_vector_index_ready = publication_state_ready s v\<rparr>.
         v \<leftarrow> db_versions s, dv_tenant_id v = pr_tenant_id prin \<and> dv_id v = version_id])"

section \<open>Keys\<close>

definition membership_keys_ok :: "session \<Rightarrow> bool" where
  "membership_keys_ok s \<longleftrightarrow> distinct (map membership_key (db_memberships s))"

definition catalog_keys_ok :: "session \<Rightarrow> bool" where
  "catalog_keys_ok s \<longleftrightarrow> version_keys_ok s \<and> membership_keys_ok s
     \<and> distinct (map co_id (db_collections s))
     \<and> distinct (map sd_id (db_documents s)) \<and> distinct (map document_key (db_documents s))
     \<and> distinct (map version_idempotency (db_versions s))
     \<and> distinct (map version_number_key (db_versions s))"

section \<open>Joins on unique keys\<close>

lemma concat_guard: "concat (map (\<lambda>x. if p x then f x else []) xs) = concat (map f (filter p xs))"
  by (induction xs) auto

lemma filter_at_most_one:
  assumes "length (filter p xs) \<le> 1"
  shows "filter p xs = [] \<and> (\<forall>x \<in> set xs. \<not> p x)
    \<or> (\<exists>x \<in> set xs. p x \<and> filter p xs = [x] \<and> (\<forall>y \<in> set xs. p y \<longrightarrow> y = x))"
proof (cases "filter p xs")
  case Nil
  then show ?thesis by (simp add: filter_empty_conv)
next
  case (Cons x ys)
  with assms have one: "filter p xs = [x]" by simp
  have "set (filter p xs) = {x}" unfolding one by simp
  then have "{y \<in> set xs. p y} = {x}" by simp
  with one show ?thesis by blast
qed

text \<open>A row joined with at most one partner: the query gives the row once or nothing.\<close>

lemma join_at_most_one:
  assumes "length (filter p xs) \<le> 1" and "\<And>x. length (filter (q x) ys) \<le> 1"
  obtains (none) "[f x y. x \<leftarrow> xs, p x, y \<leftarrow> ys, q x y] = []"
      "\<And>x y. x \<in> set xs \<Longrightarrow> y \<in> set ys \<Longrightarrow> p x \<Longrightarrow> \<not> q x y"
    | (single) x y where "x \<in> set xs" "y \<in> set ys" "p x" "q x y"
      "[f x y. x \<leftarrow> xs, p x, y \<leftarrow> ys, q x y] = [f x y]"
proof -
  have eq: "[f x y. x \<leftarrow> xs, p x, y \<leftarrow> ys, q x y]
      = concat (map (\<lambda>x. concat (map (\<lambda>y. [f x y]) (filter (q x) ys))) (filter p xs))"
    by (simp only: concat_guard)
  from filter_at_most_one [OF assms(1)] consider (a) "filter p xs = []" "\<forall>x \<in> set xs. \<not> p x"
    | (b) x where "x \<in> set xs" "p x" "filter p xs = [x]" "\<forall>y \<in> set xs. p y \<longrightarrow> y = x"
    by blast
  then show thesis
  proof cases
    case a
    then show ?thesis by (intro none) (simp add: eq, blast)
  next
    case b
    from filter_at_most_one [OF assms(2) [of x]] consider (c) "filter (q x) ys = []" "\<forall>y \<in> set ys. \<not> q x y"
      | (d) y where "y \<in> set ys" "q x y" "filter (q x) ys = [y]"
      by blast
    then show ?thesis
    proof cases
      case c
      have "[f x y. x \<leftarrow> xs, p x, y \<leftarrow> ys, q x y] = []"
        unfolding eq b(3) by (simp add: c(1))
      moreover have "\<not> q x' y" if "x' \<in> set xs" "y \<in> set ys" "p x'" for x' y
        using b(4) c(2) that by blast
      ultimately show ?thesis by (rule none)
    next
      case (d y)
      have "[f x y. x \<leftarrow> xs, p x, y \<leftarrow> ys, q x y] = [f x y]"
        unfolding eq b(3) by (simp add: d(3))
      with b(1) d(1) b(2) d(2) show ?thesis by (rule single)
    qed
  qed
qed

lemma member_at_most_one:
  assumes "membership_keys_ok s"
  shows "length (filter (\<lambda>m. member_of prin t c m \<and> q m) (db_memberships s)) \<le> 1"
  using assms unfolding membership_keys_ok_def
  by (rule length_filter_key_le_1 [where c = "(t, c, pr_subject prin)"])
     (simp add: member_of_def membership_key_def)

section \<open>Access\<close>

definition may_access :: "Principal \<Rightarrow> uuid \<Rightarrow> bool \<Rightarrow> session \<Rightarrow> bool" where
  "may_access prin c require_editor s \<longleftrightarrow>
     list_ex (\<lambda>m. member_of prin (pr_tenant_id prin) c m \<and> (require_editor \<longrightarrow> editor_role (cm_role m)))
       (db_memberships s)"

lemma get_version_cases:
  assumes "version_keys_ok s" and "membership_keys_ok s"
  shows "get_version prin i ed s = Inl (CatalogNotFoundError ''document version not found'')
      \<and> \<not> (\<exists>v \<in> set (db_versions s). dv_id v = i \<and> dv_tenant_id v = pr_tenant_id prin
                 \<and> may_access prin (dv_collection_id v) ed s)
    \<or> (\<exists>v \<in> set (db_versions s). get_version prin i ed s = Inr v \<and> dv_id v = i
          \<and> dv_tenant_id v = pr_tenant_id prin \<and> may_access prin (dv_collection_id v) ed s)"
proof -
  have "length (filter (\<lambda>v. dv_tenant_id v = pr_tenant_id prin \<and> dv_id v = i) (db_versions s)) \<le> 1"
    using assms(1) unfolding version_keys_ok_def by (rule length_filter_key_le_1 [where c = i]) simp
  from this member_at_most_one [OF assms(2)] show ?thesis
  proof (rule join_at_most_one [where f = "\<lambda>v m. v" and ys = "db_memberships s" and
      q = "\<lambda>v m. member_of prin (dv_tenant_id v) (dv_collection_id v) m \<and> (ed \<longrightarrow> editor_role (cm_role m))"],
      goal_cases)
    case 1
    then have "get_version prin i ed s = Inl (CatalogNotFoundError ''document version not found'')"
      unfolding get_version_def 1(1) by simp
    with 1(2) show ?case by (fastforce simp: may_access_def list_ex_iff)
  next
    case (2 v m)
    then have "get_version prin i ed s = Inr v"
      unfolding get_version_def 2(5) by simp
    with 2 show ?case by (fastforce simp: may_access_def list_ex_iff)
  qed
qed

lemma get_version_Inr:
  assumes "version_keys_ok s" and "membership_keys_ok s"
  shows "get_version prin i ed s = Inr v \<longleftrightarrow>
            v \<in> set (db_versions s) \<and> dv_id v = i \<and> dv_tenant_id v = pr_tenant_id prin
            \<and> may_access prin (dv_collection_id v) ed s"
  using get_version_cases [OF assms, of prin i ed] assms(1)
    distinct_map_inj_rows [of dv_id "db_versions s"]
  unfolding version_keys_ok_def by fastforce

lemma get_collection_cong:
  "db_collections s' = db_collections s \<Longrightarrow> db_memberships s' = db_memberships s
   \<Longrightarrow> get_collection prin c ed s' = get_collection prin c ed s"
  by (simp only: get_collection_def)

lemma get_collection_Inr:
  assumes "distinct (map co_id (db_collections s))" and "membership_keys_ok s"
    and "get_collection prin c ed s = Inr (row, role)"
  shows "row \<in> set (db_collections s) \<and> co_id row = c \<and> co_tenant_id row = pr_tenant_id prin
    \<and> may_access prin c ed s"
proof -
  have "length (filter (\<lambda>r. co_tenant_id r = pr_tenant_id prin \<and> co_id r = c) (db_collections s)) \<le> 1"
    using assms(1) by (rule length_filter_key_le_1 [where c = c]) simp
  from this member_at_most_one [OF assms(2)] show ?thesis
  proof (rule join_at_most_one [where f = "\<lambda>r m. (r, cm_role m)" and ys = "db_memberships s" and
      q = "\<lambda>r m. member_of prin (co_tenant_id r) (co_id r) m \<and> (ed \<longrightarrow> editor_role (cm_role m))"],
      goal_cases)
    case 1
    with assms(3) show ?case unfolding get_collection_def by simp
  next
    case (2 r m)
    with assms(3) have "r = row" unfolding get_collection_def by simp
    with 2 show ?case by (fastforce simp: may_access_def list_ex_iff)
  qed
qed

text \<open>Access to versions is exact: a caller gets a version if and only if it belongs to the
  caller's tenant and the caller is a member of its collection (owner or editor where the call
  asks for it); every other call ends in the same not-found error, so it does not tell a missing
  version from one of another tenant.\<close>

theorem get_version_exact:
  assumes "version_keys_ok s" and "membership_keys_ok s"
  shows "(get_version prin i require_editor s = Inr v \<longleftrightarrow>
            v \<in> set (db_versions s) \<and> dv_id v = i \<and> dv_tenant_id v = pr_tenant_id prin
            \<and> may_access prin (dv_collection_id v) require_editor s)
    \<and> (get_version prin i require_editor s = Inl e \<longrightarrow>
            e = CatalogNotFoundError ''document version not found''
            \<and> \<not> (\<exists>v \<in> set (db_versions s). dv_id v = i \<and> dv_tenant_id v = pr_tenant_id prin
                 \<and> may_access prin (dv_collection_id v) require_editor s))"
  using get_version_cases [OF assms, of prin i require_editor] get_version_Inr [OF assms]
  by fastforce

section \<open>Registration\<close>

definition version_documents_ok :: "session \<Rightarrow> bool" where
  "version_documents_ok s \<longleftrightarrow> (\<forall>v \<in> set (db_versions s). \<exists>d \<in> set (db_documents s).
     sd_tenant_id d = dv_tenant_id v \<and> sd_collection_id d = dv_collection_id v
     \<and> sd_id d = dv_document_id v)"

lemma get_or_create_document_cases:
  assumes "get_or_create_document prin c values did s = Inr (d, s1)"
  obtains (existing) row where "s1 = s" "row \<in> set (db_documents s)" "sd_id row = d"
      "sd_tenant_id row = pr_tenant_id prin" "sd_collection_id row = c"
      "sd_source_key row = dvs_source_key values"
    | (created) row where "s1 = s\<lparr>db_documents := db_documents s @ [row]\<rparr>" "sd_id row = d"
      "sd_tenant_id row = pr_tenant_id prin" "sd_collection_id row = c"
      "sd_source_key row = dvs_source_key values"
      "sd_id row \<notin> sd_id ` set (db_documents s)"
      "document_key row \<notin> document_key ` set (db_documents s)"
proof -
  let ?L = "[sd_id d. d \<leftarrow> db_documents s, sd_tenant_id d = pr_tenant_id prin
      \<and> sd_collection_id d = c \<and> sd_source_key d = dvs_source_key values]"
  show thesis
  proof (cases ?L)
    case Nil
    let ?row = "\<lparr>sd_id = did, sd_tenant_id = pr_tenant_id prin, sd_collection_id = c,
             sd_source_key = dvs_source_key values, sd_display_name = dvs_display_name values\<rparr>"
    from assms have "insert_document ?row s = Inr s1" "d = did"
      unfolding get_or_create_document_def Nil by (auto simp: bind_res_eq_Inr)
    with insert_document_Inr [of ?row s s1] show ?thesis
      by (intro created [of ?row]) simp_all
  next
    case (Cons i rest)
    from assms have "s1 = s" "d = i"
      unfolding get_or_create_document_def Cons by simp_all
    moreover have "i \<in> set ?L" unfolding Cons by simp
    ultimately show ?thesis
      by (auto intro: existing split: if_splits)
  qed
qed

text \<open>The three outcomes of a call: replay of a registration, registration, or an exception.\<close>

definition registered_row ::
  "Principal \<Rightarrow> uuid \<Rightarrow> string \<Rightarrow> document_values \<Rightarrow> version_row \<Rightarrow> bool" where
  "registered_row prin c key values v \<longleftrightarrow>
     version_idempotency v = (pr_tenant_id prin, c, key)
     \<and> dv_content_sha256 v = dvs_content_sha256 values \<and> dv_size_bytes v = dvs_size_bytes values
     \<and> dv_pipeline_profile v = dvs_pipeline_profile values"

lemma get_idempotent_version_Some:
  assumes "get_idempotent_version prin c key s = Inr (Some (v, k))"
  shows "v \<in> set (db_versions s) \<and> version_idempotency v = (pr_tenant_id prin, c, key)
    \<and> (\<exists>d \<in> set (db_documents s). sd_id d = dv_document_id v \<and> sd_source_key d = k
         \<and> sd_tenant_id d = pr_tenant_id prin \<and> sd_collection_id d = c)"
proof -
  let ?L = "[(v, sd_source_key d). v \<leftarrow> db_versions s,
          dv_tenant_id v = pr_tenant_id prin \<and> dv_collection_id v = c \<and> dv_idempotency_key v = key,
          d \<leftarrow> db_documents s,
          sd_tenant_id d = dv_tenant_id v \<and> sd_collection_id d = dv_collection_id v
            \<and> sd_id d = dv_document_id v]"
  from assms have "?L = [(v, k)]"
    unfolding get_idempotent_version_def by (simp only: one_or_none_Some)
  then have "(v, k) \<in> set ?L" by (simp only: list.set_intros)
  then show ?thesis
    by (auto simp: version_idempotency_def split: if_splits)
qed

lemma register_document_cases:
  assumes "register_document prin c key vid values did s = Inr (v, s')"
  obtains (replay) k col role where "get_idempotent_version prin c key s = Inr (Some (v, k))" "s' = s"
      "idempotent_match (v, k) values" "get_collection prin c True s = Inr (col, role)"
    | (fresh) col role d s1 where "get_collection prin c True s = Inr (col, role)"
      "get_idempotent_version prin c key s = Inr None"
      "dvs_size_bytes values \<le> co_upload_max_bytes col"
      "list_ex (\<lambda>d. sd_source_key d = dvs_source_key values) (collection_documents s (pr_tenant_id prin) c)
        \<or> document_count s (pr_tenant_id prin) c < co_document_quota col"
      "storage_bytes s (pr_tenant_id prin) c + dvs_size_bytes values \<le> co_storage_quota_bytes col"
      "get_or_create_document prin c values did s = Inr (d, s1)"
      "insert_version v s1 = Inr s'" "registered_row prin c key values v" "dv_id v = vid"
      "dv_document_id v = d" "dv_state v = RECEIVED" "dv_state_revision v = 0"
      "dv_version_number v = coalesce_max 0 (document_numbers s1 (pr_tenant_id prin) c d) + 1"
proof -
  from assms obtain col role where col: "get_collection prin c True s = Inr (col, role)"
    unfolding register_document_def by (auto elim!: bind_res_InrE)
  from assms obtain ex where ex: "get_idempotent_version prin c key s = Inr ex"
    unfolding register_document_def col by (auto elim!: bind_res_InrE)
  show thesis
  proof (cases ex)
    case (Some e)
    from assms obtain k where "e = (v, k)" "s' = s" "idempotent_match (v, k) values"
      unfolding register_document_def col ex Some validate_idempotent_match_def
      by (cases e) (auto simp: bind_res_eq_Inr)
    with ex Some col show ?thesis by (intro replay [of k]) simp_all
  next
    case None
    from assms show ?thesis
      unfolding register_document_def col ex None Let_def
      by (auto elim!: bind_res_InrE intro!: fresh [OF col] simp: ex None registered_row_def
          version_idempotency_def split: if_splits)
  qed
qed

lemma storage_bytes_insert:
  assumes "distinct (map sd_id (db_documents s))" and "d \<in> set (db_documents s)"
    and "sd_tenant_id d = dv_tenant_id v" "sd_collection_id d = dv_collection_id v"
    and "sd_id d = dv_document_id v" and "dv_state v \<noteq> DELETED"
  shows "storage_bytes (s\<lparr>db_versions := db_versions s @ [v]\<rparr>) (dv_tenant_id v) (dv_collection_id v)
    = storage_bytes s (dv_tenant_id v) (dv_collection_id v) + dv_size_bytes v"
proof -
  let ?ds = "collection_documents s (dv_tenant_id v) (dv_collection_id v)"
  let ?hit = "\<lambda>x. sd_id x = sd_id d"
  have one: "document_storage (db_versions s @ [v]) x
      = document_storage (db_versions s) x + (if ?hit x then dv_size_bytes v else 0)" if "x \<in> set ?ds" for x
    using that assms(5,6) by (auto simp: document_storage_def collection_documents_def)
  have "filter ?hit (db_documents s) = [d]"
    using filter_key_unique [OF assms(1,2)] .
  then have "filter (\<lambda>x. sd_tenant_id x = dv_tenant_id v \<and> sd_collection_id x = dv_collection_id v)
      (filter ?hit (db_documents s)) = [d]"
    using assms(3,4) by simp
  then have hits: "filter ?hit ?ds = [d]"
    unfolding collection_documents_def by (simp add: conj_ac)
  have count: "sum_list (map (\<lambda>x. if ?hit x then k else 0) xs) = k * int (length (filter ?hit xs))"
    for k :: int and xs
    by (induction xs) (auto simp: algebra_simps)
  have "sum_list (map (\<lambda>x. if ?hit x then dv_size_bytes v else 0) ?ds) = dv_size_bytes v"
    unfolding count hits by simp
  moreover have "storage_bytes (s\<lparr>db_versions := db_versions s @ [v]\<rparr>) (dv_tenant_id v) (dv_collection_id v)
      = sum_list (map (\<lambda>x. document_storage (db_versions s) x + (if ?hit x then dv_size_bytes v else 0)) ?ds)"
    unfolding storage_bytes_def collection_documents_def
    by (intro arg_cong [where f = sum_list] map_cong) (use one in \<open>simp_all add: collection_documents_def\<close>)
  ultimately show ?thesis
    by (simp add: sum_list_addf storage_bytes_def)
qed

lemma storage_bytes_new_document:
  assumes "version_documents_ok s" and "sd_id row \<notin> sd_id ` set (db_documents s)"
  shows "storage_bytes (s\<lparr>db_documents := db_documents s @ [row]\<rparr>) t c = storage_bytes s t c"
proof -
  have "filter (\<lambda>v. dv_tenant_id v = sd_tenant_id row \<and> dv_collection_id v = sd_collection_id row
     \<and> dv_document_id v = sd_id row \<and> dv_state v \<noteq> DELETED) (db_versions s) = []"
    unfolding filter_empty_conv using assms unfolding version_documents_ok_def by (metis imageI)
  then have "document_storage (db_versions s) row = 0"
    unfolding document_storage_def by simp
  then show ?thesis
    by (simp add: storage_bytes_def collection_documents_def)
qed

lemma distinct_map_snoc:
  "distinct (map k (xs @ [x])) \<longleftrightarrow> distinct (map k xs) \<and> k x \<notin> k ` set xs"
  by auto

lemma get_or_create_document_frame:
  assumes "get_or_create_document prin c values did s = Inr (d, s1)" and "catalog_keys_ok s"
    and "version_documents_ok s"
  shows "db_versions s1 = db_versions s \<and> db_events s1 = db_events s \<and> catalog_keys_ok s1
    \<and> version_documents_ok s1 \<and> storage_bytes s1 t c' = storage_bytes s t c'
    \<and> (\<exists>row \<in> set (db_documents s1). sd_id row = d \<and> sd_tenant_id row = pr_tenant_id prin
         \<and> sd_collection_id row = c \<and> sd_source_key row = dvs_source_key values)"
  using assms(1)
proof (cases rule: get_or_create_document_cases)
  case (existing row)
  then show ?thesis using assms(2,3) by auto
next
  case (created row)
  have "catalog_keys_ok s1"
    using assms(2) created(1,6,7)
    by (simp add: catalog_keys_ok_def version_keys_ok_def membership_keys_ok_def)
  moreover have "version_documents_ok s1"
    using assms(3) created(1) by (auto simp: version_documents_ok_def)
  ultimately show ?thesis
    using created storage_bytes_new_document [OF assms(3) created(6)] by auto
qed

lemma registered_keys:
  assumes "insert_version v s1 = Inr s'" and "catalog_keys_ok s1"
  shows "catalog_keys_ok s' \<and> v \<in> set (db_versions s') \<and> db_documents s' = db_documents s1"
  using insert_version_Inr [OF assms(1)] assms(2)
  by (simp add: catalog_keys_ok_def version_keys_ok_def membership_keys_ok_def)

text \<open>C4: a successful registration returns a stored version that carries the caller's tenant,
  collection, key and content, keeps the unique keys and the audit trail, and either changes
  nothing (replay) or adds a version in state \<open>received\<close> whose number exceeds those of all other
  versions of its document, within the collection's upload limit and storage quota.\<close>

theorem register_document_effect:
  assumes "register_document prin c key vid values did s = Inr (v, s')"
    and "catalog_keys_ok s" and "version_documents_ok s" and "audit_ok s"
  shows "v \<in> set (db_versions s') \<and> registered_row prin c key values v
    \<and> catalog_keys_ok s' \<and> version_documents_ok s' \<and> audit_ok s'
    \<and> (s' = s \<or>
        (\<exists>col \<in> set (db_collections s). co_id col = c \<and> co_tenant_id col = pr_tenant_id prin
          \<and> may_access prin c True s \<and> dv_size_bytes v \<le> co_upload_max_bytes col
          \<and> storage_bytes s' (pr_tenant_id prin) c = storage_bytes s (pr_tenant_id prin) c + dv_size_bytes v
          \<and> storage_bytes s' (pr_tenant_id prin) c \<le> co_storage_quota_bytes col)
        \<and> dv_state v = RECEIVED \<and> db_versions s' = db_versions s @ [v]
        \<and> (\<forall>w \<in> set (db_versions s). dv_tenant_id w = dv_tenant_id v \<and> dv_collection_id w = c
              \<and> dv_document_id w = dv_document_id v \<longrightarrow> dv_version_number w < dv_version_number v))"
  using assms(1)
proof (cases rule: register_document_cases)
  case (replay k)
  with assms(2-4) get_idempotent_version_Some [OF replay(1)] show ?thesis
    by (auto simp: registered_row_def idempotent_match_def)
next
  case (fresh col role d s1)
  note doc = get_or_create_document_frame [OF fresh(6) assms(2,3)]
  then obtain row where row: "row \<in> set (db_documents s1)" "sd_id row = dv_document_id v"
    "sd_tenant_id row = dv_tenant_id v" "sd_collection_id row = dv_collection_id v"
    using fresh(8,10) by (auto simp: registered_row_def version_idempotency_def)
  note ins = insert_version_Inr [OF fresh(7)]
  have v: "dv_tenant_id v = pr_tenant_id prin" "dv_collection_id v = c" "dv_size_bytes v = dvs_size_bytes values"
    using fresh(8) by (simp_all add: registered_row_def version_idempotency_def)
  have st: "storage_bytes s' (pr_tenant_id prin) c = storage_bytes s (pr_tenant_id prin) c + dv_size_bytes v"
    using storage_bytes_insert [of s1 row v] row doc ins v fresh(11)
    by (simp add: catalog_keys_ok_def)
  have docs: "version_documents_ok s'"
    using doc ins row by (auto simp: version_documents_ok_def)
  have aud: "audit_ok s1"
    using assms(4) doc by (simp add: audit_ok_def events_of_def version_exists_def)
  have num: "dv_version_number w < dv_version_number v" if "w \<in> set (db_versions s)"
    "dv_tenant_id w = dv_tenant_id v" "dv_collection_id w = c" "dv_document_id w = dv_document_id v" for w
    using coalesce_max_ge [of "dv_version_number w" "document_numbers s1 (pr_tenant_id prin) c d" 0]
      that doc fresh(10,13) v by (force simp: document_numbers_def)
  have "co_id col = c" "col \<in> set (db_collections s)" "co_tenant_id col = pr_tenant_id prin"
    "may_access prin c True s"
    using get_collection_Inr [OF _ _ fresh(1)] assms(2) by (simp_all add: catalog_keys_ok_def)
  moreover have "catalog_keys_ok s'" "v \<in> set (db_versions s')"
    using registered_keys [OF fresh(7)] doc by simp_all
  moreover have "db_versions s' = db_versions s @ [v]"
    using ins doc by simp
  ultimately show ?thesis
    using st docs insert_version_audit [OF fresh(7) aud] fresh(3,5,8,11,12) num v(3) by auto
qed

lemma get_idempotent_version_eq:
  assumes "catalog_keys_ok s" and "v \<in> set (db_versions s)"
    and "version_idempotency v = (pr_tenant_id prin, c, key)" and "d \<in> set (db_documents s)"
    and "sd_tenant_id d = dv_tenant_id v" "sd_collection_id d = dv_collection_id v"
    and "sd_id d = dv_document_id v"
  shows "get_idempotent_version prin c key s = Inr (Some (v, sd_source_key d))"
proof -
  let ?p = "\<lambda>v. dv_tenant_id v = pr_tenant_id prin \<and> dv_collection_id v = c \<and> dv_idempotency_key v = key"
  let ?q = "\<lambda>v d. sd_tenant_id d = dv_tenant_id v \<and> sd_collection_id d = dv_collection_id v
      \<and> sd_id d = dv_document_id v"
  from assms(1) have vd: "distinct (map version_idempotency (db_versions s))"
    and dd: "distinct (map sd_id (db_documents s))"
    by (simp_all add: catalog_keys_ok_def)
  have "length (filter ?p (db_versions s)) \<le> 1"
    using vd by (rule length_filter_key_le_1 [where c = "(pr_tenant_id prin, c, key)"])
      (simp add: version_idempotency_def)
  moreover have "length (filter (?q w) (db_documents s)) \<le> 1" for w
    using dd by (rule length_filter_key_le_1 [where c = "dv_document_id w"]) simp
  ultimately show ?thesis
  proof (rule join_at_most_one [where f = "\<lambda>v d. (v, sd_source_key d)" and xs = "db_versions s"
        and ys = "db_documents s" and p = ?p and q = ?q], goal_cases)
    case 1
    with assms(2-7) show ?case by (simp add: version_idempotency_def)
  next
    case (2 w e)
    then have "version_idempotency w = version_idempotency v"
      using assms(3) by (simp add: version_idempotency_def)
    with 2 assms(2) have w: "w = v" by (intro distinct_map_inj_rows [OF vd])
    with 2 assms(4,7) have "e = d" by (intro distinct_map_inj_rows [OF dd]) simp_all
    with 2 w show ?case unfolding get_idempotent_version_def 2(5) by simp
  qed
qed

text \<open>C5: registration is idempotent: after a successful registration, any further call of the same
  caller with the same key returns the same version and changes nothing when source key, checksum,
  size and profile agree with the first request, whatever identifiers it drew, and is refused
  as a conflict otherwise.\<close>

theorem register_document_idempotent:
  assumes "register_document prin c key vid values did s = Inr (v, s')"
    and "catalog_keys_ok s" and "version_documents_ok s"
  shows "register_document prin c key vid' values' did' s' =
    (if dvs_source_key values' = dvs_source_key values \<and> dvs_content_sha256 values' = dvs_content_sha256 values
        \<and> dvs_size_bytes values' = dvs_size_bytes values
        \<and> dvs_pipeline_profile values' = dvs_pipeline_profile values
     then Inr (v, s')
     else Inl (CatalogConflictError ''idempotency key was used for another request''))"
proof -
  have "\<exists>col role k. get_collection prin c True s' = Inr (col, role)
      \<and> get_idempotent_version prin c key s' = Inr (Some (v, k)) \<and> idempotent_match (v, k) values"
    using assms(1)
  proof (cases rule: register_document_cases)
    case (replay k col role)
    then show ?thesis by blast
  next
    case (fresh col role d s1)
    note doc = get_or_create_document_frame [OF fresh(6) assms(2,3)]
    then obtain row where row: "row \<in> set (db_documents s1)" "sd_id row = dv_document_id v"
      "sd_tenant_id row = dv_tenant_id v" "sd_collection_id row = dv_collection_id v"
      "sd_source_key row = dvs_source_key values"
      using fresh(8,10) by (auto simp: registered_row_def version_idempotency_def)
    note ks = registered_keys [OF fresh(7)]
    have "get_idempotent_version prin c key s' = Inr (Some (v, sd_source_key row))"
      using get_idempotent_version_eq [of s' v prin c key row] ks doc row fresh(8)
      by (simp add: registered_row_def)
    moreover have "db_collections s1 = db_collections s \<and> db_memberships s1 = db_memberships s"
      using fresh(6) by (cases rule: get_or_create_document_cases) simp_all
    then have "get_collection prin c True s' = Inr (col, role)"
      using fresh(1) insert_version_Inr [OF fresh(7)] get_collection_cong [of s' s] by simp
    ultimately show ?thesis
      using row(5) fresh(8) by (auto simp: idempotent_match_def registered_row_def)
  qed
  then show ?thesis
    by (auto simp: register_document_def validate_idempotent_match_def idempotent_match_def raise_if_def)
qed

section \<open>Witnesses\<close>

text \<open>A database with one tenant, one collection and its owner.\<close>

definition sample_principal :: Principal where
  "sample_principal = \<lparr>pr_subject = ''alice'', pr_tenant_id = 1\<rparr>"

definition sample_collection :: collection_row where
  "sample_collection = \<lparr>co_id = 2, co_tenant_id = 1, co_name = ''papers'', co_retention_days = 0,
     co_upload_max_bytes = 1000, co_document_quota = 5, co_storage_quota_bytes = 5000,
     co_legal_hold = False, co_created_at = 0, co_updated_at = 0\<rparr>"

definition sample_session :: session where
  "sample_session = empty_session\<lparr>now := 10, db_tenants := [\<lparr>tn_id = 1, tn_name = ''acme''\<rparr>],
     db_collections := [sample_collection],
     db_memberships := [\<lparr>cm_id = 3, cm_tenant_id = 1, cm_collection_id = 2,
       cm_principal_subject = ''alice'', cm_role = CR_OWNER\<rparr>]\<rparr>"

definition sample_sha :: string where
  "sample_sha = replicate 64 (CHR ''a'')"

definition sample_values :: document_values where
  "sample_values = \<lparr>dvs_source_key = ''a.pdf'', dvs_display_name = ''A'', dvs_content_sha256 = sample_sha,
     dvs_size_bytes = 100, dvs_pipeline_profile = ''v1'', dvs_object_key = ''k''\<rparr>"

definition sample_version :: version_row where
  "sample_version = \<lparr>dv_id = 4, dv_tenant_id = 1, dv_collection_id = 2, dv_document_id = 5,
     dv_version_number = 1, dv_idempotency_key = ''key'', dv_content_sha256 = sample_sha,
     dv_size_bytes = 100, dv_page_count = None, dv_detected_mime = None, dv_object_key = ''k'',
     dv_source_uri_policy = ''direct_upload_only'', dv_pipeline_profile = ''v1'', dv_state = RECEIVED,
     dv_state_revision = 0, dv_progress_completed = 0, dv_progress_total = 0,
     dv_terminal_reason_code = None, dv_canonical_version_id = None, dv_created_at = 10,
     dv_updated_at = 10, dv_reprocessed_from_version_id = None\<rparr>"

definition registered_session :: session where
  "registered_session = sample_session\<lparr>
     db_documents := [\<lparr>sd_id = 5, sd_tenant_id = 1, sd_collection_id = 2, sd_source_key = ''a.pdf'',
       sd_display_name = ''A''\<rparr>],
     db_versions := [sample_version]\<rparr>"

lemmas sample_defs = registered_session_def sample_session_def sample_collection_def
  sample_principal_def sample_values_def sample_version_def empty_session_def

lemma sample_session_ok:
  "catalog_keys_ok sample_session \<and> version_documents_ok sample_session \<and> audit_ok sample_session"
  by (simp add: sample_defs catalog_keys_ok_def version_keys_ok_def membership_keys_ok_def
      version_documents_ok_def audit_ok_def)

lemma is_sha256_sample [simp]: "is_sha256 sample_sha"
  by (simp add: is_sha256_def sample_sha_def list_all_iff)

lemma sample_registration:
  "register_document sample_principal 2 ''key'' 4 sample_values 5 sample_session
     = Inr (sample_version, registered_session)"
  by (simp add: register_document_def get_collection_def get_idempotent_version_def member_of_def
      editor_role_def document_count_def storage_bytes_def collection_documents_def document_numbers_def
      get_or_create_document_def insert_document_def insert_version_def check_all.simps
      version_checks_def enforce_reprocessing_lineage_def coalesce_max_def failure_states_def
      sample_defs Let_def)

theorem get_version_exact_witness:
  "get_version sample_principal 4 True registered_session = Inr sample_version"
  using get_version_exact [of registered_session sample_principal 4 True sample_version]
  by (simp add: sample_defs version_keys_ok_def membership_keys_ok_def may_access_def member_of_def
      editor_role_def)

theorem register_document_effect_witness:
  "storage_bytes registered_session 1 2 \<le> 5000 \<and> audit_ok registered_session
    \<and> sample_version \<in> set (db_versions registered_session)"
proof -
  have "registered_session \<noteq> sample_session" by (simp add: sample_defs)
  with register_document_effect [OF sample_registration] sample_session_ok show ?thesis
    by (simp add: sample_session_def sample_collection_def sample_principal_def)
qed

theorem register_document_idempotent_witness:
  "register_document sample_principal 2 ''key'' 77 sample_values 78 registered_session
     = Inr (sample_version, registered_session)"
  using register_document_idempotent [OF sample_registration, of 77 sample_values 78] sample_session_ok
  by simp

end
