(* ===== verification/Catalog_Operations.thy ===== *)
theory Catalog_Operations
  imports Catalog_Repository
begin

text \<open>
  \<open>catalog/operations_repository.py\<close> and \<open>catalog/reprocessing_repository.py\<close>: completion of an
  upload and the lifecycle requests (cancel, retry, reprocess, delete). The identifiers a call
  draws are \<open>u 0\<close>, \<open>u 1\<close>, \dots\ in the order of its \<open>uuid4()\<close> calls.
\<close>

section \<open>Definitions\<close>

text \<open>\<open>ORDER BY generation DESC LIMIT 1\<close> over the jobs of one version and stage.\<close>

definition latest_generation_job :: "session \<Rightarrow> uuid \<Rightarrow> uuid \<Rightarrow> IngestionStage \<Rightarrow> uuid option" where
  "latest_generation_job s t v stage =
     scalar (map ij_id (sort_key (\<lambda>j. - ij_generation j)
       (filter (\<lambda>j. ij_tenant_id j = t \<and> ij_document_version_id j = v \<and> ij_stage j = stage) (db_jobs s))))"

definition original_pdf_artifact :: "Principal \<Rightarrow> uuid \<Rightarrow> version_row \<Rightarrow> uuid \<Rightarrow> timestamp \<Rightarrow> artifact_row" where
  "original_pdf_artifact prin version_id version artifact_id t =
     \<lparr>af_id = artifact_id, af_tenant_id = pr_tenant_id prin,
      af_collection_id = dv_collection_id version, af_document_version_id = version_id,
      af_source_artifact_id = None, af_artifact_type = AT_ORIGINAL_PDF,
      af_object_key = dv_object_key version, af_generator_name = ''intake-api'',
      af_generator_version = ''v1'', af_checksum_sha256 = dv_content_sha256 version,
      af_size_bytes = dv_size_bytes version, af_retention_until = None, af_created_at = t,
      af_search_target_name = None, af_search_target_version = None\<rparr>"

definition complete_upload ::
  "Principal \<Rightarrow> uuid \<Rightarrow> bool \<Rightarrow> string option \<Rightarrow> string \<Rightarrow> int \<Rightarrow> (nat \<Rightarrow> uuid) \<Rightarrow> session
   \<Rightarrow> (version_row \<times> uuid option \<times> session) res" where
  "complete_upload prin version_id valid reason_code content_type job_max_attempts u s =
     bind_res (get_version prin version_id True s) (\<lambda>version0.
       if dv_state version0 \<noteq> RECEIVED
       then Inr (version0, latest_generation_job s (pr_tenant_id prin) version_id ST_PREFLIGHT, s)
       else
         bind_res (transition_catalog_version prin VALIDATING ''advance'' None
             ''complete-upload:validating'' (u 0) version0 s) (\<lambda>(version1, s1).
         if \<not> valid
         then bind_res (transition_catalog_version prin REJECTED ''advance'' reason_code
                ''complete-upload:rejected'' (u 1) version1 s1)
                (\<lambda>(version2, s2). Inr (version2, None, s2))
         else
           bind_res (insert_artifact (original_pdf_artifact prin version_id version1 (u 1) (now s1)) s1) (\<lambda>s2.
           bind_res (update_versions False
               (\<lambda>v. dv_tenant_id v = pr_tenant_id prin \<and> dv_id v = version_id)
               (\<lambda>v. v\<lparr>dv_detected_mime := Some content_type\<rparr>) s2) (\<lambda>(_, s3).
           bind_res (transition_catalog_version prin QUEUED ''advance'' None
               ''complete-upload:queued'' (u 2) version1 s3) (\<lambda>(version4, s4).
           bind_res (create_ingestion_job prin version4 ST_PREFLIGHT job_max_attempts None (u 3) s4)
             (\<lambda>(job_id, s5). Inr (version4, Some job_id, s5)))))))"

definition has_active_deletion_job :: "session \<Rightarrow> uuid \<Rightarrow> uuid \<Rightarrow> bool" where
  "has_active_deletion_job s t v \<longleftrightarrow>
     list_ex (\<lambda>j. ij_tenant_id j = t \<and> ij_document_version_id j = v \<and> ij_stage j = ST_DELETE
       \<and> ij_state j \<in> {JS_PENDING, JS_LEASED, JS_RUNNING, JS_RETRY_SCHEDULED}) (db_jobs s)"

definition cancel_active_jobs :: "uuid \<Rightarrow> uuid \<Rightarrow> session \<Rightarrow> session res" where
  "cancel_active_jobs t v s =
     (let live = (\<lambda>j. ij_tenant_id j = t \<and> ij_document_version_id j = v
             \<and> ij_state j \<in> {JS_PENDING, JS_LEASED, JS_RUNNING, JS_RETRY_SCHEDULED});
          cancelled = filter live (db_jobs s)
      in bind_res (update_jobs live
           (\<lambda>j. j\<lparr>ij_state := JS_CANCELLED, ij_lease_owner := None, ij_lease_expires_at := None,
                  ij_updated_at := now s\<rparr>) s) (\<lambda>s1.
         update_attempts
           (\<lambda>a. ja_tenant_id a = t \<and> ja_finished_at a = None
              \<and> list_ex (\<lambda>j. ja_job_id a = ij_id j \<and> ja_attempt_number a = ij_attempt_count j) cancelled)
           (\<lambda>a. a\<lparr>ja_finished_at := Some (now s), ja_heartbeat_at := Some (now s),
                  ja_outcome := Some ''cancelled'', ja_reason_code := Some ''LIFECYCLE_CANCELLED''\<rparr>) s1))"

text \<open>
  The recursive query: the rows at one depth and then, while the depth is below the bound, their
  parents (\<open>UNION ALL\<close>). The base rows have depth 0 and a step needs \<open>depth < 100\<close>, so the query
  makes at most 100 steps.
\<close>

fun lineage :: "nat \<Rightarrow> session \<Rightarrow> uuid \<Rightarrow> uuid \<Rightarrow> version_row list \<Rightarrow> version_row list" where
  "lineage n s t c [] = []"
| "lineage 0 s t c rows = rows"
| "lineage (Suc n) s t c rows = rows @ lineage n s t c
     [parent. child \<leftarrow> rows, parent \<leftarrow> db_versions s,
        dv_reprocessed_from_version_id child = Some (dv_id parent)
        \<and> dv_tenant_id parent = t \<and> dv_collection_id parent = c]"

definition lineage_of :: "session \<Rightarrow> uuid \<Rightarrow> uuid \<Rightarrow> uuid \<Rightarrow> version_row list" where
  "lineage_of s t c v = lineage 100 s t c
     (filter (\<lambda>r. dv_tenant_id r = t \<and> dv_collection_id r = c \<and> dv_id r = v) (db_versions s))"

definition deletion_in_progress :: "session \<Rightarrow> uuid \<Rightarrow> uuid \<Rightarrow> uuid \<Rightarrow> bool" where
  "deletion_in_progress s t c v \<longleftrightarrow>
     list_ex (\<lambda>j. ij_tenant_id j = t \<and> ij_collection_id j = c \<and> ij_stage j = ST_DELETE
       \<and> ij_state j \<in> {JS_PENDING, JS_LEASED, JS_RUNNING, JS_RETRY_SCHEDULED}
       \<and> list_ex (\<lambda>r. dv_id r = ij_document_version_id j) (lineage_of s t c v)) (db_jobs s)"

definition active_descendant :: "session \<Rightarrow> uuid \<Rightarrow> uuid \<Rightarrow> uuid \<Rightarrow> bool" where
  "active_descendant s t c v \<longleftrightarrow>
     list_ex (\<lambda>r. dv_tenant_id r = t \<and> dv_collection_id r = c
       \<and> dv_reprocessed_from_version_id r = Some v
       \<and> dv_state r \<notin> {FAILED, CANCELLED, DELETED}) (db_versions s)"

definition normalized_exists :: "session \<Rightarrow> uuid \<Rightarrow> uuid \<Rightarrow> uuid \<Rightarrow> bool" where
  "normalized_exists s t c v \<longleftrightarrow>
     list_ex (\<lambda>r. list_ex (\<lambda>a. af_tenant_id a = t \<and> af_collection_id a = c
       \<and> af_document_version_id a = dv_id r \<and> af_artifact_type a = AT_NORMALIZED_DOCUMENT)
       (db_artifacts s)) (lineage_of s t c v)"

definition create_reprocessed_version ::
  "Principal \<Rightarrow> version_row \<Rightarrow> string \<Rightarrow> uuid \<Rightarrow> (nat \<Rightarrow> uuid) \<Rightarrow> session \<Rightarrow> (version_row \<times> session) res" where
  "create_reprocessed_version prin source pipeline_profile request_id u s =
     (case validate_reprocessing_source (dv_state source) of
        Inl e \<Rightarrow> Inl (if is_CatalogTransitionError e then CatalogConflictError (error_text e) else e)
      | Inr _ \<Rightarrow>
         (let t = pr_tenant_id prin; c = dv_collection_id source in
          if dv_pipeline_profile source = pipeline_profile
          then Inl (CatalogConflictError ''reprocess requires a distinct pipeline profile'')
          else if deletion_in_progress s t c (dv_id source)
          then Inl (CatalogConflictError ''cannot reprocess while deletion is in progress'')
          else if active_descendant s t c (dv_id source)
          then Inl (CatalogConflictError ''reprocess source already has an active replacement'')
          else if \<not> normalized_exists s t c (dv_id source)
          then Inl (CatalogConflictError ''reprocess source has no verified normalized artifact'')
          else
            (let row = \<lparr>dv_id = u 0, dv_tenant_id = t, dv_collection_id = c,
                   dv_document_id = dv_document_id source,
                   dv_version_number = coalesce_max 0 (document_numbers s t c (dv_document_id source)) + 1,
                   dv_idempotency_key = ''reprocess:'' @ str_uuid request_id,
                   dv_content_sha256 = dv_content_sha256 source,
                   dv_size_bytes = dv_size_bytes source, dv_page_count = dv_page_count source,
                   dv_detected_mime = dv_detected_mime source, dv_object_key = dv_object_key source,
                   dv_source_uri_policy = dv_source_uri_policy source,
                   dv_pipeline_profile = pipeline_profile, dv_state = CHUNKING,
                   dv_state_revision = 1, dv_progress_completed = 0, dv_progress_total = 0,
                   dv_terminal_reason_code = None, dv_canonical_version_id = None,
                   dv_created_at = now s, dv_updated_at = now s,
                   dv_reprocessed_from_version_id = Some (dv_id source)\<rparr>
             in bind_res (insert_version row s) (\<lambda>s1.
                bind_res (insert_event
                  \<lparr>ev_id = u 1, ev_tenant_id = t, ev_collection_id = c, ev_document_version_id = u 0,
                   ev_idempotency_key = ''lifecycle:'' @ str_uuid request_id,
                   ev_from_state = dv_state source, ev_to_state = CHUNKING, ev_from_revision = 0,
                   ev_to_revision = 1, ev_operation = ''reprocess'', ev_actor_type = ''api'',
                   ev_actor_id = pr_subject prin\<rparr> s1) (\<lambda>s2. Inr (row, s2))))))"

definition idempotent_request ::
  "session \<Rightarrow> uuid \<Rightarrow> uuid \<Rightarrow> string \<Rightarrow> (request_row \<times> VersionState) option res" where
  "idempotent_request s t c key =
     one_or_none [(r, dv_state v). r \<leftarrow> db_requests s,
       lr_tenant_id r = t \<and> lr_collection_id r = c \<and> lr_idempotency_key r = key, v \<leftarrow> db_versions s,
       dv_tenant_id v = lr_tenant_id r \<and> dv_collection_id v = lr_collection_id r
         \<and> dv_id v = lr_document_version_id r]"

definition request_stage :: "string \<Rightarrow> IngestionStage" where
  "request_stage operation =
     (if operation = ''delete'' then ST_DELETE else if operation = ''reprocess'' then ST_CHUNK
      else ST_PREFLIGHT)"

text \<open>The work of a new request after its row is stored.\<close>

definition start_request ::
  "Principal \<Rightarrow> string \<Rightarrow> int \<Rightarrow> request_row \<Rightarrow> version_row \<Rightarrow> (nat \<Rightarrow> uuid) \<Rightarrow> session
   \<Rightarrow> (version_row \<times> uuid option \<times> session) res" where
  "start_request prin operation job_max_attempts request version u s =
     (let event_key = ''lifecycle:'' @ str_uuid (lr_id request) in
      if operation = ''cancel''
      then bind_res (transition_catalog_version prin CANCELLED ''cancel'' None event_key (u 0) version s)
             (\<lambda>(version', s1).
           bind_res (cancel_active_jobs (pr_tenant_id prin) (dv_id version') s1) (\<lambda>s2.
           Inr (version', None, s2)))
      else if operation = ''retry''
      then bind_res (transition_catalog_version prin QUEUED operation None event_key (u 0) version s)
             (\<lambda>(version', s1).
           bind_res (create_ingestion_job prin version' ST_PREFLIGHT job_max_attempts
               (Some (lr_id request)) (u 1) s1) (\<lambda>(job_id, s2).
           Inr (version', Some job_id, s2)))
      else if operation = ''reprocess''
      then bind_res (create_ingestion_job prin version ST_CHUNK job_max_attempts
               (Some (lr_id request)) (u 0) s) (\<lambda>(job_id, s1).
           Inr (version, Some job_id, s1))
      else if operation = ''delete'' \<and> lr_state request = RS_PENDING
      then bind_res (create_ingestion_job prin version ST_DELETE job_max_attempts
               (Some (lr_id request)) (u 0) s) (\<lambda>(job_id, s1).
           Inr (version, Some job_id, s1))
      else Inr (version, None, s))"

definition new_request ::
  "Principal \<Rightarrow> string \<Rightarrow> string \<Rightarrow> uuid \<Rightarrow> version_row \<Rightarrow> version_row \<Rightarrow> timestamp \<Rightarrow> request_row" where
  "new_request prin operation key request_id source version t =
     (let state = (if operation = ''cancel'' \<or> (operation = ''delete'' \<and> dv_state version = DELETED)
                   then RS_SUCCEEDED else RS_PENDING)
      in \<lparr>lr_id = request_id, lr_tenant_id = pr_tenant_id prin,
          lr_collection_id = dv_collection_id version, lr_document_version_id = dv_id version,
          lr_source_document_version_id = dv_id source, lr_request_type = operation,
          lr_idempotency_key = key, lr_requested_by = pr_subject prin, lr_state = state,
          lr_requested_at = t,
          lr_completed_at = (if state = RS_SUCCEEDED then Some t else None)\<rparr>)"

text \<open>The result has the request, the state of the version it is about, and the job to dispatch.\<close>

definition lifecycle_request ::
  "Principal \<Rightarrow> uuid \<Rightarrow> string \<Rightarrow> string \<Rightarrow> int \<Rightarrow> string option \<Rightarrow> (nat \<Rightarrow> uuid) \<Rightarrow> session
   \<Rightarrow> (request_row \<times> VersionState \<times> uuid option \<times> session) res" where
  "lifecycle_request prin version_id operation idempotency_key job_max_attempts pipeline_profile u s =
     bind_res (get_version prin version_id True s) (\<lambda>source.
     bind_res (idempotent_request s (pr_tenant_id prin) (dv_collection_id source) idempotency_key)
       (\<lambda>existing. case existing of
          Some (r, version_state) \<Rightarrow>
            if lr_source_document_version_id r \<noteq> version_id \<or> lr_request_type r \<noteq> operation
            then Inl (CatalogConflictError ''idempotency key was used for another request'')
            else Inr (r, version_state,
              (if lr_state r = RS_PENDING \<and> operation \<noteq> ''cancel''
               then latest_generation_job s (pr_tenant_id prin) (lr_document_version_id r)
                      (request_stage operation)
               else None), s)
        | None \<Rightarrow>
            if operation = ''delete'' \<and> has_active_deletion_job s (pr_tenant_id prin) version_id
            then Inl (CatalogConflictError ''deletion is already in progress'')
            else
              bind_res (if operation = ''reprocess''
                then (case pipeline_profile of
                   None \<Rightarrow> Inl (CatalogConflictError ''pipeline profile is required for reprocess'')
                 | Some profile \<Rightarrow>
                     create_reprocessed_version prin source profile (u 0) (\<lambda>n. u (n + 1)) s)
                else Inr (source, s)) (\<lambda>(version, s1).
              (let request = new_request prin operation idempotency_key (u 0) source version (now s)
               in bind_res (insert_request request s1) (\<lambda>s2.
                  bind_res (start_request prin operation job_max_attempts request version
                      (\<lambda>n. u (n + (if operation = ''reprocess'' then 3 else 1))) s2)
                    (\<lambda>(version', job_id, s3). Inr (request, dv_state version', job_id, s3)))))))"

section \<open>Completion of an upload\<close>

lemma insert_artifact_frame:
  assumes "insert_artifact r s = Inr s'"
  shows "\<exists>as. s' = s\<lparr>db_artifacts := as\<rparr> \<and> (\<exists>a \<in> set as. artifact_output a = artifact_output r)
    \<and> set (db_artifacts s) \<subseteq> set as"
  using insert_artifact_Inr [OF assms]
proof (elim disjE conjE)
  assume "artifact_output r \<in> artifact_output ` set (db_artifacts s)" "s' = s"
  then show ?thesis by (intro exI [of _ "db_artifacts s"]) (force simp: image_iff)
next
  assume "s' = s\<lparr>db_artifacts := db_artifacts s @ [r]\<rparr>"
  then show ?thesis by (intro exI [of _ "db_artifacts s @ [r]"]) auto
qed

text \<open>The valid upload: from the transition to \<open>validating\<close> on.\<close>

lemma queue_upload:
  assumes v1: "v1 \<in> set (db_versions s1)" "dv_id v1 = i" "dv_tenant_id v1 = pr_tenant_id prin"
    and ok: "version_keys_ok s1" "audit_ok s1"
    and ins: "insert_artifact (original_pdf_artifact prin i v1 aid t) s1 = Inr s2"
    and upd: "update_versions False (\<lambda>v. dv_tenant_id v = pr_tenant_id prin \<and> dv_id v = i)
               (\<lambda>v. v\<lparr>dv_detected_mime := Some ct\<rparr>) s2 = Inr (rows, s3)"
    and tr: "transition_catalog_version prin QUEUED ''advance'' None key eid v1 s3 = Inr (v4, s4)"
    and job: "create_ingestion_job prin v4 ST_PREFLIGHT ma None jid s4 = Inr (j, s5)"
  shows "audit_ok s5 \<and> version_keys_ok s5 \<and> v4 \<in> set (db_versions s5)
    \<and> db_memberships s5 = db_memberships s1
    \<and> v4 = v1\<lparr>dv_detected_mime := Some ct, dv_state := QUEUED,
          dv_state_revision := dv_state_revision v1 + 1, dv_terminal_reason_code := None,
          dv_updated_at := now s1\<rparr>
    \<and> (\<exists>a \<in> set (db_artifacts s5). artifact_scope a = version_scope v4
          \<and> af_artifact_type a = AT_ORIGINAL_PDF \<and> af_checksum_sha256 a = dv_content_sha256 v4)
    \<and> (\<exists>job. db_jobs s5 = db_jobs s1 @ [job] \<and> ij_id job = j \<and> ij_stage job = ST_PREFLIGHT
          \<and> ij_state job = JS_PENDING \<and> ij_attempt_count job = 0 \<and> ij_max_attempts job = ma
          \<and> job_scope job = version_scope v4
          \<and> (\<forall>k \<in> set (db_jobs s1). ij_tenant_id k = pr_tenant_id prin
               \<and> ij_document_version_id k = i \<and> ij_stage k = ST_PREFLIGHT
               \<longrightarrow> ij_generation k < ij_generation job))"
proof -
  let ?m = "v1\<lparr>dv_detected_mime := Some ct\<rparr>"
  from insert_artifact_frame [OF ins] obtain as where s2: "s2 = s1\<lparr>db_artifacts := as\<rparr>"
    and art: "\<exists>a \<in> set as. artifact_output a = artifact_output (original_pdf_artifact prin i v1 aid t)"
    by (elim exE conjE)
  have ok2: "version_keys_ok s2" "audit_ok s2"
    using ok s2 by (simp_all add: version_keys_ok_def audit_ok_def events_of_def version_exists_def)
  from update_versions_quiet [OF upd ok2] have ok3: "version_keys_ok s3" "audit_ok s3" by simp_all
  from upd have s3: "s3 = s2\<lparr>db_versions := update_rows (\<lambda>v. dv_tenant_id v = pr_tenant_id prin \<and> dv_id v = i)
       (\<lambda>v. v\<lparr>dv_detected_mime := Some ct\<rparr>) (db_versions s2)\<rparr>"
    by (simp add: update_versions_Inr)
  have m: "?m \<in> set (db_versions s3)"
    using v1 s2 s3 by (simp add: table_simps)
  have "transition_catalog_version prin QUEUED ''advance'' None key eid ?m s3 = Inr (v4, s4)"
    using tr transition_catalog_version_cong [of ?m v1] by (simp add: snapshot_of_def)
  from api_transition [OF this m ok3] obtain vs es where ok4: "audit_ok s4" "version_keys_ok s4"
    "v4 \<in> set (db_versions s4)" and v4: "v4 = ?m\<lparr>dv_state := QUEUED,
      dv_state_revision := dv_state_revision ?m + 1, dv_terminal_reason_code := None, dv_updated_at := now s3\<rparr>"
    and s4: "s4 = s3\<lparr>db_versions := vs, db_events := es\<rparr>"
    by (elim exE conjE)
  from create_ingestion_job_Inr [OF job] obtain jb where s5: "s5 = s4\<lparr>db_jobs := db_jobs s4 @ [jb]\<rparr>"
    and jb: "ij_id jb = j" "ij_stage jb = ST_PREFLIGHT" "ij_state jb = JS_PENDING"
      "ij_attempt_count jb = 0" "ij_max_attempts jb = ma"
      "job_scope jb = (pr_tenant_id prin, dv_collection_id v4, dv_id v4)"
      "\<forall>k \<in> set (db_jobs s4). ij_tenant_id k = pr_tenant_id prin \<and> ij_document_version_id k = dv_id v4
         \<and> ij_stage k = ST_PREFLIGHT \<longrightarrow> ij_generation k < ij_generation jb"
    by auto
  have frame: "db_jobs s4 = db_jobs s1" "db_artifacts s5 = as" "now s3 = now s1"
    "db_memberships s5 = db_memberships s1"
    using s2 s3 s4 s5 by simp_all
  have "\<exists>a \<in> set (db_artifacts s5). artifact_scope a = version_scope v4
          \<and> af_artifact_type a = AT_ORIGINAL_PDF \<and> af_checksum_sha256 a = dv_content_sha256 v4"
    using art v4 v1 by (auto simp: frame artifact_output_def original_pdf_artifact_def)
  moreover have "audit_ok s5" "version_keys_ok s5" "v4 \<in> set (db_versions s5)"
    using ok4 s5 by (simp_all add: version_keys_ok_def audit_ok_def events_of_def version_exists_def)
  moreover have "db_jobs s5 = db_jobs s1 @ [jb]"
    using s5 frame by simp
  ultimately show ?thesis
    using jb v4 v1 frame by (intro conjI exI [of _ jb]) simp_all
qed

lemma audit_ok_jobs:
  "audit_ok (s\<lparr>db_jobs := js\<rparr>) \<longleftrightarrow> audit_ok s" "audit_ok (s\<lparr>db_attempts := as\<rparr>) \<longleftrightarrow> audit_ok s"
  "audit_ok (s\<lparr>db_requests := rs\<rparr>) \<longleftrightarrow> audit_ok s" "audit_ok (s\<lparr>db_artifacts := fs\<rparr>) \<longleftrightarrow> audit_ok s"
  by (simp_all add: audit_ok_def events_of_def version_exists_def)

lemma latest_generation_job_max:
  assumes "j \<in> set (db_jobs s)" and "ij_tenant_id j = t \<and> ij_document_version_id j = v \<and> ij_stage j = stage"
    and "\<And>k. k \<in> set (db_jobs s) \<Longrightarrow> ij_tenant_id k = t \<Longrightarrow> ij_document_version_id k = v
      \<Longrightarrow> ij_stage k = stage \<Longrightarrow> k \<noteq> j \<Longrightarrow> ij_generation k < ij_generation j"
  shows "latest_generation_job s t v stage = Some (ij_id j)"
proof -
  let ?xs = "filter (\<lambda>j. ij_tenant_id j = t \<and> ij_document_version_id j = v \<and> ij_stage j = stage) (db_jobs s)"
  let ?ys = "sort_key (\<lambda>j. - ij_generation j) ?xs"
  have "j \<in> set ?ys" using assms(1,2) by simp
  then obtain h ys where ys: "?ys = h # ys" by (cases ?ys) auto
  then have "h \<in> set ?ys" by simp
  then have h: "h \<in> set ?xs" by (simp only: set_sort)
  have "sorted (map (\<lambda>j. - ij_generation j) ?ys)" by (rule sorted_sort_key)
  then have "ij_generation j \<le> ij_generation h"
    using \<open>j \<in> set ?ys\<close> unfolding ys by auto
  with h assms(3) [of h] have "h = j" by force
  with ys show ?thesis
    unfolding latest_generation_job_def by simp
qed

text \<open>The outcomes of a completed call.\<close>

definition upload_outcome ::
  "version_row \<Rightarrow> bool \<Rightarrow> string option \<Rightarrow> string \<Rightarrow> int \<Rightarrow> session \<Rightarrow> version_row \<Rightarrow> uuid option \<Rightarrow> session \<Rightarrow> bool" where
  "upload_outcome v0 valid reason ct ma s v job s' \<longleftrightarrow>
     (if dv_state v0 \<noteq> RECEIVED then v = v0 \<and> s' = s
      else if valid then
        v = v0\<lparr>dv_detected_mime := Some ct, dv_state := QUEUED,
             dv_state_revision := dv_state_revision v0 + 2, dv_terminal_reason_code := None,
             dv_updated_at := now s\<rparr>
        \<and> (\<exists>a \<in> set (db_artifacts s'). artifact_scope a = version_scope v
             \<and> af_artifact_type a = AT_ORIGINAL_PDF \<and> af_checksum_sha256 a = dv_content_sha256 v)
        \<and> (\<exists>j. db_jobs s' = db_jobs s @ [j] \<and> job = Some (ij_id j) \<and> ij_stage j = ST_PREFLIGHT
             \<and> ij_state j = JS_PENDING \<and> ij_attempt_count j = 0 \<and> ij_max_attempts j = ma
             \<and> job_scope j = version_scope v
             \<and> (\<forall>k \<in> set (db_jobs s). ij_tenant_id k = dv_tenant_id v
                  \<and> ij_document_version_id k = dv_id v \<and> ij_stage k = ST_PREFLIGHT
                  \<longrightarrow> ij_generation k < ij_generation j))
      else v = v0\<lparr>dv_state := REJECTED, dv_state_revision := dv_state_revision v0 + 2,
             dv_terminal_reason_code := reason, dv_updated_at := now s\<rparr>
        \<and> reason \<noteq> None \<and> job = None \<and> db_jobs s' = db_jobs s)"

lemma complete_upload_outcome:
  assumes "complete_upload prin i valid reason ct ma u s = Inr (v, job, s')"
    and keys: "version_keys_ok s" "membership_keys_ok s" and "audit_ok s"
  shows "\<exists>v0. get_version prin i True s = Inr v0 \<and> upload_outcome v0 valid reason ct ma s v job s'
    \<and> audit_ok s' \<and> version_keys_ok s' \<and> v \<in> set (db_versions s')
    \<and> db_memberships s' = db_memberships s"
proof -
  from assms(1) obtain v0 where v0: "get_version prin i True s = Inr v0"
    unfolding complete_upload_def by (auto elim!: bind_res_InrE)
  then have st: "v0 \<in> set (db_versions s)" "dv_id v0 = i" "dv_tenant_id v0 = pr_tenant_id prin"
    using get_version_Inr [OF keys] by simp_all
  show ?thesis
  proof (cases "dv_state v0 = RECEIVED")
    case False
    with assms v0 st show ?thesis
      unfolding complete_upload_def v0 by (simp add: upload_outcome_def)
  next
    case True
    from assms(1) obtain v1 s1 where t1: "transition_catalog_version prin VALIDATING ''advance'' None
        ''complete-upload:validating'' (u 0) v0 s = Inr (v1, s1)"
      unfolding complete_upload_def v0 using True by (auto elim!: bind_res_InrE)
    from api_transition [OF t1 st(1) keys(1) assms(4)] obtain vs es where ok1: "audit_ok s1"
      "version_keys_ok s1" "v1 \<in> set (db_versions s1)" and v1: "v1 = v0\<lparr>dv_state := VALIDATING,
        dv_state_revision := dv_state_revision v0 + 1, dv_terminal_reason_code := None, dv_updated_at := now s\<rparr>"
      and s1: "s1 = s\<lparr>db_versions := vs, db_events := es\<rparr>"
      by (elim exE conjE)
    show ?thesis
    proof (cases valid)
      case False
      with assms(1) True obtain s2 where t2: "transition_catalog_version prin REJECTED ''advance'' reason
          ''complete-upload:rejected'' (u 1) v1 s1 = Inr (v, s2)" "job = None" "s' = s2"
        unfolding complete_upload_def v0 by (auto simp: t1 elim!: bind_res_InrE)
      from transition_catalog_version_Inr [OF t2(1)] have "reason \<noteq> None"
        by (auto simp: transition_version_Inr transition_accepts_def failure_states_def)
      moreover from api_transition [OF t2(1) ok1(3,2,1)] obtain vs es where "audit_ok s'"
        "version_keys_ok s'" "v \<in> set (db_versions s')" "v = v1\<lparr>dv_state := REJECTED,
        dv_state_revision := dv_state_revision v1 + 1, dv_terminal_reason_code := reason, dv_updated_at := now s1\<rparr>"
        and "s' = s1\<lparr>db_versions := vs, db_events := es\<rparr>"
        unfolding t2(3) by (elim exE conjE)
      ultimately show ?thesis
        using True False v0 v1 s1 t2(2) by (simp add: upload_outcome_def)
    next
      case valid: True
      with assms(1) True obtain s2 s3 s4 rows j where
        ins: "insert_artifact (original_pdf_artifact prin i v1 (u 1) (now s1)) s1 = Inr s2"
        and upd: "update_versions False (\<lambda>v. dv_tenant_id v = pr_tenant_id prin \<and> dv_id v = i)
               (\<lambda>v. v\<lparr>dv_detected_mime := Some ct\<rparr>) s2 = Inr (rows, s3)"
        and tr: "transition_catalog_version prin QUEUED ''advance'' None ''complete-upload:queued'' (u 2) v1 s3
          = Inr (v, s4)"
        and jb: "create_ingestion_job prin v ST_PREFLIGHT ma None (u 3) s4 = Inr (j, s')" "job = Some j"
        unfolding complete_upload_def v0 by (auto simp: t1 elim!: bind_res_InrE)
      have "dv_id v1 = i" "dv_tenant_id v1 = pr_tenant_id prin" using v1 st by simp_all
      note q = queue_upload [OF ok1(3) this ok1(2,1) ins upd tr jb(1)]
      then have v: "v = v1\<lparr>dv_detected_mime := Some ct, dv_state := QUEUED,
          dv_state_revision := dv_state_revision v1 + 1, dv_terminal_reason_code := None,
          dv_updated_at := now s1\<rparr>" by (elim conjE)
      from v v1 s1 have "v = v0\<lparr>dv_detected_mime := Some ct, dv_state := QUEUED,
          dv_state_revision := dv_state_revision v0 + 2, dv_terminal_reason_code := None,
          dv_updated_at := now s\<rparr>" by simp
      moreover have "db_jobs s1 = db_jobs s" "db_memberships s1 = db_memberships s"
        "dv_tenant_id v = pr_tenant_id prin" "dv_id v = i"
        using s1 v v1 st by simp_all
      ultimately show ?thesis
        using q True valid v0 jb(2) unfolding upload_outcome_def
        by (intro exI [of _ v0]) (elim conjE exE, simp)
    qed
  qed
qed

text \<open>A successful completion moves a received version in exactly two recorded transitions,
  to \<open>queued\<close> with its original artifact stored and one fresh pending preflight job, or, for
  an invalid upload, to \<open>rejected\<close> with a reason and no job; any other version is returned as it
  is and nothing changes. The audit trail and the keys hold afterwards.\<close>

theorem complete_upload_effect:
  assumes "complete_upload prin i valid reason ct ma u s = Inr (v, job, s')"
    and "version_keys_ok s" "membership_keys_ok s" and "audit_ok s"
  shows "\<exists>v0 \<in> set (db_versions s). dv_id v0 = i \<and> may_access prin (dv_collection_id v0) True s
    \<and> upload_outcome v0 valid reason ct ma s v job s'
    \<and> audit_ok s' \<and> version_keys_ok s' \<and> v \<in> set (db_versions s')"
proof -
  from complete_upload_outcome [OF assms] obtain v0 where v0: "get_version prin i True s = Inr v0"
    and r: "upload_outcome v0 valid reason ct ma s v job s'" "audit_ok s'" "version_keys_ok s'"
      "v \<in> set (db_versions s')"
    by (elim exE conjE)
  from v0 have "v0 \<in> set (db_versions s)" "dv_id v0 = i" "may_access prin (dv_collection_id v0) True s"
    unfolding get_version_Inr [OF assms(2,3)] by simp_all
  with r show ?thesis by (intro bexI [of _ v0] conjI)
qed

text \<open>Completion of an upload is idempotent: after a successful completion that queued the
  version, every further call by the caller, whatever it reports about the object, returns the
  same version and the same job and leaves the database as it is.\<close>

theorem complete_upload_idempotent:
  assumes "complete_upload prin i valid reason ct ma u s = Inr (v, Some j, s')"
    and "dv_state v = QUEUED" and "get_version prin i True s = Inr v0" and "dv_state v0 = RECEIVED"
    and "version_keys_ok s" "membership_keys_ok s" and "audit_ok s"
  shows "complete_upload prin i valid' reason' ct' ma' u' s' = Inr (v, Some j, s')"
proof -
  from complete_upload_outcome [OF assms(1,5-7)] have out: "upload_outcome v0 valid reason ct ma s v (Some j) s'"
    and s': "version_keys_ok s'" "v \<in> set (db_versions s')" "db_memberships s' = db_memberships s"
    unfolding assms(3) by auto
  have st: "dv_id v0 = i" "dv_tenant_id v0 = pr_tenant_id prin" "may_access prin (dv_collection_id v0) True s"
    using assms(3) unfolding get_version_Inr [OF assms(5,6)] by simp_all
  from out assms(2,4) have valid: valid and v: "version_scope v = version_scope v0"
    by (auto simp: upload_outcome_def split: if_splits)
  from out valid assms(4) obtain jb where jb: "db_jobs s' = db_jobs s @ [jb]" "j = ij_id jb"
    "ij_stage jb = ST_PREFLIGHT" "job_scope jb = version_scope v"
    "\<forall>k \<in> set (db_jobs s). ij_tenant_id k = dv_tenant_id v \<and> ij_document_version_id k = dv_id v
       \<and> ij_stage k = ST_PREFLIGHT \<longrightarrow> ij_generation k < ij_generation jb"
    unfolding upload_outcome_def by auto
  have "latest_generation_job s' (pr_tenant_id prin) i ST_PREFLIGHT = Some (ij_id jb)"
    using jb st v by (intro latest_generation_job_max) auto
  moreover have "membership_keys_ok s'" "may_access prin (dv_collection_id v) True s'"
    using assms(6) s' st v by (simp_all add: membership_keys_ok_def may_access_def)
  then have "get_version prin i True s' = Inr v"
    using s' st v unfolding get_version_Inr [OF s'(1) \<open>membership_keys_ok s'\<close>] by simp
  ultimately show ?thesis
    using assms(2) jb(2) unfolding complete_upload_def by simp
qed

definition queued_version :: version_row where
  "queued_version = sample_version\<lparr>dv_detected_mime := Some ''application/pdf'', dv_state := QUEUED,
     dv_state_revision := 2\<rparr>"

definition queued_session :: session where
  "queued_session = registered_session\<lparr>db_versions := [queued_version],
     db_artifacts := [original_pdf_artifact sample_principal 4 sample_version 21 10],
     db_jobs := [new_job 23 (1, 2, 4) ST_PREFLIGHT 0 3 None 10],
     db_events := [
       \<lparr>ev_id = 20, ev_tenant_id = 1, ev_collection_id = 2, ev_document_version_id = 4,
        ev_idempotency_key = ''complete-upload:validating'', ev_from_state = RECEIVED,
        ev_to_state = VALIDATING, ev_from_revision = 0, ev_to_revision = 1, ev_operation = ''advance'',
        ev_actor_type = ''api'', ev_actor_id = ''alice''\<rparr>,
       \<lparr>ev_id = 22, ev_tenant_id = 1, ev_collection_id = 2, ev_document_version_id = 4,
        ev_idempotency_key = ''complete-upload:queued'', ev_from_state = VALIDATING,
        ev_to_state = QUEUED, ev_from_revision = 1, ev_to_revision = 2, ev_operation = ''advance'',
        ev_actor_type = ''api'', ev_actor_id = ''alice''\<rparr>]\<rparr>"

lemmas statement_defs = insert_document_def insert_version_def insert_event_def insert_artifact_def
  insert_job_def insert_request_def insert_attempt_def update_versions_def update_jobs_def
  update_attempts_def update_requests_def version_update_ok_def protect_document_version_identity_def
  version_identity_def enforce_reprocessing_lineage_def version_checks_def job_checks_def
  event_checks_def request_checks_def attempt_checks_def artifact_checks_def version_exists_def
  request_exists_def job_exists_def check_all.simps failure_states_def active_delete_job_def
  active_deletes_unique_def active_job_state_def event_revision_def event_idempotency_def
  job_delivery_def request_idempotency_def attempt_key_def

lemma sample_completion:
  "complete_upload sample_principal 4 True None ''application/pdf'' 3
     (\<lambda>n. word_of_nat (n + 20)) registered_session = Inr (queued_version, Some 23, queued_session)"
  by (simp add: complete_upload_def get_version_def member_of_def editor_role_def
      transition_catalog_version_def transition_version_def snapshot_of_def validate_progress_def
      validate_operation_def operation_allowed_def validate_terminal_reason_def TERMINAL_STATES_def
      statement_defs original_pdf_artifact_def queued_session_def queued_version_def sample_defs
      create_ingestion_job_def new_job_def coalesce_max_def Let_def raise_if_def)

lemma registered_session_ok:
  "version_keys_ok registered_session \<and> membership_keys_ok registered_session \<and> audit_ok registered_session"
  by (simp add: sample_defs version_keys_ok_def membership_keys_ok_def audit_ok_def events_of_def)

theorem complete_upload_effect_witness:
  "audit_ok queued_session \<and> queued_version \<in> set (db_versions queued_session)"
  using complete_upload_effect [OF sample_completion] registered_session_ok by blast

theorem complete_upload_idempotent_witness:
  "complete_upload sample_principal 4 False None ''x'' 9 (\<lambda>n. 99) queued_session
     = Inr (queued_version, Some 23, queued_session)"
proof -
  have "get_version sample_principal 4 True registered_session = Inr sample_version"
    by (simp add: get_version_def member_of_def editor_role_def sample_defs)
  moreover have "dv_state sample_version = RECEIVED" "dv_state queued_version = QUEUED"
    by (simp_all add: sample_version_def queued_version_def)
  ultimately show ?thesis
    using complete_upload_idempotent [OF sample_completion] registered_session_ok by simp
qed

section \<open>Lifecycle requests\<close>

lemma new_job_fields [simp]:
  "ij_id (new_job i k st g m r t) = i" "job_scope (new_job i k st g m r t) = k"
  by (cases k, simp_all add: new_job_def)+

lemma cancel_active_jobs_Inr:
  assumes "cancel_active_jobs t v s = Inr s'"
  shows "\<exists>js as. s' = s\<lparr>db_jobs := js, db_attempts := as\<rparr> \<and> map ij_id js = map ij_id (db_jobs s)
    \<and> (\<forall>j \<in> set js. ij_tenant_id j = t \<and> ij_document_version_id j = v \<longrightarrow> terminal_job_state (ij_state j))"
proof -
  let ?live = "\<lambda>j. ij_tenant_id j = t \<and> ij_document_version_id j = v
             \<and> ij_state j \<in> {JS_PENDING, JS_LEASED, JS_RUNNING, JS_RETRY_SCHEDULED}"
  let ?f = "\<lambda>j. j\<lparr>ij_state := JS_CANCELLED, ij_lease_owner := None, ij_lease_expires_at := None,
                  ij_updated_at := now s\<rparr>"
  from assms obtain s1 p f where s1: "update_jobs ?live ?f s = Inr s1" and s': "update_attempts p f s1 = Inr s'"
    unfolding cancel_active_jobs_def Let_def by (elim bind_res_InrE)
  from s1 have "s1 = s\<lparr>db_jobs := update_rows ?live ?f (db_jobs s)\<rparr>"
    unfolding update_jobs_Inr by (elim conjE)
  moreover from s' obtain as where "s' = s1\<lparr>db_attempts := as\<rparr>"
    unfolding update_attempts_Inr by (elim conjE)
  ultimately have "s' = s\<lparr>db_jobs := update_rows ?live ?f (db_jobs s), db_attempts := as\<rparr>" by simp
  moreover have "map ij_id (update_rows ?live ?f (db_jobs s)) = map ij_id (db_jobs s)"
    by (rule map_update_rows) simp
  moreover have "terminal_job_state (ij_state j)" if "j \<in> set (update_rows ?live ?f (db_jobs s))"
    "ij_tenant_id j = t" "ij_document_version_id j = v" for j
  proof -
    from that(1) obtain k where "k \<in> set (db_jobs s)" and j: "j = (if ?live k then ?f k else k)"
      unfolding update_rows_def set_map by (elim imageE)
    show ?thesis
    proof (cases "?live k")
      case True
      then show ?thesis using j by (simp add: terminal_job_state_def)
    next
      case False
      with j have "j = k" by (simp only: if_False)
      with False that(2,3) have "ij_state j \<notin> {JS_PENDING, JS_LEASED, JS_RUNNING, JS_RETRY_SCHEDULED}"
        by blast
      then show ?thesis by (cases "ij_state j") (simp_all add: terminal_job_state_def)
    qed
  qed
  ultimately show ?thesis
    by (intro exI [of _ "update_rows ?live ?f (db_jobs s)"] exI [of _ as] conjI) simp_all
qed

text \<open>A reprocessed version starts its own trail at revision 1.\<close>

lemma create_reprocessed_version_Inr:
  assumes "create_reprocessed_version prin source profile rid u s = Inr (row, s')"
  shows "dv_state source \<in> REPROCESSABLE_STATES \<and> dv_pipeline_profile source \<noteq> profile
    \<and> \<not> deletion_in_progress s (pr_tenant_id prin) (dv_collection_id source) (dv_id source)
    \<and> \<not> active_descendant s (pr_tenant_id prin) (dv_collection_id source) (dv_id source)
    \<and> normalized_exists s (pr_tenant_id prin) (dv_collection_id source) (dv_id source)
    \<and> version_scope row = (pr_tenant_id prin, dv_collection_id source, u 0)
    \<and> dv_document_id row = dv_document_id source
    \<and> dv_version_number row = coalesce_max 0 (document_numbers s (pr_tenant_id prin)
          (dv_collection_id source) (dv_document_id source)) + 1
    \<and> dv_content_sha256 row = dv_content_sha256 source \<and> dv_pipeline_profile row = profile
    \<and> dv_state row = CHUNKING \<and> dv_state_revision row = 1
    \<and> dv_reprocessed_from_version_id row = Some (dv_id source)
    \<and> (\<exists>s1 e. insert_version row s = Inr s1 \<and> insert_event e s1 = Inr s'
         \<and> event_scope e = version_scope row \<and> ev_to_state e = CHUNKING \<and> ev_from_revision e = 0
         \<and> ev_to_revision e = 1)"
proof -
  from assms obtain x where "validate_reprocessing_source (dv_state source) = Inr x"
    unfolding create_reprocessed_version_def by (cases "validate_reprocessing_source (dv_state source)") auto
  then show ?thesis
    using assms unfolding create_reprocessed_version_def Let_def
    by (auto simp: validate_reprocessing_source_def elim!: bind_res_InrE split: if_splits)
       (intro exI conjI, assumption, simp_all)
qed

lemma create_reprocessed_version_ok:
  assumes "create_reprocessed_version prin source profile rid u s = Inr (row, s')"
    and "version_keys_ok s" and "audit_ok s"
  shows "audit_ok s' \<and> version_keys_ok s' \<and> row \<in> set (db_versions s')
    \<and> (\<exists>e. s' = s\<lparr>db_versions := db_versions s @ [row], db_events := db_events s @ [e]\<rparr>)"
proof -
  from create_reprocessed_version_Inr [OF assms(1)] obtain s1 e where ins: "insert_version row s = Inr s1"
    "insert_event e s1 = Inr s'" and e: "event_scope e = version_scope row" "ev_to_state e = CHUNKING"
      "ev_from_revision e = 0" "ev_to_revision e = 1"
    and row: "dv_state row = CHUNKING" "dv_state_revision row = 1"
    by (elim exE conjE)
  from insert_version_Inr [OF ins(1)] have s1: "s1 = s\<lparr>db_versions := db_versions s @ [row]\<rparr>"
    and new: "dv_id row \<notin> dv_id ` set (db_versions s)" by simp_all
  from insert_event_Inr [OF ins(2)] s1 have s': "s' = s\<lparr>db_versions := db_versions s @ [row],
      db_events := db_events s @ [e]\<rparr>" by simp
  have none: "events_of s (version_scope row) = []"
    using no_events_without_version [OF assms(3) new] .
  have "audit_trail (events_of s' (version_scope v)) (dv_state_revision v) (dv_state v)"
    if "v \<in> set (db_versions s')" for v
  proof (cases "v = row")
    case True
    with none s' e row show ?thesis by (simp add: events_of_def audit_trail_def)
  next
    case False
    with that s' have "v \<in> set (db_versions s)" by simp
    moreover from this have "version_scope v \<noteq> event_scope e" using new e by (metis imageI prod.inject)
    ultimately show ?thesis using assms(3) s' by (auto simp: audit_ok_def events_of_def)
  qed
  moreover have "version_exists s' k" if "version_exists s k \<or> k = version_scope row" for k
    using that s' by (auto simp: version_exists_def)
  ultimately have "audit_ok s'"
    using assms(3) s' e unfolding audit_ok_def by auto
  then show ?thesis
    using assms(2) new s' by (auto simp: version_keys_ok_def)
qed

lemma create_job_frame:
  assumes "create_ingestion_job prin v stage ma req i s = Inr (j, s')"
  shows "\<exists>job. s' = s\<lparr>db_jobs := db_jobs s @ [job]\<rparr> \<and> ij_id job = j \<and> ij_stage job = stage
    \<and> ij_state job = JS_PENDING \<and> job_scope job = (pr_tenant_id prin, dv_collection_id v, dv_id v)
    \<and> ij_lifecycle_request_id job = req
    \<and> latest_generation_job s' (pr_tenant_id prin) (dv_id v) stage = Some j"
proof -
  from create_ingestion_job_Inr [OF assms] obtain job where job: "s' = s\<lparr>db_jobs := db_jobs s @ [job]\<rparr>"
    "j = i" "ij_id job = i" "ij_stage job = stage" "ij_state job = JS_PENDING"
    "job_scope job = (pr_tenant_id prin, dv_collection_id v, dv_id v)" "ij_lifecycle_request_id job = req"
    and gen: "\<forall>k \<in> set (db_jobs s). ij_tenant_id k = pr_tenant_id prin \<and> ij_document_version_id k = dv_id v
         \<and> ij_stage k = stage \<longrightarrow> ij_generation k < ij_generation job"
    by (elim exE conjE)
  have "latest_generation_job s' (pr_tenant_id prin) (dv_id v) stage = Some (ij_id job)"
    using job gen by (intro latest_generation_job_max) auto
  with job show ?thesis by auto
qed

text \<open>What starting a request did.\<close>

definition request_started ::
  "Principal \<Rightarrow> string \<Rightarrow> request_row \<Rightarrow> version_row \<Rightarrow> session \<Rightarrow> version_row \<Rightarrow> uuid option \<Rightarrow> session \<Rightarrow> bool" where
  "request_started prin operation r v s v' job s' \<longleftrightarrow>
     (if operation = ''cancel'' then
        dv_state v' = CANCELLED \<and> job = None
        \<and> (\<forall>j \<in> set (db_jobs s'). ij_tenant_id j = pr_tenant_id prin \<and> ij_document_version_id j = dv_id v
             \<longrightarrow> terminal_job_state (ij_state j))
      else if operation \<in> {''retry'', ''reprocess''} \<or> operation = ''delete'' \<and> lr_state r = RS_PENDING then
        dv_state v' = (if operation = ''retry'' then QUEUED else dv_state v)
        \<and> (operation = ''retry'' \<longrightarrow> dv_state v = FAILED)
        \<and> (\<exists>j. db_jobs s' = db_jobs s @ [j] \<and> job = Some (ij_id j) \<and> ij_stage j = request_stage operation
             \<and> ij_state j = JS_PENDING \<and> job_scope j = (pr_tenant_id prin, dv_collection_id v, dv_id v)
             \<and> ij_lifecycle_request_id j = Some (lr_id r)
             \<and> latest_generation_job s' (pr_tenant_id prin) (dv_id v) (request_stage operation) = job)
      else v' = v \<and> job = None \<and> s' = s)"

lemma retry_only_failed: "operation_allowed a QUEUED ''retry'' = Some True \<Longrightarrow> a = FAILED"
  by (simp add: operation_allowed_def)

lemma start_request_ok:
  assumes "start_request prin operation ma r v u s = Inr (v', job, s')"
    and v: "v \<in> set (db_versions s)" and ok: "version_keys_ok s" "audit_ok s"
  shows "audit_ok s' \<and> version_keys_ok s' \<and> v' \<in> set (db_versions s') \<and> version_scope v' = version_scope v
    \<and> version_identity v' = version_identity v
    \<and> request_started prin operation r v s v' job s'
    \<and> db_requests s' = db_requests s \<and> db_memberships s' = db_memberships s
    \<and> map version_scope (db_versions s') = map version_scope (db_versions s)"
proof -
  consider (cancel) "operation = ''cancel''" | (retry) "operation = ''retry''"
    | (job) "operation = ''reprocess'' \<or> operation = ''delete'' \<and> lr_state r = RS_PENDING"
    | (none) "operation \<notin> {''cancel'', ''retry'', ''reprocess''}" "\<not> (operation = ''delete'' \<and> lr_state r = RS_PENDING)"
    by blast
  then show ?thesis
  proof cases
    case cancel
    with assms(1) obtain s1 eid key where t: "transition_catalog_version prin CANCELLED ''cancel'' None key eid v s = Inr (v', s1)"
      and c: "cancel_active_jobs (pr_tenant_id prin) (dv_id v') s1 = Inr s'" and "job = None"
      by (auto simp: start_request_def Let_def elim!: bind_res_InrE)
    from api_transition [OF t v ok] obtain vs es where ok1: "audit_ok s1" "version_keys_ok s1"
      "v' \<in> set (db_versions s1)" and v': "v' = v\<lparr>dv_state := CANCELLED, dv_state_revision := dv_state_revision v + 1,
            dv_terminal_reason_code := None, dv_updated_at := now s\<rparr>"
      and s1: "s1 = s\<lparr>db_versions := vs, db_events := es\<rparr>"
      and scopes: "map version_scope (db_versions s1) = map version_scope (db_versions s)"
      by (elim exE conjE)
    from cancel_active_jobs_Inr [OF c] obtain js as where s': "s' = s1\<lparr>db_jobs := js, db_attempts := as\<rparr>"
      and js: "\<forall>j \<in> set js. ij_tenant_id j = pr_tenant_id prin \<and> ij_document_version_id j = dv_id v'
        \<longrightarrow> terminal_job_state (ij_state j)"
      by (elim exE conjE)
    have "audit_ok s'" "version_keys_ok s'" "v' \<in> set (db_versions s')"
      using ok1 s' by (simp_all add: audit_ok_jobs version_keys_ok_def)
    then show ?thesis
      using cancel js v' s' s1 scopes \<open>job = None\<close>
      by (auto simp: request_started_def version_identity_def)
  next
    case retry
    with assms(1) obtain s1 j eid jid key where t: "transition_catalog_version prin QUEUED ''retry'' None key eid v s = Inr (v', s1)"
      and c: "create_ingestion_job prin v' ST_PREFLIGHT ma (Some (lr_id r)) jid s1 = Inr (j, s')" and "job = Some j"
      by (auto simp: start_request_def Let_def elim!: bind_res_InrE)
    from api_transition [OF t v ok] obtain vs es where ok1: "audit_ok s1" "version_keys_ok s1"
      "v' \<in> set (db_versions s1)" and v': "v' = v\<lparr>dv_state := QUEUED, dv_state_revision := dv_state_revision v + 1,
            dv_terminal_reason_code := None, dv_updated_at := now s\<rparr>"
      and s1: "s1 = s\<lparr>db_versions := vs, db_events := es\<rparr>"
      and scopes: "map version_scope (db_versions s1) = map version_scope (db_versions s)"
      and "operation_allowed (dv_state v) QUEUED ''retry'' = Some True"
      by (elim exE conjE)
    then have failed: "dv_state v = FAILED" by (intro retry_only_failed)
    from create_job_frame [OF c] obtain jb where s': "s' = s1\<lparr>db_jobs := db_jobs s1 @ [jb]\<rparr>"
      and jb: "ij_id jb = j" "ij_stage jb = ST_PREFLIGHT" "ij_state jb = JS_PENDING"
        "job_scope jb = (pr_tenant_id prin, dv_collection_id v', dv_id v')"
        "ij_lifecycle_request_id jb = Some (lr_id r)"
        "latest_generation_job s' (pr_tenant_id prin) (dv_id v') ST_PREFLIGHT = Some j"
      by (elim exE conjE)
    have "audit_ok s'" "version_keys_ok s'" "v' \<in> set (db_versions s')"
      using ok1 s' by (simp_all add: audit_ok_jobs version_keys_ok_def)
    then show ?thesis
      using retry jb v' s' s1 scopes \<open>job = Some j\<close> failed
      by (auto simp: request_started_def version_identity_def request_stage_def)
  next
    case job
    with assms(1) obtain j jid where c: "create_ingestion_job prin v (request_stage operation) ma (Some (lr_id r)) jid s = Inr (j, s')"
      and "job = Some j" "v' = v"
      by (auto simp: start_request_def request_stage_def Let_def elim!: bind_res_InrE)
    from create_job_frame [OF c] obtain jb where s': "s' = s\<lparr>db_jobs := db_jobs s @ [jb]\<rparr>"
      and jb: "ij_id jb = j" "ij_stage jb = request_stage operation" "ij_state jb = JS_PENDING"
        "job_scope jb = (pr_tenant_id prin, dv_collection_id v, dv_id v)"
        "ij_lifecycle_request_id jb = Some (lr_id r)"
        "latest_generation_job s' (pr_tenant_id prin) (dv_id v) (request_stage operation) = Some j"
      by (elim exE conjE)
    have "audit_ok s'" "version_keys_ok s'" "v' \<in> set (db_versions s')"
      using ok v s' \<open>v' = v\<close> by (simp_all add: audit_ok_jobs version_keys_ok_def)
    then show ?thesis
      using job jb s' \<open>job = Some j\<close> \<open>v' = v\<close> by (auto simp: request_started_def)
  next
    case none
    with assms(1) have "v' = v" "job = None" "s' = s"
      by (auto simp: start_request_def Let_def)
    then show ?thesis
      using none v ok by (auto simp: request_started_def)
  qed
qed

lemma lifecycle_request_cases:
  assumes "lifecycle_request prin i operation key ma profile u s = Inr (r, st, job, s')"
  obtains (replay) source where "get_version prin i True s = Inr source"
      "idempotent_request s (pr_tenant_id prin) (dv_collection_id source) key = Inr (Some (r, st))"
      "lr_source_document_version_id r = i" "lr_request_type r = operation" "s' = s"
      "job = (if lr_state r = RS_PENDING \<and> operation \<noteq> ''cancel''
         then latest_generation_job s (pr_tenant_id prin) (lr_document_version_id r) (request_stage operation)
         else None)"
    | (started) source version s1 s2 v' u' where "get_version prin i True s = Inr source"
      "idempotent_request s (pr_tenant_id prin) (dv_collection_id source) key = Inr None"
      "operation = ''delete'' \<longrightarrow> \<not> has_active_deletion_job s (pr_tenant_id prin) i"
      "if operation = ''reprocess''
       then \<exists>pf u'. profile = Some pf
          \<and> create_reprocessed_version prin source pf (u 0) u' s = Inr (version, s1)
       else version = source \<and> s1 = s"
      "r = new_request prin operation key (u 0) source version (now s)"
      "insert_request r s1 = Inr s2"
      "start_request prin operation ma r version u' s2 = Inr (v', job, s')" "st = dv_state v'"
proof -
  from assms obtain source where src: "get_version prin i True s = Inr source"
    unfolding lifecycle_request_def by (elim bind_res_InrE)
  note a1 = assms [unfolded lifecycle_request_def src bind_res_Inr]
  from a1 obtain ex where ex: "idempotent_request s (pr_tenant_id prin) (dv_collection_id source) key = Inr ex"
    by (elim bind_res_InrE)
  note a2 = a1 [unfolded ex bind_res_Inr]
  show thesis
  proof (cases ex)
    case (Some e)
    with a2 src ex show ?thesis
      by (cases e) (auto intro!: replay [OF src] split: if_splits)
  next
    case None
    note a3 = a2 [unfolded None option.case]
    then have del: "operation = ''delete'' \<longrightarrow> \<not> has_active_deletion_job s (pr_tenant_id prin) i"
      by (auto split: if_splits)
    have "\<not> (operation = ''delete'' \<and> has_active_deletion_job s (pr_tenant_id prin) i)"
      using del by blast
    note a4 = a3 [unfolded if_not_P [OF this]]
    from a4 obtain version s1 where v: "(if operation = ''reprocess''
        then (case profile of None \<Rightarrow> Inl (CatalogConflictError ''pipeline profile is required for reprocess'')
              | Some pf \<Rightarrow> create_reprocessed_version prin source pf (u 0) (\<lambda>n. u (n + 1)) s)
        else Inr (source, s)) = Inr (version, s1)"
      by (auto elim!: bind_res_InrE)
    let ?r = "new_request prin operation key (u 0) source version (now s)"
    note a5 = a4 [unfolded v bind_res_Inr prod.case Let_def]
    from a5 obtain s2 v' where "insert_request ?r s1 = Inr s2" "r = ?r" "st = dv_state v'"
      and "start_request prin operation ma ?r version
          (\<lambda>n. u (n + (if operation = ''reprocess'' then 3 else 1))) s2 = Inr (v', job, s')"
      by (auto elim!: bind_res_InrE)
    then show ?thesis
      using v by (intro started [OF src ex [unfolded None] del, of version s1 s2])
        (auto split: if_splits option.splits)
  qed
qed

text \<open>The version a started request works on, in the session after its row is stored.\<close>

lemma started_version:
  assumes "version_keys_ok s" "membership_keys_ok s" "audit_ok s"
    and src: "get_version prin i True s = Inr source"
    and ver: "if operation = ''reprocess''
       then \<exists>pf u'. profile = Some pf
          \<and> create_reprocessed_version prin source pf rid u' s = Inr (version, s1)
       else version = source \<and> s1 = s"
    and ins: "insert_request r s1 = Inr s2"
  shows "version \<in> set (db_versions s2) \<and> version_keys_ok s2 \<and> audit_ok s2
    \<and> source \<in> set (db_versions s2) \<and> db_memberships s2 = db_memberships s
    \<and> db_requests s2 = db_requests s @ [r] \<and> dv_tenant_id version = pr_tenant_id prin
    \<and> dv_collection_id version = dv_collection_id source
    \<and> request_idempotency r \<notin> request_idempotency ` set (db_requests s)
    \<and> set (db_versions s) \<subseteq> set (db_versions s2)
    \<and> db_jobs s2 = db_jobs s"
proof -
  have src': "source \<in> set (db_versions s)" "dv_tenant_id source = pr_tenant_id prin"
    using src unfolding get_version_Inr [OF assms(1,2)] by simp_all
  from insert_request_Inr [OF ins] have s2: "s2 = s1\<lparr>db_requests := db_requests s1 @ [r]\<rparr>"
    and new: "request_idempotency r \<notin> request_idempotency ` set (db_requests s1)" by simp_all
  show ?thesis
  proof (cases "operation = ''reprocess''")
    case True
    with ver obtain pf u' where c: "create_reprocessed_version prin source pf rid u' s = Inr (version, s1)"
      by auto
    from create_reprocessed_version_ok [OF c assms(1,3)] obtain e where
      ok: "audit_ok s1" "version_keys_ok s1" "version \<in> set (db_versions s1)"
      and s1: "s1 = s\<lparr>db_versions := db_versions s @ [version], db_events := db_events s @ [e]\<rparr>"
      by (elim exE conjE)
    moreover from create_reprocessed_version_Inr [OF c] have
      "version_scope version = (pr_tenant_id prin, dv_collection_id source, u' 0)" by (elim conjE)
    ultimately show ?thesis
      using src' s2 new by (auto simp: audit_ok_jobs version_keys_ok_def)
  next
    case False
    then show ?thesis
      using ver src' s2 new assms(1,3) by (auto simp: audit_ok_jobs version_keys_ok_def)
  qed
qed

lemma insert_request_type:
  "insert_request r s = Inr s' \<Longrightarrow> lr_request_type r \<in> {''retry'', ''reprocess'', ''cancel'', ''delete''}"
  by (auto simp: insert_request_def bind_res_eq_Inr check_all_Inr request_checks_def)

lemma new_request_fields [simp]:
  "lr_id (new_request prin operation key rid source version t) = rid"
  "lr_tenant_id (new_request prin operation key rid source version t) = pr_tenant_id prin"
  "lr_collection_id (new_request prin operation key rid source version t) = dv_collection_id version"
  "lr_document_version_id (new_request prin operation key rid source version t) = dv_id version"
  "lr_source_document_version_id (new_request prin operation key rid source version t) = dv_id source"
  "lr_request_type (new_request prin operation key rid source version t) = operation"
  "lr_idempotency_key (new_request prin operation key rid source version t) = key"
  "lr_state (new_request prin operation key rid source version t) =
     (if operation = ''cancel'' \<or> operation = ''delete'' \<and> dv_state version = DELETED
      then RS_SUCCEEDED else RS_PENDING)"
  by (simp_all add: new_request_def Let_def)

definition request_keys_ok :: "session \<Rightarrow> bool" where
  "request_keys_ok s \<longleftrightarrow> distinct (map request_idempotency (db_requests s))"

lemma idempotent_request_eq:
  assumes "request_keys_ok s" and "version_keys_ok s" and "r \<in> set (db_requests s)"
    and "request_idempotency r = (t, c, key)" and "v \<in> set (db_versions s)"
    and "version_scope v = (lr_tenant_id r, lr_collection_id r, lr_document_version_id r)"
  shows "idempotent_request s t c key = Inr (Some (r, dv_state v))"
proof -
  let ?p = "\<lambda>r. lr_tenant_id r = t \<and> lr_collection_id r = c \<and> lr_idempotency_key r = key"
  let ?q = "\<lambda>r v. dv_tenant_id v = lr_tenant_id r \<and> dv_collection_id v = lr_collection_id r
      \<and> dv_id v = lr_document_version_id r"
  note rd = assms(1) [unfolded request_keys_ok_def] and vd = assms(2) [unfolded version_keys_ok_def]
  have "length (filter ?p (db_requests s)) \<le> 1"
    using rd by (rule length_filter_key_le_1 [where c = "(t, c, key)"]) (simp add: request_idempotency_def)
  moreover have "length (filter (?q w) (db_versions s)) \<le> 1" for w
    using vd by (rule length_filter_key_le_1 [where c = "lr_document_version_id w"]) simp
  ultimately show ?thesis
  proof (rule join_at_most_one [where f = "\<lambda>r v. (r, dv_state v)" and xs = "db_requests s"
        and ys = "db_versions s" and p = ?p and q = ?q], goal_cases)
    case 1
    from 1(2) [OF assms(3,5)] assms(4,6) show ?case by (simp add: request_idempotency_def)
  next
    case (2 q w)
    then have "request_idempotency q = request_idempotency r"
      using assms(4) by (simp add: request_idempotency_def)
    with 2 assms(3) have q: "q = r" by (intro distinct_map_inj_rows [OF rd])
    with 2 assms(5,6) have "w = v" by (intro distinct_map_inj_rows [OF vd]) simp_all
    with 2 q show ?case unfolding idempotent_request_def 2(5) by simp
  qed
qed

lemma idempotent_request_Some:
  assumes "idempotent_request s t c key = Inr (Some (r, st))"
  shows "r \<in> set (db_requests s) \<and> request_idempotency r = (t, c, key)
    \<and> (\<exists>v \<in> set (db_versions s). version_scope v = (t, c, lr_document_version_id r) \<and> dv_state v = st)"
proof -
  let ?rows = "[(r, dv_state v). r \<leftarrow> db_requests s,
       lr_tenant_id r = t \<and> lr_collection_id r = c \<and> lr_idempotency_key r = key, v \<leftarrow> db_versions s,
       dv_tenant_id v = lr_tenant_id r \<and> dv_collection_id v = lr_collection_id r
         \<and> dv_id v = lr_document_version_id r]"
  have "?rows = [(r, st)]" using assms unfolding idempotent_request_def by (simp only: one_or_none_Some)
  then have "(r, st) \<in> set ?rows" by (simp only: list.set insertI1)
  then show ?thesis by (auto simp: request_idempotency_def split: if_split_asm)
qed

text \<open>What a request with a new key stores and does.\<close>

lemma started_request_work:
  assumes ok0: "version_keys_ok s" "membership_keys_ok s" "audit_ok s"
    and get: "get_version prin i True s = Inr source"
    and ver: "if operation = ''reprocess''
       then \<exists>pf u'. profile = Some pf \<and> create_reprocessed_version prin source pf rid u' s = Inr (version, s1)
       else version = source \<and> s1 = s"
    and req: "r = new_request prin operation key rid source version (now s)"
    and ins: "insert_request r s1 = Inr s2"
    and start: "start_request prin operation ma r version u' s2 = Inr (v', job, s')"
  shows "audit_ok s' \<and> version_keys_ok s' \<and> lr_source_document_version_id r = i \<and> lr_request_type r = operation
    \<and> request_idempotency r = (pr_tenant_id prin, dv_collection_id source, key)
    \<and> request_idempotency r \<notin> request_idempotency ` set (db_requests s)
    \<and> db_requests s' = db_requests s @ [r]
    \<and> (lr_state r = RS_SUCCEEDED \<longleftrightarrow> operation = ''cancel'' \<or> operation = ''delete'' \<and> dv_state source = DELETED)
    \<and> (\<exists>version v'' s2. request_started prin operation r version s2 v'' job s' \<and> db_jobs s2 = db_jobs s
         \<and> v'' \<in> set (db_versions s') \<and> dv_state v'' = dv_state v' \<and> dv_id v'' = lr_document_version_id r
         \<and> (if operation = ''reprocess''
            then source \<in> set (db_versions s2) \<and> dv_reprocessed_from_version_id v'' = Some i
              \<and> dv_content_sha256 v'' = dv_content_sha256 source \<and> dv_state version = CHUNKING
              \<and> profile = Some (dv_pipeline_profile v'') \<and> dv_state source \<in> REPROCESSABLE_STATES
            else version = source))"
proof -
  have src: "dv_id source = i" using get unfolding get_version_Inr [OF ok0(1,2)] by simp
  note sv = started_version [OF ok0 get ver ins]
  then have v: "version \<in> set (db_versions s2)" "version_keys_ok s2" "audit_ok s2" by simp_all
  note ok = start_request_ok [OF start v]
  have rep: "dv_reprocessed_from_version_id version = Some i \<and> dv_content_sha256 version = dv_content_sha256 source
      \<and> dv_state version = CHUNKING \<and> profile = Some (dv_pipeline_profile version)
      \<and> dv_state source \<in> REPROCESSABLE_STATES" if "operation = ''reprocess''"
    using ver that src create_reprocessed_version_Inr by auto
  have "dv_reprocessed_from_version_id v' = dv_reprocessed_from_version_id version
      \<and> dv_content_sha256 v' = dv_content_sha256 version \<and> dv_pipeline_profile v' = dv_pipeline_profile version"
    using ok by (simp add: version_identity_def)
  then have how: "if operation = ''reprocess''
      then source \<in> set (db_versions s2) \<and> dv_reprocessed_from_version_id v' = Some i
        \<and> dv_content_sha256 v' = dv_content_sha256 source \<and> dv_state version = CHUNKING
        \<and> profile = Some (dv_pipeline_profile v') \<and> dv_state source \<in> REPROCESSABLE_STATES
      else version = source"
    using rep sv ver by simp
  have "lr_source_document_version_id r = i" "lr_request_type r = operation" "dv_id v' = lr_document_version_id r"
    "request_idempotency r = (pr_tenant_id prin, dv_collection_id source, key)"
    using req src ok sv by (simp_all add: new_request_def Let_def request_idempotency_def)
  moreover have "lr_state r = RS_SUCCEEDED \<longleftrightarrow> operation = ''cancel'' \<or> operation = ''delete'' \<and> dv_state source = DELETED"
    using ver req by (cases "operation = ''reprocess''") (simp_all add: new_request_def Let_def)
  ultimately show ?thesis
    using ok sv how
    by (intro conjI exI [of _ version] exI [of _ v'] exI [of _ s2]) (simp_all only: simp_thms)
qed

text \<open>C6: a successful lifecycle request answers with the stored request that has the caller's key in the
  collection of the version. When the key was stored before, it is the replay of that request, and the database,
  the state reported and the job named are those of the stored request. When the key is new, exactly one request is
  stored and its work is done: cancel ends every job of the version, retry requeues a failed version under a
  fresh preflight job, reprocess adds a new version in state \<open>chunking\<close> derived from the old one and leaves
  the old one in place, delete opens a deletion job unless the version is deleted already. Audit trail and keys hold
  afterwards.\<close>

theorem lifecycle_request_effect:
  assumes "lifecycle_request prin i operation key ma profile u s = Inr (r, st, job, s')"
    and "version_keys_ok s" "membership_keys_ok s" and "audit_ok s"
  shows "audit_ok s' \<and> version_keys_ok s' \<and> lr_source_document_version_id r = i \<and> lr_request_type r = operation
    \<and> r \<in> set (db_requests s')
    \<and> (\<exists>source \<in> set (db_versions s). dv_id source = i \<and> may_access prin (dv_collection_id source) True s
       \<and> request_idempotency r = (pr_tenant_id prin, dv_collection_id source, key)
       \<and> (if request_idempotency r \<in> request_idempotency ` set (db_requests s)
          then s' = s
            \<and> (\<exists>v \<in> set (db_versions s). dv_id v = lr_document_version_id r \<and> dv_tenant_id v = pr_tenant_id prin
                 \<and> dv_state v = st)
            \<and> job = (if lr_state r = RS_PENDING \<and> operation \<noteq> ''cancel''
                 then latest_generation_job s (pr_tenant_id prin) (lr_document_version_id r) (request_stage operation)
                 else None)
          else db_requests s' = db_requests s @ [r]
            \<and> (lr_state r = RS_SUCCEEDED \<longleftrightarrow> operation = ''cancel'' \<or> operation = ''delete'' \<and> dv_state source = DELETED)
            \<and> (\<exists>version v' s2. request_started prin operation r version s2 v' job s' \<and> db_jobs s2 = db_jobs s
               \<and> v' \<in> set (db_versions s') \<and> dv_state v' = st \<and> dv_id v' = lr_document_version_id r
               \<and> (if operation = ''reprocess''
                  then source \<in> set (db_versions s2) \<and> dv_reprocessed_from_version_id v' = Some i
                    \<and> dv_content_sha256 v' = dv_content_sha256 source \<and> dv_state version = CHUNKING
                    \<and> profile = Some (dv_pipeline_profile v') \<and> dv_state source \<in> REPROCESSABLE_STATES
                  else version = source))))"
  using assms(1)
proof (cases rule: lifecycle_request_cases)
  case (replay source)
  have src: "source \<in> set (db_versions s)" "dv_id source = i" "may_access prin (dv_collection_id source) True s"
    using replay(1) unfolding get_version_Inr [OF assms(2,3)] by simp_all
  from idempotent_request_Some [OF replay(2)] obtain v where r: "r \<in> set (db_requests s)"
    "request_idempotency r = (pr_tenant_id prin, dv_collection_id source, key)" "v \<in> set (db_versions s)"
    "version_scope v = (pr_tenant_id prin, dv_collection_id source, lr_document_version_id r)" "dv_state v = st" by blast
  have "request_idempotency r \<in> request_idempotency ` set (db_requests s)" using r(1) by simp
  moreover have "\<exists>v \<in> set (db_versions s). dv_id v = lr_document_version_id r \<and> dv_tenant_id v = pr_tenant_id prin
      \<and> dv_state v = st" using r(3-5) by (intro bexI [of _ v]) simp_all
  ultimately show ?thesis
    using src r(1,2) replay(3-6) assms(2,4) by (intro conjI bexI [of _ source]) simp_all
next
  case (started source version s1 s2 v' u')
  then have st: "st = dv_state v'" by simp
  have src: "source \<in> set (db_versions s)" "dv_id source = i" "may_access prin (dv_collection_id source) True s"
    using started(1) unfolding get_version_Inr [OF assms(2,3)] by simp_all
  note work = started_request_work [OF assms(2-4) started(1,4-7)]
  then have "request_idempotency r \<notin> request_idempotency ` set (db_requests s)" by (elim conjE)
  note new = if_not_P [OF this]
  from work show ?thesis
    unfolding new st using src
    by (intro conjI bexI [of _ source]) (simp_all only: set_append list.set Un_iff insert_iff simp_thms)
qed

lemma scopes_keep_access:
  assumes "w \<in> set (db_versions s)" and "set (map version_scope (db_versions s)) \<subseteq> set (map version_scope (db_versions s'))"
  shows "\<exists>w' \<in> set (db_versions s'). version_scope w' = version_scope w"
proof -
  have "version_scope w \<in> set (map version_scope (db_versions s))"
    unfolding set_map using assms(1) by (rule imageI)
  with assms(2) have "version_scope w \<in> set (map version_scope (db_versions s'))"
    by (rule subsetD)
  then show ?thesis unfolding set_map by (elim imageE) (metis (no_types))
qed

text \<open>The facts of a successful request that its replay reads.\<close>

lemma lifecycle_request_stored:
  assumes "lifecycle_request prin i operation key ma profile u s = Inr (r, st, job, s')"
    and ok: "version_keys_ok s" "membership_keys_ok s" "audit_ok s" "request_keys_ok s"
  shows "version_keys_ok s' \<and> membership_keys_ok s'
    \<and> (\<exists>w. get_version prin i True s' = Inr w
         \<and> idempotent_request s' (pr_tenant_id prin) (dv_collection_id w) key = Inr (Some (r, st)))
    \<and> lr_source_document_version_id r = i \<and> lr_request_type r = operation
    \<and> job = (if lr_state r = RS_PENDING \<and> operation \<noteq> ''cancel''
         then latest_generation_job s' (pr_tenant_id prin) (lr_document_version_id r) (request_stage operation)
         else None)"
  using assms(1)
proof (cases rule: lifecycle_request_cases)
  case (replay source)
  then show ?thesis using ok by simp
next
  case (started source version s1 s2 v' u')
  have src: "source \<in> set (db_versions s)" "dv_id source = i" "dv_tenant_id source = pr_tenant_id prin"
    "may_access prin (dv_collection_id source) True s"
    using started(1) unfolding get_version_Inr [OF ok(1,2)] by simp_all
  note sv = started_version [OF ok(1-3) started(1) started(4) started(6)]
  then have v: "version \<in> set (db_versions s2)" "version_keys_ok s2" "audit_ok s2" by simp_all
  note st = start_request_ok [OF started(7) v]
  have mem: "db_memberships s' = db_memberships s" "db_requests s' = db_requests s @ [r]"
    using st sv by simp_all
  have mk: "membership_keys_ok s'" and vk: "version_keys_ok s'" and rk: "request_keys_ok s'"
    using ok(2,4) mem st sv by (simp_all add: membership_keys_ok_def request_keys_ok_def)
  have "map version_scope (db_versions s') = map version_scope (db_versions s2)" using st by simp
  then have "set (map version_scope (db_versions s2)) \<subseteq> set (map version_scope (db_versions s'))" by simp
  moreover have "source \<in> set (db_versions s2)" using sv by (elim conjE)
  ultimately obtain w where w: "w \<in> set (db_versions s')" "version_scope w = version_scope source"
    using scopes_keep_access [of source s2 s'] by blast
  have "get_version prin i True s' = Inr w"
    using w src mem unfolding get_version_Inr [OF vk mk] by (simp add: may_access_def)
  moreover have "idempotent_request s' (pr_tenant_id prin) (dv_collection_id source) key = Inr (Some (r, dv_state v'))"
    using st sv started(5) mem
    by (intro idempotent_request_eq [OF rk vk]) (simp_all add: request_idempotency_def)
  moreover have "operation \<in> {''retry'', ''reprocess'', ''cancel'', ''delete''}"
    using insert_request_type [OF started(6)] started(5) by simp
  then have "job = (if lr_state r = RS_PENDING \<and> operation \<noteq> ''cancel''
         then latest_generation_job s' (pr_tenant_id prin) (lr_document_version_id r) (request_stage operation)
         else None)"
  proof -
    have "request_started prin operation r version s2 v' job s'" using st by (elim conjE)
    with \<open>operation \<in> _\<close> show ?thesis
      unfolding request_started_def started(5) new_request_fields
      by (elim insertE emptyE) (simp_all split: if_splits, auto)
  qed
  ultimately show ?thesis
    using w src started(5,8) mk vk by simp
qed

text \<open>Lifecycle requests are idempotent: after a successful request, a further call under the
  same key for any version of the collection returns the stored request, the version's state and
  the same job and changes nothing when version and operation agree, and is refused as a conflict
  otherwise.\<close>

theorem lifecycle_request_idempotent:
  assumes "lifecycle_request prin i operation key ma profile u s = Inr (r, st, job, s')"
    and "version_keys_ok s" "membership_keys_ok s" "audit_ok s" "request_keys_ok s"
    and "get_version prin i True s' = Inr w" and "get_version prin i' True s' = Inr w'"
    and "dv_collection_id w' = dv_collection_id w"
  shows "lifecycle_request prin i' operation' key ma' profile' u' s' =
    (if i' = i \<and> operation' = operation then Inr (r, st, job, s')
     else Inl (CatalogConflictError ''idempotency key was used for another request''))"
  using lifecycle_request_stored [OF assms(1-5)] assms(6-8)
  by (auto simp: lifecycle_request_def)

text \<open>At most one deletion of a version is in progress: a deletion request that opens a job
  leaves it pending in the database, and in every later session in which that job is still
  active, be it pending, leased, running or rescheduled, a deletion request under an unused key
  is refused.\<close>

theorem lifecycle_delete_exclusive:
  assumes "lifecycle_request prin i ''delete'' key ma profile u s = Inr (r, st, Some j, s')"
    and "version_keys_ok s" "membership_keys_ok s" "audit_ok s"
    and "idempotent_request s (pr_tenant_id prin) c key = Inr None" and "get_version prin i True s = Inr v"
    and "dv_collection_id v = c"
  shows "(\<exists>k \<in> set (db_jobs s'). ij_id k = j \<and> ij_tenant_id k = pr_tenant_id prin \<and> ij_document_version_id k = i
         \<and> ij_stage k = ST_DELETE \<and> ij_state k = JS_PENDING)
    \<and> (\<forall>s2 k w key' ma' profile' u'. k \<in> set (db_jobs s2) \<and> ij_id k = j \<and> ij_tenant_id k = pr_tenant_id prin
         \<and> ij_document_version_id k = i \<and> ij_stage k = ST_DELETE \<and> active_job_state (ij_state k)
         \<and> get_version prin i True s2 = Inr w
         \<and> idempotent_request s2 (pr_tenant_id prin) (dv_collection_id w) key' = Inr None
         \<longrightarrow> lifecycle_request prin i ''delete'' key' ma' profile' u' s2
             = Inl (CatalogConflictError ''deletion is already in progress''))"
  using assms(1)
proof (cases rule: lifecycle_request_cases)
  case (replay source)
  with assms(5-7) show ?thesis by simp
next
  case (started source version s1 s2 v' u'')
  then have vs: "version = source" "s1 = s" by simp_all
  have src: "dv_id source = i"
    using started(1) unfolding get_version_Inr [OF assms(2,3)] by simp
  note sv = started_version [OF assms(2-4) started(1) started(4) started(6)]
  then have v: "version \<in> set (db_versions s2)" "version_keys_ok s2" "audit_ok s2" by simp_all
  have "request_started prin ''delete'' r version s2 v' (Some j) s'"
    using start_request_ok [OF started(7) v] by (elim conjE)
  then have opened: "\<exists>k \<in> set (db_jobs s'). ij_id k = j \<and> ij_tenant_id k = pr_tenant_id prin \<and> ij_document_version_id k = i
         \<and> ij_stage k = ST_DELETE \<and> ij_state k = JS_PENDING"
    using vs src unfolding request_started_def
    by (auto simp: request_stage_def split: if_splits)
  have "has_active_deletion_job s2 (pr_tenant_id prin) i" if "k \<in> set (db_jobs s2)" "ij_tenant_id k = pr_tenant_id prin"
      "ij_document_version_id k = i" "ij_stage k = ST_DELETE" "active_job_state (ij_state k)" for s2 k
    using that unfolding has_active_deletion_job_def active_job_state_def list_ex_iff by blast
  with opened show ?thesis
    by (auto simp: lifecycle_request_def)
qed

section \<open>Witnesses\<close>

definition delete_request :: request_row where
  "delete_request = new_request sample_principal ''delete'' ''del'' 30 queued_version queued_version 10"

definition deleting_session :: session where
  "deleting_session = queued_session\<lparr>db_requests := [delete_request],
     db_jobs := db_jobs queued_session @ [new_job 31 (1, 2, 4) ST_DELETE 0 3 (Some 30) 10]\<rparr>"

lemma queued_session_ok:
  "version_keys_ok queued_session \<and> membership_keys_ok queued_session \<and> audit_ok queued_session
    \<and> request_keys_ok queued_session"
proof -
  have "audit_ok queued_session"
    using complete_upload_outcome [OF sample_completion] registered_session_ok by blast
  then show ?thesis
    by (simp add: version_keys_ok_def membership_keys_ok_def request_keys_ok_def queued_session_def
        sample_defs)
qed

lemma sample_get_version:
  "get_version sample_principal 4 True queued_session = Inr queued_version"
  "get_version sample_principal 4 True deleting_session = Inr queued_version"
  by (simp_all add: get_version_def member_of_def editor_role_def deleting_session_def
      queued_session_def queued_version_def sample_defs)

lemma sample_no_request:
  "idempotent_request queued_session 1 2 ''del'' = Inr None"
  "idempotent_request deleting_session 1 2 ''other'' = Inr None"
  by (simp_all add: idempotent_request_def deleting_session_def delete_request_def queued_session_def
      sample_defs)

lemma queued_version_fields [simp]:
  "dv_id queued_version = 4" "dv_tenant_id queued_version = 1" "dv_collection_id queued_version = 2"
  "dv_state queued_version = QUEUED"
  by (simp_all add: queued_version_def sample_version_def)

lemma sample_principal_fields [simp]:
  "pr_tenant_id sample_principal = 1" "pr_subject sample_principal = ''alice''"
  by (simp_all add: sample_principal_def)

lemma sample_delete:
  "lifecycle_request sample_principal 4 ''delete'' ''del'' 3 None (\<lambda>n. word_of_nat (n + 30)) queued_session
     = Inr (delete_request, QUEUED, Some 31, deleting_session)"
proof -
  have "\<not> has_active_deletion_job queued_session 1 4"
    by (simp add: has_active_deletion_job_def queued_session_def new_job_def)
  moreover have "insert_request delete_request queued_session = Inr (queued_session\<lparr>db_requests := [delete_request]\<rparr>)"
    by (simp add: statement_defs delete_request_def new_request_def Let_def queued_session_def
        queued_version_def sample_defs)
  moreover have "create_ingestion_job sample_principal queued_version ST_DELETE 3 (Some 30) 31
      (queued_session\<lparr>db_requests := [delete_request]\<rparr>) = Inr (31, deleting_session)"
    by (simp add: create_ingestion_job_def new_job_def coalesce_max_def statement_defs delete_request_def
        new_request_def Let_def deleting_session_def queued_session_def queued_version_def sample_defs) auto
  moreover have "now queued_session = 10" by (simp add: queued_session_def sample_defs)
  ultimately show ?thesis
    by (simp add: lifecycle_request_def sample_get_version sample_no_request start_request_def
        delete_request_def [symmetric])
       (simp add: delete_request_def)
qed

lemma sample_replay:
  "lifecycle_request sample_principal 4 ''delete'' ''del'' 3 None (\<lambda>n. 0) deleting_session
     = Inr (delete_request, QUEUED, Some 31, deleting_session)"
  using lifecycle_request_idempotent [OF sample_delete _ _ _ _ sample_get_version(2) sample_get_version(2) refl,
      of "''delete''" 3 None "\<lambda>n. 0"] queued_session_ok
  by simp

theorem lifecycle_request_effect_witness:
  "audit_ok deleting_session
    \<and> db_requests queued_session = [] \<and> db_requests deleting_session = [delete_request]
    \<and> (\<exists>j \<in> set (db_jobs deleting_session). ij_id j = 31 \<and> ij_stage j = ST_DELETE \<and> ij_state j = JS_PENDING)
    \<and> Some 31 = latest_generation_job deleting_session 1 4 ST_DELETE"
proof -
  have n: "db_requests queued_session = []" by (simp add: queued_session_def sample_defs)
  note first = lifecycle_request_effect [OF sample_delete]
  have "db_requests deleting_session = [delete_request]"
    and j: "\<exists>j \<in> set (db_jobs deleting_session). ij_id j = 31 \<and> ij_stage j = ST_DELETE \<and> ij_state j = JS_PENDING"
    using first queued_session_ok n by (auto simp: request_started_def request_stage_def delete_request_def new_request_def)
  moreover have ok: "audit_ok deleting_session" "version_keys_ok deleting_session" "membership_keys_ok deleting_session"
    using first lifecycle_request_stored [OF sample_delete] queued_session_ok by blast+
  moreover have "Some 31 = latest_generation_job deleting_session 1 4 ST_DELETE"
    using lifecycle_request_effect [OF sample_replay ok(2,3,1)] calculation(1)
    by (auto simp: delete_request_def new_request_def Let_def request_stage_def)
  ultimately show ?thesis using n by blast
qed

theorem lifecycle_request_idempotent_witness:
  "lifecycle_request sample_principal 4 ''delete'' ''del'' 8 None (\<lambda>n. 0) deleting_session
     = Inr (delete_request, QUEUED, Some 31, deleting_session)
   \<and> lifecycle_request sample_principal 4 ''cancel'' ''del'' 8 None (\<lambda>n. 0) deleting_session
     = Inl (CatalogConflictError ''idempotency key was used for another request'')"
proof -
  note idem = lifecycle_request_idempotent [OF sample_delete _ _ _ _ sample_get_version(2) sample_get_version(2) refl]
  show ?thesis
    using idem [of "''delete''" 8 None "\<lambda>n. 0"] idem [of "''cancel''" 8 None "\<lambda>n. 0"] queued_session_ok
    by simp
qed

theorem lifecycle_delete_exclusive_witness:
  "lifecycle_request sample_principal 4 ''delete'' ''other'' 3 None (\<lambda>n. 0) deleting_session
     = Inl (CatalogConflictError ''deletion is already in progress'')"
proof -
  have c: "dv_collection_id queued_version = 2" "pr_tenant_id sample_principal = 1"
    by (simp_all add: queued_version_def sample_version_def sample_principal_def)
  note ex = lifecycle_delete_exclusive [OF sample_delete _ _ _ _ sample_get_version(1) refl]
  have "idempotent_request queued_session (pr_tenant_id sample_principal) (dv_collection_id queued_version) ''del'' = Inr None"
    unfolding c by (rule sample_no_request)
  note ex = ex [OF _ _ _ this]
  from ex queued_session_ok obtain k where k: "k \<in> set (db_jobs deleting_session)" "ij_id k = 31"
      "ij_tenant_id k = pr_tenant_id sample_principal" "ij_document_version_id k = 4" "ij_stage k = ST_DELETE"
      "ij_state k = JS_PENDING"
    by blast
  from k(6) have "active_job_state (ij_state k)" by (simp add: active_job_state_def)
  moreover have "idempotent_request deleting_session (pr_tenant_id sample_principal) (dv_collection_id queued_version) ''other'' = Inr None"
    unfolding c by (rule sample_no_request)
  ultimately show ?thesis
    using ex queued_session_ok k(1-5) sample_get_version(2) by blast
qed

end
