(* ===== verification/Native_Repository.thy ===== *)
theory Native_Repository
  imports Catalog_Operations
begin

text \<open>
  \<open>ingestion/repository_support.py\<close> and \<open>ingestion/repository.py\<close>: the durable job protocol of
  the workers. A worker claims a job (a lease and a numbered attempt), works outside the
  transaction, and then commits, fails or reschedules the job under a fence that checks that it
  still owns the attempt. The claim code the three claim methods repeat is defined once.
\<close>

section \<open>Claims and successors\<close>

record ClaimedNativeJob =
  cl_id :: uuid
  cl_tenant_id :: uuid
  cl_collection_id :: uuid
  cl_document_version_id :: uuid
  cl_attempt_number :: int
  cl_max_attempts :: int
  cl_object_key :: string
  cl_content_sha256 :: string
  cl_size_bytes :: int
  cl_pipeline_profile :: string
  cl_original_artifact_id :: uuid

record PublishedArtifact =
  pa_artifact_type :: ArtifactType
  pa_object_key :: string
  pa_generator_name :: string
  pa_generator_version :: string
  pa_checksum_sha256 :: string
  pa_size_bytes :: int

record NextStageJob =
  nj_id :: uuid
  nj_stage :: IngestionStage

text \<open>\<open>context || jsonb_build_object(k, v)\<close>.\<close>

definition json_set :: "string \<Rightarrow> string \<Rightarrow> (string \<times> string) list \<Rightarrow> (string \<times> string) list" where
  "json_set k v ctx = filter (\<lambda>e. fst e \<noteq> k) ctx @ [(k, v)]"

definition defer_job_dispatch ::
  "uuid \<Rightarrow> uuid \<Rightarrow> NextStageJob \<Rightarrow> string \<Rightarrow> timestamp \<Rightarrow> session \<Rightarrow> session res" where
  "defer_job_dispatch tenant_id document_version_id job reason_code retry_delay s =
     update_jobs (\<lambda>j. ij_id j = nj_id job \<and> ij_tenant_id j = tenant_id
         \<and> ij_document_version_id j = document_version_id
         \<and> ij_state j \<in> {JS_PENDING, JS_RETRY_SCHEDULED})
       (\<lambda>j. j\<lparr>ij_state := JS_RETRY_SCHEDULED, ij_retry_at := Some (now s + retry_delay),
              ij_updated_at := now s,
              ij_sanitized_context :=
                json_set ''dispatch_failure_reason'' reason_code (ij_sanitized_context j)\<rparr>) s"

definition successor_stage :: "IngestionStage \<Rightarrow> IngestionStage \<Rightarrow> bool" where
  "successor_stage a b \<longleftrightarrow>
     (a \<in> {ST_PREFLIGHT, ST_NATIVE_PARSE} \<and> b \<in> {ST_OCR, ST_CHUNK})
     \<or> (a = ST_OCR \<and> b = ST_CHUNK) \<or> (a = ST_CHUNK \<and> b = ST_EMBED) \<or> (a = ST_EMBED \<and> b = ST_INDEX)"

definition pending_successor :: "uuid \<Rightarrow> uuid \<Rightarrow> uuid \<Rightarrow> session \<Rightarrow> NextStageJob option" where
  "pending_successor tenant_id document_version_id predecessor_job_id s =
     map_option (\<lambda>n. \<lparr>nj_id = ij_id n, nj_stage = ij_stage n\<rparr>) (scalar
       (sort_key (\<lambda>n. (ij_created_at n, unat (ij_id n)))
         [n. p \<leftarrow> db_jobs s,
             ij_id p = predecessor_job_id \<and> ij_tenant_id p = tenant_id
               \<and> ij_document_version_id p = document_version_id \<and> ij_state p = JS_SUCCEEDED,
             n \<leftarrow> db_jobs s,
             job_scope n = job_scope p \<and> ij_lifecycle_request_id n = ij_lifecycle_request_id p
               \<and> ij_state n \<in> {JS_PENDING, JS_RETRY_SCHEDULED} \<and> successor_stage (ij_stage p) (ij_stage n)]))"

section \<open>The fence\<close>

definition owns_attempt :: "job_row \<Rightarrow> string \<Rightarrow> int \<Rightarrow> bool" where
  "owns_attempt j worker_id attempt_number \<longleftrightarrow>
     ij_state j = JS_RUNNING \<and> ij_lease_owner j = Some worker_id \<and> ij_attempt_count j = attempt_number"

definition locked_job_version ::
  "'a ClaimedNativeJob_scheme \<Rightarrow> string \<Rightarrow> session \<Rightarrow> version_row res" where
  "locked_job_version job worker_id s =
     bind_res (one [(v, j). v \<leftarrow> db_versions s,
         dv_tenant_id v = cl_tenant_id job \<and> dv_id v = cl_document_version_id job, j \<leftarrow> db_jobs s,
         job_scope j = version_scope v \<and> ij_id j = cl_id job]) (\<lambda>(v, j).
       if owns_attempt j worker_id (cl_attempt_number job) then Inr v
       else Inl (JobFenceLostError ''durable job ownership was revoked''))"

section \<open>Transitions by a worker\<close>

definition worker_transition ::
  "VersionState \<Rightarrow> string \<Rightarrow> string \<Rightarrow> string option \<Rightarrow> PublicationEvidence option \<Rightarrow> uuid
   \<Rightarrow> version_row \<Rightarrow> session \<Rightarrow> (version_row \<times> session) res" where
  "worker_transition target worker_id event_key reason_code evidence event_id row s =
     (let snapshot = (snapshot_of row)\<lparr>vs_terminal_reason_code := None\<rparr> in
      bind_res (transition_version snapshot target (vs_revision snapshot) None None reason_code evidence
          ''advance'') (\<lambda>transitioned.
      bind_res (update_versions True
        (\<lambda>v. dv_tenant_id v = dv_tenant_id row \<and> dv_id v = dv_id row
           \<and> dv_state_revision v = vs_revision snapshot)
        (\<lambda>v. v\<lparr>dv_state := vs_state transitioned,
               dv_state_revision := vs_revision transitioned,
               dv_terminal_reason_code := reason_code, dv_updated_at := now s\<rparr>) s) (\<lambda>(rows, s1).
      bind_res (one rows) (\<lambda>updated.
      bind_res (insert_event
        \<lparr>ev_id = event_id, ev_tenant_id = dv_tenant_id row, ev_collection_id = dv_collection_id row,
         ev_document_version_id = dv_id row, ev_idempotency_key = event_key,
         ev_from_state = vs_state snapshot, ev_to_state = target,
         ev_from_revision = vs_revision snapshot, ev_to_revision = vs_revision transitioned,
         ev_operation = ''advance'', ev_actor_type = ''worker'', ev_actor_id = worker_id\<rparr> s1)
        (\<lambda>s2. Inr (updated, s2))))))"

text \<open>
  \<open>INSERT \<dots> ON CONFLICT ON CONSTRAINT uq_ingestion_jobs_delivery DO UPDATE SET updated_at =
  ingestion_jobs.updated_at RETURNING id\<close>: a job with the same delivery keeps its row, and its
  identifier is returned.
\<close>

definition upsert_job :: "job_row \<Rightarrow> session \<Rightarrow> (uuid \<times> session) res" where
  "upsert_job r s =
     bind_res (check_all (job_checks r)) (\<lambda>_.
       case filter (\<lambda>j. job_delivery j = job_delivery r) (db_jobs s) of
         j # _ \<Rightarrow> Inr (ij_id j, s)
       | [] \<Rightarrow> bind_res (insert_job r s) (\<lambda>s1. Inr (ij_id r, s1)))"

definition job_request :: "session \<Rightarrow> uuid \<Rightarrow> uuid option" where
  "job_request s i =
     (case scalar (filter (\<lambda>j. ij_id j = i) (db_jobs s)) of None \<Rightarrow> None
      | Some j \<Rightarrow> ij_lifecycle_request_id j)"

definition create_next_job ::
  "'a ClaimedNativeJob_scheme \<Rightarrow> IngestionStage \<Rightarrow> int \<Rightarrow> uuid \<Rightarrow> session \<Rightarrow> (uuid \<times> session) res" where
  "create_next_job job stage max_attempts next_job_id s =
     upsert_job (new_job next_job_id
       (cl_tenant_id job, cl_collection_id job, cl_document_version_id job) stage 0 max_attempts
       (job_request s (cl_id job)) (now s)) s"

section \<open>Attempts and job states\<close>

definition close_attempts ::
  "(attempt_row \<Rightarrow> bool) \<Rightarrow> string \<Rightarrow> string option \<Rightarrow> string option \<Rightarrow> session \<Rightarrow> session res" where
  "close_attempts p outcome error_class reason_code s =
     update_attempts (\<lambda>a. p a \<and> ja_finished_at a = None)
       (\<lambda>a. a\<lparr>ja_finished_at := Some (now s), ja_heartbeat_at := Some (now s),
              ja_outcome := Some outcome, ja_error_class := error_class,
              ja_reason_code := reason_code\<rparr>) s"

definition finish_attempt ::
  "'a ClaimedNativeJob_scheme \<Rightarrow> string \<Rightarrow> string option \<Rightarrow> string option \<Rightarrow> session \<Rightarrow> session res" where
  "finish_attempt job outcome error_class reason_code =
     close_attempts (\<lambda>a. ja_tenant_id a = cl_tenant_id job \<and> ja_job_id a = cl_id job
       \<and> ja_attempt_number a = cl_attempt_number job) outcome error_class reason_code"

definition cancel_job :: "job_row \<Rightarrow> session \<Rightarrow> session res" where
  "cancel_job row s =
     bind_res (update_jobs (\<lambda>j. ij_id j = ij_id row)
       (\<lambda>j. j\<lparr>ij_state := JS_CANCELLED, ij_lease_owner := None, ij_lease_expires_at := None,
              ij_updated_at := now s\<rparr>) s) (\<lambda>s1.
     update_attempts (\<lambda>a. ja_tenant_id a = ij_tenant_id row \<and> ja_job_id a = ij_id row
         \<and> ja_finished_at a = None)
       (\<lambda>a. a\<lparr>ja_finished_at := Some (now s), ja_heartbeat_at := Some (now s),
              ja_outcome := Some ''cancelled'', ja_reason_code := Some ''LIFECYCLE_CANCELLED''\<rparr>) s1)"

definition exhaust_job :: "job_row \<Rightarrow> version_row \<Rightarrow> string \<Rightarrow> uuid \<Rightarrow> session \<Rightarrow> session res" where
  "exhaust_job row version worker_id event_id s =
     bind_res (worker_transition FAILED worker_id
         (''worker:'' @ str_uuid (ij_id row) @ '':attempts-exhausted'')
         (Some ''PROCESSING_RETRY_EXHAUSTED'') None event_id version s) (\<lambda>(_, s1).
     update_jobs (\<lambda>j. ij_id j = ij_id row)
       (\<lambda>j. j\<lparr>ij_state := JS_DEAD_LETTERED,
              ij_terminal_reason_code := Some ''PROCESSING_RETRY_EXHAUSTED'',
              ij_lease_owner := None, ij_lease_expires_at := None, ij_updated_at := now s\<rparr>) s1)"

definition expire_attempt :: "uuid \<Rightarrow> uuid \<Rightarrow> int \<Rightarrow> session \<Rightarrow> session res" where
  "expire_attempt tenant_id job_id attempt_number =
     close_attempts (\<lambda>a. ja_tenant_id a = tenant_id \<and> ja_job_id a = job_id
       \<and> ja_attempt_number a = attempt_number)
       ''lease_expired'' (Some ''internal'') (Some ''WORKER_LEASE_EXPIRED'')"

definition start_attempt ::
  "uuid \<Rightarrow> uuid \<Rightarrow> uuid \<Rightarrow> string \<Rightarrow> int \<Rightarrow> timestamp \<Rightarrow> uuid \<Rightarrow> session \<Rightarrow> session res" where
  "start_attempt collection_id job_id tenant_id worker_id attempt_number lease_duration attempt_id s =
     bind_res (update_jobs (\<lambda>j. ij_id j = job_id)
       (\<lambda>j. j\<lparr>ij_state := JS_RUNNING, ij_attempt_count := attempt_number,
              ij_lease_owner := Some worker_id,
              ij_lease_expires_at := Some (now s + lease_duration),
              ij_heartbeat_at := Some (now s), ij_retry_at := None, ij_updated_at := now s\<rparr>) s) (\<lambda>s1.
     insert_attempt
       \<lparr>ja_id = attempt_id, ja_tenant_id = tenant_id, ja_collection_id = collection_id,
        ja_job_id = job_id, ja_attempt_number = attempt_number, ja_worker_id = worker_id,
        ja_started_at = now s, ja_heartbeat_at = Some (now s), ja_finished_at = None,
        ja_outcome = None, ja_error_class = None, ja_reason_code = None\<rparr> s1)"

definition lease_active :: "job_row \<Rightarrow> timestamp \<Rightarrow> bool" where
  "lease_active j t \<longleftrightarrow> ij_state j \<in> {JS_LEASED, JS_RUNNING}
     \<and> (case ij_lease_expires_at j of None \<Rightarrow> False | Some e \<Rightarrow> e > t)"

text \<open>
  The part of \<open>claim\<close> from the lease check to the new attempt. The result is the number of the
  new attempt, or nothing when the lease is held or the attempts are used up.
\<close>

definition lease_attempt ::
  "job_row \<Rightarrow> version_row \<Rightarrow> string \<Rightarrow> timestamp \<Rightarrow> (nat \<Rightarrow> uuid) \<Rightarrow> session \<Rightarrow> (int option \<times> session) res" where
  "lease_attempt row version worker_id lease_duration u s =
     (if lease_active row (now s) then Inr (None, s)
      else if ij_attempt_count row \<ge> ij_max_attempts row
      then bind_res (exhaust_job row version worker_id (u 0) s) (\<lambda>s1. Inr (None, s1))
      else
        bind_res (if ij_state row \<in> {JS_LEASED, JS_RUNNING}
                  then expire_attempt (ij_tenant_id row) (ij_id row) (ij_attempt_count row) s
                  else Inr s) (\<lambda>s1.
        bind_res (start_attempt (ij_collection_id row) (ij_id row) (ij_tenant_id row) worker_id
            (ij_attempt_count row + 1) lease_duration (u 0) s1) (\<lambda>s2.
        Inr (Some (ij_attempt_count row + 1), s2))))"

section \<open>\<open>NativeJobRepository\<close>\<close>

definition artifacts_of :: "session \<Rightarrow> uuid \<times> uuid \<times> uuid \<Rightarrow> ArtifactType \<Rightarrow> artifact_row list" where
  "artifacts_of s k t = filter (\<lambda>a. artifact_scope a = k \<and> af_artifact_type a = t) (db_artifacts s)"

definition native_claim_rows ::
  "uuid \<Rightarrow> uuid \<Rightarrow> uuid \<Rightarrow> session \<Rightarrow> (job_row \<times> version_row \<times> artifact_row) list" where
  "native_claim_rows tenant_id document_version_id job_id s =
     [(j, v, a). j \<leftarrow> db_jobs s,
        ij_id j = job_id \<and> ij_tenant_id j = tenant_id \<and> ij_document_version_id j = document_version_id
          \<and> ij_stage j \<in> {ST_PREFLIGHT, ST_NATIVE_PARSE},
        v \<leftarrow> db_versions s, version_scope v = job_scope j,
        a \<leftarrow> artifacts_of s (version_scope v) AT_ORIGINAL_PDF]"

definition native_dead_states :: "VersionState set" where
  "native_dead_states = {CANCELLED, DELETED, REJECTED, FAILED, QUARANTINED}"

definition attempt_event :: "uuid \<Rightarrow> int \<Rightarrow> string" where
  "attempt_event job_id attempt_number =
     ''worker:'' @ str_uuid job_id @ '':attempt:'' @ str_int attempt_number @ '':parsing''"

definition native_claim ::
  "uuid \<Rightarrow> uuid \<Rightarrow> uuid \<Rightarrow> string \<Rightarrow> timestamp \<Rightarrow> (nat \<Rightarrow> uuid) \<Rightarrow> session
   \<Rightarrow> (ClaimedNativeJob option \<times> session) res" where
  "native_claim tenant_id document_version_id job_id worker_id lease_duration u s =
     bind_res (one_or_none (native_claim_rows tenant_id document_version_id job_id s)) (\<lambda>row_result.
     case row_result of
       None \<Rightarrow> Inl (ValueError ''native ingestion job identity is invalid'')
     | Some (row, version, original) \<Rightarrow>
         if terminal_job_state (ij_state row) then Inr (None, s)
         else if dv_state version \<in> native_dead_states
         then bind_res (cancel_job row s) (\<lambda>s1. Inr (None, s1))
         else bind_res (lease_attempt row version worker_id lease_duration u s) (\<lambda>(attempt, s1).
           case attempt of
             None \<Rightarrow> Inr (None, s1)
           | Some attempt_number \<Rightarrow>
               bind_res (if dv_state version = QUEUED
                 then bind_res (worker_transition PARSING worker_id (attempt_event job_id attempt_number)
                        None None (u 1) version s1) (\<lambda>(_, s2). Inr s2)
                 else Inr s1) (\<lambda>s2.
               Inr (Some \<lparr>cl_id = job_id, cl_tenant_id = tenant_id,
                 cl_collection_id = ij_collection_id row,
                 cl_document_version_id = document_version_id, cl_attempt_number = attempt_number,
                 cl_max_attempts = ij_max_attempts row, cl_object_key = dv_object_key version,
                 cl_content_sha256 = dv_content_sha256 version, cl_size_bytes = dv_size_bytes version,
                 cl_pipeline_profile = dv_pipeline_profile version,
                 cl_original_artifact_id = af_id original\<rparr>, s2))))"

definition published_row ::
  "'a ClaimedNativeJob_scheme \<Rightarrow> PublishedArtifact \<Rightarrow> uuid \<Rightarrow> timestamp \<Rightarrow> artifact_row" where
  "published_row job artifact artifact_id t =
     \<lparr>af_id = artifact_id, af_tenant_id = cl_tenant_id job, af_collection_id = cl_collection_id job,
      af_document_version_id = cl_document_version_id job,
      af_source_artifact_id = Some (cl_original_artifact_id job),
      af_artifact_type = pa_artifact_type artifact, af_object_key = pa_object_key artifact,
      af_generator_name = pa_generator_name artifact,
      af_generator_version = pa_generator_version artifact,
      af_checksum_sha256 = pa_checksum_sha256 artifact, af_size_bytes = pa_size_bytes artifact,
      af_retention_until = None, af_created_at = t, af_search_target_name = None,
      af_search_target_version = None\<rparr>"

fun insert_artifacts ::
  "'a ClaimedNativeJob_scheme \<Rightarrow> PublishedArtifact list \<Rightarrow> (nat \<Rightarrow> uuid) \<Rightarrow> session \<Rightarrow> session res" where
  "insert_artifacts job [] u s = Inr s"
| "insert_artifacts job (a # as) u s =
     bind_res (insert_artifact (published_row job a (u 0) (now s)) s)
       (insert_artifacts job as (\<lambda>n. u (n + 1)))"

definition close_job :: "JobState \<Rightarrow> (job_row \<Rightarrow> job_row) \<Rightarrow> uuid \<Rightarrow> session \<Rightarrow> session res" where
  "close_job st f job_id s =
     update_jobs (\<lambda>j. ij_id j = job_id)
       (\<lambda>j. f (j\<lparr>ij_state := st, ij_lease_owner := None, ij_lease_expires_at := None,
                 ij_heartbeat_at := Some (now s), ij_updated_at := now s\<rparr>)) s"

definition native_succeed ::
  "'a ClaimedNativeJob_scheme \<Rightarrow> string \<Rightarrow> DocumentRoute \<Rightarrow> int \<Rightarrow> PublishedArtifact list \<Rightarrow> int
   \<Rightarrow> (nat \<Rightarrow> uuid) \<Rightarrow> session \<Rightarrow> (NextStageJob \<times> session) res" where
  "native_succeed job worker_id route page_count artifacts max_attempts u s =
     bind_res (locked_job_version job worker_id s) (\<lambda>locked.
     bind_res (insert_artifacts job artifacts (\<lambda>n. u (n + 3)) s) (\<lambda>s1.
     bind_res (update_versions False
         (\<lambda>v. dv_tenant_id v = cl_tenant_id job \<and> dv_id v = cl_document_version_id job)
         (\<lambda>v. v\<lparr>dv_page_count := Some page_count\<rparr>) s1) (\<lambda>(_, s2).
     bind_res (if route = ROUTE_NATIVE
       then bind_res (worker_transition NORMALIZING worker_id
              (''worker:'' @ str_uuid (cl_id job) @ '':normalizing'') None None (u 0) locked s2)
              (\<lambda>(row, s3). Inr (row, CHUNKING, ST_CHUNK, s3))
       else Inr (locked, OCR, ST_OCR, s2)) (\<lambda>(version_row, target_state, next_stage, s3).
     bind_res (worker_transition target_state worker_id
         (''worker:'' @ str_uuid (cl_id job) @ '':'' @ VersionState_value target_state)
         None None (u 1) version_row s3) (\<lambda>(_, s4).
     bind_res (create_next_job job next_stage max_attempts (u 2) s4) (\<lambda>(next_job_id, s5).
     bind_res (finish_attempt job ''succeeded'' None None s5) (\<lambda>s6.
     bind_res (close_job JS_SUCCEEDED id (cl_id job) s6) (\<lambda>s7.
     Inr (\<lparr>nj_id = next_job_id, nj_stage = next_stage\<rparr>, s7)))))))))"

definition finish_lifecycle_request :: "uuid \<Rightarrow> RequestState \<Rightarrow> session \<Rightarrow> session res" where
  "finish_lifecycle_request job_id state s =
     update_requests (\<lambda>r. lr_state r \<in> {RS_PENDING, RS_RUNNING}
         \<and> list_ex (\<lambda>j. ij_id j = job_id \<and> ij_lifecycle_request_id j = Some (lr_id r)) (db_jobs s))
       (\<lambda>r. r\<lparr>lr_state := state, lr_completed_at := Some (now s)\<rparr>) s"

definition fail_permanently ::
  "'a ClaimedNativeJob_scheme \<Rightarrow> string \<Rightarrow> VersionState \<Rightarrow> string \<Rightarrow> PublishedArtifact list
   \<Rightarrow> (nat \<Rightarrow> uuid) \<Rightarrow> session \<Rightarrow> session res" where
  "fail_permanently job worker_id state reason_code artifacts u s =
     bind_res (locked_job_version job worker_id s) (\<lambda>locked.
     bind_res (insert_artifacts job artifacts (\<lambda>n. u (n + 1)) s) (\<lambda>s1.
     bind_res (worker_transition state worker_id
         (''worker:'' @ str_uuid (cl_id job) @ '':terminal:'' @ reason_code) (Some reason_code) None
         (u 0) locked s1) (\<lambda>(_, s2).
     bind_res (finish_attempt job ''permanent_failure''
         (Some (if state \<noteq> QUARANTINED then ''invalid_input'' else ''security'')) (Some reason_code) s2)
       (\<lambda>s3.
     bind_res (close_job JS_FAILED (\<lambda>j. j\<lparr>ij_terminal_reason_code := Some reason_code\<rparr>) (cl_id job) s3)
       (finish_lifecycle_request (cl_id job) RS_FAILED)))))"

definition schedule_retry ::
  "'a ClaimedNativeJob_scheme \<Rightarrow> string \<Rightarrow> string \<Rightarrow> int \<Rightarrow> session \<Rightarrow> session res" where
  "schedule_retry job worker_id reason_code delay_seconds s =
     bind_res (locked_job_version job worker_id s) (\<lambda>_.
     bind_res (finish_attempt job ''retryable_failure'' (Some ''dependency'') (Some reason_code) s) (\<lambda>s1.
     close_job JS_RETRY_SCHEDULED
       (\<lambda>j. j\<lparr>ij_retry_at := Some (now s + seconds delay_seconds),
              ij_terminal_reason_code := Some reason_code\<rparr>) (cl_id job) s1))"

section \<open>The worker's transition keeps the audit trail\<close>

lemma worker_transition_Inr:
  assumes "worker_transition target worker key reason ev eid v s = Inr (w, s')"
    and v: "v \<in> set (db_versions s)" and keys: "version_keys_ok s"
  shows "\<exists>e. transition_recorded s s' v w e
    \<and> w = v\<lparr>dv_state := target, dv_state_revision := dv_state_revision v + 1,
            dv_terminal_reason_code := reason, dv_updated_at := now s\<rparr>
    \<and> operation_allowed (dv_state v) target ''advance'' = Some True
    \<and> (target \<in> {READY, READY_WITH_WARNINGS} \<longrightarrow> (\<exists>x. ev = Some x \<and> is_complete x) \<and> ready_publication_ok s w)"
proof -
  let ?sn = "(snapshot_of v)\<lparr>vs_terminal_reason_code := None\<rparr>"
  have rev: "vs_revision ?sn = dv_state_revision v" "vs_state ?sn = dv_state v"
    by (simp_all add: snapshot_of_def)
  obtain t where t: "transition_version ?sn target (dv_state_revision v) None None reason ev ''advance'' = Inr t"
    using assms(1) unfolding worker_transition_def Let_def rev by (elim bind_res_InrE)
  then have tt: "vs_state t = target" "vs_revision t = dv_state_revision v + 1"
    "operation_allowed (dv_state v) target ''advance'' = Some True"
    "target \<in> {READY, READY_WITH_WARNINGS} \<longrightarrow> (\<exists>x. ev = Some x \<and> is_complete x)"
    unfolding transition_version_Inr transition_accepts_def by (simp_all add: snapshot_of_def)
  let ?p = "\<lambda>r. dv_tenant_id r = dv_tenant_id v \<and> dv_id r = dv_id v \<and> dv_state_revision r = dv_state_revision v"
  let ?f = "\<lambda>r. r\<lparr>dv_state := target, dv_state_revision := dv_state_revision v + 1,
           dv_terminal_reason_code := reason, dv_updated_at := now s\<rparr>"
  let ?e = "\<lparr>ev_id = eid, ev_tenant_id = dv_tenant_id v, ev_collection_id = dv_collection_id v,
         ev_document_version_id = dv_id v, ev_idempotency_key = key, ev_from_state = dv_state v,
         ev_to_state = target, ev_from_revision = dv_state_revision v,
         ev_to_revision = dv_state_revision v + 1, ev_operation = ''advance'',
         ev_actor_type = ''worker'', ev_actor_id = worker\<rparr>"
  from assms(1) have "bind_res (update_versions True ?p ?f s) (\<lambda>(rows, s1).
      bind_res (one rows) (\<lambda>updated. bind_res (insert_event ?e s1) (\<lambda>s2. Inr (updated, s2)))) = Inr (w, s')"
    unfolding worker_transition_def Let_def rev t bind_res_Inr tt .
  then obtain x where x: "update_versions True ?p ?f s = Inr x" and y: "(case x of (rows, s1) \<Rightarrow>
      bind_res (one rows) (\<lambda>updated. bind_res (insert_event ?e s1) (\<lambda>s2. Inr (updated, s2)))) = Inr (w, s')"
    by (rule bind_res_InrE)
  obtain rows s1 where rs: "x = (rows, s1)" by (cases x)
  from y obtain row where row: "one rows = Inr row"
    and z: "bind_res (insert_event ?e s1) (\<lambda>s2. Inr (row, s2)) = Inr (w, s')"
    unfolding rs prod.case by (rule bind_res_InrE)
  from z have "insert_event ?e s1 = Inr s'" "row = w"
    by (auto simp: bind_res_eq_Inr)
  with x rs row have upd: "update_versions True ?p ?f s = Inr ([w], s1)" and ins: "insert_event ?e s1 = Inr s'"
    by (simp_all only: one_Inr)
  define e where "e = ?e"
  have e: "event_scope e = (dv_tenant_id v, dv_collection_id v, dv_id v)" "ev_from_state e = dv_state v"
      "ev_to_state e = target" "ev_from_revision e = dv_state_revision v"
      "ev_to_revision e = dv_state_revision v + 1"
    unfolding e_def by simp_all
  note ins = ins [folded e_def]
  note ru = recorded_update [OF upd ins e v keys]
  have rec: "transition_recorded s s' v w e" using ru by (elim conjE)
  have w: "w = ?f v" using ru by (elim conjE)
  from upd have "\<forall>r \<in> set (db_versions s). ?p r \<longrightarrow> version_update_ok True s r (?f r) = Inr (?f r)"
    unfolding update_versions_Inr by (elim conjE)
  from bspec [OF this v] have "version_update_ok True s v (?f v) = Inr (?f v)"
    by (simp only: simp_thms)
  then have "enforce_ready_publication s w = Inr ()"
    unfolding w version_update_ok_def if_True by (elim bind_res_InrE) simp
  then have "ready_publication_ok s w"
    by (simp add: enforce_ready_publication_def)
  with tt(4) have "target \<in> {READY, READY_WITH_WARNINGS} \<longrightarrow> (\<exists>x. ev = Some x \<and> is_complete x) \<and> ready_publication_ok s w"
    by simp
  with rec w tt(3) show ?thesis by (intro exI [of _ e] conjI)
qed

lemma worker_transition_frame:
  assumes "worker_transition target worker key reason ev eid v s = Inr (w, s')"
  shows "db_jobs s' = db_jobs s \<and> db_attempts s' = db_attempts s \<and> db_requests s' = db_requests s
    \<and> db_artifacts s' = db_artifacts s \<and> now s' = now s"
  using assms unfolding worker_transition_def Let_def
  by (elim bind_res_InrE, simp split: prod.splits)
     (elim bind_res_InrE, auto simp: update_versions_Inr dest!: insert_event_Inr)

interpretation worker: audited_operation
  "\<lambda>(target, worker, key, reason, ev, eid). worker_transition target worker key reason ev eid"
  "\<lambda>(target, worker, key, reason, ev, eid) a b. b = target \<and> operation_allowed a b ''advance'' = Some True"
proof (unfold_locales, goal_cases)
  case (1 a v s w s')
  then show ?case
    by (cases a) (use worker_transition_Inr in fastforce)
next
  case (2 a v s w s')
  obtain target worker key reason ev eid where a: "a = (target, worker, key, reason, ev, eid)" by (cases a)
  from 2 worker_transition_Inr [of target worker key reason ev eid v s w s'] show ?case
    by (auto simp: a)
qed

lemma worker_transition_ok:
  assumes "worker_transition target worker key reason ev eid v s = Inr (w, s')"
    and "v \<in> set (db_versions s)" and "version_keys_ok s" and "audit_ok s"
  shows "audit_ok s' \<and> version_keys_ok s' \<and> w \<in> set (db_versions s')
    \<and> w = v\<lparr>dv_state := target, dv_state_revision := dv_state_revision v + 1,
            dv_terminal_reason_code := reason, dv_updated_at := now s\<rparr>
    \<and> (\<exists>vs es. s' = s\<lparr>db_versions := vs, db_events := es\<rparr>)
    \<and> map version_scope (db_versions s') = map version_scope (db_versions s)
    \<and> operation_allowed (dv_state v) target ''advance'' = Some True"
proof -
  let ?a = "(target, worker, key, reason, ev, eid)"
  from worker_transition_Inr [OF assms(1-3)] obtain e where
    "w = v\<lparr>dv_state := target, dv_state_revision := dv_state_revision v + 1,
            dv_terminal_reason_code := reason, dv_updated_at := now s\<rparr>"
    "operation_allowed (dv_state v) target ''advance'' = Some True"
    by (elim exE conjE)
  with assms worker.run_audit [of ?a v s w s'] worker.run_keys [of ?a v s w s']
    worker.run_returns_row [of ?a v s w s'] worker.run_frame [of ?a v s w s']
    worker.run_scopes [of ?a v s w s'] show ?thesis
    by simp
qed

text \<open>The transition reads only scope and snapshot of the row it is given.\<close>

lemma worker_transition_cong:
  assumes "version_scope v' = version_scope v" and "snapshot_of v' = snapshot_of v"
  shows "worker_transition target worker key reason ev eid v' s
       = worker_transition target worker key reason ev eid v s"
proof -
  from assms(1) have "dv_tenant_id v' = dv_tenant_id v" "dv_collection_id v' = dv_collection_id v"
    "dv_id v' = dv_id v" by simp_all
  then show ?thesis unfolding worker_transition_def assms(2) by simp
qed

section \<open>The interface of a claim\<close>

abbreviation leased_row :: "string \<Rightarrow> int \<Rightarrow> timestamp \<Rightarrow> timestamp \<Rightarrow> job_row \<Rightarrow> job_row" where
  "leased_row worker n d t j \<equiv> j\<lparr>ij_state := JS_RUNNING, ij_attempt_count := n,
     ij_lease_owner := Some worker, ij_lease_expires_at := Some (t + d),
     ij_heartbeat_at := Some t, ij_retry_at := None, ij_updated_at := t\<rparr>"

text \<open>What a claim grants: the job was active, its lease free and its attempts not used up; the
  claim owns the next attempt and holds the lease.\<close>

definition claim_granted ::
  "uuid \<Rightarrow> uuid \<Rightarrow> uuid \<Rightarrow> string \<Rightarrow> timestamp \<Rightarrow> session \<Rightarrow> 'a ClaimedNativeJob_scheme \<Rightarrow> session \<Rightarrow> bool" where
  "claim_granted t v i worker d s c s' \<longleftrightarrow>
     cl_id c = i \<and> cl_tenant_id c = t \<and> cl_document_version_id c = v
     \<and> (\<exists>row \<in> set (db_jobs s). ij_id row = i \<and> job_scope row = (t, cl_collection_id c, v)
          \<and> active_job_state (ij_state row) \<and> \<not> lease_active row (now s)
          \<and> ij_attempt_count row < ij_max_attempts row
          \<and> cl_max_attempts c = ij_max_attempts row
          \<and> cl_attempt_number c = ij_attempt_count row + 1)
     \<and> db_jobs s' = update_rows (\<lambda>j. ij_id j = i) (leased_row worker (cl_attempt_number c) d (now s)) (db_jobs s)
     \<and> (\<exists>a \<in> set (db_attempts s'). ja_job_id a = i \<and> ja_attempt_number a = cl_attempt_number c
          \<and> ja_worker_id a = worker \<and> ja_finished_at a = None)"

locale claim_protocol =
  fixes claim :: "uuid \<Rightarrow> uuid \<Rightarrow> uuid \<Rightarrow> string \<Rightarrow> timestamp \<Rightarrow> (nat \<Rightarrow> uuid) \<Rightarrow> session
      \<Rightarrow> ('a ClaimedNativeJob_scheme option \<times> session) res"
  assumes granted: "claim t v i worker d u s = Inr (Some c, s') \<Longrightarrow> claim_granted t v i worker d s c s'"
begin

lemma claim_bounded:
  assumes "claim t v i worker d u s = Inr (Some c, s')" and "\<forall>j \<in> set (db_jobs s). 0 \<le> ij_attempt_count j"
  shows "1 \<le> cl_attempt_number c \<and> cl_attempt_number c \<le> cl_max_attempts c"
  using granted [OF assms(1)] assms(2) unfolding claim_granted_def by fastforce

lemma claim_job_row:
  assumes "claim t v i worker d u s = Inr (Some c, s')" and "j \<in> set (db_jobs s')" and "ij_id j = i"
  shows "owns_attempt j worker (cl_attempt_number c) \<and> ij_lease_expires_at j = Some (now s + d)"
proof -
  from granted [OF assms(1)] have "db_jobs s' = update_rows (\<lambda>j. ij_id j = i)
      (leased_row worker (cl_attempt_number c) d (now s)) (db_jobs s)"
    unfolding claim_granted_def by (elim conjE)
  then have "set (db_jobs s') = (\<lambda>k. if ij_id k = i then leased_row worker (cl_attempt_number c) d (now s) k else k) ` set (db_jobs s)"
    by (simp only: update_rows_def set_map)
  with assms(2) obtain k where "j = (if ij_id k = i then leased_row worker (cl_attempt_number c) d (now s) k else k)"
    by blast
  with assms(3) show ?thesis
    by (cases "ij_id k = i") (simp_all add: owns_attempt_def)
qed

text \<open>Until the lease ends nobody else is granted the job.\<close>

lemma claim_exclusive:
  assumes "claim t v i worker d u s = Inr (Some c, s')" and "db_jobs s2 = db_jobs s'" and "now s2 < now s + d"
  shows "claim t' v' i worker' d' u' s2 \<noteq> Inr (Some c', s3)"
proof
  assume "claim t' v' i worker' d' u' s2 = Inr (Some c', s3)"
  from granted [OF this] obtain row where row: "row \<in> set (db_jobs s2)" "ij_id row = i" "\<not> lease_active row (now s2)"
    unfolding claim_granted_def by (elim bexE conjE)
  then have "owns_attempt row worker (cl_attempt_number c) \<and> ij_lease_expires_at row = Some (now s + d)"
    using claim_job_row [OF assms(1)] assms(2) by simp
  then show False
    using row(3) assms(3) by (simp add: lease_active_def owns_attempt_def)
qed

text \<open>A worker that holds an older attempt of the job is fenced off.\<close>

lemma stale_not_owner:
  assumes "claim t v i worker d u s = Inr (Some c, s')"
    and "worker' \<noteq> worker \<or> n \<noteq> cl_attempt_number c" and "j \<in> set (db_jobs s')" and "ij_id j = i"
  shows "\<not> owns_attempt j worker' n"
  using claim_job_row [OF assms(1,3,4)] assms(2) by (auto simp: owns_attempt_def)

end

section \<open>The claim core\<close>

lemma start_attempt_Inr:
  assumes "start_attempt c i t worker n d aid s = Inr s'"
  shows "\<exists>a. s' = s\<lparr>db_jobs := update_rows (\<lambda>j. ij_id j = i) (leased_row worker n d (now s)) (db_jobs s),
      db_attempts := db_attempts s @ [a]\<rparr> \<and> ja_id a = aid \<and> ja_job_id a = i \<and> ja_attempt_number a = n
    \<and> ja_worker_id a = worker \<and> ja_finished_at a = None \<and> ja_tenant_id a = t \<and> ja_started_at a = now s"
proof -
  let ?a = "\<lparr>ja_id = aid, ja_tenant_id = t, ja_collection_id = c,
        ja_job_id = i, ja_attempt_number = n, ja_worker_id = worker,
        ja_started_at = now s, ja_heartbeat_at = Some (now s), ja_finished_at = None,
        ja_outcome = None, ja_error_class = None, ja_reason_code = None\<rparr>"
  from assms obtain s1 where s1: "update_jobs (\<lambda>j. ij_id j = i) (leased_row worker n d (now s)) s = Inr s1"
    and ins: "insert_attempt ?a s1 = Inr s'"
    unfolding start_attempt_def by (rule bind_res_InrE)
  from s1 have "s1 = s\<lparr>db_jobs := update_rows (\<lambda>j. ij_id j = i) (leased_row worker n d (now s)) (db_jobs s)\<rparr>"
    unfolding update_jobs_Inr by (elim conjE)
  with insert_attempt_Inr [OF ins] show ?thesis
    by (intro exI [of _ ?a]) simp
qed

lemma close_attempts_Inr:
  assumes "close_attempts p outcome ec rc s = Inr s'"
  shows "\<exists>as. s' = s\<lparr>db_attempts := as\<rparr>"
  using assms unfolding close_attempts_def update_attempts_Inr by (elim conjE) (rule exI)

lemma lease_attempt_Some:
  assumes "lease_attempt row version worker d u s = Inr (Some n, s')"
  shows "\<not> lease_active row (now s) \<and> ij_attempt_count row < ij_max_attempts row \<and> n = ij_attempt_count row + 1
    \<and> (\<exists>as a. s' = s\<lparr>db_jobs := update_rows (\<lambda>j. ij_id j = ij_id row) (leased_row worker n d (now s)) (db_jobs s),
        db_attempts := as @ [a]\<rparr> \<and> ja_job_id a = ij_id row \<and> ja_attempt_number a = n \<and> ja_worker_id a = worker
        \<and> ja_finished_at a = None)"
proof -
  from assms have no: "\<not> lease_active row (now s)"
    by (auto simp: lease_attempt_def)
  with assms have lt: "\<not> ij_max_attempts row \<le> ij_attempt_count row"
    by (auto simp: lease_attempt_def bind_res_eq_Inr)
  from assms no lt obtain s1 where s1: "(if ij_state row \<in> {JS_LEASED, JS_RUNNING}
       then expire_attempt (ij_tenant_id row) (ij_id row) (ij_attempt_count row) s else Inr s) = Inr s1"
    and st: "start_attempt (ij_collection_id row) (ij_id row) (ij_tenant_id row) worker
            (ij_attempt_count row + 1) d (u 0) s1 = Inr s'" and n: "n = ij_attempt_count row + 1"
    unfolding lease_attempt_def by (auto simp: bind_res_eq_Inr)
  have "\<exists>as. s1 = s\<lparr>db_attempts := as\<rparr>"
  proof (cases "ij_state row \<in> {JS_LEASED, JS_RUNNING}")
    case True
    with s1 have "expire_attempt (ij_tenant_id row) (ij_id row) (ij_attempt_count row) s = Inr s1"
      by (simp only: if_True)
    then show ?thesis unfolding expire_attempt_def by (rule close_attempts_Inr)
  next
    case False
    with s1 have "s1 = s\<lparr>db_attempts := db_attempts s\<rparr>" by simp
    then show ?thesis by (rule exI)
  qed
  then obtain as where s1: "s1 = s\<lparr>db_attempts := as\<rparr>" by (elim exE)
  from start_attempt_Inr [OF st] obtain a where "s' = s1\<lparr>db_jobs := update_rows (\<lambda>j. ij_id j = ij_id row)
      (leased_row worker (ij_attempt_count row + 1) d (now s1)) (db_jobs s1), db_attempts := db_attempts s1 @ [a]\<rparr>"
    and a: "ja_job_id a = ij_id row" "ja_attempt_number a = ij_attempt_count row + 1" "ja_worker_id a = worker"
      "ja_finished_at a = None"
    by (elim exE conjE)
  then have "s' = s\<lparr>db_jobs := update_rows (\<lambda>j. ij_id j = ij_id row) (leased_row worker n d (now s)) (db_jobs s),
      db_attempts := as @ [a]\<rparr>"
    unfolding s1 n by simp
  with a n no lt show ?thesis
    by (intro conjI exI [of _ as] exI [of _ a]) simp_all
qed

lemma claim_grantedI:
  assumes "row \<in> set (db_jobs s)" and "ij_id row = i" and "job_scope row = (t, cl_collection_id c, v)"
    and "\<not> terminal_job_state (ij_state row)" and "lease_attempt row version worker d u s = Inr (Some n, s1)"
    and "db_jobs s' = db_jobs s1" and "db_attempts s' = db_attempts s1"
    and "cl_id c = i" "cl_tenant_id c = t" "cl_document_version_id c = v" "cl_attempt_number c = n"
      "cl_max_attempts c = ij_max_attempts row"
  shows "claim_granted t v i worker d s c s'"
proof -
  from lease_attempt_Some [OF assms(5)] obtain as a where
    l: "\<not> lease_active row (now s)" "ij_attempt_count row < ij_max_attempts row" "n = ij_attempt_count row + 1"
    and s1: "s1 = s\<lparr>db_jobs := update_rows (\<lambda>j. ij_id j = ij_id row) (leased_row worker n d (now s)) (db_jobs s),
        db_attempts := as @ [a]\<rparr>"
    and a: "ja_job_id a = ij_id row" "ja_attempt_number a = n" "ja_worker_id a = worker" "ja_finished_at a = None"
    by (elim exE conjE)
  have "\<exists>row \<in> set (db_jobs s). ij_id row = i \<and> job_scope row = (t, cl_collection_id c, v)
          \<and> active_job_state (ij_state row) \<and> \<not> lease_active row (now s)
          \<and> ij_attempt_count row < ij_max_attempts row \<and> cl_max_attempts c = ij_max_attempts row
          \<and> cl_attempt_number c = ij_attempt_count row + 1"
    using assms(1-4) l assms(11,12) by (intro bexI [of _ row]) (simp_all add: active_iff_not_terminal)
  moreover have "\<exists>a \<in> set (db_attempts s'). ja_job_id a = i \<and> ja_attempt_number a = cl_attempt_number c
          \<and> ja_worker_id a = worker \<and> ja_finished_at a = None"
    using a s1 assms(2,7,11) by (intro bexI [of _ a]) simp_all
  ultimately show ?thesis
    using s1 assms(2,6,8-11) unfolding claim_granted_def by simp
qed

lemma native_claim_granted:
  assumes "native_claim t v i worker d u s = Inr (Some c, s')"
  shows "claim_granted t v i worker d s c s'"
proof -
  from assms obtain row version original where
    rows: "native_claim_rows t v i s = [(row, version, original)]"
    unfolding native_claim_def
    by (auto elim!: bind_res_InrE simp: one_or_none_Some split: option.splits)
  then have "(row, version, original) \<in> set (native_claim_rows t v i s)" by simp
  then have mem: "row \<in> set (db_jobs s)" "ij_id row = i" "ij_tenant_id row = t" "ij_document_version_id row = v"
    unfolding native_claim_rows_def by (auto split: if_splits)
  note c1 = assms [unfolded native_claim_def rows one_or_none.simps bind_res_Inr option.case prod.case]
  then have act: "\<not> terminal_job_state (ij_state row)" "dv_state version \<notin> native_dead_states"
    by (auto simp: bind_res_eq_Inr split: if_splits)
  from c1 act obtain n s1 where l: "lease_attempt row version worker d u s = Inr (Some n, s1)"
    and ceq: "c = \<lparr>cl_id = i, cl_tenant_id = t, cl_collection_id = ij_collection_id row,
                 cl_document_version_id = v, cl_attempt_number = n,
                 cl_max_attempts = ij_max_attempts row, cl_object_key = dv_object_key version,
                 cl_content_sha256 = dv_content_sha256 version, cl_size_bytes = dv_size_bytes version,
                 cl_pipeline_profile = dv_pipeline_profile version,
                 cl_original_artifact_id = af_id original\<rparr>"
    and tr: "(if dv_state version = QUEUED
        then bind_res (worker_transition PARSING worker (attempt_event i n) None None (u 1) version s1)
           (\<lambda>(_, s2). Inr s2) else Inr s1) = Inr s'"
    by (auto simp: bind_res_eq_Inr split: option.splits)
  have fr: "db_jobs s' = db_jobs s1 \<and> db_attempts s' = db_attempts s1"
    using tr by (auto simp: bind_res_eq_Inr dest: worker_transition_frame split: if_splits)
  show ?thesis
    by (rule claim_grantedI [OF mem(1) _ _ act(1) l]) (use ceq mem fr in simp_all)
qed

interpretation native: claim_protocol native_claim
  by unfold_locales (rule native_claim_granted)

section \<open>Fencing\<close>

definition job_ids_ok :: "session \<Rightarrow> bool" where
  "job_ids_ok s \<longleftrightarrow> distinct (map ij_id (db_jobs s))"

lemma locked_job_version_eq:
  assumes "version_keys_ok s" and "job_ids_ok s" and "v \<in> set (db_versions s)" and "j \<in> set (db_jobs s)"
    and "job_scope j = version_scope v" and "ij_id j = cl_id job"
    and "cl_tenant_id job = dv_tenant_id v" and "cl_document_version_id job = dv_id v"
  shows "locked_job_version job worker s =
    (if owns_attempt j worker (cl_attempt_number job) then Inr v
     else Inl (JobFenceLostError ''durable job ownership was revoked''))"
proof -
  let ?p = "\<lambda>v. dv_tenant_id v = cl_tenant_id job \<and> dv_id v = cl_document_version_id job"
  let ?q = "\<lambda>v j. job_scope j = version_scope v \<and> ij_id j = cl_id job"
  note vd = assms(1) [unfolded version_keys_ok_def] and jd = assms(2) [unfolded job_ids_ok_def]
  have "length (filter ?p (db_versions s)) \<le> 1"
    using vd by (rule length_filter_key_le_1 [where c = "cl_document_version_id job"]) simp
  moreover have "length (filter (?q w) (db_jobs s)) \<le> 1" for w
    using jd by (rule length_filter_key_le_1 [where c = "cl_id job"]) simp
  ultimately show ?thesis
  proof (rule join_at_most_one [where f = "\<lambda>v j. (v, j)" and xs = "db_versions s"
        and ys = "db_jobs s" and p = ?p and q = ?q], goal_cases)
    case 1
    from 1(2) [OF assms(3,4)] assms(5-8) show ?case by simp
  next
    case (2 w k)
    with assms(3,8) have w: "w = v" by (intro distinct_map_inj_rows [OF vd]) simp_all
    from 2 assms(4,6) have k: "k = j" by (intro distinct_map_inj_rows [OF jd]) simp_all
    show ?case unfolding locked_job_version_def 2(5) by (simp add: w k)
  qed
qed

lemma locked_job_version_Inr:
  assumes "locked_job_version job worker s = Inr v"
  shows "v \<in> set (db_versions s) \<and> dv_tenant_id v = cl_tenant_id job \<and> dv_id v = cl_document_version_id job
    \<and> (\<exists>j \<in> set (db_jobs s). job_scope j = version_scope v \<and> ij_id j = cl_id job
         \<and> owns_attempt j worker (cl_attempt_number job))"
proof -
  let ?L = "[(v, j). v \<leftarrow> db_versions s,
         dv_tenant_id v = cl_tenant_id job \<and> dv_id v = cl_document_version_id job, j \<leftarrow> db_jobs s,
         job_scope j = version_scope v \<and> ij_id j = cl_id job]"
  from assms obtain j where L: "?L = [(v, j)]" and own: "owns_attempt j worker (cl_attempt_number job)"
    unfolding locked_job_version_def
    by (elim bind_res_InrE) (auto simp only: one_Inr split: prod.splits if_splits)
  from L have "(v, j) \<in> set ?L" by (simp only: list.set_intros)
  with own show ?thesis by (auto split: if_splits)
qed

lemma fence_error_propagates:
  assumes "locked_job_version job worker s = Inl e"
  shows "native_succeed job worker route pages artifacts ma u s = Inl e"
    and "fail_permanently job worker st reason artifacts u s = Inl e"
    and "schedule_retry job worker reason delay s = Inl e"
  using assms by (simp_all add: native_succeed_def fail_permanently_def schedule_retry_def)

lemma update_rows_ids: "(\<And>j. ij_id (f j) = ij_id j) \<Longrightarrow> map ij_id (update_rows p f js) = map ij_id js"
  by (rule map_update_rows) simp

lemma native_claim_cases:
  assumes "native_claim t v i worker d u s = Inr (Some c, s')"
  obtains row version n s1 where "row \<in> set (db_jobs s)" "version \<in> set (db_versions s)"
    "ij_id row = i" "version_scope version = job_scope row" "job_scope row = (t, ij_collection_id row, v)"
    "lease_attempt row version worker d u s = Inr (Some n, s1)"
    "dv_state version = QUEUED \<and> (\<exists>w. worker_transition PARSING worker (attempt_event i n) None None (u 1) version s1
        = Inr (w, s')) \<or> dv_state version \<noteq> QUEUED \<and> s' = s1"
proof -
  from assms obtain row version original where
    rows: "native_claim_rows t v i s = [(row, version, original)]"
    unfolding native_claim_def
    by (auto elim!: bind_res_InrE simp: one_or_none_Some split: option.splits)
  then have "(row, version, original) \<in> set (native_claim_rows t v i s)" by simp
  then have mem: "row \<in> set (db_jobs s)" "version \<in> set (db_versions s)" "ij_id row = i"
    "version_scope version = job_scope row" "job_scope row = (t, ij_collection_id row, v)"
    unfolding native_claim_rows_def by (auto split: if_splits)
  note c1 = assms [unfolded native_claim_def rows one_or_none.simps bind_res_Inr option.case prod.case]
  then have "\<not> terminal_job_state (ij_state row)" "dv_state version \<notin> native_dead_states"
    by (auto simp: bind_res_eq_Inr split: if_splits)
  with c1 obtain n s1 where "lease_attempt row version worker d u s = Inr (Some n, s1)"
    "dv_state version = QUEUED \<and> (\<exists>w. worker_transition PARSING worker (attempt_event i n) None None (u 1) version s1
        = Inr (w, s')) \<or> dv_state version \<noteq> QUEUED \<and> s' = s1"
    by (auto simp: bind_res_eq_Inr split: option.splits if_splits)
  with mem show thesis by (rule that)
qed

lemma native_claim_ok:
  assumes "native_claim t v i worker d u s = Inr (Some c, s')" and "version_keys_ok s" and "audit_ok s" and "job_ids_ok s"
  shows "version_keys_ok s' \<and> audit_ok s' \<and> job_ids_ok s'
    \<and> map version_scope (db_versions s') = map version_scope (db_versions s)"
  using assms(1)
proof (cases rule: native_claim_cases)
  case (1 row version n s1)
  from lease_attempt_Some [OF 1(6)] obtain as a where
    s1: "s1 = s\<lparr>db_jobs := update_rows (\<lambda>j. ij_id j = ij_id row) (leased_row worker n d (now s)) (db_jobs s),
        db_attempts := as @ [a]\<rparr>"
    by (elim exE conjE)
  have ok1: "version_keys_ok s1" "audit_ok s1" "job_ids_ok s1" "version \<in> set (db_versions s1)"
    using assms(2-4) s1 1(2) by (simp_all add: version_keys_ok_def audit_ok_jobs job_ids_ok_def update_rows_ids)
  from 1(7) show ?thesis
  proof (elim disjE conjE exE)
    fix w assume "worker_transition PARSING worker (attempt_event i n) None None (u 1) version s1 = Inr (w, s')"
    from worker_transition_ok [OF this ok1(4,1,2)] worker_transition_frame [OF this] ok1(3) s1 show ?thesis
      by (simp add: job_ids_ok_def)
  next
    assume "s' = s1"
    with ok1 s1 show ?thesis by simp
  qed
qed

text \<open>C11: a claim is exclusive and bounded: the granted attempt is between 1 and the job's maximum,
  and until the lease runs out no claim of the job by any worker is granted, whatever else
  changes in the database.\<close>

theorem native_claim_exclusive:
  assumes "native_claim t v i worker d u s = Inr (Some c, s')" and "\<forall>j \<in> set (db_jobs s). 0 \<le> ij_attempt_count j"
    and "db_jobs s2 = db_jobs s'" and "now s2 < now s + d"
  shows "1 \<le> cl_attempt_number c \<and> cl_attempt_number c \<le> cl_max_attempts c
    \<and> (\<forall>t' v' worker' d' u' c' s3. native_claim t' v' i worker' d' u' s2 \<noteq> Inr (Some c', s3))"
  using native.claim_bounded [OF assms(1,2)] native.claim_exclusive [OF assms(1,3,4)] by simp

text \<open>C12: fencing: once a claim of the job was granted, a worker that still holds an earlier
  attempt, or the same attempt number under another name, can neither commit, nor fail, nor
  reschedule the job: each of the three raises the fence error, so the transaction rolls back.\<close>

theorem stale_worker_fenced:
  assumes "native_claim t v i worker d u s = Inr (Some c, s')" and "version_keys_ok s" "audit_ok s" "job_ids_ok s"
    and "cl_id old = i" "cl_tenant_id old = t" "cl_document_version_id old = v"
    and "worker' \<noteq> worker \<or> cl_attempt_number old \<noteq> cl_attempt_number c"
  shows "native_succeed old worker' route pages artifacts ma u' s' = Inl (JobFenceLostError ''durable job ownership was revoked'')
    \<and> fail_permanently old worker' st reason artifacts u' s' = Inl (JobFenceLostError ''durable job ownership was revoked'')
    \<and> schedule_retry old worker' reason delay s' = Inl (JobFenceLostError ''durable job ownership was revoked'')"
proof -
  note ok = native_claim_ok [OF assms(1-4)]
  from native_claim_cases [OF assms(1)] obtain row version where r: "row \<in> set (db_jobs s)" "version \<in> set (db_versions s)"
    "ij_id row = i" "version_scope version = job_scope row" "job_scope row = (t, ij_collection_id row, v)"
    by metis
  from ok have "set (map version_scope (db_versions s)) \<subseteq> set (map version_scope (db_versions s'))" by simp
  from scopes_keep_access [OF r(2) this] obtain w where w: "w \<in> set (db_versions s')" "version_scope w = version_scope version"
    by (elim bexE)
  from native_claim_granted [OF assms(1)] have jobs: "db_jobs s' = update_rows (\<lambda>j. ij_id j = i)
      (leased_row worker (cl_attempt_number c) d (now s)) (db_jobs s)"
    unfolding claim_granted_def by (elim conjE)
  let ?j = "leased_row worker (cl_attempt_number c) d (now s) row"
  have j: "?j \<in> set (db_jobs s')" unfolding jobs set_update_rows using r(1,3) by blast
  have "\<not> owns_attempt ?j worker' (cl_attempt_number old)"
    using native.stale_not_owner [OF assms(1,8) j] r(3) by simp
  then have "locked_job_version old worker' s' = Inl (JobFenceLostError ''durable job ownership was revoked'')"
    using locked_job_version_eq [of s' w ?j old worker'] ok w r j assms(5-7) by simp
  then show ?thesis by (simp add: fence_error_propagates)
qed

section \<open>Committing a job\<close>

lemma bind_res_pairE:
  assumes "bind_res m (\<lambda>(a, b). f a b) = Inr y"
  obtains a b where "m = Inr (a, b)" "f a b = Inr y"
  using assms by (auto simp: bind_res_eq_Inr)

lemma bind_res_quadE:
  assumes "bind_res m (\<lambda>(a, b, c, d). f a b c d) = Inr y"
  obtains a b c d where "m = Inr (a, b, c, d)" "f a b c d = Inr y"
  using assms by (auto simp: bind_res_eq_Inr)

lemma insert_artifacts_frame:
  assumes "insert_artifacts job as u s = Inr s'"
  shows "\<exists>rows. s' = s\<lparr>db_artifacts := rows\<rparr> \<and> set (db_artifacts s) \<subseteq> set rows
    \<and> (\<forall>a \<in> set as. \<exists>r \<in> set rows. artifact_output r = artifact_output (published_row job a 0 0))"
  using assms
proof (induction as arbitrary: u s)
  case Nil
  then show ?case by (intro exI [of _ "db_artifacts s"]) simp
next
  case (Cons a as)
  from Cons.prems obtain s1 where s1: "insert_artifact (published_row job a (u 0) (now s)) s = Inr s1"
    and rest: "insert_artifacts job as (\<lambda>n. u (n + 1)) s1 = Inr s'"
    by (auto elim: bind_res_InrE)
  from insert_artifact_frame [OF s1] obtain r1 where r1: "s1 = s\<lparr>db_artifacts := r1\<rparr>"
    "\<exists>r \<in> set r1. artifact_output r = artifact_output (published_row job a (u 0) (now s))"
    "set (db_artifacts s) \<subseteq> set r1"
    by (elim exE conjE)
  from Cons.IH [OF rest] obtain r2 where r2: "s' = s1\<lparr>db_artifacts := r2\<rparr>" "set (db_artifacts s1) \<subseteq> set r2"
    "\<forall>a \<in> set as. \<exists>r \<in> set r2. artifact_output r = artifact_output (published_row job a 0 0)"
    by (elim exE conjE)
  have "artifact_output (published_row job a (u 0) (now s)) = artifact_output (published_row job a 0 0)"
    by (simp add: artifact_output_def published_row_def)
  with r1 r2 show ?case
    by (intro exI [of _ r2]) auto
qed

lemma upsert_job_Inr:
  assumes "upsert_job r s = Inr (i, s')"
  shows "(\<exists>j \<in> set (db_jobs s). ij_id j = i \<and> job_delivery j = job_delivery r \<and> s' = s)
    \<or> (s' = s\<lparr>db_jobs := db_jobs s @ [r]\<rparr> \<and> i = ij_id r \<and> i \<notin> ij_id ` set (db_jobs s)
        \<and> job_delivery r \<notin> job_delivery ` set (db_jobs s))"
proof (cases "filter (\<lambda>j. job_delivery j = job_delivery r) (db_jobs s)")
  case Nil
  with assms have "insert_job r s = Inr s'" "i = ij_id r"
    unfolding upsert_job_def Nil by (auto simp: bind_res_eq_Inr)
  with insert_job_Inr [of r s s'] show ?thesis by (intro disjI2) simp
next
  case (Cons j js)
  then have "j \<in> set (filter (\<lambda>j. job_delivery j = job_delivery r) (db_jobs s))" by (simp only: list.set_intros)
  then have "j \<in> set (db_jobs s)" "job_delivery j = job_delivery r" by simp_all
  moreover have "i = ij_id j" "s' = s"
    using assms unfolding upsert_job_def Cons by (auto simp: bind_res_eq_Inr)
  ultimately show ?thesis by (intro disjI1 bexI [of _ j] conjI) simp_all
qed

lemma finish_attempt_Inr:
  assumes "finish_attempt job outcome ec rc s = Inr s'"
  shows "\<exists>as. s' = s\<lparr>db_attempts := as\<rparr> \<and> (\<forall>a \<in> set as. ja_tenant_id a = cl_tenant_id job
    \<and> ja_job_id a = cl_id job \<and> ja_attempt_number a = cl_attempt_number job \<longrightarrow> ja_finished_at a \<noteq> None)"
proof -
  from assms have "s' = s\<lparr>db_attempts := update_rows (\<lambda>a. (ja_tenant_id a = cl_tenant_id job \<and> ja_job_id a = cl_id job
       \<and> ja_attempt_number a = cl_attempt_number job) \<and> ja_finished_at a = None)
      (\<lambda>a. a\<lparr>ja_finished_at := Some (now s), ja_heartbeat_at := Some (now s),
              ja_outcome := Some outcome, ja_error_class := ec, ja_reason_code := rc\<rparr>) (db_attempts s)\<rparr>"
    unfolding finish_attempt_def close_attempts_def update_attempts_Inr by (elim conjE)
  then show ?thesis
    by (intro exI conjI) (assumption, auto simp: set_update_rows)
qed

lemma finish_lifecycle_request_Inr:
  assumes "finish_lifecycle_request i st s = Inr s'"
  shows "\<exists>qs. s' = s\<lparr>db_requests := qs\<rparr> \<and> (\<forall>r \<in> set qs. \<forall>j \<in> set (db_jobs s). ij_id j = i
    \<and> ij_lifecycle_request_id j = Some (lr_id r) \<longrightarrow> lr_state r \<in> {RS_SUCCEEDED, RS_FAILED, st})"
proof -
  let ?p = "\<lambda>r. lr_state r \<in> {RS_PENDING, RS_RUNNING}
         \<and> list_ex (\<lambda>j. ij_id j = i \<and> ij_lifecycle_request_id j = Some (lr_id r)) (db_jobs s)"
  let ?f = "\<lambda>r. r\<lparr>lr_state := st, lr_completed_at := Some (now s)\<rparr>"
  from assms have "s' = s\<lparr>db_requests := update_rows ?p ?f (db_requests s)\<rparr>"
    unfolding finish_lifecycle_request_def update_requests_Inr by (elim conjE)
  moreover have "lr_state r \<in> {RS_SUCCEEDED, RS_FAILED, st}" if "r \<in> set (update_rows ?p ?f (db_requests s))"
    "j \<in> set (db_jobs s)" "ij_id j = i" "ij_lifecycle_request_id j = Some (lr_id r)" for r j
  proof -
    from that(1) obtain q where q: "q \<in> set (db_requests s)" "r = (if ?p q then ?f q else q)"
      unfolding update_rows_def set_map by (elim imageE)
    show ?thesis
    proof (cases "?p q")
      case True
      then show ?thesis using q(2) by simp
    next
      case False
      with q(2) have "r = q" by (simp only: if_False)
      with False that(2-4) have "lr_state r \<notin> {RS_PENDING, RS_RUNNING}"
        by (auto simp: list_ex_iff)
      then show ?thesis by (cases "lr_state r") simp_all
    qed
  qed
  ultimately show ?thesis by (intro exI [of _ "update_rows ?p ?f (db_requests s)"] conjI ballI impI) simp_all
qed

lemma create_next_job_Inr:
  assumes "create_next_job job stage ma i s = Inr (nid, s')"
  shows "\<exists>js n. s' = s\<lparr>db_jobs := js\<rparr> \<and> n \<in> set js \<and> ij_id n = nid
    \<and> job_delivery n = ((cl_tenant_id job, cl_collection_id job, cl_document_version_id job), stage, 0)
    \<and> (n \<in> set (db_jobs s) \<or> ij_state n = JS_PENDING)
    \<and> (js = db_jobs s \<or> js = db_jobs s @ [n] \<and> nid \<notin> ij_id ` set (db_jobs s))"
  using upsert_job_Inr [OF assms [unfolded create_next_job_def]]
proof (elim disjE bexE conjE)
  fix j assume "j \<in> set (db_jobs s)" "ij_id j = nid" "s' = s"
    "job_delivery j = job_delivery (new_job i (cl_tenant_id job, cl_collection_id job, cl_document_version_id job)
       stage 0 ma (job_request s (cl_id job)) (now s))"
  then show ?thesis
    by (intro exI [of _ "db_jobs s"] exI [of _ j]) (simp add: job_delivery_def new_job_def)
next
  let ?r = "new_job i (cl_tenant_id job, cl_collection_id job, cl_document_version_id job)
       stage 0 ma (job_request s (cl_id job)) (now s)"
  assume "s' = s\<lparr>db_jobs := db_jobs s @ [?r]\<rparr>" "nid = ij_id ?r" "nid \<notin> ij_id ` set (db_jobs s)"
  then show ?thesis
    by (intro exI [of _ "db_jobs s @ [?r]"] exI [of _ ?r]) (simp add: job_delivery_def new_job_def)
qed

lemma close_job_Inr:
  assumes "close_job st f i s = Inr s'"
  shows "s' = s\<lparr>db_jobs := update_rows (\<lambda>j. ij_id j = i) (\<lambda>j. f (j\<lparr>ij_state := st, ij_lease_owner := None,
      ij_lease_expires_at := None, ij_heartbeat_at := Some (now s), ij_updated_at := now s\<rparr>)) (db_jobs s)\<rparr>"
  using assms unfolding close_job_def update_jobs_Inr by (elim conjE)

text \<open>The transitions of a commit, on the row whose page count was just stored.\<close>

lemma succeed_transitions:
  assumes "v \<in> set (db_versions s)" and "version_keys_ok s" and "audit_ok s"
    and "version_scope locked = version_scope v" "snapshot_of locked = snapshot_of v"
    and "(if route = ROUTE_NATIVE
       then bind_res (worker_transition NORMALIZING worker k1 None None e1 locked s)
              (\<lambda>(row, s3). Inr (row, CHUNKING, ST_CHUNK, s3))
       else Inr (locked, OCR, ST_OCR, s)) = Inr (row, target, stage, s1)"
    and "worker_transition target worker k2 None None e2 row s1 = Inr (w, s2)"
  shows "audit_ok s2 \<and> version_keys_ok s2 \<and> w \<in> set (db_versions s2)
    \<and> (\<exists>n. w = v\<lparr>dv_state := target, dv_state_revision := n, dv_terminal_reason_code := None,
         dv_updated_at := now s\<rparr>)
    \<and> (if route = ROUTE_NATIVE then target = CHUNKING \<and> stage = ST_CHUNK else target = OCR \<and> stage = ST_OCR)
    \<and> db_jobs s2 = db_jobs s \<and> db_artifacts s2 = db_artifacts s \<and> now s2 = now s"
proof (cases "route = ROUTE_NATIVE")
  case True
  with assms(6) have t1: "worker_transition NORMALIZING worker k1 None None e1 v s = Inr (row, s1)"
    and ts: "target = CHUNKING" "stage = ST_CHUNK"
    by (auto simp: bind_res_eq_Inr worker_transition_cong [OF assms(4,5)])
  from worker_transition_ok [OF t1 assms(1-3)] obtain vs es where ok1: "audit_ok s1" "version_keys_ok s1" "row \<in> set (db_versions s1)"
    and row: "row = v\<lparr>dv_state := NORMALIZING, dv_state_revision := dv_state_revision v + 1,
            dv_terminal_reason_code := None, dv_updated_at := now s\<rparr>"
    by (elim exE conjE)
  note f1 = worker_transition_frame [OF t1] and f2 = worker_transition_frame [OF assms(7)]
  from worker_transition_ok [OF assms(7) ok1(3,2,1)] obtain vs es where ok2: "audit_ok s2" "version_keys_ok s2" "w \<in> set (db_versions s2)"
    and w: "w = row\<lparr>dv_state := target, dv_state_revision := dv_state_revision row + 1,
            dv_terminal_reason_code := None, dv_updated_at := now s1\<rparr>"
    by (elim exE conjE)
  have "w = v\<lparr>dv_state := target, dv_state_revision := dv_state_revision v + 2, dv_terminal_reason_code := None,
         dv_updated_at := now s\<rparr>"
    using w f1 unfolding row by simp
  with ok2 ts True f1 f2 show ?thesis by (intro conjI exI [of _ "dv_state_revision v + 2"]) simp_all
next
  case False
  with assms(6) have t: "row = locked" "target = OCR" "stage = ST_OCR" "s1 = s" by simp_all
  with assms(7) have t1: "worker_transition OCR worker k2 None None e2 v s = Inr (w, s2)"
    by (simp add: worker_transition_cong [OF assms(4,5)])
  from worker_transition_ok [OF t1 assms(1-3)] obtain vs es where ok1: "audit_ok s2" "version_keys_ok s2" "w \<in> set (db_versions s2)"
    and w: "w = v\<lparr>dv_state := OCR, dv_state_revision := dv_state_revision v + 1,
            dv_terminal_reason_code := None, dv_updated_at := now s\<rparr>"
    by (elim exE conjE)
  from ok1 t False worker_transition_frame [OF t1] w show ?thesis
    by (intro conjI exI [of _ "dv_state_revision v + 1"]) simp_all
qed

lemma native_succeed_steps:
  assumes "native_succeed job worker route pages artifacts ma u s = Inr (nxt, s')"
  obtains locked s1 rows s2 row target stage s3 w s4 nid s5 s6 where
    "locked_job_version job worker s = Inr locked"
    "insert_artifacts job artifacts (\<lambda>n. u (n + 3)) s = Inr s1"
    "update_versions False (\<lambda>v. dv_tenant_id v = cl_tenant_id job \<and> dv_id v = cl_document_version_id job)
         (\<lambda>v. v\<lparr>dv_page_count := Some pages\<rparr>) s1 = Inr (rows, s2)"
    "(if route = ROUTE_NATIVE
       then bind_res (worker_transition NORMALIZING worker
              (''worker:'' @ str_uuid (cl_id job) @ '':normalizing'') None None (u 0) locked s2)
              (\<lambda>(row, s3). Inr (row, CHUNKING, ST_CHUNK, s3))
       else Inr (locked, OCR, ST_OCR, s2)) = Inr (row, target, stage, s3)"
    "worker_transition target worker (''worker:'' @ str_uuid (cl_id job) @ '':'' @ VersionState_value target)
         None None (u 1) row s3 = Inr (w, s4)"
    "create_next_job job stage ma (u 2) s4 = Inr (nid, s5)"
    "finish_attempt job ''succeeded'' None None s5 = Inr s6"
    "close_job JS_SUCCEEDED id (cl_id job) s6 = Inr s'"
    "nxt = \<lparr>nj_id = nid, nj_stage = stage\<rparr>"
proof -
  from assms obtain locked where l: "locked_job_version job worker s = Inr locked"
    unfolding native_succeed_def by (rule bind_res_InrE)
  note a = assms [unfolded native_succeed_def l bind_res_Inr]
  from a obtain s1 where s1: "insert_artifacts job artifacts (\<lambda>n. u (n + 3)) s = Inr s1"
    by (rule bind_res_InrE)
  note a = a [unfolded s1 bind_res_Inr]
  from a show thesis
    by (elim bind_res_quadE bind_res_pairE bind_res_InrE)
       (rule that [OF l s1], assumption+, auto)
qed

text \<open>The first half of a commit: artifacts, page count and transitions.\<close>

lemma succeed_first_half:
  assumes st: "locked_job_version job worker s = Inr locked"
    "insert_artifacts job artifacts u' s = Inr s1"
    "update_versions False (\<lambda>v. dv_tenant_id v = cl_tenant_id job \<and> dv_id v = cl_document_version_id job)
         (\<lambda>v. v\<lparr>dv_page_count := Some pages\<rparr>) s1 = Inr (rows, s2)"
    "(if route = ROUTE_NATIVE
       then bind_res (worker_transition NORMALIZING worker k1 None None e1 locked s2)
              (\<lambda>(row, s3). Inr (row, CHUNKING, ST_CHUNK, s3))
       else Inr (locked, OCR, ST_OCR, s2)) = Inr (row, target, stage, s3)"
    "worker_transition target worker k2 None None e2 row s3 = Inr (w, s4)"
    and ok: "version_keys_ok s" "audit_ok s"
  shows "audit_ok s4 \<and> version_keys_ok s4 \<and> db_jobs s4 = db_jobs s
    \<and> w \<in> set (db_versions s4) \<and> dv_id w = cl_document_version_id job \<and> dv_page_count w = Some pages
    \<and> dv_state w = target \<and> target = (if route = ROUTE_NATIVE then CHUNKING else OCR)
    \<and> stage = (if route = ROUTE_NATIVE then ST_CHUNK else ST_OCR)
    \<and> (\<forall>a \<in> set artifacts. \<exists>r \<in> set (db_artifacts s4). artifact_output r = artifact_output (published_row job a 0 0))"
proof -
  let ?m = "locked\<lparr>dv_page_count := Some pages\<rparr>"
  from locked_job_version_Inr [OF st(1)] have lk: "locked \<in> set (db_versions s)"
    "dv_tenant_id locked = cl_tenant_id job" "dv_id locked = cl_document_version_id job"
    by simp_all
  from insert_artifacts_frame [OF st(2)] obtain rs where s1: "s1 = s\<lparr>db_artifacts := rs\<rparr>"
    and arts: "\<forall>a \<in> set artifacts. \<exists>r \<in> set rs. artifact_output r = artifact_output (published_row job a 0 0)"
    by (elim exE conjE)
  have ok1: "version_keys_ok s1" "audit_ok s1"
    using ok s1 by (simp_all add: version_keys_ok_def audit_ok_jobs)
  from st(3) have s2: "s2 = s1\<lparr>db_versions := update_rows (\<lambda>v. dv_tenant_id v = cl_tenant_id job
      \<and> dv_id v = cl_document_version_id job) (\<lambda>v. v\<lparr>dv_page_count := Some pages\<rparr>) (db_versions s1)\<rparr>"
    unfolding update_versions_Inr by (elim conjE)
  have ok2: "version_keys_ok s2" "audit_ok s2"
    using update_versions_quiet [OF st(3) ok1] by simp_all
  have m: "?m \<in> set (db_versions s2)"
    using lk s1 s2 by (simp add: table_simps)
  note tr = succeed_transitions [OF m ok2 _ _ st(4) st(5)]
  have "version_scope locked = version_scope ?m" "snapshot_of locked = snapshot_of ?m"
    by (simp_all add: snapshot_of_def)
  note tr = tr [OF this]
  have w: "w \<in> set (db_versions s4)" "dv_id w = cl_document_version_id job" "dv_page_count w = Some pages" "dv_state w = target"
    using tr lk(3) by auto
  have f4: "audit_ok s4" "version_keys_ok s4" "db_jobs s4 = db_jobs s" "db_artifacts s4 = rs"
    using tr s1 s2 by simp_all
  have ts: "target = (if route = ROUTE_NATIVE then CHUNKING else OCR)"
    "stage = (if route = ROUTE_NATIVE then ST_CHUNK else ST_OCR)"
    using tr by (simp_all split: if_splits)
  show ?thesis using w f4 ts arts by simp
qed

text \<open>The last steps every commit shares: the successor, the attempt and the job.\<close>

lemma commit_tail:
  assumes succ: "create_next_job job stage ma i s = Inr (nid, s1)"
    and fin: "finish_attempt job ''succeeded'' None None s1 = Inr s2"
    and cl: "close_job JS_SUCCEEDED id (cl_id job) s2 = Inr s'"
    and own: "j0 \<in> set (db_jobs s)" "ij_id j0 = cl_id job"
    and st: "\<forall>j \<in> set (db_jobs s). ij_id j = cl_id job \<longrightarrow> ij_stage j \<noteq> stage"
  shows "(\<exists>js as. s' = s\<lparr>db_jobs := js, db_attempts := as\<rparr>)
    \<and> (\<forall>j \<in> set (db_jobs s'). ij_id j = cl_id job \<longrightarrow> ij_state j = JS_SUCCEEDED \<and> ij_lease_owner j = None)
    \<and> (\<exists>n \<in> set (db_jobs s'). ij_id n = nid \<and> ij_stage n = stage \<and> ij_generation n = 0
         \<and> job_scope n = (cl_tenant_id job, cl_collection_id job, cl_document_version_id job)
         \<and> (n \<in> set (db_jobs s) \<or> ij_state n = JS_PENDING))"
proof -
  from create_next_job_Inr [OF succ] obtain js nrow where s1: "s1 = s\<lparr>db_jobs := js\<rparr>" and nrow: "nrow \<in> set js" "ij_id nrow = nid"
      "job_delivery nrow = ((cl_tenant_id job, cl_collection_id job, cl_document_version_id job), stage, 0)"
      "nrow \<in> set (db_jobs s) \<or> ij_state nrow = JS_PENDING"
    and js: "js = db_jobs s \<or> js = db_jobs s @ [nrow] \<and> nid \<notin> ij_id ` set (db_jobs s)"
    by (elim exE conjE)
  from close_attempts_Inr [OF fin [unfolded finish_attempt_def]] obtain as where s2: "s2 = s1\<lparr>db_attempts := as\<rparr>"
    by (elim exE)
  have nid: "nid \<noteq> cl_id job"
  proof
    assume eq: "nid = cl_id job"
    with js own have "js = db_jobs s" by (metis imageI)
    with nrow(1,2) eq st have "ij_stage nrow \<noteq> stage" by simp
    with nrow(3) show False by (simp add: job_delivery_def)
  qed
  let ?js = "update_rows (\<lambda>j. ij_id j = cl_id job) (\<lambda>j. id (j\<lparr>ij_state := JS_SUCCEEDED, ij_lease_owner := None,
      ij_lease_expires_at := None, ij_heartbeat_at := Some (now s2), ij_updated_at := now s2\<rparr>)) js"
  have s': "s' = s\<lparr>db_jobs := ?js, db_attempts := as\<rparr>"
    using close_job_Inr [OF cl] s2 s1 by simp
  then have jobs: "db_jobs s' = ?js" by simp
  have "nrow \<in> set (db_jobs s')"
    unfolding jobs set_update_rows using nrow(1,2) nid by blast
  then have n: "\<exists>n \<in> set (db_jobs s'). ij_id n = nid \<and> ij_stage n = stage \<and> ij_generation n = 0
         \<and> job_scope n = (cl_tenant_id job, cl_collection_id job, cl_document_version_id job)
         \<and> (n \<in> set (db_jobs s) \<or> ij_state n = JS_PENDING)"
    using nrow by (intro bexI [of _ nrow]) (simp_all add: job_delivery_def)
  have closed: "\<forall>j \<in> set (db_jobs s'). ij_id j = cl_id job \<longrightarrow> ij_state j = JS_SUCCEEDED \<and> ij_lease_owner j = None"
    unfolding jobs set_update_rows by auto
  from s' have "\<exists>js as. s' = s\<lparr>db_jobs := js, db_attempts := as\<rparr>" by (intro exI)
  with n closed show ?thesis by (intro conjI)
qed

text \<open>C13: a successful commit under the fence records the transitions, leaves the version in
  \<open>chunking\<close> (native route) or \<open>ocr\<close> (otherwise) with its page count, stores every artifact, closes
  the job as succeeded without a lease, and names a successor job of the next stage that exists
  in the database. The audit trail and the keys hold afterwards.\<close>

theorem native_succeed_effect:
  assumes "native_succeed job worker route pages artifacts ma u s = Inr (nxt, s')"
    and "version_keys_ok s" and "audit_ok s" and "cl_collection_id job = c"
    and "\<forall>j \<in> set (db_jobs s). ij_id j = cl_id job \<longrightarrow> ij_collection_id j = c \<and> ij_stage j \<notin> {ST_CHUNK, ST_OCR}"
  shows "audit_ok s' \<and> version_keys_ok s'
    \<and> (\<exists>w \<in> set (db_versions s'). dv_id w = cl_document_version_id job \<and> dv_page_count w = Some pages
         \<and> dv_state w = (if route = ROUTE_NATIVE then CHUNKING else OCR))
    \<and> (\<forall>a \<in> set artifacts. \<exists>r \<in> set (db_artifacts s'). artifact_output r = artifact_output (published_row job a 0 0))
    \<and> (\<forall>j \<in> set (db_jobs s'). ij_id j = cl_id job \<longrightarrow> ij_state j = JS_SUCCEEDED \<and> ij_lease_owner j = None)
    \<and> nj_stage nxt = (if route = ROUTE_NATIVE then ST_CHUNK else ST_OCR)
    \<and> (\<exists>n \<in> set (db_jobs s'). ij_id n = nj_id nxt \<and> ij_stage n = nj_stage nxt \<and> ij_generation n = 0
         \<and> job_scope n = (cl_tenant_id job, c, cl_document_version_id job)
         \<and> (n \<in> set (db_jobs s) \<or> ij_state n = JS_PENDING))"
  using assms(1)
proof (cases rule: native_succeed_steps)
  case (1 locked s1 rows s2 row target stage s3 w s4 nid s5 s6)
  note h = succeed_first_half [OF 1(1-5) assms(2,3)]
  then have f4: "db_jobs s4 = db_jobs s" and ts: "stage = (if route = ROUTE_NATIVE then ST_CHUNK else ST_OCR)" by simp_all
  from locked_job_version_Inr [OF 1(1)] obtain j0 where j0: "j0 \<in> set (db_jobs s4)" "ij_id j0 = cl_id job"
    unfolding f4 by blast
  have "\<forall>j \<in> set (db_jobs s4). ij_id j = cl_id job \<longrightarrow> ij_stage j \<noteq> stage"
    using assms(5) f4 ts by auto
  note t = commit_tail [OF 1(6-8) j0 this, unfolded f4 assms(4)]
  then have rest: "db_versions s' = db_versions s4" "db_events s' = db_events s4" "db_artifacts s' = db_artifacts s4"
    by auto
  have "audit_ok s'" "version_keys_ok s'"
    using h rest by (simp_all add: audit_ok_def events_of_def version_exists_def version_keys_ok_def)
  moreover have "\<exists>w \<in> set (db_versions s'). dv_id w = cl_document_version_id job \<and> dv_page_count w = Some pages
         \<and> dv_state w = (if route = ROUTE_NATIVE then CHUNKING else OCR)"
    using h rest(1) by (intro bexI [of _ w]) simp_all
  ultimately show ?thesis
    using h t rest(3) ts 1(9) by simp
qed

text \<open>C14: the successor of a commit is the job of generation 0, whatever its state: when such a job
  of the next stage already exists, for example because an earlier run of the version failed in
  that stage and the version was retried, the commit names that job and creates none, so when the
  job is finished no job of the version is left to run the next stage.\<close>

theorem commit_reuses_successor:
  assumes "native_succeed job worker route pages artifacts ma u s = Inr (nxt, s')"
    and "version_keys_ok s" and "audit_ok s"
    and "distinct (map job_delivery (db_jobs s))" and "j \<in> set (db_jobs s)"
    and "job_delivery j = ((cl_tenant_id job, cl_collection_id job, cl_document_version_id job),
           (if route = ROUTE_NATIVE then ST_CHUNK else ST_OCR), 0)"
  shows "nj_id nxt = ij_id j \<and> map ij_id (db_jobs s') = map ij_id (db_jobs s)
    \<and> (ij_id j \<noteq> cl_id job \<longrightarrow> j \<in> set (db_jobs s'))"
  using assms(1)
proof (cases rule: native_succeed_steps)
  case (1 locked s1 rows s2 row target stage s3 w s4 nid s5 s6)
  from succeed_first_half [OF 1(1-5) assms(2,3)] have f: "db_jobs s4 = db_jobs s"
    "stage = (if route = ROUTE_NATIVE then ST_CHUNK else ST_OCR)" by simp_all
  let ?r = "new_job (u 2) (cl_tenant_id job, cl_collection_id job, cl_document_version_id job) stage 0 ma
       (job_request s4 (cl_id job)) (now s4)"
  have r: "job_delivery ?r = job_delivery j"
    using assms(6) f(2) by (simp add: job_delivery_def new_job_def)
  have "filter (\<lambda>k. job_delivery k = job_delivery ?r) (db_jobs s4) = [j]"
    unfolding r f(1) by (rule filter_key_unique [OF assms(4,5)])
  with 1(6) have "nid = ij_id j" "s5 = s4"
    unfolding create_next_job_def upsert_job_def by (auto simp: bind_res_eq_Inr)
  moreover from close_attempts_Inr [OF 1(7) [unfolded finish_attempt_def]] obtain as where "s6 = s5\<lparr>db_attempts := as\<rparr>"
    by (elim exE)
  ultimately have "db_jobs s' = update_rows (\<lambda>k. ij_id k = cl_id job) (\<lambda>j. id (j\<lparr>ij_state := JS_SUCCEEDED, ij_lease_owner := None,
      ij_lease_expires_at := None, ij_heartbeat_at := Some (now s6), ij_updated_at := now s6\<rparr>)) (db_jobs s)"
    using close_job_Inr [OF 1(8)] f(1) by simp
  with assms(5) \<open>nid = ij_id j\<close> 1(9) show ?thesis
    by (simp add: update_rows_ids set_update_rows)
qed

text \<open>C15: a permanent failure under the fence moves the version to the given state with the
  reason, closes the attempt and the job, and fails the lifecycle request the job belongs to; the
  audit trail and the keys hold afterwards.\<close>

theorem fail_permanently_effect:
  assumes "fail_permanently job worker st reason artifacts u s = Inr s'"
    and "version_keys_ok s" and "audit_ok s"
  shows "audit_ok s' \<and> version_keys_ok s'
    \<and> (\<exists>w \<in> set (db_versions s'). dv_id w = cl_document_version_id job \<and> dv_state w = st
         \<and> dv_terminal_reason_code w = Some reason)
    \<and> (\<forall>j \<in> set (db_jobs s'). ij_id j = cl_id job \<longrightarrow> ij_state j = JS_FAILED \<and> ij_lease_owner j = None)
    \<and> (\<forall>a \<in> set (db_attempts s'). ja_tenant_id a = cl_tenant_id job \<and> ja_job_id a = cl_id job
         \<and> ja_attempt_number a = cl_attempt_number job \<longrightarrow> ja_finished_at a \<noteq> None)
    \<and> (\<forall>r \<in> set (db_requests s'). \<forall>j \<in> set (db_jobs s'). ij_id j = cl_id job
         \<and> ij_lifecycle_request_id j = Some (lr_id r) \<longrightarrow> lr_state r \<in> {RS_SUCCEEDED, RS_FAILED})"
proof -
  from assms(1) obtain locked s1 w s2 s3 s4 where
    l: "locked_job_version job worker s = Inr locked"
    and a: "insert_artifacts job artifacts (\<lambda>n. u (n + 1)) s = Inr s1"
    and t: "worker_transition st worker (''worker:'' @ str_uuid (cl_id job) @ '':terminal:'' @ reason) (Some reason) None
         (u 0) locked s1 = Inr (w, s2)"
    and fin: "finish_attempt job ''permanent_failure''
         (Some (if st \<noteq> QUARANTINED then ''invalid_input'' else ''security'')) (Some reason) s2 = Inr s3"
    and cl: "close_job JS_FAILED (\<lambda>j. j\<lparr>ij_terminal_reason_code := Some reason\<rparr>) (cl_id job) s3 = Inr s4"
    and rq: "finish_lifecycle_request (cl_id job) RS_FAILED s4 = Inr s'"
    unfolding fail_permanently_def by (elim bind_res_pairE bind_res_InrE)
  from locked_job_version_Inr [OF l] have lk: "locked \<in> set (db_versions s)" "dv_id locked = cl_document_version_id job"
    by simp_all
  from insert_artifacts_frame [OF a] obtain rs where s1: "s1 = s\<lparr>db_artifacts := rs\<rparr>" by (elim exE conjE)
  have ok1: "version_keys_ok s1" "audit_ok s1" "locked \<in> set (db_versions s1)"
    using assms(2,3) s1 lk by (simp_all add: version_keys_ok_def audit_ok_jobs)
  from worker_transition_ok [OF t ok1(3,1,2)] obtain vs es where ok2: "audit_ok s2" "version_keys_ok s2" "w \<in> set (db_versions s2)"
    and w: "w = locked\<lparr>dv_state := st, dv_state_revision := dv_state_revision locked + 1,
            dv_terminal_reason_code := Some reason, dv_updated_at := now s1\<rparr>"
    by (elim exE conjE)
  from finish_attempt_Inr [OF fin] obtain as where s3: "s3 = s2\<lparr>db_attempts := as\<rparr>"
    and as: "\<forall>a \<in> set as. ja_tenant_id a = cl_tenant_id job \<and> ja_job_id a = cl_id job
         \<and> ja_attempt_number a = cl_attempt_number job \<longrightarrow> ja_finished_at a \<noteq> None"
    by (elim exE conjE)
  note s4 = close_job_Inr [OF cl]
  from finish_lifecycle_request_Inr [OF rq] obtain qs where s': "s' = s4\<lparr>db_requests := qs\<rparr>"
    and qs: "\<forall>r \<in> set qs. \<forall>j \<in> set (db_jobs s4). ij_id j = cl_id job
         \<and> ij_lifecycle_request_id j = Some (lr_id r) \<longrightarrow> lr_state r \<in> {RS_SUCCEEDED, RS_FAILED}"
    by (elim exE conjE) simp
  have rest: "db_versions s' = db_versions s2" "db_events s' = db_events s2" "db_attempts s' = as"
    "db_jobs s' = db_jobs s4" "db_requests s' = qs"
    using s' s4 s3 by simp_all
  have "audit_ok s'" "version_keys_ok s'"
    using ok2 rest by (simp_all add: audit_ok_def events_of_def version_exists_def version_keys_ok_def)
  moreover have "\<exists>w \<in> set (db_versions s'). dv_id w = cl_document_version_id job \<and> dv_state w = st
         \<and> dv_terminal_reason_code w = Some reason"
    using ok2(3) rest(1) w lk(2) by (intro bexI [of _ w]) simp_all
  moreover have "ij_state j = JS_FAILED \<and> ij_lease_owner j = None" if "j \<in> set (db_jobs s')" "ij_id j = cl_id job" for j
    using that unfolding rest(4) s4 by (auto simp: set_update_rows)
  ultimately show ?thesis using as qs rest by simp
qed

section \<open>Witnesses\<close>

definition sample_claim :: ClaimedNativeJob where
  "sample_claim = \<lparr>cl_id = 23, cl_tenant_id = 1, cl_collection_id = 2, cl_document_version_id = 4,
     cl_attempt_number = 1, cl_max_attempts = 3, cl_object_key = ''k'', cl_content_sha256 = sample_sha,
     cl_size_bytes = 100, cl_pipeline_profile = ''v1'', cl_original_artifact_id = 21\<rparr>"

definition parsing_version :: version_row where
  "parsing_version = queued_version\<lparr>dv_state := PARSING, dv_state_revision := 3\<rparr>"

definition claim_event :: event_row where
  "claim_event = \<lparr>ev_id = 41, ev_tenant_id = 1, ev_collection_id = 2, ev_document_version_id = 4,
     ev_idempotency_key = attempt_event 23 1, ev_from_state = QUEUED, ev_to_state = PARSING,
     ev_from_revision = 2, ev_to_revision = 3, ev_operation = ''advance'', ev_actor_type = ''worker'',
     ev_actor_id = ''w1''\<rparr>"

definition parsing_session :: session where
  "parsing_session = queued_session\<lparr>db_versions := [parsing_version],
     db_jobs := [leased_row ''w1'' 1 (seconds 60) 10 (new_job 23 (1, 2, 4) ST_PREFLIGHT 0 3 None 10)],
     db_attempts := [\<lparr>ja_id = 40, ja_tenant_id = 1, ja_collection_id = 2, ja_job_id = 23,
       ja_attempt_number = 1, ja_worker_id = ''w1'', ja_started_at = 10, ja_heartbeat_at = Some 10,
       ja_finished_at = None, ja_outcome = None, ja_error_class = None, ja_reason_code = None\<rparr>],
     db_events := db_events queued_session @ [claim_event]\<rparr>"

lemmas worker_eval = worker_transition_def transition_version_def snapshot_of_def validate_progress_def
  validate_operation_def operation_allowed_def validate_terminal_reason_def TERMINAL_STATES_def
  statement_defs raise_if_def Let_def

lemma sample_native_claim:
  "native_claim 1 4 23 ''w1'' (seconds 60) (\<lambda>n. word_of_nat (n + 40)) queued_session
     = Inr (Some sample_claim, parsing_session)"
  by (simp add: native_claim_def native_claim_rows_def artifacts_of_def native_dead_states_def
      terminal_job_state_def lease_attempt_def lease_active_def start_attempt_def worker_eval
      new_job_def original_pdf_artifact_def parsing_session_def parsing_version_def claim_event_def
      sample_claim_def attempt_event_def queued_session_def queued_version_def sample_defs)

lemma parsing_session_ok: "version_keys_ok parsing_session \<and> audit_ok parsing_session \<and> job_ids_ok parsing_session"
proof -
  have "job_ids_ok queued_session"
    by (simp add: job_ids_ok_def queued_session_def)
  then show ?thesis
    using native_claim_ok [OF sample_native_claim] queued_session_ok by simp
qed

theorem native_claim_exclusive_witness:
  "cl_attempt_number sample_claim \<le> cl_max_attempts sample_claim
    \<and> native_claim 1 4 23 ''w2'' (seconds 60) (\<lambda>n. 0) (parsing_session\<lparr>now := 1000\<rparr>) \<noteq> Inr (Some sample_claim, parsing_session)"
  using native_claim_exclusive [OF sample_native_claim, of "parsing_session\<lparr>now := 1000\<rparr>"]
  by (simp add: queued_session_def new_job_def sample_defs)

theorem stale_worker_fenced_witness:
  "schedule_retry (sample_claim\<lparr>cl_attempt_number := 0\<rparr>) ''w0'' ''X'' 5 parsing_session
     = Inl (JobFenceLostError ''durable job ownership was revoked'')"
proof -
  have "job_ids_ok queued_session"
    by (simp add: job_ids_ok_def queued_session_def)
  then show ?thesis
    using stale_worker_fenced [OF sample_native_claim, of "sample_claim\<lparr>cl_attempt_number := 0\<rparr>" "''w0''"
        ROUTE_OCR 1 "[]" 3 "\<lambda>n. 0" FAILED "''X''" 5] queued_session_ok
    by (simp add: sample_claim_def)
qed

lemma sample_commit:
  "\<exists>nxt s'. native_succeed sample_claim ''w1'' ROUTE_OCR 3 [] 3 (\<lambda>n. word_of_nat (n + 50)) parsing_session
     = Inr (nxt, s')"
  by (simp add: native_succeed_def locked_job_version_def owns_attempt_def create_next_job_def upsert_job_def
      job_request_def finish_attempt_def close_attempts_def close_job_def worker_eval
      new_job_def original_pdf_artifact_def parsing_session_def parsing_version_def claim_event_def
      sample_claim_def attempt_event_def queued_session_def queued_version_def sample_defs)

theorem native_succeed_effect_witness:
  "\<exists>nxt s'. native_succeed sample_claim ''w1'' ROUTE_OCR 3 [] 3 (\<lambda>n. word_of_nat (n + 50)) parsing_session
     = Inr (nxt, s') \<and> audit_ok s' \<and> nj_stage nxt = ST_OCR"
proof -
  from sample_commit obtain nxt s' where c: "native_succeed sample_claim ''w1'' ROUTE_OCR 3 [] 3
      (\<lambda>n. word_of_nat (n + 50)) parsing_session = Inr (nxt, s')" by blast
  moreover have "\<forall>j \<in> set (db_jobs parsing_session). ij_id j = cl_id sample_claim \<longrightarrow>
      ij_collection_id j = 2 \<and> ij_stage j \<notin> {ST_CHUNK, ST_OCR}"
    by (simp add: parsing_session_def new_job_def)
  ultimately show ?thesis
    using native_succeed_effect [OF c, of 2] parsing_session_ok by (simp add: sample_claim_def)
qed

text \<open>A version whose OCR job of generation 0 ended as failed, and whose retry is being parsed.\<close>

definition retried_session :: session where
  "retried_session = parsing_session\<lparr>db_jobs := db_jobs parsing_session @
     [(new_job 60 (1, 2, 4) ST_OCR 0 3 None 5)\<lparr>ij_state := JS_FAILED, ij_attempt_count := 3\<rparr>]\<rparr>"

lemma retried_commit:
  "\<exists>nxt s'. native_succeed sample_claim ''w1'' ROUTE_OCR 3 [] 3 (\<lambda>n. word_of_nat (n + 50)) retried_session
     = Inr (nxt, s')"
  by (simp add: native_succeed_def locked_job_version_def owns_attempt_def create_next_job_def upsert_job_def
      job_request_def finish_attempt_def close_attempts_def close_job_def worker_eval
      new_job_def original_pdf_artifact_def retried_session_def parsing_session_def parsing_version_def
      claim_event_def sample_claim_def attempt_event_def queued_session_def queued_version_def sample_defs)

theorem commit_reuses_successor_witness:
  "\<exists>nxt s'. native_succeed sample_claim ''w1'' ROUTE_OCR 3 [] 3 (\<lambda>n. word_of_nat (n + 50)) retried_session
     = Inr (nxt, s') \<and> nj_id nxt = 60 \<and> map ij_id (db_jobs s') = [23, 60]"
proof -
  let ?j = "(new_job 60 (1, 2, 4) ST_OCR 0 3 None 5)\<lparr>ij_state := JS_FAILED, ij_attempt_count := 3\<rparr>"
  from retried_commit obtain nxt s' where c: "native_succeed sample_claim ''w1'' ROUTE_OCR 3 [] 3
      (\<lambda>n. word_of_nat (n + 50)) retried_session = Inr (nxt, s')" by blast
  moreover have "version_keys_ok retried_session" "audit_ok retried_session"
    using parsing_session_ok by (simp_all add: retried_session_def version_keys_ok_def audit_ok_jobs)
  moreover have "distinct (map job_delivery (db_jobs retried_session))" "?j \<in> set (db_jobs retried_session)"
    "map ij_id (db_jobs retried_session) = [23, 60]"
    by (simp_all add: retried_session_def parsing_session_def job_delivery_def new_job_def)
  ultimately show ?thesis
    using commit_reuses_successor [OF c, of ?j] by (simp add: sample_claim_def job_delivery_def new_job_def)
qed

lemma sample_failure:
  "\<exists>s'. fail_permanently sample_claim ''w1'' REJECTED ''PDF_ENCRYPTED'' [] (\<lambda>n. word_of_nat (n + 50)) parsing_session
     = Inr s'"
  by (simp add: fail_permanently_def locked_job_version_def owns_attempt_def finish_lifecycle_request_def
      finish_attempt_def close_attempts_def close_job_def worker_eval
      new_job_def original_pdf_artifact_def parsing_session_def parsing_version_def claim_event_def
      sample_claim_def attempt_event_def queued_session_def queued_version_def sample_defs)

theorem fail_permanently_effect_witness:
  "\<exists>s'. fail_permanently sample_claim ''w1'' REJECTED ''PDF_ENCRYPTED'' [] (\<lambda>n. word_of_nat (n + 50)) parsing_session
     = Inr s' \<and> audit_ok s' \<and> (\<exists>w \<in> set (db_versions s'). dv_id w = 4 \<and> dv_state w = REJECTED)"
proof -
  from sample_failure obtain s' where c: "fail_permanently sample_claim ''w1'' REJECTED ''PDF_ENCRYPTED'' []
      (\<lambda>n. word_of_nat (n + 50)) parsing_session = Inr s'" by blast
  with fail_permanently_effect [OF c] parsing_session_ok show ?thesis
    by (auto simp: sample_claim_def)
qed

end
