(* ===== verification/Ocr_Repository.thy ===== *)
theory Ocr_Repository
  imports Native_Repository
begin

text \<open>
  \<open>ingestion/ocr_repository.py\<close>: the claim and the commit of the OCR stage. The claim is a second
  provider of the \<open>claim_protocol\<close> interface; the commit moves the version through
  \<open>normalizing\<close> to \<open>chunking\<close> and hands over to the chunk stage.
\<close>

section \<open>\<open>OcrJobRepository\<close>\<close>

record ClaimedOcrJob = ClaimedNativeJob +
  cx_extracted_object_key :: string
  cx_extracted_checksum_sha256 :: string
  cx_extracted_generator_version :: string
  cx_page_count :: int

definition ocr_claim_rows ::
  "uuid \<Rightarrow> uuid \<Rightarrow> uuid \<Rightarrow> session \<Rightarrow> (job_row \<times> version_row \<times> artifact_row \<times> artifact_row) list" where
  "ocr_claim_rows tenant_id document_version_id job_id s =
     [(j, v, a, x). j \<leftarrow> db_jobs s,
        ij_id j = job_id \<and> ij_tenant_id j = tenant_id \<and> ij_document_version_id j = document_version_id
          \<and> ij_stage j = ST_OCR,
        v \<leftarrow> db_versions s, version_scope v = job_scope j,
        a \<leftarrow> artifacts_of s (version_scope v) AT_ORIGINAL_PDF,
        x \<leftarrow> artifacts_of s (version_scope v) AT_EXTRACTED_PAGES]"

definition worker_dead_states :: "VersionState set" where
  "worker_dead_states = {CANCELLED, DELETED, FAILED}"

text \<open>\<open>int(str(value))\<close> of a column that may be \<open>NULL\<close>.\<close>

fun int_column :: "int option \<Rightarrow> int res" where
  "int_column (Some n) = Inr n"
| "int_column None = 
     Inl (ValueError (''invalid literal for int() with base 10: '' @ [CHR 0x27] @ ''None'' @ [CHR 0x27]))"

definition ocr_claim ::
  "uuid \<Rightarrow> uuid \<Rightarrow> uuid \<Rightarrow> string \<Rightarrow> timestamp \<Rightarrow> (nat \<Rightarrow> uuid) \<Rightarrow> session
   \<Rightarrow> (ClaimedOcrJob option \<times> session) res" where
  "ocr_claim tenant_id document_version_id job_id worker_id lease_duration u s =
     bind_res (one_or_none (ocr_claim_rows tenant_id document_version_id job_id s)) (\<lambda>row_result.
     case row_result of
       None \<Rightarrow> Inl (ValueError ''OCR ingestion job identity is invalid'')
     | Some (row, version, original, extracted) \<Rightarrow>
         if terminal_job_state (ij_state row) then Inr (None, s)
         else if dv_state version \<in> worker_dead_states
         then bind_res (cancel_job row s) (\<lambda>s1. Inr (None, s1))
         else if dv_state version \<noteq> OCR
         then Inl (ValueError ''document version is not awaiting OCR'')
         else bind_res (lease_attempt row version worker_id lease_duration u s) (\<lambda>(attempt, s1).
           case attempt of
             None \<Rightarrow> Inr (None, s1)
           | Some attempt_number \<Rightarrow>
               bind_res (int_column (dv_page_count version)) (\<lambda>pages.
               Inr (Some \<lparr>cl_id = job_id, cl_tenant_id = tenant_id,
                 cl_collection_id = ij_collection_id row,
                 cl_document_version_id = document_version_id, cl_attempt_number = attempt_number,
                 cl_max_attempts = ij_max_attempts row, cl_object_key = dv_object_key version,
                 cl_content_sha256 = dv_content_sha256 version, cl_size_bytes = dv_size_bytes version,
                 cl_pipeline_profile = dv_pipeline_profile version,
                 cl_original_artifact_id = af_id original,
                 cx_extracted_object_key = af_object_key extracted,
                 cx_extracted_checksum_sha256 = af_checksum_sha256 extracted,
                 cx_extracted_generator_version = af_generator_version extracted,
                 cx_page_count = pages\<rparr>, s1))))"

definition succeed_ocr ::
  "'a ClaimedNativeJob_scheme \<Rightarrow> string \<Rightarrow> PublishedArtifact list \<Rightarrow> int \<Rightarrow> (nat \<Rightarrow> uuid) \<Rightarrow> session
   \<Rightarrow> (NextStageJob \<times> session) res" where
  "succeed_ocr job worker_id artifacts max_attempts u s =
     bind_res (locked_job_version job worker_id s) (\<lambda>locked.
     bind_res (insert_artifacts job artifacts (\<lambda>n. u (n + 3)) s) (\<lambda>s1.
     bind_res (worker_transition NORMALIZING worker_id
         (''worker:'' @ str_uuid (cl_id job) @ '':ocr-normalizing'') None None (u 0) locked s1)
       (\<lambda>(normalized, s2).
     bind_res (worker_transition CHUNKING worker_id
         (''worker:'' @ str_uuid (cl_id job) @ '':ocr-chunking'') None None (u 1) normalized s2)
       (\<lambda>(_, s3).
     bind_res (create_next_job job ST_CHUNK max_attempts (u 2) s3) (\<lambda>(chunk_job_id, s4).
     bind_res (finish_attempt job ''succeeded'' None None s4) (\<lambda>s5.
     bind_res (close_job JS_SUCCEEDED id (cl_id job) s5) (\<lambda>s6.
     Inr (\<lparr>nj_id = chunk_job_id, nj_stage = ST_CHUNK\<rparr>, s6))))))))"

section \<open>The OCR claim keeps the claim protocol\<close>

lemma ocr_claim_cases:
  assumes "ocr_claim t v i worker d u s = Inr (Some c, s')"
  obtains row version original extracted n pages where
    "ocr_claim_rows t v i s = [(row, version, original, extracted)]"
    "\<not> terminal_job_state (ij_state row)" "dv_state version = OCR"
    "lease_attempt row version worker d u s = Inr (Some n, s')" "dv_page_count version = Some pages"
    "ClaimedNativeJob.truncate c = \<lparr>cl_id = i, cl_tenant_id = t, cl_collection_id = ij_collection_id row,
       cl_document_version_id = v, cl_attempt_number = n, cl_max_attempts = ij_max_attempts row,
       cl_object_key = dv_object_key version, cl_content_sha256 = dv_content_sha256 version,
       cl_size_bytes = dv_size_bytes version, cl_pipeline_profile = dv_pipeline_profile version,
       cl_original_artifact_id = af_id original\<rparr>" "cx_page_count c = pages"
proof -
  from assms obtain row version original extracted where
    rows: "ocr_claim_rows t v i s = [(row, version, original, extracted)]"
    unfolding ocr_claim_def
    by (auto elim!: bind_res_InrE simp: one_or_none_Some split: option.splits)
  note c1 = assms [unfolded ocr_claim_def rows one_or_none.simps bind_res_Inr option.case prod.case]
  then have act: "\<not> terminal_job_state (ij_state row)" "dv_state version \<notin> worker_dead_states" "dv_state version = OCR"
    by (auto simp: bind_res_eq_Inr split: if_splits)
  from c1 act obtain n pages where "lease_attempt row version worker d u s = Inr (Some n, s')"
    "int_column (dv_page_count version) = Inr pages"
    "ClaimedNativeJob.truncate c = \<lparr>cl_id = i, cl_tenant_id = t, cl_collection_id = ij_collection_id row,
       cl_document_version_id = v, cl_attempt_number = n, cl_max_attempts = ij_max_attempts row,
       cl_object_key = dv_object_key version, cl_content_sha256 = dv_content_sha256 version,
       cl_size_bytes = dv_size_bytes version, cl_pipeline_profile = dv_pipeline_profile version,
       cl_original_artifact_id = af_id original\<rparr>" "cx_page_count c = pages"
    by (auto simp: bind_res_eq_Inr ClaimedNativeJob.truncate_def split: option.splits)
  moreover from this have "dv_page_count version = Some pages" by (cases "dv_page_count version") simp_all
  ultimately show thesis using that rows act by blast
qed

lemma ocr_claim_granted:
  assumes "ocr_claim t v i worker d u s = Inr (Some c, s')"
  shows "claim_granted t v i worker d s c s'"
  using assms
proof (cases rule: ocr_claim_cases)
  case (1 row version original extracted n pages)
  from 1(1) have "(row, version, original, extracted) \<in> set (ocr_claim_rows t v i s)" by simp
  then have mem: "row \<in> set (db_jobs s)" "ij_id row = i" "ij_tenant_id row = t" "ij_document_version_id row = v"
    unfolding ocr_claim_rows_def by (auto split: if_splits)
  show ?thesis
    by (rule claim_grantedI [OF mem(1) _ _ 1(2) 1(4)]) (use mem 1(6) in \<open>simp_all add: ClaimedNativeJob.truncate_def\<close>)
qed

interpretation ocr: claim_protocol ocr_claim
  by unfold_locales (rule ocr_claim_granted)

text \<open>The OCR claim is exclusive and bounded, as the native claim is, it is granted only while
  the version awaits OCR, and the granted claim carries the page count of the version.\<close>

theorem ocr_claim_exclusive:
  assumes "ocr_claim t v i worker d u s = Inr (Some c, s')" and "\<forall>j \<in> set (db_jobs s). 0 \<le> ij_attempt_count j"
    and "db_jobs s2 = db_jobs s'" and "now s2 < now s + d"
  shows "1 \<le> cl_attempt_number c \<and> cl_attempt_number c \<le> cl_max_attempts c
    \<and> (\<forall>t' v' worker' d' u' c' s3. ocr_claim t' v' i worker' d' u' s2 \<noteq> Inr (Some c', s3))
    \<and> (\<exists>w \<in> set (db_versions s). dv_id w = v \<and> dv_tenant_id w = t \<and> dv_state w = OCR
         \<and> dv_page_count w = Some (cx_page_count c))"
  using assms(1)
proof (cases rule: ocr_claim_cases)
  case (1 row version original extracted n pages)
  from 1(1) have "(row, version, original, extracted) \<in> set (ocr_claim_rows t v i s)" by simp
  then have "version \<in> set (db_versions s)" "dv_id version = v" "dv_tenant_id version = t"
    unfolding ocr_claim_rows_def by (auto split: if_splits)
  then have "\<exists>w \<in> set (db_versions s). dv_id w = v \<and> dv_tenant_id w = t \<and> dv_state w = OCR
         \<and> dv_page_count w = Some (cx_page_count c)"
    using 1(3,5,7) by (intro bexI [of _ version]) simp_all
  then show ?thesis
    using ocr.claim_bounded [OF assms(1,2)] ocr.claim_exclusive [OF assms(1,3,4)] by simp
qed

lemma one_or_none_multiple:
  assumes "x \<in> set xs" and "y \<in> set xs" and "x \<noteq> y"
  shows "one_or_none xs = Inl MultipleResultsFound"
  using assms by (cases xs rule: one_or_none.cases) auto

text \<open>The OCR claim joins every \<open>extracted_pages\<close> artifact of the version and asks for one row:
  once the version has two of them (a retry that parsed the file with another parser version
  stores a second one) the claim raises \<open>MultipleResultsFound\<close> for every worker, whatever the
  state of the job.\<close>

theorem ocr_claim_ambiguous:
  assumes "j \<in> set (db_jobs s)" and "ij_stage j = ST_OCR" and "ver \<in> set (db_versions s)"
    and "version_scope ver = job_scope j"
    and "a \<in> set (artifacts_of s (version_scope ver) AT_ORIGINAL_PDF)"
    and "x \<in> set (artifacts_of s (version_scope ver) AT_EXTRACTED_PAGES)"
    and "y \<in> set (artifacts_of s (version_scope ver) AT_EXTRACTED_PAGES)" and "x \<noteq> y"
  shows "ocr_claim (ij_tenant_id j) (ij_document_version_id j) (ij_id j) worker d u s = Inl MultipleResultsFound"
proof -
  let ?rows = "ocr_claim_rows (ij_tenant_id j) (ij_document_version_id j) (ij_id j) s"
  have "(j, ver, a, z) \<in> set ?rows" if "z \<in> set (artifacts_of s (version_scope ver) AT_EXTRACTED_PAGES)" for z
    unfolding ocr_claim_rows_def using assms(1-5) that by (auto intro!: bexI [of _ j] bexI [of _ ver])
  from one_or_none_multiple [OF this [OF assms(6)] this [OF assms(7)]] assms(8) show ?thesis
    unfolding ocr_claim_def by simp
qed

section \<open>The OCR commit\<close>

lemma succeed_ocr_steps:
  assumes "succeed_ocr job worker artifacts ma u s = Inr (nxt, s')"
  obtains locked s1 normalized s2 w s3 nid s4 s5 where
    "locked_job_version job worker s = Inr locked"
    "insert_artifacts job artifacts (\<lambda>n. u (n + 3)) s = Inr s1"
    "worker_transition NORMALIZING worker (''worker:'' @ str_uuid (cl_id job) @ '':ocr-normalizing'')
       None None (u 0) locked s1 = Inr (normalized, s2)"
    "worker_transition CHUNKING worker (''worker:'' @ str_uuid (cl_id job) @ '':ocr-chunking'')
       None None (u 1) normalized s2 = Inr (w, s3)"
    "create_next_job job ST_CHUNK ma (u 2) s3 = Inr (nid, s4)"
    "finish_attempt job ''succeeded'' None None s4 = Inr s5"
    "close_job JS_SUCCEEDED id (cl_id job) s5 = Inr s'"
    "nxt = \<lparr>nj_id = nid, nj_stage = ST_CHUNK\<rparr>"
  using assms unfolding succeed_ocr_def
  by (elim bind_res_pairE bind_res_InrE) (rule that, assumption+, auto)

text \<open>A successful OCR commit records both transitions, leaves the version in \<open>chunking\<close>,
  stores every artifact, closes the job without a lease and names a chunk job that exists; the
  audit trail and the keys hold afterwards.\<close>

theorem succeed_ocr_effect:
  assumes "succeed_ocr job worker artifacts ma u s = Inr (nxt, s')"
    and "version_keys_ok s" and "audit_ok s"
    and "\<forall>j \<in> set (db_jobs s). ij_id j = cl_id job \<longrightarrow> ij_stage j = ST_OCR"
  shows "audit_ok s' \<and> version_keys_ok s'
    \<and> (\<exists>v \<in> set (db_versions s). \<exists>w \<in> set (db_versions s'). dv_id v = cl_document_version_id job
         \<and> dv_state v \<in> {OCR, PARSING} \<and> version_scope w = version_scope v \<and> dv_state w = CHUNKING
         \<and> dv_state_revision w = dv_state_revision v + 2)
    \<and> (\<forall>a \<in> set artifacts. \<exists>r \<in> set (db_artifacts s'). artifact_output r = artifact_output (published_row job a 0 0))
    \<and> (\<forall>j \<in> set (db_jobs s'). ij_id j = cl_id job \<longrightarrow> ij_state j = JS_SUCCEEDED \<and> ij_lease_owner j = None)
    \<and> (\<exists>n \<in> set (db_jobs s'). ij_id n = nj_id nxt \<and> ij_stage n = ST_CHUNK \<and> ij_generation n = 0
         \<and> job_scope n = (cl_tenant_id job, cl_collection_id job, cl_document_version_id job)
         \<and> (n \<in> set (db_jobs s) \<or> ij_state n = JS_PENDING))"
  using assms(1)
proof (cases rule: succeed_ocr_steps)
  case (1 locked s1 normalized s2 w s3 nid s4 s5)
  from locked_job_version_Inr [OF 1(1)] obtain j0 where lk: "locked \<in> set (db_versions s)"
    "dv_id locked = cl_document_version_id job" and j0: "j0 \<in> set (db_jobs s)" "ij_id j0 = cl_id job"
    by blast
  from insert_artifacts_frame [OF 1(2)] obtain rs where s1: "s1 = s\<lparr>db_artifacts := rs\<rparr>"
    and arts: "\<forall>a \<in> set artifacts. \<exists>r \<in> set rs. artifact_output r = artifact_output (published_row job a 0 0)"
    by (elim exE conjE)
  have ok1: "version_keys_ok s1" "audit_ok s1" "locked \<in> set (db_versions s1)"
    using assms(2,3) s1 lk by (simp_all add: version_keys_ok_def audit_ok_jobs)
  note f1 = worker_transition_frame [OF 1(3)] and f2 = worker_transition_frame [OF 1(4)]
  from worker_transition_ok [OF 1(3) ok1(3,1,2)] obtain vs es where ok2: "audit_ok s2" "version_keys_ok s2"
      "normalized \<in> set (db_versions s2)"
    and nrm: "normalized = locked\<lparr>dv_state := NORMALIZING, dv_state_revision := dv_state_revision locked + 1,
            dv_terminal_reason_code := None, dv_updated_at := now s1\<rparr>"
    and src: "operation_allowed (dv_state locked) NORMALIZING ''advance'' = Some True"
    by (elim exE conjE)
  from worker_transition_ok [OF 1(4) ok2(3,2,1)] obtain vs es where ok3: "audit_ok s3" "version_keys_ok s3"
      "w \<in> set (db_versions s3)"
    and w: "w = normalized\<lparr>dv_state := CHUNKING, dv_state_revision := dv_state_revision normalized + 1,
            dv_terminal_reason_code := None, dv_updated_at := now s2\<rparr>"
    by (elim exE conjE)
  have jobs: "db_jobs s3 = db_jobs s" and "db_artifacts s3 = rs" using f1 f2 s1 by simp_all
  have "\<forall>j \<in> set (db_jobs s3). ij_id j = cl_id job \<longrightarrow> ij_stage j \<noteq> ST_CHUNK"
    using assms(4) jobs by auto
  note t = commit_tail [OF 1(5-7) j0 [folded jobs] this, unfolded jobs]
  then have rest: "db_versions s' = db_versions s3" "db_events s' = db_events s3" "db_artifacts s' = db_artifacts s3"
    by auto
  have "audit_ok s'" "version_keys_ok s'"
    using ok3 rest by (simp_all add: audit_ok_def events_of_def version_exists_def version_keys_ok_def)
  moreover have "dv_state locked \<in> {OCR, PARSING}"
    using src by (cases "dv_state locked") (simp_all add: operation_allowed_def)
  then have "\<exists>v \<in> set (db_versions s). \<exists>w \<in> set (db_versions s'). dv_id v = cl_document_version_id job
         \<and> dv_state v \<in> {OCR, PARSING} \<and> version_scope w = version_scope v \<and> dv_state w = CHUNKING
         \<and> dv_state_revision w = dv_state_revision v + 2"
    using lk ok3(3) rest(1) w nrm by (intro bexI [of _ locked] bexI [of _ w]) simp_all
  ultimately show ?thesis
    using t arts rest(3) \<open>db_artifacts s3 = rs\<close> 1(8) by simp
qed

section \<open>Witnesses\<close>

text \<open>The log of the sample version along a list of states.\<close>

fun sample_log :: "nat \<Rightarrow> VersionState list \<Rightarrow> event_row list" where
  "sample_log n (a # b # sts) =
     \<lparr>ev_id = word_of_nat (200 + n), ev_tenant_id = 1, ev_collection_id = 2, ev_document_version_id = 4,
      ev_idempotency_key = ''log'' @ replicate n CHR ''x'', ev_from_state = a, ev_to_state = b,
      ev_from_revision = int n, ev_to_revision = int n + 1, ev_operation = ''advance'',
      ev_actor_type = ''worker'', ev_actor_id = ''w1''\<rparr> # sample_log (Suc n) (b # sts)"
| "sample_log n sts = []"

definition extracted_artifact :: PublishedArtifact where
  "extracted_artifact = \<lparr>pa_artifact_type = AT_EXTRACTED_PAGES, pa_object_key = ''x'',
     pa_generator_name = ''parser'', pa_generator_version = ''v1'', pa_checksum_sha256 = sample_sha,
     pa_size_bytes = 10\<rparr>"

definition ocr_session :: session where
  "ocr_session = registered_session\<lparr>
     db_versions := [sample_version\<lparr>dv_state := OCR, dv_state_revision := 4, dv_page_count := Some 3\<rparr>],
     db_artifacts := [original_pdf_artifact sample_principal 4 sample_version 21 10,
       published_row sample_claim extracted_artifact 71 10],
     db_jobs := [new_job 70 (1, 2, 4) ST_OCR 0 3 None 10],
     db_events := sample_log 0 [RECEIVED, VALIDATING, QUEUED, PARSING, OCR]\<rparr>"

definition ocr_leased_session :: session where
  "ocr_leased_session = ocr_session\<lparr>
     db_jobs := [leased_row ''w1'' 1 (seconds 60) 10 (new_job 70 (1, 2, 4) ST_OCR 0 3 None 10)],
     db_attempts := [\<lparr>ja_id = 80, ja_tenant_id = 1, ja_collection_id = 2, ja_job_id = 70,
       ja_attempt_number = 1, ja_worker_id = ''w1'', ja_started_at = 10, ja_heartbeat_at = Some 10,
       ja_finished_at = None, ja_outcome = None, ja_error_class = None, ja_reason_code = None\<rparr>]\<rparr>"

definition sample_ocr_claim :: ClaimedOcrJob where
  "sample_ocr_claim = ClaimedNativeJob.extend (sample_claim\<lparr>cl_id := 70\<rparr>)
     (ClaimedOcrJob.fields ''x'' sample_sha ''v1'' 3)"

lemmas ocr_samples = ocr_leased_session_def ocr_session_def sample_ocr_claim_def extracted_artifact_def
  published_row_def sample_claim_def original_pdf_artifact_def new_job_def sample_defs
  ClaimedNativeJob.extend_def ClaimedOcrJob.fields_def

lemma sample_ocr_claim:
  "ocr_claim 1 4 70 ''w1'' (seconds 60) (\<lambda>n. word_of_nat (n + 80)) ocr_session
     = Inr (Some sample_ocr_claim, ocr_leased_session)"
  by (simp add: ocr_claim_def ocr_claim_rows_def artifacts_of_def worker_dead_states_def
      terminal_job_state_def lease_attempt_def lease_active_def start_attempt_def worker_eval ocr_samples)

theorem ocr_claim_exclusive_witness:
  "cl_attempt_number sample_ocr_claim \<le> cl_max_attempts sample_ocr_claim
    \<and> ocr_claim 1 4 70 ''w2'' (seconds 60) (\<lambda>n. 0) (ocr_leased_session\<lparr>now := 1000\<rparr>)
        \<noteq> Inr (Some sample_ocr_claim, ocr_session)"
  using ocr_claim_exclusive [OF sample_ocr_claim, of "ocr_leased_session\<lparr>now := 1000\<rparr>"]
  by (simp add: ocr_samples)

theorem ocr_claim_ambiguous_witness:
  "ocr_claim 1 4 70 ''w1'' (seconds 60) (\<lambda>n. word_of_nat (n + 80))
     (ocr_session\<lparr>db_artifacts := db_artifacts ocr_session
        @ [published_row sample_claim (extracted_artifact\<lparr>pa_generator_version := ''v2'', pa_object_key := ''y''\<rparr>) 72 11]\<rparr>)
   = Inl MultipleResultsFound"
  using ocr_claim_ambiguous [of "new_job 70 (1, 2, 4) ST_OCR 0 3 None 10"
    "ocr_session\<lparr>db_artifacts := db_artifacts ocr_session
        @ [published_row sample_claim (extracted_artifact\<lparr>pa_generator_version := ''v2'', pa_object_key := ''y''\<rparr>) 72 11]\<rparr>"
    "sample_version\<lparr>dv_state := OCR, dv_state_revision := 4, dv_page_count := Some 3\<rparr>"
    "original_pdf_artifact sample_principal 4 sample_version 21 10" "published_row sample_claim extracted_artifact 71 10"
    "published_row sample_claim (extracted_artifact\<lparr>pa_generator_version := ''v2'', pa_object_key := ''y''\<rparr>) 72 11"
    "''w1''" "seconds 60" "\<lambda>n. word_of_nat (n + 80)"]
  by (simp add: artifacts_of_def ocr_samples)

lemma ocr_leased_session_ok: "version_keys_ok ocr_leased_session \<and> audit_ok ocr_leased_session"
proof -
  have "audit_trail (sample_log 0 [RECEIVED, VALIDATING, QUEUED, PARSING, OCR]) 4 OCR"
    by (rule trail_from_audit) simp
  then show ?thesis
    by (simp add: version_keys_ok_def audit_ok_def events_of_def version_exists_def ocr_samples)
qed

lemma sample_ocr_commit:
  "\<exists>nxt s'. succeed_ocr sample_ocr_claim ''w1'' [] 3 (\<lambda>n. word_of_nat (n + 50)) ocr_leased_session = Inr (nxt, s')"
  by (simp add: succeed_ocr_def locked_job_version_def owns_attempt_def create_next_job_def upsert_job_def
      job_request_def finish_attempt_def close_attempts_def close_job_def worker_eval ocr_samples)

theorem succeed_ocr_effect_witness:
  "\<exists>nxt s'. succeed_ocr sample_ocr_claim ''w1'' [] 3 (\<lambda>n. word_of_nat (n + 50)) ocr_leased_session = Inr (nxt, s')
     \<and> audit_ok s' \<and> (\<exists>n \<in> set (db_jobs s'). ij_id n = nj_id nxt \<and> ij_stage n = ST_CHUNK)"
proof -
  from sample_ocr_commit obtain nxt s' where c: "succeed_ocr sample_ocr_claim ''w1'' [] 3
      (\<lambda>n. word_of_nat (n + 50)) ocr_leased_session = Inr (nxt, s')" by blast
  moreover have "\<forall>j \<in> set (db_jobs ocr_leased_session). ij_id j = cl_id sample_ocr_claim \<longrightarrow> ij_stage j = ST_OCR"
    by (simp add: ocr_samples)
  ultimately show ?thesis
    using succeed_ocr_effect [OF c] ocr_leased_session_ok by blast
qed

end
