(* ===== verification/Publication_Tables.thy ===== *)
theory Publication_Tables
  imports Schema_Ops
begin

text \<open>
  The statements on the publication side of the schema: chunks, their embeddings, their index
  publications, and the queue of search records to remove. As for the other tables, row checks
  come first, the conflict clause of an \<open>INSERT\<close> next, the other constraints last, and a
  violation is an \<open>IntegrityError\<close> with the constraint's name. The JSON copies \<open>section_path\<close> and
  \<open>block_bounds\<close> of a chunk row are stored and never read back, so the row leaves them out.
\<close>

section \<open>Row checks\<close>

definition chunk_checks :: "chunk_row \<Rightarrow> (string \<times> bool) list" where
  "chunk_checks c =
     [(''ck_chunks_ordinal'', ck_ordinal c \<ge> 0),
      (''ck_chunks_pages'', ck_page_start c > 0 \<and> ck_page_end c \<ge> ck_page_start c),
      (''ck_chunks_checksum'', is_sha256 (ck_content_sha256 c)),
      (''ck_chunks_tokens'', ck_token_count c > 0)]"

definition embedding_checks :: "embedding_row \<Rightarrow> (string \<times> bool) list" where
  "embedding_checks e =
     [(''ck_chunk_embeddings_dimensions'', ce_dimensions e > 0),
      (''ck_chunk_embeddings_checksum'', is_sha256 (ce_vector_checksum_sha256 e))]"

definition not_before :: "timestamp option \<Rightarrow> timestamp \<Rightarrow> bool" where
  "not_before x t \<longleftrightarrow> (case x of None \<Rightarrow> True | Some y \<Rightarrow> y \<ge> t)"

definition paired_attempt :: "uuid option \<Rightarrow> int option \<Rightarrow> bool" where
  "paired_attempt j n \<longleftrightarrow> (j = None) = (n = None) \<and> (case n of None \<Rightarrow> True | Some k \<Rightarrow> k > 0)"

definition publication_checks :: "publication_row \<Rightarrow> (string \<times> bool) list" where
  "publication_checks p =
     [(''ck_index_publications_deleted'', not_before (ip_deleted_at p) (ip_published_at p)),
      (''ck_index_publications_attempt'',
         paired_attempt (ip_publication_job_id p) (ip_publication_attempt p)),
      (''ck_index_publications_activation'', not_before (ip_activated_at p) (ip_published_at p))]"

definition cleanup_checks :: "search_cleanup_row \<Rightarrow> (string \<times> bool) list" where
  "cleanup_checks c =
     [(''ck_search_cleanup_attempts'', sc_attempt_count c \<ge> 0),
      (''ck_search_cleanup_publication_attempt'',
         paired_attempt (sc_publication_job_id c) (sc_publication_attempt c)),
      (''ck_search_cleanup_lease'', (sc_lease_owner c = None) = (sc_lease_expires_at c = None)),
      (''ck_search_cleanup_deleted'', (sc_state c = CL_DELETED) = (sc_deleted_at c \<noteq> None))]"

section \<open>Keys and references\<close>

definition chunk_ordinal_key ::
  "chunk_row \<Rightarrow> (uuid \<times> uuid \<times> uuid) \<times> string \<times> string \<times> int" where
  "chunk_ordinal_key c = (chunk_scope c, ck_chunker_name c, ck_chunker_version c, ck_ordinal c)"

definition embedding_model_key ::
  "embedding_row \<Rightarrow> uuid \<times> uuid \<times> uuid \<times> string \<times> string \<times> string" where
  "embedding_model_key e = (ce_tenant_id e, ce_collection_id e, ce_chunk_id e, ce_provider e,
     ce_model_name e, ce_model_version e)"

definition publication_target_key ::
  "publication_row \<Rightarrow> uuid \<times> uuid \<times> uuid \<times> PublicationKind \<times> string \<times> string" where
  "publication_target_key p = (ip_tenant_id p, ip_collection_id p, ip_chunk_id p,
     ip_publication_kind p, ip_target_name p, ip_target_version p)"

definition publication_external_key :: "publication_row \<Rightarrow> string \<times> string \<times> string" where
  "publication_external_key p = (ip_target_name p, ip_target_version p, ip_external_record_id p)"

definition publication_kind_key ::
  "publication_row \<Rightarrow> (uuid \<times> uuid \<times> uuid) \<times> uuid \<times> PublicationKind" where
  "publication_kind_key p = (publication_scope p, ip_chunk_id p, ip_publication_kind p)"

definition cleanup_scope :: "search_cleanup_row \<Rightarrow> uuid \<times> uuid \<times> uuid" where
  "cleanup_scope c = (sc_tenant_id c, sc_collection_id c, sc_document_version_id c)"

definition cleanup_target_key ::
  "search_cleanup_row \<Rightarrow> (uuid \<times> uuid \<times> uuid) \<times> uuid option \<times> uuid option \<times> int option \<times> string \<times> string" where
  "cleanup_target_key c = (cleanup_scope c, sc_activation_version_id c, sc_publication_job_id c,
     sc_publication_attempt c, sc_target_name c, sc_target_version c)"

definition chunk_exists :: "session \<Rightarrow> uuid \<times> uuid \<times> uuid \<Rightarrow> uuid \<Rightarrow> bool" where
  "chunk_exists s k i \<longleftrightarrow> list_ex (\<lambda>c. chunk_scope c = k \<and> ck_id c = i) (db_chunks s)"

definition job_ref_ok :: "session \<Rightarrow> uuid \<Rightarrow> uuid \<Rightarrow> uuid option \<Rightarrow> bool" where
  "job_ref_ok s t c j \<longleftrightarrow> (case j of None \<Rightarrow> True | Some i \<Rightarrow> job_exists s t c i)"

text \<open>The two unique constraints on publications besides the target: external record
  identifiers, and one active record per chunk and kind.\<close>

definition publication_unique_checks :: "publication_row list \<Rightarrow> (string \<times> bool) list" where
  "publication_unique_checks ps =
     [(''uq_index_publications_external'', distinct (map publication_external_key ps)),
      (''uq_index_publications_one_active_kind'',
         distinct (map publication_kind_key (filter (\<lambda>p. ip_deleted_at p = None) ps)))]"

definition publications_unique :: "publication_row list \<Rightarrow> bool" where
  "publications_unique ps \<longleftrightarrow> (\<forall>c \<in> set (publication_unique_checks ps). snd c)"

section \<open>Statements\<close>

text \<open>\<open>ON CONFLICT ON CONSTRAINT uq_chunks_version_id DO NOTHING\<close>.\<close>

definition insert_chunk_row :: "chunk_row \<Rightarrow> session \<Rightarrow> session res" where
  "insert_chunk_row r s =
     bind_res (check_all (chunk_checks r)) (\<lambda>_.
       if chunk_exists s (chunk_scope r) (ck_id r) then Inr s
       else bind_res (check_all
         [(''chunks_pkey'', ck_id r \<notin> ck_id ` set (db_chunks s)),
          (''uq_chunks_ordinal'', chunk_ordinal_key r \<notin> chunk_ordinal_key ` set (db_chunks s)),
          (''fk_chunks_version'', version_exists s (chunk_scope r)),
          (''fk_chunks_source_artifact'',
             list_ex (\<lambda>a. artifact_scope a = chunk_scope r \<and> af_id a = ck_source_artifact_id r)
               (db_artifacts s))])
         (\<lambda>_. Inr (s\<lparr>db_chunks := db_chunks s @ [r]\<rparr>)))"

text \<open>\<open>ON CONFLICT ON CONSTRAINT uq_chunk_embeddings_model DO NOTHING\<close>.\<close>

definition insert_embedding_row :: "embedding_row \<Rightarrow> session \<Rightarrow> session res" where
  "insert_embedding_row r s =
     bind_res (check_all (embedding_checks r)) (\<lambda>_.
       if embedding_model_key r \<in> embedding_model_key ` set (db_embeddings s) then Inr s
       else bind_res (check_all
         [(''chunk_embeddings_pkey'', ce_id r \<notin> ce_id ` set (db_embeddings s)),
          (''fk_chunk_embeddings_version'', version_exists s (embedding_scope r)),
          (''fk_chunk_embeddings_chunk'', chunk_exists s (embedding_scope r) (ce_chunk_id r))])
         (\<lambda>_. Inr (s\<lparr>db_embeddings := db_embeddings s @ [r]\<rparr>)))"

definition update_publications ::
  "(publication_row \<Rightarrow> bool) \<Rightarrow> (publication_row \<Rightarrow> publication_row) \<Rightarrow> session \<Rightarrow> session res" where
  "update_publications p f s =
     bind_res (map_res (\<lambda>r. check_all (publication_checks (f r))) (filter p (db_publications s))) (\<lambda>_.
     bind_res (check_all (publication_unique_checks (update_rows p f (db_publications s))))
       (\<lambda>_. Inr (s\<lparr>db_publications := update_rows p f (db_publications s)\<rparr>)))"

text \<open>
  \<open>ON CONFLICT ON CONSTRAINT uq_index_publications_target DO UPDATE\<close>: a row for the same chunk,
  kind and target is revived under the new job attempt, not yet activated.
\<close>

definition upsert_publication :: "publication_row \<Rightarrow> session \<Rightarrow> session res" where
  "upsert_publication r s =
     bind_res (check_all (publication_checks r)) (\<lambda>_.
       if publication_target_key r \<in> publication_target_key ` set (db_publications s)
       then bind_res (check_all [(''fk_index_publications_job'',
                job_ref_ok s (ip_tenant_id r) (ip_collection_id r) (ip_publication_job_id r))]) (\<lambda>_.
            update_publications (\<lambda>p. publication_target_key p = publication_target_key r)
              (\<lambda>p. p\<lparr>ip_deleted_at := None, ip_published_at := now s,
                     ip_external_record_id := ip_external_record_id r,
                     ip_publication_job_id := ip_publication_job_id r,
                     ip_publication_attempt := ip_publication_attempt r,
                     ip_activated_at := None\<rparr>) s)
       else bind_res (check_all (publication_unique_checks (db_publications s @ [r]) @
         [(''index_publications_pkey'', ip_id r \<notin> ip_id ` set (db_publications s)),
          (''fk_index_publications_version'', version_exists s (publication_scope r)),
          (''fk_index_publications_chunk'', chunk_exists s (publication_scope r) (ip_chunk_id r)),
          (''fk_index_publications_job'',
             job_ref_ok s (ip_tenant_id r) (ip_collection_id r) (ip_publication_job_id r))]))
         (\<lambda>_. Inr (s\<lparr>db_publications := db_publications s @ [r]\<rparr>)))"

text \<open>\<open>ON CONFLICT ON CONSTRAINT uq_search_cleanup_target DO NOTHING\<close>, nulls not distinct.\<close>

definition insert_search_cleanup :: "search_cleanup_row \<Rightarrow> session \<Rightarrow> session res" where
  "insert_search_cleanup r s =
     bind_res (check_all (cleanup_checks r)) (\<lambda>_.
       if cleanup_target_key r \<in> cleanup_target_key ` set (db_search_cleanup s) then Inr s
       else bind_res (check_all
         [(''search_cleanup_entries_pkey'', sc_id r \<notin> sc_id ` set (db_search_cleanup s)),
          (''fk_search_cleanup_version'', version_exists s (cleanup_scope r)),
          (''fk_search_cleanup_activation_version'',
             case sc_activation_version_id r of None \<Rightarrow> True
             | Some v \<Rightarrow> version_exists s (sc_tenant_id r, sc_collection_id r, v)),
          (''fk_search_cleanup_job'',
             job_ref_ok s (sc_tenant_id r) (sc_collection_id r) (sc_publication_job_id r))])
         (\<lambda>_. Inr (s\<lparr>db_search_cleanup := db_search_cleanup s @ [r]\<rparr>)))"

definition update_search_cleanup ::
  "(search_cleanup_row \<Rightarrow> bool) \<Rightarrow> (search_cleanup_row \<Rightarrow> search_cleanup_row) \<Rightarrow> session \<Rightarrow> session res" where
  "update_search_cleanup p f s =
     bind_res (map_res (\<lambda>r. check_all (cleanup_checks (f r))) (filter p (db_search_cleanup s)))
       (\<lambda>_. Inr (s\<lparr>db_search_cleanup := update_rows p f (db_search_cleanup s)\<rparr>))"

section \<open>What a successful statement did\<close>

lemma update_publications_Inr [res_simps]:
  "update_publications p f s = Inr s' \<longleftrightarrow>
     (\<forall>r \<in> set (db_publications s). p r \<longrightarrow> check_all (publication_checks (f r)) = Inr ())
     \<and> publications_unique (update_rows p f (db_publications s))
     \<and> s' = s\<lparr>db_publications := update_rows p f (db_publications s)\<rparr>"
  by (auto simp: update_publications_def bind_res_eq_Inr map_res_check check_all_Inr publications_unique_def)

lemma update_search_cleanup_Inr [res_simps]:
  "update_search_cleanup p f s = Inr s' \<longleftrightarrow>
     (\<forall>r \<in> set (db_search_cleanup s). p r \<longrightarrow> check_all (cleanup_checks (f r)) = Inr ())
     \<and> s' = s\<lparr>db_search_cleanup := update_rows p f (db_search_cleanup s)\<rparr>"
  by (auto simp: update_search_cleanup_def bind_res_eq_Inr map_res_check)

lemma insert_chunk_row_Inr:
  "insert_chunk_row r s = Inr s' \<Longrightarrow>
     \<exists>cs. s' = s\<lparr>db_chunks := cs\<rparr> \<and> set (db_chunks s) \<subseteq> set cs
       \<and> (\<exists>c \<in> set cs. chunk_scope c = chunk_scope r \<and> ck_id c = ck_id r)"
proof -
  assume a: "insert_chunk_row r s = Inr s'"
  show ?thesis
  proof (cases "chunk_exists s (chunk_scope r) (ck_id r)")
    case True
    with a have "s' = s" by (auto simp: insert_chunk_row_def bind_res_eq_Inr)
    with True show ?thesis
      by (intro exI [of _ "db_chunks s"]) (auto simp: chunk_exists_def list_ex_iff)
  next
    case False
    with a have "s' = s\<lparr>db_chunks := db_chunks s @ [r]\<rparr>"
      by (auto simp: insert_chunk_row_def bind_res_eq_Inr)
    then show ?thesis by (intro exI [of _ "db_chunks s @ [r]"]) auto
  qed
qed

lemma insert_embedding_row_Inr:
  "insert_embedding_row r s = Inr s' \<Longrightarrow>
     \<exists>es. s' = s\<lparr>db_embeddings := es\<rparr> \<and> set (db_embeddings s) \<subseteq> set es
       \<and> (\<exists>e \<in> set es. embedding_model_key e = embedding_model_key r)"
proof -
  assume a: "insert_embedding_row r s = Inr s'"
  show ?thesis
  proof (cases "embedding_model_key r \<in> embedding_model_key ` set (db_embeddings s)")
    case True
    with a have "s' = s" by (auto simp: insert_embedding_row_def bind_res_eq_Inr)
    with True show ?thesis by (intro exI [of _ "db_embeddings s"]) (auto simp: image_iff)
  next
    case False
    with a have "s' = s\<lparr>db_embeddings := db_embeddings s @ [r]\<rparr>"
      by (auto simp: insert_embedding_row_def bind_res_eq_Inr)
    then show ?thesis by (intro exI [of _ "db_embeddings s @ [r]"]) auto
  qed
qed

lemma insert_search_cleanup_Inr:
  "insert_search_cleanup r s = Inr s' \<Longrightarrow>
     \<exists>cs. s' = s\<lparr>db_search_cleanup := cs\<rparr> \<and> set (db_search_cleanup s) \<subseteq> set cs
       \<and> (\<exists>c \<in> set cs. cleanup_target_key c = cleanup_target_key r)"
proof -
  assume a: "insert_search_cleanup r s = Inr s'"
  show ?thesis
  proof (cases "cleanup_target_key r \<in> cleanup_target_key ` set (db_search_cleanup s)")
    case True
    with a have "s' = s" by (auto simp: insert_search_cleanup_def bind_res_eq_Inr)
    with True show ?thesis by (intro exI [of _ "db_search_cleanup s"]) (auto simp: image_iff)
  next
    case False
    with a have "s' = s\<lparr>db_search_cleanup := db_search_cleanup s @ [r]\<rparr>"
      by (auto simp: insert_search_cleanup_def bind_res_eq_Inr)
    then show ?thesis by (intro exI [of _ "db_search_cleanup s @ [r]"]) auto
  qed
qed

lemma upsert_publication_Inr:
  "upsert_publication r s = Inr s' \<Longrightarrow>
     publications_unique (db_publications s')
     \<and> (\<exists>ps. s' = s\<lparr>db_publications := ps\<rparr>
          \<and> (\<exists>p \<in> set ps. publication_target_key p = publication_target_key r
               \<and> ip_publication_job_id p = ip_publication_job_id r
               \<and> ip_publication_attempt p = ip_publication_attempt r
               \<and> (p = r \<or> ip_deleted_at p = None \<and> ip_activated_at p = None)))"
proof -
  assume a: "upsert_publication r s = Inr s'"
  show ?thesis
  proof (cases "publication_target_key r \<in> publication_target_key ` set (db_publications s)")
    case True
    let ?p = "\<lambda>p. publication_target_key p = publication_target_key r"
    let ?f = "\<lambda>p. p\<lparr>ip_deleted_at := None, ip_published_at := now s,
                     ip_external_record_id := ip_external_record_id r,
                     ip_publication_job_id := ip_publication_job_id r,
                     ip_publication_attempt := ip_publication_attempt r,
                     ip_activated_at := None\<rparr>"
    from a True have "update_publications ?p ?f s = Inr s'"
      by (auto simp: upsert_publication_def bind_res_eq_Inr)
    note u = this [unfolded update_publications_Inr]
    from u have s': "s' = s\<lparr>db_publications := update_rows ?p ?f (db_publications s)\<rparr>" by (elim conjE)
    from u have un: "publications_unique (update_rows ?p ?f (db_publications s))" by (elim conjE)
    from True obtain q where q: "q \<in> set (db_publications s)" "?p q" by auto
    then have "?f q \<in> set (update_rows ?p ?f (db_publications s))"
      unfolding set_update_rows by blast
    moreover have "publication_target_key (?f q) = publication_target_key r"
      using q(2) by (simp add: publication_target_key_def)
    ultimately show ?thesis
      using s' un
      by (intro conjI exI [of _ "update_rows ?p ?f (db_publications s)"] bexI [of _ "?f q"]) simp_all
  next
    case False
    with a have "s' = s\<lparr>db_publications := db_publications s @ [r]\<rparr>"
      "publications_unique (db_publications s @ [r])"
      by (auto simp: upsert_publication_def bind_res_eq_Inr check_all_Inr publications_unique_def)
    then show ?thesis by (intro conjI exI [of _ "db_publications s @ [r]"] bexI [of _ r]) simp_all
  qed
qed

end
