(* ===== verification/Publication_Claim.thy ===== *)
theory Publication_Claim
  imports Ocr_Repository Publication_Tables
begin

text \<open>
  \<open>ingestion/publication_models.py\<close> and \<open>ingestion/publication_claim.py\<close>: the records of the
  publication stages with the checks of their constructors, and the claim of a chunk, embed or
  index job. The claim looks the normalized document up along the reprocessing lineage, and the
  newest chunk and embedding manifests of the version itself.
\<close>

section \<open>Records\<close>

definition lower_alnum :: "char \<Rightarrow> bool" where
  "lower_alnum c \<longleftrightarrow> c \<in> set ''abcdefghijklmnopqrstuvwxyz0123456789''"

text \<open>\<open>SEARCH_TARGET_NAME.fullmatch\<close>.\<close>

definition search_target_name_ok :: "string \<Rightarrow> bool" where
  "search_target_name_ok n \<longleftrightarrow>
     (case n of [] \<Rightarrow> False
      | c # cs \<Rightarrow> lower_alnum c \<and> length cs \<le> 127
          \<and> list_all (\<lambda>x. lower_alnum x \<or> x \<in> set ''._-'') cs)"

record SearchTarget =
  st_name :: string
  st_version :: string

definition new_search_target :: "string \<Rightarrow> string \<Rightarrow> SearchTarget res" where
  "new_search_target name version =
     (if \<not> search_target_name_ok name
      then Inl (ValueError ''persisted search target name is invalid'')
      else if version = [] \<or> length version > 128
      then Inl (ValueError ''persisted search target version is invalid'')
      else Inr \<lparr>st_name = name, st_version = version\<rparr>)"

record SearchTargetPublication =
  tp_target :: SearchTarget
  tp_record_count :: int
  tp_publication_job_id :: "uuid option"
  tp_publication_attempt :: "int option"

definition new_target_publication ::
  "SearchTarget \<Rightarrow> int \<Rightarrow> uuid option \<Rightarrow> int option \<Rightarrow> SearchTargetPublication res" where
  "new_target_publication target record_count job_id attempt =
     (if record_count < 1
      then Inl (ValueError ''search target record count must be positive'')
      else if (job_id = None) \<noteq> (attempt = None)
      then Inl (ValueError ''publication job and attempt must be paired'')
      else if (case attempt of None \<Rightarrow> False | Some n \<Rightarrow> n < 1)
      then Inl (ValueError ''publication attempt must be positive'')
      else Inr \<lparr>tp_target = target, tp_record_count = record_count, tp_publication_job_id = job_id,
                tp_publication_attempt = attempt\<rparr>)"

record SearchCleanupClaim =
  sk_id :: uuid
  sk_tenant_id :: uuid
  sk_collection_id :: uuid
  sk_document_version_id :: uuid
  sk_activation_version_id :: "uuid option"
  sk_target :: SearchTarget
  sk_attempt_number :: int
  sk_publication_job_id :: "uuid option"
  sk_publication_attempt :: "int option"

record PendingSearchActivation =
  ac_tenant_id :: uuid
  ac_collection_id :: uuid
  ac_document_version_id :: uuid
  ac_target :: SearchTarget
  ac_record_count :: int
  ac_publication_job_id :: uuid
  ac_publication_attempt :: int

record ClaimedPublicationJob = ClaimedNativeJob +
  cp_stage :: IngestionStage
  cp_source_document_version_id :: uuid
  cp_normalized_document_version_id :: uuid
  cp_normalized_artifact_id :: uuid
  cp_normalized_object_key :: string
  cp_normalized_checksum_sha256 :: string
  cp_normalized_generator_version :: string
  cp_chunk_object_key :: "string option"
  cp_chunk_checksum_sha256 :: "string option"
  cp_chunk_generator_version :: "string option"
  cp_embedding_object_key :: "string option"
  cp_embedding_checksum_sha256 :: "string option"
  cp_embedding_generator_version :: "string option"

record EmbeddingRecord =
  em_chunk_id :: uuid
  em_checksum_sha256 :: string

record PublicationRecord =
  pb_chunk_id :: uuid
  pb_publication_kind :: string
  pb_external_record_id :: string

section \<open>The claim\<close>

fun option_rows :: "'a option \<Rightarrow> 'a list" where
  "option_rows None = []"
| "option_rows (Some x) = [x]"

text \<open>\<open>ORDER BY created_at DESC, id DESC LIMIT 1\<close>.\<close>

definition latest_artifact :: "artifact_row list \<Rightarrow> artifact_row option" where
  "latest_artifact as = scalar (rev (sort_key (\<lambda>a. (af_created_at a, unat (af_id a))) as))"

definition normalized_source :: "session \<Rightarrow> uuid \<Rightarrow> uuid \<Rightarrow> uuid \<Rightarrow> uuid option" where
  "normalized_source s t c v =
     scalar [dv_id r. r \<leftarrow> lineage_of s t c v,
       artifacts_of s (t, c, dv_id r) AT_NORMALIZED_DOCUMENT \<noteq> []]"

definition publication_claim_rows ::
  "uuid \<Rightarrow> uuid \<Rightarrow> uuid \<Rightarrow> session \<Rightarrow>
   (job_row \<times> version_row \<times> uuid \<times> artifact_row \<times> artifact_row \<times> artifact_row option \<times> artifact_row option) list" where
  "publication_claim_rows tenant_id document_version_id job_id s =
     [(j, v, ns, a, n,
        latest_artifact (artifacts_of s (version_scope v) AT_CHUNK_MANIFEST),
        latest_artifact (filter (\<lambda>e. af_generator_name e = ''fastembed'')
          (artifacts_of s (version_scope v) AT_INDEX_MANIFEST))).
        j \<leftarrow> db_jobs s,
        ij_id j = job_id \<and> ij_tenant_id j = tenant_id \<and> ij_document_version_id j = document_version_id
          \<and> ij_stage j \<in> {ST_CHUNK, ST_EMBED, ST_INDEX},
        v \<leftarrow> db_versions s, version_scope v = job_scope j,
        ns \<leftarrow> option_rows (normalized_source s (dv_tenant_id v) (dv_collection_id v) (dv_id v)),
        a \<leftarrow> artifacts_of s (dv_tenant_id v, dv_collection_id v, ns) AT_ORIGINAL_PDF,
        n \<leftarrow> option_rows (latest_artifact
               (artifacts_of s (dv_tenant_id v, dv_collection_id v, ns) AT_NORMALIZED_DOCUMENT))]"

fun stage_state :: "IngestionStage \<Rightarrow> VersionState option" where
  "stage_state ST_CHUNK = Some CHUNKING"
| "stage_state ST_EMBED = Some EMBEDDING"
| "stage_state ST_INDEX = Some INDEXING"
| "stage_state _ = None"

definition claimed_job ::
  "job_row \<Rightarrow> version_row \<Rightarrow> uuid \<Rightarrow> artifact_row \<Rightarrow> artifact_row \<Rightarrow> artifact_row option \<Rightarrow> artifact_row option
   \<Rightarrow> uuid \<Rightarrow> uuid \<Rightarrow> uuid \<Rightarrow> int \<Rightarrow> ClaimedPublicationJob" where
  "claimed_job row version ns original normalized chunk embedding tenant_id document_version_id job_id attempt_number =
     \<lparr>cl_id = job_id, cl_tenant_id = tenant_id, cl_collection_id = ij_collection_id row,
      cl_document_version_id = document_version_id, cl_attempt_number = attempt_number,
      cl_max_attempts = ij_max_attempts row, cl_object_key = dv_object_key version,
      cl_content_sha256 = dv_content_sha256 version, cl_size_bytes = dv_size_bytes version,
      cl_pipeline_profile = dv_pipeline_profile version, cl_original_artifact_id = af_id original,
      cp_stage = ij_stage row,
      cp_source_document_version_id = (case dv_reprocessed_from_version_id version of
         None \<Rightarrow> dv_id version | Some p \<Rightarrow> p),
      cp_normalized_document_version_id = ns, cp_normalized_artifact_id = af_id normalized,
      cp_normalized_object_key = af_object_key normalized,
      cp_normalized_checksum_sha256 = af_checksum_sha256 normalized,
      cp_normalized_generator_version = af_generator_version normalized,
      cp_chunk_object_key = map_option af_object_key chunk,
      cp_chunk_checksum_sha256 = map_option af_checksum_sha256 chunk,
      cp_chunk_generator_version = map_option af_generator_version chunk,
      cp_embedding_object_key = map_option af_object_key embedding,
      cp_embedding_checksum_sha256 = map_option af_checksum_sha256 embedding,
      cp_embedding_generator_version = map_option af_generator_version embedding\<rparr>"

definition publication_claim ::
  "uuid \<Rightarrow> uuid \<Rightarrow> uuid \<Rightarrow> string \<Rightarrow> timestamp \<Rightarrow> (nat \<Rightarrow> uuid) \<Rightarrow> session
   \<Rightarrow> (ClaimedPublicationJob option \<times> session) res" where
  "publication_claim tenant_id document_version_id job_id worker_id lease_duration u s =
     bind_res (one_or_none (publication_claim_rows tenant_id document_version_id job_id s)) (\<lambda>row_result.
     case row_result of
       None \<Rightarrow> Inl (ValueError ''publication job identity is invalid'')
     | Some (row, version, ns, original, normalized, chunk, embedding) \<Rightarrow>
         if terminal_job_state (ij_state row) then Inr (None, s)
         else if dv_state version \<in> worker_dead_states
         then bind_res (cancel_job row s) (\<lambda>s1. Inr (None, s1))
         else case stage_state (ij_stage row) of
           None \<Rightarrow> Inl (KeyError (IngestionStage_value (ij_stage row)))
         | Some expected_state \<Rightarrow>
             if dv_state version \<noteq> expected_state
             then Inl (ValueError ''document version is not awaiting this publication stage'')
             else if ij_stage row \<in> {ST_EMBED, ST_INDEX} \<and> chunk = None
             then Inl (ValueError ''publication job is missing its chunk manifest'')
             else if ij_stage row = ST_INDEX \<and> embedding = None
             then Inl (ValueError ''index job is missing its embedding manifest'')
             else bind_res (lease_attempt row version worker_id lease_duration u s) (\<lambda>(attempt, s1).
               case attempt of
                 None \<Rightarrow> Inr (None, s1)
               | Some attempt_number \<Rightarrow>
                   Inr (Some (claimed_job row version ns original normalized chunk embedding
                     tenant_id document_version_id job_id attempt_number), s1)))"

text \<open>\<open>_complete_job\<close>: close the attempt and the job.\<close>

definition complete_job :: "'a ClaimedNativeJob_scheme \<Rightarrow> session \<Rightarrow> session res" where
  "complete_job job s =
     bind_res (finish_attempt job ''succeeded'' None None s) (close_job JS_SUCCEEDED id (cl_id job))"

section \<open>The claim keeps the protocol\<close>

lemma publication_claim_cases:
  assumes "publication_claim t v i worker d u s = Inr (Some c, s')"
  obtains row version ns original normalized chunk embedding n where
    "publication_claim_rows t v i s = [(row, version, ns, original, normalized, chunk, embedding)]"
    "\<not> terminal_job_state (ij_state row)" "stage_state (ij_stage row) = Some (dv_state version)"
    "ij_stage row \<in> {ST_EMBED, ST_INDEX} \<longrightarrow> chunk \<noteq> None" "ij_stage row = ST_INDEX \<longrightarrow> embedding \<noteq> None"
    "lease_attempt row version worker d u s = Inr (Some n, s')"
    "c = claimed_job row version ns original normalized chunk embedding t v i n"
proof -
  from assms obtain row version ns original normalized chunk embedding where
    rows: "publication_claim_rows t v i s = [(row, version, ns, original, normalized, chunk, embedding)]"
    unfolding publication_claim_def
    by (auto elim!: bind_res_InrE simp: one_or_none_Some split: option.splits)
  note c1 = assms [unfolded publication_claim_def rows one_or_none.simps bind_res_Inr option.case prod.case]
  then have act: "\<not> terminal_job_state (ij_state row)" "dv_state version \<notin> worker_dead_states"
    by (auto simp: bind_res_eq_Inr split: if_splits)
  note c2 = c1 [unfolded if_not_P [OF act(1)] if_not_P [OF act(2)]]
  then obtain st where st: "stage_state (ij_stage row) = Some st"
    by (cases "stage_state (ij_stage row)") simp_all
  note c3 = c2 [unfolded st option.case]
  then have g: "dv_state version = st" "ij_stage row \<in> {ST_EMBED, ST_INDEX} \<longrightarrow> chunk \<noteq> None"
    "ij_stage row = ST_INDEX \<longrightarrow> embedding \<noteq> None"
    by (auto split: if_splits)
  with c3 have "bind_res (lease_attempt row version worker d u s) (\<lambda>(attempt, s1).
      case attempt of None \<Rightarrow> Inr (None, s1)
      | Some n \<Rightarrow> Inr (Some (claimed_job row version ns original normalized chunk embedding t v i n), s1))
    = Inr (Some c, s')"
    by (simp split: if_splits)
  then obtain n where "lease_attempt row version worker d u s = Inr (Some n, s')"
    "c = claimed_job row version ns original normalized chunk embedding t v i n"
    by (elim bind_res_InrE) (auto split: option.splits)
  with that rows act(1) st g show thesis by blast
qed

lemma publication_claim_row:
  assumes "publication_claim_rows t v i s = [(row, version, ns, original, normalized, chunk, embedding)]"
  shows "row \<in> set (db_jobs s)" "ij_id row = i" "job_scope row = (t, ij_collection_id row, v)"
    "version \<in> set (db_versions s)" "version_scope version = job_scope row"
proof -
  from assms have "(row, version, ns, original, normalized, chunk, embedding) \<in> set (publication_claim_rows t v i s)"
    by simp
  then show "row \<in> set (db_jobs s)" "ij_id row = i" "job_scope row = (t, ij_collection_id row, v)"
    "version \<in> set (db_versions s)" "version_scope version = job_scope row"
    unfolding publication_claim_rows_def by (auto split: if_splits)
qed

lemma publication_claim_granted:
  assumes "publication_claim t v i worker d u s = Inr (Some c, s')"
  shows "claim_granted t v i worker d s c s'"
  using assms
proof (cases rule: publication_claim_cases)
  case (1 row version ns original normalized chunk embedding n)
  note r = publication_claim_row [OF 1(1)]
  show ?thesis
    by (rule claim_grantedI [OF r(1,2) _ 1(2) 1(6)]) (use r 1(7) in \<open>simp_all add: claimed_job_def\<close>)
qed

interpretation publication: claim_protocol publication_claim
  by unfold_locales (rule publication_claim_granted)

text \<open>A publication claim is exclusive and bounded, it is granted only while the version is in the
  state of the job's stage, and the claim of a later stage carries the manifests that stage needs:
  embed and index jobs a chunk manifest, index jobs an embedding manifest.\<close>

theorem publication_claim_exclusive:
  assumes "publication_claim t v i worker d u s = Inr (Some c, s')" and "\<forall>j \<in> set (db_jobs s). 0 \<le> ij_attempt_count j"
    and "db_jobs s2 = db_jobs s'" and "now s2 < now s + d"
  shows "1 \<le> cl_attempt_number c \<and> cl_attempt_number c \<le> cl_max_attempts c
    \<and> (\<forall>t' v' worker' d' u' c' s3. publication_claim t' v' i worker' d' u' s2 \<noteq> Inr (Some c', s3))
    \<and> (\<exists>w \<in> set (db_versions s). version_scope w = (t, cl_collection_id c, v)
         \<and> stage_state (cp_stage c) = Some (dv_state w))
    \<and> (cp_stage c \<in> {ST_EMBED, ST_INDEX} \<longrightarrow> cp_chunk_object_key c \<noteq> None)
    \<and> (cp_stage c = ST_INDEX \<longrightarrow> cp_embedding_object_key c \<noteq> None)"
  using assms(1)
proof (cases rule: publication_claim_cases)
  case (1 row version ns original normalized chunk embedding n)
  note r = publication_claim_row [OF 1(1)]
  have "\<exists>w \<in> set (db_versions s). version_scope w = (t, cl_collection_id c, v)
         \<and> stage_state (cp_stage c) = Some (dv_state w)"
    using r 1(3,7) by (intro bexI [of _ version]) (simp_all add: claimed_job_def)
  moreover have "cp_stage c \<in> {ST_EMBED, ST_INDEX} \<longrightarrow> cp_chunk_object_key c \<noteq> None"
    "cp_stage c = ST_INDEX \<longrightarrow> cp_embedding_object_key c \<noteq> None"
    using 1(4,5,7) by (simp_all add: claimed_job_def)
  ultimately show ?thesis
    using publication.claim_bounded [OF assms(1,2)] publication.claim_exclusive [OF assms(1,3,4)] by simp
qed

lemma new_search_target_Inr:
  "new_search_target n v = Inr t \<longleftrightarrow> search_target_name_ok n \<and> v \<noteq> [] \<and> length v \<le> 128 \<and> t = \<lparr>st_name = n, st_version = v\<rparr>"
  by (auto simp: new_search_target_def)

lemma new_target_publication_Inr:
  "new_target_publication t n j a = Inr p \<longleftrightarrow> 1 \<le> n \<and> paired_attempt j a
     \<and> p = \<lparr>tp_target = t, tp_record_count = n, tp_publication_job_id = j, tp_publication_attempt = a\<rparr>"
  by (auto simp: new_target_publication_def paired_attempt_def split: option.splits if_splits)

section \<open>Witnesses\<close>

definition normalized_artifact :: PublishedArtifact where
  "normalized_artifact = extracted_artifact\<lparr>pa_artifact_type := AT_NORMALIZED_DOCUMENT, pa_object_key := ''n''\<rparr>"

definition chunking_session :: session where
  "chunking_session = registered_session\<lparr>
     db_versions := [sample_version\<lparr>dv_state := CHUNKING, dv_state_revision := 5, dv_page_count := Some 3\<rparr>],
     db_artifacts := [original_pdf_artifact sample_principal 4 sample_version 21 10,
       published_row sample_claim normalized_artifact 72 10],
     db_jobs := [new_job 90 (1, 2, 4) ST_CHUNK 0 3 None 10],
     db_events := sample_log 0 [RECEIVED, VALIDATING, QUEUED, PARSING, NORMALIZING, CHUNKING]\<rparr>"

definition chunking_leased_session :: session where
  "chunking_leased_session = chunking_session\<lparr>
     db_jobs := [leased_row ''w1'' 1 (seconds 60) 10 (new_job 90 (1, 2, 4) ST_CHUNK 0 3 None 10)],
     db_attempts := [\<lparr>ja_id = 91, ja_tenant_id = 1, ja_collection_id = 2, ja_job_id = 90,
       ja_attempt_number = 1, ja_worker_id = ''w1'', ja_started_at = 10, ja_heartbeat_at = Some 10,
       ja_finished_at = None, ja_outcome = None, ja_error_class = None, ja_reason_code = None\<rparr>]\<rparr>"

definition sample_chunk_claim :: ClaimedPublicationJob where
  "sample_chunk_claim = ClaimedNativeJob.extend (sample_claim\<lparr>cl_id := 90\<rparr>)
     (ClaimedPublicationJob.fields ST_CHUNK 4 4 72 ''n'' sample_sha ''v1'' None None None None None None)"

lemmas chunking_samples = chunking_leased_session_def chunking_session_def sample_chunk_claim_def
  normalized_artifact_def ClaimedPublicationJob.fields_def ocr_samples

lemma sample_lineage: "lineage_of chunking_session 1 2 4
    = [sample_version\<lparr>dv_state := CHUNKING, dv_state_revision := 5, dv_page_count := Some 3\<rparr>]"
  by (simp add: lineage_of_def numeral_eq_Suc chunking_samples)

lemma sample_publication_claim:
  "publication_claim 1 4 90 ''w1'' (seconds 60) (\<lambda>n. word_of_nat (n + 91)) chunking_session
     = Inr (Some sample_chunk_claim, chunking_leased_session)"
proof -
  have "normalized_source chunking_session 1 2 4 = Some 4"
    unfolding normalized_source_def sample_lineage
    by (simp add: artifacts_of_def chunking_samples)
  then have ns: "option_rows (normalized_source chunking_session 1 2 4) = [4]" by simp
  have rows: "publication_claim_rows 1 4 90 chunking_session =
      [(new_job 90 (1, 2, 4) ST_CHUNK 0 3 None 10,
        sample_version\<lparr>dv_state := CHUNKING, dv_state_revision := 5, dv_page_count := Some 3\<rparr>, 4,
        original_pdf_artifact sample_principal 4 sample_version 21 10,
        published_row sample_claim normalized_artifact 72 10, None, None)]"
    using ns by (simp add: publication_claim_rows_def latest_artifact_def artifacts_of_def chunking_samples)
  show ?thesis
    unfolding publication_claim_def rows
    by (simp add: worker_dead_states_def terminal_job_state_def lease_attempt_def lease_active_def start_attempt_def
        claimed_job_def worker_eval chunking_samples)
qed

theorem publication_claim_exclusive_witness:
  "cl_attempt_number sample_chunk_claim \<le> cl_max_attempts sample_chunk_claim
    \<and> publication_claim 1 4 90 ''w2'' (seconds 60) (\<lambda>n. 0) (chunking_leased_session\<lparr>now := 1000\<rparr>)
        \<noteq> Inr (Some sample_chunk_claim, chunking_session)"
  using publication_claim_exclusive [OF sample_publication_claim, of "chunking_leased_session\<lparr>now := 1000\<rparr>"]
  by (simp add: chunking_samples)

end
