(* ===== verification/Manifests.thy ===== *)
theory Manifests
  imports Chunking Publication_Claim
begin

text \<open>
  \<open>ingestion/embedding_artifacts.py\<close>, \<open>ingestion/embedding_provider.py\<close> (the batch check of
  \<open>embed\<close>) and \<open>ingestion/publication_artifacts.py\<close>: the embedding manifest, written in batches,
  and the index manifest. Arguments of the definitions are the embedding model, the checksum of a
  packed vector, the validation library's \<open>EmbeddedChunk.model_validate\<close>, and the text form
  \<open>str\<close> of a JSON value that is not a string.
\<close>

section \<open>Embeddings\<close>

record EmbeddedChunk =
  ec_chunk_id :: uuid
  ec_vector :: "rat list"
  ec_checksum_sha256 :: string

record EmbeddingProvider =
  ep_name :: string
  ep_model_name :: string
  ep_model_version :: string
  ep_dimensions :: int
  ep_batch_size :: int

text \<open>\<open>FastEmbedProvider.embed\<close> around the model.\<close>

definition embed ::
  "EmbeddingProvider \<Rightarrow> (string list \<Rightarrow> rat list list) \<Rightarrow> string list \<Rightarrow> rat list list res" where
  "embed provider model texts =
     (if texts = [] \<or> int (length texts) > ep_batch_size provider
      then Inl (ValueError ''embedding batch is empty or exceeds configured limit'')
      else (let normalized = model texts in
        if length normalized \<noteq> length texts
        then Inl (RuntimeError ''embedding provider returned an incomplete batch'')
        else if list_ex (\<lambda>v. int (length v) \<noteq> ep_dimensions provider) normalized
        then Inl (RuntimeError ''embedding provider returned an invalid dimension'')
        else Inr normalized))"

definition embedding_body :: "(rat list \<Rightarrow> string) \<Rightarrow> ChunkRecord \<Rightarrow> rat list \<Rightarrow> json" where
  "embedding_body checksum chunk vector =
     JObj [(''chunk_id'', JStr (str_uuid (cr_chunk_id chunk))), (''vector'', JArr (map JFloat vector)),
           (''checksum_sha256'', JStr (checksum vector))]"

definition embedding_line :: "(rat list \<Rightarrow> string) \<Rightarrow> ChunkRecord \<times> rat list \<Rightarrow> json" where
  "embedding_line checksum cv =
     JObj [(''record_type'', JStr ''embedding''), (''embedding'', embedding_body checksum (fst cv) (snd cv))]"

definition write_batch ::
  "(string list \<Rightarrow> rat list list res) \<Rightarrow> (rat list \<Rightarrow> string) \<Rightarrow> ChunkRecord list \<Rightarrow> json list res" where
  "write_batch embed_texts checksum chunks =
     bind_res (embed_texts (map cr_text chunks)) (\<lambda>vectors.
       if length vectors \<noteq> length chunks then Inl (ValueError ''zip() arguments have different lengths'')
       else Inr (map (embedding_line checksum) (zip chunks vectors)))"

text \<open>The loop over the chunks: the pending batch, the lines written so far and their count.\<close>

fun write_batches ::
  "(string list \<Rightarrow> rat list list res) \<Rightarrow> (rat list \<Rightarrow> string) \<Rightarrow> int \<Rightarrow> ChunkRecord list \<Rightarrow> json list \<Rightarrow> int
   \<Rightarrow> ChunkRecord list \<Rightarrow> (ChunkRecord list \<times> json list \<times> int) res" where
  "write_batches embed_texts checksum batch_size pending lines count [] = Inr (pending, lines, count)"
| "write_batches embed_texts checksum batch_size pending lines count (chunk # chunks) =
     (let pending' = pending @ [chunk] in
      if int (length pending') = batch_size
      then bind_res (write_batch embed_texts checksum pending') (\<lambda>ls.
        write_batches embed_texts checksum batch_size [] (lines @ ls) (count + int (length pending')) chunks)
      else write_batches embed_texts checksum batch_size pending' lines count chunks)"

definition write_embedding_manifest ::
  "(json \<Rightarrow> ChunkRecord res) \<Rightarrow> (string list \<Rightarrow> rat list list res) \<Rightarrow> (rat list \<Rightarrow> string) \<Rightarrow> json list \<Rightarrow> uuid \<Rightarrow> uuid
   \<Rightarrow> EmbeddingProvider \<Rightarrow> int \<Rightarrow> (json list \<times> int) res" where
  "write_embedding_manifest validate_chunk embed_texts checksum chunk_manifest tenant_id document_version_id
     provider batch_size =
     (let header = JObj [(''record_type'', JStr ''header''), (''schema_version'', JStr ''embedding-manifest-v1''),
            (''tenant_id'', JStr (str_uuid tenant_id)),
            (''document_version_id'', JStr (str_uuid document_version_id)),
            (''provider'', JStr (ep_name provider)), (''model_name'', JStr (ep_model_name provider)),
            (''model_version'', JStr (ep_model_version provider)), (''dimensions'', JInt (ep_dimensions provider))];
          g = iter_chunk_manifest validate_chunk chunk_manifest tenant_id document_version_id
      in bind_res (write_batches embed_texts checksum batch_size [] [header] 0 (fst g)) (\<lambda>(pending, lines, count).
         case snd g of Some e \<Rightarrow> Inl e
         | None \<Rightarrow>
             bind_res (if pending \<noteq> []
               then bind_res (write_batch embed_texts checksum pending)
                      (\<lambda>ls. Inr (lines @ ls, count + int (length pending)))
               else Inr (lines, count)) (\<lambda>(lines', count').
             if count' = 0 then Inl (ValueError ''chunk manifest contains no embeddable records'')
             else Inr (lines' @ [JObj [(''record_type'', JStr ''manifest''), (''embedding_count'', JInt count')]],
                       count'))))"

definition iter_embedding_manifest ::
  "(json \<Rightarrow> EmbeddedChunk res) \<Rightarrow> json list \<Rightarrow> uuid \<Rightarrow> uuid \<Rightarrow> EmbeddingRecord gen" where
  "iter_embedding_manifest validate_embedded = iter_manifest ''embedding'' ''embedding'' ''embedding_count''
     (\<lambda>record count. bind_res (json_get ''embedding'' JNull record) (\<lambda>body.
        bind_res (validate_embedded body) (\<lambda>embedded.
        Inr \<lparr>em_chunk_id = ec_chunk_id embedded, em_checksum_sha256 = ec_checksum_sha256 embedded\<rparr>)))"

text \<open>A dictionary, in insertion order.\<close>

definition dict_put :: "'k \<Rightarrow> 'v \<Rightarrow> ('k \<times> 'v) list \<Rightarrow> ('k \<times> 'v) list" where
  "dict_put k v d = (if k \<in> fst ` set d then map (\<lambda>e. if fst e = k then (k, v) else e) d else d @ [(k, v)])"

fun load_embeddings_from ::
  "(json \<Rightarrow> EmbeddedChunk res) \<Rightarrow> uuid \<Rightarrow> uuid \<Rightarrow> int \<Rightarrow> (uuid \<times> EmbeddedChunk) list \<Rightarrow> json list
   \<Rightarrow> (uuid \<times> EmbeddedChunk) list res" where
  "load_embeddings_from validate_embedded t v maximum_records embeddings [] = Inr embeddings"
| "load_embeddings_from validate_embedded t v maximum_records embeddings (record # lines) =
     bind_res (scope_matches ''tenant_id'' (str_uuid t) ''embedding manifest tenant does not match'' record) (\<lambda>_.
     bind_res (scope_matches ''document_version_id'' (str_uuid v) ''embedding manifest version does not match''
        record) (\<lambda>_.
     bind_res (json_get ''record_type'' JNull record) (\<lambda>record_type.
     if record_type \<noteq> JStr ''embedding''
     then load_embeddings_from validate_embedded t v maximum_records embeddings lines
     else bind_res (json_get ''embedding'' JNull record) (\<lambda>body.
          bind_res (validate_embedded body) (\<lambda>embedded.
          let embeddings' = dict_put (ec_chunk_id embedded) embedded embeddings in
          if int (length embeddings') > maximum_records
          then Inl (ValueError ''embedding manifest exceeds configured record limit'')
          else load_embeddings_from validate_embedded t v maximum_records embeddings' lines)))))"

definition load_embeddings ::
  "(json \<Rightarrow> EmbeddedChunk res) \<Rightarrow> json list \<Rightarrow> uuid \<Rightarrow> uuid \<Rightarrow> int \<Rightarrow> (uuid \<times> EmbeddedChunk) list res" where
  "load_embeddings validate_embedded lines tenant_id document_version_id maximum_records =
     load_embeddings_from validate_embedded tenant_id document_version_id maximum_records [] lines"

section \<open>The index manifest\<close>

record PublicationManifestWriter =
  iw_tenant_id :: uuid
  iw_document_version_id :: uuid
  iw_output :: "json list"
  iw_count :: int

definition publication_writer :: "uuid \<Rightarrow> uuid \<Rightarrow> string \<Rightarrow> string \<Rightarrow> PublicationManifestWriter" where
  "publication_writer tenant_id document_version_id target_name target_version =
     \<lparr>iw_tenant_id = tenant_id, iw_document_version_id = document_version_id,
      iw_output =
        [JObj [(''record_type'', JStr ''header''), (''schema_version'', JStr ''index-manifest-v1''),
               (''tenant_id'', JStr (str_uuid tenant_id)),
               (''document_version_id'', JStr (str_uuid document_version_id)),
               (''target_name'', JStr target_name), (''target_version'', JStr target_version)]],
      iw_count = 0\<rparr>"

definition publication_line :: "uuid \<Rightarrow> uuid \<Rightarrow> PublicationRecord \<Rightarrow> json" where
  "publication_line t v p =
     JObj [(''record_type'', JStr ''publication''), (''tenant_id'', JStr (str_uuid t)),
           (''document_version_id'', JStr (str_uuid v)),
           (''publication'', JObj [(''chunk_id'', JStr (str_uuid (pb_chunk_id p))),
              (''publication_kind'', JStr (pb_publication_kind p)),
              (''external_record_id'', JStr (pb_external_record_id p))])]"

definition write_publication :: "PublicationRecord \<Rightarrow> PublicationManifestWriter \<Rightarrow> PublicationManifestWriter" where
  "write_publication p w =
     w\<lparr>iw_output := iw_output w @ [publication_line (iw_tenant_id w) (iw_document_version_id w) p],
       iw_count := iw_count w + 1\<rparr>"

definition finish_publications :: "PublicationManifestWriter \<Rightarrow> json list \<times> int" where
  "finish_publications w =
     (iw_output w @ [JObj [(''record_type'', JStr ''manifest''), (''publication_count'', JInt (iw_count w))]],
      iw_count w)"

text \<open>\<open>str(record[key])\<close>.\<close>

definition str_item :: "(json \<Rightarrow> string) \<Rightarrow> (string \<times> json) list \<Rightarrow> string \<Rightarrow> string res" where
  "str_item text_of obj key =
     (case map_of obj key of None \<Rightarrow> Inl (KeyError key)
      | Some (JStr s) \<Rightarrow> Inr s
      | Some value \<Rightarrow> Inr (text_of value))"

definition parse_publication :: "(json \<Rightarrow> string) \<Rightarrow> json \<Rightarrow> int \<Rightarrow> PublicationRecord res" where
  "parse_publication text_of record count =
     bind_res (json_get ''publication'' JNull record) (\<lambda>publication.
     case publication of
       JObj obj \<Rightarrow>
         bind_res (str_item text_of obj ''chunk_id'') (\<lambda>i.
         bind_res (parse_uuid i) (\<lambda>chunk_id.
         bind_res (str_item text_of obj ''publication_kind'') (\<lambda>kind.
         bind_res (str_item text_of obj ''external_record_id'') (\<lambda>external_id.
         Inr \<lparr>pb_chunk_id = chunk_id, pb_publication_kind = kind, pb_external_record_id = external_id\<rparr>))))
     | _ \<Rightarrow> Inl (ValueError ''index publication record is invalid''))"

definition iter_publication_manifest ::
  "(json \<Rightarrow> string) \<Rightarrow> json list \<Rightarrow> uuid \<Rightarrow> uuid \<Rightarrow> PublicationRecord gen" where
  "iter_publication_manifest text_of =
     iter_manifest ''index'' ''publication'' ''publication_count'' (parse_publication text_of)"

section \<open>Round trips\<close>

lemma fold_write_publications:
  "fold write_publication ps w = w\<lparr>iw_output := iw_output w @
       map (publication_line (iw_tenant_id w) (iw_document_version_id w)) ps,
     iw_count := iw_count w + int (length ps)\<rparr>"
  by (induction ps arbitrary: w) (simp_all add: write_publication_def)

text \<open>The index manifest round trip: whatever publications are written, the finished file yields
  exactly these publications and no error, its count is their number, and another version or
  tenant is refused before anything is yielded.\<close>

theorem publication_manifest_roundtrip:
  "finish_publications (fold write_publication ps (publication_writer t v name version)) = (lines, n) \<Longrightarrow>
   iter_publication_manifest text_of lines t v = (ps, None) \<and> n = int (length ps)
   \<and> (\<forall>t' v'. (t', v') \<noteq> (t, v) \<longrightarrow> fst (iter_publication_manifest text_of lines t' v') = []
        \<and> snd (iter_publication_manifest text_of lines t' v') \<noteq> None)"
proof -
  let ?m = "JObj [(''record_type'', JStr ''manifest''), (''publication_count'', JInt (int (length ps)))]"
  let ?h = "JObj [(''record_type'', JStr ''header''), (''schema_version'', JStr ''index-manifest-v1''),
               (''tenant_id'', JStr (str_uuid t)), (''document_version_id'', JStr (str_uuid v)),
               (''target_name'', JStr name), (''target_version'', JStr version)]"
  assume "finish_publications (fold write_publication ps (publication_writer t v name version)) = (lines, n)"
  then have l: "lines = ?h # map (publication_line t v) ps @ [?m]" and n: "n = int (length ps)"
    by (auto simp: finish_publications_def fold_write_publications publication_writer_def)
  have "\<forall>i < length ps. manifest_record ''index'' ''publication'' ''publication_count'' (parse_publication text_of)
      t v (2 + i) (0 + int i) None (publication_line t v (ps ! i)) = Inr (Some (ps ! i), None)"
    by (simp add: manifest_record_def parse_publication_def publication_line_def str_item_def parse_uuid_str)
  from iter_manifest_records [OF this, of "[?m]"]
  have "iter_publication_manifest text_of lines t v = (ps, None)"
    unfolding l by (simp add: iter_publication_manifest_def iter_manifest_def manifest_record_def numeral_2_eq_2)
  moreover have "fst (iter_publication_manifest text_of lines t' v') = []
        \<and> snd (iter_publication_manifest text_of lines t' v') \<noteq> None" if "(t', v') \<noteq> (t, v)" for t' v'
    using that unfolding l
    by (cases "t' = t") (simp_all add: iter_publication_manifest_def iter_manifest_def manifest_record_def)
  ultimately show ?thesis using n by blast
qed

theorem publication_manifest_roundtrip_witness:
  "\<exists>lines. iter_publication_manifest (\<lambda>_. []) lines 1 4
      = ([\<lparr>pb_chunk_id = 7, pb_publication_kind = ''keyword'', pb_external_record_id = ''e''\<rparr>], None)
    \<and> snd (iter_publication_manifest (\<lambda>_. []) lines 1 5) \<noteq> None"
proof -
  let ?ps = "[\<lparr>pb_chunk_id = 7, pb_publication_kind = ''keyword'', pb_external_record_id = ''e''\<rparr>]"
  obtain lines n where "finish_publications (fold write_publication ?ps (publication_writer 1 4 ''search'' ''v1'')) = (lines, n)"
    by fastforce
  from publication_manifest_roundtrip [OF this, of "\<lambda>_. []"] show ?thesis by force
qed

lemma write_batch_Inr:
  assumes "write_batch embed_texts checksum cs = Inr ls"
  shows "\<exists>vs. length vs = length cs \<and> ls = map (embedding_line checksum) (zip cs vs)"
  using assms unfolding write_batch_def by (auto elim!: bind_res_InrE split: if_splits)

lemma write_batches_Inr:
  assumes "write_batches embed_texts checksum b pending lines n cs = Inr (pending', lines', n')"
  shows "\<exists>ds vs. pending @ cs = ds @ pending' \<and> length vs = length ds
    \<and> lines' = lines @ map (embedding_line checksum) (zip ds vs) \<and> n' = n + int (length ds)"
  using assms
proof (induction cs arbitrary: pending lines n)
  case Nil
  then show ?case by (intro exI [of _ "[]"]) simp
next
  case (Cons c cs)
  show ?case
  proof (cases "int (length (pending @ [c])) = b")
    case True
    with Cons.prems obtain ls where ls: "write_batch embed_texts checksum (pending @ [c]) = Inr ls"
      and rest: "write_batches embed_texts checksum b [] (lines @ ls) (n + int (length (pending @ [c]))) cs
        = Inr (pending', lines', n')"
      by (auto simp: Let_def elim: bind_res_InrE)
    from write_batch_Inr [OF ls] obtain us where us: "length us = length (pending @ [c])"
      "ls = map (embedding_line checksum) (zip (pending @ [c]) us)" by blast
    from Cons.IH [OF rest] obtain ds vs where ds: "[] @ cs = ds @ pending'" "length vs = length ds"
      "lines' = (lines @ ls) @ map (embedding_line checksum) (zip ds vs)"
      "n' = n + int (length (pending @ [c])) + int (length ds)" by blast
    from ds us have "pending @ c # cs = (pending @ [c] @ ds) @ pending'" "length (us @ vs) = length (pending @ [c] @ ds)"
      "lines' = lines @ map (embedding_line checksum) (zip (pending @ [c] @ ds) (us @ vs))"
      "n' = n + int (length (pending @ [c] @ ds))"
      using zip_append [OF us(1) [symmetric], of ds vs] by simp_all
    then show ?thesis by blast
  next
    case False
    with Cons.prems have "write_batches embed_texts checksum b (pending @ [c]) lines n cs = Inr (pending', lines', n')"
      by (simp add: Let_def)
    from Cons.IH [OF this] show ?thesis by simp
  qed
qed

lemma map_fst_zip_records:
  "length vs = length cs \<Longrightarrow> map (\<lambda>cv. cr_chunk_id (fst cv)) (zip cs vs) = map cr_chunk_id cs"
  by (induction cs arbitrary: vs) (auto simp: length_Suc_conv)

text \<open>The embedding manifest has exactly one record per chunk, in the order of the chunk manifest,
  whatever the batch size: it reads back as records whose chunk identifiers are those of the
  chunk manifest and whose checksums are those of the vectors, and the count is the number of
  chunks.\<close>

theorem embedding_manifest_roundtrip:
  assumes "write_embedding_manifest validate_chunk embed_texts checksum manifest t v provider b = Inr (lines, n)"
    and "iter_chunk_manifest validate_chunk manifest t v = (chunks, err)"
    and "\<forall>c \<in> set chunks. \<forall>vec. validate_embedded (embedding_body checksum c vec)
           = Inr \<lparr>ec_chunk_id = cr_chunk_id c, ec_vector = vec, ec_checksum_sha256 = checksum vec\<rparr>"
  shows "\<exists>vectors. length vectors = length chunks
    \<and> iter_embedding_manifest validate_embedded lines t v =
        (map (\<lambda>(c, vec). \<lparr>em_chunk_id = cr_chunk_id c, em_checksum_sha256 = checksum vec\<rparr>) (zip chunks vectors), None)
    \<and> map em_chunk_id (fst (iter_embedding_manifest validate_embedded lines t v)) = map cr_chunk_id chunks
    \<and> err = None \<and> n = int (length chunks) \<and> 1 \<le> n"
proof -
  let ?h = "JObj [(''record_type'', JStr ''header''), (''schema_version'', JStr ''embedding-manifest-v1''),
            (''tenant_id'', JStr (str_uuid t)), (''document_version_id'', JStr (str_uuid v)),
            (''provider'', JStr (ep_name provider)), (''model_name'', JStr (ep_model_name provider)),
            (''model_version'', JStr (ep_model_version provider)), (''dimensions'', JInt (ep_dimensions provider))]"
  let ?m = "JObj [(''record_type'', JStr ''manifest''), (''embedding_count'', JInt n)]"
  note a = assms(1) [unfolded write_embedding_manifest_def Let_def assms(2) fst_conv snd_conv]
  from a obtain pending ls k where w: "write_batches embed_texts checksum b [] [?h] 0 chunks = Inr (pending, ls, k)"
    and e: "err = None"
    and fl: "(if pending \<noteq> [] then bind_res (write_batch embed_texts checksum pending)
                      (\<lambda>l. Inr (ls @ l, k + int (length pending))) else Inr (ls, k)) = Inr (butlast lines, n)"
    and n0: "n \<noteq> 0" and l: "lines = butlast lines @ [?m]"
    by (elim bind_res_InrE) (auto simp: butlast_append elim!: bind_res_InrE split: option.splits if_splits)
  from write_batches_Inr [OF w] obtain ds vs where ds: "chunks = ds @ pending" "length vs = length ds"
    "ls = ?h # map (embedding_line checksum) (zip ds vs)" "k = int (length ds)" by auto
  obtain us where us: "length us = length pending" "butlast lines = ls @ map (embedding_line checksum) (zip pending us)"
    "n = k + int (length pending)"
    using fl write_batch_Inr [of embed_texts checksum pending]
    by (cases "pending = []") (auto elim!: bind_res_InrE)
  let ?vs = "vs @ us"
  let ?rs = "map (\<lambda>(c, vec). \<lparr>em_chunk_id = cr_chunk_id c, em_checksum_sha256 = checksum vec\<rparr>) (zip chunks ?vs)"
  have len: "length ?vs = length chunks" using ds us by simp
  have lines: "lines = ?h # map (embedding_line checksum) (zip chunks ?vs) @ [?m]"
    using l us(2) ds zip_append [OF ds(2) [symmetric], of pending us] by simp
  let ?b = "\<lambda>record count. bind_res (json_get ''embedding'' JNull record) (\<lambda>body.
        bind_res (validate_embedded body) (\<lambda>embedded.
        Inr \<lparr>em_chunk_id = ec_chunk_id embedded, em_checksum_sha256 = ec_checksum_sha256 embedded\<rparr>))"
  let ?line = "\<lambda>i. embedding_line checksum (zip chunks ?vs ! i)"
  have rec: "manifest_record ''embedding'' ''embedding'' ''embedding_count'' ?b t v (2 + i) (0 + int i) None (?line i)
      = Inr (Some (?rs ! i), None)" if "i < length ?rs" for i
    using that assms(3) len by (simp add: manifest_record_def embedding_line_def)
  have "map ?line [0..<length ?rs] = map (embedding_line checksum) (zip chunks ?vs)"
    by (rule nth_equalityI) simp_all
  moreover have "iter_manifest_from ''embedding'' ''embedding'' ''embedding_count'' ?b t v 2 0 None
      (map ?line [0..<length ?rs] @ [?m]) = (?rs, None)"
    using iter_manifest_indexed [of ?rs "''embedding''" "''embedding''" "''embedding_count''" ?b t v 2 0 None ?line "[?m]"] rec us(3) ds(1,4) len
    by (simp add: manifest_record_def)
  ultimately have it: "iter_embedding_manifest validate_embedded lines t v = (?rs, None)"
    unfolding lines by (simp add: iter_embedding_manifest_def iter_manifest_def manifest_record_def numeral_2_eq_2)
  have "map em_chunk_id ?rs = map cr_chunk_id chunks"
    using map_fst_zip_records [OF len] by (simp add: case_prod_unfold comp_def)
  moreover have "n = int (length chunks)" "1 \<le> n" using ds us n0 by (simp, linarith)
  ultimately show ?thesis using len it e by (intro exI [of _ ?vs]) simp
qed

subsection \<open>A sample manifest\<close>

definition sample_chunk :: ChunkRecord where
  "sample_chunk = new_chunk (\<lambda>_. ''h'') (\<lambda>_ _. 7) sample_ocr_page 1 4 0 (sample_spans ''scan'')"

definition sample_chunk_lines :: "json list" where
  "sample_chunk_lines = [JObj [(''record_type'', JStr ''header'')], chunk_line sample_chunk_dump 1 4 sample_chunk,
     JObj [(''record_type'', JStr ''manifest''), (''chunk_count'', JInt 1)]]"

definition sample_provider :: EmbeddingProvider where
  "sample_provider = \<lparr>ep_name = ''p'', ep_model_name = ''m'', ep_model_version = ''1'', ep_dimensions = 1, ep_batch_size = 2\<rparr>"

fun sample_validate_embedded :: "json \<Rightarrow> EmbeddedChunk res" where
  "sample_validate_embedded (JObj [_, (_, JArr vs), _]) =
     Inr \<lparr>ec_chunk_id = 7, ec_vector = map (\<lambda>j. case j of JFloat q \<Rightarrow> q | _ \<Rightarrow> 0) vs, ec_checksum_sha256 = ''h''\<rparr>"
| "sample_validate_embedded _ = Inl (ValueError [])"

lemma sample_chunk_lines_read: "iter_chunk_manifest (\<lambda>_. Inr sample_chunk) sample_chunk_lines 1 4 = ([sample_chunk], None)"
proof -
  have "cr_ordinal sample_chunk = 0" by (simp add: sample_chunk_def new_chunk_def Let_def)
  then show ?thesis
    by (simp add: iter_chunk_manifest_def iter_manifest_def sample_chunk_lines_def manifest_record_def chunk_line_def gen_cons_def)
qed

theorem embedding_manifest_roundtrip_witness:
  "\<exists>lines. write_embedding_manifest (\<lambda>_. Inr sample_chunk) (embed sample_provider (map (\<lambda>_. [1]))) (\<lambda>_. ''h'')
      sample_chunk_lines 1 4 sample_provider 2 = Inr (lines, 1)
    \<and> map em_chunk_id (fst (iter_embedding_manifest sample_validate_embedded lines 1 4)) = [7]"
proof -
  let ?w = "write_embedding_manifest (\<lambda>_. Inr sample_chunk) (embed sample_provider (map (\<lambda>_. [1]))) (\<lambda>_. ''h'')
      sample_chunk_lines 1 4 sample_provider 2"
  have c: "cr_chunk_id sample_chunk = 7" by (simp add: sample_chunk_def new_chunk_def Let_def)
  obtain lines where w: "?w = Inr (lines, 1)"
    by (simp add: write_embedding_manifest_def sample_chunk_lines_read write_batch_def embed_def sample_provider_def Let_def)
  have "\<forall>c \<in> set [sample_chunk]. \<forall>vec. sample_validate_embedded (embedding_body (\<lambda>_. ''h'') c vec)
      = Inr \<lparr>ec_chunk_id = cr_chunk_id c, ec_vector = vec, ec_checksum_sha256 = (\<lambda>_. ''h'') vec\<rparr>"
    by (simp add: embedding_body_def c comp_def)
  from embedding_manifest_roundtrip [OF w sample_chunk_lines_read this] w c show ?thesis by auto
qed

end
