(* ===== verification/Artifact_Repository.thy ===== *)
theory Artifact_Repository
  imports Manifests
begin

text \<open>
  \<open>ingestion/publication_artifact_repository.py\<close>: the commits of the chunk and embed stages. Both
  consume the generator that reads the manifest of the stage, so an error of the generator
  surfaces after the rows it yielded before were inserted; the surrounding transaction rolls
  them back.
\<close>

section \<open>Operations\<close>

definition derived_row ::
  "'a ClaimedNativeJob_scheme \<Rightarrow> PublishedArtifact \<Rightarrow> uuid option \<Rightarrow> SearchTarget option \<Rightarrow> uuid \<Rightarrow> timestamp
   \<Rightarrow> artifact_row" where
  "derived_row job artifact source_artifact_id search_target artifact_id t =
     \<lparr>af_id = artifact_id, af_tenant_id = cl_tenant_id job, af_collection_id = cl_collection_id job,
      af_document_version_id = cl_document_version_id job, af_source_artifact_id = source_artifact_id,
      af_artifact_type = pa_artifact_type artifact, af_object_key = pa_object_key artifact,
      af_generator_name = pa_generator_name artifact,
      af_generator_version = pa_generator_version artifact,
      af_checksum_sha256 = pa_checksum_sha256 artifact, af_size_bytes = pa_size_bytes artifact,
      af_retention_until = None, af_created_at = t,
      af_search_target_name = map_option st_name search_target,
      af_search_target_version = map_option st_version search_target\<rparr>"

definition insert_derived_artifact ::
  "'a ClaimedNativeJob_scheme \<Rightarrow> PublishedArtifact \<Rightarrow> uuid option \<Rightarrow> SearchTarget option \<Rightarrow> uuid \<Rightarrow> session
   \<Rightarrow> session res" where
  "insert_derived_artifact job artifact source_artifact_id search_target artifact_id s =
     insert_artifact (derived_row job artifact source_artifact_id search_target artifact_id (now s)) s"

text \<open>\<open>_insert_chunk\<close>; a missing manifest identifier violates the \<open>NOT NULL\<close> of its column.\<close>

definition chunk_row_of ::
  "'a ClaimedNativeJob_scheme \<Rightarrow> uuid \<Rightarrow> string \<Rightarrow> ChunkRecord \<Rightarrow> chunk_row" where
  "chunk_row_of job artifact_id object_key chunk =
     \<lparr>ck_id = cr_chunk_id chunk, ck_tenant_id = cl_tenant_id job, ck_collection_id = cl_collection_id job,
      ck_document_version_id = cl_document_version_id job, ck_source_artifact_id = artifact_id,
      ck_ordinal = cr_ordinal chunk, ck_page_start = cr_page_start chunk, ck_page_end = cr_page_end chunk,
      ck_content_sha256 = cr_content_sha256 chunk, ck_content_object_key = object_key,
      ck_token_count = cr_token_count chunk, ck_chunker_name = cr_chunker_name chunk,
      ck_chunker_version = cr_chunker_version chunk\<rparr>"

definition insert_chunk ::
  "'a ClaimedNativeJob_scheme \<Rightarrow> uuid option \<Rightarrow> string \<Rightarrow> ChunkRecord \<Rightarrow> session \<Rightarrow> session res" where
  "insert_chunk job artifact_id object_key chunk s =
     (case artifact_id of
        None \<Rightarrow> Inl (IntegrityError ''chunks.source_artifact_id'')
      | Some i \<Rightarrow> insert_chunk_row (chunk_row_of job i object_key chunk) s)"

text \<open>The loop over a generator: its values in order, then its error.\<close>

definition for_gen :: "('x \<Rightarrow> session \<Rightarrow> session res) \<Rightarrow> 'x gen \<Rightarrow> session \<Rightarrow> session res" where
  "for_gen body g s =
     bind_res (fold_res body (fst g) s) (\<lambda>s1. case snd g of None \<Rightarrow> Inr s1 | Some e \<Rightarrow> Inl e)"

definition stored_manifest ::
  "'a ClaimedNativeJob_scheme \<Rightarrow> PublishedArtifact \<Rightarrow> session \<Rightarrow> uuid option" where
  "stored_manifest job artifact s =
     scalar [af_id a. a \<leftarrow> artifacts_of s
         (cl_tenant_id job, cl_collection_id job, cl_document_version_id job) AT_CHUNK_MANIFEST,
       af_generator_name a = pa_generator_name artifact
         \<and> af_generator_version a = pa_generator_version artifact
         \<and> af_checksum_sha256 a = pa_checksum_sha256 artifact]"

definition succeed_chunk ::
  "ClaimedPublicationJob \<Rightarrow> string \<Rightarrow> PublishedArtifact \<Rightarrow> ChunkRecord gen \<Rightarrow> int \<Rightarrow> (nat \<Rightarrow> uuid) \<Rightarrow> session
   \<Rightarrow> (NextStageJob \<times> session) res" where
  "succeed_chunk job worker_id artifact chunks max_attempts u s =
     bind_res (locked_job_version job worker_id s) (\<lambda>locked.
     bind_res (insert_derived_artifact job artifact
         (if cp_source_document_version_id job = cl_document_version_id job
          then Some (cp_normalized_artifact_id job) else None) None (u 2) s) (\<lambda>s1.
     bind_res (for_gen (insert_chunk job (stored_manifest job artifact s1) (pa_object_key artifact)) chunks s1)
       (\<lambda>s2.
     if fst chunks = [] then Inl (ValueError ''chunk manifest contains no chunks'')
     else bind_res (worker_transition EMBEDDING worker_id
         (''worker:'' @ str_uuid (cl_id job) @ '':embedding'') None None (u 0) locked s2) (\<lambda>(_, s3).
     bind_res (create_next_job job ST_EMBED max_attempts (u 1) s3) (\<lambda>(next_id, s4).
     bind_res (complete_job job s4) (\<lambda>s5.
     Inr (\<lparr>nj_id = next_id, nj_stage = ST_EMBED\<rparr>, s5)))))))"

definition chunk_artifact_id :: "'a ClaimedNativeJob_scheme \<Rightarrow> session \<Rightarrow> uuid res" where
  "chunk_artifact_id job s =
     (case latest_artifact (artifacts_of s
         (cl_tenant_id job, cl_collection_id job, cl_document_version_id job) AT_CHUNK_MANIFEST) of
        None \<Rightarrow> Inl (ValueError ''chunk artifact is unavailable'')
      | Some a \<Rightarrow> Inr (af_id a))"

definition require_exact_count ::
  "'a ClaimedNativeJob_scheme \<Rightarrow> string \<Rightarrow> int \<Rightarrow> session \<Rightarrow> unit res" where
  "require_exact_count job table expected s =
     (if table \<noteq> ''chunk_embeddings'' then Inl (ValueError ''unsupported reconciliation table'')
      else raise_if (int (length (filter (\<lambda>e. embedding_scope e =
          (cl_tenant_id job, cl_collection_id job, cl_document_version_id job)) (db_embeddings s))) \<noteq> expected)
        (ValueError ''embedding catalog count does not match manifest''))"

definition embedding_row_of ::
  "'a ClaimedNativeJob_scheme \<Rightarrow> string \<Rightarrow> string \<Rightarrow> string \<Rightarrow> string \<Rightarrow> int \<Rightarrow> EmbeddingRecord \<Rightarrow> uuid \<Rightarrow> embedding_row" where
  "embedding_row_of job vector_object_key provider model_name model_version dimensions r i =
     \<lparr>ce_id = i, ce_tenant_id = cl_tenant_id job, ce_collection_id = cl_collection_id job,
      ce_document_version_id = cl_document_version_id job, ce_chunk_id = em_chunk_id r,
      ce_provider = provider, ce_model_name = model_name, ce_model_version = model_version,
      ce_dimensions = dimensions, ce_vector_object_key = vector_object_key,
      ce_vector_checksum_sha256 = em_checksum_sha256 r\<rparr>"

definition succeed_embedding ::
  "ClaimedPublicationJob \<Rightarrow> string \<Rightarrow> PublishedArtifact \<Rightarrow> string \<Rightarrow> string \<Rightarrow> string \<Rightarrow> string \<Rightarrow> int
   \<Rightarrow> EmbeddingRecord gen \<Rightarrow> int \<Rightarrow> (nat \<Rightarrow> uuid) \<Rightarrow> session \<Rightarrow> (NextStageJob \<times> session) res" where
  "succeed_embedding job worker_id artifact vector_object_key provider model_name model_version dimensions
     records max_attempts u s =
     bind_res (locked_job_version job worker_id s) (\<lambda>locked.
     bind_res (chunk_artifact_id job s) (\<lambda>chunk_artifact.
     bind_res (insert_derived_artifact job artifact (Some chunk_artifact) None (u 2) s) (\<lambda>s1.
     bind_res (for_gen (\<lambda>(n, r). insert_embedding_row (embedding_row_of job vector_object_key provider model_name
         model_version dimensions r (u (n + 3)))) (enumerate 0 (fst records), snd records) s1) (\<lambda>s2.
     bind_res (require_exact_count job ''chunk_embeddings'' (int (length (fst records))) s2) (\<lambda>_.
     bind_res (worker_transition INDEXING worker_id
         (''worker:'' @ str_uuid (cl_id job) @ '':indexing'') None None (u 0) locked s2) (\<lambda>(_, s3).
     bind_res (create_next_job job ST_INDEX max_attempts (u 1) s3) (\<lambda>(next_id, s4).
     bind_res (complete_job job s4) (\<lambda>s5.
     Inr (\<lparr>nj_id = next_id, nj_stage = ST_INDEX\<rparr>, s5)))))))))"

section \<open>The loops\<close>

lemma for_gen_Inr: "for_gen body g s = Inr s' \<longleftrightarrow> fold_res body (fst g) s = Inr s' \<and> snd g = None"
  by (auto simp: for_gen_def bind_res_eq_Inr split: option.splits)

abbreviation job_version :: "'a ClaimedNativeJob_scheme \<Rightarrow> uuid \<times> uuid \<times> uuid" where
  "job_version job \<equiv> (cl_tenant_id job, cl_collection_id job, cl_document_version_id job)"

lemma insert_chunks_Inr:
  assumes "fold_res (insert_chunk job i k) cs s = Inr s'"
  shows "\<exists>rs. s' = s\<lparr>db_chunks := rs\<rparr> \<and> set (db_chunks s) \<subseteq> set rs
    \<and> (\<forall>c \<in> set cs. \<exists>r \<in> set rs. chunk_scope r = job_version job \<and> ck_id r = cr_chunk_id c)"
  using assms
proof (induction cs arbitrary: s)
  case Nil
  then show ?case by (intro exI [of _ "db_chunks s"]) simp
next
  case (Cons c cs)
  from Cons.prems obtain s1 where s1: "insert_chunk job i k c s = Inr s1"
    and rest: "fold_res (insert_chunk job i k) cs s1 = Inr s'"
    by (auto elim: bind_res_InrE)
  from s1 obtain a where "insert_chunk_row (chunk_row_of job a k c) s = Inr s1"
    by (cases i) (simp_all add: insert_chunk_def)
  from insert_chunk_row_Inr [OF this] obtain r1 where r1: "s1 = s\<lparr>db_chunks := r1\<rparr>" "set (db_chunks s) \<subseteq> set r1"
    "\<exists>r \<in> set r1. chunk_scope r = job_version job \<and> ck_id r = cr_chunk_id c"
    unfolding chunk_row_of_def by auto
  from Cons.IH [OF rest] obtain r2 where r2: "s' = s1\<lparr>db_chunks := r2\<rparr>" "set (db_chunks s1) \<subseteq> set r2"
    "\<forall>c \<in> set cs. \<exists>r \<in> set r2. chunk_scope r = job_version job \<and> ck_id r = cr_chunk_id c"
    by (elim exE conjE)
  from r1 r2 show ?case by (intro exI [of _ r2]) auto
qed

text \<open>References of the embeddings: every row names a chunk of its version, and chunk identifiers
  are the primary key of their table.\<close>

definition embeddings_ok :: "session \<Rightarrow> bool" where
  "embeddings_ok s \<longleftrightarrow> distinct (map ck_id (db_chunks s))
     \<and> (\<forall>e \<in> set (db_embeddings s). chunk_exists s (embedding_scope e) (ce_chunk_id e))"

lemma insert_embedding_row_ok:
  assumes "insert_embedding_row r s = Inr s'" and "embeddings_ok s"
  shows "embeddings_ok s'"
proof (cases "embedding_model_key r \<in> embedding_model_key ` set (db_embeddings s)")
  case True
  with assms show ?thesis by (auto simp: insert_embedding_row_def bind_res_eq_Inr)
next
  case False
  with assms(1) have "s' = s\<lparr>db_embeddings := db_embeddings s @ [r]\<rparr>" "chunk_exists s (embedding_scope r) (ce_chunk_id r)"
    by (auto simp: insert_embedding_row_def bind_res_eq_Inr check_all_Inr)
  with assms(2) show ?thesis by (simp add: embeddings_ok_def chunk_exists_def)
qed

lemma insert_embeddings_Inr:
  assumes "fold_res (\<lambda>(n, r). insert_embedding_row (embedding_row_of job k p m v d r (f n))) nrs s = Inr s'"
    and "embeddings_ok s"
  shows "embeddings_ok s' \<and> (\<exists>es. s' = s\<lparr>db_embeddings := es\<rparr> \<and> set (db_embeddings s) \<subseteq> set es
    \<and> (\<forall>r \<in> snd ` set nrs. \<exists>e \<in> set es. ce_tenant_id e = cl_tenant_id job
         \<and> ce_collection_id e = cl_collection_id job \<and> ce_chunk_id e = em_chunk_id r))"
  using assms
proof (induction nrs arbitrary: s)
  case Nil
  then show ?case by (intro conjI exI [of _ "db_embeddings s"]) simp_all
next
  case (Cons nr nrs)
  obtain n r where nr: "nr = (n, r)" by (cases nr)
  let ?row = "embedding_row_of job k p m v d r (f n)"
  from Cons.prems(1) obtain s1 where s1: "insert_embedding_row ?row s = Inr s1"
    and rest: "fold_res (\<lambda>(n, r). insert_embedding_row (embedding_row_of job k p m v d r (f n))) nrs s1 = Inr s'"
    unfolding nr by (auto elim: bind_res_InrE)
  from insert_embedding_row_Inr [OF s1] obtain r1 where r1: "s1 = s\<lparr>db_embeddings := r1\<rparr>"
    "set (db_embeddings s) \<subseteq> set r1" "\<exists>e \<in> set r1. embedding_model_key e = embedding_model_key ?row"
    by (elim exE conjE)
  from Cons.IH [OF rest insert_embedding_row_ok [OF s1 Cons.prems(2)]] obtain r2 where ok: "embeddings_ok s'"
    and r2: "s' = s1\<lparr>db_embeddings := r2\<rparr>" "set (db_embeddings s1) \<subseteq> set r2"
    "\<forall>r \<in> snd ` set nrs. \<exists>e \<in> set r2. ce_tenant_id e = cl_tenant_id job
         \<and> ce_collection_id e = cl_collection_id job \<and> ce_chunk_id e = em_chunk_id r"
    by (elim exE conjE)
  have "\<exists>e \<in> set r2. ce_tenant_id e = cl_tenant_id job
         \<and> ce_collection_id e = cl_collection_id job \<and> ce_chunk_id e = em_chunk_id r"
    using r1(1,3) r2(2) by (auto simp: embedding_model_key_def embedding_row_of_def)
  then show ?case using ok r1 r2 nr by (intro conjI exI [of _ r2]) auto
qed

section \<open>The common end of the commits\<close>

lemma complete_job_steps:
  assumes "complete_job job s = Inr s'"
  obtains s1 where "finish_attempt job ''succeeded'' None None s = Inr s1" "close_job JS_SUCCEEDED id (cl_id job) s1 = Inr s'"
  using assms unfolding complete_job_def by (rule bind_res_InrE)

lemma advance_tail:
  assumes "worker_transition target worker key None None eid v s = Inr (w, s1)"
    and "create_next_job job stage ma i s1 = Inr (nid, s2)" and "complete_job job s2 = Inr s'"
    and "v \<in> set (db_versions s)" "version_keys_ok s" "audit_ok s"
    and "j0 \<in> set (db_jobs s)" "ij_id j0 = cl_id job"
    and "\<forall>j \<in> set (db_jobs s). ij_id j = cl_id job \<longrightarrow> ij_stage j \<noteq> stage"
  shows "audit_ok s' \<and> version_keys_ok s' \<and> w \<in> set (db_versions s') \<and> version_scope w = version_scope v
    \<and> dv_state w = target \<and> dv_state_revision w = dv_state_revision v + 1
    \<and> operation_allowed (dv_state v) target ''advance'' = Some True
    \<and> (\<exists>vs es js as. s' = s\<lparr>db_versions := vs, db_events := es, db_jobs := js, db_attempts := as\<rparr>)
    \<and> (\<forall>j \<in> set (db_jobs s'). ij_id j = cl_id job \<longrightarrow> ij_state j = JS_SUCCEEDED \<and> ij_lease_owner j = None)
    \<and> (\<exists>n \<in> set (db_jobs s'). ij_id n = nid \<and> ij_stage n = stage \<and> ij_generation n = 0
         \<and> job_scope n = job_version job \<and> (n \<in> set (db_jobs s) \<or> ij_state n = JS_PENDING))"
proof -
  from worker_transition_ok [OF assms(1,4-6)] obtain vs es where ok: "audit_ok s1" "version_keys_ok s1"
      "w \<in> set (db_versions s1)"
    and w: "w = v\<lparr>dv_state := target, dv_state_revision := dv_state_revision v + 1,
            dv_terminal_reason_code := None, dv_updated_at := now s\<rparr>"
    and s1: "s1 = s\<lparr>db_versions := vs, db_events := es\<rparr>"
    and al: "operation_allowed (dv_state v) target ''advance'' = Some True"
    by (elim exE conjE)
  have js: "db_jobs s1 = db_jobs s" using s1 by simp
  from assms(3) obtain s3 where fin: "finish_attempt job ''succeeded'' None None s2 = Inr s3"
    "close_job JS_SUCCEEDED id (cl_id job) s3 = Inr s'" by (rule complete_job_steps)
  note t = commit_tail [OF assms(2) fin assms(7-9) [folded js], unfolded js]
  from t obtain js as where s': "s' = s1\<lparr>db_jobs := js, db_attempts := as\<rparr>" by (elim exE conjE)
  have "audit_ok s'" "version_keys_ok s'" "w \<in> set (db_versions s')"
    using ok s' by (simp_all add: audit_ok_def events_of_def version_exists_def version_keys_ok_def)
  moreover have "\<exists>vs es js as. s' = s\<lparr>db_versions := vs, db_events := es, db_jobs := js, db_attempts := as\<rparr>"
    using s' s1 by (intro exI [of _ vs] exI [of _ es] exI [of _ js] exI [of _ as]) simp
  ultimately show ?thesis using t w al by simp
qed

section \<open>The commits\<close>

lemma succeed_chunk_steps:
  assumes "succeed_chunk job worker artifact chunks ma u s = Inr (nxt, s')"
  obtains locked s1 s2 w s3 nid s4 where
    "locked_job_version job worker s = Inr locked"
    "insert_derived_artifact job artifact (if cp_source_document_version_id job = cl_document_version_id job
          then Some (cp_normalized_artifact_id job) else None) None (u 2) s = Inr s1"
    "fold_res (insert_chunk job (stored_manifest job artifact s1) (pa_object_key artifact)) (fst chunks) s1 = Inr s2"
    "snd chunks = None" "fst chunks \<noteq> []"
    "worker_transition EMBEDDING worker (''worker:'' @ str_uuid (cl_id job) @ '':embedding'') None None (u 0)
       locked s2 = Inr (w, s3)"
    "create_next_job job ST_EMBED ma (u 1) s3 = Inr (nid, s4)" "complete_job job s4 = Inr s'"
    "nxt = \<lparr>nj_id = nid, nj_stage = ST_EMBED\<rparr>"
proof -
  from assms obtain locked s1 s2 where a: "locked_job_version job worker s = Inr locked"
    "insert_derived_artifact job artifact (if cp_source_document_version_id job = cl_document_version_id job
          then Some (cp_normalized_artifact_id job) else None) None (u 2) s = Inr s1"
    "for_gen (insert_chunk job (stored_manifest job artifact s1) (pa_object_key artifact)) chunks s1 = Inr s2"
    and r: "(if fst chunks = [] then Inl (ValueError ''chunk manifest contains no chunks'')
     else bind_res (worker_transition EMBEDDING worker
         (''worker:'' @ str_uuid (cl_id job) @ '':embedding'') None None (u 0) locked s2) (\<lambda>(_, s3).
     bind_res (create_next_job job ST_EMBED ma (u 1) s3) (\<lambda>(next_id, s4).
     bind_res (complete_job job s4) (\<lambda>s5.
     Inr (\<lparr>nj_id = next_id, nj_stage = ST_EMBED\<rparr>, s5))))) = Inr (nxt, s')"
    unfolding succeed_chunk_def by (elim bind_res_InrE)
  from r have ne: "fst chunks \<noteq> []" by (cases "fst chunks = []") simp_all
  note r2 = r [unfolded if_not_P [OF ne]]
  from r2 obtain w s3 nid s4 where "worker_transition EMBEDDING worker (''worker:'' @ str_uuid (cl_id job) @ '':embedding'')
       None None (u 0) locked s2 = Inr (w, s3)"
    "create_next_job job ST_EMBED ma (u 1) s3 = Inr (nid, s4)" "complete_job job s4 = Inr s'"
    "nxt = \<lparr>nj_id = nid, nj_stage = ST_EMBED\<rparr>"
    by (elim bind_res_pairE bind_res_InrE) auto
  with that a(1,2) a(3) [unfolded for_gen_Inr] ne show thesis by blast
qed

lemma operation_allowed_embedding: "operation_allowed st EMBEDDING ''advance'' = Some True \<Longrightarrow> st = CHUNKING"
  and operation_allowed_indexing: "operation_allowed st INDEXING ''advance'' = Some True \<Longrightarrow> st = EMBEDDING"
  by (cases st; simp add: operation_allowed_def)+

text \<open>A successful chunk commit means that the manifest was read to its end and had chunks. Every
  chunk has a row of the version, the chunk manifest is an artifact of the version, the version went
  from \<open>chunking\<close> to \<open>embedding\<close> with an audited revision, the job is closed and an embed job of the
  version exists; no chunk row is removed.\<close>

theorem succeed_chunk_effect:
  assumes "succeed_chunk job worker artifact chunks ma u s = Inr (nxt, s')"
    and "version_keys_ok s" and "audit_ok s"
    and "\<forall>j \<in> set (db_jobs s). ij_id j = cl_id job \<longrightarrow> ij_stage j = ST_CHUNK"
  shows "audit_ok s' \<and> version_keys_ok s' \<and> snd chunks = None \<and> fst chunks \<noteq> []
    \<and> (\<forall>c \<in> set (fst chunks). \<exists>r \<in> set (db_chunks s'). chunk_scope r = job_version job \<and> ck_id r = cr_chunk_id c)
    \<and> set (db_chunks s) \<subseteq> set (db_chunks s')
    \<and> (\<exists>a \<in> set (db_artifacts s'). artifact_output a = artifact_output (derived_row job artifact None None 0 0))
    \<and> (\<exists>v \<in> set (db_versions s). \<exists>w \<in> set (db_versions s'). dv_id v = cl_document_version_id job
         \<and> dv_state v = CHUNKING \<and> version_scope w = version_scope v \<and> dv_state w = EMBEDDING
         \<and> dv_state_revision w = dv_state_revision v + 1)
    \<and> (\<forall>j \<in> set (db_jobs s'). ij_id j = cl_id job \<longrightarrow> ij_state j = JS_SUCCEEDED \<and> ij_lease_owner j = None)
    \<and> (\<exists>n \<in> set (db_jobs s'). ij_id n = nj_id nxt \<and> ij_stage n = ST_EMBED \<and> job_scope n = job_version job
         \<and> (n \<in> set (db_jobs s) \<or> ij_state n = JS_PENDING))"
  using assms(1)
proof (cases rule: succeed_chunk_steps)
  case (1 locked s1 s2 w s3 nid s4)
  from locked_job_version_Inr [OF 1(1)] obtain j0 where lk: "locked \<in> set (db_versions s)"
    "dv_id locked = cl_document_version_id job" and j0: "j0 \<in> set (db_jobs s)" "ij_id j0 = cl_id job" by blast
  from insert_artifact_frame [OF 1(2) [unfolded insert_derived_artifact_def]] obtain as where
    s1: "s1 = s\<lparr>db_artifacts := as\<rparr>" and art: "\<exists>a \<in> set as. artifact_output a = artifact_output (derived_row job artifact None None 0 0)"
    by (elim exE conjE) (simp add: artifact_output_def derived_row_def)
  from insert_chunks_Inr [OF 1(3)] obtain rs where s2: "s2 = s1\<lparr>db_chunks := rs\<rparr>" "set (db_chunks s1) \<subseteq> set rs"
    and rows: "\<forall>c \<in> set (fst chunks). \<exists>r \<in> set rs. chunk_scope r = job_version job \<and> ck_id r = cr_chunk_id c"
    by (elim exE conjE)
  have fr: "db_jobs s2 = db_jobs s" "db_versions s2 = db_versions s" "db_events s2 = db_events s"
    using s1 s2 by simp_all
  have "version_keys_ok s2" "audit_ok s2"
    using assms(2,3) fr by (simp_all add: version_keys_ok_def audit_ok_def events_of_def version_exists_def)
  note t = advance_tail [OF 1(6-8), unfolded fr, OF lk(1) this j0] assms(4)
  from t have "\<exists>vs es js as. s' = s2\<lparr>db_versions := vs, db_events := es, db_jobs := js, db_attempts := as\<rparr>" by simp
  then have "db_chunks s' = rs" "db_artifacts s' = as" using s1 s2 by auto
  moreover have "dv_state locked = CHUNKING" using t by (intro operation_allowed_embedding) simp
  then have "\<exists>v \<in> set (db_versions s). \<exists>w \<in> set (db_versions s'). dv_id v = cl_document_version_id job
         \<and> dv_state v = CHUNKING \<and> version_scope w = version_scope v \<and> dv_state w = EMBEDDING
         \<and> dv_state_revision w = dv_state_revision v + 1"
    using lk t by (intro bexI [of _ locked] bexI [of _ w]) simp_all
  ultimately show ?thesis
    using t art rows s1 s2(2) 1(4,5,9) by auto
qed

lemma succeed_embedding_steps:
  assumes "succeed_embedding job worker artifact key provider m mv d records ma u s = Inr (nxt, s')"
  obtains locked ca s1 s2 w s3 nid s4 where
    "locked_job_version job worker s = Inr locked" "chunk_artifact_id job s = Inr ca"
    "insert_derived_artifact job artifact (Some ca) None (u 2) s = Inr s1"
    "fold_res (\<lambda>(n, r). insert_embedding_row (embedding_row_of job key provider m mv d r (u (n + 3))))
       (enumerate 0 (fst records)) s1 = Inr s2"
    "snd records = None" "require_exact_count job ''chunk_embeddings'' (int (length (fst records))) s2 = Inr ()"
    "worker_transition INDEXING worker (''worker:'' @ str_uuid (cl_id job) @ '':indexing'') None None (u 0)
       locked s2 = Inr (w, s3)"
    "create_next_job job ST_INDEX ma (u 1) s3 = Inr (nid, s4)" "complete_job job s4 = Inr s'"
    "nxt = \<lparr>nj_id = nid, nj_stage = ST_INDEX\<rparr>"
proof -
  from assms obtain locked ca s1 s2 r w s3 nid s4 where "locked_job_version job worker s = Inr locked" "chunk_artifact_id job s = Inr ca"
    "insert_derived_artifact job artifact (Some ca) None (u 2) s = Inr s1"
    and g: "for_gen (\<lambda>(n, r). insert_embedding_row (embedding_row_of job key provider m mv d r (u (n + 3))))
       (enumerate 0 (fst records), snd records) s1 = Inr s2"
    and "require_exact_count job ''chunk_embeddings'' (int (length (fst records))) s2 = Inr r"
    "worker_transition INDEXING worker (''worker:'' @ str_uuid (cl_id job) @ '':indexing'') None None (u 0)
       locked s2 = Inr (w, s3)"
    "create_next_job job ST_INDEX ma (u 1) s3 = Inr (nid, s4)" "complete_job job s4 = Inr s'"
    "nxt = \<lparr>nj_id = nid, nj_stage = ST_INDEX\<rparr>"
    unfolding succeed_embedding_def by (elim bind_res_pairE bind_res_InrE) auto
  with that g [unfolded for_gen_Inr fst_conv snd_conv] show thesis by auto
qed

lemma chunk_embeddedI:
  assumes "embeddings_ok s" and "c \<in> set (db_chunks s)" and "e \<in> set (db_embeddings s)" and "ce_chunk_id e = ck_id c"
  shows "chunk_embedded s c"
proof -
  from assms(1,3) obtain c' where c': "c' \<in> set (db_chunks s)" "chunk_scope c' = embedding_scope e" "ck_id c' = ce_chunk_id e"
    unfolding embeddings_ok_def chunk_exists_def list_ex_iff by blast
  from assms(1) have "distinct (map ck_id (db_chunks s))" by (simp add: embeddings_ok_def)
  from distinct_map_inj_rows [OF this c'(1) assms(2)] c' assms(4) have "c' = c" by simp
  with c' assms(3,4) show ?thesis unfolding chunk_embedded_def list_ex_iff by auto
qed

text \<open>A successful embedding commit means that the catalog and the manifest agree: the number of
  embedding rows of the version is the number of records, every chunk the manifest names has its
  embedding, and so, when the manifest names every chunk of the version, all chunks are embedded as
  the ready trigger requires. The version went from \<open>embedding\<close> to \<open>indexing\<close>, the job is
  closed and an index job exists.\<close>

theorem succeed_embedding_effect:
  assumes "succeed_embedding job worker artifact key provider m mv d records ma u s = Inr (nxt, s')"
    and "version_keys_ok s" and "audit_ok s" and "embeddings_ok s"
    and "\<forall>j \<in> set (db_jobs s). ij_id j = cl_id job \<longrightarrow> ij_stage j = ST_EMBED"
  shows "audit_ok s' \<and> version_keys_ok s' \<and> embeddings_ok s' \<and> snd records = None
    \<and> length (filter (\<lambda>e. embedding_scope e = job_version job) (db_embeddings s')) = length (fst records)
    \<and> db_chunks s' = db_chunks s
    \<and> (\<forall>c \<in> set (db_chunks s'). ck_id c \<in> em_chunk_id ` set (fst records) \<longrightarrow> chunk_embedded s' c)
    \<and> (\<exists>v \<in> set (db_versions s). \<exists>w \<in> set (db_versions s'). dv_id v = cl_document_version_id job
         \<and> dv_state v = EMBEDDING \<and> version_scope w = version_scope v \<and> dv_state w = INDEXING
         \<and> dv_state_revision w = dv_state_revision v + 1)
    \<and> (\<forall>j \<in> set (db_jobs s'). ij_id j = cl_id job \<longrightarrow> ij_state j = JS_SUCCEEDED \<and> ij_lease_owner j = None)
    \<and> (\<exists>n \<in> set (db_jobs s'). ij_id n = nj_id nxt \<and> ij_stage n = ST_INDEX \<and> job_scope n = job_version job
         \<and> (n \<in> set (db_jobs s) \<or> ij_state n = JS_PENDING))"
  using assms(1)
proof (cases rule: succeed_embedding_steps)
  case (1 locked ca s1 s2 w s3 nid s4)
  from locked_job_version_Inr [OF 1(1)] obtain j0 where lk: "locked \<in> set (db_versions s)"
    "dv_id locked = cl_document_version_id job" and j0: "j0 \<in> set (db_jobs s)" "ij_id j0 = cl_id job" by blast
  from insert_artifact_frame [OF 1(3) [unfolded insert_derived_artifact_def]] obtain as where
    s1: "s1 = s\<lparr>db_artifacts := as\<rparr>" by (elim exE conjE)
  then have "embeddings_ok s1" using assms(4) by (simp add: embeddings_ok_def chunk_exists_def)
  from insert_embeddings_Inr [OF 1(4) this] obtain es where ok2: "embeddings_ok s2" and s2: "s2 = s1\<lparr>db_embeddings := es\<rparr>"
    and rows: "\<forall>r \<in> snd ` set (enumerate 0 (fst records)). \<exists>e \<in> set es. ce_tenant_id e = cl_tenant_id job
         \<and> ce_collection_id e = cl_collection_id job \<and> ce_chunk_id e = em_chunk_id r"
    by (elim exE conjE)
  have recs: "snd ` set (enumerate 0 (fst records)) = set (fst records)"
    by (metis list.set_map map_snd_enumerate)
  have fr: "db_jobs s2 = db_jobs s" "db_versions s2 = db_versions s" "db_events s2 = db_events s"
    using s1 s2 by simp_all
  have "version_keys_ok s2" "audit_ok s2"
    using assms(2,3) fr by (simp_all add: version_keys_ok_def audit_ok_def events_of_def version_exists_def)
  note t = advance_tail [OF 1(7-9), unfolded fr, OF lk(1) this j0] assms(5)
  from t have "\<exists>vs es js as. s' = s2\<lparr>db_versions := vs, db_events := es, db_jobs := js, db_attempts := as\<rparr>" by simp
  then have fr': "db_chunks s' = db_chunks s" "db_embeddings s' = es" using s1 s2 by auto
  have ok': "embeddings_ok s'"
    using ok2 fr' s1 s2 by (simp add: embeddings_ok_def chunk_exists_def)
  have "chunk_embedded s' c" if c: "c \<in> set (db_chunks s')" "ck_id c \<in> em_chunk_id ` set (fst records)" for c
  proof -
    from c(2) rows [unfolded recs] obtain e where "e \<in> set es" "ce_chunk_id e = ck_id c" by force
    with chunk_embeddedI [OF ok' c(1)] fr' show ?thesis by simp
  qed
  moreover have "length (filter (\<lambda>e. embedding_scope e = job_version job) (db_embeddings s')) = length (fst records)"
    using 1(6) fr' s2 by (simp add: require_exact_count_def)
  moreover have "dv_state locked = EMBEDDING" using t by (intro operation_allowed_indexing) simp
  then have "\<exists>v \<in> set (db_versions s). \<exists>w \<in> set (db_versions s'). dv_id v = cl_document_version_id job
         \<and> dv_state v = EMBEDDING \<and> version_scope w = version_scope v \<and> dv_state w = INDEXING
         \<and> dv_state_revision w = dv_state_revision v + 1"
    using lk t by (intro bexI [of _ locked] bexI [of _ w]) simp_all
  ultimately show ?thesis
    using t ok' fr'(1) 1(5,10) by auto
qed

section \<open>Witnesses\<close>

definition chunk_manifest_artifact :: PublishedArtifact where
  "chunk_manifest_artifact = extracted_artifact\<lparr>pa_artifact_type := AT_CHUNK_MANIFEST, pa_object_key := ''c''\<rparr>"

definition stored_chunk :: ChunkRecord where
  "stored_chunk = \<lparr>cr_chunk_id = 7, cr_ordinal = 0, cr_page_start = 1, cr_page_end = 1, cr_char_start = 0,
     cr_char_end = 4, cr_text = ''scan'', cr_content_sha256 = sample_sha, cr_token_count = 4, cr_section_path = [],
     cr_block_bounds = [], cr_chunker_name = CHUNKER_NAME, cr_chunker_version = CHUNKER_VERSION\<rparr>"

definition embedding_session :: session where
  "embedding_session = chunking_session\<lparr>
     db_versions := [sample_version\<lparr>dv_state := EMBEDDING, dv_state_revision := 6, dv_page_count := Some 3\<rparr>],
     db_artifacts := [original_pdf_artifact sample_principal 4 sample_version 21 10,
       published_row sample_claim normalized_artifact 72 10,
       derived_row sample_claim chunk_manifest_artifact (Some 72) None 73 10],
     db_chunks := [chunk_row_of sample_claim 73 ''c'' stored_chunk],
     db_jobs := [leased_row ''w1'' 1 (seconds 60) 10 (new_job 92 (1, 2, 4) ST_EMBED 0 3 None 10)],
     db_attempts := [\<lparr>ja_id = 93, ja_tenant_id = 1, ja_collection_id = 2, ja_job_id = 92,
       ja_attempt_number = 1, ja_worker_id = ''w1'', ja_started_at = 10, ja_heartbeat_at = Some 10,
       ja_finished_at = None, ja_outcome = None, ja_error_class = None, ja_reason_code = None\<rparr>],
     db_events := sample_log 0 [RECEIVED, VALIDATING, QUEUED, PARSING, NORMALIZING, CHUNKING, EMBEDDING]\<rparr>"

definition sample_embed_claim :: ClaimedPublicationJob where
  "sample_embed_claim = sample_chunk_claim\<lparr>cl_id := 92, cp_stage := ST_EMBED, cp_chunk_object_key := Some ''c'',
     cp_chunk_checksum_sha256 := Some sample_sha, cp_chunk_generator_version := Some ''v1''\<rparr>"

lemmas commit_eval = locked_job_version_def owns_attempt_def create_next_job_def upsert_job_def
  job_request_def finish_attempt_def close_attempts_def close_job_def complete_job_def worker_eval
  insert_derived_artifact_def derived_row_def for_gen_def artifacts_of_def latest_artifact_def artifact_output_def

lemmas manifest_samples = chunk_manifest_artifact_def stored_chunk_def chunk_row_of_def embedding_session_def
  sample_embed_claim_def chunking_samples

lemma sample_chunk_commit:
  "\<exists>nxt s'. succeed_chunk sample_chunk_claim ''w1'' chunk_manifest_artifact ([stored_chunk], None) 3
     (\<lambda>n. word_of_nat (n + 100)) chunking_leased_session = Inr (nxt, s')"
  by (simp add: succeed_chunk_def stored_manifest_def insert_chunk_def insert_chunk_row_def chunk_checks_def
      chunk_exists_def commit_eval manifest_samples)

lemma chunking_leased_session_ok: "version_keys_ok chunking_leased_session \<and> audit_ok chunking_leased_session"
proof -
  have "audit_trail (sample_log 0 [RECEIVED, VALIDATING, QUEUED, PARSING, NORMALIZING, CHUNKING]) 5 CHUNKING"
    by (rule trail_from_audit) simp
  then show ?thesis
    by (simp add: version_keys_ok_def audit_ok_def events_of_def version_exists_def chunking_samples)
qed

theorem succeed_chunk_effect_witness:
  "\<exists>nxt s'. succeed_chunk sample_chunk_claim ''w1'' chunk_manifest_artifact ([stored_chunk], None) 3
     (\<lambda>n. word_of_nat (n + 100)) chunking_leased_session = Inr (nxt, s')
   \<and> audit_ok s' \<and> (\<exists>r \<in> set (db_chunks s'). chunk_scope r = (1, 2, 4) \<and> ck_id r = 7)"
proof -
  from sample_chunk_commit obtain nxt s' where c: "succeed_chunk sample_chunk_claim ''w1'' chunk_manifest_artifact
      ([stored_chunk], None) 3 (\<lambda>n. word_of_nat (n + 100)) chunking_leased_session = Inr (nxt, s')" by blast
  have "\<forall>j \<in> set (db_jobs chunking_leased_session). ij_id j = cl_id sample_chunk_claim \<longrightarrow> ij_stage j = ST_CHUNK"
    by (simp add: manifest_samples)
  from succeed_chunk_effect [OF c _ _ this] chunking_leased_session_ok c show ?thesis
    by (auto simp: manifest_samples)
qed

lemma embedding_session_ok:
  "version_keys_ok embedding_session \<and> audit_ok embedding_session \<and> embeddings_ok embedding_session"
proof -
  have "audit_trail (sample_log 0 [RECEIVED, VALIDATING, QUEUED, PARSING, NORMALIZING, CHUNKING, EMBEDDING]) 6 EMBEDDING"
    by (rule trail_from_audit) simp
  then show ?thesis
    by (simp add: version_keys_ok_def audit_ok_def events_of_def version_exists_def embeddings_ok_def manifest_samples)
qed

abbreviation embedding_artifact :: PublishedArtifact where
  "embedding_artifact \<equiv> extracted_artifact\<lparr>pa_artifact_type := AT_INDEX_MANIFEST, pa_object_key := ''e'',
     pa_generator_name := ''fastembed''\<rparr>"

abbreviation embedding_records :: "EmbeddingRecord gen" where
  "embedding_records \<equiv> ([\<lparr>em_chunk_id = 7, em_checksum_sha256 = sample_sha\<rparr>], None)"

lemma sample_embedding_commit:
  "\<exists>nxt s'. succeed_embedding sample_embed_claim ''w1'' embedding_artifact ''e'' ''fastembed'' ''m'' ''1'' 384
     embedding_records 3 (\<lambda>n. word_of_nat (n + 100)) embedding_session = Inr (nxt, s')"
  by (simp add: succeed_embedding_def chunk_artifact_id_def require_exact_count_def insert_embedding_row_def
      embedding_row_of_def embedding_checks_def chunk_exists_def commit_eval manifest_samples)

theorem succeed_embedding_effect_witness:
  "\<exists>nxt s'. succeed_embedding sample_embed_claim ''w1'' embedding_artifact ''e'' ''fastembed'' ''m'' ''1'' 384
     embedding_records 3 (\<lambda>n. word_of_nat (n + 100)) embedding_session = Inr (nxt, s')
   \<and> audit_ok s' \<and> (\<forall>c \<in> set (db_chunks s'). chunk_embedded s' c)"
proof -
  from sample_embedding_commit obtain nxt s' where c: "succeed_embedding sample_embed_claim ''w1'' embedding_artifact
      ''e'' ''fastembed'' ''m'' ''1'' 384 embedding_records 3 (\<lambda>n. word_of_nat (n + 100)) embedding_session = Inr (nxt, s')"
    by blast
  have "\<forall>j \<in> set (db_jobs embedding_session). ij_id j = cl_id sample_embed_claim \<longrightarrow> ij_stage j = ST_EMBED"
    by (simp add: manifest_samples)
  from succeed_embedding_effect [OF c _ _ _ this] embedding_session_ok have "audit_ok s'"
    "\<forall>c \<in> set (db_chunks s'). ck_id c \<in> em_chunk_id ` set (fst embedding_records) \<longrightarrow> chunk_embedded s' c"
    "db_chunks s' = db_chunks embedding_session" by blast+
  with c show ?thesis by (auto simp: manifest_samples)
qed

end
