(* ===== verification/Search_Recovery.thy ===== *)
theory Search_Recovery
  imports Artifact_Repository
begin

text \<open>
  \<open>ingestion/search_recovery.py\<close> and \<open>ingestion/search_recovery_sql.py\<close>: the durable queue of
  search records to remove, and the activation of published records once nothing they replace is
  left. The search adapter is an argument of the service, with its own state; what other sessions
  commit between two transactions of the service, the passing of time included, is the argument
  \<open>env\<close>.
\<close>

section \<open>The repository\<close>

definition cleanup_entry ::
  "uuid \<Rightarrow> uuid \<Rightarrow> uuid \<Rightarrow> SearchTargetPublication \<Rightarrow> uuid option \<Rightarrow> uuid \<Rightarrow> timestamp \<Rightarrow> search_cleanup_row" where
  "cleanup_entry tenant_id collection_id document_version_id publication activation_version_id entry_id t =
     \<lparr>sc_id = entry_id, sc_tenant_id = tenant_id, sc_collection_id = collection_id,
      sc_document_version_id = document_version_id, sc_activation_version_id = activation_version_id,
      sc_publication_job_id = tp_publication_job_id publication,
      sc_publication_attempt = tp_publication_attempt publication,
      sc_target_name = st_name (tp_target publication), sc_target_version = st_version (tp_target publication),
      sc_state = CL_PENDING, sc_attempt_count = 0, sc_lease_owner = None, sc_lease_expires_at = None,
      sc_last_reason_code = None, sc_deleted_at = None, sc_updated_at = t\<rparr>"

definition enqueue_cleanup ::
  "uuid \<Rightarrow> uuid \<Rightarrow> uuid \<Rightarrow> SearchTargetPublication \<Rightarrow> uuid option \<Rightarrow> uuid \<Rightarrow> session \<Rightarrow> session res" where
  "enqueue_cleanup tenant_id collection_id document_version_id publication activation_version_id entry_id s =
     insert_search_cleanup (cleanup_entry tenant_id collection_id document_version_id publication
       activation_version_id entry_id (now s)) s"

text \<open>\<open>state = 'pending' OR (state = 'running' AND lease_expires_at <= now())\<close>.\<close>

definition cleanup_due :: "timestamp \<Rightarrow> search_cleanup_row \<Rightarrow> bool" where
  "cleanup_due t c \<longleftrightarrow> sc_state c = CL_PENDING
     \<or> (sc_state c = CL_RUNNING \<and> (case sc_lease_expires_at c of None \<Rightarrow> False | Some e \<Rightarrow> e \<le> t))"

definition cleanup_selected :: "uuid option \<Rightarrow> uuid option \<Rightarrow> search_cleanup_row \<Rightarrow> bool" where
  "cleanup_selected activation_version_id document_version_id c \<longleftrightarrow>
     (activation_version_id = None \<or> sc_activation_version_id c = activation_version_id)
     \<and> (document_version_id = None \<or> Some (sc_document_version_id c) = document_version_id)"

text \<open>\<open>ORDER BY updated_at, id LIMIT 1\<close>.\<close>

definition first_cleanup :: "(search_cleanup_row \<Rightarrow> bool) \<Rightarrow> session \<Rightarrow> uuid option" where
  "first_cleanup p s =
     map_option sc_id (scalar (sort_key (\<lambda>c. (sc_updated_at c, unat (sc_id c))) (filter p (db_search_cleanup s))))"

definition fail_exhausted :: "int \<Rightarrow> uuid option \<Rightarrow> uuid option \<Rightarrow> session \<Rightarrow> session res" where
  "fail_exhausted max_attempts activation_version_id document_version_id s =
     (let exhausted = first_cleanup (\<lambda>c. sc_attempt_count c \<ge> max_attempts
            \<and> cleanup_selected activation_version_id document_version_id c \<and> cleanup_due (now s) c) s
      in update_search_cleanup (\<lambda>c. Some (sc_id c) = exhausted)
           (\<lambda>c. c\<lparr>sc_state := CL_FAILED, sc_lease_owner := None, sc_lease_expires_at := None,
                  sc_updated_at := now s,
                  sc_last_reason_code := (case sc_last_reason_code c of
                     None \<Rightarrow> Some ''SEARCH_CLEANUP_RETRY_EXHAUSTED'' | Some r \<Rightarrow> Some r)\<rparr>) s)"

definition lease_cleanup ::
  "string \<Rightarrow> timestamp \<Rightarrow> int \<Rightarrow> uuid option \<Rightarrow> uuid option \<Rightarrow> session \<Rightarrow> (search_cleanup_row list \<times> session) res" where
  "lease_cleanup worker_id lease_duration max_attempts activation_version_id document_version_id s =
     (let candidate = first_cleanup (\<lambda>c. sc_attempt_count c < max_attempts \<and> cleanup_due (now s) c
            \<and> cleanup_selected activation_version_id document_version_id c) s
      in bind_res (update_search_cleanup (\<lambda>c. Some (sc_id c) = candidate)
           (\<lambda>c. c\<lparr>sc_state := CL_RUNNING, sc_attempt_count := sc_attempt_count c + 1,
                  sc_lease_owner := Some worker_id, sc_lease_expires_at := Some (now s + lease_duration),
                  sc_updated_at := now s\<rparr>) s)
           (\<lambda>s1. Inr (filter (\<lambda>c. Some (sc_id c) = candidate) (db_search_cleanup s1), s1)))"

definition claim_cleanup ::
  "string \<Rightarrow> timestamp \<Rightarrow> int \<Rightarrow> uuid option \<Rightarrow> uuid option \<Rightarrow> session
   \<Rightarrow> (SearchCleanupClaim option \<times> session) res" where
  "claim_cleanup worker_id lease_duration max_attempts activation_version_id document_version_id s =
     bind_res (fail_exhausted max_attempts activation_version_id document_version_id s) (\<lambda>s1.
     bind_res (lease_cleanup worker_id lease_duration max_attempts activation_version_id document_version_id s1)
       (\<lambda>(rows, s2).
     bind_res (one_or_none rows) (\<lambda>row_result.
     case row_result of None \<Rightarrow> Inr (None, s2)
     | Some row \<Rightarrow>
         bind_res (new_search_target (sc_target_name row) (sc_target_version row)) (\<lambda>target.
         Inr (Some \<lparr>sk_id = sc_id row, sk_tenant_id = sc_tenant_id row, sk_collection_id = sc_collection_id row,
            sk_document_version_id = sc_document_version_id row,
            sk_activation_version_id = sc_activation_version_id row, sk_target = target,
            sk_attempt_number = sc_attempt_count row, sk_publication_job_id = sc_publication_job_id row,
            sk_publication_attempt = sc_publication_attempt row\<rparr>, s2)))))"

definition holds_cleanup :: "SearchCleanupClaim \<Rightarrow> string \<Rightarrow> search_cleanup_row \<Rightarrow> bool" where
  "holds_cleanup claim worker_id c \<longleftrightarrow> sc_id c = sk_id claim \<and> sc_state c = CL_RUNNING
     \<and> sc_lease_owner c = Some worker_id \<and> sc_attempt_count c = sk_attempt_number claim"

definition complete_cleanup :: "SearchCleanupClaim \<Rightarrow> string \<Rightarrow> session \<Rightarrow> session res" where
  "complete_cleanup claim worker_id s =
     update_search_cleanup (holds_cleanup claim worker_id)
       (\<lambda>c. c\<lparr>sc_state := CL_DELETED, sc_deleted_at := Some (now s), sc_lease_owner := None,
              sc_lease_expires_at := None, sc_last_reason_code := None, sc_updated_at := now s\<rparr>) s"

definition retry_cleanup :: "SearchCleanupClaim \<Rightarrow> string \<Rightarrow> int \<Rightarrow> string \<Rightarrow> session \<Rightarrow> session res" where
  "retry_cleanup claim worker_id max_attempts reason_code s =
     update_search_cleanup (holds_cleanup claim worker_id)
       (\<lambda>c. c\<lparr>sc_state := (if sk_attempt_number claim \<ge> max_attempts then CL_FAILED else CL_PENDING),
              sc_lease_owner := None, sc_lease_expires_at := None,
              sc_last_reason_code := Some reason_code, sc_updated_at := now s\<rparr>) s"

section \<open>Activation\<close>

definition activation_key ::
  "publication_row \<Rightarrow> (uuid \<times> uuid \<times> uuid) \<times> string \<times> string \<times> uuid option \<times> int option" where
  "activation_key p = (publication_scope p, publication_group p)"

definition activation_ready ::
  "uuid option \<Rightarrow> uuid option \<Rightarrow> session \<Rightarrow> version_row \<Rightarrow> publication_row \<Rightarrow> bool" where
  "activation_ready activation_version_id document_version_id s v p \<longleftrightarrow>
     version_scope v = publication_scope p
     \<and> ip_deleted_at p = None \<and> ip_activated_at p = None \<and> ip_publication_job_id p \<noteq> None
     \<and> dv_state v \<in> {READY, READY_WITH_WARNINGS}
     \<and> (activation_version_id = None \<or> Some (dv_id v) = activation_version_id)
     \<and> (document_version_id = None \<or> Some (dv_id v) = document_version_id)
     \<and> \<not> list_ex (\<lambda>c. sc_tenant_id c = dv_tenant_id v \<and> sc_collection_id c = dv_collection_id v
            \<and> sc_activation_version_id c = Some (dv_id v) \<and> sc_state c \<noteq> CL_DELETED) (db_search_cleanup s)
     \<and> \<not> list_ex (\<lambda>c. chunk_scope c = version_scope v \<and> \<not> chunk_embedded s c) (db_chunks s)
     \<and> manifest_for s (version_scope v) (ip_target_name p) (ip_target_version p)"

definition chunk_count_of :: "session \<Rightarrow> uuid \<times> uuid \<times> uuid \<Rightarrow> int" where
  "chunk_count_of s k = int (length (filter (\<lambda>c. chunk_scope c = k) (db_chunks s)))"

definition distinct_chunk_count :: "publication_row list \<Rightarrow> int" where
  "distinct_chunk_count ps = int (length (remdups (map ip_chunk_id ps)))"

text \<open>The groups of the query, in the order of \<open>min(published_at), document_version_id\<close>, cut
  at the limit.\<close>

definition activation_groups ::
  "int \<Rightarrow> uuid option \<Rightarrow> uuid option \<Rightarrow> session \<Rightarrow> publication_row list list" where
  "activation_groups limit activation_version_id document_version_id s =
     (let rows = [p. p \<leftarrow> db_publications s, v \<leftarrow> db_versions s,
              activation_ready activation_version_id document_version_id s v p];
          groups = map (\<lambda>k. filter (\<lambda>p. activation_key p = k) rows) (remdups (map activation_key rows))
      in take (nat limit) (sort_key
           (\<lambda>g. (Min (ip_published_at ` set g), unat (ip_document_version_id (hd g))))
           (filter (\<lambda>g. distinct_chunks PK_LEXICAL g = chunk_count_of s (publication_scope (hd g))
                \<and> distinct_chunks PK_VECTOR g = chunk_count_of s (publication_scope (hd g))) groups)))"

definition pending_activation :: "publication_row list \<Rightarrow> PendingSearchActivation res" where
  "pending_activation g =
     bind_res (new_search_target (ip_target_name (hd g)) (ip_target_version (hd g))) (\<lambda>target.
     case (ip_publication_job_id (hd g), ip_publication_attempt (hd g)) of
       (Some j, Some n) \<Rightarrow> Inr \<lparr>ac_tenant_id = ip_tenant_id (hd g), ac_collection_id = ip_collection_id (hd g),
          ac_document_version_id = ip_document_version_id (hd g), ac_target = target,
          ac_record_count = distinct_chunk_count g, ac_publication_job_id = j, ac_publication_attempt = n\<rparr>
     | (None, _) \<Rightarrow> Inl (ValueError ''badly formed hexadecimal UUID string'')
     | (_, None) \<Rightarrow> Inl (ValueError ''invalid literal for int()''))"

definition pending_activations ::
  "int \<Rightarrow> uuid option \<Rightarrow> uuid option \<Rightarrow> session \<Rightarrow> PendingSearchActivation list res" where
  "pending_activations limit activation_version_id document_version_id s =
     map_res pending_activation (activation_groups limit activation_version_id document_version_id s)"

definition complete_activation :: "PendingSearchActivation \<Rightarrow> session \<Rightarrow> session res" where
  "complete_activation a s =
     update_publications (\<lambda>p. publication_scope p = (ac_tenant_id a, ac_collection_id a, ac_document_version_id a)
         \<and> publication_group p = (st_name (ac_target a), st_version (ac_target a),
              Some (ac_publication_job_id a), Some (ac_publication_attempt a))
         \<and> ip_deleted_at p = None)
       (\<lambda>p. p\<lparr>ip_activated_at := (case ip_activated_at p of None \<Rightarrow> Some (now s) | Some t \<Rightarrow> Some t)\<rparr>) s"

section \<open>The service\<close>

text \<open>A transaction whose body returns no value.\<close>

definition unit_transaction :: "(session \<Rightarrow> session res) \<Rightarrow> session \<Rightarrow> unit res \<times> session" where
  "unit_transaction body = transaction (\<lambda>s. bind_res (body s) (\<lambda>s1. Inr ((), s1)))"

record 'x search_adapter =
  delete_version :: "SearchCleanupClaim \<Rightarrow> 'x \<Rightarrow> unit res \<times> 'x"
  activate_version :: "PendingSearchActivation \<Rightarrow> 'x \<Rightarrow> unit res \<times> 'x"

fun cleanup_loop ::
  "'x search_adapter \<Rightarrow> (session \<Rightarrow> session) \<Rightarrow> string \<Rightarrow> timestamp \<Rightarrow> int \<Rightarrow> uuid option \<Rightarrow> uuid option
   \<Rightarrow> nat \<Rightarrow> int \<Rightarrow> session \<Rightarrow> 'x \<Rightarrow> int res \<times> session \<times> 'x" where
  "cleanup_loop adapter env worker_id lease max_attempts av dv 0 cleaned s x = (Inr cleaned, s, x)"
| "cleanup_loop adapter env worker_id lease max_attempts av dv (Suc n) cleaned s x =
     (case transaction (claim_cleanup worker_id lease max_attempts av dv) (env s) of
        (Inl e, s1) \<Rightarrow> (Inl e, s1, x)
      | (Inr None, s1) \<Rightarrow> (Inr cleaned, s1, x)
      | (Inr (Some claim), s1) \<Rightarrow>
          (case delete_version adapter claim x of
             (Inl e, x1) \<Rightarrow>
               (case unit_transaction (retry_cleanup claim worker_id max_attempts ''SEARCH_CLEANUP_UNAVAILABLE'') (env s1) of
                  (Inl e', s2) \<Rightarrow> (Inl e', s2, x1)
                | (Inr _, s2) \<Rightarrow> (Inl e, s2, x1))
           | (Inr _, x1) \<Rightarrow>
               (case unit_transaction (complete_cleanup claim worker_id) (env s1) of
                  (Inl e, s2) \<Rightarrow> (Inl e, s2, x1)
                | (Inr _, s2) \<Rightarrow>
                    cleanup_loop adapter env worker_id lease max_attempts av dv n (cleaned + 1) s2 x1)))"

fun activate_loop ::
  "'x search_adapter \<Rightarrow> (session \<Rightarrow> session) \<Rightarrow> PendingSearchActivation list \<Rightarrow> int \<Rightarrow> session \<Rightarrow> 'x
   \<Rightarrow> int res \<times> session \<times> 'x" where
  "activate_loop adapter env [] activated s x = (Inr activated, s, x)"
| "activate_loop adapter env (a # as) activated s x =
     (case activate_version adapter a x of
        (Inl e, x1) \<Rightarrow> (Inl e, s, x1)
      | (Inr _, x1) \<Rightarrow>
          (case unit_transaction (complete_activation a) (env s) of
             (Inl e, s1) \<Rightarrow> (Inl e, s1, x1)
           | (Inr _, s1) \<Rightarrow> activate_loop adapter env as (activated + 1) s1 x1))"

definition run_once ::
  "'x search_adapter \<Rightarrow> (session \<Rightarrow> session) \<Rightarrow> int \<Rightarrow> string \<Rightarrow> timestamp \<Rightarrow> int \<Rightarrow> uuid option \<Rightarrow> uuid option
   \<Rightarrow> session \<Rightarrow> 'x \<Rightarrow> (int \<times> int) res \<times> session \<times> 'x" where
  "run_once adapter env limit worker_id lease max_attempts av dv s x =
     (if limit < 1 then (Inr (0, 0), s, x)
      else (case cleanup_loop adapter env worker_id lease max_attempts av dv (nat limit) 0 s x of
        (Inl e, s1, x1) \<Rightarrow> (Inl e, s1, x1)
      | (Inr cleaned, s1, x1) \<Rightarrow>
          if limit - cleaned > 0
          then (case transaction (\<lambda>s. bind_res (pending_activations (limit - cleaned) av dv s) (\<lambda>as. Inr (as, s)))
                  (env s1) of
             (Inl e, s2) \<Rightarrow> (Inl e, s2, x1)
           | (Inr activations, s2) \<Rightarrow>
               (case activate_loop adapter env activations 0 s2 x1 of
                  (Inl e, s3, x2) \<Rightarrow> (Inl e, s3, x2)
                | (Inr activated, s3, x2) \<Rightarrow> (Inr (cleaned, activated), s3, x2)))
          else (Inr (cleaned, 0), s1, x1)))"

section \<open>The queue as an abstract machine\<close>

text \<open>
  One entry of the queue: waiting, held by a worker until a time, removed, or abandoned, each with
  the number of attempts made. \<open>cleanup_step\<close> gives the moves at a time \<open>t\<close> under a limit \<open>m\<close>.
\<close>

datatype entry = Waiting int | Held string timestamp int | Removed int | Abandoned int

inductive cleanup_step :: "int \<Rightarrow> timestamp \<Rightarrow> entry \<Rightarrow> entry \<Rightarrow> bool" for m t where
  take: "n < m \<Longrightarrow> cleanup_step m t (Waiting n) (Held w e (n + 1))"
| steal: "e \<le> t \<Longrightarrow> n < m \<Longrightarrow> cleanup_step m t (Held w e n) (Held w' e' (n + 1))"
| give_up: "m \<le> n \<Longrightarrow> cleanup_step m t (Waiting n) (Abandoned n)"
| expire: "e \<le> t \<Longrightarrow> m \<le> n \<Longrightarrow> cleanup_step m t (Held w e n) (Abandoned n)"
| finish: "cleanup_step m t (Held w e n) (Removed n)"
| release: "n < m \<Longrightarrow> cleanup_step m t (Held w e n) (Waiting n)"
| abandon: "m \<le> n \<Longrightarrow> cleanup_step m t (Held w e n) (Abandoned n)"

inductive_simps removed_step: "cleanup_step m t (Removed n) e"
inductive_simps abandoned_step: "cleanup_step m t (Abandoned n) e"
inductive_cases cleanup_stepE: "cleanup_step m t a b"

definition entry_move :: "int \<Rightarrow> entry \<Rightarrow> entry \<Rightarrow> bool" where
  "entry_move m a b \<longleftrightarrow> (\<exists>t. cleanup_step m t a b)"

fun entry_attempts :: "entry \<Rightarrow> int" where
  "entry_attempts (Waiting n) = n"
| "entry_attempts (Held w e n) = n"
| "entry_attempts (Removed n) = n"
| "entry_attempts (Abandoned n) = n"

fun entry_of_state :: "CleanupState \<Rightarrow> string \<Rightarrow> timestamp \<Rightarrow> int \<Rightarrow> entry" where
  "entry_of_state CL_PENDING w e n = Waiting n"
| "entry_of_state CL_RUNNING w e n = Held w e n"
| "entry_of_state CL_DELETED w e n = Removed n"
| "entry_of_state CL_FAILED w e n = Abandoned n"

definition entry_of :: "search_cleanup_row \<Rightarrow> entry" where
  "entry_of c = entry_of_state (sc_state c) (the (sc_lease_owner c)) (the (sc_lease_expires_at c)) (sc_attempt_count c)"

text \<open>Rows are well formed: a lease exactly while running, a deletion time exactly when deleted.\<close>

definition cleanup_wf :: "search_cleanup_row \<Rightarrow> bool" where
  "cleanup_wf c \<longleftrightarrow> (sc_state c = CL_RUNNING) = (sc_lease_owner c \<noteq> None)
     \<and> (sc_lease_owner c = None) = (sc_lease_expires_at c = None)
     \<and> (sc_state c = CL_DELETED) = (sc_deleted_at c \<noteq> None) \<and> 0 \<le> sc_attempt_count c"

definition queue_ok :: "int \<Rightarrow> session \<Rightarrow> bool" where
  "queue_ok m s \<longleftrightarrow> distinct (map sc_id (db_search_cleanup s))
     \<and> (\<forall>c \<in> set (db_search_cleanup s). cleanup_wf c \<and> sc_attempt_count c \<le> m)"

definition row_moves :: "int \<Rightarrow> search_cleanup_row \<Rightarrow> search_cleanup_row \<Rightarrow> bool" where
  "row_moves m c c' \<longleftrightarrow> sc_id c' = sc_id c \<and> cleanup_target_key c' = cleanup_target_key c
     \<and> (entry_move m)\<^sup>*\<^sup>* (entry_of c) (entry_of c')"

lemma row_moves_refl: "row_moves m c c"
  by (simp add: row_moves_def)

lemma row_moves_trans: "row_moves m a b \<Longrightarrow> row_moves m b c \<Longrightarrow> row_moves m a c"
  by (auto simp: row_moves_def)

lemma entry_move_final: "(entry_move m)\<^sup>*\<^sup>* a b \<Longrightarrow> a = Removed n \<or> a = Abandoned n \<Longrightarrow> b = a"
  by (induction rule: rtranclp_induct) (auto simp: entry_move_def removed_step abandoned_step)

lemma entry_move_attempts: "(entry_move m)\<^sup>*\<^sup>* a b \<Longrightarrow> entry_attempts a \<le> entry_attempts b"
  by (induction rule: rtranclp_induct) (auto simp: entry_move_def elim!: cleanup_stepE)

text \<open>What an operation on the queue promises: it changes nothing else, keeps the rows well formed,
  and moves every entry along the abstract machine.\<close>

locale queue_operation =
  fixes m :: int and run :: "'a \<Rightarrow> session \<Rightarrow> ('b \<times> session) res"
  assumes moves: "run a s = Inr (r, s') \<Longrightarrow> queue_ok m s \<Longrightarrow>
    \<exists>cs. s' = s\<lparr>db_search_cleanup := cs\<rparr> \<and> queue_ok m s' \<and> list_all2 (row_moves m) (db_search_cleanup s) cs"
begin

lemma run_queue_ok: "run a s = Inr (r, s') \<Longrightarrow> queue_ok m s \<Longrightarrow> queue_ok m s'"
  using moves by blast

lemma run_frame: "run a s = Inr (r, s') \<Longrightarrow> queue_ok m s \<Longrightarrow> \<exists>cs. s' = s\<lparr>db_search_cleanup := cs\<rparr>"
  using moves by blast

lemma run_entry:
  assumes "run a s = Inr (r, s')" and "queue_ok m s" and "c \<in> set (db_search_cleanup s)"
  shows "\<exists>c' \<in> set (db_search_cleanup s'). row_moves m c c'"
proof -
  from moves [OF assms(1,2)] have "list_all2 (row_moves m) (db_search_cleanup s) (db_search_cleanup s')" by auto
  moreover from assms(3) obtain i where "i < length (db_search_cleanup s)" "c = db_search_cleanup s ! i"
    unfolding in_set_conv_nth by blast
  ultimately show ?thesis
    by (intro bexI [of _ "db_search_cleanup s' ! i"]) (simp_all add: list_all2_conv_all_nth)
qed

end

lemma update_cleanup_moves:
  assumes "update_search_cleanup p f s = Inr s'" and "queue_ok m s"
    and "\<And>c. c \<in> set (db_search_cleanup s) \<Longrightarrow> p c \<Longrightarrow> cleanup_wf c \<Longrightarrow> sc_attempt_count c \<le> m
      \<Longrightarrow> cleanup_wf (f c) \<and> sc_attempt_count (f c) \<le> m \<and> row_moves m c (f c)"
    and "\<And>c. sc_id (f c) = sc_id c"
  shows "\<exists>cs. s' = s\<lparr>db_search_cleanup := cs\<rparr> \<and> queue_ok m s' \<and> list_all2 (row_moves m) (db_search_cleanup s) cs"
proof -
  let ?cs = "update_rows p f (db_search_cleanup s)"
  have s': "s' = s\<lparr>db_search_cleanup := ?cs\<rparr>"
    using assms(1) unfolding update_search_cleanup_Inr by (elim conjE)
  have all: "\<forall>c \<in> set (db_search_cleanup s). cleanup_wf c \<and> sc_attempt_count c \<le> m"
    using assms(2) unfolding queue_ok_def by (elim conjE)
  have "cleanup_wf c \<and> sc_attempt_count c \<le> m" if "c \<in> set ?cs" for c
    using that all assms(3) unfolding set_update_rows by blast
  moreover have "map sc_id ?cs = map sc_id (db_search_cleanup s)"
    by (rule map_update_rows) (rule assms(4))
  ultimately have "queue_ok m s'"
    using assms(2) s' unfolding queue_ok_def by simp
  moreover have "list_all2 (row_moves m) (db_search_cleanup s) ?cs"
    unfolding update_rows_def list_all2_map2 using all assms(3) row_moves_refl by (auto intro!: list.rel_refl_strong)
  ultimately show ?thesis using s' by blast
qed

lemma row_moves_step:
  assumes "cleanup_step m t (entry_of c) (entry_of c')" and "sc_id c' = sc_id c"
    and "cleanup_target_key c' = cleanup_target_key c"
  shows "row_moves m c c'"
  using assms unfolding row_moves_def entry_move_def by blast

lemma due_entry:
  assumes "cleanup_due t c" and "cleanup_wf c"
  obtains "entry_of c = Waiting (sc_attempt_count c)"
  | w e where "entry_of c = Held w e (sc_attempt_count c)" "e \<le> t"
  using assms unfolding cleanup_due_def cleanup_wf_def entry_of_def by (auto split: option.splits)

lemma first_cleanup_Some:
  assumes "first_cleanup p s = Some i"
  shows "\<exists>c \<in> set (db_search_cleanup s). sc_id c = i \<and> p c"
proof -
  let ?l = "sort_key (\<lambda>c. (sc_updated_at c, unat (sc_id c))) (filter p (db_search_cleanup s))"
  from assms obtain c cs where l: "?l = c # cs" and i: "sc_id c = i"
    unfolding first_cleanup_def by auto
  have "c \<in> set ?l" unfolding l by simp
  then have "c \<in> set (db_search_cleanup s)" "p c" by simp_all
  with i show ?thesis by blast
qed

lemma first_cleanup_row:
  assumes "Some (sc_id c) = first_cleanup p s" and "c \<in> set (db_search_cleanup s)"
    and "distinct (map sc_id (db_search_cleanup s))"
  shows "p c"
  using first_cleanup_Some [OF assms(1) [symmetric]] distinct_map_inj_rows [OF assms(3) _ assms(2)] by auto

lemma first_cleanup_None: "first_cleanup p s = None \<longleftrightarrow> (\<forall>c \<in> set (db_search_cleanup s). \<not> p c)"
  unfolding first_cleanup_def option.map_disc_iff scalar_eq_None set_empty [symmetric] set_sort by auto

lemma fail_exhausted_moves:
  assumes "fail_exhausted m av dv s = Inr s'" and "queue_ok m s"
  shows "\<exists>cs. s' = s\<lparr>db_search_cleanup := cs\<rparr> \<and> queue_ok m s' \<and> list_all2 (row_moves m) (db_search_cleanup s) cs"
proof (rule update_cleanup_moves [OF assms(1) [unfolded fail_exhausted_def Let_def] assms(2)], goal_cases)
  case (1 c)
  let ?f = "c\<lparr>sc_state := CL_FAILED, sc_lease_owner := None, sc_lease_expires_at := None, sc_updated_at := now s,
      sc_last_reason_code := (case sc_last_reason_code c of
         None \<Rightarrow> Some ''SEARCH_CLEANUP_RETRY_EXHAUSTED'' | Some r \<Rightarrow> Some r)\<rparr>"
  have p: "m \<le> sc_attempt_count c" "cleanup_due (now s) c"
    using first_cleanup_row [OF 1(2,1)] assms(2) by (simp_all add: queue_ok_def)
  have e: "entry_of ?f = Abandoned (sc_attempt_count c)" by (simp add: entry_of_def)
  have "cleanup_step m (now s) (entry_of c) (entry_of ?f)"
    using p(2) 1(3) unfolding e by (cases rule: due_entry) (use p(1) in \<open>auto intro: cleanup_step.intros\<close>)
  then have "row_moves m c ?f" by (rule row_moves_step) (simp_all add: cleanup_target_key_def cleanup_scope_def)
  moreover have "sc_deleted_at c = None" using p(2) 1(3) by (auto simp: cleanup_due_def cleanup_wf_def)
  ultimately show ?case using 1(3,4) by (simp add: cleanup_wf_def)
qed simp

lemma lease_cleanup_moves:
  assumes "lease_cleanup w d m av dv s = Inr (rows, s')" and "queue_ok m s"
  shows "\<exists>cs. s' = s\<lparr>db_search_cleanup := cs\<rparr> \<and> queue_ok m s' \<and> list_all2 (row_moves m) (db_search_cleanup s) cs"
proof -
  from assms(1) have u: "update_search_cleanup (\<lambda>c. Some (sc_id c) = first_cleanup (\<lambda>c. sc_attempt_count c < m
      \<and> cleanup_due (now s) c \<and> cleanup_selected av dv c) s)
     (\<lambda>c. c\<lparr>sc_state := CL_RUNNING, sc_attempt_count := sc_attempt_count c + 1, sc_lease_owner := Some w,
        sc_lease_expires_at := Some (now s + d), sc_updated_at := now s\<rparr>) s = Inr s'"
    unfolding lease_cleanup_def Let_def by (auto simp: bind_res_eq_Inr)
  show ?thesis
  proof (rule update_cleanup_moves [OF u assms(2)], goal_cases)
    case (1 c)
    let ?f = "c\<lparr>sc_state := CL_RUNNING, sc_attempt_count := sc_attempt_count c + 1, sc_lease_owner := Some w,
        sc_lease_expires_at := Some (now s + d), sc_updated_at := now s\<rparr>"
    have p: "sc_attempt_count c < m" "cleanup_due (now s) c"
      using first_cleanup_row [OF 1(2,1)] assms(2) by (simp_all add: queue_ok_def)
    have e: "entry_of ?f = Held w (now s + d) (sc_attempt_count c + 1)" by (simp add: entry_of_def)
    have "cleanup_step m (now s) (entry_of c) (entry_of ?f)"
      using p(2) 1(3) unfolding e by (cases rule: due_entry) (use p(1) in \<open>auto intro: cleanup_step.intros\<close>)
    then have "row_moves m c ?f" by (rule row_moves_step) (simp_all add: cleanup_target_key_def cleanup_scope_def)
    moreover have "sc_deleted_at c = None" using p(2) 1(3) by (auto simp: cleanup_due_def cleanup_wf_def)
    ultimately show ?case using 1(3,4) p by (simp add: cleanup_wf_def)
  qed simp
qed

lemma row_moves_list_trans:
  "list_all2 (row_moves m) a b \<Longrightarrow> list_all2 (row_moves m) b c \<Longrightarrow> list_all2 (row_moves m) a c"
  by (rule list_all2_trans [OF row_moves_trans])

lemma claim_cleanup_steps:
  assumes "claim_cleanup w d m av dv s = Inr (r, s')"
  obtains s1 rows where "fail_exhausted m av dv s = Inr s1" "lease_cleanup w d m av dv s1 = Inr (rows, s')"
    "r = None \<and> rows = [] \<or> (\<exists>row target. rows = [row] \<and>
       new_search_target (sc_target_name row) (sc_target_version row) = Inr target
       \<and> r = Some \<lparr>sk_id = sc_id row, sk_tenant_id = sc_tenant_id row, sk_collection_id = sc_collection_id row,
            sk_document_version_id = sc_document_version_id row,
            sk_activation_version_id = sc_activation_version_id row, sk_target = target,
            sk_attempt_number = sc_attempt_count row, sk_publication_job_id = sc_publication_job_id row,
            sk_publication_attempt = sc_publication_attempt row\<rparr>)"
proof -
  from assms obtain s1 rows s2 x where "fail_exhausted m av dv s = Inr s1"
    "lease_cleanup w d m av dv s1 = Inr (rows, s2)" and o: "one_or_none rows = Inr x"
    and k: "(case x of None \<Rightarrow> Inr (None, s2)
     | Some row \<Rightarrow>
         bind_res (new_search_target (sc_target_name row) (sc_target_version row)) (\<lambda>target.
         Inr (Some \<lparr>sk_id = sc_id row, sk_tenant_id = sc_tenant_id row, sk_collection_id = sc_collection_id row,
            sk_document_version_id = sc_document_version_id row,
            sk_activation_version_id = sc_activation_version_id row, sk_target = target,
            sk_attempt_number = sc_attempt_count row, sk_publication_job_id = sc_publication_job_id row,
            sk_publication_attempt = sc_publication_attempt row\<rparr>, s2))) = Inr (r, s')"
    unfolding claim_cleanup_def by (elim bind_res_pairE bind_res_InrE)
  show thesis
  proof (cases x)
    case None
    with o have "rows = []" by (cases rows rule: one_or_none.cases) simp_all
    with that k None \<open>fail_exhausted m av dv s = Inr s1\<close> \<open>lease_cleanup w d m av dv s1 = Inr (rows, s2)\<close>
    show thesis by simp
  next
    case (Some row)
    with o have "rows = [row]" by (simp add: one_or_none_Some)
    with that k [unfolded Some option.case] \<open>fail_exhausted m av dv s = Inr s1\<close>
      \<open>lease_cleanup w d m av dv s1 = Inr (rows, s2)\<close>
    show thesis by (elim bind_res_InrE) auto
  qed
qed

interpretation claim: queue_operation m "\<lambda>(w, d, av, dv). claim_cleanup w d m av dv" for m :: int
proof (unfold_locales, goal_cases)
  case (1 a s r s')
  obtain w d av dv where a: "a = (w, d, av, dv)" by (cases a)
  from 1(1) [unfolded a prod.case] show ?case
  proof (cases rule: claim_cleanup_steps)
    case steps: (1 s1 rows)
    from fail_exhausted_moves [OF steps(1) 1(2)] obtain cs where f: "s1 = s\<lparr>db_search_cleanup := cs\<rparr>" "queue_ok m s1"
      "list_all2 (row_moves m) (db_search_cleanup s) cs" by blast
    from lease_cleanup_moves [OF steps(2) f(2)] obtain cs' where "s' = s1\<lparr>db_search_cleanup := cs'\<rparr>" "queue_ok m s'"
      "list_all2 (row_moves m) (db_search_cleanup s1) cs'" by blast
    with f row_moves_list_trans [OF f(3), of cs'] show ?thesis by auto
  qed
qed

lemma holds_entry:
  assumes "holds_cleanup claim w c"
  shows "\<exists>e. entry_of c = Held w e (sk_attempt_number claim)"
  using assms by (auto simp: holds_cleanup_def entry_of_def)

interpretation complete: queue_operation m
  "\<lambda>(claim, w) s. bind_res (complete_cleanup claim w s) (\<lambda>s1. Inr ((), s1))" for m :: int
proof (unfold_locales, goal_cases)
  case (1 a s r s')
  obtain claim w where a: "a = (claim, w)" by (cases a)
  from 1(1) have u: "complete_cleanup claim w s = Inr s'" unfolding a by (auto simp: bind_res_eq_Inr)
  show ?case
  proof (rule update_cleanup_moves [OF u [unfolded complete_cleanup_def] 1(2)], goal_cases)
    case c: (1 c)
    let ?f = "c\<lparr>sc_state := CL_DELETED, sc_deleted_at := Some (now s), sc_lease_owner := None,
              sc_lease_expires_at := None, sc_last_reason_code := None, sc_updated_at := now s\<rparr>"
    from holds_entry [OF c(2)] c(2) have "cleanup_step m (now s) (entry_of c) (entry_of ?f)"
      by (auto simp: entry_of_def [of ?f] holds_cleanup_def intro: cleanup_step.intros)
    then have "row_moves m c ?f" by (rule row_moves_step) (simp_all add: cleanup_target_key_def cleanup_scope_def)
    then show ?case using c(3,4) by (simp add: cleanup_wf_def)
  qed simp
qed

interpretation retry: queue_operation m
  "\<lambda>(claim, w, reason) s. bind_res (retry_cleanup claim w m reason s) (\<lambda>s1. Inr ((), s1))" for m :: int
proof (unfold_locales, goal_cases)
  case (1 a s r s')
  obtain claim w reason where a: "a = (claim, w, reason)" by (cases a)
  from 1(1) have u: "retry_cleanup claim w m reason s = Inr s'" unfolding a by (auto simp: bind_res_eq_Inr)
  show ?case
  proof (rule update_cleanup_moves [OF u [unfolded retry_cleanup_def] 1(2)], goal_cases)
    case c: (1 c)
    let ?f = "c\<lparr>sc_state := (if sk_attempt_number claim \<ge> m then CL_FAILED else CL_PENDING),
              sc_lease_owner := None, sc_lease_expires_at := None,
              sc_last_reason_code := Some reason, sc_updated_at := now s\<rparr>"
    from holds_entry [OF c(2)] c(2) have "cleanup_step m (now s) (entry_of c) (entry_of ?f)"
      by (auto simp: entry_of_def [of ?f] holds_cleanup_def not_le intro: cleanup_step.intros)
    then have "row_moves m c ?f" by (rule row_moves_step) (simp_all add: cleanup_target_key_def cleanup_scope_def)
    moreover have "sc_deleted_at c = None" using c(2,3) by (simp add: holds_cleanup_def cleanup_wf_def)
    ultimately show ?case using c(3,4) by (simp add: cleanup_wf_def)
  qed simp
qed

text \<open>Any sequence of operations on the queue, by any workers, with anything else happening to the
  rest of the database in between.\<close>

inductive queue_run :: "int \<Rightarrow> session \<Rightarrow> session \<Rightarrow> bool" for m s where
  start: "queue_run m s s"
| claim: "queue_run m s s1 \<Longrightarrow> claim_cleanup w d m av dv s1 = Inr (r, s2) \<Longrightarrow> queue_run m s s2"
| complete: "queue_run m s s1 \<Longrightarrow> complete_cleanup k w s1 = Inr s2 \<Longrightarrow> queue_run m s s2"
| retry: "queue_run m s s1 \<Longrightarrow> retry_cleanup k w m reason s1 = Inr s2 \<Longrightarrow> queue_run m s s2"
| enqueue: "queue_run m s s1 \<Longrightarrow> enqueue_cleanup t c v p a i s1 = Inr s2 \<Longrightarrow> queue_run m s s2"
| other: "queue_run m s s1 \<Longrightarrow> db_search_cleanup s2 = db_search_cleanup s1 \<Longrightarrow> queue_run m s s2"

lemma enqueue_cleanup_keeps:
  assumes "enqueue_cleanup t c v p a i s = Inr s'" and "queue_ok m s" and "0 \<le> m"
  shows "queue_ok m s' \<and> set (db_search_cleanup s) \<subseteq> set (db_search_cleanup s')"
proof -
  let ?r = "cleanup_entry t c v p a i (now s)"
  from assms(1) have "s' = s \<or> sc_id ?r \<notin> sc_id ` set (db_search_cleanup s)
      \<and> s' = s\<lparr>db_search_cleanup := db_search_cleanup s @ [?r]\<rparr>"
    unfolding enqueue_cleanup_def insert_search_cleanup_def
    by (auto simp: bind_res_eq_Inr check_all_Inr split: if_splits)
  then show ?thesis
    using assms(2,3) by (auto simp: queue_ok_def cleanup_wf_def cleanup_entry_def)
qed

lemma row_moves_compose:
  assumes "\<forall>c \<in> A. \<exists>c' \<in> B. row_moves m c c'" and "\<And>c. c \<in> B \<Longrightarrow> \<exists>c' \<in> C. row_moves m c c'"
  shows "\<forall>c \<in> A. \<exists>c' \<in> C. row_moves m c c'"
  using assms by (meson row_moves_trans)

lemma queue_run_moves:
  assumes "queue_run m s s'" and "queue_ok m s" and "0 \<le> m"
  shows "queue_ok m s' \<and> (\<forall>c \<in> set (db_search_cleanup s). \<exists>c' \<in> set (db_search_cleanup s'). row_moves m c c')"
  using assms(1)
proof (induction rule: queue_run.induct)
  case start
  then show ?case using assms(2) row_moves_refl by blast
next
  case (claim s1 w d av dv r s2)
  then have r: "(case (w, d, av, dv) of (w, d, av, dv) \<Rightarrow> claim_cleanup w d m av dv) s1 = Inr (r, s2)" "queue_ok m s1" by simp_all
  show ?case
    using claim.run_queue_ok [OF r] row_moves_compose [OF _ claim.run_entry [OF r]] claim.IH by blast
next
  case (complete s1 k w s2)
  then have r: "(case (k, w) of (claim, w) \<Rightarrow> \<lambda>s. bind_res (complete_cleanup claim w s) (\<lambda>s1. Inr ((), s1))) s1 = Inr ((), s2)"
    "queue_ok m s1" by simp_all
  show ?case
    using complete.run_queue_ok [OF r] row_moves_compose [OF _ complete.run_entry [OF r]] complete.IH by blast
next
  case (retry s1 k w reason s2)
  then have r: "(case (k, w, reason) of (claim, w, reason) \<Rightarrow> \<lambda>s. bind_res (retry_cleanup claim w m reason s)
      (\<lambda>s1. Inr ((), s1))) s1 = Inr ((), s2)" "queue_ok m s1" by simp_all
  show ?case
    using retry.run_queue_ok [OF r] row_moves_compose [OF _ retry.run_entry [OF r]] retry.IH by blast
next
  case (enqueue s1 t c v p a i s2)
  then show ?case using enqueue_cleanup_keeps [OF enqueue(2) _ assms(3)] by blast
next
  case (other s1 s2)
  then show ?case by (simp add: queue_ok_def)
qed

text \<open>C28: the cleanup queue refines the abstract machine. Whatever claims, completions, retries
  and insertions follow each other, by whatever workers, every entry keeps its identity and moves
  only along the steps of the machine: attempts never exceed the limit and never decrease, a
  removed entry stays removed and an abandoned one stays abandoned.\<close>

theorem cleanup_queue_refines:
  assumes "queue_run m s s'" and "queue_ok m s" and "0 \<le> m"
  shows "queue_ok m s' \<and> (\<forall>c \<in> set (db_search_cleanup s). \<exists>c' \<in> set (db_search_cleanup s').
      sc_id c' = sc_id c \<and> cleanup_target_key c' = cleanup_target_key c
      \<and> (entry_move m)\<^sup>*\<^sup>* (entry_of c) (entry_of c')
      \<and> sc_attempt_count c \<le> sc_attempt_count c' \<and> sc_attempt_count c' \<le> m
      \<and> (sc_state c \<in> {CL_DELETED, CL_FAILED} \<longrightarrow> sc_state c' = sc_state c))"
proof -
  have att: "entry_attempts (entry_of c) = sc_attempt_count c" for c
    unfolding entry_of_def by (cases "sc_state c") simp_all
  have fin: "sc_state c' = sc_state c" if "(entry_move m)\<^sup>*\<^sup>* (entry_of c) (entry_of c')" "sc_state c \<in> {CL_DELETED, CL_FAILED}" for c c'
  proof -
    from entry_move_final [OF that(1), of "sc_attempt_count c"] that(2) have "entry_of c' = entry_of c"
      by (auto simp: entry_of_def [of c])
    with that(2) show ?thesis by (cases "sc_state c'") (auto simp: entry_of_def)
  qed
  from queue_run_moves [OF assms] have q: "queue_ok m s'"
    and r: "\<forall>c \<in> set (db_search_cleanup s). \<exists>c' \<in> set (db_search_cleanup s'). row_moves m c c'" by blast+
  then have m: "\<forall>c \<in> set (db_search_cleanup s'). sc_attempt_count c \<le> m" unfolding queue_ok_def by blast
  show ?thesis
  proof (intro conjI q ballI)
    fix c assume "c \<in> set (db_search_cleanup s)"
    with r obtain c' where c': "c' \<in> set (db_search_cleanup s')" "row_moves m c c'" by blast
    from c'(2) have mv: "(entry_move m)\<^sup>*\<^sup>* (entry_of c) (entry_of c')" unfolding row_moves_def by blast
    from entry_move_attempts [OF mv] fin [OF mv] c' m
    show "\<exists>c' \<in> set (db_search_cleanup s'). sc_id c' = sc_id c \<and> cleanup_target_key c' = cleanup_target_key c
      \<and> (entry_move m)\<^sup>*\<^sup>* (entry_of c) (entry_of c')
      \<and> sc_attempt_count c \<le> sc_attempt_count c' \<and> sc_attempt_count c' \<le> m
      \<and> (sc_state c \<in> {CL_DELETED, CL_FAILED} \<longrightarrow> sc_state c' = sc_state c)"
      by (intro bexI [of _ c']) (simp_all add: row_moves_def att)
  qed
qed

section \<open>Claims are exclusive\<close>

abbreviation leased_cleanup :: "string \<Rightarrow> timestamp \<Rightarrow> timestamp \<Rightarrow> search_cleanup_row \<Rightarrow> search_cleanup_row" where
  "leased_cleanup w d t c \<equiv> c\<lparr>sc_state := CL_RUNNING, sc_attempt_count := sc_attempt_count c + 1, sc_lease_owner := Some w,
     sc_lease_expires_at := Some (t + d), sc_updated_at := t\<rparr>"

lemma fail_exhausted_rows:
  assumes "fail_exhausted m av dv s = Inr s1"
  shows "now s1 = now s \<and> map sc_id (db_search_cleanup s1) = map sc_id (db_search_cleanup s)
    \<and> (\<forall>c \<in> set (db_search_cleanup s1). c \<in> set (db_search_cleanup s) \<or> sc_state c = CL_FAILED)"
proof -
  let ?p = "\<lambda>c. Some (sc_id c) = first_cleanup (\<lambda>c. sc_attempt_count c \<ge> m \<and> cleanup_selected av dv c \<and> cleanup_due (now s) c) s"
  let ?f = "\<lambda>c. c\<lparr>sc_state := CL_FAILED, sc_lease_owner := None, sc_lease_expires_at := None, sc_updated_at := now s,
      sc_last_reason_code := (case sc_last_reason_code c of
         None \<Rightarrow> Some ''SEARCH_CLEANUP_RETRY_EXHAUSTED'' | Some r \<Rightarrow> Some r)\<rparr>"
  have s1: "s1 = s\<lparr>db_search_cleanup := update_rows ?p ?f (db_search_cleanup s)\<rparr>"
    using assms unfolding fail_exhausted_def Let_def update_search_cleanup_Inr by (elim conjE)
  have "c \<in> set (db_search_cleanup s) \<or> sc_state c = CL_FAILED" if "c \<in> set (update_rows ?p ?f (db_search_cleanup s))" for c
    using that unfolding set_update_rows by fastforce
  moreover have "map sc_id (update_rows ?p ?f (db_search_cleanup s)) = map sc_id (db_search_cleanup s)"
    by (rule map_update_rows) simp
  ultimately show ?thesis unfolding s1 by simp
qed

lemma lease_cleanup_row:
  assumes "lease_cleanup w d m av dv s = Inr ([row], s')" and "distinct (map sc_id (db_search_cleanup s))"
  shows "\<exists>c \<in> set (db_search_cleanup s). sc_attempt_count c < m \<and> cleanup_due (now s) c \<and> cleanup_selected av dv c
    \<and> row = leased_cleanup w d (now s) c
    \<and> s' = s\<lparr>db_search_cleanup := update_rows (\<lambda>x. sc_id x = sc_id c) (leased_cleanup w d (now s)) (db_search_cleanup s)\<rparr>
    \<and> (\<forall>x \<in> set (db_search_cleanup s'). sc_id x = sc_id c \<longrightarrow> x = row)"
proof -
  let ?q = "\<lambda>c. sc_attempt_count c < m \<and> cleanup_due (now s) c \<and> cleanup_selected av dv c"
  let ?p = "\<lambda>c. Some (sc_id c) = first_cleanup ?q s"
  from assms(1) have s': "s' = s\<lparr>db_search_cleanup := update_rows ?p (leased_cleanup w d (now s)) (db_search_cleanup s)\<rparr>"
    and row: "[row] = filter ?p (db_search_cleanup s')"
    unfolding lease_cleanup_def Let_def by (auto simp: bind_res_eq_Inr update_search_cleanup_Inr)
  from row have "row \<in> set (filter ?p (db_search_cleanup s'))" by (metis list.set_intros(1))
  then obtain i where i: "first_cleanup ?q s = Some i" "sc_id row = i" by (auto simp: eq_commute)
  from first_cleanup_Some [OF i(1)] obtain c where c: "c \<in> set (db_search_cleanup s)" "sc_id c = i" "?q c" by blast
  have peq: "?p = (\<lambda>x. sc_id x = sc_id c)" using i(1) c(2) by (intro ext) simp
  have only: "x = leased_cleanup w d (now s) c" if "x \<in> set (db_search_cleanup s')" "sc_id x = sc_id c" for x
  proof -
    from that(1) s' obtain y where y: "y \<in> set (db_search_cleanup s)" "x = (if ?p y then leased_cleanup w d (now s) y else y)"
      unfolding update_rows_def by auto
    then have yi: "sc_id y = sc_id c" using that(2) by (cases "?p y") simp_all
    from distinct_map_inj_rows [OF assms(2) y(1) c(1) yi] have "y = c" .
    moreover have "?p y" using peq yi by metis
    ultimately show ?thesis using y(2) by simp
  qed
  have "row \<in> set (db_search_cleanup s')" using \<open>row \<in> set (filter ?p (db_search_cleanup s'))\<close> by simp
  with only i(2) c(2) have "row = leased_cleanup w d (now s) c" by simp
  moreover note s' [unfolded peq]
  ultimately show ?thesis using only c by (intro bexI [of _ c] conjI) simp_all
qed

lemma claim_cleanup_row:
  assumes "claim_cleanup w d m av dv s = Inr (Some k, s')" and "distinct (map sc_id (db_search_cleanup s))"
  shows "\<exists>c \<in> set (db_search_cleanup s). sc_attempt_count c < m \<and> cleanup_due (now s) c \<and> cleanup_selected av dv c
    \<and> sk_id k = sc_id c \<and> sk_attempt_number k = sc_attempt_count c + 1
    \<and> (\<forall>x \<in> set (db_search_cleanup s'). sc_id x = sc_id c \<longrightarrow> x = leased_cleanup w d (now s) c)"
  using assms(1)
proof (cases rule: claim_cleanup_steps)
  case (1 s1 rows)
  from 1(3) obtain row target where rows: "rows = [row]" and k: "sk_id k = sc_id row" "sk_attempt_number k = sc_attempt_count row"
    by auto
  note f = fail_exhausted_rows [OF 1(1)]
  have "distinct (map sc_id (db_search_cleanup s1))" using f assms(2) by simp
  from lease_cleanup_row [OF 1(2) [unfolded rows] this] obtain c where c: "c \<in> set (db_search_cleanup s1)"
    "sc_attempt_count c < m" "cleanup_due (now s1) c" "cleanup_selected av dv c" "row = leased_cleanup w d (now s1) c"
    and only: "\<forall>x \<in> set (db_search_cleanup s'). sc_id x = sc_id c \<longrightarrow> x = row" by blast
  have "sc_state c \<noteq> CL_FAILED" using c(3) by (auto simp: cleanup_due_def)
  with f c(1) have "c \<in> set (db_search_cleanup s)" by blast
  then show ?thesis using c f only k by (intro bexI [of _ c]) simp_all
qed

text \<open>A cleanup claim is exclusive and bounded: the claimed entry was due and selected, it counts
  one attempt more, never above the limit, and until the lease ends no claim of any worker returns
  it again. A worker that does not hold it can neither complete nor release it.\<close>

theorem cleanup_claim_exclusive:
  assumes "claim_cleanup w d m av dv s = Inr (Some k, s')" and "queue_ok m s"
  shows "1 \<le> sk_attempt_number k \<and> sk_attempt_number k \<le> m
    \<and> (\<exists>c \<in> set (db_search_cleanup s). sc_id c = sk_id k \<and> cleanup_due (now s) c \<and> cleanup_selected av dv c)
    \<and> (\<forall>x \<in> set (db_search_cleanup s'). sc_id x = sk_id k \<longrightarrow> holds_cleanup k w x)
    \<and> (\<forall>s2 w' d' m' av' dv' k' s3. db_search_cleanup s2 = db_search_cleanup s' \<longrightarrow> now s2 < now s + d \<longrightarrow>
         claim_cleanup w' d' m' av' dv' s2 = Inr (Some k', s3) \<longrightarrow> sk_id k' \<noteq> sk_id k)
    \<and> (\<forall>k' w' reason s3. w' \<noteq> w \<or> sk_attempt_number k' \<noteq> sk_attempt_number k \<longrightarrow> sk_id k' = sk_id k \<longrightarrow>
         complete_cleanup k' w' s' = Inr s3 \<or> retry_cleanup k' w' m reason s' = Inr s3 \<longrightarrow>
         db_search_cleanup s3 = db_search_cleanup s')"
proof -
  have dist: "distinct (map sc_id (db_search_cleanup s))" and wf: "\<forall>c \<in> set (db_search_cleanup s). cleanup_wf c"
    using assms(2) unfolding queue_ok_def by blast+
  have dist': "distinct (map sc_id (db_search_cleanup s'))"
    using claim.run_queue_ok [of m "(w, d, av, dv)" s "Some k" s', unfolded prod.case, OF assms]
    unfolding queue_ok_def by (elim conjE)
  from claim_cleanup_row [OF assms(1) dist] obtain c where c: "c \<in> set (db_search_cleanup s)" "sc_attempt_count c < m"
    "cleanup_due (now s) c" "cleanup_selected av dv c" "sk_id k = sc_id c" "sk_attempt_number k = sc_attempt_count c + 1"
    and only: "\<forall>x \<in> set (db_search_cleanup s'). sc_id x = sc_id c \<longrightarrow> x = leased_cleanup w d (now s) c"
    by (elim bexE conjE)
  have held: "holds_cleanup k w x \<and> sc_lease_expires_at x = Some (now s + d)"
    if "x \<in> set (db_search_cleanup s')" "sc_id x = sk_id k" for x
  proof -
    from that only c(5) have "x = leased_cleanup w d (now s) c" by simp
    then show ?thesis using c(5,6) by (simp add: holds_cleanup_def)
  qed
  have excl: "sk_id k' \<noteq> sk_id k" if "db_search_cleanup s2 = db_search_cleanup s'" "now s2 < now s + d"
    "claim_cleanup w' d' m' av' dv' s2 = Inr (Some k', s3)" for s2 w' d' m' av' dv' k' s3
  proof
    assume eq: "sk_id k' = sk_id k"
    from claim_cleanup_row [OF that(3), unfolded that(1), OF dist'] obtain c' where "c' \<in> set (db_search_cleanup s')"
      and due: "cleanup_due (now s2) c'" and "sk_id k' = sc_id c'" by (elim bexE conjE)
    with held [of c'] eq have "sc_state c' = CL_RUNNING" "sc_lease_expires_at c' = Some (now s + d)"
      by (simp_all add: holds_cleanup_def)
    with due that(2) show False by (simp add: cleanup_due_def)
  qed
  have stale: "db_search_cleanup s3 = db_search_cleanup s'" if "w' \<noteq> w \<or> sk_attempt_number k' \<noteq> sk_attempt_number k"
    "sk_id k' = sk_id k" "complete_cleanup k' w' s' = Inr s3 \<or> retry_cleanup k' w' m reason s' = Inr s3" for k' w' reason s3
  proof -
    have "\<not> holds_cleanup k' w' x" if "x \<in> set (db_search_cleanup s')" for x
      using held [OF that] \<open>w' \<noteq> w \<or> _\<close> \<open>sk_id k' = sk_id k\<close> by (auto simp: holds_cleanup_def)
    then have "update_rows (holds_cleanup k' w') f (db_search_cleanup s') = db_search_cleanup s'" for f
      by (rule update_rows_id)
    moreover from that(3)
    have "\<exists>f. s3 = s'\<lparr>db_search_cleanup := update_rows (holds_cleanup k' w') f (db_search_cleanup s')\<rparr>"
      unfolding complete_cleanup_def retry_cleanup_def update_search_cleanup_Inr by (elim disjE conjE) (rule exI, assumption)+
    ultimately show ?thesis by (elim exE) simp
  qed
  have "cleanup_wf c" using wf c(1) by blast
  then have "1 \<le> sk_attempt_number k" using c(6) by (simp add: cleanup_wf_def)
  moreover have "sk_attempt_number k \<le> m" using c(2,6) by simp
  moreover have "\<exists>c \<in> set (db_search_cleanup s). sc_id c = sk_id k \<and> cleanup_due (now s) c \<and> cleanup_selected av dv c"
    using c(1,3-5) by (intro bexI [of _ c]) simp_all
  moreover have "\<forall>x \<in> set (db_search_cleanup s'). sc_id x = sk_id k \<longrightarrow> holds_cleanup k w x" using held by blast
  ultimately show ?thesis
    by (intro conjI allI impI) (assumption+, erule (2) excl, erule (2) stale)
qed

section \<open>Activations\<close>

text \<open>References of the publications: every row names a chunk of its version.\<close>

definition publications_ok :: "session \<Rightarrow> bool" where
  "publications_ok s \<longleftrightarrow> distinct (map ck_id (db_chunks s))
     \<and> (\<forall>p \<in> set (db_publications s). chunk_exists s (publication_scope p) (ip_chunk_id p))"

definition activation_scope :: "PendingSearchActivation \<Rightarrow> uuid \<times> uuid \<times> uuid" where
  "activation_scope a = (ac_tenant_id a, ac_collection_id a, ac_document_version_id a)"

definition activation_group :: "PendingSearchActivation \<Rightarrow> string \<times> string \<times> uuid option \<times> int option" where
  "activation_group a = (st_name (ac_target a), st_version (ac_target a), Some (ac_publication_job_id a),
     Some (ac_publication_attempt a))"

lemma map_res_Inr: "map_res f xs = Inr ys \<Longrightarrow> list_all2 (\<lambda>x y. f x = Inr y) xs ys"
  by (induction xs arbitrary: ys) (auto simp: bind_res_eq_Inr)

lemma list_all2_rightD: "list_all2 P xs ys \<Longrightarrow> y \<in> set ys \<Longrightarrow> \<exists>x \<in> set xs. P x y"
  by (induction rule: list_all2_induct) auto

lemma activation_group_rows:
  assumes "g \<in> set (activation_groups limit av dv s)"
  shows "g \<noteq> [] \<and> set g = {p \<in> set (db_publications s). activation_key p = activation_key (hd g)
      \<and> (\<exists>v \<in> set (db_versions s). activation_ready av dv s v p)}
    \<and> distinct_chunks PK_LEXICAL g = chunk_count_of s (publication_scope (hd g))
    \<and> distinct_chunks PK_VECTOR g = chunk_count_of s (publication_scope (hd g))"
proof -
  define rows where "rows = [p. p \<leftarrow> db_publications s, v \<leftarrow> db_versions s, activation_ready av dv s v p]"
  have rows: "set rows = {p \<in> set (db_publications s). \<exists>v \<in> set (db_versions s). activation_ready av dv s v p}"
    unfolding rows_def by (auto split: if_splits)
  note g = in_set_takeD [OF assms [unfolded activation_groups_def Let_def, folded rows_def],
      unfolded set_sort set_filter set_map set_remdups mem_Collect_eq]
  then have cnt: "distinct_chunks PK_LEXICAL g = chunk_count_of s (publication_scope (hd g))"
      "distinct_chunks PK_VECTOR g = chunk_count_of s (publication_scope (hd g))" by blast+
  from g obtain k where k: "k \<in> activation_key ` set rows" "g = filter (\<lambda>p. activation_key p = k) rows"
    by blast
  from k have ne: "g \<noteq> []" by (auto simp: filter_empty_conv)
  then have "hd g \<in> set g" by simp
  then have "activation_key (hd g) = k" unfolding k(2) by simp
  with ne rows cnt k(2) show ?thesis by auto
qed

lemma distinct_chunk_count_full:
  assumes "publications_ok s" and "\<forall>p \<in> set g. p \<in> set (db_publications s) \<and> publication_scope p = k"
    and "distinct_chunks kind g = chunk_count_of s k"
  shows "distinct_chunk_count g = chunk_count_of s k"
proof -
  let ?ids = "ck_id ` {c \<in> set (db_chunks s). chunk_scope c = k}"
  have "distinct (map ck_id (filter (\<lambda>c. chunk_scope c = k) (db_chunks s)))"
    using assms(1) by (simp add: publications_ok_def distinct_map_filter)
  from distinct_card [OF this] have n: "card ?ids = length (filter (\<lambda>c. chunk_scope c = k) (db_chunks s))" by simp
  have "ip_chunk_id ` set g \<subseteq> ?ids"
  proof (rule image_subsetI)
    fix p assume "p \<in> set g"
    with assms(1,2) obtain c where "c \<in> set (db_chunks s)" "chunk_scope c = k" "ck_id c = ip_chunk_id p"
      unfolding publications_ok_def chunk_exists_def list_ex_iff by metis
    then show "ip_chunk_id p \<in> ?ids" by (intro image_eqI [of _ _ c]) simp_all
  qed
  then have up: "card (ip_chunk_id ` set g) \<le> card ?ids" by (intro card_mono) simp_all
  have "card (ip_chunk_id ` {p \<in> set g. ip_publication_kind p = kind}) \<le> card (ip_chunk_id ` set g)"
    by (intro card_mono) auto
  with assms(3) up n show ?thesis
    by (simp add: distinct_chunks_def distinct_chunk_count_def chunk_count_of_def length_remdups_card_conv)
qed

lemma pending_activations_length:
  assumes "pending_activations limit av dv s = Inr as" and "0 \<le> limit"
  shows "int (length as) \<le> limit"
proof -
  have "length (activation_groups limit av dv s) \<le> nat limit"
    unfolding activation_groups_def Let_def length_take by (rule min.cobounded2)
  with list_all2_lengthD [OF map_res_Inr [OF assms(1) [unfolded pending_activations_def]]] assms(2)
  show ?thesis by linarith
qed

lemma pending_activation_sound:
  assumes "publications_ok s" and "g \<in> set (activation_groups limit av dv s)" and "pending_activation g = Inr a"
  shows "(\<exists>v \<in> set (db_versions s). version_scope v = activation_scope a \<and> dv_state v \<in> {READY, READY_WITH_WARNINGS}
         \<and> (av = None \<or> Some (dv_id v) = av) \<and> (dv = None \<or> Some (dv_id v) = dv))
      \<and> (\<forall>c \<in> set (db_search_cleanup s). sc_tenant_id c = ac_tenant_id a \<longrightarrow> sc_collection_id c = ac_collection_id a
           \<longrightarrow> sc_activation_version_id c = Some (ac_document_version_id a) \<longrightarrow> sc_state c = CL_DELETED)
      \<and> (\<forall>c \<in> set (db_chunks s). chunk_scope c = activation_scope a \<longrightarrow> chunk_embedded s c)
      \<and> manifest_for s (activation_scope a) (st_name (ac_target a)) (st_version (ac_target a))
      \<and> ac_record_count a = chunk_count_of s (activation_scope a)
      \<and> (\<exists>g. set g \<subseteq> {p \<in> set (db_publications s). publication_scope p = activation_scope a
             \<and> publication_group p = activation_group a \<and> ip_deleted_at p = None \<and> ip_activated_at p = None}
           \<and> distinct_chunks PK_LEXICAL g = chunk_count_of s (activation_scope a)
           \<and> distinct_chunks PK_VECTOR g = chunk_count_of s (activation_scope a))"
proof -
  note g = assms(2,3)
  note gr = activation_group_rows [OF g(1)]
  from gr have "g \<noteq> []" by (elim conjE)
  then have "hd g \<in> set g" by (rule hd_in_set)
  with gr obtain v where v: "v \<in> set (db_versions s)" "activation_ready av dv s v (hd g)" by auto
  from g(2) have a: "activation_scope a = publication_scope (hd g)" "activation_group a = publication_group (hd g)"
    "ac_record_count a = distinct_chunk_count g" "st_name (ac_target a) = ip_target_name (hd g)"
    "st_version (ac_target a) = ip_target_version (hd g)"
    unfolding pending_activation_def activation_scope_def activation_group_def publication_group_def
    by (auto simp: bind_res_eq_Inr new_search_target_Inr split: option.splits)
  have rows: "set g \<subseteq> {p \<in> set (db_publications s). publication_scope p = activation_scope a
           \<and> publication_group p = activation_group a \<and> ip_deleted_at p = None \<and> ip_activated_at p = None}"
  proof
    fix p assume "p \<in> set g"
    with gr obtain v where "p \<in> set (db_publications s)" "activation_key p = activation_key (hd g)"
      "activation_ready av dv s v p" by blast
    then show "p \<in> {p \<in> set (db_publications s). publication_scope p = activation_scope a
           \<and> publication_group p = activation_group a \<and> ip_deleted_at p = None \<and> ip_activated_at p = None}"
      unfolding activation_key_def activation_ready_def a(1,2) by simp
  qed
  then have sc: "\<forall>p \<in> set g. p \<in> set (db_publications s) \<and> publication_scope p = activation_scope a" by blast
  have cnt: "distinct_chunks PK_LEXICAL g = chunk_count_of s (activation_scope a)"
    "distinct_chunks PK_VECTOR g = chunk_count_of s (activation_scope a)" using gr a by simp_all
  note n = distinct_chunk_count_full [OF assms(1) sc cnt(1)]
  have vs: "version_scope v = activation_scope a" using v(2) a(1) by (simp add: activation_ready_def)
  then have ids: "dv_tenant_id v = ac_tenant_id a" "dv_collection_id v = ac_collection_id a"
    "dv_id v = ac_document_version_id a" by (simp_all add: activation_scope_def)
  note r = v(2) [unfolded activation_ready_def list_ex_iff vs ids]
  show ?thesis
  proof (intro conjI)
    show "\<exists>v \<in> set (db_versions s). version_scope v = activation_scope a \<and> dv_state v \<in> {READY, READY_WITH_WARNINGS}
       \<and> (av = None \<or> Some (dv_id v) = av) \<and> (dv = None \<or> Some (dv_id v) = dv)"
      using v(2) [unfolded activation_ready_def] v(1) vs by (elim conjE, intro bexI [of _ v] conjI)
    show "\<forall>c \<in> set (db_search_cleanup s). sc_tenant_id c = ac_tenant_id a \<longrightarrow> sc_collection_id c = ac_collection_id a
         \<longrightarrow> sc_activation_version_id c = Some (ac_document_version_id a) \<longrightarrow> sc_state c = CL_DELETED"
      using r by blast
    show "\<forall>c \<in> set (db_chunks s). chunk_scope c = activation_scope a \<longrightarrow> chunk_embedded s c"
      using v(2) [unfolded activation_ready_def list_ex_iff vs] by blast
    show "manifest_for s (activation_scope a) (st_name (ac_target a)) (st_version (ac_target a))"
      using v(2) [unfolded activation_ready_def vs] unfolding a(4,5) by (elim conjE)
    show "ac_record_count a = chunk_count_of s (activation_scope a)" using a(3) n by simp
    show "\<exists>g. set g \<subseteq> {p \<in> set (db_publications s). publication_scope p = activation_scope a
           \<and> publication_group p = activation_group a \<and> ip_deleted_at p = None \<and> ip_activated_at p = None}
         \<and> distinct_chunks PK_LEXICAL g = chunk_count_of s (activation_scope a)
         \<and> distinct_chunks PK_VECTOR g = chunk_count_of s (activation_scope a)"
      using rows cnt by blast
  qed
qed

text \<open>C29: what the recovery activates. Every activation returned, at most \<open>limit\<close> of them, is of a
  ready version that no unfinished cleanup entry blocks, all of whose chunks are embedded and whose
  index manifest for the target exists; the record count to activate is the number of chunks of
  the version, lexical and vector records covering all of them.\<close>

theorem pending_activations_sound:
  assumes "pending_activations limit av dv s = Inr as" and "publications_ok s" and "0 \<le> limit"
  shows "int (length as) \<le> limit \<and> (\<forall>a \<in> set as.
      (\<exists>v \<in> set (db_versions s). version_scope v = activation_scope a \<and> dv_state v \<in> {READY, READY_WITH_WARNINGS}
         \<and> (av = None \<or> Some (dv_id v) = av) \<and> (dv = None \<or> Some (dv_id v) = dv))
      \<and> (\<forall>c \<in> set (db_search_cleanup s). sc_tenant_id c = ac_tenant_id a \<longrightarrow> sc_collection_id c = ac_collection_id a
           \<longrightarrow> sc_activation_version_id c = Some (ac_document_version_id a) \<longrightarrow> sc_state c = CL_DELETED)
      \<and> (\<forall>c \<in> set (db_chunks s). chunk_scope c = activation_scope a \<longrightarrow> chunk_embedded s c)
      \<and> manifest_for s (activation_scope a) (st_name (ac_target a)) (st_version (ac_target a))
      \<and> ac_record_count a = chunk_count_of s (activation_scope a)
      \<and> (\<exists>g. set g \<subseteq> {p \<in> set (db_publications s). publication_scope p = activation_scope a
             \<and> publication_group p = activation_group a \<and> ip_deleted_at p = None \<and> ip_activated_at p = None}
           \<and> distinct_chunks PK_LEXICAL g = chunk_count_of s (activation_scope a)
           \<and> distinct_chunks PK_VECTOR g = chunk_count_of s (activation_scope a)))"
    (is "_ \<and> (\<forall>a \<in> set as. ?P a)")
proof -
  have rel: "list_all2 (\<lambda>g a. pending_activation g = Inr a) (activation_groups limit av dv s) as"
    using assms(1) unfolding pending_activations_def by (rule map_res_Inr)
  have len: "int (length as) \<le> limit" by (rule pending_activations_length [OF assms(1,3)])
  have one: "?P a" if "a \<in> set as" for a
  proof -
    from list_all2_rightD [OF rel that] obtain g where
      g: "g \<in> set (activation_groups limit av dv s)" "pending_activation g = Inr a" by blast
    from pending_activation_sound [OF assms(2) g] show ?thesis .
  qed
  show ?thesis using len one by blast
qed

section \<open>One run of the service\<close>

text \<open>An adapter that also records the calls it gets.\<close>

datatype search_call = DeleteCall SearchCleanupClaim | ActivateCall PendingSearchActivation

definition recording :: "'x search_adapter \<Rightarrow> ('x \<times> search_call list) search_adapter" where
  "recording adapter =
     \<lparr>delete_version = \<lambda>c (x, calls). case delete_version adapter c x of (r, x1) \<Rightarrow> (r, x1, calls @ [DeleteCall c]),
      activate_version = \<lambda>a (x, calls). case activate_version adapter a x of (r, x1) \<Rightarrow> (r, x1, calls @ [ActivateCall a])\<rparr>"

lemma cleanup_loop_calls:
  assumes "cleanup_loop (recording adapter) env w d m av dv n k s (x, calls) = (r, s', x', calls')"
  shows "\<exists>ds. calls' = calls @ map DeleteCall ds \<and> length ds \<le> n \<and> (\<forall>c. r = Inr c \<longrightarrow> c = k + int (length ds))"
  using assms
proof (induction n arbitrary: k s x calls)
  case 0
  then show ?case by (intro exI [of _ "[]"]) auto
next
  case (Suc n)
  obtain q s1 where q: "transaction (claim_cleanup w d m av dv) (env s) = (q, s1)" by fastforce
  consider e where "q = Inl e" | "q = Inr None" | claim where "q = Inr (Some claim)"
    by (metis sumE option.exhaust)
  then show ?case
  proof cases
    case 3
    obtain dr x1 where dr: "delete_version adapter claim x = (dr, x1)" by fastforce
    have rec: "delete_version (recording adapter) claim (x, calls) = (dr, x1, calls @ [DeleteCall claim])"
      by (simp add: recording_def dr)
    show ?thesis
    proof (cases dr)
      case (Inl e)
      with Suc.prems q 3 rec have "calls' = calls @ map DeleteCall [claim]" "\<forall>c. r \<noteq> Inr c"
        by (auto split: prod.splits sum.splits)
      then show ?thesis by (intro exI [of _ "[claim]"]) simp
    next
      case (Inr u)
      obtain f s2 where f: "unit_transaction (complete_cleanup claim w) (env s1) = (f, s2)" by fastforce
      show ?thesis
      proof (cases f)
        case (Inl e)
        with Suc.prems q 3 rec Inr f have "calls' = calls @ map DeleteCall [claim]" "\<forall>c. r \<noteq> Inr c" by auto
        then show ?thesis by (intro exI [of _ "[claim]"]) simp
      next
        case (Inr u')
        with Suc.prems q 3 rec \<open>dr = Inr u\<close> f
        have "cleanup_loop (recording adapter) env w d m av dv n (k + 1) s2 (x1, calls @ [DeleteCall claim])
            = (r, s', x', calls')" by simp
        from Suc.IH [OF this] obtain ds where "calls' = (calls @ [DeleteCall claim]) @ map DeleteCall ds"
          "length ds \<le> n" "\<forall>c. r = Inr c \<longrightarrow> c = k + 1 + int (length ds)" by blast
        then show ?thesis by (intro exI [of _ "claim # ds"]) auto
      qed
    qed
  qed (use Suc.prems q in auto)
qed

lemma activate_loop_calls:
  assumes "activate_loop (recording adapter) env as k s (x, calls) = (r, s', x', calls')"
  shows "\<exists>n \<le> length as. calls' = calls @ map ActivateCall (take n as) \<and> (\<forall>a. r = Inr a \<longrightarrow> a = k + int n)"
  using assms
proof (induction as arbitrary: k s x calls)
  case Nil
  then show ?case by auto
next
  case (Cons a as)
  obtain dr x1 where dr: "activate_version adapter a x = (dr, x1)" by fastforce
  have rec: "activate_version (recording adapter) a (x, calls) = (dr, x1, calls @ [ActivateCall a])"
    by (simp add: recording_def dr)
  obtain f s2 where f: "unit_transaction (complete_activation a) (env s) = (f, s2)" by fastforce
  show ?case
  proof (cases "(\<exists>e. dr = Inl e) \<or> (\<exists>e. f = Inl e)")
    case True
    with Cons.prems rec f have "calls' = calls @ map ActivateCall (take 1 (a # as))" "\<forall>c. r \<noteq> Inr c"
      by (auto split: sum.splits)
    then show ?thesis by (intro exI [of _ 1]) auto
  next
    case False
    then obtain u u' where "dr = Inr u" "f = Inr u'" by (meson sumE)
    with Cons.prems rec f
    have "activate_loop (recording adapter) env as (k + 1) s2 (x1, calls @ [ActivateCall a]) = (r, s', x', calls')" by simp
    from Cons.IH [OF this] obtain n where "n \<le> length as"
      "calls' = (calls @ [ActivateCall a]) @ map ActivateCall (take n as)" "\<forall>c. r = Inr c \<longrightarrow> c = k + 1 + int n" by blast
    then show ?thesis by (intro exI [of _ "Suc n"]) auto
  qed
qed

lemma run_once_call_counts:
  "run_once (recording adapter) env limit w d m av dv s (x, []) = (r, s', x', calls) \<Longrightarrow>
   \<exists>ds bs. calls = map DeleteCall ds @ map ActivateCall bs
     \<and> int (length calls) \<le> max 0 limit
     \<and> (\<forall>c a. r = Inr (c, a) \<longrightarrow> c = int (length ds) \<and> a = int (length bs))
     \<and> (bs = [] \<or> (\<exists>s2 as. pending_activations (limit - int (length ds)) av dv s2 = Inr as \<and> bs = take (length bs) as))"
proof -
  assume run: "run_once (recording adapter) env limit w d m av dv s (x, []) = (r, s', x', calls)"
  show ?thesis
  proof (cases "limit < 1")
    case True
    with run show ?thesis by (intro exI [of _ "[]"]) (auto simp: run_once_def)
  next
    case False
    obtain q s1 x1 calls1 where q: "cleanup_loop (recording adapter) env w d m av dv (nat limit) 0 s (x, [])
        = (q, s1, x1, calls1)" by (metis prod.exhaust)
    from cleanup_loop_calls [OF q] obtain ds where ds: "calls1 = map DeleteCall ds" "length ds \<le> nat limit"
      "\<forall>c. q = Inr c \<longrightarrow> c = int (length ds)" by auto
    note r1 = run [unfolded run_once_def if_not_P [OF False] q prod.case]
    have stop: ?thesis if "calls = calls1" "\<forall>c a. r = Inr (c, a) \<longrightarrow> c = int (length ds) \<and> a = 0"
      using that ds(1,2) False by (intro exI [of _ ds] exI [of _ "[]"]) auto
    show ?thesis
    proof (cases q)
      case (Inl e)
      with r1 have "calls = calls1" "\<forall>c a. r \<noteq> Inr (c, a)" by auto
      with stop show ?thesis by simp
    next
      case (Inr c)
      with ds have c: "c = int (length ds)" by simp
      show ?thesis
      proof (cases "limit - c > 0")
        case False
        with r1 Inr c stop show ?thesis by auto
      next
        case True
        let ?body = "\<lambda>s. bind_res (pending_activations (limit - c) av dv s) (\<lambda>as. Inr (as, s))"
        obtain p s2 where p: "transaction ?body (env s1) = (p, s2)" by fastforce
        note r2 = r1 [unfolded Inr sum.case if_P [OF True] p prod.case]
        show ?thesis
        proof (cases p)
          case (Inl e)
          with r2 have "calls = calls1" "\<forall>c a. r \<noteq> Inr (c, a)" by auto
          with stop show ?thesis by simp
        next
          case (Inr as)
          with p have as: "pending_activations (limit - c) av dv (env s1) = Inr as"
            by (auto simp: transaction_def bind_res_def split: sum.splits)
          note len = pending_activations_length [OF as]
          obtain t s3 x2 calls2 where t: "activate_loop (recording adapter) env as 0 s2 (x1, calls1) = (t, s3, x2, calls2)"
            by (metis prod.exhaust)
          from activate_loop_calls [OF t] obtain n where n: "n \<le> length as"
            "calls2 = calls1 @ map ActivateCall (take n as)" "\<forall>a. t = Inr a \<longrightarrow> a = int n" by auto
          from r2 Inr t have r: "calls = calls2" "\<forall>c' a. r = Inr (c', a) \<longrightarrow> c' = c \<and> t = Inr a"
            by (auto split: sum.splits)
          have "int (length calls) \<le> limit" using r(1) n(1,2) ds(1) len True c by simp
          then show ?thesis
            using r n c ds(1) as by (intro exI [of _ ds] exI [of _ "take n as"]) auto
        qed
      qed
    qed
  qed
qed

text \<open>One run of the recovery service, for every adapter, every outcome of its calls and whatever
  other sessions do meanwhile: deletions in the search index come before activations, all calls
  together are at most \<open>limit\<close>, the counts returned are the calls made, and what is activated was
  returned by the query for pending activations.\<close>

theorem run_once_calls:
  "run_once (recording adapter) env limit w d m av dv s (x, []) = (r, s', x', calls) \<Longrightarrow>
   \<exists>ds bs. calls = map DeleteCall ds @ map ActivateCall bs
     \<and> int (length calls) \<le> max 0 limit
     \<and> (\<forall>c a. r = Inr (c, a) \<longrightarrow> c = int (length ds) \<and> a = int (length bs))
     \<and> (bs = [] \<or> (\<exists>s2 as. pending_activations (limit - int (length ds)) av dv s2 = Inr as \<and> bs = take (length bs) as))"
  by (rule run_once_call_counts)

section \<open>The queue drains\<close>

definition unfinished :: "uuid option \<Rightarrow> uuid option \<Rightarrow> session \<Rightarrow> search_cleanup_row list" where
  "unfinished av dv s = filter (\<lambda>c. cleanup_selected av dv c \<and> sc_state c \<noteq> CL_DELETED) (db_search_cleanup s)"

text \<open>Entries the service can work off: the rows satisfy the checks of the table, and every unfinished
  one is pending, has attempts left and names a valid target.\<close>

definition drainable :: "int \<Rightarrow> uuid option \<Rightarrow> uuid option \<Rightarrow> session \<Rightarrow> bool" where
  "drainable m av dv s \<longleftrightarrow> distinct (map sc_id (db_search_cleanup s))
     \<and> (\<forall>c \<in> set (db_search_cleanup s). check_all (cleanup_checks c) = Inr ())
     \<and> (\<forall>c \<in> set (unfinished av dv s). sc_state c = CL_PENDING \<and> sc_attempt_count c < m
          \<and> search_target_name_ok (sc_target_name c) \<and> sc_target_version c \<noteq> [] \<and> length (sc_target_version c) \<le> 128)"

lemma filter_update_key:
  assumes "distinct (map key xs)" and "c \<in> set xs" and "q c" and "\<not> q (f c)"
  shows "length (filter q xs) = Suc (length (filter q (update_rows (\<lambda>x. key x = key c) f xs)))"
  using assms
proof (induction xs)
  case (Cons x xs)
  show ?case
  proof (cases "x = c")
    case True
    with Cons.prems(1) have "update_rows (\<lambda>x. key x = key c) f xs = xs"
      by (intro update_rows_id) (auto simp: image_iff)
    with True Cons.prems(3,4) show ?thesis by simp
  next
    case False
    with Cons.prems have "key x \<noteq> key c" by (auto simp: image_iff)
    with False Cons show ?thesis by simp
  qed
qed simp

lemma claim_cleanup_next:
  assumes "drainable m av dv s"
  shows "unfinished av dv s = [] \<Longrightarrow> claim_cleanup w d m av dv s = Inr (None, s)"
    and "unfinished av dv s \<noteq> [] \<Longrightarrow> \<exists>c k s1. c \<in> set (unfinished av dv s)
      \<and> claim_cleanup w d m av dv s = Inr (Some k, s1) \<and> sk_id k = sc_id c \<and> sk_attempt_number k = sc_attempt_count c + 1
      \<and> s1 = s\<lparr>db_search_cleanup := update_rows (\<lambda>x. sc_id x = sc_id c) (leased_cleanup w d (now s)) (db_search_cleanup s)\<rparr>"
proof -
  let ?ex = "\<lambda>c. sc_attempt_count c \<ge> m \<and> cleanup_selected av dv c \<and> cleanup_due (now s) c"
  let ?q = "\<lambda>c. sc_attempt_count c < m \<and> cleanup_due (now s) c \<and> cleanup_selected av dv c"
  have uf: "c \<in> set (unfinished av dv s) \<longleftrightarrow> c \<in> set (db_search_cleanup s) \<and> cleanup_selected av dv c \<and> sc_state c \<noteq> CL_DELETED" for c
    by (auto simp: unfinished_def)
  have un: "c \<in> set (unfinished av dv s)" if "c \<in> set (db_search_cleanup s)" "cleanup_selected av dv c" "cleanup_due (now s) c" for c
    using that by (auto simp: unfinished_def cleanup_due_def)
  have pend: "sc_state c = CL_PENDING \<and> sc_attempt_count c < m \<and> search_target_name_ok (sc_target_name c)
      \<and> sc_target_version c \<noteq> [] \<and> length (sc_target_version c) \<le> 128" if "c \<in> set (unfinished av dv s)" for c
    using assms that unfolding drainable_def by blast
  have dist: "distinct (map sc_id (db_search_cleanup s))"
    and chk: "\<forall>c \<in> set (db_search_cleanup s). check_all (cleanup_checks c) = Inr ()"
    using assms unfolding drainable_def by blast+
  have "first_cleanup ?ex s = None"
    unfolding first_cleanup_None using pend un by (meson linorder_not_le)
  then have f: "fail_exhausted m av dv s = Inr s"
    unfolding fail_exhausted_def Let_def update_search_cleanup_Inr by (simp add: update_rows_id)
  { assume "unfinished av dv s = []"
    then have "first_cleanup ?q s = None" unfolding first_cleanup_None using un by fastforce
    then have "lease_cleanup w d m av dv s = Inr ([], s)"
      unfolding lease_cleanup_def Let_def by (simp add: update_search_cleanup_def update_rows_id)
    then show "claim_cleanup w d m av dv s = Inr (None, s)" unfolding claim_cleanup_def f by simp }
  assume "unfinished av dv s \<noteq> []"
  then obtain c0 where c0: "c0 \<in> set (unfinished av dv s)" using hd_in_set by blast
  then have "?q c0" using pend [OF c0] by (simp add: uf cleanup_due_def)
  with c0 obtain i where i: "first_cleanup ?q s = Some i"
    using first_cleanup_None [of ?q s] by (auto simp: uf)
  from first_cleanup_Some [OF i] obtain c where c: "c \<in> set (db_search_cleanup s)" "sc_id c = i" "?q c" by blast
  let ?g = "leased_cleanup w d (now s)"
  let ?s1 = "s\<lparr>db_search_cleanup := update_rows (\<lambda>x. sc_id x = sc_id c) ?g (db_search_cleanup s)\<rparr>"
  have same: "x = c" if "x \<in> set (db_search_cleanup s)" "sc_id x = sc_id c" for x
    using distinct_map_inj_rows [OF dist that(1) c(1) that(2)] .
  have cu: "c \<in> set (unfinished av dv s)" using un c(1,3) by simp
  note cp = pend [OF cu]
  have ok: "check_all (cleanup_checks (?g c)) = Inr ()"
    using chk c(1) cp by (auto simp: cleanup_checks_def check_all_Inr)
  have peq: "(\<lambda>x. Some (sc_id x) = first_cleanup ?q s) = (\<lambda>x. sc_id x = sc_id c)" using i c(2) by (intro ext) simp
  have u: "update_search_cleanup (\<lambda>x. sc_id x = sc_id c) ?g s = Inr ?s1"
    unfolding update_search_cleanup_Inr
  proof (intro conjI ballI impI refl)
    fix r assume "r \<in> set (db_search_cleanup s)" "sc_id r = sc_id c"
    then have "r = c" by (rule same)
    with ok show "check_all (cleanup_checks (?g r)) = Inr ()" by (simp only:)
  qed
  have flt: "filter (\<lambda>x. sc_id x = sc_id c) (db_search_cleanup ?s1) = [?g c]"
    using filter_key_unique [OF dist c(1)] by (simp add: filter_update_rows_same)
  have l: "lease_cleanup w d m av dv s = Inr ([?g c], ?s1)"
    unfolding lease_cleanup_def Let_def peq u by (simp only: bind_res_Inr flt)
  have t: "new_search_target (sc_target_name (?g c)) (sc_target_version (?g c))
      = Inr \<lparr>st_name = sc_target_name c, st_version = sc_target_version c\<rparr>"
    using cp by (simp add: new_search_target_def)
  show "\<exists>c k s1. c \<in> set (unfinished av dv s)
      \<and> claim_cleanup w d m av dv s = Inr (Some k, s1) \<and> sk_id k = sc_id c \<and> sk_attempt_number k = sc_attempt_count c + 1
      \<and> s1 = s\<lparr>db_search_cleanup := update_rows (\<lambda>x. sc_id x = sc_id c) ?g (db_search_cleanup s)\<rparr>"
    using cu unfolding claim_cleanup_def f bind_res_Inr l prod.case one_or_none.simps option.case t
    by (intro exI [of _ c]) simp
qed

text \<open>One round of the loop: claim, delete in the index, complete.\<close>

lemma cleanup_round:
  assumes "drainable m av dv s" and "unfinished av dv s \<noteq> []"
    and env: "\<And>s. db_search_cleanup (env s) = db_search_cleanup s"
    and "claim_cleanup w d m av dv s = Inr (Some k, s1)"
  shows "\<exists>s2. complete_cleanup k w (env s1) = Inr s2 \<and> drainable m av dv s2
    \<and> length (unfinished av dv s) = Suc (length (unfinished av dv s2))"
proof -
  from claim_cleanup_next(2) [OF assms(1,2), of w d] obtain c k' s1' where c': "c \<in> set (unfinished av dv s)"
    "claim_cleanup w d m av dv s = Inr (Some k', s1')" "sk_id k' = sc_id c" "sk_attempt_number k' = sc_attempt_count c + 1"
    and s1': "s1' = s\<lparr>db_search_cleanup := update_rows (\<lambda>x. sc_id x = sc_id c) (leased_cleanup w d (now s)) (db_search_cleanup s)\<rparr>"
    by (elim exE conjE)
  from c'(2) assms(4) have eq: "k' = k" "s1' = s1" by simp_all
  note c = c'(1) c'(3,4) [unfolded eq]
  have db: "db_search_cleanup (env s1) = update_rows (\<lambda>x. sc_id x = sc_id c) (leased_cleanup w d (now s)) (db_search_cleanup s)"
    unfolding env s1' [unfolded eq] by simp
  have dist: "distinct (map sc_id (db_search_cleanup s))"
    and chk: "\<forall>c \<in> set (db_search_cleanup s). check_all (cleanup_checks c) = Inr ()"
    and un: "\<forall>c \<in> set (unfinished av dv s). sc_state c = CL_PENDING \<and> sc_attempt_count c < m
          \<and> search_target_name_ok (sc_target_name c) \<and> sc_target_version c \<noteq> [] \<and> length (sc_target_version c) \<le> 128"
    using assms(1) unfolding drainable_def by blast+
  from c(1) have cs: "c \<in> set (db_search_cleanup s)" "cleanup_selected av dv c" "sc_state c \<noteq> CL_DELETED"
    by (auto simp: unfinished_def)
  let ?t = "now (env s1)"
  let ?h = "\<lambda>c. c\<lparr>sc_state := CL_DELETED, sc_deleted_at := Some ?t, sc_lease_owner := None,
              sc_lease_expires_at := None, sc_last_reason_code := None, sc_updated_at := ?t\<rparr>"
  let ?f = "\<lambda>c. ?h (leased_cleanup w d (now s) c)"
  let ?cs = "update_rows (\<lambda>x. sc_id x = sc_id c) ?f (db_search_cleanup s)"
  have same: "x = c" if "x \<in> set (db_search_cleanup s)" "sc_id x = sc_id c" for x
    using distinct_map_inj_rows [OF dist that(1) cs(1) that(2)] .
  have pt: "(if holds_cleanup k w y then ?h y else y) = (if sc_id x = sc_id c then ?f x else x)"
    if "x \<in> set (db_search_cleanup s)" "y = (if sc_id x = sc_id c then leased_cleanup w d (now s) x else x)" for x y
  proof (cases "sc_id x = sc_id c")
    case True
    with same that(1) have "x = c" by simp
    with True that(2) c(2,3) show ?thesis by (simp add: holds_cleanup_def)
  next
    case False
    with that(2) c(2) show ?thesis by (simp add: holds_cleanup_def)
  qed
  have rows: "update_rows (holds_cleanup k w) ?h (db_search_cleanup (env s1)) = ?cs"
    unfolding db update_rows_def map_map o_def by (rule map_cong [OF refl]) (rule pt [OF _ refl])
  have ok: "check_all (cleanup_checks (?f c)) = Inr ()"
    using chk cs(1) by (auto simp: cleanup_checks_def check_all_Inr)
  have okr: "check_all (cleanup_checks (if sc_id x = sc_id c then ?f x else x)) = Inr ()" if "x \<in> set (db_search_cleanup s)" for x
  proof (cases "sc_id x = sc_id c")
    case True
    with same that have "x = c" by simp
    with ok True show ?thesis by (simp only: if_True)
  qed (use chk that in simp)
  have all: "check_all (cleanup_checks x) = Inr ()" if "x \<in> set ?cs" for x
    using that okr unfolding update_rows_def set_map by (elim imageE) (simp only:)
  let ?s2 = "(env s1)\<lparr>db_search_cleanup := ?cs\<rparr>"
  have "complete_cleanup k w (env s1) = Inr ?s2"
    unfolding complete_cleanup_def update_search_cleanup_Inr rows
  proof (intro conjI ballI impI refl)
    fix r assume r: "r \<in> set (db_search_cleanup (env s1))" "holds_cleanup k w r"
    then have "?h r \<in> set (update_rows (holds_cleanup k w) ?h (db_search_cleanup (env s1)))"
      unfolding set_update_rows by blast
    then show "check_all (cleanup_checks (?h r)) = Inr ()" unfolding rows by (rule all)
  qed
  moreover have fin: "set (unfinished av dv ?s2) \<subseteq> set (unfinished av dv s)"
  proof
    fix x assume "x \<in> set (unfinished av dv ?s2)"
    then have x: "x \<in> set ?cs" "cleanup_selected av dv x" "sc_state x \<noteq> CL_DELETED" by (auto simp: unfinished_def)
    from x(1) obtain y where "y \<in> set (db_search_cleanup s)" "x = (if sc_id y = sc_id c then ?f y else y)"
      unfolding update_rows_def set_map by (elim imageE)
    with x(2,3) show "x \<in> set (unfinished av dv s)" by (cases "sc_id y = sc_id c") (simp_all add: unfinished_def)
  qed
  moreover have "length (unfinished av dv s) = Suc (length (unfinished av dv ?s2))"
    using filter_update_key [OF dist cs(1), where q = "\<lambda>c. cleanup_selected av dv c \<and> sc_state c \<noteq> CL_DELETED" and f = ?f] cs
    by (simp add: unfinished_def)
  moreover have "map sc_id ?cs = map sc_id (db_search_cleanup s)" by (rule map_update_rows) simp
  then have "drainable m av dv ?s2"
    unfolding drainable_def using dist all un fin by (intro conjI ballI) (simp_all add: subset_iff)
  ultimately show ?thesis by blast
qed

lemma cleanup_loop_drains:
  assumes "drainable m av dv s" and "length (unfinished av dv s) \<le> n"
    and env: "\<And>s. db_search_cleanup (env s) = db_search_cleanup s"
    and ok: "\<And>c x. \<exists>x'. delete_version adapter c x = (Inr (), x')"
  shows "\<exists>s' x'. cleanup_loop adapter env w d m av dv n k s x = (Inr (k + int (length (unfinished av dv s))), s', x')
    \<and> unfinished av dv s' = []"
  using assms(1,2)
proof (induction n arbitrary: k s x)
  case 0
  then show ?case by simp
next
  case (Suc n)
  have same: "drainable m av dv (env s)" "unfinished av dv (env s) = unfinished av dv s"
    using Suc.prems(1) env by (simp_all add: drainable_def unfinished_def)
  show ?case
  proof (cases "unfinished av dv s = []")
    case True
    with claim_cleanup_next(1) [OF same(1), unfolded same(2)] show ?thesis
      using same(2) by (simp add: transaction_def)
  next
    case False
    from claim_cleanup_next(2) [OF same(1), unfolded same(2), OF False] obtain cl s1 where
      cl: "claim_cleanup w d m av dv (env s) = Inr (Some cl, s1)" by blast
    from cleanup_round [OF same(1) _ env cl] False obtain s2 where s2: "complete_cleanup cl w (env s1) = Inr s2"
      "drainable m av dv s2" "length (unfinished av dv s) = Suc (length (unfinished av dv s2))"
      unfolding same(2) by blast
    from ok [of cl x] obtain x1 where x1: "delete_version adapter cl x = (Inr (), x1)" by blast
    from Suc.IH [OF s2(2), of "k + 1" x1] s2(3) Suc.prems(2) show ?thesis
      using cl s2(1,3) x1 by (auto simp: transaction_def unit_transaction_def)
  qed
qed

lemma unit_transaction_keeps:
  assumes "unit_transaction body s = (f, s')" and "\<And>s1. body s = Inr s1 \<Longrightarrow> q s1 = q s"
  shows "q s' = q s"
  using assms by (cases "body s") (auto simp: unit_transaction_def transaction_def)

lemma complete_activation_queue: "complete_activation a s = Inr s' \<Longrightarrow> db_search_cleanup s' = db_search_cleanup s"
  unfolding complete_activation_def update_publications_Inr by (elim conjE) simp

lemma activate_loop_queue:
  assumes "\<And>s. db_search_cleanup (env s) = db_search_cleanup s"
    and "activate_loop adapter env as k s x = (t, s', x')"
  shows "db_search_cleanup s' = db_search_cleanup s"
  using assms(2)
proof (induction as arbitrary: k s x)
  case (Cons a as)
  obtain r x1 where r: "activate_version adapter a x = (r, x1)" by fastforce
  obtain f s4 where f: "unit_transaction (complete_activation a) (env s) = (f, s4)" by fastforce
  have "db_search_cleanup s4 = db_search_cleanup s"
    using unit_transaction_keeps [OF f, of db_search_cleanup] complete_activation_queue assms(1) by metis
  with Cons.prems r f show ?case
    by (cases r; cases f) (auto dest: Cons.IH)
qed simp

text \<open>C30: the queue drains. The queue is drainable when its entries have distinct ids and satisfy the checks of the table,
  and each unfinished entry the run selects is pending, so neither leased to another worker nor failed, has fewer
  attempts than the maximum, and names a valid target. Then, with an adapter whose deletions succeed and no other session
  changing the queue, a run with a limit of at least the number of these entries leaves none of them: each is removed,
  whatever the activations after it do, and a normal return reports their number.\<close>

theorem run_once_drains:
  assumes "drainable m av dv s" and "int (length (unfinished av dv s)) \<le> limit"
    and "\<And>s. db_search_cleanup (env s) = db_search_cleanup s"
    and "\<And>c x. \<exists>x'. delete_version adapter c x = (Inr (), x')"
    and "run_once adapter env limit w d m av dv s x = (r, s', x')"
  shows "unfinished av dv s' = [] \<and> (\<forall>c a. r = Inr (c, a) \<longrightarrow> c = int (length (unfinished av dv s)))"
proof (cases "limit < 1")
  case True
  with assms(2) have "length (unfinished av dv s) = 0" by linarith
  then have "unfinished av dv s = []" by simp
  with True assms(5) show ?thesis by (auto simp: run_once_def)
next
  case False
  have "length (unfinished av dv s) \<le> nat limit" using assms(2) by linarith
  from cleanup_loop_drains [OF assms(1) this assms(3,4), of w d 0 x] obtain s1 x1 where
    l: "cleanup_loop adapter env w d m av dv (nat limit) 0 s x = (Inr (int (length (unfinished av dv s))), s1, x1)"
    and e: "unfinished av dv s1 = []" by auto
  have fin: "unfinished av dv t = []" if "db_search_cleanup t = db_search_cleanup s1" for t
    using e that by (simp add: unfinished_def)
  note r1 = assms(5) [unfolded run_once_def if_not_P [OF False] l prod.case sum.case]
  have tr: "db_search_cleanup s2 = db_search_cleanup s1"
    if "transaction (\<lambda>s. bind_res (pending_activations l av dv s) (\<lambda>as. Inr (as, s))) (env s1) = (p, s2)" for l p s2
    using that assms(3) by (auto simp: transaction_def bind_res_def split: sum.splits)
  show ?thesis
  proof (cases "limit - int (length (unfinished av dv s)) > 0")
    case False
    with r1 e show ?thesis by auto
  next
    case True
    obtain p s2 where p: "transaction (\<lambda>z. bind_res (pending_activations (limit - int (length (unfinished av dv s))) av dv z)
        (\<lambda>as. Inr (as, z))) (env s1) = (p, s2)" by fastforce
    note r2 = r1 [unfolded if_P [OF True] p prod.case]
    show ?thesis
    proof (cases p)
      case (Inl err)
      with r2 fin [OF tr [OF p]] show ?thesis by auto
    next
      case (Inr as)
      obtain t s3 x2 where t: "activate_loop adapter env as 0 s2 x1 = (t, s3, x2)" by (metis prod.exhaust)
      have "unfinished av dv s3 = []" using fin [of s3] tr [OF p] activate_loop_queue [OF assms(3) t] by simp
      with r2 Inr t show ?thesis by (auto split: sum.splits)
    qed
  qed
qed

section \<open>Witnesses\<close>

definition sample_target :: SearchTarget where
  "sample_target = \<lparr>st_name = ''atlas'', st_version = ''v1''\<rparr>"

definition sample_publication :: "PublicationKind \<Rightarrow> uuid \<Rightarrow> string \<Rightarrow> publication_row" where
  "sample_publication k i e = \<lparr>ip_id = i, ip_tenant_id = 1, ip_collection_id = 2, ip_document_version_id = 4, ip_chunk_id = 7,
     ip_publication_kind = k, ip_target_name = ''atlas'', ip_target_version = ''v1'', ip_external_record_id = e,
     ip_published_at = 10, ip_deleted_at = None, ip_publication_job_id = Some 94, ip_publication_attempt = Some 1,
     ip_activated_at = None\<rparr>"

definition index_artifact :: PublishedArtifact where
  "index_artifact = extracted_artifact\<lparr>pa_artifact_type := AT_INDEX_MANIFEST, pa_object_key := ''i'',
     pa_generator_name := ''opensearch''\<rparr>"

definition published_session :: session where
  "published_session = embedding_session\<lparr>
     db_versions := [sample_version\<lparr>dv_state := READY, dv_state_revision := 8, dv_page_count := Some 3\<rparr>],
     db_artifacts := db_artifacts embedding_session
       @ [derived_row sample_claim index_artifact (Some 73) (Some sample_target) 75 10],
     db_embeddings := [embedding_row_of sample_claim ''e'' ''fastembed'' ''m'' ''1'' 384
        \<lparr>em_chunk_id = 7, em_checksum_sha256 = sample_sha\<rparr> 76],
     db_publications := [sample_publication PK_LEXICAL 77 ''l'', sample_publication PK_VECTOR 78 ''v''],
     db_jobs := [new_job 94 (1, 2, 4) ST_INDEX 0 3 None 10], db_attempts := [],
     db_events := sample_log 0 [RECEIVED, VALIDATING, QUEUED, PARSING, NORMALIZING, CHUNKING, EMBEDDING, INDEXING, READY]\<rparr>"

definition sample_cleanup :: search_cleanup_row where
  "sample_cleanup = cleanup_entry 1 2 4 \<lparr>tp_target = sample_target, tp_record_count = 1, tp_publication_job_id = Some 94,
     tp_publication_attempt = Some 1\<rparr> (Some 4) 95 10"

definition queued_cleanup_session :: session where
  "queued_cleanup_session = published_session\<lparr>db_search_cleanup := [sample_cleanup]\<rparr>"

lemmas recovery_samples = sample_target_def sample_publication_def index_artifact_def published_session_def sample_cleanup_def
  cleanup_entry_def queued_cleanup_session_def derived_row_def embedding_row_of_def manifest_samples

lemma sample_pending_activations:
  "\<exists>a. pending_activations 5 None None published_session = Inr [a] \<and> ac_document_version_id a = 4"
  by (simp add: pending_activations_def activation_groups_def activation_ready_def chunk_embedded_def manifest_for_def
      activation_key_def publication_group_def distinct_chunks_def chunk_count_of_def pending_activation_def
      new_search_target_def search_target_name_ok_def lower_alnum_def recovery_samples Let_def)

lemma published_session_ok: "publications_ok published_session"
  by (simp add: publications_ok_def chunk_exists_def recovery_samples)

theorem pending_activations_sound_witness:
  "\<exists>a. pending_activations 5 None None published_session = Inr [a] \<and> ac_record_count a = 1"
proof -
  from sample_pending_activations obtain a where a: "pending_activations 5 None None published_session = Inr [a]"
    "ac_document_version_id a = 4" by blast
  have "(0::int) \<le> 5" by simp
  note p = pending_activations_sound [OF a(1) published_session_ok this]
  from p have "ac_record_count a = chunk_count_of published_session (activation_scope a)" by auto
  moreover from p obtain v where "v \<in> set (db_versions published_session)" "activation_scope a = version_scope v" by auto
  then have "activation_scope a = (1, 2, 4)" by (simp add: recovery_samples)
  ultimately have "ac_record_count a = chunk_count_of published_session (1, 2, 4)" by simp
  with a show ?thesis by (simp add: chunk_count_of_def recovery_samples)
qed

lemma queued_cleanup_ok: "queue_ok 3 queued_cleanup_session" "drainable 3 None None queued_cleanup_session"
  by (simp_all add: queue_ok_def cleanup_wf_def drainable_def unfinished_def cleanup_checks_def check_all_Inr
      paired_attempt_def search_target_name_ok_def lower_alnum_def recovery_samples)

lemma queued_cleanup_unfinished: "unfinished None None queued_cleanup_session = [sample_cleanup]"
  by (simp add: unfinished_def cleanup_selected_def recovery_samples)

lemma sample_cleanup_claim:
  "\<exists>k s'. claim_cleanup ''w1'' (seconds 60) 3 None None queued_cleanup_session = Inr (Some k, s')"
  using claim_cleanup_next(2) [OF queued_cleanup_ok(2), unfolded queued_cleanup_unfinished] by blast

theorem cleanup_claim_exclusive_witness:
  "\<exists>k s'. claim_cleanup ''w1'' (seconds 60) 3 None None queued_cleanup_session = Inr (Some k, s')
    \<and> sk_attempt_number k \<le> 3"
  using sample_cleanup_claim cleanup_claim_exclusive [OF _ queued_cleanup_ok(1)] by blast

theorem cleanup_queue_refines_witness:
  "\<exists>s'. queue_run 3 queued_cleanup_session s' \<and> queue_ok 3 s' \<and> db_search_cleanup s' \<noteq> []"
proof -
  from sample_cleanup_claim obtain k s' where "claim_cleanup ''w1'' (seconds 60) 3 None None queued_cleanup_session = Inr (Some k, s')"
    by blast
  then have r: "queue_run 3 queued_cleanup_session s'" by (rule queue_run.claim [OF queue_run.start])
  from cleanup_queue_refines [OF r queued_cleanup_ok(1)] have "queue_ok 3 s'"
    "\<forall>c \<in> set (db_search_cleanup queued_cleanup_session). \<exists>c' \<in> set (db_search_cleanup s'). sc_id c' = sc_id c" by auto
  then show ?thesis using r by (auto simp: queued_cleanup_session_def)
qed

definition sample_adapter :: "nat search_adapter" where
  "sample_adapter = \<lparr>delete_version = \<lambda>c x. (Inr (), x + 1), activate_version = \<lambda>a x. (Inr (), x + 1)\<rparr>"

theorem run_once_drains_witness:
  "\<exists>r s' x'. run_once sample_adapter (\<lambda>s. s) 5 ''w1'' (seconds 60) 3 None None queued_cleanup_session 0 = (r, s', x')
    \<and> unfinished None None s' = []"
proof -
  obtain r s' x' where r: "run_once sample_adapter (\<lambda>s. s) 5 ''w1'' (seconds 60) 3 None None queued_cleanup_session 0 = (r, s', x')"
    by (metis prod.exhaust)
  have "unfinished None None s' = []"
    using run_once_drains [OF queued_cleanup_ok(2) _ _ _ r] queued_cleanup_unfinished by (simp add: sample_adapter_def)
  with r show ?thesis by blast
qed

theorem run_once_calls_witness:
  "\<exists>r s' x' calls ds bs. run_once (recording sample_adapter) (\<lambda>s. s) 5 ''w1'' (seconds 60) 3 None None queued_cleanup_session (0, [])
     = (r, s', x', calls) \<and> calls = map DeleteCall ds @ map ActivateCall bs \<and> int (length calls) \<le> 5"
proof -
  obtain r s' x' calls where r: "run_once (recording sample_adapter) (\<lambda>s. s) 5 ''w1'' (seconds 60) 3 None None
      queued_cleanup_session (0, []) = (r, s', x', calls)"
    by (metis prod.exhaust)
  from run_once_calls [OF r] r show ?thesis by auto
qed

end
