(* ===== verification/Publication_Repository.thy ===== *)
theory Publication_Repository
  imports Search_Recovery "HOL-Library.List_Lexorder" "HOL-Library.Char_ord" "HOL-Library.Product_Lexorder"
begin

text \<open>
  \<open>ingestion/publication_repository.py\<close>, \<open>ingestion/publication_evidence.py\<close>,
  \<open>ingestion/publication_promotion.py\<close> and \<open>ingestion/publication_activation.py\<close>: the index stage.
  An attempt first retires what earlier attempts published, then records its own publications,
  proves their completeness from the tables, and makes the version ready in one transaction that
  also supersedes the version it was reprocessed from; the search index follows by recovery.
\<close>

section \<open>Evidence\<close>

definition require_publication_evidence ::
  "'a ClaimedNativeJob_scheme \<Rightarrow> SearchTarget \<Rightarrow> session \<Rightarrow> PublicationEvidence res" where
  "require_publication_evidence job target s =
     (let k = job_version job;
          cs = filter (\<lambda>c. chunk_scope c = k) (db_chunks s);
          chunks = int (length (remdups (map ck_id cs)));
          embeddings = int (length (remdups [ce_id e. c \<leftarrow> cs, e \<leftarrow> db_embeddings s,
             ce_tenant_id e = ck_tenant_id c \<and> ce_collection_id e = ck_collection_id c \<and> ce_chunk_id e = ck_id c]));
          published = (\<lambda>kind. int (length (remdups [ip_id p. c \<leftarrow> cs, p \<leftarrow> db_publications s,
             ip_tenant_id p = ck_tenant_id c \<and> ip_collection_id p = ck_collection_id c \<and> ip_chunk_id p = ck_id c
             \<and> publication_group p = (st_name target, st_version target, Some (cl_id job), Some (cl_attempt_number job))
             \<and> ip_publication_kind p = kind \<and> ip_deleted_at p = None])))
      in if chunks < 1 \<or> embeddings \<noteq> chunks \<or> published PK_LEXICAL \<noteq> chunks \<or> published PK_VECTOR \<noteq> chunks
         then Inl (ValueError ''index publication evidence is incomplete'')
         else Inr \<lparr>chunk_count = chunks, embedded_chunk_count = embeddings,
                   lexical_publication_count = published PK_LEXICAL,
                   vector_publication_count = published PK_VECTOR,
                   chunk_manifest_published = (artifacts_of s k AT_CHUNK_MANIFEST \<noteq> []),
                   index_manifest_published = manifest_for s k (st_name target) (st_version target)\<rparr>)"

section \<open>An index attempt\<close>

definition index_cleanup_complete :: "'a ClaimedNativeJob_scheme \<Rightarrow> session \<Rightarrow> bool" where
  "index_cleanup_complete job s \<longleftrightarrow>
     \<not> list_ex (\<lambda>c. sc_tenant_id c = cl_tenant_id job \<and> sc_collection_id c = cl_collection_id job
         \<and> sc_activation_version_id c = Some (cl_document_version_id job) \<and> sc_state c \<noteq> CL_DELETED)
       (db_search_cleanup s)"

text \<open>\<open>(publication_job_id, publication_attempt) IS DISTINCT FROM (:job_id, :attempt_number)\<close>, on the
  live publications of the version.\<close>

definition foreign_publication :: "'a ClaimedNativeJob_scheme \<Rightarrow> publication_row \<Rightarrow> bool" where
  "foreign_publication job p \<longleftrightarrow> publication_scope p = job_version job \<and> ip_deleted_at p = None
     \<and> (ip_publication_job_id p, ip_publication_attempt p) \<noteq> (Some (cl_id job), Some (cl_attempt_number job))"

definition new_publication ::
  "string \<Rightarrow> string \<Rightarrow> int \<Rightarrow> uuid option \<Rightarrow> int option \<Rightarrow> SearchTargetPublication res" where
  "new_publication name version count job_id attempt =
     bind_res (new_search_target name version) (\<lambda>t. new_target_publication t count job_id attempt)"

type_synonym retired = "((string \<times> string \<times> uuid option \<times> int option) \<times> SearchTargetPublication) list"

fun retire_groups ::
  "publication_row list \<Rightarrow> (string \<times> string \<times> uuid option \<times> int option) list \<Rightarrow> retired \<Rightarrow> retired res" where
  "retire_groups rows [] d = Inr d"
| "retire_groups rows ((name, version, job_id, attempt) # groups) d =
     (let key = (name, version, job_id, if attempt = Some 0 then None else attempt);
          count = max 1 (distinct_chunk_count (filter (\<lambda>p. publication_group p = (name, version, job_id, attempt)) rows))
      in bind_res (new_publication name version count (fst (snd (snd key))) (snd (snd (snd key)))) (\<lambda>p.
         retire_groups rows groups (dict_put key p d)))"

definition retire_prior :: "'a ClaimedNativeJob_scheme \<Rightarrow> job_row \<Rightarrow> retired \<Rightarrow> retired res" where
  "retire_prior job prior d =
     (case ij_publication_target_name prior of
        None \<Rightarrow> Inr d
      | Some name \<Rightarrow>
          (case (ij_publication_target_version prior, ij_publication_target_attempt prior) of
             (_, None) \<Rightarrow> Inl (ValueError ''invalid literal for int()'')
           | (version, Some n) \<Rightarrow>
               if n = cl_attempt_number job then Inr d
               else (let v = (case version of None \<Rightarrow> ''None'' | Some v \<Rightarrow> v);
                         key = (name, v, Some (cl_id job), Some n)
                     in bind_res (new_publication name v 1 (Some (cl_id job)) (Some n)) (\<lambda>p.
                        Inr (if key \<in> fst ` set d then d else d @ [(key, p)])))))"

definition enqueue_all ::
  "uuid \<Rightarrow> uuid \<Rightarrow> uuid \<Rightarrow> uuid option \<Rightarrow> (nat \<Rightarrow> uuid) \<Rightarrow> SearchTargetPublication list \<Rightarrow> session \<Rightarrow> session res" where
  "enqueue_all tenant_id collection_id document_version_id activation_version_id u publications s =
     fold_res (\<lambda>(n, p). enqueue_cleanup tenant_id collection_id document_version_id p activation_version_id (u n))
       (enumerate 0 publications) s"

definition begin_index_attempt ::
  "'a ClaimedNativeJob_scheme \<Rightarrow> string \<Rightarrow> SearchTarget \<Rightarrow> (nat \<Rightarrow> uuid) \<Rightarrow> session \<Rightarrow> session res" where
  "begin_index_attempt job worker_id target u s =
     bind_res (locked_job_version job worker_id s) (\<lambda>_.
     bind_res (one (filter (\<lambda>j. ij_id j = cl_id job) (db_jobs s))) (\<lambda>prior.
     (let rows = filter (foreign_publication job) (db_publications s)
      in bind_res (retire_groups rows (remdups (map publication_group rows)) []) (\<lambda>d.
         bind_res (retire_prior job prior d) (\<lambda>retired.
         bind_res (enqueue_all (cl_tenant_id job) (cl_collection_id job) (cl_document_version_id job)
             (Some (cl_document_version_id job)) u (map snd retired) s) (\<lambda>s1.
         bind_res (update_publications (foreign_publication job)
             (\<lambda>p. p\<lparr>ip_deleted_at := (case ip_deleted_at p of None \<Rightarrow> Some (now s1) | Some t \<Rightarrow> Some t)\<rparr>) s1) (\<lambda>s2.
         update_jobs (\<lambda>j. ij_id j = cl_id job)
           (\<lambda>j. j\<lparr>ij_publication_target_name := Some (st_name target),
                  ij_publication_target_version := Some (st_version target),
                  ij_publication_target_attempt := Some (cl_attempt_number job), ij_updated_at := now s2\<rparr>) s2)))))))"

record PreparedIndexPublication =
  pi_locked_version :: version_row
  pi_evidence :: PublicationEvidence
  pi_source_targets :: "SearchTargetPublication list"

fun publication_kind :: "string \<Rightarrow> PublicationKind res" where
  "publication_kind k =
     (if k = ''lexical'' then Inr PK_LEXICAL else if k = ''vector'' then Inr PK_VECTOR
      else Inl (IntegrityError ''ck_index_publications_kind''))"

definition record_publication ::
  "'a ClaimedNativeJob_scheme \<Rightarrow> SearchTarget \<Rightarrow> uuid \<Rightarrow> PublicationRecord \<Rightarrow> session \<Rightarrow> session res" where
  "record_publication job target i p s =
     bind_res (publication_kind (pb_publication_kind p)) (\<lambda>kind.
     upsert_publication
       \<lparr>ip_id = i, ip_tenant_id = cl_tenant_id job, ip_collection_id = cl_collection_id job,
        ip_document_version_id = cl_document_version_id job, ip_chunk_id = pb_chunk_id p,
        ip_publication_kind = kind, ip_target_name = st_name target, ip_target_version = st_version target,
        ip_external_record_id = pb_external_record_id p, ip_published_at = now s, ip_deleted_at = None,
        ip_publication_job_id = Some (cl_id job), ip_publication_attempt = Some (cl_attempt_number job),
        ip_activated_at = None\<rparr> s)"

definition prepare_index ::
  "'a ClaimedNativeJob_scheme \<Rightarrow> string \<Rightarrow> PublishedArtifact \<Rightarrow> string \<Rightarrow> string \<Rightarrow> PublicationRecord gen
   \<Rightarrow> (nat \<Rightarrow> uuid) \<Rightarrow> session \<Rightarrow> (PreparedIndexPublication \<times> session) res" where
  "prepare_index job worker_id artifact target_name target_version publications u s =
     bind_res (locked_job_version job worker_id s) (\<lambda>locked.
     bind_res (chunk_artifact_id job s) (\<lambda>chunk_artifact.
     bind_res (new_search_target target_name target_version) (\<lambda>target.
     bind_res (insert_derived_artifact job artifact (Some chunk_artifact) (Some target) (u 0) s) (\<lambda>s1.
     bind_res (for_gen (\<lambda>(n, p). record_publication job target (u (n + 1)) p)
         (enumerate 0 (fst publications), snd publications) s1) (\<lambda>s2.
     bind_res (require_publication_evidence job target s2) (\<lambda>evidence.
     Inr (\<lparr>pi_locked_version = locked, pi_evidence = evidence, pi_source_targets = []\<rparr>, s2)))))))"

section \<open>Activation in the catalog\<close>

definition source_target ::
  "publication_row list \<Rightarrow> string \<times> string \<times> uuid option \<times> int option \<Rightarrow> SearchTargetPublication res" where
  "source_target rows grp =
     (let g = filter (\<lambda>p. publication_group p = grp) rows; n = distinct_chunk_count g
      in if n < 1 \<or> distinct_chunks PK_LEXICAL g \<noteq> n \<or> distinct_chunks PK_VECTOR g \<noteq> n
         then Inl (ValueError ''reprocess source search target is incomplete'')
         else if \<not> list_all (\<lambda>p. ip_activated_at p \<noteq> None) g
         then Inl (ValueError ''reprocess source search target is not activated'')
         else new_publication (fst grp) (fst (snd grp)) n (fst (snd (snd grp))) (snd (snd (snd grp))))"

definition conflicting_versions :: "(string \<times> string \<times> uuid option \<times> int option) list \<Rightarrow> bool" where
  "conflicting_versions groups \<longleftrightarrow>
     list_ex (\<lambda>a. list_ex (\<lambda>b. fst a = fst b \<and> fst (snd a) \<noteq> fst (snd b)) groups) groups"

definition active_source_targets :: "ClaimedPublicationJob \<Rightarrow> session \<Rightarrow> SearchTargetPublication list res" where
  "active_source_targets job s =
     (let k = (cl_tenant_id job, cl_collection_id job, cp_source_document_version_id job)
      in bind_res (one (filter (\<lambda>v. version_scope v = k) (db_versions s))) (\<lambda>source.
         if dv_state source \<notin> {READY, READY_WITH_WARNINGS}
         then Inl (ValueError ''reprocess source is no longer active'')
         else (let rows = filter (\<lambda>p. publication_scope p = k \<and> ip_deleted_at p = None) (db_publications s);
                   groups = sort_key (\<lambda>g. (fst g, fst (snd g))) (remdups (map publication_group rows))
               in if groups = [] then Inl (ValueError ''reprocess source has no active search records'')
                  else bind_res (map_res (source_target rows) groups) (\<lambda>publications.
                       if conflicting_versions groups
                       then Inl (ValueError ''search target name has conflicting versions'')
                       else Inr publications))))"

definition lock_index_for_activation ::
  "ClaimedPublicationJob \<Rightarrow> string \<Rightarrow> SearchTarget \<Rightarrow> session \<Rightarrow> PreparedIndexPublication res" where
  "lock_index_for_activation job worker_id target s =
     bind_res (if cp_source_document_version_id job \<noteq> cl_document_version_id job
               then active_source_targets job s else Inr []) (\<lambda>source_targets.
     bind_res (locked_job_version job worker_id s) (\<lambda>locked.
     bind_res (require_publication_evidence job target s) (\<lambda>evidence.
     Inr \<lparr>pi_locked_version = locked, pi_evidence = evidence, pi_source_targets = source_targets\<rparr>)))"

definition supersede_source_version :: "ClaimedPublicationJob \<Rightarrow> string \<Rightarrow> uuid \<Rightarrow> session \<Rightarrow> session res" where
  "supersede_source_version job worker_id event_id s =
     (let k = (cl_tenant_id job, cl_collection_id job, cp_source_document_version_id job);
          previous = filter (\<lambda>v. version_scope v = k \<and> dv_state v \<in> {READY, READY_WITH_WARNINGS}) (db_versions s)
      in bind_res (update_versions True (\<lambda>v. dv_id v \<in> dv_id ` set previous)
           (\<lambda>v. v\<lparr>dv_state := SUPERSEDED, dv_state_revision := dv_state_revision v + 1, dv_updated_at := now s\<rparr>) s)
           (\<lambda>(_, s1).
         bind_res (one_or_none previous) (\<lambda>source_result.
         bind_res (update_publications (\<lambda>p. publication_scope p = k)
           (\<lambda>p. p\<lparr>ip_deleted_at := (case ip_deleted_at p of None \<Rightarrow> Some (now s1) | Some t \<Rightarrow> Some t)\<rparr>) s1) (\<lambda>s2.
         case source_result of
           None \<Rightarrow> Inl (ValueError ''reprocess source is no longer promotable'')
         | Some source \<Rightarrow>
             insert_event
               \<lparr>ev_id = event_id, ev_tenant_id = cl_tenant_id job, ev_collection_id = cl_collection_id job,
                ev_document_version_id = cp_source_document_version_id job,
                ev_idempotency_key = ''worker:'' @ str_uuid (cl_id job) @ '':promote'',
                ev_from_state = dv_state source, ev_to_state = SUPERSEDED,
                ev_from_revision = dv_state_revision source, ev_to_revision = dv_state_revision source + 1,
                ev_operation = ''supersede'', ev_actor_type = ''worker'', ev_actor_id = worker_id\<rparr> s2))))"

definition finalize_index ::
  "ClaimedPublicationJob \<Rightarrow> string \<Rightarrow> PreparedIndexPublication \<Rightarrow> (nat \<Rightarrow> uuid) \<Rightarrow> session \<Rightarrow> session res" where
  "finalize_index job worker_id prepared u s =
     bind_res (enqueue_all (cl_tenant_id job) (cl_collection_id job) (cp_source_document_version_id job)
         (Some (cl_document_version_id job)) (\<lambda>n. u (n + 2)) (pi_source_targets prepared) s) (\<lambda>s1.
     bind_res (worker_transition READY worker_id (''worker:'' @ str_uuid (cl_id job) @ '':ready'') None
         (Some (pi_evidence prepared)) (u 0) (pi_locked_version prepared) s1) (\<lambda>(_, s2).
     bind_res (if cp_source_document_version_id job \<noteq> cl_document_version_id job
               then supersede_source_version job worker_id (u 1) s2 else Inr s2) (\<lambda>s3.
     bind_res (complete_job job s3) (\<lambda>s4.
     finish_lifecycle_request (cl_id job) RS_SUCCEEDED s4))))"

definition activation_transaction ::
  "ClaimedPublicationJob \<Rightarrow> string \<Rightarrow> SearchTarget \<Rightarrow> int \<Rightarrow> (nat \<Rightarrow> uuid) \<Rightarrow> session
   \<Rightarrow> (SearchTargetPublication list \<times> session) res" where
  "activation_transaction job worker_id target expected_records u s =
     bind_res (lock_index_for_activation job worker_id target s) (\<lambda>prepared.
       if chunk_count (pi_evidence prepared) \<noteq> expected_records
       then Inl (ValueError ''index publication record count changed'')
       else bind_res (finalize_index job worker_id prepared u s) (\<lambda>s1. Inr (pi_source_targets prepared, s1)))"

definition activate ::
  "'x search_adapter \<Rightarrow> (session \<Rightarrow> session) \<Rightarrow> string \<Rightarrow> string \<Rightarrow> int \<Rightarrow> timestamp \<Rightarrow> int
   \<Rightarrow> ClaimedPublicationJob \<Rightarrow> string \<Rightarrow> int \<Rightarrow> (nat \<Rightarrow> uuid) \<Rightarrow> session \<Rightarrow> 'x
   \<Rightarrow> SearchTargetPublication list res \<times> session \<times> 'x" where
  "activate adapter env target_name target_version page_size lease job_max_attempts job worker_id expected_records u s x =
     (case new_search_target target_name target_version of
        Inl e \<Rightarrow> (Inl e, s, x)
      | Inr replacement \<Rightarrow>
          (case transaction (activation_transaction job worker_id replacement expected_records u) (env s) of
             (Inl e, s1) \<Rightarrow> (Inl e, s1, x)
           | (Inr targets, s1) \<Rightarrow>
               (case run_once adapter env (min page_size (cl_max_attempts job + int (length targets) + 2)) worker_id
                   lease job_max_attempts (Some (cl_document_version_id job)) None s1 x of
                  (_, s2, x1) \<Rightarrow> (Inr targets, s2, x1))))"

section \<open>Retiring earlier attempts\<close>

abbreviation publication_key :: "SearchTargetPublication \<Rightarrow> string \<times> string \<times> uuid option \<times> int option" where
  "publication_key p \<equiv> (st_name (tp_target p), st_version (tp_target p), tp_publication_job_id p, tp_publication_attempt p)"

lemma new_publication_Inr:
  "new_publication n v c j a = Inr p \<Longrightarrow> publication_key p = (n, v, j, a) \<and> tp_record_count p = c \<and> 1 \<le> c"
  by (auto simp: new_publication_def bind_res_eq_Inr new_search_target_Inr new_target_publication_Inr)

lemma dict_put_keys: "fst ` set (dict_put k v d) = insert k (fst ` set d)"
proof -
  have "map fst (map (\<lambda>e. if fst e = k then (k, v) else e) d) = map fst d" by simp
  then have "fst ` set (map (\<lambda>e. if fst e = k then (k, v) else e) d) = fst ` set d" by (metis list.set_map)
  then show ?thesis unfolding dict_put_def by (auto simp del: set_map)
qed

lemma dict_put_mem: "e \<in> set (dict_put k v d) \<Longrightarrow> e = (k, v) \<or> e \<in> set d"
  by (auto simp: dict_put_def split: if_splits)

lemma retire_groups_Inr:
  assumes "retire_groups rows gs d = Inr d'" and "\<forall>e \<in> set d. publication_key (snd e) = fst e"
    and "\<forall>g \<in> set gs. snd (snd (snd g)) \<noteq> Some 0"
  shows "(\<forall>e \<in> set d'. publication_key (snd e) = fst e) \<and> fst ` set d' = fst ` set d \<union> set gs"
  using assms
proof (induction rows gs d arbitrary: d' rule: retire_groups.induct)
  case (2 rows name version job_id attempt gs d)
  let ?g = "(name, version, job_id, attempt)"
  have a: "attempt \<noteq> Some 0" using "2.prems"(3) by simp
  let ?c = "max 1 (distinct_chunk_count (filter (\<lambda>p. publication_group p = ?g) rows))"
  from "2.prems"(1) a obtain p where p: "new_publication name version ?c job_id attempt = Inr p"
    and r: "retire_groups rows gs (dict_put ?g p d) = Inr d'"
    by (auto simp: Let_def elim: bind_res_InrE)
  have "\<forall>e \<in> set (dict_put ?g p d). publication_key (snd e) = fst e"
    using new_publication_Inr [OF p] "2.prems"(2) by (auto dest!: dict_put_mem)
  from "2.IH" [OF refl refl, of p d'] a p r this "2.prems"(3)
  have "(\<forall>e \<in> set d'. publication_key (snd e) = fst e) \<and> fst ` set d' = fst ` set (dict_put ?g p d) \<union> set gs"
    by simp
  then show ?case by (auto simp: dict_put_keys)
qed simp

lemma retire_prior_Inr:
  assumes "retire_prior job prior d = Inr d'" and "\<forall>e \<in> set d. publication_key (snd e) = fst e"
  shows "(\<forall>e \<in> set d'. publication_key (snd e) = fst e) \<and> fst ` set d \<subseteq> fst ` set d'
    \<and> (\<forall>name v n. ij_publication_target_name prior = Some name \<longrightarrow> ij_publication_target_version prior = Some v
         \<longrightarrow> ij_publication_target_attempt prior = Some n \<longrightarrow> n \<noteq> cl_attempt_number job
         \<longrightarrow> (name, v, Some (cl_id job), Some n) \<in> fst ` set d')"
  using assms by (auto simp: retire_prior_def Let_def bind_res_eq_Inr image_iff dest!: new_publication_Inr split: option.splits if_splits)

abbreviation entry_key ::
  "uuid \<times> uuid \<times> uuid \<Rightarrow> uuid option \<Rightarrow> string \<times> string \<times> uuid option \<times> int option
   \<Rightarrow> (uuid \<times> uuid \<times> uuid) \<times> uuid option \<times> uuid option \<times> int option \<times> string \<times> string" where
  "entry_key k a g \<equiv> (k, a, fst (snd (snd g)), snd (snd (snd g)), fst g, fst (snd g))"

lemma enqueue_all_Inr:
  assumes "enqueue_all t c v a u ps s = Inr s'"
  shows "\<exists>cs. s' = s\<lparr>db_search_cleanup := cs\<rparr> \<and> set (db_search_cleanup s) \<subseteq> set cs
    \<and> (\<forall>p \<in> set ps. \<exists>e \<in> set cs. cleanup_target_key e = entry_key (t, c, v) a (publication_key p))"
proof -
  have "\<exists>cs. s' = s\<lparr>db_search_cleanup := cs\<rparr> \<and> set (db_search_cleanup s) \<subseteq> set cs
    \<and> (\<forall>p \<in> snd ` set nps. \<exists>e \<in> set cs. cleanup_target_key e = entry_key (t, c, v) a (publication_key p))"
    if "fold_res (\<lambda>(n, p). enqueue_cleanup t c v p a (u n)) nps s = Inr s'" for nps
    using that
  proof (induction nps arbitrary: s)
    case Nil
    then show ?case by (intro exI [of _ "db_search_cleanup s"]) simp
  next
    case (Cons np nps)
    obtain n p where np: "np = (n, p)" by (cases np)
    from Cons.prems obtain s1 where s1: "enqueue_cleanup t c v p a (u n) s = Inr s1"
      and rest: "fold_res (\<lambda>(n, p). enqueue_cleanup t c v p a (u n)) nps s1 = Inr s'"
      unfolding np by (auto elim: bind_res_InrE)
    from insert_search_cleanup_Inr [OF s1 [unfolded enqueue_cleanup_def]] obtain c1 where
      c1: "s1 = s\<lparr>db_search_cleanup := c1\<rparr>" "set (db_search_cleanup s) \<subseteq> set c1"
      "\<exists>e \<in> set c1. cleanup_target_key e = entry_key (t, c, v) a (publication_key p)"
      by (auto simp: cleanup_target_key_def cleanup_scope_def cleanup_entry_def)
    from Cons.IH [OF rest] obtain c2 where c2: "s' = s1\<lparr>db_search_cleanup := c2\<rparr>" "set (db_search_cleanup s1) \<subseteq> set c2"
      "\<forall>p \<in> snd ` set nps. \<exists>e \<in> set c2. cleanup_target_key e = entry_key (t, c, v) a (publication_key p)"
      by (elim exE conjE)
    from c1 c2 show ?case by (intro exI [of _ c2]) (auto simp: np)
  qed
  moreover have "snd ` set (enumerate 0 ps) = set ps" by (metis list.set_map map_snd_enumerate)
  ultimately show ?thesis using assms unfolding enqueue_all_def by metis
qed

lemma begin_index_attempt_steps:
  assumes "begin_index_attempt job worker target u s = Inr s'"
  obtains locked prior d retired s1 s2 where "locked_job_version job worker s = Inr locked"
    "filter (\<lambda>j. ij_id j = cl_id job) (db_jobs s) = [prior]"
    "retire_groups (filter (foreign_publication job) (db_publications s))
       (remdups (map publication_group (filter (foreign_publication job) (db_publications s)))) [] = Inr d"
    "retire_prior job prior d = Inr retired"
    "enqueue_all (cl_tenant_id job) (cl_collection_id job) (cl_document_version_id job)
             (Some (cl_document_version_id job)) u (map snd retired) s = Inr s1"
    "update_publications (foreign_publication job)
             (\<lambda>p. p\<lparr>ip_deleted_at := (case ip_deleted_at p of None \<Rightarrow> Some (now s1) | Some t \<Rightarrow> Some t)\<rparr>) s1 = Inr s2"
    "update_jobs (\<lambda>j. ij_id j = cl_id job)
           (\<lambda>j. j\<lparr>ij_publication_target_name := Some (st_name target),
                  ij_publication_target_version := Some (st_version target),
                  ij_publication_target_attempt := Some (cl_attempt_number job), ij_updated_at := now s2\<rparr>) s2 = Inr s'"
  using assms unfolding begin_index_attempt_def Let_def
  by (elim bind_res_InrE) (rule that, assumption, simp only: one_Inr, assumption+)

lemma retired_targets_queued:
  assumes "\<forall>p \<in> set (db_publications s). check_all (publication_checks p) = Inr ()"
    and "retire_groups (filter (foreign_publication job) (db_publications s))
       (remdups (map publication_group (filter (foreign_publication job) (db_publications s)))) [] = Inr d"
    and "retire_prior job prior d = Inr retired"
    and "enqueue_all (cl_tenant_id job) (cl_collection_id job) (cl_document_version_id job)
       (Some (cl_document_version_id job)) u (map snd retired) s = Inr s1"
  shows "\<exists>cs. s1 = s\<lparr>db_search_cleanup := cs\<rparr> \<and> set (db_search_cleanup s) \<subseteq> set cs
    \<and> (\<forall>p \<in> set (db_publications s). foreign_publication job p \<longrightarrow>
        (\<exists>c \<in> set cs. cleanup_target_key c = entry_key (job_version job) (Some (cl_document_version_id job)) (publication_group p)))
    \<and> (\<forall>name v n. ij_publication_target_name prior = Some name \<longrightarrow> ij_publication_target_version prior = Some v
         \<longrightarrow> ij_publication_target_attempt prior = Some n \<longrightarrow> n \<noteq> cl_attempt_number job
         \<longrightarrow> (\<exists>c \<in> set cs. cleanup_target_key c = entry_key (job_version job) (Some (cl_document_version_id job))
              (name, v, Some (cl_id job), Some n)))"
proof -
  let ?rows = "filter (foreign_publication job) (db_publications s)"
  have "\<forall>g \<in> set (remdups (map publication_group ?rows)). snd (snd (snd g)) \<noteq> Some 0"
    using assms(1) by (auto simp: publication_checks_def check_all_Inr paired_attempt_def publication_group_def)
  from retire_groups_Inr [OF assms(2) _ this] have d: "\<forall>e \<in> set d. publication_key (snd e) = fst e"
    "fst ` set d = publication_group ` set ?rows" by simp_all
  from retire_prior_Inr [OF assms(3) d(1)] have r: "\<forall>e \<in> set retired. publication_key (snd e) = fst e"
    "fst ` set d \<subseteq> fst ` set retired"
    and pr: "\<forall>name v n. ij_publication_target_name prior = Some name \<longrightarrow> ij_publication_target_version prior = Some v
         \<longrightarrow> ij_publication_target_attempt prior = Some n \<longrightarrow> n \<noteq> cl_attempt_number job
         \<longrightarrow> (name, v, Some (cl_id job), Some n) \<in> fst ` set retired" by blast+
  from enqueue_all_Inr [OF assms(4)] obtain cs where s1: "s1 = s\<lparr>db_search_cleanup := cs\<rparr>" "set (db_search_cleanup s) \<subseteq> set cs"
    and en: "\<forall>p \<in> set (map snd retired). \<exists>e \<in> set cs. cleanup_target_key e
      = entry_key (job_version job) (Some (cl_document_version_id job)) (publication_key p)" by (elim exE conjE)
  have queued: "\<exists>c \<in> set cs. cleanup_target_key c = entry_key (job_version job) (Some (cl_document_version_id job)) g"
    if "g \<in> fst ` set retired" for g
  proof -
    from that obtain e where e: "e \<in> set retired" "g = fst e" by blast
    with r(1) have "g = publication_key (snd e)" by simp
    with e(1) en show ?thesis by simp
  qed
  have "\<exists>c \<in> set cs. cleanup_target_key c = entry_key (job_version job) (Some (cl_document_version_id job)) (publication_group p)"
    if "p \<in> set (db_publications s)" "foreign_publication job p" for p
    using that d(2) r(2) by (intro queued) auto
  with s1 pr queued show ?thesis by blast
qed

text \<open>Beginning an index attempt retires every earlier attempt of the version. Afterwards the only
  live publications of the version belong to this attempt; for every publication that was live,
  and for the target an earlier attempt of the job had recorded, a cleanup entry is queued that
  blocks the activation of the version; the job names this attempt's target before anything is
  published, and publications of other versions are as before.\<close>

theorem begin_index_attempt_effect:
  assumes "begin_index_attempt job worker target u s = Inr s'"
    and "\<forall>p \<in> set (db_publications s). check_all (publication_checks p) = Inr ()"
  shows "(\<forall>p \<in> set (db_publications s'). publication_scope p = job_version job \<longrightarrow> ip_deleted_at p = None
       \<longrightarrow> ip_publication_job_id p = Some (cl_id job) \<and> ip_publication_attempt p = Some (cl_attempt_number job))
    \<and> (\<forall>p \<in> set (db_publications s). foreign_publication job p \<longrightarrow> (\<exists>c \<in> set (db_search_cleanup s').
         cleanup_target_key c = entry_key (job_version job) (Some (cl_document_version_id job)) (publication_group p)))
    \<and> (\<forall>j \<in> set (db_jobs s). \<forall>name v n. ij_id j = cl_id job \<longrightarrow> ij_publication_target_name j = Some name
         \<longrightarrow> ij_publication_target_version j = Some v \<longrightarrow> ij_publication_target_attempt j = Some n
         \<longrightarrow> n \<noteq> cl_attempt_number job \<longrightarrow> (\<exists>c \<in> set (db_search_cleanup s'). cleanup_target_key c
            = entry_key (job_version job) (Some (cl_document_version_id job)) (name, v, Some (cl_id job), Some n)))
    \<and> (\<forall>j \<in> set (db_jobs s'). ij_id j = cl_id job \<longrightarrow> ij_publication_target_name j = Some (st_name target)
         \<and> ij_publication_target_version j = Some (st_version target)
         \<and> ij_publication_target_attempt j = Some (cl_attempt_number job))
    \<and> filter (\<lambda>p. publication_scope p \<noteq> job_version job) (db_publications s')
      = filter (\<lambda>p. publication_scope p \<noteq> job_version job) (db_publications s)
    \<and> set (db_search_cleanup s) \<subseteq> set (db_search_cleanup s')"
  using assms(1)
proof (cases rule: begin_index_attempt_steps)
  case (1 locked prior d retired s1 s2)
  from retired_targets_queued [OF assms(2) 1(3-5)] obtain cs where
    s1: "s1 = s\<lparr>db_search_cleanup := cs\<rparr>" "set (db_search_cleanup s) \<subseteq> set cs"
    and fq: "\<forall>p \<in> set (db_publications s). foreign_publication job p \<longrightarrow>
        (\<exists>c \<in> set cs. cleanup_target_key c = entry_key (job_version job) (Some (cl_document_version_id job)) (publication_group p))"
    and pq: "\<forall>name v n. ij_publication_target_name prior = Some name \<longrightarrow> ij_publication_target_version prior = Some v
         \<longrightarrow> ij_publication_target_attempt prior = Some n \<longrightarrow> n \<noteq> cl_attempt_number job
         \<longrightarrow> (\<exists>c \<in> set cs. cleanup_target_key c = entry_key (job_version job) (Some (cl_document_version_id job))
              (name, v, Some (cl_id job), Some n))" by (elim exE conjE)
  let ?f = "\<lambda>p. p\<lparr>ip_deleted_at := (case ip_deleted_at p of None \<Rightarrow> Some (now s1) | Some t \<Rightarrow> Some t)\<rparr>"
  have s2: "s2 = s1\<lparr>db_publications := update_rows (foreign_publication job) ?f (db_publications s1)\<rparr>"
    using 1(6) unfolding update_publications_Inr by (elim conjE)
  let ?g = "\<lambda>j. j\<lparr>ij_publication_target_name := Some (st_name target), ij_publication_target_version := Some (st_version target),
                  ij_publication_target_attempt := Some (cl_attempt_number job), ij_updated_at := now s2\<rparr>"
  have s': "s' = s2\<lparr>db_jobs := update_rows (\<lambda>j. ij_id j = cl_id job) ?g (db_jobs s2)\<rparr>"
    using 1(7) unfolding update_jobs_Inr by (elim conjE)
  have pubs: "db_publications s' = update_rows (foreign_publication job) ?f (db_publications s)"
    and cl: "db_search_cleanup s' = cs" and jobs: "db_jobs s' = update_rows (\<lambda>j. ij_id j = cl_id job) ?g (db_jobs s)"
    using s' s2 s1 by simp_all
  have "ip_publication_job_id p = Some (cl_id job) \<and> ip_publication_attempt p = Some (cl_attempt_number job)"
    if "p \<in> set (db_publications s')" "publication_scope p = job_version job" "ip_deleted_at p = None" for p
    using that unfolding pubs set_update_rows by (auto simp: foreign_publication_def split: option.splits)
  moreover have "\<exists>c \<in> set (db_search_cleanup s'). cleanup_target_key c
      = entry_key (job_version job) (Some (cl_document_version_id job)) (publication_group p)"
    if "p \<in> set (db_publications s)" "foreign_publication job p" for p
    unfolding cl using that fq by blast
  moreover have "\<exists>c \<in> set (db_search_cleanup s'). cleanup_target_key c
      = entry_key (job_version job) (Some (cl_document_version_id job)) (name, v, Some (cl_id job), Some n)"
    if "j \<in> set (db_jobs s)" "ij_id j = cl_id job" "ij_publication_target_name j = Some name"
      "ij_publication_target_version j = Some v" "ij_publication_target_attempt j = Some n" "n \<noteq> cl_attempt_number job" for j name v n
  proof -
    have "j \<in> set (filter (\<lambda>j. ij_id j = cl_id job) (db_jobs s))" using that(1,2) by simp
    then have "j = prior" unfolding 1(2) by simp
    with pq that show ?thesis unfolding cl by blast
  qed
  moreover have "ij_publication_target_name j = Some (st_name target) \<and> ij_publication_target_version j = Some (st_version target)
         \<and> ij_publication_target_attempt j = Some (cl_attempt_number job)" if "j \<in> set (db_jobs s')" "ij_id j = cl_id job" for j
    using that unfolding jobs set_update_rows by auto
  moreover have "filter (\<lambda>p. publication_scope p \<noteq> job_version job) (db_publications s')
      = filter (\<lambda>p. publication_scope p \<noteq> job_version job) (db_publications s)"
    unfolding pubs by (rule filter_update_rows_frame) (auto simp: foreign_publication_def)
  ultimately show ?thesis using s1(2) cl by (intro conjI) (blast | simp)+
qed

section \<open>Evidence and the ready trigger\<close>

lemma image_fills:
  assumes "finite C" and "inj_on h P" and "h ` P \<subseteq> C" and "card (f ` P) = card C"
  shows "h ` P = C"
proof -
  have "finite P" using assms(1-3) inj_on_finite by blast
  then have "card C \<le> card P" using assms(4) card_image_le by metis
  then have "card C \<le> card (h ` P)" using assms(2) by (simp add: card_image)
  with assms(1,3) card_mono [OF assms(1,3)] show ?thesis by (intro card_subset_eq) simp_all
qed

lemma require_publication_evidence_Inr:
  assumes "require_publication_evidence job target s = Inr ev"
  shows "let cs = {c \<in> set (db_chunks s). chunk_scope c = job_version job}; n = card (ck_id ` cs);
      pub = (\<lambda>kind. {p \<in> set (db_publications s). (\<exists>c \<in> cs. ip_tenant_id p = ck_tenant_id c
         \<and> ip_collection_id p = ck_collection_id c \<and> ip_chunk_id p = ck_id c)
         \<and> publication_group p = (st_name target, st_version target, Some (cl_id job), Some (cl_attempt_number job))
         \<and> ip_publication_kind p = kind \<and> ip_deleted_at p = None})
    in 1 \<le> n \<and> chunk_count ev = int n \<and> embedded_chunk_count ev = int n
     \<and> lexical_publication_count ev = int n \<and> vector_publication_count ev = int n
     \<and> chunk_manifest_published ev = (artifacts_of s (job_version job) AT_CHUNK_MANIFEST \<noteq> [])
     \<and> index_manifest_published ev = manifest_for s (job_version job) (st_name target) (st_version target)
     \<and> card (ce_id ` {e \<in> set (db_embeddings s). \<exists>c \<in> cs. ce_tenant_id e = ck_tenant_id c
          \<and> ce_collection_id e = ck_collection_id c \<and> ce_chunk_id e = ck_id c}) = n
     \<and> (\<forall>kind. card (ip_id ` pub kind) = n)"
proof -
  let ?cs = "{c \<in> set (db_chunks s). chunk_scope c = job_version job}"
  let ?l = "filter (\<lambda>c. chunk_scope c = job_version job) (db_chunks s)"
  have e: "set [ce_id e. c \<leftarrow> ?l, e \<leftarrow> db_embeddings s, ce_tenant_id e = ck_tenant_id c
        \<and> ce_collection_id e = ck_collection_id c \<and> ce_chunk_id e = ck_id c]
      = ce_id ` {e \<in> set (db_embeddings s). \<exists>c \<in> ?cs. ce_tenant_id e = ck_tenant_id c
          \<and> ce_collection_id e = ck_collection_id c \<and> ce_chunk_id e = ck_id c}"
    by (auto split: if_splits)
  have p: "set [ip_id p. c \<leftarrow> ?l, p \<leftarrow> db_publications s, ip_tenant_id p = ck_tenant_id c
        \<and> ip_collection_id p = ck_collection_id c \<and> ip_chunk_id p = ck_id c \<and> publication_group p = g
             \<and> ip_publication_kind p = kind \<and> ip_deleted_at p = None]
      = ip_id ` {p \<in> set (db_publications s). (\<exists>c \<in> ?cs. ip_tenant_id p = ck_tenant_id c
         \<and> ip_collection_id p = ck_collection_id c \<and> ip_chunk_id p = ck_id c) \<and> publication_group p = g
         \<and> ip_publication_kind p = kind \<and> ip_deleted_at p = None}" for kind g
    by (auto split: if_splits)
  have c: "set (map ck_id ?l) = ck_id ` ?cs" by auto
  have all: "(\<forall>kind. q kind) \<longleftrightarrow> q PK_LEXICAL \<and> q PK_VECTOR" for q by (metis PublicationKind.exhaust)
  define n where "n = card (ck_id ` ?cs)"
  define m where "m = card (ce_id ` {e \<in> set (db_embeddings s). \<exists>c \<in> ?cs. ce_tenant_id e = ck_tenant_id c
          \<and> ce_collection_id e = ck_collection_id c \<and> ce_chunk_id e = ck_id c})"
  define q where "q kind = card (ip_id ` {p \<in> set (db_publications s). (\<exists>c \<in> ?cs. ip_tenant_id p = ck_tenant_id c
         \<and> ip_collection_id p = ck_collection_id c \<and> ip_chunk_id p = ck_id c)
         \<and> publication_group p = (st_name target, st_version target, Some (cl_id job), Some (cl_attempt_number job))
         \<and> ip_publication_kind p = kind \<and> ip_deleted_at p = None})" for kind
  from assms have "1 \<le> n \<and> chunk_count ev = int n \<and> embedded_chunk_count ev = int n
     \<and> lexical_publication_count ev = int n \<and> vector_publication_count ev = int n
     \<and> chunk_manifest_published ev = (artifacts_of s (job_version job) AT_CHUNK_MANIFEST \<noteq> [])
     \<and> index_manifest_published ev = manifest_for s (job_version job) (st_name target) (st_version target)
     \<and> m = n \<and> (\<forall>kind. q kind = n)"
    unfolding require_publication_evidence_def Let_def length_remdups_card_conv e p c all
      n_def [symmetric] m_def [symmetric] q_def [symmetric]
    by (auto split: if_splits)
  then show ?thesis unfolding Let_def n_def m_def q_def .
qed

text \<open>Identifiers of the rows a version's evidence counts are unique per chunk: one embedding model, and
  one live record per chunk and kind (a unique index).\<close>

definition single_embedding :: "session \<Rightarrow> uuid \<times> uuid \<times> uuid \<Rightarrow> bool" where
  "single_embedding s k \<longleftrightarrow> distinct (map ce_chunk_id (filter (\<lambda>e. embedding_scope e = k) (db_embeddings s)))"

lemma distinct_map_filter_inj:
  "distinct (map f (filter p xs)) \<Longrightarrow> inj_on f {x \<in> set xs. p x}"
  by (simp add: distinct_map)

lemma evidence_embedded:
  assumes "embeddings_ok s" and "single_embedding s k"
    and n: "card (ce_id ` {e \<in> set (db_embeddings s). \<exists>c \<in> {c \<in> set (db_chunks s). chunk_scope c = k}.
        ce_tenant_id e = ck_tenant_id c \<and> ce_collection_id e = ck_collection_id c \<and> ce_chunk_id e = ck_id c})
      = card (ck_id ` {c \<in> set (db_chunks s). chunk_scope c = k})"
    and c: "c \<in> set (db_chunks s)" "chunk_scope c = k"
  shows "chunk_embedded s c"
proof -
  let ?C = "{c \<in> set (db_chunks s). chunk_scope c = k}"
  let ?E = "{e \<in> set (db_embeddings s). \<exists>c \<in> ?C. ce_tenant_id e = ck_tenant_id c
      \<and> ce_collection_id e = ck_collection_id c \<and> ce_chunk_id e = ck_id c}"
  have "embedding_scope e = k" if "e \<in> ?E" for e
  proof -
    from that obtain d where d: "d \<in> set (db_chunks s)" "chunk_scope d = k" "ck_id d = ce_chunk_id e" by auto
    from that assms(1) obtain d' where d': "d' \<in> set (db_chunks s)" "chunk_scope d' = embedding_scope e" "ck_id d' = ce_chunk_id e"
      unfolding embeddings_ok_def chunk_exists_def list_ex_iff by blast
    from assms(1) have "distinct (map ck_id (db_chunks s))" unfolding embeddings_ok_def by blast
    from distinct_map_inj_rows [OF this d(1) d'(1)] d d' show ?thesis by simp
  qed
  then have "?E \<subseteq> {e \<in> set (db_embeddings s). embedding_scope e = k}" by blast
  with distinct_map_filter_inj [OF assms(2) [unfolded single_embedding_def]] have "inj_on ce_chunk_id ?E"
    by (rule inj_on_subset)
  moreover have "ce_chunk_id ` ?E \<subseteq> ck_id ` ?C" by auto
  ultimately have eq: "ce_chunk_id ` ?E = ck_id ` ?C"
    by (intro image_fills [where f = ce_id] n) simp_all
  have "ck_id c \<in> ck_id ` ?C" using c by (intro imageI) simp
  then obtain e where "ck_id c = ce_chunk_id e" "e \<in> ?E" unfolding eq [symmetric] by (elim imageE)
  then show ?thesis by (intro chunk_embeddedI [OF assms(1) c(1)]) simp_all
qed

lemma evidence_published:
  assumes "publications_ok s" and "publications_unique (db_publications s)"
    and n: "card (ip_id ` {p \<in> set (db_publications s). (\<exists>c \<in> {c \<in> set (db_chunks s). chunk_scope c = k}.
        ip_tenant_id p = ck_tenant_id c \<and> ip_collection_id p = ck_collection_id c \<and> ip_chunk_id p = ck_id c)
        \<and> publication_group p = g \<and> ip_publication_kind p = kind \<and> ip_deleted_at p = None})
      = card (ck_id ` {c \<in> set (db_chunks s). chunk_scope c = k})"
  shows "ip_chunk_id ` {p \<in> set (db_publications s). publication_scope p = k \<and> ip_deleted_at p = None
      \<and> publication_group p = g \<and> ip_publication_kind p = kind} = ck_id ` {c \<in> set (db_chunks s). chunk_scope c = k}"
proof -
  let ?C = "{c \<in> set (db_chunks s). chunk_scope c = k}"
  let ?P = "{p \<in> set (db_publications s). (\<exists>c \<in> ?C. ip_tenant_id p = ck_tenant_id c \<and> ip_collection_id p = ck_collection_id c
        \<and> ip_chunk_id p = ck_id c) \<and> publication_group p = g \<and> ip_publication_kind p = kind \<and> ip_deleted_at p = None}"
  let ?Q = "{p \<in> set (db_publications s). publication_scope p = k \<and> ip_deleted_at p = None
      \<and> publication_group p = g \<and> ip_publication_kind p = kind}"
  have dist: "distinct (map ck_id (db_chunks s))"
    and ref: "\<forall>p \<in> set (db_publications s). \<exists>d \<in> set (db_chunks s). chunk_scope d = publication_scope p \<and> ck_id d = ip_chunk_id p"
    using assms(1) unfolding publications_ok_def chunk_exists_def list_ex_iff by blast+
  have "?P \<subseteq> ?Q"
  proof
    fix p assume p: "p \<in> ?P"
    then obtain d where d: "d \<in> set (db_chunks s)" "chunk_scope d = k" "ck_id d = ip_chunk_id p" by auto
    from p ref obtain d' where d': "d' \<in> set (db_chunks s)" "chunk_scope d' = publication_scope p" "ck_id d' = ip_chunk_id p"
      by blast
    from distinct_map_inj_rows [OF dist d(1) d'(1)] d d' have "publication_scope p = k" by simp
    with p show "p \<in> ?Q" by simp
  qed
  moreover have "?Q \<subseteq> ?P"
  proof
    fix p assume p: "p \<in> ?Q"
    with ref obtain d where "d \<in> set (db_chunks s)" "chunk_scope d = publication_scope p" "ck_id d = ip_chunk_id p" by blast
    with p show "p \<in> ?P" by auto
  qed
  ultimately have eq: "?P = ?Q" by (rule subset_antisym)
  have "inj_on publication_kind_key {p \<in> set (db_publications s). ip_deleted_at p = None}"
    using assms(2) unfolding publications_unique_def publication_unique_checks_def
    by (intro distinct_map_filter_inj) simp
  then have "inj_on publication_kind_key ?Q" by (rule inj_on_subset) blast
  then have "inj_on ip_chunk_id ?Q" unfolding inj_on_def publication_kind_key_def by simp
  moreover have "ip_chunk_id ` ?Q \<subseteq> ck_id ` ?C"
  proof (rule image_subsetI)
    fix p assume p: "p \<in> ?Q"
    with ref obtain d where "d \<in> set (db_chunks s)" "chunk_scope d = publication_scope p" "ck_id d = ip_chunk_id p" by blast
    with p show "ip_chunk_id p \<in> ck_id ` ?C" by (intro image_eqI [of _ _ d]) simp_all
  qed
  ultimately show ?thesis
    by (intro image_fills [where f = ip_id] n [unfolded eq]) simp_all
qed

lemma chunk_ids_card:
  assumes "distinct (map ck_id (db_chunks s))"
  shows "card (ck_id ` {c \<in> set (db_chunks s). chunk_scope c = k}) = length (filter (\<lambda>c. chunk_scope c = k) (db_chunks s))"
proof -
  have "distinct (map ck_id (filter (\<lambda>c. chunk_scope c = k) (db_chunks s)))"
    using assms by (simp add: distinct_map_filter)
  from distinct_card [OF this] show ?thesis by simp
qed

text \<open>The evidence the code computes and the trigger of the database agree. When the counts are
  complete, with one embedding per chunk and the keys and references of the schema, the trigger
  accepts the ready version: every chunk is embedded, and one group of live publications under a
  manifest covers all chunks, lexically and as vectors.\<close>

theorem evidence_meets_trigger:
  assumes "require_publication_evidence job target s = Inr ev" and "is_complete ev"
    and "embeddings_ok s" and "single_embedding s (job_version job)"
    and "publications_ok s" and "publications_unique (db_publications s)"
    and "version_scope v = job_version job"
  shows "enforce_ready_publication s v = Inr ()"
proof -
  let ?k = "job_version job"
  let ?C = "{c \<in> set (db_chunks s). chunk_scope c = ?k}"
  let ?cs = "filter (\<lambda>c. chunk_scope c = ?k) (db_chunks s)"
  let ?g = "(st_name target, st_version target, Some (cl_id job), Some (cl_attempt_number job))"
  let ?ps = "filter (\<lambda>p. publication_scope p = ?k \<and> ip_deleted_at p = None
                  \<and> manifest_for s ?k (ip_target_name p) (ip_target_version p)) (db_publications s)"
  note ev = require_publication_evidence_Inr [OF assms(1), unfolded Let_def]
  have n: "card (ck_id ` ?C) = length ?cs"
    using assms(5) by (intro chunk_ids_card) (simp add: publications_ok_def)
  have one: "1 \<le> card (ck_id ` ?C)" using ev by (elim conjE)
  have ne: "card (ce_id ` {e \<in> set (db_embeddings s). \<exists>c \<in> ?C. ce_tenant_id e = ck_tenant_id c
          \<and> ce_collection_id e = ck_collection_id c \<and> ce_chunk_id e = ck_id c}) = card (ck_id ` ?C)" using ev by (elim conjE)
  have np: "\<forall>kind. card (ip_id ` {p \<in> set (db_publications s). (\<exists>c \<in> ?C. ip_tenant_id p = ck_tenant_id c
         \<and> ip_collection_id p = ck_collection_id c \<and> ip_chunk_id p = ck_id c)
         \<and> publication_group p = ?g \<and> ip_publication_kind p = kind \<and> ip_deleted_at p = None}) = card (ck_id ` ?C)"
    using ev by (elim conjE)
  have "chunk_manifest_published ev = (artifacts_of s ?k AT_CHUNK_MANIFEST \<noteq> [])" using ev by (elim conjE)
  moreover have "index_manifest_published ev = manifest_for s ?k (st_name target) (st_version target)" using ev by (elim conjE)
  ultimately have man: "artifacts_of s ?k AT_CHUNK_MANIFEST \<noteq> []" "manifest_for s ?k (st_name target) (st_version target)"
    using assms(2) unfolding is_complete_def by simp_all
  have emb: "chunk_embedded s c" if "c \<in> set ?cs" for c
    by (rule evidence_embedded [OF assms(3,4) ne]) (use that in simp_all)
  have ids: "ip_chunk_id ` {p \<in> set (db_publications s). publication_scope p = ?k \<and> ip_deleted_at p = None
      \<and> publication_group p = ?g \<and> ip_publication_kind p = kind} = ck_id ` ?C" for kind
    by (rule evidence_published [OF assms(5,6) np [rule_format]])
  have grp: "manifest_for s ?k (ip_target_name p) (ip_target_version p)" if "publication_group p = ?g" for p
    using that man(2) by (simp add: publication_group_def)
  have cnt: "distinct_chunks kind (filter (\<lambda>q. publication_group q = ?g) ?ps) = int (length ?cs)" for kind
  proof -
    have "set (filter (\<lambda>p. ip_publication_kind p = kind) (filter (\<lambda>q. publication_group q = ?g) ?ps))
        = {p \<in> set (db_publications s). publication_scope p = ?k \<and> ip_deleted_at p = None
            \<and> publication_group p = ?g \<and> ip_publication_kind p = kind}" using grp by auto
    then show ?thesis
      unfolding distinct_chunks_def length_remdups_card_conv set_map using ids [of kind] n by simp
  qed
  from one n have "?cs \<noteq> []" by (metis list.size(3) not_one_le_zero)
  from one have "ck_id ` ?C \<noteq> {}" by (metis card.empty not_one_le_zero)
  then obtain p where p: "p \<in> set (db_publications s)" "publication_scope p = ?k" "ip_deleted_at p = None"
    "publication_group p = ?g" unfolding ids [of PK_LEXICAL, symmetric] by blast
  then have "p \<in> set ?ps" using grp by simp
  then have "list_ex (\<lambda>p. let g = filter (\<lambda>q. publication_group q = publication_group p) ?ps
                in distinct_chunks PK_LEXICAL g = int (length ?cs)
                   \<and> distinct_chunks PK_VECTOR g = int (length ?cs)) ?ps"
    unfolding list_ex_iff Let_def using cnt p(4) by (intro bexI [of _ p]) simp_all
  moreover have "list_ex (\<lambda>a. artifact_scope a = ?k \<and> af_artifact_type a = AT_CHUNK_MANIFEST) (db_artifacts s)"
    using man(1) unfolding artifacts_of_def filter_empty_conv list_ex_iff by blast
  ultimately have "ready_publication_ok s v"
    unfolding ready_publication_ok_def assms(7) Let_def list_all_iff using emb \<open>?cs \<noteq> []\<close> by blast
  then show ?thesis by (simp add: enforce_ready_publication_def)
qed

section \<open>Activation\<close>

abbreviation source_version :: "ClaimedPublicationJob \<Rightarrow> uuid \<times> uuid \<times> uuid" where
  "source_version job \<equiv> (cl_tenant_id job, cl_collection_id job, cp_source_document_version_id job)"

lemma supersede_source_version_Inr:
  assumes "supersede_source_version job worker eid s = Inr s'" and "version_keys_ok s" and "audit_ok s"
  shows "audit_ok s' \<and> version_keys_ok s'
    \<and> (\<exists>v \<in> set (db_versions s). \<exists>w \<in> set (db_versions s'). version_scope v = source_version job
         \<and> dv_state v \<in> {READY, READY_WITH_WARNINGS} \<and> version_scope w = source_version job \<and> dv_state w = SUPERSEDED
         \<and> dv_state_revision w = dv_state_revision v + 1)
    \<and> (\<forall>x. dv_id x \<noteq> cp_source_document_version_id job \<longrightarrow> x \<in> set (db_versions s) \<longrightarrow> x \<in> set (db_versions s'))
    \<and> (\<forall>p \<in> set (db_publications s'). publication_scope p = source_version job \<longrightarrow> ip_deleted_at p \<noteq> None)
    \<and> (\<exists>vs ps es. s' = s\<lparr>db_versions := vs, db_publications := ps, db_events := es\<rparr>)"
proof -
  let ?q = "\<lambda>v. version_scope v = source_version job \<and> dv_state v \<in> {READY, READY_WITH_WARNINGS}"
  let ?prev = "filter ?q (db_versions s)"
  let ?f = "\<lambda>v. v\<lparr>dv_state := SUPERSEDED, dv_state_revision := dv_state_revision v + 1, dv_updated_at := now s\<rparr>"
  from assms(1) obtain rows s1 src s2 where u: "update_versions True (\<lambda>v. dv_id v \<in> dv_id ` set ?prev) ?f s = Inr (rows, s1)"
    and o: "one_or_none ?prev = Inr src"
    and pb: "update_publications (\<lambda>p. publication_scope p = source_version job)
           (\<lambda>p. p\<lparr>ip_deleted_at := (case ip_deleted_at p of None \<Rightarrow> Some (now s1) | Some t \<Rightarrow> Some t)\<rparr>) s1 = Inr s2"
    and k: "(case src of None \<Rightarrow> Inl (ValueError ''reprocess source is no longer promotable'')
         | Some source \<Rightarrow>
             insert_event
               \<lparr>ev_id = eid, ev_tenant_id = cl_tenant_id job, ev_collection_id = cl_collection_id job,
                ev_document_version_id = cp_source_document_version_id job,
                ev_idempotency_key = ''worker:'' @ str_uuid (cl_id job) @ '':promote'',
                ev_from_state = dv_state source, ev_to_state = SUPERSEDED,
                ev_from_revision = dv_state_revision source, ev_to_revision = dv_state_revision source + 1,
                ev_operation = ''supersede'', ev_actor_type = ''worker'', ev_actor_id = worker\<rparr> s2) = Inr s'"
    unfolding supersede_source_version_def Let_def by (elim bind_res_pairE bind_res_InrE)
  from k obtain v where v: "src = Some v" by (cases src) simp_all
  with o have prev: "?prev = [v]" by (simp add: one_or_none_Some)
  then have "v \<in> set ?prev" by simp
  then have vm: "v \<in> set (db_versions s)" "version_scope v = source_version job" "dv_state v \<in> {READY, READY_WITH_WARNINGS}"
    by simp_all
  define e where "e = \<lparr>ev_id = eid, ev_tenant_id = cl_tenant_id job, ev_collection_id = cl_collection_id job,
                ev_document_version_id = cp_source_document_version_id job,
                ev_idempotency_key = ''worker:'' @ str_uuid (cl_id job) @ '':promote'',
                ev_from_state = dv_state v, ev_to_state = SUPERSEDED,
                ev_from_revision = dv_state_revision v, ev_to_revision = dv_state_revision v + 1,
                ev_operation = ''supersede'', ev_actor_type = ''worker'', ev_actor_id = worker\<rparr>"
  from k [unfolded v option.case, folded e_def] have s': "s' = s2\<lparr>db_events := db_events s2 @ [e]\<rparr>"
    by (auto dest: insert_event_Inr)
  let ?ps = "update_rows (\<lambda>p. publication_scope p = source_version job)
      (\<lambda>p. p\<lparr>ip_deleted_at := (case ip_deleted_at p of None \<Rightarrow> Some (now s1) | Some t \<Rightarrow> Some t)\<rparr>) (db_publications s1)"
  from pb have s2: "s2 = s1\<lparr>db_publications := ?ps\<rparr>" unfolding update_publications_Inr by (elim conjE)
  have s1: "s1 = s\<lparr>db_versions := update_rows (\<lambda>x. dv_id x \<in> dv_id ` set ?prev) ?f (db_versions s)\<rparr>"
    using u unfolding update_versions_Inr by (elim conjE)
  let ?vs = "update_rows (\<lambda>r. dv_id r = dv_id v) (\<lambda>_. ?f v) (db_versions s)"
  have vs: "update_rows (\<lambda>x. dv_id x \<in> dv_id ` set ?prev) ?f (db_versions s) = ?vs"
    unfolding update_rows_def
  proof (rule map_cong [OF refl])
    fix x assume x: "x \<in> set (db_versions s)"
    have "x = v" if "dv_id x = dv_id v"
      using distinct_map_inj_rows [OF assms(2) [unfolded version_keys_ok_def] x vm(1) that] .
    then show "(if dv_id x \<in> dv_id ` set ?prev then ?f x else x) = (if dv_id x = dv_id v then ?f v else x)"
      unfolding prev by auto
  qed
  let ?t = "s\<lparr>db_versions := ?vs, db_events := db_events s @ [e]\<rparr>"
  have rec: "transition_recorded s ?t v (?f v) e"
    using vm(2) by (simp add: transition_recorded_def version_identity_def e_def)
  have fin: "s' = ?t\<lparr>db_publications := ?ps\<rparr>" using s' s2 s1 vs by simp
  have "audit_ok ?t" using transition_recorded_audit rec assms(2,3) vm(1) by blast
  moreover have "version_keys_ok ?t" by (rule transition_recorded_keys [OF rec assms(2)])
  ultimately have "audit_ok s'" "version_keys_ok s'"
    unfolding fin by (simp_all add: audit_ok_def events_of_def version_exists_def version_keys_ok_def)
  moreover have "?f v \<in> set (db_versions s')" unfolding fin using vm(1) by (force simp: set_update_rows)
  moreover have "\<forall>x. dv_id x \<noteq> cp_source_document_version_id job \<longrightarrow> x \<in> set (db_versions s) \<longrightarrow> x \<in> set (db_versions s')"
    unfolding fin using vm(2) by (auto simp: set_update_rows)
  moreover have "\<forall>p \<in> set (db_publications s'). publication_scope p = source_version job \<longrightarrow> ip_deleted_at p \<noteq> None"
    unfolding fin by (auto simp: set_update_rows split: option.splits)
  ultimately show ?thesis using vm fin
    by (intro conjI bexI [of _ v] bexI [of _ "?f v"] exI [of _ ?vs] exI [of _ ?ps] exI [of _ "db_events s @ [e]"]) simp_all
qed

lemma active_source_targets_Inr:
  assumes "active_source_targets job s = Inr ts"
  shows "ts \<noteq> []"
proof -
  let ?rows = "filter (\<lambda>p. publication_scope p = source_version job \<and> ip_deleted_at p = None) (db_publications s)"
  let ?gs = "sort_key (\<lambda>g. (fst g, fst (snd g))) (remdups (map publication_group ?rows))"
  from assms have "?gs \<noteq> []" "map_res (source_target ?rows) ?gs = Inr ts"
    unfolding active_source_targets_def Let_def by (auto elim!: bind_res_InrE split: if_splits)
  then show ?thesis using list_all2_lengthD [OF map_res_Inr] by fastforce
qed

lemma activation_transaction_steps:
  assumes "activation_transaction job worker target n u s = Inr (ts, s')"
  obtains locked ev s1 w s2 s3 s4 where
    "(if cp_source_document_version_id job \<noteq> cl_document_version_id job then active_source_targets job s else Inr []) = Inr ts"
    "locked_job_version job worker s = Inr locked" "require_publication_evidence job target s = Inr ev" "chunk_count ev = n"
    "enqueue_all (cl_tenant_id job) (cl_collection_id job) (cp_source_document_version_id job)
         (Some (cl_document_version_id job)) (\<lambda>n. u (n + 2)) ts s = Inr s1"
    "worker_transition READY worker (''worker:'' @ str_uuid (cl_id job) @ '':ready'') None (Some ev) (u 0) locked s1 = Inr (w, s2)"
    "(if cp_source_document_version_id job \<noteq> cl_document_version_id job
               then supersede_source_version job worker (u 1) s2 else Inr s2) = Inr s3"
    "complete_job job s3 = Inr s4" "finish_lifecycle_request (cl_id job) RS_SUCCEEDED s4 = Inr s'"
proof -
  from assms obtain pr where pr: "lock_index_for_activation job worker target s = Inr pr"
    and r: "(if chunk_count (pi_evidence pr) \<noteq> n then Inl (ValueError ''index publication record count changed'')
       else bind_res (finalize_index job worker pr u s) (\<lambda>s1. Inr (pi_source_targets pr, s1))) = Inr (ts, s')"
    unfolding activation_transaction_def by (elim bind_res_InrE)
  from r have c: "chunk_count (pi_evidence pr) = n" by (cases "chunk_count (pi_evidence pr) = n") simp_all
  with r have f: "finalize_index job worker pr u s = Inr s'" and ts: "ts = pi_source_targets pr"
    by (auto elim: bind_res_InrE)
  from pr obtain locked ev where "(if cp_source_document_version_id job \<noteq> cl_document_version_id job
      then active_source_targets job s else Inr []) = Inr (pi_source_targets pr)"
    "locked_job_version job worker s = Inr locked" "require_publication_evidence job target s = Inr ev"
    "pi_locked_version pr = locked" "pi_evidence pr = ev"
    unfolding lock_index_for_activation_def by (elim bind_res_InrE) auto
  with that c f [unfolded finalize_index_def] ts show thesis
    by (elim bind_res_pairE bind_res_InrE) metis
qed

lemma operation_allowed_ready: "operation_allowed st READY ''advance'' = Some True \<Longrightarrow> st = INDEXING"
  by (cases st) (simp_all add: operation_allowed_def)

lemma complete_job_Inr:
  assumes "complete_job job s = Inr s'"
  shows "\<exists>js as. s' = s\<lparr>db_jobs := js, db_attempts := as\<rparr> \<and> map ij_id js = map ij_id (db_jobs s)
    \<and> map ij_lifecycle_request_id js = map ij_lifecycle_request_id (db_jobs s)
    \<and> (\<forall>j \<in> set js. ij_id j = cl_id job \<longrightarrow> ij_state j = JS_SUCCEEDED \<and> ij_lease_owner j = None)"
proof -
  from assms obtain s1 where "finish_attempt job ''succeeded'' None None s = Inr s1"
    and cl: "close_job JS_SUCCEEDED id (cl_id job) s1 = Inr s'" by (rule complete_job_steps)
  from finish_attempt_Inr [OF this(1)] obtain as where s1: "s1 = s\<lparr>db_attempts := as\<rparr>" by (elim exE conjE)
  let ?f = "\<lambda>j. id (j\<lparr>ij_state := JS_SUCCEEDED, ij_lease_owner := None,
      ij_lease_expires_at := None, ij_heartbeat_at := Some (now s1), ij_updated_at := now s1\<rparr>)"
  let ?js = "update_rows (\<lambda>j. ij_id j = cl_id job) ?f (db_jobs s)"
  have "s' = s\<lparr>db_jobs := ?js, db_attempts := as\<rparr>" using close_job_Inr [OF cl] s1 by simp
  moreover have "map ij_id ?js = map ij_id (db_jobs s)" "map ij_lifecycle_request_id ?js = map ij_lifecycle_request_id (db_jobs s)"
    by (rule map_update_rows, simp)+
  moreover have "\<forall>j \<in> set ?js. ij_id j = cl_id job \<longrightarrow> ij_state j = JS_SUCCEEDED \<and> ij_lease_owner j = None"
    unfolding set_update_rows by auto
  ultimately show ?thesis by blast
qed

definition index_activated ::
  "ClaimedPublicationJob \<Rightarrow> SearchTarget \<Rightarrow> SearchTargetPublication list \<Rightarrow> session \<Rightarrow> session \<Rightarrow> bool" where
  "index_activated job target ts s s' \<longleftrightarrow>
     (\<exists>v \<in> set (db_versions s). \<exists>w \<in> set (db_versions s'). dv_id v = cl_document_version_id job \<and> dv_state v = INDEXING
        \<and> version_scope w = version_scope v \<and> dv_state w = READY \<and> dv_state_revision w = dv_state_revision v + 1
        \<and> ready_publication_ok s w)
     \<and> (\<exists>ev. require_publication_evidence job target s = Inr ev \<and> is_complete ev)
     \<and> (cp_source_document_version_id job \<noteq> cl_document_version_id job \<longrightarrow> ts \<noteq> []
        \<and> (\<exists>v \<in> set (db_versions s). \<exists>w \<in> set (db_versions s'). version_scope v = source_version job
             \<and> dv_state v \<in> {READY, READY_WITH_WARNINGS} \<and> version_scope w = source_version job \<and> dv_state w = SUPERSEDED
             \<and> dv_state_revision w = dv_state_revision v + 1)
        \<and> (\<forall>p \<in> set (db_publications s'). publication_scope p = source_version job \<longrightarrow> ip_deleted_at p \<noteq> None)
        \<and> (\<forall>t \<in> set ts. \<exists>c \<in> set (db_search_cleanup s'). cleanup_target_key c
             = entry_key (source_version job) (Some (cl_document_version_id job)) (publication_key t)))
     \<and> (\<forall>j \<in> set (db_jobs s'). ij_id j = cl_id job \<longrightarrow> ij_state j = JS_SUCCEEDED \<and> ij_lease_owner j = None)"

lemma activation_transaction_effect:
  assumes "activation_transaction job worker target n u s = Inr (ts, s')" and "version_keys_ok s" and "audit_ok s"
  shows "index_activated job target ts s s' \<and> audit_ok s' \<and> version_keys_ok s'
    \<and> (\<exists>ev. require_publication_evidence job target s = Inr ev \<and> chunk_count ev = n)"
  using assms(1)
proof (cases rule: activation_transaction_steps)
  case (1 locked ev s1 w s2 s3 s4)
  let ?re = "cp_source_document_version_id job \<noteq> cl_document_version_id job"
  from locked_job_version_Inr [OF 1(2)] have lk: "locked \<in> set (db_versions s)" "dv_id locked = cl_document_version_id job"
    by blast+
  from enqueue_all_Inr [OF 1(5)] obtain cs where s1: "s1 = s\<lparr>db_search_cleanup := cs\<rparr>"
    and en: "\<forall>t \<in> set ts. \<exists>e \<in> set cs. cleanup_target_key e
      = entry_key (source_version job) (Some (cl_document_version_id job)) (publication_key t)" by (elim exE conjE)
  have ok1: "version_keys_ok s1" "audit_ok s1" "locked \<in> set (db_versions s1)"
    using assms(2,3) lk(1) s1 by (simp_all add: version_keys_ok_def audit_ok_def events_of_def version_exists_def)
  from worker_transition_ok [OF 1(6) ok1(3,1,2)] obtain vs es where ok2: "audit_ok s2" "version_keys_ok s2" "w \<in> set (db_versions s2)"
    and w: "w = locked\<lparr>dv_state := READY, dv_state_revision := dv_state_revision locked + 1,
            dv_terminal_reason_code := None, dv_updated_at := now s1\<rparr>"
    and s2: "s2 = s1\<lparr>db_versions := vs, db_events := es\<rparr>"
    and al: "operation_allowed (dv_state locked) READY ''advance'' = Some True"
    by (elim exE conjE)
  from worker_transition_Inr [OF 1(6) ok1(3,1)] obtain e where "READY \<in> {READY, READY_WITH_WARNINGS}
      \<longrightarrow> (\<exists>x. Some ev = Some x \<and> is_complete x) \<and> ready_publication_ok s1 w" by (elim exE conjE)
  then have comp: "is_complete ev" and "ready_publication_ok s1 w" by simp_all
  then have rdy: "ready_publication_ok s w"
    unfolding s1 ready_publication_ok_def chunk_embedded_def [abs_def] manifest_for_def by simp
  from complete_job_Inr [OF 1(8)] obtain js as where s4: "s4 = s3\<lparr>db_jobs := js, db_attempts := as\<rparr>"
    and js: "\<forall>j \<in> set js. ij_id j = cl_id job \<longrightarrow> ij_state j = JS_SUCCEEDED \<and> ij_lease_owner j = None"
    by (elim exE conjE)
  from finish_lifecycle_request_Inr [OF 1(9)] obtain qs where s': "s' = s4\<lparr>db_requests := qs\<rparr>" by (elim exE conjE)
  have fr: "db_versions s' = db_versions s3" "db_events s' = db_events s3" "db_publications s' = db_publications s3"
    "db_search_cleanup s' = db_search_cleanup s3" "db_jobs s' = js" using s' s4 by simp_all
  have sup: "audit_ok s3 \<and> version_keys_ok s3 \<and> w \<in> set (db_versions s3) \<and> db_search_cleanup s3 = cs
    \<and> (?re \<longrightarrow> (\<exists>v \<in> set (db_versions s2). \<exists>w \<in> set (db_versions s3). version_scope v = source_version job
             \<and> dv_state v \<in> {READY, READY_WITH_WARNINGS} \<and> version_scope w = source_version job \<and> dv_state w = SUPERSEDED
             \<and> dv_state_revision w = dv_state_revision v + 1)
        \<and> (\<forall>p \<in> set (db_publications s3). publication_scope p = source_version job \<longrightarrow> ip_deleted_at p \<noteq> None))"
  proof (cases ?re)
    case True
    with 1(7) have "supersede_source_version job worker (u 1) s2 = Inr s3" by simp
    note x = supersede_source_version_Inr [OF this ok2(2,1)]
    have "dv_id w \<noteq> cp_source_document_version_id job" using True lk(2) w by simp
    moreover from x have "\<forall>y. dv_id y \<noteq> cp_source_document_version_id job \<longrightarrow> y \<in> set (db_versions s2) \<longrightarrow> y \<in> set (db_versions s3)"
      by (elim conjE)
    ultimately have wm: "w \<in> set (db_versions s3)" using ok2(3) by simp
    from x have "\<exists>vs ps es. s3 = s2\<lparr>db_versions := vs, db_publications := ps, db_events := es\<rparr>" by (elim conjE)
    then have "db_search_cleanup s3 = cs" using s2 s1 by (elim exE) simp
    with wm x show ?thesis by (intro conjI impI) (elim conjE, assumption)+
  next
    case False
    with 1(7) have "s3 = s2" by simp
    with False ok2 s2 s1 show ?thesis by simp
  qed
  have old: "v \<in> set (db_versions s)" if "v \<in> set (db_versions s2)" "dv_id v \<noteq> dv_id locked" for v
    using worker.run_other_versions [of "(READY, worker, ''worker:'' @ str_uuid (cl_id job) @ '':ready'', None, Some ev, u 0)"
        locked s1 w s2 v] 1(6) ok1 that s1 by simp
  have src: "?re \<longrightarrow> ts \<noteq> []" using 1(1) active_source_targets_Inr [of job s ts] by auto
  have fence: "dv_state locked = INDEXING" using al by (rule operation_allowed_ready)
  have a: "\<exists>v \<in> set (db_versions s). \<exists>w \<in> set (db_versions s'). dv_id v = cl_document_version_id job \<and> dv_state v = INDEXING
        \<and> version_scope w = version_scope v \<and> dv_state w = READY \<and> dv_state_revision w = dv_state_revision v + 1
        \<and> ready_publication_ok s w"
    using lk w fence sup fr(1) rdy by (intro bexI [of _ locked] bexI [of _ w]) simp_all
  have b: "\<exists>v \<in> set (db_versions s). \<exists>w \<in> set (db_versions s'). version_scope v = source_version job
             \<and> dv_state v \<in> {READY, READY_WITH_WARNINGS} \<and> version_scope w = source_version job \<and> dv_state w = SUPERSEDED
             \<and> dv_state_revision w = dv_state_revision v + 1" if ?re
  proof -
    from sup that obtain v w' where v: "v \<in> set (db_versions s2)" "w' \<in> set (db_versions s3)" "version_scope v = source_version job"
      "dv_state v \<in> {READY, READY_WITH_WARNINGS}" "version_scope w' = source_version job" "dv_state w' = SUPERSEDED"
      "dv_state_revision w' = dv_state_revision v + 1" by (elim conjE impE) (assumption, elim bexE conjE)
    then have "v \<in> set (db_versions s)" using that lk(2) by (intro old) simp_all
    with v fr(1) show ?thesis by (intro bexI [of _ v] bexI [of _ w'] conjI) simp_all
  qed
  have "index_activated job target ts s s'"
    unfolding index_activated_def
  proof (intro conjI impI)
    show "\<exists>ev. require_publication_evidence job target s = Inr ev \<and> is_complete ev" using comp 1(3) by (intro exI conjI)
    assume re: ?re
    then show "ts \<noteq> []" using src by simp
    show "\<forall>p \<in> set (db_publications s'). publication_scope p = source_version job \<longrightarrow> ip_deleted_at p \<noteq> None"
      unfolding fr(3) using sup re by (elim conjE impE) simp_all
    have "db_search_cleanup s3 = cs" using sup by (elim conjE)
    then show "\<forall>t \<in> set ts. \<exists>c \<in> set (db_search_cleanup s'). cleanup_target_key c
             = entry_key (source_version job) (Some (cl_document_version_id job)) (publication_key t)"
      unfolding fr(4) using en by (simp only:)
  qed (fact a b js [folded fr(5)])+
  moreover have "audit_ok s'" "version_keys_ok s'"
    using sup fr by (simp_all add: audit_ok_def events_of_def version_exists_def version_keys_ok_def)
  ultimately show ?thesis using 1(3,4) by blast
qed

text \<open>C22: activating a published version. Either an exception is raised, and then the catalog is as before
  and the search index untouched, or the catalog transaction committed: the version went from
  \<open>indexing\<close> to \<open>ready\<close> with complete evidence the trigger accepts, the version it replaces is
  superseded, its records are retired and queued for removal before the new ones may become
  visible, and the job is closed. What the search index does afterwards never turns this into a
  failure.\<close>

theorem activate_effect:
  assumes "activate adapter env name ver page lease ma job worker n u s x = (r, s', x')"
    and "version_keys_ok (env s)" and "audit_ok (env s)"
  shows "(\<forall>e. r = Inl e \<longrightarrow> s' \<in> {s, env s} \<and> x' = x)
    \<and> (\<forall>ts. r = Inr ts \<longrightarrow> (\<exists>target s1. new_search_target name ver = Inr target
         \<and> index_activated job target ts (env s) s1 \<and> audit_ok s1 \<and> version_keys_ok s1
         \<and> (\<exists>q. run_once adapter env (min page (cl_max_attempts job + int (length ts) + 2)) worker lease ma
              (Some (cl_document_version_id job)) None s1 x = (q, s', x'))))"
proof (cases "new_search_target name ver")
  case (Inl e)
  with assms(1) show ?thesis by (auto simp: activate_def)
next
  case (Inr target)
  note t = this
  show ?thesis
  proof (cases "activation_transaction job worker target n u (env s)")
    case (Inl e)
    with assms(1) t show ?thesis by (auto simp: activate_def transaction_def)
  next
    case (Inr res)
    obtain ts s1 where res: "res = (ts, s1)" by (cases res)
    obtain q s2 x2 where q: "run_once adapter env (min page (cl_max_attempts job + int (length ts) + 2)) worker lease ma
              (Some (cl_document_version_id job)) None s1 x = (q, s2, x2)" by (metis prod.exhaust)
    have "transaction (activation_transaction job worker target n u) (env s) = (Inr ts, s1)"
      by (simp add: transaction_def Inr res)
    with assms(1) t q have "r = Inr ts" "s' = s2" "x' = x2" by (simp_all add: activate_def)
    with t q activation_transaction_effect [OF Inr [unfolded res] assms(2,3)] show ?thesis by auto
  qed
qed

section \<open>Witnesses\<close>

definition index_job :: "int \<Rightarrow> job_row" where
  "index_job n = leased_row ''w1'' n (seconds 60) 10 (new_job 94 (1, 2, 4) ST_INDEX 0 3 None 10)"

definition indexing_session :: "int \<Rightarrow> session" where
  "indexing_session n = published_session\<lparr>
     db_versions := [sample_version\<lparr>dv_state := INDEXING, dv_state_revision := 7, dv_page_count := Some 3\<rparr>],
     db_jobs := [index_job n],
     db_attempts := [\<lparr>ja_id = 96, ja_tenant_id = 1, ja_collection_id = 2, ja_job_id = 94,
       ja_attempt_number = n, ja_worker_id = ''w1'', ja_started_at = 10, ja_heartbeat_at = Some 10,
       ja_finished_at = None, ja_outcome = None, ja_error_class = None, ja_reason_code = None\<rparr>],
     db_events := sample_log 0 [RECEIVED, VALIDATING, QUEUED, PARSING, NORMALIZING, CHUNKING, EMBEDDING, INDEXING]\<rparr>"

definition sample_index_claim :: "int \<Rightarrow> ClaimedPublicationJob" where
  "sample_index_claim n = sample_embed_claim\<lparr>cl_id := 94, cl_attempt_number := n, cp_stage := ST_INDEX\<rparr>"

lemmas index_samples = index_job_def indexing_session_def sample_index_claim_def recovery_samples

lemma sample_begin:
  "\<exists>s'. begin_index_attempt (sample_index_claim 2) ''w1'' sample_target (\<lambda>n. word_of_nat (n + 100)) (indexing_session 2) = Inr s'"
  by (simp add: begin_index_attempt_def foreign_publication_def publication_group_def distinct_chunk_count_def
      new_publication_def new_search_target_def search_target_name_ok_def lower_alnum_def new_target_publication_def dict_put_def
      retire_prior_def enqueue_all_def enqueue_cleanup_def insert_search_cleanup_def cleanup_checks_def paired_attempt_def
      cleanup_target_key_def cleanup_scope_def job_ref_ok_def update_publications_def publication_checks_def not_before_def
      publication_unique_checks_def publication_external_key_def commit_eval index_samples)

theorem begin_index_attempt_effect_witness:
  "\<exists>s'. begin_index_attempt (sample_index_claim 2) ''w1'' sample_target (\<lambda>n. word_of_nat (n + 100)) (indexing_session 2) = Inr s'
    \<and> (\<exists>c \<in> set (db_search_cleanup s'). cleanup_target_key c = ((1, 2, 4), Some 4, Some 94, Some 1, ''atlas'', ''v1''))"
proof -
  from sample_begin obtain s' where b: "begin_index_attempt (sample_index_claim 2) ''w1'' sample_target
      (\<lambda>n. word_of_nat (n + 100)) (indexing_session 2) = Inr s'" by blast
  have c: "\<forall>p \<in> set (db_publications (indexing_session 2)). check_all (publication_checks p) = Inr ()"
    by (simp add: publication_checks_def check_all_Inr not_before_def paired_attempt_def index_samples)
  have p: "sample_publication PK_LEXICAL 77 ''l'' \<in> set (db_publications (indexing_session 2))"
    "foreign_publication (sample_index_claim 2) (sample_publication PK_LEXICAL 77 ''l'')"
    by (simp_all add: foreign_publication_def index_samples)
  from begin_index_attempt_effect [OF b c] p b show ?thesis by (auto simp: publication_group_def index_samples)
qed

lemma sample_evidence:
  "\<exists>ev. require_publication_evidence (sample_index_claim 1) sample_target (indexing_session 1) = Inr ev \<and> is_complete ev
     \<and> chunk_count ev = 1"
  by (simp add: require_publication_evidence_def publication_group_def is_complete_def artifacts_of_def manifest_for_def
      Let_def index_samples)

lemma indexing_session_ok:
  "embeddings_ok (indexing_session 1)" "single_embedding (indexing_session 1) (1, 2, 4)" "publications_ok (indexing_session 1)"
  "publications_unique (db_publications (indexing_session 1))" "version_keys_ok (indexing_session 1)" "audit_ok (indexing_session 1)"
proof -
  have "audit_trail (sample_log 0 [RECEIVED, VALIDATING, QUEUED, PARSING, NORMALIZING, CHUNKING, EMBEDDING, INDEXING]) 7 INDEXING"
    by (rule trail_from_audit) simp
  then show "audit_ok (indexing_session 1)"
    by (simp add: audit_ok_def events_of_def version_exists_def index_samples)
qed (simp_all add: embeddings_ok_def single_embedding_def publications_ok_def chunk_exists_def publications_unique_def
    publication_unique_checks_def publication_external_key_def publication_kind_key_def version_keys_ok_def index_samples)

theorem evidence_meets_trigger_witness:
  "enforce_ready_publication (indexing_session 1) (sample_version\<lparr>dv_state := READY\<rparr>) = Inr ()"
proof -
  from sample_evidence obtain ev where "require_publication_evidence (sample_index_claim 1) sample_target (indexing_session 1) = Inr ev"
    "is_complete ev" by blast
  then show ?thesis
    by (rule evidence_meets_trigger [OF _ _ indexing_session_ok(1) _ indexing_session_ok(3,4)])
       (use indexing_session_ok(2) in \<open>simp_all add: sample_index_claim_def sample_embed_claim_def chunking_samples\<close>)
qed

lemma sample_activation:
  "\<exists>s'. activation_transaction (sample_index_claim 1) ''w1'' sample_target 1 (\<lambda>n. word_of_nat (n + 100)) (indexing_session 1)
     = Inr ([], s')"
  by (simp add: activation_transaction_def lock_index_for_activation_def finalize_index_def enqueue_all_def
      require_publication_evidence_def publication_group_def is_complete_def manifest_for_def finish_lifecycle_request_def
      enforce_ready_publication_def ready_publication_ok_def chunk_embedded_def distinct_chunks_def commit_eval index_samples)

theorem activate_effect_witness:
  "\<exists>s' x' s1. activate sample_adapter (\<lambda>s. s) ''atlas'' ''v1'' 10 (seconds 60) 3 (sample_index_claim 1) ''w1'' 1
      (\<lambda>n. word_of_nat (n + 100)) (indexing_session 1) 0 = (Inr [], s', x')
    \<and> index_activated (sample_index_claim 1) sample_target [] (indexing_session 1) s1"
proof -
  let ?a = "activate sample_adapter (\<lambda>s. s) ''atlas'' ''v1'' 10 (seconds 60) 3 (sample_index_claim 1) ''w1'' 1
      (\<lambda>n. word_of_nat (n + 100)) (indexing_session 1) 0"
  have t: "new_search_target ''atlas'' ''v1'' = Inr sample_target"
    by (simp add: new_search_target_def search_target_name_ok_def lower_alnum_def sample_target_def)
  from sample_activation have "fst ?a = Inr []"
    by (auto simp: activate_def t transaction_def split: prod.splits)
  then obtain s' x' where a: "?a = (Inr [], s', x')" by (metis prod.collapse)
  from activate_effect [OF a] indexing_session_ok(5,6) t a show ?thesis by auto
qed

end
