(* ===== verification/Deletion_Repository.thy ===== *)
theory Deletion_Repository
  imports Recursive_Query Publication_Repository
begin

text \<open>
  \<open>lifecycle/deletion_repository.py\<close>, \<open>deletion_repository_support.py\<close>, \<open>deletion_cancellation.py\<close>
  and \<open>deletion_sql.py\<close>: the lease-fenced deletion of a version. The claim cancels competing work and
  makes the version deleted; batches of object keys are handed out only when nothing needs the
  objects any longer; the last batch removes the rows and closes the request. \<open>md5\<close>, the digest
  function of the database cast to a UUID, is an argument.
\<close>

section \<open>Statements\<close>

lemma update_rowsE:
  assumes "x \<in> set (update_rows p f xs)"
  obtains y where "y \<in> set xs" "x = (if p y then f y else y)"
  using assms unfolding update_rows_def set_map by blast

abbreviation days :: "int \<Rightarrow> timestamp" where
  "days n \<equiv> seconds (86400 * n)"

text \<open>\<open>INSERT INTO version_transition_events \<dots> ON CONFLICT ON CONSTRAINT
  uq_version_transition_idempotency DO NOTHING\<close>.\<close>

definition insert_event_once :: "event_row \<Rightarrow> session \<Rightarrow> session res" where
  "insert_event_once r s =
     bind_res (check_all (event_checks r)) (\<lambda>_.
       if event_idempotency r \<in> event_idempotency ` set (db_events s) then Inr s else insert_event r s)"

definition object_cleanup_key ::
  "object_cleanup_row \<Rightarrow> (uuid \<times> uuid \<times> uuid) \<times> uuid \<times> string" where
  "object_cleanup_key r =
     ((oc_tenant_id r, oc_collection_id r, oc_document_version_id r), oc_lifecycle_request_id r, oc_object_key r)"

definition object_cleanup_checks :: "object_cleanup_row \<Rightarrow> (string \<times> bool) list" where
  "object_cleanup_checks r =
     [(''ck_object_cleanup_state'', oc_state r \<in> {CL_PENDING, CL_DELETED}),
      (''ck_object_cleanup_attempts'', oc_attempt_count r \<ge> 0),
      (''ck_object_cleanup_deleted'', (oc_state r = CL_PENDING \<and> oc_deleted_at r = None)
         \<or> (oc_state r = CL_DELETED \<and> oc_deleted_at r \<noteq> None))]"

definition insert_object_cleanup :: "object_cleanup_row \<Rightarrow> session \<Rightarrow> session res" where
  "insert_object_cleanup r s =
     bind_res (check_all (object_cleanup_checks r)) (\<lambda>_.
       if object_cleanup_key r \<in> object_cleanup_key ` set (db_object_cleanup s) then Inr s
       else bind_res (check_all
         [(''object_cleanup_entries_pkey'', oc_id r \<notin> oc_id ` set (db_object_cleanup s)),
          (''fk_object_cleanup_version'', version_exists s (fst (object_cleanup_key r))),
          (''fk_object_cleanup_request'',
             request_exists s (oc_tenant_id r) (oc_collection_id r) (Some (oc_lifecycle_request_id r)))])
         (\<lambda>_. Inr (s\<lparr>db_object_cleanup := db_object_cleanup s @ [r]\<rparr>)))"

definition update_object_cleanup ::
  "(object_cleanup_row \<Rightarrow> bool) \<Rightarrow> (object_cleanup_row \<Rightarrow> object_cleanup_row) \<Rightarrow> session \<Rightarrow> session res" where
  "update_object_cleanup p f s =
     bind_res (map_res (\<lambda>r. check_all (object_cleanup_checks (f r))) (filter p (db_object_cleanup s)))
       (\<lambda>_. Inr (s\<lparr>db_object_cleanup := update_rows p f (db_object_cleanup s)\<rparr>))"

text \<open>\<open>DELETE FROM chunks\<close>: embeddings and publications of a chunk go with it (\<open>ON DELETE CASCADE\<close>).\<close>

definition delete_chunks :: "(chunk_row \<Rightarrow> bool) \<Rightarrow> session \<Rightarrow> session" where
  "delete_chunks p s =
     (let gone = filter p (db_chunks s)
      in s\<lparr>db_chunks := filter (\<lambda>c. \<not> p c) (db_chunks s),
           db_embeddings := filter (\<lambda>e. \<not> list_ex (\<lambda>c. chunk_scope c = embedding_scope e \<and> ck_id c = ce_chunk_id e) gone)
             (db_embeddings s),
           db_publications := filter (\<lambda>q. \<not> list_ex (\<lambda>c. chunk_scope c = publication_scope q \<and> ck_id c = ip_chunk_id q) gone)
             (db_publications s)\<rparr>)"

text \<open>\<open>DELETE FROM artifacts\<close>: the rows that stay may not refer to a row that goes (\<open>ON DELETE RESTRICT\<close>).\<close>

definition delete_artifacts :: "(artifact_row \<Rightarrow> bool) \<Rightarrow> session \<Rightarrow> session res" where
  "delete_artifacts p s =
     (let gone = filter p (db_artifacts s); rest = filter (\<lambda>a. \<not> p a) (db_artifacts s)
      in bind_res (check_all
           [(''fk_artifacts_source'', \<not> list_ex (\<lambda>a. list_ex (\<lambda>g. artifact_scope g = artifact_scope a
                \<and> af_source_artifact_id a = Some (af_id g)) gone) rest),
            (''fk_chunks_source_artifact'', \<not> list_ex (\<lambda>c. list_ex (\<lambda>g. artifact_scope g = chunk_scope c
                \<and> ck_source_artifact_id c = af_id g) gone) (db_chunks s))])
         (\<lambda>_. Inr (s\<lparr>db_artifacts := rest\<rparr>)))"

section \<open>Cancellation of competing work\<close>

text \<open>The version and what was reprocessed from it, directly or indirectly. A version refers to an
  older one, so the \<open>UNION ALL\<close> of the source ends and finds every version once.\<close>

definition reprocessed :: "version_row \<Rightarrow> version_row \<Rightarrow> bool" where
  "reprocessed parent child \<longleftrightarrow> dv_reprocessed_from_version_id child = Some (dv_id parent)"

definition affected_versions :: "uuid \<Rightarrow> uuid \<Rightarrow> session \<Rightarrow> version_row list" where
  "affected_versions tenant_id version_id s =
     with_recursive reprocessed (\<lambda>v. dv_id v = version_id)
       (filter (\<lambda>v. dv_tenant_id v = tenant_id) (db_versions s))"

definition descendant_versions :: "uuid \<Rightarrow> uuid \<Rightarrow> session \<Rightarrow> version_row list" where
  "descendant_versions tenant_id version_id s =
     with_recursive reprocessed (\<lambda>v. dv_reprocessed_from_version_id v = Some version_id)
       (filter (\<lambda>v. dv_tenant_id v = tenant_id) (db_versions s))"

definition competing_job :: "uuid \<Rightarrow> uuid \<Rightarrow> uuid \<Rightarrow> session \<Rightarrow> job_row \<Rightarrow> bool" where
  "competing_job tenant_id version_id deletion_job_id s j \<longleftrightarrow>
     ij_tenant_id j = tenant_id \<and> ij_document_version_id j \<in> dv_id ` set (affected_versions tenant_id version_id s)
     \<and> ij_id j \<noteq> deletion_job_id \<and> active_job_state (ij_state j)"

definition cancel_jobs_of_lineage :: "uuid \<Rightarrow> uuid \<Rightarrow> uuid \<Rightarrow> session \<Rightarrow> session res" where
  "cancel_jobs_of_lineage tenant_id version_id deletion_job_id s =
     (let p = competing_job tenant_id version_id deletion_job_id s; cancelled = filter p (db_jobs s)
      in bind_res (update_jobs p (\<lambda>j. j\<lparr>ij_state := JS_CANCELLED, ij_lease_owner := None,
             ij_lease_expires_at := None, ij_updated_at := now s\<rparr>) s) (\<lambda>s1.
         bind_res (update_attempts (\<lambda>a. ja_tenant_id a = tenant_id \<and> ja_finished_at a = None
               \<and> list_ex (\<lambda>j. ja_job_id a = ij_id j \<and> ja_attempt_number a = ij_attempt_count j) cancelled)
             (\<lambda>a. a\<lparr>ja_finished_at := Some (now s), ja_heartbeat_at := Some (now s),
                    ja_outcome := Some ''cancelled'', ja_reason_code := Some ''LIFECYCLE_DELETE_FENCE''\<rparr>) s1) (\<lambda>s2.
         update_requests (\<lambda>r. lr_state r \<in> {RS_PENDING, RS_RUNNING}
               \<and> list_ex (\<lambda>j. ij_lifecycle_request_id j = Some (lr_id r)) cancelled)
             (\<lambda>r. r\<lparr>lr_state := RS_FAILED, lr_completed_at := Some (now s)\<rparr>) s2)))"

definition fence_event :: "(string \<Rightarrow> uuid) \<Rightarrow> uuid \<Rightarrow> uuid \<Rightarrow> version_row \<Rightarrow> event_row" where
  "fence_event md5 tenant_id deletion_job_id v =
     \<lparr>ev_id = md5 (str_uuid deletion_job_id @ str_uuid (dv_id v)), ev_tenant_id = tenant_id,
      ev_collection_id = dv_collection_id v, ev_document_version_id = dv_id v,
      ev_idempotency_key = ''delete-fence:'' @ str_uuid deletion_job_id, ev_from_state = dv_state v,
      ev_to_state = CANCELLED, ev_from_revision = dv_state_revision v,
      ev_to_revision = dv_state_revision v + 1, ev_operation = ''cancel'', ev_actor_type = ''worker'',
      ev_actor_id = ''deletion-fence''\<rparr>"

definition cancel_descendants :: "(string \<Rightarrow> uuid) \<Rightarrow> uuid \<Rightarrow> uuid \<Rightarrow> uuid \<Rightarrow> session \<Rightarrow> session res" where
  "cancel_descendants md5 tenant_id version_id deletion_job_id s =
     (let candidates = filter (\<lambda>v. dv_id v \<in> dv_id ` set (descendant_versions tenant_id version_id s)
            \<and> dv_state v \<notin> {READY, READY_WITH_WARNINGS, DEDUPLICATED, REJECTED, FAILED, QUARANTINED,
                 SUPERSEDED, CANCELLED, DELETED}) (db_versions s)
      in bind_res (update_versions True (\<lambda>v. dv_id v \<in> dv_id ` set candidates)
             (\<lambda>v. v\<lparr>dv_state := CANCELLED, dv_state_revision := dv_state_revision v + 1,
                    dv_updated_at := now s\<rparr>) s) (\<lambda>(_, s1).
         fold_res (\<lambda>v. insert_event_once (fence_event md5 tenant_id deletion_job_id v)) candidates s1))"

definition cancel_competing_jobs :: "(string \<Rightarrow> uuid) \<Rightarrow> uuid \<Rightarrow> uuid \<Rightarrow> uuid \<Rightarrow> session \<Rightarrow> session res" where
  "cancel_competing_jobs md5 tenant_id version_id deletion_job_id s =
     bind_res (cancel_jobs_of_lineage tenant_id version_id deletion_job_id s)
       (cancel_descendants md5 tenant_id version_id deletion_job_id)"

section \<open>The claim\<close>

record ClaimedDeletion =
  cd_job_id :: uuid
  cd_tenant_id :: uuid
  cd_collection_id :: uuid
  cd_document_version_id :: uuid
  cd_request_id :: uuid
  cd_attempt_number :: int
  cd_physical_cleanup_due :: bool
  cd_object_keys :: "string list"
  cd_search_targets :: "SearchTarget list"

definition search_targets :: "uuid \<Rightarrow> uuid \<Rightarrow> session \<Rightarrow> SearchTarget list res" where
  "search_targets tenant_id version_id s =
     map_res (\<lambda>(n, v). new_search_target n v) (sort (remdups (
       [(ip_target_name p, ip_target_version p). p \<leftarrow> db_publications s,
          ip_tenant_id p = tenant_id \<and> ip_document_version_id p = version_id]
       @ [(n, v). j \<leftarrow> db_jobs s, ij_tenant_id j = tenant_id \<and> ij_document_version_id j = version_id,
            n \<leftarrow> option_rows (ij_publication_target_name j),
            v \<leftarrow> [case ij_publication_target_version j of None \<Rightarrow> ''None'' | Some v \<Rightarrow> v]])))"

definition deletion_claim_rows ::
  "uuid \<Rightarrow> uuid \<Rightarrow> uuid \<Rightarrow> session \<Rightarrow> (job_row \<times> version_row \<times> collection_row \<times> request_row) list" where
  "deletion_claim_rows tenant_id version_id job_id s =
     [(j, v, c, r). j \<leftarrow> db_jobs s,
        ij_id j = job_id \<and> ij_tenant_id j = tenant_id \<and> ij_document_version_id j = version_id
          \<and> ij_stage j = ST_DELETE,
        v \<leftarrow> db_versions s, version_scope v = job_scope j,
        c \<leftarrow> db_collections s, co_tenant_id c = dv_tenant_id v \<and> co_id c = dv_collection_id v,
        r \<leftarrow> db_requests s, lr_tenant_id r = ij_tenant_id j \<and> lr_collection_id r = ij_collection_id j
          \<and> Some (lr_id r) = ij_lifecycle_request_id j \<and> lr_document_version_id r = dv_id v
          \<and> lr_request_type r = ''delete'']"

text \<open>\<open>_active_lease\<close>: whether the lease is held; an attempt whose lease is over is closed.\<close>

definition active_lease :: "job_row \<Rightarrow> session \<Rightarrow> (bool \<times> session) res" where
  "active_lease row s =
     (case ij_lease_expires_at row of
        None \<Rightarrow> Inr (False, s)
      | Some e \<Rightarrow>
          if ij_state row \<notin> {JS_LEASED, JS_RUNNING} then Inr (False, s)
          else if e > now s then Inr (True, s)
          else bind_res (expire_attempt (ij_tenant_id row) (ij_id row) (ij_attempt_count row) s)
                 (\<lambda>s1. Inr (False, s1)))"

definition start_deletion_attempt ::
  "job_row \<Rightarrow> request_row \<Rightarrow> string \<Rightarrow> int \<Rightarrow> uuid \<Rightarrow> session \<Rightarrow> session res" where
  "start_deletion_attempt row request worker_id attempt_number attempt_id s =
     bind_res (update_jobs (\<lambda>j. ij_id j = ij_id row)
       (\<lambda>j. j\<lparr>ij_state := JS_RUNNING, ij_attempt_count := attempt_number, ij_lease_owner := Some worker_id,
              ij_lease_expires_at := Some (now s + seconds 300), ij_heartbeat_at := Some (now s),
              ij_retry_at := None, ij_updated_at := now s\<rparr>) s) (\<lambda>s1.
     bind_res (update_requests (\<lambda>r. lr_id r = lr_id request \<and> lr_state r = RS_PENDING)
       (\<lambda>r. r\<lparr>lr_state := RS_RUNNING\<rparr>) s1) (\<lambda>s2.
     insert_attempt
       \<lparr>ja_id = attempt_id, ja_tenant_id = ij_tenant_id row, ja_collection_id = ij_collection_id row,
        ja_job_id = ij_id row, ja_attempt_number = attempt_number, ja_worker_id = worker_id,
        ja_started_at = now s, ja_heartbeat_at = Some (now s), ja_finished_at = None,
        ja_outcome = None, ja_error_class = None, ja_reason_code = None\<rparr> s2))"

definition mark_search_revoked :: "ClaimedDeletion \<Rightarrow> session \<Rightarrow> session res" where
  "mark_search_revoked deletion s =
     update_publications (\<lambda>p. ip_tenant_id p = cd_tenant_id deletion
         \<and> ip_document_version_id p = cd_document_version_id deletion)
       (\<lambda>p. p\<lparr>ip_deleted_at := (case ip_deleted_at p of None \<Rightarrow> Some (now s) | Some t \<Rightarrow> Some t)\<rparr>) s"

text \<open>\<open>_mark_version_deleted\<close> reads state and revision of the row it is given.\<close>

definition mark_version_deleted ::
  "ClaimedDeletion \<Rightarrow> string \<Rightarrow> version_row \<Rightarrow> uuid \<Rightarrow> session \<Rightarrow> session res" where
  "mark_version_deleted deletion worker_id version event_id s =
     (if dv_state version = DELETED then Inr s
      else bind_res (update_versions True
             (\<lambda>v. dv_tenant_id v = cd_tenant_id deletion \<and> dv_id v = cd_document_version_id deletion
                \<and> dv_state_revision v = dv_state_revision version)
             (\<lambda>v. v\<lparr>dv_state := DELETED, dv_state_revision := dv_state_revision version + 1,
                    dv_updated_at := now s\<rparr>) s) (\<lambda>(_, s1).
           insert_event_once
             \<lparr>ev_id = event_id, ev_tenant_id = cd_tenant_id deletion, ev_collection_id = cd_collection_id deletion,
              ev_document_version_id = cd_document_version_id deletion,
              ev_idempotency_key = ''lifecycle:'' @ str_uuid (cd_request_id deletion) @ '':delete'',
              ev_from_state = dv_state version, ev_to_state = DELETED,
              ev_from_revision = dv_state_revision version, ev_to_revision = dv_state_revision version + 1,
              ev_operation = ''delete'', ev_actor_type = ''worker'', ev_actor_id = worker_id\<rparr> s1))"

definition complete_request :: "uuid \<Rightarrow> session \<Rightarrow> session res" where
  "complete_request request_id s =
     update_requests (\<lambda>r. lr_id r = request_id \<and> lr_state r \<noteq> RS_SUCCEEDED)
       (\<lambda>r. r\<lparr>lr_state := RS_SUCCEEDED, lr_completed_at := Some (now s)\<rparr>) s"

definition fail_deletion :: "job_row \<Rightarrow> request_row \<Rightarrow> session \<Rightarrow> session res" where
  "fail_deletion row request s =
     bind_res (update_jobs (\<lambda>j. ij_id j = ij_id row)
       (\<lambda>j. j\<lparr>ij_state := JS_DEAD_LETTERED, ij_terminal_reason_code := Some ''DELETE_RETRY_EXHAUSTED'',
              ij_lease_owner := None, ij_lease_expires_at := None, ij_updated_at := now s\<rparr>) s) (\<lambda>s1.
     update_requests (\<lambda>r. lr_id r = lr_id request \<and> lr_state r \<noteq> RS_SUCCEEDED)
       (\<lambda>r. r\<lparr>lr_state := RS_FAILED, lr_completed_at := Some (now s1)\<rparr>) s1)"

definition target_publication :: "SearchTarget \<Rightarrow> SearchTargetPublication" where
  "target_publication t =
     \<lparr>tp_target = t, tp_record_count = 1, tp_publication_job_id = None, tp_publication_attempt = None\<rparr>"

text \<open>The work of a granted claim, from the new attempt on.\<close>

definition start_deletion ::
  "(string \<Rightarrow> uuid) \<Rightarrow> job_row \<Rightarrow> version_row \<Rightarrow> request_row \<Rightarrow> string \<Rightarrow> (nat \<Rightarrow> uuid) \<Rightarrow> session
   \<Rightarrow> (ClaimedDeletion \<times> session) res" where
  "start_deletion md5 row version request worker_id u s =
     (let t = ij_tenant_id row; c = ij_collection_id row; v = ij_document_version_id row
      in bind_res (start_deletion_attempt row request worker_id (ij_attempt_count row + 1) (u 0) s) (\<lambda>s1.
         bind_res (cancel_competing_jobs md5 t v (ij_id row) s1) (\<lambda>s2.
         bind_res (search_targets t v s2) (\<lambda>targets.
         (let deletion = \<lparr>cd_job_id = ij_id row, cd_tenant_id = t, cd_collection_id = c,
                cd_document_version_id = v, cd_request_id = lr_id request,
                cd_attempt_number = ij_attempt_count row + 1, cd_physical_cleanup_due = False,
                cd_object_keys = [], cd_search_targets = targets\<rparr>
          in bind_res (enqueue_all t c v None (\<lambda>n. u (n + 2)) (map target_publication targets) s2) (\<lambda>s3.
             bind_res (mark_search_revoked deletion s3) (\<lambda>s4.
             bind_res (mark_version_deleted deletion worker_id version (u 1) s4) (\<lambda>s5.
             Inr (deletion, s5)))))))))"

definition deletion_claim ::
  "(string \<Rightarrow> uuid) \<Rightarrow> uuid \<Rightarrow> uuid \<Rightarrow> uuid \<Rightarrow> string \<Rightarrow> (nat \<Rightarrow> uuid) \<Rightarrow> session
   \<Rightarrow> (ClaimedDeletion option \<times> session) res" where
  "deletion_claim md5 tenant_id version_id job_id worker_id u s =
     bind_res (one_or_none (deletion_claim_rows tenant_id version_id job_id s)) (\<lambda>row_result.
     case row_result of
       None \<Rightarrow> Inl (ValueError ''deletion job identity is invalid'')
     | Some (row, version, _, request) \<Rightarrow>
         if ij_state row = JS_SUCCEEDED
         then bind_res (complete_request (lr_id request) s) (\<lambda>s1. Inr (None, s1))
         else if ij_state row \<in> {JS_CANCELLED, JS_FAILED, JS_DEAD_LETTERED} then Inr (None, s)
         else bind_res (active_lease row s) (\<lambda>(held, s1).
           if held then Inr (None, s1)
           else if ij_attempt_count row + 1 > ij_max_attempts row
           then bind_res (fail_deletion row request s1) (\<lambda>s2. Inr (None, s2))
           else bind_res (start_deletion md5 row version request worker_id u s1)
                  (\<lambda>(deletion, s2). Inr (Some deletion, s2))))"

section \<open>Batches of object keys\<close>

definition deletion_fence_rows ::
  "ClaimedDeletion \<Rightarrow> string \<Rightarrow> session \<Rightarrow> (version_row \<times> job_row \<times> collection_row) list" where
  "deletion_fence_rows deletion worker_id s =
     [(v, j, c). v \<leftarrow> db_versions s, j \<leftarrow> db_jobs s,
        ij_tenant_id j = dv_tenant_id v \<and> ij_document_version_id j = dv_id v \<and> ij_id j = cd_job_id deletion
          \<and> ij_tenant_id j = cd_tenant_id deletion \<and> owns_attempt j worker_id (cd_attempt_number deletion),
        c \<leftarrow> db_collections s, co_tenant_id c = dv_tenant_id v \<and> co_id c = dv_collection_id v]"

definition lock_deletion_fence ::
  "ClaimedDeletion \<Rightarrow> string \<Rightarrow> session \<Rightarrow> (version_row \<times> job_row \<times> collection_row) res" where
  "lock_deletion_fence deletion worker_id s =
     bind_res (one_or_none (deletion_fence_rows deletion worker_id s)) (\<lambda>row_result.
       case row_result of
         None \<Rightarrow> Inl (JobFenceLostError ''deletion job ownership was revoked'')
       | Some row \<Rightarrow> Inr row)"

definition search_cleanup_complete :: "ClaimedDeletion \<Rightarrow> string \<Rightarrow> session \<Rightarrow> bool res" where
  "search_cleanup_complete deletion worker_id s =
     bind_res (lock_deletion_fence deletion worker_id s) (\<lambda>_.
       Inr (\<not> list_ex (\<lambda>c. cleanup_scope c = (cd_tenant_id deletion, cd_collection_id deletion,
              cd_document_version_id deletion) \<and> sc_state c \<noteq> CL_DELETED) (db_search_cleanup s)))"

definition surviving_descendant :: "uuid \<Rightarrow> uuid \<Rightarrow> uuid \<Rightarrow> session \<Rightarrow> bool" where
  "surviving_descendant tenant_id collection_id version_id s \<longleftrightarrow>
     (let descendants = with_recursive reprocessed (\<lambda>v. dv_reprocessed_from_version_id v = Some version_id)
            (filter (\<lambda>v. dv_tenant_id v = tenant_id \<and> dv_collection_id v = collection_id) (db_versions s))
      in list_ex (\<lambda>v. dv_id v \<in> dv_id ` set descendants \<and> dv_state v \<noteq> DELETED) (db_versions s))"

definition retention_over :: "timestamp \<Rightarrow> collection_row \<Rightarrow> version_row \<Rightarrow> bool" where
  "retention_over t c v \<longleftrightarrow> t \<ge> dv_created_at v + days (co_retention_days c)"

definition deletion_cleanup_due :: "version_row \<Rightarrow> job_row \<Rightarrow> collection_row \<Rightarrow> session \<Rightarrow> bool" where
  "deletion_cleanup_due version row collection s \<longleftrightarrow>
     (if surviving_descendant (ij_tenant_id row) (ij_collection_id row) (ij_document_version_id row) s then False
      else \<not> co_legal_hold collection \<and> retention_over (now s) collection version)"

definition artifact_retained :: "timestamp \<Rightarrow> artifact_row \<Rightarrow> bool" where
  "artifact_retained t a \<longleftrightarrow> (case af_retention_until a of None \<Rightarrow> False | Some r \<Rightarrow> r > t)"

text \<open>The artifacts under retention and, recursively, what they were derived from.\<close>

definition derived_from :: "artifact_row \<Rightarrow> artifact_row \<Rightarrow> bool" where
  "derived_from child parent \<longleftrightarrow> af_source_artifact_id child = Some (af_id parent)"

definition retained_artifacts :: "uuid \<Rightarrow> uuid \<Rightarrow> uuid option \<Rightarrow> session \<Rightarrow> artifact_row list" where
  "retained_artifacts tenant_id version_id collection_id s =
     with_recursive derived_from (artifact_retained (now s))
       (filter (\<lambda>a. af_tenant_id a = tenant_id \<and> af_document_version_id a = version_id
           \<and> (case collection_id of None \<Rightarrow> True | Some c \<Rightarrow> af_collection_id a = c)) (db_artifacts s))"

text \<open>Whether another version still needs the object of a key.\<close>

definition needed_elsewhere :: "uuid \<Rightarrow> uuid \<Rightarrow> string \<Rightarrow> session \<Rightarrow> bool" where
  "needed_elsewhere tenant_id version_id key s \<longleftrightarrow>
     list_ex (\<lambda>v. dv_tenant_id v = tenant_id \<and> dv_id v \<noteq> version_id \<and> dv_object_key v = key
       \<and> list_ex (\<lambda>c. co_tenant_id c = dv_tenant_id v \<and> co_id c = dv_collection_id v
            \<and> (dv_state v \<noteq> DELETED \<or> co_legal_hold c \<or> now s < dv_created_at v + days (co_retention_days c)
               \<or> list_ex (\<lambda>a. af_tenant_id a = dv_tenant_id v \<and> af_document_version_id a = dv_id v
                    \<and> af_object_key a = key \<and> artifact_retained (now s) a) (db_artifacts s)))
         (db_collections s)) (db_versions s)"

definition cleanup_candidates :: "uuid \<Rightarrow> uuid \<Rightarrow> uuid \<Rightarrow> string \<Rightarrow> session \<Rightarrow> string list" where
  "cleanup_candidates tenant_id collection_id version_id original_key s =
     (let own = filter (\<lambda>a. af_tenant_id a = tenant_id \<and> af_document_version_id a = version_id) (db_artifacts s);
          candidates = remdups (map af_object_key (filter (\<lambda>a. \<not> artifact_retained (now s) a) own)
            @ (if list_ex (\<lambda>a. af_object_key a = original_key \<and> artifact_retained (now s) a) own then []
               else [original_key]))
      in filter (\<lambda>k. k \<notin> af_object_key ` set (retained_artifacts tenant_id version_id (Some collection_id) s)
            \<and> \<not> needed_elsewhere tenant_id version_id k s) candidates)"

definition new_object_cleanup ::
  "(string \<Rightarrow> uuid) \<Rightarrow> uuid \<times> uuid \<times> uuid \<Rightarrow> uuid \<Rightarrow> string \<Rightarrow> object_cleanup_row" where
  "new_object_cleanup md5 scope request_id key =
     \<lparr>oc_id = md5 (str_uuid request_id @ key), oc_tenant_id = fst scope, oc_collection_id = fst (snd scope),
      oc_document_version_id = snd (snd scope), oc_lifecycle_request_id = request_id, oc_object_key = key,
      oc_state = CL_PENDING, oc_attempt_count = 0, oc_deleted_at = None\<rparr>"

text \<open>The request of the job is \<open>NULL\<close> for no job the claim accepts; a \<open>NULL\<close> violates the column.\<close>

definition initialize_cleanup_ledger ::
  "(string \<Rightarrow> uuid) \<Rightarrow> version_row \<Rightarrow> job_row \<Rightarrow> session \<Rightarrow> session res" where
  "initialize_cleanup_ledger md5 version row s =
     (let (t, c, v) = job_scope row; keys = cleanup_candidates t c v (dv_object_key version) s
      in case ij_lifecycle_request_id row of
           None \<Rightarrow> if keys = [] then Inr s else Inl (IntegrityError ''object_cleanup_entries_lifecycle_request_id'')
         | Some request_id \<Rightarrow>
             fold_res (\<lambda>k. insert_object_cleanup (new_object_cleanup md5 (t, c, v) request_id k)) keys s)"

text \<open>The keys that are pending and not retained, in the order of the query.\<close>

definition eligible_keys :: "uuid \<Rightarrow> uuid \<Rightarrow> session \<Rightarrow> string list" where
  "eligible_keys tenant_id version_id s =
     sort (remdups (map oc_object_key (filter (\<lambda>r. oc_tenant_id r = tenant_id
        \<and> oc_document_version_id r = version_id \<and> oc_state r = CL_PENDING
        \<and> oc_object_key r \<notin> af_object_key ` set (retained_artifacts tenant_id version_id None s))
       (db_object_cleanup s))))"

text \<open>The recheck of locked candidates, and the count of what is left.\<close>

definition recheck_keys :: "uuid \<Rightarrow> uuid \<Rightarrow> string list \<Rightarrow> session \<Rightarrow> string list" where
  "recheck_keys tenant_id version_id object_keys s =
     filter (\<lambda>k. k \<in> set object_keys) (eligible_keys tenant_id version_id s)"

definition eligible_pending_count :: "uuid \<Rightarrow> uuid \<Rightarrow> session \<Rightarrow> nat" where
  "eligible_pending_count tenant_id version_id s = length (eligible_keys tenant_id version_id s)"

definition pending_keys_for_deletion :: "ClaimedDeletion \<Rightarrow> int \<Rightarrow> session \<Rightarrow> string list res" where
  "pending_keys_for_deletion deletion limit s =
     (let t = cd_tenant_id deletion; v = cd_document_version_id deletion
      in if limit < 0 then Inl (DatabaseError ''LIMIT must not be negative'')
         else (let candidates = take (nat limit) (eligible_keys t v s)
               in if candidates = [] then Inr []
                  else Inr (recheck_keys t v candidates s)))"

definition next_batch ::
  "(string \<Rightarrow> uuid) \<Rightarrow> ClaimedDeletion \<Rightarrow> string \<Rightarrow> int \<Rightarrow> session \<Rightarrow> (ClaimedDeletion \<times> session) res" where
  "next_batch md5 deletion worker_id key_limit s =
     bind_res (lock_deletion_fence deletion worker_id s) (\<lambda>(version, row, collection).
       if deletion_cleanup_due version row collection s
       then bind_res (initialize_cleanup_ledger md5 version row s) (\<lambda>s1.
            bind_res (pending_keys_for_deletion deletion key_limit s1) (\<lambda>keys.
            Inr (deletion\<lparr>cd_physical_cleanup_due := True, cd_object_keys := keys\<rparr>, s1)))
       else Inr (deletion\<lparr>cd_physical_cleanup_due := False, cd_object_keys := []\<rparr>, s))"

lemma eligible_pending_count_pos [simp]:
  "eligible_pending_count t v s > 0 \<longleftrightarrow> eligible_keys t v s \<noteq> []"
  by (simp add: eligible_pending_count_def)

definition finish_deletion_attempt ::
  "ClaimedDeletion \<Rightarrow> string \<Rightarrow> string option \<Rightarrow> session \<Rightarrow> session res" where
  "finish_deletion_attempt deletion outcome reason_code =
     close_attempts (\<lambda>a. ja_tenant_id a = cd_tenant_id deletion \<and> ja_job_id a = cd_job_id deletion
         \<and> ja_attempt_number a = cd_attempt_number deletion)
       outcome (case reason_code of None \<Rightarrow> None | Some _ \<Rightarrow> Some ''dependency'') reason_code"

definition mark_keys_deleted :: "ClaimedDeletion \<Rightarrow> session \<Rightarrow> session res" where
  "mark_keys_deleted deletion s =
     (if cd_object_keys deletion = [] then Inr s
      else update_object_cleanup (\<lambda>r. oc_tenant_id r = cd_tenant_id deletion
             \<and> oc_document_version_id r = cd_document_version_id deletion
             \<and> oc_object_key r \<in> set (cd_object_keys deletion) \<and> oc_state r = CL_PENDING)
           (\<lambda>r. r\<lparr>oc_state := CL_DELETED, oc_deleted_at := Some (now s),
                  oc_attempt_count := oc_attempt_count r + 1\<rparr>) s)"

definition delete_version_rows :: "ClaimedDeletion \<Rightarrow> session \<Rightarrow> session res" where
  "delete_version_rows deletion s =
     (let t = cd_tenant_id deletion; v = cd_document_version_id deletion
      in delete_artifacts (\<lambda>a. af_tenant_id a = t \<and> af_document_version_id a = v
             \<and> list_ex (\<lambda>r. oc_tenant_id r = t \<and> oc_document_version_id r = v
                  \<and> oc_object_key r = af_object_key a \<and> oc_state r = CL_DELETED) (db_object_cleanup s))
           (delete_chunks (\<lambda>c. ck_tenant_id c = t \<and> ck_document_version_id c = v) s))"

definition finish_deletion :: "ClaimedDeletion \<Rightarrow> string \<Rightarrow> session \<Rightarrow> session res" where
  "finish_deletion deletion worker_id s =
     bind_res (finish_deletion_attempt deletion ''succeeded'' None s) (\<lambda>s1.
     bind_res (complete_request (cd_request_id deletion) s1) (\<lambda>s2.
     update_jobs (\<lambda>j. ij_id j = cd_job_id deletion \<and> ij_state j = JS_RUNNING \<and> ij_lease_owner j = Some worker_id)
       (\<lambda>j. j\<lparr>ij_state := JS_SUCCEEDED, ij_lease_owner := None, ij_lease_expires_at := None,
              ij_heartbeat_at := Some (now s2), ij_updated_at := now s2\<rparr>) s2))"

definition complete_batch ::
  "ClaimedDeletion \<Rightarrow> string \<Rightarrow> uuid \<Rightarrow> session \<Rightarrow> (bool \<times> session) res" where
  "complete_batch deletion worker_id event_id s =
     bind_res (lock_deletion_fence deletion worker_id s) (\<lambda>(version, _, _).
     bind_res (mark_keys_deleted deletion s) (\<lambda>s1.
     bind_res (mark_search_revoked deletion s1) (\<lambda>s2.
     bind_res (mark_version_deleted deletion worker_id version event_id s2) (\<lambda>s3.
       if cd_physical_cleanup_due deletion
          \<and> eligible_pending_count (cd_tenant_id deletion) (cd_document_version_id deletion) s3 > 0
       then Inr (True, s3)
       else bind_res (if cd_physical_cleanup_due deletion then delete_version_rows deletion s3 else Inr s3) (\<lambda>s4.
            bind_res (finish_deletion deletion worker_id s4) (\<lambda>s5. Inr (False, s5)))))))"

definition schedule_deletion_retry ::
  "ClaimedDeletion \<Rightarrow> string \<Rightarrow> string \<Rightarrow> int \<Rightarrow> session \<Rightarrow> session res" where
  "schedule_deletion_retry deletion worker_id reason_code delay_seconds s =
     bind_res (lock_deletion_fence deletion worker_id s) (\<lambda>_.
     bind_res (finish_deletion_attempt deletion ''retryable_failure'' (Some reason_code) s) (\<lambda>s1.
     update_jobs (\<lambda>j. ij_id j = cd_job_id deletion \<and> ij_state j = JS_RUNNING \<and> ij_lease_owner j = Some worker_id)
       (\<lambda>j. j\<lparr>ij_state := JS_RETRY_SCHEDULED, ij_retry_at := Some (now s1 + seconds delay_seconds),
              ij_terminal_reason_code := Some reason_code, ij_lease_owner := None,
              ij_lease_expires_at := None, ij_updated_at := now s1\<rparr>) s1))"

end
