(* ===== verification/Deletion_Claim.thy ===== *)
theory Deletion_Claim
  imports Deletion_Repository
begin

text \<open>
  What a claim of a deletion job does: one worker at a time, every other unit of work on the version
  and on what was reprocessed from it ended, the version deleted with its audit trail intact, and
  its search records queued for removal.
\<close>

section \<open>Recording transitions of several versions\<close>

lemma insert_event_once_new:
  assumes "insert_event_once e s = Inr s'" and "event_idempotency e \<notin> event_idempotency ` set (db_events s)"
  shows "s' = s\<lparr>db_events := db_events s @ [e]\<rparr>"
  using assms by (auto simp: insert_event_once_def bind_res_eq_Inr dest: insert_event_Inr)

lemma insert_events_once:
  assumes "fold_res (\<lambda>v. insert_event_once (ev v)) vs s = Inr s'" and "distinct (map (event_idempotency \<circ> ev) vs)"
    and "\<And>v. v \<in> set vs \<Longrightarrow> event_idempotency (ev v) \<notin> event_idempotency ` set (db_events s)"
  shows "s' = s\<lparr>db_events := db_events s @ map ev vs\<rparr>"
  using assms
proof (induction vs arbitrary: s)
  case (Cons v vs)
  from Cons.prems(1) obtain s1 where s1: "insert_event_once (ev v) s = Inr s1"
    and rest: "fold_res (\<lambda>v. insert_event_once (ev v)) vs s1 = Inr s'"
    by (auto elim: bind_res_InrE)
  from insert_event_once_new [OF s1] Cons.prems(3) have eq: "s1 = s\<lparr>db_events := db_events s @ [ev v]\<rparr>" by simp
  have "s' = s1\<lparr>db_events := db_events s1 @ map ev vs\<rparr>"
    using Cons.prems(2,3) by (intro Cons.IH [OF rest]) (auto simp: eq image_iff)
  then show ?case by (simp add: eq)
qed simp

text \<open>Each of some versions moves once and each move has its event: the trails stay intact.\<close>

definition moved :: "version_row list \<Rightarrow> (version_row \<Rightarrow> version_row) \<Rightarrow> (version_row \<Rightarrow> event_row) \<Rightarrow> session \<Rightarrow> session" where
  "moved vs g ev s = s\<lparr>db_versions := update_rows (\<lambda>v. dv_id v \<in> dv_id ` set vs) g (db_versions s),
     db_events := db_events s @ map ev vs\<rparr>"

lemma moved_audit:
  assumes keys: "version_keys_ok s" and audit: "audit_ok s"
    and vs: "set vs \<subseteq> set (db_versions s)" "distinct (map dv_id vs)"
    and same: "\<And>v. version_scope (g v) = version_scope v"
    and ev: "\<And>v. v \<in> set vs \<Longrightarrow> event_scope (ev v) = version_scope v \<and> ev_from_state (ev v) = dv_state v
      \<and> ev_to_state (ev v) = dv_state (g v) \<and> ev_from_revision (ev v) = dv_state_revision v
      \<and> ev_to_revision (ev v) = dv_state_revision v + 1 \<and> dv_state_revision (g v) = dv_state_revision v + 1"
  shows "audit_ok (moved vs g ev s) \<and> version_keys_ok (moved vs g ev s)
    \<and> map version_scope (db_versions (moved vs g ev s)) = map version_scope (db_versions s)"
proof -
  let ?s = "moved vs g ev s"
  have uniq: "v = w" if "v \<in> set (db_versions s)" "w \<in> set (db_versions s)" "dv_id v = dv_id w" for v w
    using distinct_map_inj_rows [OF keys [unfolded version_keys_ok_def]] that .
  have scopes: "map version_scope (db_versions ?s) = map version_scope (db_versions s)"
    unfolding moved_def using map_update_rows [of _ version_scope g] same by simp
  have ids: "map dv_id (db_versions ?s) = map dv_id (db_versions s)"
    unfolding moved_def using map_update_rows [of _ dv_id g] same by simp
  have own: "filter (\<lambda>e. event_scope e = version_scope v) (map ev vs) = (if dv_id v \<in> dv_id ` set vs then [ev v] else [])"
    if v: "v \<in> set (db_versions s)" for v
  proof -
    have "event_scope (ev w) = version_scope v \<longleftrightarrow> w = v" if "w \<in> set vs" for w
      using ev [OF that] uniq [of w v] vs(1) v that by auto
    then have "filter (\<lambda>e. event_scope e = version_scope v) (map ev vs) = map ev (filter (\<lambda>w. w = v) vs)"
      by (simp add: filter_map o_def cong: filter_cong)
    also have "filter (\<lambda>w. w = v) vs = (if v \<in> set vs then [v] else [])"
    proof (cases "v \<in> set vs")
      case True
      have "filter (\<lambda>w. dv_id w = dv_id v) vs = filter (\<lambda>w. w = v) vs"
        using uniq vs(1) v by (intro filter_cong) auto
      with filter_key_unique [OF vs(2) True] True show ?thesis by simp
    qed (auto simp: filter_empty_conv)
    also have "v \<in> set vs \<longleftrightarrow> dv_id v \<in> dv_id ` set vs"
      using uniq vs(1) v by auto
    finally show ?thesis by simp
  qed
  have split: "events_of ?s k = events_of s k @ filter (\<lambda>e. event_scope e = k) (map ev vs)" for k
    by (simp add: moved_def events_of_def)
  have trail: "audit_trail (events_of ?s (version_scope w)) (dv_state_revision w) (dv_state w)"
    if "w \<in> set (db_versions ?s)" for w
  proof -
    from that obtain v where v: "v \<in> set (db_versions s)" "w = (if dv_id v \<in> dv_id ` set vs then g v else v)"
      unfolding moved_def by (auto simp: update_rows_def)
    from v have sc: "version_scope w = version_scope v" using same by simp
    have evs: "events_of ?s (version_scope w) = events_of s (version_scope v)
        @ (if dv_id v \<in> dv_id ` set vs then [ev v] else [])"
      unfolding sc split own [OF v(1)] ..
    have old: "audit_trail (events_of s (version_scope v)) (dv_state_revision v) (dv_state v)"
      using audit v(1) by (simp add: audit_ok_def)
    show ?thesis
    proof (cases "dv_id v \<in> dv_id ` set vs")
      case True
      then have "v \<in> set vs" using uniq vs(1) v(1) by auto
      with ev audit_trail_snoc [OF old, of "ev v"] True v(2) evs show ?thesis by simp
    next
      case False
      with old v(2) evs show ?thesis by simp
    qed
  qed
  have "version_exists ?s (event_scope e)" if "e \<in> set (db_events ?s)" for e
  proof -
    have "event_scope e \<in> set (map version_scope (db_versions s))"
    proof (cases "e \<in> set (db_events s)")
      case True
      then show ?thesis using audit unfolding audit_ok_def version_exists_iff by blast
    next
      case False
      with that obtain v where "v \<in> set vs" "e = ev v" by (auto simp: moved_def)
      then show ?thesis using ev vs(1) by auto
    qed
    then show ?thesis unfolding version_exists_iff scopes .
  qed
  with trail ids keys scopes show ?thesis by (simp add: audit_ok_def version_keys_ok_def)
qed

section \<open>The lineage of a version\<close>

text \<open>A reprocessed version has a higher number than its source: \<open>create_reprocessed_version\<close> takes
  the next number of the document, and neither can change later.\<close>

definition lineage_ok :: "session \<Rightarrow> bool" where
  "lineage_ok s \<longleftrightarrow> (\<forall>p \<in> set (db_versions s). \<forall>c \<in> set (db_versions s).
     reprocessed p c \<longrightarrow> dv_version_number p < dv_version_number c)"

definition lineage_key :: "version_row \<Rightarrow> uuid \<times> uuid \<times> uuid option" where
  "lineage_key v = (dv_id v, dv_tenant_id v, dv_reprocessed_from_version_id v)"

lemma lineage_query_ids:
  assumes "map lineage_key (db_versions s) = map lineage_key (db_versions s')"
  shows "dv_id ` set (affected_versions t v s) = dv_id ` set (affected_versions t v s')"
    and "dv_id ` set (descendant_versions t v s) = dv_id ` set (descendant_versions t v s')"
proof -
  have ids: "dv_id ` S = fst ` (lineage_key ` S)" for S
    by (simp add: image_image lineage_key_def)
  have table: "lineage_key ` set (filter (\<lambda>v. dv_tenant_id v = t) (db_versions r))
      = {x \<in> set (map lineage_key (db_versions r)). fst (snd x) = t}" for r
    by (auto simp: lineage_key_def)
  have joins: "reprocessed w r = (snd (snd (lineage_key r)) = Some (fst (lineage_key w)))" for w r
    by (simp add: reprocessed_def lineage_key_def)
  have a: "(dv_id w = v) = (fst (lineage_key w) = v)"
    and b: "(dv_reprocessed_from_version_id w = Some v) = (snd (snd (lineage_key w)) = Some v)" for w
    by (simp_all add: lineage_key_def)
  show "dv_id ` set (affected_versions t v s) = dv_id ` set (affected_versions t v s')"
    unfolding affected_versions_def set_with_recursive ids
      reached_abstract [of "\<lambda>w. dv_id w = v" "\<lambda>x. fst x = v" lineage_key reprocessed, OF a joins] table assms ..
  show "dv_id ` set (descendant_versions t v s) = dv_id ` set (descendant_versions t v s')"
    unfolding descendant_versions_def set_with_recursive ids
      reached_abstract [of "\<lambda>w. dv_reprocessed_from_version_id w = Some v" "\<lambda>x. snd (snd x) = Some v"
        lineage_key reprocessed, OF b joins] table assms ..
qed

lemma descendant_in_versions:
  "w \<in> set (descendant_versions t v s) \<Longrightarrow> w \<in> set (db_versions s) \<and> dv_tenant_id w = t"
  unfolding descendant_versions_def using with_recursive_subset by fastforce

lemma descendant_number:
  assumes "w \<in> set (descendant_versions t i s)" and "lineage_ok s" and "v \<in> set (db_versions s)" and "dv_id v = i"
  shows "dv_version_number v < dv_version_number w"
proof -
  from assms(1) have "reached reprocessed (\<lambda>w. dv_reprocessed_from_version_id w = Some i)
      (set (filter (\<lambda>w. dv_tenant_id w = t) (db_versions s))) w"
    by (simp add: descendant_versions_def with_recursive_iff)
  then show ?thesis
  proof induction
    case (base w)
    then show ?case using assms(2-4) by (auto simp: lineage_ok_def reprocessed_def)
  next
    case (step x w)
    from reached_in_table [OF step(1)] have "x \<in> set (db_versions s)" by simp
    with step have "dv_version_number x < dv_version_number w"
      using assms(2) by (auto simp: lineage_ok_def)
    with step show ?case by simp
  qed
qed

lemma not_own_descendant:
  assumes "lineage_ok s" and "version_keys_ok s" and "v \<in> set (db_versions s)"
  shows "dv_id v \<notin> dv_id ` set (descendant_versions t (dv_id v) s)"
proof
  assume "dv_id v \<in> dv_id ` set (descendant_versions t (dv_id v) s)"
  then obtain w where w: "w \<in> set (descendant_versions t (dv_id v) s)" "dv_id w = dv_id v" by auto
  have "w = v"
    using descendant_in_versions [OF w(1)] w(2) assms(3)
    by (intro distinct_map_inj_rows [OF assms(2) [unfolded version_keys_ok_def]]) simp_all
  with descendant_number [OF w(1) assms(1,3) refl] show False by simp
qed

section \<open>Cancelling descendants\<close>

lemma terminal_listed:
  "{READY, READY_WITH_WARNINGS, DEDUPLICATED, REJECTED, FAILED, QUARANTINED, SUPERSEDED, CANCELLED, DELETED} = TERMINAL_STATES"
  by (auto simp: TERMINAL_STATES_def)

text \<open>The events a deletion writes belong to versions it has already ended.\<close>

definition deletion_events_ok :: "uuid \<Rightarrow> uuid \<Rightarrow> session \<Rightarrow> bool" where
  "deletion_events_ok job_id request_id s \<longleftrightarrow>
     (\<forall>e \<in> set (db_events s). \<forall>w \<in> set (db_versions s). event_scope e = version_scope w \<longrightarrow>
        (ev_idempotency_key e = ''delete-fence:'' @ str_uuid job_id \<longrightarrow> dv_state w \<in> TERMINAL_STATES)
        \<and> (ev_idempotency_key e = ''lifecycle:'' @ str_uuid request_id @ '':delete'' \<longrightarrow> dv_state w = DELETED))"

definition cancelled_row :: "timestamp \<Rightarrow> version_row \<Rightarrow> version_row" where
  "cancelled_row t v = v\<lparr>dv_state := CANCELLED, dv_state_revision := dv_state_revision v + 1, dv_updated_at := t\<rparr>"

definition unfinished_descendants :: "uuid \<Rightarrow> uuid \<Rightarrow> session \<Rightarrow> version_row list" where
  "unfinished_descendants t v s = filter (\<lambda>w. dv_id w \<in> dv_id ` set (descendant_versions t v s)
     \<and> dv_state w \<notin> TERMINAL_STATES) (db_versions s)"

lemma unfinished_descendant:
  assumes "version_keys_ok s" and "w \<in> set (unfinished_descendants t v s)"
  shows "w \<in> set (db_versions s)" and "w \<in> set (descendant_versions t v s)" and "dv_tenant_id w = t"
    and "dv_state w \<notin> TERMINAL_STATES"
proof -
  from assms(2) obtain x where x: "w \<in> set (db_versions s)" "x \<in> set (descendant_versions t v s)" "dv_id w = dv_id x"
    "dv_state w \<notin> TERMINAL_STATES" by (auto simp: unfinished_descendants_def)
  have "w = x"
    using x descendant_in_versions [OF x(2)]
    by (intro distinct_map_inj_rows [OF assms(1) [unfolded version_keys_ok_def]]) simp_all
  with x descendant_in_versions [OF x(2)] show "w \<in> set (db_versions s)" "w \<in> set (descendant_versions t v s)"
    "dv_tenant_id w = t" "dv_state w \<notin> TERMINAL_STATES" by simp_all
qed

lemma cancel_descendants_Inr:
  assumes "cancel_descendants md5 t v i s = Inr s'" and keys: "version_keys_ok s" and audit: "audit_ok s"
    and ok: "deletion_events_ok i q s"
  shows "s' = moved (unfinished_descendants t v s) (cancelled_row (now s)) (fence_event md5 t i) s
    \<and> audit_ok s' \<and> version_keys_ok s'
    \<and> map version_scope (db_versions s') = map version_scope (db_versions s)"
proof -
  let ?vs = "unfinished_descendants t v s" and ?g = "cancelled_row (now s)" and ?ev = "fence_event md5 t i"
  from assms(1) obtain rows s1 where u: "update_versions True (\<lambda>w. dv_id w \<in> dv_id ` set ?vs) ?g s = Inr (rows, s1)"
    and f: "fold_res (\<lambda>w. insert_event_once (?ev w)) ?vs s1 = Inr s'"
    unfolding cancel_descendants_def Let_def terminal_listed unfinished_descendants_def cancelled_row_def
    by (elim bind_res_pairE)
  have s1: "s1 = s\<lparr>db_versions := update_rows (\<lambda>w. dv_id w \<in> dv_id ` set ?vs) ?g (db_versions s)\<rparr>"
    using u unfolding update_versions_Inr by (elim conjE)
  have d: "distinct (map dv_id ?vs)"
    using keys by (simp add: unfinished_descendants_def version_keys_ok_def distinct_map_filter)
  have sc: "event_scope (?ev w) = version_scope w" if "w \<in> set ?vs" for w
    using unfinished_descendant [OF keys that] by (simp add: fence_event_def)
  have "map (event_idempotency \<circ> ?ev) ?vs = map (\<lambda>w. (version_scope w, ''delete-fence:'' @ str_uuid i)) ?vs"
    using sc by (simp add: event_idempotency_def fence_event_def)
  moreover have "distinct (map (\<lambda>w. (version_scope w, ''delete-fence:'' @ str_uuid i)) ?vs)"
    using d by (auto simp: distinct_map inj_on_def)
  ultimately have di: "distinct (map (event_idempotency \<circ> ?ev) ?vs)" by (simp only:)
  have "event_idempotency (?ev w) \<notin> event_idempotency ` set (db_events s1)" if w: "w \<in> set ?vs" for w
  proof
    assume "event_idempotency (?ev w) \<in> event_idempotency ` set (db_events s1)"
    then obtain e where e: "e \<in> set (db_events s)" "event_idempotency e = event_idempotency (?ev w)"
      by (auto simp: s1)
    then have "event_scope e = version_scope w" "ev_idempotency_key e = ''delete-fence:'' @ str_uuid i"
      using sc [OF w] by (simp_all add: event_idempotency_def fence_event_def)
    with ok e(1) unfinished_descendant [OF keys w] show False
      unfolding deletion_events_ok_def by blast
  qed
  from insert_events_once [OF f di this] have s': "s' = moved ?vs ?g ?ev s"
    by (simp add: s1 moved_def)
  have "audit_ok (moved ?vs ?g ?ev s) \<and> version_keys_ok (moved ?vs ?g ?ev s)
    \<and> map version_scope (db_versions (moved ?vs ?g ?ev s)) = map version_scope (db_versions s)"
    using sc unfinished_descendant [OF keys]
    by (intro moved_audit [OF keys audit] d) (auto simp: cancelled_row_def fence_event_def)
  with s' show ?thesis by simp
qed

section \<open>The statements of a claim\<close>

lemma start_deletion_attempt_Inr:
  assumes "start_deletion_attempt row request worker n aid s = Inr s'"
  shows "\<exists>rs as. s' = s\<lparr>db_jobs := update_rows (\<lambda>j. ij_id j = ij_id row) (leased_row worker n (seconds 300) (now s)) (db_jobs s),
      db_requests := rs, db_attempts := as\<rparr>"
proof -
  from assms obtain s1 s2 where
    a: "update_jobs (\<lambda>j. ij_id j = ij_id row) (leased_row worker n (seconds 300) (now s)) s = Inr s1"
    and b: "update_requests (\<lambda>r. lr_id r = lr_id request \<and> lr_state r = RS_PENDING) (\<lambda>r. r\<lparr>lr_state := RS_RUNNING\<rparr>) s1 = Inr s2"
    and c: "insert_attempt
       \<lparr>ja_id = aid, ja_tenant_id = ij_tenant_id row, ja_collection_id = ij_collection_id row,
        ja_job_id = ij_id row, ja_attempt_number = n, ja_worker_id = worker,
        ja_started_at = now s, ja_heartbeat_at = Some (now s), ja_finished_at = None,
        ja_outcome = None, ja_error_class = None, ja_reason_code = None\<rparr> s2 = Inr s'"
    unfolding start_deletion_attempt_def by (elim bind_res_InrE)
  from a have "s1 = s\<lparr>db_jobs := update_rows (\<lambda>j. ij_id j = ij_id row) (leased_row worker n (seconds 300) (now s)) (db_jobs s)\<rparr>"
    unfolding update_jobs_Inr by (elim conjE)
  moreover from b obtain rs where "s2 = s1\<lparr>db_requests := rs\<rparr>"
    unfolding update_requests_Inr by (elim conjE) blast
  ultimately show ?thesis
    using insert_attempt_Inr [OF c] by (intro exI) simp
qed

definition cancelled_job :: "timestamp \<Rightarrow> job_row \<Rightarrow> job_row" where
  "cancelled_job t j = j\<lparr>ij_state := JS_CANCELLED, ij_lease_owner := None, ij_lease_expires_at := None,
     ij_updated_at := t\<rparr>"

lemma cancel_jobs_of_lineage_Inr:
  assumes "cancel_jobs_of_lineage t v i s = Inr s'"
  shows "\<exists>rs as. s' = s\<lparr>db_jobs := update_rows (competing_job t v i s) (cancelled_job (now s)) (db_jobs s),
      db_attempts := as, db_requests := rs\<rparr>"
proof -
  from assms obtain s1 s2 where "update_jobs (competing_job t v i s) (cancelled_job (now s)) s = Inr s1"
    and b: "\<exists>p f. update_attempts p f s1 = Inr s2" and c: "\<exists>p f. update_requests p f s2 = Inr s'"
    unfolding cancel_jobs_of_lineage_def Let_def cancelled_job_def by (elim bind_res_InrE) blast
  then have "s1 = s\<lparr>db_jobs := update_rows (competing_job t v i s) (cancelled_job (now s)) (db_jobs s)\<rparr>"
    unfolding update_jobs_Inr by (elim conjE)
  moreover from b obtain as where "s2 = s1\<lparr>db_attempts := as\<rparr>"
    unfolding update_attempts_Inr by (elim exE conjE) blast
  moreover from c obtain rs where "s' = s2\<lparr>db_requests := rs\<rparr>"
    unfolding update_requests_Inr by (elim exE conjE) blast
  ultimately show ?thesis by (intro exI) simp
qed

lemma mark_search_revoked_Inr:
  assumes "mark_search_revoked d s = Inr s'"
  shows "\<exists>ps. s' = s\<lparr>db_publications := ps\<rparr> \<and> (\<forall>p \<in> set ps. ip_tenant_id p = cd_tenant_id d
    \<and> ip_document_version_id p = cd_document_version_id d \<longrightarrow> ip_deleted_at p \<noteq> None)"
proof -
  from assms have "s' = s\<lparr>db_publications := update_rows
      (\<lambda>p. ip_tenant_id p = cd_tenant_id d \<and> ip_document_version_id p = cd_document_version_id d)
       (\<lambda>p. p\<lparr>ip_deleted_at := (case ip_deleted_at p of None \<Rightarrow> Some (now s) | Some t \<Rightarrow> Some t)\<rparr>) (db_publications s)\<rparr>"
    unfolding mark_search_revoked_def update_publications_Inr by (elim conjE)
  then show ?thesis
    by (intro exI conjI) (auto simp: set_update_rows split: option.splits)
qed

definition deleted_row :: "timestamp \<Rightarrow> version_row \<Rightarrow> version_row" where
  "deleted_row t v = v\<lparr>dv_state := DELETED, dv_state_revision := dv_state_revision v + 1, dv_updated_at := t\<rparr>"

definition delete_event :: "ClaimedDeletion \<Rightarrow> string \<Rightarrow> uuid \<Rightarrow> version_row \<Rightarrow> event_row" where
  "delete_event d worker i v =
     \<lparr>ev_id = i, ev_tenant_id = cd_tenant_id d, ev_collection_id = cd_collection_id d,
      ev_document_version_id = cd_document_version_id d,
      ev_idempotency_key = ''lifecycle:'' @ str_uuid (cd_request_id d) @ '':delete'',
      ev_from_state = dv_state v, ev_to_state = DELETED, ev_from_revision = dv_state_revision v,
      ev_to_revision = dv_state_revision v + 1, ev_operation = ''delete'', ev_actor_type = ''worker'',
      ev_actor_id = worker\<rparr>"

text \<open>Deleting a stored version is one move with its event, and a deleted one stays as it is.\<close>

lemma mark_version_deleted_Inr:
  assumes "mark_version_deleted d worker v eid s = Inr s'" and v: "v \<in> set (db_versions s)"
    and keys: "version_keys_ok s" and audit: "audit_ok s"
    and d: "version_scope v = (cd_tenant_id d, cd_collection_id d, cd_document_version_id d)"
    and ok: "deletion_events_ok (cd_job_id d) (cd_request_id d) s"
  shows "s' = (if dv_state v = DELETED then s else moved [v] (deleted_row (now s)) (delete_event d worker eid) s)
    \<and> audit_ok s' \<and> version_keys_ok s'
    \<and> map version_scope (db_versions s') = map version_scope (db_versions s)"
proof (cases "dv_state v = DELETED")
  case True
  with assms(1) keys audit show ?thesis by (simp add: mark_version_deleted_def)
next
  case False
  let ?p = "\<lambda>w. dv_tenant_id w = cd_tenant_id d \<and> dv_id w = cd_document_version_id d
                \<and> dv_state_revision w = dv_state_revision v"
  from assms(1) False obtain rows s1 where
    u: "update_versions True ?p (\<lambda>w. w\<lparr>dv_state := DELETED, dv_state_revision := dv_state_revision v + 1,
                    dv_updated_at := now s\<rparr>) s = Inr (rows, s1)"
    and e: "insert_event_once (delete_event d worker eid v) s1 = Inr s'"
    unfolding mark_version_deleted_def delete_event_def by (auto elim: bind_res_pairE)
  have uniq: "w = v" if "w \<in> set (db_versions s)" "dv_id w = dv_id v" for w
    using distinct_map_inj_rows [OF keys [unfolded version_keys_ok_def] that(1) v that(2)] .
  have "s1 = s\<lparr>db_versions := update_rows ?p (\<lambda>w. w\<lparr>dv_state := DELETED,
      dv_state_revision := dv_state_revision v + 1, dv_updated_at := now s\<rparr>) (db_versions s)\<rparr>"
    using u unfolding update_versions_Inr by (elim conjE)
  also have "update_rows ?p (\<lambda>w. w\<lparr>dv_state := DELETED, dv_state_revision := dv_state_revision v + 1,
      dv_updated_at := now s\<rparr>) (db_versions s)
      = update_rows (\<lambda>w. dv_id w \<in> dv_id ` set [v]) (deleted_row (now s)) (db_versions s)"
    unfolding update_rows_def deleted_row_def using uniq d by (intro map_cong) auto
  finally have s1: "s1 = s\<lparr>db_versions := update_rows (\<lambda>w. dv_id w \<in> dv_id ` set [v]) (deleted_row (now s)) (db_versions s)\<rparr>" .
  have "event_idempotency (delete_event d worker eid v) \<notin> event_idempotency ` set (db_events s1)"
  proof
    assume "event_idempotency (delete_event d worker eid v) \<in> event_idempotency ` set (db_events s1)"
    then obtain x where x: "x \<in> set (db_events s)" "event_idempotency x = event_idempotency (delete_event d worker eid v)"
      by (auto simp: s1)
    then have "event_scope x = version_scope v"
      "ev_idempotency_key x = ''lifecycle:'' @ str_uuid (cd_request_id d) @ '':delete''"
      using d by (simp_all add: event_idempotency_def delete_event_def)
    with ok x(1) v False show False unfolding deletion_events_ok_def by blast
  qed
  from insert_event_once_new [OF e this] have s': "s' = moved [v] (deleted_row (now s)) (delete_event d worker eid) s"
    by (simp add: s1 moved_def)
  have "audit_ok (moved [v] (deleted_row (now s)) (delete_event d worker eid) s)
    \<and> version_keys_ok (moved [v] (deleted_row (now s)) (delete_event d worker eid) s)
    \<and> map version_scope (db_versions (moved [v] (deleted_row (now s)) (delete_event d worker eid) s))
      = map version_scope (db_versions s)"
    using v d by (intro moved_audit [OF keys audit]) (auto simp: deleted_row_def delete_event_def)
  with s' False show ?thesis by simp
qed

lemma search_targets_Inr:
  assumes "search_targets t v s = Inr ts" and "p \<in> set (db_publications s)" and "ip_tenant_id p = t"
    and "ip_document_version_id p = v"
  shows "\<exists>x \<in> set ts. st_name x = ip_target_name p \<and> st_version x = ip_target_version p"
proof -
  let ?L = "sort (remdups (
       [(ip_target_name p, ip_target_version p). p \<leftarrow> db_publications s,
          ip_tenant_id p = t \<and> ip_document_version_id p = v]
       @ [(n, w). j \<leftarrow> db_jobs s, ij_tenant_id j = t \<and> ij_document_version_id j = v,
            n \<leftarrow> option_rows (ij_publication_target_name j),
            w \<leftarrow> [case ij_publication_target_version j of None \<Rightarrow> ''None'' | Some w \<Rightarrow> w]]))"
  have "(ip_target_name p, ip_target_version p) \<in> set ?L"
    using assms(2-4) by (auto intro!: bexI [of _ p])
  then obtain k where k: "k < length ?L" "?L ! k = (ip_target_name p, ip_target_version p)"
    unfolding in_set_conv_nth by blast
  have "list_all2 (\<lambda>(n, w) x. new_search_target n w = Inr x) ?L ts"
    using assms(1) map_res_Inr [of "\<lambda>(n, w). new_search_target n w" ?L ts]
    unfolding search_targets_def by (simp add: case_prod_unfold)
  from list_all2_nthD [OF this k(1)] have "ts ! k = \<lparr>st_name = ip_target_name p, st_version = ip_target_version p\<rparr>"
    unfolding k(2) by (simp add: new_search_target_Inr)
  moreover have "ts ! k \<in> set ts"
    using k(1) list_all2_lengthD [OF \<open>list_all2 _ ?L ts\<close>] by (intro nth_mem) simp
  ultimately show ?thesis by (intro bexI [of _ "ts ! k"]) simp_all
qed

lemma moved_events_ok:
  assumes ok: "deletion_events_ok i q s" and keys: "version_keys_ok s" and vs: "set vs \<subseteq> set (db_versions s)"
    and same: "\<And>v. version_scope (g v) = version_scope v"
    and ev: "\<And>v. v \<in> set vs \<Longrightarrow> event_scope (ev v) = version_scope v \<and> dv_state (g v) \<in> TERMINAL_STATES
      \<and> (dv_state v = DELETED \<longrightarrow> dv_state (g v) = DELETED)
      \<and> (ev_idempotency_key (ev v) = ''lifecycle:'' @ str_uuid q @ '':delete'' \<longrightarrow> dv_state (g v) = DELETED)"
  shows "deletion_events_ok i q (moved vs g ev s)"
  unfolding deletion_events_ok_def
proof (intro ballI impI)
  fix e w assume e: "e \<in> set (db_events (moved vs g ev s))" and w: "w \<in> set (db_versions (moved vs g ev s))"
    and sc: "event_scope e = version_scope w"
  have uniq: "x = v" if "x \<in> set (db_versions s)" "v \<in> set (db_versions s)" "dv_id x = dv_id v" for x v
    using distinct_map_inj_rows [OF keys [unfolded version_keys_ok_def] that] .
  from w obtain v where v: "v \<in> set (db_versions s)" "w = (if dv_id v \<in> dv_id ` set vs then g v else v)"
    unfolding moved_def by (auto simp: update_rows_def)
  from v same have sw: "version_scope w = version_scope v" by simp
  show "(ev_idempotency_key e = ''delete-fence:'' @ str_uuid i \<longrightarrow> dv_state w \<in> TERMINAL_STATES)
        \<and> (ev_idempotency_key e = ''lifecycle:'' @ str_uuid q @ '':delete'' \<longrightarrow> dv_state w = DELETED)"
  proof (cases "dv_id v \<in> dv_id ` set vs")
    case True
    then obtain x where "x \<in> set vs" "dv_id x = dv_id v" by auto
    with uniq [of x v] vs v(1) have vm: "v \<in> set vs" by auto
    with ev True v(2) have t: "dv_state w \<in> TERMINAL_STATES" "dv_state v = DELETED \<longrightarrow> dv_state w = DELETED" by simp_all
    show ?thesis
    proof (cases "e \<in> set (db_events s)")
      case True
      with ok v(1) sc sw t show ?thesis unfolding deletion_events_ok_def by auto
    next
      case False
      with e obtain x where x: "x \<in> set vs" "e = ev x" by (auto simp: moved_def)
      with ev sc sw have "version_scope x = version_scope v" by metis
      with uniq [of x v] vs x(1) v(1) have "x = v" by auto
      with x(2) ev [OF vm] v(2) True t show ?thesis by auto
    qed
  next
    case False
    with v have wv: "w = v" by simp
    have "e \<in> set (db_events s)"
    proof (rule ccontr)
      assume "e \<notin> set (db_events s)"
      with e obtain x where "x \<in> set vs" "e = ev x" by (auto simp: moved_def)
      with ev sc sw have "version_scope x = version_scope v" by metis
      then have "dv_id x = dv_id v" by simp
      with \<open>x \<in> set vs\<close> False show False by (metis imageI)
    qed
    with ok v(1) sc wv show ?thesis unfolding deletion_events_ok_def by auto
  qed
qed

section \<open>The claim\<close>

text \<open>What a granted claim leaves behind, \<open>row\<close> being the job before it.\<close>

definition deletion_started ::
  "job_row \<Rightarrow> string \<Rightarrow> session \<Rightarrow> ClaimedDeletion \<Rightarrow> session \<Rightarrow> bool" where
  "deletion_started row worker s d s' \<longleftrightarrow>
     (\<forall>j \<in> set (db_jobs s'). ij_id j = ij_id row \<longrightarrow> owns_attempt j worker (cd_attempt_number d)
        \<and> ij_lease_expires_at j = Some (now s + seconds 300))
     \<and> (\<forall>j \<in> set (db_jobs s'). ij_id j \<noteq> ij_id row \<longrightarrow> ij_tenant_id j = cd_tenant_id d \<longrightarrow>
          ij_document_version_id j \<in> dv_id ` set (affected_versions (cd_tenant_id d) (cd_document_version_id d) s')
          \<longrightarrow> terminal_job_state (ij_state j))
     \<and> (\<forall>w \<in> set (db_versions s'). dv_id w = cd_document_version_id d \<longrightarrow> dv_state w = DELETED)
     \<and> (\<forall>w \<in> set (descendant_versions (cd_tenant_id d) (cd_document_version_id d) s'). dv_state w \<in> TERMINAL_STATES)
     \<and> (\<forall>p \<in> set (db_publications s'). ip_tenant_id p = cd_tenant_id d
          \<and> ip_document_version_id p = cd_document_version_id d \<longrightarrow> ip_deleted_at p \<noteq> None)
     \<and> (\<forall>p \<in> set (db_publications s). ip_tenant_id p = cd_tenant_id d
          \<and> ip_document_version_id p = cd_document_version_id d \<longrightarrow>
          (\<exists>c \<in> set (db_search_cleanup s'). cleanup_target_key c
             = entry_key (cd_tenant_id d, cd_collection_id d, cd_document_version_id d) None
                 (ip_target_name p, ip_target_version p, None, None)))"

lemma start_deletion_steps:
  assumes "start_deletion md5 row v request worker u s = Inr (d, s')"
  obtains s1 s2 s3 s4 s5 ts where
    "start_deletion_attempt row request worker (ij_attempt_count row + 1) (u 0) s = Inr s1"
    "cancel_jobs_of_lineage (ij_tenant_id row) (ij_document_version_id row) (ij_id row) s1 = Inr s2"
    "cancel_descendants md5 (ij_tenant_id row) (ij_document_version_id row) (ij_id row) s2 = Inr s3"
    "search_targets (ij_tenant_id row) (ij_document_version_id row) s3 = Inr ts"
    "enqueue_all (ij_tenant_id row) (ij_collection_id row) (ij_document_version_id row) None (\<lambda>n. u (n + 2))
       (map target_publication ts) s3 = Inr s4"
    "mark_search_revoked d s4 = Inr s5" "mark_version_deleted d worker v (u 1) s5 = Inr s'"
    "d = \<lparr>cd_job_id = ij_id row, cd_tenant_id = ij_tenant_id row, cd_collection_id = ij_collection_id row,
       cd_document_version_id = ij_document_version_id row, cd_request_id = lr_id request,
       cd_attempt_number = ij_attempt_count row + 1, cd_physical_cleanup_due = False,
       cd_object_keys = [], cd_search_targets = ts\<rparr>"
proof -
  from assms obtain s1 s3 ts s4 s5 where *:
    "start_deletion_attempt row request worker (ij_attempt_count row + 1) (u 0) s = Inr s1"
    "cancel_competing_jobs md5 (ij_tenant_id row) (ij_document_version_id row) (ij_id row) s1 = Inr s3"
    "search_targets (ij_tenant_id row) (ij_document_version_id row) s3 = Inr ts"
    "enqueue_all (ij_tenant_id row) (ij_collection_id row) (ij_document_version_id row) None (\<lambda>n. u (n + 2))
       (map target_publication ts) s3 = Inr s4"
    "mark_search_revoked d s4 = Inr s5" "mark_version_deleted d worker v (u 1) s5 = Inr s'"
    "d = \<lparr>cd_job_id = ij_id row, cd_tenant_id = ij_tenant_id row, cd_collection_id = ij_collection_id row,
       cd_document_version_id = ij_document_version_id row, cd_request_id = lr_id request,
       cd_attempt_number = ij_attempt_count row + 1, cd_physical_cleanup_due = False,
       cd_object_keys = [], cd_search_targets = ts\<rparr>"
    unfolding start_deletion_def Let_def by (elim bind_res_InrE) (unfold sum.inject prod.inject, elim conjE, blast)
  from *(2) obtain s2 where
    "cancel_jobs_of_lineage (ij_tenant_id row) (ij_document_version_id row) (ij_id row) s1 = Inr s2"
    "cancel_descendants md5 (ij_tenant_id row) (ij_document_version_id row) (ij_id row) s2 = Inr s3"
    unfolding cancel_competing_jobs_def by (rule bind_res_InrE)
  with * that show thesis by blast
qed

lemma audit_frame:
  assumes "db_versions s' = db_versions s" and "db_events s' = db_events s"
  shows "audit_ok s' = audit_ok s" and "version_keys_ok s' = version_keys_ok s"
    and "deletion_events_ok i q s' = deletion_events_ok i q s" and "lineage_ok s' = lineage_ok s"
  using assms by (simp_all add: audit_ok_def events_of_def version_exists_def version_keys_ok_def
      deletion_events_ok_def lineage_ok_def)

lemma moved_lineage_key:
  assumes "\<And>v. lineage_key (g v) = lineage_key v"
  shows "map lineage_key (db_versions (moved vs g ev s)) = map lineage_key (db_versions s)"
  unfolding moved_def using map_update_rows [of _ lineage_key g] assms by simp

lemma moved_keeps:
  assumes "v \<in> set (db_versions s)" and "dv_id v \<notin> dv_id ` set vs"
  shows "v \<in> set (db_versions (moved vs g ev s))"
  using assms by (auto simp: moved_def set_update_rows)

lemma fence_events_ok:
  assumes ok: "deletion_events_ok i q s" and keys: "version_keys_ok s"
  shows "deletion_events_ok i q (moved (unfinished_descendants t v s) (cancelled_row (now s)) (fence_event md5 t i) s)"
proof (rule moved_events_ok [OF ok keys], goal_cases)
  case 1
  then show ?case by (auto simp: unfinished_descendants_def)
next
  case (2 w)
  then show ?case by (simp add: cancelled_row_def)
next
  case (3 w)
  from unfinished_descendant [OF keys 3] show ?case
    by (auto simp: cancelled_row_def fence_event_def TERMINAL_STATES_def)
qed

lemma deleted_events_ok:
  assumes ok: "deletion_events_ok i q s" and keys: "version_keys_ok s" and v: "v \<in> set (db_versions s)"
    and d: "version_scope v = (cd_tenant_id d, cd_collection_id d, cd_document_version_id d)"
  shows "deletion_events_ok i q (moved [v] (deleted_row t) (delete_event d worker eid) s)"
proof (rule moved_events_ok [OF ok keys], goal_cases)
  case 1
  then show ?case using v by simp
next
  case (2 w)
  then show ?case by (simp add: deleted_row_def)
next
  case (3 w)
  then show ?case using d by (simp add: deleted_row_def delete_event_def TERMINAL_STATES_def)
qed

lemma claimed_jobs:
  assumes "j \<in> set (update_rows (competing_job t v i s) (cancelled_job x) (update_rows (\<lambda>j. ij_id j = i) (leased_row worker n l x) js))"
    and "affected_versions t v s = a"
  shows "ij_id j = i \<Longrightarrow> owns_attempt j worker n \<and> ij_lease_expires_at j = Some (x + l)"
    and "ij_id j \<noteq> i \<Longrightarrow> ij_tenant_id j = t \<Longrightarrow> ij_document_version_id j \<in> dv_id ` set a \<Longrightarrow> terminal_job_state (ij_state j)"
proof -
  from assms(1) obtain k where k: "k \<in> set (update_rows (\<lambda>j. ij_id j = i) (leased_row worker n l x) js)"
    "j = (if competing_job t v i s k then cancelled_job x k else k)"
    by (rule update_rowsE)
  from k(1) obtain r where r: "k = (if ij_id r = i then leased_row worker n l x r else r)"
    by (rule update_rowsE)
  show "owns_attempt j worker n \<and> ij_lease_expires_at j = Some (x + l)" if "ij_id j = i"
  proof -
    from that k(2) have "ij_id k = i" by (auto simp: cancelled_job_def split: if_splits)
    then have "j = k" using k(2) by (simp add: competing_job_def)
    moreover from \<open>ij_id k = i\<close> r have "k = leased_row worker n l x r" by (cases "ij_id r = i") simp_all
    ultimately show ?thesis by (simp add: owns_attempt_def)
  qed
  show "terminal_job_state (ij_state j)" if "ij_id j \<noteq> i" "ij_tenant_id j = t" "ij_document_version_id j \<in> dv_id ` set a"
  proof (cases "competing_job t v i s k")
    case True
    then show ?thesis using k(2) by (simp add: cancelled_job_def terminal_job_state_def)
  next
    case False
    with k(2) have "j = k" by simp
    with False that assms(2) have "\<not> active_job_state (ij_state j)" by (simp add: competing_job_def)
    then show ?thesis by (simp add: active_iff_not_terminal)
  qed
qed

text \<open>Descendants are finished after the cancellation, whatever the deletion does next.\<close>

lemma moved_terminal:
  assumes "w \<in> set (db_versions (moved vs g ev s))"
    and "\<And>v. dv_id (g v) = dv_id v \<and> dv_state (g v) \<in> TERMINAL_STATES"
    and "\<And>v. v \<in> set (db_versions s) \<Longrightarrow> dv_id v \<in> I \<Longrightarrow> dv_id v \<notin> dv_id ` set vs \<Longrightarrow> dv_state v \<in> TERMINAL_STATES"
    and "dv_id w \<in> I"
  shows "dv_state w \<in> TERMINAL_STATES"
proof -
  from assms(1) obtain v where "v \<in> set (db_versions s)" "w = (if dv_id v \<in> dv_id ` set vs then g v else v)"
    by (auto simp: moved_def update_rows_def)
  with assms(2-4) show ?thesis by (cases "dv_id v \<in> dv_id ` set vs") auto
qed

lemma deleted_version:
  assumes "w \<in> set (db_versions s')" and "dv_id w = dv_id v"
    and "s' = (if dv_state v = DELETED then s else moved [v] (deleted_row t) ev s)"
    and "v \<in> set (db_versions s)" and "version_keys_ok s"
  shows "dv_state w = DELETED"
proof (cases "dv_state v = DELETED")
  case True
  with assms have "w = v" by (intro distinct_map_inj_rows [OF assms(5) [unfolded version_keys_ok_def]]) simp_all
  with True show ?thesis by simp
next
  case False
  with assms(1,3) have "w \<in> set (update_rows (\<lambda>x. dv_id x \<in> dv_id ` set [v]) (deleted_row t) (db_versions s))"
    by (simp add: moved_def)
  then obtain x where "w = (if dv_id x \<in> dv_id ` set [v] then deleted_row t x else x)"
    by (rule update_rowsE)
  with assms(2) show ?thesis by (auto simp: deleted_row_def split: if_splits)
qed

lemma start_deletion_ok:
  assumes st: "start_deletion md5 row v request worker u s = Inr (d, s')"
    and v: "v \<in> set (db_versions s)" "version_scope v = job_scope row"
    and keys: "version_keys_ok s" and audit: "audit_ok s" and lin: "lineage_ok s"
    and ok: "deletion_events_ok (ij_id row) (lr_id request) s"
  shows "deletion_started row worker s d s' \<and> audit_ok s' \<and> version_keys_ok s'
    \<and> deletion_events_ok (ij_id row) (lr_id request) s'
    \<and> cd_job_id d = ij_id row \<and> cd_attempt_number d = ij_attempt_count row + 1 \<and> cd_request_id d = lr_id request
    \<and> (cd_tenant_id d, cd_collection_id d, cd_document_version_id d) = job_scope row"
proof -
  let ?t = "ij_tenant_id row" and ?i = "ij_document_version_id row"
  from start_deletion_steps [OF st] obtain s1 s2 s3 s4 s5 ts where 1:
    "start_deletion_attempt row request worker (ij_attempt_count row + 1) (u 0) s = Inr s1"
    "cancel_jobs_of_lineage ?t ?i (ij_id row) s1 = Inr s2"
    "cancel_descendants md5 ?t ?i (ij_id row) s2 = Inr s3"
    "search_targets ?t ?i s3 = Inr ts"
    "enqueue_all ?t (ij_collection_id row) ?i None (\<lambda>n. u (n + 2)) (map target_publication ts) s3 = Inr s4"
    "mark_search_revoked d s4 = Inr s5" "mark_version_deleted d worker v (u 1) s5 = Inr s'"
    and d: "d = \<lparr>cd_job_id = ij_id row, cd_tenant_id = ?t, cd_collection_id = ij_collection_id row,
       cd_document_version_id = ?i, cd_request_id = lr_id request,
       cd_attempt_number = ij_attempt_count row + 1, cd_physical_cleanup_due = False,
       cd_object_keys = [], cd_search_targets = ts\<rparr>" .
  from start_deletion_attempt_Inr [OF 1(1)] obtain rs as where s1: "s1 = s\<lparr>db_jobs := update_rows (\<lambda>j. ij_id j = ij_id row)
      (leased_row worker (ij_attempt_count row + 1) (seconds 300) (now s)) (db_jobs s), db_requests := rs, db_attempts := as\<rparr>"
    by (elim exE)
  from cancel_jobs_of_lineage_Inr [OF 1(2)] obtain as2 rs2 where s2: "s2 = s1\<lparr>db_jobs := update_rows
      (competing_job ?t ?i (ij_id row) s1) (cancelled_job (now s1)) (db_jobs s1), db_attempts := as2, db_requests := rs2\<rparr>"
    by (elim exE)
  have fr2: "db_versions s2 = db_versions s" "db_events s2 = db_events s" "now s2 = now s"
    "db_publications s2 = db_publications s" using s1 s2 by simp_all
  have ok2: "version_keys_ok s2" "audit_ok s2" "deletion_events_ok (ij_id row) (lr_id request) s2" "lineage_ok s2"
    using keys audit ok lin audit_frame [OF fr2(1,2)] by simp_all
  let ?vs = "unfinished_descendants ?t ?i s2" and ?g = "cancelled_row (now s2)" and ?ev = "fence_event md5 ?t (ij_id row)"
  note c = cancel_descendants_Inr [OF 1(3) ok2(1-3)]
  from c have s3: "s3 = moved ?vs ?g ?ev s2" by (rule conjunct1)
  note ok3 = c [THEN conjunct2, THEN conjunct1] c [THEN conjunct2, THEN conjunct2, THEN conjunct1]
  have ev3: "deletion_events_ok (ij_id row) (lr_id request) s3"
    unfolding s3 by (rule fence_events_ok [OF ok2(3,1)])
  have iv: "dv_id v = ?i" "dv_tenant_id v = ?t" using v(2) by simp_all
  have "v \<in> set (db_versions s2)" using v(1) fr2(1) by simp
  from not_own_descendant [OF ok2(4,1) this, of ?t] have nd: "dv_id v \<notin> dv_id ` set (descendant_versions ?t ?i s2)"
    unfolding iv(1) .
  have "set ?vs \<subseteq> set (descendant_versions ?t ?i s2)"
    using unfinished_descendant(2) [OF ok2(1)] by (rule subsetI)
  with nd have nd: "dv_id v \<notin> dv_id ` set ?vs" by (metis image_mono subsetD)
  have v3: "v \<in> set (db_versions s3)"
    unfolding s3 by (rule moved_keeps) (use v(1) nd fr2(1) in simp_all)
  from enqueue_all_Inr [OF 1(5)] obtain cs where s4: "s4 = s3\<lparr>db_search_cleanup := cs\<rparr>"
    and en: "\<forall>p \<in> set (map target_publication ts). \<exists>e \<in> set cs. cleanup_target_key e
      = entry_key (?t, ij_collection_id row, ?i) None (publication_key p)" by (elim exE conjE)
  from mark_search_revoked_Inr [OF 1(6)] obtain ps where s5: "s5 = s4\<lparr>db_publications := ps\<rparr>"
    and ps: "\<forall>p \<in> set ps. ip_tenant_id p = cd_tenant_id d \<and> ip_document_version_id p = cd_document_version_id d
      \<longrightarrow> ip_deleted_at p \<noteq> None" by (elim exE conjE)
  have fr5: "db_versions s5 = db_versions s3" "db_events s5 = db_events s3" using s5 s4 by simp_all
  have ok5: "version_keys_ok s5" "audit_ok s5" "deletion_events_ok (cd_job_id d) (cd_request_id d) s5"
    using ok3 ev3 audit_frame [OF fr5] d by simp_all
  have v5: "v \<in> set (db_versions s5)" using v3 fr5(1) by simp
  have sd: "version_scope v = (cd_tenant_id d, cd_collection_id d, cd_document_version_id d)" using v(2) d by simp
  note m = mark_version_deleted_Inr [OF 1(7) v5 ok5(1,2) sd ok5(3)]
  from m have s': "s' = (if dv_state v = DELETED then s5 else moved [v] (deleted_row (now s5)) (delete_event d worker (u 1)) s5)"
    by (rule conjunct1)
  note ok' = m [THEN conjunct2, THEN conjunct1] m [THEN conjunct2, THEN conjunct2, THEN conjunct1]
  have ev': "deletion_events_ok (ij_id row) (lr_id request) s'"
  proof (cases "dv_state v = DELETED")
    case True
    then show ?thesis using s' ok5(3) d by simp
  next
    case False
    have "deletion_events_ok (cd_job_id d) (cd_request_id d) (moved [v] (deleted_row (now s5)) (delete_event d worker (u 1)) s5)"
      by (rule deleted_events_ok [OF ok5(3,1) v5 sd])
    then show ?thesis using s' False d by simp
  qed
  have lk: "map lineage_key (db_versions s') = map lineage_key (db_versions s2)"
    unfolding s' using moved_lineage_key [of ?g ?vs ?ev s2] moved_lineage_key [of "deleted_row (now s5)" "[v]" _ s5] s3 fr5(1)
    by (simp add: cancelled_row_def deleted_row_def lineage_key_def)
  have jobs: "db_jobs s' = db_jobs s2" "db_search_cleanup s' = cs" "db_publications s' = ps"
    using s' s5 s4 s3 by (simp_all add: moved_def)
  have ids: "dv_id ` set (affected_versions ?t ?i s') = dv_id ` set (affected_versions ?t ?i s1)"
    and dids: "dv_id ` set (descendant_versions ?t ?i s') = dv_id ` set (descendant_versions ?t ?i s2)"
    using lineage_query_ids [of s' s1 ?t ?i] lineage_query_ids [of s' s2 ?t ?i] lk fr2(1) s1 by simp_all
  have js: "db_jobs s' = update_rows (competing_job ?t ?i (ij_id row) s1) (cancelled_job (now s))
      (update_rows (\<lambda>j. ij_id j = ij_id row) (leased_row worker (ij_attempt_count row + 1) (seconds 300) (now s)) (db_jobs s))"
    using jobs(1) s2 s1 by simp
  have job: "\<forall>j \<in> set (db_jobs s'). ij_id j = ij_id row \<longrightarrow> owns_attempt j worker (ij_attempt_count row + 1)
      \<and> ij_lease_expires_at j = Some (now s + seconds 300)"
    unfolding js using claimed_jobs(1) [OF _ refl] by blast
  have others: "\<forall>j \<in> set (db_jobs s'). ij_id j \<noteq> ij_id row \<longrightarrow> ij_tenant_id j = ?t \<longrightarrow>
      ij_document_version_id j \<in> dv_id ` set (affected_versions ?t ?i s') \<longrightarrow> terminal_job_state (ij_state j)"
    unfolding js ids using claimed_jobs(2) [OF _ refl] by blast
  have del: "\<forall>w \<in> set (db_versions s'). dv_id w = ?i \<longrightarrow> dv_state w = DELETED"
    by (intro ballI impI, rule deleted_version [OF _ _ s' v5 ok5(1)]) (simp_all only: iv)
  have t3: "dv_state w \<in> TERMINAL_STATES"
    if "w \<in> set (db_versions s3)" "dv_id w \<in> dv_id ` set (descendant_versions ?t ?i s2)" for w
  proof (rule moved_terminal [OF that(1) [unfolded s3] _ _ that(2)])
    show "dv_id (?g x) = dv_id x \<and> dv_state (?g x) \<in> TERMINAL_STATES" for x
      by (simp add: cancelled_row_def TERMINAL_STATES_def)
    show "dv_state x \<in> TERMINAL_STATES" if "x \<in> set (db_versions s2)"
      "dv_id x \<in> dv_id ` set (descendant_versions ?t ?i s2)" "dv_id x \<notin> dv_id ` set ?vs" for x
    proof (rule ccontr)
      assume "dv_state x \<notin> TERMINAL_STATES"
      with that(1,2) have "x \<in> set ?vs" by (simp add: unfinished_descendants_def)
      with that(3) show False by simp
    qed
  qed
  have desc: "\<forall>w \<in> set (descendant_versions ?t ?i s'). dv_state w \<in> TERMINAL_STATES"
  proof
    fix w assume "w \<in> set (descendant_versions ?t ?i s')"
    then have w: "w \<in> set (db_versions s')" "dv_id w \<in> dv_id ` set (descendant_versions ?t ?i s2)"
      using descendant_in_versions [of w ?t ?i s'] dids [symmetric] by auto
    show "dv_state w \<in> TERMINAL_STATES"
    proof (cases "dv_state v = DELETED")
      case True
      with w s' t3 fr5(1) show ?thesis by simp
    next
      case False
      with s' have e: "s' = moved [v] (deleted_row (now s5)) (delete_event d worker (u 1)) s5" by simp
      show ?thesis
        by (rule moved_terminal [OF w(1) [unfolded e] _ _ w(2)])
           (use t3 fr5(1) in \<open>simp_all add: deleted_row_def TERMINAL_STATES_def\<close>)
    qed
  qed
  have queued: "\<exists>c \<in> set (db_search_cleanup s'). cleanup_target_key c
      = entry_key (job_scope row) None (ip_target_name p, ip_target_version p, None, None)"
    if p: "p \<in> set (db_publications s)" "ip_tenant_id p = ?t" "ip_document_version_id p = ?i" for p
  proof -
    have "p \<in> set (db_publications s3)" using p(1) fr2(4) s3 by (simp add: moved_def)
    from search_targets_Inr [OF 1(4) this p(2,3)] obtain x where
      x: "x \<in> set ts" "st_name x = ip_target_name p" "st_version x = ip_target_version p" by blast
    then have "target_publication x \<in> set (map target_publication ts)" by simp
    with en jobs(2) x show ?thesis by (force simp: target_publication_def)
  qed
  have "deletion_started row worker s d s'"
    unfolding deletion_started_def d ClaimedDeletion.simps using job others del desc ps queued jobs(3) d by simp
  with ok' ev' d show ?thesis by simp
qed

lemma active_lease_Inr:
  assumes "active_lease row s = Inr (held, s')"
  shows "held = lease_active row (now s)" and "\<exists>as. s' = s\<lparr>db_attempts := as\<rparr>"
proof -
  have id: "\<exists>as. s = s\<lparr>db_attempts := as\<rparr>" by (rule exI [of _ "db_attempts s"]) simp
  show "held = lease_active row (now s)"
    using assms unfolding active_lease_def lease_active_def
    by (auto simp: bind_res_eq_Inr split: option.splits if_splits)
  show "\<exists>as. s' = s\<lparr>db_attempts := as\<rparr>"
    using assms id unfolding active_lease_def expire_attempt_def
    by (auto elim!: bind_res_InrE dest: close_attempts_Inr split: option.splits if_splits)
qed

lemma deletion_claim_rows_mem:
  assumes "(row, v, c, r) \<in> set (deletion_claim_rows t i j s)"
  shows "row \<in> set (db_jobs s) \<and> ij_id row = j \<and> ij_tenant_id row = t \<and> ij_document_version_id row = i
    \<and> ij_stage row = ST_DELETE \<and> v \<in> set (db_versions s) \<and> version_scope v = job_scope row
    \<and> ij_lifecycle_request_id row = Some (lr_id r)"
  using assms unfolding deletion_claim_rows_def by (auto split: if_splits)

lemma deletion_claim_steps:
  assumes "deletion_claim md5 t i j worker u s = Inr (Some d, s')"
  obtains row v r s1 where "row \<in> set (db_jobs s)" "ij_id row = j" "ij_tenant_id row = t"
    "ij_document_version_id row = i" "ij_stage row = ST_DELETE" "v \<in> set (db_versions s)"
    "version_scope v = job_scope row" "ij_lifecycle_request_id row = Some (lr_id r)"
    "active_job_state (ij_state row)" "\<not> lease_active row (now s)" "ij_attempt_count row < ij_max_attempts row"
    "\<exists>as. s1 = s\<lparr>db_attempts := as\<rparr>" "start_deletion md5 row v r worker u s1 = Inr (d, s')"
proof -
  from assms obtain row v c r where rows: "deletion_claim_rows t i j s = [(row, v, c, r)]"
    unfolding deletion_claim_def
    by (auto elim!: bind_res_InrE simp: one_or_none_Some split: option.splits)
  then have "(row, v, c, r) \<in> set (deletion_claim_rows t i j s)" by simp
  note mem = deletion_claim_rows_mem [OF this]
  note c1 = assms [unfolded deletion_claim_def rows one_or_none.simps bind_res_Inr option.case prod.case]
  then have act: "ij_state row \<notin> {JS_SUCCEEDED, JS_CANCELLED, JS_FAILED, JS_DEAD_LETTERED}"
    by (auto simp: bind_res_eq_Inr split: if_splits)
  with c1 obtain held s1 where l: "active_lease row s = Inr (held, s1)"
    and k: "(if held then Inr (None, s1)
           else if ij_attempt_count row + 1 > ij_max_attempts row
           then bind_res (fail_deletion row r s1) (\<lambda>s2. Inr (None, s2))
           else bind_res (start_deletion md5 row v r worker u s1) (\<lambda>(deletion, s2). Inr (Some deletion, s2)))
        = Inr (Some d, s')"
    by (auto elim: bind_res_pairE)
  from k have h: "\<not> held" by auto
  with k have lt: "\<not> ij_attempt_count row + 1 > ij_max_attempts row" by (auto simp: bind_res_eq_Inr)
  with k h have st: "start_deletion md5 row v r worker u s1 = Inr (d, s')" by (auto elim: bind_res_pairE)
  have "active_job_state (ij_state row)"
    using act by (cases "ij_state row") (simp_all add: active_job_state_def)
  with mem lt h active_lease_Inr [OF l] show thesis
    by (intro that [OF _ _ _ _ _ _ _ _ _ _ _ _ st]) simp_all
qed

text \<open>C34: a deletion job is claimed by one worker at a time. A granted claim means that the job was
  open, unleased and had an attempt left; it gives the job a lease of five minutes, during which
  every further claim of the job is refused. When it returns, every other job of the version and of
  what was reprocessed from it has ended and those versions are finished, the version is deleted,
  none of its publications is live, the search records of each target it was ever published to are
  queued for removal, and the audit trails of all versions are still complete.\<close>

theorem deletion_claim_effect:
  assumes "deletion_claim md5 t i j worker u s = Inr (Some d, s')"
    and "version_keys_ok s" and "audit_ok s" and "lineage_ok s"
    and "\<forall>k \<in> set (db_jobs s). ij_id k = j \<longrightarrow> ij_lifecycle_request_id k = Some q" and "deletion_events_ok j q s"
  shows "\<exists>row \<in> set (db_jobs s). ij_id row = j \<and> ij_stage row = ST_DELETE \<and> active_job_state (ij_state row)
    \<and> \<not> lease_active row (now s) \<and> ij_attempt_count row < ij_max_attempts row
    \<and> cd_attempt_number d = ij_attempt_count row + 1 \<and> cd_document_version_id d = i \<and> cd_tenant_id d = t
    \<and> deletion_started row worker s d s' \<and> audit_ok s' \<and> version_keys_ok s' \<and> deletion_events_ok j q s'
    \<and> (\<forall>s2 md5' t' i' worker' u' d'. db_jobs s2 = db_jobs s' \<longrightarrow> now s2 < now s + seconds 300
         \<longrightarrow> (\<forall>s3. deletion_claim md5' t' i' j worker' u' s2 \<noteq> Inr (Some d', s3)))"
proof -
  from deletion_claim_steps [OF assms(1)] obtain row v r s1 where row: "row \<in> set (db_jobs s)" "ij_id row = j"
    "ij_tenant_id row = t" "ij_document_version_id row = i" "ij_stage row = ST_DELETE"
    and v: "v \<in> set (db_versions s)" "version_scope v = job_scope row"
    and req: "ij_lifecycle_request_id row = Some (lr_id r)"
    and act: "active_job_state (ij_state row)" "\<not> lease_active row (now s)" "ij_attempt_count row < ij_max_attempts row"
    and s1: "\<exists>as. s1 = s\<lparr>db_attempts := as\<rparr>" and st: "start_deletion md5 row v r worker u s1 = Inr (d, s')"
    by metis
  from s1 obtain as where s1: "s1 = s\<lparr>db_attempts := as\<rparr>" by (elim exE)
  have fr: "db_versions s1 = db_versions s" "db_events s1 = db_events s" using s1 by simp_all
  have q: "lr_id r = q" using assms(5) row(1,2) req by auto
  have v1: "v \<in> set (db_versions s1)" using v(1) fr(1) by simp
  have ok: "version_keys_ok s1" "audit_ok s1" "lineage_ok s1" "deletion_events_ok (ij_id row) (lr_id r) s1"
    using assms(2-4,6) audit_frame [OF fr] row(2) q by simp_all
  note e = start_deletion_ok [OF st v1 v(2) ok]
  have started: "deletion_started row worker s d s'"
    using e [THEN conjunct1] s1 by (simp add: deletion_started_def)
  then have lease: "\<forall>k \<in> set (db_jobs s'). ij_id k = j \<longrightarrow> owns_attempt k worker (cd_attempt_number d)
        \<and> ij_lease_expires_at k = Some (now s + seconds 300)"
    unfolding deletion_started_def row(2) by (rule conjunct1)
  have "deletion_claim md5' t' i' j worker' u' s2 \<noteq> Inr (Some d', s3)"
    if "db_jobs s2 = db_jobs s'" "now s2 < now s + seconds 300" for s2 md5' t' i' worker' u' d' s3
  proof
    assume "deletion_claim md5' t' i' j worker' u' s2 = Inr (Some d', s3)"
    from deletion_claim_steps [OF this] obtain k where k: "k \<in> set (db_jobs s2)" "ij_id k = j" "\<not> lease_active k (now s2)"
      by metis
    with lease that(1) have "owns_attempt k worker (cd_attempt_number d) \<and> ij_lease_expires_at k = Some (now s + seconds 300)"
      by simp
    with k(3) that(2) show False by (simp add: lease_active_def owns_attempt_def)
  qed
  with e started row act q show ?thesis by (intro bexI [of _ row]) simp_all
qed

section \<open>Witnesses\<close>

definition sample_md5 :: "string \<Rightarrow> uuid" where
  "sample_md5 text = 1000 + of_char (last text)"

definition delete_job :: job_row where
  "delete_job = new_job 31 (1, 2, 4) ST_DELETE 0 3 (Some 30) 10"

definition deletion_session :: session where
  "deletion_session = published_session\<lparr>db_requests := [delete_request],
     db_jobs := db_jobs published_session @ [delete_job]\<rparr>"

lemmas deletion_samples = delete_job_def deletion_session_def delete_request_def new_request_def queued_version_def
  recovery_samples

definition claimed_session :: session where
  "claimed_session = deletion_session\<lparr>
     db_requests := [delete_request\<lparr>lr_state := RS_RUNNING\<rparr>],
     db_jobs := [new_job 94 (1, 2, 4) ST_INDEX 0 3 None 10, leased_row ''w1'' 1 (seconds 300) 10 delete_job],
     db_attempts := [\<lparr>ja_id = 100, ja_tenant_id = 1, ja_collection_id = 2, ja_job_id = 31,
       ja_attempt_number = 1, ja_worker_id = ''w1'', ja_started_at = 10, ja_heartbeat_at = Some 10,
       ja_finished_at = None, ja_outcome = None, ja_error_class = None, ja_reason_code = None\<rparr>]\<rparr>"

definition fenced_session :: session where
  "fenced_session = claimed_session\<lparr>
     db_jobs := [(new_job 94 (1, 2, 4) ST_INDEX 0 3 None 10)\<lparr>ij_state := JS_CANCELLED\<rparr>,
       leased_row ''w1'' 1 (seconds 300) 10 delete_job]\<rparr>"

lemmas claimed_samples = claimed_session_def fenced_session_def deletion_samples

lemma sample_attempt: "start_deletion_attempt delete_job delete_request ''w1'' 1 100 deletion_session = Inr claimed_session"
  by (simp add: start_deletion_attempt_def commit_eval claimed_samples)

lemma sample_fence: "cancel_competing_jobs sample_md5 1 4 31 claimed_session = Inr fenced_session"
proof -
  have "affected_versions 1 4 claimed_session = db_versions claimed_session" "descendant_versions 1 4 fenced_session = []"
    by (simp_all add: affected_versions_def descendant_versions_def with_recursive_def recursive_union.simps reprocessed_def
        claimed_samples)
  moreover from this(1) have "cancel_jobs_of_lineage 1 4 31 claimed_session = Inr fenced_session"
    by (simp add: cancel_jobs_of_lineage_def competing_job_def commit_eval claimed_samples)
  ultimately show ?thesis
    by (simp add: cancel_competing_jobs_def cancel_descendants_def update_versions_def update_rows_def)
qed

lemma sample_targets: "search_targets 1 4 fenced_session = Inr [sample_target]"
  by (simp add: search_targets_def new_search_target_def search_target_name_ok_def lower_alnum_def claimed_samples)

definition sample_deletion :: ClaimedDeletion where
  "sample_deletion = \<lparr>cd_job_id = 31, cd_tenant_id = 1, cd_collection_id = 2, cd_document_version_id = 4,
     cd_request_id = 30, cd_attempt_number = 1, cd_physical_cleanup_due = False, cd_object_keys = [],
     cd_search_targets = [sample_target]\<rparr>"

definition revoked_session :: session where
  "revoked_session = fenced_session\<lparr>
     db_search_cleanup := [cleanup_entry 1 2 4 (target_publication sample_target) None 102 10],
     db_publications := map (\<lambda>p. p\<lparr>ip_deleted_at := Some 10\<rparr>) (db_publications fenced_session)\<rparr>"

definition deleted_version :: version_row where
  "deleted_version = sample_version\<lparr>dv_state := DELETED, dv_state_revision := 9, dv_page_count := Some 3\<rparr>"

definition deleted_session :: session where
  "deleted_session = revoked_session\<lparr>db_versions := [deleted_version],
     db_events := db_events revoked_session
       @ [delete_event sample_deletion ''w1'' 101 (hd (db_versions deletion_session))]\<rparr>"

lemmas deleted_samples = sample_deletion_def revoked_session_def deleted_session_def deleted_version_def target_publication_def
  delete_event_def claimed_samples

lemma sample_enqueued:
  "\<exists>s1. enqueue_all 1 2 4 None (\<lambda>n. word_of_nat (n + 102)) [target_publication sample_target] fenced_session = Inr s1
     \<and> mark_search_revoked sample_deletion s1 = Inr revoked_session"
  by (simp add: enqueue_all_def enqueue_cleanup_def insert_search_cleanup_def cleanup_checks_def paired_attempt_def
      job_ref_ok_def cleanup_target_key_def cleanup_scope_def mark_search_revoked_def update_publications_def
      publication_checks_def not_before_def publication_unique_checks_def publication_external_key_def
      publication_kind_key_def commit_eval deleted_samples)

lemma sample_marked:
  "mark_version_deleted sample_deletion ''w1'' (hd (db_versions deletion_session)) 101 revoked_session = Inr deleted_session"
  by (simp add: mark_version_deleted_def insert_event_once_def event_idempotency_def commit_eval deleted_samples)

lemma sample_start:
  "start_deletion sample_md5 delete_job (hd (db_versions deletion_session)) delete_request ''w1''
     (\<lambda>n. word_of_nat (n + 100)) deletion_session = Inr (sample_deletion, deleted_session)"
  using sample_enqueued sample_attempt sample_fence sample_targets sample_marked
  by (auto simp: start_deletion_def delete_job_def delete_request_def new_request_def sample_deletion_def
      queued_version_def sample_defs new_job_def Let_def add.commute)

lemma sample_deletion_claim:
  "deletion_claim sample_md5 1 4 31 ''w1'' (\<lambda>n. word_of_nat (n + 100)) deletion_session
     = Inr (Some sample_deletion, deleted_session)"
proof -
  have "deletion_claim_rows 1 4 31 deletion_session
      = [(delete_job, hd (db_versions deletion_session), sample_collection, delete_request)]"
    by (simp add: deletion_claim_rows_def deletion_samples)
  moreover have "active_lease delete_job deletion_session = Inr (False, deletion_session)"
    by (simp add: active_lease_def deletion_samples)
  moreover note sample_start
  ultimately show ?thesis
    by (simp add: deletion_claim_def delete_job_def new_job_def)
qed

lemma deletion_session_ok:
  "version_keys_ok deletion_session" "audit_ok deletion_session" "lineage_ok deletion_session" "deletion_events_ok 31 30 deletion_session"
proof -
  have "audit_trail (sample_log 0 [RECEIVED, VALIDATING, QUEUED, PARSING, NORMALIZING, CHUNKING, EMBEDDING, INDEXING, READY]) 8 READY"
    by (rule trail_from_audit) simp
  then show "audit_ok deletion_session"
    by (simp add: audit_ok_def events_of_def version_exists_def deletion_samples)
qed (simp_all add: version_keys_ok_def lineage_ok_def reprocessed_def deletion_events_ok_def deletion_samples)

lemma deleted_session_ok: "version_keys_ok deleted_session" "audit_ok deleted_session" "deletion_events_ok 31 30 deleted_session"
proof -
  let ?v = "hd (db_versions deletion_session)"
  have v: "?v \<in> set (db_versions deletion_session)" "version_scope ?v = job_scope delete_job"
    and ids: "ij_id delete_job = 31" "lr_id delete_request = 30"
    by (simp_all add: deletion_samples)
  note ok = start_deletion_ok [OF sample_start v deletion_session_ok(1-3) deletion_session_ok(4) [folded ids], unfolded ids, THEN conjunct2]
  show "audit_ok deleted_session" by (rule ok [THEN conjunct1])
  show "version_keys_ok deleted_session" by (rule ok [THEN conjunct2, THEN conjunct1])
  show "deletion_events_ok 31 30 deleted_session" by (rule ok [THEN conjunct2, THEN conjunct2, THEN conjunct1])
qed

theorem deletion_claim_effect_witness:
  "audit_ok deleted_session
    \<and> deletion_claim sample_md5 1 4 31 ''w2'' (\<lambda>n. word_of_nat (n + 200)) (deleted_session\<lparr>now := 11\<rparr>)
       \<noteq> Inr (Some sample_deletion, deleted_session)"
proof -
  have "\<forall>k \<in> set (db_jobs deletion_session). ij_id k = 31 \<longrightarrow> ij_lifecycle_request_id k = Some 30"
    by (simp add: deletion_samples)
  note e = deletion_claim_effect [OF sample_deletion_claim deletion_session_ok(1-3) this deletion_session_ok(4)]
  from e obtain row where row: "audit_ok deleted_session \<and> (\<forall>s2 md5' t' i' worker' u' d'. db_jobs s2 = db_jobs deleted_session
      \<longrightarrow> now s2 < now deletion_session + seconds 300
      \<longrightarrow> (\<forall>s3. deletion_claim md5' t' i' 31 worker' u' s2 \<noteq> Inr (Some d', s3)))" by blast
  have "now deletion_session = 10" by (simp add: deletion_samples)
  with row [THEN conjunct2, rule_format, of "deleted_session\<lparr>now := 11\<rparr>"] row show ?thesis by simp
qed

end
