(* ===== verification/Deletion_Service.thy ===== *)
theory Deletion_Service
  imports Deletion_Claim
begin

text \<open>
  \<open>lifecycle/deletion_service.py\<close>: one delivery of a deletion job. After the claim the queued search
  records of the version are removed, then objects are deleted batch by batch, each batch between two
  transactions. The search adapter and the object storage are arguments with states of their own, and
  \<open>env\<close> is what other sessions commit between two transactions. Closing the adapter is left out.
\<close>

section \<open>The service\<close>

fun delete_objects :: "(string \<Rightarrow> 'y \<Rightarrow> unit res \<times> 'y) \<Rightarrow> string list \<Rightarrow> 'y \<Rightarrow> unit res \<times> 'y" where
  "delete_objects delete_key [] y = (Inr (), y)"
| "delete_objects delete_key (k # ks) y =
     (case delete_key k y of
        (Inl e, y1) \<Rightarrow> (Inl e, y1)
      | (Inr _, y1) \<Rightarrow> delete_objects delete_key ks y1)"

text \<open>\<open>while True\<close>: \<open>None\<close> means that the loop does not end. \<open>u n\<close> is the identifier drawn in the
  \<open>n\<close>th round.\<close>

partial_function (option) batch_loop ::
  "(session \<Rightarrow> session) \<Rightarrow> (string \<Rightarrow> 'y \<Rightarrow> unit res \<times> 'y) \<Rightarrow> (string \<Rightarrow> uuid) \<Rightarrow> string \<Rightarrow> int
   \<Rightarrow> (nat \<Rightarrow> uuid) \<Rightarrow> ClaimedDeletion \<Rightarrow> session \<Rightarrow> 'y \<Rightarrow> (unit res \<times> session \<times> 'y) option" where
  "batch_loop env delete_key md5 worker_id batch_size u deletion s y =
     (case transaction (next_batch md5 deletion worker_id batch_size) (env s) of
        (Inl e, s1) \<Rightarrow> Some (Inl e, s1, y)
      | (Inr batch, s1) \<Rightarrow>
          (case delete_objects delete_key (cd_object_keys batch) y of
             (Inl e, y1) \<Rightarrow> Some (Inl e, s1, y1)
           | (Inr _, y1) \<Rightarrow>
               (case transaction (complete_batch batch worker_id (u 0)) (env s1) of
                  (Inl e, s2) \<Rightarrow> Some (Inl e, s2, y1)
                | (Inr has_more, s2) \<Rightarrow>
                    if has_more
                    then batch_loop env delete_key md5 worker_id batch_size (\<lambda>n. u (n + 1)) batch s2 y1
                    else Some (Inr (), s2, y1))))"

text \<open>The body of the \<open>try\<close> statement.\<close>

definition deletion_work ::
  "'x search_adapter \<Rightarrow> (session \<Rightarrow> session) \<Rightarrow> (string \<Rightarrow> 'y \<Rightarrow> unit res \<times> 'y) \<Rightarrow> (string \<Rightarrow> uuid) \<Rightarrow> string
   \<Rightarrow> int \<Rightarrow> int \<Rightarrow> timestamp \<Rightarrow> int \<Rightarrow> (nat \<Rightarrow> uuid) \<Rightarrow> ClaimedDeletion \<Rightarrow> session \<Rightarrow> 'x \<Rightarrow> 'y
   \<Rightarrow> (unit res \<times> session \<times> 'x \<times> 'y) option" where
  "deletion_work adapter env delete_key md5 worker_id page_size batch_size lease max_attempts u deletion s x y =
     (case run_once adapter env page_size worker_id lease max_attempts None
             (Some (cd_document_version_id deletion)) s x of
        (Inl e, s1, x1) \<Rightarrow> Some (Inl e, s1, x1, y)
      | (Inr _, s1, x1) \<Rightarrow>
          (case transaction (\<lambda>s. bind_res (search_cleanup_complete deletion worker_id s) (\<lambda>c. Inr (c, s))) (env s1) of
             (Inl e, s2) \<Rightarrow> Some (Inl e, s2, x1, y)
           | (Inr cleaned, s2) \<Rightarrow>
               if \<not> cleaned then Some (Inl (RuntimeError ''search deletion remains pending''), s2, x1, y)
               else map_option (\<lambda>(r, s3, y1). (r, s3, x1, y1))
                      (batch_loop env delete_key md5 worker_id batch_size u deletion s2 y)))"

definition deletion_process ::
  "'x search_adapter \<Rightarrow> (session \<Rightarrow> session) \<Rightarrow> (string \<Rightarrow> 'y \<Rightarrow> unit res \<times> 'y) \<Rightarrow> (string \<Rightarrow> uuid) \<Rightarrow> string
   \<Rightarrow> int \<Rightarrow> int \<Rightarrow> timestamp \<Rightarrow> int \<Rightarrow> int \<Rightarrow> uuid \<Rightarrow> uuid \<Rightarrow> uuid \<Rightarrow> (nat \<Rightarrow> uuid) \<Rightarrow> (nat \<Rightarrow> uuid) \<Rightarrow> session \<Rightarrow> 'x \<Rightarrow> 'y
   \<Rightarrow> (unit res \<times> session \<times> 'x \<times> 'y) option" where
  "deletion_process adapter env delete_key md5 worker_id page_size batch_size lease max_attempts retry_seconds
     tenant_id version_id job_id u w s x y =
     (case transaction (deletion_claim md5 tenant_id version_id job_id worker_id u) (env s) of
        (Inl e, s1) \<Rightarrow> Some (Inl e, s1, x, y)
      | (Inr None, s1) \<Rightarrow> Some (Inr (), s1, x, y)
      | (Inr (Some deletion), s1) \<Rightarrow>
          (case deletion_work adapter env delete_key md5 worker_id page_size batch_size lease max_attempts w
                  deletion s1 x y of
             None \<Rightarrow> None
           | Some (Inr _, s2, x1, y1) \<Rightarrow> Some (Inr (), s2, x1, y1)
           | Some (Inl (RetryableIngestionError reason delay), s2, x1, y1) \<Rightarrow>
               Some (Inl (RetryableIngestionError reason delay), s2, x1, y1)
           | Some (Inl (JobFenceLostError _), s2, x1, y1) \<Rightarrow> Some (Inr (), s2, x1, y1)
           | Some (Inl _, s2, x1, y1) \<Rightarrow>
               (case unit_transaction (schedule_deletion_retry deletion worker_id ''DELETE_DEPENDENCY_UNAVAILABLE''
                       retry_seconds) (env s2) of
                  (Inl e, s3) \<Rightarrow> Some (Inl e, s3, x1, y1)
                | (Inr _, s3) \<Rightarrow>
                    Some (Inl (RetryableIngestionError ''DELETE_DEPENDENCY_UNAVAILABLE'' retry_seconds), s3, x1, y1))))"

end
