(* ===== verification/Deletion_Batches.thy ===== *)
theory Deletion_Batches
  imports Deletion_Service
begin

text \<open>
  What the batches of a deletion promise: an object is handed out for removal only when nothing keeps
  it, the last batch closes job, request and rows, and the loop over the batches ends.
\<close>

section \<open>The fence\<close>

lemma lock_deletion_fence_Inr:
  assumes "lock_deletion_fence d worker s = Inr (v, j, c)"
  shows "v \<in> set (db_versions s) \<and> j \<in> set (db_jobs s) \<and> c \<in> set (db_collections s)
    \<and> ij_tenant_id j = dv_tenant_id v \<and> ij_document_version_id j = dv_id v \<and> ij_id j = cd_job_id d
    \<and> ij_tenant_id j = cd_tenant_id d \<and> owns_attempt j worker (cd_attempt_number d)
    \<and> co_tenant_id c = dv_tenant_id v \<and> co_id c = dv_collection_id v"
proof -
  from assms have "deletion_fence_rows d worker s = [(v, j, c)]"
    unfolding lock_deletion_fence_def by (elim bind_res_InrE) (auto simp: one_or_none_Some split: option.splits)
  then have "(v, j, c) \<in> set (deletion_fence_rows d worker s)" by simp
  then show ?thesis unfolding deletion_fence_rows_def by (auto split: if_splits)
qed

section \<open>The ledger\<close>

lemma insert_object_cleanup_Inr:
  assumes "insert_object_cleanup r s = Inr s'"
  shows "(object_cleanup_key r \<in> object_cleanup_key ` set (db_object_cleanup s) \<and> s' = s)
    \<or> (object_cleanup_key r \<notin> object_cleanup_key ` set (db_object_cleanup s)
        \<and> s' = s\<lparr>db_object_cleanup := db_object_cleanup s @ [r]\<rparr>)"
  using assms by (auto simp: insert_object_cleanup_def bind_res_eq_Inr split: if_splits)

text \<open>The rows the initialisation appends: one for each candidate without an entry of the request.\<close>

lemma initialize_entries:
  assumes "fold_res (\<lambda>k. insert_object_cleanup (new_object_cleanup md5 sc q k)) ks s = Inr s'"
  shows "\<exists>new. s' = s\<lparr>db_object_cleanup := db_object_cleanup s @ map (new_object_cleanup md5 sc q) new\<rparr>
    \<and> set new \<subseteq> set ks \<and> distinct new
    \<and> (\<forall>k \<in> set new. (sc, q, k) \<notin> object_cleanup_key ` set (db_object_cleanup s))"
  using assms
proof (induction ks arbitrary: s)
  case Nil
  then show ?case by (intro exI [of _ "[]"]) simp
next
  case (Cons k ks)
  from Cons.prems obtain s1 where s1: "insert_object_cleanup (new_object_cleanup md5 sc q k) s = Inr s1"
    and rest: "fold_res (\<lambda>k. insert_object_cleanup (new_object_cleanup md5 sc q k)) ks s1 = Inr s'"
    by (auto elim: bind_res_InrE)
  have key: "object_cleanup_key (new_object_cleanup md5 sc q x) = (sc, q, x)" for x
    by (simp add: object_cleanup_key_def new_object_cleanup_def)
  from Cons.IH [OF rest] obtain new where new: "s' = s1\<lparr>db_object_cleanup := db_object_cleanup s1
      @ map (new_object_cleanup md5 sc q) new\<rparr>" "set new \<subseteq> set ks" "distinct new"
    "\<forall>k \<in> set new. (sc, q, k) \<notin> object_cleanup_key ` set (db_object_cleanup s1)" by (elim exE conjE)
  from insert_object_cleanup_Inr [OF s1] show ?case
  proof (elim disjE conjE)
    assume "s1 = s"
    with new show ?thesis by (intro exI [of _ new]) auto
  next
    assume n: "object_cleanup_key (new_object_cleanup md5 sc q k) \<notin> object_cleanup_key ` set (db_object_cleanup s)"
      and e: "s1 = s\<lparr>db_object_cleanup := db_object_cleanup s @ [new_object_cleanup md5 sc q k]\<rparr>"
    have "k \<notin> set new" using new(4) key [of k] e by auto
    then show ?thesis
      using new n key e by (intro exI [of _ "k # new"]) (auto simp: image_Un)
  qed
qed

lemma initialize_cleanup_ledger_Inr:
  assumes "initialize_cleanup_ledger md5 v j s = Inr s'"
  shows "\<exists>new. s' = s\<lparr>db_object_cleanup := db_object_cleanup s @ new\<rparr>
    \<and> distinct (map oc_object_key new)
    \<and> (\<forall>r \<in> set new. oc_state r = CL_PENDING \<and> oc_tenant_id r = ij_tenant_id j
         \<and> oc_document_version_id r = ij_document_version_id j
         \<and> Some (oc_lifecycle_request_id r) = ij_lifecycle_request_id j
         \<and> object_cleanup_key r \<notin> object_cleanup_key ` set (db_object_cleanup s)
         \<and> oc_collection_id r = ij_collection_id j
         \<and> oc_object_key r \<in> set (cleanup_candidates (ij_tenant_id j) (ij_collection_id j) (ij_document_version_id j)
              (dv_object_key v) s))"
proof (cases "ij_lifecycle_request_id j")
  case None
  with assms have "s' = s" by (auto simp: initialize_cleanup_ledger_def Let_def split: if_splits)
  then show ?thesis by (intro exI [of _ "[]"]) simp
next
  case (Some q)
  let ?ks = "cleanup_candidates (ij_tenant_id j) (ij_collection_id j) (ij_document_version_id j) (dv_object_key v) s"
  from assms Some have "fold_res (\<lambda>k. insert_object_cleanup (new_object_cleanup md5 (job_scope j) q k)) ?ks s = Inr s'"
    by (simp add: initialize_cleanup_ledger_def Let_def)
  from initialize_entries [OF this] obtain new where new: "s' = s\<lparr>db_object_cleanup := db_object_cleanup s
      @ map (new_object_cleanup md5 (job_scope j) q) new\<rparr>" "set new \<subseteq> set ?ks" "distinct new"
    "\<forall>k \<in> set new. (job_scope j, q, k) \<notin> object_cleanup_key ` set (db_object_cleanup s)" by (elim exE conjE)
  have "map oc_object_key (map (new_object_cleanup md5 (job_scope j) q) new) = new"
    by (simp add: new_object_cleanup_def o_def)
  with new Some show ?thesis
    by (intro exI [of _ "map (new_object_cleanup md5 (job_scope j) q) new"])
       (auto simp: new_object_cleanup_def object_cleanup_key_def)
qed

section \<open>What may be deleted\<close>

text \<open>An artifact is kept while it, or anything derived from it, is under retention.\<close>

definition kept_artifact :: "uuid \<Rightarrow> uuid \<Rightarrow> session \<Rightarrow> artifact_row \<Rightarrow> bool" where
  "kept_artifact t i s a \<longleftrightarrow> reached derived_from (artifact_retained (now s))
     {a \<in> set (db_artifacts s). af_tenant_id a = t \<and> af_document_version_id a = i} a"

lemma retained_artifacts_iff: "a \<in> set (retained_artifacts t i None s) \<longleftrightarrow> kept_artifact t i s a"
  by (simp add: retained_artifacts_def with_recursive_iff kept_artifact_def)

lemma kept_artifactI:
  assumes "a \<in> set (db_artifacts s)" and "af_tenant_id a = t" and "af_document_version_id a = i"
    and "artifact_retained (now s) a"
  shows "kept_artifact t i s a"
  using assms unfolding kept_artifact_def by (intro reached.base) simp_all

lemma kept_artifact_source:
  assumes "kept_artifact t i s c" and "a \<in> set (db_artifacts s)" and "af_tenant_id a = t"
    and "af_document_version_id a = i" and "af_source_artifact_id c = Some (af_id a)"
  shows "kept_artifact t i s a"
  unfolding kept_artifact_def
  by (rule reached.step [OF assms(1) [unfolded kept_artifact_def]]) (use assms(2-5) in \<open>simp_all add: derived_from_def\<close>)

lemma eligible_keys_iff:
  "k \<in> set (eligible_keys t i s) \<longleftrightarrow> (\<exists>r \<in> set (db_object_cleanup s). oc_object_key r = k \<and> oc_tenant_id r = t
     \<and> oc_document_version_id r = i \<and> oc_state r = CL_PENDING) \<and> (\<forall>a. kept_artifact t i s a \<longrightarrow> af_object_key a \<noteq> k)"
proof -
  have "x \<notin> af_object_key ` set (retained_artifacts t i None s) \<longleftrightarrow> (\<forall>a. kept_artifact t i s a \<longrightarrow> af_object_key a \<noteq> x)" for x
    by (auto simp: image_iff retained_artifacts_iff)
  then show ?thesis unfolding eligible_keys_def by auto
qed

lemma eligible_keys_sorted: "sorted (eligible_keys t i s)" "distinct (eligible_keys t i s)"
  by (simp_all add: eligible_keys_def)

lemma pending_keys_for_deletion_Inr:
  assumes "pending_keys_for_deletion d limit s = Inr ks"
  shows "0 \<le> limit \<and> ks = take (nat limit) (eligible_keys (cd_tenant_id d) (cd_document_version_id d) s)"
proof -
  let ?E = "eligible_keys (cd_tenant_id d) (cd_document_version_id d) s"
  have pre: "filter (\<lambda>k. k \<in> set (take n xs)) xs = take n xs" if "distinct xs" for n and xs :: "string list"
  proof -
    from that have "set (take n xs) \<inter> set (drop n xs) = {}"
      by (metis append_take_drop_id distinct_append)
    then have "filter (\<lambda>k. k \<in> set (take n xs)) (drop n xs) = []" by (auto simp: filter_empty_conv)
    moreover have "filter (\<lambda>k. k \<in> set (take n xs)) (take n xs) = take n xs" by (simp add: filter_id_conv)
    moreover have "filter (\<lambda>k. k \<in> set (take n xs)) (take n xs @ drop n xs) = take n xs"
      unfolding filter_append using calculation by simp
    ultimately show ?thesis by simp
  qed
  from assms have "0 \<le> limit" and "(if take (nat limit) ?E = [] then Inr []
      else Inr (filter (\<lambda>k. k \<in> set (take (nat limit) ?E)) ?E)) = Inr ks"
    unfolding pending_keys_for_deletion_def recheck_keys_def Let_def by (auto split: if_splits)
  with pre [OF eligible_keys_sorted(2), of "nat limit"] show ?thesis by (simp split: if_splits)
qed

lemma next_batch_steps:
  assumes "next_batch md5 d worker limit s = Inr (b, s')"
  obtains v j c where "lock_deletion_fence d worker s = Inr (v, j, c)"
    and "(\<not> deletion_cleanup_due v j c s \<and> b = d\<lparr>cd_physical_cleanup_due := False, cd_object_keys := []\<rparr> \<and> s' = s)
       \<or> (deletion_cleanup_due v j c s \<and> initialize_cleanup_ledger md5 v j s = Inr s' \<and> 0 \<le> limit
           \<and> b = d\<lparr>cd_physical_cleanup_due := True, cd_object_keys :=
                 take (nat limit) (eligible_keys (cd_tenant_id d) (cd_document_version_id d) s')\<rparr>)"
proof -
  from assms obtain r where r: "lock_deletion_fence d worker s = Inr r" unfolding next_batch_def by (elim bind_res_InrE)
  obtain v j c where rr: "r = (v, j, c)" by (cases r)
  note n = assms [unfolded next_batch_def r rr bind_res_Inr prod.case]
  show thesis
  proof (cases "deletion_cleanup_due v j c s")
    case True
    with n obtain s1 ks where "initialize_cleanup_ledger md5 v j s = Inr s1" "pending_keys_for_deletion d limit s1 = Inr ks"
      "b = d\<lparr>cd_physical_cleanup_due := True, cd_object_keys := ks\<rparr>" "s' = s1"
      by (auto elim!: bind_res_InrE)
    with True pending_keys_for_deletion_Inr [of d limit s1 ks] show thesis
      using that [OF r [unfolded rr]] by simp
  next
    case False
    with n show thesis using that [OF r [unfolded rr]] by simp
  qed
qed

text \<open>The job and the version a claim names belong together.\<close>

definition claim_of_job :: "ClaimedDeletion \<Rightarrow> session \<Rightarrow> bool" where
  "claim_of_job d s \<longleftrightarrow> (\<forall>j \<in> set (db_jobs s). ij_id j = cd_job_id d \<longrightarrow>
     job_scope j = (cd_tenant_id d, cd_collection_id d, cd_document_version_id d))
     \<and> (\<forall>v \<in> set (db_versions s). dv_id v = cd_document_version_id d \<longrightarrow>
          version_scope v = (cd_tenant_id d, cd_collection_id d, cd_document_version_id d))"

text \<open>C35: what a batch hands out. Its keys are distinct, in order and at most as many as the limit. They are handed out
  only under the fence, with the collection not on legal hold, the retention of the version over and no version
  reprocessed from it alive; none is the key of an artifact of the version that is under retention or that such an
  artifact was derived from. Each key has a pending entry in the ledger of the version: an entry that this batch adds is
  for an object that no other version needs; an entry that was pending before is handed out as it is, whether
  another version needs its object is asked when the entry is added, not again. Taking a batch changes nothing but the
  ledger.\<close>

theorem next_batch_safe:
  assumes "next_batch md5 d worker limit s = Inr (b, s')" and "k \<in> set (cd_object_keys b)" and "claim_of_job d s"
  shows "cd_physical_cleanup_due b \<and> int (length (cd_object_keys b)) \<le> limit \<and> distinct (cd_object_keys b)
    \<and> sorted (cd_object_keys b)
    \<and> (\<exists>v \<in> set (db_versions s). \<exists>j \<in> set (db_jobs s). \<exists>c \<in> set (db_collections s).
         ij_id j = cd_job_id d \<and> owns_attempt j worker (cd_attempt_number d)
         \<and> dv_tenant_id v = cd_tenant_id d \<and> dv_id v = cd_document_version_id d
         \<and> co_tenant_id c = dv_tenant_id v \<and> co_id c = dv_collection_id v
         \<and> \<not> co_legal_hold c \<and> now s \<ge> dv_created_at v + days (co_retention_days c))
    \<and> \<not> surviving_descendant (cd_tenant_id d) (cd_collection_id d) (cd_document_version_id d) s
    \<and> (\<forall>a. kept_artifact (cd_tenant_id d) (cd_document_version_id d) s a \<longrightarrow> af_object_key a \<noteq> k)
    \<and> (\<exists>r \<in> set (db_object_cleanup s'). oc_object_key r = k \<and> oc_state r = CL_PENDING
         \<and> oc_tenant_id r = cd_tenant_id d \<and> oc_document_version_id r = cd_document_version_id d
         \<and> (r \<in> set (db_object_cleanup s) \<or> \<not> needed_elsewhere (cd_tenant_id d) (cd_document_version_id d) k s))
    \<and> (\<exists>cs. s' = s\<lparr>db_object_cleanup := cs\<rparr>)"
proof -
  let ?t = "cd_tenant_id d" and ?i = "cd_document_version_id d"
  from next_batch_steps [OF assms(1)] obtain v j c where f: "lock_deletion_fence d worker s = Inr (v, j, c)"
    and n: "(\<not> deletion_cleanup_due v j c s \<and> b = d\<lparr>cd_physical_cleanup_due := False, cd_object_keys := []\<rparr> \<and> s' = s)
       \<or> (deletion_cleanup_due v j c s \<and> initialize_cleanup_ledger md5 v j s = Inr s' \<and> 0 \<le> limit
           \<and> b = d\<lparr>cd_physical_cleanup_due := True, cd_object_keys := take (nat limit) (eligible_keys ?t ?i s')\<rparr>)"
    by blast
  let ?E = "eligible_keys ?t ?i s'"
  from n assms(2) have due: "deletion_cleanup_due v j c s" and init: "initialize_cleanup_ledger md5 v j s = Inr s'"
    and lim: "0 \<le> limit" and b: "b = d\<lparr>cd_physical_cleanup_due := True, cd_object_keys := take (nat limit) ?E\<rparr>"
    by auto
  note f = lock_deletion_fence_Inr [OF f]
  with assms(3) have sc: "job_scope j = (?t, cd_collection_id d, ?i)" unfolding claim_of_job_def by blast
  from initialize_cleanup_ledger_Inr [OF init] obtain new where s': "s' = s\<lparr>db_object_cleanup := db_object_cleanup s @ new\<rparr>"
    and new: "\<forall>r \<in> set new. oc_object_key r \<in> set (cleanup_candidates ?t (cd_collection_id d) ?i (dv_object_key v) s)"
    using sc by (elim exE conjE) auto
  from assms(2) b have "k \<in> set (take (nat limit) ?E)" by simp
  then have "k \<in> set ?E" by (rule in_set_takeD)
  then obtain r where r: "r \<in> set (db_object_cleanup s')" "oc_object_key r = k" "oc_tenant_id r = ?t"
    "oc_document_version_id r = ?i" "oc_state r = CL_PENDING" and kept: "\<forall>a. kept_artifact ?t ?i s' a \<longrightarrow> af_object_key a \<noteq> k"
    unfolding eligible_keys_iff by blast
  have kept: "\<forall>a. kept_artifact ?t ?i s a \<longrightarrow> af_object_key a \<noteq> k"
    using kept s' by (simp add: kept_artifact_def)
  have "r \<in> set (db_object_cleanup s) \<or> \<not> needed_elsewhere ?t ?i k s"
  proof (cases "r \<in> set (db_object_cleanup s)")
    case False
    with r(1) s' have "r \<in> set new" by simp
    with new r(2) show ?thesis by (auto simp: cleanup_candidates_def Let_def)
  qed simp
  with r have led: "\<exists>r \<in> set (db_object_cleanup s'). oc_object_key r = k \<and> oc_state r = CL_PENDING
         \<and> oc_tenant_id r = ?t \<and> oc_document_version_id r = ?i
         \<and> (r \<in> set (db_object_cleanup s) \<or> \<not> needed_elsewhere ?t ?i k s)" by blast
  have "\<not> surviving_descendant ?t (cd_collection_id d) ?i s" "\<not> co_legal_hold c"
    "now s \<ge> dv_created_at v + days (co_retention_days c)"
    using due sc by (simp_all add: deletion_cleanup_due_def retention_over_def split: if_splits)
  moreover have "\<exists>v \<in> set (db_versions s). \<exists>j \<in> set (db_jobs s). \<exists>c \<in> set (db_collections s).
         ij_id j = cd_job_id d \<and> owns_attempt j worker (cd_attempt_number d) \<and> dv_tenant_id v = ?t \<and> dv_id v = ?i
         \<and> co_tenant_id c = dv_tenant_id v \<and> co_id c = dv_collection_id v
         \<and> \<not> co_legal_hold c \<and> now s \<ge> dv_created_at v + days (co_retention_days c)"
    using f sc calculation by (intro bexI [of _ v] bexI [of _ j] bexI [of _ c]) simp_all
  moreover have "length (take (nat limit) ?E) \<le> nat limit" by simp
  then have "int (length (cd_object_keys b)) \<le> limit" using b lim by simp
  moreover have "distinct (cd_object_keys b)" "sorted (cd_object_keys b)"
    using b eligible_keys_sorted [of ?t ?i s'] by (simp_all add: sorted_wrt_take)
  moreover have "\<exists>cs. s' = s\<lparr>db_object_cleanup := cs\<rparr>" using s' by (rule exI)
  ultimately show ?thesis using kept led b by simp
qed

section \<open>Completing a batch\<close>

lemma mark_keys_deleted_Inr:
  assumes "mark_keys_deleted d s = Inr s'"
  shows "\<exists>cs. s' = s\<lparr>db_object_cleanup := cs\<rparr>
    \<and> (\<forall>r \<in> set cs. oc_state r = CL_PENDING \<longrightarrow> r \<in> set (db_object_cleanup s)
         \<and> (oc_tenant_id r = cd_tenant_id d \<and> oc_document_version_id r = cd_document_version_id d
              \<longrightarrow> oc_object_key r \<notin> set (cd_object_keys d)))"
proof (cases "cd_object_keys d = []")
  case True
  with assms show ?thesis by (intro exI [of _ "db_object_cleanup s"]) (simp add: mark_keys_deleted_def)
next
  case False
  let ?p = "\<lambda>r. oc_tenant_id r = cd_tenant_id d \<and> oc_document_version_id r = cd_document_version_id d
             \<and> oc_object_key r \<in> set (cd_object_keys d) \<and> oc_state r = CL_PENDING"
  let ?f = "\<lambda>r. r\<lparr>oc_state := CL_DELETED, oc_deleted_at := Some (now s), oc_attempt_count := oc_attempt_count r + 1\<rparr>"
  from assms False have "s' = s\<lparr>db_object_cleanup := update_rows ?p ?f (db_object_cleanup s)\<rparr>"
    unfolding mark_keys_deleted_def update_object_cleanup_def by (auto elim: bind_res_InrE)
  moreover have "r \<in> set (db_object_cleanup s) \<and> (oc_tenant_id r = cd_tenant_id d
      \<and> oc_document_version_id r = cd_document_version_id d \<longrightarrow> oc_object_key r \<notin> set (cd_object_keys d))"
    if "r \<in> set (update_rows ?p ?f (db_object_cleanup s))" "oc_state r = CL_PENDING" for r
  proof -
    from that(1) obtain q where q: "q \<in> set (db_object_cleanup s)" "r = (if ?p q then ?f q else q)" by (rule update_rowsE)
    have "\<not> ?p q" using that(2) unfolding q(2) by (cases "?p q") simp_all
    with q show ?thesis using that(2) by auto
  qed
  ultimately show ?thesis by (intro exI [of _ "update_rows ?p ?f (db_object_cleanup s)"]) blast
qed



lemma complete_batch_steps:
  assumes "complete_batch d worker e s = Inr (again, s')"
  obtains v j c s1 s2 s3 where "lock_deletion_fence d worker s = Inr (v, j, c)"
    "mark_keys_deleted d s = Inr s1" "mark_search_revoked d s1 = Inr s2" "mark_version_deleted d worker v e s2 = Inr s3"
    "(again \<and> cd_physical_cleanup_due d \<and> eligible_keys (cd_tenant_id d) (cd_document_version_id d) s3 \<noteq> [] \<and> s' = s3)
     \<or> (\<not> again \<and> \<not> (cd_physical_cleanup_due d \<and> eligible_keys (cd_tenant_id d) (cd_document_version_id d) s3 \<noteq> [])
        \<and> (\<exists>s4. (if cd_physical_cleanup_due d then delete_version_rows d s3 else Inr s3) = Inr s4
              \<and> finish_deletion d worker s4 = Inr s'))"
proof -
  let ?pend = "\<lambda>s3. cd_physical_cleanup_due d \<and> eligible_keys (cd_tenant_id d) (cd_document_version_id d) s3 \<noteq> []"
  from assms obtain r where r: "lock_deletion_fence d worker s = Inr r" unfolding complete_batch_def by (elim bind_res_InrE)
  obtain v j c where rr: "r = (v, j, c)" by (cases r)
  from assms [unfolded complete_batch_def r rr bind_res_Inr prod.case eligible_pending_count_pos] obtain s1 s2 s3 where
    1: "mark_keys_deleted d s = Inr s1" "mark_search_revoked d s1 = Inr s2" "mark_version_deleted d worker v e s2 = Inr s3"
    and k: "(if ?pend s3 then Inr (True, s3)
       else bind_res (if cd_physical_cleanup_due d then delete_version_rows d s3 else Inr s3) (\<lambda>s4.
            bind_res (finish_deletion d worker s4) (\<lambda>s5. Inr (False, s5)))) = Inr (again, s')"
    by (elim bind_res_InrE) blast
  show thesis
  proof (cases "?pend s3")
    case True
    with k have "again" "s' = s3" by simp_all
    with True 1 that [OF r [unfolded rr] 1] show thesis by simp
  next
    case False
    with k have "bind_res (if cd_physical_cleanup_due d then delete_version_rows d s3 else Inr s3) (\<lambda>s4.
            bind_res (finish_deletion d worker s4) (\<lambda>s5. Inr (False, s5))) = Inr (again, s')" by (simp only: if_False)
    then obtain s4 s5 where "(if cd_physical_cleanup_due d then delete_version_rows d s3 else Inr s3) = Inr s4"
      "finish_deletion d worker s4 = Inr s5" "Inr (False, s5) = (Inr (again, s') :: (bool \<times> session) res)"
      by (elim bind_res_InrE)
    with False that [OF r [unfolded rr] 1] show thesis by simp
  qed
qed





lemma insert_event_once_frame:
  assumes "insert_event_once e s = Inr s'"
  shows "\<exists>es. s' = s\<lparr>db_events := es\<rparr>"
proof (cases "event_idempotency e \<in> event_idempotency ` set (db_events s)")
  case True
  with assms show ?thesis by (intro exI [of _ "db_events s"]) (auto simp: insert_event_once_def elim: bind_res_InrE)
next
  case False
  with assms show ?thesis by (blast dest: insert_event_once_new)
qed

lemma mark_version_deleted_frame:
  assumes "mark_version_deleted d worker v e s = Inr s'"
  shows "\<exists>p f es. s' = s\<lparr>db_versions := update_rows p f (db_versions s), db_events := es\<rparr>
    \<and> (\<forall>w. dv_id (f w) = dv_id w \<and> dv_tenant_id (f w) = dv_tenant_id w \<and> dv_object_key (f w) = dv_object_key w)"
proof (cases "dv_state v = DELETED")
  case True
  with assms show ?thesis
    by (intro exI [of _ "\<lambda>_. False"] exI [of _ id] exI [of _ "db_events s"]) (simp add: mark_version_deleted_def update_rows_def)
next
  case False
  let ?p = "\<lambda>w. dv_tenant_id w = cd_tenant_id d \<and> dv_id w = cd_document_version_id d
                \<and> dv_state_revision w = dv_state_revision v"
  let ?f = "\<lambda>w. w\<lparr>dv_state := DELETED, dv_state_revision := dv_state_revision v + 1, dv_updated_at := now s\<rparr>"
  from assms False obtain rows s1 where u: "update_versions True ?p ?f s = Inr (rows, s1)"
    and e: "insert_event_once (delete_event d worker e v) s1 = Inr s'"
    unfolding mark_version_deleted_def delete_event_def by (auto elim: bind_res_pairE)
  from u have "s1 = s\<lparr>db_versions := update_rows ?p ?f (db_versions s)\<rparr>" unfolding update_versions_Inr by (elim conjE)
  with e show ?thesis
    by (intro exI [of _ ?p] exI [of _ ?f]) (auto dest!: insert_event_once_frame)
qed








section \<open>The loop ends\<close>

text \<open>The keys the ledger can get, and those of kept artifacts.\<close>

definition ledger_keys :: "ClaimedDeletion \<Rightarrow> session \<Rightarrow> string set" where
  "ledger_keys d s = af_object_key ` {a \<in> set (db_artifacts s). af_tenant_id a = cd_tenant_id d
        \<and> af_document_version_id a = cd_document_version_id d}
     \<union> dv_object_key ` {v \<in> set (db_versions s). dv_tenant_id v = cd_tenant_id d \<and> dv_id v = cd_document_version_id d}"

definition kept_keys :: "ClaimedDeletion \<Rightarrow> session \<Rightarrow> string set" where
  "kept_keys d s = af_object_key ` {a. kept_artifact (cd_tenant_id d) (cd_document_version_id d) s a}"

definition request_of_job :: "ClaimedDeletion \<Rightarrow> session \<Rightarrow> bool" where
  "request_of_job d s \<longleftrightarrow> (\<forall>j \<in> set (db_jobs s). ij_id j = cd_job_id d \<longrightarrow>
     job_scope j = (cd_tenant_id d, cd_collection_id d, cd_document_version_id d)
     \<and> ij_lifecycle_request_id j = Some (cd_request_id d))"

text \<open>What other sessions do while the job is fenced: they leave the ledger entries of its version and its job alone,
  give the version no object key it did not have, and make no further artifact of it kept, so that its retention can run
  out but is not extended.\<close>

definition own_entry :: "ClaimedDeletion \<Rightarrow> object_cleanup_row \<Rightarrow> bool" where
  "own_entry d r \<longleftrightarrow> oc_tenant_id r = cd_tenant_id d \<and> oc_document_version_id r = cd_document_version_id d"

definition quiet_env :: "ClaimedDeletion \<Rightarrow> (session \<Rightarrow> session) \<Rightarrow> bool" where
  "quiet_env d env \<longleftrightarrow> (\<forall>s. filter (own_entry d) (db_object_cleanup (env s)) = filter (own_entry d) (db_object_cleanup s)
     \<and> ledger_keys d (env s) \<subseteq> ledger_keys d s
     \<and> kept_keys d (env s) \<subseteq> kept_keys d s \<and> (request_of_job d s \<longrightarrow> request_of_job d (env s)))"

definition missing_keys :: "ClaimedDeletion \<Rightarrow> session \<Rightarrow> string set" where
  "missing_keys d s = {k \<in> ledger_keys d s. ((cd_tenant_id d, cd_collection_id d, cd_document_version_id d),
     cd_request_id d, k) \<notin> object_cleanup_key ` set (db_object_cleanup s)}"

definition pending_entry :: "ClaimedDeletion \<Rightarrow> object_cleanup_row \<Rightarrow> bool" where
  "pending_entry d r \<longleftrightarrow> oc_tenant_id r = cd_tenant_id d \<and> oc_document_version_id r = cd_document_version_id d
     \<and> oc_state r = CL_PENDING"

definition cleanup_left :: "ClaimedDeletion \<Rightarrow> session \<Rightarrow> nat" where
  "cleanup_left d s = 2 * card (missing_keys d s) + length (filter (pending_entry d) (db_object_cleanup s))
     + card (kept_keys d s)"

lemma finite_keys [simp]: "finite (ledger_keys d s)" "finite (missing_keys d s)" "finite (kept_keys d s)"
proof -
  have "finite {a. kept_artifact t i s a}" for t i
    using set_with_recursive [of derived_from "artifact_retained (now s)"
        "filter (\<lambda>a. af_tenant_id a = t \<and> af_document_version_id a = i) (db_artifacts s)", symmetric]
    by (simp add: kept_artifact_def)
  then show "finite (kept_keys d s)" by (simp add: kept_keys_def)
  show "finite (ledger_keys d s)" by (simp add: ledger_keys_def)
  then show "finite (missing_keys d s)" by (simp add: missing_keys_def)
qed

lemma eligible_iff_pending:
  "k \<in> set (eligible_keys (cd_tenant_id d) (cd_document_version_id d) s) \<longleftrightarrow>
     (\<exists>r \<in> set (db_object_cleanup s). oc_object_key r = k \<and> pending_entry d r) \<and> k \<notin> kept_keys d s"
  unfolding eligible_keys_iff pending_entry_def kept_keys_def image_iff by blast

lemma own_entries:
  assumes "filter (own_entry d) (db_object_cleanup t) = filter (own_entry d) (db_object_cleanup s)"
  shows "filter (pending_entry d) (db_object_cleanup t) = filter (pending_entry d) (db_object_cleanup s)"
    and "pending_entry d r \<Longrightarrow> r \<in> set (db_object_cleanup t) \<longleftrightarrow> r \<in> set (db_object_cleanup s)"
    and "((cd_tenant_id d, cd_collection_id d, cd_document_version_id d), i, k) \<in> object_cleanup_key ` set (db_object_cleanup t)
      \<longleftrightarrow> ((cd_tenant_id d, cd_collection_id d, cd_document_version_id d), i, k) \<in> object_cleanup_key ` set (db_object_cleanup s)"
proof -
  have p: "filter (pending_entry d) rs = filter (\<lambda>r. oc_state r = CL_PENDING) (filter (own_entry d) rs)" for rs
    unfolding filter_filter by (rule filter_cong) (auto simp: pending_entry_def own_entry_def)
  show e: "filter (pending_entry d) (db_object_cleanup t) = filter (pending_entry d) (db_object_cleanup s)"
    unfolding p assms ..
  show "pending_entry d r \<Longrightarrow> r \<in> set (db_object_cleanup t) \<longleftrightarrow> r \<in> set (db_object_cleanup s)"
    using arg_cong [OF e, of "\<lambda>l. r \<in> set l"] by simp
  have own: "r \<in> set (db_object_cleanup t) \<longleftrightarrow> r \<in> set (db_object_cleanup s)" if "own_entry d r" for r
    using arg_cong [OF assms, of "\<lambda>l. r \<in> set l"] that by simp
  have key: "own_entry d r" if "((cd_tenant_id d, cd_collection_id d, cd_document_version_id d), i, k) = object_cleanup_key r" for r
    using that by (auto simp: own_entry_def object_cleanup_key_def)
  show "((cd_tenant_id d, cd_collection_id d, cd_document_version_id d), i, k) \<in> object_cleanup_key ` set (db_object_cleanup t)
      \<longleftrightarrow> ((cd_tenant_id d, cd_collection_id d, cd_document_version_id d), i, k) \<in> object_cleanup_key ` set (db_object_cleanup s)"
    unfolding image_iff by (intro iffI; elim bexE; rule bexI, assumption, simp only: own [OF key])
qed

lemma env_cleanup_left:
  assumes "quiet_env d env"
  shows "cleanup_left d (env s) \<le> cleanup_left d s"
proof -
  have e: "filter (own_entry d) (db_object_cleanup (env s)) = filter (own_entry d) (db_object_cleanup s)" "ledger_keys d (env s) \<subseteq> ledger_keys d s"
    "kept_keys d (env s) \<subseteq> kept_keys d s" using assms by (simp_all add: quiet_env_def)
  then have "missing_keys d (env s) \<subseteq> missing_keys d s" by (auto simp: missing_keys_def own_entries(3) [OF e(1)])
  then show ?thesis
    using e(3) own_entries(1) [OF e(1)] card_mono [of "missing_keys d s"] card_mono [of "kept_keys d s"]
    by (simp add: cleanup_left_def add_mono)
qed

text \<open>Listing a key costs one missing key for one pending entry.\<close>

lemma candidates_are_ledger_keys:
  assumes "v \<in> set (db_versions s)" and "dv_tenant_id v = cd_tenant_id d" and "dv_id v = cd_document_version_id d"
  shows "set (cleanup_candidates (cd_tenant_id d) c (cd_document_version_id d) (dv_object_key v) s) \<subseteq> ledger_keys d s"
  using assms by (auto simp: cleanup_candidates_def ledger_keys_def Let_def split: if_splits)

lemma initialize_cleanup_left:
  assumes "initialize_cleanup_ledger md5 v j s = Inr s'" and "v \<in> set (db_versions s)"
    and "dv_tenant_id v = cd_tenant_id d" and "dv_id v = cd_document_version_id d"
    and "job_scope j = (cd_tenant_id d, cd_collection_id d, cd_document_version_id d)"
    and "ij_lifecycle_request_id j = Some (cd_request_id d)"
  shows "cleanup_left d s' \<le> cleanup_left d s"
proof -
  let ?sc = "(cd_tenant_id d, cd_collection_id d, cd_document_version_id d)"
  from initialize_cleanup_ledger_Inr [OF assms(1)] obtain new where s': "s' = s\<lparr>db_object_cleanup := db_object_cleanup s @ new\<rparr>"
    and dn: "distinct (map oc_object_key new)"
    and new: "\<forall>r \<in> set new. object_cleanup_key r = (?sc, cd_request_id d, oc_object_key r) \<and> pending_entry d r
         \<and> object_cleanup_key r \<notin> object_cleanup_key ` set (db_object_cleanup s)
         \<and> oc_object_key r \<in> set (cleanup_candidates (cd_tenant_id d) (cd_collection_id d) (cd_document_version_id d) (dv_object_key v) s)"
    using assms(5,6) by (elim exE conjE) (auto simp: pending_entry_def object_cleanup_key_def)
  let ?K = "oc_object_key ` set new"
  have same: "ledger_keys d s' = ledger_keys d s" "kept_keys d s' = kept_keys d s"
    by (simp_all add: s' ledger_keys_def kept_keys_def kept_artifact_def)
  have K: "?K \<subseteq> missing_keys d s"
    using new candidates_are_ledger_keys [OF assms(2-4), of "cd_collection_id d"] by (fastforce simp: missing_keys_def)
  have "missing_keys d s' \<subseteq> missing_keys d s - ?K"
  proof
    fix x assume "x \<in> missing_keys d s'"
    then have x: "x \<in> ledger_keys d s" "(?sc, cd_request_id d, x) \<notin> object_cleanup_key ` (set (db_object_cleanup s) \<union> set new)"
      unfolding missing_keys_def same(1) by (simp_all add: s')
    have "x \<notin> ?K"
    proof
      assume "x \<in> ?K"
      then obtain r where "r \<in> set new" "x = oc_object_key r" by blast
      with new have "object_cleanup_key r = (?sc, cd_request_id d, x)" by simp
      with x(2) \<open>r \<in> set new\<close> show False by (metis UnI2 imageI)
    qed
    with x show "x \<in> missing_keys d s - ?K" unfolding missing_keys_def by blast
  qed
  then have "card (missing_keys d s') \<le> card (missing_keys d s - ?K)" by (intro card_mono) simp_all
  also have "\<dots> = card (missing_keys d s) - length new"
    using K dn by (simp add: card_Diff_subset distinct_card [of "map oc_object_key new", simplified])
  finally have a: "card (missing_keys d s') \<le> card (missing_keys d s) - length new" .
  have "card ?K = length new" using dn distinct_card [of "map oc_object_key new"] by simp
  with K card_mono [of "missing_keys d s" ?K] have b: "length new \<le> card (missing_keys d s)" by simp
  have "filter (pending_entry d) (db_object_cleanup s') = filter (pending_entry d) (db_object_cleanup s) @ new"
    using new by (simp add: s' filter_id_conv)
  with a b same show ?thesis by (simp add: cleanup_left_def)
qed

lemma pending_marked:
  assumes "\<And>r. p r \<Longrightarrow> P r" and "\<And>r. p r \<Longrightarrow> \<not> P (f r)"
  shows "length (filter P (update_rows p f rs)) \<le> length (filter P rs)"
    and "r \<in> set rs \<Longrightarrow> p r \<Longrightarrow> length (filter P (update_rows p f rs)) < length (filter P rs)"
proof -
  have le: "length (filter P (update_rows p f rs)) \<le> length (filter P rs)" for rs
    using assms by (induction rs) (auto simp: le_SucI)
  then show "length (filter P (update_rows p f rs)) \<le> length (filter P rs)" .
  show "length (filter P (update_rows p f rs)) < length (filter P rs)" if "r \<in> set rs" "p r"
    using that(1)
  proof (induction rs)
    case (Cons x xs)
    then show ?case using assms that(2) le [of xs] by (cases "x = r") (auto simp: less_Suc_eq_le)
  qed simp
qed

lemma mark_keys_left:
  assumes "mark_keys_deleted b s = Inr s'" and ids: "cd_tenant_id b = cd_tenant_id d"
    "cd_document_version_id b = cd_document_version_id d"
  shows "\<exists>cs. s' = s\<lparr>db_object_cleanup := cs\<rparr> \<and> object_cleanup_key ` set cs = object_cleanup_key ` set (db_object_cleanup s)
    \<and> length (filter (pending_entry d) cs) \<le> length (filter (pending_entry d) (db_object_cleanup s))
    \<and> ((\<exists>r \<in> set (db_object_cleanup s). pending_entry d r \<and> oc_object_key r \<in> set (cd_object_keys b)) \<longrightarrow>
        length (filter (pending_entry d) cs) < length (filter (pending_entry d) (db_object_cleanup s)))"
proof (cases "cd_object_keys b = []")
  case True
  with assms(1) show ?thesis by (intro exI [of _ "db_object_cleanup s"]) (simp add: mark_keys_deleted_def)
next
  case False
  let ?p = "\<lambda>r. oc_tenant_id r = cd_tenant_id b \<and> oc_document_version_id r = cd_document_version_id b
             \<and> oc_object_key r \<in> set (cd_object_keys b) \<and> oc_state r = CL_PENDING"
  let ?f = "\<lambda>r. r\<lparr>oc_state := CL_DELETED, oc_deleted_at := Some (now s), oc_attempt_count := oc_attempt_count r + 1\<rparr>"
  from assms(1) False have s': "s' = s\<lparr>db_object_cleanup := update_rows ?p ?f (db_object_cleanup s)\<rparr>"
    unfolding mark_keys_deleted_def update_object_cleanup_def by (auto elim: bind_res_InrE)
  have "map object_cleanup_key (update_rows ?p ?f (db_object_cleanup s)) = map object_cleanup_key (db_object_cleanup s)"
    by (rule map_update_rows) (simp add: object_cleanup_key_def)
  from arg_cong [OF this, of set]
  have k: "object_cleanup_key ` set (update_rows ?p ?f (db_object_cleanup s)) = object_cleanup_key ` set (db_object_cleanup s)"
    unfolding list.set_map .
  have m: "\<And>r. ?p r \<Longrightarrow> pending_entry d r" "\<And>r. ?p r \<Longrightarrow> \<not> pending_entry d (?f r)"
    using ids by (simp_all add: pending_entry_def)
  show ?thesis
  proof (rule exI [of _ "update_rows ?p ?f (db_object_cleanup s)"], intro conjI impI)
    show "s' = s\<lparr>db_object_cleanup := update_rows ?p ?f (db_object_cleanup s)\<rparr>" by (rule s')
    show "object_cleanup_key ` set (update_rows ?p ?f (db_object_cleanup s)) = object_cleanup_key ` set (db_object_cleanup s)" by (rule k)
    show "length (filter (pending_entry d) (update_rows ?p ?f (db_object_cleanup s))) \<le> length (filter (pending_entry d) (db_object_cleanup s))"
      by (rule pending_marked(1)) (use m in simp_all)
    assume "\<exists>r \<in> set (db_object_cleanup s). pending_entry d r \<and> oc_object_key r \<in> set (cd_object_keys b)"
    then obtain r where "r \<in> set (db_object_cleanup s)" "pending_entry d r" "oc_object_key r \<in> set (cd_object_keys b)" by blast
    then have "r \<in> set (db_object_cleanup s)" "?p r" using ids by (simp_all add: pending_entry_def)
    from pending_marked(2) [of ?p "pending_entry d" ?f, OF m this]
    show "length (filter (pending_entry d) (update_rows ?p ?f (db_object_cleanup s))) < length (filter (pending_entry d) (db_object_cleanup s))" .
  qed
qed

lemma complete_batch_left:
  assumes "complete_batch b worker e s = Inr (True, s')" and ids: "cd_tenant_id b = cd_tenant_id d"
    "cd_document_version_id b = cd_document_version_id d"
  shows "cleanup_left d s' \<le> cleanup_left d s \<and> kept_keys d s' = kept_keys d s \<and> db_jobs s' = db_jobs s
    \<and> ledger_keys d s' = ledger_keys d s
    \<and> (\<exists>r \<in> set (db_object_cleanup s). pending_entry d r \<and> oc_object_key r \<notin> kept_keys d s)
    \<and> ((\<exists>r \<in> set (db_object_cleanup s). pending_entry d r \<and> oc_object_key r \<in> set (cd_object_keys b)) \<longrightarrow>
         cleanup_left d s' < cleanup_left d s)"
proof -
  from complete_batch_steps [OF assms(1)] obtain v s1 s2 where 1: "mark_keys_deleted b s = Inr s1"
    "mark_search_revoked b s1 = Inr s2" "mark_version_deleted b worker v e s2 = Inr s'"
    and el: "eligible_keys (cd_tenant_id d) (cd_document_version_id d) s' \<noteq> []"
    unfolding ids by metis
  from mark_keys_left [OF 1(1) ids] obtain cs where s1: "s1 = s\<lparr>db_object_cleanup := cs\<rparr>"
    and k: "object_cleanup_key ` set cs = object_cleanup_key ` set (db_object_cleanup s)"
    and le: "length (filter (pending_entry d) cs) \<le> length (filter (pending_entry d) (db_object_cleanup s))"
    and lt: "(\<exists>r \<in> set (db_object_cleanup s). pending_entry d r \<and> oc_object_key r \<in> set (cd_object_keys b)) \<longrightarrow>
        length (filter (pending_entry d) cs) < length (filter (pending_entry d) (db_object_cleanup s))"
    by (elim exE conjE)
  from mark_search_revoked_Inr [OF 1(2)] obtain ps where s2: "s2 = s1\<lparr>db_publications := ps\<rparr>" by (elim exE conjE)
  from mark_version_deleted_frame [OF 1(3)] obtain p f es where
    s': "s' = s2\<lparr>db_versions := update_rows p f (db_versions s2), db_events := es\<rparr>"
    and f: "\<forall>w. dv_id (f w) = dv_id w \<and> dv_tenant_id (f w) = dv_tenant_id w \<and> dv_object_key (f w) = dv_object_key w"
    by (elim exE conjE)
  let ?k = "\<lambda>v. (dv_tenant_id v, dv_id v, dv_object_key v)"
  have keys: "dv_object_key ` {v \<in> set ws. dv_tenant_id v = t \<and> dv_id v = i} = {x. (t, i, x) \<in> set (map ?k ws)}" for ws t i
    by auto
  have "map ?k (update_rows p f ws) = map ?k ws" for ws using f by (intro map_update_rows) simp
  then have vs: "dv_object_key ` {v \<in> set (update_rows p f ws). dv_tenant_id v = t \<and> dv_id v = i}
      = dv_object_key ` {v \<in> set ws. dv_tenant_id v = t \<and> dv_id v = i}" for ws t i
    unfolding keys by simp
  have same: "ledger_keys d s' = ledger_keys d s" "kept_keys d s' = kept_keys d s" "db_jobs s' = db_jobs s"
    "db_object_cleanup s' = cs"
    using vs by (simp_all add: s' s2 s1 ledger_keys_def kept_keys_def kept_artifact_def)
  then have "missing_keys d s' = missing_keys d s" using k by (simp add: missing_keys_def)
  moreover from el obtain x where "x \<in> set (eligible_keys (cd_tenant_id d) (cd_document_version_id d) s')"
    by (meson all_not_in_conv set_empty)
  then obtain r where r: "r \<in> set cs" "pending_entry d r" "oc_object_key r \<notin> kept_keys d s"
    unfolding eligible_iff_pending same by blast
  have "db_object_cleanup s1 = cs" by (simp add: s1)
  with mark_keys_deleted_Inr [OF 1(1)] have "\<forall>r \<in> set cs. oc_state r = CL_PENDING \<longrightarrow> r \<in> set (db_object_cleanup s)" by auto
  then have "r \<in> set (db_object_cleanup s)" using r(1,2) by (simp add: pending_entry_def)
  ultimately show ?thesis using le lt same r by (auto simp: cleanup_left_def)
qed

lemma env_cleanup_left_strict:
  assumes "quiet_env d env" and "k \<in> kept_keys d s" and "k \<notin> kept_keys d (env s)"
  shows "cleanup_left d (env s) < cleanup_left d s"
proof -
  have e: "filter (own_entry d) (db_object_cleanup (env s)) = filter (own_entry d) (db_object_cleanup s)" "ledger_keys d (env s) \<subseteq> ledger_keys d s"
    "kept_keys d (env s) \<subset> kept_keys d s" using assms by (auto simp: quiet_env_def)
  then have "missing_keys d (env s) \<subseteq> missing_keys d s" by (auto simp: missing_keys_def own_entries(3) [OF e(1)])
  then show ?thesis
    using e(3) own_entries(1) [OF e(1)] card_mono [of "missing_keys d s"] psubset_card_mono [of "kept_keys d s"]
    by (simp add: cleanup_left_def add_mono_thms_linordered_field)
qed

text \<open>The variants of a claim the batches carry.\<close>

definition batch_of :: "ClaimedDeletion \<Rightarrow> ClaimedDeletion \<Rightarrow> bool" where
  "batch_of d b \<longleftrightarrow> (\<exists>due ks. b = d\<lparr>cd_physical_cleanup_due := due, cd_object_keys := ks\<rparr>)"

lemma batch_of_ids:
  assumes "batch_of d b"
  shows "cd_tenant_id b = cd_tenant_id d" "cd_document_version_id b = cd_document_version_id d" "cd_job_id b = cd_job_id d"
    "\<And>x ks. batch_of d (b\<lparr>cd_physical_cleanup_due := x, cd_object_keys := ks\<rparr>)"
proof -
  from assms obtain y ks where b: "b = d\<lparr>cd_physical_cleanup_due := y, cd_object_keys := ks\<rparr>"
    unfolding batch_of_def by blast
  show "cd_tenant_id b = cd_tenant_id d" "cd_document_version_id b = cd_document_version_id d" "cd_job_id b = cd_job_id d"
    using b by simp_all
  show "batch_of d (b\<lparr>cd_physical_cleanup_due := x, cd_object_keys := ks'\<rparr>)" for x ks'
    unfolding batch_of_def b by (intro exI [of _ x] exI [of _ ks']) simp
qed

lemma next_batch_left:
  assumes "next_batch md5 b worker limit s = Inr (b', s')" and "batch_of d b" and "request_of_job d s"
  shows "cleanup_left d s' \<le> cleanup_left d s \<and> request_of_job d s' \<and> batch_of d b'
    \<and> (cd_physical_cleanup_due b' \<longrightarrow> 0 \<le> limit \<and> cd_object_keys b'
         = take (nat limit) (eligible_keys (cd_tenant_id d) (cd_document_version_id d) s'))"
proof -
  note ids = batch_of_ids [OF assms(2)]
  from next_batch_steps [OF assms(1)] obtain v j c where f: "lock_deletion_fence b worker s = Inr (v, j, c)"
    and n: "(\<not> deletion_cleanup_due v j c s \<and> b' = b\<lparr>cd_physical_cleanup_due := False, cd_object_keys := []\<rparr> \<and> s' = s)
       \<or> (deletion_cleanup_due v j c s \<and> initialize_cleanup_ledger md5 v j s = Inr s' \<and> 0 \<le> limit
           \<and> b' = b\<lparr>cd_physical_cleanup_due := True, cd_object_keys :=
                 take (nat limit) (eligible_keys (cd_tenant_id b) (cd_document_version_id b) s')\<rparr>)" by blast
  note f = lock_deletion_fence_Inr [OF f, unfolded ids]
  from n show ?thesis
  proof (elim disjE conjE)
    assume "b' = b\<lparr>cd_physical_cleanup_due := False, cd_object_keys := []\<rparr>" "s' = s"
    with assms(3) ids(4) show ?thesis by simp
  next
    assume i: "initialize_cleanup_ledger md5 v j s = Inr s'" and l: "0 \<le> limit"
      and b': "b' = b\<lparr>cd_physical_cleanup_due := True, cd_object_keys :=
                 take (nat limit) (eligible_keys (cd_tenant_id b) (cd_document_version_id b) s')\<rparr>"
    have j: "job_scope j = (cd_tenant_id d, cd_collection_id d, cd_document_version_id d)"
      "ij_lifecycle_request_id j = Some (cd_request_id d)"
      using assms(3) f unfolding request_of_job_def by blast+
    have v: "v \<in> set (db_versions s)" "dv_tenant_id v = cd_tenant_id d" "dv_id v = cd_document_version_id d"
      using f j by simp_all
    have "db_jobs s' = db_jobs s" using initialize_cleanup_ledger_Inr [OF i] by auto
    then have "request_of_job d s'" using assms(3) by (simp add: request_of_job_def)
    with initialize_cleanup_left [OF i v j] b' l ids show ?thesis by simp
  qed
qed

lemma batch_round_progress:
  assumes "quiet_env d env" and "1 \<le> batch_size" and "request_of_job d s" and b: "batch_of d b"
    and n: "next_batch md5 b worker batch_size (env s) = Inr (b', s1)"
    and c: "complete_batch b' worker e (env s1) = Inr (True, s2)"
  shows "batch_of d b' \<and> request_of_job d s2 \<and> cleanup_left d s2 < cleanup_left d s"
proof -
  have ra: "request_of_job d (env s)" using assms(1,3) by (simp add: quiet_env_def)
  note nb = next_batch_left [OF n b ra]
  note b' = nb [THEN conjunct2, THEN conjunct2, THEN conjunct1]
  note le0 = env_cleanup_left [OF assms(1), of s]
  note cb = complete_batch_left [OF c batch_of_ids(1,2) [OF b']]
  have r1: "request_of_job d (env s1)" using nb assms(1) by (simp add: quiet_env_def)
  with cb have r2: "request_of_job d s2" by (simp add: request_of_job_def)
  note le1 = env_cleanup_left [OF assms(1), of s1]
  have same: "filter (own_entry d) (db_object_cleanup (env s1)) = filter (own_entry d) (db_object_cleanup s1)"
    using assms(1) by (simp add: quiet_env_def)
  have due: "cd_physical_cleanup_due b'"
    using complete_batch_steps [OF c] by metis
  from cb obtain r where r: "r \<in> set (db_object_cleanup s1)" "pending_entry d r" "oc_object_key r \<notin> kept_keys d (env s1)"
    using own_entries(2) [OF same] by metis
  have "cleanup_left d s2 < cleanup_left d s1"
  proof (cases "oc_object_key r \<in> kept_keys d s1")
    case True
    from env_cleanup_left_strict [OF assms(1) this r(3)] cb show ?thesis by linarith
  next
    case False
    with r have "oc_object_key r \<in> set (eligible_keys (cd_tenant_id d) (cd_document_version_id d) s1)"
      unfolding eligible_iff_pending by blast
    then have "eligible_keys (cd_tenant_id d) (cd_document_version_id d) s1 \<noteq> []" by auto
    then obtain k ks where k: "eligible_keys (cd_tenant_id d) (cd_document_version_id d) s1 = k # ks"
      by (cases "eligible_keys (cd_tenant_id d) (cd_document_version_id d) s1") simp_all
    then have "k \<in> set (cd_object_keys b')" using nb due assms(2) by (cases "nat batch_size") auto
    moreover from k have "k \<in> set (eligible_keys (cd_tenant_id d) (cd_document_version_id d) s1)" by simp
    then obtain r' where "r' \<in> set (db_object_cleanup s1)" "oc_object_key r' = k" "pending_entry d r'"
      unfolding eligible_iff_pending by blast
    moreover from this(3) have "r' \<in> set (db_object_cleanup (env s1)) \<longleftrightarrow> r' \<in> set (db_object_cleanup s1)"
      by (rule own_entries(2) [OF same])
    ultimately have "cleanup_left d s2 < cleanup_left d (env s1)" using cb by auto
    with le1 show ?thesis by linarith
  qed
  moreover have "cleanup_left d s1 \<le> cleanup_left d s" using nb le0 by linarith
  ultimately have "cleanup_left d s2 < cleanup_left d s" by linarith
  with b' r2 show ?thesis by simp
qed

lemma batch_loop_returns:
  assumes "quiet_env d env" and "1 \<le> batch_size" and "batch_of d b" and "request_of_job d s"
  shows "\<exists>r. batch_loop env delete_key md5 worker batch_size u b s y = Some r"
  using assms(3,4)
proof (induction "cleanup_left d s" arbitrary: b s u y rule: less_induct)
  case less
  show ?case
  proof (cases "next_batch md5 b worker batch_size (env s)")
    case (Inl e)
    then show ?thesis by (subst batch_loop.simps) (simp add: transaction_def)
  next
    case (Inr p)
    obtain b' s1 where p: "p = (b', s1)" by (cases p)
    obtain x y1 where del: "delete_objects delete_key (cd_object_keys b') y = (x, y1)" by (meson surj_pair)
    note start = batch_loop.simps [of env delete_key md5 worker batch_size u b s y, unfolded transaction_def Inr p]
    show ?thesis
    proof (cases "(\<exists>e. x = Inl e) \<or> (\<exists>e. complete_batch b' worker (u 0) (env s1) = Inl e)")
      case True
      with del show ?thesis unfolding start by (cases x) auto
    next
      case False
      then obtain z again s2 where x: "x = Inr z" and c: "complete_batch b' worker (u 0) (env s1) = Inr (again, s2)"
        by (cases x; cases "complete_batch b' worker (u 0) (env s1)") auto
      have eq: "batch_loop env delete_key md5 worker batch_size u b s y
          = (if again then batch_loop env delete_key md5 worker batch_size (\<lambda>n. u (n + 1)) b' s2 y1
             else Some (Inr (), s2, y1))"
        unfolding start by (simp add: del x c)
      show ?thesis
      proof (cases again)
        case True
        with batch_round_progress [OF assms(1,2) less.prems(2,1) Inr [unfolded p], of "u 0" s2] c
        have "batch_of d b'" "request_of_job d s2" "cleanup_left d s2 < cleanup_left d s" by simp_all
        from less.hyps [OF this(3,1,2)] eq True show ?thesis by simp
      qed (use eq in simp)
    qed
  qed
qed

text \<open>C37: the loop over the batches ends. Whatever the object storage answers, a deletion with a positive batch size
  makes progress in every round and returns a result, as long as what other sessions commit in between is quiet for its
  version: they leave the ledger entries of the version and the scope and request of the job alone, give the version no
  object key it did not have, and make no further artifact of it kept (its retention may run out, it is not extended).
  Other versions may be deleted at the same time.\<close>

theorem batch_loop_terminates:
  assumes "quiet_env d env" and "1 \<le> batch_size" and "request_of_job d s"
  shows "\<exists>r. batch_loop env delete_key md5 worker batch_size u d s y = Some r"
proof -
  have "batch_of d d"
    unfolding batch_of_def by (intro exI [of _ "cd_physical_cleanup_due d"] exI [of _ "cd_object_keys d"]) simp
  from batch_loop_returns [OF assms(1,2) this assms(3)] show ?thesis .
qed

text \<open>The passing of time is such an environment.\<close>

lemma clock_quiet:
  assumes "0 \<le> dt"
  shows "quiet_env d (\<lambda>s. s\<lparr>now := now s + dt\<rparr>)"
proof -
  have "kept_artifact t i s a" if "kept_artifact t i (s\<lparr>now := now s + dt\<rparr>) a" for t i s a
    using that unfolding kept_artifact_def
    by (rule reached_mono) (use assms in \<open>auto simp: artifact_retained_def split: option.splits\<close>)
  then show ?thesis
    by (auto simp: quiet_env_def ledger_keys_def kept_keys_def request_of_job_def)
qed

section \<open>Witnesses\<close>

lemma sample_claim_of_job: "claim_of_job sample_deletion deleted_session" "request_of_job sample_deletion deleted_session"
  by (simp_all add: claim_of_job_def request_of_job_def deleted_samples)

definition leased_delete_job :: job_row where
  "leased_delete_job = leased_row ''w1'' 1 (seconds 300) 10 delete_job"

lemma sample_deletion_fence:
  "lock_deletion_fence sample_deletion ''w1'' deleted_session
     = Inr (deleted_version, leased_delete_job, sample_collection)"
  by (simp add: lock_deletion_fence_def deletion_fence_rows_def owns_attempt_def leased_delete_job_def deleted_samples)

lemma sample_due:
  "deletion_cleanup_due deleted_version leased_delete_job sample_collection deleted_session"
  by (simp add: deletion_cleanup_due_def surviving_descendant_def with_recursive_def recursive_union.simps reprocessed_def
      retention_over_def leased_delete_job_def deleted_samples)

lemma sample_candidates: "cleanup_candidates 1 2 4 ''k'' deleted_session = [''n'', ''c'', ''i'', ''k'']"
  by (simp add: cleanup_candidates_def retained_artifacts_def with_recursive_def recursive_union.simps
      artifact_retained_def needed_elsewhere_def deleted_samples)

definition ledger_entry :: "string \<Rightarrow> object_cleanup_row" where
  "ledger_entry k = new_object_cleanup sample_md5 (1, 2, 4) 30 k"

definition ledger_session :: session where
  "ledger_session = deleted_session\<lparr>db_object_cleanup := map ledger_entry [''n'', ''c'', ''i'', ''k'']\<rparr>"

definition sample_batch :: ClaimedDeletion where
  "sample_batch = sample_deletion\<lparr>cd_physical_cleanup_due := True, cd_object_keys := [''c'', ''i'', ''k'', ''n'']\<rparr>"

lemmas batch_samples = ledger_entry_def ledger_session_def sample_batch_def new_object_cleanup_def sample_md5_def deleted_samples

lemma sample_ledger:
  "initialize_cleanup_ledger sample_md5 deleted_version leased_delete_job deleted_session
     = Inr ledger_session"
proof -
  have c: "dv_object_key deleted_version = ''k''" by (simp add: deleted_samples)
  have "fold_res (\<lambda>k. insert_object_cleanup (new_object_cleanup sample_md5 (1, 2, 4) 30 k)) [''n'', ''c'', ''i'', ''k'']
      deleted_session = Inr ledger_session"
    by (simp add: insert_object_cleanup_def object_cleanup_checks_def object_cleanup_key_def version_exists_def
        request_exists_def commit_eval batch_samples)
  then show ?thesis
    by (simp add: initialize_cleanup_ledger_def c sample_candidates leased_delete_job_def delete_job_def new_job_def)
qed

lemma sample_eligible: "eligible_keys 1 4 ledger_session = [''c'', ''i'', ''k'', ''n'']"
  by (simp add: eligible_keys_def retained_artifacts_def with_recursive_def recursive_union.simps artifact_retained_def
      batch_samples)

lemma sample_ids [simp]:
  "cd_tenant_id sample_deletion = 1" "cd_document_version_id sample_deletion = 4" "cd_job_id sample_deletion = 31"
  "cd_tenant_id sample_batch = 1" "cd_document_version_id sample_batch = 4" "cd_physical_cleanup_due sample_batch"
  "cd_object_keys sample_batch = [''c'', ''i'', ''k'', ''n'']"
  by (simp_all add: sample_deletion_def sample_batch_def)

lemma sample_next_batch:
  "next_batch sample_md5 sample_deletion ''w1'' 4 deleted_session = Inr (sample_batch, ledger_session)"
  by (simp add: next_batch_def sample_deletion_fence sample_due sample_ledger pending_keys_for_deletion_def recheck_keys_def sample_eligible)
    (simp add: sample_batch_def)

theorem next_batch_safe_witness:
  "\<not> surviving_descendant 1 2 4 deleted_session \<and> \<not> (\<exists>a. kept_artifact 1 4 deleted_session a \<and> af_object_key a = ''n'')"
proof -
  have "''n'' \<in> set (cd_object_keys sample_batch)" by (simp add: sample_batch_def)
  from next_batch_safe [OF sample_next_batch this sample_claim_of_job(1)] show ?thesis
    by (auto simp: sample_deletion_def)
qed






theorem batch_loop_terminates_witness:
  "\<exists>r. batch_loop (\<lambda>s. s\<lparr>now := now s + 1\<rparr>) (\<lambda>k y. (Inr (), y @ [k])) sample_md5 ''w1'' 2 (\<lambda>n. word_of_nat (n + 110))
     sample_deletion deleted_session [] = Some r"
  by (rule batch_loop_terminates [OF clock_quiet _ sample_claim_of_job(2)]) simp_all

end
