(* ===== verification/Reconciliation.thy ===== *)
theory Reconciliation
  imports Deletion_Batches
begin

text \<open>
  \<open>lifecycle/reconciliation.py\<close> and \<open>reconciliation_sql.py\<close>: a bounded scan of catalog and jobs that
  repairs what crashed workers and lost messages leave behind. The dispatcher is an argument with a
  state of its own, and so are the search adapter and what other sessions commit. Rows that another
  transaction has locked are skipped by the queries; no row is locked here. The heartbeat is written
  to a table of its own.
\<close>

section \<open>Stale jobs\<close>

definition lease_expired :: "timestamp \<Rightarrow> job_row \<Rightarrow> bool" where
  "lease_expired t j \<longleftrightarrow> ij_state j \<in> {JS_LEASED, JS_RUNNING}
     \<and> (case ij_lease_expires_at j of None \<Rightarrow> False | Some e \<Rightarrow> e < t)"

definition job_stale :: "timestamp \<Rightarrow> timestamp \<Rightarrow> job_row \<Rightarrow> bool" where
  "job_stale t stale_after j \<longleftrightarrow> lease_expired t j
     \<or> (ij_state j = JS_PENDING \<and> ij_updated_at j < t - stale_after)
     \<or> (ij_state j = JS_RETRY_SCHEDULED \<and> (case ij_retry_at j of None \<Rightarrow> False | Some r \<Rightarrow> r \<le> t))"

definition stale_reason :: "timestamp \<Rightarrow> job_row \<Rightarrow> string" where
  "stale_reason t j = (if lease_expired t j then ''expired_lease'' else ''stale_dispatch'')"

text \<open>\<open>ORDER BY job.updated_at, job.id LIMIT :page_size\<close>.\<close>

definition stale_candidates :: "timestamp \<Rightarrow> int \<Rightarrow> session \<Rightarrow> job_row list" where
  "stale_candidates stale_after page_size s =
     take (nat page_size) (sort_key (\<lambda>j. (ij_updated_at j, unat (ij_id j)))
       (filter (job_stale (now s) stale_after) (db_jobs s)))"

record ReconciliationFinding =
  rf_reason :: string
  rf_tenant_id :: uuid
  rf_version_id :: uuid
  rf_job_id :: "uuid option"
  rf_stage :: "string option"

definition job_finding :: "timestamp \<Rightarrow> job_row \<Rightarrow> ReconciliationFinding" where
  "job_finding t j =
     \<lparr>rf_reason = stale_reason t j, rf_tenant_id = ij_tenant_id j, rf_version_id = ij_document_version_id j,
      rf_job_id = Some (ij_id j), rf_stage = Some (IngestionStage_value (ij_stage j))\<rparr>"

text \<open>Every part of the statement reads the rows as they were before it; the result is in the order
  of the table.\<close>

definition stale_job_scan ::
  "timestamp \<Rightarrow> int \<Rightarrow> session \<Rightarrow> (ReconciliationFinding list \<times> session) res" where
  "stale_job_scan stale_after page_size s =
     (let candidates = stale_candidates stale_after page_size s;
          hit = (\<lambda>j. list_ex (\<lambda>c. ij_id c = ij_id j) candidates)
      in bind_res (update_attempts (\<lambda>a. ja_finished_at a = None
               \<and> list_ex (\<lambda>c. lease_expired (now s) c \<and> ja_tenant_id a = ij_tenant_id c \<and> ja_job_id a = ij_id c
                    \<and> ja_attempt_number a = ij_attempt_count c) candidates)
             (\<lambda>a. a\<lparr>ja_finished_at := Some (now s), ja_heartbeat_at := Some (now s), ja_outcome := Some ''lease_expired'',
                    ja_error_class := Some ''internal'', ja_reason_code := Some ''WORKER_LEASE_EXPIRED''\<rparr>) s) (\<lambda>s1.
         bind_res (update_jobs hit
             (\<lambda>j. j\<lparr>ij_state := JS_PENDING, ij_lease_owner := None, ij_lease_expires_at := None,
                    ij_retry_at := None, ij_updated_at := now s,
                    ij_sanitized_context := [(''reconciliation_reason'', stale_reason (now s) j)]\<rparr>) s1) (\<lambda>s2.
         Inr (map (job_finding (now s)) (filter hit (db_jobs s)), s2))))"

section \<open>Findings in the catalog\<close>

definition version_artifact :: "session \<Rightarrow> version_row \<Rightarrow> (artifact_row \<Rightarrow> bool) \<Rightarrow> bool" where
  "version_artifact s v p \<longleftrightarrow>
     list_ex (\<lambda>a. af_tenant_id a = dv_tenant_id v \<and> af_document_version_id a = dv_id v \<and> p a) (db_artifacts s)"

definition has_chunk_manifest :: "session \<Rightarrow> version_row \<Rightarrow> bool" where
  "has_chunk_manifest s v \<longleftrightarrow> version_artifact s v (\<lambda>a. af_artifact_type a = AT_CHUNK_MANIFEST)"

definition has_index_manifest :: "session \<Rightarrow> version_row \<Rightarrow> bool" where
  "has_index_manifest s v \<longleftrightarrow>
     version_artifact s v (\<lambda>a. af_artifact_type a = AT_INDEX_MANIFEST \<and> af_generator_name a = ''opensearch'')"

definition missing_embedding :: "session \<Rightarrow> version_row \<Rightarrow> bool" where
  "missing_embedding s v \<longleftrightarrow>
     list_ex (\<lambda>c. ck_tenant_id c = dv_tenant_id v \<and> ck_document_version_id c = dv_id v \<and> \<not> chunk_embedded s c)
       (db_chunks s)"

text \<open>\<open>EXISTS (SELECT \<dots> GROUP BY \<dots> HAVING \<dots>)\<close>: a live publication whose group is complete.\<close>

definition live_publications :: "session \<Rightarrow> version_row \<Rightarrow> publication_row list" where
  "live_publications s v = filter (\<lambda>p. publication_scope p = version_scope v \<and> ip_deleted_at p = None) (db_publications s)"

definition has_complete_group :: "session \<Rightarrow> version_row \<Rightarrow> bool" where
  "has_complete_group s v \<longleftrightarrow>
     (let live = live_publications s v;
          n = int (length (filter (\<lambda>c. chunk_scope c = version_scope v) (db_chunks s)))
      in list_ex (\<lambda>p. let g = filter (\<lambda>q. publication_group q = publication_group p) live
           in manifest_for s (version_scope v) (ip_target_name p) (ip_target_version p)
              \<and> distinct_chunks PK_LEXICAL g = n \<and> distinct_chunks PK_VECTOR g = n) live)"

definition corrupt_ready :: "session \<Rightarrow> version_row \<Rightarrow> bool" where
  "corrupt_ready s v \<longleftrightarrow> dv_state v \<in> {READY, READY_WITH_WARNINGS}
     \<and> (\<not> has_chunk_manifest s v \<or> \<not> has_index_manifest s v \<or> missing_embedding s v \<or> \<not> has_complete_group s v)"

definition retention_cleanup_due :: "session \<Rightarrow> version_row \<Rightarrow> collection_row \<Rightarrow> bool" where
  "retention_cleanup_due s v c \<longleftrightarrow> dv_state v = DELETED \<and> \<not> co_legal_hold c \<and> retention_over (now s) c v
     \<and> (version_artifact s v (\<lambda>a. \<not> artifact_retained (now s) a)
        \<or> (\<not> version_artifact s v (\<lambda>a. af_object_key a = dv_object_key v)
           \<and> \<not> list_ex (\<lambda>r. oc_tenant_id r = dv_tenant_id v \<and> oc_document_version_id r = dv_id v
                \<and> oc_object_key r = dv_object_key v \<and> oc_state r = CL_DELETED) (db_object_cleanup s)))
     \<and> \<not> list_ex (\<lambda>j. ij_tenant_id j = dv_tenant_id v \<and> ij_document_version_id j = dv_id v \<and> active_delete_job j)
          (db_jobs s)
     \<and> \<not> surviving_descendant (dv_tenant_id v) (dv_collection_id v) (dv_id v) s"

definition finding_reason :: "session \<Rightarrow> version_row \<Rightarrow> string" where
  "finding_reason s v =
     (if dv_state v = DELETED then ''retention_cleanup_due''
      else if \<not> has_chunk_manifest s v then ''missing_chunk_manifest''
      else if \<not> has_index_manifest s v then ''missing_index_manifest''
      else if missing_embedding s v then ''missing_embedding''
      else ''incomplete_publication'')"

definition catalog_finding_rows :: "int \<Rightarrow> session \<Rightarrow> version_row list" where
  "catalog_finding_rows limit s =
     take (nat limit) (sort_key (\<lambda>v. (if dv_state v = DELETED then 0 else 1 :: nat, dv_updated_at v, unat (dv_id v)))
       [v. v \<leftarrow> db_versions s, c \<leftarrow> db_collections s,
          co_tenant_id c = dv_tenant_id v \<and> co_id c = dv_collection_id v
            \<and> (retention_cleanup_due s v c \<or> corrupt_ready s v)])"

section \<open>Repairs\<close>

text \<open>\<open>INSERT INTO lifecycle_requests \<dots> ON CONFLICT \<dots> DO UPDATE \<dots> RETURNING id\<close>.\<close>

definition retention_request :: "uuid \<Rightarrow> version_row \<Rightarrow> timestamp \<Rightarrow> request_row" where
  "retention_request request_id v t =
     \<lparr>lr_id = request_id, lr_tenant_id = dv_tenant_id v, lr_collection_id = dv_collection_id v,
      lr_document_version_id = dv_id v, lr_source_document_version_id = dv_id v, lr_request_type = ''delete'',
      lr_idempotency_key = ''retention:'' @ str_uuid (dv_id v), lr_requested_by = ''reconciler'',
      lr_state = RS_PENDING, lr_requested_at = t, lr_completed_at = None\<rparr>"

definition upsert_retention_request :: "request_row \<Rightarrow> session \<Rightarrow> (uuid \<times> session) res" where
  "upsert_retention_request r s =
     bind_res (check_all (request_checks r)) (\<lambda>_.
     case scalar (filter (\<lambda>q. request_idempotency q = request_idempotency r) (db_requests s)) of
       None \<Rightarrow> bind_res (insert_request r s) (\<lambda>s1. Inr (lr_id r, s1))
     | Some q \<Rightarrow> bind_res (update_requests (\<lambda>q. request_idempotency q = request_idempotency r)
                    (\<lambda>q. q\<lparr>lr_state := RS_PENDING, lr_completed_at := None\<rparr>) s) (\<lambda>s1. Inr (lr_id q, s1)))"

definition retention_job :: "uuid \<Rightarrow> uuid \<Rightarrow> version_row \<Rightarrow> int \<Rightarrow> session \<Rightarrow> job_row" where
  "retention_job job_id request_id v max_attempts s =
     (new_job job_id (version_scope v) ST_DELETE
        (coalesce_max (-1) [ij_generation j. j \<leftarrow> db_jobs s, ij_tenant_id j = dv_tenant_id v
             \<and> ij_document_version_id j = dv_id v] + 1)
        max_attempts (Some request_id) (now s))
       \<lparr>ij_sanitized_context := [(''reconciliation_reason'', ''retention_cleanup_due'')]\<rparr>"

definition request_retention_cleanup ::
  "version_row \<Rightarrow> int \<Rightarrow> (nat \<Rightarrow> uuid) \<Rightarrow> session \<Rightarrow> session res" where
  "request_retention_cleanup v max_attempts u s =
     bind_res (upsert_retention_request (retention_request (u 1) v (now s)) s) (\<lambda>(request_id, s1).
     insert_job (retention_job (u 0) request_id v max_attempts s1) s1)"

definition group_publications :: "publication_row list \<Rightarrow> SearchTargetPublication list res" where
  "group_publications live =
     map_res (\<lambda>(name, version, job_id, attempt).
         new_publication name version
           (max 1 (distinct_chunk_count (filter (\<lambda>p. publication_group p = (name, version, job_id, attempt)) live)))
           job_id attempt)
       (remdups (map publication_group live))"

definition corrupt_event :: "uuid \<Rightarrow> version_row \<Rightarrow> int \<Rightarrow> event_row" where
  "corrupt_event event_id v previous_revision =
     \<lparr>ev_id = event_id, ev_tenant_id = dv_tenant_id v, ev_collection_id = dv_collection_id v,
      ev_document_version_id = dv_id v,
      ev_idempotency_key = ''reconcile:corrupt:'' @ str_int (previous_revision + 1),
      ev_from_state = dv_state v, ev_to_state = FAILED, ev_from_revision = previous_revision,
      ev_to_revision = previous_revision + 1, ev_operation = ''reconcile'', ev_actor_type = ''worker'',
      ev_actor_id = ''reconciler''\<rparr>"

definition fail_corrupt_ready_version :: "version_row \<Rightarrow> (nat \<Rightarrow> uuid) \<Rightarrow> session \<Rightarrow> session res" where
  "fail_corrupt_ready_version v u s =
     bind_res (group_publications (live_publications s v)) (\<lambda>publications.
     bind_res (enqueue_all (dv_tenant_id v) (dv_collection_id v) (dv_id v) None (\<lambda>n. u (n + 1)) publications s) (\<lambda>s1.
     bind_res (update_publications (\<lambda>p. publication_scope p = version_scope v \<and> ip_deleted_at p = None)
         (\<lambda>p. p\<lparr>ip_deleted_at := Some (now s1)\<rparr>) s1) (\<lambda>s2.
     bind_res (update_versions True (\<lambda>w. version_scope w = version_scope v \<and> dv_state w \<in> {READY, READY_WITH_WARNINGS})
         (\<lambda>w. w\<lparr>dv_state := FAILED, dv_state_revision := dv_state_revision w + 1,
                dv_terminal_reason_code := Some ''READY_PUBLICATION_CORRUPT'', dv_updated_at := now s2\<rparr>) s2) (\<lambda>(rows, s3).
     bind_res (one_or_none rows) (\<lambda>transition.
     case transition of
       None \<Rightarrow> Inr s3
     | Some w \<Rightarrow> insert_event_once (corrupt_event (u 0) v (dv_state_revision w - 1)) s3)))))"

fun catalog_repairs ::
  "int \<Rightarrow> (version_row \<Rightarrow> string) \<Rightarrow> (nat \<Rightarrow> nat \<Rightarrow> uuid) \<Rightarrow> version_row list \<Rightarrow> session
   \<Rightarrow> (ReconciliationFinding list \<times> session) res" where
  "catalog_repairs max_attempts reason u [] s = Inr ([], s)"
| "catalog_repairs max_attempts reason u (v # vs) s =
     (let due = (reason v = ''retention_cleanup_due'')
      in bind_res (if due then request_retention_cleanup v max_attempts (u 0) s
                   else fail_corrupt_ready_version v (u 0) s) (\<lambda>s1.
         bind_res (catalog_repairs max_attempts reason (\<lambda>n. u (n + 1)) vs s1) (\<lambda>(findings, s2).
         Inr (\<lparr>rf_reason = reason v, rf_tenant_id = dv_tenant_id v, rf_version_id = dv_id v,
               rf_job_id = (if due then Some (u 0 0) else None),
               rf_stage = (if due then Some ''delete'' else None)\<rparr> # findings, s2))))"

definition catalog_findings ::
  "int \<Rightarrow> int \<Rightarrow> (nat \<Rightarrow> nat \<Rightarrow> uuid) \<Rightarrow> session \<Rightarrow> (ReconciliationFinding list \<times> session) res" where
  "catalog_findings limit max_attempts u s =
     catalog_repairs max_attempts (finding_reason s) u (catalog_finding_rows limit s) s"

definition scan_and_repair ::
  "int \<Rightarrow> timestamp \<Rightarrow> int \<Rightarrow> (nat \<Rightarrow> nat \<Rightarrow> uuid) \<Rightarrow> session \<Rightarrow> (ReconciliationFinding list \<times> session) res" where
  "scan_and_repair page_size stale_after max_attempts u s =
     (let retention_quota = max 1 (page_size div 4)
      in bind_res (catalog_findings retention_quota max_attempts u s) (\<lambda>(catalog, s1).
         (let job_page_size = max 0 (page_size - int (length catalog))
          in bind_res (stale_job_scan stale_after job_page_size s1) (\<lambda>(jobs, s2). Inr (catalog @ jobs, s2)))))"

section \<open>The service\<close>

fun task_for_stage :: "string \<Rightarrow> string res" where
  "task_for_stage stage =
     (if stage \<in> {''preflight'', ''native_parse''} then Inr ''app.workers.native.process_document''
      else if stage = ''ocr'' then Inr ''app.workers.ocr.process_document''
      else if stage = ''chunk'' then Inr ''app.workers.publication.chunk_document''
      else if stage = ''embed'' then Inr ''app.workers.publication.embed_document''
      else if stage = ''index'' then Inr ''app.workers.publication.index_document''
      else if stage = ''delete'' then Inr ''app.workers.lifecycle.delete_document''
      else Inl (ValueError ''reconciler found an unsupported job stage''))"

text \<open>The stage of a finding with a job is the text of a stage of the table.\<close>

definition stage_of_text :: "string \<Rightarrow> IngestionStage" where
  "stage_of_text t = hd (filter (\<lambda>x. IngestionStage_value x = t)
     [ST_INTAKE, ST_PREFLIGHT, ST_NATIVE_PARSE, ST_OCR, ST_NORMALIZE, ST_CHUNK, ST_EMBED, ST_INDEX, ST_DELETE, ST_REPROCESS])"

definition defer_finding :: "timestamp \<Rightarrow> ReconciliationFinding \<Rightarrow> session \<Rightarrow> session res" where
  "defer_finding retry_delay f s =
     (case (rf_job_id f, rf_stage f) of
        (Some job_id, Some stage) \<Rightarrow>
          defer_job_dispatch (rf_tenant_id f) (rf_version_id f) \<lparr>nj_id = job_id, nj_stage = stage_of_text stage\<rparr>
            ''RECONCILIATION_DISPATCH_UNAVAILABLE'' retry_delay s
      | _ \<Rightarrow> Inr s)"

definition defer_undispatched :: "timestamp \<Rightarrow> ReconciliationFinding list \<Rightarrow> session \<Rightarrow> session res" where
  "defer_undispatched retry_delay findings s = fold_res (defer_finding retry_delay) findings s"

type_synonym 'd dispatcher = "string \<Rightarrow> uuid \<Rightarrow> uuid \<Rightarrow> uuid \<Rightarrow> 'd \<Rightarrow> unit res \<times> 'd"

text \<open>The loop over the findings: an error of the dispatcher leaves the rest to a later delivery.\<close>

fun dispatch_findings ::
  "'d dispatcher \<Rightarrow> (session \<Rightarrow> session) \<Rightarrow> timestamp \<Rightarrow> ReconciliationFinding list \<Rightarrow> session \<Rightarrow> 'd
   \<Rightarrow> unit res \<times> session \<times> 'd" where
  "dispatch_findings dispatch env retry_delay [] s d = (Inr (), s, d)"
| "dispatch_findings dispatch env retry_delay (f # fs) s d =
     (case (rf_job_id f, rf_stage f) of
        (Some job_id, Some stage) \<Rightarrow>
          (case task_for_stage stage of
             Inl e \<Rightarrow> (Inl e, s, d)
           | Inr task \<Rightarrow>
               (case dispatch task (rf_tenant_id f) (rf_version_id f) job_id d of
                  (Inr _, d1) \<Rightarrow> dispatch_findings dispatch env retry_delay fs s d1
                | (Inl e, d1) \<Rightarrow>
                    (case unit_transaction (defer_undispatched retry_delay (f # fs)) (env s) of
                       (Inl e1, s1) \<Rightarrow> (Inl e1, s1, d1)
                     | (Inr _, s1) \<Rightarrow> (Inl e, s1, d1))))
      | _ \<Rightarrow> dispatch_findings dispatch env retry_delay fs s d)"

definition RECONCILIATION_HEARTBEAT_SERVICE :: string where
  "RECONCILIATION_HEARTBEAT_SERVICE = ''document-loader-reconciliation''"

text \<open>\<open>adapter\<close> is \<open>None\<close> when no search endpoint is configured. The last component of the result is the
  table of heartbeats.\<close>

definition recovery_part ::
  "'x search_adapter option \<Rightarrow> (session \<Rightarrow> session) \<Rightarrow> int \<Rightarrow> timestamp \<Rightarrow> int \<Rightarrow> session \<Rightarrow> 'x \<Rightarrow> int res \<times> session \<times> 'x" where
  "recovery_part adapter env page_size lease max_cleanup s x =
     (case adapter of
        None \<Rightarrow> (Inr 0, s, x)
      | Some a \<Rightarrow>
          (case run_once a env (max 1 (page_size div 4)) RECONCILIATION_HEARTBEAT_SERVICE lease max_cleanup None None s x of
             (Inl e, s1, x1) \<Rightarrow> (Inl e, s1, x1)
           | (Inr (cleaned, activated), s1, x1) \<Rightarrow> (Inr (cleaned + activated), s1, x1)))"

definition reconcile_once ::
  "'x search_adapter option \<Rightarrow> 'd dispatcher \<Rightarrow> (session \<Rightarrow> session) \<Rightarrow> int \<Rightarrow> timestamp \<Rightarrow> int \<Rightarrow> timestamp \<Rightarrow> int
   \<Rightarrow> timestamp \<Rightarrow> (nat \<Rightarrow> nat \<Rightarrow> uuid) \<Rightarrow> session \<Rightarrow> 'x \<Rightarrow> 'd \<Rightarrow> (string \<rightharpoonup> timestamp)
   \<Rightarrow> ReconciliationFinding list res \<times> session \<times> 'x \<times> 'd \<times> (string \<rightharpoonup> timestamp)" where
  "reconcile_once adapter dispatch env page_size stale_after job_max_attempts lease max_cleanup retry_delay u s x d beats =
     (case recovery_part adapter env page_size lease max_cleanup s x of
        (Inl e, s1, x1) \<Rightarrow> (Inl e, s1, x1, d, beats)
      | (Inr recovered, s1, x1) \<Rightarrow>
          (let remaining = max 0 (page_size - recovered)
           in case (if remaining = 0 then (Inr [], s1)
                    else transaction (scan_and_repair remaining stale_after job_max_attempts u) (env s1)) of
                (Inl e, s2) \<Rightarrow> (Inl e, s2, x1, d, beats)
              | (Inr findings, s2) \<Rightarrow>
                  (case dispatch_findings dispatch env retry_delay findings s2 d of
                     (Inl e, s3, d1) \<Rightarrow> (Inl e, s3, x1, d1, beats)
                   | (Inr _, s3, d1) \<Rightarrow>
                       (Inr findings, env s3, x1, d1,
                        beats(RECONCILIATION_HEARTBEAT_SERVICE \<mapsto> now (env s3))))))"

end
