(* ===== verification/Reconciliation_Scan.thy ===== *)
theory Reconciliation_Scan
  imports Reconciliation
begin

text \<open>
  What the scans find and what their repairs do: no job is taken from a live worker and no version
  that the ready trigger accepts is failed; the page size bounds the work of a run, and a job that
  could not be dispatched waits for its retry.
\<close>

section \<open>Stale jobs\<close>

lemma in_take_sort_key: "x \<in> set (take n (sort_key f xs)) \<Longrightarrow> x \<in> set xs"
  by (auto dest: in_set_takeD)

lemma sorted_take_drop:
  assumes "sorted (map f xs)" and "x \<in> set (take n xs)" and "y \<in> set (drop n xs)"
  shows "f x \<le> f y"
proof -
  have "sorted (map f (take n xs) @ map f (drop n xs))"
    using assms(1) unfolding map_append [symmetric] append_take_drop_id .
  then show ?thesis using assms(2,3) by (simp add: sorted_append)
qed

lemma take_sort_key_least:
  assumes "y \<in> set xs" and "y \<notin> set (take n (sort_key f xs))"
  shows "length (take n (sort_key f xs)) = n" and "\<forall>x \<in> set (take n (sort_key f xs)). f x \<le> f y"
proof -
  have "y \<in> set (take n (sort_key f xs)) \<union> set (drop n (sort_key f xs))"
    using assms(1) unfolding set_append [symmetric] append_take_drop_id by simp
  with assms(2) have y: "y \<in> set (drop n (sort_key f xs))" by simp
  then show "length (take n (sort_key f xs)) = n" by (cases "n \<le> length xs") auto
  show "\<forall>x \<in> set (take n (sort_key f xs)). f x \<le> f y"
    using sorted_take_drop [OF sorted_sort_key _ y] by blast
qed

definition freed_row :: "timestamp \<Rightarrow> job_row \<Rightarrow> job_row" where
  "freed_row t j = j\<lparr>ij_state := JS_PENDING, ij_lease_owner := None, ij_lease_expires_at := None,
     ij_retry_at := None, ij_updated_at := t, ij_sanitized_context := [(''reconciliation_reason'', stale_reason t j)]\<rparr>"

lemma stale_job_scan_Inr:
  assumes "stale_job_scan stale n s = Inr (fs, s')" and "job_ids_ok s"
  shows "fs = map (job_finding (now s)) (filter (\<lambda>j. j \<in> set (stale_candidates stale n s)) (db_jobs s))
    \<and> (\<exists>as. s' = s\<lparr>db_attempts := as, db_jobs := update_rows (\<lambda>j. j \<in> set (stale_candidates stale n s)) (freed_row (now s)) (db_jobs s)\<rparr>
         \<and> (\<forall>a \<in> set as. \<forall>c \<in> set (stale_candidates stale n s). lease_expired (now s) c
              \<and> ja_tenant_id a = ij_tenant_id c \<and> ja_job_id a = ij_id c \<and> ja_attempt_number a = ij_attempt_count c
              \<longrightarrow> ja_finished_at a \<noteq> None))"
proof -
  let ?C = "stale_candidates stale n s"
  let ?hit = "\<lambda>j. list_ex (\<lambda>c. ij_id c = ij_id j) ?C"
  have mem: "j \<in> set (db_jobs s)" if "j \<in> set ?C" for j
    using that unfolding stale_candidates_def by (auto dest: in_take_sort_key)
  have hit: "?hit j \<longleftrightarrow> j \<in> set ?C" if "j \<in> set (db_jobs s)" for j
    using distinct_map_inj_rows [OF assms(2) [unfolded job_ids_ok_def]] mem that by (auto simp: list_ex_iff)
  let ?p = "\<lambda>a. ja_finished_at a = None \<and> list_ex (\<lambda>c. lease_expired (now s) c \<and> ja_tenant_id a = ij_tenant_id c
      \<and> ja_job_id a = ij_id c \<and> ja_attempt_number a = ij_attempt_count c) ?C"
  let ?f = "\<lambda>a. a\<lparr>ja_finished_at := Some (now s), ja_heartbeat_at := Some (now s), ja_outcome := Some ''lease_expired'',
      ja_error_class := Some ''internal'', ja_reason_code := Some ''WORKER_LEASE_EXPIRED''\<rparr>"
  from assms(1) obtain s1 where s1: "update_attempts ?p ?f s = Inr s1"
    and s2: "update_jobs ?hit (freed_row (now s)) s1 = Inr s'"
    and fs: "fs = map (job_finding (now s)) (filter ?hit (db_jobs s))"
    unfolding stale_job_scan_def Let_def freed_row_def by (auto elim!: bind_res_InrE)
  from s1 have e1: "s1 = s\<lparr>db_attempts := update_rows ?p ?f (db_attempts s)\<rparr>" unfolding update_attempts_Inr by (elim conjE)
  from s2 have e2: "s' = s1\<lparr>db_jobs := update_rows ?hit (freed_row (now s)) (db_jobs s1)\<rparr>"
    unfolding update_jobs_Inr by (elim conjE)
  have rows: "update_rows ?hit (freed_row (now s)) (db_jobs s)
      = update_rows (\<lambda>j. j \<in> set ?C) (freed_row (now s)) (db_jobs s)"
    unfolding update_rows_def using hit by (intro map_cong) auto
  have closed: "ja_finished_at a \<noteq> None"
    if "a \<in> set (update_rows ?p ?f (db_attempts s))" "c \<in> set ?C" "lease_expired (now s) c"
      "ja_tenant_id a = ij_tenant_id c" "ja_job_id a = ij_id c" "ja_attempt_number a = ij_attempt_count c" for a c
  proof -
    from that(1) obtain b where b: "b \<in> set (db_attempts s)" "a = (if ?p b then ?f b else b)" by (rule update_rowsE)
    show ?thesis
    proof (cases "?p b")
      case False
      then have "a = b" using b(2) by (simp only: if_False)
      with False that(2-6) show ?thesis by (auto simp: list_ex_iff)
    qed (simp add: b(2))
  qed
  show ?thesis
  proof (intro conjI exI [of _ "update_rows ?p ?f (db_attempts s)"])
    show "fs = map (job_finding (now s)) (filter (\<lambda>j. j \<in> set ?C) (db_jobs s))"
      unfolding fs using hit by (intro arg_cong [of _ _ "map _"] filter_cong) auto
    show "s' = s\<lparr>db_attempts := update_rows ?p ?f (db_attempts s),
        db_jobs := update_rows (\<lambda>j. j \<in> set ?C) (freed_row (now s)) (db_jobs s)\<rparr>"
      unfolding e2 e1 by (simp add: rows)
  qed (use closed in blast)
qed

lemma stale_candidate: "j \<in> set (stale_candidates stale n s) \<Longrightarrow> j \<in> set (db_jobs s) \<and> job_stale (now s) stale j"
  unfolding stale_candidates_def by (auto dest: in_take_sort_key)

lemma stale_job_scan_length:
  assumes "stale_job_scan stale n s = Inr (fs, s')" and "job_ids_ok s"
  shows "length fs = length (stale_candidates stale n s)"
proof -
  let ?C = "stale_candidates stale n s"
  have dist: "distinct (db_jobs s)" using assms(2) unfolding job_ids_ok_def by (simp add: distinct_map)
  then have "distinct ?C" unfolding stale_candidates_def by simp
  moreover have "set (filter (\<lambda>j. j \<in> set ?C) (db_jobs s)) = set ?C" using stale_candidate by auto
  moreover have "distinct (filter (\<lambda>j. j \<in> set ?C) (db_jobs s))" using dist by simp
  ultimately have "length (filter (\<lambda>j. j \<in> set ?C) (db_jobs s)) = length ?C"
    using distinct_card by metis
  then show ?thesis using stale_job_scan_Inr [OF assms] by simp
qed

text \<open>Freeing stale jobs. A job with an active lease is left alone, and so is every job that is
  not found. At most as many jobs are found as asked for, each of them stale, and a stale job is left
  for a later scan only when that many older ones were found. A job that is found waits for a worker
  with no lease and the attempts it had; whoever held it is fenced, and the attempt of an expired
  lease is closed. Nothing but jobs and attempts changes.\<close>

theorem stale_job_scan_safe:
  assumes "stale_job_scan stale_after n s = Inr (fs, s')" and "job_ids_ok s"
  shows "int (length fs) \<le> max 0 n
    \<and> (\<forall>j \<in> set (db_jobs s). lease_active j (now s) \<longrightarrow> j \<in> set (db_jobs s'))
    \<and> (\<forall>j \<in> set (db_jobs s). Some (ij_id j) \<notin> rf_job_id ` set fs \<longrightarrow> j \<in> set (db_jobs s')
         \<and> (job_stale (now s) stale_after j \<longrightarrow> int (length fs) = max 0 n
              \<and> (\<forall>k \<in> set (db_jobs s). Some (ij_id k) \<in> rf_job_id ` set fs \<longrightarrow>
                   (ij_updated_at k, unat (ij_id k)) \<le> (ij_updated_at j, unat (ij_id j)))))
    \<and> (\<forall>f \<in> set fs. \<exists>j \<in> set (db_jobs s). \<exists>k \<in> set (db_jobs s'). job_stale (now s) stale_after j
         \<and> f = job_finding (now s) j \<and> ij_id k = ij_id j \<and> ij_state k = JS_PENDING \<and> ij_lease_owner k = None
         \<and> ij_attempt_count k = ij_attempt_count j \<and> (\<forall>w a. \<not> owns_attempt k w a)
         \<and> (lease_expired (now s) j \<longrightarrow> (\<forall>a \<in> set (db_attempts s'). ja_tenant_id a = ij_tenant_id j
              \<and> ja_job_id a = ij_id j \<and> ja_attempt_number a = ij_attempt_count j \<longrightarrow> ja_finished_at a \<noteq> None)))
    \<and> (\<exists>as js. s' = s\<lparr>db_attempts := as, db_jobs := js\<rparr>)"
proof -
  let ?C = "stale_candidates stale_after n s"
  from stale_job_scan_Inr [OF assms] obtain as where
    fs: "fs = map (job_finding (now s)) (filter (\<lambda>j. j \<in> set ?C) (db_jobs s))"
    and s': "s' = s\<lparr>db_attempts := as, db_jobs := update_rows (\<lambda>j. j \<in> set ?C) (freed_row (now s)) (db_jobs s)\<rparr>"
    and closed: "\<forall>a \<in> set as. \<forall>c \<in> set ?C. lease_expired (now s) c
        \<and> ja_tenant_id a = ij_tenant_id c \<and> ja_job_id a = ij_id c \<and> ja_attempt_number a = ij_attempt_count c
        \<longrightarrow> ja_finished_at a \<noteq> None" by (elim conjE exE)
  note inj = distinct_map_inj_rows [OF assms(2) [unfolded job_ids_ok_def]]
  have C: "j \<in> set (db_jobs s) \<and> job_stale (now s) stale_after j" if "j \<in> set ?C" for j
    using that by (rule stale_candidate)
  have found: "Some (ij_id j) \<in> rf_job_id ` set fs \<longleftrightarrow> j \<in> set ?C" if "j \<in> set (db_jobs s)" for j
    using that inj C unfolding fs by (auto simp: job_finding_def image_iff)
  have len: "length fs = length ?C" by (rule stale_job_scan_length [OF assms])
  have keep: "j \<in> set (db_jobs s')" if "j \<in> set (db_jobs s)" "j \<notin> set ?C" for j
    using that unfolding s' by (auto simp: update_rows_def intro: rev_image_eqI)
  have active: "j \<notin> set ?C" if "lease_active j (now s)" for j
    using C [of j] that by (auto simp: job_stale_def lease_expired_def lease_active_def split: option.splits)
  have least: "length fs = nat n \<and> (\<forall>k \<in> set ?C. (ij_updated_at k, unat (ij_id k)) \<le> (ij_updated_at j, unat (ij_id j)))"
    if "j \<in> set (db_jobs s)" "job_stale (now s) stale_after j" "j \<notin> set ?C" for j
  proof -
    have "j \<in> set (filter (job_stale (now s) stale_after) (db_jobs s))" using that by simp
    from take_sort_key_least [OF this that(3) [unfolded stale_candidates_def]] show ?thesis
      unfolding len unfolding stale_candidates_def by simp
  qed
  have row: "\<exists>j \<in> set (db_jobs s). \<exists>k \<in> set (db_jobs s'). job_stale (now s) stale_after j
         \<and> f = job_finding (now s) j \<and> ij_id k = ij_id j \<and> ij_state k = JS_PENDING \<and> ij_lease_owner k = None
         \<and> ij_attempt_count k = ij_attempt_count j \<and> (\<forall>w a. \<not> owns_attempt k w a)
         \<and> (lease_expired (now s) j \<longrightarrow> (\<forall>a \<in> set (db_attempts s'). ja_tenant_id a = ij_tenant_id j
              \<and> ja_job_id a = ij_id j \<and> ja_attempt_number a = ij_attempt_count j \<longrightarrow> ja_finished_at a \<noteq> None))"
    if "f \<in> set fs" for f
  proof -
    have as: "db_attempts s' = as" unfolding s' by simp
    from that obtain j where j: "j \<in> set (db_jobs s)" "j \<in> set ?C" "f = job_finding (now s) j" unfolding fs by auto
    have k: "freed_row (now s) j \<in> set (db_jobs s')"
      using j unfolding s' by (auto simp: update_rows_def intro: rev_image_eqI)
    have "\<forall>a \<in> set (db_attempts s'). ja_tenant_id a = ij_tenant_id j \<and> ja_job_id a = ij_id j
        \<and> ja_attempt_number a = ij_attempt_count j \<longrightarrow> ja_finished_at a \<noteq> None" if "lease_expired (now s) j"
      using closed j(2) that unfolding as by blast
    then show ?thesis
      using C [OF j(2)] j(3)
      by (intro bexI [OF _ j(1)] bexI [OF _ k]) (simp add: freed_row_def owns_attempt_def)
  qed
  have "length ?C \<le> nat n" unfolding stale_candidates_def by simp
  then have "int (length fs) \<le> max 0 n" using len by simp
  moreover have "\<exists>as js. s' = s\<lparr>db_attempts := as, db_jobs := js\<rparr>" unfolding s' by blast
  ultimately show ?thesis
    using active keep found least row by simp
qed

section \<open>Ready versions\<close>

text \<open>Rows of a version carry its collection (their foreign keys).\<close>

definition rows_in_collection :: "session \<Rightarrow> version_row \<Rightarrow> bool" where
  "rows_in_collection s v \<longleftrightarrow>
     (\<forall>a \<in> set (db_artifacts s). af_tenant_id a = dv_tenant_id v \<and> af_document_version_id a = dv_id v
        \<longrightarrow> artifact_scope a = version_scope v)
     \<and> (\<forall>c \<in> set (db_chunks s). ck_tenant_id c = dv_tenant_id v \<and> ck_document_version_id c = dv_id v
        \<longrightarrow> chunk_scope c = version_scope v)"

lemma distinct_chunks_pos:
  assumes "p \<in> set ps"
  shows "distinct_chunks (ip_publication_kind p) ps > 0"
  using assms by (auto simp: distinct_chunks_def filter_empty_conv)

lemma filter_group_manifest:
  assumes "manifest_for s k (ip_target_name p) (ip_target_version p)"
  shows "filter (\<lambda>q. publication_group q = publication_group p)
        (filter (\<lambda>q. live q \<and> manifest_for s k (ip_target_name q) (ip_target_version q)) ps)
      = filter (\<lambda>q. publication_group q = publication_group p) (filter live ps)"
  unfolding filter_filter
  by (rule filter_cong) (use assms in \<open>auto simp: publication_group_def\<close>)

lemma has_complete_group_iff:
  "has_complete_group s v \<longleftrightarrow>
     (let k = version_scope v; cs = filter (\<lambda>c. chunk_scope c = k) (db_chunks s);
          ps = filter (\<lambda>p. publication_scope p = k \<and> ip_deleted_at p = None
                 \<and> manifest_for s k (ip_target_name p) (ip_target_version p)) (db_publications s)
      in cs \<noteq> [] \<and> list_ex (\<lambda>p. let g = filter (\<lambda>q. publication_group q = publication_group p) ps
            in distinct_chunks PK_LEXICAL g = int (length cs) \<and> distinct_chunks PK_VECTOR g = int (length cs)) ps)"
proof -
  let ?k = "version_scope v"
  let ?n = "int (length (filter (\<lambda>c. chunk_scope c = ?k) (db_chunks s)))"
  let ?live = "\<lambda>p. publication_scope p = ?k \<and> ip_deleted_at p = None"
  let ?man = "\<lambda>p. manifest_for s ?k (ip_target_name p) (ip_target_version p)"
  let ?g = "\<lambda>p ps. filter (\<lambda>q. publication_group q = publication_group p) ps"
  have pos: "0 < distinct_chunks PK_LEXICAL (?g p (filter ?live (db_publications s)))
      \<or> 0 < distinct_chunks PK_VECTOR (?g p (filter ?live (db_publications s)))"
    if "p \<in> set (filter ?live (db_publications s))" for p
    using distinct_chunks_pos [of p "?g p (filter ?live (db_publications s))"] that
    by (cases "ip_publication_kind p") auto
  have group: "?g p (filter (\<lambda>p. publication_scope p = ?k \<and> ip_deleted_at p = None \<and> ?man p) (db_publications s))
      = ?g p (filter ?live (db_publications s))" if "?man p" for p
    using filter_group_manifest [OF that, of ?live] by simp
  have "has_complete_group s v \<longleftrightarrow> (\<exists>p \<in> set (filter ?live (db_publications s)). ?man p
      \<and> distinct_chunks PK_LEXICAL (?g p (filter ?live (db_publications s))) = ?n
      \<and> distinct_chunks PK_VECTOR (?g p (filter ?live (db_publications s))) = ?n)"
    unfolding has_complete_group_def live_publications_def Let_def list_ex_iff ..
  also have "\<dots> \<longleftrightarrow> 0 < ?n \<and> (\<exists>p \<in> set (filter ?live (db_publications s)). ?man p
      \<and> distinct_chunks PK_LEXICAL (?g p (filter ?live (db_publications s))) = ?n
      \<and> distinct_chunks PK_VECTOR (?g p (filter ?live (db_publications s))) = ?n)"
    using pos by fastforce
  finally show ?thesis
    using group by (auto simp: Let_def list_ex_iff)
qed

text \<open>C38: the reconciler and the database agree on what a ready version needs. A ready version is
  found corrupt exactly when the ready trigger would now refuse the state, so a version that went
  through the trigger and was left alone is never failed.\<close>

theorem corrupt_iff_trigger_refuses:
  assumes "rows_in_collection s v" and "dv_state v \<in> {READY, READY_WITH_WARNINGS}"
  shows "corrupt_ready s v \<longleftrightarrow> enforce_ready_publication s v \<noteq> Inr ()"
proof -
  let ?k = "version_scope v"
  have art: "af_tenant_id a = dv_tenant_id v \<and> af_document_version_id a = dv_id v \<longleftrightarrow> artifact_scope a = ?k"
    if "a \<in> set (db_artifacts s)" for a
    using assms(1) that unfolding rows_in_collection_def by auto
  have chunk: "ck_tenant_id c = dv_tenant_id v \<and> ck_document_version_id c = dv_id v \<longleftrightarrow> chunk_scope c = ?k"
    if "c \<in> set (db_chunks s)" for c
    using assms(1) that unfolding rows_in_collection_def by auto
  have man: "has_chunk_manifest s v
      \<longleftrightarrow> list_ex (\<lambda>a. artifact_scope a = ?k \<and> af_artifact_type a = AT_CHUNK_MANIFEST) (db_artifacts s)"
    unfolding has_chunk_manifest_def version_artifact_def list_ex_iff using art by blast
  have emb: "missing_embedding s v \<longleftrightarrow> \<not> list_all (chunk_embedded s) (filter (\<lambda>c. chunk_scope c = ?k) (db_chunks s))"
    unfolding missing_embedding_def list_ex_iff list_all_iff set_filter using chunk by blast
  have idx: "has_index_manifest s v" if "has_complete_group s v"
    using that art unfolding has_complete_group_def live_publications_def Let_def list_ex_iff manifest_for_def
      has_index_manifest_def version_artifact_def by blast
  have "ready_publication_ok s v \<longleftrightarrow> has_chunk_manifest s v \<and> \<not> missing_embedding s v \<and> has_complete_group s v"
    using assms(2) unfolding ready_publication_ok_def man emb has_complete_group_iff Let_def by blast
  then show ?thesis
    using assms(2) idx unfolding corrupt_ready_def enforce_ready_publication_def by (auto simp: raise_if_def)
qed

end
