(* ===== verification/Reconciliation_Repair.thy ===== *)
theory Reconciliation_Repair
  imports Reconciliation_Scan
begin

text \<open>
  The repairs of the catalog scan: a corrupt ready version is failed with its audit trail and its
  search records retired; a deleted version whose retention is over gets a deletion job. Every other
  version is left as it is.
\<close>

section \<open>One repair\<close>

definition failed_row :: "timestamp \<Rightarrow> version_row \<Rightarrow> version_row" where
  "failed_row t v = v\<lparr>dv_state := FAILED, dv_state_revision := dv_state_revision v + 1,
     dv_terminal_reason_code := Some ''READY_PUBLICATION_CORRUPT'', dv_updated_at := t\<rparr>"

definition corrupt_key_free :: "session \<Rightarrow> version_row \<Rightarrow> bool" where
  "corrupt_key_free s v \<longleftrightarrow> (version_scope v, ''reconcile:corrupt:'' @ str_int (dv_state_revision v + 1))
     \<notin> event_idempotency ` set (db_events s)"

definition publications_retired :: "session \<Rightarrow> version_row \<Rightarrow> session \<Rightarrow> bool" where
  "publications_retired s v s' \<longleftrightarrow>
     (\<forall>p \<in> set (db_publications s'). publication_scope p = version_scope v \<longrightarrow> ip_deleted_at p \<noteq> None)
     \<and> (\<forall>p \<in> set (live_publications s v). \<exists>c \<in> set (db_search_cleanup s').
          cleanup_target_key c = entry_key (version_scope v) None (publication_group p))"

lemma group_publications_key:
  assumes "group_publications live = Inr ps" and "p \<in> set live"
  shows "\<exists>q \<in> set ps. publication_key q = publication_group p"
proof -
  let ?f = "\<lambda>(name, version, job_id, attempt). new_publication name version
      (max 1 (distinct_chunk_count (filter (\<lambda>p. publication_group p = (name, version, job_id, attempt)) live))) job_id attempt"
  have all: "list_all2 (\<lambda>g q. ?f g = Inr q) (remdups (map publication_group live)) ps"
    using assms(1) unfolding group_publications_def by (rule map_res_Inr)
  have "publication_group p \<in> set (remdups (map publication_group live))" using assms(2) by simp
  then obtain i where i: "i < length (remdups (map publication_group live))"
    "remdups (map publication_group live) ! i = publication_group p" unfolding in_set_conv_nth by blast
  from list_all2_nthD [OF all i(1)] have "publication_key (ps ! i) = publication_group p"
    unfolding i(2) by (cases "publication_group p") (auto dest: new_publication_Inr)
  moreover have "ps ! i \<in> set ps" using i(1) list_all2_lengthD [OF all] by simp
  ultimately show ?thesis by blast
qed

lemma fail_corrupt_Inr:
  assumes "fail_corrupt_ready_version v u s = Inr s'" and v: "v \<in> set (db_versions s)" "dv_state v \<in> {READY, READY_WITH_WARNINGS}"
    and keys: "version_keys_ok s" and audit: "audit_ok s" and free: "corrupt_key_free s v"
  shows "\<exists>cs ps. s' = (moved [v] (failed_row (now s)) (\<lambda>v. corrupt_event (u 0) v (dv_state_revision v)) s)
       \<lparr>db_search_cleanup := cs, db_publications := ps\<rparr>"
    and "publications_retired s v s'"
    and "set (db_search_cleanup s) \<subseteq> set (db_search_cleanup s')"
    and "\<forall>p \<in> set (db_publications s'). ip_deleted_at p = None \<longrightarrow> p \<in> set (db_publications s)"
    and "\<forall>p \<in> set (db_publications s). publication_scope p \<noteq> version_scope v \<longrightarrow> p \<in> set (db_publications s')"
proof -
  let ?live = "live_publications s v" and ?g = "failed_row (now s)" and ?ev = "\<lambda>v. corrupt_event (u 0) v (dv_state_revision v)"
  let ?pp = "\<lambda>p. publication_scope p = version_scope v \<and> ip_deleted_at p = None"
  let ?pv = "\<lambda>w. version_scope w = version_scope v \<and> dv_state w \<in> {READY, READY_WITH_WARNINGS}"
  from assms(1) obtain pubs s1 s2 s3 rows tr where 1: "group_publications ?live = Inr pubs"
    and 2: "enqueue_all (dv_tenant_id v) (dv_collection_id v) (dv_id v) None (\<lambda>n. u (n + 1)) pubs s = Inr s1"
    and 3: "update_publications ?pp (\<lambda>p. p\<lparr>ip_deleted_at := Some (now s1)\<rparr>) s1 = Inr s2"
    and 4: "update_versions True ?pv (failed_row (now s2)) s2 = Inr (rows, s3)"
    and 5: "one_or_none rows = Inr tr"
    and 6: "(case tr of None \<Rightarrow> Inr s3 | Some w \<Rightarrow> insert_event_once (corrupt_event (u 0) v (dv_state_revision w - 1)) s3) = Inr s'"
    unfolding fail_corrupt_ready_version_def failed_row_def by (elim bind_res_InrE bind_res_pairE)
  from enqueue_all_Inr [OF 2] obtain cs where e1: "s1 = s\<lparr>db_search_cleanup := cs\<rparr>" and cs: "set (db_search_cleanup s) \<subseteq> set cs"
    "\<forall>p \<in> set pubs. \<exists>c \<in> set cs. cleanup_target_key c = entry_key (version_scope v) None (publication_key p)" by (elim exE conjE)
  let ?ps = "update_rows ?pp (\<lambda>p. p\<lparr>ip_deleted_at := Some (now s)\<rparr>) (db_publications s)"
  from 3 have e2: "s2 = s\<lparr>db_search_cleanup := cs, db_publications := ?ps\<rparr>"
    unfolding update_publications_Inr e1 by simp
  have only: "?pv w \<longleftrightarrow> w = v" if "w \<in> set (db_versions s)" for w
    using that v distinct_map_inj_rows [OF keys [unfolded version_keys_ok_def]] by auto
  note m = 4 [unfolded update_versions_Inr, THEN conjunct2]
  note rows = m [THEN conjunct1] and e3 = m [THEN conjunct2]
  have "filter ?pv (db_versions s) = filter (\<lambda>w. dv_id w = dv_id v) (db_versions s)"
    by (rule filter_cong) (use only v distinct_map_inj_rows [OF keys [unfolded version_keys_ok_def]] in auto)
  also have "\<dots> = [v]" using filter_key_unique [OF keys [unfolded version_keys_ok_def] v(1)] .
  finally have "rows = [?g v]" unfolding rows e2 by simp
  with 5 have tr: "tr = Some (?g v)" by simp
  have vs: "update_rows ?pv ?g (db_versions s) = update_rows (\<lambda>w. dv_id w \<in> dv_id ` set [v]) ?g (db_versions s)"
    unfolding update_rows_def by (rule map_cong) (use only v distinct_map_inj_rows [OF keys [unfolded version_keys_ok_def]] in auto)
  have ins: "insert_event_once (?ev v) s3 = Inr s'" using 6 unfolding tr by (simp add: failed_row_def)
  have "event_idempotency (?ev v) \<notin> event_idempotency ` set (db_events s3)"
    using free unfolding corrupt_key_free_def e3 e2 by (simp add: event_idempotency_def corrupt_event_def)
  from insert_event_once_new [OF ins this]
  have s': "s' = (moved [v] ?g ?ev s)\<lparr>db_search_cleanup := cs, db_publications := ?ps\<rparr>"
    using vs unfolding e3 e2 moved_def by simp
  show "\<exists>cs ps. s' = (moved [v] ?g ?ev s)\<lparr>db_search_cleanup := cs, db_publications := ps\<rparr>" using s' by blast
  have fields: "db_search_cleanup s' = cs" "db_publications s' = ?ps" unfolding s' by simp_all
  show "set (db_search_cleanup s) \<subseteq> set (db_search_cleanup s')" unfolding fields by (rule cs(1))
  show "publications_retired s v s'"
    unfolding publications_retired_def fields
  proof (intro conjI ballI impI)
    fix p assume "p \<in> set ?ps" "publication_scope p = version_scope v"
    then show "ip_deleted_at p \<noteq> None" by (elim update_rowsE) (auto split: if_splits)
  next
    fix p assume "p \<in> set ?live"
    from group_publications_key [OF 1 this] cs(2)
    show "\<exists>c \<in> set cs. cleanup_target_key c = entry_key (version_scope v) None (publication_group p)" by metis
  qed
  show "\<forall>p \<in> set (db_publications s'). ip_deleted_at p = None \<longrightarrow> p \<in> set (db_publications s)"
    unfolding fields by (auto elim!: update_rowsE split: if_splits)
  show "\<forall>p \<in> set (db_publications s). publication_scope p \<noteq> version_scope v \<longrightarrow> p \<in> set (db_publications s')"
    unfolding fields by (auto simp: update_rows_def intro: rev_image_eqI)
qed

text \<open>A deletion job for the version that refers to a pending request, the one stored under the key of
  the version or a new one.\<close>

definition cleanup_requested :: "session \<Rightarrow> version_row \<Rightarrow> uuid \<Rightarrow> bool" where
  "cleanup_requested s v i \<longleftrightarrow> (\<exists>j \<in> set (db_jobs s). \<exists>r \<in> set (db_requests s). ij_id j = i
     \<and> job_scope j = version_scope v \<and> active_delete_job j \<and> ij_lifecycle_request_id j = Some (lr_id r)
     \<and> request_idempotency r = (dv_tenant_id v, dv_collection_id v, ''retention:'' @ str_uuid (dv_id v))
     \<and> lr_state r = RS_PENDING)"

definition requests_kept :: "session \<Rightarrow> session \<Rightarrow> bool" where
  "requests_kept s s' \<longleftrightarrow> (\<forall>r \<in> set (db_requests s). \<exists>q \<in> set (db_requests s'). lr_id q = lr_id r
     \<and> request_idempotency q = request_idempotency r \<and> (lr_state r = RS_PENDING \<longrightarrow> lr_state q = RS_PENDING))"

lemma upsert_retention_request_Inr:
  assumes "upsert_retention_request r s = Inr (i, s')" and "lr_state r = RS_PENDING"
  shows "\<exists>rs. s' = s\<lparr>db_requests := rs\<rparr>" and "requests_kept s s'"
    and "\<exists>q \<in> set (db_requests s'). lr_id q = i \<and> request_idempotency q = request_idempotency r \<and> lr_state q = RS_PENDING"
proof -
  let ?key = "\<lambda>q. request_idempotency q = request_idempotency r"
  let ?f = "\<lambda>q. q\<lparr>lr_state := RS_PENDING, lr_completed_at := None\<rparr>"
  have key: "request_idempotency (?f q) = request_idempotency q" for q by (simp add: request_idempotency_def)
  from assms(1) obtain m where m: "scalar (filter ?key (db_requests s)) = m"
    and c: "(case m of None \<Rightarrow> bind_res (insert_request r s) (\<lambda>s1. Inr (lr_id r, s1))
      | Some q \<Rightarrow> bind_res (update_requests ?key ?f s) (\<lambda>s1. Inr (lr_id q, s1))) = Inr (i, s')"
    unfolding upsert_retention_request_def by (auto elim: bind_res_InrE)
  have "(\<exists>rs. s' = s\<lparr>db_requests := rs\<rparr>) \<and> requests_kept s s' \<and> (\<exists>q \<in> set (db_requests s'). lr_id q = i
      \<and> request_idempotency q = request_idempotency r \<and> lr_state q = RS_PENDING)"
  proof (cases m)
    case None
    with c have "insert_request r s = Inr s'" "i = lr_id r" by (auto elim!: bind_res_InrE)
    with insert_request_Inr [of r s s'] assms(2) show ?thesis
      by (intro conjI) (auto simp: requests_kept_def)
  next
    case (Some q)
    with c have u: "update_requests ?key ?f s = Inr s'" and i: "i = lr_id q" by (auto elim!: bind_res_InrE)
    from u have s': "s' = s\<lparr>db_requests := update_rows ?key ?f (db_requests s)\<rparr>" unfolding update_requests_Inr by (elim conjE)
    from m Some obtain qs where "filter ?key (db_requests s) = q # qs" by (auto simp: scalar_eq_Some)
    then have "q \<in> set (filter ?key (db_requests s))" by simp
    then have q: "q \<in> set (db_requests s)" "?key q" by simp_all
    have row: "(if ?key p then ?f p else p) \<in> set (db_requests s')" if "p \<in> set (db_requests s)" for p
      using that unfolding s' by (auto simp: update_rows_def)
    have "requests_kept s s'"
      unfolding requests_kept_def
    proof
      fix p assume "p \<in> set (db_requests s)"
      from row [OF this] show "\<exists>q \<in> set (db_requests s'). lr_id q = lr_id p
          \<and> request_idempotency q = request_idempotency p \<and> (lr_state p = RS_PENDING \<longrightarrow> lr_state q = RS_PENDING)"
        by (rule rev_bexI) (simp add: key)
    qed
    moreover have "\<exists>p \<in> set (db_requests s'). lr_id p = i \<and> request_idempotency p = request_idempotency r \<and> lr_state p = RS_PENDING"
      using row [OF q(1)] by (rule rev_bexI) (simp add: key q(2) i)
    ultimately show ?thesis unfolding s' by blast
  qed
  then show "\<exists>rs. s' = s\<lparr>db_requests := rs\<rparr>" "requests_kept s s'"
    "\<exists>q \<in> set (db_requests s'). lr_id q = i \<and> request_idempotency q = request_idempotency r \<and> lr_state q = RS_PENDING"
    by blast+
qed

lemma request_retention_cleanup_Inr:
  assumes "request_retention_cleanup v m u s = Inr s'"
  shows "\<exists>rs j. s' = s\<lparr>db_requests := rs, db_jobs := db_jobs s @ [j]\<rparr>" and "requests_kept s s'"
    and "cleanup_requested s' v (u 0)"
proof -
  from assms obtain i s1 where 1: "upsert_retention_request (retention_request (u 1) v (now s)) s = Inr (i, s1)"
    and 2: "insert_job (retention_job (u 0) i v m s1) s1 = Inr s'"
    unfolding request_retention_cleanup_def by (auto elim!: bind_res_InrE)
  note u = upsert_retention_request_Inr [OF 1]
  have p: "lr_state (retention_request (u 1) v (now s)) = RS_PENDING" by (simp add: retention_request_def)
  note u = u [OF p]
  from u(1) obtain rs where s1: "s1 = s\<lparr>db_requests := rs\<rparr>" by blast
  let ?j = "retention_job (u 0) i v m s1"
  have s': "s' = s1\<lparr>db_jobs := db_jobs s1 @ [?j]\<rparr>" using insert_job_Inr [OF 2] by blast
  have j: "ij_id ?j = u 0" "job_scope ?j = version_scope v" "active_delete_job ?j" "ij_lifecycle_request_id ?j = Some i"
    by (simp_all add: retention_job_def new_job_def active_delete_job_def active_job_state_def)
  show "\<exists>rs j. s' = s\<lparr>db_requests := rs, db_jobs := db_jobs s @ [j]\<rparr>" unfolding s' s1 by auto
  show "requests_kept s s'" using u(2) unfolding s' requests_kept_def by simp
  from u(3) obtain q where q: "q \<in> set (db_requests s1)" "lr_id q = i" "lr_state q = RS_PENDING"
    "request_idempotency q = request_idempotency (retention_request (u 1) v (now s))" by blast
  have "?j \<in> set (db_jobs s')" "q \<in> set (db_requests s')" using q(1) unfolding s' by simp_all
  then show "cleanup_requested s' v (u 0)"
    unfolding cleanup_requested_def using j q(2-4)
    by (intro bexI [of _ ?j] bexI [of _ q]) (simp_all add: request_idempotency_def retention_request_def)
qed

section \<open>All repairs of a scan\<close>

text \<open>The tables a repair may not change.\<close>

definition other_tables :: "session \<Rightarrow> session" where
  "other_tables s = s\<lparr>db_versions := [], db_events := [], db_requests := [], db_jobs := [],
     db_search_cleanup := [], db_publications := []\<rparr>"

text \<open>What no repair does: it takes away no job and no entry of the cleanup queue, forgets no request
  and brings no publication back.\<close>

definition repair_frame :: "session \<Rightarrow> session \<Rightarrow> bool" where
  "repair_frame s s' \<longleftrightarrow> other_tables s' = other_tables s
     \<and> set (db_jobs s) \<subseteq> set (db_jobs s') \<and> requests_kept s s' \<and> set (db_search_cleanup s) \<subseteq> set (db_search_cleanup s')
     \<and> (\<forall>p \<in> set (db_publications s'). ip_deleted_at p = None \<longrightarrow> p \<in> set (db_publications s))"

lemma requests_kept_refl: "requests_kept s s"
  unfolding requests_kept_def by blast

lemma requests_kept_trans:
  assumes "requests_kept s s1" and "requests_kept s1 s2"
  shows "requests_kept s s2"
  unfolding requests_kept_def
proof
  fix r assume "r \<in> set (db_requests s)"
  with assms(1) obtain q where q: "q \<in> set (db_requests s1)" "lr_id q = lr_id r"
    "request_idempotency q = request_idempotency r" "lr_state r = RS_PENDING \<longrightarrow> lr_state q = RS_PENDING"
    unfolding requests_kept_def by blast
  from assms(2) q(1) obtain p where "p \<in> set (db_requests s2)" "lr_id p = lr_id q"
    "request_idempotency p = request_idempotency q" "lr_state q = RS_PENDING \<longrightarrow> lr_state p = RS_PENDING"
    unfolding requests_kept_def by blast
  with q show "\<exists>p \<in> set (db_requests s2). lr_id p = lr_id r \<and> request_idempotency p = request_idempotency r
      \<and> (lr_state r = RS_PENDING \<longrightarrow> lr_state p = RS_PENDING)"
    by (intro bexI [of _ p]) simp_all
qed

lemma repair_frame_refl: "repair_frame s s"
  unfolding repair_frame_def by (simp add: requests_kept_refl)

lemma repair_frame_trans:
  assumes "repair_frame s s1" and "repair_frame s1 s2"
  shows "repair_frame s s2"
proof -
  note a = assms(1) [unfolded repair_frame_def] and b = assms(2) [unfolded repair_frame_def]
  note a2 = a [THEN conjunct2] and b2 = b [THEN conjunct2]
  note a3 = a2 [THEN conjunct2] and b3 = b2 [THEN conjunct2]
  note a4 = a3 [THEN conjunct2] and b4 = b3 [THEN conjunct2]
  show ?thesis
    unfolding repair_frame_def
  proof (intro conjI)
    show "other_tables s2 = other_tables s" using a [THEN conjunct1] b [THEN conjunct1] by simp
    show "set (db_jobs s) \<subseteq> set (db_jobs s2)" by (rule subset_trans [OF a2 [THEN conjunct1] b2 [THEN conjunct1]])
    show "requests_kept s s2" by (rule requests_kept_trans [OF a3 [THEN conjunct1] b3 [THEN conjunct1]])
    show "set (db_search_cleanup s) \<subseteq> set (db_search_cleanup s2)"
      by (rule subset_trans [OF a4 [THEN conjunct1] b4 [THEN conjunct1]])
    show "\<forall>p \<in> set (db_publications s2). ip_deleted_at p = None \<longrightarrow> p \<in> set (db_publications s)"
      using a4 [THEN conjunct2] b4 [THEN conjunct2] by simp
  qed
qed

lemma cleanup_requested_mono:
  assumes "cleanup_requested s v i" and "repair_frame s s'"
  shows "cleanup_requested s' v i"
proof -
  from assms(1) obtain j r where j: "j \<in> set (db_jobs s)" "ij_id j = i" "job_scope j = version_scope v" "active_delete_job j"
    "ij_lifecycle_request_id j = Some (lr_id r)" and r: "r \<in> set (db_requests s)" "lr_state r = RS_PENDING"
    "request_idempotency r = (dv_tenant_id v, dv_collection_id v, ''retention:'' @ str_uuid (dv_id v))"
    unfolding cleanup_requested_def by blast
  have "requests_kept s s'" "j \<in> set (db_jobs s')" using assms(2) j(1) unfolding repair_frame_def by blast+
  moreover from this(1) r(1) obtain q where "q \<in> set (db_requests s')" "lr_id q = lr_id r"
    "request_idempotency q = request_idempotency r" "lr_state r = RS_PENDING \<longrightarrow> lr_state q = RS_PENDING"
    unfolding requests_kept_def by blast
  ultimately show ?thesis
    unfolding cleanup_requested_def using j r by (intro bexI [of _ j] bexI [of _ q]) simp_all
qed

lemma publications_retired_mono:
  assumes "publications_retired s v s1" and "repair_frame s1 s2"
  shows "publications_retired s v s2"
  using assms unfolding publications_retired_def repair_frame_def by blast

lemma publications_retired_earlier:
  assumes "publications_retired s1 v s2" and "set (live_publications s v) \<subseteq> set (live_publications s1 v)"
  shows "publications_retired s v s2"
  using assms unfolding publications_retired_def by blast

definition repaired :: "session \<Rightarrow> version_row \<Rightarrow> uuid \<Rightarrow> session \<Rightarrow> bool" where
  "repaired s v i s' \<longleftrightarrow>
     (if dv_state v = DELETED then v \<in> set (db_versions s') \<and> cleanup_requested s' v i
      else failed_row (now s) v \<in> set (db_versions s') \<and> publications_retired s v s')"

lemma repair_step:
  assumes r: "(if due then request_retention_cleanup v m u s else fail_corrupt_ready_version v u s) = Inr s'"
    and due: "due \<longleftrightarrow> dv_state v = DELETED" and st: "dv_state v \<in> {DELETED, READY, READY_WITH_WARNINGS}"
    and v: "v \<in> set (db_versions s)" and keys: "version_keys_ok s" and audit: "audit_ok s" and free: "corrupt_key_free s v"
  shows "repair_frame s s'" and "audit_ok s'" and "version_keys_ok s'" and "repaired s v (u 0) s'"
    and "\<forall>w \<in> set (db_versions s). w \<noteq> v \<longrightarrow> w \<in> set (db_versions s')
      \<and> set (live_publications s w) \<subseteq> set (live_publications s' w) \<and> (corrupt_key_free s w \<longrightarrow> corrupt_key_free s' w)"
proof -
  have "repair_frame s s' \<and> audit_ok s' \<and> version_keys_ok s' \<and> repaired s v (u 0) s' \<and> (\<forall>w \<in> set (db_versions s). w \<noteq> v
      \<longrightarrow> w \<in> set (db_versions s') \<and> set (live_publications s w) \<subseteq> set (live_publications s' w)
        \<and> (corrupt_key_free s w \<longrightarrow> corrupt_key_free s' w))"
  proof (cases due)
    case True
    with r have "request_retention_cleanup v m u s = Inr s'" by simp
    note c = request_retention_cleanup_Inr [OF this]
    from c(1) obtain rs j where s': "s' = s\<lparr>db_requests := rs, db_jobs := db_jobs s @ [j]\<rparr>" by (elim exE)
    have same: "db_versions s' = db_versions s" "db_events s' = db_events s" "db_publications s' = db_publications s"
      "db_search_cleanup s' = db_search_cleanup s" unfolding s' by simp_all
    have "repair_frame s s'"
      unfolding repair_frame_def same using c(2) by (auto simp: s' other_tables_def)
    then show ?thesis
      using audit_frame [OF same(1,2)] keys audit c(3) v due True
      by (simp add: repaired_def same live_publications_def corrupt_key_free_def)
  next
    case False
    with r have f: "fail_corrupt_ready_version v u s = Inr s'" by simp
    have st': "dv_state v \<in> {READY, READY_WITH_WARNINGS}" using st due False by auto
    note c = fail_corrupt_Inr [OF f v st' keys audit free]
    let ?g = "failed_row (now s)" and ?ev = "\<lambda>v. corrupt_event (u 0) v (dv_state_revision v)"
    from c(1) obtain cs ps where s': "s' = (moved [v] ?g ?ev s)\<lparr>db_search_cleanup := cs, db_publications := ps\<rparr>" by (elim exE)
    have fr: "db_versions s' = db_versions (moved [v] ?g ?ev s)" "db_events s' = db_events (moved [v] ?g ?ev s)"
      unfolding s' by simp_all
    have mv: "audit_ok (moved [v] ?g ?ev s) \<and> version_keys_ok (moved [v] ?g ?ev s)
        \<and> map version_scope (db_versions (moved [v] ?g ?ev s)) = map version_scope (db_versions s)"
      by (rule moved_audit [OF keys audit]) (use v in \<open>auto simp: failed_row_def corrupt_event_def\<close>)
    have uniq: "w = v" if "w \<in> set (db_versions s)" "dv_id w = dv_id v" for w
      using distinct_map_inj_rows [OF keys [unfolded version_keys_ok_def] that(1) v that(2)] .
    have rows: "(if dv_id w = dv_id v then ?g w else w) \<in> set (db_versions s')" if "w \<in> set (db_versions s)" for w
      using that unfolding fr moved_def by (auto simp: update_rows_def)
    have other: "w \<in> set (db_versions s') \<and> set (live_publications s w) \<subseteq> set (live_publications s' w)
        \<and> (corrupt_key_free s w \<longrightarrow> corrupt_key_free s' w)" if "w \<in> set (db_versions s)" "w \<noteq> v" for w
    proof -
      have d: "dv_id w \<noteq> dv_id v" using uniq that by blast
      have "set (live_publications s w) \<subseteq> set (live_publications s' w)"
        using c(5) d unfolding live_publications_def by auto
      moreover have "corrupt_key_free s w \<longrightarrow> corrupt_key_free s' w"
        using d unfolding corrupt_key_free_def fr moved_def by (auto simp: event_idempotency_def corrupt_event_def)
      ultimately show ?thesis using rows [OF that(1)] d by simp
    qed
    have "repair_frame s s'"
      unfolding repair_frame_def
    proof (intro conjI c(3,4))
      show "other_tables s' = other_tables s" unfolding s' moved_def other_tables_def by simp
      show "requests_kept s s'" unfolding s' moved_def requests_kept_def by auto
    qed (simp add: s' moved_def)
    moreover have "repaired s v (u 0) s'" using rows [OF v] c(2) due False by (simp add: repaired_def)
    ultimately show ?thesis using mv other unfolding audit_frame(1,2) [OF fr] by blast
  qed
  then show "repair_frame s s'" "audit_ok s'" "version_keys_ok s'" "repaired s v (u 0) s'"
    "\<forall>w \<in> set (db_versions s). w \<noteq> v \<longrightarrow> w \<in> set (db_versions s')
      \<and> set (live_publications s w) \<subseteq> set (live_publications s' w) \<and> (corrupt_key_free s w \<longrightarrow> corrupt_key_free s' w)"
    by blast+
qed

lemma repaired_later:
  assumes "repaired s v i s1" and "repair_frame s1 s2" and "\<forall>w \<in> set (db_versions s1). dv_id w = dv_id v \<longrightarrow> w \<in> set (db_versions s2)"
  shows "repaired s v i s2"
proof (cases "dv_state v = DELETED")
  case True
  with assms(1,3) cleanup_requested_mono [OF _ assms(2)] show ?thesis by (simp add: repaired_def)
next
  case False
  with assms(1) have r: "failed_row (now s) v \<in> set (db_versions s1)" "publications_retired s v s1"
    by (simp_all add: repaired_def)
  have "dv_id (failed_row (now s) v) = dv_id v" by (simp add: failed_row_def)
  with assms(3) r(1) publications_retired_mono [OF r(2) assms(2)] False show ?thesis by (simp add: repaired_def)
qed

lemma repair_frame_now: "repair_frame s s' \<Longrightarrow> now s' = now s"
  unfolding repair_frame_def other_tables_def by (elim conjE) (drule arg_cong [of _ _ now], simp)

lemma catalog_repairs_Inr:
  assumes "catalog_repairs m reason u vs s = Inr (fs, s')" and "set vs \<subseteq> set (db_versions s)" and "distinct (map dv_id vs)"
    and "\<forall>v \<in> set vs. (reason v = ''retention_cleanup_due'') = (dv_state v = DELETED)
      \<and> dv_state v \<in> {DELETED, READY, READY_WITH_WARNINGS} \<and> corrupt_key_free s v"
    and "version_keys_ok s" and "audit_ok s"
  shows "repair_frame s s' \<and> audit_ok s' \<and> version_keys_ok s'
    \<and> (\<forall>w \<in> set (db_versions s). w \<notin> set vs \<longrightarrow> w \<in> set (db_versions s'))
    \<and> list_all2 (\<lambda>v f. rf_version_id f = dv_id v \<and> rf_reason f = reason v
         \<and> (\<exists>i. repaired s v i s' \<and> rf_job_id f = (if dv_state v = DELETED then Some i else None))) vs fs"
  using assms
proof (induction m reason u vs s arbitrary: fs s' rule: catalog_repairs.induct)
  case (1 m reason u s)
  then show ?case by (simp add: repair_frame_refl)
next
  case (2 m reason u v vs s)
  let ?due = "reason v = ''retention_cleanup_due''"
  from "2.prems"(1) obtain s1 fs1 where
    r: "(if ?due then request_retention_cleanup v m (u 0) s else fail_corrupt_ready_version v (u 0) s) = Inr s1"
    and rest: "catalog_repairs m reason (\<lambda>n. u (n + 1)) vs s1 = Inr (fs1, s')"
    and fs: "fs = \<lparr>rf_reason = reason v, rf_tenant_id = dv_tenant_id v, rf_version_id = dv_id v,
       rf_job_id = (if ?due then Some (u 0 0) else None), rf_stage = (if ?due then Some ''delete'' else None)\<rparr> # fs1"
    unfolding catalog_repairs.simps Let_def by (auto elim!: bind_res_InrE)
  have v: "v \<in> set (db_versions s)" and d: "?due = (dv_state v = DELETED)"
    and st: "dv_state v \<in> {DELETED, READY, READY_WITH_WARNINGS}" and free: "corrupt_key_free s v"
    using "2.prems"(2,4) by simp_all
  note step = repair_step [OF r d st v "2.prems"(5,6) free]
  have ne: "w \<noteq> v" if "w \<in> set vs" for w using "2.prems"(3) that by auto
  have sub: "set vs \<subseteq> set (db_versions s1)"
    using "2.prems"(2) step(5) ne by auto
  have free1: "\<forall>w \<in> set vs. (reason w = ''retention_cleanup_due'') = (dv_state w = DELETED)
      \<and> dv_state w \<in> {DELETED, READY, READY_WITH_WARNINGS} \<and> corrupt_key_free s1 w"
    using "2.prems"(2,4) step(5) ne by auto
  have IH: "repair_frame s1 s' \<and> audit_ok s' \<and> version_keys_ok s'
    \<and> (\<forall>w \<in> set (db_versions s1). w \<notin> set vs \<longrightarrow> w \<in> set (db_versions s'))
    \<and> list_all2 (\<lambda>v f. rf_version_id f = dv_id v \<and> rf_reason f = reason v
         \<and> (\<exists>i. repaired s1 v i s' \<and> rf_job_id f = (if dv_state v = DELETED then Some i else None))) vs fs1"
    by (rule "2.IH" [OF refl r rest sub _ free1 step(3,2)]) (use "2.prems"(3) in simp)
  note fr1 = IH [THEN conjunct1] and IH2 = IH [THEN conjunct2]
  note IH4 = IH2 [THEN conjunct2, THEN conjunct2]
  have "repair_frame s s'" by (rule repair_frame_trans [OF step(1) fr1])
  moreover have keep: "\<forall>w \<in> set (db_versions s). w \<notin> set (v # vs) \<longrightarrow> w \<in> set (db_versions s')"
    using step(5) IH4 [THEN conjunct1] by simp
  moreover have "repaired s v (u 0 0) s'"
  proof (rule repaired_later [OF step(4) fr1], intro ballI impI)
    fix w assume "w \<in> set (db_versions s1)" "dv_id w = dv_id v"
    moreover have "w \<notin> set vs"
    proof
      assume "w \<in> set vs"
      then have "dv_id w \<in> dv_id ` set vs" by simp
      with \<open>dv_id w = dv_id v\<close> "2.prems"(3) show False by simp
    qed
    ultimately show "w \<in> set (db_versions s')" using IH4 [THEN conjunct1] by blast
  qed
  moreover have "list_all2 (\<lambda>v f. rf_version_id f = dv_id v \<and> rf_reason f = reason v
         \<and> (\<exists>i. repaired s v i s' \<and> rf_job_id f = (if dv_state v = DELETED then Some i else None))) vs fs1"
    using IH4 [THEN conjunct2]
  proof (rule list.rel_mono_strong)
    fix w f assume w: "w \<in> set vs"
      and e: "rf_version_id f = dv_id w \<and> rf_reason f = reason w
        \<and> (\<exists>i. repaired s1 w i s' \<and> rf_job_id f = (if dv_state w = DELETED then Some i else None))"
    have "set (live_publications s w) \<subseteq> set (live_publications s1 w)"
      using step(5) ne [OF w] w "2.prems"(2) by auto
    then have "repaired s w i s'" if "repaired s1 w i s'" for i
      using that publications_retired_earlier repair_frame_now [OF step(1)] by (auto simp: repaired_def)
    with e show "rf_version_id f = dv_id w \<and> rf_reason f = reason w
        \<and> (\<exists>i. repaired s w i s' \<and> rf_job_id f = (if dv_state w = DELETED then Some i else None))" by blast
  qed
  ultimately show ?case using IH2 d by (simp add: fs) blast
qed

text \<open>The rows of the scan are versions, each once.\<close>

lemma scan_rows_subset: "set [v. v \<leftarrow> vs, c \<leftarrow> cs, P v c] \<subseteq> set vs"
  by auto

lemma scan_rows_distinct:
  assumes "distinct (map dv_id vs)" and "distinct (map co_id cs)" and "\<And>v c. P v c \<Longrightarrow> co_id c = dv_collection_id v"
  shows "distinct (map dv_id [v. v \<leftarrow> vs, c \<leftarrow> cs, P v c])"
  using assms(1)
proof (induction vs)
  case (Cons v vs)
  have "length (filter (P v) ds) \<le> 1" if "distinct (map co_id ds)" for ds
    using that
  proof (induction ds)
    case (Cons c ds)
    have "filter (P v) ds = []" if "P v c"
      using Cons.prems assms(3) [OF that] assms(3) [of v] by (auto simp: filter_empty_conv image_iff)
    then show ?case using Cons by (cases "P v c") auto
  qed simp
  from this [OF assms(2)] have c: "concat (map (\<lambda>c. if P v c then [v] else []) cs) = []
      \<or> concat (map (\<lambda>c. if P v c then [v] else []) cs) = [v]"
    unfolding concat_guard by (cases "filter (P v) cs") auto
  have eq: "[v. v \<leftarrow> v # vs, c \<leftarrow> cs, P v c]
      = concat (map (\<lambda>c. if P v c then [v] else []) cs) @ [v. v \<leftarrow> vs, c \<leftarrow> cs, P v c]"
    by (simp only: list.map concat.simps)
  have d: "distinct (map dv_id vs)" "dv_id v \<notin> dv_id ` set vs" using Cons.prems by simp_all
  have new: "dv_id v \<notin> dv_id ` set [v. v \<leftarrow> vs, c \<leftarrow> cs, P v c]"
    using d(2) scan_rows_subset [of P cs vs] by blast
  show ?case
    using c
  proof (elim disjE)
    assume e: "concat (map (\<lambda>c. if P v c then [v] else []) cs) = []"
    have r: "[v. v \<leftarrow> v # vs, c \<leftarrow> cs, P v c] = [v. v \<leftarrow> vs, c \<leftarrow> cs, P v c]"
      by (rule trans [OF eq]) (simp only: e append.simps)
    show ?thesis unfolding r by (rule Cons.IH [OF d(1)])
  next
    assume e: "concat (map (\<lambda>c. if P v c then [v] else []) cs) = [v]"
    have r: "[v. v \<leftarrow> v # vs, c \<leftarrow> cs, P v c] = v # [v. v \<leftarrow> vs, c \<leftarrow> cs, P v c]"
      by (rule trans [OF eq]) (simp only: e append.simps)
    show ?thesis unfolding r unfolding list.map(2) distinct.simps(2) set_map using new Cons.IH [OF d(1)] by (rule conjI)
  qed
qed simp

lemma catalog_finding_rows_props:
  assumes "version_keys_ok s" and "distinct (map co_id (db_collections s))"
  shows "set (catalog_finding_rows limit s) \<subseteq> set (db_versions s)" and "distinct (map dv_id (catalog_finding_rows limit s))"
    and "length (catalog_finding_rows limit s) \<le> nat limit"
    and "v \<in> set (catalog_finding_rows limit s) \<Longrightarrow> (dv_state v = DELETED \<and> (\<exists>c \<in> set (db_collections s). retention_cleanup_due s v c))
      \<or> corrupt_ready s v"
proof -
  let ?P = "\<lambda>v c. co_tenant_id c = dv_tenant_id v \<and> co_id c = dv_collection_id v
      \<and> (retention_cleanup_due s v c \<or> corrupt_ready s v)"
  let ?rows = "[v. v \<leftarrow> db_versions s, c \<leftarrow> db_collections s, ?P v c]"
  let ?key = "\<lambda>v. (if dv_state v = DELETED then 0 else 1 :: nat, dv_updated_at v, unat (dv_id v))"
  have rows: "catalog_finding_rows limit s = take (nat limit) (sort_key ?key ?rows)" unfolding catalog_finding_rows_def ..
  have mem: "v \<in> set ?rows" if "v \<in> set (catalog_finding_rows limit s)" for v
    using that unfolding rows by (rule in_take_sort_key)
  show "set (catalog_finding_rows limit s) \<subseteq> set (db_versions s)" using mem by auto
  have "distinct (map dv_id ?rows)"
    by (rule scan_rows_distinct [OF assms(1) [unfolded version_keys_ok_def] assms(2)]) simp
  then have "distinct (map dv_id (sort_key ?key ?rows))" by (simp add: distinct_map)
  then show "distinct (map dv_id (catalog_finding_rows limit s))" unfolding rows take_map [symmetric] by (rule distinct_take)
  show "length (catalog_finding_rows limit s) \<le> nat limit" unfolding rows by simp
  show "(dv_state v = DELETED \<and> (\<exists>c \<in> set (db_collections s). retention_cleanup_due s v c)) \<or> corrupt_ready s v"
    if "v \<in> set (catalog_finding_rows limit s)"
    using mem [OF that] by (auto simp: retention_cleanup_due_def)
qed

text \<open>C39: the repairs of the catalog scan. Versions are found in the page, each once, and every version
  that is not found stays as it is. A ready version that is found is corrupt; it is failed with a
  reason, its audit trail stays intact, none of its publications is live any more and each of the
  groups it had is queued for removal. A deleted version that is found is past its retention; it
  stays deleted and the finding names a waiting deletion job of it with a pending request.\<close>

theorem catalog_findings_repair:
  assumes "catalog_findings limit m u s = Inr (fs, s')" and "version_keys_ok s" and "audit_ok s"
    and "distinct (map co_id (db_collections s))" and "\<forall>v \<in> set (db_versions s). corrupt_key_free s v"
  shows "length fs \<le> nat limit \<and> distinct (map rf_version_id fs) \<and> audit_ok s' \<and> version_keys_ok s'
    \<and> (\<forall>v \<in> set (db_versions s). dv_id v \<notin> rf_version_id ` set fs \<longrightarrow> v \<in> set (db_versions s'))
    \<and> (\<forall>f \<in> set fs. \<exists>v \<in> set (db_versions s). rf_version_id f = dv_id v
         \<and> (if dv_state v = DELETED
            then (\<exists>c \<in> set (db_collections s). retention_cleanup_due s v c) \<and> v \<in> set (db_versions s')
              \<and> (\<exists>i. rf_job_id f = Some i \<and> cleanup_requested s' v i)
            else corrupt_ready s v \<and> failed_row (now s) v \<in> set (db_versions s') \<and> publications_retired s v s'))
    \<and> other_tables s' = other_tables s"
proof -
  let ?vs = "catalog_finding_rows limit s"
  note p = catalog_finding_rows_props [OF assms(2,4), where limit = limit]
  have r: "catalog_repairs m (finding_reason s) u ?vs s = Inr (fs, s')" using assms(1) unfolding catalog_findings_def .
  have st: "dv_state v \<in> {DELETED, READY, READY_WITH_WARNINGS}" if "v \<in> set ?vs" for v
    using p(4) [OF that] by (auto simp: corrupt_ready_def)
  have reason: "(finding_reason s v = ''retention_cleanup_due'') = (dv_state v = DELETED)" for v
    by (simp add: finding_reason_def)
  have "\<forall>v \<in> set ?vs. (finding_reason s v = ''retention_cleanup_due'') = (dv_state v = DELETED)
      \<and> dv_state v \<in> {DELETED, READY, READY_WITH_WARNINGS} \<and> corrupt_key_free s v"
    using st reason assms(5) p(1) by blast
  note c = catalog_repairs_Inr [OF r p(1,2) this assms(2,3)]
  note c2 = c [THEN conjunct2] note c3 = c2 [THEN conjunct2] note c4 = c3 [THEN conjunct2]
  note all = c4 [THEN conjunct2]
  have ids: "map rf_version_id fs = map dv_id ?vs"
    using all by (induction rule: list_all2_induct) simp_all
  have keep: "v \<in> set (db_versions s')" if "v \<in> set (db_versions s)" "dv_id v \<notin> rf_version_id ` set fs" for v
  proof -
    have "dv_id v \<notin> dv_id ` set ?vs" using that(2) unfolding set_map [symmetric] ids .
    then show ?thesis using c4 [THEN conjunct1] that(1) by blast
  qed
  have find: "\<exists>v \<in> set (db_versions s). rf_version_id f = dv_id v
         \<and> (if dv_state v = DELETED
            then (\<exists>c \<in> set (db_collections s). retention_cleanup_due s v c) \<and> v \<in> set (db_versions s')
              \<and> (\<exists>i. rf_job_id f = Some i \<and> cleanup_requested s' v i)
            else corrupt_ready s v \<and> failed_row (now s) v \<in> set (db_versions s') \<and> publications_retired s v s')"
    if "f \<in> set fs" for f
  proof -
    from list_all2_rightD [OF all that] obtain v i where v: "v \<in> set ?vs" "rf_version_id f = dv_id v" "repaired s v i s'"
      "rf_job_id f = (if dv_state v = DELETED then Some i else None)" by blast
    have "v \<in> set (db_versions s)" using v(1) p(1) by blast
    moreover have "dv_state v \<noteq> DELETED" if "corrupt_ready s v" using that by (auto simp: corrupt_ready_def)
    ultimately show ?thesis
      using v(2-4) p(4) [OF v(1)] by (intro bexI [of _ v]) (auto simp: repaired_def)
  qed
  have "length fs \<le> nat limit" using p(3) list_all2_lengthD [OF all] by simp
  moreover have "distinct (map rf_version_id fs)" unfolding ids by (rule p(2))
  moreover have "other_tables s' = other_tables s" using c [THEN conjunct1] unfolding repair_frame_def by (rule conjunct1)
  ultimately show ?thesis using c2 [THEN conjunct1] c3 [THEN conjunct1] keep find by blast
qed

end
