(* ===== verification/Reconciliation_Run.thy ===== *)
theory Reconciliation_Run
  imports Reconciliation_Repair
begin

text \<open>
  One run of the reconciler: recovery, scan, dispatch and heartbeat together, and a key of a client
  that the reconciler takes for its own.
\<close>

section \<open>Dispatch\<close>

declare task_for_stage.simps [simp del]

lemma dispatch_nothing:
  assumes "\<not> (\<exists>i stage. rf_job_id f = Some i \<and> rf_stage f = Some stage)"
  shows "dispatch_findings dispatch env delay (f # fs) s d = dispatch_findings dispatch env delay fs s d"
  using assms by (cases "rf_job_id f"; cases "rf_stage f") simp_all

lemma dispatch_job:
  assumes "rf_job_id f = Some i" and "rf_stage f = Some stage" and "task_for_stage stage = Inr task"
    and "dispatch task (rf_tenant_id f) (rf_version_id f) i d = (x, d1)"
  shows "dispatch_findings dispatch env delay (f # fs) s d = (case x of
      Inr _ \<Rightarrow> dispatch_findings dispatch env delay fs s d1
    | Inl e \<Rightarrow> (case unit_transaction (defer_undispatched delay (f # fs)) (env s) of
         (Inl e1, s1) \<Rightarrow> (Inl e1, s1, d1) | (Inr _, s1) \<Rightarrow> (Inl e, s1, d1)))"
  using assms by (cases x) simp_all

type_synonym dispatch_call = "string \<times> uuid \<times> uuid \<times> uuid"

definition logging :: "'d dispatcher \<Rightarrow> ('d \<times> dispatch_call list) dispatcher" where
  "logging dispatch task t v j d = (case dispatch task t v j (fst d) of (r, d1) \<Rightarrow> (r, d1, snd d @ [(task, t, v, j)]))"

text \<open>The deliveries that findings ask for.\<close>

definition delivery :: "ReconciliationFinding \<Rightarrow> dispatch_call list" where
  "delivery f = (case (rf_job_id f, rf_stage f) of
     (Some j, Some stage) \<Rightarrow> (case task_for_stage stage of
        Inr task \<Rightarrow> [(task, rf_tenant_id f, rf_version_id f, j)] | Inl _ \<Rightarrow> [])
   | _ \<Rightarrow> [])"

definition job_deferred :: "timestamp \<Rightarrow> session \<Rightarrow> ReconciliationFinding \<Rightarrow> session \<Rightarrow> bool" where
  "job_deferred delay s f s' \<longleftrightarrow> (\<forall>i stage. rf_job_id f = Some i \<and> rf_stage f = Some stage \<longrightarrow>
     (\<forall>j \<in> set (db_jobs s'). ij_id j = i \<and> ij_tenant_id j = rf_tenant_id f \<and> ij_document_version_id j = rf_version_id f
        \<and> ij_state j \<in> {JS_PENDING, JS_RETRY_SCHEDULED} \<longrightarrow>
        ij_state j = JS_RETRY_SCHEDULED \<and> ij_retry_at j = Some (now s + delay)))"

lemma defer_job_dispatch_Inr:
  assumes "defer_job_dispatch t v nj reason delay s = Inr s'"
  shows "\<exists>js. s' = s\<lparr>db_jobs := js\<rparr>" and "now s' = now s"
    and "j \<in> set (db_jobs s') \<Longrightarrow> (ij_id j = nj_id nj \<and> ij_tenant_id j = t \<and> ij_document_version_id j = v
           \<and> ij_state j = JS_RETRY_SCHEDULED \<and> ij_retry_at j = Some (now s + delay))
         \<or> (j \<in> set (db_jobs s) \<and> \<not> (ij_id j = nj_id nj \<and> ij_tenant_id j = t \<and> ij_document_version_id j = v
           \<and> ij_state j \<in> {JS_PENDING, JS_RETRY_SCHEDULED}))"
proof -
  let ?p = "\<lambda>j. ij_id j = nj_id nj \<and> ij_tenant_id j = t \<and> ij_document_version_id j = v
      \<and> ij_state j \<in> {JS_PENDING, JS_RETRY_SCHEDULED}"
  let ?f = "\<lambda>j. j\<lparr>ij_state := JS_RETRY_SCHEDULED, ij_retry_at := Some (now s + delay), ij_updated_at := now s,
      ij_sanitized_context := json_set ''dispatch_failure_reason'' reason (ij_sanitized_context j)\<rparr>"
  from assms have s': "s' = s\<lparr>db_jobs := update_rows ?p ?f (db_jobs s)\<rparr>"
    unfolding defer_job_dispatch_def update_jobs_Inr by (elim conjE)
  then show "\<exists>js. s' = s\<lparr>db_jobs := js\<rparr>" "now s' = now s" by auto
  assume "j \<in> set (db_jobs s')"
  then have "j \<in> set (update_rows ?p ?f (db_jobs s))" unfolding s' by simp
  then obtain k where k: "k \<in> set (db_jobs s)" "j = (if ?p k then ?f k else k)" by (rule update_rowsE)
  show "(ij_id j = nj_id nj \<and> ij_tenant_id j = t \<and> ij_document_version_id j = v
           \<and> ij_state j = JS_RETRY_SCHEDULED \<and> ij_retry_at j = Some (now s + delay))
         \<or> (j \<in> set (db_jobs s) \<and> \<not> (ij_id j = nj_id nj \<and> ij_tenant_id j = t \<and> ij_document_version_id j = v
           \<and> ij_state j \<in> {JS_PENDING, JS_RETRY_SCHEDULED}))"
  proof (cases "?p k")
    case True
    have j: "j = ?f k" using k(2) unfolding if_P [OF True] .
    show ?thesis using True unfolding j by simp
  next
    case False
    have "j = k" using k(2) unfolding if_not_P [OF False] .
    with False k(1) show ?thesis by blast
  qed
qed

lemma defer_finding_Inr:
  assumes "defer_finding delay f s = Inr s'"
  shows "now s' = now s" and "\<exists>js. s' = s\<lparr>db_jobs := js\<rparr>" and "job_deferred delay s f s'"
    and "now s0 = now s \<Longrightarrow> job_deferred delay s0 g s \<Longrightarrow> job_deferred delay s0 g s'"
proof -
  have "now s' = now s \<and> (\<exists>js. s' = s\<lparr>db_jobs := js\<rparr>) \<and> job_deferred delay s f s'
      \<and> (now s0 = now s \<longrightarrow> job_deferred delay s0 g s \<longrightarrow> job_deferred delay s0 g s')"
  proof (cases "\<exists>i stage. rf_job_id f = Some i \<and> rf_stage f = Some stage")
    case True
    then obtain i stage where f: "rf_job_id f = Some i" "rf_stage f = Some stage" by (elim exE conjE)
    have d: "defer_job_dispatch (rf_tenant_id f) (rf_version_id f) \<lparr>nj_id = i, nj_stage = stage_of_text stage\<rparr>
        ''RECONCILIATION_DISPATCH_UNAVAILABLE'' delay s = Inr s'" using assms f by (simp add: defer_finding_def)
    note c = defer_job_dispatch_Inr [OF d]
    have row: "ij_state j = JS_RETRY_SCHEDULED \<and> ij_retry_at j = Some (now s + delay) \<or> j \<in> set (db_jobs s)"
      if "j \<in> set (db_jobs s')" for j using c(3) [OF that] by (elim disjE conjE) simp_all
    have own: "ij_state j = JS_RETRY_SCHEDULED \<and> ij_retry_at j = Some (now s + delay)"
      if "j \<in> set (db_jobs s')" "ij_id j = i" "ij_tenant_id j = rf_tenant_id f" "ij_document_version_id j = rf_version_id f"
        "ij_state j \<in> {JS_PENDING, JS_RETRY_SCHEDULED}" for j
      using c(3) [OF that(1)] that(2-5) by (elim disjE conjE) simp_all
    have "job_deferred delay s f s'" unfolding job_deferred_def using own f by simp
    moreover have "job_deferred delay s0 g s'" if "now s0 = now s" "job_deferred delay s0 g s"
      unfolding job_deferred_def that(1)
    proof (intro allI ballI impI)
      fix k t j assume g: "rf_job_id g = Some k \<and> rf_stage g = Some t" and j: "j \<in> set (db_jobs s')"
        and m: "ij_id j = k \<and> ij_tenant_id j = rf_tenant_id g \<and> ij_document_version_id j = rf_version_id g
          \<and> ij_state j \<in> {JS_PENDING, JS_RETRY_SCHEDULED}"
      from row [OF j] show "ij_state j = JS_RETRY_SCHEDULED \<and> ij_retry_at j = Some (now s + delay)"
      proof
        assume "j \<in> set (db_jobs s)"
        with that(2) g m show ?thesis unfolding job_deferred_def that(1) by blast
      qed
    qed
    ultimately show ?thesis using c(1,2) by blast
  next
    case False
    then have "s' = s" using assms by (auto simp: defer_finding_def split: option.splits)
    moreover have "job_deferred delay s f s" using False unfolding job_deferred_def by blast
    moreover have "\<exists>js. s = s\<lparr>db_jobs := js\<rparr>" by (rule exI [of _ "db_jobs s"]) simp
    ultimately show ?thesis by simp
  qed
  then show "now s' = now s" "\<exists>js. s' = s\<lparr>db_jobs := js\<rparr>" "job_deferred delay s f s'"
    "now s0 = now s \<Longrightarrow> job_deferred delay s0 g s \<Longrightarrow> job_deferred delay s0 g s'" by blast+
qed

lemma defer_undispatched_Inr:
  assumes "defer_undispatched delay fs s = Inr s'" and "now s0 = now s"
  shows "now s' = now s \<and> (\<forall>f \<in> set fs. job_deferred delay s0 f s') \<and> (\<forall>g. job_deferred delay s0 g s \<longrightarrow> job_deferred delay s0 g s')"
  using assms
proof (induction fs arbitrary: s)
  case Nil
  then show ?case by (simp add: defer_undispatched_def)
next
  case (Cons f fs)
  from Cons.prems(1) obtain s1 where s1: "defer_finding delay f s = Inr s1" and rest: "defer_undispatched delay fs s1 = Inr s'"
    unfolding defer_undispatched_def by (auto elim: bind_res_InrE)
  note d = defer_finding_Inr [OF s1]
  have n: "now s0 = now s1" using Cons.prems(2) d(1) by simp
  have "job_deferred delay s0 f s1" using d(3) unfolding job_deferred_def Cons.prems(2) .
  with Cons.IH [OF rest n] d(1) d(4) [OF Cons.prems(2)] show ?case by simp
qed

text \<open>The three ways the loop over the findings can end, with the deliveries \<open>new\<close> it asked for.\<close>

definition dispatched_all :: "ReconciliationFinding list \<Rightarrow> session \<Rightarrow> unit res \<Rightarrow> session \<Rightarrow> dispatch_call list \<Rightarrow> bool" where
  "dispatched_all fs s r s' new \<longleftrightarrow> r = Inr () \<and> s' = s \<and> new = concat (map delivery fs)
     \<and> (\<forall>f \<in> set fs. rf_job_id f \<noteq> None \<and> rf_stage f \<noteq> None \<longrightarrow> length (delivery f) = 1)"

definition dispatcher_failed ::
  "'d dispatcher \<Rightarrow> timestamp \<Rightarrow> ReconciliationFinding list \<Rightarrow> session \<Rightarrow> unit res \<Rightarrow> session \<Rightarrow> 'd \<Rightarrow> dispatch_call list \<Rightarrow> bool" where
  "dispatcher_failed dispatch delay fs s r s' d' new \<longleftrightarrow>
     (\<exists>pre f post task i d0 e. fs = pre @ f # post \<and> new = concat (map delivery pre) @ [(task, rf_tenant_id f, rf_version_id f, i)]
        \<and> delivery f = [(task, rf_tenant_id f, rf_version_id f, i)]
        \<and> dispatch task (rf_tenant_id f) (rf_version_id f) i d0 = (Inl e, d')
        \<and> (case defer_undispatched delay (f # post) s of
             Inr s1 \<Rightarrow> r = Inl e \<and> s' = s1 \<and> (\<forall>g \<in> set (f # post). job_deferred delay s g s1)
           | Inl e1 \<Rightarrow> r = Inl e1 \<and> s' = s))"

definition stage_unsupported :: "ReconciliationFinding list \<Rightarrow> session \<Rightarrow> unit res \<Rightarrow> session \<Rightarrow> dispatch_call list \<Rightarrow> bool" where
  "stage_unsupported fs s r s' new \<longleftrightarrow>
     (\<exists>pre f post stage. fs = pre @ f # post \<and> rf_job_id f \<noteq> None \<and> rf_stage f = Some stage
        \<and> task_for_stage stage = Inl (ValueError ''reconciler found an unsupported job stage'')
        \<and> r = Inl (ValueError ''reconciler found an unsupported job stage'') \<and> s' = s \<and> new = concat (map delivery pre))"

text \<open>What holds of the rest of the findings holds of all of them.\<close>

lemma dispatched_later:
  "(rf_job_id f \<noteq> None \<and> rf_stage f \<noteq> None \<longrightarrow> length (delivery f) = 1) \<Longrightarrow>
    dispatched_all fs s r s' new \<Longrightarrow> dispatched_all (f # fs) s r s' (delivery f @ new)"
  "dispatcher_failed dispatch delay fs s r s' d' new \<Longrightarrow> dispatcher_failed dispatch delay (f # fs) s r s' d' (delivery f @ new)"
  "stage_unsupported fs s r s' new \<Longrightarrow> stage_unsupported (f # fs) s r s' (delivery f @ new)"
proof -
  show "(rf_job_id f \<noteq> None \<and> rf_stage f \<noteq> None \<longrightarrow> length (delivery f) = 1) \<Longrightarrow>
    dispatched_all fs s r s' new \<Longrightarrow> dispatched_all (f # fs) s r s' (delivery f @ new)"
    by (simp add: dispatched_all_def)
next
  assume "dispatcher_failed dispatch delay fs s r s' d' new"
  then obtain pre g post task i d0 e where g: "fs = pre @ g # post" "new = concat (map delivery pre) @ [(task, rf_tenant_id g, rf_version_id g, i)]"
    "delivery g = [(task, rf_tenant_id g, rf_version_id g, i)]" "dispatch task (rf_tenant_id g) (rf_version_id g) i d0 = (Inl e, d')"
    "case defer_undispatched delay (g # post) s of
             Inr s1 \<Rightarrow> r = Inl e \<and> s' = s1 \<and> (\<forall>g \<in> set (g # post). job_deferred delay s g s1)
           | Inl e1 \<Rightarrow> r = Inl e1 \<and> s' = s"
    unfolding dispatcher_failed_def by (elim exE conjE)
  then have "f # fs = (f # pre) @ g # post" "delivery f @ new = concat (map delivery (f # pre)) @ [(task, rf_tenant_id g, rf_version_id g, i)]"
    by simp_all
  from this g(3-5) show "dispatcher_failed dispatch delay (f # fs) s r s' d' (delivery f @ new)"
    unfolding dispatcher_failed_def by (intro exI conjI)
next
  assume "stage_unsupported fs s r s' new"
  then obtain pre g post stage where g: "fs = pre @ g # post" "rf_job_id g \<noteq> None" "rf_stage g = Some stage"
      "task_for_stage stage = Inl (ValueError ''reconciler found an unsupported job stage'')"
      "r = Inl (ValueError ''reconciler found an unsupported job stage'')" "s' = s" "new = concat (map delivery pre)"
    unfolding stage_unsupported_def by (elim exE conjE)
  then have "f # fs = (f # pre) @ g # post" "delivery f @ new = concat (map delivery (f # pre))" by simp_all
  from this(1) g(2-6) this(2) show "stage_unsupported (f # fs) s r s' (delivery f @ new)"
    unfolding stage_unsupported_def by (intro exI conjI)
qed

lemma task_for_stage_Inl:
  "task_for_stage stage = Inl e \<Longrightarrow> e = ValueError ''reconciler found an unsupported job stage''"
  by (auto simp: task_for_stage.simps split: if_splits)

text \<open>C40: what becomes of the findings. The jobs found are handed to the dispatcher in their order, one delivery each.
  When all are accepted, nothing else happens. When the dispatcher fails, the transaction that defers the job it failed
  on and every job after it is run, whatever other sessions did meanwhile: they all wait for a retry and the error of the
  dispatcher is raised, or, when this transaction raises, its error is raised and it left nothing behind. A job whose
  stage no worker serves ends the loop with a \<open>ValueError\<close>: what came before it was dispatched, the job and what comes
  after it is neither dispatched nor deferred.\<close>

theorem dispatch_findings_total:
  assumes "dispatch_findings (logging dispatch) env delay fs s (d, calls) = (r, s', (d', calls'))"
  shows "\<exists>new. calls' = calls @ new \<and>
    (dispatched_all fs s r s' new \<or> dispatcher_failed dispatch delay fs (env s) r s' d' new \<or> stage_unsupported fs s r s' new)"
  using assms
proof (induction fs arbitrary: d calls)
  case Nil
  then show ?case by (simp add: dispatched_all_def)
next
  case (Cons f fs)
  let ?run = "dispatch_findings (logging dispatch) env delay"
  have later: ?case if "?run fs s (d1, calls @ delivery f) = (r, s', (d', calls'))"
    and one: "rf_job_id f \<noteq> None \<and> rf_stage f \<noteq> None \<longrightarrow> length (delivery f) = 1" for d1
  proof -
    from Cons.IH [OF that(1)] obtain new where "calls' = calls @ delivery f @ new"
      "dispatched_all fs s r s' new \<or> dispatcher_failed dispatch delay fs (env s) r s' d' new \<or> stage_unsupported fs s r s' new"
      by auto
    then show ?thesis
      by (intro exI [of _ "delivery f @ new"] conjI) (auto intro: dispatched_later dispatched_later(1) [OF one])
  qed
  show ?case
  proof (cases "\<exists>i stage. rf_job_id f = Some i \<and> rf_stage f = Some stage")
    case False
    then have none: "delivery f = []" by (auto simp: delivery_def split: option.splits)
    have "?run fs s (d, calls @ delivery f) = (r, s', (d', calls'))"
      using Cons.prems unfolding dispatch_nothing [OF False] none by simp
    from later [OF this] False show ?thesis by auto
  next
    case True
    then obtain i stage where f: "rf_job_id f = Some i" "rf_stage f = Some stage" by (elim exE conjE)
    show ?thesis
    proof (cases "task_for_stage stage")
      case (Inl e)
      then have "r = Inl e" "s' = s" "calls' = calls" using Cons.prems f by simp_all
      with f Inl task_for_stage_Inl [OF Inl] have "stage_unsupported (f # fs) s r s' []"
        unfolding stage_unsupported_def
        by (intro exI [of _ "[]"] exI [of _ f] exI [of _ fs] exI [of _ stage]) simp
      with \<open>calls' = calls\<close> show ?thesis by (intro exI [of _ "[]"]) simp
    next
      case t: (Inr task)
      have one: "delivery f = [(task, rf_tenant_id f, rf_version_id f, i)]" by (simp add: delivery_def f t)
      obtain x d1 where x: "dispatch task (rf_tenant_id f) (rf_version_id f) i d = (x, d1)"
        by (cases "dispatch task (rf_tenant_id f) (rf_version_id f) i d")
      have call: "logging dispatch task (rf_tenant_id f) (rf_version_id f) i (d, calls) = (x, (d1, calls @ delivery f))"
        by (simp add: logging_def x one)
      note run = dispatch_job [where dispatch = "logging dispatch" and d = "(d, calls)" and env = env and delay = delay
          and s = s and fs = fs and f = f, OF f t call]
      show ?thesis
      proof (cases x)
        case (Inr y)
        have "?run fs s (d1, calls @ delivery f) = (r, s', (d', calls'))"
          using Cons.prems unfolding run Inr by simp
        from later [OF this] one show ?thesis by simp
      next
        case (Inl e)
        have "(case defer_undispatched delay (f # fs) (env s) of
             Inr s1 \<Rightarrow> r = Inl e \<and> s' = s1 \<and> (\<forall>g \<in> set (f # fs). job_deferred delay (env s) g s1)
           | Inl e1 \<Rightarrow> r = Inl e1 \<and> s' = env s) \<and> d' = d1 \<and> calls' = calls @ delivery f"
        proof (cases "defer_undispatched delay (f # fs) (env s)")
          case z: (Inl e1)
          show ?thesis using Cons.prems unfolding run Inl unit_transaction_def transaction_def z by simp
        next
          case z: (Inr s1)
          show ?thesis
            using Cons.prems defer_undispatched_Inr [OF z refl]
            unfolding run Inl unit_transaction_def transaction_def z by simp
        qed
        note ends = this
        then have "dispatcher_failed dispatch delay (f # fs) (env s) r s' d' (delivery f)"
          unfolding dispatcher_failed_def using x Inl one
          by - (rule exI [of _ "[]"], rule exI [of _ f], rule exI [of _ fs], rule exI [of _ task], rule exI [of _ i],
              rule exI [of _ d], rule exI [of _ e], simp)
        with ends show ?thesis by blast
      qed
    qed
  qed
qed

section \<open>One run\<close>

text \<open>The unique keys a run relies on. The recovery works on other tables.\<close>

definition run_keys :: "session \<Rightarrow> version_row list \<times> job_row list \<times> collection_row list" where
  "run_keys s = (db_versions s, db_jobs s, db_collections s)"

definition run_keys_ok :: "session \<Rightarrow> bool" where
  "run_keys_ok s \<longleftrightarrow> version_keys_ok s \<and> job_ids_ok s \<and> distinct (map co_id (db_collections s))"

lemma run_keys_ok_cong: "run_keys s' = run_keys s \<Longrightarrow> run_keys_ok s' = run_keys_ok s"
  by (simp add: run_keys_def run_keys_ok_def version_keys_ok_def job_ids_ok_def)

lemma cleanup_steps_run_keys:
  "claim_cleanup w l m av dv s = Inr (c, s') \<Longrightarrow> run_keys s' = run_keys s"
  "complete_cleanup k w s = Inr s' \<Longrightarrow> run_keys s' = run_keys s"
  "retry_cleanup k w m reason s = Inr s' \<Longrightarrow> run_keys s' = run_keys s"
  "complete_activation a s = Inr s' \<Longrightarrow> run_keys s' = run_keys s"
proof -
  have u: "run_keys s' = run_keys s" if "update_search_cleanup p f s = Inr s'" for p f s s'
    using that unfolding update_search_cleanup_Inr by (elim conjE) (simp add: run_keys_def)
  show "run_keys s' = run_keys s" if "claim_cleanup w l m av dv s = Inr (c, s')"
    using that
  proof (rule claim_cleanup_steps)
    fix s1 rows assume "fail_exhausted m av dv s = Inr s1" "lease_cleanup w l m av dv s1 = Inr (rows, s')"
    then show ?thesis
      unfolding fail_exhausted_def lease_cleanup_def Let_def by (auto elim!: bind_res_InrE dest!: u)
  qed
  show "complete_cleanup k w s = Inr s' \<Longrightarrow> run_keys s' = run_keys s"
    "retry_cleanup k w m reason s = Inr s' \<Longrightarrow> run_keys s' = run_keys s"
    unfolding complete_cleanup_def retry_cleanup_def by (drule u, assumption)+
  show "complete_activation a s = Inr s' \<Longrightarrow> run_keys s' = run_keys s"
    unfolding complete_activation_def update_publications_Inr by (elim conjE) (simp add: run_keys_def)
qed

lemma transaction_run_keys:
  assumes "transaction body s = (r, s')" and "run_keys_ok s" and "\<And>x s1. body s = Inr (x, s1) \<Longrightarrow> run_keys s1 = run_keys s"
  shows "run_keys_ok s'"
proof -
  have "run_keys s' = run_keys s" using assms(1,3) by (auto simp: transaction_def split: sum.splits)
  then show ?thesis using assms(2) run_keys_ok_cong by blast
qed

lemma unit_transaction_run_keys:
  assumes "unit_transaction body s = (r, s')" and "run_keys_ok s" and "\<And>s1. body s = Inr s1 \<Longrightarrow> run_keys s1 = run_keys s"
  shows "run_keys_ok s'"
proof -
  have "run_keys s' = run_keys s" by (rule unit_transaction_keeps [where q = run_keys, OF assms(1)]) (rule assms(3))
  then show ?thesis using assms(2) run_keys_ok_cong by blast
qed

lemma cleanup_loop_run_keys:
  assumes "\<And>s. run_keys_ok s \<Longrightarrow> run_keys_ok (env s)" and "cleanup_loop a env w l m av dv n k s x = (r, s', x')" and "run_keys_ok s"
  shows "run_keys_ok s'"
  using assms(2,3)
proof (induction n arbitrary: k s x)
  case (Suc n)
  obtain c s1 where c: "transaction (claim_cleanup w l m av dv) (env s) = (c, s1)" by fastforce
  have k1: "run_keys_ok s1"
    by (rule transaction_run_keys [OF c assms(1) [OF Suc.prems(2)]]) (rule cleanup_steps_run_keys(1))
  show ?case
  proof (cases c)
    case (Inl e)
    with Suc.prems(1) c k1 show ?thesis by simp
  next
    case (Inr claim)
    show ?thesis
    proof (cases claim)
      case None
      with Suc.prems(1) c k1 Inr show ?thesis by simp
    next
      case (Some cl)
      obtain y x1 where y: "delete_version a cl x = (y, x1)" by fastforce
      obtain z1 s2 where z1: "unit_transaction (retry_cleanup cl w m ''SEARCH_CLEANUP_UNAVAILABLE'') (env s1) = (z1, s2)" by fastforce
      obtain z2 s3 where z2: "unit_transaction (complete_cleanup cl w) (env s1) = (z2, s3)" by fastforce
      have k2: "run_keys_ok s2"
        by (rule unit_transaction_run_keys [OF z1 assms(1) [OF k1]]) (rule cleanup_steps_run_keys(3))
      have k3: "run_keys_ok s3"
        by (rule unit_transaction_run_keys [OF z2 assms(1) [OF k1]]) (rule cleanup_steps_run_keys(2))
      show ?thesis
        using Suc.prems(1) c Inr Some y z1 z2 k2 k3 Suc.IH [OF _ k3] by (cases y; cases z1; cases z2) auto
    qed
  qed
qed simp

lemma activate_loop_run_keys:
  assumes "\<And>s. run_keys_ok s \<Longrightarrow> run_keys_ok (env s)" and "activate_loop a env as k s x = (r, s', x')" and "run_keys_ok s"
  shows "run_keys_ok s'"
  using assms(2,3)
proof (induction as arbitrary: k s x)
  case (Cons p as)
  obtain y x1 where y: "activate_version a p x = (y, x1)" by fastforce
  obtain z s1 where z: "unit_transaction (complete_activation p) (env s) = (z, s1)" by fastforce
  have k1: "run_keys_ok s1"
    by (rule unit_transaction_run_keys [OF z assms(1) [OF Cons.prems(2)]]) (rule cleanup_steps_run_keys(4))
  show ?case
    using Cons.prems y z k1 Cons.IH [OF _ k1] by (cases y; cases z) auto
qed simp

lemma run_once_run_keys:
  assumes "\<And>s. run_keys_ok s \<Longrightarrow> run_keys_ok (env s)" and "run_once a env limit w l m av dv s x = (r, s', x')" and "run_keys_ok s"
  shows "run_keys_ok s'"
proof (cases "limit < 1")
  case True
  with assms(2,3) show ?thesis by (simp add: run_once_def)
next
  case False
  obtain c s1 x1 where c: "cleanup_loop a env w l m av dv (nat limit) 0 s x = (c, s1, x1)" using prod_cases3 by blast
  note k1 = cleanup_loop_run_keys [OF assms(1) c assms(3)]
  show ?thesis
  proof (cases c)
    case (Inl e)
    with assms(2) c False k1 show ?thesis by (simp add: run_once_def)
  next
    case (Inr cleaned)
    obtain q s2 where q: "transaction (\<lambda>s. bind_res (pending_activations (limit - cleaned) av dv s) (\<lambda>as. Inr (as, s))) (env s1) = (q, s2)"
      by fastforce
    have k2: "run_keys_ok s2"
      by (rule transaction_run_keys [OF q assms(1) [OF k1]]) (auto elim!: bind_res_InrE)
    show ?thesis
    proof (cases q)
      case (Inl e)
      with assms(2) c False k1 k2 Inr q show ?thesis by (simp add: run_once_def split: if_splits)
    next
      case as: (Inr as)
      obtain t s3 x3 where t: "activate_loop a env as 0 s2 x1 = (t, s3, x3)" using prod_cases3 by blast
      note k3 = activate_loop_run_keys [OF assms(1) t k2]
      from assms(2) c False k1 Inr q as t k3 show ?thesis by (cases t) (simp_all add: run_once_def split: if_splits)
    qed
  qed
qed

lemma catalog_repairs_length:
  assumes "catalog_repairs m reason u vs s = Inr (fs, s')"
  shows "length fs = length vs" and "job_ids_ok s \<Longrightarrow> job_ids_ok s'"
proof -
  have "length fs = length vs \<and> (job_ids_ok s \<longrightarrow> job_ids_ok s')"
    using assms
  proof (induction m reason u vs s arbitrary: fs s' rule: catalog_repairs.induct)
    case (2 m reason u v vs s)
    let ?due = "reason v = ''retention_cleanup_due''"
    from "2.prems" obtain s1 fs1 where
      r: "(if ?due then request_retention_cleanup v m (u 0) s else fail_corrupt_ready_version v (u 0) s) = Inr s1"
      and rest: "catalog_repairs m reason (\<lambda>n. u (n + 1)) vs s1 = Inr (fs1, s')" and fs: "length fs = Suc (length fs1)"
      unfolding catalog_repairs.simps Let_def by (auto elim!: bind_res_InrE)
    have "job_ids_ok s1" if "job_ids_ok s"
    proof (cases ?due)
      case True
      with r have "request_retention_cleanup v m (u 0) s = Inr s1" by simp
      then obtain i s0 where 1: "upsert_retention_request (retention_request (u 0 1) v (now s)) s = Inr (i, s0)"
        and 2: "insert_job (retention_job (u 0 0) i v m s0) s0 = Inr s1"
        unfolding request_retention_cleanup_def by (auto elim!: bind_res_InrE)
      have "db_jobs s0 = db_jobs s" using upsert_retention_request_Inr(1) [OF 1] by (auto simp: retention_request_def)
      then show ?thesis
        using insert_job_Inr [OF 2] that by (auto simp: job_ids_ok_def)
    next
      case False
      with r have "fail_corrupt_ready_version v (u 0) s = Inr s1" by simp
      then have "db_jobs s1 = db_jobs s"
        unfolding fail_corrupt_ready_version_def
        by (auto elim!: bind_res_InrE bind_res_pairE split: option.splits dest!: enqueue_all_Inr insert_event_once_frame
            simp: update_publications_Inr update_versions_Inr)
      then show ?thesis using that by (simp add: job_ids_ok_def)
    qed
    with "2.IH" [OF refl r rest] fs show ?case by simp
  qed simp
  then show "length fs = length vs" "job_ids_ok s \<Longrightarrow> job_ids_ok s'" by blast+
qed

lemma scan_and_repair_bound:
  assumes "scan_and_repair page stale m u s = Inr (fs, s')" and "1 \<le> page" and "run_keys_ok s"
  shows "int (length fs) \<le> page"
proof -
  let ?q = "max 1 (page div 4)"
  from assms(1) obtain cs s1 js where c: "catalog_findings ?q m u s = Inr (cs, s1)"
    and j: "stale_job_scan stale (max 0 (page - int (length cs))) s1 = Inr (js, s')" and fs: "fs = cs @ js"
    unfolding scan_and_repair_def Let_def by (auto elim!: bind_res_InrE)
  note k = assms(3) [unfolded run_keys_ok_def]
  note l = catalog_repairs_length [OF c [unfolded catalog_findings_def]]
  have "length cs \<le> nat ?q"
    using catalog_finding_rows_props(3) [of s ?q] k l(1) by simp
  moreover have "length js \<le> nat (max 0 (page - int (length cs)))"
    using stale_job_scan_length [OF j l(2)] k by (simp add: stale_candidates_def)
  ultimately show ?thesis using assms(2) fs by simp
qed

text \<open>A run is bounded by its page. Whatever the adapter and the dispatcher do and whatever other
  sessions commit, the calls to the search index and the findings of a run are together at most the
  page size, and the calls alone at most a quarter of it (or one). The heartbeat is written exactly
  when the run ends without an error.\<close>

theorem reconcile_once_bounded:
  assumes "reconcile_once (Some (recording a)) dispatch env page stale m lease max_cleanup delay u s (x, []) d beats
      = (r, s', (x', calls), d', beats')"
    and "1 \<le> page" and "run_keys_ok s" and "\<forall>s. run_keys_ok s \<longrightarrow> run_keys_ok (env s)"
  shows "int (length calls) \<le> max 1 (page div 4)
    \<and> (case r of Inl _ \<Rightarrow> beats' = beats
       | Inr fs \<Rightarrow> int (length calls) + int (length fs) \<le> page
           \<and> beats' = beats(RECONCILIATION_HEARTBEAT_SERVICE \<mapsto> now s'))"
proof -
  let ?q = "max 1 (page div 4)"
  obtain c s1 x1 where c: "run_once (recording a) env ?q RECONCILIATION_HEARTBEAT_SERVICE lease max_cleanup None None s (x, []) = (c, s1, x1)"
    using prod_cases3 by blast
  obtain y cl where x1: "x1 = (y, cl)" by (cases x1)
  from run_once_call_counts [OF c [unfolded x1]] have n: "int (length cl) \<le> ?q"
    and counts: "\<forall>i j. c = Inr (i, j) \<longrightarrow> i + j = int (length cl)" by auto
  have k1: "run_keys_ok s1" using run_once_run_keys [OF _ c assms(3)] assms(4) by blast
  show ?thesis
  proof (cases c)
    case (Inl e)
    with assms(1) c x1 n show ?thesis by (auto simp: reconcile_once_def recovery_part_def)
  next
    case (Inr p)
    obtain i j where p: "p = (i, j)" by (cases p)
    have ij: "i + j = int (length cl)" using counts Inr p by simp
    have rp: "recovery_part (Some (recording a)) env page lease max_cleanup s (x, []) = (Inr (i + j), s1, x1)"
      using c Inr p by (simp add: recovery_part_def)
    let ?rem = "max 0 (page - (i + j))"
    obtain f s2 where f: "(if ?rem = 0 then (Inr [], s1) else transaction (scan_and_repair ?rem stale m u) (env s1)) = (f, s2)"
      by fastforce
    have run: "(r, s', (x', calls), d', beats') = (case f of
        Inl e \<Rightarrow> (Inl e, s2, x1, d, beats)
      | Inr findings \<Rightarrow> (case dispatch_findings dispatch env delay findings s2 d of
           (Inl e, s3, d1) \<Rightarrow> (Inl e, s3, x1, d1, beats)
         | (Inr _, s3, d1) \<Rightarrow> (Inr findings, env s3, x1, d1, beats(RECONCILIATION_HEARTBEAT_SERVICE \<mapsto> now (env s3)))))"
      using assms(1) unfolding reconcile_once_def rp by (simp add: f Let_def split: sum.splits)
    show ?thesis
    proof (cases f)
      case (Inl e)
      with run x1 n show ?thesis by simp
    next
      case g: (Inr fs)
      have "int (length fs) \<le> ?rem"
      proof (cases "?rem = 0")
        case True
        then show ?thesis using f g by simp
      next
        case False
        have t: "transaction (scan_and_repair ?rem stale m u) (env s1) = (Inr fs, s2)"
          using f unfolding if_not_P [OF False] g .
        have "scan_and_repair ?rem stale m u (env s1) = Inr (fs, s2)"
          using t by (cases "scan_and_repair ?rem stale m u (env s1)") (auto simp: transaction_def)
        then show ?thesis by (rule scan_and_repair_bound) (use False k1 assms(4) in auto)
      qed
      moreover have "?q \<le> page" using assms(2) by simp
      ultimately have "int (length cl) + int (length fs) \<le> page" using ij n by linarith
      then show ?thesis
        using run x1 n g by (auto split: sum.splits prod.splits)
    qed
  qed
qed

section \<open>A key taken by a client\<close>

text \<open>The idempotency keys of the reconciler are not reserved. When a client has used the key
  \<open>retention:\<close> with the identifier of a version for a request about another version, the scan takes
  that request for its own: every claim of the deletion job it creates is refused, and while the job
  waits no scan finds the version again, so its objects are never removed.\<close>

theorem retention_key_taken:
  assumes "request_retention_cleanup v m u s = Inr s'" and "request_keys_ok s" and "distinct (map lr_id (db_requests s))"
    and "q \<in> set (db_requests s)" and "lr_document_version_id q \<noteq> dv_id v"
    and "request_idempotency q = (dv_tenant_id v, dv_collection_id v, ''retention:'' @ str_uuid (dv_id v))"
    and "db_jobs s2 = db_jobs s'" and "db_requests s2 = db_requests s'"
  shows "deletion_claim md5 (dv_tenant_id v) (dv_id v) (u 0) worker w s2 = Inl (ValueError ''deletion job identity is invalid'')
    \<and> \<not> retention_cleanup_due s2 v c"
proof -
  let ?r = "retention_request (u 1) v (now s)"
  let ?key = "\<lambda>q. request_idempotency q = request_idempotency ?r"
  let ?f = "\<lambda>q. q\<lparr>lr_state := RS_PENDING, lr_completed_at := None\<rparr>"
  have key: "?key q" using assms(6) by (simp add: request_idempotency_def retention_request_def)
  from assms(1) obtain i s1 where 1: "upsert_retention_request ?r s = Inr (i, s1)"
    and 2: "insert_job (retention_job (u 0) i v m s1) s1 = Inr s'"
    unfolding request_retention_cleanup_def by (auto elim!: bind_res_InrE)
  have "filter ?key (db_requests s) = [q]"
    using filter_key_unique [OF assms(2) [unfolded request_keys_ok_def] assms(4)] key by simp
  with 1 have s1: "i = lr_id q" "update_requests ?key ?f s = Inr s1"
    unfolding upsert_retention_request_def by (auto elim!: bind_res_InrE)
  have e1: "s1 = s\<lparr>db_requests := update_rows ?key ?f (db_requests s)\<rparr>" using s1(2) unfolding update_requests_Inr by (elim conjE)
  let ?j = "retention_job (u 0) i v m s1"
  from insert_job_Inr [OF 2] have jobs: "db_jobs s' = db_jobs s @ [?j]" "db_requests s' = db_requests s1"
    and fresh: "u 0 \<notin> ij_id ` set (db_jobs s)" by (auto simp: e1 retention_job_def new_job_def)
  have j: "ij_id ?j = u 0" "ij_tenant_id ?j = dv_tenant_id v" "ij_document_version_id ?j = dv_id v" "active_delete_job ?j"
    "ij_lifecycle_request_id ?j = Some (lr_id q)"
    by (simp_all add: retention_job_def new_job_def active_delete_job_def active_job_state_def s1(1))
  have other: "lr_document_version_id r \<noteq> dv_id v" if "r \<in> set (db_requests s2)" "lr_id r = lr_id q" for r
  proof -
    from that(1) have "r \<in> set (update_rows ?key ?f (db_requests s))" unfolding assms(8) jobs(2) e1 by simp
    then obtain p where p: "p \<in> set (db_requests s)" "r = (if ?key p then ?f p else p)" by (rule update_rowsE)
    then have "lr_id p = lr_id q" "lr_document_version_id r = lr_document_version_id p" using that(2) by (auto split: if_splits)
    with distinct_map_inj_rows [OF assms(3) p(1) assms(4)] assms(5) show ?thesis by simp
  qed
  have "deletion_claim_rows (dv_tenant_id v) (dv_id v) (u 0) s2 = []"
  proof -
    have "x \<notin> set (deletion_claim_rows (dv_tenant_id v) (dv_id v) (u 0) s2)" for x
    proof
      assume "x \<in> set (deletion_claim_rows (dv_tenant_id v) (dv_id v) (u 0) s2)"
      then obtain k w r where k: "k \<in> set (db_jobs s2)" "ij_id k = u 0" and w: "version_scope w = job_scope k" "ij_document_version_id k = dv_id v"
        and r: "r \<in> set (db_requests s2)" "Some (lr_id r) = ij_lifecycle_request_id k" "lr_document_version_id r = dv_id w"
        by (auto simp: deletion_claim_rows_def)
      have "k \<notin> set (db_jobs s)" using fresh k(2) by (metis imageI)
      then have "k = ?j" using k(1) unfolding assms(7) jobs(1) by simp
      then have "lr_id r = lr_id q" using r(2) j(5) by simp
      with other [OF r(1)] r(3) w show False by simp
    qed
    then show ?thesis by (cases "deletion_claim_rows (dv_tenant_id v) (dv_id v) (u 0) s2") auto
  qed
  moreover have "\<not> retention_cleanup_due s2 v c"
    unfolding retention_cleanup_due_def using j by (auto simp: list_ex_iff assms(7) jobs(1))
  ultimately show ?thesis by (simp add: deletion_claim_def)
qed

section \<open>Witnesses\<close>

definition late_session :: session where
  "late_session = deleted_session\<lparr>now := 10 + seconds 301\<rparr>"

lemma sample_stale: "stale_candidates (seconds 900) 5 late_session = [leased_delete_job]"
  by (simp add: stale_candidates_def job_stale_def lease_expired_def leased_delete_job_def late_session_def deleted_samples)

lemma sample_stale_scan: "\<exists>s'. stale_job_scan (seconds 900) 5 late_session = Inr ([job_finding (10 + seconds 301) leased_delete_job], s')"
  unfolding stale_job_scan_def sample_stale
  by (simp add: lease_expired_def leased_delete_job_def late_session_def commit_eval deleted_samples)

theorem stale_job_scan_safe_witness:
  "\<exists>s'. stale_job_scan (seconds 900) 5 late_session = Inr ([job_finding (10 + seconds 301) leased_delete_job], s')
     \<and> (\<exists>k \<in> set (db_jobs s'). ij_state k = JS_PENDING \<and> \<not> owns_attempt k ''w1'' 1)"
proof -
  from sample_stale_scan obtain s' where s': "stale_job_scan (seconds 900) 5 late_session
      = Inr ([job_finding (10 + seconds 301) leased_delete_job], s')" by (elim exE)
  have "job_ids_ok late_session" by (simp add: job_ids_ok_def late_session_def deleted_samples)
  from stale_job_scan_safe [OF s' this] s' show ?thesis by auto
qed

definition ready_version :: version_row where
  "ready_version = sample_version\<lparr>dv_state := READY, dv_state_revision := 8, dv_page_count := Some 3\<rparr>"

lemma sample_rows_in_collection: "rows_in_collection published_session ready_version"
  by (simp add: rows_in_collection_def ready_version_def recovery_samples)

theorem corrupt_iff_trigger_refuses_witness:
  "corrupt_ready published_session ready_version \<longleftrightarrow> enforce_ready_publication published_session ready_version \<noteq> Inr ()"
  by (rule corrupt_iff_trigger_refuses [OF sample_rows_in_collection]) (simp add: ready_version_def)

definition corrupt_session :: session where
  "corrupt_session = published_session\<lparr>db_embeddings := []\<rparr>"

lemma sample_finding_rows: "catalog_finding_rows 5 corrupt_session = [ready_version]"
  by (simp add: catalog_finding_rows_def retention_cleanup_due_def corrupt_ready_def missing_embedding_def
      chunk_embedded_def ready_version_def corrupt_session_def recovery_samples)

lemma sample_reason: "finding_reason corrupt_session ready_version = ''missing_embedding''"
  by (simp add: finding_reason_def has_chunk_manifest_def has_index_manifest_def version_artifact_def missing_embedding_def
      chunk_embedded_def ready_version_def corrupt_session_def recovery_samples)

lemma sample_fail_corrupt:
  "\<exists>s'. fail_corrupt_ready_version ready_version (\<lambda>k. word_of_nat (k + 300)) corrupt_session = Inr s'"
  by (simp add: fail_corrupt_ready_version_def live_publications_def group_publications_def publication_group_def
      distinct_chunk_count_def new_publication_def new_search_target_def search_target_name_ok_def lower_alnum_def
      new_target_publication_def enqueue_all_def enqueue_cleanup_def insert_search_cleanup_def cleanup_checks_def
      paired_attempt_def job_ref_ok_def cleanup_target_key_def cleanup_scope_def update_publications_def publication_checks_def
      not_before_def publication_unique_checks_def publication_external_key_def publication_kind_key_def update_versions_def
      version_update_ok_def insert_event_once_def event_idempotency_def corrupt_event_def commit_eval
      ready_version_def corrupt_session_def recovery_samples)

theorem catalog_findings_repair_witness:
  "\<exists>fs s'. catalog_findings 5 3 (\<lambda>n k. word_of_nat (n * 100 + k + 300)) corrupt_session = Inr (fs, s')
     \<and> map rf_version_id fs = [4] \<and> failed_row 10 ready_version \<in> set (db_versions s')"
proof -
  from sample_fail_corrupt obtain s' where f: "fail_corrupt_ready_version ready_version (\<lambda>k. word_of_nat (k + 300)) corrupt_session = Inr s'"
    by (elim exE)
  let ?f = "\<lparr>rf_reason = ''missing_embedding'', rf_tenant_id = 1, rf_version_id = 4, rf_job_id = None, rf_stage = None\<rparr>"
  have r: "catalog_findings 5 3 (\<lambda>n k. word_of_nat (n * 100 + k + 300)) corrupt_session = Inr ([?f], s')"
    unfolding catalog_findings_def sample_finding_rows using f sample_reason by (simp add: ready_version_def sample_version_def)
  have "audit_ok corrupt_session"
    using deletion_session_ok(2) audit_frame(1) [of corrupt_session deletion_session]
    by (simp add: corrupt_session_def deletion_session_def)
  moreover have "version_keys_ok corrupt_session" "distinct (map co_id (db_collections corrupt_session))"
    "\<forall>v \<in> set (db_versions corrupt_session). corrupt_key_free corrupt_session v"
    by (simp_all add: version_keys_ok_def corrupt_key_free_def event_idempotency_def corrupt_session_def recovery_samples)
  ultimately have "\<exists>v \<in> set (db_versions corrupt_session). rf_version_id ?f = dv_id v \<and> (if dv_state v = DELETED then True
      else failed_row (now corrupt_session) v \<in> set (db_versions s'))"
    using catalog_findings_repair [OF r] by (metis list.set_intros(1))
  moreover have "db_versions corrupt_session = [ready_version]" "now corrupt_session = 10" "dv_state ready_version = READY"
    by (simp_all add: ready_version_def corrupt_session_def recovery_samples)
  ultimately have "failed_row 10 ready_version \<in> set (db_versions s')" by simp
  then show ?thesis using r by (intro exI [of _ "[?f]"] exI [of _ s']) simp
qed

theorem reconcile_once_bounded_witness:
  "\<exists>r s' x' calls d' beats'. reconcile_once (Some (recording sample_adapter)) (\<lambda>task t v j d. (Inr (), d + 1)) (\<lambda>s. s) 20
     (seconds 900) 3 (seconds 60) 3 (seconds 30) (\<lambda>n k. word_of_nat (n * 100 + k + 300)) corrupt_session (0, []) (0 :: nat) Map.empty
     = (r, s', (x', calls), d', beats') \<and> int (length calls) \<le> 5"
proof -
  obtain r s' x' calls d' beats' where run: "reconcile_once (Some (recording sample_adapter)) (\<lambda>task t v j d. (Inr (), d + 1)) (\<lambda>s. s) 20
     (seconds 900) 3 (seconds 60) 3 (seconds 30) (\<lambda>n k. word_of_nat (n * 100 + k + 300)) corrupt_session (0, []) (0 :: nat) Map.empty
     = (r, s', (x', calls), d', beats')" by (metis prod.exhaust)
  have "run_keys_ok corrupt_session"
    by (simp add: run_keys_ok_def version_keys_ok_def job_ids_ok_def corrupt_session_def recovery_samples)
  from reconcile_once_bounded [OF run _ this] have "int (length calls) \<le> 5" by simp
  with run show ?thesis by blast
qed

theorem dispatch_findings_total_witness:
  "\<exists>r s' d' calls'. dispatch_findings (logging (\<lambda>task t v j d. (Inl (RuntimeError ''broker''), d))) (\<lambda>s. s) (seconds 30)
     [job_finding 11 leased_delete_job] deleted_session ((), []) = (r, s', (d', calls'))
     \<and> dispatcher_failed (\<lambda>task t v j d. (Inl (RuntimeError ''broker''), d)) (seconds 30) [job_finding 11 leased_delete_job]
         deleted_session r s' d' calls'"
proof -
  let ?f = "job_finding 11 leased_delete_job"
  obtain r s' d' calls' where run: "dispatch_findings (logging (\<lambda>task t v j d. (Inl (RuntimeError ''broker''), d))) (\<lambda>s. s) (seconds 30)
     [?f] deleted_session ((), []) = (r, s', (d', calls'))" by (metis prod.exhaust)
  have st: "rf_job_id ?f = Some 31" "rf_stage ?f = Some ''delete''" "task_for_stage ''delete'' = Inr ''app.workers.lifecycle.delete_document''"
    by (simp_all add: job_finding_def leased_delete_job_def delete_job_def new_job_def task_for_stage.simps)
  have "\<exists>e. r = Inl e"
    using run by (auto simp: st logging_def split: prod.splits sum.splits)
  then have "\<not> dispatched_all [?f] deleted_session r s' new" for new by (auto simp: dispatched_all_def)
  moreover have "\<not> stage_unsupported [?f] deleted_session r s' new" for new
    using st by (auto simp: stage_unsupported_def Cons_eq_append_conv)
  ultimately show ?thesis using dispatch_findings_total [OF run] run by auto
qed

definition taken_request :: request_row where
  "taken_request = delete_request\<lparr>lr_id := 40, lr_document_version_id := 8, lr_idempotency_key := ''retention:'' @ str_uuid 4\<rparr>"

definition taken_session :: session where
  "taken_session = deleted_session\<lparr>db_requests := [taken_request]\<rparr>"

lemma sample_taken:
  "\<exists>s'. request_retention_cleanup deleted_version 3 (\<lambda>n. word_of_nat (n + 50)) (taken_session\<lparr>db_jobs := []\<rparr>) = Inr s'"
  by (simp add: request_retention_cleanup_def upsert_retention_request_def retention_request_def request_idempotency_def
      update_requests_def request_checks_def retention_job_def insert_job_def job_checks_def coalesce_max_def
      active_delete_job_def request_exists_def version_exists_def taken_request_def taken_session_def commit_eval deleted_samples)

theorem retention_key_taken_witness:
  "\<exists>s'. request_retention_cleanup deleted_version 3 (\<lambda>n. word_of_nat (n + 50)) (taken_session\<lparr>db_jobs := []\<rparr>) = Inr s'
     \<and> deletion_claim sample_md5 1 4 50 ''w1'' (\<lambda>n. word_of_nat (n + 60)) s' = Inl (ValueError ''deletion job identity is invalid'')"
proof -
  from sample_taken obtain s' where r: "request_retention_cleanup deleted_version 3 (\<lambda>n. word_of_nat (n + 50))
      (taken_session\<lparr>db_jobs := []\<rparr>) = Inr s'" by (elim exE)
  have v: "dv_tenant_id deleted_version = 1" "dv_collection_id deleted_version = 2" "dv_id deleted_version = 4"
    by (simp_all add: deleted_version_def sample_version_def)
  have q: "request_keys_ok (taken_session\<lparr>db_jobs := []\<rparr>)" "distinct (map lr_id (db_requests (taken_session\<lparr>db_jobs := []\<rparr>)))"
    "taken_request \<in> set (db_requests (taken_session\<lparr>db_jobs := []\<rparr>))" "lr_document_version_id taken_request \<noteq> dv_id deleted_version"
    "request_idempotency taken_request = (dv_tenant_id deleted_version, dv_collection_id deleted_version,
       ''retention:'' @ str_uuid (dv_id deleted_version))"
    by (simp_all add: request_keys_ok_def request_idempotency_def taken_session_def taken_request_def delete_request_def
        new_request_def queued_version_def sample_defs v Let_def)
  from retention_key_taken [OF r q refl refl] have "deletion_claim sample_md5 1 4 50 ''w1'' (\<lambda>n. word_of_nat (n + 60)) s'
      = Inl (ValueError ''deletion job identity is invalid'')" by (simp add: v)
  with r show ?thesis by blast
qed

end
