(* ===== verification/Worker_Effects.thy ===== *)
theory Worker_Effects
  imports Search_Recovery
begin

text \<open>
  Computations of the worker services: they may raise, and they change a world made of the catalog
  database, the search index, the object store and the message broker, of which only the database is
  a state of the model; the other three are states of the dependencies the services are given. \<open>env\<close> is
  what other sessions commit to the database before a transaction begins.
\<close>

section \<open>Sequencing, raising and handling\<close>

type_synonym ('a, 'w) io = "'w \<Rightarrow> 'a res \<times> 'w"

definition return_io :: "'a \<Rightarrow> ('a, 'w) io" where
  "return_io x w = (Inr x, w)"

definition raise_io :: "py_error \<Rightarrow> ('a, 'w) io" where
  "raise_io e w = (Inl e, w)"

definition lift_res :: "'a res \<Rightarrow> ('a, 'w) io" where
  "lift_res r w = (r, w)"

definition bind_io :: "('a, 'w) io \<Rightarrow> ('a \<Rightarrow> ('b, 'w) io) \<Rightarrow> ('b, 'w) io" where
  "bind_io m f w = (case m w of (Inl e, w1) \<Rightarrow> (Inl e, w1) | (Inr x, w1) \<Rightarrow> f x w1)"

text \<open>\<open>try m except \<dots>\<close>: a handler that does not apply raises its argument again.\<close>

definition catch_io :: "('a, 'w) io \<Rightarrow> (py_error \<Rightarrow> ('a, 'w) io) \<Rightarrow> ('a, 'w) io" where
  "catch_io m h w = (case m w of (Inl e, w1) \<Rightarrow> h e w1 | (Inr x, w1) \<Rightarrow> (Inr x, w1))"

text \<open>\<open>with contextlib.suppress(Exception)\<close>.\<close>

definition suppress_io :: "('a, 'w) io \<Rightarrow> (unit, 'w) io" where
  "suppress_io m w = (Inr (), snd (m w))"

fun each_io :: "('a \<Rightarrow> ('b, 'w) io) \<Rightarrow> 'a list \<Rightarrow> ('b list, 'w) io" where
  "each_io f [] = return_io []"
| "each_io f (x # xs) = bind_io (f x) (\<lambda>y. bind_io (each_io f xs) (\<lambda>ys. return_io (y # ys)))"

lemma return_io_Inr [simp]: "return_io x w = (Inr y, w1) \<longleftrightarrow> y = x \<and> w1 = w"
  and return_io_Inl [simp]: "return_io x w \<noteq> (Inl e, w1)"
  and raise_io_Inl [simp]: "raise_io e w = (Inl e1, w1) \<longleftrightarrow> e1 = e \<and> w1 = w"
  and raise_io_Inr [simp]: "raise_io e w \<noteq> (Inr y, w1)"
  and lift_res_eq [simp]: "lift_res r w = (r1, w1) \<longleftrightarrow> r = r1 \<and> w1 = w"
  and suppress_io_Inr: "suppress_io m w = (Inr u, w1) \<longleftrightarrow> w1 = snd (m w)"
  and suppress_io_Inl [simp]: "suppress_io m w \<noteq> (Inl e, w1)"
  by (auto simp: return_io_def raise_io_def lift_res_def suppress_io_def)

lemma bind_io_InrE:
  assumes "bind_io m f w = (Inr y, w2)"
  obtains x w1 where "m w = (Inr x, w1)" "f x w1 = (Inr y, w2)"
  using assms by (auto simp: bind_io_def split: prod.splits sum.splits)

lemma bind_io_InlE:
  assumes "bind_io m f w = (Inl e, w2)"
  obtains (first) "m w = (Inl e, w2)" | (second) x w1 where "m w = (Inr x, w1)" "f x w1 = (Inl e, w2)"
  using assms by (auto simp: bind_io_def split: prod.splits sum.splits)

lemma catch_io_InrE:
  assumes "catch_io m h w = (Inr y, w2)"
  obtains (body) "m w = (Inr y, w2)" | (handler) e w1 where "m w = (Inl e, w1)" "h e w1 = (Inr y, w2)"
  using assms by (auto simp: catch_io_def split: prod.splits sum.splits)

lemma catch_io_InlE:
  assumes "catch_io m h w = (Inl e, w2)"
  obtains e1 w1 where "m w = (Inl e1, w1)" "h e1 w1 = (Inl e, w2)"
  using assms by (auto simp: catch_io_def split: prod.splits sum.splits)

lemma bind_io_Inr: "m w = (Inr x, w1) \<Longrightarrow> bind_io m f w = f x w1"
  and bind_io_Inl: "m w = (Inl e, w1) \<Longrightarrow> bind_io m f w = (Inl e, w1)"
  and catch_io_Inr: "m w = (Inr x, w1) \<Longrightarrow> catch_io m h w = (Inr x, w1)"
  and catch_io_Inl: "m w = (Inl e, w1) \<Longrightarrow> catch_io m h w = h e w1"
  by (simp_all add: bind_io_def catch_io_def)

lemma bind_return_io: "bind_io m return_io = m"
  by (rule ext) (auto simp: bind_io_def return_io_def split: prod.splits sum.splits)

lemma bind_io_assoc: "bind_io (bind_io m f) g = bind_io m (\<lambda>x. bind_io (f x) g)"
  by (rule ext) (auto simp: bind_io_def split: prod.splits sum.splits)

lemma each_io_length: "each_io f xs w = (Inr ys, w1) \<Longrightarrow> length ys = length xs"
  by (induction xs arbitrary: w ys w1) (auto elim!: bind_io_InrE)

text \<open>What holds of every result of a loop whose body guarantees it.\<close>

lemma each_io_all:
  assumes "each_io f xs w = (Inr ys, w1)" and "\<And>x w y w1. x \<in> set xs \<Longrightarrow> f x w = (Inr y, w1) \<Longrightarrow> R x y"
  shows "list_all2 R xs ys"
  using assms by (induction xs arbitrary: w ys w1) (auto elim!: bind_io_InrE)

section \<open>The world\<close>

record ('x, 'y, 'd) world =
  w_db :: session
  w_search :: 'x
  w_objects :: 'y
  w_broker :: 'd

definition on_search :: "('a, 'x) io \<Rightarrow> ('a, ('x, 'y, 'd) world) io" where
  "on_search m w = (case m (w_search w) of (r, x) \<Rightarrow> (r, w\<lparr>w_search := x\<rparr>))"

definition on_objects :: "('a, 'y) io \<Rightarrow> ('a, ('x, 'y, 'd) world) io" where
  "on_objects m w = (case m (w_objects w) of (r, y) \<Rightarrow> (r, w\<lparr>w_objects := y\<rparr>))"

definition on_broker :: "('a, 'd) io \<Rightarrow> ('a, ('x, 'y, 'd) world) io" where
  "on_broker m w = (case m (w_broker w) of (r, d) \<Rightarrow> (r, w\<lparr>w_broker := d\<rparr>))"

definition in_transaction ::
  "(session \<Rightarrow> session) \<Rightarrow> (session \<Rightarrow> ('a \<times> session) res) \<Rightarrow> ('a, ('x, 'y, 'd) world) io" where
  "in_transaction env body w =
     (case transaction body (env (w_db w)) of (r, s) \<Rightarrow> (r, w\<lparr>w_db := s\<rparr>))"

definition in_unit_transaction ::
  "(session \<Rightarrow> session) \<Rightarrow> (session \<Rightarrow> session res) \<Rightarrow> (unit, ('x, 'y, 'd) world) io" where
  "in_unit_transaction env body w =
     (case unit_transaction body (env (w_db w)) of (r, s) \<Rightarrow> (r, w\<lparr>w_db := s\<rparr>))"

lemma on_search_eq: "on_search m w = (r, w1) \<longleftrightarrow> (\<exists>x. m (w_search w) = (r, x) \<and> w1 = w\<lparr>w_search := x\<rparr>)"
  by (auto simp: on_search_def split: prod.splits)

lemma on_objects_eq: "on_objects m w = (r, w1) \<longleftrightarrow> (\<exists>y. m (w_objects w) = (r, y) \<and> w1 = w\<lparr>w_objects := y\<rparr>)"
  by (auto simp: on_objects_def split: prod.splits)

lemma on_broker_eq: "on_broker m w = (r, w1) \<longleftrightarrow> (\<exists>d. m (w_broker w) = (r, d) \<and> w1 = w\<lparr>w_broker := d\<rparr>)"
  by (auto simp: on_broker_def split: prod.splits)

lemma in_transaction_Inr:
  "in_transaction env body w = (Inr x, w1) \<longleftrightarrow> (\<exists>s. body (env (w_db w)) = Inr (x, s) \<and> w1 = w\<lparr>w_db := s\<rparr>)"
  by (auto simp: in_transaction_def transaction_def split: prod.splits sum.splits)

lemma in_transaction_Inl:
  "in_transaction env body w = (Inl e, w1) \<longleftrightarrow> body (env (w_db w)) = Inl e \<and> w1 = w\<lparr>w_db := env (w_db w)\<rparr>"
  by (auto simp: in_transaction_def transaction_def split: prod.splits sum.splits)

lemma in_unit_transaction_Inr:
  "in_unit_transaction env body w = (Inr u, w1) \<longleftrightarrow> (\<exists>s. body (env (w_db w)) = Inr s \<and> w1 = w\<lparr>w_db := s\<rparr>)"
  by (auto simp: in_unit_transaction_def unit_transaction_def transaction_def bind_res_def
      split: prod.splits sum.splits)

lemma in_unit_transaction_Inl:
  "in_unit_transaction env body w = (Inl e, w1) \<longleftrightarrow> body (env (w_db w)) = Inl e \<and> w1 = w\<lparr>w_db := env (w_db w)\<rparr>"
  by (auto simp: in_unit_transaction_def unit_transaction_def transaction_def bind_res_def
      split: prod.splits sum.splits)

lemma in_unit_transaction_eq:
  "in_unit_transaction env body w = (case body (env (w_db w)) of Inl e \<Rightarrow> (Inl e, w\<lparr>w_db := env (w_db w)\<rparr>)
     | Inr s \<Rightarrow> (Inr (), w\<lparr>w_db := s\<rparr>))"
  by (auto simp: in_unit_transaction_def unit_transaction_def transaction_def bind_res_def split: sum.splits)

text \<open>A computation that sends nothing.\<close>

definition keeps_broker :: "('a, ('x, 'y, 'd) world) io \<Rightarrow> bool" where
  "keeps_broker m \<longleftrightarrow> (\<forall>w. w_broker (snd (m w)) = w_broker w)"

lemma keeps_brokerD: "keeps_broker m \<Longrightarrow> m w = (r, w1) \<Longrightarrow> w_broker w1 = w_broker w"
  by (metis keeps_broker_def snd_conv)

lemma keeps_broker_basic [simp, intro]:
  "keeps_broker (return_io x)" "keeps_broker (raise_io e)" "keeps_broker (lift_res r)"
  "keeps_broker (on_search m1)" "keeps_broker (on_objects m2)"
  "keeps_broker (in_transaction env b1)" "keeps_broker (in_unit_transaction env b2)"
  by (auto simp: keeps_broker_def return_io_def raise_io_def lift_res_def on_search_def on_objects_def
      in_transaction_def in_unit_transaction_def split: prod.splits)

lemma keeps_broker_bind [intro]: "keeps_broker m \<Longrightarrow> (\<And>x. keeps_broker (f x)) \<Longrightarrow> keeps_broker (bind_io m f)"
  unfolding keeps_broker_def bind_io_def by (simp split: prod.splits sum.splits) (metis snd_conv)

lemma keeps_broker_catch [intro]: "keeps_broker m \<Longrightarrow> (\<And>e. keeps_broker (h e)) \<Longrightarrow> keeps_broker (catch_io m h)"
  unfolding keeps_broker_def catch_io_def by (simp split: prod.splits sum.splits) (metis snd_conv)

lemma keeps_broker_suppress [intro]: "keeps_broker m \<Longrightarrow> keeps_broker (suppress_io m)"
  by (auto simp: keeps_broker_def suppress_io_def)

lemma keeps_broker_if [intro]: "keeps_broker m \<Longrightarrow> keeps_broker m' \<Longrightarrow> keeps_broker (if b then m else m')"
  by simp

lemma keeps_broker_each [intro]: "(\<And>x. x \<in> set xs \<Longrightarrow> keeps_broker (f x)) \<Longrightarrow> keeps_broker (each_io f xs)"
  by (induction xs) auto

text \<open>A computation that leaves the database alone.\<close>

definition keeps_db :: "('a, ('x, 'y, 'd) world) io \<Rightarrow> bool" where
  "keeps_db m \<longleftrightarrow> (\<forall>w. w_db (snd (m w)) = w_db w)"

lemma keeps_dbD: "keeps_db m \<Longrightarrow> m w = (r, w1) \<Longrightarrow> w_db w1 = w_db w"
  by (metis keeps_db_def snd_conv)

lemma keeps_db_basic [simp, intro]:
  "keeps_db (return_io x)" "keeps_db (raise_io e)" "keeps_db (lift_res r)"
  "keeps_db (on_search m1)" "keeps_db (on_objects m2)" "keeps_db (on_broker m3)"
  by (auto simp: keeps_db_def return_io_def raise_io_def lift_res_def on_search_def on_objects_def
      on_broker_def split: prod.splits)

lemma keeps_db_bind [intro]: "keeps_db m \<Longrightarrow> (\<And>x. keeps_db (f x)) \<Longrightarrow> keeps_db (bind_io m f)"
  unfolding keeps_db_def bind_io_def by (simp split: prod.splits sum.splits) (metis snd_conv)

lemma keeps_db_catch [intro]: "keeps_db m \<Longrightarrow> (\<And>e. keeps_db (h e)) \<Longrightarrow> keeps_db (catch_io m h)"
  unfolding keeps_db_def catch_io_def by (simp split: prod.splits sum.splits) (metis snd_conv)

lemma keeps_db_suppress [intro]: "keeps_db m \<Longrightarrow> keeps_db (suppress_io m)"
  by (auto simp: keeps_db_def suppress_io_def)

lemma keeps_db_if [intro]: "keeps_db m \<Longrightarrow> keeps_db m' \<Longrightarrow> keeps_db (if b then m else m')"
  by simp

lemma keeps_db_each [intro]: "(\<And>x. x \<in> set xs \<Longrightarrow> keeps_db (f x)) \<Longrightarrow> keeps_db (each_io f xs)"
  by (induction xs) auto

text \<open>The errors a computation can raise, and what holds of its result and of the world it leaves.\<close>

definition raises_only :: "(py_error \<Rightarrow> bool) \<Rightarrow> ('a, 'w) io \<Rightarrow> bool" where
  "raises_only P m \<longleftrightarrow> (\<forall>w e w1. m w = (Inl e, w1) \<longrightarrow> P e)"

definition posts :: "('a res \<Rightarrow> 'w \<Rightarrow> bool) \<Rightarrow> ('a, 'w) io \<Rightarrow> bool" where
  "posts Q m \<longleftrightarrow> (\<forall>w r w1. m w = (r, w1) \<longrightarrow> Q r w1)"

lemma posts_bind:
  assumes "raises_only P m" "\<And>e w. P e \<Longrightarrow> Q (Inl e) w" "\<And>x. posts Q (f x)"
  shows "posts Q (bind_io m f)"
  using assms unfolding posts_def raises_only_def bind_io_def by (auto split: prod.splits sum.splits)

lemma posts_if: "(b \<Longrightarrow> posts Q m) \<Longrightarrow> (\<not> b \<Longrightarrow> posts Q m') \<Longrightarrow> posts Q (if b then m else m')"
  by simp

lemma postsD: "posts Q m \<Longrightarrow> m w = (r, w1) \<Longrightarrow> Q r w1"
  by (simp add: posts_def)

lemma raises_only_bind [intro]: "raises_only P m \<Longrightarrow> (\<And>x. raises_only P (f x)) \<Longrightarrow> raises_only P (bind_io m f)"
  unfolding raises_only_def by (blast elim: bind_io_InlE)

lemma raises_only_return [simp, intro]: "raises_only P (return_io x)"
  by (simp add: raises_only_def)

lemma length_str_uuid: "length (str_uuid u) = 36"
  by (simp add: str_uuid_def Let_def)

end
