(* ===== verification/Object_Storage.thy ===== *)
theory Object_Storage
  imports Worker_Effects Python_Values
begin

text \<open>
  \<open>core/storage.py\<close> and \<open>core/storage_transfers.py\<close>: object keys and their metadata, the checksum header,
  the checks on a stored object, and the bounded transfers. The S3 client is an argument with a state of
  its own; a file is the list of its bytes; \<open>sha256\<close> is the hexadecimal digest of a byte list.
\<close>

section \<open>Settings and references\<close>

type_synonym bytes = "8 word list"

record StorageSettings =
  ss_endpoint_url :: "string option"
  ss_bucket_name :: "string option"
  ss_key_prefix :: string
  ss_access_key_id :: "string option"
  ss_secret_access_key :: "string option"
  ss_server_side_encryption :: string
  ss_kms_key_id :: "string option"
  ss_signed_url_ttl_seconds :: int

datatype ArtifactKind =
    INSPECTION | EXTRACTED_PAGES | LAYOUT_BLOCKS | OCR_RESULT | NORMALIZED_DOCUMENT
  | CHUNK_MANIFEST | INDEX_MANIFEST

fun ArtifactKind_value :: "ArtifactKind \<Rightarrow> string" where
  "ArtifactKind_value INSPECTION = ''inspection''"
| "ArtifactKind_value EXTRACTED_PAGES = ''extracted-pages''"
| "ArtifactKind_value LAYOUT_BLOCKS = ''layout-blocks''"
| "ArtifactKind_value OCR_RESULT = ''ocr-result''"
| "ArtifactKind_value NORMALIZED_DOCUMENT = ''normalized-document''"
| "ArtifactKind_value CHUNK_MANIFEST = ''chunk-manifest''"
| "ArtifactKind_value INDEX_MANIFEST = ''index-manifest''"

record ObjectReference =
  or_key :: string
  or_checksum_sha256 :: string
  or_metadata :: "(string \<times> string) list"

record PresignedUpload =
  pu_url :: string
  pu_headers :: "(string \<times> string) list"
  pu_expires_in_seconds :: int

record StoredObjectMetadata =
  so_key :: string
  so_content_length :: int
  so_checksum_sha256 :: string
  so_content_type :: "string option"
  so_version_id :: "string option"
  so_metadata :: "(string \<times> string) list"

section \<open>The checksum header\<close>

text \<open>\<open>bytes.fromhex\<close>: pairs of digits, with white space of the ASCII range between pairs.\<close>

definition ascii_space :: "char \<Rightarrow> bool" where
  "ascii_space c \<longleftrightarrow> (let n = (of_char c :: nat) in 9 \<le> n \<and> n \<le> 13 \<or> n = 32)"

fun from_hex :: "string \<Rightarrow> bytes option" where
  "from_hex [] = Some []"
| "from_hex [c] = (if ascii_space c then Some [] else None)"
| "from_hex (c # d # cs) =
     (if ascii_space c then from_hex (d # cs)
      else case (digit_value 16 c, digit_value 16 d) of
        (Some x, Some y) \<Rightarrow> map_option (\<lambda>bs. of_nat (16 * x + y) # bs) (from_hex cs)
      | _ \<Rightarrow> None)"

text \<open>\<open>base64.b64encode\<close>.\<close>

definition b64_alphabet :: string where
  "b64_alphabet = ''ABCDEFGHIJKLMNOPQRSTUVWXYZabcdefghijklmnopqrstuvwxyz0123456789+/''"

definition b64_char :: "nat \<Rightarrow> char" where
  "b64_char n = b64_alphabet ! n"

fun b64_encode :: "bytes \<Rightarrow> string" where
  "b64_encode [] = []"
| "b64_encode [a] = [b64_char (unat a div 4), b64_char (unat a mod 4 * 16), CHR ''='', CHR ''='']"
| "b64_encode [a, b] =
     [b64_char (unat a div 4), b64_char (unat a mod 4 * 16 + unat b div 16),
      b64_char (unat b mod 16 * 4), CHR ''='']"
| "b64_encode (a # b # c # bs) =
     [b64_char (unat a div 4), b64_char (unat a mod 4 * 16 + unat b div 16),
      b64_char (unat b mod 16 * 4 + unat c div 64), b64_char (unat c mod 64)] @ b64_encode bs"

definition checksum_header_value :: "string \<Rightarrow> string res" where
  "checksum_header_value checksum_sha256 =
     (case from_hex checksum_sha256 of
        None \<Rightarrow> Inl (StorageIntegrityError ''checksum must be a hexadecimal SHA-256 digest'')
      | Some digest \<Rightarrow>
          if length digest \<noteq> 32 then Inl (StorageIntegrityError ''checksum must be a SHA-256 digest'')
          else Inr (b64_encode digest))"

section \<open>Keys\<close>

definition missing_settings :: "StorageSettings \<Rightarrow> string list" where
  "missing_settings settings =
     map fst (filter (\<lambda>(name, v). v = None \<or> v = Some [])
       [(''storage.endpoint_url'', ss_endpoint_url settings), (''storage.bucket_name'', ss_bucket_name settings),
        (''storage.access_key_id'', ss_access_key_id settings),
        (''storage.secret_access_key'', ss_secret_access_key settings)])"

fun join_text :: "string \<Rightarrow> string list \<Rightarrow> string" where
  "join_text sep [] = []"
| "join_text sep [x] = x"
| "join_text sep (x # y # xs) = x @ sep @ join_text sep (y # xs)"

text \<open>The constructor: the bucket of the storage.\<close>

definition new_storage :: "StorageSettings \<Rightarrow> string res" where
  "new_storage settings =
     (if missing_settings settings \<noteq> []
      then Inl (ValueError (''storage cannot initialize without: ''
        @ join_text '', '' (missing_settings settings)))
      else Inr (the (ss_bucket_name settings)))"

definition version_prefix :: "StorageSettings \<Rightarrow> uuid \<Rightarrow> uuid \<Rightarrow> string" where
  "version_prefix settings tenant_id document_version_id =
     ss_key_prefix settings @ ''/tenants/'' @ str_uuid tenant_id @ ''/versions/'' @ str_uuid document_version_id"

definition original_reference ::
  "StorageSettings \<Rightarrow> uuid \<Rightarrow> uuid \<Rightarrow> string \<Rightarrow> ObjectReference res" where
  "original_reference settings tenant_id document_version_id checksum_sha256 =
     bind_res (checksum_header_value checksum_sha256) (\<lambda>_. Inr
       \<lparr>or_key = version_prefix settings tenant_id document_version_id @ ''/originals/'' @ checksum_sha256 @ ''.pdf'',
        or_checksum_sha256 = checksum_sha256,
        or_metadata =
          [(''tenant-id'', str_uuid tenant_id), (''document-version-id'', str_uuid document_version_id),
           (''content-sha256'', checksum_sha256), (''content-kind'', ''original-pdf''),
           (''retention-class'', ''managed'')]\<rparr>)"

definition artifact_reference ::
  "StorageSettings \<Rightarrow> uuid \<Rightarrow> uuid \<Rightarrow> ArtifactKind \<Rightarrow> string \<Rightarrow> string \<Rightarrow> ObjectReference res" where
  "artifact_reference settings tenant_id document_version_id artifact_kind pipeline_version checksum_sha256 =
     bind_res (checksum_header_value checksum_sha256) (\<lambda>_.
       if pipeline_version = [] \<or> CHR ''/'' \<in> set pipeline_version
       then Inl (ValueError ''pipeline_version must be a non-empty path-safe value'')
       else Inr
         \<lparr>or_key = version_prefix settings tenant_id document_version_id @ ''/artifacts/''
            @ ArtifactKind_value artifact_kind @ ''/'' @ pipeline_version @ ''/'' @ checksum_sha256 @ ''.json'',
          or_checksum_sha256 = checksum_sha256,
          or_metadata =
            [(''tenant-id'', str_uuid tenant_id), (''document-version-id'', str_uuid document_version_id),
             (''artifact-kind'', ArtifactKind_value artifact_kind), (''pipeline-version'', pipeline_version),
             (''content-sha256'', checksum_sha256), (''retention-class'', ''managed'')]\<rparr>)"

section \<open>The client\<close>

record head_response =
  hr_content_length :: "int option"
  hr_checksum_sha256 :: "string option"
  hr_metadata :: "(string \<times> string) list option"
  hr_version_id :: "string option"
  hr_content_type :: "string option"

record put_request =
  pq_bucket :: string
  pq_key :: string
  pq_content_type :: string
  pq_checksum_sha256 :: string
  pq_metadata :: "(string \<times> string) list"
  pq_server_side_encryption :: "string option"
  pq_kms_key_id :: "string option"

text \<open>\<open>get_object\<close> says whether its response has a readable body; the body is then read through
  \<open>read_body\<close>, which returns no byte at its end.\<close>

record 'y s3_client =
  head_object :: "string \<Rightarrow> string \<Rightarrow> (head_response, 'y) io"
  get_object :: "string \<Rightarrow> string \<Rightarrow> string option \<Rightarrow> (bool, 'y) io"
  read_body :: "int \<Rightarrow> (bytes, 'y) io"
  put_object :: "put_request \<Rightarrow> bytes \<Rightarrow> (unit, 'y) io"
  delete_object :: "string \<Rightarrow> string \<Rightarrow> (unit, 'y) io"
  presigned_put :: "put_request \<Rightarrow> int \<Rightarrow> string res"
  presigned_get :: "string \<Rightarrow> string \<Rightarrow> int \<Rightarrow> string res"

section \<open>Transfers authorized for a client of the API\<close>

definition presign_parameters :: "StorageSettings \<Rightarrow> string \<Rightarrow> ObjectReference \<Rightarrow> string \<Rightarrow> string \<Rightarrow> put_request" where
  "presign_parameters settings bucket reference content_type checksum =
     \<lparr>pq_bucket = bucket, pq_key = or_key reference, pq_content_type = content_type,
      pq_checksum_sha256 = checksum, pq_metadata = or_metadata reference,
      pq_server_side_encryption =
        (if ss_server_side_encryption settings \<noteq> ''provider-default''
         then Some (ss_server_side_encryption settings) else None),
      pq_kms_key_id =
        (case ss_kms_key_id settings of Some k \<Rightarrow> if k \<noteq> [] then Some k else None | None \<Rightarrow> None)\<rparr>"

definition presign_headers :: "put_request \<Rightarrow> (string \<times> string) list" where
  "presign_headers q =
     [(''content-type'', pq_content_type q), (''x-amz-checksum-sha256'', pq_checksum_sha256 q)]
     @ (case pq_server_side_encryption q of None \<Rightarrow> [] | Some x \<Rightarrow> [(''x-amz-server-side-encryption'', x)])
     @ map (\<lambda>(k, v). (''x-amz-meta-'' @ k, v)) (pq_metadata q)
     @ (case pq_kms_key_id q of None \<Rightarrow> [] | Some k \<Rightarrow> [(''x-amz-server-side-encryption-aws-kms-key-id'', k)])"

definition presign_upload ::
  "'y s3_client \<Rightarrow> StorageSettings \<Rightarrow> string \<Rightarrow> ObjectReference \<Rightarrow> string \<Rightarrow> PresignedUpload res" where
  "presign_upload client settings bucket reference content_type =
     bind_res (checksum_header_value (or_checksum_sha256 reference)) (\<lambda>checksum.
     let q = presign_parameters settings bucket reference content_type checksum
     in bind_res (presigned_put client q (ss_signed_url_ttl_seconds settings)) (\<lambda>url.
        Inr \<lparr>pu_url = url, pu_headers = presign_headers q,
             pu_expires_in_seconds = ss_signed_url_ttl_seconds settings\<rparr>))"

definition presign_download ::
  "'y s3_client \<Rightarrow> StorageSettings \<Rightarrow> string \<Rightarrow> ObjectReference \<Rightarrow> string res" where
  "presign_download client settings bucket reference =
     presigned_get client bucket (or_key reference) (ss_signed_url_ttl_seconds settings)"

section \<open>Checks on a stored object\<close>

text \<open>Two dictionaries with distinct keys are equal when they have the same entries.\<close>

definition same_dict :: "(string \<times> string) list \<Rightarrow> (string \<times> string) list \<Rightarrow> bool" where
  "same_dict xs ys \<longleftrightarrow> set xs = set ys"

definition verify_object ::
  "'y s3_client \<Rightarrow> string \<Rightarrow> ObjectReference \<Rightarrow> int \<Rightarrow> (StoredObjectMetadata, 'y) io" where
  "verify_object client bucket reference expected_content_length =
     bind_io (head_object client bucket (or_key reference)) (\<lambda>response.
     let metadata = (case hr_metadata response of Some m \<Rightarrow> m | None \<Rightarrow> [])
     in if hr_content_length response \<noteq> Some expected_content_length
        then raise_io (StorageIntegrityError ''stored object length does not match expected length'')
        else bind_io (lift_res (checksum_header_value (or_checksum_sha256 reference))) (\<lambda>checksum.
          if hr_checksum_sha256 response \<noteq> Some checksum
          then raise_io (StorageIntegrityError ''stored object checksum does not match expected checksum'')
          else if \<not> same_dict metadata (or_metadata reference)
          then raise_io (StorageIntegrityError ''stored object provenance metadata does not match'')
          else return_io
            \<lparr>so_key = or_key reference, so_content_length = expected_content_length,
             so_checksum_sha256 = or_checksum_sha256 reference, so_content_type = hr_content_type response,
             so_version_id = hr_version_id response, so_metadata = metadata\<rparr>))"

definition read_prefix ::
  "'y s3_client \<Rightarrow> string \<Rightarrow> ObjectReference \<Rightarrow> int \<Rightarrow> (bytes, 'y) io" where
  "read_prefix client bucket reference byte_count =
     (if byte_count < 1 \<or> byte_count > 1024
      then raise_io (ValueError ''prefix byte count must be between 1 and 1024'')
      else bind_io (get_object client bucket (or_key reference)
                      (Some (''bytes=0-'' @ str_int (byte_count - 1)))) (\<lambda>has_body.
        if \<not> has_body then raise_io (StorageIntegrityError ''stored object prefix is unavailable'')
        else bind_io (read_body client byte_count) (\<lambda>payload.
          if int (length payload) > byte_count
          then raise_io (StorageIntegrityError ''stored object prefix is invalid'')
          else return_io payload)))"

section \<open>Bounded transfers\<close>

text \<open>The loop of \<open>download_object_to_path\<close>: \<open>output\<close> is what the file holds so far, \<open>total_bytes\<close> the bytes
  read. On an error of the read the file holds what was written before. The loop ends because every
  round but the last reads at least one byte.\<close>

function download_loop ::
  "(int \<Rightarrow> (bytes, 'y) io) \<Rightarrow> int \<Rightarrow> int \<Rightarrow> bytes \<Rightarrow> 'y \<Rightarrow> (int res \<times> bytes) \<times> 'y" where
  "download_loop read maximum_bytes total_bytes output y =
     (case read (min (1024 * 1024) (maximum_bytes + 1)) y of
        (Inl e, y1) \<Rightarrow> ((Inl e, output), y1)
      | (Inr chunk, y1) \<Rightarrow>
          if chunk = [] then ((Inr total_bytes, output), y1)
          else if total_bytes + int (length chunk) > maximum_bytes
          then ((Inl (StorageIntegrityError ''stored object exceeds the worker download limit''), output), y1)
          else download_loop read maximum_bytes (total_bytes + int (length chunk)) (output @ chunk) y1)"
  by pat_completeness auto
termination
  by (relation "measure (\<lambda>(read, mx, total_bytes, output, y). nat (mx - total_bytes))") (auto simp flip: length_greater_0_conv)

declare download_loop.simps [simp del]

text \<open>The new file and the number of its bytes.\<close>

definition download_object ::
  "'y s3_client \<Rightarrow> (bytes \<Rightarrow> string) \<Rightarrow> string \<Rightarrow> ObjectReference \<Rightarrow> int \<Rightarrow> (bytes \<times> int, 'y) io" where
  "download_object client sha256 bucket reference maximum_bytes =
     (if maximum_bytes < 1 then raise_io (ValueError ''maximum_bytes must be positive'')
      else bind_io (get_object client bucket (or_key reference) None) (\<lambda>has_body.
        if \<not> has_body then raise_io (StorageIntegrityError ''stored object body is unavailable'')
        else (\<lambda>y. case download_loop (read_body client) maximum_bytes 0 [] y of
               ((Inl e, output), y1) \<Rightarrow> (Inl e, y1)
             | ((Inr total_bytes, output), y1) \<Rightarrow>
                 if sha256 output \<noteq> or_checksum_sha256 reference
                 then (Inl (StorageIntegrityError ''downloaded object checksum does not match''), y1)
                 else (Inr (output, total_bytes), y1))))"

definition upload_object ::
  "'y s3_client \<Rightarrow> StorageSettings \<Rightarrow> string \<Rightarrow> ObjectReference \<Rightarrow> bytes \<Rightarrow> string \<Rightarrow> string \<Rightarrow> (unit, 'y) io" where
  "upload_object client settings bucket reference source content_type checksum_header =
     put_object client (presign_parameters settings bucket reference content_type checksum_header) source"

definition upload_file ::
  "'y s3_client \<Rightarrow> StorageSettings \<Rightarrow> string \<Rightarrow> ObjectReference \<Rightarrow> bytes \<Rightarrow> string \<Rightarrow> int
   \<Rightarrow> (StoredObjectMetadata, 'y) io" where
  "upload_file client settings bucket reference source content_type maximum_bytes =
     (let size_bytes = int (length source)
      in if size_bytes > maximum_bytes
         then raise_io (StorageIntegrityError ''artifact exceeds the configured output limit'')
         else bind_io (lift_res (checksum_header_value (or_checksum_sha256 reference))) (\<lambda>checksum.
              bind_io (upload_object client settings bucket reference source content_type checksum)
                (\<lambda>_. verify_object client bucket reference size_bytes)))"

section \<open>Deletion\<close>

definition contains_dots :: "string \<Rightarrow> bool" where
  "contains_dots key \<longleftrightarrow> list_ex (\<lambda>(a, b). a = CHR ''.'' \<and> b = CHR ''.'') (zip key (tl key))"

definition delete_key :: "'y s3_client \<Rightarrow> StorageSettings \<Rightarrow> string \<Rightarrow> string \<Rightarrow> (unit, 'y) io" where
  "delete_key client settings bucket key =
     (let expected_prefix = ss_key_prefix settings @ ''/tenants/''
      in if take (length expected_prefix) key \<noteq> expected_prefix \<or> contains_dots key
         then raise_io (StorageIntegrityError ''object key is outside the managed prefix'')
         else delete_object client bucket key)"

section \<open>Keys identify objects\<close>

text \<open>What a reference names.\<close>

datatype object_id =
    Original uuid uuid string
  | Artifact uuid uuid ArtifactKind string string

fun reference_of :: "StorageSettings \<Rightarrow> object_id \<Rightarrow> ObjectReference res" where
  "reference_of settings (Original t v c) = original_reference settings t v c"
| "reference_of settings (Artifact t v k p c) = artifact_reference settings t v k p c"

lemma from_hex_chars: "from_hex s = Some bs \<Longrightarrow> c \<in> set s \<Longrightarrow> ascii_space c \<or> digit_value 16 c \<noteq> None"
proof (induction s arbitrary: bs rule: from_hex.induct)
  case (3 a b cs)
  show ?case
  proof (cases "ascii_space a")
    case True
    with 3 show ?thesis by auto
  next
    case False
    with 3 show ?thesis by (auto split: option.splits)
  qed
qed (auto split: if_splits)

lemma checksum_chars:
  assumes "checksum_header_value ck = Inr h"
  shows "CHR ''/'' \<notin> set ck" "CHR ''.'' \<notin> set ck"
proof -
  from assms obtain bs where "from_hex ck = Some bs"
    by (auto simp: checksum_header_value_def split: option.splits)
  note chars = from_hex_chars [OF this]
  have "\<not> (ascii_space (CHR ''/'') \<or> digit_value 16 (CHR ''/'') \<noteq> None)"
    "\<not> (ascii_space (CHR ''.'') \<or> digit_value 16 (CHR ''.'') \<noteq> None)"
    by (simp_all add: ascii_space_def digit_value_def Let_def)
  with chars show "CHR ''/'' \<notin> set ck" "CHR ''.'' \<notin> set ck" by blast+
qed

lemma cut_at_separator:
  "xs @ c # ys = xs' @ c # ys' \<Longrightarrow> c \<notin> set xs \<Longrightarrow> c \<notin> set xs' \<Longrightarrow> xs = xs' \<and> ys = ys'"
proof (induction xs arbitrary: xs')
  case Nil
  then show ?case by (cases xs') auto
next
  case (Cons x xs)
  then show ?case by (cases xs') auto
qed

lemma ArtifactKind_value_plain: "CHR ''/'' \<notin> set (ArtifactKind_value k)" "CHR ''.'' \<notin> set (ArtifactKind_value k)"
  by (cases k; simp)+

lemma ArtifactKind_value_inj: "ArtifactKind_value k = ArtifactKind_value k' \<Longrightarrow> k = k'"
  by (cases k; cases k') simp_all

lemma version_prefix_cut:
  assumes "version_prefix settings t v @ xs = version_prefix settings t' v' @ xs'"
  shows "t = t' \<and> v = v' \<and> xs = xs'"
  using assms by (auto simp: version_prefix_def append_eq_append_conv length_str_uuid)

lemma original_reference_Inr:
  "original_reference settings t v c = Inr r \<longleftrightarrow> (\<exists>h. checksum_header_value c = Inr h)
     \<and> r = \<lparr>or_key = version_prefix settings t v @ ''/originals/'' @ c @ ''.pdf'', or_checksum_sha256 = c,
        or_metadata =
          [(''tenant-id'', str_uuid t), (''document-version-id'', str_uuid v), (''content-sha256'', c),
           (''content-kind'', ''original-pdf''), (''retention-class'', ''managed'')]\<rparr>"
  by (auto simp: original_reference_def res_simps)

lemma artifact_reference_Inr:
  "artifact_reference settings t v k p c = Inr r \<longleftrightarrow> (\<exists>h. checksum_header_value c = Inr h)
     \<and> p \<noteq> [] \<and> CHR ''/'' \<notin> set p
     \<and> r = \<lparr>or_key = version_prefix settings t v @ ''/artifacts/'' @ ArtifactKind_value k @ ''/'' @ p @ ''/'' @ c @ ''.json'',
        or_checksum_sha256 = c,
        or_metadata =
          [(''tenant-id'', str_uuid t), (''document-version-id'', str_uuid v),
           (''artifact-kind'', ArtifactKind_value k), (''pipeline-version'', p), (''content-sha256'', c),
           (''retention-class'', ''managed'')]\<rparr>"
  by (auto simp: artifact_reference_def res_simps)

lemma artifact_path_cut:
  assumes "ArtifactKind_value k @ CHR ''/'' # p @ CHR ''/'' # c @ x = ArtifactKind_value k' @ CHR ''/'' # p' @ CHR ''/'' # c' @ x"
    and "CHR ''/'' \<notin> set p" "CHR ''/'' \<notin> set p'"
  shows "k = k' \<and> p = p' \<and> c = c'"
proof -
  from cut_at_separator [OF assms(1) ArtifactKind_value_plain(1) ArtifactKind_value_plain(1)]
  have k: "k = k'" and rest: "p @ CHR ''/'' # c @ x = p' @ CHR ''/'' # c' @ x"
    by (auto dest: ArtifactKind_value_inj)
  from cut_at_separator [OF rest assms(2,3)] k show ?thesis by simp
qed

text \<open>C31: object keys identify what they store: two references with the same key, of whatever tenants,
  versions and kinds, are references to the same original or the same artifact, with the same checksum
  and the same provenance metadata. So no tenant reads, overwrites or deletes an object of another.\<close>

theorem reference_key_identifies:
  assumes "reference_of settings a = Inr r" and "reference_of settings b = Inr r'" and "or_key r = or_key r'"
  shows "a = b \<and> r = r'"
proof (cases a; cases b)
  fix t v c t' v' c' assume ab: "a = Original t v c" "b = Original t' v' c'"
  with assms have "version_prefix settings t v @ ''/originals/'' @ c @ ''.pdf''
      = version_prefix settings t' v' @ ''/originals/'' @ c' @ ''.pdf''"
    by (auto simp: original_reference_Inr)
  from version_prefix_cut [OF this] ab assms(1,2) show ?thesis by simp
next
  fix t v c t' v' k' p' c' assume ab: "a = Original t v c" "b = Artifact t' v' k' p' c'"
  with assms have "version_prefix settings t v @ ''/originals/'' @ c @ ''.pdf''
      = version_prefix settings t' v' @ ''/artifacts/'' @ ArtifactKind_value k' @ ''/'' @ p' @ ''/'' @ c' @ ''.json''"
    by (auto simp: original_reference_Inr artifact_reference_Inr)
  from version_prefix_cut [OF this] show ?thesis by simp
next
  fix t v k p c t' v' c' assume ab: "a = Artifact t v k p c" "b = Original t' v' c'"
  with assms have "version_prefix settings t v @ ''/artifacts/'' @ ArtifactKind_value k @ ''/'' @ p @ ''/'' @ c @ ''.json''
      = version_prefix settings t' v' @ ''/originals/'' @ c' @ ''.pdf''"
    by (auto simp: original_reference_Inr artifact_reference_Inr)
  from version_prefix_cut [OF this] show ?thesis by simp
next
  fix t v k p c t' v' k' p' c' assume ab: "a = Artifact t v k p c" "b = Artifact t' v' k' p' c'"
  with assms have key: "version_prefix settings t v @ ''/artifacts/'' @ ArtifactKind_value k @ ''/'' @ p @ ''/'' @ c @ ''.json''
      = version_prefix settings t' v' @ ''/artifacts/'' @ ArtifactKind_value k' @ ''/'' @ p' @ ''/'' @ c' @ ''.json''"
    and p: "CHR ''/'' \<notin> set p" "CHR ''/'' \<notin> set p'"
    by (auto simp: artifact_reference_Inr)
  from version_prefix_cut [OF key] have tv: "t = t'" "v = v'"
    and path: "ArtifactKind_value k @ CHR ''/'' # p @ CHR ''/'' # c @ ''.json''
      = ArtifactKind_value k' @ CHR ''/'' # p' @ CHR ''/'' # c' @ ''.json''" by simp_all
  from artifact_path_cut [OF path p] tv ab assms(1,2) show ?thesis by simp
qed

section \<open>The checksum header determines the checksum\<close>

lemma b64_char_inj:
  assumes "i < 64" "j < 64" "b64_char i = b64_char j"
  shows "i = j"
proof -
  have "distinct b64_alphabet" "length b64_alphabet = 64"
    by (simp_all add: b64_alphabet_def)
  with assms show ?thesis by (simp add: b64_char_def nth_eq_iff_index_eq)
qed

lemma byte_bound: "unat (b :: 8 word) < 256"
  using unsigned_less [of b, where ?'a = nat] by simp

lemma b64_pad: "i < 64 \<Longrightarrow> b64_char i \<noteq> CHR ''=''"
proof -
  assume "i < 64"
  then have "b64_char i \<in> set b64_alphabet"
    unfolding b64_char_def by (intro nth_mem) (simp add: b64_alphabet_def)
  moreover have "CHR ''='' \<notin> set b64_alphabet" by (simp add: b64_alphabet_def)
  ultimately show ?thesis by auto
qed

lemma byte_sextets:
  fixes a b c :: "8 word"
  shows "unat a div 4 < 64" "unat a mod 4 * 16 < 64" "unat a mod 4 * 16 + unat b div 16 < 64"
    "unat b mod 16 * 4 < 64" "unat b mod 16 * 4 + unat c div 64 < 64" "unat c mod 64 < 64"
proof -
  have d: "unat a div 4 < 64" "unat b div 16 < 16" "unat c div 64 < 4"
    using byte_bound [of a] byte_bound [of b] byte_bound [of c] by (simp_all add: less_mult_imp_div_less)
  have m: "unat a mod 4 < 4" "unat b mod 16 < 16" "unat c mod 64 < 64" by simp_all
  show "unat a div 4 < 64" "unat a mod 4 * 16 < 64" "unat a mod 4 * 16 + unat b div 16 < 64"
    "unat b mod 16 * 4 < 64" "unat b mod 16 * 4 + unat c div 64 < 64" "unat c mod 64 < 64"
    using d m by linarith+
qed

lemma b64_char_eq: "i < 64 \<Longrightarrow> j < 64 \<Longrightarrow> b64_char i = b64_char j \<longleftrightarrow> i = j"
  using b64_char_inj by blast

lemmas sextet_simps = b64_char_eq byte_sextets b64_pad b64_pad [THEN not_sym]

lemma pair_inj:
  assumes "q < n" "q' < n" "p * n + q = p' * n + (q' :: nat)"
  shows "p = p' \<and> q = q'"
proof -
  have "p = (p * n + q) div n" "p' = (p' * n + q') div n" using assms(1,2) by simp_all
  with assms(3) show ?thesis by simp
qed

lemma sextets_inj:
  assumes "a < (256 :: nat)" "b < 256" "c < 256" "a' < 256" "b' < 256" "c' < 256"
    and "a div 4 = a' div 4" "a mod 4 * 16 + b div 16 = a' mod 4 * 16 + b' div 16"
    and "b mod 16 * 4 + c div 64 = b' mod 16 * 4 + c' div 64" "c mod 64 = c' mod 64"
  shows "a = a' \<and> b = b' \<and> c = c'"
proof -
  have b: "b div 16 < 16" "b' div 16 < 16" "c div 64 < 4" "c' div 64 < 4"
    using assms(2,3,5,6) by (simp_all add: less_mult_imp_div_less)
  from pair_inj [OF b(1,2) assms(8)] pair_inj [OF b(3,4) assms(9)] assms(7,10) show ?thesis
    by (metis div_mult_mod_eq)
qed

lemma b64_encode_inj: "length xs = length ys \<Longrightarrow> b64_encode xs = b64_encode ys \<Longrightarrow> xs = ys"
proof (induction xs arbitrary: ys rule: b64_encode.induct)
  case (2 a)
  then obtain a' where ys: "ys = [a']" by (cases ys) auto
  have "unat a div 4 = unat a' div 4" "unat a mod 4 = unat a' mod 4"
    using "2.prems"(2) ys by (simp_all add: sextet_simps)
  then have "unat a = unat a'" by (metis div_mult_mod_eq)
  with ys show ?case by (simp add: word_unat_eq_iff)
next
  case (3 a b)
  then obtain a' b' where ys: "ys = [a', b']" by (cases ys; cases "tl ys") auto
  have "unat a div 4 = unat a' div 4" "unat a mod 4 * 16 + unat b div 16 = unat a' mod 4 * 16 + unat b' div 16"
    "unat b mod 16 * 4 = unat b' mod 16 * 4"
    using "3.prems"(2) ys by (simp_all add: sextet_simps)
  with sextets_inj [of "unat a" "unat b" 0 "unat a'" "unat b'" 0] byte_bound
  have "unat a = unat a'" "unat b = unat b'" by auto
  with ys show ?case by (simp add: word_unat_eq_iff)
next
  case (4 a b c bs)
  then obtain a' b' c' bs' where ys: "ys = a' # b' # c' # bs'" "length bs = length bs'"
    by (cases ys; cases "tl ys"; cases "tl (tl ys)") auto
  have eqs: "unat a div 4 = unat a' div 4" "unat a mod 4 * 16 + unat b div 16 = unat a' mod 4 * 16 + unat b' div 16"
    "unat b mod 16 * 4 + unat c div 64 = unat b' mod 16 * 4 + unat c' div 64" "unat c mod 64 = unat c' mod 64"
    and rest: "b64_encode bs = b64_encode bs'"
    using "4.prems"(2) ys by (simp_all add: sextet_simps)
  from sextets_inj [OF byte_bound byte_bound byte_bound byte_bound byte_bound byte_bound eqs]
  have "a = a'" "b = b'" "c = c'" by (simp_all add: word_unat_eq_iff)
  with "4.IH" [OF ys(2) rest] ys(1) show ?case by simp
qed simp

definition lower_hex :: "char \<Rightarrow> bool" where
  "lower_hex c \<longleftrightarrow> c \<in> set ''0123456789abcdef''"

lemma lower_hex_values:
  assumes "lower_hex c"
  shows "\<not> ascii_space c \<and> (\<exists>x < 16. digit_value 16 c = Some x \<and> ''0123456789abcdef'' ! x = c)"
proof -
  have "list_all (\<lambda>c. \<not> ascii_space c \<and> (case digit_value 16 c of None \<Rightarrow> False
      | Some x \<Rightarrow> x < 16 \<and> ''0123456789abcdef'' ! x = c)) ''0123456789abcdef''"
    by code_simp
  with assms show ?thesis unfolding list_all_iff lower_hex_def by (fastforce split: option.splits)
qed

definition hex_byte :: "char \<Rightarrow> char \<Rightarrow> 8 word" where
  "hex_byte c d = of_nat (16 * the (digit_value 16 c) + the (digit_value 16 d))"

lemma from_hex_single: "lower_hex c \<Longrightarrow> from_hex [c] = None"
  using lower_hex_values [of c] by (simp only: from_hex.simps if_False simp_thms)

lemma from_hex_pair:
  assumes "lower_hex c" "lower_hex d"
  shows "from_hex (c # d # cs) = map_option ((#) (hex_byte c d)) (from_hex cs)"
proof -
  from assms obtain x y where "\<not> ascii_space c" "digit_value 16 c = Some x" "digit_value 16 d = Some y"
    using lower_hex_values by blast
  then show ?thesis by (simp only: from_hex.simps if_False simp_thms prod.case option.case hex_byte_def option.sel)
qed

lemma hex_byte_inj:
  assumes "lower_hex c" "lower_hex d" "lower_hex c'" "lower_hex d'" "hex_byte c d = hex_byte c' d'"
  shows "c = c' \<and> d = d'"
proof -
  from assms(1-4) obtain x y x' y' where v: "x < 16" "digit_value 16 c = Some x" "''0123456789abcdef'' ! x = c"
      "y < 16" "digit_value 16 d = Some y" "''0123456789abcdef'' ! y = d"
      "x' < 16" "digit_value 16 c' = Some x'" "''0123456789abcdef'' ! x' = c'"
      "y' < 16" "digit_value 16 d' = Some y'" "''0123456789abcdef'' ! y' = d'"
    using lower_hex_values by metis
  have b: "16 * x' + y' < 2 ^ LENGTH(8)" "16 * x + y < 2 ^ LENGTH(8)" using v(1,4,7,10) by simp_all
  then have "16 * x' + y' = unat (of_nat (16 * x' + y') :: 8 word)"
    "16 * x + y = unat (of_nat (16 * x + y) :: 8 word)"
    by (simp_all only: unat_of_nat mod_less)
  with assms(5) have "x * 16 + y = x' * 16 + y'"
    by (simp only: hex_byte_def v(2,5,8,11) option.sel mult.commute [of _ 16])
  from pair_inj [OF v(4,10) this] v(3,6,9,12) show ?thesis by blast
qed

lemma from_hex_inj:
  assumes "\<forall>c \<in> set s. lower_hex c" "\<forall>c \<in> set s'. lower_hex c" "from_hex s = Some bs" "from_hex s' = Some bs"
  shows "s = s'"
proof -
  have lower: "(\<exists>c d cs bs'. t = c # d # cs \<and> lower_hex c \<and> lower_hex d \<and> (\<forall>c \<in> set cs. lower_hex c)
      \<and> from_hex cs = Some bs' \<and> bs = hex_byte c d # bs') \<or> t = [] \<and> bs = []"
    if "\<forall>c \<in> set t. lower_hex c" "from_hex t = Some bs" for t bs
    using that from_hex_single from_hex_pair by (cases t rule: from_hex.cases) fastforce+
  from assms show ?thesis
  proof (induction bs arbitrary: s s')
    case Nil
    with lower [of s "[]"] lower [of s' "[]"] show ?case by blast
  next
    case (Cons b bs)
    from lower [OF Cons.prems(1,3)] obtain c d cs where s: "s = c # d # cs" "lower_hex c" "lower_hex d"
      "\<forall>c \<in> set cs. lower_hex c" "from_hex cs = Some bs" "b = hex_byte c d" by blast
    from lower [OF Cons.prems(2,4)] obtain c' d' cs' where s': "s' = c' # d' # cs'" "lower_hex c'" "lower_hex d'"
      "\<forall>c \<in> set cs'. lower_hex c" "from_hex cs' = Some bs" "b = hex_byte c' d'" by blast
    from hex_byte_inj [OF s(2,3) s'(2,3)] s(6) s'(6) have "c = c' \<and> d = d'" by simp
    with Cons.IH [OF s(4) s'(4) s(5) s'(5)] s(1) s'(1) show ?case by simp
  qed
qed

lemma checksum_header_inj:
  assumes "is_sha256 c" "is_sha256 c'" "checksum_header_value c = Inr h" "checksum_header_value c' = Inr h"
  shows "c = c'"
proof -
  from assms(3,4) obtain bs bs' where bs: "from_hex c = Some bs" "from_hex c' = Some bs'"
    and l: "length bs = 32" "length bs' = 32" and h: "b64_encode bs = b64_encode bs'"
    by (auto simp: checksum_header_value_def split: option.splits if_splits)
  from b64_encode_inj [OF _ h] l have "bs = bs'" by simp
  with from_hex_inj [of c c' bs] bs assms(1,2) show ?thesis
    by (simp add: is_sha256_def list_all_iff lower_hex_def)
qed

section \<open>What an accepted object is\<close>

lemma verify_object_Inr:
  assumes "verify_object client bucket reference n y = (Inr md, y1)"
  obtains r h where "head_object client bucket (or_key reference) y = (Inr r, y1)"
    "hr_content_length r = Some n" "hr_checksum_sha256 r = Some h"
    "checksum_header_value (or_checksum_sha256 reference) = Inr h"
    "same_dict (case hr_metadata r of Some m \<Rightarrow> m | None \<Rightarrow> []) (or_metadata reference)"
    "so_key md = or_key reference" "so_content_length md = n"
    "so_checksum_sha256 md = or_checksum_sha256 reference" "so_content_type md = hr_content_type r"
  using assms unfolding verify_object_def Let_def
  by (elim bind_io_InrE) (auto split: if_splits elim!: bind_io_InrE)

text \<open>What S3 says about an object: \<open>stored\<close> is the content and the metadata of a key.\<close>

definition reports_truthfully ::
  "'y s3_client \<Rightarrow> string \<Rightarrow> (bytes \<Rightarrow> string) \<Rightarrow> ('y \<Rightarrow> string \<rightharpoonup> bytes \<times> (string \<times> string) list) \<Rightarrow> bool" where
  "reports_truthfully client bucket sha256 stored \<longleftrightarrow>
     (\<forall>k y r y1. head_object client bucket k y = (Inr r, y1) \<longrightarrow>
        (\<exists>content m. stored y1 k = Some (content, m) \<and> hr_content_length r = Some (int (length content))
           \<and> (\<forall>h. hr_checksum_sha256 r = Some h \<longrightarrow> checksum_header_value (sha256 content) = Inr h)
           \<and> hr_metadata r = Some m))"

lemma upload_stored:
  assumes "reports_truthfully client bucket sha256 stored"
    and "is_sha256 (or_checksum_sha256 reference)" and "\<forall>c. is_sha256 (sha256 c)"
    and "upload_file client settings bucket reference source content_type maximum_bytes y = (Inr md, y1)"
  shows "\<exists>content m. stored y1 (or_key reference) = Some (content, m)
    \<and> sha256 content = or_checksum_sha256 reference \<and> length content = length source
    \<and> int (length source) \<le> maximum_bytes \<and> same_dict m (or_metadata reference)
    \<and> so_key md = or_key reference \<and> so_content_length md = int (length source)
    \<and> so_checksum_sha256 md = or_checksum_sha256 reference"
proof -
  note up = assms(4) [unfolded upload_file_def Let_def]
  have limit: "int (length source) \<le> maximum_bytes"
  proof (rule ccontr)
    assume "\<not> int (length source) \<le> maximum_bytes"
    with up show False by simp
  qed
  with up obtain y2 where v: "verify_object client bucket reference (int (length source)) y2 = (Inr md, y1)"
    by (auto elim!: bind_io_InrE)
  from v obtain r h where r: "head_object client bucket (or_key reference) y2 = (Inr r, y1)"
      "hr_content_length r = Some (int (length source))" "hr_checksum_sha256 r = Some h"
      "checksum_header_value (or_checksum_sha256 reference) = Inr h"
      "same_dict (case hr_metadata r of Some m \<Rightarrow> m | None \<Rightarrow> []) (or_metadata reference)"
    and md: "so_key md = or_key reference" "so_content_length md = int (length source)"
      "so_checksum_sha256 md = or_checksum_sha256 reference"
    by (rule verify_object_Inr)
  from assms(1) r(1) obtain content m where c: "stored y1 (or_key reference) = Some (content, m)"
      "hr_content_length r = Some (int (length content))"
      "\<forall>h. hr_checksum_sha256 r = Some h \<longrightarrow> checksum_header_value (sha256 content) = Inr h"
      "hr_metadata r = Some m"
    unfolding reports_truthfully_def by blast
  have "checksum_header_value (sha256 content) = Inr h" using c(3) r(3) by blast
  with checksum_header_inj [of "sha256 content" "or_checksum_sha256 reference" h] assms(2,3) r(4)
  have "sha256 content = or_checksum_sha256 reference" by blast
  with c r limit md show ?thesis by simp
qed

text \<open>C32: a successful upload leaves an object that has, under the key of the reference, exactly the
  checksum, the length and the provenance metadata of the reference, and it is no longer than the
  configured limit.\<close>

theorem uploaded_object_intact:
  assumes "reports_truthfully client bucket sha256 stored"
    and "is_sha256 (or_checksum_sha256 reference)" and "\<forall>c. is_sha256 (sha256 c)"
    and "upload_file client settings bucket reference source content_type maximum_bytes y = (Inr md, y1)"
  shows "\<exists>content m. stored y1 (or_key reference) = Some (content, m)
    \<and> sha256 content = or_checksum_sha256 reference \<and> length content = length source
    \<and> int (length source) \<le> maximum_bytes \<and> same_dict m (or_metadata reference)
    \<and> so_key md = or_key reference \<and> so_content_length md = int (length source)
    \<and> so_checksum_sha256 md = or_checksum_sha256 reference"
  by (rule upload_stored [OF assms])

section \<open>A download is bounded\<close>

text \<open>A reader that counts its calls.\<close>

definition counted :: "(int \<Rightarrow> (bytes, 'y) io) \<Rightarrow> int \<Rightarrow> (bytes, 'y \<times> nat) io" where
  "counted read n y = (case read n (fst y) of (r, y1) \<Rightarrow> (r, (y1, snd y + 1)))"

lemma download_loop_bounds:
  assumes "download_loop (counted read) mx t out (y, k) = ((r, out'), (y', k'))"
    and "int (length out) = t" "t \<le> mx"
  shows "int (length out') \<le> mx \<and> int k' \<le> int k + mx - t + 1 \<and> (\<forall>n. r = Inr n \<longrightarrow> n = int (length out'))"
  using assms
proof (induction "counted read" mx t out "(y, k)" arbitrary: y k rule: download_loop.induct)
  case (1 mx t out y k)
  obtain res y1 where read: "read (min (1024 * 1024) (mx + 1)) y = (res, y1)"
    by (cases "read (min (1024 * 1024) (mx + 1)) y")
  then have c: "counted read (min (1024 * 1024) (mx + 1)) (y, k) = (res, (y1, k + 1))"
    by (simp add: counted_def)
  show ?case
  proof (cases res)
    case (Inl e)
    with "1.prems" c show ?thesis by (auto simp: download_loop.simps)
  next
    case (Inr chunk)
    consider "chunk = []" | "chunk \<noteq> []" "t + int (length chunk) > mx" | "chunk \<noteq> []" "t + int (length chunk) \<le> mx"
      by force
    then show ?thesis
    proof cases
      case 1
      with "1.prems" c Inr show ?thesis by (auto simp: download_loop.simps)
    next
      case 2
      with "1.prems" c Inr show ?thesis by (auto simp: download_loop.simps)
    next
      case 3
      then have n: "\<not> mx < t + int (length chunk)" and l: "0 < length chunk" by simp_all
      from "1.prems"(1) c Inr 3 have rest:
        "download_loop (counted read) mx (t + int (length chunk)) (out @ chunk) (y1, k + 1) = ((r, out'), (y', k'))"
        by (subst (asm) download_loop.simps) simp
      have "int (length out') \<le> mx \<and> int k' \<le> int (k + 1) + mx - (t + int (length chunk)) + 1
          \<and> (\<forall>n. r = Inr n \<longrightarrow> n = int (length out'))"
        using "1.hyps" [OF c [symmetric] Inr 3(1) n rest] "1.prems"(2) 3(2) by simp
      moreover from l have "1 \<le> int (length chunk)" by linarith
      ultimately show ?thesis by auto
    qed
  qed
qed

lemma counted_loop:
  "\<exists>k'. download_loop (counted read) mx t out (y, k)
     = (fst (download_loop read mx t out y), (snd (download_loop read mx t out y), k'))"
proof (induction read mx t out y arbitrary: k rule: download_loop.induct)
  case (1 read mx t out y)
  obtain res y1 where read: "read (min (1024 * 1024) (mx + 1)) y = (res, y1)"
    by (cases "read (min (1024 * 1024) (mx + 1)) y")
  then have c: "counted read (min (1024 * 1024) (mx + 1)) (y, k) = (res, (y1, k + 1))"
    by (simp add: counted_def)
  show ?case
  proof (cases res)
    case (Inl e)
    with read c show ?thesis by (simp add: download_loop.simps)
  next
    case (Inr chunk)
    show ?thesis
    proof (cases "chunk = [] \<or> mx < t + int (length chunk)")
      case True
      with read c Inr show ?thesis by (auto simp: download_loop.simps)
    next
      case False
      with "1.IH" [OF read [symmetric] Inr, of "k + 1"] read c Inr show ?thesis
        by (simp add: download_loop.simps [of _ mx t out])
    qed
  qed
qed

text \<open>Whatever the store sends, a download ends after at most one read per permitted byte and one
  more, never writes more than the permitted bytes, and when it succeeds the file has exactly the checksum
  of the reference and the reported number of bytes.\<close>

theorem download_bounded:
  assumes "1 \<le> maximum_bytes"
  shows "(\<exists>r out y1 k. download_loop (counted (read_body client)) maximum_bytes 0 [] (y, 0) = ((r, out), (y1, k))
      \<and> int (length out) \<le> maximum_bytes \<and> int k \<le> maximum_bytes + 1)
    \<and> (case download_object client sha256 bucket reference maximum_bytes y of
         (Inr (out, n), y1) \<Rightarrow> n = int (length out) \<and> n \<le> maximum_bytes
           \<and> sha256 out = or_checksum_sha256 reference
       | (Inl e, y1) \<Rightarrow> True)"
proof -
  have loop: "\<exists>r out y1 k. download_loop (counted (read_body client)) maximum_bytes 0 [] (y, 0) = ((r, out), (y1, k))
      \<and> download_loop (read_body client) maximum_bytes 0 [] y = ((r, out), y1)
      \<and> int (length out) \<le> maximum_bytes \<and> int k \<le> maximum_bytes + 1
      \<and> (\<forall>n. r = Inr n \<longrightarrow> n = int (length out))" for y
  proof -
    obtain r out y1 where l: "download_loop (read_body client) maximum_bytes 0 [] y = ((r, out), y1)"
      by (metis surj_pair)
    with counted_loop [of "read_body client" maximum_bytes 0 "[]" y 0] obtain k where
      c: "download_loop (counted (read_body client)) maximum_bytes 0 [] (y, 0) = ((r, out), (y1, k))" by auto
    from download_loop_bounds [OF c] assms have "int (length out) \<le> maximum_bytes \<and> int k \<le> maximum_bytes + 1
      \<and> (\<forall>n. r = Inr n \<longrightarrow> n = int (length out))" by simp
    with l c show ?thesis by blast
  qed
  have "n = int (length out) \<and> n \<le> maximum_bytes \<and> sha256 out = or_checksum_sha256 reference"
    if d: "download_object client sha256 bucket reference maximum_bytes y = (Inr (out, n), y2)" for out n y2
  proof -
    from d assms obtain y1 where "(case download_loop (read_body client) maximum_bytes 0 [] y1 of
        ((Inl e, output), y1) \<Rightarrow> (Inl e, y1)
      | ((Inr total_bytes, output), y1) \<Rightarrow>
          if sha256 output \<noteq> or_checksum_sha256 reference
          then (Inl (StorageIntegrityError ''downloaded object checksum does not match''), y1)
          else (Inr (output, total_bytes), y1)) = (Inr (out, n), y2)"
      unfolding download_object_def by (auto elim!: bind_io_InrE split: if_splits)
    with loop [of y1] show ?thesis by (auto split: if_splits sum.splits)
  qed
  with loop [of y] show ?thesis by (auto split: sum.split prod.split)
qed

section \<open>What may be deleted\<close>

lemma contains_dots_cut:
  assumes "c \<noteq> CHR ''.''"
  shows "contains_dots (xs @ c # ys) \<longleftrightarrow> contains_dots xs \<or> contains_dots ys"
proof (induction xs)
  case Nil
  from assms show ?case by (cases ys) (simp_all add: contains_dots_def)
next
  case (Cons x xs)
  with assms show ?case by (cases xs) (auto simp: contains_dots_def)
qed

lemma contains_dots_plain: "CHR ''.'' \<notin> set xs \<Longrightarrow> \<not> contains_dots xs"
  by (auto simp: contains_dots_def list_ex_iff dest!: set_zip_leftD)

lemma contains_dots_suffix:
  assumes "CHR ''.'' \<notin> set xs" "CHR ''.'' \<notin> set ys"
  shows "\<not> contains_dots (xs @ CHR ''.'' # ys)"
  using assms
proof (induction xs)
  case Nil
  then show ?case using contains_dots_plain [of ys] by (cases ys) (auto simp: contains_dots_def)
next
  case (Cons x xs)
  then show ?case by (cases xs) (auto simp: contains_dots_def)
qed

lemma no_dot_nat: "CHR ''.'' \<notin> set (str_uuid u)"
proof -
  have "c \<in> set (str_uuid u) \<Longrightarrow> c = CHR ''-'' \<or> (\<exists>d < 16. c = digit_char d)" for c
    using hex_nat_digits by (fastforce simp: str_uuid_def Let_def dest!: in_set_takeD in_set_dropD)
  moreover have "d < 16 \<Longrightarrow> digit_char d \<noteq> CHR ''.''" for d
  proof -
    have "list_all (\<lambda>d. digit_char d \<noteq> CHR ''.'') [0..<16]" by code_simp
    then show "d < 16 \<Longrightarrow> digit_char d \<noteq> CHR ''.''" unfolding list_all_iff by simp
  qed
  ultimately show ?thesis by fastforce
qed

lemma no_dot_prefix: "CHR ''.'' \<notin> set (ss_key_prefix settings) \<Longrightarrow> CHR ''.'' \<notin> set (version_prefix settings t v)"
  by (simp add: version_prefix_def no_dot_nat)

text \<open>The part of a reference that its maker chooses freely.\<close>

fun free_part :: "object_id \<Rightarrow> string" where
  "free_part (Original t v c) = []"
| "free_part (Artifact t v k p c) = p"

lemma reference_dots:
  assumes "reference_of settings a = Inr r" and "CHR ''.'' \<notin> set (ss_key_prefix settings)"
  shows "contains_dots (or_key r) \<longleftrightarrow> contains_dots (free_part a)"
proof (cases a)
  case (Original t v c)
  with assms(1) have k: "or_key r = (version_prefix settings t v @ ''/originals/'' @ c) @ CHR ''.'' # ''pdf''"
    and c: "CHR ''.'' \<notin> set c"
    by (auto simp: original_reference_Inr dest: checksum_chars)
  have "\<not> contains_dots (or_key r)"
    unfolding k using no_dot_prefix [OF assms(2)] c by (intro contains_dots_suffix) simp_all
  with Original show ?thesis by (simp add: contains_dots_def)
next
  case (Artifact t v kind p c)
  let ?front = "version_prefix settings t v @ ''/artifacts/'' @ ArtifactKind_value kind"
  from Artifact assms(1) have k: "or_key r = ?front @ CHR ''/'' # p @ CHR ''/'' # c @ CHR ''.'' # ''json''"
    and c: "CHR ''.'' \<notin> set c"
    by (auto simp: artifact_reference_Inr dest: checksum_chars)
  have "\<not> contains_dots ?front"
    using no_dot_prefix [OF assms(2)] ArtifactKind_value_plain(2) by (intro contains_dots_plain) simp
  moreover have "\<not> contains_dots (c @ CHR ''.'' # ''json'')"
    using c by (intro contains_dots_suffix) simp_all
  moreover have "contains_dots (?front @ CHR ''/'' # p @ CHR ''/'' # c @ CHR ''.'' # ''json'')
      \<longleftrightarrow> contains_dots ?front \<or> contains_dots p \<or> contains_dots (c @ CHR ''.'' # ''json'')"
    by (subst contains_dots_cut, simp, subst contains_dots_cut, simp_all)
  ultimately show ?thesis unfolding k using Artifact by simp
qed

lemma reference_prefix:
  "reference_of settings a = Inr r \<Longrightarrow> \<exists>rest. or_key r = ss_key_prefix settings @ ''/tenants/'' @ rest"
  by (cases a) (auto simp: original_reference_Inr artifact_reference_Inr version_prefix_def)

text \<open>The deletion guard accepts the key of every original, and of every artifact whose pipeline
  version has no two dots in a row: every object the pipeline stores under such a version can be removed
  again, and the request that reaches the store names exactly that key.\<close>

theorem stored_keys_deletable:
  assumes "reference_of settings a = Inr r" and "CHR ''.'' \<notin> set (ss_key_prefix settings)"
  shows "delete_key client settings bucket (or_key r)
    = (if contains_dots (free_part a)
       then raise_io (StorageIntegrityError ''object key is outside the managed prefix'')
       else delete_object client bucket (or_key r))"
proof -
  from reference_prefix [OF assms(1)] obtain rest where
    "or_key r = (ss_key_prefix settings @ ''/tenants/'') @ rest" by auto
  then have "take (length (ss_key_prefix settings @ ''/tenants/'')) (or_key r) = ss_key_prefix settings @ ''/tenants/''"
    by (simp only: append_eq_conv_conj) simp
  with reference_dots [OF assms] show ?thesis
    unfolding delete_key_def Let_def by simp
qed

section \<open>Witnesses\<close>

text \<open>A store in memory: its objects and the body that is being read.\<close>

type_synonym memory = "(string \<rightharpoonup> bytes \<times> (string \<times> string) list) \<times> bytes"

definition sample_digest :: "bytes \<Rightarrow> string" where
  "sample_digest c = concat (replicate 31 ''00'') @ (if length c < 8 then ''01'' else ''02'')"

definition memory_client :: "memory s3_client" where
  "memory_client =
     \<lparr>head_object = (\<lambda>bucket k y. case fst y k of
        None \<Rightarrow> (Inl StorageError, y)
      | Some (content, m) \<Rightarrow> (Inr \<lparr>hr_content_length = Some (int (length content)),
          hr_checksum_sha256 = (case checksum_header_value (sample_digest content) of Inr h \<Rightarrow> Some h | Inl e \<Rightarrow> None),
          hr_metadata = Some m, hr_version_id = None, hr_content_type = Some ''application/json''\<rparr>, y)),
      get_object = (\<lambda>bucket k range y. case fst y k of
        None \<Rightarrow> (Inl StorageError, y) | Some (content, m) \<Rightarrow> (Inr True, (fst y, content))),
      read_body = (\<lambda>n y. (Inr (take (nat n) (snd y)), (fst y, drop (nat n) (snd y)))),
      put_object = (\<lambda>q content y. (Inr (), ((fst y)(pq_key q \<mapsto> (content, pq_metadata q)), snd y))),
      delete_object = (\<lambda>bucket k y. (Inr (), ((fst y)(k := None), snd y))),
      presigned_put = (\<lambda>q ttl. Inr ''https://s3/put''),
      presigned_get = (\<lambda>bucket k ttl. Inr ''https://s3/get'')\<rparr>"

definition sample_settings :: StorageSettings where
  "sample_settings = \<lparr>ss_endpoint_url = Some ''https://s3'', ss_bucket_name = Some ''b'', ss_key_prefix = ''rag'',
     ss_access_key_id = Some ''a'', ss_secret_access_key = Some ''s'', ss_server_side_encryption = ''AES256'',
     ss_kms_key_id = None, ss_signed_url_ttl_seconds = 900\<rparr>"

lemma is_sha256_digest: "is_sha256 (sample_digest c)"
  by (auto simp: is_sha256_def sample_digest_def list_all_iff length_concat map_replicate sum_list_replicate)

lemma from_hex_zeros: "from_hex (concat (replicate n ''00'') @ cs) = map_option ((@) (replicate n 0)) (from_hex cs)"
proof (induction n)
  case 0
  show ?case by (cases "from_hex cs") simp_all
next
  case (Suc n)
  have b: "hex_byte (CHR ''0'') (CHR ''0'') = 0" by (simp add: hex_byte_def digit_value_def)
  have "concat (replicate (Suc n) ''00'') @ cs = CHR ''0'' # CHR ''0'' # (concat (replicate n ''00'') @ cs)" by simp
  moreover have "from_hex (CHR ''0'' # CHR ''0'' # (concat (replicate n ''00'') @ cs))
      = map_option ((#) 0) (from_hex (concat (replicate n ''00'') @ cs))"
    using from_hex_pair [of "CHR ''0''" "CHR ''0''"] b by (simp add: lower_hex_def del: from_hex.simps)
  ultimately show ?case using Suc by (simp add: option.map_comp comp_def del: from_hex.simps)
qed

lemma digest_header: "\<exists>h. checksum_header_value (sample_digest c) = Inr h"
proof -
  have "\<exists>b. from_hex (if length c < 8 then ''01'' else ''02'') = Some [b]"
    by (simp add: from_hex_pair lower_hex_def del: from_hex.simps(3))
  then show ?thesis
    unfolding checksum_header_value_def sample_digest_def from_hex_zeros by (auto simp del: from_hex.simps)
qed

lemma from_hex_aa: "from_hex (concat (replicate n ''aa'')) = Some (replicate n 170)"
proof (induction n)
  case 0
  show ?case by simp
next
  case (Suc n)
  have "hex_byte (CHR ''a'') (CHR ''a'') = 170" by (simp add: hex_byte_def digit_value_def)
  with Suc show ?case by (simp add: from_hex_pair lower_hex_def del: from_hex.simps(3))
qed

lemma sha_header: "\<exists>h. checksum_header_value sample_sha = Inr h"
proof -
  have "sample_sha = concat (replicate 32 ''aa'')" by (simp add: sample_sha_def numeral_eq_Suc)
  then have "from_hex sample_sha = Some (replicate 32 170)" using from_hex_aa [of 32] by presburger
  then show ?thesis by (simp add: checksum_header_value_def)
qed

theorem reference_key_identifies_witness:
  "\<exists>r. reference_of sample_settings (Original 1 2 (sample_digest [])) = Inr r
    \<and> (\<forall>r'. reference_of sample_settings (Original 1 3 (sample_digest [])) = Inr r' \<longrightarrow> or_key r \<noteq> or_key r')"
proof -
  obtain h where "checksum_header_value (sample_digest []) = Inr h" using digest_header by blast
  then obtain r where r: "reference_of sample_settings (Original 1 2 (sample_digest [])) = Inr r"
    by (simp add: original_reference_def)
  with reference_key_identifies [OF r] show ?thesis by fastforce
qed

theorem stored_keys_deletable_witness:
  "\<exists>r y. reference_of sample_settings (Artifact 1 2 INSPECTION ''pypdf-5'' (sample_digest [])) = Inr r
    \<and> delete_key memory_client sample_settings ''b'' (or_key r) ([or_key r \<mapsto> ([], [])], []) = (Inr (), y)
    \<and> fst y (or_key r) = None"
proof -
  obtain h where "checksum_header_value (sample_digest []) = Inr h" using digest_header by blast
  then obtain r where r: "reference_of sample_settings (Artifact 1 2 INSPECTION ''pypdf-5'' (sample_digest [])) = Inr r"
    by (simp add: artifact_reference_def)
  have "CHR ''.'' \<notin> set (ss_key_prefix sample_settings)" by (simp add: sample_settings_def)
  from stored_keys_deletable [OF r this] have
    "delete_key memory_client sample_settings ''b'' (or_key r) = delete_object memory_client ''b'' (or_key r)"
    by (simp add: contains_dots_def)
  with r show ?thesis by (simp add: memory_client_def)
qed

definition sample_reference :: ObjectReference where
  "sample_reference = \<lparr>or_key = ''k'', or_checksum_sha256 = sample_digest [7], or_metadata = [(''a'', ''b'')]\<rparr>"

lemma memory_truthful: "reports_truthfully memory_client ''b'' sample_digest (\<lambda>y. fst y)"
  unfolding reports_truthfully_def
proof (intro allI impI)
  fix k y r y1 assume a: "head_object memory_client ''b'' k y = (Inr r, y1)"
  obtain c where "fst y k = Some c" using a by (cases "fst y k") (simp_all add: memory_client_def)
  moreover obtain h where "checksum_header_value (sample_digest (fst c)) = Inr h" using digest_header by blast
  ultimately show "\<exists>content m. fst y1 k = Some (content, m) \<and> hr_content_length r = Some (int (length content))
      \<and> (\<forall>h. hr_checksum_sha256 r = Some h \<longrightarrow> checksum_header_value (sample_digest content) = Inr h)
      \<and> hr_metadata r = Some m"
    using a by (cases c) (auto simp: memory_client_def)
qed

lemma sample_upload:
  "\<exists>md y1. upload_file memory_client sample_settings ''b'' sample_reference [7] ''application/json'' 5 (Map.empty, [])
     = (Inr md, y1)"
proof -
  obtain h where h: "checksum_header_value (sample_digest [7]) = Inr h" using digest_header by blast
  have d: "(int (length [7 :: 8 word]) > 5) = False" by simp
  show ?thesis
    unfolding upload_file_def upload_object_def verify_object_def Let_def d
    by (simp add: bind_io_def lift_res_def return_io_def sample_reference_def memory_client_def h
        presign_parameters_def same_dict_def)
qed

theorem uploaded_object_intact_witness:
  "\<exists>md y1 content m. upload_file memory_client sample_settings ''b'' sample_reference [7] ''application/json'' 5 (Map.empty, [])
      = (Inr md, y1) \<and> fst y1 ''k'' = Some (content, m) \<and> sample_digest content = sample_digest [7] \<and> length content = 1"
proof -
  obtain md y1 where u: "upload_file memory_client sample_settings ''b'' sample_reference [7] ''application/json'' 5 (Map.empty, [])
      = (Inr md, y1)" using sample_upload by blast
  have "is_sha256 (or_checksum_sha256 sample_reference)" "\<forall>c. is_sha256 (sample_digest c)"
    by (simp_all add: sample_reference_def is_sha256_digest)
  from uploaded_object_intact [OF memory_truthful this u] u show ?thesis
    by (fastforce simp: sample_reference_def)
qed

theorem download_bounded_witness:
  "\<exists>y1. download_object memory_client sample_digest ''b'' sample_reference 5 ([''k'' \<mapsto> ([7], [])], []) = (Inr ([7], 1), y1)
    \<and> sample_digest [7] = or_checksum_sha256 sample_reference"
proof -
  have "(1 :: int) \<le> 5" by simp
  note b = download_bounded [OF this, where client = memory_client and y = "([''k'' \<mapsto> ([7], [])], [])"
      and ?sha256.0 = sample_digest and bucket = "''b''" and reference = sample_reference]
  have "\<exists>y1. download_object memory_client sample_digest ''b'' sample_reference 5 ([''k'' \<mapsto> ([7], [])], []) = (Inr ([7], 1), y1)"
    by (simp add: download_object_def bind_io_def memory_client_def sample_reference_def download_loop.simps)
  with b show ?thesis by auto
qed

end
