(* ===== verification/Native_Parser.thy ===== *)
theory Native_Parser
  imports Chunking
begin

text \<open>
  \<open>ingestion/parser.py\<close>: the inspection of a PDF file and the extraction of its pages. What the PDF
  library gives for an opened file is a record: the catalog, the pages, and per page the length of its
  content stream and the text runs its extraction hands to the visitor. A float that is not finite is
  \<open>None\<close>. The page sink may raise.
\<close>

section \<open>What the PDF library returns\<close>

datatype pdf_object =
    PdfDict "(string \<times> pdf_object) list"
  | PdfRef "py_error + pdf_object"
  | PdfOther string

record text_run =
  tr_text :: string
  tr_text_matrix :: "rat option list"
  tr_font_size :: "rat option"

text \<open>\<open>pg_contents\<close> is the length of the data of \<open>get_contents()\<close>; \<open>pg_runs\<close> are the calls of the visitor
  that \<open>extract_text\<close> makes before it returns or raises \<open>pg_text\<close>.\<close>

record pdf_page =
  pg_object :: pdf_object
  pg_contents :: "int option res"
  pg_runs :: "text_run list"
  pg_text :: "string option res"

record pdf_reader =
  rd_encrypted :: "bool res"
  rd_pages :: "pdf_page list res"
  rd_root :: "pdf_object res"

section \<open>Active content\<close>

text \<open>\<open>_resolve_mapping\<close>; an absent entry is \<open>None\<close>.\<close>

fun resolve_mapping :: "pdf_object option \<Rightarrow> (string \<times> pdf_object) list res" where
  "resolve_mapping None = Inr []"
| "resolve_mapping (Some (PdfDict m)) = Inr m"
| "resolve_mapping (Some (PdfOther t)) = Inr []"
| "resolve_mapping (Some (PdfRef (Inl e))) = Inl e"
| "resolve_mapping (Some (PdfRef (Inr (PdfDict m)))) = Inr m"
| "resolve_mapping (Some (PdfRef (Inr t))) = Inr []"

definition active_actions :: "string set" where
  "active_actions = {''/JavaScript'', ''/URI'', ''/Launch'', ''/SubmitForm''}"

text \<open>\<open>str(action.get("/S"))\<close> is the name for a name object; the texts of other objects are no names.\<close>

fun is_active_action :: "(string \<times> pdf_object) list \<Rightarrow> bool" where
  "is_active_action action =
     (case map_of action ''/S'' of Some (PdfOther t) \<Rightarrow> t \<in> active_actions | _ \<Rightarrow> False)"

fun any_active :: "pdf_object option list \<Rightarrow> bool res" where
  "any_active [] = Inr False"
| "any_active (unresolved # actions) =
     bind_res (resolve_mapping unresolved) (\<lambda>action.
       if is_active_action action then Inr True else any_active actions)"

definition page_actions :: "pdf_page \<Rightarrow> pdf_object option list res" where
  "page_actions page =
     bind_res (resolve_mapping (Some (pg_object page))) (\<lambda>m.
       Inr [map_of m ''/AA'', map_of m ''/OpenAction''])"

definition has_active_or_embedded_content :: "pdf_reader \<Rightarrow> bool res" where
  "has_active_or_embedded_content reader =
     bind_res (rd_root reader) (\<lambda>root_object.
     bind_res (resolve_mapping (Some root_object)) (\<lambda>root.
     bind_res (resolve_mapping (map_of root ''/Names'')) (\<lambda>names.
       if map_of names ''/EmbeddedFiles'' \<noteq> None then Inr True
       else bind_res (rd_pages reader) (\<lambda>pages.
            bind_res (map_res page_actions pages) (\<lambda>pas.
              any_active ([map_of root ''/OpenAction'', map_of root ''/AA''] @ concat pas))))))"

section \<open>Text of a page\<close>

definition text_bounds :: "rat option list \<Rightarrow> rat option \<Rightarrow> string \<Rightarrow> Bounds option" where
  "text_bounds text_matrix font_size t =
     (case font_size of
        None \<Rightarrow> None
      | Some points \<Rightarrow>
          if length text_matrix < 6 then None
          else (case (text_matrix ! 4, text_matrix ! 5) of
                  (Some left, Some bottom) \<Rightarrow>
                    (let height = max points 0;
                         approximate_width = of_int (max (int (length t)) 1) * height * (1 / 2)
                     in Some \<lparr>bd_left = left, bd_bottom = bottom, bd_right = left + approximate_width,
                              bd_top = bottom + height\<rparr>)
                | _ \<Rightarrow> None))"

text \<open>\<open>round(x, 4)\<close> to the nearest, ties to the even digit.\<close>

definition round4 :: "rat \<Rightarrow> rat" where
  "round4 x =
     (let y = x * 10000; f = \<lfloor>y\<rfloor>; d = y - of_int f
      in of_int (if d < 1 / 2 \<or> (d = 1 / 2 \<and> even f) then f else f + 1) / 10000)"

text \<open>\<open>str.isprintable\<close> and \<open>str.isalpha\<close> for code points up to 255.\<close>

definition is_printable :: "char \<Rightarrow> bool" where
  "is_printable c \<longleftrightarrow> (let n = (of_char c :: nat) in 32 \<le> n \<and> n \<le> 126 \<or> 161 \<le> n \<and> n \<noteq> 173)"

definition is_ascii_char :: "char \<Rightarrow> bool" where
  "is_ascii_char c \<longleftrightarrow> (of_char c :: nat) < 128"

definition is_alpha :: "char \<Rightarrow> bool" where
  "is_alpha c \<longleftrightarrow> (let n = (of_char c :: nat) in
     65 \<le> n \<and> n \<le> 90 \<or> 97 \<le> n \<and> n \<le> 122 \<or> n = 170 \<or> n = 181 \<or> n = 186
     \<or> 192 \<le> n \<and> n \<noteq> 215 \<and> n \<noteq> 247)"

definition quality_score :: "string \<Rightarrow> rat" where
  "quality_score t =
     (if t = [] then 0
      else round4 (of_nat (length (filter is_printable t)) / of_nat (length t)))"

definition language_hint :: "string \<Rightarrow> string" where
  "language_hint t =
     (let letters = filter is_alpha t
      in if letters = [] then ''und''
         else if (of_nat (length (filter is_ascii_char letters)) :: rat) / of_nat (length letters) \<ge> 8 / 10
         then ''en'' else ''und'')"

definition route_of :: "int \<Rightarrow> int \<Rightarrow> DocumentRoute" where
  "route_of native_page_count page_count =
     (if native_page_count = 0 then ROUTE_OCR
      else if native_page_count < page_count then ROUTE_MIXED else ROUTE_NATIVE)"

section \<open>Extraction\<close>

text \<open>\<open>collect_block\<close>.\<close>

definition collect_block :: "int \<Rightarrow> text_run \<Rightarrow> TextBlock list \<Rightarrow> TextBlock list res" where
  "collect_block max_blocks run blocks =
     (let normalized_text = py_strip (tr_text run)
      in if normalized_text = [] then Inr blocks
         else if int (length blocks) \<ge> max_blocks
         then Inl (TerminalIngestionError FAILED ''PROCESSING_RESOURCE_LIMIT_EXCEEDED'')
         else Inr (blocks @
           [\<lparr>tb_ordinal = int (length blocks), tb_text = normalized_text,
             tb_bounds = text_bounds (tr_text_matrix run) (tr_font_size run) normalized_text\<rparr>]))"

record 'w extraction =
  ex_native_page_count :: int
  ex_extracted_text_chars :: int
  ex_ocr_page_numbers :: "int list"
  ex_ocr_required :: bool
  ex_sink :: 'w

definition extracted_page :: "IngestionPolicySettings \<Rightarrow> int \<Rightarrow> TextBlock list \<Rightarrow> string \<Rightarrow> NormalizedPage" where
  "extracted_page policy page_number blocks t =
     (let below = int (length t) < po_native_min_text_chars_per_page policy
      in \<lparr>np_page_number = page_number, np_origin = (if below then PO_OCR else PO_NATIVE), np_text = t,
          np_blocks = blocks, np_language_hint = language_hint t, np_quality_score = quality_score t,
          np_warnings = (if below then [''NATIVE_TEXT_BELOW_THRESHOLD''] else [])\<rparr>)"

text \<open>The body of the loop over the pages.\<close>

definition extract_page ::
  "IngestionPolicySettings \<Rightarrow> (NormalizedPage \<Rightarrow> 'w \<Rightarrow> 'w res) \<Rightarrow> int \<times> pdf_page \<Rightarrow> 'w extraction \<Rightarrow> 'w extraction res" where
  "extract_page policy page_sink = (\<lambda>(page_number, page) st.
     bind_res (pg_contents page) (\<lambda>contents.
     if (case contents of Some n \<Rightarrow> n > po_pdf_max_content_stream_bytes_per_page policy | None \<Rightarrow> False)
     then Inl (TerminalIngestionError FAILED ''PROCESSING_RESOURCE_LIMIT_EXCEEDED'')
     else bind_res (fold_res (collect_block (po_native_max_blocks_per_page policy)) (pg_runs page) []) (\<lambda>blocks.
     bind_res (pg_text page) (\<lambda>raw.
     let extracted_text = py_strip (case raw of Some t \<Rightarrow> t | None \<Rightarrow> []);
         chars = ex_extracted_text_chars st + int (length extracted_text);
         page_out = extracted_page policy page_number blocks extracted_text
     in if chars > po_extracted_text_max_chars policy
        then Inl (TerminalIngestionError FAILED ''PROCESSING_OUTPUT_LIMIT_EXCEEDED'')
        else bind_res (new_page page_out) (\<lambda>valid.
             bind_res (page_sink valid (ex_sink st)) (\<lambda>w.
             Inr (if np_origin page_out = PO_OCR
                  then st\<lparr>ex_extracted_text_chars := chars,
                          ex_ocr_page_numbers := ex_ocr_page_numbers st @ [page_number],
                          ex_ocr_required := True, ex_sink := w\<rparr>
                  else st\<lparr>ex_extracted_text_chars := chars,
                          ex_native_page_count := ex_native_page_count st + 1, ex_sink := w\<rparr>)))))))"

definition extract_pages ::
  "string \<Rightarrow> string \<Rightarrow> pdf_page list \<Rightarrow> IngestionPolicySettings \<Rightarrow> (NormalizedPage \<Rightarrow> 'w \<Rightarrow> 'w res) \<Rightarrow> 'w
   \<Rightarrow> (InspectionReport \<times> 'w) res" where
  "extract_pages name parser_version pages policy page_sink w =
     bind_res (fold_res (extract_page policy page_sink) (zip (map int [1..<Suc (length pages)]) pages)
       \<lparr>ex_native_page_count = 0, ex_extracted_text_chars = 0, ex_ocr_page_numbers = [],
        ex_ocr_required = False, ex_sink = w\<rparr>) (\<lambda>st.
     bind_res (new_inspection
       \<lparr>ir_parser_name = name, ir_parser_version = parser_version, ir_page_count = int (length pages),
        ir_route = route_of (ex_native_page_count st) (int (length pages)),
        ir_native_page_count = ex_native_page_count st,
        ir_ocr_page_numbers = ex_ocr_page_numbers st,
        ir_extracted_text_chars = ex_extracted_text_chars st,
        ir_warnings = (if ex_ocr_required st then [''OCR_REQUIRED''] else [])\<rparr>) (\<lambda>report.
     Inr (report, ex_sink st)))"

section \<open>\<open>PypdfNativeParser.parse\<close>\<close>

text \<open>The body of the \<open>try\<close>; \<open>opened\<close> is the result of the constructor of the reader.\<close>

definition parse_opened ::
  "string \<Rightarrow> string \<Rightarrow> pdf_reader res \<Rightarrow> IngestionPolicySettings \<Rightarrow> (NormalizedPage \<Rightarrow> 'w \<Rightarrow> 'w res) \<Rightarrow> 'w
   \<Rightarrow> (InspectionReport \<times> 'w) res" where
  "parse_opened name parser_version opened policy page_sink w =
     bind_res opened (\<lambda>reader.
     bind_res (rd_encrypted reader) (\<lambda>is_encrypted.
     if is_encrypted then Inl (TerminalIngestionError REJECTED ''PDF_ENCRYPTED_UNSUPPORTED'')
     else bind_res (rd_pages reader) (\<lambda>pages.
       if int (length pages) < 1 then Inl (TerminalIngestionError FAILED ''PDF_MALFORMED'')
       else if int (length pages) > po_pdf_max_pages policy
       then Inl (TerminalIngestionError REJECTED ''PDF_PAGE_LIMIT_EXCEEDED'')
       else bind_res (has_active_or_embedded_content reader) (\<lambda>active.
         if active then Inl (TerminalIngestionError QUARANTINED ''ACTIVE_CONTENT_DETECTED'')
         else extract_pages name parser_version pages policy page_sink w))))"

text \<open>\<open>except (PdfReadError, KeyError, TypeError, ValueError)\<close>.\<close>

fun is_malformed :: "py_error \<Rightarrow> bool" where
  "is_malformed (KeyError _) = True"
| "is_malformed (UnexpectedError kind) = (kind \<in> {''PdfReadError'', ''TypeError''})"
| "is_malformed e = is_ValueError e"

definition parse_pdf ::
  "string \<Rightarrow> string \<Rightarrow> pdf_reader res \<Rightarrow> IngestionPolicySettings \<Rightarrow> (NormalizedPage \<Rightarrow> 'w \<Rightarrow> 'w res) \<Rightarrow> 'w
   \<Rightarrow> (InspectionReport \<times> 'w) res" where
  "parse_pdf name parser_version opened policy page_sink w =
     (case parse_opened name parser_version opened policy page_sink w of
        Inr r \<Rightarrow> Inr r
      | Inl (TerminalIngestionError state reason) \<Rightarrow> Inl (TerminalIngestionError state reason)
      | Inl e \<Rightarrow> if is_malformed e then Inl (TerminalIngestionError FAILED ''PDF_MALFORMED'') else Inl e)"

section \<open>Pages and report\<close>

lemma round4_unit:
  assumes "0 \<le> x" "x \<le> 1"
  shows "0 \<le> round4 x \<and> round4 x \<le> 1"
proof -
  define f where "f = \<lfloor>x * 10000\<rfloor>"
  have y: "0 \<le> x * 10000" "x * 10000 \<le> 10000" using assms by simp_all
  then have f: "0 \<le> f" "f \<le> 10000" unfolding f_def by linarith+
  have top: "f + 1 \<le> 10000" if "\<not> (x * 10000 - of_int f < 1 / 2 \<or> x * 10000 - of_int f = 1 / 2 \<and> even f)"
  proof (rule ccontr)
    assume "\<not> f + 1 \<le> 10000"
    with f have "f = 10000" by linarith
    with y that show False by simp
  qed
  define n where "n = (if x * 10000 - of_int f < 1 / 2 \<or> x * 10000 - of_int f = 1 / 2 \<and> even f then f else f + 1)"
  have n: "0 \<le> n" "n \<le> 10000" using f top by (auto simp: n_def)
  have "round4 x = of_int n / 10000" by (simp add: round4_def Let_def f_def [symmetric] n_def)
  moreover have "(of_int n :: rat) \<le> of_int 10000" "(of_int 0 :: rat) \<le> of_int n" using n by (simp_all only: of_int_le_iff)
  ultimately show ?thesis by simp
qed

lemma quality_score_unit: "0 \<le> quality_score t \<and> quality_score t \<le> 1"
proof (cases "t = []")
  case False
  have "(of_nat (length (filter is_printable t)) :: rat) \<le> of_nat (length t)" by simp
  with False show ?thesis unfolding quality_score_def
    by (auto intro!: round4_unit [THEN conjunct1] round4_unit [THEN conjunct2] simp: divide_le_eq)
qed (simp add: quality_score_def)

lemma quality_score_bounds [simp]: "\<not> quality_score t < 0" "\<not> 1 < quality_score t"
  using quality_score_unit [of t] by (simp_all add: not_less)

text \<open>What an extracted page looks like: the text decides the origin and the warning, and the blocks are
  numbered, not blank and within the limit.\<close>

definition page_ok :: "IngestionPolicySettings \<Rightarrow> NormalizedPage \<Rightarrow> bool" where
  "page_ok policy p \<longleftrightarrow>
     np_origin p = (if int (length (np_text p)) < po_native_min_text_chars_per_page policy then PO_OCR else PO_NATIVE)
     \<and> np_warnings p = (if np_origin p = PO_OCR then [''NATIVE_TEXT_BELOW_THRESHOLD''] else [])
     \<and> map tb_ordinal (np_blocks p) = map int [0..<length (np_blocks p)]
     \<and> (\<forall>b \<in> set (np_blocks p). tb_text b \<noteq> [])
     \<and> (np_blocks p \<noteq> [] \<longrightarrow> int (length (np_blocks p)) \<le> po_native_max_blocks_per_page policy)
     \<and> 0 \<le> np_quality_score p \<and> np_quality_score p \<le> 1"

lemma collect_blocks:
  assumes "fold_res (collect_block m) runs blocks = Inr blocks'"
    and "map tb_ordinal blocks = map int [0..<length blocks]" "\<forall>b \<in> set blocks. tb_text b \<noteq> []"
    and "blocks \<noteq> [] \<longrightarrow> int (length blocks) \<le> m"
  shows "map tb_ordinal blocks' = map int [0..<length blocks'] \<and> (\<forall>b \<in> set blocks'. tb_text b \<noteq> [])
    \<and> (blocks' \<noteq> [] \<longrightarrow> int (length blocks') \<le> m)"
proof (rule fold_res_invariant [OF assms(1)])
  fix run bs bs' assume ok: "map tb_ordinal bs = map int [0..<length bs] \<and> (\<forall>b \<in> set bs. tb_text b \<noteq> [])
    \<and> (bs \<noteq> [] \<longrightarrow> int (length bs) \<le> m)" and c: "collect_block m run bs = Inr bs'"
  from c consider "bs' = bs" | b where "bs' = bs @ [b]" "tb_ordinal b = int (length bs)" "tb_text b \<noteq> []" "int (length bs) < m"
    by (auto simp: collect_block_def Let_def split: if_splits)
  then show "map tb_ordinal bs' = map int [0..<length bs'] \<and> (\<forall>b \<in> set bs'. tb_text b \<noteq> [])
    \<and> (bs' \<noteq> [] \<longrightarrow> int (length bs') \<le> m)"
    using ok by cases auto
qed (use assms in blast)

lemma extract_page_Inr:
  assumes "extract_page policy sink (n, page) st = Inr st'" and "1 \<le> n"
  obtains p where "np_page_number p = n" "page_ok policy p" "sink p (ex_sink st) = Inr (ex_sink st')"
    "ex_native_page_count st' = ex_native_page_count st + (if np_origin p = PO_NATIVE then 1 else 0)"
    "ex_ocr_page_numbers st' = ex_ocr_page_numbers st @ (if np_origin p = PO_OCR then [n] else [])"
    "ex_extracted_text_chars st' = ex_extracted_text_chars st + int (length (np_text p))"
    "ex_extracted_text_chars st' \<le> po_extracted_text_max_chars policy"
    "ex_ocr_required st' = (ex_ocr_required st \<or> np_origin p = PO_OCR)"
proof -
  from assms(1) obtain blocks raw w where b: "fold_res (collect_block (po_native_max_blocks_per_page policy)) (pg_runs page) [] = Inr blocks"
    and w: "sink (extracted_page policy n blocks (py_strip (case raw of Some t \<Rightarrow> t | None \<Rightarrow> []))) (ex_sink st) = Inr w"
    and lim: "ex_extracted_text_chars st + int (length (py_strip (case raw of Some t \<Rightarrow> t | None \<Rightarrow> []))) \<le> po_extracted_text_max_chars policy"
    and st': "st' = (if np_origin (extracted_page policy n blocks (py_strip (case raw of Some t \<Rightarrow> t | None \<Rightarrow> []))) = PO_OCR
        then st\<lparr>ex_extracted_text_chars := ex_extracted_text_chars st + int (length (py_strip (case raw of Some t \<Rightarrow> t | None \<Rightarrow> []))),
                ex_ocr_page_numbers := ex_ocr_page_numbers st @ [n], ex_ocr_required := True, ex_sink := w\<rparr>
        else st\<lparr>ex_extracted_text_chars := ex_extracted_text_chars st + int (length (py_strip (case raw of Some t \<Rightarrow> t | None \<Rightarrow> []))),
                ex_native_page_count := ex_native_page_count st + 1, ex_sink := w\<rparr>)"
    unfolding extract_page_def prod.case Let_def
    by (elim bind_res_InrE) (auto simp: new_page_def split: if_splits elim!: bind_res_InrE)
  define t where "t = py_strip (case raw of Some t \<Rightarrow> t | None \<Rightarrow> [])"
  define p where "p = extracted_page policy n blocks t"
  note w' = w [folded t_def p_def] and lim' = lim [folded t_def] and st'' = st' [folded t_def, folded p_def]
  have f: "np_page_number p = n" "np_text p = t" "np_blocks p = blocks" "np_quality_score p = quality_score t"
    "np_origin p = (if int (length t) < po_native_min_text_chars_per_page policy then PO_OCR else PO_NATIVE)"
    "np_warnings p = (if np_origin p = PO_OCR then [''NATIVE_TEXT_BELOW_THRESHOLD''] else [])"
    by (simp_all add: p_def extracted_page_def Let_def)
  have "page_ok policy p"
    unfolding page_ok_def using f quality_score_unit [of t] collect_blocks [OF b] by simp
  with that [of p] f w' lim' st'' show thesis by (auto split: if_splits)
qed

lemma extract_fold:
  assumes "fold_res (extract_page policy sink) (zip (map int [k..<k + length pages]) pages) st = Inr st'" and "1 \<le> k"
    and "ex_extracted_text_chars st \<le> po_extracted_text_max_chars policy"
  shows "\<exists>ps. length ps = length pages \<and> numbered (int k) ps \<and> (\<forall>p \<in> set ps. page_ok policy p)
    \<and> fold_res sink ps (ex_sink st) = Inr (ex_sink st')
    \<and> ex_native_page_count st' = ex_native_page_count st + int (length (filter (\<lambda>p. np_origin p = PO_NATIVE) ps))
    \<and> ex_ocr_page_numbers st' = ex_ocr_page_numbers st @ map np_page_number (filter (\<lambda>p. np_origin p = PO_OCR) ps)
    \<and> ex_extracted_text_chars st' = ex_extracted_text_chars st + (\<Sum>p\<leftarrow>ps. int (length (np_text p)))
    \<and> ex_extracted_text_chars st' \<le> po_extracted_text_max_chars policy
    \<and> ex_ocr_required st' = (ex_ocr_required st \<or> (\<exists>p \<in> set ps. np_origin p = PO_OCR))"
  using assms
proof (induction pages arbitrary: k st)
  case Nil
  then show ?case by simp
next
  case (Cons page pages)
  have z: "zip (map int [k..<k + length (page # pages)]) (page # pages)
      = (int k, page) # zip (map int [Suc k..<Suc k + length pages]) pages"
    by (subst upt_conv_Cons) (simp_all del: upt_Suc)
  from Cons.prems(1) [unfolded z fold_res.simps] obtain st1 where st1: "extract_page policy sink (int k, page) st = Inr st1"
    and rest: "fold_res (extract_page policy sink) (zip (map int [Suc k..<Suc k + length pages]) pages) st1 = Inr st'"
    by (elim bind_res_InrE)
  from Cons.prems(2) have "1 \<le> int k" by simp
  from extract_page_Inr [OF st1 this] obtain p where p: "np_page_number p = int k" "page_ok policy p"
    "sink p (ex_sink st) = Inr (ex_sink st1)"
    "ex_native_page_count st1 = ex_native_page_count st + (if np_origin p = PO_NATIVE then 1 else 0)"
    "ex_ocr_page_numbers st1 = ex_ocr_page_numbers st @ (if np_origin p = PO_OCR then [int k] else [])"
    "ex_extracted_text_chars st1 = ex_extracted_text_chars st + int (length (np_text p))"
    "ex_extracted_text_chars st1 \<le> po_extracted_text_max_chars policy"
    "ex_ocr_required st1 = (ex_ocr_required st \<or> np_origin p = PO_OCR)" by blast
  have "1 \<le> Suc k" by simp
  from Cons.IH [OF rest this p(7)] obtain ps where ps: "length ps = length pages" "numbered (int (Suc k)) ps"
    "\<forall>p \<in> set ps. page_ok policy p" "fold_res sink ps (ex_sink st1) = Inr (ex_sink st')"
    "ex_native_page_count st' = ex_native_page_count st1 + int (length (filter (\<lambda>p. np_origin p = PO_NATIVE) ps))"
    "ex_ocr_page_numbers st' = ex_ocr_page_numbers st1 @ map np_page_number (filter (\<lambda>p. np_origin p = PO_OCR) ps)"
    "ex_extracted_text_chars st' = ex_extracted_text_chars st1 + (\<Sum>p\<leftarrow>ps. int (length (np_text p)))"
    "ex_extracted_text_chars st' \<le> po_extracted_text_max_chars policy"
    "ex_ocr_required st' = (ex_ocr_required st1 \<or> (\<exists>p \<in> set ps. np_origin p = PO_OCR))" by blast
  show ?case
    using p ps by (intro exI [of _ "p # ps"]) (auto simp: add.commute)
qed

lemma page_ok_origin: "page_ok policy p \<Longrightarrow> np_origin p = PO_NATIVE \<or> np_origin p = PO_OCR"
  by (simp add: page_ok_def)

lemma origin_counts:
  "\<forall>p \<in> set ps. page_ok policy p \<Longrightarrow>
     length (filter (\<lambda>p. np_origin p = PO_NATIVE) ps) + length (filter (\<lambda>p. np_origin p = PO_OCR) ps) = length ps"
  by (induction ps) (auto dest: page_ok_origin)

lemma origin_none:
  "\<forall>p \<in> set ps. page_ok policy p \<Longrightarrow>
     (filter (\<lambda>p. np_origin p = PO_NATIVE) ps = [] \<longleftrightarrow> (\<forall>p \<in> set ps. np_origin p = PO_OCR))
     \<and> (filter (\<lambda>p. np_origin p = PO_OCR) ps = [] \<longleftrightarrow> (\<forall>p \<in> set ps. np_origin p = PO_NATIVE))"
  by (induction ps) (auto dest: page_ok_origin)

lemma parse_pdf_Inr:
  assumes "parse_pdf name ver opened policy sink w = Inr (report, w')"
  obtains reader pages where "opened = Inr reader" "rd_encrypted reader = Inr False" "rd_pages reader = Inr pages"
    "1 \<le> int (length pages)" "int (length pages) \<le> po_pdf_max_pages policy"
    "has_active_or_embedded_content reader = Inr False"
    "extract_pages name ver pages policy sink w = Inr (report, w')"
proof -
  from assms have "parse_opened name ver opened policy sink w = Inr (report, w')"
    by (simp add: parse_pdf_def split: sum.splits py_error.splits if_splits)
  then show thesis
    unfolding parse_opened_def
    by (elim bind_res_InrE) (auto split: if_splits elim!: bind_res_InrE intro!: that simp: Suc_le_eq)
qed

lemma parse_pdf_pages:
  assumes "parse_pdf name parser_version opened policy page_sink w = Inr (report, w')"
    and "0 \<le> po_extracted_text_max_chars policy"
  shows "\<exists>reader pages ps. opened = Inr reader \<and> rd_encrypted reader = Inr False \<and> rd_pages reader = Inr pages
    \<and> fold_res page_sink ps w = Inr w' \<and> numbered 1 ps \<and> (\<forall>p \<in> set ps. page_ok policy p)
    \<and> length ps = length pages \<and> ir_page_count report = int (length ps)
    \<and> 1 \<le> ir_page_count report \<and> ir_page_count report \<le> po_pdf_max_pages policy
    \<and> ir_ocr_page_numbers report = map np_page_number (filter (\<lambda>p. np_origin p = PO_OCR) ps)
    \<and> ir_native_page_count report + int (length (ir_ocr_page_numbers report)) = ir_page_count report
    \<and> ir_extracted_text_chars report = (\<Sum>p\<leftarrow>ps. int (length (np_text p)))
    \<and> ir_extracted_text_chars report \<le> po_extracted_text_max_chars policy
    \<and> (ir_route report = ROUTE_NATIVE \<longleftrightarrow> (\<forall>p \<in> set ps. np_origin p = PO_NATIVE))
    \<and> (ir_route report = ROUTE_OCR \<longleftrightarrow> (\<forall>p \<in> set ps. np_origin p = PO_OCR))"
proof -
  from assms(1) obtain reader pages where r: "opened = Inr reader" "rd_encrypted reader = Inr False" "rd_pages reader = Inr pages"
    "1 \<le> int (length pages)" "int (length pages) \<le> po_pdf_max_pages policy"
    and e: "extract_pages name parser_version pages policy page_sink w = Inr (report, w')"
    by (rule parse_pdf_Inr)
  let ?st = "\<lparr>ex_native_page_count = 0, ex_extracted_text_chars = 0, ex_ocr_page_numbers = [],
     ex_ocr_required = False, ex_sink = w\<rparr>"
  from e obtain st where st: "fold_res (extract_page policy page_sink) (zip (map int [1..<1 + length pages]) pages) ?st = Inr st"
    and w': "w' = ex_sink st" and rep: "ir_page_count report = int (length pages)"
      "ir_route report = route_of (ex_native_page_count st) (int (length pages))"
      "ir_native_page_count report = ex_native_page_count st" "ir_ocr_page_numbers report = ex_ocr_page_numbers st"
      "ir_extracted_text_chars report = ex_extracted_text_chars st"
    unfolding extract_pages_def by (elim bind_res_InrE) (auto simp: new_inspection_def split: if_splits)
  from extract_fold [OF st] assms(2) obtain ps where ps: "length ps = length pages" "numbered 1 ps"
    "\<forall>p \<in> set ps. page_ok policy p" "fold_res page_sink ps w = Inr w'"
    "ex_native_page_count st = int (length (filter (\<lambda>p. np_origin p = PO_NATIVE) ps))"
    "ex_ocr_page_numbers st = map np_page_number (filter (\<lambda>p. np_origin p = PO_OCR) ps)"
    "ex_extracted_text_chars st = (\<Sum>p\<leftarrow>ps. int (length (np_text p)))"
    "ex_extracted_text_chars st \<le> po_extracted_text_max_chars policy" unfolding w' by auto
  note counts = origin_counts [OF ps(3)] and none = origin_none [OF ps(3)]
  have route: "(ir_route report = ROUTE_OCR \<longleftrightarrow> (\<forall>p \<in> set ps. np_origin p = PO_OCR))
    \<and> (ir_route report = ROUTE_NATIVE \<longleftrightarrow> (\<forall>p \<in> set ps. np_origin p = PO_NATIVE))"
  proof -
    let ?n = "length (filter (\<lambda>p. np_origin p = PO_NATIVE) ps)"
    have all: "filter (\<lambda>p. np_origin p = PO_OCR) ps = [] \<longleftrightarrow> ?n = length ps"
      unfolding counts [symmetric] by simp
    have "?n = 0 \<longleftrightarrow> (\<forall>p \<in> set ps. np_origin p = PO_OCR)" unfolding length_0_conv using none by blast
    moreover have "?n = length ps \<longleftrightarrow> (\<forall>p \<in> set ps. np_origin p = PO_NATIVE)" using none all by blast
    moreover have "?n \<le> length ps" by simp
    moreover have "0 < length ps" using r(4) ps(1) by linarith
    moreover have "ir_route report = (if ?n = 0 then ROUTE_OCR else if ?n < length ps then ROUTE_MIXED else ROUTE_NATIVE)"
      unfolding rep(2) ps(5) ps(1) [symmetric] route_of_def of_nat_eq_0_iff of_nat_less_iff ..
    ultimately show ?thesis by (metis DocumentRoute.distinct le_neq_implies_less less_irrefl)
  qed
  have "ir_native_page_count report + int (length (ir_ocr_page_numbers report)) = ir_page_count report"
    unfolding rep ps(5,6) length_map of_nat_add [symmetric] counts ps(1) ..
  with r ps rep route show ?thesis by (intro exI [of _ reader] exI [of _ pages] exI [of _ ps]) simp
qed

text \<open>C19: an accepted PDF gives the sink one page per page of the file, numbered from 1, each native or
  in need of recognition by the length of its text alone; the report counts exactly those pages, lists
  exactly the pages in need of recognition, stays within the page and output limits, and routes the
  document to recognition, to both or to none accordingly.\<close>

theorem parse_pdf_sound:
  assumes "parse_pdf name parser_version opened policy page_sink w = Inr (report, w')"
    and "0 \<le> po_extracted_text_max_chars policy"
  shows "\<exists>reader pages ps. opened = Inr reader \<and> rd_encrypted reader = Inr False \<and> rd_pages reader = Inr pages
    \<and> fold_res page_sink ps w = Inr w' \<and> numbered 1 ps \<and> (\<forall>p \<in> set ps. page_ok policy p)
    \<and> length ps = length pages \<and> ir_page_count report = int (length ps)
    \<and> 1 \<le> ir_page_count report \<and> ir_page_count report \<le> po_pdf_max_pages policy
    \<and> ir_ocr_page_numbers report = map np_page_number (filter (\<lambda>p. np_origin p = PO_OCR) ps)
    \<and> ir_native_page_count report + int (length (ir_ocr_page_numbers report)) = ir_page_count report
    \<and> ir_extracted_text_chars report = (\<Sum>p\<leftarrow>ps. int (length (np_text p)))
    \<and> ir_extracted_text_chars report \<le> po_extracted_text_max_chars policy
    \<and> (ir_route report = ROUTE_NATIVE \<longleftrightarrow> (\<forall>p \<in> set ps. np_origin p = PO_NATIVE))
    \<and> (ir_route report = ROUTE_OCR \<longleftrightarrow> (\<forall>p \<in> set ps. np_origin p = PO_OCR))"
  by (rule parse_pdf_pages [OF assms])

section \<open>The artifact of a parsed document\<close>

lemma page_ok_valid:
  assumes "page_ok policy p" and "1 \<le> np_page_number p"
  shows "valid_page p"
proof -
  have "0 \<le> tb_ordinal b" if "b \<in> set (np_blocks p)" for b
  proof -
    from that have "tb_ordinal b \<in> set (map tb_ordinal (np_blocks p))" by simp
    with assms(1) show ?thesis unfolding page_ok_def by auto
  qed
  with assms show ?thesis by (simp add: valid_page_def page_ok_def)
qed

text \<open>C20: parsing into the page writer and finishing the artifact composes. The pages the parser gave the writer,
  one per page of the file, numbered from 1, are exactly the pages the reader later reads from the finished file
  under the version of the document, and they carry the page count, the native count and the pages in need of
  recognition of the inspection report. Of the page model only this is asked: a page within the constraints its
  fields declare survives the dump and the validation, and the validation yields no other page.\<close>

theorem parsed_artifact_reads_back:
  assumes "parse_pdf name parser_version opened policy (\<lambda>p w. Inr (write_page dump p w))
      (page_writer v name parser_version) = Inr (report, writer)"
    and "0 \<le> po_extracted_text_max_chars policy" and "page_codec dump validate"
  shows "\<exists>reader pages ps lines. opened = Inr reader \<and> rd_pages reader = Inr pages \<and> length ps = length pages
    \<and> fold_res (\<lambda>p w. Inr (write_page dump p w)) ps (page_writer v name parser_version) = (Inr writer :: PageArtifactWriter res)
    \<and> finish_pages report writer = Inr lines \<and> iter_page_artifact validate lines v = (ps, None)
    \<and> numbered 1 ps \<and> int (length ps) = ir_page_count report
    \<and> int (length (filter (\<lambda>p. np_origin p = PO_NATIVE) ps)) = ir_native_page_count report
    \<and> map np_page_number (filter (\<lambda>p. np_origin p = PO_OCR) ps) = ir_ocr_page_numbers report"
proof -
  note pages = parse_pdf_pages [OF assms(1,2)]
  obtain reader pages ps where ps: "fold_res (\<lambda>p w. Inr (write_page dump p w)) ps
      (page_writer v name parser_version) = (Inr writer :: PageArtifactWriter res)" "numbered 1 ps" "\<forall>p \<in> set ps. page_ok policy p"
    "ir_page_count report = int (length ps)"
    "ir_ocr_page_numbers report = map np_page_number (filter (\<lambda>p. np_origin p = PO_OCR) ps)"
    "ir_native_page_count report + int (length (ir_ocr_page_numbers report)) = ir_page_count report"
    and reader: "opened = Inr reader" "rd_pages reader = Inr pages" "length ps = length pages"
    using pages by blast
  have "fold_res (\<lambda>p w. Inr (write_page dump p w)) ps w0 = (Inr (fold (write_page dump) ps w0) :: PageArtifactWriter res)" for w0
    by (induction ps arbitrary: w0) simp_all
  with ps(1) have w: "writer = fold (write_page dump) ps (page_writer v name parser_version)" by simp
  have "\<forall>p \<in> set ps. valid_page p" using page_ok_valid ps(2,3) numbered_ge by blast
  then have "\<forall>p \<in> set ps. validate (dump p) = Inr p" using assms(3) by (simp add: page_codec_def)
  from page_artifact_reads [OF this ps(2,4), of v name parser_version] obtain lines where
    "finish_pages report writer = Inr lines" "iter_page_artifact validate lines v = (ps, None)" unfolding w by blast
  moreover have "int (length (filter (\<lambda>p. np_origin p = PO_NATIVE) ps)) = ir_native_page_count report"
    using origin_counts [OF ps(3)] ps(4,5,6) by simp
  ultimately show ?thesis using ps reader
    by (intro exI [of _ reader] exI [of _ pages] exI [of _ ps] exI [of _ lines]) simp
qed

section \<open>Refusals\<close>

text \<open>The PDF library raises nothing but its own errors, and the sink nothing at all.\<close>

definition library_errors :: "'a res \<Rightarrow> bool" where
  "library_errors r \<longleftrightarrow> (\<forall>e. r = Inl e \<longrightarrow> is_malformed e)"

definition reader_errors :: "pdf_reader res \<Rightarrow> bool" where
  "reader_errors opened \<longleftrightarrow> library_errors opened \<and> (\<forall>reader. opened = Inr reader \<longrightarrow>
     library_errors (rd_encrypted reader) \<and> library_errors (rd_pages reader)
     \<and> library_errors (has_active_or_embedded_content reader)
     \<and> (\<forall>pages. rd_pages reader = Inr pages \<longrightarrow>
         (\<forall>p \<in> set pages. library_errors (pg_contents p) \<and> library_errors (pg_text p))))"

definition limit_error :: "py_error \<Rightarrow> bool" where
  "limit_error e \<longleftrightarrow> e \<in> {TerminalIngestionError FAILED ''PROCESSING_RESOURCE_LIMIT_EXCEEDED'',
     TerminalIngestionError FAILED ''PROCESSING_OUTPUT_LIMIT_EXCEEDED''}"

lemma limit_errors [simp]:
  "limit_error (TerminalIngestionError FAILED ''PROCESSING_RESOURCE_LIMIT_EXCEEDED'')"
  "limit_error (TerminalIngestionError FAILED ''PROCESSING_OUTPUT_LIMIT_EXCEEDED'')"
  by (simp_all add: limit_error_def)

lemma fold_res_Inl:
  "fold_res f xs s = Inl e \<Longrightarrow> \<exists>x \<in> set xs. \<exists>t. f x t = Inl e"
  by (induction xs arbitrary: s) (auto simp: res_simps)

lemma collect_block_Inl: "collect_block m run bs = Inl e \<Longrightarrow> limit_error e"
  by (auto simp: collect_block_def Let_def split: if_splits)

lemma extract_page_Inl:
  assumes "extract_page policy sink (n, page) st = Inl e" and "1 \<le> n"
    and "library_errors (pg_contents page)" "library_errors (pg_text page)" and "\<And>p w. \<exists>w'. sink p w = Inr w'"
  shows "limit_error e \<or> is_malformed e"
proof -
  have valid: "new_page (extracted_page policy n blocks t) = Inr (extracted_page policy n blocks t)" for blocks t
    using assms(2) quality_score_unit [of t] by (simp add: new_page_def extracted_page_def Let_def)
  have ok: "bind_res (sink p w) (\<lambda>w. Inr (f w)) = Inl e \<longleftrightarrow> False" for p w f
    using assms(5) [of p w] by auto
  have sink: "sink p w = Inl e \<longleftrightarrow> False" for p w using assms(5) [of p w] by auto
  from assms(1) consider "pg_contents page = Inl e" | "pg_text page = Inl e" | "limit_error e"
    | t where "fold_res (collect_block (po_native_max_blocks_per_page policy)) (pg_runs page) t = Inl e"
    unfolding extract_page_def prod.case Let_def bind_res_eq_Inl valid bind_res_Inr
    by (auto simp: bind_res_eq_Inl ok sink split: if_splits)
  then show ?thesis
  proof cases
    case (4 t)
    from fold_res_Inl [OF 4] collect_block_Inl show ?thesis by blast
  qed (use assms(3,4) in \<open>simp_all add: library_errors_def\<close>)
qed

lemma extract_pages_Inl:
  assumes "extract_pages name ver pages policy sink w = Inl e"
    and "\<forall>p \<in> set pages. library_errors (pg_contents p) \<and> library_errors (pg_text p)"
    and "\<And>p w. \<exists>w'. sink p w = Inr w'"
  shows "limit_error e \<or> is_malformed e"
  using assms(1) unfolding extract_pages_def
proof (subst (asm) bind_res_eq_Inl, elim disjE exE conjE)
  let ?st = "\<lparr>ex_native_page_count = 0, ex_extracted_text_chars = 0, ex_ocr_page_numbers = [],
     ex_ocr_required = False, ex_sink = w\<rparr>"
  assume "fold_res (extract_page policy sink) (zip (map int [1..<Suc (length pages)]) pages) ?st = Inl e"
  from fold_res_Inl [OF this] obtain n page st where m: "(n, page) \<in> set (zip (map int [1..<Suc (length pages)]) pages)"
    and e: "extract_page policy sink (n, page) st = Inl e" by auto
  have "n \<in> set (map int [1..<Suc (length pages)])" using m by (rule set_zip_leftD)
  then have "1 \<le> n" by (auto simp del: upt_Suc)
  moreover have "page \<in> set pages" using m by (rule set_zip_rightD)
  ultimately show ?thesis using extract_page_Inl [OF e] assms(2,3) by blast
qed (auto simp: new_inspection_def split: if_splits elim!: bind_res_InrE)

lemma parse_opened_refuses:
  assumes "reader_errors opened" and "\<And>p w. \<exists>w'. page_sink p w = Inr w'"
    and "parse_opened name parser_version opened policy page_sink w = Inl e"
  shows "is_malformed e \<or> limit_error e \<or> e = TerminalIngestionError FAILED ''PDF_MALFORMED''
    \<or> (\<exists>reader. opened = Inr reader \<and>
         (e = TerminalIngestionError REJECTED ''PDF_ENCRYPTED_UNSUPPORTED'' \<and> rd_encrypted reader = Inr True
          \<or> (\<exists>pages. rd_encrypted reader = Inr False \<and> rd_pages reader = Inr pages
              \<and> (e = TerminalIngestionError REJECTED ''PDF_PAGE_LIMIT_EXCEEDED'' \<and> int (length pages) > po_pdf_max_pages policy
                 \<or> e = TerminalIngestionError QUARANTINED ''ACTIVE_CONTENT_DETECTED''
                   \<and> int (length pages) \<le> po_pdf_max_pages policy \<and> has_active_or_embedded_content reader = Inr True))))"
proof (cases opened)
  case (Inl x)
  with assms(1,3) show ?thesis by (simp add: parse_opened_def reader_errors_def library_errors_def)
next
  case (Inr reader)
  have le: "library_errors (rd_encrypted reader)" "library_errors (rd_pages reader)"
    "library_errors (has_active_or_embedded_content reader)"
    "\<And>pages. rd_pages reader = Inr pages \<Longrightarrow> \<forall>p \<in> set pages. library_errors (pg_contents p) \<and> library_errors (pg_text p)"
    using assms(1) Inr by (simp_all add: reader_errors_def)
  note e' = assms(3) [unfolded parse_opened_def Inr bind_res_Inr]
  show ?thesis
  proof (cases "rd_encrypted reader")
    case (Inl x)
    with e' le(1) show ?thesis by (simp add: library_errors_def)
  next
    case enc: (Inr b)
    show ?thesis
    proof (cases "b \<or> (\<exists>x. rd_pages reader = Inl x)")
      case True
      then consider b | x where "\<not> b" "rd_pages reader = Inl x" by blast
      then show ?thesis
      proof cases
        case 1
        with e' enc Inr show ?thesis by auto
      next
        case (2 x)
        with e' enc le(2) show ?thesis by (simp add: library_errors_def)
      qed
    next
      case False
      then obtain pages where b: "\<not> b" and pages: "rd_pages reader = Inr pages" by (cases "rd_pages reader") auto
      consider "int (length pages) < 1" | "int (length pages) > po_pdf_max_pages policy"
        | "\<not> int (length pages) < 1" "\<not> int (length pages) > po_pdf_max_pages policy" by blast
      then show ?thesis
      proof cases
        case 3
        show ?thesis
        proof (cases "has_active_or_embedded_content reader")
          case (Inl x)
          with e' enc b pages 3 le(3) show ?thesis by (simp add: library_errors_def)
        next
          case active: (Inr a)
          show ?thesis
          proof (cases a)
            case True
            with e' enc b pages 3 active Inr show ?thesis by auto
          next
            case False
            with e' enc b pages 3 active
            have "extract_pages name parser_version pages policy page_sink w = Inl e" by simp
            from extract_pages_Inl [OF this le(4) [OF pages] assms(2)] show ?thesis by blast
          qed
        qed
      qed (use e' enc b pages Inr in \<open>auto split: if_splits\<close>)
    qed
  qed
qed

text \<open>When the PDF library raises only its own errors, every refusal of the parser is terminal and its
  reason is true of the file: encrypted, too many pages, active content, a resource or output limit, or
  malformed. No refusal is left to be retried.\<close>

theorem parse_pdf_refuses:
  assumes "parse_pdf name parser_version opened policy page_sink w = Inl e"
    and "reader_errors opened" and "\<And>p w. \<exists>w'. page_sink p w = Inr w'"
  shows "e = TerminalIngestionError FAILED ''PDF_MALFORMED'' \<or> limit_error e
    \<or> (\<exists>reader. opened = Inr reader \<and>
         (e = TerminalIngestionError REJECTED ''PDF_ENCRYPTED_UNSUPPORTED'' \<and> rd_encrypted reader = Inr True
          \<or> (\<exists>pages. rd_encrypted reader = Inr False \<and> rd_pages reader = Inr pages
              \<and> (e = TerminalIngestionError REJECTED ''PDF_PAGE_LIMIT_EXCEEDED'' \<and> int (length pages) > po_pdf_max_pages policy
                 \<or> e = TerminalIngestionError QUARANTINED ''ACTIVE_CONTENT_DETECTED''
                   \<and> int (length pages) \<le> po_pdf_max_pages policy \<and> has_active_or_embedded_content reader = Inr True))))"
  (is "?malformed \<or> limit_error e \<or> ?refused e")
proof -
  have terminal: "\<not> is_malformed (TerminalIngestionError s r)" for s r by simp
  from assms(1) obtain e' where e': "parse_opened name parser_version opened policy page_sink w = Inl e'"
    by (cases "parse_opened name parser_version opened policy page_sink w") (auto simp: parse_pdf_def)
  have e: "e = (case e' of TerminalIngestionError s r \<Rightarrow> TerminalIngestionError s r
      | _ \<Rightarrow> if is_malformed e' then TerminalIngestionError FAILED ''PDF_MALFORMED'' else e')"
    using assms(1) e' by (cases e') (auto simp: parse_pdf_def split: if_splits)
  from parse_opened_refuses [OF assms(2,3) e'] show ?thesis
  proof (elim disjE)
    assume "is_malformed e'"
    then show ?thesis using e by (cases e') auto
  qed (use e in \<open>auto simp: limit_error_def\<close>)
qed

text \<open>The check for active content looks for \<open>/S\<close> in the additional-actions dictionary \<open>/AA\<close> itself,
  whose entries are the actions of its triggers: whatever actions the triggers of a catalog or of its
  pages have, scripts and program launches included, the document passes when it has no other.\<close>

theorem additional_actions_unseen:
  assumes "rd_root reader = Inr (PdfDict catalog)" and "map_of catalog ''/Names'' = None" and "map_of catalog ''/OpenAction'' = None"
    and "map_of catalog ''/AA'' = Some (PdfDict triggers)" and "map_of triggers ''/S'' = None"
    and "rd_pages reader = Inr pages"
    and "\<forall>p \<in> set pages. \<exists>m t. pg_object p = PdfDict m \<and> map_of m ''/OpenAction'' = None
      \<and> map_of m ''/AA'' = Some (PdfDict t) \<and> map_of t ''/S'' = None"
  shows "has_active_or_embedded_content reader = Inr False"
proof -
  have ps: "\<exists>as. map_res page_actions ps = Inr as \<and> any_active (concat as) = Inr False"
    if "\<forall>p \<in> set ps. \<exists>m t. pg_object p = PdfDict m \<and> map_of m ''/OpenAction'' = None
      \<and> map_of m ''/AA'' = Some (PdfDict t) \<and> map_of t ''/S'' = None" for ps
    using that
  proof (induction ps)
    case (Cons p ps)
    then obtain as m t where "map_res page_actions ps = Inr as" "any_active (concat as) = Inr False"
      "pg_object p = PdfDict m" "map_of m ''/OpenAction'' = None" "map_of m ''/AA'' = Some (PdfDict t)"
      "map_of t ''/S'' = None" by auto
    moreover from this have "page_actions p = Inr [Some (PdfDict t), None]" by (simp add: page_actions_def)
    ultimately show ?case by simp
  qed simp
  from ps [OF assms(7)] assms(1-6) show ?thesis
    by (auto simp: has_active_or_embedded_content_def)
qed

section \<open>Witnesses\<close>

definition sample_pdf_page :: "(string \<times> pdf_object) list \<Rightarrow> pdf_page" where
  "sample_pdf_page m = \<lparr>pg_object = PdfDict m, pg_contents = Inr None,
     pg_runs = [\<lparr>tr_text = '' ab'', tr_text_matrix = [], tr_font_size = None\<rparr>], pg_text = Inr (Some ''ab'')\<rparr>"

definition sample_reader :: "(string \<times> pdf_object) list \<Rightarrow> pdf_reader" where
  "sample_reader catalog = \<lparr>rd_encrypted = Inr False, rd_pages = Inr [sample_pdf_page []], rd_root = Inr (PdfDict catalog)\<rparr>"

abbreviation javascript :: pdf_object where
  "javascript \<equiv> PdfDict [(''/S'', PdfOther ''/JavaScript'')]"

theorem additional_actions_unseen_witness:
  "has_active_or_embedded_content
     \<lparr>rd_encrypted = Inr False, rd_pages = Inr [sample_pdf_page [(''/AA'', PdfDict [(''/O'', javascript)])]],
      rd_root = Inr (PdfDict [(''/AA'', PdfDict [(''/WC'', javascript)])])\<rparr> = Inr False
   \<and> has_active_or_embedded_content (sample_reader [(''/OpenAction'', javascript)]) = Inr True"
proof -
  let ?p = "sample_pdf_page [(''/AA'', PdfDict [(''/O'', javascript)])]"
  let ?r = "\<lparr>rd_encrypted = Inr False, rd_pages = Inr [?p], rd_root = Inr (PdfDict [(''/AA'', PdfDict [(''/WC'', javascript)])])\<rparr>"
  have "has_active_or_embedded_content ?r = Inr False"
    by (rule additional_actions_unseen [where catalog = "[(''/AA'', PdfDict [(''/WC'', javascript)])]"
          and triggers = "[(''/WC'', javascript)]" and pages = "[?p]"]) (simp_all add: sample_pdf_page_def)
  then show ?thesis
    by (simp add: has_active_or_embedded_content_def sample_reader_def sample_pdf_page_def page_actions_def active_actions_def)
qed

theorem parse_pdf_refuses_witness:
  "parse_pdf ''pypdf'' ''5'' (Inr ((sample_reader [])\<lparr>rd_encrypted := Inr True\<rparr>)) sample_policy (\<lambda>p w. Inr w) ()
     = Inl (TerminalIngestionError REJECTED ''PDF_ENCRYPTED_UNSUPPORTED'')"
proof -
  let ?e = "TerminalIngestionError REJECTED ''PDF_ENCRYPTED_UNSUPPORTED''"
  have p: "parse_pdf ''pypdf'' ''5'' (Inr ((sample_reader [])\<lparr>rd_encrypted := Inr True\<rparr>)) sample_policy (\<lambda>p w. Inr w) () = Inl ?e"
    by (simp add: parse_pdf_def parse_opened_def)
  have r: "reader_errors (Inr ((sample_reader [])\<lparr>rd_encrypted := Inr True\<rparr>))"
    by (simp add: reader_errors_def library_errors_def sample_reader_def has_active_or_embedded_content_def
        page_actions_def sample_pdf_page_def)
  from parse_pdf_refuses [OF p r] p show ?thesis by simp
qed

text \<open>A dump that loses nothing: every field in a fixed position.\<close>

fun un_int :: "json \<Rightarrow> int" where "un_int (JInt n) = n" | "un_int _ = 0"
fun un_str :: "json \<Rightarrow> string" where "un_str (JStr t) = t" | "un_str _ = []"
fun un_float :: "json \<Rightarrow> rat" where "un_float (JFloat r) = r" | "un_float _ = 0"
fun un_arr :: "json \<Rightarrow> json list" where "un_arr (JArr xs) = xs" | "un_arr _ = []"

definition flat_block :: "TextBlock \<Rightarrow> json" where
  "flat_block b = JArr [JInt (tb_ordinal b), JStr (tb_text b),
     JArr (case tb_bounds b of None \<Rightarrow> []
       | Some r \<Rightarrow> [JFloat (bd_left r), JFloat (bd_bottom r), JFloat (bd_right r), JFloat (bd_top r)])]"

definition unflat_block :: "json \<Rightarrow> TextBlock" where
  "unflat_block j = \<lparr>tb_ordinal = un_int (un_arr j ! 0), tb_text = un_str (un_arr j ! 1),
     tb_bounds = (case map un_float (un_arr (un_arr j ! 2)) of
        [l, b, r, t] \<Rightarrow> Some \<lparr>bd_left = l, bd_bottom = b, bd_right = r, bd_top = t\<rparr> | _ \<Rightarrow> None)\<rparr>"

definition flat_page :: "NormalizedPage \<Rightarrow> json" where
  "flat_page p = JArr [JInt (np_page_number p),
     JInt (case np_origin p of PO_NATIVE \<Rightarrow> 0 | PO_OCR \<Rightarrow> 1 | PO_MIXED \<Rightarrow> 2), JStr (np_text p),
     JArr (map flat_block (np_blocks p)), JStr (np_language_hint p), JFloat (np_quality_score p),
     JArr (map JStr (np_warnings p))]"

definition unflat_fields :: "json \<Rightarrow> NormalizedPage" where
  "unflat_fields j = \<lparr>np_page_number = un_int (un_arr j ! 0),
     np_origin = (let k = un_int (un_arr j ! 1) in if k = 0 then PO_NATIVE else if k = 1 then PO_OCR else PO_MIXED),
     np_text = un_str (un_arr j ! 2), np_blocks = map unflat_block (un_arr (un_arr j ! 3)),
     np_language_hint = un_str (un_arr j ! 4), np_quality_score = un_float (un_arr j ! 5),
     np_warnings = map un_str (un_arr (un_arr j ! 6))\<rparr>"

definition unflat_page :: "json \<Rightarrow> NormalizedPage res" where
  "unflat_page j = (if valid_page (unflat_fields j) then Inr (unflat_fields j) else Inl (ValueError ''page''))"

lemma unflat_block_flat [simp]: "unflat_block (flat_block b) = b"
  by (cases b; cases "tb_bounds b") (simp_all add: unflat_block_def flat_block_def)

lemma unflat_page_flat: "valid_page p \<Longrightarrow> unflat_page (flat_page p) = Inr p"
proof -
  have "map un_str (map JStr ts) = ts" for ts by (induction ts) simp_all
  moreover have "map unflat_block (map flat_block bs) = bs" for bs by (induction bs) simp_all
  ultimately have "unflat_fields (flat_page p) = p"
    by (cases p) (simp add: unflat_fields_def flat_page_def Let_def numeral_eq_Suc split: PageOrigin.split)
  then show "valid_page p \<Longrightarrow> unflat_page (flat_page p) = Inr p" by (simp add: unflat_page_def)
qed

lemma sample_page_codec: "page_codec flat_page unflat_page"
  by (auto simp: page_codec_def unflat_page_flat) (auto simp: unflat_page_def split: if_splits)

lemma sample_parse:
  "\<exists>report w'. parse_pdf ''pypdf'' ''5'' (Inr (sample_reader [])) sample_policy (\<lambda>p w. Inr (write_page dump p w)) w
     = Inr (report, w')"
  by (simp add: parse_pdf_def parse_opened_def sample_reader_def sample_pdf_page_def has_active_or_embedded_content_def
      page_actions_def extract_pages_def extract_page_def collect_block_def extracted_page_def new_page_def new_inspection_def
      sample_policy_def Let_def strip_chars_def py_space_def route_of_def)

lemma sample_limits: "0 \<le> po_extracted_text_max_chars sample_policy"
  by (simp add: sample_policy_def)

theorem parse_pdf_sound_witness:
  "\<exists>report w'. parse_pdf ''pypdf'' ''5'' (Inr (sample_reader [])) sample_policy
      (\<lambda>p w. Inr (write_page flat_page p w)) (page_writer 4 ''pypdf'' ''5'') = Inr (report, w') \<and> ir_page_count report = 1"
proof -
  obtain report w' where p: "parse_pdf ''pypdf'' ''5'' (Inr (sample_reader [])) sample_policy
      (\<lambda>p w. Inr (write_page flat_page p w)) (page_writer 4 ''pypdf'' ''5'') = Inr (report, w')"
    using sample_parse by blast
  from parse_pdf_sound [OF p sample_limits] have "ir_page_count report = 1"
    by (auto simp: sample_reader_def)
  with p show ?thesis by blast
qed

theorem parsed_artifact_reads_back_witness:
  "\<exists>report w' lines ps. parse_pdf ''pypdf'' ''5'' (Inr (sample_reader [])) sample_policy
      (\<lambda>p w. Inr (write_page flat_page p w)) (page_writer 4 ''pypdf'' ''5'') = Inr (report, w')
    \<and> finish_pages report w' = Inr lines \<and> iter_page_artifact unflat_page lines 4 = (ps, None) \<and> length ps = 1"
proof -
  obtain report w' where p: "parse_pdf ''pypdf'' ''5'' (Inr (sample_reader [])) sample_policy
      (\<lambda>p w. Inr (write_page flat_page p w)) (page_writer 4 ''pypdf'' ''5'') = Inr (report, w')"
    using sample_parse by blast
  from parsed_artifact_reads_back [OF p sample_limits sample_page_codec] obtain reader pages ps lines where
    "Inr (sample_reader []) = (Inr reader :: pdf_reader res)" "rd_pages reader = Inr pages" "length ps = length pages"
    "finish_pages report w' = Inr lines" "iter_page_artifact unflat_page lines 4 = (ps, None)"
    by blast
  then show ?thesis using p by (intro exI [of _ report] exI [of _ w'] exI [of _ lines] exI [of _ ps]) (auto simp: sample_reader_def)
qed

end
