(* ===== verification/Task_Dispatch.thy ===== *)
theory Task_Dispatch
  imports Worker_Effects Python_Values
begin

text \<open>
  The worker and broker settings of \<open>core/config.py\<close> with their validators, and \<open>workers/celery_app.py\<close>:
  the tasks, the payload and its size limit, the choice of the queue on the sending and on the working
  side, the queue arguments, and the check that every pool is up. The sender of the broker is an argument.
\<close>

section \<open>Settings\<close>

record WorkerSettings =
  ws_native_concurrency :: int
  ws_ocr_concurrency :: int
  ws_publication_concurrency :: int
  ws_lifecycle_concurrency :: int
  ws_native_parse_timeout_seconds :: int
  ws_ocr_timeout_seconds :: int
  ws_publication_timeout_seconds :: int
  ws_lifecycle_timeout_seconds :: int
  ws_shutdown_grace_seconds :: int
  ws_job_max_attempts :: int
  ws_max_tasks_per_child :: int
  ws_retry_base_seconds :: int
  ws_retry_max_seconds :: int

definition in_range :: "int \<Rightarrow> int \<Rightarrow> int \<Rightarrow> bool" where
  "in_range lo hi n \<longleftrightarrow> lo \<le> n \<and> n \<le> hi"

definition worker_fields_ok :: "WorkerSettings \<Rightarrow> bool" where
  "worker_fields_ok w \<longleftrightarrow>
     in_range 1 4 (ws_native_concurrency w) \<and> in_range 1 2 (ws_ocr_concurrency w)
     \<and> in_range 1 4 (ws_publication_concurrency w) \<and> in_range 1 4 (ws_lifecycle_concurrency w)
     \<and> in_range 1 900 (ws_native_parse_timeout_seconds w) \<and> in_range 1 1800 (ws_ocr_timeout_seconds w)
     \<and> in_range 1 1800 (ws_publication_timeout_seconds w) \<and> in_range 1 900 (ws_lifecycle_timeout_seconds w)
     \<and> in_range 1 300 (ws_shutdown_grace_seconds w) \<and> in_range 1 5 (ws_job_max_attempts w)
     \<and> in_range 1 1000 (ws_max_tasks_per_child w) \<and> in_range 1 60 (ws_retry_base_seconds w)
     \<and> in_range 1 3600 (ws_retry_max_seconds w)"

definition new_worker_settings :: "WorkerSettings \<Rightarrow> WorkerSettings res" where
  "new_worker_settings w =
     (if \<not> worker_fields_ok w then Inl (ValueError ''worker settings'')
      else if ws_retry_base_seconds w > ws_retry_max_seconds w
      then Inl (ValueError ''retry_base_seconds cannot exceed retry_max_seconds'')
      else Inr w)"

record BrokerSettings =
  bs_url :: "string option"
  bs_use_tls :: bool
  bs_tls_ca_cert_path :: "string option"
  bs_tls_cert_path :: "string option"
  bs_tls_key_path :: "string option"
  bs_prefetch_multiplier :: int
  bs_message_max_bytes :: int
  bs_queue_max_messages :: int
  bs_queue_max_bytes :: int
  bs_queue_message_ttl_seconds :: int
  bs_heartbeat_seconds :: int
  bs_connection_max_retries :: int
  bs_native_queue_name :: string
  bs_ocr_queue_name :: string
  bs_publication_queue_name :: string
  bs_lifecycle_queue_name :: string
  bs_dead_letter_exchange_name :: string
  bs_dead_letter_queue_name :: string

definition truthy :: "string option \<Rightarrow> bool" where
  "truthy t \<longleftrightarrow> t \<noteq> None \<and> t \<noteq> Some []"

definition starts_with :: "string \<Rightarrow> string \<Rightarrow> bool" where
  "starts_with t p \<longleftrightarrow> take (length p) t = p"

definition queue_names :: "BrokerSettings \<Rightarrow> string list" where
  "queue_names b = [bs_native_queue_name b, bs_ocr_queue_name b, bs_publication_queue_name b,
     bs_lifecycle_queue_name b, bs_dead_letter_queue_name b]"

definition broker_fields_ok :: "BrokerSettings \<Rightarrow> bool" where
  "broker_fields_ok b \<longleftrightarrow>
     in_range 1 16 (bs_prefetch_multiplier b) \<and> in_range 1024 262144 (bs_message_max_bytes b)
     \<and> in_range 1 1000000 (bs_queue_max_messages b) \<and> in_range 1048576 (4096 * 1048576) (bs_queue_max_bytes b)
     \<and> in_range 900 604800 (bs_queue_message_ttl_seconds b) \<and> in_range 10 120 (bs_heartbeat_seconds b)
     \<and> in_range 1 20 (bs_connection_max_retries b)
     \<and> bs_dead_letter_exchange_name b \<noteq> [] \<and> list_all (\<lambda>q. q \<noteq> []) (queue_names b)"

definition new_broker_settings :: "BrokerSettings \<Rightarrow> BrokerSettings res" where
  "new_broker_settings b =
     (if \<not> broker_fields_ok b then Inl (ValueError ''broker settings'')
      else if (case bs_url b of None \<Rightarrow> False | Some u \<Rightarrow> bs_use_tls b \<noteq> starts_with u ''amqps://'')
      then Inl (ValueError ''broker URL scheme must match use_tls'')
      else if truthy (bs_tls_cert_path b) \<noteq> truthy (bs_tls_key_path b)
      then Inl (ValueError ''broker TLS client certificate and key must be paired'')
      else if card (set (queue_names b)) \<noteq> 5
      then Inl (ValueError ''broker queue names must be unique'')
      else Inr b)"

section \<open>Tasks and payloads\<close>

datatype WorkerKind = WK_NATIVE | WK_OCR | WK_PUBLICATION | WK_LIFECYCLE

fun WorkerKind_value :: "WorkerKind \<Rightarrow> string" where
  "WorkerKind_value WK_NATIVE = ''native''"
| "WorkerKind_value WK_OCR = ''ocr''"
| "WorkerKind_value WK_PUBLICATION = ''publication''"
| "WorkerKind_value WK_LIFECYCLE = ''lifecycle''"

datatype PipelineTask =
    NATIVE_PROCESS | OCR_PROCESS | CHUNK_PROCESS | EMBED_PROCESS | INDEX_PROCESS | RECONCILE | DELETE_DOCUMENT

fun PipelineTask_value :: "PipelineTask \<Rightarrow> string" where
  "PipelineTask_value NATIVE_PROCESS = ''app.workers.native.process_document''"
| "PipelineTask_value OCR_PROCESS = ''app.workers.ocr.process_document''"
| "PipelineTask_value CHUNK_PROCESS = ''app.workers.publication.chunk_document''"
| "PipelineTask_value EMBED_PROCESS = ''app.workers.publication.embed_document''"
| "PipelineTask_value INDEX_PROCESS = ''app.workers.publication.index_document''"
| "PipelineTask_value RECONCILE = ''app.workers.publication.reconcile''"
| "PipelineTask_value DELETE_DOCUMENT = ''app.workers.lifecycle.delete_document''"

record IngestionJobPayload =
  jp_tenant_id :: uuid
  jp_document_version_id :: uuid
  jp_job_id :: uuid

text \<open>\<open>model_dump(mode="json")\<close> and \<open>model_dump_json()\<close>; the texts of identifiers need no escape.\<close>

definition payload_message :: "IngestionJobPayload \<Rightarrow> (string \<times> string) list" where
  "payload_message p =
     [(''tenant_id'', str_uuid (jp_tenant_id p)), (''document_version_id'', str_uuid (jp_document_version_id p)),
      (''job_id'', str_uuid (jp_job_id p))]"

definition quoted :: "string \<Rightarrow> string" where
  "quoted t = CHR 0x22 # t @ [CHR 0x22]"

fun json_members :: "(string \<times> string) list \<Rightarrow> string" where
  "json_members [] = []"
| "json_members [(k, v)] = quoted k @ '':'' @ quoted v"
| "json_members ((k, v) # m # ms) = quoted k @ '':'' @ quoted v @ '','' @ json_members (m # ms)"

definition payload_json :: "IngestionJobPayload \<Rightarrow> string" where
  "payload_json p = ''{'' @ json_members (payload_message p) @ ''}''"

section \<open>Dispatching\<close>

text \<open>\<open>IngestionTaskDispatcher._queue_for_task\<close>.\<close>

definition queue_for_task :: "BrokerSettings \<Rightarrow> PipelineTask \<Rightarrow> string" where
  "queue_for_task b task =
     (if task = NATIVE_PROCESS then bs_native_queue_name b
      else if task = DELETE_DOCUMENT then bs_lifecycle_queue_name b
      else if task = OCR_PROCESS then bs_ocr_queue_name b
      else bs_publication_queue_name b)"

definition dispatch_task ::
  "(string \<Rightarrow> (string \<times> string) list \<Rightarrow> string \<Rightarrow> (unit, 'd) io) \<Rightarrow> BrokerSettings \<Rightarrow> PipelineTask
   \<Rightarrow> IngestionJobPayload \<Rightarrow> (unit, 'd) io" where
  "dispatch_task send_task b task payload =
     (if int (length (payload_json payload)) > bs_message_max_bytes b
      then raise_io (ValueError ''task payload exceeds the configured broker message limit'')
      else send_task (PipelineTask_value task) (payload_message payload) (queue_for_task b task))"

section \<open>Workers\<close>

definition queue_for_worker :: "BrokerSettings \<Rightarrow> WorkerKind \<Rightarrow> string" where
  "queue_for_worker b worker_kind =
     (if worker_kind = WK_NATIVE then bs_native_queue_name b
      else if worker_kind = WK_OCR then bs_ocr_queue_name b
      else if worker_kind = WK_LIFECYCLE then bs_lifecycle_queue_name b
      else bs_publication_queue_name b)"

definition worker_concurrency :: "WorkerSettings \<Rightarrow> WorkerKind \<Rightarrow> int" where
  "worker_concurrency w worker_kind =
     (if worker_kind = WK_NATIVE then ws_native_concurrency w
      else if worker_kind = WK_OCR then ws_ocr_concurrency w
      else if worker_kind = WK_LIFECYCLE then ws_lifecycle_concurrency w
      else ws_publication_concurrency w)"

definition worker_timeout :: "WorkerSettings \<Rightarrow> WorkerKind \<Rightarrow> int" where
  "worker_timeout w worker_kind =
     (if worker_kind = WK_NATIVE then ws_native_parse_timeout_seconds w
      else if worker_kind = WK_OCR then ws_ocr_timeout_seconds w
      else if worker_kind = WK_LIFECYCLE then ws_lifecycle_timeout_seconds w
      else ws_publication_timeout_seconds w)"

definition soft_time_limit :: "int \<Rightarrow> int option" where
  "soft_time_limit hard_time_limit = (if hard_time_limit \<le> 1 then None else Some (hard_time_limit - 1))"

text \<open>\<open>task_routes\<close> of the application: queue and routing key of a task.\<close>

fun task_route :: "BrokerSettings \<Rightarrow> PipelineTask \<Rightarrow> string \<times> string" where
  "task_route b NATIVE_PROCESS = (bs_native_queue_name b, WorkerKind_value WK_NATIVE)"
| "task_route b OCR_PROCESS = (bs_ocr_queue_name b, WorkerKind_value WK_OCR)"
| "task_route b CHUNK_PROCESS = (bs_publication_queue_name b, WorkerKind_value WK_PUBLICATION)"
| "task_route b EMBED_PROCESS = (bs_publication_queue_name b, WorkerKind_value WK_PUBLICATION)"
| "task_route b INDEX_PROCESS = (bs_publication_queue_name b, WorkerKind_value WK_PUBLICATION)"
| "task_route b RECONCILE = (bs_publication_queue_name b, WorkerKind_value WK_PUBLICATION)"
| "task_route b DELETE_DOCUMENT = (bs_lifecycle_queue_name b, WorkerKind_value WK_LIFECYCLE)"

record broker_queue =
  bq_name :: string
  bq_routing_key :: string
  bq_delivery_limit :: "int option"
  bq_max_length :: int
  bq_max_length_bytes :: int
  bq_overflow :: string
  bq_message_ttl :: "int option"
  bq_dead_letter_exchange :: "string option"

definition work_queue :: "string \<Rightarrow> WorkerKind \<Rightarrow> BrokerSettings \<Rightarrow> WorkerSettings \<Rightarrow> broker_queue" where
  "work_queue name routing_key b w =
     \<lparr>bq_name = name, bq_routing_key = WorkerKind_value routing_key,
      bq_delivery_limit = Some (ws_job_max_attempts w), bq_max_length = bs_queue_max_messages b,
      bq_max_length_bytes = bs_queue_max_bytes b, bq_overflow = ''reject-publish'',
      bq_message_ttl = Some (bs_queue_message_ttl_seconds b * 1000),
      bq_dead_letter_exchange = Some (bs_dead_letter_exchange_name b)\<rparr>"

definition dead_letter_queue :: "BrokerSettings \<Rightarrow> broker_queue" where
  "dead_letter_queue b =
     \<lparr>bq_name = bs_dead_letter_queue_name b, bq_routing_key = ''dead'', bq_delivery_limit = None,
      bq_max_length = bs_queue_max_messages b, bq_max_length_bytes = bs_queue_max_bytes b,
      bq_overflow = ''drop-head'', bq_message_ttl = None, bq_dead_letter_exchange = None\<rparr>"

text \<open>The part of the application that decides what a worker consumes and for how long.\<close>

record celery_app =
  ca_default_queue :: string
  ca_queues :: "broker_queue list"
  ca_routes :: "PipelineTask \<Rightarrow> string \<times> string"
  ca_soft_time_limit :: "int option"
  ca_time_limit :: int
  ca_concurrency :: int
  ca_prefetch_multiplier :: int
  ca_ssl_options :: "(string \<times> string option) list option"

definition broker_ssl_options :: "BrokerSettings \<Rightarrow> (string \<times> string option) list" where
  "broker_ssl_options b =
     [(''cert_reqs'', Some ''CERT_REQUIRED'')]
     @ (if truthy (bs_tls_ca_cert_path b) then [(''ca_certs'', bs_tls_ca_cert_path b)] else [])
     @ (if truthy (bs_tls_cert_path b)
        then [(''certfile'', bs_tls_cert_path b), (''keyfile'', bs_tls_key_path b)] else [])"

definition create_celery_app :: "BrokerSettings \<Rightarrow> WorkerSettings \<Rightarrow> WorkerKind \<Rightarrow> celery_app res" where
  "create_celery_app b w worker_kind =
     (if bs_url b = None then Inl (ValueError ''broker.url is required to initialize Celery'')
      else Inr
        \<lparr>ca_default_queue = queue_for_worker b worker_kind,
         ca_queues =
           [work_queue (bs_native_queue_name b) WK_NATIVE b w,
            work_queue (bs_publication_queue_name b) WK_PUBLICATION b w,
            work_queue (bs_ocr_queue_name b) WK_OCR b w,
            work_queue (bs_lifecycle_queue_name b) WK_LIFECYCLE b w],
         ca_routes = task_route b,
         ca_soft_time_limit = soft_time_limit (worker_timeout w worker_kind),
         ca_time_limit = worker_timeout w worker_kind,
         ca_concurrency = worker_concurrency w worker_kind,
         ca_prefetch_multiplier = bs_prefetch_multiplier b,
         ca_ssl_options = (if bs_use_tls b then Some (broker_ssl_options b) else None)\<rparr>)"

text \<open>The queues \<open>declare_broker_topology\<close> declares, in order.\<close>

definition declared_queues :: "celery_app \<Rightarrow> BrokerSettings \<Rightarrow> broker_queue list" where
  "declared_queues app b = dead_letter_queue b # ca_queues app"

section \<open>Are all pools up?\<close>

definition required_pools :: "BrokerSettings \<Rightarrow> (WorkerKind \<times> PipelineTask \<times> string) list" where
  "required_pools b =
     [(WK_NATIVE, NATIVE_PROCESS, bs_native_queue_name b), (WK_OCR, OCR_PROCESS, bs_ocr_queue_name b),
      (WK_PUBLICATION, CHUNK_PROCESS, bs_publication_queue_name b),
      (WK_LIFECYCLE, DELETE_DOCUMENT, bs_lifecycle_queue_name b)]"

text \<open>The pools a worker matches: it has registered the task of the pool and consumes exactly its queue.\<close>

definition matching_pools :: "BrokerSettings \<Rightarrow> string list \<Rightarrow> string list \<Rightarrow> WorkerKind list" where
  "matching_pools b task_names queues =
     map fst (filter (\<lambda>(kind, task, queue). PipelineTask_value task \<in> set task_names \<and> set queues = {queue})
       (required_pools b))"

definition check_worker_connection ::
  "BrokerSettings \<Rightarrow> WorkerSettings \<Rightarrow> (string \<times> string list) list \<Rightarrow> (string \<Rightarrow> string list) \<Rightarrow> unit res" where
  "check_worker_connection b w registered_by_worker queues_by_worker =
     bind_res (create_celery_app b w WK_NATIVE) (\<lambda>_.
     let ready = concat (map (\<lambda>(worker, tasks).
            let pools = matching_pools b tasks (queues_by_worker worker)
            in if length pools = 1 then pools else []) registered_by_worker)
      in raise_if (\<not> list_all (\<lambda>(kind, task, queue). kind \<in> set ready) (required_pools b))
           (RuntimeError ''one or more required Celery worker pools are unavailable''))"

section \<open>Routing\<close>

lemma new_broker_settings_Inr:
  "new_broker_settings b = Inr b' \<longleftrightarrow> b' = b \<and> broker_fields_ok b
     \<and> (\<forall>u. bs_url b = Some u \<longrightarrow> bs_use_tls b = starts_with u ''amqps://'')
     \<and> truthy (bs_tls_cert_path b) = truthy (bs_tls_key_path b) \<and> card (set (queue_names b)) = 5"
  by (auto simp: new_broker_settings_def split: option.splits)

lemma queue_names_distinct:
  assumes "new_broker_settings b = Inr b'"
  shows "distinct (queue_names b)"
proof -
  from assms have "card (set (queue_names b)) = length (queue_names b)"
    by (simp add: new_broker_settings_Inr queue_names_def)
  then show ?thesis by (rule card_distinct)
qed

lemma queues_differ:
  assumes "new_broker_settings b = Inr b'"
  shows "bs_native_queue_name b \<noteq> bs_ocr_queue_name b" "bs_native_queue_name b \<noteq> bs_publication_queue_name b"
    "bs_native_queue_name b \<noteq> bs_lifecycle_queue_name b" "bs_ocr_queue_name b \<noteq> bs_publication_queue_name b"
    "bs_ocr_queue_name b \<noteq> bs_lifecycle_queue_name b" "bs_publication_queue_name b \<noteq> bs_lifecycle_queue_name b"
    "bs_native_queue_name b \<noteq> bs_dead_letter_queue_name b" "bs_ocr_queue_name b \<noteq> bs_dead_letter_queue_name b"
    "bs_publication_queue_name b \<noteq> bs_dead_letter_queue_name b"
    "bs_lifecycle_queue_name b \<noteq> bs_dead_letter_queue_name b"
  using queue_names_distinct [OF assms] by (auto simp: queue_names_def)

text \<open>With validated settings a task is sent to the queue its route names, exactly the workers of the
  kind that owns the task consume that queue, the task lives in the module of that kind, and no worker
  consumes the dead letters.\<close>

theorem task_routing:
  assumes "new_broker_settings b = Inr b'"
  shows "queue_for_task b task = fst (task_route b task)
    \<and> (queue_for_worker b kind = queue_for_task b task \<longleftrightarrow> snd (task_route b task) = WorkerKind_value kind)
    \<and> starts_with (PipelineTask_value task) (''app.workers.'' @ snd (task_route b task) @ ''.'')
    \<and> queue_for_worker b kind \<noteq> bq_name (dead_letter_queue b)"
  using queues_differ [OF assms]
  by (cases task; cases kind) (simp_all add: queue_for_task_def queue_for_worker_def starts_with_def dead_letter_queue_def)

lemma length_payload_json: "length (payload_json p) = 161"
  by (simp add: payload_json_def payload_message_def quoted_def length_str_uuid)

text \<open>The size limit of messages never refuses a payload under validated settings: it has the same
  length for all identifiers, so every task reaches the sender with exactly its identifiers.\<close>

theorem dispatch_never_refuses:
  assumes "new_broker_settings b = Inr b'"
  shows "dispatch_task send_task b task payload
    = send_task (PipelineTask_value task) (payload_message payload) (queue_for_task b task)"
proof -
  from assms have "1024 \<le> bs_message_max_bytes b"
    by (simp add: new_broker_settings_Inr broker_fields_ok_def in_range_def)
  then show ?thesis unfolding dispatch_task_def length_payload_json by simp
qed

section \<open>The pool check\<close>

lemma required_pools_queues:
  "(kind, task, queue) \<in> set (required_pools b) \<Longrightarrow> queue = queue_for_worker b kind"
  by (auto simp: required_pools_def queue_for_worker_def)

lemma queue_for_worker_inj:
  assumes "new_broker_settings b = Inr b'" "queue_for_worker b k = queue_for_worker b k'"
  shows "k = k'"
  using assms(2) queues_differ [OF assms(1)] by (cases k; cases k') (simp_all add: queue_for_worker_def)

lemma distinct_constant:
  assumes "distinct xs" "k \<in> set xs" "\<And>x. x \<in> set xs \<Longrightarrow> x = k"
  shows "xs = [k]"
proof (cases xs)
  case (Cons x ys)
  have "ys = []"
  proof (rule ccontr)
    assume "ys \<noteq> []"
    then have "hd ys \<in> set ys" by simp
    with assms Cons show False by (metis distinct.simps(2) list.set_intros)
  qed
  with Cons assms(3) show ?thesis by simp
qed (use assms(2) in simp)

lemma matching_pools_at_most_one:
  assumes "new_broker_settings b = Inr b'" and "kind \<in> set (matching_pools b tasks queues)"
  shows "matching_pools b tasks queues = [kind]"
proof (rule distinct_constant)
  have "distinct (map fst (required_pools b))" by (simp add: required_pools_def)
  then show "distinct (matching_pools b tasks queues)"
    unfolding matching_pools_def by (rule distinct_map_filter)
  have q: "set queues = {queue_for_worker b k}" if "k \<in> set (matching_pools b tasks queues)" for k
  proof -
    from that obtain task queue where m: "(k, task, queue) \<in> set (required_pools b)" and q: "set queues = {queue}"
      unfolding matching_pools_def by auto
    from required_pools_queues [OF m] q show ?thesis by simp
  qed
  fix k assume "k \<in> set (matching_pools b tasks queues)"
  from q [OF this] q [OF assms(2)] have "queue_for_worker b k = queue_for_worker b kind" by simp
  then show "k = kind" by (rule queue_for_worker_inj [OF assms(1)])
qed (rule assms(2))

lemma map_fst_filter:
  "k \<in> set (map fst (filter (\<lambda>(k, t, q). P t q) xs)) \<longleftrightarrow> (\<exists>t q. (k, t, q) \<in> set xs \<and> P t q)"
  by (auto simp: image_iff)

lemma required_unique:
  "(k, t, q) \<in> set (required_pools b) \<Longrightarrow> (k, t', q') \<in> set (required_pools b) \<Longrightarrow> t = t' \<and> q = q'"
  by (cases k) (simp_all add: required_pools_def)

lemma matching_pools_iff:
  assumes "(kind, task, queue) \<in> set (required_pools b)"
  shows "kind \<in> set (matching_pools b tasks queues)
    \<longleftrightarrow> PipelineTask_value task \<in> set tasks \<and> set queues = {queue}"
proof -
  have "kind \<in> set (matching_pools b tasks queues) \<longleftrightarrow>
      (\<exists>task' queue'. (kind, task', queue') \<in> set (required_pools b) \<and> PipelineTask_value task' \<in> set tasks
         \<and> set queues = {queue'})"
    unfolding matching_pools_def by (rule map_fst_filter)
  also have "\<dots> \<longleftrightarrow> PipelineTask_value task \<in> set tasks \<and> set queues = {queue}"
  proof
    assume "\<exists>task' queue'. (kind, task', queue') \<in> set (required_pools b) \<and> PipelineTask_value task' \<in> set tasks
         \<and> set queues = {queue'}"
    then obtain task' queue' where m: "(kind, task', queue') \<in> set (required_pools b)"
      and q: "PipelineTask_value task' \<in> set tasks" "set queues = {queue'}" by (elim exE conjE)
    from required_unique [OF assms m] q show "PipelineTask_value task \<in> set tasks \<and> set queues = {queue}"
      by simp
  qed (intro exI [of _ task] exI [of _ queue] conjI assms, simp_all)
  finally show ?thesis .
qed

text \<open>C33: the readiness check passes exactly when a broker is configured and every pool has a worker that has
  registered the task of the pool and consumes the queue of the pool and no other queue.\<close>

theorem check_worker_connection_iff:
  assumes "new_broker_settings b = Inr b'"
  shows "check_worker_connection b w registered_by_worker queues_by_worker = Inr ()
    \<longleftrightarrow> bs_url b \<noteq> None \<and> (\<forall>(kind, task, queue) \<in> set (required_pools b). \<exists>(worker, tasks) \<in> set registered_by_worker.
          PipelineTask_value task \<in> set tasks \<and> set (queues_by_worker worker) = {queue})"
proof -
  let ?ready = "concat (map (\<lambda>(worker, tasks).
      let pools = matching_pools b tasks (queues_by_worker worker)
      in if length pools = 1 then pools else []) registered_by_worker)"
  have one: "length (matching_pools b tasks queues) = 1" if "kind \<in> set (matching_pools b tasks queues)" for kind tasks queues
    using matching_pools_at_most_one [OF assms that] by simp
  have pools: "set (let pools = matching_pools b tasks queues in if length pools = 1 then pools else [])
      = set (matching_pools b tasks queues)" for tasks queues
  proof (cases "matching_pools b tasks queues")
    case (Cons kind ks)
    then have "length (matching_pools b tasks queues) = 1" by (intro one [of kind]) simp
    then show ?thesis by (simp add: Let_def)
  qed simp
  have "set ?ready = (\<Union>(worker, tasks) \<in> set registered_by_worker. set (matching_pools b tasks (queues_by_worker worker)))"
    unfolding set_concat set_map image_image case_prod_beta pools ..
  then have ready: "kind \<in> set ?ready \<longleftrightarrow> (\<exists>(worker, tasks) \<in> set registered_by_worker.
      kind \<in> set (matching_pools b tasks (queues_by_worker worker)))" for kind by auto
  have "list_all (\<lambda>(kind, task, queue). kind \<in> set ?ready) (required_pools b)
    \<longleftrightarrow> (\<forall>(kind, task, queue) \<in> set (required_pools b). \<exists>(worker, tasks) \<in> set registered_by_worker.
          PipelineTask_value task \<in> set tasks \<and> set (queues_by_worker worker) = {queue})"
    unfolding list_all_iff
  proof (rule ball_cong [OF refl])
    fix x assume m: "x \<in> set (required_pools b)"
    obtain kind task queue where x: "x = (kind, task, queue)" by (cases x)
    show "(case x of (kind, task, queue) \<Rightarrow> kind \<in> set ?ready) = (case x of (kind, task, queue) \<Rightarrow>
        \<exists>(worker, tasks) \<in> set registered_by_worker.
          PipelineTask_value task \<in> set tasks \<and> set (queues_by_worker worker) = {queue})"
      unfolding x prod.case ready by (simp only: matching_pools_iff [OF m [unfolded x]])
  qed
  then have pools: "raise_if (\<not> list_all (\<lambda>(kind, task, queue). kind \<in> set ?ready) (required_pools b)) e = Inr ()
    \<longleftrightarrow> (\<forall>(kind, task, queue) \<in> set (required_pools b). \<exists>(worker, tasks) \<in> set registered_by_worker.
          PipelineTask_value task \<in> set tasks \<and> set (queues_by_worker worker) = {queue})" for e
    unfolding raise_if_Inr not_not .
  show ?thesis
  proof (cases "bs_url b")
    case None
    then show ?thesis by (simp add: check_worker_connection_def create_celery_app_def)
  next
    case (Some url)
    then obtain app where "create_celery_app b w WK_NATIVE = Inr app" by (auto simp: create_celery_app_def)
    with Some pools show ?thesis unfolding check_worker_connection_def by (simp only: bind_res_Inr Let_def) simp
  qed
qed

section \<open>Witnesses\<close>

definition sample_broker :: BrokerSettings where
  "sample_broker = \<lparr>bs_url = Some ''amqps://b'', bs_use_tls = True, bs_tls_ca_cert_path = None, bs_tls_cert_path = None,
     bs_tls_key_path = None, bs_prefetch_multiplier = 1, bs_message_max_bytes = 65536, bs_queue_max_messages = 10000,
     bs_queue_max_bytes = 268435456, bs_queue_message_ttl_seconds = 86400, bs_heartbeat_seconds = 30,
     bs_connection_max_retries = 5, bs_native_queue_name = ''n'', bs_ocr_queue_name = ''o'',
     bs_publication_queue_name = ''p'', bs_lifecycle_queue_name = ''l'', bs_dead_letter_exchange_name = ''x'',
     bs_dead_letter_queue_name = ''d''\<rparr>"

lemma sample_broker_ok: "new_broker_settings sample_broker = Inr sample_broker"
  by (simp add: new_broker_settings_Inr sample_broker_def broker_fields_ok_def in_range_def queue_names_def truthy_def starts_with_def)

theorem task_routing_witness:
  "queue_for_worker sample_broker WK_OCR = queue_for_task sample_broker OCR_PROCESS
   \<and> queue_for_worker sample_broker WK_OCR \<noteq> queue_for_task sample_broker EMBED_PROCESS"
proof (rule conjI)
  show "queue_for_worker sample_broker WK_OCR = queue_for_task sample_broker OCR_PROCESS"
    using task_routing [OF sample_broker_ok, of OCR_PROCESS WK_OCR] by simp
  show "queue_for_worker sample_broker WK_OCR \<noteq> queue_for_task sample_broker EMBED_PROCESS"
    using task_routing [OF sample_broker_ok, of EMBED_PROCESS WK_OCR] by auto
qed

theorem dispatch_never_refuses_witness:
  "dispatch_task (\<lambda>name m q d. (Inr (), d @ [(name, q)])) sample_broker RECONCILE
     \<lparr>jp_tenant_id = 1, jp_document_version_id = 2, jp_job_id = 3\<rparr> []
   = (Inr (), [(''app.workers.publication.reconcile'', ''p'')])"
  unfolding dispatch_never_refuses [OF sample_broker_ok] by (simp add: queue_for_task_def sample_broker_def)

theorem check_worker_connection_iff_witness:
  "\<forall>w. \<exists>e. check_worker_connection sample_broker w [(''w'', [''app.workers.native.process_document''])] (\<lambda>_. [''n'']) = Inl e"
proof
  fix w
  have "check_worker_connection sample_broker w [(''w'', [''app.workers.native.process_document''])] (\<lambda>_. [''n'']) \<noteq> Inr ()"
    unfolding check_worker_connection_iff [OF sample_broker_ok] by (simp add: required_pools_def)
  then show "\<exists>e. check_worker_connection sample_broker w [(''w'', [''app.workers.native.process_document''])] (\<lambda>_. [''n'']) = Inl e"
    by (cases "check_worker_connection sample_broker w [(''w'', [''app.workers.native.process_document''])] (\<lambda>_. [''n''])") auto
qed

end
