(* ===== verification/Native_Service.thy ===== *)
theory Native_Service
  imports Object_Storage Native_Parser Task_Dispatch Native_Repository
begin

text \<open>
  \<open>ingestion/service.py\<close>: one delivery of a native ingestion job, from the claim to the dispatch of the
  successor, with every \<open>except\<close> clause; and what the three worker services share. A file is the list of
  its bytes; the private temporary directory and its clean-up are left out. Arguments are the object
  store, the broker, the PDF library and the encoding of JSON lines.
\<close>

section \<open>What the services are given\<close>

type_synonym 'd job_dispatcher = "PipelineTask \<Rightarrow> uuid \<Rightarrow> uuid \<Rightarrow> uuid \<Rightarrow> (unit, 'd) io"

text \<open>\<open>CeleryJobDispatcher.dispatch\<close> of \<open>catalog/service.py\<close>.\<close>

definition celery_dispatch ::
  "(string \<Rightarrow> (string \<times> string) list \<Rightarrow> string \<Rightarrow> (unit, 'd) io) \<Rightarrow> BrokerSettings \<Rightarrow> 'd job_dispatcher" where
  "celery_dispatch send_task b task tenant_id version_id job_id =
     dispatch_task send_task b task
       \<lparr>jp_tenant_id = tenant_id, jp_document_version_id = version_id, jp_job_id = job_id\<rparr>"

record ('y, 'd) worker_deps =
  dp_env :: "session \<Rightarrow> session"
  dp_client :: "'y s3_client"
  dp_storage :: StorageSettings
  dp_bucket :: string
  dp_sha256 :: "bytes \<Rightarrow> string"
  dp_dispatch :: "'d job_dispatcher"
  dp_policy :: IngestionPolicySettings
  dp_workers :: WorkerSettings
  dp_encode :: "json list \<Rightarrow> bytes"
  dp_decode :: "bytes \<Rightarrow> json list res"
  dp_dump_page :: "NormalizedPage \<Rightarrow> json"
  dp_validate_page :: "json \<Rightarrow> NormalizedPage res"

record ('y, 'd) native_deps = "('y, 'd) worker_deps" +
  nd_parser_version :: string
  nd_open :: "bytes \<Rightarrow> pdf_reader res"
  nd_inspection :: "InspectionReport \<Rightarrow> bytes"
  nd_terminal_inspection :: "string \<Rightarrow> string \<Rightarrow> VersionState \<Rightarrow> string \<Rightarrow> bytes"

section \<open>Publishing artifacts\<close>

text \<open>The body of the publishing loops: upload one file and describe it.\<close>

definition publish_file ::
  "('y, 'd, 'z) worker_deps_scheme \<Rightarrow> 'a ClaimedNativeJob_scheme \<Rightarrow> string \<Rightarrow> string \<Rightarrow> string
   \<Rightarrow> ArtifactType \<times> ArtifactKind \<times> bytes \<Rightarrow> (PublishedArtifact, ('x, 'y, 'd) world) io" where
  "publish_file deps job generator_name generator_version content_type = (\<lambda>(artifact_type, artifact_kind, content).
     (let checksum = dp_sha256 deps content
      in bind_io (lift_res (artifact_reference (dp_storage deps) (cl_tenant_id job) (cl_document_version_id job)
           artifact_kind generator_version checksum)) (\<lambda>reference.
         bind_io (on_objects (upload_file (dp_client deps) (dp_storage deps) (dp_bucket deps) reference content
           content_type (po_normalized_max_bytes (dp_policy deps)))) (\<lambda>metadata.
         return_io
           \<lparr>pa_artifact_type = artifact_type, pa_object_key = or_key reference, pa_generator_name = generator_name,
            pa_generator_version = generator_version, pa_checksum_sha256 = checksum,
            pa_size_bytes = so_content_length metadata\<rparr>))))"

definition publish_native_artifacts ::
  "('y, 'd, 'z) native_deps_scheme \<Rightarrow> 'a ClaimedNativeJob_scheme \<Rightarrow> bytes \<Rightarrow> bytes \<Rightarrow> DocumentRoute
   \<Rightarrow> (PublishedArtifact list, ('x, 'y, 'd) world) io" where
  "publish_native_artifacts deps job inspection_file page_file route =
     each_io (publish_file deps job ''pypdf'' (''pypdf-'' @ nd_parser_version deps) ''application/json'')
       ([(AT_INSPECTION_REPORT, INSPECTION, inspection_file), (AT_EXTRACTED_PAGES, EXTRACTED_PAGES, page_file)]
        @ (if route = ROUTE_NATIVE then [(AT_NORMALIZED_DOCUMENT, NORMALIZED_DOCUMENT, page_file)] else []))"

text \<open>Best effort: an error of the store is ignored.\<close>

definition remove_uncommitted_artifacts ::
  "('y, 'd, 'z) worker_deps_scheme \<Rightarrow> PublishedArtifact list \<Rightarrow> (unit, ('x, 'y, 'd) world) io" where
  "remove_uncommitted_artifacts deps artifacts =
     bind_io (each_io (\<lambda>a. suppress_io (on_objects
       (delete_key (dp_client deps) (dp_storage deps) (dp_bucket deps) (pa_object_key a)))) artifacts)
       (\<lambda>_. return_io ())"

section \<open>Retries\<close>

definition exponential_delay :: "WorkerSettings \<Rightarrow> 'a ClaimedNativeJob_scheme \<Rightarrow> int" where
  "exponential_delay workers job =
     ws_retry_base_seconds workers * 2 ^ nat (cl_attempt_number job - 1)"

definition native_retry_delay :: "WorkerSettings \<Rightarrow> 'a ClaimedNativeJob_scheme \<Rightarrow> int" where
  "native_retry_delay workers job =
     (let bounded_delay = min (exponential_delay workers job) (ws_retry_max_seconds workers);
          jitter_ceiling = max (bounded_delay div 4) 1;
          deterministic_jitter = uint (cl_id job) mod jitter_ceiling
      in min (bounded_delay + deterministic_jitter) (ws_retry_max_seconds workers))"

text \<open>\<open>_retry_or_fail\<close> of the services; \<open>delay\<close> is what their \<open>_retry_delay\<close> returns for the job.\<close>

definition retry_or_fail ::
  "(session \<Rightarrow> session) \<Rightarrow> 'a ClaimedNativeJob_scheme \<Rightarrow> string \<Rightarrow> string \<Rightarrow> int \<Rightarrow> (nat \<Rightarrow> uuid)
   \<Rightarrow> (bool, ('x, 'y, 'd) world) io" where
  "retry_or_fail env job worker_id reason_code delay u =
     (if cl_attempt_number job \<ge> cl_max_attempts job
      then bind_io (in_unit_transaction env
             (fail_permanently job worker_id FAILED ''PROCESSING_RETRY_EXHAUSTED'' [] u)) (\<lambda>_. return_io False)
      else bind_io (in_unit_transaction env (schedule_retry job worker_id reason_code delay)) (\<lambda>_. return_io True))"

text \<open>The handlers that retry: \<open>raise \<dots> from error\<close> when a retry was scheduled.\<close>

definition retry_handler ::
  "(session \<Rightarrow> session) \<Rightarrow> 'a ClaimedNativeJob_scheme \<Rightarrow> string \<Rightarrow> string \<Rightarrow> int \<Rightarrow> (nat \<Rightarrow> uuid)
   \<Rightarrow> ('r option, ('x, 'y, 'd) world) io" where
  "retry_handler env job worker_id reason_code delay u =
     bind_io (retry_or_fail env job worker_id reason_code delay u) (\<lambda>retry_scheduled.
       if retry_scheduled then raise_io (RetryableIngestionError reason_code delay) else return_io None)"

section \<open>The successor\<close>

text \<open>Dispatch, and defer the committed job when the broker does not take it.\<close>

definition dispatch_or_defer ::
  "('y, 'd, 'z) worker_deps_scheme \<Rightarrow> (IngestionStage \<Rightarrow> (PipelineTask \<times> string) res) \<Rightarrow> uuid \<Rightarrow> uuid \<Rightarrow> NextStageJob
   \<Rightarrow> (unit, ('x, 'y, 'd) world) io" where
  "dispatch_or_defer deps routes tenant_id document_version_id next_job =
     bind_io (lift_res (routes (nj_stage next_job))) (\<lambda>(task, reason_code).
     catch_io (on_broker (dp_dispatch deps task tenant_id document_version_id (nj_id next_job)))
       (\<lambda>_. in_unit_transaction (dp_env deps) (defer_job_dispatch tenant_id document_version_id next_job reason_code
              (seconds (ws_retry_base_seconds (dp_workers deps))))))"

fun native_routes :: "IngestionStage \<Rightarrow> (PipelineTask \<times> string) res" where
  "native_routes ST_OCR = Inr (OCR_PROCESS, ''OCR_DISPATCH_UNAVAILABLE'')"
| "native_routes ST_CHUNK = Inr (CHUNK_PROCESS, ''CHUNK_DISPATCH_UNAVAILABLE'')"
| "native_routes st = Inl (KeyError (IngestionStage_value st))"

section \<open>A claimed job\<close>

definition process_native_job ::
  "('y, 'd, 'z) native_deps_scheme \<Rightarrow> 'a ClaimedNativeJob_scheme \<Rightarrow> string \<Rightarrow> (nat \<Rightarrow> uuid)
   \<Rightarrow> (NextStageJob, ('x, 'y, 'd) world) io" where
  "process_native_job deps job worker_id u =
     bind_io (lift_res (original_reference (dp_storage deps) (cl_tenant_id job) (cl_document_version_id job)
       (cl_content_sha256 job))) (\<lambda>reference.
     bind_io (on_objects (download_object (dp_client deps) (dp_sha256 deps) (dp_bucket deps) reference
       (min (cl_size_bytes job) (po_upload_max_bytes (dp_policy deps))))) (\<lambda>(source, downloaded_bytes).
     if downloaded_bytes \<noteq> cl_size_bytes job
     then raise_io (TerminalIngestionError FAILED ''UPLOAD_INTEGRITY_MISMATCH'')
     else bind_io (lift_res (parse_pdf ''pypdf'' (nd_parser_version deps) (nd_open deps source) (dp_policy deps)
            (\<lambda>page writer. Inr (write_page (dp_dump_page deps) page writer))
            (page_writer (cl_document_version_id job) ''pypdf'' (nd_parser_version deps)))) (\<lambda>(inspection, writer).
          bind_io (lift_res (finish_pages inspection writer)) (\<lambda>page_lines.
          bind_io (publish_native_artifacts deps job (nd_inspection deps inspection) (dp_encode deps page_lines)
            (ir_route inspection)) (\<lambda>artifacts.
          catch_io (in_transaction (dp_env deps) (native_succeed job worker_id (ir_route inspection)
              (ir_page_count inspection) artifacts (ws_job_max_attempts (dp_workers deps)) u))
            (\<lambda>error. case error of
               JobFenceLostError _ \<Rightarrow>
                 bind_io (remove_uncommitted_artifacts deps artifacts) (\<lambda>_. raise_io error)
             | _ \<Rightarrow> raise_io error))))))"

definition publish_terminal_inspection ::
  "('y, 'd, 'z) native_deps_scheme \<Rightarrow> 'a ClaimedNativeJob_scheme \<Rightarrow> VersionState \<Rightarrow> string
   \<Rightarrow> (PublishedArtifact, ('x, 'y, 'd) world) io" where
  "publish_terminal_inspection deps job state reason_code =
     publish_file deps job ''pypdf'' (''pypdf-'' @ nd_parser_version deps) ''application/json''
       (AT_INSPECTION_REPORT, INSPECTION,
        nd_terminal_inspection deps ''pypdf'' (nd_parser_version deps) state reason_code)"

text \<open>\<open>except (BotoCoreError, ClientError, OSError, StorageIntegrityError)\<close>.\<close>

fun is_store_error :: "py_error \<Rightarrow> bool" where
  "is_store_error StorageError = True"
| "is_store_error OSError = True"
| "is_store_error (StorageIntegrityError _) = True"
| "is_store_error _ = False"

definition record_terminal ::
  "('y, 'd, 'z) native_deps_scheme \<Rightarrow> 'a ClaimedNativeJob_scheme \<Rightarrow> string \<Rightarrow> VersionState \<Rightarrow> string \<Rightarrow> (nat \<Rightarrow> uuid)
   \<Rightarrow> ('r option, ('x, 'y, 'd) world) io" where
  "record_terminal deps job worker_id state reason_code u =
     bind_io (catch_io (bind_io (publish_terminal_inspection deps job state reason_code) (\<lambda>a. return_io (Some a)))
       (\<lambda>error. if is_store_error error
          then retry_handler (dp_env deps) job worker_id ''INGESTION_DEPENDENCY_UNAVAILABLE''
                 (native_retry_delay (dp_workers deps) job) u
          else raise_io error)) (\<lambda>published.
     case published of
       None \<Rightarrow> return_io None
     | Some inspection_artifact \<Rightarrow>
         bind_io (in_unit_transaction (dp_env deps)
           (fail_permanently job worker_id state reason_code [inspection_artifact] u)) (\<lambda>_. return_io None))"

text \<open>The \<open>except\<close> clauses of \<open>process\<close>, in order.\<close>

definition native_handler ::
  "('y, 'd, 'z) native_deps_scheme \<Rightarrow> 'a ClaimedNativeJob_scheme \<Rightarrow> string \<Rightarrow> (nat \<Rightarrow> uuid) \<Rightarrow> py_error
   \<Rightarrow> (NextStageJob option, ('x, 'y, 'd) world) io" where
  "native_handler deps job worker_id u error =
     (case error of
        JobFenceLostError _ \<Rightarrow> return_io None
      | TerminalIngestionError state reason_code \<Rightarrow> record_terminal deps job worker_id state reason_code u
      | StorageIntegrityError _ \<Rightarrow> record_terminal deps job worker_id FAILED ''UPLOAD_INTEGRITY_MISMATCH'' u
      | StorageError \<Rightarrow> retry_handler (dp_env deps) job worker_id ''INGESTION_DEPENDENCY_UNAVAILABLE''
          (native_retry_delay (dp_workers deps) job) u
      | OSError \<Rightarrow> retry_handler (dp_env deps) job worker_id ''INGESTION_DEPENDENCY_UNAVAILABLE''
          (native_retry_delay (dp_workers deps) job) u
      | RetryableIngestionError reason delay \<Rightarrow> raise_io error
      | _ \<Rightarrow> retry_handler (dp_env deps) job worker_id ''NATIVE_PARSER_TEMPORARY_FAILURE''
          (native_retry_delay (dp_workers deps) job) u)"

text \<open>The claim, and without one the successor of an earlier delivery that was committed but perhaps never
  dispatched. \<open>u k\<close> are the identifiers drawn in the \<open>k\<close>th transaction.\<close>

definition claim_or_successor ::
  "(session \<Rightarrow> ('c option \<times> session) res) \<Rightarrow> IngestionJobPayload \<Rightarrow> session
   \<Rightarrow> (('c option \<times> NextStageJob option) \<times> session) res" where
  "claim_or_successor claim payload s =
     bind_res (claim s) (\<lambda>(job, s1).
       Inr ((job, if job = None
                  then pending_successor (jp_tenant_id payload) (jp_document_version_id payload) (jp_job_id payload) s1
                  else None), s1))"

text \<open>One delivery, as the \<open>process\<close> methods of the services have it: without a claim \<open>resume\<close> deals
  with the successor, with one the work is done under the \<open>except\<close> clauses and its result is handed on.\<close>

definition deliver ::
  "('c option \<times> 'q, 'w) io \<Rightarrow> ('q \<Rightarrow> (unit, 'w) io) \<Rightarrow> ('c \<Rightarrow> ('n, 'w) io) \<Rightarrow> ('c \<Rightarrow> py_error \<Rightarrow> ('n option, 'w) io)
   \<Rightarrow> ('c \<Rightarrow> 'n \<Rightarrow> (unit, 'w) io) \<Rightarrow> (unit, 'w) io" where
  "deliver claim resume work handler hand_on =
     bind_io claim (\<lambda>(claimed, successor).
     case claimed of
       None \<Rightarrow> resume successor
     | Some job \<Rightarrow>
         bind_io (catch_io (bind_io (work job) (\<lambda>n. return_io (Some n))) (handler job)) (\<lambda>done.
         case done of
           None \<Rightarrow> return_io ()
         | Some n \<Rightarrow> hand_on job n))"

definition native_process ::
  "('y, 'd, 'z) native_deps_scheme \<Rightarrow> IngestionJobPayload \<Rightarrow> string \<Rightarrow> (nat \<Rightarrow> nat \<Rightarrow> uuid)
   \<Rightarrow> (unit, ('x, 'y, 'd) world) io" where
  "native_process deps payload worker_id u =
     deliver
       (in_transaction (dp_env deps) (claim_or_successor
         (native_claim (jp_tenant_id payload) (jp_document_version_id payload) (jp_job_id payload) worker_id
            (seconds (ws_native_parse_timeout_seconds (dp_workers deps) + 30)) (u 0)) payload))
       (\<lambda>successor. case successor of
          None \<Rightarrow> return_io ()
        | Some next_job \<Rightarrow> dispatch_or_defer deps native_routes (jp_tenant_id payload)
            (jp_document_version_id payload) next_job)
       (\<lambda>job. process_native_job deps job worker_id (u 1))
       (\<lambda>job. native_handler deps job worker_id (u 2))
       (\<lambda>job. dispatch_or_defer deps native_routes (cl_tenant_id job) (cl_document_version_id job))"

section \<open>How a claimed attempt ends\<close>

definition raised :: "'a res \<Rightarrow> py_error option" where
  "raised r = (case r of Inl e \<Rightarrow> Some e | Inr _ \<Rightarrow> None)"

lemma raised_simps [simp]: "raised (Inl e) = Some e" "raised (Inr x) = None"
  by (simp_all add: raised_def)

text \<open>The settings that \<open>WorkerSettings\<close> validates and the retries rest on.\<close>

definition retry_settings_ok :: "WorkerSettings \<Rightarrow> bool" where
  "retry_settings_ok ws \<longleftrightarrow> 1 \<le> ws_retry_base_seconds ws \<and> ws_retry_base_seconds ws \<le> ws_retry_max_seconds ws"

lemma new_worker_settings_retry: "new_worker_settings ws = Inr ws' \<Longrightarrow> retry_settings_ok ws"
  by (simp add: new_worker_settings_def retry_settings_ok_def worker_fields_ok_def in_range_def split: if_split_asm)

text \<open>Errors that a stage handles; the others are a lost lease and a retry that is already scheduled.\<close>

fun plain_error :: "py_error \<Rightarrow> bool" where
  "plain_error (JobFenceLostError _) = False"
| "plain_error (RetryableIngestionError _ _) = False"
| "plain_error _ = True"

lemma is_store_error_plain: "is_store_error e \<Longrightarrow> plain_error e"
  by (cases e) simp_all

text \<open>The two ends of an attempt that did not commit a result, from the session \<open>s\<close> in which the transaction
  begins to the error raised and the session left. The job failed for good, or the transaction that should
  record this raised.\<close>

definition failed_for_good ::
  "'a ClaimedNativeJob_scheme \<Rightarrow> string \<Rightarrow> VersionState \<Rightarrow> string \<Rightarrow> (nat \<Rightarrow> uuid) \<Rightarrow> session \<Rightarrow> py_error option \<Rightarrow> session \<Rightarrow> bool" where
  "failed_for_good job worker_id state reason u s error s' \<longleftrightarrow>
     (\<exists>artifacts. case fail_permanently job worker_id state reason artifacts u s of
        Inr s1 \<Rightarrow> error = None \<and> s' = s1 | Inl e \<Rightarrow> error = Some e \<and> s' = s)"

text \<open>While attempts are left a retry is scheduled and exactly this retry is raised, with a delay between one second
  and the longest one configured; the last attempt fails the job for good.\<close>

definition retried_or_exhausted ::
  "'a ClaimedNativeJob_scheme \<Rightarrow> string \<Rightarrow> string \<Rightarrow> int \<Rightarrow> (nat \<Rightarrow> uuid) \<Rightarrow> session \<Rightarrow> py_error option \<Rightarrow> session \<Rightarrow> bool" where
  "retried_or_exhausted job worker_id reason longest u s error s' \<longleftrightarrow>
     (if cl_attempt_number job < cl_max_attempts job
      then \<exists>delay. 1 \<le> delay \<and> delay \<le> longest \<and>
        (case schedule_retry job worker_id reason delay s of
           Inr s1 \<Rightarrow> error = Some (RetryableIngestionError reason delay) \<and> s' = s1 | Inl e \<Rightarrow> error = Some e \<and> s' = s)
      else failed_for_good job worker_id FAILED ''PROCESSING_RETRY_EXHAUSTED'' u s error s')"

text \<open>What the handlers promise: nothing is sent, no result is reported, and the attempt is closed.\<close>

definition closes ::
  "('r option, ('x, 'y, 'd) world) io \<Rightarrow> ('x, 'y, 'd) world \<Rightarrow> (py_error option \<Rightarrow> session \<Rightarrow> bool) \<Rightarrow> bool" where
  "closes m w P \<longleftrightarrow> (\<forall>r w'. m w = (r, w') \<longrightarrow> w_broker w' = w_broker w \<and> (\<forall>x. r \<noteq> Inr (Some x)) \<and> P (raised r) (w_db w'))"

lemma retry_handler_closes:
  assumes "1 \<le> delay" "delay \<le> longest"
  shows "closes (retry_handler env job worker_id reason delay u) w
    (retried_or_exhausted job worker_id reason longest u (env (w_db w)))"
proof (cases "cl_attempt_number job < cl_max_attempts job")
  case True
  then have "\<not> cl_max_attempts job \<le> cl_attempt_number job" by simp
  with assms show ?thesis
    unfolding closes_def retried_or_exhausted_def if_P [OF True]
    by (intro allI impI conjI exI [of _ delay])
      (auto simp: retry_handler_def retry_or_fail_def bind_io_def in_unit_transaction_eq return_io_def raise_io_def split: sum.splits)
next
  case False
  then show ?thesis
    unfolding closes_def retried_or_exhausted_def if_not_P [OF False] failed_for_good_def
    by (intro allI impI conjI exI [of _ "[]"])
      (auto simp: retry_handler_def retry_or_fail_def bind_io_def in_unit_transaction_eq return_io_def raise_io_def split: sum.splits)
qed

lemma fail_transaction_closes:
  "closes (bind_io (in_unit_transaction env (fail_permanently job worker_id state reason artifacts u)) (\<lambda>_. return_io None)) w
     (failed_for_good job worker_id state reason u (env (w_db w)))"
  unfolding closes_def failed_for_good_def
  by (intro allI impI conjI exI [of _ artifacts])
    (auto simp: bind_io_def in_unit_transaction_eq return_io_def split: sum.splits)

lemma exponential_delay_ge:
  assumes "1 \<le> ws_retry_base_seconds workers"
  shows "ws_retry_base_seconds workers \<le> exponential_delay workers job"
proof -
  have "ws_retry_base_seconds workers * 1 \<le> ws_retry_base_seconds workers * 2 ^ nat (cl_attempt_number job - 1)"
    using assms by (intro mult_left_mono) simp_all
  then show ?thesis by (simp add: exponential_delay_def)
qed

lemma native_retry_delay_bounds:
  assumes "1 \<le> ws_retry_base_seconds workers" "ws_retry_base_seconds workers \<le> ws_retry_max_seconds workers"
  shows "ws_retry_base_seconds workers \<le> native_retry_delay workers job
    \<and> native_retry_delay workers job \<le> ws_retry_max_seconds workers"
proof -
  have "ws_retry_base_seconds workers \<le> exponential_delay workers job"
    using assms(1) by (rule exponential_delay_ge)
  moreover define bounded where "bounded = min (exponential_delay workers job) (ws_retry_max_seconds workers)"
  moreover define jitter where "jitter = uint (cl_id job) mod max (bounded div 4) 1"
  moreover have "0 \<le> jitter" unfolding jitter_def by (intro pos_mod_sign) simp
  moreover have "native_retry_delay workers job = min (bounded + jitter) (ws_retry_max_seconds workers)"
    by (simp add: native_retry_delay_def Let_def bounded_def jitter_def)
  ultimately show ?thesis using assms(2) by linarith
qed

section \<open>What the store can raise\<close>

text \<open>The client raises the errors of its library and of the network, none of the program's own.\<close>

definition client_errors_only :: "'y s3_client \<Rightarrow> bool" where
  "client_errors_only client \<longleftrightarrow> (\<forall>e y1. e = StorageError \<or> e = OSError \<or>
     (\<forall>bucket k y. head_object client bucket k y \<noteq> (Inl e, y1)) \<and> (\<forall>bucket k g y. get_object client bucket k g y \<noteq> (Inl e, y1))
     \<and> (\<forall>n y. read_body client n y \<noteq> (Inl e, y1)) \<and> (\<forall>q c y. put_object client q c y \<noteq> (Inl e, y1)))"

lemma client_errorsD:
  assumes "client_errors_only client"
  shows "head_object client bucket k y = (Inl e, y1) \<Longrightarrow> is_store_error e"
    "get_object client bucket k g y = (Inl e, y1) \<Longrightarrow> is_store_error e"
    "read_body client n y = (Inl e, y1) \<Longrightarrow> is_store_error e"
    "put_object client q c y = (Inl e, y1) \<Longrightarrow> is_store_error e"
  using assms unfolding client_errors_only_def by (metis is_store_error.simps(1,2))+

lemma checksum_header_Inl: "checksum_header_value c = Inl e \<Longrightarrow> is_store_error e"
  by (auto simp: checksum_header_value_def split: option.splits if_splits)

lemma original_reference_Inl: "original_reference settings t v c = Inl e \<Longrightarrow> is_store_error e"
  by (auto simp: original_reference_def bind_res_eq_Inl dest: checksum_header_Inl)

lemma artifact_reference_Inl:
  "artifact_reference settings t v k p c = Inl e \<Longrightarrow> p \<noteq> [] \<Longrightarrow> CHR ''/'' \<notin> set p \<Longrightarrow> is_store_error e"
  by (auto simp: artifact_reference_def bind_res_eq_Inl dest: checksum_header_Inl)

lemma verify_object_Inl:
  assumes "client_errors_only client" and "verify_object client bucket reference n y = (Inl e, y1)"
  shows "is_store_error e"
  using assms(2) unfolding verify_object_def Let_def
proof (rule bind_io_InlE)
  assume "head_object client bucket (or_key reference) y = (Inl e, y1)"
  then show ?thesis by (rule client_errorsD(1) [OF assms(1)])
next
  fix x w1 assume a: "(if hr_content_length x \<noteq> Some n
         then raise_io (StorageIntegrityError ''stored object length does not match expected length'')
         else bind_io (lift_res (checksum_header_value (or_checksum_sha256 reference)))
                (\<lambda>checksum. if hr_checksum_sha256 x \<noteq> Some checksum
                   then raise_io (StorageIntegrityError ''stored object checksum does not match expected checksum'')
                   else if \<not> same_dict (case hr_metadata x of None \<Rightarrow> [] | Some m \<Rightarrow> m) (or_metadata reference)
                        then raise_io (StorageIntegrityError ''stored object provenance metadata does not match'')
                        else return_io \<lparr>so_key = or_key reference, so_content_length = n,
                               so_checksum_sha256 = or_checksum_sha256 reference,
                               so_content_type = hr_content_type x, so_version_id = hr_version_id x,
                               so_metadata = case hr_metadata x of None \<Rightarrow> [] | Some m \<Rightarrow> m\<rparr>)) w1 = (Inl e, y1)"
  then show ?thesis
    by (auto split: if_splits elim!: bind_io_InlE dest: checksum_header_Inl)
qed

lemma upload_file_Inl:
  assumes "client_errors_only client" and "upload_file client settings bucket reference source ct mx y = (Inl e, y1)"
  shows "is_store_error e"
  using assms(2) unfolding upload_file_def upload_object_def Let_def
  by (auto split: if_splits elim!: bind_io_InlE dest: checksum_header_Inl client_errorsD [OF assms(1)]
      verify_object_Inl [OF assms(1)])

lemma download_loop_Inl:
  assumes "client_errors_only client"
  shows "download_loop (read_body client) mx t out y = ((Inl e, out'), y1) \<Longrightarrow> is_store_error e"
proof (induction "read_body client" mx t out y rule: download_loop.induct)
  case (1 mx t out y)
  obtain res y2 where read: "read_body client (min (1024 * 1024) (mx + 1)) y = (res, y2)"
    by (metis surj_pair)
  show ?case
  proof (cases res)
    case (Inl e')
    with "1.prems" read have "e' = e" by (subst (asm) download_loop.simps) simp
    with client_errorsD(3) [OF assms, of "min (1024 * 1024) (mx + 1)" y e y2] read Inl show ?thesis by simp
  next
    case (Inr chunk)
    show ?thesis
    proof (cases "chunk = [] \<or> mx < t + int (length chunk)")
      case True
      with "1.prems" read Inr show ?thesis by (subst (asm) download_loop.simps) (auto split: if_splits)
    next
      case False
      with "1.prems" read Inr have "download_loop (read_body client) mx (t + int (length chunk)) (out @ chunk) y2 = ((Inl e, out'), y1)"
        by (subst (asm) download_loop.simps) simp
      from "1.hyps" [OF read [symmetric] Inr _ _ this] False show ?thesis by simp
    qed
  qed
qed

lemma download_object_Inl:
  assumes "client_errors_only client" and "download_object client sha256 bucket reference mx y = (Inl e, y1)"
  shows "is_store_error e \<or> (\<exists>m. e = ValueError m)"
proof (cases "mx < 1")
  case True
  with assms(2) show ?thesis by (simp add: download_object_def)
next
  case False
  from assms(2) [unfolded download_object_def if_not_P [OF False]] show ?thesis
  proof (rule bind_io_InlE)
    assume "get_object client bucket (or_key reference) None y = (Inl e, y1)"
    with client_errorsD(2) [OF assms(1)] show ?thesis by blast
  next
    fix x w1 assume a: "(if \<not> x then raise_io (StorageIntegrityError ''stored object body is unavailable'')
         else (\<lambda>y. case download_loop (read_body client) mx 0 [] y of
               ((Inl e, output), y1) \<Rightarrow> (Inl e, y1)
             | ((Inr total_bytes, output), y1) \<Rightarrow>
                 if sha256 output \<noteq> or_checksum_sha256 reference
                 then (Inl (StorageIntegrityError ''downloaded object checksum does not match''), y1)
                 else (Inr (output, total_bytes), y1))) w1 = (Inl e, y1)"
    obtain t out y2 where l: "download_loop (read_body client) mx 0 [] w1 = ((t, out), y2)" by (metis surj_pair)
    with a download_loop_Inl [OF assms(1), of mx 0 "[]" w1] show ?thesis
      by (auto split: if_splits sum.splits)
  qed
qed

lemma each_io_Inl:
  "each_io f xs w = (Inl e, w1) \<Longrightarrow> \<exists>x \<in> set xs. \<exists>w w'. f x w = (Inl e, w')"
proof (induction xs arbitrary: w)
  case (Cons x xs)
  from Cons.prems show ?case
    by (auto elim!: bind_io_InlE dest!: Cons.IH)
qed simp

lemma publish_file_Inl:
  assumes "client_errors_only (dp_client deps)" and "CHR ''/'' \<notin> set gv" "gv \<noteq> []"
    and "publish_file deps job gn gv ct x w = (Inl e, w1)"
  shows "is_store_error e"
proof -
  obtain kt kind content where x: "x = (kt, kind, content)" by (cases x)
  from assms(4) show ?thesis
    unfolding x publish_file_def Let_def prod.case
    by (auto elim!: bind_io_InlE dest: artifact_reference_Inl [OF _ assms(3,2)]
        simp: on_objects_eq dest: upload_file_Inl [OF assms(1)])
qed

section \<open>How the work on a claimed job ends\<close>

text \<open>The dependencies raise only their own errors, and the version of the parser is path-safe.\<close>

definition native_dependencies_ok :: "('y, 'd, 'z) native_deps_scheme \<Rightarrow> bool" where
  "native_dependencies_ok deps \<longleftrightarrow> client_errors_only (dp_client deps)
     \<and> CHR ''/'' \<notin> set (nd_parser_version deps) \<and> (\<forall>content. reader_errors (nd_open deps content))"

lemma parse_pdf_Inl:
  assumes "parse_pdf name ver opened policy sink w = Inl e" and "reader_errors opened"
    and "\<And>p w. \<exists>w'. sink p w = Inr w'"
  shows "\<exists>state reason. e = TerminalIngestionError state reason"
proof -
  have inner: "(\<exists>state reason. e' = TerminalIngestionError state reason) \<or> is_malformed e'"
    if e': "parse_opened name ver opened policy sink w = Inl e'" for e'
  proof -
    have ex: "(\<exists>state reason. e' = TerminalIngestionError state reason) \<or> is_malformed e'"
      if "opened = Inr reader" "rd_pages reader = Inr pages" "extract_pages name ver pages policy sink w = Inl e'" for reader pages
    proof -
      from assms(2) that have "\<forall>p \<in> set pages. library_errors (pg_contents p) \<and> library_errors (pg_text p)"
        by (simp add: reader_errors_def)
      from extract_pages_Inl [OF that(3) this assms(3)] show ?thesis by (auto simp: limit_error_def)
    qed
    from e' show ?thesis
      unfolding parse_opened_def using assms(2)
      by (auto simp: bind_res_eq_Inl reader_errors_def library_errors_def split: if_splits dest: ex)
  qed
  obtain e' where e': "parse_opened name ver opened policy sink w = Inl e'"
    using assms(1) by (cases "parse_opened name ver opened policy sink w") (auto simp: parse_pdf_def)
  with assms(1) inner [OF e'] show ?thesis
    by (cases e') (auto simp: parse_pdf_def split: if_splits)
qed

lemma keeps_db_publish_file [intro]: "keeps_db (publish_file deps job gn gv ct x)"
  by (cases x) (auto simp: publish_file_def Let_def)

lemma keeps_db_remove [intro]: "keeps_db (remove_uncommitted_artifacts deps artifacts)"
  unfolding remove_uncommitted_artifacts_def by auto

lemma remove_uncommitted_Inr: "\<exists>w'. remove_uncommitted_artifacts deps artifacts w = (Inr (), w') \<and> w_db w' = w_db w"
proof -
  let ?f = "\<lambda>a. suppress_io (on_objects (delete_key (dp_client deps) (dp_storage deps) (dp_bucket deps) (pa_object_key a)))"
  have "\<exists>us w'. each_io ?f artifacts w = (Inr us, w')" for w
  proof (induction artifacts arbitrary: w)
    case (Cons x xs)
    obtain us w' where "each_io ?f xs (snd (on_objects (delete_key (dp_client deps) (dp_storage deps) (dp_bucket deps)
        (pa_object_key x)) w)) = (Inr us, w')" using Cons.IH by blast
    then have "each_io ?f (x # xs) w = (Inr (() # us), w')"
      by (simp only: each_io.simps bind_io_def [of "?f x"] suppress_io_def [of _ w] prod.case sum.case)
        (simp add: bind_io_def return_io_def)
    then show ?case by blast
  qed (simp add: return_io_def)
  then obtain us w' where "each_io ?f artifacts w = (Inr us, w')" by blast
  then have "remove_uncommitted_artifacts deps artifacts w = (Inr (), w')"
    unfolding remove_uncommitted_artifacts_def by (simp add: bind_io_def return_io_def)
  with keeps_dbD [OF keeps_db_remove this] show ?thesis by blast
qed

text \<open>The attempt to commit, and what is raised when it fails.\<close>

lemma commit_part:
  assumes "catch_io (in_transaction env body) (\<lambda>error. case error of
       JobFenceLostError _ \<Rightarrow> bind_io (remove_uncommitted_artifacts deps artifacts) (\<lambda>_. raise_io error)
     | _ \<Rightarrow> raise_io error) w = (r, w')"
  shows "(\<exists>x. r = Inr x \<and> body (env (w_db w)) = Inr (x, w_db w')) \<or> (\<exists>e. r = Inl e \<and> body (w_db w') = Inl e)"
proof (cases "in_transaction env body w")
  case (Pair t w1)
  show ?thesis
  proof (cases t)
    case (Inr x)
    with Pair assms have "r = Inr x" "w' = w1" by (simp_all add: catch_io_def)
    with Pair Inr show ?thesis by (auto simp: in_transaction_Inr)
  next
    case (Inl e)
    with Pair have b: "body (w_db w1) = Inl e" by (auto simp: in_transaction_Inl)
    have "r = Inl e \<and> w_db w' = w_db w1"
    proof (cases "\<exists>m. e = JobFenceLostError m")
      case True
      then obtain m where m: "e = JobFenceLostError m" by blast
      obtain w2 where rm: "remove_uncommitted_artifacts deps artifacts w1 = (Inr (), w2)" "w_db w2 = w_db w1"
        using remove_uncommitted_Inr by blast
      from assms Pair Inl m rm(1) have "r = Inl e" "w' = w2" by (simp_all add: catch_io_def bind_io_def raise_io_def)
      with rm(2) show ?thesis by simp
    next
      case False
      with assms Pair Inl have "r = Inl e \<and> w' = w1" by (cases e) (simp_all add: catch_io_def raise_io_def)
      then show ?thesis by simp
    qed
    with b show ?thesis by auto
  qed
qed

lemma publish_native_Inl:
  assumes "publish_native_artifacts deps job a b route w = (Inl e, w1)" and "native_dependencies_ok deps"
  shows "is_store_error e"
proof -
  from each_io_Inl [OF assms(1) [unfolded publish_native_artifacts_def]] show ?thesis
  proof (elim bexE exE)
    fix x w w1
    assume "publish_file deps job ''pypdf'' (''pypdf-'' @ nd_parser_version deps) ''application/json'' x w = (Inl e, w1)"
    from publish_file_Inl [OF _ _ _ this] assms(2) show ?thesis by (simp add: native_dependencies_ok_def)
  qed
qed

text \<open>Before the commit only errors of the store, of the checks and of the parser are raised.\<close>

lemma process_native_job_ends:
  assumes "process_native_job deps job worker_id u w = (r, w')" and "native_dependencies_ok deps"
  shows "(\<exists>e. r = Inl e \<and> (is_store_error e \<or> (\<exists>m. e = ValueError m) \<or> (\<exists>s x. e = TerminalIngestionError s x)))
    \<or> (\<exists>s route page_count artifacts.
        (\<exists>nj. r = Inr nj \<and> native_succeed job worker_id route page_count artifacts
              (ws_job_max_attempts (dp_workers deps)) u s = Inr (nj, w_db w'))
        \<or> (\<exists>e. r = Inl e \<and> native_succeed job worker_id route page_count artifacts
              (ws_job_max_attempts (dp_workers deps)) u (w_db w') = Inl e))"
proof -
  let ?ok = "\<lambda>e. is_store_error e \<or> (\<exists>m. e = ValueError m) \<or> (\<exists>s x. e = TerminalIngestionError s x)"
  let ?Q = "\<lambda>r w'. (\<exists>e. r = Inl e \<and> ?ok e)
    \<or> (\<exists>s route page_count artifacts.
        (\<exists>nj. r = Inr nj \<and> native_succeed job worker_id route page_count artifacts
              (ws_job_max_attempts (dp_workers deps)) u s = Inr (nj, w_db w'))
        \<or> (\<exists>e. r = Inl e \<and> native_succeed job worker_id route page_count artifacts
              (ws_job_max_attempts (dp_workers deps)) u (w_db w') = Inl e))"
  have client: "client_errors_only (dp_client deps)" using assms(2) by (simp add: native_dependencies_ok_def)
  have parse: "raises_only ?ok (lift_res (parse_pdf ''pypdf'' (nd_parser_version deps) (nd_open deps source) (dp_policy deps)
            (\<lambda>page writer. Inr (write_page (dp_dump_page deps) page writer)) writer))" for source writer
  proof -
    have "?ok e" if "parse_pdf ''pypdf'' (nd_parser_version deps) (nd_open deps source) (dp_policy deps)
            (\<lambda>page writer. Inr (write_page (dp_dump_page deps) page writer)) writer = Inl e" for e
    proof -
      have "reader_errors (nd_open deps source)" using assms(2) by (simp add: native_dependencies_ok_def)
      from parse_pdf_Inl [OF that this] show ?thesis by blast
    qed
    then show ?thesis by (simp add: raises_only_def)
  qed
  have "posts ?Q (process_native_job deps job worker_id u)"
    unfolding process_native_job_def
    apply (rule posts_bind [where P = ?ok])
      apply (auto simp: raises_only_def dest: original_reference_Inl) [1]
     apply blast
    apply (rule posts_bind [where P = ?ok])
      apply (auto simp: raises_only_def on_objects_eq dest: download_object_Inl [OF client]) [1]
     apply blast
    apply (simp only: split_paired_all prod.case)
    apply (rule posts_if)
     apply (simp add: posts_def raise_io_def)
    apply (rule posts_bind [where P = ?ok, OF parse])
     apply blast
    apply (simp only: split_paired_all prod.case)
    apply (rule posts_bind [where P = ?ok])
      apply (auto simp: raises_only_def simp: finish_pages_def split: if_splits) [1]
     apply blast
    apply (rule posts_bind [where P = ?ok])
      apply (auto simp: raises_only_def dest: publish_native_Inl [OF _ assms(2)]) [1]
     apply blast
    unfolding posts_def
    apply (intro allI impI)
    apply (drule commit_part)
    apply (erule disjE)
     apply blast
    apply blast
    done
  from postsD [OF this assms(1)] show ?thesis .
qed

section \<open>How a delivery ends\<close>

lemma native_succeed_stage:
  assumes "native_succeed job worker_id route page_count artifacts max_attempts u s = Inr (nj, s')"
  shows "nj_stage nj = (if route = ROUTE_NATIVE then ST_CHUNK else ST_OCR)"
  using assms unfolding native_succeed_def
  by (cases "route = ROUTE_NATIVE") (auto simp: bind_res_eq_Inr)

text \<open>What becomes of a committed successor: exactly one task for it is sent to the worker of its stage; when the broker
  refuses it, the code's own transaction defers the job, and only if that fails is an error raised.\<close>

definition handed_on ::
  "('y, 'd, 'z) worker_deps_scheme \<Rightarrow> (IngestionStage \<Rightarrow> (PipelineTask \<times> string) res) \<Rightarrow> uuid \<Rightarrow> uuid \<Rightarrow> NextStageJob
   \<Rightarrow> ('x, 'y, 'd) world \<Rightarrow> unit res \<Rightarrow> ('x, 'y, 'd) world \<Rightarrow> bool" where
  "handed_on deps routes tenant_id version_id nj w r w' \<longleftrightarrow>
     (\<exists>task reason answer. routes (nj_stage nj) = Inr (task, reason)
        \<and> dp_dispatch deps task tenant_id version_id (nj_id nj) (w_broker w) = (answer, w_broker w')
        \<and> (case answer of
             Inr _ \<Rightarrow> r = Inr () \<and> w_db w' = w_db w
           | Inl _ \<Rightarrow>
               case defer_job_dispatch tenant_id version_id nj reason (seconds (ws_retry_base_seconds (dp_workers deps)))
                   (dp_env deps (w_db w)) of
                 Inr s \<Rightarrow> r = Inr () \<and> w_db w' = s
               | Inl e \<Rightarrow> r = Inl e \<and> w_db w' = dp_env deps (w_db w)))"

lemma dispatch_or_defer_ends:
  assumes "dispatch_or_defer deps routes tenant_id version_id nj w = (r, w')" and "routes (nj_stage nj) = Inr tr"
  shows "handed_on deps routes tenant_id version_id nj w r w'"
proof -
  obtain task reason where tr: "tr = (task, reason)" by (cases tr)
  obtain answer b where p: "dp_dispatch deps task tenant_id version_id (nj_id nj) (w_broker w) = (answer, b)"
    by (metis surj_pair)
  show ?thesis
    unfolding handed_on_def
    using assms by (intro exI [of _ task] exI [of _ reason] exI [of _ answer])
      (auto simp: dispatch_or_defer_def tr bind_io_def lift_res_def catch_io_def on_broker_def p in_unit_transaction_eq
        split: sum.splits)
qed

section \<open>The handler closes the attempt\<close>

text \<open>The errors that fail a native job for good, with the state and the reason they give.\<close>

fun native_terminal :: "py_error \<Rightarrow> (VersionState \<times> string) option" where
  "native_terminal (TerminalIngestionError state reason) = Some (state, reason)"
| "native_terminal (StorageIntegrityError _) = Some (FAILED, ''UPLOAD_INTEGRITY_MISMATCH'')"
| "native_terminal _ = None"

text \<open>A terminal error fails the job for good once its report is stored; when the store refuses the report, and for every
  other error, the job is retried.\<close>

definition native_closed ::
  "('y, 'd, 'z) native_deps_scheme \<Rightarrow> 'a ClaimedNativeJob_scheme \<Rightarrow> string \<Rightarrow> (nat \<Rightarrow> uuid) \<Rightarrow> py_error
   \<Rightarrow> ('x, 'y, 'd) world \<Rightarrow> py_error option \<Rightarrow> session \<Rightarrow> bool" where
  "native_closed deps job worker_id u error w outcome s' \<longleftrightarrow>
     (let retried = (\<lambda>reason. retried_or_exhausted job worker_id reason (ws_retry_max_seconds (dp_workers deps)) u
            (dp_env deps (w_db w)) outcome s')
      in case native_terminal error of
           Some (state, reason) \<Rightarrow>
             (case fst (publish_terminal_inspection deps job state reason w) of
                Inr _ \<Rightarrow> failed_for_good job worker_id state reason u (dp_env deps (w_db w)) outcome s'
              | Inl _ \<Rightarrow> retried ''INGESTION_DEPENDENCY_UNAVAILABLE'')
         | None \<Rightarrow> retried (if is_store_error error then ''INGESTION_DEPENDENCY_UNAVAILABLE''
             else ''NATIVE_PARSER_TEMPORARY_FAILURE''))"

lemma keeps_publish_file: "keeps_db (publish_file deps job name v ct x)" "keeps_broker (publish_file deps job name v ct x)"
  unfolding publish_file_def Let_def by (auto split: prod.splits)

lemma record_terminal_closes:
  assumes "native_dependencies_ok deps" and "retry_settings_ok (dp_workers deps)"
    and "native_terminal error = Some (state, reason)"
  shows "closes (record_terminal deps job worker_id state reason u) w (native_closed deps job worker_id u error w)"
proof -
  from native_retry_delay_bounds [of "dp_workers deps" job] assms(2) have d:
    "1 \<le> native_retry_delay (dp_workers deps) job" "native_retry_delay (dp_workers deps) job \<le> ws_retry_max_seconds (dp_workers deps)"
    unfolding retry_settings_ok_def by linarith+
  obtain t w1 where p: "publish_terminal_inspection deps job state reason w = (t, w1)" by (metis surj_pair)
  have keep: "w_db w1 = w_db w" "w_broker w1 = w_broker w"
    using p keeps_dbD [OF keeps_publish_file(1)] keeps_brokerD [OF keeps_publish_file(2)]
    unfolding publish_terminal_inspection_def by blast+
  show ?thesis
  proof (cases t)
    case (Inl e)
    with p have store: "is_store_error e"
      using publish_file_Inl [OF _ _ _ p [unfolded publish_terminal_inspection_def Inl]] assms(1)
      by (simp add: native_dependencies_ok_def)
    obtain q :: "PublishedArtifact option res" and w2 where q: "retry_handler (dp_env deps) job worker_id
        ''INGESTION_DEPENDENCY_UNAVAILABLE'' (native_retry_delay (dp_workers deps) job) u w1 = (q, w2)" by (metis surj_pair)
    from retry_handler_closes [OF d, of "dp_env deps" job worker_id "''INGESTION_DEPENDENCY_UNAVAILABLE''" u w1] q
    have c: "w_broker w2 = w_broker w1" "\<forall>x. q \<noteq> Inr (Some x)" "retried_or_exhausted job worker_id
        ''INGESTION_DEPENDENCY_UNAVAILABLE'' (ws_retry_max_seconds (dp_workers deps)) u (dp_env deps (w_db w1)) (raised q) (w_db w2)"
      unfolding closes_def by blast+
    then show ?thesis
      using keep unfolding closes_def native_closed_def
      by (auto simp: assms(3) p Inl store q record_terminal_def bind_io_def catch_io_def return_io_def split: sum.splits option.splits)
  next
    case (Inr a)
    from fail_transaction_closes [of "dp_env deps" job worker_id state reason "[a]" u w1] show ?thesis
      using keep unfolding closes_def native_closed_def
      by (simp add: assms(3) p Inr record_terminal_def bind_io_def catch_io_def return_io_def)
  qed
qed

lemma native_handler_ends:
  assumes "native_dependencies_ok deps" and "retry_settings_ok (dp_workers deps)" and "plain_error error"
  shows "closes (native_handler deps job worker_id u error) w (native_closed deps job worker_id u error w)"
proof (cases "native_terminal error")
  case None
  from native_retry_delay_bounds [of "dp_workers deps" job] assms(2) have d:
    "1 \<le> native_retry_delay (dp_workers deps) job" "native_retry_delay (dp_workers deps) job \<le> ws_retry_max_seconds (dp_workers deps)"
    unfolding retry_settings_ok_def by linarith+
  note retry = retry_handler_closes [OF d, of "dp_env deps" job worker_id _ u w]
  have "native_closed deps job worker_id u error w = retried_or_exhausted job worker_id
      (if is_store_error error then ''INGESTION_DEPENDENCY_UNAVAILABLE'' else ''NATIVE_PARSER_TEMPORARY_FAILURE'')
      (ws_retry_max_seconds (dp_workers deps)) u (dp_env deps (w_db w))"
    by (intro ext) (simp add: native_closed_def None)
  with None assms(3) show ?thesis
    by (cases error) (use retry in \<open>simp_all add: native_handler_def\<close>)
next
  case (Some e)
  obtain state reason where e: "e = (state, reason)" by (cases e)
  note terminal = record_terminal_closes [OF assms(1,2) Some [unfolded e], of job worker_id u w]
  from Some assms(3) show ?thesis
    unfolding e by (cases error) (use terminal in \<open>simp_all add: native_handler_def\<close>)
qed

section \<open>The stages of the pipeline as a contract\<close>

text \<open>What a stage's work, its \<open>except\<close> clauses and the handing on of its result promise each other:
  \<open>commits job s t\<close> says that a transaction recording the result of \<open>job\<close> gives \<open>t\<close> when it runs in \<open>s\<close>.\<close>

locale pipeline_stage =
  fixes usable :: bool
    and work :: "'c \<Rightarrow> ('n, ('x, 'y, 'd) world) io"
    and handler :: "'c \<Rightarrow> py_error \<Rightarrow> ('n option, ('x, 'y, 'd) world) io"
    and hand_on :: "'c \<Rightarrow> 'n \<Rightarrow> (unit, ('x, 'y, 'd) world) io"
    and commits :: "'c \<Rightarrow> session \<Rightarrow> ('n \<times> session) res \<Rightarrow> bool"
    and closed :: "'c \<Rightarrow> py_error \<Rightarrow> ('x, 'y, 'd) world \<Rightarrow> py_error option \<Rightarrow> session \<Rightarrow> bool"
    and passed :: "'c \<Rightarrow> 'n \<Rightarrow> ('x, 'y, 'd) world \<Rightarrow> unit res \<Rightarrow> ('x, 'y, 'd) world \<Rightarrow> bool"
  assumes work_sends_nothing: "keeps_broker (work job)"
    and work_ends: "usable \<Longrightarrow> work job w = (r, w') \<Longrightarrow>
      (\<exists>s n. r = Inr n \<and> commits job s (Inr (n, w_db w')))
      \<or> (\<exists>e. r = Inl e \<and> (plain_error e \<or> commits job (w_db w') (Inl e)))"
    and handler_closes: "usable \<Longrightarrow> plain_error e \<Longrightarrow> closes (handler job e) w (closed job e w)"
    and handler_passes: "usable \<Longrightarrow> \<not> plain_error e \<Longrightarrow>
      handler job e w = ((case e of JobFenceLostError _ \<Rightarrow> Inr None | _ \<Rightarrow> Inl e), w)"
    and hand_on_ends: "usable \<Longrightarrow> commits job s (Inr (n, w_db w)) \<Longrightarrow> hand_on job n w = (v, w') \<Longrightarrow>
      passed job n w v w'"
begin

lemma delivery_ends:
  assumes "usable" and "deliver claim resume work handler hand_on w = (r, w')"
    and "claim w = (Inr (Some job, rest), w1)"
  shows "\<exists>t w2. work job w1 = (t, w2) \<and> w_broker w2 = w_broker w1 \<and>
    (case t of
       Inr n \<Rightarrow> (\<exists>s. commits job s (Inr (n, w_db w2))) \<and> passed job n w2 r w'
     | Inl e \<Rightarrow> w_broker w' = w_broker w1 \<and>
         (if plain_error e then closed job e w2 (raised r) (w_db w')
          else w' = w2 \<and> r = (case e of JobFenceLostError _ \<Rightarrow> Inr () | _ \<Rightarrow> Inl e) \<and> commits job (w_db w2) (Inl e)))"
proof -
  obtain t w2 where t: "work job w1 = (t, w2)" by (metis surj_pair)
  have b: "w_broker w2 = w_broker w1" using keeps_brokerD [OF work_sends_nothing t] .
  from assms(2,3) have eq: "bind_io (catch_io (bind_io (work job) (\<lambda>n. return_io (Some n))) (handler job))
      (\<lambda>done. case done of None \<Rightarrow> return_io () | Some n \<Rightarrow> hand_on job n) w1 = (r, w')"
    by (simp add: deliver_def bind_io_def)
  show ?thesis
  proof (cases t)
    case (Inr n)
    with work_ends [OF assms(1) t] obtain s where s: "commits job s (Inr (n, w_db w2))" by blast
    from eq t Inr have "hand_on job n w2 = (r, w')"
      by (simp add: bind_io_def catch_io_def return_io_def)
    from s hand_on_ends [OF assms(1) s this] show ?thesis using t b Inr by auto
  next
    case (Inl e)
    obtain q w3 where h: "handler job e w2 = (q, w3)" by (metis surj_pair)
    show ?thesis
    proof (cases "plain_error e")
      case True
      note c = handler_closes [OF assms(1) True, of job w2, unfolded closes_def, rule_format, OF h]
      then have "raised r = raised q \<and> w' = w3"
        using eq t Inl h by (cases q) (auto simp: bind_io_def catch_io_def return_io_def split: option.splits)
      with c True t b Inl show ?thesis by auto
    next
      case False
      from handler_passes [OF assms(1) False, of job w2] h have q: "q = (case e of JobFenceLostError _ \<Rightarrow> Inr None | _ \<Rightarrow> Inl e)" "w3 = w2"
        by simp_all
      then have "w' = w2 \<and> r = (case e of JobFenceLostError _ \<Rightarrow> Inr () | _ \<Rightarrow> Inl e)"
        using eq t Inl h by (cases e) (auto simp: bind_io_def catch_io_def return_io_def)
      moreover have "commits job (w_db w2) (Inl e)" using work_ends [OF assms(1) t] Inl False by blast
      ultimately show ?thesis using False t b Inl by auto
    qed
  qed
qed

end

definition native_commits ::
  "int \<Rightarrow> string \<Rightarrow> (nat \<Rightarrow> uuid) \<Rightarrow> 'a ClaimedNativeJob_scheme \<Rightarrow> session \<Rightarrow> (NextStageJob \<times> session) res \<Rightarrow> bool" where
  "native_commits max_attempts worker_id u job s t \<longleftrightarrow>
     (\<exists>route page_count artifacts. native_succeed job worker_id route page_count artifacts max_attempts u s = t)"

lemma keeps_broker_native: "keeps_broker (process_native_job deps job worker_id u)"
  unfolding process_native_job_def publish_native_artifacts_def remove_uncommitted_artifacts_def
  by (intro keeps_broker_bind keeps_broker_basic)
    (auto intro!: keeps_broker_bind keeps_broker_if keeps_broker_catch keeps_broker_each keeps_publish_file keeps_broker_suppress
      split: prod.splits py_error.splits)

interpretation native_stage: pipeline_stage
  "native_dependencies_ok deps \<and> retry_settings_ok (dp_workers deps)"
  "\<lambda>job. process_native_job deps job worker_id u1"
  "\<lambda>job. native_handler deps job worker_id u2"
  "\<lambda>job. dispatch_or_defer deps native_routes (cl_tenant_id job) (cl_document_version_id job)"
  "native_commits (ws_job_max_attempts (dp_workers deps)) worker_id u1"
  "\<lambda>job. native_closed deps job worker_id u2"
  "\<lambda>job. handed_on deps native_routes (cl_tenant_id job) (cl_document_version_id job)"
  for deps :: "('y, 'd, 'z) native_deps_scheme" and worker_id u1 u2
proof
  fix job :: "'a ClaimedNativeJob_scheme"
  show "keeps_broker (process_native_job deps job worker_id u1)" by (rule keeps_broker_native)
next
  fix job :: "'a ClaimedNativeJob_scheme" and w w' :: "('x, 'y, 'd) world" and r
  assume "native_dependencies_ok deps \<and> retry_settings_ok (dp_workers deps)"
    and "process_native_job deps job worker_id u1 w = (r, w')"
  with process_native_job_ends [of deps job worker_id u1 w r w'] show
    "(\<exists>s n. r = Inr n \<and> native_commits (ws_job_max_attempts (dp_workers deps)) worker_id u1 job s (Inr (n, w_db w')))
      \<or> (\<exists>e. r = Inl e \<and> (plain_error e
          \<or> native_commits (ws_job_max_attempts (dp_workers deps)) worker_id u1 job (w_db w') (Inl e)))"
    unfolding native_commits_def using is_store_error_plain by fastforce
next
  fix job :: "'a ClaimedNativeJob_scheme" and w :: "('x, 'y, 'd) world" and e
  assume "native_dependencies_ok deps \<and> retry_settings_ok (dp_workers deps)" and "plain_error e"
  then show "closes (native_handler deps job worker_id u2 e) w (native_closed deps job worker_id u2 e w)"
    by (intro native_handler_ends) simp_all
next
  fix job :: "'a ClaimedNativeJob_scheme" and w :: "('x, 'y, 'd) world" and e
  assume "\<not> plain_error e"
  then show "native_handler deps job worker_id u2 e w = ((case e of JobFenceLostError _ \<Rightarrow> Inr None | _ \<Rightarrow> Inl e), w)"
    by (cases e) (simp_all add: native_handler_def return_io_def raise_io_def)
next
  fix job :: "'a ClaimedNativeJob_scheme" and s n and w w' :: "('x, 'y, 'd) world" and v
  assume "native_commits (ws_job_max_attempts (dp_workers deps)) worker_id u1 job s (Inr (n, w_db w))"
    and d: "dispatch_or_defer deps native_routes (cl_tenant_id job) (cl_document_version_id job) n w = (v, w')"
  then obtain route page_count artifacts where
    "native_succeed job worker_id route page_count artifacts (ws_job_max_attempts (dp_workers deps)) u1 s = Inr (n, w_db w)"
    unfolding native_commits_def by (elim exE)
  note stage = native_succeed_stage [OF this]
  have "nj_stage n = ST_CHUNK \<or> nj_stage n = ST_OCR" unfolding stage by (simp split: if_splits)
  then obtain tr where "native_routes (nj_stage n) = Inr tr" by auto
  from dispatch_or_defer_ends [OF d this] show
    "handed_on deps native_routes (cl_tenant_id job) (cl_document_version_id job) n w v w'" .
qed

text \<open>C16: a native delivery that claims a job always ends the attempt, whatever the store, the broker and the PDF
  library do within their documented errors. When the work succeeds, its result was committed and the one task of
  the successor was sent, or, when the broker refused it, the successor was deferred. When it raises, nothing is sent,
  and it depends on the error how the attempt is closed: a terminal error fails the job for good with its state and
  reason once its report is stored, every other error schedules a retry within the configured bound as long as
  attempts are left, exactly that retry is raised, and the last attempt fails for good; only a commit that was
  refused because the lease was lost ends silently, and one for which the database asked for a retry raises it.\<close>

theorem native_attempt_ends:
  assumes "native_dependencies_ok deps" and "new_worker_settings (dp_workers deps) = Inr (dp_workers deps)"
    and "native_claim (jp_tenant_id payload) (jp_document_version_id payload) (jp_job_id payload) worker_id
       (seconds (ws_native_parse_timeout_seconds (dp_workers deps) + 30)) (u 0) (dp_env deps (w_db w)) = Inr (Some job, s0)"
    and "native_process deps payload worker_id u w = (r, w')"
  shows "\<exists>t w2. process_native_job deps job worker_id (u 1) (w\<lparr>w_db := s0\<rparr>) = (t, w2) \<and> w_broker w2 = w_broker w \<and>
    (case t of
       Inr next_job \<Rightarrow>
         (\<exists>s route page_count artifacts.
            native_succeed job worker_id route page_count artifacts (ws_job_max_attempts (dp_workers deps)) (u 1) s
              = Inr (next_job, w_db w2))
         \<and> handed_on deps native_routes (cl_tenant_id job) (cl_document_version_id job) next_job w2 r w'
     | Inl e \<Rightarrow> w_broker w' = w_broker w \<and>
         (if plain_error e then native_closed deps job worker_id (u 2) e w2 (raised r) (w_db w')
          else w' = w2 \<and> r = (case e of JobFenceLostError _ \<Rightarrow> Inr () | _ \<Rightarrow> Inl e)
            \<and> (\<exists>route page_count artifacts. native_succeed job worker_id route page_count artifacts
                 (ws_job_max_attempts (dp_workers deps)) (u 1) (w_db w2) = Inl e)))"
proof -
  have claim: "in_transaction (dp_env deps) (claim_or_successor
         (native_claim (jp_tenant_id payload) (jp_document_version_id payload) (jp_job_id payload) worker_id
            (seconds (ws_native_parse_timeout_seconds (dp_workers deps) + 30)) (u 0)) payload) w
      = (Inr (Some job, None), w\<lparr>w_db := s0\<rparr>)"
    unfolding in_transaction_Inr claim_or_successor_def using assms(3) by simp
  have broker: "w_broker (w\<lparr>w_db := s0\<rparr>) = w_broker w" by simp
  show ?thesis
    using native_stage.delivery_ends [OF _ assms(4) [unfolded native_process_def] claim] assms(1)
      new_worker_settings_retry [OF assms(2)]
    unfolding native_commits_def broker by blast
qed

definition sample_workers :: WorkerSettings where
  "sample_workers = \<lparr>ws_native_concurrency = 1, ws_ocr_concurrency = 1, ws_publication_concurrency = 1,
     ws_lifecycle_concurrency = 1, ws_native_parse_timeout_seconds = 30, ws_ocr_timeout_seconds = 30,
     ws_publication_timeout_seconds = 30, ws_lifecycle_timeout_seconds = 30, ws_shutdown_grace_seconds = 60,
     ws_job_max_attempts = 3, ws_max_tasks_per_child = 10, ws_retry_base_seconds = 5, ws_retry_max_seconds = 60\<rparr>"

definition sample_deps :: "(memory, string list) worker_deps" where
  "sample_deps = \<lparr>dp_env = id, dp_client = memory_client, dp_storage = sample_settings, dp_bucket = ''b'',
     dp_sha256 = sample_digest, dp_dispatch = (\<lambda>task t v j sent. (Inr (), sent @ [PipelineTask_value task])),
     dp_policy = sample_policy, dp_workers = sample_workers, dp_encode = (\<lambda>_. [1]), dp_decode = (\<lambda>_. Inr []),
     dp_dump_page = flat_page, dp_validate_page = unflat_page\<rparr>"

definition sample_native_deps :: "(memory, string list) native_deps" where
  "sample_native_deps = worker_deps.extend sample_deps
     \<lparr>nd_parser_version = ''5'', nd_open = (\<lambda>_. Inr (sample_reader [])), nd_inspection = (\<lambda>_. [2]),
      nd_terminal_inspection = (\<lambda>_ _ _ _. [3])\<rparr>"

definition sample_world :: "session \<Rightarrow> (unit, memory, string list) world" where
  "sample_world s = \<lparr>w_db = s, w_search = (), w_objects = (Map.empty, []), w_broker = []\<rparr>"

lemma memory_client_errors: "client_errors_only memory_client"
  by (auto simp: client_errors_only_def memory_client_def split: option.splits)

lemma sample_workers_ok: "new_worker_settings sample_workers = Inr sample_workers"
  by (simp add: new_worker_settings_def sample_workers_def worker_fields_ok_def in_range_def)

text \<open>The source of the sample is missing from the store.\<close>

theorem native_attempt_ends_witness:
  "\<exists>r w' w2. native_process sample_native_deps \<lparr>jp_tenant_id = 1, jp_document_version_id = 4, jp_job_id = 23\<rparr> ''w1''
       (\<lambda>k n. word_of_nat (n + 40 + 20 * k)) (sample_world queued_session) = (r, w')
     \<and> process_native_job sample_native_deps sample_claim ''w1'' (\<lambda>n. word_of_nat (n + 60))
         (sample_world queued_session\<lparr>w_db := parsing_session\<rparr>) = (Inl StorageError, w2)
     \<and> w_broker w' = []
     \<and> retried_or_exhausted sample_claim ''w1'' ''INGESTION_DEPENDENCY_UNAVAILABLE'' 60 (\<lambda>n. word_of_nat (n + 80))
         (w_db w2) (raised r) (w_db w')"
proof -
  let ?p = "\<lparr>jp_tenant_id = 1, jp_document_version_id = 4, jp_job_id = 23\<rparr>"
  let ?u = "\<lambda>k n. word_of_nat (n + 40 + 20 * k)"
  have ok: "native_dependencies_ok sample_native_deps"
    by (simp add: native_dependencies_ok_def sample_native_deps_def sample_deps_def worker_deps.defs memory_client_errors
        reader_errors_def library_errors_def sample_reader_def has_active_or_embedded_content_def
        page_actions_def sample_pdf_page_def)
  have fields: "dp_workers sample_native_deps = sample_workers" "dp_env sample_native_deps = id"
    "dp_client sample_native_deps = memory_client" "dp_storage sample_native_deps = sample_settings"
    "dp_policy sample_native_deps = sample_policy"
    by (simp_all add: sample_native_deps_def sample_deps_def worker_deps.defs)
  obtain r w' where p: "native_process sample_native_deps ?p ''w1'' ?u (sample_world queued_session) = (r, w')"
    by (metis surj_pair)
  have claim: "native_claim (jp_tenant_id ?p) (jp_document_version_id ?p) (jp_job_id ?p) ''w1''
       (seconds (ws_native_parse_timeout_seconds (dp_workers sample_native_deps) + 30)) (?u 0)
       (dp_env sample_native_deps (w_db (sample_world queued_session))) = Inr (Some sample_claim, parsing_session)"
    using sample_native_claim by (simp add: fields sample_workers_def sample_world_def)
  have workers: "new_worker_settings (dp_workers sample_native_deps) = Inr (dp_workers sample_native_deps)"
    using sample_workers_ok by (simp add: fields)
  obtain t w2 where t: "process_native_job sample_native_deps sample_claim ''w1'' (?u 1)
      (sample_world queued_session\<lparr>w_db := parsing_session\<rparr>) = (t, w2)" by (metis surj_pair)
  have "t = Inl StorageError"
    using t sha_header
    by (auto simp: sample_claim_def process_native_job_def original_reference_def bind_io_def lift_res_def fields on_objects_def
        download_object_def memory_client_def sample_world_def sample_policy_def)
  note e = this
  from native_attempt_ends [OF ok workers claim p] t e have
    "w_broker w' = w_broker (sample_world queued_session)" "native_closed sample_native_deps sample_claim ''w1'' (?u 2) StorageError w2 (raised r) (w_db w')"
    by (simp_all add: add.commute)
  with p t e show ?thesis
    by (intro exI [of _ r] exI [of _ w'] exI [of _ w2])
      (simp add: native_closed_def fields sample_workers_def sample_world_def add_ac)
qed

end
