(* ===== verification/Ocr_Service.thy ===== *)
theory Ocr_Service
  imports Native_Service Ocr_Repository
begin

text \<open>
  \<open>ingestion/ocr_service.py\<close>: one delivery of an OCR job. The OCR provider is an argument: its name,
  its version and what it returns for the pages asked for. The metrics and the private directory are
  left out; a file is decoded before it is read.
\<close>

section \<open>What the service is given\<close>

record OcrProvider =
  op_name :: string
  op_provider_version :: string
  op_enrich_pages :: "bytes \<Rightarrow> int list \<Rightarrow> IngestionPolicySettings \<Rightarrow> NormalizedPage list res"

record ('y, 'd) ocr_deps = "('y, 'd) worker_deps" +
  od_provider :: OcrProvider
  od_has_dispatcher :: bool

section \<open>A claimed job\<close>

definition ocr_retry_delay :: "WorkerSettings \<Rightarrow> 'a ClaimedNativeJob_scheme \<Rightarrow> int" where
  "ocr_retry_delay workers job = min (exponential_delay workers job) (ws_retry_max_seconds workers)"

definition ocr_generator_version :: "OcrProvider \<Rightarrow> string" where
  "ocr_generator_version provider =
     ''pypdf+tesseract-'' @ map (\<lambda>c. if c = CHR '' '' then CHR ''-'' else c) (op_provider_version provider)"

definition publish_ocr_artifacts ::
  "('y, 'd, 'z) ocr_deps_scheme \<Rightarrow> 'a ClaimedNativeJob_scheme \<Rightarrow> string \<Rightarrow> bytes \<Rightarrow> bytes
   \<Rightarrow> (PublishedArtifact list, ('x, 'y, 'd) world) io" where
  "publish_ocr_artifacts deps job generator_version ocr_file normalized_file =
     each_io (publish_file deps job (op_name (od_provider deps)) generator_version ''application/json'')
       [(AT_OCR_RESULT, OCR_RESULT, ocr_file), (AT_NORMALIZED_DOCUMENT, NORMALIZED_DOCUMENT, normalized_file)]"

text \<open>The pages the parser left for OCR; reading stops at the first error.\<close>

definition selected_pages :: "(json \<Rightarrow> NormalizedPage res) \<Rightarrow> json list \<Rightarrow> uuid \<Rightarrow> int list res" where
  "selected_pages validate lines v =
     (case iter_page_artifact validate lines v of
        (pages, Some e) \<Rightarrow> Inl e
      | (pages, None) \<Rightarrow> Inr (map np_page_number (filter (\<lambda>p. np_origin p = PO_OCR) pages)))"

text \<open>From the downloaded files to the two artifacts.\<close>

definition enrich_document ::
  "('y, 'd, 'z) ocr_deps_scheme \<Rightarrow> ClaimedOcrJob \<Rightarrow> bytes \<Rightarrow> bytes \<Rightarrow> (json list \<times> json list) res" where
  "enrich_document deps job source_pdf extracted =
     bind_res (dp_decode deps extracted) (\<lambda>lines.
     bind_res (selected_pages (dp_validate_page deps) lines (cl_document_version_id job)) (\<lambda>selected.
     if selected = [] then Inl (TerminalIngestionError FAILED ''OCR_ELIGIBILITY_MISSING'')
     else bind_res (op_enrich_pages (od_provider deps) source_pdf selected (dp_policy deps)) (\<lambda>ocr_pages.
     if map np_page_number ocr_pages \<noteq> selected
     then Inl (TerminalIngestionError FAILED ''OCR_PAGE_COVERAGE_INCOMPLETE'')
     else bind_res (merge_ocr_pages (dp_dump_page deps) (dp_validate_page deps) lines (cl_document_version_id job)
            ocr_pages (ocr_generator_version (od_provider deps))) (\<lambda>(normalized, _).
          Inr (write_ocr_pages (dp_dump_page deps) (cl_document_version_id job) (op_name (od_provider deps))
                 (op_provider_version (od_provider deps)) (cx_page_count job) ocr_pages, normalized)))))"

definition process_ocr_job ::
  "('y, 'd, 'z) ocr_deps_scheme \<Rightarrow> ClaimedOcrJob \<Rightarrow> string \<Rightarrow> (nat \<Rightarrow> uuid)
   \<Rightarrow> (NextStageJob, ('x, 'y, 'd) world) io" where
  "process_ocr_job deps job worker_id u =
     bind_io (lift_res (original_reference (dp_storage deps) (cl_tenant_id job) (cl_document_version_id job)
       (cl_content_sha256 job))) (\<lambda>original.
     bind_io (lift_res (artifact_reference (dp_storage deps) (cl_tenant_id job) (cl_document_version_id job)
       EXTRACTED_PAGES (cx_extracted_generator_version job) (cx_extracted_checksum_sha256 job))) (\<lambda>extracted_reference.
     bind_io (on_objects (download_object (dp_client deps) (dp_sha256 deps) (dp_bucket deps) original
       (min (cl_size_bytes job) (po_upload_max_bytes (dp_policy deps))))) (\<lambda>(source_pdf, downloaded_bytes).
     if downloaded_bytes \<noteq> cl_size_bytes job
     then raise_io (TerminalIngestionError FAILED ''OCR_SOURCE_INTEGRITY_MISMATCH'')
     else bind_io (on_objects (download_object (dp_client deps) (dp_sha256 deps) (dp_bucket deps) extracted_reference
            (po_normalized_max_bytes (dp_policy deps)))) (\<lambda>(extracted, _).
          bind_io (lift_res (enrich_document deps job source_pdf extracted)) (\<lambda>(ocr_lines, normalized_lines).
          bind_io (publish_ocr_artifacts deps job (ocr_generator_version (od_provider deps))
            (dp_encode deps ocr_lines) (dp_encode deps normalized_lines)) (\<lambda>artifacts.
          catch_io (in_transaction (dp_env deps) (succeed_ocr job worker_id artifacts
              (ws_job_max_attempts (dp_workers deps)) u))
            (\<lambda>error. case error of
               JobFenceLostError _ \<Rightarrow>
                 bind_io (remove_uncommitted_artifacts deps artifacts) (\<lambda>_. raise_io error)
             | _ \<Rightarrow> raise_io error)))))))"

section \<open>The delivery\<close>

definition fail_handler ::
  "(session \<Rightarrow> session) \<Rightarrow> 'a ClaimedNativeJob_scheme \<Rightarrow> string \<Rightarrow> VersionState \<Rightarrow> string \<Rightarrow> (nat \<Rightarrow> uuid)
   \<Rightarrow> ('r option, ('x, 'y, 'd) world) io" where
  "fail_handler env job worker_id state reason_code u =
     bind_io (in_unit_transaction env (fail_permanently job worker_id state reason_code [] u)) (\<lambda>_. return_io None)"

definition ocr_handler ::
  "('y, 'd, 'z) ocr_deps_scheme \<Rightarrow> 'a ClaimedNativeJob_scheme \<Rightarrow> string \<Rightarrow> (nat \<Rightarrow> uuid) \<Rightarrow> py_error
   \<Rightarrow> (NextStageJob option, ('x, 'y, 'd) world) io" where
  "ocr_handler deps job worker_id u error =
     (let temporary = retry_handler (dp_env deps) job worker_id ''OCR_PROVIDER_TEMPORARY_FAILURE''
            (ocr_retry_delay (dp_workers deps) job) u
      in case error of
        JobFenceLostError _ \<Rightarrow> return_io None
      | TerminalIngestionError state reason_code \<Rightarrow> fail_handler (dp_env deps) job worker_id state reason_code u
      | StorageIntegrityError _ \<Rightarrow>
          fail_handler (dp_env deps) job worker_id FAILED ''OCR_SOURCE_INTEGRITY_MISMATCH'' u
      | StorageError \<Rightarrow> temporary
      | OSError \<Rightarrow> temporary
      | OcrProviderTemporaryError _ \<Rightarrow> temporary
      | RetryableIngestionError reason delay \<Rightarrow> raise_io error
      | _ \<Rightarrow> retry_handler (dp_env deps) job worker_id ''OCR_INTERNAL_FAILURE''
          (ocr_retry_delay (dp_workers deps) job) u)"

fun ocr_routes :: "IngestionStage \<Rightarrow> (PipelineTask \<times> string) res" where
  "ocr_routes st = Inr (CHUNK_PROCESS, ''CHUNK_DISPATCH_UNAVAILABLE'')"

definition ocr_hand_on ::
  "('y, 'd, 'z) ocr_deps_scheme \<Rightarrow> uuid \<Rightarrow> uuid \<Rightarrow> NextStageJob \<Rightarrow> (unit, ('x, 'y, 'd) world) io" where
  "ocr_hand_on deps tenant_id document_version_id next_job =
     (if od_has_dispatcher deps
      then dispatch_or_defer deps ocr_routes tenant_id document_version_id next_job
      else return_io ())"

definition ocr_process ::
  "('y, 'd, 'z) ocr_deps_scheme \<Rightarrow> IngestionJobPayload \<Rightarrow> string \<Rightarrow> (nat \<Rightarrow> nat \<Rightarrow> uuid)
   \<Rightarrow> (unit, ('x, 'y, 'd) world) io" where
  "ocr_process deps payload worker_id u =
     deliver
       (in_transaction (dp_env deps) (claim_or_successor
         (ocr_claim (jp_tenant_id payload) (jp_document_version_id payload) (jp_job_id payload) worker_id
            (seconds (ws_ocr_timeout_seconds (dp_workers deps) + 30)) (u 0)) payload))
       (\<lambda>successor. case successor of
          None \<Rightarrow> return_io ()
        | Some next_job \<Rightarrow> ocr_hand_on deps (jp_tenant_id payload) (jp_document_version_id payload) next_job)
       (\<lambda>job. process_ocr_job deps job worker_id (u 1))
       (\<lambda>job. ocr_handler deps job worker_id (u 2))
       (\<lambda>job. ocr_hand_on deps (cl_tenant_id job) (cl_document_version_id job))"

section \<open>Errors before the commit\<close>

definition plain :: "'a res \<Rightarrow> bool" where
  "plain r \<longleftrightarrow> (\<forall>e. r = Inl e \<longrightarrow> plain_error e)"

lemma plain_basic [simp]: "plain (Inr x)" "plain (Inl e) \<longleftrightarrow> plain_error e" "plain (raise_if b e) \<longleftrightarrow> (b \<longrightarrow> plain_error e)"
  by (auto simp: plain_def)

lemma plain_bind [intro]: "plain m \<Longrightarrow> (\<And>x. m = Inr x \<Longrightarrow> plain (f x)) \<Longrightarrow> plain (bind_res m f)"
  by (cases m) simp_all

lemma plain_if [intro]: "(b \<Longrightarrow> plain m) \<Longrightarrow> (\<not> b \<Longrightarrow> plain m') \<Longrightarrow> plain (if b then m else m')"
  by simp

lemma plain_fold [intro]: "(\<And>x s. plain (f x s)) \<Longrightarrow> plain (fold_res f xs s)"
  by (induction xs arbitrary: s) auto

lemma plain_page_record:
  assumes "\<And>b. plain (validate b)"
  shows "plain (page_record validate v k n d l)"
proof -
  have "plain (json_get key dflt j)" for key dflt j by (cases j) simp_all
  moreover have "plain (none_or t j)" for t j by (cases j) simp_all
  moreover have "plain (json_int j)" for j
    by (cases j) (simp_all add: py_int_def Let_def plain_def split: option.splits)
  ultimately show ?thesis
    unfolding page_record_def scope_matches_def using assms by (auto intro!: plain_bind plain_if)
qed

lemma iter_pages_error:
  assumes "\<And>b. plain (validate b)" and "iter_pages validate v k n d lines = (ps, Some e)"
  shows "plain_error e"
  using assms(2)
proof (induction lines arbitrary: ps k n d)
  case Nil
  then show ?case by (auto split: if_splits)
next
  case (Cons l ls)
  have "plain (page_record validate v k n d l)" by (rule plain_page_record) (rule assms(1))
  moreover have IH: "snd (iter_pages validate v k n d ls) = Some e \<Longrightarrow> plain_error e" for k n d
    using Cons.IH by (metis surj_pair snd_conv)
  ultimately show ?case using Cons.prems
    by (auto intro: IH Cons.IH simp: gen_cons_def plain_def split: sum.splits prod.splits option.splits)
qed

lemma plain_selected:
  assumes "\<And>b. plain (validate b)"
  shows "plain (selected_pages validate lines v)"
proof -
  have "plain_error e" if "iter_page_artifact validate lines v = (ps, Some e)" for ps e
    using iter_pages_error [OF assms that [unfolded iter_page_artifact_def]] .
  then show ?thesis unfolding selected_pages_def by (auto simp: plain_def split: prod.splits option.splits)
qed

lemma plain_merge:
  assumes "\<And>b. plain (validate b)"
  shows "plain (merge_ocr_pages dump validate lines v ocr_pages gv)"
proof -
  have "plain_error e" if "iter_page_artifact validate lines v = (ps, Some e)" for ps e
    using iter_pages_error [OF assms that [unfolded iter_page_artifact_def]] .
  then have g: "plain_error e" if "snd (iter_page_artifact validate lines v) = Some e" for e
    using that by (metis surj_pair snd_conv)
  have m: "plain (merge_step dump p st)" for p st
    unfolding merge_step_def merge_page_def by (auto intro!: plain_bind simp: new_page_def split: option.splits)
  show ?thesis
    unfolding merge_ocr_pages_def Let_def
    by (auto intro!: plain_bind plain_if m dest: g simp: new_inspection_def finish_pages_def split: option.splits)
qed

text \<open>What is asked of the dependencies: their errors are their own.\<close>

definition ocr_dependencies_ok :: "('y, 'd, 'z) ocr_deps_scheme \<Rightarrow> bool" where
  "ocr_dependencies_ok deps \<longleftrightarrow> client_errors_only (dp_client deps)
     \<and> CHR ''/'' \<notin> set (op_provider_version (od_provider deps))
     \<and> (\<forall>b. plain (dp_validate_page deps b)) \<and> (\<forall>c. plain (dp_decode deps c))
     \<and> (\<forall>source pages policy. plain (op_enrich_pages (od_provider deps) source pages policy))"

lemma plain_enrich:
  assumes "ocr_dependencies_ok deps"
  shows "plain (enrich_document deps job source_pdf extracted)"
proof -
  from assms have v: "\<And>b. plain (dp_validate_page deps b)" and d: "\<And>c. plain (dp_decode deps c)"
    and p: "\<And>source pages policy. plain (op_enrich_pages (od_provider deps) source pages policy)"
    by (simp_all add: ocr_dependencies_ok_def)
  show ?thesis
    unfolding enrich_document_def
    by (intro plain_bind plain_if d p plain_selected [OF v] plain_merge [OF v]) (auto split: prod.splits)
qed

lemma publish_ocr_Inl:
  assumes "publish_ocr_artifacts deps job (ocr_generator_version (od_provider deps)) a b w = (Inl e, w1)"
    and "ocr_dependencies_ok deps"
  shows "plain_error e"
proof -
  have gv: "CHR ''/'' \<notin> set (ocr_generator_version (od_provider deps))" "ocr_generator_version (od_provider deps) \<noteq> []"
    using assms(2) by (auto simp: ocr_dependencies_ok_def ocr_generator_version_def)
  have client: "client_errors_only (dp_client deps)" using assms(2) by (simp add: ocr_dependencies_ok_def)
  from each_io_Inl [OF assms(1) [unfolded publish_ocr_artifacts_def]] show ?thesis
  proof (elim bexE exE)
    fix x w w1
    assume "publish_file deps job (op_name (od_provider deps)) (ocr_generator_version (od_provider deps))
      ''application/json'' x w = (Inl e, w1)"
    from publish_file_Inl [OF client gv this] show ?thesis by (rule is_store_error_plain)
  qed
qed

section \<open>The OCR stage keeps the contract of a stage\<close>

lemma plain_artifact_reference: "plain (artifact_reference settings t v k p c)"
  by (auto simp: artifact_reference_def plain_def bind_res_eq_Inl dest: checksum_header_Inl is_store_error_plain)

lemma download_plain:
  assumes "client_errors_only client"
  shows "raises_only plain_error (on_objects (download_object client sha256 bucket reference mx))"
  by (auto simp: raises_only_def on_objects_eq dest!: download_object_Inl [OF assms] is_store_error_plain)

definition ocr_commits ::
  "int \<Rightarrow> string \<Rightarrow> (nat \<Rightarrow> uuid) \<Rightarrow> 'a ClaimedNativeJob_scheme \<Rightarrow> session \<Rightarrow> (NextStageJob \<times> session) res \<Rightarrow> bool" where
  "ocr_commits max_attempts worker_id u job s t \<longleftrightarrow> (\<exists>artifacts. succeed_ocr job worker_id artifacts max_attempts u s = t)"

lemma process_ocr_job_ends:
  assumes "process_ocr_job deps job worker_id u w = (r, w')" and "ocr_dependencies_ok deps"
  shows "(\<exists>s n. r = Inr n \<and> ocr_commits (ws_job_max_attempts (dp_workers deps)) worker_id u job s (Inr (n, w_db w')))
    \<or> (\<exists>e. r = Inl e \<and> (plain_error e \<or> ocr_commits (ws_job_max_attempts (dp_workers deps)) worker_id u job (w_db w') (Inl e)))"
proof -
  let ?c = "ocr_commits (ws_job_max_attempts (dp_workers deps)) worker_id u job"
  let ?Q = "\<lambda>r w'. (\<exists>s n. r = Inr n \<and> ?c s (Inr (n, w_db w'))) \<or> (\<exists>e. r = Inl e \<and> (plain_error e \<or> ?c (w_db w') (Inl e)))"
  have client: "client_errors_only (dp_client deps)" using assms(2) by (simp add: ocr_dependencies_ok_def)
  have "posts ?Q (process_ocr_job deps job worker_id u)"
    unfolding process_ocr_job_def
    apply (rule posts_bind [where P = plain_error])
      apply (auto simp: raises_only_def dest: original_reference_Inl is_store_error_plain) [1]
     apply blast
    apply (rule posts_bind [where P = plain_error])
      apply (metis lift_res_eq plain_artifact_reference plain_def raises_only_def)
     apply blast
    apply (rule posts_bind [where P = plain_error, OF download_plain [OF client]])
     apply blast
    apply (simp only: split_paired_all prod.case)
    apply (rule posts_if)
     apply (simp add: posts_def raise_io_def)
    apply (rule posts_bind [where P = plain_error, OF download_plain [OF client]])
     apply blast
    apply (simp only: split_paired_all prod.case)
    apply (rule posts_bind [where P = plain_error])
      apply (metis lift_res_eq plain_enrich [OF assms(2)] plain_def raises_only_def)
     apply blast
    apply (simp only: split_paired_all prod.case)
    apply (rule posts_bind [where P = plain_error])
      apply (auto simp: raises_only_def dest: publish_ocr_Inl [OF _ assms(2)]) [1]
     apply blast
    unfolding posts_def ocr_commits_def
    apply (intro allI impI)
    apply (drule commit_part)
    apply (erule disjE)
     apply blast
    apply blast
    done
  from postsD [OF this assms(1)] show ?thesis .
qed

lemma ocr_retry_delay_bounds:
  assumes "1 \<le> ws_retry_base_seconds workers" "ws_retry_base_seconds workers \<le> ws_retry_max_seconds workers"
  shows "1 \<le> ocr_retry_delay workers job \<and> ocr_retry_delay workers job \<le> ws_retry_max_seconds workers"
  using exponential_delay_ge [OF assms(1), of job] assms by (simp add: ocr_retry_delay_def min_def)

text \<open>The errors that fail an OCR job for good, and the reason under which the others are retried.\<close>

fun ocr_terminal :: "py_error \<Rightarrow> (VersionState \<times> string) option" where
  "ocr_terminal (TerminalIngestionError state reason) = Some (state, reason)"
| "ocr_terminal (StorageIntegrityError _) = Some (FAILED, ''OCR_SOURCE_INTEGRITY_MISMATCH'')"
| "ocr_terminal _ = None"

fun ocr_retry_reason :: "py_error \<Rightarrow> string" where
  "ocr_retry_reason StorageError = ''OCR_PROVIDER_TEMPORARY_FAILURE''"
| "ocr_retry_reason OSError = ''OCR_PROVIDER_TEMPORARY_FAILURE''"
| "ocr_retry_reason (OcrProviderTemporaryError _) = ''OCR_PROVIDER_TEMPORARY_FAILURE''"
| "ocr_retry_reason _ = ''OCR_INTERNAL_FAILURE''"

definition ocr_closed ::
  "('y, 'd, 'z) ocr_deps_scheme \<Rightarrow> 'a ClaimedNativeJob_scheme \<Rightarrow> string \<Rightarrow> (nat \<Rightarrow> uuid) \<Rightarrow> py_error
   \<Rightarrow> ('x, 'y, 'd) world \<Rightarrow> py_error option \<Rightarrow> session \<Rightarrow> bool" where
  "ocr_closed deps job worker_id u error w outcome s' \<longleftrightarrow>
     (case ocr_terminal error of
        Some (state, reason) \<Rightarrow> failed_for_good job worker_id state reason u (dp_env deps (w_db w)) outcome s'
      | None \<Rightarrow> retried_or_exhausted job worker_id (ocr_retry_reason error) (ws_retry_max_seconds (dp_workers deps)) u
          (dp_env deps (w_db w)) outcome s')"

lemma ocr_handler_ends:
  fixes deps :: "('y, 'd, 'z) ocr_deps_scheme" and w :: "('x, 'y, 'd) world"
  assumes "retry_settings_ok (dp_workers deps)" and "plain_error error"
  shows "closes (ocr_handler deps job worker_id u error) w (ocr_closed deps job worker_id u error w)"
proof -
  from ocr_retry_delay_bounds [of "dp_workers deps" job] assms(1) have d:
    "1 \<le> ocr_retry_delay (dp_workers deps) job" "ocr_retry_delay (dp_workers deps) job \<le> ws_retry_max_seconds (dp_workers deps)"
    by (simp_all add: retry_settings_ok_def)
  show ?thesis
  proof (cases "ocr_terminal error")
    case (Some sr)
    obtain state reason where sr: "sr = (state, reason)" by (cases sr)
    have "ocr_handler deps job worker_id u error
        = (fail_handler (dp_env deps) job worker_id state reason u :: (NextStageJob option, ('x, 'y, 'd) world) io)"
      using Some sr by (cases error) (simp_all add: ocr_handler_def Let_def)
    moreover have "ocr_closed deps job worker_id u error w = failed_for_good job worker_id state reason u (dp_env deps (w_db w))"
      by (intro ext) (simp add: ocr_closed_def Some sr)
    ultimately show ?thesis unfolding fail_handler_def by (simp add: fail_transaction_closes)
  next
    case None
    have "ocr_handler deps job worker_id u error
        = (retry_handler (dp_env deps) job worker_id (ocr_retry_reason error) (ocr_retry_delay (dp_workers deps) job) u
            :: (NextStageJob option, ('x, 'y, 'd) world) io)"
      using None assms(2) by (cases error) (simp_all add: ocr_handler_def Let_def)
    moreover have "ocr_closed deps job worker_id u error w = retried_or_exhausted job worker_id (ocr_retry_reason error)
        (ws_retry_max_seconds (dp_workers deps)) u (dp_env deps (w_db w))"
      by (intro ext) (simp add: ocr_closed_def None)
    ultimately show ?thesis by (simp add: retry_handler_closes [OF d])
  qed
qed

text \<open>With a dispatcher the chunk job is handed on; a worker configured without one leaves it to the reconciler.\<close>

definition ocr_handed_on ::
  "('y, 'd, 'z) ocr_deps_scheme \<Rightarrow> uuid \<Rightarrow> uuid \<Rightarrow> NextStageJob \<Rightarrow> ('x, 'y, 'd) world \<Rightarrow> unit res \<Rightarrow> ('x, 'y, 'd) world \<Rightarrow> bool" where
  "ocr_handed_on deps t v n w r w' \<longleftrightarrow>
     (if od_has_dispatcher deps then handed_on deps ocr_routes t v n w r w' else r = Inr () \<and> w' = w)"

lemma ocr_hand_on_ends:
  assumes "ocr_hand_on deps t v n w = (r, w')"
  shows "ocr_handed_on deps t v n w r w'"
proof (cases "od_has_dispatcher deps")
  case True
  with assms dispatch_or_defer_ends [of deps ocr_routes t v n w r w'] show ?thesis
    by (simp add: ocr_hand_on_def ocr_handed_on_def)
next
  case False
  with assms show ?thesis by (auto simp: ocr_hand_on_def return_io_def ocr_handed_on_def)
qed

lemma keeps_broker_ocr: "keeps_broker (process_ocr_job deps job worker_id u)"
  unfolding process_ocr_job_def publish_ocr_artifacts_def remove_uncommitted_artifacts_def
  by (intro keeps_broker_bind keeps_broker_basic)
    (auto intro!: keeps_broker_bind keeps_broker_if keeps_broker_catch keeps_broker_each keeps_publish_file keeps_broker_suppress
      split: prod.splits py_error.splits)

interpretation ocr_stage: pipeline_stage
  "ocr_dependencies_ok deps \<and> retry_settings_ok (dp_workers deps)"
  "\<lambda>job. process_ocr_job deps job worker_id u1"
  "\<lambda>job. ocr_handler deps job worker_id u2"
  "\<lambda>job. ocr_hand_on deps (cl_tenant_id job) (cl_document_version_id job)"
  "ocr_commits (ws_job_max_attempts (dp_workers deps)) worker_id u1"
  "\<lambda>job. ocr_closed deps job worker_id u2"
  "\<lambda>job. ocr_handed_on deps (cl_tenant_id job) (cl_document_version_id job)"
  for deps :: "('y, 'd, 'z) ocr_deps_scheme" and worker_id u1 u2
proof
  fix job :: ClaimedOcrJob
  show "keeps_broker (process_ocr_job deps job worker_id u1)" by (rule keeps_broker_ocr)
next
  fix job :: ClaimedOcrJob and w w' :: "('x, 'y, 'd) world" and r
  assume "ocr_dependencies_ok deps \<and> retry_settings_ok (dp_workers deps)"
    and "process_ocr_job deps job worker_id u1 w = (r, w')"
  then show "(\<exists>s n. r = Inr n \<and> ocr_commits (ws_job_max_attempts (dp_workers deps)) worker_id u1 job s (Inr (n, w_db w')))
      \<or> (\<exists>e. r = Inl e \<and> (plain_error e
          \<or> ocr_commits (ws_job_max_attempts (dp_workers deps)) worker_id u1 job (w_db w') (Inl e)))"
    by (elim conjE) (rule process_ocr_job_ends)
next
  fix job :: ClaimedOcrJob and w :: "('x, 'y, 'd) world" and e
  assume "ocr_dependencies_ok deps \<and> retry_settings_ok (dp_workers deps)" and "plain_error e"
  then show "closes (ocr_handler deps job worker_id u2 e) w (ocr_closed deps job worker_id u2 e w)"
    by (intro ocr_handler_ends) simp_all
next
  fix job :: ClaimedOcrJob and w :: "('x, 'y, 'd) world" and e
  assume "\<not> plain_error e"
  then show "ocr_handler deps job worker_id u2 e w = ((case e of JobFenceLostError _ \<Rightarrow> Inr None | _ \<Rightarrow> Inl e), w)"
    by (cases e) (simp_all add: ocr_handler_def return_io_def raise_io_def)
next
  fix job :: ClaimedOcrJob and s n and w w' :: "('x, 'y, 'd) world" and v
  assume "ocr_hand_on deps (cl_tenant_id job) (cl_document_version_id job) n w = (v, w')"
  then show "ocr_handed_on deps (cl_tenant_id job) (cl_document_version_id job) n w v w'" by (rule ocr_hand_on_ends)
qed

section \<open>Properties\<close>

text \<open>C17: an OCR delivery that claims a job always ends the attempt, whatever the store, the OCR engine and
  the broker do within their own errors. When the work succeeds, its result was committed and, with a dispatcher, the
  one task of the chunk job was sent, or the chunk job was deferred when the broker refused it (a worker without a
  dispatcher sends nothing). When it raises, nothing is sent: a terminal error fails the job for good with its state
  and reason, every other error schedules a retry under the reason of its class, within the configured bound, as long
  as attempts are left, exactly that retry is raised, and the last attempt fails for good; only a commit that was
  refused because the lease was lost ends silently, and one for which the database asked for a retry raises it.\<close>

theorem ocr_attempt_ends:
  assumes "ocr_dependencies_ok deps" and "new_worker_settings (dp_workers deps) = Inr (dp_workers deps)"
    and "ocr_claim (jp_tenant_id payload) (jp_document_version_id payload) (jp_job_id payload) worker_id
       (seconds (ws_ocr_timeout_seconds (dp_workers deps) + 30)) (u 0) (dp_env deps (w_db w)) = Inr (Some job, s0)"
    and "ocr_process deps payload worker_id u w = (r, w')"
  shows "\<exists>t w2. process_ocr_job deps job worker_id (u 1) (w\<lparr>w_db := s0\<rparr>) = (t, w2) \<and> w_broker w2 = w_broker w \<and>
    (case t of
       Inr next_job \<Rightarrow>
         (\<exists>s artifacts. succeed_ocr job worker_id artifacts (ws_job_max_attempts (dp_workers deps)) (u 1) s
              = Inr (next_job, w_db w2))
         \<and> (if od_has_dispatcher deps
            then handed_on deps ocr_routes (cl_tenant_id job) (cl_document_version_id job) next_job w2 r w'
            else r = Inr () \<and> w' = w2)
     | Inl e \<Rightarrow> w_broker w' = w_broker w \<and>
         (if plain_error e then ocr_closed deps job worker_id (u 2) e w2 (raised r) (w_db w')
          else w' = w2 \<and> r = (case e of JobFenceLostError _ \<Rightarrow> Inr () | _ \<Rightarrow> Inl e)
            \<and> (\<exists>artifacts. succeed_ocr job worker_id artifacts (ws_job_max_attempts (dp_workers deps)) (u 1) (w_db w2)
                 = Inl e)))"
proof -
  have claim: "in_transaction (dp_env deps) (claim_or_successor
         (ocr_claim (jp_tenant_id payload) (jp_document_version_id payload) (jp_job_id payload) worker_id
            (seconds (ws_ocr_timeout_seconds (dp_workers deps) + 30)) (u 0)) payload) w
      = (Inr (Some job, None), w\<lparr>w_db := s0\<rparr>)"
    unfolding in_transaction_Inr claim_or_successor_def using assms(3) by simp
  have broker: "w_broker (w\<lparr>w_db := s0\<rparr>) = w_broker w" by simp
  show ?thesis
    using ocr_stage.delivery_ends [OF _ assms(4) [unfolded ocr_process_def] claim] assms(1)
      new_worker_settings_retry [OF assms(2)]
    unfolding ocr_commits_def ocr_handed_on_def broker by blast
qed

lemma selected_pages_Inr:
  "selected_pages validate lines v = Inr ns \<Longrightarrow> \<exists>native. iter_page_artifact validate lines v = (native, None)
    \<and> ns = map np_page_number (filter (\<lambda>p. np_origin p = PO_OCR) native)"
  by (auto simp: selected_pages_def split: prod.splits option.splits)

text \<open>C18: the normalized document an OCR job publishes covers the parsed one: the engine returned exactly the
  pages the parser left for OCR, at least one, and the normalized file reads back, under the version of the
  job, as the parsed pages in their order, each combined with its OCR page where there is one. Of the page model
  this is asked: pages within the constraints its fields declare survive the dump and the validation, and neither
  the validation nor the engine yields others.\<close>

theorem enriched_document_complete:
  assumes "enrich_document deps job source_pdf extracted = Inr (ocr_lines, normalized)"
    and "page_codec (dp_dump_page deps) (dp_validate_page deps)"
    and "\<forall>source pages policy ps. op_enrich_pages (od_provider deps) source pages policy = Inr ps \<longrightarrow> (\<forall>p \<in> set ps. valid_page p)"
  shows "\<exists>lines native ocr_pages merged.
      dp_decode deps extracted = Inr lines
      \<and> iter_page_artifact (dp_validate_page deps) lines (cl_document_version_id job) = (native, None)
      \<and> op_enrich_pages (od_provider deps) source_pdf
          (map np_page_number (filter (\<lambda>p. np_origin p = PO_OCR) native)) (dp_policy deps) = Inr ocr_pages
      \<and> map np_page_number ocr_pages = map np_page_number (filter (\<lambda>p. np_origin p = PO_OCR) native)
      \<and> ocr_pages \<noteq> []
      \<and> map_res (merge_one ocr_pages) native = Inr merged
      \<and> map np_page_number merged = map np_page_number native
      \<and> iter_page_artifact (dp_validate_page deps) normalized (cl_document_version_id job) = (merged, None)"
proof -
  from assms(1) obtain lines selected ocr_pages report where
    l: "dp_decode deps extracted = Inr lines"
    and sel: "selected_pages (dp_validate_page deps) lines (cl_document_version_id job) = Inr selected" "ocr_pages \<noteq> []"
    and ocr: "op_enrich_pages (od_provider deps) source_pdf selected (dp_policy deps) = Inr ocr_pages"
      "map np_page_number ocr_pages = selected"
    and m: "merge_ocr_pages (dp_dump_page deps) (dp_validate_page deps) lines (cl_document_version_id job)
            ocr_pages (ocr_generator_version (od_provider deps)) = Inr (normalized, report)"
    unfolding enrich_document_def by (fastforce elim!: bind_res_InrE split: if_splits)
  obtain native where n: "iter_page_artifact (dp_validate_page deps) lines (cl_document_version_id job) = (native, None)"
    "selected = map np_page_number (filter (\<lambda>p. np_origin p = PO_OCR) native)"
    using selected_pages_Inr [OF sel(1)] by blast
  have codec: "\<forall>p \<in> set (fst (iter_page_artifact (dp_validate_page deps) lines (cl_document_version_id job))).
      \<forall>m. merge_one ocr_pages p = Inr m \<longrightarrow> dp_validate_page deps (dp_dump_page deps m) = Inr m"
  proof (intro ballI allI impI)
    fix p q assume p: "p \<in> set (fst (iter_page_artifact (dp_validate_page deps) lines (cl_document_version_id job)))"
      and "merge_one ocr_pages p = Inr q"
    from merge_one_valid [OF this(2) iter_page_artifact_valid [OF assms(2) p]] assms(3) ocr(1) have "valid_page q" by blast
    with assms(2) show "dp_validate_page deps (dp_dump_page deps q) = Inr q" by (simp add: page_codec_def)
  qed
  obtain merged where "map_res (merge_one ocr_pages) native = Inr merged"
    "map np_page_number merged = map np_page_number native"
    "iter_page_artifact (dp_validate_page deps) normalized (cl_document_version_id job) = (merged, None)"
    using merge_ocr_pages_effect [OF m] codec n(1) by auto
  moreover note sel(2)
  ultimately show ?thesis using l n ocr by auto
qed

section \<open>Witnesses\<close>

definition scanned_page :: "string \<Rightarrow> NormalizedPage" where
  "scanned_page t = \<lparr>np_page_number = 1, np_origin = PO_OCR, np_text = t, np_blocks = [], np_language_hint = ''en'',
     np_quality_score = 1, np_warnings = []\<rparr>"

lemma scanned_page_valid: "valid_page (scanned_page t)"
  by (simp add: valid_page_def scanned_page_def)

definition scanned_file :: "json list" where
  "scanned_file = pw_output (write_page flat_page (scanned_page []) (page_writer 4 ''pypdf'' ''5''))
     @ [JObj [(''record_type'', JStr ''manifest''), (''page_count'', JInt 1)]]"

definition sample_ocr_deps :: "(memory, string list) ocr_deps" where
  "sample_ocr_deps = worker_deps.extend (sample_deps\<lparr>dp_decode := \<lambda>_. Inr scanned_file\<rparr>)
     \<lparr>od_provider = \<lparr>op_name = ''tesseract'', op_provider_version = ''tesseract 5.3'',
        op_enrich_pages = \<lambda>source pages policy. Inr [scanned_page ''scan'']\<rparr>, od_has_dispatcher = True\<rparr>"

lemma sample_ocr_fields [simp]:
  "dp_workers sample_ocr_deps = sample_workers" "dp_env sample_ocr_deps = id" "dp_client sample_ocr_deps = memory_client"
  "dp_decode sample_ocr_deps = (\<lambda>_. Inr scanned_file)" "dp_validate_page sample_ocr_deps = unflat_page"
  "dp_dump_page sample_ocr_deps = flat_page" "dp_policy sample_ocr_deps = sample_policy"
  "dp_storage sample_ocr_deps = sample_settings"
  "od_provider sample_ocr_deps = \<lparr>op_name = ''tesseract'', op_provider_version = ''tesseract 5.3'',
        op_enrich_pages = \<lambda>source pages policy. Inr [scanned_page ''scan'']\<rparr>"
  by (simp_all add: sample_ocr_deps_def sample_deps_def worker_deps.defs)

text \<open>The source of the sample is missing from the store.\<close>

theorem ocr_attempt_ends_witness:
  "\<exists>r w' w2. ocr_process sample_ocr_deps \<lparr>jp_tenant_id = 1, jp_document_version_id = 4, jp_job_id = 70\<rparr> ''w1''
       (\<lambda>k n. word_of_nat (n + 80 + 20 * k)) (sample_world ocr_session) = (r, w')
     \<and> process_ocr_job sample_ocr_deps sample_ocr_claim ''w1'' (\<lambda>n. word_of_nat (n + 100))
         (sample_world ocr_session\<lparr>w_db := ocr_leased_session\<rparr>) = (Inl StorageError, w2)
     \<and> w_broker w' = []
     \<and> retried_or_exhausted sample_ocr_claim ''w1'' ''OCR_PROVIDER_TEMPORARY_FAILURE'' 60 (\<lambda>n. word_of_nat (n + 120))
         (w_db w2) (raised r) (w_db w')"
proof -
  let ?p = "\<lparr>jp_tenant_id = 1, jp_document_version_id = 4, jp_job_id = 70\<rparr>"
  let ?u = "\<lambda>k n. word_of_nat (n + 80 + 20 * k)"
  have ok: "ocr_dependencies_ok sample_ocr_deps"
    by (simp add: ocr_dependencies_ok_def memory_client_errors unflat_page_def)
  obtain r w' where p: "ocr_process sample_ocr_deps ?p ''w1'' ?u (sample_world ocr_session) = (r, w')"
    by (metis surj_pair)
  have claim: "ocr_claim (jp_tenant_id ?p) (jp_document_version_id ?p) (jp_job_id ?p) ''w1''
       (seconds (ws_ocr_timeout_seconds (dp_workers sample_ocr_deps) + 30)) (?u 0)
       (dp_env sample_ocr_deps (w_db (sample_world ocr_session))) = Inr (Some sample_ocr_claim, ocr_leased_session)"
    using sample_ocr_claim by (simp add: sample_workers_def sample_world_def)
  have workers: "new_worker_settings (dp_workers sample_ocr_deps) = Inr (dp_workers sample_ocr_deps)"
    using sample_workers_ok by simp
  obtain t w2 where t: "process_ocr_job sample_ocr_deps sample_ocr_claim ''w1'' (?u 1)
      (sample_world ocr_session\<lparr>w_db := ocr_leased_session\<rparr>) = (t, w2)" by (metis surj_pair)
  have e: "t = Inl StorageError"
  proof -
    have c: "cl_tenant_id sample_ocr_claim = 1" "cl_document_version_id sample_ocr_claim = 4"
      "cl_content_sha256 sample_ocr_claim = sample_sha" "cl_size_bytes sample_ocr_claim = 100"
      "cx_extracted_checksum_sha256 sample_ocr_claim = sample_sha" "cx_extracted_generator_version sample_ocr_claim = ''v1''"
      by (simp_all add: sample_ocr_claim_def sample_claim_def ClaimedNativeJob.extend_def ClaimedOcrJob.fields_def)
    obtain h where h: "checksum_header_value sample_sha = Inr h" using sha_header by blast
    have "\<exists>o' e. original_reference sample_settings 1 4 sample_sha = Inr o'
        \<and> artifact_reference sample_settings 1 4 EXTRACTED_PAGES ''v1'' sample_sha = Inr e"
      by (simp add: original_reference_def artifact_reference_def h)
    then obtain o' x where r: "original_reference sample_settings 1 4 sample_sha = Inr o'"
      "artifact_reference sample_settings 1 4 EXTRACTED_PAGES ''v1'' sample_sha = Inr x" by blast
    show ?thesis
      using t by (auto simp: process_ocr_job_def c r bind_io_def lift_res_def on_objects_def download_object_def
          memory_client_def sample_world_def sample_policy_def)
  qed
  from ocr_attempt_ends [OF ok workers claim p] t e have
    "w_broker w' = w_broker (sample_world ocr_session)"
    "ocr_closed sample_ocr_deps sample_ocr_claim ''w1'' (?u 2) StorageError w2 (raised r) (w_db w')"
    by (simp_all add: add.commute)
  with p t e show ?thesis
    by (intro exI [of _ r] exI [of _ w'] exI [of _ w2])
      (simp add: ocr_closed_def sample_workers_def sample_world_def add_ac)
qed

theorem enriched_document_complete_witness:
  "\<exists>ocr_lines normalized merged. enrich_document sample_ocr_deps sample_ocr_claim [] [] = Inr (ocr_lines, normalized)
    \<and> iter_page_artifact unflat_page normalized 4 = (merged, None) \<and> length merged = 1"
proof -
  have v: "cl_document_version_id sample_ocr_claim = 4" by (simp add: ocr_samples)
  have number: "np_page_number (scanned_page t) = 1" for t by (simp add: scanned_page_def)
  have reads: "iter_page_artifact unflat_page scanned_file 4 = ([scanned_page []], None)"
    using unflat_page_flat [OF scanned_page_valid, of "[]"]
    by (simp add: iter_page_artifact_def scanned_file_def page_writer_def write_page_def page_line_def
        page_record_def gen_cons_def number)
  have "merge_page (scanned_page []) (scanned_page ''scan'') = Inr (scanned_page ''scan'')"
    by (simp add: merge_page_def scanned_page_def strip_chars_def)
  then have "\<exists>ocr_lines normalized. enrich_document sample_ocr_deps sample_ocr_claim [] [] = Inr (ocr_lines, normalized)"
    by (simp add: enrich_document_def selected_pages_def v reads merge_ocr_pages_def merge_step_def number
        new_inspection_def finish_pages_def write_page_def page_writer_def scanned_page_def)
  then obtain ocr_lines normalized where e:
    "enrich_document sample_ocr_deps sample_ocr_claim [] [] = Inr (ocr_lines, normalized)" by blast
  have codec: "page_codec (dp_dump_page sample_ocr_deps) (dp_validate_page sample_ocr_deps)"
    by (simp add: sample_page_codec)
  have engine: "\<forall>source pages policy ps. op_enrich_pages (od_provider sample_ocr_deps) source pages policy = Inr ps
      \<longrightarrow> (\<forall>p \<in> set ps. valid_page p)" by (auto simp: scanned_page_valid)
  from enriched_document_complete [OF e codec engine] obtain native merged where
    "iter_page_artifact unflat_page scanned_file 4 = (native, None)"
    "map np_page_number merged = map np_page_number native"
    "iter_page_artifact unflat_page normalized 4 = (merged, None)"
    by (simp only: sample_ocr_fields v sum.inject) blast
  moreover from this(1,2) reads have "length merged = 1"
    by (metis length_map One_nat_def length_Cons list.size(3) prod.inject)
  ultimately show ?thesis using e by blast
qed

end
