(* ===== verification/Search_Adapter.thy ===== *)
theory Search_Adapter
  imports Worker_Effects Manifests
begin

text \<open>
  \<open>ingestion/search_transport.py\<close> and \<open>ingestion/search_adapter.py\<close>: the OpenSearch transport and the
  publication adapter. The HTTP client is an argument that answers a request in a state of the search
  engine; a bulk body is the list of its JSON lines. What the properties ask of the engine is
  the documented behaviour of \<open>_mget\<close>, \<open>_update_by_query\<close> and \<open>_delete_by_query\<close>, the last two over any
  request body to which the evaluator of queries and scripts below gives a meaning.
\<close>

section \<open>Requests\<close>

datatype request_body = No_Body | Json_Body json | Ndjson_Body "json list"

record http_request =
  hq_method :: string
  hq_path :: string
  hq_body :: request_body

record http_response =
  hr_status_code :: int
  hr_json :: "json res"
  hr_body_text :: string

datatype http_failure = TimeoutException | NetworkError | OtherHttpError py_error

type_synonym 'x http_client = "http_request \<Rightarrow> 'x \<Rightarrow> (http_failure + http_response) \<times> 'x"

record 'x OpenSearchTransport =
  ot_client :: "'x http_client"
  ot_target_name :: string
  ot_target_version :: string
  ot_dimensions :: int

definition raise_response :: "http_response \<Rightarrow> ('a, 'x) io" where
  "raise_response response =
     raise_io (SearchPublicationError (''OpenSearch returned HTTP '' @ str_int (hr_status_code response)))"

definition raw_request :: "'x OpenSearchTransport \<Rightarrow> http_request \<Rightarrow> (http_response, 'x) io" where
  "raw_request t q x =
     (case ot_client t q x of
        (Inr response, x1) \<Rightarrow> (Inr response, x1)
      | (Inl (OtherHttpError e), x1) \<Rightarrow> (Inl e, x1)
      | (Inl _, x1) \<Rightarrow> (Inl (SearchPublicationError ''OpenSearch request failed''), x1))"

definition checked_request :: "'x OpenSearchTransport \<Rightarrow> http_request \<Rightarrow> (http_response, 'x) io" where
  "checked_request t q =
     bind_io (raw_request t q) (\<lambda>response.
       if hr_status_code response \<ge> 400 then raise_response response else return_io response)"

text \<open>Subscripts, truth values and comparisons of decoded JSON.\<close>

fun json_item :: "string \<Rightarrow> json \<Rightarrow> json res" where
  "json_item k (JObj fs) = (case map_of fs k of None \<Rightarrow> Inl (KeyError k) | Some v \<Rightarrow> Inr v)"
| "json_item k _ = Inl (UnexpectedError ''TypeError'')"

fun json_truthy :: "json \<Rightarrow> bool" where
  "json_truthy JNull = False"
| "json_truthy (JBool b) = b"
| "json_truthy (JInt n) = (n \<noteq> 0)"
| "json_truthy (JFloat r) = (r \<noteq> 0)"
| "json_truthy (JStr s) = (s \<noteq> [])"
| "json_truthy (JArr xs) = (xs \<noteq> [])"
| "json_truthy (JObj fs) = (fs \<noteq> [])"

fun json_is_int :: "json \<Rightarrow> int \<Rightarrow> bool" where
  "json_is_int (JInt m) n \<longleftrightarrow> m = n"
| "json_is_int (JBool b) n \<longleftrightarrow> (if b then 1 else 0) = n"
| "json_is_int (JFloat r) n \<longleftrightarrow> r = of_int n"
| "json_is_int _ n \<longleftrightarrow> False"

text \<open>What iterating over a value yields, and \<open>key in value\<close>.\<close>

fun json_items :: "json \<Rightarrow> json list res" where
  "json_items (JArr xs) = Inr xs"
| "json_items (JStr s) = Inr (map (\<lambda>c. JStr [c]) s)"
| "json_items (JObj fs) = Inr (map (\<lambda>f. JStr (fst f)) fs)"
| "json_items _ = Inl (UnexpectedError ''TypeError'')"

fun json_keys :: "json \<Rightarrow> string list res" where
  "json_keys (JObj fs) = Inr (map fst fs)"
| "json_keys _ = Inl (UnexpectedError ''AttributeError'')"

text \<open>The settings, their checks beyond the single fields, and the transport made from them.\<close>

record SearchSettings =
  se_endpoint_url :: "string option"
  se_username :: "string option"
  se_password :: "string option"
  se_index_name :: string
  se_target_version :: string

definition truthy_option :: "string option \<Rightarrow> bool" where
  "truthy_option t \<longleftrightarrow> (case t of None \<Rightarrow> False | Some v \<Rightarrow> v \<noteq> [])"

definition validate_credentials :: "SearchSettings \<Rightarrow> SearchSettings res" where
  "validate_credentials st =
     (if truthy_option (se_username st) \<noteq> truthy_option (se_password st)
      then Inl (ValueError ''search username and password must be paired'')
      else case se_endpoint_url st of
        Some url \<Rightarrow>
          if url \<noteq> [] \<and> \<not> (take 7 url = ''http://'' \<or> take 8 url = ''https://'')
          then Inl (ValueError ''search endpoint must use HTTP or HTTPS'') else Inr st
      | None \<Rightarrow> Inr st)"

definition new_transport :: "SearchSettings \<Rightarrow> int \<Rightarrow> 'x http_client \<Rightarrow> 'x OpenSearchTransport res" where
  "new_transport st dimensions client =
     (if se_endpoint_url st = None then Inl (ValueError ''search endpoint is required'')
      else Inr \<lparr>ot_client = client, ot_target_name = se_index_name st, ot_target_version = se_target_version st,
                ot_dimensions = dimensions\<rparr>)"

definition search_check_connection :: "'x OpenSearchTransport \<Rightarrow> (unit, 'x) io" where
  "search_check_connection t =
     bind_io (checked_request t \<lparr>hq_method = ''GET'', hq_path = ''/_cluster/health'', hq_body = No_Body\<rparr>)
       (\<lambda>_. return_io ())"

section \<open>The index\<close>

definition keyword_field :: "string \<Rightarrow> string \<times> json" where
  "keyword_field name = (name, JObj [(''type'', JStr ''keyword'')])"

definition integer_field :: "string \<Rightarrow> string \<times> json" where
  "integer_field name = (name, JObj [(''type'', JStr ''integer'')])"

definition index_body :: "int \<Rightarrow> json" where
  "index_body dimensions = JObj
     [(''settings'', JObj [(''index.knn'', JBool True)]),
      (''mappings'', JObj [(''dynamic'', JStr ''strict''), (''properties'', JObj
         [keyword_field ''tenant_id'', keyword_field ''collection_id'', keyword_field ''document_version_id'',
          keyword_field ''chunk_id'', keyword_field ''publication_job_id'', integer_field ''publication_attempt'',
          (''body'', JObj [(''type'', JStr ''text'')]), integer_field ''page_start'', integer_field ''page_end'',
          keyword_field ''section_path'', keyword_field ''content_sha256'', keyword_field ''pipeline_profile'',
          keyword_field ''chunker_name'', keyword_field ''chunker_version'', keyword_field ''embedding_provider'',
          keyword_field ''embedding_model'', keyword_field ''embedding_model_version'',
          (''publication_complete'', JObj [(''type'', JStr ''boolean'')]),
          (''embedding'', JObj [(''type'', JStr ''knn_vector''), (''dimension'', JInt dimensions)])])])]"

definition attempt_fields :: "(string \<times> json) list" where
  "attempt_fields = [keyword_field ''publication_job_id'', integer_field ''publication_attempt'']"

definition contains_text :: "string \<Rightarrow> string \<Rightarrow> bool" where
  "contains_text needle haystack \<longleftrightarrow> list_ex (\<lambda>n. take (length needle) (drop n haystack) = needle) [0..<length haystack + 1]"

text \<open>The mapping of an existing index.\<close>

definition index_mapping :: "string \<Rightarrow> json res \<Rightarrow> json res" where
  "index_mapping name payload =
     bind_res payload (\<lambda>j. bind_res (json_item name j) (\<lambda>index.
     bind_res (json_item ''mappings'' index) (json_item ''properties'')))"

definition ensure_index :: "'x OpenSearchTransport \<Rightarrow> (unit, 'x) io" where
  "ensure_index t =
     bind_io (raw_request t \<lparr>hq_method = ''GET'', hq_path = ''/'' @ ot_target_name t, hq_body = No_Body\<rparr>) (\<lambda>response.
     if hr_status_code response = 200
     then bind_io (lift_res (index_mapping (ot_target_name t) (hr_json response))) (\<lambda>mapping.
          bind_io (lift_res (bind_res (json_item ''embedding'' mapping) (json_get ''dimension'' JNull))) (\<lambda>dimension.
          if \<not> json_is_int dimension (ot_dimensions t)
          then raise_io (SearchPublicationError ''OpenSearch vector dimension mismatch'')
          else bind_io (lift_res (json_keys mapping)) (\<lambda>present.
               let missing = filter (\<lambda>f. fst f \<notin> set present) attempt_fields
               in if missing \<noteq> []
                  then bind_io (raw_request t \<lparr>hq_method = ''PUT'', hq_path = ''/'' @ ot_target_name t @ ''/_mapping'',
                           hq_body = Json_Body (JObj [(''properties'', JObj missing)])\<rparr>) (\<lambda>mapping_response.
                         if hr_status_code mapping_response \<notin> {200, 201} then raise_response mapping_response
                         else return_io ())
                  else return_io ())))
     else if hr_status_code response \<noteq> 404 then raise_response response
     else bind_io (raw_request t \<lparr>hq_method = ''PUT'', hq_path = ''/'' @ ot_target_name t,
              hq_body = Json_Body (index_body (ot_dimensions t))\<rparr>) (\<lambda>create_response.
          if hr_status_code create_response \<notin> {200, 201}
             \<and> (hr_status_code create_response \<noteq> 400
                \<or> \<not> contains_text ''resource_already_exists_exception'' (hr_body_text create_response))
          then raise_response create_response else return_io ()))"

section \<open>Publishing\<close>

record SearchRecord =
  sr_tenant_id :: uuid
  sr_collection_id :: uuid
  sr_document_version_id :: uuid
  sr_chunk :: ChunkRecord
  sr_embedding :: EmbeddedChunk
  sr_publication_job_id :: uuid
  sr_publication_attempt :: int
  sr_pipeline_profile :: string
  sr_embedding_provider :: string
  sr_embedding_model :: string
  sr_embedding_model_version :: string

definition external_record_id :: "SearchRecord \<Rightarrow> string res" where
  "external_record_id r =
     (if sr_publication_attempt r < 1 then Inl (ValueError ''publication attempt must be positive'')
      else Inr (str_uuid (sr_publication_job_id r) @ '':'' @ str_int (sr_publication_attempt r) @ '':''
             @ str_uuid (cr_chunk_id (sr_chunk r))))"

definition record_source :: "SearchRecord \<Rightarrow> json" where
  "record_source r = JObj
     [(''tenant_id'', JStr (str_uuid (sr_tenant_id r))), (''collection_id'', JStr (str_uuid (sr_collection_id r))),
      (''document_version_id'', JStr (str_uuid (sr_document_version_id r))),
      (''chunk_id'', JStr (str_uuid (cr_chunk_id (sr_chunk r)))),
      (''publication_job_id'', JStr (str_uuid (sr_publication_job_id r))),
      (''publication_attempt'', JInt (sr_publication_attempt r)), (''body'', JStr (cr_text (sr_chunk r))),
      (''page_start'', JInt (cr_page_start (sr_chunk r))), (''page_end'', JInt (cr_page_end (sr_chunk r))),
      (''section_path'', JArr (map JStr (cr_section_path (sr_chunk r)))),
      (''content_sha256'', JStr (cr_content_sha256 (sr_chunk r))),
      (''pipeline_profile'', JStr (sr_pipeline_profile r)),
      (''chunker_name'', JStr (cr_chunker_name (sr_chunk r))),
      (''chunker_version'', JStr (cr_chunker_version (sr_chunk r))),
      (''embedding_provider'', JStr (sr_embedding_provider r)), (''embedding_model'', JStr (sr_embedding_model r)),
      (''embedding_model_version'', JStr (sr_embedding_model_version r)), (''publication_complete'', JBool False),
      (''embedding'', JArr (map JFloat (ec_vector (sr_embedding r))))]"

definition bulk_lines :: "string \<Rightarrow> SearchRecord \<Rightarrow> json list res" where
  "bulk_lines target_name r =
     bind_res (external_record_id r) (\<lambda>external_id.
     Inr [JObj [(''index'', JObj [(''_index'', JStr target_name), (''_id'', JStr external_id)])], record_source r])"

text \<open>What \<open>_verify_batch\<close> expects and what it finds.\<close>

definition record_identity :: "SearchRecord \<Rightarrow> string list \<times> int" where
  "record_identity r =
     ([str_uuid (sr_tenant_id r), str_uuid (sr_collection_id r), str_uuid (sr_document_version_id r),
       str_uuid (sr_publication_job_id r)], sr_publication_attempt r)"

definition identity_fields :: "string list" where
  "identity_fields = [''tenant_id'', ''collection_id'', ''document_version_id'', ''publication_job_id'']"

definition same_identity :: "(string list \<times> int) option \<Rightarrow> json list \<Rightarrow> json \<Rightarrow> bool" where
  "same_identity identity texts attempt =
     (case identity of None \<Rightarrow> False | Some (ts, n) \<Rightarrow> texts = map JStr ts \<and> json_is_int attempt n)"

text \<open>One document of the answer; \<open>text_of\<close> is \<open>str\<close> on other values than strings.\<close>

definition verify_document ::
  "(json \<Rightarrow> string) \<Rightarrow> (string \<times> string list \<times> int) list \<Rightarrow> json \<Rightarrow> unit res" where
  "verify_document text_of expected document =
     bind_res (json_get ''_source'' (JObj []) document) (\<lambda>source.
     bind_res (json_get ''_id'' JNull document) (\<lambda>i.
     bind_res (map_res (\<lambda>field. json_get field JNull source) identity_fields) (\<lambda>texts.
     bind_res (json_get ''publication_attempt'' JNull source) (\<lambda>attempt.
     bind_res (json_get ''found'' JNull document) (\<lambda>found.
     raise_if (\<not> json_truthy found
         \<or> \<not> same_identity (map_of expected (case i of JStr t \<Rightarrow> t | _ \<Rightarrow> text_of i)) texts attempt)
       (SearchPublicationError ''OpenSearch scope verification failed''))))))"

fun verify_documents ::
  "(json \<Rightarrow> string) \<Rightarrow> (string \<times> string list \<times> int) list \<Rightarrow> json list \<Rightarrow> unit res" where
  "verify_documents text_of expected [] = Inr ()"
| "verify_documents text_of expected (d # ds) =
     bind_res (verify_document text_of expected d) (\<lambda>_. verify_documents text_of expected ds)"

definition verify_batch ::
  "(json \<Rightarrow> string) \<Rightarrow> 'x OpenSearchTransport \<Rightarrow> SearchRecord list \<Rightarrow> (unit, 'x) io" where
  "verify_batch text_of t records =
     bind_io (lift_res (map_res external_record_id records)) (\<lambda>ids.
     bind_io (checked_request t \<lparr>hq_method = ''POST'', hq_path = ''/'' @ ot_target_name t @ ''/_mget'',
         hq_body = Json_Body (JObj [(''ids'', JArr (map JStr ids))])\<rparr>) (\<lambda>response.
     bind_io (lift_res (bind_res (hr_json response) (json_get ''docs'' (JArr [])))) (\<lambda>docs.
     let expected = fold (\<lambda>(i, r). dict_put i (record_identity r)) (zip ids records) []
     in bind_io (lift_res (json_items docs)) (\<lambda>documents.
        if length documents \<noteq> length expected
        then raise_io (SearchPublicationError ''OpenSearch verification count mismatch'')
        else lift_res (verify_documents text_of expected documents)))))"

definition record_publications :: "SearchRecord \<Rightarrow> PublicationRecord list res" where
  "record_publications r =
     bind_res (external_record_id r) (\<lambda>external_id.
     Inr [\<lparr>pb_chunk_id = cr_chunk_id (sr_chunk r), pb_publication_kind = ''lexical'',
           pb_external_record_id = external_id @ '':lexical''\<rparr>,
          \<lparr>pb_chunk_id = cr_chunk_id (sr_chunk r), pb_publication_kind = ''vector'',
           pb_external_record_id = external_id @ '':vector''\<rparr>])"

definition publish_records ::
  "(json \<Rightarrow> string) \<Rightarrow> 'x OpenSearchTransport \<Rightarrow> SearchRecord list \<Rightarrow> (PublicationRecord list, 'x) io" where
  "publish_records text_of t records =
     (if records = [] then raise_io (ValueError ''search publication batch cannot be empty'')
      else bind_io (ensure_index t) (\<lambda>_.
        bind_io (lift_res (map_res (bulk_lines (ot_target_name t)) records)) (\<lambda>ls.
        bind_io (checked_request t \<lparr>hq_method = ''POST'', hq_path = ''/_bulk?refresh=wait_for'',
            hq_body = Ndjson_Body (concat ls)\<rparr>) (\<lambda>response.
        bind_io (lift_res (bind_res (hr_json response) (json_get ''errors'' JNull))) (\<lambda>errors.
        if json_truthy errors
        then raise_io (SearchPublicationError ''OpenSearch bulk publication was incomplete'')
        else bind_io (verify_batch text_of t records) (\<lambda>_.
             bind_io (lift_res (map_res record_publications records)) (\<lambda>ps. return_io (concat ps))))))))"

section \<open>Visibility and deletion\<close>

definition term_filter :: "string \<Rightarrow> json \<Rightarrow> json" where
  "term_filter field value = JObj [(''term'', JObj [(field, value)])]"

definition publication_attempt_filters :: "uuid option \<Rightarrow> int option \<Rightarrow> json list res" where
  "publication_attempt_filters publication_job_id publication_attempt =
     (if (publication_job_id = None) \<noteq> (publication_attempt = None)
      then Inl (ValueError ''publication job and attempt must be paired'')
      else case (publication_job_id, publication_attempt) of
        (Some j, Some n) \<Rightarrow>
          if n < 1 then Inl (ValueError ''publication attempt must be positive'')
          else Inr [term_filter ''publication_job_id'' (JStr (str_uuid j)), term_filter ''publication_attempt'' (JInt n)]
      | _ \<Rightarrow> Inr [])"

definition scope_filters :: "uuid \<Rightarrow> uuid \<Rightarrow> uuid \<Rightarrow> json list" where
  "scope_filters tenant_id collection_id document_version_id =
     [term_filter ''tenant_id'' (JStr (str_uuid tenant_id)), term_filter ''collection_id'' (JStr (str_uuid collection_id)),
      term_filter ''document_version_id'' (JStr (str_uuid document_version_id))]"

definition filter_query :: "json list \<Rightarrow> string \<times> json" where
  "filter_query filters = (''query'', JObj [(''bool'', JObj [(''filter'', JArr filters)])])"

definition target_index :: "'x OpenSearchTransport \<Rightarrow> SearchTarget option \<Rightarrow> string" where
  "target_index t target = (case target of Some g \<Rightarrow> st_name g | None \<Rightarrow> ot_target_name t)"

definition update_request :: "string \<Rightarrow> json list \<Rightarrow> bool \<Rightarrow> http_request" where
  "update_request index filters visible =
     \<lparr>hq_method = ''POST'', hq_path = ''/'' @ index @ ''/_update_by_query?refresh=true&conflicts=proceed'',
      hq_body = Json_Body (JObj [filter_query filters,
        (''script'', JObj [(''lang'', JStr ''painless''),
           (''source'', JStr ''ctx._source.publication_complete = params.visible''),
           (''params'', JObj [(''visible'', JBool visible)])])])\<rparr>"

definition delete_request :: "string \<Rightarrow> json list \<Rightarrow> http_request" where
  "delete_request index filters =
     \<lparr>hq_method = ''POST'', hq_path = ''/'' @ index @ ''/_delete_by_query?refresh=true&conflicts=proceed'',
      hq_body = Json_Body (JObj [filter_query filters])\<rparr>"

text \<open>The test of the answer, left to right; a missing count is zero.\<close>

definition update_incomplete :: "json \<Rightarrow> int \<Rightarrow> bool res" where
  "update_incomplete payload expected_records =
     bind_res (json_get ''version_conflicts'' JNull payload) (\<lambda>conflicts.
     if json_truthy conflicts then Inr True
     else bind_res (json_get ''failures'' JNull payload) (\<lambda>failures.
     if json_truthy failures then Inr True
     else bind_res (json_get ''total'' JNull payload) (\<lambda>total_count.
     if \<not> json_is_int total_count expected_records then Inr True
     else bind_res (bind_res (json_get ''updated'' (JInt 0) payload) json_int) (\<lambda>updated.
          bind_res (bind_res (json_get ''noops'' (JInt 0) payload) json_int) (\<lambda>noops.
          Inr (updated + noops \<noteq> expected_records))))))"

definition set_version_visibility ::
  "'x OpenSearchTransport \<Rightarrow> uuid \<Rightarrow> uuid \<Rightarrow> uuid \<Rightarrow> int \<Rightarrow> SearchTarget option \<Rightarrow> uuid option \<Rightarrow> int option
   \<Rightarrow> bool \<Rightarrow> (unit, 'x) io" where
  "set_version_visibility t tenant_id collection_id document_version_id expected_records target
     publication_job_id publication_attempt visible =
     bind_io (lift_res (publication_attempt_filters publication_job_id publication_attempt)) (\<lambda>attempt_filters.
     bind_io (checked_request t (update_request (target_index t target)
         (scope_filters tenant_id collection_id document_version_id @ attempt_filters) visible)) (\<lambda>response.
     bind_io (lift_res (bind_res (hr_json response) (\<lambda>payload. update_incomplete payload expected_records))) (\<lambda>incomplete.
     if incomplete
     then raise_io (SearchPublicationError (''OpenSearch '' @ (if visible then ''activation'' else ''deactivation'')
            @ '' was incomplete''))
     else return_io ())))"

definition adapter_activate_version ::
  "'x OpenSearchTransport \<Rightarrow> uuid \<Rightarrow> uuid \<Rightarrow> uuid \<Rightarrow> int \<Rightarrow> SearchTarget option \<Rightarrow> uuid option \<Rightarrow> int option
   \<Rightarrow> (unit, 'x) io" where
  "adapter_activate_version t tenant_id collection_id document_version_id expected_records target j n =
     set_version_visibility t tenant_id collection_id document_version_id expected_records target j n True"

definition adapter_deactivate_version ::
  "'x OpenSearchTransport \<Rightarrow> uuid \<Rightarrow> uuid \<Rightarrow> uuid \<Rightarrow> int \<Rightarrow> SearchTarget option \<Rightarrow> uuid option \<Rightarrow> int option
   \<Rightarrow> (unit, 'x) io" where
  "adapter_deactivate_version t tenant_id collection_id document_version_id expected_records target j n =
     set_version_visibility t tenant_id collection_id document_version_id expected_records target j n False"

definition delete_incomplete :: "json \<Rightarrow> bool res" where
  "delete_incomplete payload =
     bind_res (json_get ''timed_out'' JNull payload) (\<lambda>timed_out.
     bind_res (json_get ''version_conflicts'' JNull payload) (\<lambda>conflicts.
     bind_res (json_get ''failures'' JNull payload) (\<lambda>failures.
     Inr (json_truthy timed_out \<or> json_truthy conflicts \<or> json_truthy failures))))"

definition adapter_delete_version ::
  "'x OpenSearchTransport \<Rightarrow> uuid \<Rightarrow> uuid \<Rightarrow> uuid \<Rightarrow> SearchTarget option \<Rightarrow> uuid option \<Rightarrow> int option
   \<Rightarrow> (int, 'x) io" where
  "adapter_delete_version t tenant_id collection_id document_version_id target publication_job_id publication_attempt =
     bind_io (lift_res (publication_attempt_filters publication_job_id publication_attempt)) (\<lambda>attempt_filters.
     bind_io (raw_request t (delete_request (target_index t target)
         (scope_filters tenant_id collection_id document_version_id @ attempt_filters))) (\<lambda>response.
     if hr_status_code response = 404 then return_io 0
     else if hr_status_code response \<ge> 400 then raise_response response
     else bind_io (lift_res (hr_json response)) (\<lambda>payload.
          bind_io (lift_res (delete_incomplete payload)) (\<lambda>incomplete.
          if incomplete then raise_io (SearchPublicationError ''OpenSearch deletion was incomplete'')
          else lift_res (bind_res (json_get ''deleted'' (JInt 0) payload) json_int)))))"

text \<open>The adapter as the recovery service uses it.\<close>

definition recovery_adapter :: "'x OpenSearchTransport \<Rightarrow> 'x search_adapter" where
  "recovery_adapter t =
     \<lparr>delete_version = (\<lambda>c. bind_io (adapter_delete_version t (sk_tenant_id c) (sk_collection_id c)
          (sk_document_version_id c) (Some (sk_target c)) (sk_publication_job_id c) (sk_publication_attempt c))
          (\<lambda>_. return_io ())),
      activate_version = (\<lambda>a. adapter_activate_version t (ac_tenant_id a) (ac_collection_id a)
          (ac_document_version_id a) (ac_record_count a) (Some (ac_target a)) (Some (ac_publication_job_id a))
          (Some (ac_publication_attempt a)))\<rparr>"

section \<open>Record identifiers\<close>

lemma dec_nat_inj: "dec_nat a = dec_nat b \<Longrightarrow> a = b"
proof (induction a arbitrary: b rule: dec_nat.induct)
  case (1 a)
  have nonempty: "dec_nat n \<noteq> []" for n by (subst dec_nat.simps) simp
  have split: "dec_nat n = (if n < 10 then [] else dec_nat (n div 10)) @ [digit_char (n mod 10)]" for n
    by (subst dec_nat.simps) simp
  note both = "1.prems" [unfolded split [of a] split [of b] append1_eq_conv]
  note eq = both [THEN conjunct1] both [THEN conjunct2]
  from digit_char_inj [OF _ _ eq(2)] have m: "a mod 10 = b mod 10" by simp
  show ?case
  proof (cases "a < 10")
    case True
    with eq(1) nonempty [of "b div 10"] have "b < 10" by (simp split: if_splits)
    with True m show ?thesis by simp
  next
    case False
    with eq(1) nonempty [of "a div 10"] have "\<not> b < 10" by (simp split: if_splits)
    with False eq(1) "1.IH" have "a div 10 = b div 10" by simp
    with m show ?thesis by (metis div_mult_mod_eq)
  qed
qed

lemma external_record_id_inj:
  assumes "external_record_id r = Inr i" and "external_record_id r' = Inr i"
  shows "sr_publication_job_id r = sr_publication_job_id r' \<and> sr_publication_attempt r = sr_publication_attempt r'
    \<and> cr_chunk_id (sr_chunk r) = cr_chunk_id (sr_chunk r')"
proof -
  from assms have "str_uuid (sr_publication_job_id r) @ '':'' @ str_int (sr_publication_attempt r) @ '':'' @ str_uuid (cr_chunk_id (sr_chunk r))
    = str_uuid (sr_publication_job_id r') @ '':'' @ str_int (sr_publication_attempt r') @ '':'' @ str_uuid (cr_chunk_id (sr_chunk r'))"
    and pos: "1 \<le> sr_publication_attempt r" "1 \<le> sr_publication_attempt r'"
    by (auto simp: external_record_id_def split: if_splits)
  then have j: "sr_publication_job_id r = sr_publication_job_id r'"
    and rest: "(str_int (sr_publication_attempt r) @ '':'') @ str_uuid (cr_chunk_id (sr_chunk r))
      = (str_int (sr_publication_attempt r') @ '':'') @ str_uuid (cr_chunk_id (sr_chunk r'))"
    by (auto simp: append_eq_append_conv length_str_uuid)
  from rest have "str_int (sr_publication_attempt r) @ '':'' = str_int (sr_publication_attempt r') @ '':''
      \<and> str_uuid (cr_chunk_id (sr_chunk r)) = str_uuid (cr_chunk_id (sr_chunk r'))"
    by (subst (asm) append_eq_append_conv) (simp_all add: length_str_uuid)
  then have "str_int (sr_publication_attempt r) = str_int (sr_publication_attempt r')"
    "cr_chunk_id (sr_chunk r) = cr_chunk_id (sr_chunk r')" by auto
  moreover from this(1) pos have "nat (sr_publication_attempt r) = nat (sr_publication_attempt r')"
    by (auto simp: str_int_def dest: dec_nat_inj)
  ultimately show ?thesis using j pos by simp
qed

section \<open>What the search engine documents\<close>

text \<open>\<open>docs x index id\<close> is the source of a stored document.\<close>

definition field_is :: "json \<Rightarrow> string \<Rightarrow> json \<Rightarrow> bool" where
  "field_is src field value \<longleftrightarrow> (\<exists>fs. src = JObj fs \<and> map_of fs field = Some value)"

fun json_field :: "string \<Rightarrow> json \<Rightarrow> json option" where
  "json_field k (JObj fs) = map_of fs k"
| "json_field k _ = None"

lemma field_is_json_field: "field_is src field value \<longleftrightarrow> json_field field src = Some value"
  by (cases src) (simp_all add: field_is_def)

text \<open>The part of the query language that is needed to tell the requests of the adapter from others: a leaf
  query, and a \<open>bool\<close> query whose clauses list leaf queries. What is not understood has no meaning, \<open>None\<close>.\<close>

fun leaf_query :: "json \<Rightarrow> json \<Rightarrow> bool option" where
  "leaf_query (JObj [(operator, JObj [(field, value)])]) src =
     (if operator = ''term'' then Some (json_field field src = Some value)
      else if operator = ''prefix''
      then case value of
             JStr p \<Rightarrow> Some (case json_field field src of Some (JStr t) \<Rightarrow> take (length p) t = p | _ \<Rightarrow> False)
           | _ \<Rightarrow> None
      else None)"
| "leaf_query (JObj [(operator, JObj [])]) src = (if operator = ''match_all'' then Some True else None)"
| "leaf_query _ src = None"

definition all_of :: "bool option list \<Rightarrow> bool option" where
  "all_of bs = (if None \<in> set bs then None else Some (Some False \<notin> set bs))"

fun bool_clause :: "json \<Rightarrow> string \<times> json \<Rightarrow> bool option" where
  "bool_clause src (occurrence, JArr qs) =
     (if occurrence = ''filter'' \<or> occurrence = ''must'' then all_of (map (\<lambda>q. leaf_query q src) qs)
      else if occurrence = ''must_not'' then all_of (map (\<lambda>q. map_option Not (leaf_query q src)) qs)
      else None)"
| "bool_clause src _ = None"

fun query_holds :: "json \<Rightarrow> json \<Rightarrow> bool option" where
  "query_holds (JObj [(operator, JObj clauses)]) src =
     (if operator = ''bool'' then all_of (map (bool_clause src) clauses)
      else leaf_query (JObj [(operator, JObj clauses)]) src)"
| "query_holds _ src = None"

text \<open>A script that assigns a parameter to a field of the document: the field and the value it gets.\<close>

definition script_assignment :: "string \<Rightarrow> (string \<times> string) option" where
  "script_assignment source =
     (let field = takeWhile (\<lambda>c. c \<noteq> CHR '' '') (drop 12 source); rest = drop (12 + length field) source;
          parameter = drop 10 rest
      in if take 12 source = ''ctx._source.'' \<and> take 10 rest = '' = params.''
           \<and> list_all (\<lambda>c. c \<in> set ''abcdefghijklmnopqrstuvwxyz_'') (field @ parameter)
         then Some (field, parameter) else None)"

definition scripted :: "json \<Rightarrow> (string \<times> json) option" where
  "scripted body =
     Option.bind (json_field ''script'' body) (\<lambda>script.
       if json_field ''lang'' script \<noteq> Some (JStr ''painless'') then None
       else case json_field ''source'' script of
         Some (JStr source) \<Rightarrow>
           Option.bind (script_assignment source) (\<lambda>(field, parameter).
             Option.bind (json_field ''params'' script) (\<lambda>params.
               map_option (Pair field) (json_field parameter params)))
       | _ \<Rightarrow> None)"

text \<open>The documents a query selects in an index, and whether all of its meaning is known there.\<close>

definition hits :: "('x \<Rightarrow> string \<Rightarrow> string \<Rightarrow> json option) \<Rightarrow> 'x \<Rightarrow> string \<Rightarrow> json \<Rightarrow> string set" where
  "hits docs x index q = {k. \<exists>src. docs x index k = Some src \<and> query_holds q src = Some True}"

definition understood :: "('x \<Rightarrow> string \<Rightarrow> string \<Rightarrow> json option) \<Rightarrow> 'x \<Rightarrow> string \<Rightarrow> json \<Rightarrow> bool" where
  "understood docs x index q \<longleftrightarrow> (\<forall>k src. docs x index k = Some src \<longrightarrow> query_holds q src \<noteq> None)"

text \<open>A deletion by an understood query, whatever the body it is in, removes nothing but its hits.\<close>

definition deletes_by_query :: "'x http_client \<Rightarrow> ('x \<Rightarrow> string \<Rightarrow> string \<Rightarrow> json option) \<Rightarrow> bool" where
  "deletes_by_query client docs \<longleftrightarrow> (\<forall>index options body q x r x1.
     search_target_name_ok index \<longrightarrow> json_field ''query'' body = Some q \<longrightarrow> understood docs x index q \<longrightarrow>
     client \<lparr>hq_method = ''POST'', hq_path = ''/'' @ index @ ''/_delete_by_query?'' @ options, hq_body = Json_Body body\<rparr> x = (r, x1) \<longrightarrow>
     (\<forall>i k. docs x1 i k = docs x i k \<or> (i = index \<and> k \<in> hits docs x index q \<and> docs x1 i k = None)))"

text \<open>An update by an understood query and an understood script, whatever the body: nothing but the hits changes,
  \<open>total\<close> counts them, and \<open>updated\<close> and \<open>noops\<close> those that now have what the script assigns.\<close>

definition updates_by_query :: "'x http_client \<Rightarrow> ('x \<Rightarrow> string \<Rightarrow> string \<Rightarrow> json option) \<Rightarrow> bool" where
  "updates_by_query client docs \<longleftrightarrow> (\<forall>index options body q field value x response x1.
     search_target_name_ok index \<longrightarrow> json_field ''query'' body = Some q \<longrightarrow> understood docs x index q \<longrightarrow>
     scripted body = Some (field, value) \<longrightarrow>
     client \<lparr>hq_method = ''POST'', hq_path = ''/'' @ index @ ''/_update_by_query?'' @ options, hq_body = Json_Body body\<rparr> x
       = (Inr response, x1) \<longrightarrow> hr_status_code response < 400 \<longrightarrow>
     (\<forall>i k. docs x1 i k = docs x i k \<or> (i = index \<and> k \<in> hits docs x index q))
     \<and> finite (hits docs x index q) \<and> (\<exists>fs updated noops. hr_json response = Inr (JObj fs)
         \<and> map_of fs ''total'' = Some (JInt (int (card (hits docs x index q))))
         \<and> map_of fs ''updated'' = Some (JInt updated) \<and> map_of fs ''noops'' = Some (JInt noops)
         \<and> updated + noops \<le> int (card {k \<in> hits docs x index q. \<exists>src. docs x1 index k = Some src \<and> field_is src field value})))"

text \<open>The documents of a version, and of one publication attempt of it when that is named.\<close>

definition in_scope :: "uuid \<Rightarrow> uuid \<Rightarrow> uuid \<Rightarrow> uuid option \<Rightarrow> int option \<Rightarrow> json \<Rightarrow> bool" where
  "in_scope t c v j n src \<longleftrightarrow> field_is src ''tenant_id'' (JStr (str_uuid t)) \<and> field_is src ''collection_id'' (JStr (str_uuid c))
     \<and> field_is src ''document_version_id'' (JStr (str_uuid v))
     \<and> (case j of None \<Rightarrow> True | Some i \<Rightarrow> field_is src ''publication_job_id'' (JStr (str_uuid i)))
     \<and> (case n of None \<Rightarrow> True | Some a \<Rightarrow> field_is src ''publication_attempt'' (JInt a))"

text \<open>The meaning of the query the adapter sends is this scope, and that of its script the flag.\<close>

lemma leaf_term: "leaf_query (term_filter field value) src = Some (field_is src field value)"
  by (simp add: term_filter_def field_is_json_field)

lemma query_scope:
  "publication_attempt_filters j n = Inr fs \<Longrightarrow>
    query_holds (snd (filter_query (scope_filters t c v @ fs))) src = Some (in_scope t c v j n src)"
  by (cases j; cases n) (auto simp: publication_attempt_filters_def filter_query_def scope_filters_def in_scope_def
      all_of_def leaf_term split: if_splits)

lemma filter_query_fst: "fst (filter_query filters) = ''query''"
  by (simp add: filter_query_def)

lemma script_sets_flag:
  "hq_body (update_request index filters visible) = Json_Body body \<Longrightarrow>
    json_field ''query'' body = Some (snd (filter_query filters)) \<and> scripted body = Some (''publication_complete'', JBool visible)"
  by (auto simp: update_request_def scripted_def script_assignment_def filter_query_def)

lemma scope_hits:
  assumes "publication_attempt_filters j n = Inr fs"
  shows "understood docs x i (snd (filter_query (scope_filters t c v @ fs)))"
    and "hits docs x i (snd (filter_query (scope_filters t c v @ fs))) = {k. \<exists>src. docs x i k = Some src \<and> in_scope t c v j n src}"
  by (simp_all add: understood_def hits_def query_scope [OF assms])

text \<open>One document of an \<open>_mget\<close> answer.\<close>

definition mget_document :: "json option \<Rightarrow> string \<Rightarrow> json \<Rightarrow> bool" where
  "mget_document stored k d \<longleftrightarrow> (\<exists>fs. d = JObj fs \<and> map_of fs ''_id'' = Some (JStr k)
     \<and> (case stored of None \<Rightarrow> map_of fs ''found'' = Some (JBool False)
        | Some src \<Rightarrow> map_of fs ''found'' = Some (JBool True) \<and> map_of fs ''_source'' = Some src))"

definition mget_reads :: "'x http_client \<Rightarrow> ('x \<Rightarrow> string \<Rightarrow> string \<Rightarrow> json option) \<Rightarrow> bool" where
  "mget_reads client docs \<longleftrightarrow> (\<forall>index ids x response x1.
     client \<lparr>hq_method = ''POST'', hq_path = ''/'' @ index @ ''/_mget'',
         hq_body = Json_Body (JObj [(''ids'', JArr (map JStr ids))])\<rparr> x = (Inr response, x1) \<longrightarrow>
     hr_status_code response < 400 \<longrightarrow>
     docs x1 = docs x \<and> (\<exists>ds. hr_json response = Inr (JObj [(''docs'', JArr ds)])
       \<and> list_all2 (\<lambda>k d. mget_document (docs x index k) k d) ids ds))"

section \<open>Requests and their states\<close>

lemma raw_request_state:
  "raw_request t q x = (r, x1) \<Longrightarrow> \<exists>a. ot_client t q x = (a, x1) \<and> (\<forall>response. r = Inr response \<longrightarrow> a = Inr response)"
  unfolding raw_request_def by (auto split: prod.splits sum.splits http_failure.splits)

lemma checked_request_Inr:
  "checked_request t q x = (Inr response, x1) \<Longrightarrow> ot_client t q x = (Inr response, x1) \<and> hr_status_code response < 400"
  unfolding checked_request_def
  by (auto elim!: bind_io_InrE dest!: raw_request_state simp: raise_response_def split: if_splits)

lemma raise_response_eq [simp]: "raise_response response x = (r, x1) \<longleftrightarrow>
    r = Inl (SearchPublicationError (''OpenSearch returned HTTP '' @ str_int (hr_status_code response))) \<and> x1 = x"
  by (auto simp: raise_response_def raise_io_def)

lemma delete_one_request:
  assumes "adapter_delete_version t tn c v target j n x = (r, x1)"
  shows "(\<exists>e. publication_attempt_filters j n = Inl e \<and> r = Inl e \<and> x1 = x)
    \<or> (\<exists>fs a. publication_attempt_filters j n = Inr fs
        \<and> ot_client t (delete_request (target_index t target) (scope_filters tn c v @ fs)) x = (a, x1))"
proof (cases "publication_attempt_filters j n")
  case (Inl e)
  with assms show ?thesis by (simp add: adapter_delete_version_def bind_io_def lift_res_def)
next
  case (Inr fs)
  obtain q x2 where q: "raw_request t (delete_request (target_index t target) (scope_filters tn c v @ fs)) x = (q, x2)"
    by (metis surj_pair)
  from assms Inr q have "x1 = x2"
    by (auto simp: adapter_delete_version_def bind_io_def lift_res_def return_io_def raise_io_def split: sum.splits if_splits)
  with raw_request_state [OF q] Inr show ?thesis by blast
qed

text \<open>C25: a deletion never leaves its scope: whatever the engine answers and however the call ends, the only
  documents that can be gone are those of the named index with the tenant, the collection and the version
  of the call and, when a publication attempt is named, of exactly this attempt; a job without its attempt,
  or the reverse, is refused before anything is sent. The scope is what the query in the request body means.\<close>

theorem delete_stays_in_scope:
  assumes "deletes_by_query (ot_client t) docs" and "search_target_name_ok (target_index t target)"
    and "adapter_delete_version t tn c v target j n x = (r, x1)" and "docs x1 i k \<noteq> docs x i k"
  shows "i = target_index t target \<and> docs x1 i k = None \<and> (\<exists>src. docs x i k = Some src \<and> in_scope tn c v j n src)
    \<and> (j = None \<longleftrightarrow> n = None)"
proof -
  from delete_one_request [OF assms(3)] assms(4) obtain fs a where fs: "publication_attempt_filters j n = Inr fs"
    and q: "ot_client t (delete_request (target_index t target) (scope_filters tn c v @ fs)) x = (a, x1)" by blast
  note s = scope_hits [OF fs, of docs x "target_index t target" tn c v]
  have body: "json_field ''query'' (JObj [filter_query (scope_filters tn c v @ fs)])
      = Some (snd (filter_query (scope_filters tn c v @ fs)))"
    by (simp add: filter_query_def)
  from q have "ot_client t \<lparr>hq_method = ''POST'', hq_path = ''/'' @ target_index t target @ ''/_delete_by_query?''
      @ ''refresh=true&conflicts=proceed'', hq_body = Json_Body (JObj [filter_query (scope_filters tn c v @ fs)])\<rparr> x = (a, x1)"
    by (simp add: delete_request_def)
  from assms(1) [unfolded deletes_by_query_def, rule_format, OF assms(2) body s(1) this, of i k] assms(4)
  have "i = target_index t target" "docs x1 i k = None" "k \<in> hits docs x (target_index t target) (snd (filter_query (scope_filters tn c v @ fs)))"
    by auto
  moreover from fs have "j = None \<longleftrightarrow> n = None" by (auto simp: publication_attempt_filters_def split: if_splits)
  ultimately show ?thesis unfolding s(2) by blast
qed

text \<open>C26: activation and deactivation are all or nothing for the caller: when the call returns, exactly the
  expected number of documents are in its scope, every one of them carries the requested visibility, and no document
  outside the scope changed. Scope and visibility are what the query and the script in the request body mean.\<close>

theorem visibility_complete:
  assumes "updates_by_query (ot_client t) docs" and "search_target_name_ok (target_index t target)"
    and "set_version_visibility t tn c v expected target j n visible x = (Inr (), x1)"
  shows "card {k. \<exists>src. docs x (target_index t target) k = Some src \<and> in_scope tn c v j n src} = nat expected
    \<and> (\<forall>k src. docs x (target_index t target) k = Some src \<longrightarrow> in_scope tn c v j n src \<longrightarrow>
        (\<exists>src1. docs x1 (target_index t target) k = Some src1 \<and> field_is src1 ''publication_complete'' (JBool visible)))
    \<and> (\<forall>i k. docs x1 i k \<noteq> docs x i k \<longrightarrow> i = target_index t target \<and> (\<exists>src. docs x i k = Some src \<and> in_scope tn c v j n src))"
proof -
  let ?i = "target_index t target"
  from assms(3) obtain fs response where fs: "publication_attempt_filters j n = Inr fs"
    and q: "checked_request t (update_request ?i (scope_filters tn c v @ fs) visible) x = (Inr response, x1)"
    and ok: "bind_res (hr_json response) (\<lambda>payload. update_incomplete payload expected) = Inr False"
    unfolding set_version_visibility_def by (auto elim!: bind_io_InrE split: if_splits)
  let ?M = "{k. \<exists>src. docs x ?i k = Some src \<and> in_scope tn c v j n src}"
  let ?D = "{k \<in> ?M. \<exists>src. docs x1 ?i k = Some src \<and> field_is src ''publication_complete'' (JBool visible)}"
  note s = scope_hits [OF fs, of docs x ?i tn c v]
  obtain body where b: "hq_body (update_request ?i (scope_filters tn c v @ fs) visible) = Json_Body body"
    by (simp add: update_request_def)
  note sem = script_sets_flag [OF b]
  from checked_request_Inr [OF q] b have req: "ot_client t \<lparr>hq_method = ''POST'', hq_path = ''/'' @ ?i @ ''/_update_by_query?''
      @ ''refresh=true&conflicts=proceed'', hq_body = Json_Body body\<rparr> x = (Inr response, x1)" "hr_status_code response < 400"
    by (simp_all add: update_request_def)
  from assms(1) [unfolded updates_by_query_def, rule_format, OF assms(2) conjunct1 [OF sem] s(1) conjunct2 [OF sem] req]
  obtain fields updated noops where frame: "\<forall>i k. docs x1 i k = docs x i k \<or> i = ?i \<and> k \<in> ?M" and fin: "finite ?M"
    and body: "hr_json response = Inr (JObj fields)" "map_of fields ''total'' = Some (JInt (int (card ?M)))"
      "map_of fields ''updated'' = Some (JInt updated)" "map_of fields ''noops'' = Some (JInt noops)"
    and le: "updated + noops \<le> int (card ?D)"
    unfolding s(2) by blast
  from ok body have "int (card ?M) = expected" "updated + noops = expected"
    by (auto simp: update_incomplete_def split: if_splits)
  with le have card: "card ?M = nat expected" "card ?M \<le> card ?D" by linarith+
  have "?D = ?M" by (rule card_seteq [OF fin]) (use card in auto)
  then show ?thesis using card(1) frame by blast
qed

section \<open>What a verified batch means\<close>

lemma dict_put_new: "k \<notin> fst ` set d \<Longrightarrow> dict_put k v d = d @ [(k, v)]"
  and dict_put_distinct: "distinct (map fst d) \<Longrightarrow> distinct (map fst (dict_put k v d))"
  and dict_put_fst: "fst ` set (dict_put k v d) = insert k (fst ` set d)"
proof -
  show new: "dict_put k v d = d @ [(k, v)]" if "k \<notin> fst ` set d" using that by (simp add: dict_put_def)
  have old: "map fst (dict_put k v d) = map fst d" if "k \<in> fst ` set d"
    unfolding dict_put_def if_P [OF that] by (induction d) auto
  show "distinct (map fst d) \<Longrightarrow> distinct (map fst (dict_put k v d))"
    by (cases "k \<in> fst ` set d") (simp_all add: old new)
  show "fst ` set (dict_put k v d) = insert k (fst ` set d)"
  proof (cases "k \<in> fst ` set d")
    case True
    from arg_cong [OF old [OF True], of set] have "fst ` set (dict_put k v d) = fst ` set d" by simp
    with True show ?thesis by blast
  qed (simp add: new)
qed

lemma fold_dict_put:
  assumes "distinct (map fst d)"
  shows "distinct (map fst (fold (\<lambda>(i, r). dict_put i (f r)) kvs d))
    \<and> fst ` set (fold (\<lambda>(i, r). dict_put i (f r)) kvs d) = fst ` set d \<union> fst ` set kvs"
  using assms
proof (induction kvs arbitrary: d)
  case (Cons kv kvs)
  obtain i r where kv: "kv = (i, r)" by (cases kv)
  from Cons.IH [OF dict_put_distinct [OF Cons.prems, of i "f r"]] show ?case
    by (auto simp: kv dict_put_fst)
qed simp

lemma fold_dict_put_new:
  assumes "distinct (map fst d @ map fst kvs)"
  shows "fold (\<lambda>(i, r). dict_put i (f r)) kvs d = d @ map (\<lambda>(i, r). (i, f r)) kvs"
  using assms
proof (induction kvs arbitrary: d)
  case (Cons kv kvs)
  obtain i r where kv: "kv = (i, r)" by (cases kv)
  from Cons.prems have "i \<notin> fst ` set d" by (auto simp: kv)
  with Cons.IH [of "d @ [(i, f r)]"] Cons.prems show ?case by (simp add: kv dict_put_new)
qed simp

text \<open>The dictionary has as many entries as there are identifiers only when these are distinct.\<close>

lemma expected_identities:
  assumes "length ids = length rs" and "length (fold (\<lambda>(i, r). dict_put i (f r)) (zip ids rs) []) = length ids"
  shows "distinct ids \<and> fold (\<lambda>(i, r). dict_put i (f r)) (zip ids rs) [] = map (\<lambda>(i, r). (i, f r)) (zip ids rs)"
proof -
  let ?d = "fold (\<lambda>(i, r). dict_put i (f r)) (zip ids rs) []"
  have m: "map fst (zip ids rs) = ids" using assms(1) by simp
  from arg_cong [OF m, of set] have s: "fst ` set (zip ids rs) = set ids" by simp
  from fold_dict_put [of "[]" f "zip ids rs"] s have "distinct (map fst ?d)" "fst ` set ?d = set ids"
    by simp_all
  with distinct_card [of "map fst ?d"] have "length ?d = card (set ids)" by simp
  with assms(2) have "distinct ids" by (simp add: card_distinct)
  with fold_dict_put_new [of "[]" "zip ids rs" f] m show ?thesis by simp
qed

lemma verify_documents_all:
  "verify_documents text_of expected ds = Inr () \<Longrightarrow> d \<in> set ds \<Longrightarrow> verify_document text_of expected d = Inr ()"
  by (induction ds) (auto elim!: bind_res_InrE)

lemma verify_document_Inr:
  assumes "verify_document text_of expected d = Inr ()" and "mget_document stored k d"
  shows "\<exists>src ts n. stored = Some src \<and> map_of expected k = Some (ts, n) \<and>
    list_all2 (\<lambda>field t. field_is src field (JStr t)) identity_fields ts
    \<and> (\<exists>a. field_is src ''publication_attempt'' a \<and> json_is_int a n)"
proof -
  from assms(2) obtain fs where d: "d = JObj fs" "map_of fs ''_id'' = Some (JStr k)"
    and st: "case stored of None \<Rightarrow> map_of fs ''found'' = Some (JBool False)
        | Some src \<Rightarrow> map_of fs ''found'' = Some (JBool True) \<and> map_of fs ''_source'' = Some src"
    by (auto simp: mget_document_def)
  from assms(1) d st obtain src where s: "stored = Some src" "map_of fs ''_source'' = Some src"
    by (cases stored) (auto simp: verify_document_def elim!: bind_res_InrE)
  from assms(1) d s(2) obtain texts attempt where
    t: "map_res (\<lambda>field. json_get field JNull src) identity_fields = Inr texts"
      "json_get ''publication_attempt'' JNull src = Inr attempt" "same_identity (map_of expected k) texts attempt"
    by (auto simp: verify_document_def elim!: bind_res_InrE)
  from t(3) obtain ts n where e: "map_of expected k = Some (ts, n)" "texts = map JStr ts" "json_is_int attempt n"
    by (auto simp: same_identity_def split: option.splits)
  from t(2) obtain gs where g: "src = JObj gs" by (cases src) simp_all
  have get: "field_is src field y" if "json_get field JNull src = Inr y" "y \<noteq> JNull" for field y
    using that g by (auto simp: field_is_def split: option.splits)
  from map_res_Inr [OF t(1)] have "list_all2 (\<lambda>field t. json_get field JNull src = Inr (JStr t)) identity_fields ts"
    by (simp add: e(2) list_all2_map2)
  then have "list_all2 (\<lambda>field t. field_is src field (JStr t)) identity_fields ts"
    by (rule list_all2_mono) (use get in blast)
  moreover have "attempt \<noteq> JNull" using e(3) by auto
  ultimately show ?thesis using s(1) e get [OF t(2)] by blast
qed

lemma verify_batch_stored:
  assumes m: "mget_reads (ot_client t) docs" and v: "verify_batch text_of t records x0 = (Inr (), x1)"
  shows "\<exists>ids. map_res external_record_id records = Inr ids \<and> distinct ids
    \<and> list_all2 (\<lambda>i r. \<exists>src. docs x1 (ot_target_name t) i = Some src
        \<and> field_is src ''tenant_id'' (JStr (str_uuid (sr_tenant_id r)))
        \<and> field_is src ''collection_id'' (JStr (str_uuid (sr_collection_id r)))
        \<and> field_is src ''document_version_id'' (JStr (str_uuid (sr_document_version_id r)))
        \<and> field_is src ''publication_job_id'' (JStr (str_uuid (sr_publication_job_id r)))
        \<and> (\<exists>a. field_is src ''publication_attempt'' a \<and> json_is_int a (sr_publication_attempt r))) ids records"
proof -
  from v obtain ids response docs_json documents x2 where ids: "map_res external_record_id records = Inr ids"
    and q: "checked_request t \<lparr>hq_method = ''POST'', hq_path = ''/'' @ ot_target_name t @ ''/_mget'',
         hq_body = Json_Body (JObj [(''ids'', JArr (map JStr ids))])\<rparr> x0 = (Inr response, x1)"
    and dj: "bind_res (hr_json response) (json_get ''docs'' (JArr [])) = Inr docs_json" "json_items docs_json = Inr documents"
    and len: "length documents = length (fold (\<lambda>(i, r). dict_put i (record_identity r)) (zip ids records) [])"
    and ver: "verify_documents text_of (fold (\<lambda>(i, r). dict_put i (record_identity r)) (zip ids records) []) documents = Inr ()"
    unfolding verify_batch_def Let_def by (auto elim!: bind_io_InrE split: if_splits)
  from m checked_request_Inr [OF q] obtain ds where same: "docs x1 = docs x0"
    and body: "hr_json response = Inr (JObj [(''docs'', JArr ds)])"
    and ds: "list_all2 (\<lambda>k d. mget_document (docs x0 (ot_target_name t) k) k d) ids ds"
    unfolding mget_reads_def by blast
  from dj body have documents: "documents = ds" by auto
  note each = map_res_Inr [OF ids]
  from each have l: "length ids = length records" by (simp add: list_all2_lengthD)
  have "length (fold (\<lambda>(i, r). dict_put i (record_identity r)) (zip ids records) []) = length ids"
    using len documents list_all2_lengthD [OF ds] by simp
  from expected_identities [OF l this] have dist: "distinct ids"
    and expd: "fold (\<lambda>(i, r). dict_put i (record_identity r)) (zip ids records) []
      = map (\<lambda>(i, r). (i, record_identity r)) (zip ids records)" by simp_all
  have stored: "\<exists>src. docs x1 (ot_target_name t) (ids ! m) = Some src
        \<and> field_is src ''tenant_id'' (JStr (str_uuid (sr_tenant_id r)))
        \<and> field_is src ''collection_id'' (JStr (str_uuid (sr_collection_id r)))
        \<and> field_is src ''document_version_id'' (JStr (str_uuid (sr_document_version_id r)))
        \<and> field_is src ''publication_job_id'' (JStr (str_uuid (sr_publication_job_id r)))
        \<and> (\<exists>a. field_is src ''publication_attempt'' a \<and> json_is_int a (sr_publication_attempt r))"
    if lt: "m < length ids" and r: "r = records ! m" for m r
  proof -
    from ds lt have d: "mget_document (docs x0 (ot_target_name t) (ids ! m)) (ids ! m) (ds ! m)" "ds ! m \<in> set ds"
      by (simp_all add: list_all2_conv_all_nth)
    note v = verify_documents_all [OF ver [unfolded expd documents] d(2)]
    have "map_of (map (\<lambda>(i, r). (i, record_identity r)) (zip ids records)) (ids ! m) = Some (record_identity r)"
    proof (rule map_of_is_SomeI)
      show "distinct (map fst (map (\<lambda>(i, r). (i, record_identity r)) (zip ids records)))"
        using dist l by (simp add: comp_def split_def)
      have "(ids ! m, records ! m) \<in> set (zip ids records)" using lt l by (auto simp: set_zip)
      then show "(ids ! m, record_identity r) \<in> set (map (\<lambda>(i, r). (i, record_identity r)) (zip ids records))"
        unfolding r set_map by (rule rev_image_eqI) simp
    qed
    with verify_document_Inr [OF v d(1)] show ?thesis
      by (auto simp: record_identity_def identity_fields_def same)
  qed
  from ids dist stored l show ?thesis by (auto simp: list_all2_conv_all_nth)
qed

lemma record_publications_ids:
  assumes ids: "map_res external_record_id records = Inr ids" and pss: "map_res record_publications records = Inr pss"
  shows "pss = map2 (\<lambda>i r.
        [\<lparr>pb_chunk_id = cr_chunk_id (sr_chunk r), pb_publication_kind = ''lexical'', pb_external_record_id = i @ '':lexical''\<rparr>,
         \<lparr>pb_chunk_id = cr_chunk_id (sr_chunk r), pb_publication_kind = ''vector'', pb_external_record_id = i @ '':vector''\<rparr>]) ids records"
proof -
  note each = map_res_Inr [OF ids]
  then have l: "length ids = length records" by (simp add: list_all2_lengthD)
  have "list_all2 (\<lambda>r ps. \<exists>i. external_record_id r = Inr i \<and> ps =
        [\<lparr>pb_chunk_id = cr_chunk_id (sr_chunk r), pb_publication_kind = ''lexical'', pb_external_record_id = i @ '':lexical''\<rparr>,
         \<lparr>pb_chunk_id = cr_chunk_id (sr_chunk r), pb_publication_kind = ''vector'', pb_external_record_id = i @ '':vector''\<rparr>])
      records pss"
    using map_res_Inr [OF pss] by (rule list_all2_mono) (auto simp: record_publications_def elim!: bind_res_InrE)
  with each show ?thesis by (intro nth_equalityI) (auto simp: list_all2_conv_all_nth l)
qed

text \<open>C27: a published batch is in the index under its own scope: when \<open>publish\<close> returns, every record of the
  batch is stored under its identifier with the tenant, collection, version, job and attempt it was
  published for, the identifiers are pairwise distinct, and the two publications returned for each record
  name its chunk and this identifier.\<close>

theorem published_batch_verified:
  assumes "mget_reads (ot_client t) docs" and "publish_records text_of t records x = (Inr publications, x1)"
  shows "\<exists>ids. map_res external_record_id records = Inr ids \<and> distinct ids
    \<and> list_all2 (\<lambda>i r. \<exists>src. docs x1 (ot_target_name t) i = Some src
        \<and> field_is src ''tenant_id'' (JStr (str_uuid (sr_tenant_id r)))
        \<and> field_is src ''collection_id'' (JStr (str_uuid (sr_collection_id r)))
        \<and> field_is src ''document_version_id'' (JStr (str_uuid (sr_document_version_id r)))
        \<and> field_is src ''publication_job_id'' (JStr (str_uuid (sr_publication_job_id r)))
        \<and> (\<exists>a. field_is src ''publication_attempt'' a \<and> json_is_int a (sr_publication_attempt r))) ids records
    \<and> publications = concat (map2 (\<lambda>i r.
        [\<lparr>pb_chunk_id = cr_chunk_id (sr_chunk r), pb_publication_kind = ''lexical'', pb_external_record_id = i @ '':lexical''\<rparr>,
         \<lparr>pb_chunk_id = cr_chunk_id (sr_chunk r), pb_publication_kind = ''vector'', pb_external_record_id = i @ '':vector''\<rparr>])
        ids records)"
proof -
  from assms(2) obtain x0 pss where vb: "verify_batch text_of t records x0 = (Inr (), x1)"
    and pss: "map_res record_publications records = Inr pss" "publications = concat pss"
    unfolding publish_records_def by (fastforce elim!: bind_io_InrE split: if_splits)
  from verify_batch_stored [OF assms(1) vb] record_publications_ids [OF _ pss(1)] show ?thesis
    unfolding pss(2) by blast
qed

section \<open>A search engine with one document\<close>

type_synonym engine = "(string \<times> (string \<times> json) list) option"

definition engine_docs :: "engine \<Rightarrow> string \<Rightarrow> string \<Rightarrow> json option" where
  "engine_docs x i k = (case x of Some (d, fs) \<Rightarrow> if i = ''rag'' \<and> k = d then Some (JObj fs) else None | None \<Rightarrow> None)"

definition answer :: "int \<Rightarrow> (string \<times> json) list \<Rightarrow> http_failure + http_response" where
  "answer code fs = Inr \<lparr>hr_status_code = code, hr_json = Inr (JObj fs), hr_body_text = []\<rparr>"

definition engine_update :: "json \<Rightarrow> engine \<Rightarrow> (http_failure + http_response) \<times> engine" where
  "engine_update body x =
     (case (json_field ''query'' body, scripted body) of
        (Some q, Some (field, value)) \<Rightarrow>
          (let counted = \<lambda>n. answer 200 [(''total'', JInt n), (''updated'', JInt n), (''noops'', JInt 0)]
           in case x of
             None \<Rightarrow> (counted 0, x)
           | Some (d, fs) \<Rightarrow>
               (case query_holds q (JObj fs) of
                  None \<Rightarrow> (answer 400 [], x)
                | Some hit \<Rightarrow> if hit then (counted 1, Some (d, (field, value) # fs)) else (counted 0, x)))
      | _ \<Rightarrow> (answer 400 [], x))"

definition engine_delete :: "json \<Rightarrow> engine \<Rightarrow> (http_failure + http_response) \<times> engine" where
  "engine_delete body x =
     (case json_field ''query'' body of
        None \<Rightarrow> (answer 400 [], x)
      | Some q \<Rightarrow>
          (case x of
             None \<Rightarrow> (answer 200 [(''deleted'', JInt 0)], x)
           | Some (d, fs) \<Rightarrow>
               (case query_holds q (JObj fs) of
                  None \<Rightarrow> (answer 400 [], x)
                | Some hit \<Rightarrow> if hit then (answer 200 [(''deleted'', JInt 1)], None)
                    else (answer 200 [(''deleted'', JInt 0)], x))))"

definition engine_mget :: "json list \<Rightarrow> engine \<Rightarrow> json list" where
  "engine_mget ids x = map (\<lambda>i. case i of
       JStr k \<Rightarrow> (case engine_docs x ''rag'' k of
           None \<Rightarrow> JObj [(''_id'', JStr k), (''found'', JBool False)]
         | Some src \<Rightarrow> JObj [(''_id'', JStr k), (''found'', JBool True), (''_source'', src)])
     | _ \<Rightarrow> JNull) ids"

text \<open>The index and the operation of a path.\<close>

definition path_index :: "string \<Rightarrow> string" where
  "path_index path = takeWhile (\<lambda>c. c \<noteq> CHR ''/'') (drop 1 path)"

definition path_operation :: "string \<Rightarrow> string" where
  "path_operation path = takeWhile (\<lambda>c. c \<noteq> CHR ''?'') (dropWhile (\<lambda>c. c \<noteq> CHR ''/'') (drop 1 path))"

definition engine_client :: "engine http_client" where
  "engine_client q x =
     (case hq_body q of
        Json_Body body \<Rightarrow>
          if hq_path q = ''/rag'' then (answer 200 [], x)
          else if hq_path q = ''/rag/_mget''
          then (case json_field ''ids'' body of
                  Some (JArr ids) \<Rightarrow> (answer 200 [(''docs'', JArr (engine_mget ids x))], x)
                | _ \<Rightarrow> (answer 400 [], x))
          else if path_index (hq_path q) \<noteq> ''rag'' then (answer 400 [], x)
          else if path_operation (hq_path q) = ''/_update_by_query'' then engine_update body x
          else if path_operation (hq_path q) = ''/_delete_by_query'' then engine_delete body x
          else (answer 400 [], x)
      | Ndjson_Body [JObj [(_, JObj [_, (_, JStr i)])], JObj fs] \<Rightarrow> (answer 200 [(''errors'', JBool False)], Some (i, fs))
      | _ \<Rightarrow> (answer (if hq_method q = ''GET'' then 404 else 400) [], x))"

definition engine_transport :: "engine OpenSearchTransport" where
  "engine_transport = \<lparr>ot_client = engine_client, ot_target_name = ''rag'', ot_target_version = ''v1'', ot_dimensions = 1\<rparr>"

lemma target_name_no_slash:
  assumes "search_target_name_ok index"
  shows "CHR ''/'' \<notin> set index"
proof
  have no: "\<not> lower_alnum (CHR ''/'')" "CHR ''/'' \<notin> set ''._-''" by (simp_all add: lower_alnum_def)
  assume "CHR ''/'' \<in> set index"
  then obtain c cs where i: "index = c # cs" "c = CHR ''/'' \<or> CHR ''/'' \<in> set cs" by (cases index) auto
  from assms have "lower_alnum c" "\<forall>x \<in> set cs. lower_alnum x \<or> x \<in> set ''._-''"
    unfolding i(1) search_target_name_ok_def list.case list_all_iff by blast+
  with i(2) no show False by blast
qed

lemma path_parts:
  assumes "search_target_name_ok index"
  shows "path_index (''/'' @ index @ ''/_update_by_query?'' @ options) = index"
    "path_operation (''/'' @ index @ ''/_update_by_query?'' @ options) = ''/_update_by_query''"
    "path_index (''/'' @ index @ ''/_delete_by_query?'' @ options) = index"
    "path_operation (''/'' @ index @ ''/_delete_by_query?'' @ options) = ''/_delete_by_query''"
proof -
  have n: "c \<in> set index \<Longrightarrow> c \<noteq> CHR ''/''" for c using target_name_no_slash [OF assms] by blast
  show "path_index (''/'' @ index @ ''/_update_by_query?'' @ options) = index"
    "path_operation (''/'' @ index @ ''/_update_by_query?'' @ options) = ''/_update_by_query''"
    "path_index (''/'' @ index @ ''/_delete_by_query?'' @ options) = index"
    "path_operation (''/'' @ index @ ''/_delete_by_query?'' @ options) = ''/_delete_by_query''"
    using n by (simp_all add: path_index_def path_operation_def takeWhile_append2 dropWhile_append2)
qed

lemma path_longer: "''/'' @ index @ CHR ''/'' # suffix \<noteq> ''/rag''" if "4 \<le> length suffix"
  using that by (auto dest: arg_cong [of _ _ length])

lemma engine_delete_eq:
  assumes "search_target_name_ok index"
  shows "engine_client \<lparr>hq_method = ''POST'', hq_path = ''/'' @ index @ ''/_delete_by_query?'' @ options, hq_body = Json_Body body\<rparr> x
    = (if index = ''rag'' then engine_delete body x else (answer 400 [], x))"
proof -
  let ?p = "''/'' @ index @ ''/_delete_by_query?'' @ options"
  have "?p \<noteq> ''/rag''" "?p \<noteq> ''/rag/_mget''" by (auto dest: arg_cong [of _ _ length])
  then show ?thesis
    unfolding engine_client_def http_request.simps request_body.case path_parts [OF assms] by simp
qed

lemma engine_update_eq:
  assumes "search_target_name_ok index"
  shows "engine_client \<lparr>hq_method = ''POST'', hq_path = ''/'' @ index @ ''/_update_by_query?'' @ options, hq_body = Json_Body body\<rparr> x
    = (if index = ''rag'' then engine_update body x else (answer 400 [], x))"
proof -
  let ?p = "''/'' @ index @ ''/_update_by_query?'' @ options"
  have "?p \<noteq> ''/rag''" "?p \<noteq> ''/rag/_mget''" by (auto dest: arg_cong [of _ _ length])
  then show ?thesis
    unfolding engine_client_def http_request.simps request_body.case path_parts [OF assms] by simp
qed

lemma engine_hits:
  "hits engine_docs x index q = (case x of None \<Rightarrow> {}
     | Some (d, fs) \<Rightarrow> if index = ''rag'' \<and> query_holds q (JObj fs) = Some True then {d} else {})"
  by (auto simp: hits_def engine_docs_def split: option.splits if_splits)

lemma engine_deletes: "deletes_by_query engine_client engine_docs"
  unfolding deletes_by_query_def
proof (intro allI impI)
  fix index options body q x r x1 i k
  assume ok: "search_target_name_ok index" and q: "json_field ''query'' body = Some q"
    and "engine_client \<lparr>hq_method = ''POST'', hq_path = ''/'' @ index @ ''/_delete_by_query?'' @ options, hq_body = Json_Body body\<rparr> x = (r, x1)"
  then have "(if index = ''rag'' then engine_delete body x else (answer 400 [], x)) = (r, x1)"
    by (simp only: engine_delete_eq)
  then show "engine_docs x1 i k = engine_docs x i k \<or> (i = index \<and> k \<in> hits engine_docs x index q \<and> engine_docs x1 i k = None)"
    using q unfolding engine_hits by (auto simp: engine_delete_def engine_docs_def split: if_splits option.splits)
qed

lemma engine_updates: "updates_by_query engine_client engine_docs"
  unfolding updates_by_query_def
proof (intro allI impI)
  fix index options body q field "value" x response x1
  let ?hits = "hits engine_docs x index q"
  assume n: "search_target_name_ok index" and q: "json_field ''query'' body = Some q" and sc: "scripted body = Some (field, value)"
    and a: "engine_client \<lparr>hq_method = ''POST'', hq_path = ''/'' @ index @ ''/_update_by_query?'' @ options, hq_body = Json_Body body\<rparr> x
      = (Inr response, x1)" and ok: "hr_status_code response < 400"
  from a ok have index: "index = ''rag''" and u: "engine_update body x = (Inr response, x1)"
    unfolding engine_update_eq [OF n] by (auto simp: answer_def split: if_splits)
  show "(\<forall>i k. engine_docs x1 i k = engine_docs x i k \<or> (i = index \<and> k \<in> ?hits))
     \<and> finite ?hits \<and> (\<exists>fs updated noops. hr_json response = Inr (JObj fs)
         \<and> map_of fs ''total'' = Some (JInt (int (card ?hits)))
         \<and> map_of fs ''updated'' = Some (JInt updated) \<and> map_of fs ''noops'' = Some (JInt noops)
         \<and> updated + noops \<le> int (card {k \<in> ?hits. \<exists>src. engine_docs x1 index k = Some src \<and> field_is src field value}))"
  proof (cases "\<exists>d fs. x = Some (d, fs) \<and> query_holds q (JObj fs) = Some True")
    case True
    then obtain d fs where x: "x = Some (d, fs)" "query_holds q (JObj fs) = Some True" by blast
    have h: "?hits = {d}" using x index by (simp add: engine_hits)
    from u x have x1: "x1 = Some (d, (field, value) # fs)"
      and b: "hr_json response = Inr (JObj [(''total'', JInt 1), (''updated'', JInt 1), (''noops'', JInt 0)])"
      by (auto simp: engine_update_def answer_def q sc)
    have "{k \<in> {d}. \<exists>src. engine_docs x1 index k = Some src \<and> field_is src field value} = {d}"
      by (auto simp: x1 index engine_docs_def field_is_def)
    moreover have "\<forall>i k. engine_docs x1 i k = engine_docs x i k \<or> (i = index \<and> k \<in> {d})"
      by (simp add: engine_docs_def x x1 index)
    ultimately show ?thesis using b unfolding h by simp
  next
    case False
    then have h: "?hits = {}" by (auto simp: engine_hits split: option.splits)
    from u False ok have "hr_json response = Inr (JObj [(''total'', JInt 0), (''updated'', JInt 0), (''noops'', JInt 0)])" "x1 = x"
      by (auto simp: engine_update_def answer_def q sc split: option.splits if_splits)
    then show ?thesis unfolding h by simp
  qed
qed

lemma engine_reads: "mget_reads engine_client engine_docs"
  unfolding mget_reads_def
proof (intro allI impI)
  fix index ids x response x1
  assume a: "engine_client \<lparr>hq_method = ''POST'', hq_path = ''/'' @ index @ ''/_mget'',
      hq_body = Json_Body (JObj [(''ids'', JArr (map JStr ids))])\<rparr> x = (Inr response, x1)" and ok: "hr_status_code response < 400"
  have eq: "engine_client \<lparr>hq_method = ''POST'', hq_path = ''/'' @ index @ ''/_mget'',
      hq_body = Json_Body (JObj [(''ids'', JArr (map JStr ids))])\<rparr> x
      = (if index = ''rag'' then (answer 200 [(''docs'', JArr (engine_mget (map JStr ids) x))], x) else (answer 400 [], x))"
  proof (cases "index = ''rag''")
    case True
    then show ?thesis by (simp add: engine_client_def)
  next
    case False
    then have "''/'' @ index @ ''/_mget'' \<noteq> ''/rag/_mget''"
      using append_same_eq [of index "''/_mget''" "''rag''"] by simp
    moreover have "''/'' @ index @ ''/_mget'' \<noteq> ''/rag''" by (auto dest: arg_cong [of _ _ length])
    moreover have "engine_update (JObj [(''ids'', JArr (map JStr ids))]) x = (answer 400 [], x)"
      "engine_delete (JObj [(''ids'', JArr (map JStr ids))]) x = (answer 400 [], x)"
      by (simp_all add: engine_update_def engine_delete_def)
    ultimately show ?thesis using False unfolding engine_client_def by simp
  qed
  from a ok have r: "index = ''rag''" "x1 = x" "hr_json response = Inr (JObj [(''docs'', JArr (engine_mget (map JStr ids) x))])"
    unfolding eq by (auto simp: answer_def split: if_splits)
  have "list_all2 (\<lambda>k d. mget_document (engine_docs x ''rag'' k) k d) ids (engine_mget (map JStr ids) x)"
    by (auto simp: engine_mget_def list_all2_conv_all_nth mget_document_def split: option.splits)
  with r show "engine_docs x1 = engine_docs x \<and> (\<exists>ds. hr_json response = Inr (JObj [(''docs'', JArr ds)])
       \<and> list_all2 (\<lambda>k d. mget_document (engine_docs x index k) k d) ids ds)" by simp
qed

definition engine_doc :: "(string \<times> json) list" where
  "engine_doc = [(''tenant_id'', JStr (str_uuid 1)), (''collection_id'', JStr (str_uuid 2)),
     (''document_version_id'', JStr (str_uuid 4))]"

lemma engine_doc_scope: "in_scope 1 2 4 None None (JObj engine_doc)"
  by (simp add: in_scope_def engine_doc_def field_is_def)

lemma rag_name_ok: "search_target_name_ok ''rag''"
  by (simp add: search_target_name_ok_def lower_alnum_def)

lemma engine_scope_query: "query_holds (snd (filter_query (scope_filters 1 2 4 @ []))) (JObj engine_doc) = Some True"
  using query_scope [of None None "[]" 1 2 4 "JObj engine_doc"] engine_doc_scope
  by (simp add: publication_attempt_filters_def)

lemma engine_delete_run:
  "engine_client (delete_request ''rag'' (scope_filters 1 2 4 @ [])) (Some (''d'', engine_doc)) = (answer 200 [(''deleted'', JInt 1)], None)"
proof -
  let ?b = "JObj [filter_query (scope_filters 1 2 4 @ [])]"
  have "json_field ''query'' ?b = Some (snd (filter_query (scope_filters 1 2 4 @ [])))" by (simp add: filter_query_def)
  then have "engine_delete ?b (Some (''d'', engine_doc)) = (answer 200 [(''deleted'', JInt 1)], None)"
    by (simp only: engine_delete_def engine_scope_query option.case prod.case if_True)
  with engine_delete_eq [OF rag_name_ok, of "''refresh=true&conflicts=proceed''" ?b] show ?thesis
    by (simp add: delete_request_def)
qed

lemma engine_update_run:
  "engine_client (update_request ''rag'' (scope_filters 1 2 4 @ []) visible) (Some (''d'', engine_doc))
    = (answer 200 [(''total'', JInt 1), (''updated'', JInt 1), (''noops'', JInt 0)],
       Some (''d'', (''publication_complete'', JBool visible) # engine_doc))"
proof -
  obtain b where b: "hq_body (update_request ''rag'' (scope_filters 1 2 4 @ []) visible) = Json_Body b"
    by (simp add: update_request_def)
  note sem = script_sets_flag [OF b]
  have "engine_update b (Some (''d'', engine_doc)) = (answer 200 [(''total'', JInt 1), (''updated'', JInt 1), (''noops'', JInt 0)],
       Some (''d'', (''publication_complete'', JBool visible) # engine_doc))"
    by (simp only: engine_update_def sem engine_scope_query option.case prod.case if_True Let_def)
  with engine_update_eq [OF rag_name_ok, of "''refresh=true&conflicts=proceed''" b] b show ?thesis
    by (simp add: update_request_def)
qed

theorem delete_stays_in_scope_witness:
  "\<exists>x1. adapter_delete_version engine_transport 1 2 4 None None None (Some (''d'', engine_doc)) = (Inr 1, x1)
    \<and> engine_docs x1 ''rag'' ''d'' = None \<and> (\<exists>src. engine_docs (Some (''d'', engine_doc)) ''rag'' ''d'' = Some src \<and> in_scope 1 2 4 None None src)"
proof -
  let ?x = "Some (''d'', engine_doc) :: engine"
  have d: "adapter_delete_version engine_transport 1 2 4 None None None ?x = (Inr 1, None)"
    using engine_delete_run
    by (simp add: adapter_delete_version_def publication_attempt_filters_def bind_io_def lift_res_def raw_request_def
        engine_transport_def target_index_def answer_def delete_incomplete_def)
  have name: "search_target_name_ok (target_index engine_transport None)"
    using rag_name_ok by (simp add: engine_transport_def target_index_def)
  have "deletes_by_query (ot_client engine_transport) engine_docs" using engine_deletes by (simp add: engine_transport_def)
  from delete_stays_in_scope [OF this name d, of "''rag''" "''d''"] d show ?thesis
    by (simp add: engine_docs_def)
qed

theorem visibility_complete_witness:
  "\<exists>x1. set_version_visibility engine_transport 1 2 4 1 None None None True (Some (''d'', engine_doc)) = (Inr (), x1)
    \<and> (\<exists>src. engine_docs x1 ''rag'' ''d'' = Some src \<and> field_is src ''publication_complete'' (JBool True))"
proof -
  let ?x = "Some (''d'', engine_doc) :: engine"
  obtain x1 where v: "set_version_visibility engine_transport 1 2 4 1 None None None True ?x = (Inr (), x1)"
    using engine_update_run [of True]
    by (simp add: set_version_visibility_def publication_attempt_filters_def bind_io_def lift_res_def raw_request_def
        checked_request_def engine_transport_def target_index_def answer_def update_incomplete_def return_io_def)
  have name: "search_target_name_ok (target_index engine_transport None)"
    using rag_name_ok by (simp add: engine_transport_def target_index_def)
  have "updates_by_query (ot_client engine_transport) engine_docs" using engine_updates by (simp add: engine_transport_def)
  from visibility_complete [OF this name v] engine_doc_scope have
    "\<exists>src. engine_docs x1 ''rag'' ''d'' = Some src \<and> field_is src ''publication_complete'' (JBool True)"
    by (simp add: engine_transport_def target_index_def engine_docs_def)
  with v show ?thesis by blast
qed

definition engine_record :: SearchRecord where
  "engine_record = \<lparr>sr_tenant_id = 1, sr_collection_id = 2, sr_document_version_id = 4, sr_chunk = sample_chunk,
     sr_embedding = \<lparr>ec_chunk_id = 7, ec_vector = [1], ec_checksum_sha256 = ''c''\<rparr>, sr_publication_job_id = 9,
     sr_publication_attempt = 1, sr_pipeline_profile = ''p'', sr_embedding_provider = ''fastembed'',
     sr_embedding_model = ''m'', sr_embedding_model_version = ''v''\<rparr>"

theorem published_batch_verified_witness:
  "\<exists>ps x1 i src. publish_records (\<lambda>_. []) engine_transport [engine_record] None = (Inr ps, x1)
    \<and> external_record_id engine_record = Inr i \<and> engine_docs x1 ''rag'' i = Some src
    \<and> field_is src ''tenant_id'' (JStr (str_uuid 1)) \<and> length ps = 2"
proof -
  obtain i where i: "external_record_id engine_record = Inr i" by (simp add: external_record_id_def engine_record_def)
  have "\<exists>ps x1. publish_records (\<lambda>_. []) engine_transport [engine_record] None = (Inr ps, x1)"
    by (simp add: publish_records_def ensure_index_def bind_io_def raw_request_def checked_request_def engine_transport_def
        engine_client_def answer_def return_io_def lift_res_def bulk_lines_def i record_source_def verify_batch_def
        engine_mget_def engine_docs_def verify_document_def identity_fields_def same_identity_def record_identity_def
        record_publications_def Let_def dict_put_def index_body_def)
  then obtain ps x1 where p: "publish_records (\<lambda>_. []) engine_transport [engine_record] None = (Inr ps, x1)" by blast
  have "mget_reads (ot_client engine_transport) engine_docs" using engine_reads by (simp add: engine_transport_def)
  from published_batch_verified [OF this p] i obtain src where "engine_docs x1 ''rag'' i = Some src"
    "field_is src ''tenant_id'' (JStr (str_uuid 1))" "length ps = 2"
    by (auto simp: engine_transport_def engine_record_def)
  with p i show ?thesis by blast
qed

end
