(* ===== verification/Publication_Service.thy ===== *)
theory Publication_Service
  imports Ocr_Service Search_Adapter Publication_Repository Artifact_Repository
begin

text \<open>
  \<open>ingestion/publication_service.py\<close>, \<open>publication_artifact_stages.py\<close>, \<open>publication_storage.py\<close> and
  \<open>publication_retry.py\<close>: one delivery of a chunk, embed or index job. The tokenizer, the embedding
  model, the digests and the search index are arguments; a file is the list of its lines.
\<close>

section \<open>What the service is given\<close>

record EmbeddingSettings =
  es_provider :: string
  es_model_name :: string
  es_model_version :: string
  es_dimensions :: int
  es_batch_size :: int

record 'x index_adapter = "'x search_adapter" +
  ad_target_name :: string
  ad_target_version :: string
  ad_publish :: "SearchRecord list \<Rightarrow> (PublicationRecord list, 'x) io"

record ('x, 'y, 'd) publication_deps = "('y, 'd) worker_deps" +
  pd_adapter :: "'x index_adapter"
  pd_page_size :: int
  pd_cleanup_lease :: timestamp
  pd_embedding :: EmbeddingSettings
  pd_provider :: EmbeddingProvider
  pd_model :: "string list \<Rightarrow> rat list list"
  pd_vector_checksum :: "rat list \<Rightarrow> string"
  pd_spans :: "string \<Rightarrow> (nat \<times> nat) list"
  pd_text_sha256 :: "string \<Rightarrow> string"
  pd_uuid5 :: "uuid \<Rightarrow> string \<Rightarrow> uuid"
  pd_dump_chunk :: "ChunkRecord \<Rightarrow> json"
  pd_validate_chunk :: "json \<Rightarrow> ChunkRecord res"
  pd_validate_embedded :: "json \<Rightarrow> EmbeddedChunk res"
  pd_text_of :: "json \<Rightarrow> string"

section \<open>\<open>PublicationArtifactStore\<close>\<close>

fun kind_artifact_type :: "ArtifactKind \<Rightarrow> ArtifactType res" where
  "kind_artifact_type EXTRACTED_PAGES = Inr AT_EXTRACTED_PAGES"
| "kind_artifact_type LAYOUT_BLOCKS = Inr AT_LAYOUT_BLOCKS"
| "kind_artifact_type OCR_RESULT = Inr AT_OCR_RESULT"
| "kind_artifact_type NORMALIZED_DOCUMENT = Inr AT_NORMALIZED_DOCUMENT"
| "kind_artifact_type CHUNK_MANIFEST = Inr AT_CHUNK_MANIFEST"
| "kind_artifact_type INDEX_MANIFEST = Inr AT_INDEX_MANIFEST"
| "kind_artifact_type INSPECTION = Inl (IntegrityError ''ck_document_artifacts_type'')"

text \<open>The download of a manifest whose version and digest the claim may lack.\<close>

definition download_manifest ::
  "('y, 'd, 'z) worker_deps_scheme \<Rightarrow> ClaimedPublicationJob \<Rightarrow> ArtifactKind \<Rightarrow> string option \<Rightarrow> string option \<Rightarrow> string
   \<Rightarrow> (bytes, ('x, 'y, 'd) world) io" where
  "download_manifest deps job kind generator_version checksum message =
     (if \<not> truthy_option generator_version \<or> \<not> truthy_option checksum then raise_io (ValueError message)
      else bind_io (lift_res (artifact_reference (dp_storage deps) (cl_tenant_id job) (cl_document_version_id job) kind
             (the generator_version) (the checksum))) (\<lambda>reference.
           bind_io (on_objects (download_object (dp_client deps) (dp_sha256 deps) (dp_bucket deps) reference
             (po_normalized_max_bytes (dp_policy deps)))) (\<lambda>(content, _). return_io content)))"

definition download_chunk_manifest ::
  "('y, 'd, 'z) worker_deps_scheme \<Rightarrow> ClaimedPublicationJob \<Rightarrow> (bytes, ('x, 'y, 'd) world) io" where
  "download_chunk_manifest deps job =
     download_manifest deps job CHUNK_MANIFEST (cp_chunk_generator_version job) (cp_chunk_checksum_sha256 job)
       ''chunk artifact provenance is incomplete''"

definition download_embedding_manifest ::
  "('y, 'd, 'z) worker_deps_scheme \<Rightarrow> ClaimedPublicationJob \<Rightarrow> (bytes, ('x, 'y, 'd) world) io" where
  "download_embedding_manifest deps job =
     download_manifest deps job INDEX_MANIFEST (cp_embedding_generator_version job) (cp_embedding_checksum_sha256 job)
       ''embedding artifact provenance is incomplete''"

definition upload_manifest ::
  "('y, 'd, 'z) worker_deps_scheme \<Rightarrow> ClaimedPublicationJob \<Rightarrow> bytes \<Rightarrow> ArtifactKind \<Rightarrow> string \<Rightarrow> string
   \<Rightarrow> (PublishedArtifact, ('x, 'y, 'd) world) io" where
  "upload_manifest deps job content kind generator_name generator_version =
     bind_io (lift_res (kind_artifact_type kind)) (\<lambda>artifact_type.
       publish_file deps job generator_name generator_version ''application/x-ndjson'' (artifact_type, kind, content))"

definition remove_uncommitted_artifact ::
  "('y, 'd, 'z) worker_deps_scheme \<Rightarrow> string \<Rightarrow> (unit, ('x, 'y, 'd) world) io" where
  "remove_uncommitted_artifact deps object_key =
     suppress_io (on_objects (delete_key (dp_client deps) (dp_storage deps) (dp_bucket deps) object_key))"

text \<open>A commit after which a lost lease removes the artifact.\<close>

definition commit_artifact ::
  "('y, 'd, 'z) worker_deps_scheme \<Rightarrow> PublishedArtifact \<Rightarrow> (session \<Rightarrow> ('a \<times> session) res)
   \<Rightarrow> ('a, ('x, 'y, 'd) world) io" where
  "commit_artifact deps artifact body =
     catch_io (in_transaction (dp_env deps) body)
       (\<lambda>error. case error of
          JobFenceLostError _ \<Rightarrow>
            bind_io (remove_uncommitted_artifact deps (pa_object_key artifact)) (\<lambda>_. raise_io error)
        | _ \<Rightarrow> raise_io error)"

section \<open>The chunk and embed stages\<close>

definition chunk_stage ::
  "('x, 'y, 'd, 'z) publication_deps_scheme \<Rightarrow> ClaimedPublicationJob \<Rightarrow> string \<Rightarrow> (nat \<Rightarrow> uuid)
   \<Rightarrow> (NextStageJob, ('x, 'y, 'd) world) io" where
  "chunk_stage deps job worker_id u =
     bind_io (lift_res (artifact_reference (dp_storage deps) (cl_tenant_id job)
       (cp_normalized_document_version_id job) NORMALIZED_DOCUMENT (cp_normalized_generator_version job)
       (cp_normalized_checksum_sha256 job))) (\<lambda>normalized_reference.
     bind_io (on_objects (download_object (dp_client deps) (dp_sha256 deps) (dp_bucket deps) normalized_reference
       (po_normalized_max_bytes (dp_policy deps)))) (\<lambda>(normalized, _).
     bind_io (lift_res (bind_res (dp_decode deps normalized) (\<lambda>lines.
       write_chunk_manifest (pd_dump_chunk deps) (dp_validate_page deps) (pd_text_sha256 deps) (pd_uuid5 deps)
         (pd_spans deps) lines (cl_tenant_id job) (cl_document_version_id job) (dp_policy deps)
         (Some (cp_source_document_version_id job))))) (\<lambda>(manifest, _).
     bind_io (upload_manifest deps job (dp_encode deps manifest) CHUNK_MANIFEST ''page-token-window'' ''chunk-v1'') (\<lambda>artifact.
     commit_artifact deps artifact (succeed_chunk job worker_id artifact
       (iter_chunk_manifest (pd_validate_chunk deps) manifest (cl_tenant_id job) (cl_document_version_id job))
       (ws_job_max_attempts (dp_workers deps)) u)))))"

definition embed_stage ::
  "('x, 'y, 'd, 'z) publication_deps_scheme \<Rightarrow> ClaimedPublicationJob \<Rightarrow> string \<Rightarrow> (nat \<Rightarrow> uuid)
   \<Rightarrow> (NextStageJob, ('x, 'y, 'd) world) io" where
  "embed_stage deps job worker_id u =
     (let provider = pd_provider deps
      in bind_io (download_chunk_manifest deps job) (\<lambda>chunk_file.
         bind_io (lift_res (bind_res (dp_decode deps chunk_file) (\<lambda>lines.
           write_embedding_manifest (pd_validate_chunk deps) (embed provider (pd_model deps)) (pd_vector_checksum deps)
             lines (cl_tenant_id job) (cl_document_version_id job) provider (es_batch_size (pd_embedding deps))))) (\<lambda>(manifest, _).
         bind_io (upload_manifest deps job (dp_encode deps manifest) INDEX_MANIFEST (ep_name provider)
           (''fastembed-'' @ ep_model_version provider)) (\<lambda>artifact.
         commit_artifact deps artifact (succeed_embedding job worker_id artifact (pa_object_key artifact)
           (ep_name provider) (ep_model_name provider) (ep_model_version provider) (ep_dimensions provider)
           (iter_embedding_manifest (pd_validate_embedded deps) manifest (cl_tenant_id job) (cl_document_version_id job))
           (ws_job_max_attempts (dp_workers deps)) u)))))"

section \<open>The index stage\<close>

definition search_record ::
  "('x, 'y, 'd, 'z) publication_deps_scheme \<Rightarrow> ClaimedPublicationJob \<Rightarrow> ChunkRecord \<Rightarrow> EmbeddedChunk \<Rightarrow> SearchRecord" where
  "search_record deps job chunk embedding =
     \<lparr>sr_tenant_id = cl_tenant_id job, sr_collection_id = cl_collection_id job,
      sr_document_version_id = cl_document_version_id job, sr_chunk = chunk, sr_embedding = embedding,
      sr_publication_job_id = cl_id job, sr_publication_attempt = cl_attempt_number job,
      sr_pipeline_profile = cl_pipeline_profile job, sr_embedding_provider = es_provider (pd_embedding deps),
      sr_embedding_model = es_model_name (pd_embedding deps),
      sr_embedding_model_version = es_model_version (pd_embedding deps)\<rparr>"

text \<open>The loop over the chunks: the embeddings not yet used, the pending batch and the manifest writer.\<close>

fun publish_chunks ::
  "('x, 'y, 'd, 'z) publication_deps_scheme \<Rightarrow> ClaimedPublicationJob \<Rightarrow> (uuid \<times> EmbeddedChunk) list \<Rightarrow> SearchRecord list
   \<Rightarrow> PublicationManifestWriter \<Rightarrow> ChunkRecord list
   \<Rightarrow> ((uuid \<times> EmbeddedChunk) list \<times> SearchRecord list \<times> PublicationManifestWriter, 'x) io" where
  "publish_chunks deps job embeddings batch writer [] = return_io (embeddings, batch, writer)"
| "publish_chunks deps job embeddings batch writer (chunk # chunks) =
     (case map_of embeddings (cr_chunk_id chunk) of
        None \<Rightarrow> raise_io (ValueError ''chunk embedding coverage is incomplete'')
      | Some embedding \<Rightarrow>
          let embeddings' = filter (\<lambda>e. fst e \<noteq> cr_chunk_id chunk) embeddings;
              batch' = batch @ [search_record deps job chunk embedding]
          in if int (length batch') = es_batch_size (pd_embedding deps)
             then bind_io (ad_publish (pd_adapter deps) batch') (\<lambda>ps.
                  publish_chunks deps job embeddings' [] (fold write_publication ps writer) chunks)
             else publish_chunks deps job embeddings' batch' writer chunks)"

definition publish_all ::
  "('x, 'y, 'd, 'z) publication_deps_scheme \<Rightarrow> ClaimedPublicationJob \<Rightarrow> (uuid \<times> EmbeddedChunk) list \<Rightarrow> ChunkRecord gen
   \<Rightarrow> (json list \<times> int, 'x) io" where
  "publish_all deps job embeddings chunks =
     bind_io (publish_chunks deps job embeddings [] (publication_writer (cl_tenant_id job) (cl_document_version_id job)
       (ad_target_name (pd_adapter deps)) (ad_target_version (pd_adapter deps))) (fst chunks)) (\<lambda>(unused, batch, writer).
     case snd chunks of Some e \<Rightarrow> raise_io e
     | None \<Rightarrow>
         bind_io (if batch \<noteq> []
           then bind_io (ad_publish (pd_adapter deps) batch) (\<lambda>ps. return_io (fold write_publication ps writer))
           else return_io writer) (\<lambda>writer'.
         if unused \<noteq> [] then raise_io (ValueError ''embedding manifest contains unknown chunks'')
         else return_io (finish_publications writer')))"

text \<open>Two services that own their transactions: the recovery of the search index and the activation.\<close>

definition recover_once ::
  "('x, 'y, 'd, 'z) publication_deps_scheme \<Rightarrow> int \<Rightarrow> string \<Rightarrow> uuid option \<Rightarrow> (int \<times> int, ('x, 'y, 'd) world) io" where
  "recover_once deps limit worker_id activation_version_id w =
     (case run_once (search_adapter.truncate (pd_adapter deps)) (dp_env deps) limit worker_id (pd_cleanup_lease deps)
         (ws_job_max_attempts (dp_workers deps)) activation_version_id None (w_db w) (w_search w) of
        (r, s, x) \<Rightarrow> (r, w\<lparr>w_db := s, w_search := x\<rparr>))"

definition activate_index ::
  "('x, 'y, 'd, 'z) publication_deps_scheme \<Rightarrow> ClaimedPublicationJob \<Rightarrow> string \<Rightarrow> int \<Rightarrow> (nat \<Rightarrow> uuid)
   \<Rightarrow> (SearchTargetPublication list, ('x, 'y, 'd) world) io" where
  "activate_index deps job worker_id expected_records u w =
     (case activate (search_adapter.truncate (pd_adapter deps)) (dp_env deps) (ad_target_name (pd_adapter deps))
         (ad_target_version (pd_adapter deps)) (pd_page_size deps) (pd_cleanup_lease deps)
         (ws_job_max_attempts (dp_workers deps)) job worker_id expected_records u (w_db w) (w_search w) of
        (r, s, x) \<Rightarrow> (r, w\<lparr>w_db := s, w_search := x\<rparr>))"

text \<open>Preparation and activation: the manifest is removed when the preparation did not commit.\<close>

definition prepare_and_activate ::
  "('x, 'y, 'd, 'z) publication_deps_scheme \<Rightarrow> ClaimedPublicationJob \<Rightarrow> string \<Rightarrow> PublishedArtifact \<Rightarrow> json list \<Rightarrow> int
   \<Rightarrow> (nat \<Rightarrow> nat \<Rightarrow> uuid) \<Rightarrow> (unit, ('x, 'y, 'd) world) io" where
  "prepare_and_activate deps job worker_id artifact manifest expected_records u =
     bind_io (catch_io
       (bind_io (in_transaction (dp_env deps) (prepare_index job worker_id artifact (ad_target_name (pd_adapter deps))
            (ad_target_version (pd_adapter deps))
            (iter_publication_manifest (pd_text_of deps) manifest (cl_tenant_id job) (cl_document_version_id job)) (u 1)))
          (\<lambda>_. return_io ()))
       (\<lambda>error. bind_io (remove_uncommitted_artifact deps (pa_object_key artifact)) (\<lambda>_. raise_io error))) (\<lambda>_.
     bind_io (activate_index deps job worker_id expected_records (u 2)) (\<lambda>_. return_io ()))"

definition publish_index ::
  "('x, 'y, 'd, 'z) publication_deps_scheme \<Rightarrow> ClaimedPublicationJob \<Rightarrow> string \<Rightarrow> (nat \<Rightarrow> nat \<Rightarrow> uuid)
   \<Rightarrow> (unit, ('x, 'y, 'd) world) io" where
  "publish_index deps job worker_id u =
     bind_io (download_chunk_manifest deps job) (\<lambda>chunk_file.
     bind_io (download_embedding_manifest deps job) (\<lambda>embedding_file.
     bind_io (lift_res (bind_res (dp_decode deps embedding_file) (\<lambda>lines. load_embeddings (pd_validate_embedded deps) lines
       (cl_tenant_id job) (cl_document_version_id job) (po_max_chunks (dp_policy deps))))) (\<lambda>embeddings.
     bind_io (lift_res (new_search_target (ad_target_name (pd_adapter deps)) (ad_target_version (pd_adapter deps)))) (\<lambda>target.
     bind_io (in_unit_transaction (dp_env deps) (begin_index_attempt job worker_id target (u 0))) (\<lambda>_.
     bind_io (recover_once deps (pd_page_size deps) worker_id (Some (cl_document_version_id job))) (\<lambda>_.
     bind_io (in_transaction (dp_env deps) (\<lambda>s. Inr (index_cleanup_complete job s, s))) (\<lambda>cleanup_complete.
     if \<not> cleanup_complete
     then raise_io (SearchPublicationError ''prior search publication cleanup remains pending'')
     else bind_io (lift_res (dp_decode deps chunk_file)) (\<lambda>chunk_lines.
          bind_io (on_search (publish_all deps job embeddings (iter_chunk_manifest (pd_validate_chunk deps) chunk_lines
            (cl_tenant_id job) (cl_document_version_id job)))) (\<lambda>(manifest, publication_count).
          if publication_count < 2 \<or> publication_count mod 2 \<noteq> 0
          then raise_io (ValueError ''index publication manifest is incomplete'')
          else bind_io (upload_manifest deps job (dp_encode deps manifest) INDEX_MANIFEST ''opensearch''
                 (ad_target_version (pd_adapter deps))) (\<lambda>artifact.
               prepare_and_activate deps job worker_id artifact manifest (publication_count div 2) u))))))))))"

section \<open>The delivery\<close>

definition run_stage ::
  "('x, 'y, 'd, 'z) publication_deps_scheme \<Rightarrow> ClaimedPublicationJob \<Rightarrow> string \<Rightarrow> (nat \<Rightarrow> nat \<Rightarrow> uuid)
   \<Rightarrow> (NextStageJob option, ('x, 'y, 'd) world) io" where
  "run_stage deps job worker_id u =
     (if cp_stage job = ST_CHUNK
      then bind_io (chunk_stage deps job worker_id (u 0)) (\<lambda>n. return_io (Some n))
      else if cp_stage job = ST_EMBED
      then bind_io (embed_stage deps job worker_id (u 0)) (\<lambda>n. return_io (Some n))
      else bind_io (publish_index deps job worker_id u) (\<lambda>_. return_io None))"

text \<open>\<open>except ValueError\<close> comes before \<open>except (\<dots>, RuntimeError, \<dots>, StorageIntegrityError)\<close>.\<close>

definition is_publication_dependency_error :: "py_error \<Rightarrow> bool" where
  "is_publication_dependency_error e \<longleftrightarrow> is_store_error e \<or> is_RuntimeError e"

definition publication_retry_delay :: "WorkerSettings \<Rightarrow> 'a ClaimedNativeJob_scheme \<Rightarrow> int" where
  "publication_retry_delay workers job =
     (let delay = exponential_delay workers job in min delay (ws_retry_max_seconds workers))"

definition publication_handler ::
  "('x, 'y, 'd, 'z) publication_deps_scheme \<Rightarrow> ClaimedPublicationJob \<Rightarrow> string \<Rightarrow> (nat \<Rightarrow> uuid) \<Rightarrow> py_error
   \<Rightarrow> ('r option, ('x, 'y, 'd) world) io" where
  "publication_handler deps job worker_id u error =
     (if (case error of JobFenceLostError _ \<Rightarrow> True | _ \<Rightarrow> False) then return_io None
      else if is_ValueError error
      then fail_handler (dp_env deps) job worker_id FAILED ''PUBLICATION_INPUT_INVALID'' u
      else if is_publication_dependency_error error
      then retry_handler (dp_env deps) job worker_id ''PUBLICATION_DEPENDENCY_UNAVAILABLE''
             (publication_retry_delay (dp_workers deps) job) u
      else raise_io error)"

fun publication_routes :: "IngestionStage \<Rightarrow> (PipelineTask \<times> string) res" where
  "publication_routes ST_EMBED = Inr (EMBED_PROCESS, ''PUBLICATION_DISPATCH_UNAVAILABLE'')"
| "publication_routes ST_INDEX = Inr (INDEX_PROCESS, ''PUBLICATION_DISPATCH_UNAVAILABLE'')"
| "publication_routes st = Inl (KeyError (IngestionStage_value st))"

text \<open>The claim, refused when the task is for another stage than the durable job.\<close>

definition staged_claim ::
  "('x, 'y, 'd, 'z) publication_deps_scheme \<Rightarrow> IngestionJobPayload \<Rightarrow> IngestionStage \<Rightarrow> string \<Rightarrow> (nat \<Rightarrow> uuid)
   \<Rightarrow> (ClaimedPublicationJob option \<times> NextStageJob option, ('x, 'y, 'd) world) io" where
  "staged_claim deps payload stage worker_id u =
     bind_io (in_transaction (dp_env deps) (claim_or_successor
       (publication_claim (jp_tenant_id payload) (jp_document_version_id payload) (jp_job_id payload) worker_id
          (seconds (ws_publication_timeout_seconds (dp_workers deps) + 30)) u) payload)) (\<lambda>(claimed, successor).
     case claimed of
       Some job \<Rightarrow>
         if cp_stage job \<noteq> stage then raise_io (ValueError ''publication task does not match durable job stage'')
         else return_io (claimed, successor)
     | None \<Rightarrow> return_io (claimed, successor))"

definition publication_hand_on ::
  "('x, 'y, 'd, 'z) publication_deps_scheme \<Rightarrow> uuid \<Rightarrow> uuid \<Rightarrow> NextStageJob option \<Rightarrow> (unit, ('x, 'y, 'd) world) io" where
  "publication_hand_on deps tenant_id document_version_id next_job =
     (case next_job of
        None \<Rightarrow> return_io ()
      | Some j \<Rightarrow> dispatch_or_defer deps publication_routes tenant_id document_version_id j)"

definition publication_process ::
  "('x, 'y, 'd, 'z) publication_deps_scheme \<Rightarrow> IngestionJobPayload \<Rightarrow> IngestionStage \<Rightarrow> string \<Rightarrow> (nat \<Rightarrow> nat \<Rightarrow> uuid)
   \<Rightarrow> (unit, ('x, 'y, 'd) world) io" where
  "publication_process deps payload stage worker_id u =
     deliver (staged_claim deps payload stage worker_id (u 0))
       (publication_hand_on deps (jp_tenant_id payload) (jp_document_version_id payload))
       (\<lambda>job. run_stage deps job worker_id (\<lambda>k. u (k + 2)))
       (\<lambda>job. publication_handler deps job worker_id (u 1))
       (\<lambda>job. publication_hand_on deps (cl_tenant_id job) (cl_document_version_id job))"

section \<open>Errors of a stage\<close>

lemma publication_retry_delay_bounds:
  "retry_settings_ok workers \<Longrightarrow> 1 \<le> publication_retry_delay workers job
    \<and> publication_retry_delay workers job \<le> ws_retry_max_seconds workers"
  using ocr_retry_delay_bounds [of workers job]
  by (simp add: retry_settings_ok_def publication_retry_delay_def ocr_retry_delay_def)

lemma fail_handler_outcomes:
  assumes "fail_handler env job worker_id st reason u w = (q :: 'r option res, w1)"
  shows "(\<exists>s. fail_permanently job worker_id st reason [] u (env (w_db w)) = Inr s \<and> q = Inr None \<and> w1 = w\<lparr>w_db := s\<rparr>)
    \<or> (\<exists>e. fail_permanently job worker_id st reason [] u (env (w_db w)) = Inl e \<and> q = Inl e \<and> w_broker w1 = w_broker w)"
proof -
  obtain t w2 where t: "in_unit_transaction env (fail_permanently job worker_id st reason [] u) w = (t, w2)" by (metis surj_pair)
  show ?thesis
  proof (cases t)
    case (Inl e)
    with t assms have "q = Inl e" by (simp add: fail_handler_def bind_io_def)
    moreover from t Inl assms have "w1 = w2" by (simp add: fail_handler_def bind_io_def)
    moreover have "w_broker w2 = w_broker w" using keeps_brokerD [OF keeps_broker_basic(7) t] .
    ultimately show ?thesis using t Inl by (auto simp: in_unit_transaction_Inl)
  next
    case (Inr x)
    with t assms have "q = Inr None" "w1 = w2" by (simp_all add: fail_handler_def bind_io_def return_io_def)
    with t Inr show ?thesis by (auto simp: in_unit_transaction_Inr)
  qed
qed

text \<open>C23: what becomes of a publication job whose stage raises, by the class of the error: a lost lease ends
  the delivery silently; any \<open>ValueError\<close>, a corrupted object included, fails the document for good on the
  first attempt (or the transaction that should record it raises); a fault of the store, of the network or
  any other \<open>RuntimeError\<close> schedules a retry as long as attempts are left, with a delay between one second and the
  configured maximum, and raises exactly this retry, and fails the job for good when none is left; every
  other error escapes with nothing recorded, so that the attempt stays open until its lease expires. Nothing is
  dispatched in any of these cases.\<close>

theorem publication_error_outcomes:
  assumes "publication_process deps payload stage worker_id u w = (r, w')"
    and "new_worker_settings (dp_workers deps) = Inr (dp_workers deps)"
    and "staged_claim deps payload stage worker_id (u 0) w = (Inr (Some job, successor), w1)"
    and "run_stage deps job worker_id (\<lambda>k. u (k + 2)) w1 = (Inl error, w2)"
  shows "((\<exists>m. error = JobFenceLostError m) \<longrightarrow> r = Inr () \<and> w' = w2)
    \<and> (is_ValueError error \<longrightarrow>
        (\<exists>s. fail_permanently job worker_id FAILED ''PUBLICATION_INPUT_INVALID'' [] (u 1) (dp_env deps (w_db w2)) = Inr s
           \<and> r = Inr () \<and> w' = w2\<lparr>w_db := s\<rparr>)
        \<or> (\<exists>e. fail_permanently job worker_id FAILED ''PUBLICATION_INPUT_INVALID'' [] (u 1) (dp_env deps (w_db w2)) = Inl e
           \<and> r = Inl e \<and> w_broker w' = w_broker w2))
    \<and> (is_publication_dependency_error error \<and> \<not> is_ValueError error \<and> (\<forall>m. error \<noteq> JobFenceLostError m) \<longrightarrow>
        w_broker w' = w_broker w2
        \<and> retried_or_exhausted job worker_id ''PUBLICATION_DEPENDENCY_UNAVAILABLE'' (ws_retry_max_seconds (dp_workers deps)) (u 1)
            (dp_env deps (w_db w2)) (raised r) (w_db w'))
    \<and> (\<not> is_publication_dependency_error error \<and> \<not> is_ValueError error \<longrightarrow> r = Inl error \<and> w' = w2)"
proof -
  obtain q :: "NextStageJob option option res" and w3 where h: "publication_handler deps job worker_id (u 1) error w2 = (q, w3)"
    by (metis surj_pair)
  have eq: "(case q of Inl e \<Rightarrow> (Inl e, w3)
      | Inr None \<Rightarrow> (Inr (), w3)
      | Inr (Some n) \<Rightarrow> publication_hand_on deps (cl_tenant_id job) (cl_document_version_id job) n w3) = (r, w')"
    using assms(1,3,4) h
    by (simp add: publication_process_def deliver_def bind_io_def catch_io_def return_io_def split: sum.splits option.splits)
  have fence: "\<not> is_ValueError (JobFenceLostError m)" "is_publication_dependency_error (JobFenceLostError m)" for m
    by (simp_all add: is_publication_dependency_error_def)
  have "r = Inr () \<and> w' = w2" if "error = JobFenceLostError m" for m
    using that h eq by (auto simp: publication_handler_def return_io_def)
  moreover have "(\<exists>s. fail_permanently job worker_id FAILED ''PUBLICATION_INPUT_INVALID'' [] (u 1) (dp_env deps (w_db w2)) = Inr s
           \<and> r = Inr () \<and> w' = w2\<lparr>w_db := s\<rparr>)
        \<or> (\<exists>e. fail_permanently job worker_id FAILED ''PUBLICATION_INPUT_INVALID'' [] (u 1) (dp_env deps (w_db w2)) = Inl e
           \<and> r = Inl e \<and> w_broker w' = w_broker w2)" if v: "is_ValueError error"
  proof -
    from v h have f: "fail_handler (dp_env deps) job worker_id FAILED ''PUBLICATION_INPUT_INVALID'' (u 1) w2 = (q, w3)"
      by (cases error) (simp_all add: publication_handler_def)
    from fail_handler_outcomes [OF f] eq show ?thesis by auto
  qed
  moreover have "w_broker w' = w_broker w2
        \<and> retried_or_exhausted job worker_id ''PUBLICATION_DEPENDENCY_UNAVAILABLE'' (ws_retry_max_seconds (dp_workers deps)) (u 1)
            (dp_env deps (w_db w2)) (raised r) (w_db w')"
    if c: "is_publication_dependency_error error" "\<not> is_ValueError error" "\<forall>m. error \<noteq> JobFenceLostError m"
  proof -
    from c h have rh: "retry_handler (dp_env deps) job worker_id ''PUBLICATION_DEPENDENCY_UNAVAILABLE''
        (publication_retry_delay (dp_workers deps) job) (u 1) w2 = (q, w3)"
      by (cases error) (simp_all add: publication_handler_def)
    from publication_retry_delay_bounds [OF new_worker_settings_retry [OF assms(2)], of job] have
      d: "1 \<le> publication_retry_delay (dp_workers deps) job"
        "publication_retry_delay (dp_workers deps) job \<le> ws_retry_max_seconds (dp_workers deps)" by blast+
    note c = retry_handler_closes [OF d, unfolded closes_def, rule_format, OF rh]
    then have "raised r = raised q \<and> w' = w3" using eq by (cases q) (auto split: option.splits)
    with c show ?thesis by simp
  qed
  moreover have "r = Inl error \<and> w' = w2" if "\<not> is_publication_dependency_error error" "\<not> is_ValueError error"
    using that h eq fence by (cases error; auto simp: publication_handler_def raise_io_def)
  ultimately show ?thesis by blast
qed

section \<open>What the index publisher promises\<close>

text \<open>Two publications for every record of a batch, in its order.\<close>

locale batch_publisher =
  fixes publish :: "SearchRecord list \<Rightarrow> (PublicationRecord list, 'x) io"
  assumes publishes_pairs: "publish records x = (Inr ps, x1) \<Longrightarrow>
    map pb_publication_kind ps = concat (map (\<lambda>_. [''lexical'', ''vector'']) records)
    \<and> map pb_chunk_id ps = concat (map (\<lambda>r. [cr_chunk_id (sr_chunk r), cr_chunk_id (sr_chunk r)]) records)"
begin

lemma batch_ids:
  assumes "publish records x = (Inr ps, x1)"
  shows "map pb_chunk_id ps = concat (map (\<lambda>i. [i, i]) (map (cr_chunk_id \<circ> sr_chunk) records))
    \<and> map pb_publication_kind ps = concat (map (\<lambda>i. [''lexical'', ''vector'']) (map (cr_chunk_id \<circ> sr_chunk) records))"
  using publishes_pairs [OF assms] by (simp add: comp_def)

text \<open>The loop: \<open>sent\<close> are the chunks whose records were published.\<close>

lemma publish_chunks_covers:
  assumes "ad_publish (pd_adapter deps) = publish"
    and "publish_chunks deps job embeddings batch writer chunks x = (Inr (unused, batch', writer'), x1)"
  shows "\<exists>sent ps. map (cr_chunk_id \<circ> sr_chunk) batch @ map cr_chunk_id chunks = sent @ map (cr_chunk_id \<circ> sr_chunk) batch'
    \<and> writer' = fold write_publication ps writer
    \<and> map pb_chunk_id ps = concat (map (\<lambda>i. [i, i]) sent)
    \<and> map pb_publication_kind ps = concat (map (\<lambda>i. [''lexical'', ''vector'']) sent)
    \<and> fst ` set unused = fst ` set embeddings - cr_chunk_id ` set chunks
    \<and> cr_chunk_id ` set chunks \<subseteq> fst ` set embeddings \<and> distinct (map cr_chunk_id chunks)"
  using assms(2)
proof (induction chunks arbitrary: embeddings batch writer x)
  case Nil
  then show ?case by (intro exI [of _ "[]"]) simp
next
  case (Cons chunk chunks)
  from Cons.prems obtain embedding where e: "map_of embeddings (cr_chunk_id chunk) = Some embedding"
    by (auto split: option.splits)
  define embeddings' where "embeddings' = filter (\<lambda>e. fst e \<noteq> cr_chunk_id chunk) embeddings"
  define b where "b = batch @ [search_record deps job chunk embedding]"
  have mem: "cr_chunk_id chunk \<in> fst ` set embeddings" using e by (metis map_of_SomeD fst_conv rev_image_eqI)
  have rest: "fst ` set embeddings' = fst ` set embeddings - {cr_chunk_id chunk}" by (auto simp: embeddings'_def)
  have bi: "map (cr_chunk_id \<circ> sr_chunk) b = map (cr_chunk_id \<circ> sr_chunk) batch @ [cr_chunk_id chunk]"
    by (simp add: b_def search_record_def)
  have step: "?case" if ih: "\<exists>sent ps. map (cr_chunk_id \<circ> sr_chunk) b0 @ map cr_chunk_id chunks = sent @ map (cr_chunk_id \<circ> sr_chunk) batch'
    \<and> writer' = fold write_publication ps wr
    \<and> map pb_chunk_id ps = concat (map (\<lambda>i. [i, i]) sent)
    \<and> map pb_publication_kind ps = concat (map (\<lambda>i. [''lexical'', ''vector'']) sent)
    \<and> fst ` set unused = fst ` set embeddings' - cr_chunk_id ` set chunks
    \<and> cr_chunk_id ` set chunks \<subseteq> fst ` set embeddings' \<and> distinct (map cr_chunk_id chunks)"
    and b0: "map (cr_chunk_id \<circ> sr_chunk) b = sent0 @ map (cr_chunk_id \<circ> sr_chunk) b0"
    and wr: "wr = fold write_publication ps0 writer"
    and ps0: "map pb_chunk_id ps0 = concat (map (\<lambda>i. [i, i]) sent0)"
      "map pb_publication_kind ps0 = concat (map (\<lambda>i. [''lexical'', ''vector'']) sent0)"
    for b0 wr sent0 ps0
  proof -
    from ih obtain sent ps where ih1: "map (cr_chunk_id \<circ> sr_chunk) b0 @ map cr_chunk_id chunks = sent @ map (cr_chunk_id \<circ> sr_chunk) batch'"
      "writer' = fold write_publication ps wr" "map pb_chunk_id ps = concat (map (\<lambda>i. [i, i]) sent)"
      "map pb_publication_kind ps = concat (map (\<lambda>i. [''lexical'', ''vector'']) sent)"
      and ih2: "fst ` set unused = fst ` set embeddings' - cr_chunk_id ` set chunks"
      "cr_chunk_id ` set chunks \<subseteq> fst ` set embeddings'" "distinct (map cr_chunk_id chunks)" by blast
    have "map (cr_chunk_id \<circ> sr_chunk) batch @ map cr_chunk_id (chunk # chunks)
        = (sent0 @ sent) @ map (cr_chunk_id \<circ> sr_chunk) batch'"
    proof -
      have "map (cr_chunk_id \<circ> sr_chunk) batch @ map cr_chunk_id (chunk # chunks)
        = map (cr_chunk_id \<circ> sr_chunk) b @ map cr_chunk_id chunks" by (simp add: bi)
      also have "\<dots> = sent0 @ map (cr_chunk_id \<circ> sr_chunk) b0 @ map cr_chunk_id chunks"
        by (simp only: b0 append_assoc)
      finally show ?thesis by (simp only: ih1(1) append_assoc)
    qed
    moreover have "writer' = fold write_publication (ps0 @ ps) writer" by (simp add: ih1(2) wr)
    moreover have "map pb_chunk_id (ps0 @ ps) = concat (map (\<lambda>i. [i, i]) (sent0 @ sent))"
      "map pb_publication_kind (ps0 @ ps) = concat (map (\<lambda>i. [''lexical'', ''vector'']) (sent0 @ sent))"
      by (simp_all add: ps0 ih1(3,4))
    moreover have "fst ` set unused = fst ` set embeddings - cr_chunk_id ` set (chunk # chunks)"
      "cr_chunk_id ` set (chunk # chunks) \<subseteq> fst ` set embeddings" "distinct (map cr_chunk_id (chunk # chunks))"
      using ih2 rest mem by auto
    ultimately show ?thesis by blast
  qed
  show ?case
  proof (cases "int (length b) = es_batch_size (pd_embedding deps)")
    case True
    with Cons.prems e obtain ps0 x0 where p: "publish b x = (Inr ps0, x0)"
      and r: "publish_chunks deps job embeddings' [] (fold write_publication ps0 writer) chunks x0 = (Inr (unused, batch', writer'), x1)"
      by (auto simp: Let_def assms(1) b_def embeddings'_def elim!: bind_io_InrE)
    from batch_ids [OF p] have "map pb_chunk_id ps0 = concat (map (\<lambda>i. [i, i]) (map (cr_chunk_id \<circ> sr_chunk) b))"
      "map pb_publication_kind ps0 = concat (map (\<lambda>i. [''lexical'', ''vector'']) (map (cr_chunk_id \<circ> sr_chunk) b))" by blast+
    from step [OF Cons.IH [OF r] _ refl this] show ?thesis by simp
  next
    case False
    with Cons.prems e have r: "publish_chunks deps job embeddings' b writer chunks x = (Inr (unused, batch', writer'), x1)"
      by (simp add: Let_def b_def embeddings'_def)
    from step [OF Cons.IH [OF r], of "[]" "[]"] show ?thesis by simp
  qed
qed

text \<open>A finished manifest covers the chunks and the embeddings exactly.\<close>

lemma publish_all_covers:
  assumes "ad_publish (pd_adapter deps) = publish"
    and "publish_all deps job embeddings chunks x = (Inr (manifest, n), x1)"
  shows "snd chunks = None \<and> distinct (map cr_chunk_id (fst chunks))
    \<and> cr_chunk_id ` set (fst chunks) = fst ` set embeddings \<and> n = 2 * int (length (fst chunks))
    \<and> (\<exists>ps. iter_publication_manifest text_of manifest (cl_tenant_id job) (cl_document_version_id job) = (ps, None)
        \<and> map pb_chunk_id ps = concat (map (\<lambda>c. [cr_chunk_id c, cr_chunk_id c]) (fst chunks))
        \<and> map pb_publication_kind ps = concat (map (\<lambda>c. [''lexical'', ''vector'']) (fst chunks)))"
proof -
  let ?w = "publication_writer (cl_tenant_id job) (cl_document_version_id job)
       (ad_target_name (pd_adapter deps)) (ad_target_version (pd_adapter deps))"
  from assms(2) [unfolded publish_all_def] obtain t x0 where
    t: "publish_chunks deps job embeddings [] ?w (fst chunks) x = (Inr t, x0)"
    and rest: "(case t of (unused, batch, writer) \<Rightarrow> case snd chunks of Some e \<Rightarrow> raise_io e
     | None \<Rightarrow>
         bind_io (if batch \<noteq> []
           then bind_io (ad_publish (pd_adapter deps) batch) (\<lambda>ps. return_io (fold write_publication ps writer))
           else return_io writer) (\<lambda>writer'.
         if unused \<noteq> [] then raise_io (ValueError ''embedding manifest contains unknown chunks'')
         else return_io (finish_publications writer'))) x0 = (Inr (manifest, n), x1)"
    by (rule bind_io_InrE)
  obtain unused batch writer where tt: "t = (unused, batch, writer)" by (cases t)
  have g: "snd chunks = None" using rest tt by (cases "snd chunks") simp_all
  from rest [unfolded tt g prod.case option.case] obtain writer' x2 where
    last: "(if batch \<noteq> [] then bind_io (publish batch) (\<lambda>ps. return_io (fold write_publication ps writer))
         else return_io writer) x0 = (Inr writer', x2)"
    and e: "(if unused \<noteq> [] then raise_io (ValueError ''embedding manifest contains unknown chunks'')
         else return_io (finish_publications writer')) x2 = (Inr (manifest, n), x1)"
    unfolding assms(1) by (rule bind_io_InrE)
  from e have un: "unused = []" and fin: "(manifest, n) = finish_publications writer'" by (auto split: if_splits)
  note loop = t [unfolded tt un]
  from publish_chunks_covers [OF assms(1) loop] obtain sent ps where
    d: "map cr_chunk_id (fst chunks) = sent @ map (cr_chunk_id \<circ> sr_chunk) batch" "writer = fold write_publication ps ?w"
      "map pb_chunk_id ps = concat (map (\<lambda>i. [i, i]) sent)"
      "map pb_publication_kind ps = concat (map (\<lambda>i. [''lexical'', ''vector'']) sent)"
    and s: "cr_chunk_id ` set (fst chunks) = fst ` set embeddings" "distinct (map cr_chunk_id (fst chunks))"
    by auto
  obtain qs where w': "writer' = fold write_publication qs writer"
    and q: "map pb_chunk_id qs = concat (map (\<lambda>i. [i, i]) (map (cr_chunk_id \<circ> sr_chunk) batch))"
      "map pb_publication_kind qs = concat (map (\<lambda>i. [''lexical'', ''vector'']) (map (cr_chunk_id \<circ> sr_chunk) batch))"
  proof (cases "batch = []")
    case True
    with last that [of "[]"] show ?thesis by simp
  next
    case False
    with last obtain qs where "publish batch x0 = (Inr qs, x2)" "writer' = fold write_publication qs writer"
      by (auto elim!: bind_io_InrE)
    with batch_ids [of batch x0 qs x2] that [of qs] show ?thesis by blast
  qed
  have ids: "map pb_chunk_id (ps @ qs) = concat (map (\<lambda>i. [i, i]) (map cr_chunk_id (fst chunks)))"
    "map pb_publication_kind (ps @ qs) = concat (map (\<lambda>i. [''lexical'', ''vector'']) (map cr_chunk_id (fst chunks)))"
    unfolding d(1) by (simp_all add: d q)
  have "length (concat (map (\<lambda>i. [i, i]) is)) = 2 * length is" for "is" :: "uuid list" by (induction "is") simp_all
  with arg_cong [OF ids(1), of length] have len: "length (ps @ qs) = 2 * length (fst chunks)" by (simp only: length_map)
  have "finish_publications (fold write_publication (ps @ qs) ?w) = (manifest, n)" using fin w' d(2) by simp
  from publication_manifest_roundtrip [OF this, of text_of] len ids g s show ?thesis
    by (auto simp: comp_def)
qed

end

text \<open>The OpenSearch adapter is such a publisher.\<close>

definition opensearch_adapter :: "(json \<Rightarrow> string) \<Rightarrow> 'x OpenSearchTransport \<Rightarrow> 'x index_adapter" where
  "opensearch_adapter text_of t = search_adapter.extend (recovery_adapter t)
     \<lparr>ad_target_name = ot_target_name t, ad_target_version = ot_target_version t, ad_publish = publish_records text_of t\<rparr>"

lemma record_publications_pairs:
  assumes "map_res record_publications records = Inr pss"
  shows "map pb_publication_kind (concat pss) = concat (map (\<lambda>_. [''lexical'', ''vector'']) records)
    \<and> map pb_chunk_id (concat pss) = concat (map (\<lambda>r. [cr_chunk_id (sr_chunk r), cr_chunk_id (sr_chunk r)]) records)"
  using map_res_Inr [OF assms]
  by (induction rule: list_all2_induct) (auto simp: record_publications_def elim!: bind_res_InrE)

interpretation opensearch: batch_publisher "publish_records text_of t" for text_of and t :: "'x OpenSearchTransport"
proof
  fix records ps and x x1 :: 'x
  assume "publish_records text_of t records x = (Inr ps, x1)"
  then obtain pss where "map_res record_publications records = Inr pss" "ps = concat pss"
    unfolding publish_records_def by (fastforce elim!: bind_io_InrE split: if_splits)
  with record_publications_pairs [of records pss] show
    "map pb_publication_kind ps = concat (map (\<lambda>_. [''lexical'', ''vector'']) records)
      \<and> map pb_chunk_id ps = concat (map (\<lambda>r. [cr_chunk_id (sr_chunk r), cr_chunk_id (sr_chunk r)]) records)" by simp
qed

section \<open>The index stage\<close>

lemma opensearch_adapter_simps [simp]:
  "ad_target_name (opensearch_adapter text_of t) = ot_target_name t"
  "ad_target_version (opensearch_adapter text_of t) = ot_target_version t"
  "ad_publish (opensearch_adapter text_of t) = publish_records text_of t"
  by (simp_all add: opensearch_adapter_def search_adapter.defs)

lemma activate_index_Inr:
  assumes "activate_index deps job worker_id expected u w = (Inr targets, w')"
  shows "\<exists>target s'. new_search_target (ad_target_name (pd_adapter deps)) (ad_target_version (pd_adapter deps)) = Inr target
    \<and> activation_transaction job worker_id target expected u (dp_env deps (w_db w)) = Inr (targets, s')"
  using assms unfolding activate_index_def activate_def
  by (auto simp: transaction_def split: prod.splits sum.splits)

text \<open>A preparation that fails ends the stage, so the activation starts from the prepared session.\<close>

lemma prepare_and_activate_Inr:
  assumes "prepare_and_activate deps job worker_id artifact manifest expected u w = (Inr x, w')"
  shows "\<exists>prepared s2 targets.
      prepare_index job worker_id artifact (ad_target_name (pd_adapter deps)) (ad_target_version (pd_adapter deps))
          (iter_publication_manifest (pd_text_of deps) manifest (cl_tenant_id job) (cl_document_version_id job)) (u 1)
          (dp_env deps (w_db w)) = Inr (prepared, s2)
      \<and> activate_index deps job worker_id expected (u 2) (w\<lparr>w_db := s2\<rparr>) = (Inr targets, w')"
proof -
  let ?prepare = "in_transaction (dp_env deps) (prepare_index job worker_id artifact (ad_target_name (pd_adapter deps))
            (ad_target_version (pd_adapter deps))
            (iter_publication_manifest (pd_text_of deps) manifest (cl_tenant_id job) (cl_document_version_id job)) (u 1))"
  from assms obtain w1 targets where
    c: "catch_io (bind_io ?prepare (\<lambda>_. return_io ()))
       (\<lambda>error. bind_io (remove_uncommitted_artifact deps (pa_object_key artifact)) (\<lambda>_. raise_io error)) w = (Inr (), w1)"
    and a: "activate_index deps job worker_id expected (u 2) w1 = (Inr targets, w')"
    unfolding prepare_and_activate_def by (auto elim!: bind_io_InrE)
  from c obtain prepared where "?prepare w = (Inr prepared, w1)"
    by (rule catch_io_InrE) (auto elim!: bind_io_InrE)
  with a show ?thesis unfolding in_transaction_Inr by blast
qed

lemma keeps_download: "keeps_db (download_manifest deps job kind generator_version checksum message)"
  unfolding download_manifest_def by (auto intro!: keeps_db_bind split: prod.splits)

lemma keeps_upload: "keeps_db (upload_manifest deps job content kind generator_name generator_version)"
  unfolding upload_manifest_def by (auto intro!: keeps_db_bind keeps_publish_file(1))

text \<open>The run of a stage that succeeds, from world to world.\<close>

lemma publish_index_Inr:
  assumes "publish_index deps job worker_id u w = (Inr x, w')"
  obtains chunk_file wa embedding_file wb embedding_lines embeddings target s0 counts wr chunk_lines manifest n x1 artifact w1 where
    "download_chunk_manifest deps job w = (Inr chunk_file, wa)"
    "download_embedding_manifest deps job wa = (Inr embedding_file, wb)"
    "dp_decode deps embedding_file = Inr embedding_lines"
    "load_embeddings (pd_validate_embedded deps) embedding_lines (cl_tenant_id job) (cl_document_version_id job)
       (po_max_chunks (dp_policy deps)) = Inr embeddings"
    "new_search_target (ad_target_name (pd_adapter deps)) (ad_target_version (pd_adapter deps)) = Inr target"
    "begin_index_attempt job worker_id target (u 0) (dp_env deps (w_db w)) = Inr s0"
    "recover_once deps (pd_page_size deps) worker_id (Some (cl_document_version_id job)) (wb\<lparr>w_db := s0\<rparr>) = (Inr counts, wr)"
    "index_cleanup_complete job (dp_env deps (w_db wr))"
    "dp_decode deps chunk_file = Inr chunk_lines"
    "publish_all deps job embeddings (iter_chunk_manifest (pd_validate_chunk deps) chunk_lines
       (cl_tenant_id job) (cl_document_version_id job)) (w_search wr) = (Inr (manifest, n), x1)" "2 \<le> n"
    "upload_manifest deps job (dp_encode deps manifest) INDEX_MANIFEST ''opensearch'' (ad_target_version (pd_adapter deps))
       (wr\<lparr>w_db := dp_env deps (w_db wr), w_search := x1\<rparr>) = (Inr artifact, w1)"
    "prepare_and_activate deps job worker_id artifact manifest (n div 2) u w1 = (Inr (), w')"
proof -
  let ?publish = "\<lambda>chunk_file embeddings. bind_io (lift_res (dp_decode deps chunk_file)) (\<lambda>chunk_lines.
          bind_io (on_search (publish_all deps job embeddings (iter_chunk_manifest (pd_validate_chunk deps) chunk_lines
            (cl_tenant_id job) (cl_document_version_id job)))) (\<lambda>(manifest, publication_count).
          if publication_count < 2 \<or> publication_count mod 2 \<noteq> 0
          then raise_io (ValueError ''index publication manifest is incomplete'')
          else bind_io (upload_manifest deps job (dp_encode deps manifest) INDEX_MANIFEST ''opensearch''
                 (ad_target_version (pd_adapter deps))) (\<lambda>artifact.
               prepare_and_activate deps job worker_id artifact manifest (publication_count div 2) u)))"
  from assms obtain chunk_file wa embedding_file wb embeddings w2 target w3 b w4 counts wr cc w5 where
    d: "download_chunk_manifest deps job w = (Inr chunk_file, wa)" "download_embedding_manifest deps job wa = (Inr embedding_file, wb)"
    and e: "lift_res (bind_res (dp_decode deps embedding_file) (\<lambda>lines. load_embeddings (pd_validate_embedded deps) lines
       (cl_tenant_id job) (cl_document_version_id job) (po_max_chunks (dp_policy deps)))) wb = (Inr embeddings, w2)"
    and t: "lift_res (new_search_target (ad_target_name (pd_adapter deps)) (ad_target_version (pd_adapter deps))) w2 = (Inr target, w3)"
    and b: "in_unit_transaction (dp_env deps) (begin_index_attempt job worker_id target (u 0)) w3 = (Inr b, w4)"
    and c: "recover_once deps (pd_page_size deps) worker_id (Some (cl_document_version_id job)) w4 = (Inr counts, wr)"
    and i: "in_transaction (dp_env deps) (\<lambda>s. Inr (index_cleanup_complete job s, s)) wr = (Inr cc, w5)"
    and rest: "(if \<not> cc then raise_io (SearchPublicationError ''prior search publication cleanup remains pending'')
        else ?publish chunk_file embeddings) w5 = (Inr x, w')"
    unfolding publish_index_def by (elim bind_io_InrE) (rule that)
  have cc: "cc" using rest by (cases cc) simp_all
  from rest cc have "?publish chunk_file embeddings w5 = (Inr x, w')" by simp
  then obtain chunk_lines w6 p w7 where
    l: "lift_res (dp_decode deps chunk_file) w5 = (Inr chunk_lines, w6)"
    and p: "on_search (publish_all deps job embeddings (iter_chunk_manifest (pd_validate_chunk deps) chunk_lines
            (cl_tenant_id job) (cl_document_version_id job))) w6 = (Inr p, w7)"
    and rest: "(case p of (manifest, publication_count) \<Rightarrow>
          if publication_count < 2 \<or> publication_count mod 2 \<noteq> 0
          then raise_io (ValueError ''index publication manifest is incomplete'')
          else bind_io (upload_manifest deps job (dp_encode deps manifest) INDEX_MANIFEST ''opensearch''
                 (ad_target_version (pd_adapter deps))) (\<lambda>artifact.
               prepare_and_activate deps job worker_id artifact manifest (publication_count div 2) u)) w7 = (Inr x, w')"
    by (elim bind_io_InrE) (rule that)
  obtain manifest n where p': "p = (manifest, n)" by (cases p)
  from rest have n: "2 \<le> n" by (auto simp: p' split: if_splits)
  from rest obtain artifact w8 where
    a: "upload_manifest deps job (dp_encode deps manifest) INDEX_MANIFEST ''opensearch'' (ad_target_version (pd_adapter deps)) w7
        = (Inr artifact, w8)" "prepare_and_activate deps job worker_id artifact manifest (n div 2) u w8 = (Inr (), w')"
    by (auto simp: p' elim!: bind_io_InrE split: if_splits)
  have db: "w_db wb = w_db w"
    using keeps_dbD [OF keeps_download d(1) [unfolded download_chunk_manifest_def]]
      keeps_dbD [OF keeps_download d(2) [unfolded download_embedding_manifest_def]] by simp
  from e obtain embedding_lines where e': "dp_decode deps embedding_file = Inr embedding_lines" "w2 = wb"
    "load_embeddings (pd_validate_embedded deps) embedding_lines (cl_tenant_id job) (cl_document_version_id job)
       (po_max_chunks (dp_policy deps)) = Inr embeddings"
    by (auto simp: lift_res_def elim!: bind_res_InrE)
  from t have t': "new_search_target (ad_target_name (pd_adapter deps)) (ad_target_version (pd_adapter deps)) = Inr target" "w3 = w2"
    by (simp_all add: lift_res_def)
  from b obtain s0 where b': "begin_index_attempt job worker_id target (u 0) (dp_env deps (w_db w)) = Inr s0" "w4 = wb\<lparr>w_db := s0\<rparr>"
    by (auto simp: in_unit_transaction_Inr t'(2) e'(2) db)
  from i cc have i': "index_cleanup_complete job (dp_env deps (w_db wr))" "w5 = wr\<lparr>w_db := dp_env deps (w_db wr)\<rparr>"
    by (auto simp: in_transaction_Inr)
  from l have l': "dp_decode deps chunk_file = Inr chunk_lines" "w6 = w5" by (simp_all add: lift_res_def)
  from p obtain x1 where x: "publish_all deps job embeddings (iter_chunk_manifest (pd_validate_chunk deps) chunk_lines
       (cl_tenant_id job) (cl_document_version_id job)) (w_search wr) = (Inr (manifest, n), x1)"
    "w7 = wr\<lparr>w_db := dp_env deps (w_db wr), w_search := x1\<rparr>"
    by (auto simp: on_search_eq l'(2) i'(2) p')
  show ?thesis
    by (rule that [OF d e'(1,3) t'(1) b'(1) c [unfolded b'(2)] i'(1) l'(1) x(1) n a [unfolded x(2)]])
qed

text \<open>C24: an index job that succeeds activated a complete index. The chunk manifest and the embedding manifest of the
  job were downloaded and read to their end; the chunks have distinct identifiers and are exactly those with an
  embedding; after the attempt was opened, from the state the run began in, and the search index recovered, nothing of
  an earlier attempt was left; all chunks were published, and the manifest that was uploaded holds for every chunk, in
  order, one lexical and one vector publication and nothing else; exactly its publications were committed by the
  preparation, and the activation that starts from this commit, and leaves the state the run ends in, was asked for,
  and checked, as many records as there are chunks.\<close>

theorem index_stage_complete:
  assumes "pd_adapter deps = opensearch_adapter (pd_text_of deps) t"
    and "publish_index deps job worker_id u w = (Inr (), w')"
  shows "\<exists>chunk_file wa chunk_lines chunks embedding_file wb embedding_lines embeddings target s0 counts wr s1
      manifest x1 publications artifact w1 prepared s2 targets s3.
      download_chunk_manifest deps job w = (Inr chunk_file, wa) \<and> dp_decode deps chunk_file = Inr chunk_lines
      \<and> iter_chunk_manifest (pd_validate_chunk deps) chunk_lines (cl_tenant_id job) (cl_document_version_id job) = (chunks, None)
      \<and> download_embedding_manifest deps job wa = (Inr embedding_file, wb) \<and> dp_decode deps embedding_file = Inr embedding_lines
      \<and> load_embeddings (pd_validate_embedded deps) embedding_lines (cl_tenant_id job) (cl_document_version_id job)
          (po_max_chunks (dp_policy deps)) = Inr embeddings
      \<and> chunks \<noteq> [] \<and> distinct (map cr_chunk_id chunks) \<and> cr_chunk_id ` set chunks = fst ` set embeddings
      \<and> new_search_target (ot_target_name t) (ot_target_version t) = Inr target
      \<and> begin_index_attempt job worker_id target (u 0) (dp_env deps (w_db w)) = Inr s0
      \<and> recover_once deps (pd_page_size deps) worker_id (Some (cl_document_version_id job)) (wb\<lparr>w_db := s0\<rparr>) = (Inr counts, wr)
      \<and> s1 = dp_env deps (w_db wr) \<and> index_cleanup_complete job s1
      \<and> publish_all deps job embeddings (chunks, None) (w_search wr) = (Inr (manifest, 2 * int (length chunks)), x1)
      \<and> iter_publication_manifest (pd_text_of deps) manifest (cl_tenant_id job) (cl_document_version_id job) = (publications, None)
      \<and> map pb_chunk_id publications = concat (map (\<lambda>c. [cr_chunk_id c, cr_chunk_id c]) chunks)
      \<and> map pb_publication_kind publications = concat (map (\<lambda>c. [''lexical'', ''vector'']) chunks)
      \<and> upload_manifest deps job (dp_encode deps manifest) INDEX_MANIFEST ''opensearch'' (ot_target_version t)
          (wr\<lparr>w_db := s1, w_search := x1\<rparr>) = (Inr artifact, w1) \<and> w_db w1 = s1
      \<and> prepare_index job worker_id artifact (ot_target_name t) (ot_target_version t) (publications, None) (u 1) (dp_env deps s1)
          = Inr (prepared, s2)
      \<and> activation_transaction job worker_id target (int (length chunks)) (u 2) (dp_env deps s2) = Inr (targets, s3)
      \<and> activate_index deps job worker_id (int (length chunks)) (u 2) (w1\<lparr>w_db := s2\<rparr>) = (Inr targets, w')"
proof -
  from publish_index_Inr [OF assms(2)] obtain chunk_file wa embedding_file wb embedding_lines embeddings target s0 counts wr
      chunk_lines manifest n x1 artifact w1 where
    run: "download_chunk_manifest deps job w = (Inr chunk_file, wa)" "dp_decode deps chunk_file = Inr chunk_lines"
      "download_embedding_manifest deps job wa = (Inr embedding_file, wb)" "dp_decode deps embedding_file = Inr embedding_lines"
      "load_embeddings (pd_validate_embedded deps) embedding_lines (cl_tenant_id job) (cl_document_version_id job)
       (po_max_chunks (dp_policy deps)) = Inr embeddings"
      "begin_index_attempt job worker_id target (u 0) (dp_env deps (w_db w)) = Inr s0"
      "recover_once deps (pd_page_size deps) worker_id (Some (cl_document_version_id job)) (wb\<lparr>w_db := s0\<rparr>) = (Inr counts, wr)"
      "index_cleanup_complete job (dp_env deps (w_db wr))"
    and target: "new_search_target (ad_target_name (pd_adapter deps)) (ad_target_version (pd_adapter deps)) = Inr target"
    and all: "publish_all deps job embeddings (iter_chunk_manifest (pd_validate_chunk deps) chunk_lines
       (cl_tenant_id job) (cl_document_version_id job)) (w_search wr) = (Inr (manifest, n), x1)" "2 \<le> n"
    and up: "upload_manifest deps job (dp_encode deps manifest) INDEX_MANIFEST ''opensearch'' (ad_target_version (pd_adapter deps))
       (wr\<lparr>w_db := dp_env deps (w_db wr), w_search := x1\<rparr>) = (Inr artifact, w1)"
    and act: "prepare_and_activate deps job worker_id artifact manifest (n div 2) u w1 = (Inr (), w')"
    by metis
  have pub: "ad_publish (pd_adapter deps) = publish_records (pd_text_of deps) t" by (simp add: assms(1))
  obtain chunks err where c: "iter_chunk_manifest (pd_validate_chunk deps) chunk_lines (cl_tenant_id job)
      (cl_document_version_id job) = (chunks, err)" by (metis surj_pair)
  from opensearch.publish_all_covers [OF pub all(1), of "pd_text_of deps"] c obtain ps where
    cov: "err = None" "distinct (map cr_chunk_id chunks)" "cr_chunk_id ` set chunks = fst ` set embeddings"
      "n = 2 * int (length chunks)"
      "iter_publication_manifest (pd_text_of deps) manifest (cl_tenant_id job) (cl_document_version_id job) = (ps, None)"
      "map pb_chunk_id ps = concat (map (\<lambda>c. [cr_chunk_id c, cr_chunk_id c]) chunks)"
      "map pb_publication_kind ps = concat (map (\<lambda>c. [''lexical'', ''vector'']) chunks)"
    by auto
  from all(2) cov(4) have ne: "chunks \<noteq> []" and half: "n div 2 = int (length chunks)" by auto
  have db: "w_db w1 = dp_env deps (w_db wr)"
    using keeps_dbD [OF keeps_upload up] by simp
  note names = assms(1) opensearch_adapter_simps
  from prepare_and_activate_Inr [OF act, unfolded cov(5) half db] obtain prepared s2 targets where
    p: "prepare_index job worker_id artifact (ot_target_name t) (ot_target_version t) (ps, None) (u 1)
        (dp_env deps (dp_env deps (w_db wr))) = Inr (prepared, s2)"
    and a: "activate_index deps job worker_id (int (length chunks)) (u 2) (w1\<lparr>w_db := s2\<rparr>) = (Inr targets, w')"
    unfolding names by blast
  from activate_index_Inr [OF a] target obtain s3 where
    "activation_transaction job worker_id target (int (length chunks)) (u 2) (dp_env deps s2) = Inr (targets, s3)"
    by auto
  note activation = this
  note facts = run(1,2) c [unfolded cov(1)] run(3,4,5) ne cov(2,3) target [unfolded names] run(6,7) refl run(8)
    all(1) [unfolded c cov(1,4)] cov(5,6,7) up [unfolded names] db p activation a
  show ?thesis by (intro exI conjI) (rule facts)+
qed

end
