(* ===== verification/Publication_Run.thy ===== *)
theory Publication_Run
  imports Publication_Service
begin

text \<open>
  Concrete runs of the publication service: an index job carried through download, publication,
  upload, preparation and activation against the in-memory store and search engine, and a chunk job
  whose normalized artifact is corrupt.
\<close>

section \<open>A complete index job\<close>

definition index_lines :: "json list" where
  "index_lines = [JObj [(''record_type'', JStr ''header'')], chunk_line sample_chunk_dump 1 4 stored_chunk,
     JObj [(''record_type'', JStr ''embedding''), (''embedding'', embedding_body (\<lambda>_. ''h'') stored_chunk [1])],
     JObj [(''record_type'', JStr ''manifest''), (''chunk_count'', JInt 1)]]"

definition index_deps :: "(engine, memory, string list) publication_deps" where
  "index_deps = worker_deps.extend (sample_deps\<lparr>dp_decode := \<lambda>_. Inr index_lines\<rparr>)
     \<lparr>pd_adapter = opensearch_adapter (\<lambda>_. []) engine_transport, pd_page_size = 10, pd_cleanup_lease = seconds 60,
      pd_embedding = \<lparr>es_provider = ''fastembed'', es_model_name = ''m'', es_model_version = ''1'', es_dimensions = 1, es_batch_size = 16\<rparr>,
      pd_provider = sample_provider, pd_model = (\<lambda>_. []), pd_vector_checksum = (\<lambda>_. ''h''), pd_spans = sample_spans,
      pd_text_sha256 = (\<lambda>_. ''h''), pd_uuid5 = (\<lambda>_ _. 7), pd_dump_chunk = sample_chunk_dump,
      pd_validate_chunk = (\<lambda>_. Inr stored_chunk), pd_validate_embedded = sample_validate_embedded, pd_text_of = (\<lambda>_. [])\<rparr>"

definition index_claim :: ClaimedPublicationJob where
  "index_claim = sample_index_claim 1\<lparr>cp_chunk_generator_version := Some ''v1'', cp_chunk_checksum_sha256 := Some (sample_digest []),
     cp_embedding_generator_version := Some ''v1'', cp_embedding_checksum_sha256 := Some (sample_digest [])\<rparr>"

definition first_session :: session where
  "first_session = indexing_session 1\<lparr>db_publications := []\<rparr>"

definition index_world :: "(engine, memory, string list) world" where
  "index_world = \<lparr>w_db = first_session, w_search = None, w_objects = ((\<lambda>_. Some ([], [])), []), w_broker = []\<rparr>"

lemma index_deps_fields [simp]:
  "dp_workers index_deps = sample_workers" "dp_env index_deps = id" "dp_client index_deps = memory_client"
  "dp_decode index_deps = (\<lambda>_. Inr index_lines)" "dp_policy index_deps = sample_policy"
  "dp_sha256 index_deps = sample_digest" "dp_bucket index_deps = ''b''" "dp_storage index_deps = sample_settings"
  "dp_encode index_deps = (\<lambda>_. [1])"
  "pd_adapter index_deps = opensearch_adapter (\<lambda>_. []) engine_transport" "pd_page_size index_deps = 10"
  "pd_validate_chunk index_deps = (\<lambda>_. Inr stored_chunk)" "pd_validate_embedded index_deps = sample_validate_embedded"
  "pd_text_of index_deps = (\<lambda>_. [])" "pd_cleanup_lease index_deps = seconds 60" "es_batch_size (pd_embedding index_deps) = 16"
  by (simp_all add: index_deps_def sample_deps_def worker_deps.defs)

lemma index_claim_fields [simp]:
  "cl_tenant_id index_claim = 1" "cl_collection_id index_claim = 2" "cl_document_version_id index_claim = 4"
  "cl_id index_claim = 94" "cl_attempt_number index_claim = 1" "cl_max_attempts index_claim = 3"
  "cp_chunk_generator_version index_claim = Some ''v1''" "cp_chunk_checksum_sha256 index_claim = Some (sample_digest [])"
  "cp_embedding_generator_version index_claim = Some ''v1''" "cp_embedding_checksum_sha256 index_claim = Some (sample_digest [])"
  by (simp_all add: index_claim_def index_samples)

lemma index_chunks: "iter_chunk_manifest (\<lambda>_. Inr stored_chunk) index_lines 1 4 = ([stored_chunk], None)"
proof -
  have "cr_ordinal stored_chunk = 0" by (simp add: stored_chunk_def)
  then show ?thesis
    by (simp add: iter_chunk_manifest_def iter_manifest_def index_lines_def manifest_record_def chunk_line_def gen_cons_def)
qed

lemma index_embeddings: "load_embeddings sample_validate_embedded index_lines 1 4 10
    = Inr [(7, \<lparr>ec_chunk_id = 7, ec_vector = [1], ec_checksum_sha256 = ''h''\<rparr>)]"
  by (simp add: load_embeddings_def index_lines_def chunk_line_def embedding_body_def dict_put_def)

definition index_publications :: "string \<Rightarrow> PublicationRecord list" where
  "index_publications i =
     [\<lparr>pb_chunk_id = 7, pb_publication_kind = ''lexical'', pb_external_record_id = i @ '':lexical''\<rparr>,
      \<lparr>pb_chunk_id = 7, pb_publication_kind = ''vector'', pb_external_record_id = i @ '':vector''\<rparr>]"

lemma index_published: "\<exists>i manifest x1. iter_publication_manifest (\<lambda>_. []) manifest 1 4 = (index_publications i, None)
    \<and> publish_all index_deps index_claim
    [(7, \<lparr>ec_chunk_id = 7, ec_vector = [1], ec_checksum_sha256 = ''h''\<rparr>)] ([stored_chunk], None) None = (Inr (manifest, 2), x1)"
proof -
  have c: "cr_chunk_id stored_chunk = 7" by (simp add: stored_chunk_def)
  let ?r = "search_record index_deps index_claim stored_chunk \<lparr>ec_chunk_id = 7, ec_vector = [1], ec_checksum_sha256 = ''h''\<rparr>"
  obtain i where i: "external_record_id ?r = Inr i" by (simp add: external_record_id_def search_record_def)
  let ?ps = "index_publications i"
  have "\<exists>x1. publish_records (\<lambda>_. []) engine_transport [?r] None = (Inr ?ps, x1)"
    by (simp add: publish_records_def ensure_index_def bind_io_def raw_request_def checked_request_def engine_transport_def
        engine_client_def answer_def return_io_def lift_res_def bulk_lines_def i record_source_def verify_batch_def
        engine_mget_def engine_docs_def verify_document_def identity_fields_def same_identity_def record_identity_def
        record_publications_def Let_def dict_put_def index_body_def index_publications_def)
      (simp add: search_record_def c)
  then obtain x1 where r: "publish_records (\<lambda>_. []) engine_transport [?r] None = (Inr ?ps, x1)" by blast
  let ?w = "fold write_publication ?ps (publication_writer 1 4 ''rag'' ''v1'')"
  obtain manifest n where f: "finish_publications ?w = (manifest, n)" by (metis surj_pair)
  note m = publication_manifest_roundtrip [OF f, of "\<lambda>_. []"]
  have "publish_all index_deps index_claim [(7, \<lparr>ec_chunk_id = 7, ec_vector = [1], ec_checksum_sha256 = ''h''\<rparr>)]
      ([stored_chunk], None) None = (Inr (manifest, n), x1)"
    using r f by (simp add: publish_all_def c Let_def bind_io_def return_io_def engine_transport_def)
  moreover have "n = 2" using m by (simp add: index_publications_def)
  ultimately show ?thesis using m by blast
qed

definition rag_target :: SearchTarget where
  "rag_target = \<lparr>st_name = ''rag'', st_version = ''v1''\<rparr>"

lemma rag_target: "new_search_target ''rag'' ''v1'' = Inr rag_target"
  by (simp add: new_search_target_def search_target_name_ok_def lower_alnum_def rag_target_def)

definition begun_session :: session where
  "begun_session = first_session\<lparr>db_jobs := [index_job 1\<lparr>ij_publication_target_name := Some ''rag'',
     ij_publication_target_version := Some ''v1'', ij_publication_target_attempt := Some 1, ij_updated_at := 10\<rparr>]\<rparr>"

lemma index_begun: "begin_index_attempt index_claim ''w1'' rag_target u first_session = Inr begun_session"
  by (simp add: begin_index_attempt_def foreign_publication_def publication_group_def distinct_chunk_count_def
      new_publication_def new_search_target_def search_target_name_ok_def lower_alnum_def new_target_publication_def dict_put_def
      retire_prior_def enqueue_all_def enqueue_cleanup_def insert_search_cleanup_def cleanup_checks_def paired_attempt_def
      cleanup_target_key_def cleanup_scope_def job_ref_ok_def update_publications_def publication_checks_def not_before_def
      publication_unique_checks_def publication_external_key_def commit_eval index_samples index_claim_def rag_target_def begun_session_def first_session_def)

lemma index_no_cleanup: "claim_cleanup ''w1'' (seconds 60) 3 (Some 4) None begun_session = Inr (None, begun_session)"
  by (simp add: claim_cleanup_def fail_exhausted_def lease_cleanup_def first_cleanup_def update_search_cleanup_def
      begun_session_def first_session_def index_samples)

lemma index_no_activation: "pending_activations 10 (Some 4) None begun_session = Inr []"
  by (simp add: pending_activations_def activation_groups_def activation_ready_def begun_session_def first_session_def index_samples)

lemma index_cleanup_done: "index_cleanup_complete index_claim begun_session"
  by (simp add: index_cleanup_complete_def begun_session_def first_session_def index_samples)

lemma digest_not_sha: "sample_digest c \<noteq> sample_sha"
  by (simp add: sample_digest_def sample_sha_def numeral_eq_Suc)

definition index_artifact_at :: "string \<Rightarrow> PublishedArtifact" where
  "index_artifact_at k = \<lparr>pa_artifact_type = AT_INDEX_MANIFEST, pa_object_key = ''rag/'' @ k, pa_generator_name = ''opensearch'',
     pa_generator_version = ''v1'', pa_checksum_sha256 = sample_digest [1], pa_size_bytes = 1\<rparr>"

definition rag_publication :: "PublicationKind \<Rightarrow> uuid \<Rightarrow> string \<Rightarrow> publication_row" where
  "rag_publication kind i e = (sample_publication kind i e)\<lparr>ip_target_name := ''rag'', ip_published_at := 10, ip_deleted_at := None,
     ip_publication_job_id := Some 94, ip_publication_attempt := Some 1, ip_activated_at := None\<rparr>"

definition prepared_session :: "string \<Rightarrow> string \<Rightarrow> session" where
  "prepared_session k e = begun_session\<lparr>
     db_artifacts := db_artifacts begun_session @ [derived_row index_claim (index_artifact_at k) (Some 73) (Some rag_target) 120 10],
     db_publications := db_publications begun_session
       @ [rag_publication PK_LEXICAL 121 (e @ '':lexical''), rag_publication PK_VECTOR 122 (e @ '':vector'')]\<rparr>"

lemma index_prepared:
  "\<exists>prepared. prepare_index index_claim ''w1'' (index_artifact_at k) ''rag'' ''v1'' (index_publications e, None)
     (\<lambda>n. word_of_nat (n + 120)) begun_session = Inr (prepared, prepared_session k e)"
proof -
  have d: "is_sha256 (sample_digest [1])" "sample_digest [1] \<noteq> sample_sha"
    by (simp_all add: is_sha256_digest digest_not_sha)
  show ?thesis
  by (simp add: prepare_index_def rag_target record_publication_def publication_kind.simps chunk_artifact_id_def
      require_publication_evidence_def upsert_publication_def publication_target_key_def publication_unique_checks_def
      publication_external_key_def publication_kind_key_def publication_checks_def chunk_exists_def job_ref_ok_def
      paired_attempt_def not_before_def index_publications_def index_artifact_at_def rag_publication_def prepared_session_def
      publication_group_def manifest_for_def d
      rag_target_def begun_session_def first_session_def index_claim_def commit_eval index_samples Let_def)
qed

lemma index_activated_run:
  "\<exists>s'. activation_transaction index_claim ''w1'' rag_target 1 (\<lambda>n. word_of_nat (n + 140)) (prepared_session k e) = Inr ([], s')"
  by (simp add: activation_transaction_def lock_index_for_activation_def finalize_index_def enqueue_all_def
      require_publication_evidence_def publication_group_def is_complete_def manifest_for_def finish_lifecycle_request_def
      enforce_ready_publication_def ready_publication_ok_def chunk_embedded_def distinct_chunks_def
      prepared_session_def index_artifact_at_def rag_publication_def rag_target_def begun_session_def first_session_def index_claim_def
      commit_eval index_samples)

lemma sample_digest_nonempty: "sample_digest c \<noteq> []"
  by (simp add: sample_digest_def)

lemma index_reference:
  "\<exists>k m. artifact_reference sample_settings 1 4 kind ''v1'' (sample_digest c)
     = Inr \<lparr>or_key = ''rag/'' @ k, or_checksum_sha256 = sample_digest c, or_metadata = m\<rparr>"
proof -
  obtain h where "checksum_header_value (sample_digest c) = Inr h" using digest_header by blast
  then show ?thesis by (simp add: artifact_reference_def version_prefix_def sample_settings_def)
qed

lemma index_download:
  assumes "w_objects w = ((\<lambda>_. Some ([], [])), [])"
  shows "download_manifest index_deps index_claim kind (Some ''v1'') (Some (sample_digest [])) m w = (Inr [], w)"
proof -
  obtain k md where r: "artifact_reference sample_settings 1 4 kind ''v1'' (sample_digest [])
     = Inr \<lparr>or_key = ''rag/'' @ k, or_checksum_sha256 = sample_digest [], or_metadata = md\<rparr>"
    using index_reference by blast
  show ?thesis
    by (cases w) (use assms in \<open>simp add: download_manifest_def truthy_option_def sample_digest_nonempty bind_io_def lift_res_def r
        on_objects_def download_object_def memory_client_def download_loop.simps return_io_def sample_policy_def\<close>)
qed

lemma index_upload:
  assumes "w_objects w = ((\<lambda>_. Some ([], [])), [])"
  shows "\<exists>k y. upload_manifest index_deps index_claim [1] INDEX_MANIFEST ''opensearch'' ''v1'' w
    = (Inr (index_artifact_at k), w\<lparr>w_objects := y\<rparr>)"
proof -
  obtain k md where r: "artifact_reference sample_settings 1 4 INDEX_MANIFEST ''v1'' (sample_digest [1])
     = Inr \<lparr>or_key = ''rag/'' @ k, or_checksum_sha256 = sample_digest [1], or_metadata = md\<rparr>"
    using index_reference by blast
  obtain h where h: "checksum_header_value (sample_digest [1]) = Inr h" using digest_header by blast
  show ?thesis
    using assms by (intro exI) (simp add: upload_manifest_def publish_file_def Let_def bind_io_def lift_res_def r on_objects_def
        upload_file_def upload_object_def verify_object_def h memory_client_def return_io_def same_dict_def sample_policy_def
        index_artifact_at_def presign_parameters_def)
qed

lemma index_recovery:
  assumes "w_db w = begun_session"
  shows "recover_once index_deps 10 ''w1'' (Some 4) w = (Inr (0, 0), w)"
proof -
  have "transaction (claim_cleanup ''w1'' (seconds 60) 3 (Some 4) None) begun_session = (Inr None, begun_session)"
    using index_no_cleanup by (simp add: transaction_def)
  moreover have "transaction (\<lambda>s. bind_res (pending_activations 10 (Some 4) None s) (\<lambda>as. Inr (as, s))) begun_session
      = (Inr [], begun_session)"
    using index_no_activation by (simp add: transaction_def)
  moreover have "cleanup_loop adapter id ''w1'' (seconds 60) 3 (Some 4) None 10 0 begun_session x = (Inr 0, begun_session, x)"
    for adapter :: "engine search_adapter" and x using calculation(1) by (simp add: numeral_eq_Suc)
  ultimately show ?thesis
    using assms by (cases w) (simp add: recover_once_def run_once_def sample_workers_def)
qed

lemma index_finish:
  assumes "w_db w = begun_session" and "iter_publication_manifest (\<lambda>_. []) manifest 1 4 = (index_publications e, None)"
  shows "\<exists>w'. prepare_and_activate index_deps index_claim ''w1'' (index_artifact_at k) manifest 1
      (\<lambda>j n. word_of_nat (n + 100 + 20 * j)) w = (Inr (), w')"
proof -
  obtain prepared where p: "prepare_index index_claim ''w1'' (index_artifact_at k) ''rag'' ''v1'' (index_publications e, None)
     (\<lambda>n. word_of_nat (n + 120)) begun_session = Inr (prepared, prepared_session k e)"
    using index_prepared by blast
  obtain s' where a: "activation_transaction index_claim ''w1'' rag_target 1 (\<lambda>n. word_of_nat (n + 140)) (prepared_session k e)
      = Inr ([], s')" using index_activated_run by blast
  have "\<exists>s x. activate adapter id ''rag'' ''v1'' 10 l 3 index_claim ''w1'' 1 (\<lambda>n. word_of_nat (n + 140)) (prepared_session k e) y
      = (Inr [], s, x)" for adapter :: "engine search_adapter" and l y
    using a by (simp add: activate_def rag_target transaction_def split: prod.splits)
  then obtain s x where act: "activate (search_adapter.truncate (pd_adapter index_deps)) id ''rag'' ''v1'' 10
      (pd_cleanup_lease index_deps) 3 index_claim ''w1'' 1 (\<lambda>n. word_of_nat (n + 140)) (prepared_session k e) (w_search w)
      = (Inr [], s, x)" by blast
  have tx: "in_transaction id (prepare_index index_claim ''w1'' (index_artifact_at k) ''rag'' ''v1'' (index_publications e, None)
     (\<lambda>n. word_of_nat (n + 120))) w = (Inr prepared, w\<lparr>w_db := prepared_session k e\<rparr>)"
    using p assms(1) by (simp add: in_transaction_Inr)
  have t: "ot_target_name engine_transport = ''rag''" "ot_target_version engine_transport = ''v1''"
    by (simp_all add: engine_transport_def)
  show ?thesis
    unfolding prepare_and_activate_def
    using tx act assms(2) by (simp add: bind_io_def catch_io_def return_io_def activate_index_def t sample_workers_def add_ac)
qed

lemma index_run_succeeds:
  "\<exists>w'. publish_index index_deps index_claim ''w1'' (\<lambda>j n. word_of_nat (n + 100 + 20 * j)) index_world = (Inr (), w')"
proof -
  obtain e manifest x1 where m: "iter_publication_manifest (\<lambda>_. []) manifest 1 4 = (index_publications e, None)"
    and all: "publish_all index_deps index_claim [(7, \<lparr>ec_chunk_id = 7, ec_vector = [1], ec_checksum_sha256 = ''h''\<rparr>)]
      ([stored_chunk], None) None = (Inr (manifest, 2), x1)" using index_published by blast
  let ?w1 = "index_world\<lparr>w_db := begun_session\<rparr>"
  let ?w2 = "?w1\<lparr>w_search := x1\<rparr>"
  have o: "w_objects index_world = ((\<lambda>_. Some ([], [])), [])" by (simp add: index_world_def)
  obtain k y where up: "upload_manifest index_deps index_claim [1] INDEX_MANIFEST ''opensearch'' ''v1'' ?w2
    = (Inr (index_artifact_at k), ?w2\<lparr>w_objects := y\<rparr>)"
    using index_upload [of ?w2] o by auto
  obtain w' where fin: "prepare_and_activate index_deps index_claim ''w1'' (index_artifact_at k) manifest 1
      (\<lambda>j n. word_of_nat (n + 100 + 20 * j)) (?w2\<lparr>w_objects := y\<rparr>) = (Inr (), w')"
    using index_finish [OF _ m, of "?w2\<lparr>w_objects := y\<rparr>"] by auto
  have t: "ot_target_name engine_transport = ''rag''" "ot_target_version engine_transport = ''v1''"
    by (simp_all add: engine_transport_def)
  have begun: "in_unit_transaction id (begin_index_attempt index_claim ''w1'' rag_target (\<lambda>n. word_of_nat (n + 100))) index_world
      = (Inr (), ?w1)"
    using index_begun by (simp add: in_unit_transaction_Inr index_world_def)
  have clean: "in_transaction id (\<lambda>s. Inr (index_cleanup_complete index_claim s, s)) ?w1 = (Inr True, ?w1)"
    using index_cleanup_done by (simp add: in_transaction_Inr)
  have search: "on_search (publish_all index_deps index_claim [(7, \<lparr>ec_chunk_id = 7, ec_vector = [1], ec_checksum_sha256 = ''h''\<rparr>)]
      ([stored_chunk], None)) ?w1 = (Inr (manifest, 2), ?w2)"
    using all by (simp add: on_search_def index_world_def)
  have max: "po_max_chunks sample_policy = 10" by (simp add: sample_policy_def)
  show ?thesis
    unfolding publish_index_def download_chunk_manifest_def download_embedding_manifest_def
    using begun clean search up fin index_recovery [of ?w1]
    by (simp add: bind_io_def lift_res_def index_download [OF o] index_embeddings index_chunks rag_target t max)
qed

theorem index_stage_complete_witness:
  "\<exists>w' publications artifact w1 s1 prepared s2 targets.
      publish_index index_deps index_claim ''w1'' (\<lambda>j n. word_of_nat (n + 100 + 20 * j)) index_world = (Inr (), w')
      \<and> map pb_chunk_id publications = [7, 7] \<and> map pb_publication_kind publications = [''lexical'', ''vector'']
      \<and> prepare_index index_claim ''w1'' artifact ''rag'' ''v1'' (publications, None) (\<lambda>n. word_of_nat (n + 120)) s1
          = Inr (prepared, s2)
      \<and> activate_index index_deps index_claim ''w1'' 1 (\<lambda>n. word_of_nat (n + 140)) (w1\<lparr>w_db := s2\<rparr>) = (Inr targets, w')"
proof -
  obtain w' where r: "publish_index index_deps index_claim ''w1'' (\<lambda>j n. word_of_nat (n + 100 + 20 * j)) index_world = (Inr (), w')"
    using index_run_succeeds by blast
  have t: "ot_target_name engine_transport = ''rag''" "ot_target_version engine_transport = ''v1''"
    by (simp_all add: engine_transport_def)
  have u: "(\<lambda>n. word_of_nat (n + 100 + 20 * 1)) = (\<lambda>n. word_of_nat (n + 120) :: uuid)"
    "(\<lambda>n. word_of_nat (n + 100 + 20 * 2)) = (\<lambda>n. word_of_nat (n + 140) :: uuid)" by (simp_all add: add_ac)
  have a: "pd_adapter index_deps = opensearch_adapter (pd_text_of index_deps) engine_transport" by simp
  have c: "cr_chunk_id stored_chunk = 7" by (simp add: stored_chunk_def)
  from index_stage_complete [OF a r, unfolded u index_deps_fields index_claim_fields t]
  obtain chunk_lines chunks s1 publications artifact w1 prepared s2 targets where
    "Inr index_lines = (Inr chunk_lines :: json list res)" "iter_chunk_manifest (\<lambda>_. Inr stored_chunk) chunk_lines 1 4 = (chunks, None)"
    and pub: "map pb_chunk_id publications = concat (map (\<lambda>c. [cr_chunk_id c, cr_chunk_id c]) chunks)"
      "map pb_publication_kind publications = concat (map (\<lambda>c. [''lexical'', ''vector'']) chunks)"
    and run: "prepare_index index_claim ''w1'' artifact ''rag'' ''v1'' (publications, None) (\<lambda>n. word_of_nat (n + 120)) (id s1)
        = Inr (prepared, s2)"
      "activate_index index_deps index_claim ''w1'' (int (length chunks)) (\<lambda>n. word_of_nat (n + 140)) (w1\<lparr>w_db := s2\<rparr>) = (Inr targets, w')"
    by (elim exE conjE) (rule that)
  then have "chunks = [stored_chunk]" using index_chunks by simp
  with r pub run c show ?thesis by (intro exI conjI) (rule r, simp_all)
qed

section \<open>A corrupt normalized artifact\<close>

definition corrupt_world :: "(engine, memory, string list) world" where
  "corrupt_world = \<lparr>w_db = chunking_session, w_search = None, w_objects = ((\<lambda>_. Some ([7], [])), []), w_broker = []\<rparr>"

definition chunk_draws :: "nat \<Rightarrow> nat \<Rightarrow> uuid" where
  "chunk_draws k n = word_of_nat (n + 91 + 20 * k)"

definition chunk_payload :: IngestionJobPayload where
  "chunk_payload = \<lparr>jp_tenant_id = 1, jp_document_version_id = 4, jp_job_id = 90\<rparr>"

lemma chunk_claimed:
  "staged_claim index_deps chunk_payload ST_CHUNK ''w1'' (chunk_draws 0) corrupt_world
     = (Inr (Some sample_chunk_claim, None), corrupt_world\<lparr>w_db := chunking_leased_session\<rparr>)"
proof -
  have u: "chunk_draws 0 = (\<lambda>n. word_of_nat (n + 91))" by (simp add: chunk_draws_def fun_eq_iff)
  have c: "claim_or_successor (publication_claim 1 4 90 ''w1'' (seconds 60) (chunk_draws 0)) chunk_payload chunking_session
     = Inr ((Some sample_chunk_claim, None), chunking_leased_session)"
    unfolding u claim_or_successor_def sample_publication_claim by simp
  have t: "in_transaction id (claim_or_successor (publication_claim 1 4 90 ''w1'' (seconds 60) (chunk_draws 0)) chunk_payload) corrupt_world
     = (Inr (Some sample_chunk_claim, None), corrupt_world\<lparr>w_db := chunking_leased_session\<rparr>)"
    unfolding in_transaction_Inr using c by (simp add: corrupt_world_def)
  have s: "cp_stage sample_chunk_claim = ST_CHUNK"
    by (simp add: sample_chunk_claim_def ClaimedNativeJob.extend_def ClaimedPublicationJob.fields_def)
  have w: "ws_publication_timeout_seconds sample_workers + 30 = 60" by (simp add: sample_workers_def)
  show ?thesis
    using t by (simp add: staged_claim_def chunk_payload_def bind_io_def return_io_def w s)
qed


lemma chunk_corrupt:
  "\<exists>w2. run_stage index_deps sample_chunk_claim ''w1'' u (corrupt_world\<lparr>w_db := chunking_leased_session\<rparr>)
     = (Inl (StorageIntegrityError ''downloaded object checksum does not match''), w2) \<and> w_db w2 = chunking_leased_session"
proof -
  obtain h where h: "checksum_header_value sample_sha = Inr h" using sha_header by blast
  have c: "cp_stage sample_chunk_claim = ST_CHUNK" "cl_tenant_id sample_chunk_claim = 1"
    "cp_normalized_document_version_id sample_chunk_claim = 4" "cp_normalized_generator_version sample_chunk_claim = ''v1''"
    "cp_normalized_checksum_sha256 sample_chunk_claim = sample_sha"
    by (simp_all add: sample_chunk_claim_def sample_claim_def ClaimedNativeJob.extend_def ClaimedPublicationJob.fields_def)
  have "\<exists>k md. artifact_reference sample_settings 1 4 NORMALIZED_DOCUMENT ''v1'' sample_sha
     = Inr \<lparr>or_key = k, or_checksum_sha256 = sample_sha, or_metadata = md\<rparr>"
    using h by (simp add: artifact_reference_def version_prefix_def sample_settings_def)
  then obtain k md where r: "artifact_reference sample_settings 1 4 NORMALIZED_DOCUMENT ''v1'' sample_sha
     = Inr \<lparr>or_key = k, or_checksum_sha256 = sample_sha, or_metadata = md\<rparr>" by blast
  show ?thesis
    by (simp add: run_stage_def chunk_stage_def c r bind_io_def lift_res_def on_objects_def download_object_def
        memory_client_def download_loop.simps corrupt_world_def sample_policy_def digest_not_sha)
qed

lemma chunk_failed:
  "\<exists>s. fail_permanently sample_chunk_claim ''w1'' FAILED ''PUBLICATION_INPUT_INVALID'' [] (chunk_draws 1) chunking_leased_session = Inr s"
  by (simp add: fail_permanently_def locked_job_version_def owns_attempt_def finish_lifecycle_request_def
      finish_attempt_def close_attempts_def close_job_def worker_eval chunk_draws_def
      new_job_def original_pdf_artifact_def claim_event_def attempt_event_def chunking_samples)

theorem publication_error_outcomes_witness:
  "\<exists>w2 s. run_stage index_deps sample_chunk_claim ''w1'' (\<lambda>k. chunk_draws (k + 2)) (corrupt_world\<lparr>w_db := chunking_leased_session\<rparr>)
       = (Inl (StorageIntegrityError ''downloaded object checksum does not match''), w2)
     \<and> fail_permanently sample_chunk_claim ''w1'' FAILED ''PUBLICATION_INPUT_INVALID'' [] (chunk_draws 1) chunking_leased_session = Inr s
     \<and> publication_process index_deps chunk_payload ST_CHUNK ''w1'' chunk_draws corrupt_world = (Inr (), w2\<lparr>w_db := s\<rparr>)"
proof -
  let ?w1 = "corrupt_world\<lparr>w_db := chunking_leased_session\<rparr>"
  obtain w2 where r: "run_stage index_deps sample_chunk_claim ''w1'' (\<lambda>k. chunk_draws (k + 2)) ?w1
      = (Inl (StorageIntegrityError ''downloaded object checksum does not match''), w2)" and db: "w_db w2 = chunking_leased_session"
    using chunk_corrupt by blast
  obtain q w' where p: "publication_process index_deps chunk_payload ST_CHUNK ''w1'' chunk_draws corrupt_world = (q, w')"
    by (metis surj_pair)
  have d: "new_worker_settings (dp_workers index_deps) = Inr (dp_workers index_deps)"
    by (simp add: sample_workers_ok)
  obtain s where f: "fail_permanently sample_chunk_claim ''w1'' FAILED ''PUBLICATION_INPUT_INVALID'' [] (chunk_draws 1)
      chunking_leased_session = Inr s" using chunk_failed by blast
  note o = publication_error_outcomes [OF p d chunk_claimed r, THEN conjunct2, THEN conjunct1]
  have "q = Inr () \<and> w' = w2\<lparr>w_db := s\<rparr>"
    using o f by (auto simp: db)
  with r f p show ?thesis by blast
qed

end
