(* ===== verification/Pipeline_Order.thy ===== *)
theory Pipeline_Order
  imports Publication_Service
begin

text \<open>
  The order of the pipeline. The stages of \<open>ingestion_jobs\<close> are ordered as the enumeration lists them;
  every commit of a worker and every look-up of a waiting successor names a job of a strictly later stage,
  so that a version is handed over at most as often as there are stages, and the service that hands the
  job on has a task for its stage.
\<close>

section \<open>Stages in pipeline order\<close>

primrec stage_rank :: "IngestionStage \<Rightarrow> nat" where
  "stage_rank ST_INTAKE = 0"
| "stage_rank ST_PREFLIGHT = 1"
| "stage_rank ST_NATIVE_PARSE = 2"
| "stage_rank ST_OCR = 3"
| "stage_rank ST_NORMALIZE = 4"
| "stage_rank ST_CHUNK = 5"
| "stage_rank ST_EMBED = 6"
| "stage_rank ST_INDEX = 7"
| "stage_rank ST_DELETE = 8"
| "stage_rank ST_REPROCESS = 9"

lemma stage_rank_inject: "stage_rank a = stage_rank b \<longleftrightarrow> a = b"
  by (cases a; cases b) simp_all

instantiation IngestionStage :: linorder
begin

definition less_eq_IngestionStage :: "IngestionStage \<Rightarrow> IngestionStage \<Rightarrow> bool" where
  "less_eq_IngestionStage a b \<longleftrightarrow> stage_rank a \<le> stage_rank b"

definition less_IngestionStage :: "IngestionStage \<Rightarrow> IngestionStage \<Rightarrow> bool" where
  "less_IngestionStage a b \<longleftrightarrow> stage_rank a < stage_rank b"

instance
  by standard (auto simp: less_eq_IngestionStage_def less_IngestionStage_def stage_rank_inject)

end

lemmas stage_order = less_eq_IngestionStage_def less_IngestionStage_def

section \<open>Every hand-over moves on\<close>

lemma native_successor_routed:
  assumes "native_succeed job worker_id route page_count artifacts max_attempts u s = Inr (n, s')"
  shows "ST_PREFLIGHT < nj_stage n \<and> (\<exists>x. native_routes (nj_stage n) = Inr x)"
proof -
  from assms have "nj_stage n = ST_CHUNK \<or> nj_stage n = ST_OCR"
    unfolding native_succeed_def by (auto elim!: bind_res_InrE split: if_splits)
  then show ?thesis by (auto simp: stage_order)
qed

lemma ocr_successor_routed:
  assumes "succeed_ocr job worker_id artifacts max_attempts u s = Inr (n, s')"
  shows "ST_OCR < nj_stage n \<and> ocr_routes (nj_stage n) = Inr (CHUNK_PROCESS, ''CHUNK_DISPATCH_UNAVAILABLE'')
    \<and> nj_stage n = ST_CHUNK"
  using assms unfolding succeed_ocr_def by (auto simp: stage_order elim!: bind_res_InrE)

lemma chunk_successor_routed:
  assumes "succeed_chunk job worker_id artifact chunks max_attempts u s = Inr (n, s')"
  shows "ST_CHUNK < nj_stage n \<and> (\<exists>x. publication_routes (nj_stage n) = Inr x)"
  using assms unfolding succeed_chunk_def by (auto simp: stage_order elim!: bind_res_InrE split: if_splits)

lemma embedding_successor_routed:
  assumes "succeed_embedding job worker_id artifact key provider model version dims embeddings max_attempts u s = Inr (n, s')"
  shows "ST_EMBED < nj_stage n \<and> (\<exists>x. publication_routes (nj_stage n) = Inr x)"
  using assms unfolding succeed_embedding_def by (auto simp: stage_order elim!: bind_res_InrE split: if_splits)

lemma scalar_sort_key_in: "scalar (sort_key f xs) = Some x \<Longrightarrow> x \<in> set xs"
  by (metis list.set_intros(1) scalar_eq_Some set_sort)

text \<open>The successor a repeated delivery finds is later than its predecessor as well.\<close>

lemma pending_successor_later:
  assumes "pending_successor t v i s = Some n"
  shows "\<exists>p \<in> set (db_jobs s). ij_id p = i \<and> ij_state p = JS_SUCCEEDED \<and> ij_stage p < nj_stage n"
proof -
  have later: "successor_stage a b \<Longrightarrow> a < b" for a b
    by (cases a; cases b) (simp_all add: successor_stage_def stage_order)
  from assms have "\<exists>p \<in> set (db_jobs s). ij_id p = i \<and> ij_state p = JS_SUCCEEDED \<and> successor_stage (ij_stage p) (nj_stage n)"
    unfolding pending_successor_def by (auto dest!: scalar_sort_key_in simp del: scalar_eq_Some)
  with later show ?thesis by blast
qed

end
