(* ===== verification/Catalog_Service.thy ===== *)
theory Catalog_Service
  imports Native_Service Reconciliation
begin

text \<open>
  \<open>catalog/service.py\<close>: the methods the API calls. Each runs its repository operations in transactions of
  their own, and talks to the object store and the broker between them. A page cursor is the pair it
  encodes; what its text form adds is left out. The dispatcher of the file is in \<open>Native_Service\<close>.
\<close>

section \<open>Collections\<close>

text \<open>\<open>datetime.min\<close> in microseconds.\<close>

definition datetime_min :: timestamp where
  "datetime_min = - seconds 62135596800"

definition create_collection_request ::
  "('y, 'd, 'z) worker_deps_scheme \<Rightarrow> Principal \<Rightarrow> collection_values \<Rightarrow> (nat \<Rightarrow> uuid)
   \<Rightarrow> (collection_row, ('x, 'y, 'd) world) io" where
  "create_collection_request deps prin values u =
     catch_io (in_transaction (dp_env deps) (create_collection prin values (po_upload_max_bytes (dp_policy deps)) u))
       (\<lambda>error. if is_IntegrityError error then raise_io (CatalogConflictError ''collection name already exists'')
         else raise_io error)"

definition collection_page :: "nat \<Rightarrow> collection_row list \<Rightarrow> collection_row list \<times> (timestamp \<times> uuid) option" where
  "collection_page limit rows =
     (let has_more = length rows > limit; page = take limit rows
      in (page, if has_more \<and> page \<noteq> [] then Some (co_created_at (last page), co_id (last page)) else None))"

definition list_collections_request ::
  "('y, 'd, 'z) worker_deps_scheme \<Rightarrow> Principal \<Rightarrow> nat \<Rightarrow> (timestamp \<times> uuid) option
   \<Rightarrow> (collection_row list \<times> (timestamp \<times> uuid) option, ('x, 'y, 'd) world) io" where
  "list_collections_request deps prin limit cursor =
     bind_io (in_transaction (dp_env deps) (\<lambda>s. Inr (list_collections prin limit cursor datetime_min s, s)))
       (\<lambda>rows. return_io (collection_page limit rows))"

definition get_collection_request ::
  "('y, 'd, 'z) worker_deps_scheme \<Rightarrow> Principal \<Rightarrow> uuid \<Rightarrow> (collection_row, ('x, 'y, 'd) world) io" where
  "get_collection_request deps prin collection_id =
     in_transaction (dp_env deps) (\<lambda>s. bind_res (get_collection prin collection_id False s) (\<lambda>(row, _). Inr (row, s)))"

section \<open>Registration\<close>




section \<open>Dispatch\<close>

definition dispatch_request ::
  "('y, 'd, 'z) worker_deps_scheme \<Rightarrow> PipelineTask \<Rightarrow> uuid \<Rightarrow> uuid \<Rightarrow> uuid \<Rightarrow> (unit, ('x, 'y, 'd) world) io" where
  "dispatch_request deps task tenant_id version_id job_id =
     catch_io (on_broker (dp_dispatch deps task tenant_id version_id job_id))
       (\<lambda>_. raise_io (CatalogDependencyError ''job dispatch is temporarily unavailable''))"

section \<open>Completion of an upload\<close>

record UploadCompletionResponse =
  uc_document_version_id :: uuid
  uc_job_id :: "uuid option"
  uc_state :: VersionState
  uc_reason_code :: "string option"

definition completion_response :: "version_row \<Rightarrow> uuid option \<Rightarrow> UploadCompletionResponse" where
  "completion_response version job_id =
     \<lparr>uc_document_version_id = dv_id version, uc_job_id = job_id, uc_state = dv_state version,
      uc_reason_code = dv_terminal_reason_code version\<rparr>"

definition pdf_magic :: bytes where
  "pdf_magic = [37, 80, 68, 70, 45]"

text \<open>The clauses \<open>except StorageIntegrityError\<close> and \<open>except (BotoCoreError, ClientError)\<close>; \<open>content_type\<close> is what
  the variable holds when the error is raised.\<close>

definition upload_refused ::
  "string \<Rightarrow> py_error \<Rightarrow> (bool \<times> string option \<times> string, 'w) io" where
  "upload_refused content_type error =
     (case error of
        StorageIntegrityError _ \<Rightarrow> return_io (False, Some ''UPLOAD_INTEGRITY_MISMATCH'', content_type)
      | StorageError \<Rightarrow> raise_io (CatalogDependencyError ''object storage verification failed'')
      | _ \<Rightarrow> raise_io error)"

text \<open>The checks on the stored object: whether it is valid, the reason if not, and its content type.\<close>

definition verify_upload ::
  "('y, 'd, 'z) worker_deps_scheme \<Rightarrow> ObjectReference \<Rightarrow> int
   \<Rightarrow> (bool \<times> string option \<times> string, ('x, 'y, 'd) world) io" where
  "verify_upload deps reference size_bytes =
     catch_io
       (bind_io (on_objects (verify_object (dp_client deps) (dp_bucket deps) reference size_bytes)) (\<lambda>metadata.
        let content_type = (case so_content_type metadata of Some c \<Rightarrow> c | None \<Rightarrow> [])
        in catch_io
             (bind_io (on_objects (read_prefix (dp_client deps) (dp_bucket deps) reference 5)) (\<lambda>prefix.
              return_io
                (if content_type \<notin> set (po_allowed_mime_types (dp_policy deps))
                 then (False, Some ''UPLOAD_MIME_UNSUPPORTED'', content_type)
                 else if prefix \<noteq> pdf_magic then (False, Some ''PDF_MAGIC_INVALID'', content_type)
                 else (True, None, content_type))))
             (upload_refused content_type)))
       (upload_refused ''application/pdf'')"

definition commit_completion ::
  "('y, 'd, 'z) worker_deps_scheme \<Rightarrow> Principal \<Rightarrow> uuid \<Rightarrow> bool \<times> string option \<times> string \<Rightarrow> (nat \<Rightarrow> uuid)
   \<Rightarrow> (version_row \<times> uuid option, ('x, 'y, 'd) world) io" where
  "commit_completion deps prin version_id = (\<lambda>(valid, reason_code, content_type) u.
     in_transaction (dp_env deps) (\<lambda>s.
       bind_res (complete_upload prin version_id valid reason_code content_type
         (ws_job_max_attempts (dp_workers deps)) u s) (\<lambda>(v, j, s1). Inr ((v, j), s1))))"

text \<open>The two ways the method ends: \<open>wanted\<close> says for which completed versions the job is dispatched.\<close>

definition finish_completion ::
  "('y, 'd, 'z) worker_deps_scheme \<Rightarrow> Principal \<Rightarrow> uuid \<Rightarrow> (version_row \<Rightarrow> bool) \<Rightarrow> (nat \<Rightarrow> uuid)
   \<Rightarrow> bool \<times> string option \<times> string \<Rightarrow> (UploadCompletionResponse, ('x, 'y, 'd) world) io" where
  "finish_completion deps prin version_id wanted u outcome =
     bind_io (commit_completion deps prin version_id outcome u) (\<lambda>(completed, job_id).
     bind_io (case job_id of
         Some j \<Rightarrow> if wanted completed then dispatch_request deps NATIVE_PROCESS (pr_tenant_id prin) version_id j
           else return_io ()
       | None \<Rightarrow> return_io ()) (\<lambda>_.
     return_io (completion_response completed job_id)))"

definition complete_upload_request ::
  "('y, 'd, 'z) worker_deps_scheme \<Rightarrow> Principal \<Rightarrow> uuid \<Rightarrow> (nat \<Rightarrow> uuid)
   \<Rightarrow> (UploadCompletionResponse, ('x, 'y, 'd) world) io" where
  "complete_upload_request deps prin version_id u =
     bind_io (in_transaction (dp_env deps) (\<lambda>s. bind_res (get_version prin version_id True s) (\<lambda>v. Inr (v, s)))) (\<lambda>version.
     if dv_state version \<noteq> RECEIVED
     then finish_completion deps prin version_id (\<lambda>completed. dv_state completed = QUEUED) u
            (True, None, ''application/pdf'')
     else bind_io (lift_res (original_reference (dp_storage deps) (pr_tenant_id prin) version_id
            (dv_content_sha256 version))) (\<lambda>reference.
          bind_io (verify_upload deps reference (dv_size_bytes version))
            (finish_completion deps prin version_id (\<lambda>_. True) u)))"

section \<open>Status and lifecycle requests\<close>

record DocumentVersionStatus =
  ds_status :: version_status
  ds_retry_eligible :: bool

definition status_request ::
  "('y, 'd, 'z) worker_deps_scheme \<Rightarrow> Principal \<Rightarrow> uuid \<Rightarrow> (DocumentVersionStatus, ('x, 'y, 'd) world) io" where
  "status_request deps prin version_id =
     bind_io (in_transaction (dp_env deps) (\<lambda>s. bind_res (Catalog_Repository.status prin version_id s) (\<lambda>row. Inr (row, s)))) (\<lambda>row.
     return_io \<lparr>ds_status = row, ds_retry_eligible = (dv_state (version_status.st_version row) = FAILED)\<rparr>)"

record LifecycleResponse =
  lc_operation_id :: uuid
  lc_document_version_id :: uuid
  lc_operation :: string
  lc_status :: RequestState
  lc_version_state :: VersionState

definition lifecycle_task :: "string \<Rightarrow> PipelineTask" where
  "lifecycle_task operation =
     (if operation = ''delete'' then DELETE_DOCUMENT
      else if operation = ''reprocess'' then CHUNK_PROCESS else NATIVE_PROCESS)"

definition lifecycle_operation ::
  "('y, 'd, 'z) worker_deps_scheme \<Rightarrow> Principal \<Rightarrow> uuid \<Rightarrow> string \<Rightarrow> string \<Rightarrow> string option \<Rightarrow> (nat \<Rightarrow> uuid)
   \<Rightarrow> (LifecycleResponse, ('x, 'y, 'd) world) io" where
  "lifecycle_operation deps prin version_id operation idempotency_key pipeline_profile u =
     bind_io (in_transaction (dp_env deps) (\<lambda>s.
       bind_res (lifecycle_request prin version_id operation idempotency_key (ws_job_max_attempts (dp_workers deps))
         pipeline_profile u s) (\<lambda>(request, version_state, job_id, s1). Inr ((request, version_state, job_id), s1))))
       (\<lambda>(request, version_state, job_id).
     bind_io (case job_id of
         Some j \<Rightarrow> dispatch_request deps (lifecycle_task operation) (pr_tenant_id prin) (lr_document_version_id request) j
       | None \<Rightarrow> return_io ()) (\<lambda>_.
     return_io
       \<lparr>lc_operation_id = lr_id request, lc_document_version_id = lr_document_version_id request,
        lc_operation = operation, lc_status = lr_state request, lc_version_state = version_state\<rparr>))"

section \<open>Pages\<close>

text \<open>A client that follows the cursors on an unchanged database.\<close>

fun walk_pages :: "nat \<Rightarrow> Principal \<Rightarrow> nat \<Rightarrow> (timestamp \<times> uuid) option \<Rightarrow> session \<Rightarrow> collection_row list" where
  "walk_pages 0 prin limit cursor s = []"
| "walk_pages (Suc n) prin limit cursor s =
     (case collection_page limit (list_collections prin limit cursor datetime_min s) of
        (page, None) \<Rightarrow> page
      | (page, Some c) \<Rightarrow> page @ walk_pages n prin limit (Some c) s)"

definition accessible_collections :: "Principal \<Rightarrow> session \<Rightarrow> collection_row list" where
  "accessible_collections prin s = filter (\<lambda>c. co_tenant_id c = pr_tenant_id prin \<and> may_access prin (co_id c) False s) (db_collections s)"

lemma member_rows:
  assumes "membership_keys_ok s"
  shows "concat (map (\<lambda>m. if member_of prin (pr_tenant_id prin) (co_id c) m \<and> P then [c] else []) (db_memberships s))
    = (if may_access prin (co_id c) False s \<and> P then [c] else [])"
proof -
  from member_at_most_one [OF assms, of prin "pr_tenant_id prin" "co_id c" "\<lambda>_. True"]
  have l: "length (filter (member_of prin (pr_tenant_id prin) (co_id c)) (db_memberships s)) \<le> 1" by simp
  have eq: "concat (map (\<lambda>m. if member_of prin (pr_tenant_id prin) (co_id c) m \<and> P then [c] else []) ms)
      = (if P then map (\<lambda>_. c) (filter (member_of prin (pr_tenant_id prin) (co_id c)) ms) else [])" for ms
    by (induction ms) simp_all
  from filter_at_most_one [OF l] show ?thesis
    unfolding eq by (auto simp: may_access_def list_ex_iff)
qed

lemma list_collections_rows:
  assumes "membership_keys_ok s"
  shows "list_collections prin limit cursor datetime_min s = take (limit + 1) (sort_key collection_order
    (filter (\<lambda>c. (case cursor of None \<Rightarrow> (datetime_min, 0) | Some (t, i) \<Rightarrow> (t, unat i)) < collection_order c)
      (accessible_collections prin s)))"
proof -
  obtain t i where c: "(case cursor of None \<Rightarrow> (datetime_min, 0 :: uuid) | Some c \<Rightarrow> c) = (t, i)" by fastforce
  then have c': "(case cursor of None \<Rightarrow> (datetime_min, 0) | Some (t, i) \<Rightarrow> (t, unat i)) = (t, unat i)"
    by (auto split: option.splits)
  have "concat (map (\<lambda>c. if co_tenant_id c = pr_tenant_id prin then concat (map (\<lambda>m.
        if member_of prin (co_tenant_id c) (co_id c) m then if (t, unat i) < collection_order c then [c] else [] else [])
        (db_memberships s)) else []) cs)
      = filter (\<lambda>c. (t, unat i) < collection_order c) (filter (\<lambda>c. co_tenant_id c = pr_tenant_id prin \<and> may_access prin (co_id c) False s) cs)"
    for cs
  proof (induction cs)
    case (Cons c cs)
    from member_rows [OF assms, of prin c "(t, unat i) < collection_order c"] Cons show ?case
      by (simp add: if_if_eq_conj cong: if_cong)
  qed simp
  then show ?thesis
    unfolding list_collections_def c c' accessible_collections_def by simp
qed

text \<open>The rows after the last of a page, when the rows are strictly ordered.\<close>

lemma rows_after:
  fixes f :: "'a \<Rightarrow> 'b::linorder"
  assumes "sorted (map f (xs @ ys))" and "distinct (map f (xs @ ys))" and "xs \<noteq> []"
  shows "filter (\<lambda>c. f (last xs) < f c) (xs @ ys) = ys"
proof -
  obtain zs z where xs: "xs = zs @ [z]" using assms(3) by (metis append_butlast_last_id)
  have "\<not> f z < f x" if "x \<in> set xs" for x
    using assms(1) that unfolding xs by (auto simp: sorted_append)
  moreover have "f z < f y" if "y \<in> set ys" for y
  proof -
    have "f z \<le> f y" "f z \<noteq> f y" using assms(1,2) that unfolding xs by (auto simp: sorted_append)
    then show ?thesis by simp
  qed
  moreover have "last xs = z" by (simp add: xs)
  ultimately show ?thesis by simp
qed

lemma walk_rest:
  assumes ms: "membership_keys_ok s" and "1 \<le> limit"
    and L: "L = sort_key collection_order (accessible_collections prin s)" "distinct (map collection_order L)"
  shows "L = pre @ post \<Longrightarrow> length post < n
    \<Longrightarrow> filter (\<lambda>c. (case cursor of None \<Rightarrow> (datetime_min, 0) | Some (t, i) \<Rightarrow> (t, unat i)) < collection_order c) L = post
    \<Longrightarrow> walk_pages n prin limit cursor s = post"
proof (induction n arbitrary: pre post cursor)
  case 0
  then show ?case by simp
next
  case (Suc n)
  have rows: "list_collections prin limit cursor datetime_min s = take (limit + 1) post"
    unfolding list_collections_rows [OF ms] filter_sort [symmetric] L(1) [symmetric] Suc.prems(3) ..
  show ?case
  proof (cases "length post > limit")
    case False
    then show ?thesis by (simp add: rows collection_page_def)
  next
    case True
    let ?page = "take limit post"
    have page: "?page \<noteq> []" "post = ?page @ drop limit post" using True assms(2) by auto
    have "filter (\<lambda>c. collection_order (last ?page) < collection_order c) L = drop limit post"
    proof -
      have "L = (pre @ ?page) @ drop limit post" using Suc.prems(1) by simp
      moreover have "sorted (map collection_order L)" unfolding L(1) by (rule sorted_sort_key)
      ultimately have "filter (\<lambda>c. collection_order (last (pre @ ?page)) < collection_order c) L = drop limit post"
        using rows_after [of collection_order "pre @ ?page" "drop limit post"] L(2) page(1) by simp
      then show ?thesis using page(1) by simp
    qed
    then have "walk_pages n prin limit (Some (co_created_at (last ?page), co_id (last ?page))) s = drop limit post"
      using Suc.prems(1,2) True assms(2)
      by (intro Suc.IH [of "pre @ ?page"]) (simp_all add: collection_order_def)
    with True page show ?thesis by (simp add: rows collection_page_def Let_def min_def)
  qed
qed

lemma collection_order_inj:
  assumes "distinct (map co_id cs)"
  shows "distinct (map collection_order cs)"
  using assms unfolding collection_order_def by (simp add: distinct_map inj_on_def word_unat_eq_iff)

text \<open>C10: paging is complete: on an unchanged database a client that follows the cursors from the first page
  gets every collection it may see, each exactly once and in the order of creation, whatever the page size,
  and after at most as many pages as there are collections and one more the last page has no cursor.\<close>

theorem collection_pages_complete:
  assumes "catalog_keys_ok s" and "\<forall>c \<in> set (db_collections s). datetime_min < co_created_at c"
    and "1 \<le> limit" and "length (db_collections s) < n"
  shows "walk_pages n prin limit None s = sort_key collection_order (accessible_collections prin s)
    \<and> distinct (map co_id (walk_pages n prin limit None s))
    \<and> set (walk_pages n prin limit None s)
      = {c \<in> set (db_collections s). co_tenant_id c = pr_tenant_id prin \<and> may_access prin (co_id c) False s}"
proof -
  let ?L = "sort_key collection_order (accessible_collections prin s)"
  have ms: "membership_keys_ok s" and ids: "distinct (map co_id (db_collections s))"
    using assms(1) by (simp_all add: catalog_keys_ok_def)
  have d: "distinct (map co_id (accessible_collections prin s))"
    using ids unfolding accessible_collections_def by (rule distinct_map_filter)
  then have dL: "distinct (map co_id ?L)" by (simp add: distinct_map)
  have len: "length ?L < n"
    using assms(4) le_less_trans [OF length_filter_le] by (simp add: accessible_collections_def)
  have "\<forall>c \<in> set ?L. (datetime_min, 0) < collection_order c"
    using assms(2) by (auto simp: accessible_collections_def collection_order_def)
  then have "filter (\<lambda>c. (datetime_min, 0) < collection_order c) ?L = ?L" by (rule filter_True)
  then have walk: "walk_pages n prin limit None s = ?L"
    using walk_rest [OF ms assms(3) refl collection_order_inj, of prin "[]" ?L n None] dL len by simp
  show ?thesis unfolding walk using d
    by (simp add: accessible_collections_def distinct_map) 
qed

section \<open>An upload is queued only when it was verified\<close>

lemma upload_refused_Inr [simp]:
  "upload_refused ct e w = (Inr (valid, reason, ct'), w1) \<longleftrightarrow>
     (\<exists>m. e = StorageIntegrityError m) \<and> \<not> valid \<and> reason = Some ''UPLOAD_INTEGRITY_MISMATCH'' \<and> ct' = ct \<and> w1 = w"
  by (cases e) (auto simp: upload_refused_def return_io_def raise_io_def)

lemma upload_refused_world: "snd (upload_refused ct e w) = w"
  by (cases e) (simp_all add: upload_refused_def return_io_def raise_io_def)

text \<open>An error the inner handler raises passes the outer one.\<close>

lemma upload_refused_twice:
  "catch_io (upload_refused ct e) (upload_refused ct') w = upload_refused ct e w"
  by (cases e) (simp_all add: upload_refused_def catch_io_def return_io_def raise_io_def)

text \<open>The checks only talk to the object store.\<close>

lemma verify_upload_world:
  assumes "verify_upload deps reference n w = (x, w1)"
  shows "w1 = w\<lparr>w_objects := w_objects w1\<rparr>"
proof -
  obtain r y where v: "verify_object (dp_client deps) (dp_bucket deps) reference n (w_objects w) = (r, y)" by (meson surj_pair)
  obtain p y' where p: "read_prefix (dp_client deps) (dp_bucket deps) reference 5 y = (p, y')" by (meson surj_pair)
  have "w1 \<in> {w\<lparr>w_objects := y\<rparr>, w\<lparr>w_objects := y'\<rparr>}"
    using arg_cong [OF assms, of snd]
    by (cases r; cases p) (simp_all add: verify_upload_def Let_def bind_io_def catch_io_def on_objects_def v p
        return_io_def upload_refused_world
        upload_refused_twice [unfolded catch_io_def] split: if_splits)
  then show ?thesis by auto
qed

lemma verified_content:
  assumes "reports_truthfully client bucket sha256 stored" and "\<forall>c. is_sha256 (sha256 c)"
    and "is_sha256 (or_checksum_sha256 reference)" and "verify_object client bucket reference n y = (Inr md, y1)"
  shows "\<exists>content m. stored y1 (or_key reference) = Some (content, m)
    \<and> sha256 content = or_checksum_sha256 reference \<and> int (length content) = n"
proof -
  from assms(4) obtain r h where r: "head_object client bucket (or_key reference) y = (Inr r, y1)"
      "hr_content_length r = Some n" "hr_checksum_sha256 r = Some h"
      "checksum_header_value (or_checksum_sha256 reference) = Inr h"
    by (rule verify_object_Inr)
  from assms(1) r(1) obtain content m where c: "stored y1 (or_key reference) = Some (content, m)"
      "hr_content_length r = Some (int (length content))"
      "\<forall>h. hr_checksum_sha256 r = Some h \<longrightarrow> checksum_header_value (sha256 content) = Inr h"
    unfolding reports_truthfully_def by blast
  with r(3) have "checksum_header_value (sha256 content) = Inr h" by blast
  with checksum_header_inj [of "sha256 content" "or_checksum_sha256 reference" h] assms(2,3) r(4)
  have "sha256 content = or_checksum_sha256 reference" by blast
  with c r(2) show ?thesis by simp
qed

text \<open>What was seen when the upload is valid: first the head of the object, then its first bytes.\<close>

definition upload_checked ::
  "('y, 'd, 'z) worker_deps_scheme \<Rightarrow> ('y \<Rightarrow> string \<Rightarrow> (bytes \<times> (string \<times> string) list) option) \<Rightarrow> ObjectReference
   \<Rightarrow> int \<Rightarrow> string \<Rightarrow> 'y \<Rightarrow> 'y \<Rightarrow> bool" where
  "upload_checked deps stored reference n content_type y0 y2 \<longleftrightarrow>
     content_type \<in> set (po_allowed_mime_types (dp_policy deps))
     \<and> (\<exists>md y1 content m. verify_object (dp_client deps) (dp_bucket deps) reference n y0 = (Inr md, y1)
          \<and> content_type = (case so_content_type md of Some c \<Rightarrow> c | None \<Rightarrow> [])
          \<and> stored y1 (or_key reference) = Some (content, m) \<and> dp_sha256 deps content = or_checksum_sha256 reference
          \<and> int (length content) = n
          \<and> read_prefix (dp_client deps) (dp_bucket deps) reference 5 y1 = (Inr pdf_magic, y2))"

lemma verify_upload_Inr:
  assumes "reports_truthfully (dp_client deps) (dp_bucket deps) (dp_sha256 deps) stored"
    and "\<forall>c. is_sha256 (dp_sha256 deps c)" and "is_sha256 (or_checksum_sha256 reference)"
    and "verify_upload deps reference n w = (Inr (valid, reason, ct), w1)"
  shows "(valid \<longleftrightarrow> reason = None) \<and> (valid \<longrightarrow> upload_checked deps stored reference n ct (w_objects w) (w_objects w1))"
proof -
  obtain r y1 where v: "verify_object (dp_client deps) (dp_bucket deps) reference n (w_objects w) = (r, y1)" by (meson surj_pair)
  obtain p y2 where p: "read_prefix (dp_client deps) (dp_bucket deps) reference 5 y1 = (p, y2)" by (meson surj_pair)
  note run = assms(4) [unfolded verify_upload_def Let_def bind_io_def catch_io_def on_objects_def]
  show ?thesis
  proof (cases r)
    case (Inl e)
    with run v show ?thesis by simp
  next
    case md: (Inr md)
    let ?ct = "case so_content_type md of Some c \<Rightarrow> c | None \<Rightarrow> []"
    show ?thesis
    proof (cases p)
      case (Inl e)
      with run v p md show ?thesis by (simp add: upload_refused_twice [unfolded catch_io_def])
    next
      case (Inr prefix)
      with run v p md have out: "w1 = w\<lparr>w_objects := y2\<rparr>" "(valid, reason, ct) =
          (if ?ct \<notin> set (po_allowed_mime_types (dp_policy deps)) then (False, Some ''UPLOAD_MIME_UNSUPPORTED'', ?ct)
           else if prefix \<noteq> pdf_magic then (False, Some ''PDF_MAGIC_INVALID'', ?ct) else (True, None, ?ct))"
        by (simp_all add: return_io_def)
      from verified_content [OF assms(1-3) v [unfolded md]] show ?thesis
        using out v p md Inr by (auto simp: upload_checked_def split: if_splits option.splits)
    qed
  qed
qed

lemma dispatch_request_result:
  assumes "dispatch_request deps task t v j w = (r, w1)"
  shows "w_db w1 = w_db w \<and> w_objects w1 = w_objects w \<and> (\<exists>x. dp_dispatch deps task t v j (w_broker w) = (x, w_broker w1)
    \<and> r = (case x of Inl _ \<Rightarrow> Inl (CatalogDependencyError ''job dispatch is temporarily unavailable'') | Inr _ \<Rightarrow> Inr ()))"
proof -
  obtain x d where x: "dp_dispatch deps task t v j (w_broker w) = (x, d)" by (meson surj_pair)
  with assms show ?thesis
    by (cases x) (auto simp: dispatch_request_def catch_io_def on_broker_def raise_io_def)
qed

lemma commit_completion_Inr:
  "commit_completion deps prin i (valid, reason, ct) u w = (Inr (v, j), w1) \<longleftrightarrow>
     (\<exists>s1. complete_upload prin i valid reason ct (ws_job_max_attempts (dp_workers deps)) u (dp_env deps (w_db w)) = Inr (v, j, s1)
        \<and> w1 = w\<lparr>w_db := s1\<rparr>)"
  by (auto simp: commit_completion_def in_transaction_Inr bind_res_eq_Inr)

lemma finish_completion_cases:
  assumes "finish_completion deps prin i wanted u (valid, reason, ct) w = (r, w')"
  obtains (refused) e where "r = Inl e" "w' = w\<lparr>w_db := dp_env deps (w_db w)\<rparr>"
    | (committed) completed job where
        "complete_upload prin i valid reason ct (ws_job_max_attempts (dp_workers deps)) u (dp_env deps (w_db w))
          = Inr (completed, job, w_db w')" "w_objects w' = w_objects w"
        "r = Inr (completion_response completed job)
          \<or> job \<noteq> None \<and> r = Inl (CatalogDependencyError ''job dispatch is temporarily unavailable'')"
proof -
  obtain y w1 where y: "commit_completion deps prin i (valid, reason, ct) u w = (y, w1)" by (meson surj_pair)
  note run = assms [unfolded finish_completion_def bind_io_def y]
  show thesis
  proof (cases y)
    case (Inl e)
    with y run show ?thesis by (intro refused [of e]) (auto simp: commit_completion_def in_transaction_Inl)
  next
    case (Inr q)
    then obtain completed job where q: "y = Inr (completed, job)" by (cases q) simp
    from y [unfolded q commit_completion_Inr] obtain s1 where
      c: "complete_upload prin i valid reason ct (ws_job_max_attempts (dp_workers deps)) u (dp_env deps (w_db w))
        = Inr (completed, job, s1)" and s1: "w1 = w\<lparr>w_db := s1\<rparr>" by blast
    show ?thesis
    proof (cases "\<exists>j. job = Some j \<and> wanted completed")
      case False
      with run q have "w' = w1 \<and> r = Inr (completion_response completed job)"
        by (cases job) (simp_all add: return_io_def)
      with c s1 show ?thesis by (intro committed [of completed job]) simp_all
    next
      case True
      then obtain j where j: "job = Some j" "wanted completed" by blast
      obtain z w2 where z: "dispatch_request deps NATIVE_PROCESS (pr_tenant_id prin) i j w1 = (z, w2)" by (meson surj_pair)
      from dispatch_request_result [OF z] obtain x :: "unit res" where d: "w_db w2 = w_db w1" "w_objects w2 = w_objects w1"
        "z = (case x of Inl _ \<Rightarrow> Inl (CatalogDependencyError ''job dispatch is temporarily unavailable'') | Inr _ \<Rightarrow> Inr ())" by blast
      from run q j z have "(case z of Inl e \<Rightarrow> (Inl e, w2) | Inr _ \<Rightarrow> (Inr (completion_response completed job), w2)) = (r, w')"
        by (simp add: return_io_def split: sum.splits)
      with d s1 j c show ?thesis by (intro committed [of completed job]; cases x) auto
    qed
  qed
qed

lemma complete_received:
  assumes "get_version prin i True (dp_env deps (w_db w)) = Inr v" and "dv_state v = RECEIVED"
  shows "complete_upload_request deps prin i u w =
    bind_io (lift_res (original_reference (dp_storage deps) (pr_tenant_id prin) i (dv_content_sha256 v)))
      (\<lambda>reference. bind_io (verify_upload deps reference (dv_size_bytes v)) (finish_completion deps prin i (\<lambda>_. True) u))
      (w\<lparr>w_db := dp_env deps (w_db w)\<rparr>)"
proof -
  have "in_transaction (dp_env deps) (\<lambda>s. bind_res (get_version prin i True s) (\<lambda>v. Inr (v, s))) w
      = (Inr v, w\<lparr>w_db := dp_env deps (w_db w)\<rparr>)"
    by (simp add: in_transaction_Inr assms(1))
  with assms(2) show ?thesis by (simp add: complete_upload_request_def bind_io_def)
qed

text \<open>C8: an upload is queued only when the stored object was verified: a completion of a version in state
  \<open>received\<close> that commits tells the catalog that the upload is valid only when, in the requests this call made,
  the object under the version's key was found with exactly the registered checksum and size and one of the
  allowed types, and began as a PDF file; otherwise it gives the reason of the refusal. The answer then is that
  of the catalog, unless the broker refused the task of the new job. Every other call raises, sends no
  task and leaves the database to the other sessions.\<close>

theorem upload_completion_verified:
  assumes "reports_truthfully (dp_client deps) (dp_bucket deps) (dp_sha256 deps) stored"
    and "\<forall>c. is_sha256 (dp_sha256 deps c)" and "is_sha256 (dv_content_sha256 v)"
    and "get_version prin i True (dp_env deps (w_db w)) = Inr v" and "dv_state v = RECEIVED"
    and "complete_upload_request deps prin i u w = (r, w')"
  shows "(\<exists>reference valid reason ct completed job.
      original_reference (dp_storage deps) (pr_tenant_id prin) i (dv_content_sha256 v) = Inr reference
      \<and> complete_upload prin i valid reason ct (ws_job_max_attempts (dp_workers deps)) u
          (dp_env deps (dp_env deps (w_db w))) = Inr (completed, job, w_db w')
      \<and> (valid \<longleftrightarrow> reason = None)
      \<and> (valid \<longrightarrow> upload_checked deps stored reference (dv_size_bytes v) ct (w_objects w) (w_objects w'))
      \<and> (r = Inr (completion_response completed job)
          \<or> job \<noteq> None \<and> r = Inl (CatalogDependencyError ''job dispatch is temporarily unavailable'')))
    \<or> (\<exists>e. r = Inl e) \<and> w_broker w' = w_broker w
        \<and> w_db w' \<in> {dp_env deps (w_db w), dp_env deps (dp_env deps (w_db w))}"
proof -
  let ?w1 = "w\<lparr>w_db := dp_env deps (w_db w)\<rparr>"
  note run = assms(6) [unfolded complete_received [OF assms(4,5)]]
  show ?thesis
  proof (cases "original_reference (dp_storage deps) (pr_tenant_id prin) i (dv_content_sha256 v)")
    case (Inl e)
    with run show ?thesis by (auto simp: bind_io_def lift_res_def)
  next
    case ref: (Inr reference)
    then have sha: "or_checksum_sha256 reference = dv_content_sha256 v"
      by (auto simp: original_reference_def bind_res_eq_Inr)
    obtain x w2 where x: "verify_upload deps reference (dv_size_bytes v) ?w1 = (x, w2)" by (meson surj_pair)
    obtain y where w2: "w2 = ?w1\<lparr>w_objects := y\<rparr>" using verify_upload_world [OF x] by blast
    show ?thesis
    proof (cases x)
      case (Inl e)
      with run x ref w2 show ?thesis by (auto simp: bind_io_def lift_res_def)
    next
      case (Inr out)
      obtain valid reason ct where o: "out = (valid, reason, ct)" by (cases out)
      note ver = verify_upload_Inr [OF assms(1,2) _ x [unfolded Inr o], unfolded sha, OF assms(3)]
      from run x ref Inr o have "finish_completion deps prin i (\<lambda>_. True) u (valid, reason, ct) w2 = (r, w')"
        by (simp add: bind_io_def lift_res_def)
      then show ?thesis
      proof (cases rule: finish_completion_cases)
        case refused
        with w2 show ?thesis by simp
      next
        case (committed completed job)
        then have "complete_upload prin i valid reason ct (ws_job_max_attempts (dp_workers deps)) u
            (dp_env deps (dp_env deps (w_db w))) = Inr (completed, job, w_db w')" "w_objects w' = w_objects w2"
          using w2 by simp_all
        with ver ref w2 committed(3) show ?thesis
          by (intro disjI1 exI [of _ reference] exI [of _ valid] exI [of _ reason] exI [of _ ct] exI [of _ completed] exI [of _ job])
            simp
      qed
    qed
  qed
qed

section \<open>A lifecycle task names a committed job\<close>

lemma latest_generation_job_in:
  "latest_generation_job s t v stage = Some j \<Longrightarrow>
     \<exists>k \<in> set (db_jobs s). ij_id k = j \<and> ij_tenant_id k = t \<and> ij_document_version_id k = v \<and> ij_stage k = stage"
proof -
  let ?js = "filter (\<lambda>j. ij_tenant_id j = t \<and> ij_document_version_id j = v \<and> ij_stage j = stage) (db_jobs s)"
  assume "latest_generation_job s t v stage = Some j"
  then obtain z zs where z: "sort_key (\<lambda>j. - ij_generation j) ?js = z # zs" "j = ij_id z"
    by (auto simp: latest_generation_job_def)
  have "z \<in> set (sort_key (\<lambda>j. - ij_generation j) ?js)" unfolding z(1) by simp
  with z(2) show ?thesis by auto
qed

lemma lifecycle_task_of_stage:
  "task_for_stage (IngestionStage_value (request_stage operation)) = Inr (PipelineTask_value (lifecycle_task operation))"
  by (simp add: request_stage_def lifecycle_task_def)

lemma request_job_committed:
  assumes "lifecycle_request prin i operation key attempts profile u s = Inr (request, st, Some j, s1)"
    and "version_keys_ok s" "membership_keys_ok s" "audit_ok s" "request_keys_ok s"
  shows "\<exists>k \<in> set (db_jobs s1). ij_id k = j \<and> ij_tenant_id k = pr_tenant_id prin
    \<and> ij_document_version_id k = lr_document_version_id request \<and> ij_stage k = request_stage operation
    \<and> task_for_stage (IngestionStage_value (ij_stage k)) = Inr (PipelineTask_value (lifecycle_task operation))"
proof -
  have "Some j = (if lr_state request = RS_PENDING \<and> operation \<noteq> ''cancel''
      then latest_generation_job s1 (pr_tenant_id prin) (lr_document_version_id request) (request_stage operation) else None)"
    using lifecycle_request_stored [OF assms] by (elim conjE)
  then have "latest_generation_job s1 (pr_tenant_id prin) (lr_document_version_id request) (request_stage operation) = Some j"
    by (simp split: if_splits)
  from latest_generation_job_in [OF this] show ?thesis using lifecycle_task_of_stage [of operation] by metis
qed

text \<open>C9: a lifecycle request sends at most one task, and only for a job that is committed: the task names the
  tenant and the version of the stored request and a job of this version in the stage the operation asks
  for, and it is the task the reconciler would send for that stage, so that a lost message is made up for
  by the same worker. A refused request sends nothing; when the broker refuses the task, the caller is told
  so and the request stays stored.\<close>

theorem lifecycle_dispatches_committed:
  assumes "lifecycle_operation deps prin i operation key profile u w = (r, w')"
    and "version_keys_ok (dp_env deps (w_db w))" "membership_keys_ok (dp_env deps (w_db w))"
      "audit_ok (dp_env deps (w_db w))" "request_keys_ok (dp_env deps (w_db w))"
  shows "(\<exists>e. r = Inl e \<and> w' = w\<lparr>w_db := dp_env deps (w_db w)\<rparr>)
    \<or> (\<exists>request st job. lifecycle_request prin i operation key (ws_job_max_attempts (dp_workers deps)) profile u
          (dp_env deps (w_db w)) = Inr (request, st, job, w_db w')
        \<and> (let answer = \<lparr>lc_operation_id = lr_id request, lc_document_version_id = lr_document_version_id request,
             lc_operation = operation, lc_status = lr_state request, lc_version_state = st\<rparr>
           in case job of
             None \<Rightarrow> r = Inr answer \<and> w_broker w' = w_broker w
           | Some j \<Rightarrow>
               (\<exists>k \<in> set (db_jobs (w_db w')). ij_id k = j \<and> ij_tenant_id k = pr_tenant_id prin
                  \<and> ij_document_version_id k = lr_document_version_id request \<and> ij_stage k = request_stage operation
                  \<and> task_for_stage (IngestionStage_value (ij_stage k)) = Inr (PipelineTask_value (lifecycle_task operation)))
               \<and> (\<exists>x. dp_dispatch deps (lifecycle_task operation) (pr_tenant_id prin) (lr_document_version_id request) j
                    (w_broker w) = (x, w_broker w')
                  \<and> r = (case x of Inl _ \<Rightarrow> Inl (CatalogDependencyError ''job dispatch is temporarily unavailable'')
                         | Inr _ \<Rightarrow> Inr answer))))"
proof (cases "lifecycle_request prin i operation key (ws_job_max_attempts (dp_workers deps)) profile u (dp_env deps (w_db w))")
  case (Inl e)
  with assms(1) show ?thesis
    by (auto simp: lifecycle_operation_def bind_io_def in_transaction_def transaction_def)
next
  case (Inr p)
  then obtain request st job s1 where lr: "lifecycle_request prin i operation key (ws_job_max_attempts (dp_workers deps)) profile u
      (dp_env deps (w_db w)) = Inr (request, st, job, s1)" by (cases p) simp
  let ?w1 = "w\<lparr>w_db := s1\<rparr>"
  let ?answer = "\<lparr>lc_operation_id = lr_id request, lc_document_version_id = lr_document_version_id request,
             lc_operation = operation, lc_status = lr_state request, lc_version_state = st\<rparr>"
  note run = assms(1) [unfolded lifecycle_operation_def]
  show ?thesis
  proof (cases job)
    case None
    with run lr have "r = Inr ?answer" "w' = ?w1"
      by (simp_all add: bind_io_def in_transaction_def transaction_def return_io_def)
    with lr None show ?thesis by simp
  next
    case (Some j)
    note k = request_job_committed [OF lr [unfolded Some] assms(2-5)]
    obtain z w2 where z: "dispatch_request deps (lifecycle_task operation) (pr_tenant_id prin) (lr_document_version_id request) j ?w1 = (z, w2)"
      by (meson surj_pair)
    from dispatch_request_result [OF z] obtain x :: "unit res" where d: "w_db w2 = s1"
      "dp_dispatch deps (lifecycle_task operation) (pr_tenant_id prin) (lr_document_version_id request) j (w_broker w) = (x, w_broker w2)"
      "z = (case x of Inl _ \<Rightarrow> Inl (CatalogDependencyError ''job dispatch is temporarily unavailable'') | Inr _ \<Rightarrow> Inr ())" by auto
    from run lr Some z have "(case z of Inl e \<Rightarrow> (Inl e, w2) | Inr _ \<Rightarrow> (Inr ?answer, w2)) = (r, w')"
      by (simp add: bind_io_def in_transaction_def transaction_def return_io_def split: sum.splits)
    with d have "w' = w2" "r = (case x of Inl _ \<Rightarrow> Inl (CatalogDependencyError ''job dispatch is temporarily unavailable'')
        | Inr _ \<Rightarrow> Inr ?answer)" by (cases x; auto)+
    with d(1,2) k lr Some show ?thesis by (simp add: Let_def)
  qed
qed

section \<open>A registration hands out the key of its version\<close>

text \<open>
  The versions that were uploaded, and not derived from another, are stored under the key of their own reference. A
  derived version shares the object of its source, and its idempotency key is the one that \<open>create_reprocessed_version\<close>
  makes.
\<close>

definition reprocess_key :: "string \<Rightarrow> bool" where
  "reprocess_key key \<longleftrightarrow> take 10 key = ''reprocess:''"

definition originals_keyed :: "StorageSettings \<Rightarrow> session \<Rightarrow> bool" where
  "originals_keyed settings s \<longleftrightarrow> (\<forall>v \<in> set (db_versions s).
     if dv_reprocessed_from_version_id v = None
     then (\<exists>reference. original_reference settings (dv_tenant_id v) (dv_id v) (dv_content_sha256 v) = Inr reference
        \<and> dv_object_key v = or_key reference)
     else reprocess_key (dv_idempotency_key v))"

text \<open>The one operation that derives a version keeps this.\<close>

lemma reprocessed_keyed:
  assumes "create_reprocessed_version prin source profile rid u s = Inr (row, s')"
    and "version_keys_ok s" "audit_ok s" and "originals_keyed settings s"
  shows "originals_keyed settings s'"
proof -
  from assms(1) obtain x where "validate_reprocessing_source (dv_state source) = Inr x"
    unfolding create_reprocessed_version_def by (cases "validate_reprocessing_source (dv_state source)") auto
  then have "reprocess_key (dv_idempotency_key row)" "dv_reprocessed_from_version_id row \<noteq> None"
    using assms(1) unfolding create_reprocessed_version_def Let_def
    by (auto simp: reprocess_key_def elim!: bind_res_InrE split: if_splits)
  moreover from create_reprocessed_version_ok [OF assms(1-3)] have "db_versions s' = db_versions s @ [row]" by auto
  ultimately show ?thesis using assms(4) by (auto simp: originals_keyed_def)
qed




section \<open>Witnesses\<close>

definition second_collection :: collection_row where
  "second_collection = sample_collection\<lparr>co_id := 7, co_name := ''notes'', co_created_at := 5\<rparr>"

definition two_collections :: session where
  "two_collections = sample_session\<lparr>db_collections := [second_collection, sample_collection],
     db_memberships := db_memberships sample_session @ [\<lparr>cm_id = 8, cm_tenant_id = 1, cm_collection_id = 7,
       cm_principal_subject = ''alice'', cm_role = CR_VIEWER\<rparr>]\<rparr>"

theorem collection_pages_complete_witness:
  "walk_pages 3 sample_principal 1 None two_collections = [sample_collection, second_collection]"
proof -
  have "catalog_keys_ok two_collections"
    by (simp add: catalog_keys_ok_def two_collections_def second_collection_def sample_defs version_keys_ok_def
        membership_keys_ok_def membership_key_def)
  moreover have "\<forall>c \<in> set (db_collections two_collections). datetime_min < co_created_at c"
    by (simp add: two_collections_def second_collection_def sample_defs datetime_min_def)
  moreover have "accessible_collections sample_principal two_collections = [second_collection, sample_collection]"
    by (simp add: accessible_collections_def two_collections_def second_collection_def sample_defs may_access_def member_of_def)
  moreover have "length (db_collections two_collections) < 3" by (simp add: two_collections_def)
  ultimately show ?thesis
    using collection_pages_complete [of two_collections 1 3 sample_principal]
    by (simp add: collection_order_def second_collection_def sample_collection_def)
qed

text \<open>A store whose digest is a constant, and a PDF file of a hundred bytes in it.\<close>

definition pdf_content :: bytes where
  "pdf_content = pdf_magic @ replicate 95 0"

definition pdf_client :: "memory s3_client" where
  "pdf_client = memory_client\<lparr>head_object := (\<lambda>bucket k y. case fst y k of
        None \<Rightarrow> (Inl StorageError, y)
      | Some (content, m) \<Rightarrow> (Inr \<lparr>hr_content_length = Some (int (length content)),
          hr_checksum_sha256 = (case checksum_header_value sample_sha of Inr h \<Rightarrow> Some h | Inl e \<Rightarrow> None),
          hr_metadata = Some m, hr_version_id = None, hr_content_type = Some ''application/pdf''\<rparr>, y))\<rparr>"

definition catalog_deps :: "(memory, string list) worker_deps" where
  "catalog_deps = sample_deps\<lparr>dp_client := pdf_client, dp_sha256 := (\<lambda>_. sample_sha)\<rparr>"

lemma catalog_deps_fields [simp]:
  "dp_client catalog_deps = pdf_client" "dp_sha256 catalog_deps = (\<lambda>_. sample_sha)" "dp_env catalog_deps = id"
  "dp_bucket catalog_deps = ''b''" "dp_storage catalog_deps = sample_settings" "dp_policy catalog_deps = sample_policy"
  "ws_job_max_attempts (dp_workers catalog_deps) = 3"
  "dp_dispatch catalog_deps = (\<lambda>task t v j sent. (Inr (), sent @ [PipelineTask_value task]))"
  by (simp_all add: catalog_deps_def sample_deps_def sample_workers_def)

lemma pdf_client_truthful: "reports_truthfully pdf_client ''b'' (\<lambda>_. sample_sha) fst"
  by (auto simp: reports_truthfully_def pdf_client_def split: option.splits sum.splits)

lemma upload_reference: "\<exists>reference. original_reference sample_settings 1 4 sample_sha = Inr reference
    \<and> or_checksum_sha256 reference = sample_sha"
  using sha_header by (auto simp: original_reference_def)

theorem upload_completion_verified_witness:
  "\<exists>reference (w :: (unit, memory, string list) world) w'. original_reference sample_settings 1 4 sample_sha = Inr reference
     \<and> complete_upload_request catalog_deps sample_principal 4 (\<lambda>n. word_of_nat (n + 20)) w
         = (Inr (completion_response queued_version (Some 23)), w')
     \<and> w_broker w' = [PipelineTask_value NATIVE_PROCESS]
     \<and> (\<exists>valid reason ct s completed job. complete_upload sample_principal 4 valid reason ct 3 (\<lambda>n. word_of_nat (n + 20)) s
            = Inr (completed, job, w_db w') \<and> completion_response completed job = completion_response queued_version (Some 23))"
proof -
  obtain reference where ref: "original_reference sample_settings 1 4 sample_sha = Inr reference"
    "or_checksum_sha256 reference = sample_sha" using upload_reference by blast
  obtain h where h: "checksum_header_value sample_sha = Inr h" using sha_header by blast
  let ?w = "\<lparr>w_db = registered_session, w_search = (), w_objects = ((\<lambda>_. Some (pdf_content, or_metadata reference)), []),
     w_broker = []\<rparr> :: (unit, memory, string list) world"
  have v: "get_version sample_principal 4 True registered_session = Inr sample_version"
    by (simp add: get_version_def member_of_def editor_role_def sample_defs)
  have f: "dv_state sample_version = RECEIVED" "dv_content_sha256 sample_version = sample_sha" "dv_size_bytes sample_version = 100"
    by (simp_all add: sample_version_def)
  let ?w1 = "?w\<lparr>w_objects := (fst (w_objects ?w), drop 5 pdf_content)\<rparr>"
  have "verify_object pdf_client ''b'' reference 100 (w_objects ?w)
      = (Inr \<lparr>so_key = or_key reference, so_content_length = 100, so_checksum_sha256 = sample_sha,
          so_content_type = Some ''application/pdf'', so_version_id = None, so_metadata = or_metadata reference\<rparr>, w_objects ?w)"
    by (simp add: verify_object_def Let_def bind_io_def pdf_client_def h ref(2) lift_res_def return_io_def same_dict_def
        pdf_content_def pdf_magic_def)
  moreover have "read_prefix pdf_client ''b'' reference 5 (w_objects ?w) = (Inr pdf_magic, w_objects ?w1)"
    by (simp add: read_prefix_def bind_io_def pdf_client_def memory_client_def return_io_def pdf_content_def pdf_magic_def)
  ultimately have ver: "verify_upload catalog_deps reference 100 ?w = (Inr (True, None, ''application/pdf''), ?w1)"
    by (simp add: verify_upload_def Let_def bind_io_def catch_io_def on_objects_def return_io_def sample_policy_def)
  have run: "complete_upload_request catalog_deps sample_principal 4 (\<lambda>n. word_of_nat (n + 20)) ?w
      = (Inr (completion_response queued_version (Some 23)),
         ?w1\<lparr>w_db := queued_session, w_broker := [PipelineTask_value NATIVE_PROCESS]\<rparr>)"
    using ver sample_completion
    by (simp add: complete_upload_request_def bind_io_def in_transaction_def transaction_def v f ref lift_res_def
        finish_completion_def commit_completion_def dispatch_request_def catch_io_def on_broker_def return_io_def)
  have "reports_truthfully (dp_client catalog_deps) (dp_bucket catalog_deps) (dp_sha256 catalog_deps) fst"
    using pdf_client_truthful by simp
  from upload_completion_verified [OF this _ _ _ f(1) run] v f(2)
  have ex: "\<exists>valid reason ct s completed job. complete_upload sample_principal 4 valid reason ct 3 (\<lambda>n. word_of_nat (n + 20)) s
            = Inr (completed, job, queued_session) \<and> completion_response completed job = completion_response queued_version (Some 23)"
    by (auto; metis)
  let ?w2 = "?w1\<lparr>w_db := queued_session, w_broker := [PipelineTask_value NATIVE_PROCESS]\<rparr>"
  show ?thesis
  proof (rule exI [of _ reference], rule exI [of _ ?w], rule exI [of _ ?w2], intro conjI)
    show "original_reference sample_settings 1 4 sample_sha = Inr reference" by (rule ref(1))
    show "complete_upload_request catalog_deps sample_principal 4 (\<lambda>n. word_of_nat (n + 20)) ?w
      = (Inr (completion_response queued_version (Some 23)),
         ?w1\<lparr>w_db := queued_session, w_broker := [PipelineTask_value NATIVE_PROCESS]\<rparr>)" by (rule run)
    show "w_broker ?w2 = [PipelineTask_value NATIVE_PROCESS]" by simp
    show "\<exists>valid reason ct s completed job. complete_upload sample_principal 4 valid reason ct 3
        (\<lambda>n. word_of_nat (n + 20)) s = Inr (completed, job, w_db ?w2)
      \<and> completion_response completed job = completion_response queued_version (Some 23)" using ex by simp
  qed
qed

theorem lifecycle_dispatches_committed_witness:
  "\<exists>r w'. lifecycle_operation catalog_deps sample_principal 4 ''delete'' ''del'' None (\<lambda>n. word_of_nat (n + 30))
       (sample_world queued_session) = (r, w')
     \<and> w_db w' = deleting_session \<and> w_broker w' = [''app.workers.lifecycle.delete_document'']
     \<and> (\<exists>k \<in> set (db_jobs (w_db w')). ij_id k = 31 \<and> ij_stage k = ST_DELETE)"
proof -
  obtain r w' where p: "lifecycle_operation catalog_deps sample_principal 4 ''delete'' ''del'' None (\<lambda>n. word_of_nat (n + 30))
       (sample_world queued_session) = (r, w')" by (metis surj_pair)
  have env: "dp_env catalog_deps (w_db (sample_world queued_session)) = queued_session" by (simp add: sample_world_def)
  have "w' \<noteq> (sample_world queued_session)\<lparr>w_db := queued_session\<rparr>"
    using p sample_delete
    by (auto simp: lifecycle_operation_def bind_io_def in_transaction_def transaction_def dispatch_request_def catch_io_def
        on_broker_def return_io_def sample_world_def)
  with lifecycle_dispatches_committed [OF p, unfolded env] queued_session_ok sample_delete have
    "w_db w' = deleting_session" "w_broker w' = [''app.workers.lifecycle.delete_document'']"
    "\<exists>k \<in> set (db_jobs (w_db w')). ij_id k = 31 \<and> ij_stage k = request_stage ''delete''"
    by (auto simp: Let_def sample_world_def lifecycle_task_def)
  with p show ?thesis by (auto simp: request_stage_def)
qed



end
